(* ===== verification/Prelude.thy ===== *)
theory Prelude
  imports Complex_Main "HOL-Library.AList" "HOL-Library.Multiset"
begin

text \<open>
  Shared vocabulary of the development.

  \<^item> Python exceptions are values of \<open>py_error\<close>; a function that may raise and keeps no
    state returns \<open>py_error + 'a\<close> (\<open>Inl\<close> is the exception).
  \<^item> Code that mutates an object or draws from a \<open>random.Random\<close> is a state-and-error
    computation \<open>('s, 'a) sm\<close>: it returns its result or exception together with the state it
    leaves behind, so a mutation made before a raise stays visible, as it does in Python.
  \<^item> A \<open>random.Random\<close> is a tape of raw draws. Each library call consumes draws and turns
    them into a value the way CPython does; a theorem that holds for every tape holds for every
    generator, seed and seeding scheme. A tape that runs out reads as zeros, so every finite tape
    stands for an infinite one.
  \<^item> A Python \<open>dict\<close> is an association list in insertion order with distinct keys: lookup is
    \<open>map_of\<close>, assignment is \<open>AList.update\<close> (an existing key keeps its place, a new key goes to
    the end).
\<close>

section \<open>Exceptions and results\<close>

datatype py_error =
    ValueError string
  | KeyError string
  | IndexError string
  | TypeError string
  | AttributeError string
  | NotImplementedError string
  | RuntimeError string
  | ZeroDivisionError
  | ExpansionGenerationError int nat "string list"
  | DuplicateLoreId string
  | DuplicateEntityId string
  | UnknownResource string
  | NotVoluntary string
  | FateEconomyError string
  | FateConflictError string
  | FateContestError string
  | FateChargenError string
  | GearCompileError string

type_synonym 'a res = "py_error + 'a"

definition rbind :: "'a res \<Rightarrow> ('a \<Rightarrow> 'b res) \<Rightarrow> 'b res" where
  "rbind m f = (case m of Inl e \<Rightarrow> Inl e | Inr x \<Rightarrow> f x)"

fun rmap :: "('a \<Rightarrow> 'b res) \<Rightarrow> 'a list \<Rightarrow> 'b list res" where
  "rmap f [] = Inr []"
| "rmap f (x # xs) = rbind (f x) (\<lambda>y. rbind (rmap f xs) (\<lambda>ys. Inr (y # ys)))"

fun rfold :: "('a \<Rightarrow> 's \<Rightarrow> 's res) \<Rightarrow> 'a list \<Rightarrow> 's \<Rightarrow> 's res" where
  "rfold f [] s = Inr s"
| "rfold f (x # xs) s = rbind (f x s) (rfold f xs)"

lemma rbind_simps [simp]: "rbind (Inl e) f = Inl e" "rbind (Inr x) f = f x"
  by (simp_all add: rbind_def)

lemma rbind_Inr_iff: "rbind m f = Inr y \<longleftrightarrow> (\<exists>x. m = Inr x \<and> f x = Inr y)"
  by (cases m) auto

lemma rbind_Inl_iff: "rbind m f = Inl e \<longleftrightarrow> m = Inl e \<or> (\<exists>x. m = Inr x \<and> f x = Inl e)"
  by (cases m) auto

lemma rmap_ok_iff: "(\<exists>ys. rmap g xs = Inr ys) \<longleftrightarrow> (\<forall>x \<in> set xs. \<exists>y. g x = Inr y)"
  by (induction xs) (auto simp: rbind_Inr_iff)

lemma rmap_projr: "rmap g xs = Inr ys \<Longrightarrow> ys = map (\<lambda>x. projr (g x)) xs"
  by (induction xs arbitrary: ys) (auto simp: rbind_Inr_iff)

lemma rmap_all: "(\<And>x. x \<in> set xs \<Longrightarrow> g x = Inr (k x)) \<Longrightarrow> rmap g xs = Inr (map k xs)"
  by (induction xs) simp_all

lemma rmap_map: "rmap g (map h xs) = rmap (\<lambda>x. g (h x)) xs"
  by (induction xs) simp_all

lemma rmap_result: "rmap g xs = Inr ys \<Longrightarrow> y \<in> set ys \<Longrightarrow> \<exists>x \<in> set xs. g x = Inr y"
  by (induction xs arbitrary: ys) (auto simp: rbind_Inr_iff)

lemma rmap_length: "rmap g xs = Inr ys \<Longrightarrow> length ys = length xs"
  by (induction xs arbitrary: ys) (auto simp: rbind_Inr_iff)

lemma rmap_zip: "rmap g xs = Inr ys \<Longrightarrow> list_all2 (\<lambda>x y. g x = Inr y) xs ys"
  by (induction xs arbitrary: ys) (auto simp: rbind_Inr_iff)

lemma rbind_cong [fundef_cong]:
  "m = m' \<Longrightarrow> (\<And>x. m' = Inr x \<Longrightarrow> f x = f' x) \<Longrightarrow> rbind m f = rbind m' f'"
  by (cases m') auto

lemma rfold_append: "rfold f (xs @ ys) s = rbind (rfold f xs s) (rfold f ys)"
proof (induction xs arbitrary: s)
  case Nil
  show ?case by simp
next
  case (Cons x xs)
  then show ?case by (cases "f x s") simp_all
qed

lemma rfold_invariant:
  assumes step: "\<And>x s s'. x \<in> set xs \<Longrightarrow> P s \<Longrightarrow> f x s = Inr s' \<Longrightarrow> P s'"
    and start: "P s" and result: "rfold f xs s = Inr s'"
  shows "P s'"
  using assms
proof (induction xs arbitrary: s)
  case Nil
  then show ?case by simp
next
  case (Cons x xs)
  from Cons.prems(3) obtain s1 where s1: "f x s = Inr s1" "rfold f xs s1 = Inr s'"
    by (auto simp: rbind_Inr_iff)
  have "P s1" using Cons.prems(1)[OF _ Cons.prems(2) s1(1)] by simp
  show ?case
  proof (rule Cons.IH[OF _ \<open>P s1\<close> s1(2)])
    fix y t t'
    assume "y \<in> set xs" "P t" "f y t = Inr t'"
    then show "P t'" using Cons.prems(1)[of y t t'] by simp
  qed
qed

section \<open>State and exceptions\<close>

type_synonym ('s, 'a) sm = "'s \<Rightarrow> 'a res \<times> 's"

definition ret :: "'a \<Rightarrow> ('s, 'a) sm" where
  "ret x s = (Inr x, s)"

definition raise :: "py_error \<Rightarrow> ('s, 'a) sm" where
  "raise e s = (Inl e, s)"

definition sbind :: "('s, 'a) sm \<Rightarrow> ('a \<Rightarrow> ('s, 'b) sm) \<Rightarrow> ('s, 'b) sm" where
  "sbind m f s = (case m s of (Inl e, s') \<Rightarrow> (Inl e, s') | (Inr x, s') \<Rightarrow> f x s')"

definition sthen :: "('s, 'a) sm \<Rightarrow> ('s, 'b) sm \<Rightarrow> ('s, 'b) sm" where
  "sthen m k = sbind m (\<lambda>_. k)"

definition get_st :: "('s, 's) sm" where
  "get_st s = (Inr s, s)"

definition put_st :: "'s \<Rightarrow> ('s, unit) sm" where
  "put_st s' s = (Inr (), s')"

definition modify :: "('s \<Rightarrow> 's) \<Rightarrow> ('s, unit) sm" where
  "modify f s = (Inr (), f s)"

definition lift_res :: "'a res \<Rightarrow> ('s, 'a) sm" where
  "lift_res r s = (r, s)"

fun smap :: "('a \<Rightarrow> ('s, 'b) sm) \<Rightarrow> 'a list \<Rightarrow> ('s, 'b list) sm" where
  "smap f [] = ret []"
| "smap f (x # xs) = sbind (f x) (\<lambda>y. sbind (smap f xs) (\<lambda>ys. ret (y # ys)))"

fun sforeach :: "('a \<Rightarrow> ('s, unit) sm) \<Rightarrow> 'a list \<Rightarrow> ('s, unit) sm" where
  "sforeach f [] = ret ()"
| "sforeach f (x # xs) = sthen (f x) (sforeach f xs)"

named_theorems sm_defs \<open>the definitions of the state-and-exception primitives\<close>

lemmas sm_core_defs [sm_defs] =
  ret_def raise_def sbind_def sthen_def get_st_def put_st_def modify_def lift_res_def

text \<open>
  \<open>ok m Q\<close>: from every state the computation returns (never raises), with a result in \<open>Q\<close>.
  \<open>keeps P m\<close>: whatever the computation does, raise included, it keeps the state predicate.
\<close>

definition ok :: "('s, 'a) sm \<Rightarrow> ('a \<Rightarrow> bool) \<Rightarrow> bool" where
  "ok m Q \<longleftrightarrow> (\<forall>s. \<exists>x s'. m s = (Inr x, s') \<and> Q x)"

definition keeps :: "('s \<Rightarrow> bool) \<Rightarrow> ('s, 'a) sm \<Rightarrow> bool" where
  "keeps P m \<longleftrightarrow> (\<forall>s. P s \<longrightarrow> P (snd (m s)))"

named_theorems wp \<open>composition rules for \<open>ok\<close> and \<open>keeps\<close>\<close>

lemma ok_ret [wp]: "Q x \<Longrightarrow> ok (ret x) Q"
  by (simp add: ok_def ret_def)

lemma ok_sbind: "ok m P \<Longrightarrow> (\<And>x. P x \<Longrightarrow> ok (f x) Q) \<Longrightarrow> ok (sbind m f) Q"
  unfolding ok_def sbind_def
proof (intro allI)
  fix s
  assume m: "\<forall>s. \<exists>x s'. m s = (Inr x, s') \<and> P x"
    and f: "\<And>x. P x \<Longrightarrow> \<forall>s. \<exists>y s'. f x s = (Inr y, s') \<and> Q y"
  from m obtain x s1 where "m s = (Inr x, s1)" "P x" by blast
  with f show "\<exists>y s'. (case m s of (Inl e, s') \<Rightarrow> (Inl e, s') | (Inr x, s') \<Rightarrow> f x s') = (Inr y, s') \<and> Q y"
    by auto
qed

lemma ok_weaken: "ok m P \<Longrightarrow> (\<And>x. P x \<Longrightarrow> Q x) \<Longrightarrow> ok m Q"
  unfolding ok_def by blast

lemma ok_lift_res: "r = Inr x \<Longrightarrow> Q x \<Longrightarrow> ok (lift_res r) Q"
  by (simp add: ok_def lift_res_def)

lemma ok_if: "(b \<Longrightarrow> ok m Q) \<Longrightarrow> (\<not> b \<Longrightarrow> ok k Q) \<Longrightarrow> ok (if b then m else k) Q"
  by simp

lemma sbind_lift_Inr [simp]: "sbind (lift_res (Inr x)) f = f x"
  by (rule ext) (simp add: sbind_def lift_res_def)

lemma sbind_ret [simp]: "sbind (ret x) f = f x"
  by (rule ext) (simp add: sbind_def ret_def)

lemma ok_smap:
  assumes "\<And>x. x \<in> set xs \<Longrightarrow> ok (f x) (R x)"
  shows "ok (smap f xs) (\<lambda>ys. list_all2 R xs ys)"
  using assms
proof (induction xs)
  case Nil
  show ?case by (simp add: wp)
next
  case (Cons x xs)
  have "ok (smap f xs) (list_all2 R xs)" using Cons by simp
  then show ?case
    using Cons.prems[of x] by (auto intro!: ok_sbind wp)
qed

lemma ok_result: "ok m Q \<Longrightarrow> \<exists>x. fst (m s) = Inr x \<and> Q x"
  unfolding ok_def by (metis fst_conv)

lemma keeps_ret [wp]: "keeps P (ret x)"
  by (simp add: keeps_def ret_def)

lemma keeps_raise [wp]: "keeps P (raise e)"
  by (simp add: keeps_def raise_def)

lemma keeps_get [wp]: "keeps P get_st"
  by (simp add: keeps_def get_st_def)

lemma keeps_lift_res [wp]: "keeps P (lift_res r)"
  by (simp add: keeps_def lift_res_def)

lemma keeps_modify [wp]: "(\<And>s. P s \<Longrightarrow> P (f s)) \<Longrightarrow> keeps P (modify f)"
  by (simp add: keeps_def modify_def)

lemma keeps_sbind [wp]: "keeps P m \<Longrightarrow> (\<And>x. keeps P (f x)) \<Longrightarrow> keeps P (sbind m f)"
  by (fastforce simp: keeps_def sbind_def split: prod.splits sum.splits)

lemma keeps_sthen [wp]: "keeps P m \<Longrightarrow> keeps P k \<Longrightarrow> keeps P (sthen m k)"
  by (simp add: sthen_def wp)

lemma keeps_sforeach [wp]: "(\<And>x. x \<in> set xs \<Longrightarrow> keeps P (f x)) \<Longrightarrow> keeps P (sforeach f xs)"
  by (induction xs) (simp_all add: wp)

lemma keeps_if [wp]: "(b \<Longrightarrow> keeps P m) \<Longrightarrow> (\<not> b \<Longrightarrow> keeps P k) \<Longrightarrow> keeps P (if b then m else k)"
  by simp

section \<open>The random-number tape\<close>

type_synonym rng = "nat list"

fun draw :: "(rng, nat) sm" where
  "draw [] = (Inr 0, [])"
| "draw (x # xs) = (Inr x, xs)"

text \<open>\<open>Random._randbelow(n)\<close> for \<open>n > 0\<close>: a value below \<open>n\<close>.\<close>

definition randbelow :: "nat \<Rightarrow> (rng, nat) sm" where
  "randbelow n = sbind draw (\<lambda>x. ret (x mod n))"

definition randrange :: "nat \<Rightarrow> (rng, nat) sm" where
  "randrange n = (if n = 0 then raise (ValueError ''empty range for randrange'') else randbelow n)"

definition randint :: "int \<Rightarrow> int \<Rightarrow> (rng, int) sm" where
  "randint lo hi =
     (if hi < lo then raise (ValueError ''empty range for randrange'')
      else sbind (randbelow (nat (hi - lo + 1))) (\<lambda>k. ret (lo + int k)))"

definition choice :: "'a list \<Rightarrow> (rng, 'a) sm" where
  "choice xs =
     (if xs = [] then raise (IndexError ''Cannot choose from an empty sequence'')
      else sbind (randbelow (length xs)) (\<lambda>k. ret (xs ! k)))"

text \<open>\<open>Random.shuffle\<close>: the Fisher-Yates loop of CPython, from the last index down.\<close>

definition swap_at :: "nat \<Rightarrow> nat \<Rightarrow> 'a list \<Rightarrow> 'a list" where
  "swap_at i j xs = xs[i := xs ! j, j := xs ! i]"

fun shuffle_from :: "nat \<Rightarrow> 'a list \<Rightarrow> (rng, 'a list) sm" where
  "shuffle_from 0 xs = ret xs"
| "shuffle_from (Suc i) xs =
     sbind (randbelow (Suc (Suc i))) (\<lambda>j. shuffle_from i (swap_at (Suc i) j xs))"

definition shuffle :: "'a list \<Rightarrow> (rng, 'a list) sm" where
  "shuffle xs = shuffle_from (length xs - 1) xs"

text \<open>
  \<open>Random.sample(pool, k)\<close>: draw a position among the items not yet taken, \<open>k\<close> times. CPython
  implements the same draw with a pool or a rejection set depending on the sizes; which result a
  generator state leads to differs, the results that can occur (all \<open>k\<close>-sequences of distinct
  positions) do not.
\<close>

definition remove_nth :: "nat \<Rightarrow> 'a list \<Rightarrow> 'a list" where
  "remove_nth i xs = take i xs @ drop (Suc i) xs"

fun sample_from :: "nat \<Rightarrow> 'a list \<Rightarrow> (rng, 'a list) sm" where
  "sample_from 0 pool = ret []"
| "sample_from (Suc k) pool =
     sbind (randbelow (length pool)) (\<lambda>j.
     sbind (sample_from k (remove_nth j pool)) (\<lambda>ys. ret (pool ! j # ys)))"

definition sample :: "'a list \<Rightarrow> nat \<Rightarrow> (rng, 'a list) sm" where
  "sample pool k =
     (if length pool < k then raise (ValueError ''Sample larger than population or is negative'')
      else sample_from k pool)"

lemma draw_ok: "ok draw (\<lambda>_. True)"
  unfolding ok_def
proof
  fix s :: rng
  show "\<exists>x s'. draw s = (Inr x, s') \<and> True" by (cases s) auto
qed

lemma randbelow_ok: "0 < n \<Longrightarrow> ok (randbelow n) (\<lambda>k. k < n)"
  unfolding randbelow_def by (rule ok_sbind[OF draw_ok]) (simp add: wp)

lemma randrange_ok: "0 < n \<Longrightarrow> ok (randrange n) (\<lambda>k. k < n)"
  by (simp add: randrange_def randbelow_ok)

lemma randint_ok: "lo \<le> hi \<Longrightarrow> ok (randint lo hi) (\<lambda>k. lo \<le> k \<and> k \<le> hi)"
  unfolding randint_def
  by (auto intro!: ok_sbind[OF randbelow_ok] wp)

lemma choice_ok: "xs \<noteq> [] \<Longrightarrow> ok (choice xs) (\<lambda>x. x \<in> set xs)"
  unfolding choice_def
  by (auto intro!: ok_sbind[OF randbelow_ok] wp)

lemma mset_swap_at: "i < length xs \<Longrightarrow> j < length xs \<Longrightarrow> mset (swap_at i j xs) = mset xs"
  unfolding swap_at_def by (simp add: mset_swap)

lemma length_swap_at [simp]: "length (swap_at i j xs) = length xs"
  by (simp add: swap_at_def)

lemma shuffle_from_ok: "xs = [] \<or> i < length xs \<Longrightarrow> ok (shuffle_from i xs) (\<lambda>ys. mset ys = mset xs)"
proof (induction i arbitrary: xs)
  case 0
  show ?case by (simp add: wp)
next
  case (Suc i)
  show ?case
  proof (cases "xs = []")
    case True
    have "ok (shuffle_from i ([]::'a list)) (\<lambda>ys. mset ys = mset [])" using Suc.IH by blast
    then show ?thesis
      using True by (auto intro!: ok_sbind[OF randbelow_ok] simp: swap_at_def)
  next
    case False
    with Suc.prems have i: "Suc i < length xs" by simp
    show ?thesis
      unfolding shuffle_from.simps
    proof (rule ok_sbind[OF randbelow_ok])
      fix j assume j: "j < Suc (Suc i)"
      with i have "mset (swap_at (Suc i) j xs) = mset xs" by (simp add: mset_swap_at)
      then show "ok (shuffle_from i (swap_at (Suc i) j xs)) (\<lambda>ys. mset ys = mset xs)"
        using Suc.IH[of "swap_at (Suc i) j xs"] i by simp
    qed simp
  qed
qed

lemma shuffle_ok: "ok (shuffle xs) (\<lambda>ys. mset ys = mset xs)"
  unfolding shuffle_def by (rule shuffle_from_ok) (cases xs; simp)

lemma mset_remove_nth: "i < length xs \<Longrightarrow> mset xs = add_mset (xs ! i) (mset (remove_nth i xs))"
  unfolding remove_nth_def by (metis add_mset_add_single id_take_nth_drop mset.simps(2) mset_append union_mset_add_mset_right)

lemma length_remove_nth: "i < length xs \<Longrightarrow> length (remove_nth i xs) = length xs - 1"
  by (auto simp: remove_nth_def)

lemma sample_from_ok:
  "k \<le> length pool \<Longrightarrow> ok (sample_from k pool) (\<lambda>ys. length ys = k \<and> mset ys \<subseteq># mset pool)"
proof (induction k arbitrary: pool)
  case 0
  show ?case by (simp add: wp)
next
  case (Suc k)
  show ?case
    unfolding sample_from.simps
  proof (rule ok_sbind[OF randbelow_ok])
    fix j assume j: "j < length pool"
    have "k \<le> length (remove_nth j pool)" using Suc.prems j by (simp add: length_remove_nth)
    from Suc.IH[OF this]
    show "ok (sbind (sample_from k (remove_nth j pool)) (\<lambda>ys. ret (pool ! j # ys)))
            (\<lambda>ys. length ys = Suc k \<and> mset ys \<subseteq># mset pool)"
      by (rule ok_sbind) (auto intro!: wp simp: mset_remove_nth[OF j])
  qed (use Suc.prems in auto)
qed

lemma sample_ok:
  "k \<le> length pool \<Longrightarrow> ok (sample pool k) (\<lambda>ys. length ys = k \<and> mset ys \<subseteq># mset pool)"
  by (simp add: sample_def sample_from_ok)

lemma mset_subset_distinct: "mset ys \<subseteq># mset xs \<Longrightarrow> distinct xs \<Longrightarrow> distinct ys"
proof -
  assume sub: "mset ys \<subseteq># mset xs" and "distinct xs"
  have "count (mset ys) a \<le> 1" for a
  proof -
    have "count (mset ys) a \<le> count (mset xs) a" using sub by (rule mset_subset_eq_count)
    also have "\<dots> \<le> 1" using \<open>distinct xs\<close> by (simp add: distinct_count_atmost_1)
    finally show ?thesis .
  qed
  moreover have "count (mset ys) a \<noteq> 0" if "a \<in> set ys" for a
    using that by (simp add: count_eq_zero_iff)
  ultimately show "distinct ys"
    unfolding distinct_count_atmost_1 by (metis One_nat_def le_SucE le_zero_eq count_mset_0_iff)
qed

lemma mset_subset_set: "mset ys \<subseteq># mset xs \<Longrightarrow> set ys \<subseteq> set xs"
  by (metis set_mset_mono set_mset_mset)

section \<open>Strings\<close>

text \<open>Python's \<open>str\<close> of a number and the zero-padded format \<open>{n:03d}\<close>.\<close>

fun show_nat :: "nat \<Rightarrow> string" where
  "show_nat n = (if n < 10 then [char_of (48 + n)] else show_nat (n div 10) @ [char_of (48 + n mod 10)])"

declare show_nat.simps [simp del]

definition show_int :: "int \<Rightarrow> string" where
  "show_int i = (if i < 0 then ''-'' @ show_nat (nat (- i)) else show_nat (nat i))"

definition show_int_03d :: "int \<Rightarrow> string" where
  "show_int_03d i =
     (let sign = (if i < 0 then ''-'' else []);
          digits = show_nat (nat \<bar>i\<bar>)
      in sign @ replicate (3 - (length sign + length digits)) CHR ''0'' @ digits)"

fun read_nat_acc :: "nat \<Rightarrow> string \<Rightarrow> nat" where
  "read_nat_acc a [] = a"
| "read_nat_acc a (c # cs) = read_nat_acc (10 * a + (of_char c - 48)) cs"

lemma read_nat_acc_append: "read_nat_acc a (xs @ ys) = read_nat_acc (read_nat_acc a xs) ys"
  by (induction xs arbitrary: a) simp_all

lemma read_show_nat: "read_nat_acc 0 (show_nat n) = n"
proof (induction n rule: show_nat.induct)
  case (1 n)
  then show ?case
    by (cases "n < 10") (simp_all add: show_nat.simps[of n] read_nat_acc_append)
qed

lemma show_nat_inj: "show_nat m = show_nat n \<longleftrightarrow> m = n"
  by (metis read_show_nat)

text \<open>\<open>int.from_bytes(bs, "big")\<close>.\<close>

definition from_bytes_big :: "nat list \<Rightarrow> nat" where
  "from_bytes_big bs = foldl (\<lambda>acc b. acc * 256 + b) 0 bs"

definition is_space :: "char \<Rightarrow> bool" where
  "is_space c \<longleftrightarrow> c \<in> set [CHR '' '', CHR 0x09, CHR 0x0A, CHR 0x0B, CHR 0x0C, CHR 0x0D, CHR 0x1C, CHR 0x1D, CHR 0x1E, CHR 0x1F]"

text \<open>\<open>not s.strip()\<close>: the string is empty or all white space.\<close>

definition blank :: "string \<Rightarrow> bool" where
  "blank s \<longleftrightarrow> list_all is_space s"

definition strip :: "string \<Rightarrow> string" where
  "strip s = rev (dropWhile is_space (rev (dropWhile is_space s)))"

text \<open>\<open>str.lower\<close> on ASCII letters.\<close>

definition lower_char :: "char \<Rightarrow> char" where
  "lower_char c = (let n = of_char c :: nat in if 65 \<le> n \<and> n \<le> 90 then char_of (n + 32) else c)"

definition lower :: "string \<Rightarrow> string" where
  "lower s = map lower_char s"

text \<open>\<open>str.startswith\<close> and \<open>in\<close> on strings.\<close>

fun starts_with :: "string \<Rightarrow> string \<Rightarrow> bool" where
  "starts_with [] s = True"
| "starts_with (p # ps) [] = False"
| "starts_with (p # ps) (c # cs) = (p = c \<and> starts_with ps cs)"

fun occurs_in :: "string \<Rightarrow> string \<Rightarrow> bool" where
  "occurs_in needle [] = (needle = [])"
| "occurs_in needle (c # cs) = (starts_with needle (c # cs) \<or> occurs_in needle cs)"

fun intercalate :: "string \<Rightarrow> string list \<Rightarrow> string" where
  "intercalate sep [] = []"
| "intercalate sep [x] = x"
| "intercalate sep (x # y # ys) = x @ sep @ intercalate sep (y # ys)"

section \<open>Dictionaries and lists\<close>

definition dict_get :: "('k \<times> 'v) list \<Rightarrow> 'k \<Rightarrow> 'v \<Rightarrow> 'v" where
  "dict_get d k v = (case map_of d k of None \<Rightarrow> v | Some x \<Rightarrow> x)"

definition dict_has :: "('k \<times> 'v) list \<Rightarrow> 'k \<Rightarrow> bool" where
  "dict_has d k \<longleftrightarrow> k \<in> fst ` set d"

lemma dict_has_iff [simp]: "dict_has d k \<longleftrightarrow> k \<in> fst ` set d"
  by (simp add: dict_has_def)

lemma map_of_dom: "k \<in> fst ` set d \<longleftrightarrow> (\<exists>v. map_of d k = Some v)"
  by (metis domD domI dom_map_of_conv_image_fst)

lemma dict_get_update: "dict_get (AList.update k v d) j x = (if j = k then v else dict_get d j x)"
  by (simp add: dict_get_def update_conv')

lemma fold_max_ge: "x \<in> set xs \<Longrightarrow> x \<le> fold max xs (a::int)" and fold_max_start: "a \<le> fold max xs (a::int)"
proof (induction xs arbitrary: a)
  case (Cons y ys)
  { case 1 then show ?case using Cons.IH(1)[of "max y a"] Cons.IH(2)[of "max y a"] by auto }
  { case 2 then show ?case using Cons.IH(2)[of "max y a"] by simp }
qed simp_all

lemma set_alist_update: "set (AList.update k v al) \<subseteq> insert (k, v) (set al)"
  by (induction al) auto

lemma update_new: "k \<notin> fst ` set d \<Longrightarrow> AList.update k v d = d @ [(k, v)]"
  by (induction d) auto

text \<open>
  Python's \<open>max(xs, key=f)\<close> and \<open>min(xs, key=f)\<close> return the first element with the extreme key;
  both raise on an empty argument, so they are used on non-empty lists only.
\<close>

fun max_key :: "('a \<Rightarrow> 'b::linorder) \<Rightarrow> 'a \<Rightarrow> 'a list \<Rightarrow> 'a" where
  "max_key f best [] = best"
| "max_key f best (x # xs) = max_key f (if f best < f x then x else best) xs"

fun min_key :: "('a \<Rightarrow> 'b::linorder) \<Rightarrow> 'a \<Rightarrow> 'a list \<Rightarrow> 'a" where
  "min_key f best [] = best"
| "min_key f best (x # xs) = min_key f (if f x < f best then x else best) xs"

lemma max_key_in: "max_key f b xs \<in> insert b (set xs)"
  by (induction xs arbitrary: b) (auto split: if_splits)

lemma max_key_ge: "x \<in> insert b (set xs) \<Longrightarrow> f x \<le> f (max_key f b xs)"
proof (induction xs arbitrary: b x)
  case Nil
  then show ?case by simp
next
  case (Cons y ys)
  let ?b = "if f b < f y then y else b"
  have le: "f ?b \<le> f (max_key f ?b ys)" using Cons.IH[of ?b ?b] by simp
  have by_b: "f b \<le> f ?b" "f y \<le> f ?b" by auto
  from Cons.prems consider "x = b" | "x = y" | "x \<in> set ys" by auto
  then show ?case
  proof cases
    case 1 with by_b(1) le show ?thesis by simp
  next
    case 2 with by_b(2) le show ?thesis by simp
  next
    case 3 then show ?thesis using Cons.IH[of x ?b] by simp
  qed
qed

lemma min_key_in: "min_key f b xs \<in> insert b (set xs)"
  by (induction xs arbitrary: b) (auto split: if_splits)

lemma min_key_le: "x \<in> insert b (set xs) \<Longrightarrow> f (min_key f b xs) \<le> f x"
proof (induction xs arbitrary: b x)
  case Nil
  then show ?case by simp
next
  case (Cons y ys)
  let ?b = "if f y < f b then y else b"
  have le: "f (min_key f ?b ys) \<le> f ?b" using Cons.IH[of ?b ?b] by simp
  have by_b: "f ?b \<le> f b" "f ?b \<le> f y" by auto
  from Cons.prems consider "x = b" | "x = y" | "x \<in> set ys" by auto
  then show ?case
  proof cases
    case 1 with by_b(1) le show ?thesis by simp
  next
    case 2 with by_b(2) le show ?thesis by simp
  next
    case 3 then show ?thesis using Cons.IH[of x ?b] by simp
  qed
qed

text \<open>\<open>xs[i]\<close> on a list: a negative index counts from the end, one out of range raises.\<close>

definition py_index :: "'a list \<Rightarrow> int \<Rightarrow> 'a res" where
  "py_index xs i =
     (let j = (if i < 0 then i + int (length xs) else i)
      in if j < 0 \<or> int (length xs) \<le> j then Inl (IndexError ''list index out of range'') else Inr (xs ! nat j))"

text \<open>\<open>max(lo, min(hi, x))\<close>, the clamp every bounded pool of the engine uses.\<close>

definition clamp :: "'a::linorder \<Rightarrow> 'a \<Rightarrow> 'a \<Rightarrow> 'a" where
  "clamp lo hi x = max lo (min hi x)"

lemma clamp_bounds: "lo \<le> hi \<Longrightarrow> lo \<le> clamp lo hi x \<and> clamp lo hi x \<le> hi"
  by (simp add: clamp_def)

lemma clamp_id: "lo \<le> x \<Longrightarrow> x \<le> hi \<Longrightarrow> clamp lo hi x = x"
  by (simp add: clamp_def)

end
