(* ===== verification/Graph_Search.thy ===== *)
theory Graph_Search
  imports Prelude
begin

text \<open>
  Breadth-first search as the region graph runs it: a dictionary of distances in discovery order,
  a FIFO queue and an adjacency dictionary. \<open>bfs_loop\<close> is the \<open>while q\<close> loop of
  \<open>RegionGraph.bfs_dist\<close> (src/sidequest/dungeon/region_graph/model.py), used again, with no
  blocked node, by the tree walk of \<open>_build_candidate\<close> (generator.py). The locale
  \<open>adjacency_graph\<close> is the interface the search needs from its client (every neighbour is itself a
  key of the adjacency dictionary); under it the loop terminates without a \<open>KeyError\<close> and its
  result is exactly the map of shortest hop distances.
\<close>

section \<open>The search loop\<close>

type_synonym 'n adjacency = "('n \<times> 'n list) list"
type_synonym 'n distances = "('n \<times> nat) list"

text \<open>The inner \<open>for nxt in adj[cur]\<close>: skip the blocked node, record and enqueue unseen ones.\<close>

fun relax :: "'n option \<Rightarrow> nat \<Rightarrow> 'n list \<Rightarrow> 'n distances \<Rightarrow> 'n list \<Rightarrow> 'n distances \<times> 'n list" where
  "relax blocked d [] dm q = (dm, q)"
| "relax blocked d (nxt # rest) dm q =
     (if blocked = Some nxt then relax blocked d rest dm q
      else if \<not> dict_has dm nxt then relax blocked d rest (dm @ [(nxt, d + 1)]) (q @ [nxt])
      else relax blocked d rest dm q)"

fun fresh :: "'n option \<Rightarrow> 'n set \<Rightarrow> 'n list \<Rightarrow> 'n list" where
  "fresh blocked K [] = []"
| "fresh blocked K (x # xs) =
     (if blocked = Some x \<or> x \<in> K then fresh blocked K xs else x # fresh blocked (insert x K) xs)"

lemma set_fresh: "set (fresh blocked K xs) = {x \<in> set xs. blocked \<noteq> Some x \<and> x \<notin> K}"
  by (induction xs arbitrary: K) auto

lemma distinct_fresh: "distinct (fresh blocked K xs)"
  by (induction xs arbitrary: K) (auto simp: set_fresh)

lemma relax_eq:
  "relax blocked d xs dm q =
     (let new = fresh blocked (fst ` set dm) xs
      in (dm @ map (\<lambda>x. (x, d + 1)) new, q @ new))"
  by (induction xs arbitrary: dm q) (auto simp: Let_def insert_commute)

definition unvisited :: "'n adjacency \<Rightarrow> 'n distances \<Rightarrow> 'n set" where
  "unvisited adj dm = (\<Union>p \<in> set adj. set (snd p)) - fst ` set dm"

lemma finite_unvisited: "finite (unvisited adj dm)"
  by (simp add: unvisited_def)

lemma keys_extend: "fst ` set (dm @ map (\<lambda>x. (x, c)) new) = fst ` set dm \<union> set new"
  by (simp add: image_Un image_image)

lemma unvisited_relax:
  assumes "map_of adj cur = Some nbrs" and "new = fresh blocked (fst ` set dm) nbrs"
  shows "card (unvisited adj (dm @ map (\<lambda>x. (x, d)) new)) = card (unvisited adj dm) - length new"
    and "length new \<le> card (unvisited adj dm)"
proof -
  have new: "set new \<subseteq> unvisited adj dm"
    using map_of_SomeD[OF assms(1)] by (auto simp: assms(2) set_fresh unvisited_def)
  have len: "card (set new) = length new"
    by (simp add: assms(2) distinct_card distinct_fresh)
  have "unvisited adj (dm @ map (\<lambda>x. (x, d)) new) = unvisited adj dm - set new"
    unfolding unvisited_def keys_extend by blast
  then show "card (unvisited adj (dm @ map (\<lambda>x. (x, d)) new)) = card (unvisited adj dm) - length new"
    using new len by (simp add: card_Diff_subset)
  show "length new \<le> card (unvisited adj dm)"
    using new len by (metis card_mono finite_unvisited)
qed

function bfs_loop :: "'n option \<Rightarrow> 'n adjacency \<Rightarrow> 'n distances \<Rightarrow> 'n list \<Rightarrow> 'n distances res" where
  "bfs_loop blocked adj dm [] = Inr dm"
| "bfs_loop blocked adj dm (cur # q) =
     (case map_of adj cur of None \<Rightarrow> Inl (KeyError ''adj[cur]'')
      | Some nbrs \<Rightarrow>
         (case map_of dm cur of None \<Rightarrow> Inl (KeyError ''dist[cur]'')
          | Some d \<Rightarrow>
             (case relax blocked d nbrs dm q of (dm', q') \<Rightarrow> bfs_loop blocked adj dm' q')))"
  by pat_completeness auto
termination
proof (relation "measure (\<lambda>(blocked, adj, dm, q). 2 * card (unvisited adj dm) + length q)")
  fix blocked :: "'n option" and adj :: "'n adjacency" and dm cur q nbrs d dm' q'
  assume adj: "map_of adj cur = Some nbrs" and d: "map_of dm cur = Some d"
    and p: "(dm', q') = relax blocked d nbrs dm q"
  let ?new = "fresh blocked (fst ` set dm) nbrs"
  have "dm' = dm @ map (\<lambda>x. (x, d + 1)) ?new" "q' = q @ ?new"
    using p by (simp_all add: relax_eq Let_def)
  with unvisited_relax(1)[OF adj refl, of dm "d + 1" blocked] unvisited_relax(2)[OF adj refl, of blocked dm]
  show "((blocked, adj, dm', q'), (blocked, adj, dm, cur # q)) \<in>
          measure (\<lambda>(blocked, adj, dm, q). 2 * card (unvisited adj dm) + length q)"
    by simp
qed simp

section \<open>Specification: hop distance\<close>

inductive hops :: "('n \<Rightarrow> 'n \<Rightarrow> bool) \<Rightarrow> 'n \<Rightarrow> nat \<Rightarrow> 'n \<Rightarrow> bool" for E :: "'n \<Rightarrow> 'n \<Rightarrow> bool" and s :: 'n where
  hops_start: "hops E s 0 s"
| hops_step: "hops E s n u \<Longrightarrow> E u v \<Longrightarrow> hops E s (Suc n) v"

inductive_cases hops_SucE: "hops E s (Suc n) v"
inductive_simps hops_0_iff: "hops E s 0 v"

definition is_dist :: "('n \<Rightarrow> 'n \<Rightarrow> bool) \<Rightarrow> 'n \<Rightarrow> 'n \<Rightarrow> nat \<Rightarrow> bool" where
  "is_dist E s v k \<longleftrightarrow> hops E s k v \<and> (\<forall>n. hops E s n v \<longrightarrow> k \<le> n)"

definition adj_edge :: "'n option \<Rightarrow> 'n adjacency \<Rightarrow> 'n \<Rightarrow> 'n \<Rightarrow> bool" where
  "adj_edge blocked adj u v \<longleftrightarrow> blocked \<noteq> Some v \<and> (\<exists>ns. map_of adj u = Some ns \<and> v \<in> set ns)"

lemma hops_rtranclp: "(\<exists>n. hops E s n v) \<longleftrightarrow> E\<^sup>*\<^sup>* s v"
proof
  assume "\<exists>n. hops E s n v"
  then obtain n where "hops E s n v" ..
  then show "E\<^sup>*\<^sup>* s v" by induction auto
next
  assume "E\<^sup>*\<^sup>* s v"
  then show "\<exists>n. hops E s n v" by induction (auto intro: hops.intros)
qed

lemma hops_mono: "hops E s n v \<Longrightarrow> (\<And>u w. E u w \<Longrightarrow> E' u w) \<Longrightarrow> hops E' s n v"
  by (induction rule: hops.induct) (auto intro: hops.intros)

lemma is_dist_unique: "is_dist E s v k \<Longrightarrow> is_dist E s v l \<Longrightarrow> k = l"
  by (simp add: is_dist_def order_antisym)

lemma is_dist_exists: "E\<^sup>*\<^sup>* s v \<Longrightarrow> \<exists>k. is_dist E s v k"
proof -
  assume "E\<^sup>*\<^sup>* s v"
  then obtain n where "hops E s n v" unfolding hops_rtranclp[symmetric] ..
  then have "hops E s (LEAST n. hops E s n v) v" by (rule LeastI)
  moreover have "(LEAST n. hops E s n v) \<le> m" if "hops E s m v" for m using that by (rule Least_le)
  ultimately show ?thesis unfolding is_dist_def by blast
qed

section \<open>The loop invariant\<close>

abbreviation dist_at :: "'n distances \<Rightarrow> 'n \<Rightarrow> nat" where
  "dist_at dm v \<equiv> the (map_of dm v)"

definition bfs_inv :: "'n option \<Rightarrow> 'n adjacency \<Rightarrow> 'n \<Rightarrow> 'n distances \<Rightarrow> 'n list \<Rightarrow> bool" where
  "bfs_inv blocked adj s dm q \<longleftrightarrow>
     distinct (map fst dm) \<and> map_of dm s = Some 0 \<and>
     (\<forall>v k. map_of dm v = Some k \<longrightarrow> hops (adj_edge blocked adj) s k v) \<and>
     set q \<subseteq> fst ` set dm \<and> fst ` set dm \<subseteq> fst ` set adj \<and>
     sorted (map (dist_at dm) q) \<and>
     (q \<noteq> [] \<longrightarrow> (\<forall>v \<in> fst ` set dm. dist_at dm v \<le> dist_at dm (hd q) + 1)) \<and>
     (\<forall>u \<in> fst ` set dm - set q. \<forall>v. adj_edge blocked adj u v \<longrightarrow>
        v \<in> fst ` set dm \<and> dist_at dm v \<le> dist_at dm u + 1)"

lemma map_of_extend:
  "map_of (dm @ map (\<lambda>x. (x, c)) new) v =
     (case map_of dm v of Some k \<Rightarrow> Some k | None \<Rightarrow> if v \<in> set new then Some c else None)"
proof -
  have "map_of (map (\<lambda>x. (x, c)) new) v = (if v \<in> set new then Some c else None)"
    by (induction new) auto
  then show ?thesis by (auto simp: map_add_def split: option.splits)
qed

lemma bfs_inv_start: "s \<in> fst ` set adj \<Longrightarrow> bfs_inv blocked adj s [(s, 0)] [s]"
  by (auto simp: bfs_inv_def intro: hops.intros)

lemma bfs_inv_head:
  "bfs_inv blocked adj s dm (cur # q) \<Longrightarrow> cur \<in> fst ` set dm \<and> cur \<in> fst ` set adj"
  unfolding bfs_inv_def by (meson list.set_intros(1) subsetD)

text \<open>One iteration of the loop keeps the invariant.\<close>

lemma bfs_inv_step:
  assumes inv: "bfs_inv blocked adj s dm (cur # q)"
    and nbrs: "map_of adj cur = Some nbrs" and d: "map_of dm cur = Some d"
    and closed: "set nbrs \<subseteq> fst ` set adj"
    and new: "new = fresh blocked (fst ` set dm) nbrs"
  shows "bfs_inv blocked adj s (dm @ map (\<lambda>x. (x, d + 1)) new) (q @ new)"
proof -
  let ?D = "dm @ map (\<lambda>x. (x, d + 1)) new" and ?E = "adj_edge blocked adj"
  have new_set: "set new = {x \<in> set nbrs. blocked \<noteq> Some x \<and> x \<notin> fst ` set dm}"
    by (simp add: new set_fresh)
  have keys: "fst ` set ?D = fst ` set dm \<union> set new" by (rule keys_extend)
  have at_old: "dist_at ?D v = dist_at dm v" if "v \<in> fst ` set dm" for v
    using that by (auto simp: map_of_extend map_of_dom simp del: map_of_append)
  have at_new: "dist_at ?D v = d + 1" if "v \<in> set new" for v
  proof -
    have "map_of dm v = None" using that by (simp add: new_set map_of_eq_None_iff)
    with that show ?thesis by (simp add: map_of_extend del: map_of_append)
  qed
  have bound: "dist_at dm v \<le> d + 1" if "v \<in> fst ` set dm" for v
    using inv that d by (auto simp: bfs_inv_def)
  have q_in: "set q \<subseteq> fst ` set dm" using inv by (simp add: bfs_inv_def)
  have q_ge: "d \<le> dist_at dm v" if "v \<in> set q" for v
    using inv that d by (auto simp: bfs_inv_def)
  have dist_keys: "distinct (map fst dm)" using inv unfolding bfs_inv_def by (elim conjE)
  have s0: "map_of dm s = Some 0" using inv unfolding bfs_inv_def by (elim conjE)
  have paths: "\<forall>v k. map_of dm v = Some k \<longrightarrow> hops ?E s k v"
    using inv unfolding bfs_inv_def by (elim conjE)
  have "distinct (map fst ?D)"
    using dist_keys by (auto simp: new distinct_fresh set_fresh comp_def)
  moreover have "map_of ?D s = Some 0"
    using s0 by (simp add: map_of_extend del: map_of_append)
  moreover have "hops ?E s k v" if "map_of ?D v = Some k" for v k
  proof (cases "map_of dm v")
    case None
    with that have v: "v \<in> set new" "k = d + 1"
      by (auto simp: map_of_extend split: if_splits simp del: map_of_append)
    have "hops ?E s d cur" using paths d by simp
    moreover have "?E cur v" using v(1) nbrs by (auto simp: adj_edge_def new_set)
    ultimately show ?thesis using v(2) by (auto intro: hops.intros)
  next
    case (Some k')
    with that paths show ?thesis by (simp add: map_of_extend del: map_of_append)
  qed
  moreover have "set (q @ new) \<subseteq> fst ` set ?D" using q_in keys by auto
  moreover have "fst ` set ?D \<subseteq> fst ` set adj"
  proof -
    have "fst ` set dm \<subseteq> fst ` set adj" using inv unfolding bfs_inv_def by (elim conjE)
    with closed show ?thesis unfolding keys new_set by blast
  qed
  moreover have "sorted (map (dist_at ?D) (q @ new))"
  proof -
    have m: "map (dist_at ?D) (q @ new) = map (dist_at dm) q @ map (\<lambda>_. d + 1) new"
      using q_in at_old at_new by auto
    have "sorted (map (dist_at dm) q)" using inv by (simp add: bfs_inv_def)
    moreover have "sorted (map (\<lambda>_. d + 1) new)" by (induction new) auto
    ultimately show ?thesis
      unfolding m using q_in bound by (auto simp: sorted_append)
  qed
  moreover have "dist_at ?D v \<le> dist_at ?D (hd (q @ new)) + 1"
    if "q @ new \<noteq> []" and "v \<in> fst ` set ?D" for v
  proof -
    have "d \<le> dist_at ?D (hd (q @ new))"
    proof (cases q)
      case Nil
      with that(1) at_new[of "hd new"] show ?thesis by simp
    next
      case (Cons x xs)
      with q_ge[of x] q_in at_old[of x] show ?thesis by auto
    qed
    moreover have "dist_at ?D v \<le> d + 1"
      using that(2) bound at_old at_new unfolding keys by (metis UnE order_refl)
    ultimately show ?thesis by simp
  qed
  moreover have "v \<in> fst ` set ?D \<and> dist_at ?D v \<le> dist_at ?D u + 1"
    if "u \<in> fst ` set ?D - set (q @ new)" and e: "?E u v" for u v
  proof -
    from that(1) have u: "u \<in> fst ` set dm" "u \<notin> set q" by (auto simp: keys)
    show ?thesis
    proof (cases "u = cur")
      case True
      have "v \<in> set nbrs" "blocked \<noteq> Some v" using e True nbrs by (auto simp: adj_edge_def)
      then have "v \<in> fst ` set dm \<or> v \<in> set new" by (auto simp: new_set)
      moreover have "dist_at ?D u = d" using at_old[OF u(1)] True d by simp
      ultimately show ?thesis
        using bound at_old at_new unfolding keys by (metis UnI1 UnI2 order_refl)
    next
      case False
      with u inv e have "v \<in> fst ` set dm" "dist_at dm v \<le> dist_at dm u + 1"
        by (auto simp: bfs_inv_def)
      then show ?thesis using u(1) at_old unfolding keys by (metis UnI1)
    qed
  qed
  ultimately show ?thesis unfolding bfs_inv_def by blast
qed

lemma bfs_inv_final:
  assumes inv: "bfs_inv blocked adj s dm []"
  shows "distinct (map fst dm)"
    and "map_of dm v = Some k \<longleftrightarrow> is_dist (adj_edge blocked adj) s v k"
proof -
  let ?E = "adj_edge blocked adj"
  show "distinct (map fst dm)" using inv by (simp add: bfs_inv_def)
  have upper: "v \<in> fst ` set dm \<and> dist_at dm v \<le> n" if "hops ?E s n v" for n v
    using that
  proof induction
    case hops_start
    then show ?case using inv by (auto simp: bfs_inv_def map_of_dom)
  next
    case (hops_step n u v)
    then show ?case using inv by (fastforce simp: bfs_inv_def)
  qed
  have lower: "hops ?E s k v" if "map_of dm v = Some k" for v k
    using inv that by (simp add: bfs_inv_def)
  show "map_of dm v = Some k \<longleftrightarrow> is_dist ?E s v k"
  proof
    assume "map_of dm v = Some k"
    with lower upper show "is_dist ?E s v k" by (fastforce simp: is_dist_def)
  next
    assume dm: "is_dist ?E s v k"
    then have "v \<in> fst ` set dm" "dist_at dm v \<le> k" using upper[of k v] by (auto simp: is_dist_def)
    then obtain k' where k': "map_of dm v = Some k'" "k' \<le> k" by (auto simp: map_of_dom)
    moreover have "k \<le> k'" using lower[OF k'(1)] dm by (simp add: is_dist_def)
    ultimately have "k' = k" by simp
    with k' show "map_of dm v = Some k" by simp
  qed
qed

section \<open>Clients of the search\<close>

text \<open>
  What a client promises: a predicate of valid graphs, and an adjacency dictionary in which every
  neighbour is a key. Under it the search started at any key returns, and returns exactly the
  shortest hop distances over the edges that do not enter the blocked node.
\<close>

locale adjacency_graph =
  fixes valid :: "'g \<Rightarrow> bool" and adj :: "'g \<Rightarrow> 'n adjacency"
  assumes adj_closed: "valid g \<Longrightarrow> map_of (adj g) u = Some ns \<Longrightarrow> set ns \<subseteq> fst ` set (adj g)"
begin

lemma bfs_loop_correct:
  assumes valid: "valid g" and inv: "bfs_inv blocked (adj g) s dm q"
  shows "\<exists>dm'. bfs_loop blocked (adj g) dm q = Inr dm' \<and> bfs_inv blocked (adj g) s dm' []"
  using inv
proof (induction blocked "adj g" dm q rule: bfs_loop.induct)
  case (1 blocked dm)
  then show ?case by simp
next
  case (2 blocked dm cur q)
  have "cur \<in> fst ` set dm" "cur \<in> fst ` set (adj g)" using bfs_inv_head[OF "2.prems"] by simp_all
  then obtain d nbrs where d: "map_of dm cur = Some d" and nbrs: "map_of (adj g) cur = Some nbrs"
    by (auto simp: map_of_dom)
  let ?new = "fresh blocked (fst ` set dm) nbrs"
  have r: "relax blocked d nbrs dm q = (dm @ map (\<lambda>x. (x, d + 1)) ?new, q @ ?new)"
    by (simp add: relax_eq Let_def)
  have "bfs_inv blocked (adj g) s (dm @ map (\<lambda>x. (x, d + 1)) ?new) (q @ ?new)"
    by (rule bfs_inv_step[OF "2.prems" nbrs d adj_closed[OF valid nbrs] refl])
  with "2.hyps"[OF nbrs d r[symmetric]] show ?case by (simp add: d nbrs r)
qed

lemma bfs_from:
  assumes "valid g" and "s \<in> fst ` set (adj g)"
  shows "\<exists>dm. bfs_loop blocked (adj g) [(s, 0)] [s] = Inr dm \<and> distinct (map fst dm) \<and>
           fst ` set dm \<subseteq> fst ` set (adj g) \<and>
           (\<forall>v k. map_of dm v = Some k \<longleftrightarrow> is_dist (adj_edge blocked (adj g)) s v k)"
proof -
  obtain dm where "bfs_loop blocked (adj g) [(s, 0)] [s] = Inr dm"
    and inv: "bfs_inv blocked (adj g) s dm []"
    using bfs_loop_correct[OF assms(1) bfs_inv_start[OF assms(2)]] by blast
  moreover have "fst ` set dm \<subseteq> fst ` set (adj g)" using inv by (simp add: bfs_inv_def)
  ultimately show ?thesis using bfs_inv_final[OF inv] by blast
qed

lemma bfs_keys:
  assumes "valid g" and "s \<in> fst ` set (adj g)" and "bfs_loop blocked (adj g) [(s, 0)] [s] = Inr dm"
  shows "fst ` set dm = {v. (adj_edge blocked (adj g))\<^sup>*\<^sup>* s v}"
proof -
  have "v \<in> fst ` set dm \<longleftrightarrow> (\<exists>k. is_dist (adj_edge blocked (adj g)) s v k)" for v
    using bfs_from[OF assms(1,2), of blocked] assms(3) by (auto simp: map_of_dom)
  moreover have "(\<exists>k. is_dist (adj_edge blocked (adj g)) s v k) \<longleftrightarrow> (adj_edge blocked (adj g))\<^sup>*\<^sup>* s v" for v
    using is_dist_exists[of "adj_edge blocked (adj g)" s v] hops_rtranclp[of "adj_edge blocked (adj g)" s v]
    by (auto simp: is_dist_def)
  ultimately show ?thesis by blast
qed

end

end
