(* ===== verification/Region_Model.thy ===== *)
theory Region_Model
  imports Graph_Search
begin

text \<open>
  The region-graph data model, src/sidequest/dungeon/region_graph/model.py: regions, typed edges,
  candidate expansions and the contiguous map with its queries. The \<open>nodes\<close> dictionary is an
  association list in insertion order. A \<open>depth_score\<close> is a binary64 number; its value is kept as
  an exact rational. \<open>graph_ok\<close> is the invariant the mutators maintain; \<open>bfs_dist\<close> is shown total
  and exact on it through the interface of \<open>Graph_Search\<close>.
\<close>

section \<open>Data\<close>

record region_node =
  node_id :: string
  node_expansion_id :: int
  theme :: string
  depth_score :: "rat option"

record region_edge =
  edge_a :: string
  edge_b :: string
  kind :: string
  hidden :: bool
  shortcut :: bool

record expansion =
  expansion_id :: int
  new_nodes :: "region_node list"
  new_edges :: "region_edge list"

record region_graph =
  entrance_id :: string
  nodes :: "(string \<times> region_node) list"
  edges :: "region_edge list"

definition endpoints :: "region_edge \<Rightarrow> string set" where
  "endpoints e = {edge_a e, edge_b e}"

definition new_region_ids :: "expansion \<Rightarrow> string set" where
  "new_region_ids x = node_id ` set (new_nodes x)"

abbreviation node_ids :: "region_graph \<Rightarrow> string set" where
  "node_ids g \<equiv> fst ` set (nodes g)"

definition empty_graph :: "string \<Rightarrow> region_graph" where
  "empty_graph entrance = \<lparr>entrance_id = entrance, nodes = [], edges = []\<rparr>"

section \<open>Operations\<close>

definition add_node :: "region_node \<Rightarrow> region_graph \<Rightarrow> region_graph res" where
  "add_node n g =
     (if dict_has (nodes g) (node_id n) then Inl (ValueError ''duplicate region id'')
      else Inr (g\<lparr>nodes := AList.update (node_id n) n (nodes g)\<rparr>))"

definition add_edge :: "region_edge \<Rightarrow> region_graph \<Rightarrow> region_graph res" where
  "add_edge e g =
     (if edge_a e = edge_b e then Inl (ValueError ''self-loop edge is not allowed'')
      else if \<not> dict_has (nodes g) (edge_a e) then Inl (ValueError ''edge endpoint is not a known region'')
      else if \<not> dict_has (nodes g) (edge_b e) then Inl (ValueError ''edge endpoint is not a known region'')
      else Inr (g\<lparr>edges := edges g @ [e]\<rparr>))"

fun neighbors_of :: "string \<Rightarrow> region_edge list \<Rightarrow> string list" where
  "neighbors_of r [] = []"
| "neighbors_of r (e # es) =
     (if edge_a e = r then edge_b e # neighbors_of r es
      else if edge_b e = r then edge_a e # neighbors_of r es
      else neighbors_of r es)"

definition neighbors :: "region_graph \<Rightarrow> string \<Rightarrow> string list res" where
  "neighbors g r =
     (if \<not> dict_has (nodes g) r then Inl (ValueError ''region is not in this graph'')
      else Inr (neighbors_of r (edges g)))"

definition degree :: "region_graph \<Rightarrow> string \<Rightarrow> nat res" where
  "degree g r =
     (if \<not> dict_has (nodes g) r then Inl (ValueError ''region is not in this graph'')
      else Inr (length (filter (\<lambda>e. r = edge_a e \<or> r = edge_b e) (edges g))))"

text \<open>The adjacency dictionary \<open>bfs_dist\<close> builds: every node, then each edge that is not skipped.\<close>

definition adj_append :: "string \<Rightarrow> string \<Rightarrow> string adjacency \<Rightarrow> string adjacency res" where
  "adj_append k v adj =
     (case map_of adj k of None \<Rightarrow> Inl (KeyError k) | Some ns \<Rightarrow> Inr (AList.update k (ns @ [v]) adj))"

definition add_adj :: "region_edge \<Rightarrow> string adjacency \<Rightarrow> string adjacency res" where
  "add_adj e adj = rbind (adj_append (edge_a e) (edge_b e) adj) (adj_append (edge_b e) (edge_a e))"

definition live_edges :: "nat set \<Rightarrow> region_edge list \<Rightarrow> region_edge list" where
  "live_edges skip es = map snd (filter (\<lambda>p. fst p \<notin> skip) (enumerate 0 es))"

definition adjacency :: "region_graph \<Rightarrow> nat set \<Rightarrow> string adjacency res" where
  "adjacency g skip = rfold add_adj (live_edges skip (edges g)) (map (\<lambda>p. (fst p, [])) (nodes g))"

definition bfs_dist :: "region_graph \<Rightarrow> string \<Rightarrow> string option \<Rightarrow> nat set \<Rightarrow> string distances res" where
  "bfs_dist g source blocked_node skip_edges =
     (if \<not> dict_has (nodes g) source then Inl (ValueError ''bfs_dist source is not a known region'')
      else rbind (adjacency g skip_edges) (\<lambda>adj. bfs_loop blocked_node adj [(source, 0)] [source]))"

definition reachable_from_entrance :: "region_graph \<Rightarrow> string list res" where
  "reachable_from_entrance g = rbind (bfs_dist g (entrance_id g) None {}) (\<lambda>d. Inr (map fst d))"

definition is_connected :: "region_graph \<Rightarrow> bool res" where
  "is_connected g =
     (if nodes g = [] then Inr True
      else rbind (reachable_from_entrance g) (\<lambda>r. Inr (length r = length (nodes g))))"

fun count_components :: "region_graph \<Rightarrow> string set \<Rightarrow> nat \<Rightarrow> string list \<Rightarrow> nat res" where
  "count_components g seen comps [] = Inr comps"
| "count_components g seen comps (n # ns) =
     (if n \<in> seen then count_components g seen comps ns
      else rbind (bfs_dist g n None {})
             (\<lambda>d. count_components g (seen \<union> fst ` set d) (comps + 1) ns))"

definition component_count :: "region_graph \<Rightarrow> nat res" where
  "component_count g = count_components g {} 0 (map fst (nodes g))"

definition cyclomatic_number :: "region_graph \<Rightarrow> int res" where
  "cyclomatic_number g =
     rbind (component_count g) (\<lambda>c. Inr (int (length (edges g)) - int (length (nodes g)) + int c))"

section \<open>Serialisation\<close>

text \<open>The JSON-shaped values \<open>to_dict\<close> produces and \<open>from_dict\<close> reads.\<close>

datatype json =
    JNull
  | JBool bool
  | JInt int
  | JFloat rat
  | JStr string
  | JList "json list"
  | JObj "(string \<times> json) list"

definition field :: "string \<Rightarrow> json \<Rightarrow> json res" where
  "field k d = (case d of JObj kvs \<Rightarrow> (case map_of kvs k of None \<Rightarrow> Inl (KeyError k) | Some v \<Rightarrow> Inr v)
                | _ \<Rightarrow> Inl (TypeError k))"

definition as_str :: "json \<Rightarrow> string res" where
  "as_str j = (case j of JStr s \<Rightarrow> Inr s | _ \<Rightarrow> Inl (TypeError ''str''))"

definition as_int :: "json \<Rightarrow> int res" where
  "as_int j = (case j of JInt i \<Rightarrow> Inr i | _ \<Rightarrow> Inl (TypeError ''int''))"

definition as_bool :: "json \<Rightarrow> bool res" where
  "as_bool j = (case j of JBool b \<Rightarrow> Inr b | _ \<Rightarrow> Inl (TypeError ''bool''))"

definition as_opt_float :: "json \<Rightarrow> rat option res" where
  "as_opt_float j = (case j of JNull \<Rightarrow> Inr None | JFloat x \<Rightarrow> Inr (Some x) | _ \<Rightarrow> Inl (TypeError ''float''))"

definition as_list :: "json \<Rightarrow> json list res" where
  "as_list j = (case j of JList xs \<Rightarrow> Inr xs | _ \<Rightarrow> Inl (TypeError ''list''))"

definition node_to_dict :: "region_node \<Rightarrow> json" where
  "node_to_dict n = JObj
     [(''id'', JStr (node_id n)), (''expansion_id'', JInt (node_expansion_id n)),
      (''theme'', JStr (theme n)),
      (''depth_score'', case depth_score n of None \<Rightarrow> JNull | Some x \<Rightarrow> JFloat x)]"

definition node_from_dict :: "json \<Rightarrow> region_node res" where
  "node_from_dict d =
     rbind (rbind (field ''id'' d) as_str) (\<lambda>i.
     rbind (rbind (field ''expansion_id'' d) as_int) (\<lambda>x.
     rbind (rbind (field ''theme'' d) as_str) (\<lambda>t.
     rbind (rbind (field ''depth_score'' d) as_opt_float) (\<lambda>s.
       Inr \<lparr>node_id = i, node_expansion_id = x, theme = t, depth_score = s\<rparr>))))"

definition edge_to_dict :: "region_edge \<Rightarrow> json" where
  "edge_to_dict e = JObj
     [(''a'', JStr (edge_a e)), (''b'', JStr (edge_b e)), (''kind'', JStr (kind e)),
      (''hidden'', JBool (hidden e)), (''shortcut'', JBool (shortcut e))]"

definition edge_from_dict :: "json \<Rightarrow> region_edge res" where
  "edge_from_dict d =
     rbind (rbind (field ''a'' d) as_str) (\<lambda>a.
     rbind (rbind (field ''b'' d) as_str) (\<lambda>b.
     rbind (rbind (field ''kind'' d) as_str) (\<lambda>k.
     rbind (rbind (field ''hidden'' d) as_bool) (\<lambda>h.
     rbind (rbind (field ''shortcut'' d) as_bool) (\<lambda>s.
       Inr \<lparr>edge_a = a, edge_b = b, kind = k, hidden = h, shortcut = s\<rparr>)))))"

definition graph_to_dict :: "region_graph \<Rightarrow> json" where
  "graph_to_dict g = JObj
     [(''entrance_id'', JStr (entrance_id g)),
      (''nodes'', JList (map (\<lambda>p. node_to_dict (snd p)) (nodes g))),
      (''edges'', JList (map edge_to_dict (edges g)))]"

definition graph_from_dict :: "json \<Rightarrow> region_graph res" where
  "graph_from_dict d =
     rbind (rbind (field ''entrance_id'' d) as_str) (\<lambda>ent.
     rbind (rbind (field ''nodes'' d) as_list) (\<lambda>nds.
     rbind (rfold (\<lambda>nd g. rbind (node_from_dict nd) (\<lambda>n. add_node n g)) nds (empty_graph ent)) (\<lambda>g.
     rbind (rbind (field ''edges'' d) as_list) (\<lambda>eds.
       rfold (\<lambda>ed g. rbind (edge_from_dict ed) (\<lambda>e. add_edge e g)) eds g))))"

section \<open>The invariant of the graph\<close>

definition edge_ok :: "region_graph \<Rightarrow> region_edge \<Rightarrow> bool" where
  "edge_ok g e \<longleftrightarrow> edge_a e \<noteq> edge_b e \<and> edge_a e \<in> node_ids g \<and> edge_b e \<in> node_ids g"

definition graph_ok :: "region_graph \<Rightarrow> bool" where
  "graph_ok g \<longleftrightarrow>
     distinct (map fst (nodes g)) \<and> (\<forall>p \<in> set (nodes g). node_id (snd p) = fst p) \<and>
     (\<forall>e \<in> set (edges g). edge_ok g e)"

lemma graph_ok_empty: "graph_ok (empty_graph entrance)"
  by (simp add: graph_ok_def empty_graph_def)

lemma add_node_Inr:
  "add_node n g = Inr g' \<longleftrightarrow>
     node_id n \<notin> node_ids g \<and> g' = g\<lparr>nodes := nodes g @ [(node_id n, n)]\<rparr>"
  by (auto simp: add_node_def update_new)

lemma add_edge_Inr:
  "add_edge e g = Inr g' \<longleftrightarrow> edge_ok g e \<and> g' = g\<lparr>edges := edges g @ [e]\<rparr>"
  by (auto simp: add_edge_def edge_ok_def)

lemma graph_ok_add_node: "graph_ok g \<Longrightarrow> add_node n g = Inr g' \<Longrightarrow> graph_ok g'"
  by (auto simp: add_node_Inr graph_ok_def edge_ok_def)

lemma graph_ok_add_edge: "graph_ok g \<Longrightarrow> add_edge e g = Inr g' \<Longrightarrow> graph_ok g'"
  by (auto simp: add_edge_Inr graph_ok_def edge_ok_def)

text \<open>Adding many regions or edges at once.\<close>

lemma rfold_add_nodes:
  assumes "distinct (map node_id ns)" "node_id ` set ns \<inter> node_ids g = {}"
  shows "rfold add_node ns g = Inr (g\<lparr>nodes := nodes g @ map (\<lambda>n. (node_id n, n)) ns\<rparr>)"
  using assms
proof (induction ns arbitrary: g)
  case Nil
  show ?case by simp
next
  case (Cons n ns)
  let ?g1 = "g\<lparr>nodes := nodes g @ [(node_id n, n)]\<rparr>"
  have "add_node n g = Inr ?g1" using Cons.prems(2) by (auto simp: add_node_Inr)
  moreover have "rfold add_node ns ?g1 = Inr (?g1\<lparr>nodes := nodes ?g1 @ map (\<lambda>n. (node_id n, n)) ns\<rparr>)"
    using Cons.prems by (intro Cons.IH) auto
  ultimately show ?case by simp
qed

lemma rfold_add_edges:
  assumes "\<forall>e \<in> set es. edge_ok g e"
  shows "rfold add_edge es g = Inr (g\<lparr>edges := edges g @ es\<rparr>)"
  using assms
proof (induction es arbitrary: g)
  case Nil
  show ?case by simp
next
  case (Cons e es)
  let ?g1 = "g\<lparr>edges := edges g @ [e]\<rparr>"
  have "add_edge e g = Inr ?g1" using Cons.prems by (simp add: add_edge_Inr)
  moreover have "rfold add_edge es ?g1 = Inr (?g1\<lparr>edges := edges ?g1 @ es\<rparr>)"
    using Cons.prems by (intro Cons.IH) (auto simp: edge_ok_def)
  ultimately show ?case by simp
qed

lemma graph_ok_nodes_rebuild:
  "graph_ok g \<Longrightarrow> map (\<lambda>n. (node_id n, n)) (map snd (nodes g)) = nodes g"
  unfolding map_map by (rule map_idI) (auto simp: graph_ok_def prod_eq_iff)

section \<open>Writing a graph out and reading it back\<close>

lemma node_roundtrip: "node_from_dict (node_to_dict n) = Inr n"
  by (cases "depth_score n")
    (simp_all add: node_from_dict_def node_to_dict_def field_def as_str_def as_int_def as_opt_float_def)

lemma edge_roundtrip: "edge_from_dict (edge_to_dict e) = Inr e"
  by (simp add: edge_from_dict_def edge_to_dict_def field_def as_str_def as_bool_def)

lemma rfold_map: "rfold f (map h xs) s = rfold (\<lambda>x. f (h x)) xs s"
proof (induction xs arbitrary: s)
  case Nil
  show ?case by simp
next
  case (Cons x xs)
  then show ?case by (cases "f (h x) s") simp_all
qed

lemma graph_roundtrip:
  assumes "graph_ok g"
  shows "graph_from_dict (graph_to_dict g) = Inr g"
proof -
  have ids: "map node_id (map snd (nodes g)) = map fst (nodes g)"
    using assms by (auto simp: graph_ok_def)
  have "rfold add_node (map snd (nodes g)) (empty_graph (entrance_id g)) =
      Inr ((empty_graph (entrance_id g))\<lparr>nodes := nodes g\<rparr>)"
    using rfold_add_nodes[of "map snd (nodes g)" "empty_graph (entrance_id g)"] assms
    unfolding ids graph_ok_nodes_rebuild[OF assms] by (simp add: empty_graph_def graph_ok_def)
  then have "rfold (\<lambda>p. add_node (snd p)) (nodes g) (empty_graph (entrance_id g)) =
      Inr \<lparr>entrance_id = entrance_id g, nodes = nodes g, edges = []\<rparr>"
    by (simp add: rfold_map empty_graph_def)
  moreover have "rfold add_edge (edges g) \<lparr>entrance_id = entrance_id g, nodes = nodes g, edges = []\<rparr> = Inr g"
    using rfold_add_edges[of "edges g" "\<lparr>entrance_id = entrance_id g, nodes = nodes g, edges = []\<rparr>"] assms
    by (simp add: graph_ok_def edge_ok_def)
  ultimately show ?thesis
    by (simp add: graph_from_dict_def graph_to_dict_def field_def as_str_def as_list_def rfold_map
        node_roundtrip edge_roundtrip)
qed

section \<open>Breadth-first distances are exact\<close>

text \<open>The edges the search may follow: not skipped, in either direction, not into the blocked node.\<close>

definition link :: "region_graph \<Rightarrow> string option \<Rightarrow> nat set \<Rightarrow> string \<Rightarrow> string \<Rightarrow> bool" where
  "link g blocked skip u v \<longleftrightarrow>
     blocked \<noteq> Some v \<and>
     (\<exists>e \<in> set (live_edges skip (edges g)). (edge_a e = u \<and> edge_b e = v) \<or> (edge_a e = v \<and> edge_b e = u))"

lemma set_live_edges: "set (live_edges skip es) = {es ! i | i. i < length es \<and> i \<notin> skip}"
  by (force simp: live_edges_def enumerate_eq_zip in_set_zip image_iff)

lemma live_edges_none [simp]: "live_edges {} es = es"
  by (simp add: live_edges_def)

lemma live_edges_subset: "set (live_edges skip es) \<subseteq> set es"
  by (auto simp: set_live_edges)

lemma keys_update_old: "k \<in> fst ` set d \<Longrightarrow> map fst (AList.update k v d) = map fst d"
  by (induction d) auto

definition adj_spec :: "string adjacency \<Rightarrow> region_edge list \<Rightarrow> string list \<Rightarrow> bool" where
  "adj_spec adj es ids \<longleftrightarrow>
     map fst adj = ids \<and>
     (\<forall>u \<in> set ids. \<exists>ns. map_of adj u = Some ns \<and>
        set ns = {v. \<exists>e \<in> set es. (edge_a e = u \<and> edge_b e = v) \<or> (edge_a e = v \<and> edge_b e = u)})"

lemma adj_append_Inr:
  "k \<in> fst ` set adj \<Longrightarrow>
     \<exists>ns. map_of adj k = Some ns \<and> adj_append k v adj = Inr (AList.update k (ns @ [v]) adj)"
  by (auto simp: adj_append_def map_of_dom)

lemma add_adj_spec:
  assumes spec: "adj_spec adj es ids" and ends: "edge_a e \<in> set ids" "edge_b e \<in> set ids"
  shows "\<exists>adj'. add_adj e adj = Inr adj' \<and> adj_spec adj' (es @ [e]) ids"
proof -
  let ?a = "edge_a e" and ?b = "edge_b e"
  have keys: "map fst adj = ids" using spec by (simp add: adj_spec_def)
  then have fkeys: "fst ` set adj = set ids" by (metis set_map)
  obtain n1 where n1: "map_of adj ?a = Some n1"
      "adj_append ?a ?b adj = Inr (AList.update ?a (n1 @ [?b]) adj)"
    using adj_append_Inr[of ?a adj ?b] ends fkeys by auto
  let ?adj1 = "AList.update ?a (n1 @ [?b]) adj"
  have k1: "map fst ?adj1 = ids" using keys ends fkeys by (simp add: keys_update_old)
  then have fk1: "fst ` set ?adj1 = set ids" by (metis set_map)
  obtain n2 where n2: "map_of ?adj1 ?b = Some n2"
      "adj_append ?b ?a ?adj1 = Inr (AList.update ?b (n2 @ [?a]) ?adj1)"
    using adj_append_Inr[of ?b ?adj1 ?a] ends fk1 by auto
  let ?adj2 = "AList.update ?b (n2 @ [?a]) ?adj1"
  have k2: "map fst ?adj2 = ids" using k1 ends fk1 by (simp add: keys_update_old)
  have "\<exists>ns. map_of ?adj2 u = Some ns \<and> set ns =
      {v. \<exists>x \<in> set (es @ [e]). (edge_a x = u \<and> edge_b x = v) \<or> (edge_a x = v \<and> edge_b x = u)}"
    if "u \<in> set ids" for u
  proof -
    from spec that obtain ns where ns: "map_of adj u = Some ns"
      "set ns = {v. \<exists>x \<in> set es. (edge_a x = u \<and> edge_b x = v) \<or> (edge_a x = v \<and> edge_b x = u)}"
      unfolding adj_spec_def by blast
    show ?thesis
      using ns n1(1) n2(1) by (auto simp: update_conv' split: if_splits)
  qed
  with k2 n1(2) n2(2) show ?thesis by (simp add: add_adj_def adj_spec_def)
qed

lemma map_of_const_keys: "u \<in> set ids \<Longrightarrow> map_of (map (\<lambda>i. (i, c)) ids) u = Some c"
  by (induction ids) auto

lemma build_adj_spec:
  assumes "\<forall>e \<in> set es. edge_a e \<in> set ids \<and> edge_b e \<in> set ids"
  shows "\<exists>adj. rfold add_adj es (map (\<lambda>i. (i, [])) ids) = Inr adj \<and> adj_spec adj es ids"
  using assms
proof (induction es rule: rev_induct)
  case Nil
  then show ?case by (simp add: adj_spec_def map_of_const_keys comp_def)
next
  case (snoc e es)
  then obtain adj where adj: "rfold add_adj es (map (\<lambda>i. (i, [])) ids) = Inr adj" "adj_spec adj es ids"
    by auto
  from add_adj_spec[OF adj(2), of e] snoc.prems
  obtain adj' where "add_adj e adj = Inr adj'" "adj_spec adj' (es @ [e]) ids" by auto
  with adj(1) show ?case by (simp add: rfold_append)
qed

lemma live_edges_ends:
  "graph_ok g \<Longrightarrow> \<forall>e \<in> set (live_edges skip (edges g)).
     edge_a e \<in> set (map fst (nodes g)) \<and> edge_b e \<in> set (map fst (nodes g))"
  using live_edges_subset[of skip "edges g"] by (auto simp: graph_ok_def edge_ok_def)

lemma adjacency_spec:
  assumes "graph_ok g"
  shows "\<exists>adj. adjacency g skip = Inr adj \<and> adj_spec adj (live_edges skip (edges g)) (map fst (nodes g))"
  using build_adj_spec[OF live_edges_ends[OF assms]] by (simp add: adjacency_def comp_def)

text \<open>What an adjacency dictionary that meets its specification offers the search.\<close>

lemma adj_spec_edge:
  assumes "adj_spec adj es ids" and ends: "\<forall>e \<in> set es. edge_a e \<in> set ids \<and> edge_b e \<in> set ids"
  shows "adj_edge blocked adj u v \<longleftrightarrow> blocked \<noteq> Some v \<and>
     (\<exists>e \<in> set es. (edge_a e = u \<and> edge_b e = v) \<or> (edge_a e = v \<and> edge_b e = u))"
proof (cases "u \<in> set ids")
  case True
  with assms(1) obtain ns where "map_of adj u = Some ns"
    "set ns = {v. \<exists>x \<in> set es. (edge_a x = u \<and> edge_b x = v) \<or> (edge_a x = v \<and> edge_b x = u)}"
    unfolding adj_spec_def by blast
  then show ?thesis by (auto simp: adj_edge_def)
next
  case False
  have "map fst adj = ids" using assms(1) by (simp add: adj_spec_def)
  with False have "map_of adj u = None" by (metis map_of_eq_None_iff set_map)
  with False ends show ?thesis by (auto simp: adj_edge_def)
qed

lemma adj_spec_keys: "adj_spec adj es ids \<Longrightarrow> fst ` set adj = set ids"
  by (metis adj_spec_def set_map)

lemma adj_spec_closed:
  assumes "adj_spec adj es ids" and ends: "\<forall>e \<in> set es. edge_a e \<in> set ids \<and> edge_b e \<in> set ids"
    and "map_of adj u = Some ns"
  shows "set ns \<subseteq> fst ` set adj"
proof
  fix v assume "v \<in> set ns"
  with assms(3) have "adj_edge None adj u v" by (auto simp: adj_edge_def)
  with adj_spec_edge[OF assms(1) ends] ends have "v \<in> set ids" by auto
  then show "v \<in> fst ` set adj" by (simp add: adj_spec_keys[OF assms(1)])
qed

text \<open>The region graph is a client of the search: a graph with a set of skipped edge positions.\<close>

definition region_adj :: "region_graph \<times> nat set \<Rightarrow> string adjacency" where
  "region_adj p = (case adjacency (fst p) (snd p) of Inl _ \<Rightarrow> [] | Inr adj \<Rightarrow> adj)"

lemma region_adj_props:
  assumes "graph_ok g"
  shows "adjacency g skip = Inr (region_adj (g, skip))"
    and "adj_spec (region_adj (g, skip)) (live_edges skip (edges g)) (map fst (nodes g))"
    and "fst ` set (region_adj (g, skip)) = node_ids g"
    and "adj_edge blocked (region_adj (g, skip)) u v \<longleftrightarrow> link g blocked skip u v"
proof -
  obtain adj where adj: "adjacency g skip = Inr adj"
      "adj_spec adj (live_edges skip (edges g)) (map fst (nodes g))"
    using adjacency_spec[OF assms] by blast
  then have eq: "region_adj (g, skip) = adj" by (simp add: region_adj_def)
  show "adjacency g skip = Inr (region_adj (g, skip))" using adj eq by simp
  show "adj_spec (region_adj (g, skip)) (live_edges skip (edges g)) (map fst (nodes g))"
    using adj eq by simp
  show "fst ` set (region_adj (g, skip)) = node_ids g"
    using adj_spec_keys[OF adj(2)] eq by simp
  show "adj_edge blocked (region_adj (g, skip)) u v \<longleftrightarrow> link g blocked skip u v"
    unfolding eq link_def by (rule adj_spec_edge[OF adj(2) live_edges_ends[OF assms]])
qed

interpretation region: adjacency_graph "\<lambda>p. graph_ok (fst p)" region_adj
proof unfold_locales
  fix p :: "region_graph \<times> nat set" and u ns
  assume ok: "graph_ok (fst p)" and ns: "map_of (region_adj p) u = Some ns"
  have "adj_spec (region_adj p) (live_edges (snd p) (edges (fst p))) (map fst (nodes (fst p)))"
    using region_adj_props(2)[OF ok, of "snd p"] by simp
  from adj_spec_closed[OF this live_edges_ends[OF ok] ns]
  show "set ns \<subseteq> fst ` set (region_adj p)" .
qed

lemma link_sym: "link g None skip u v \<Longrightarrow> link g None skip v u"
  by (auto simp: link_def)

lemma bfs_dist_exact:
  assumes ok: "graph_ok g" and source: "source \<in> node_ids g"
  shows "\<exists>dm. bfs_dist g source blocked skip = Inr dm \<and> distinct (map fst dm) \<and>
           fst ` set dm \<subseteq> node_ids g \<and>
           (\<forall>v k. map_of dm v = Some k \<longleftrightarrow> is_dist (link g blocked skip) source v k)"
proof -
  have E: "adj_edge blocked (region_adj (g, skip)) = link g blocked skip"
    by (intro ext) (rule region_adj_props(4)[OF ok])
  have "source \<in> fst ` set (region_adj (g, skip))" using source by (simp add: region_adj_props(3)[OF ok])
  from region.bfs_from[of "(g, skip)", OF _ this, of blocked]
  obtain dm where dm: "bfs_loop blocked (region_adj (g, skip)) [(source, 0)] [source] = Inr dm"
    "distinct (map fst dm)" "fst ` set dm \<subseteq> node_ids g"
    "\<forall>v k. map_of dm v = Some k \<longleftrightarrow> is_dist (link g blocked skip) source v k"
    using ok by (auto simp: E region_adj_props(3)[OF ok])
  then show ?thesis
    using source by (simp add: bfs_dist_def region_adj_props(1)[OF ok])
qed

lemma bfs_dist_keys:
  assumes "graph_ok g" and "source \<in> node_ids g" and "bfs_dist g source blocked skip = Inr dm"
  shows "fst ` set dm = {v. (link g blocked skip)\<^sup>*\<^sup>* source v}"
proof -
  have "v \<in> fst ` set dm \<longleftrightarrow> (\<exists>k. is_dist (link g blocked skip) source v k)" for v
    using bfs_dist_exact[OF assms(1,2), of blocked skip] assms(3) by (auto simp: map_of_dom)
  moreover have "(\<exists>k. is_dist (link g blocked skip) source v k) \<longleftrightarrow> (link g blocked skip)\<^sup>*\<^sup>* source v" for v
    using is_dist_exists[of "link g blocked skip" source v] hops_rtranclp[of "link g blocked skip" source v]
    by (auto simp: is_dist_def)
  ultimately show ?thesis by blast
qed

end
