(* ===== verification/Region_Cycles.thy ===== *)
theory Region_Cycles
  imports Region_Model
begin

text \<open>
  Connectivity and the cyclomatic number of the region graph (\<open>is_connected\<close>,
  \<open>_component_count\<close>, \<open>cyclomatic_number\<close> of model.py). The graph theory is developed on edge
  lists: connection classes, how one more edge changes their number, and the surplus of edges over
  a spanning forest; the lemmas at the end read it back on the model's functions.
\<close>

section \<open>Connection classes of an edge list\<close>

definition lnk :: "region_edge list \<Rightarrow> string \<Rightarrow> string \<Rightarrow> bool" where
  "lnk es u v \<longleftrightarrow> (\<exists>e \<in> set es. (edge_a e = u \<and> edge_b e = v) \<or> (edge_a e = v \<and> edge_b e = u))"

abbreviation conn :: "region_edge list \<Rightarrow> string \<Rightarrow> string \<Rightarrow> bool" where
  "conn es \<equiv> (lnk es)\<^sup>*\<^sup>*"

definition cls :: "region_edge list \<Rightarrow> string \<Rightarrow> string set" where
  "cls es u = {v. conn es u v}"

lemma lnk_sym: "lnk es u v \<Longrightarrow> lnk es v u"
  by (auto simp: lnk_def)

lemma conn_sym: "conn es u v \<Longrightarrow> conn es v u"
  by (induction rule: rtranclp_induct) (auto intro: lnk_sym converse_rtranclp_into_rtranclp)

lemma conn_mono: "conn es u v \<Longrightarrow> set es \<subseteq> set es' \<Longrightarrow> conn es' u v"
proof (induction rule: rtranclp_induct)
  case base
  show ?case by simp
next
  case (step y z)
  then have "lnk es' y z" by (auto simp: lnk_def)
  with step show ?case by (meson rtranclp.rtrancl_into_rtrancl)
qed

lemma conn_edge: "e \<in> set es \<Longrightarrow> conn es (edge_a e) (edge_b e)"
  by (rule r_into_rtranclp) (auto simp: lnk_def)

lemma cls_eq_iff: "cls es u = cls es v \<longleftrightarrow> conn es u v"
proof
  assume "cls es u = cls es v"
  moreover have "v \<in> cls es v" by (simp add: cls_def)
  ultimately have "v \<in> cls es u" by simp
  then show "conn es u v" by (simp add: cls_def)
next
  assume "conn es u v"
  then show "cls es u = cls es v" unfolding cls_def by (auto intro: rtranclp_trans dest: conn_sym)
qed

lemma conn_stays:
  assumes "conn es u v" and "\<forall>e \<in> set es. edge_a e \<in> V \<and> edge_b e \<in> V" and "u \<in> V"
  shows "v \<in> V"
  using assms by (induction rule: rtranclp_induct) (auto simp: lnk_def)

text \<open>One more edge connects exactly what its two endpoints' classes bring together.\<close>

lemma conn_snoc:
  "conn (es @ [e]) u v \<longleftrightarrow>
     conn es u v \<or> (conn es u (edge_a e) \<and> conn es (edge_b e) v) \<or>
     (conn es u (edge_b e) \<and> conn es (edge_a e) v)"
proof
  assume "conn (es @ [e]) u v"
  then show "conn es u v \<or> (conn es u (edge_a e) \<and> conn es (edge_b e) v) \<or>
     (conn es u (edge_b e) \<and> conn es (edge_a e) v)"
  proof (induction rule: rtranclp_induct)
    case base
    show ?case by simp
  next
    case (step y z)
    from step.hyps(2) consider "lnk es y z" | "edge_a e = y" "edge_b e = z" | "edge_a e = z" "edge_b e = y"
      by (auto simp: lnk_def)
    then show ?case using step.IH by cases (auto intro: rtranclp.rtrancl_into_rtrancl)
  qed
next
  have up: "conn (es @ [e]) x y" if "conn es x y" for x y
    using that by (rule conn_mono) auto
  have mid: "conn (es @ [e]) (edge_a e) (edge_b e)" by (rule conn_edge) simp
  assume "conn es u v \<or> (conn es u (edge_a e) \<and> conn es (edge_b e) v) \<or>
     (conn es u (edge_b e) \<and> conn es (edge_a e) v)"
  then show "conn (es @ [e]) u v"
    using up mid conn_sym[OF mid] by (meson rtranclp_trans)
qed

definition ncls :: "string set \<Rightarrow> region_edge list \<Rightarrow> nat" where
  "ncls V es = card (cls es ` V)"

lemma ncls_Nil: "ncls V [] = card V"
proof -
  have "conn [] u v \<longleftrightarrow> u = v" for u v
    using converse_rtranclpE[of "lnk []" u v] by (auto simp: lnk_def)
  then have "cls [] = (\<lambda>u. {u})" by (intro ext) (simp add: cls_def)
  then show ?thesis by (simp add: ncls_def card_image)
qed

lemma ncls_snoc_joined:
  assumes "conn es (edge_a e) (edge_b e)"
  shows "ncls V (es @ [e]) = ncls V es"
proof -
  have "conn (es @ [e]) u v \<longleftrightarrow> conn es u v" for u v
    unfolding conn_snoc using assms conn_sym[OF assms] by (meson rtranclp_trans)
  then show ?thesis by (simp add: ncls_def cls_def)
qed

lemma ncls_snoc_apart:
  assumes apart: "\<not> conn es (edge_a e) (edge_b e)" and V: "finite V" "edge_a e \<in> V" "edge_b e \<in> V"
  shows "Suc (ncls V (es @ [e])) = ncls V es"
proof -
  let ?A = "cls es (edge_a e)" and ?B = "cls es (edge_b e)" and ?C = "cls es ` V"
  have neq: "?A \<noteq> ?B" using apart by (simp add: cls_eq_iff)
  have in_A: "conn es u (edge_a e) \<longleftrightarrow> u \<in> ?A" for u by (auto simp: cls_def dest: conn_sym)
  have in_B: "conn es u (edge_b e) \<longleftrightarrow> u \<in> ?B" for u by (auto simp: cls_def dest: conn_sym)
  have new: "cls (es @ [e]) u = (if u \<in> ?A \<union> ?B then ?A \<union> ?B else cls es u)" for u
  proof (cases "u \<in> ?A \<union> ?B")
    case True
    then have "cls es u = ?A \<or> cls es u = ?B"
      using cls_eq_iff[of es u "edge_a e"] cls_eq_iff[of es u "edge_b e"] in_A in_B by blast
    then show ?thesis
      using True in_A[of u] in_B[of u] unfolding cls_def conn_snoc by auto
  next
    case False
    then show ?thesis using in_A in_B unfolding cls_def conn_snoc by auto
  qed
  have image: "cls (es @ [e]) ` V = insert (?A \<union> ?B) (?C - {?A, ?B})"
  proof (intro equalityI subsetI)
    fix x assume "x \<in> cls (es @ [e]) ` V"
    then obtain u where u: "u \<in> V" "x = cls (es @ [e]) u" by auto
    show "x \<in> insert (?A \<union> ?B) (?C - {?A, ?B})"
    proof (cases "u \<in> ?A \<union> ?B")
      case True with u new show ?thesis by simp
    next
      case False
      then have "cls es u \<noteq> ?A" "cls es u \<noteq> ?B" using in_A in_B by (auto simp: cls_eq_iff)
      with False u new show ?thesis by simp
    qed
  next
    fix x assume "x \<in> insert (?A \<union> ?B) (?C - {?A, ?B})"
    then consider "x = ?A \<union> ?B" | u where "u \<in> V" "x = cls es u" "x \<noteq> ?A" "x \<noteq> ?B" by auto
    then show "x \<in> cls (es @ [e]) ` V"
    proof cases
      case 1
      have "edge_a e \<in> ?A" by (simp add: cls_def)
      then have "cls (es @ [e]) (edge_a e) = x" using new 1 by simp
      with V(2) show ?thesis by blast
    next
      case 2
      then have "u \<notin> ?A \<union> ?B" using in_A in_B by (auto simp: cls_eq_iff)
      with 2 new[of u] show ?thesis by auto
    qed
  qed
  have fresh: "?A \<union> ?B \<notin> ?C - {?A, ?B}"
  proof
    assume "?A \<union> ?B \<in> ?C - {?A, ?B}"
    then obtain u where u: "?A \<union> ?B = cls es u" "cls es u \<noteq> ?A" by auto
    have "edge_a e \<in> cls es u" unfolding u(1)[symmetric] by (simp add: cls_def)
    then have "cls es u = ?A" by (simp add: cls_eq_iff) (simp add: cls_def)
    with u(2) show False by simp
  qed
  have fin: "finite ?C" using V(1) by simp
  have pair: "{?A, ?B} \<subseteq> ?C" using V by auto
  have "card (?C - {?A, ?B}) = card ?C - 2"
    using card_Diff_subset[OF _ pair] neq by simp
  moreover have "2 \<le> card ?C" using card_mono[OF fin pair] neq by simp
  ultimately show ?thesis
    unfolding ncls_def image using fresh fin by simp
qed

section \<open>Surplus edges\<close>

text \<open>Edges that join two regions the earlier edges of the list already connect.\<close>

fun surplus_from :: "region_edge list \<Rightarrow> region_edge list \<Rightarrow> nat" where
  "surplus_from done [] = 0"
| "surplus_from done (e # es) =
     (if conn done (edge_a e) (edge_b e) then 1 else 0) + surplus_from (done @ [e]) es"

lemma surplus_from_append:
  "surplus_from done (xs @ ys) = surplus_from done xs + surplus_from (done @ xs) ys"
  by (induction xs arbitrary: "done") simp_all

lemma surplus_count:
  assumes "finite V" and "\<forall>e \<in> set es. edge_a e \<in> V \<and> edge_b e \<in> V"
  shows "length es + ncls V es = card V + surplus_from [] es"
  using assms(2)
proof (induction es rule: rev_induct)
  case Nil
  show ?case by (simp add: ncls_Nil)
next
  case (snoc e es)
  then have IH: "length es + ncls V es = card V + surplus_from [] es" by simp
  show ?case
  proof (cases "conn es (edge_a e) (edge_b e)")
    case True
    with IH show ?thesis by (simp add: ncls_snoc_joined surplus_from_append)
  next
    case False
    have "Suc (ncls V (es @ [e])) = ncls V es"
      using ncls_snoc_apart[OF False assms(1)] snoc.prems by simp
    with IH False show ?thesis by (simp add: surplus_from_append)
  qed
qed

lemma ncls_set: "set es = set es' \<Longrightarrow> ncls V es = ncls V es'"
  by (simp add: ncls_def cls_def lnk_def[abs_def])

definition without :: "nat \<Rightarrow> region_edge list \<Rightarrow> region_edge list" where
  "without i es = take i es @ drop (Suc i) es"

definition on_cycle :: "region_edge list \<Rightarrow> nat \<Rightarrow> bool" where
  "on_cycle es i \<longleftrightarrow> i < length es \<and> conn (without i es) (edge_a (es ! i)) (edge_b (es ! i))"

lemma surplus_exists: "0 < surplus_from done es \<Longrightarrow>
   \<exists>i < length es. conn (done @ take i es) (edge_a (es ! i)) (edge_b (es ! i))"
proof (induction es arbitrary: "done")
  case Nil
  then show ?case by simp
next
  case (Cons e es)
  show ?case
  proof (cases "conn done (edge_a e) (edge_b e)")
    case True
    then show ?thesis by (intro exI[of _ 0]) simp
  next
    case False
    with Cons.prems have "0 < surplus_from (done @ [e]) es" by simp
    from Cons.IH[OF this] obtain i where "i < length es"
      "conn ((done @ [e]) @ take i es) (edge_a (es ! i)) (edge_b (es ! i))" by blast
    then show ?thesis by (intro exI[of _ "Suc i"]) simp
  qed
qed

text \<open>There is a surplus edge exactly when some edge lies on a cycle.\<close>

lemma surplus_pos_iff:
  assumes V: "finite V" "\<forall>e \<in> set es. edge_a e \<in> V \<and> edge_b e \<in> V"
  shows "0 < surplus_from [] es \<longleftrightarrow> (\<exists>i. on_cycle es i)"
proof
  assume "0 < surplus_from [] es"
  then obtain i where i: "i < length es" "conn (take i es) (edge_a (es ! i)) (edge_b (es ! i))"
    using surplus_exists[of "[]" es] by auto
  have "conn (without i es) (edge_a (es ! i)) (edge_b (es ! i))"
    by (rule conn_mono[OF i(2)]) (simp add: without_def)
  with i(1) show "\<exists>i. on_cycle es i" by (auto simp: on_cycle_def)
next
  assume "\<exists>i. on_cycle es i"
  then obtain i where i: "i < length es" "conn (without i es) (edge_a (es ! i)) (edge_b (es ! i))"
    by (auto simp: on_cycle_def)
  let ?es = "without i es @ [es ! i]"
  have perm: "mset ?es = mset es"
    using id_take_nth_drop[OF i(1)] by (metis (no_types, lifting) without_def append.assoc
        append_Cons append_Nil mset_append union_ac(1) union_commute)
  have sets: "set ?es = set es" using perm by (metis set_mset_mset)
  have "length ?es + ncls V ?es = card V + surplus_from [] ?es"
    using surplus_count[OF V(1)] V(2) sets by blast
  moreover have "length ?es = length es" using perm by (metis size_mset)
  moreover have "ncls V ?es = ncls V es" using sets by (rule ncls_set)
  moreover have "length es + ncls V es = card V + surplus_from [] es" by (rule surplus_count[OF V])
  moreover have "0 < surplus_from [] ?es" using i(2) by (simp add: surplus_from_append)
  ultimately show "0 < surplus_from [] es" by simp
qed

section \<open>Reading it back on the model\<close>

lemma link_lnk: "link g None skip = lnk (live_edges skip (edges g))"
  by (intro ext) (simp add: link_def lnk_def)

lemma live_edges_without: "i < length es \<Longrightarrow> set (live_edges {i} es) = set (without i es)"
proof -
  assume i: "i < length es"
  have "set (without i es) = {es ! j | j. j < length es \<and> j \<noteq> i}"
  proof (intro equalityI subsetI)
    fix x assume "x \<in> set (without i es)"
    then show "x \<in> {es ! j | j. j < length es \<and> j \<noteq> i}"
      using i by (auto simp: without_def in_set_conv_nth)
  next
    fix x assume "x \<in> {es ! j | j. j < length es \<and> j \<noteq> i}"
    then obtain j where j: "x = es ! j" "j < length es" "j \<noteq> i" by auto
    show "x \<in> set (without i es)"
    proof (cases "j < i")
      case True
      then have "take i es ! j = x" "j < length (take i es)" using j i by auto
      then have "x \<in> set (take i es)" by (metis nth_mem)
      then show ?thesis by (simp add: without_def)
    next
      case False
      with j have "drop (Suc i) es ! (j - Suc i) = x" "j - Suc i < length (drop (Suc i) es)" by auto
      then have "x \<in> set (drop (Suc i) es)" by (metis nth_mem)
      then show ?thesis by (simp add: without_def)
    qed
  qed
  then show ?thesis by (auto simp: set_live_edges)
qed

lemma graph_ok_endpoints: "graph_ok g \<Longrightarrow> \<forall>e \<in> set (edges g). edge_a e \<in> node_ids g \<and> edge_b e \<in> node_ids g"
  by (auto simp: graph_ok_def edge_ok_def)

lemma card_node_ids: "graph_ok g \<Longrightarrow> card (node_ids g) = length (nodes g)"
  by (metis distinct_card graph_ok_def length_map set_map)

lemma bfs_class:
  assumes "graph_ok g" "n \<in> node_ids g"
  shows "\<exists>d. bfs_dist g n None {} = Inr d \<and> fst ` set d = cls (edges g) n \<and> distinct (map fst d)"
proof -
  obtain d where d: "bfs_dist g n None {} = Inr d" "distinct (map fst d)"
    using bfs_dist_exact[OF assms, of None "{}"] by blast
  have "fst ` set d = {v. (link g None {})\<^sup>*\<^sup>* n v}" by (rule bfs_dist_keys[OF assms d(1)])
  with d show ?thesis by (simp add: link_lnk cls_def)
qed

lemma is_connected_iff:
  assumes ok: "graph_ok g" and ent: "entrance_id g \<in> node_ids g"
  shows "is_connected g = Inr (\<forall>v \<in> node_ids g. conn (edges g) (entrance_id g) v)"
proof -
  obtain d where d: "bfs_dist g (entrance_id g) None {} = Inr d"
      "fst ` set d = cls (edges g) (entrance_id g)" "distinct (map fst d)"
    using bfs_class[OF ok ent] by blast
  have sub: "fst ` set d \<subseteq> node_ids g"
    unfolding d(2) using conn_stays[OF _ graph_ok_endpoints[OF ok] ent] by (auto simp: cls_def)
  have "length (map fst d) = card (fst ` set d)" using d(3) by (metis distinct_card set_map)
  then have "length (map fst d) = length (nodes g) \<longleftrightarrow> fst ` set d = node_ids g"
    using card_node_ids[OF ok] card_subset_eq[OF _ sub] by (metis List.finite_set finite_imageI)
  also have "\<dots> \<longleftrightarrow> (\<forall>v \<in> node_ids g. conn (edges g) (entrance_id g) v)"
    using sub unfolding d(2) by (auto simp: cls_def)
  finally show ?thesis
    using d(1) ent by (auto simp: is_connected_def reachable_from_entrance_def)
qed

lemma count_components_classes:
  assumes "graph_ok g" and "set ns \<subseteq> node_ids g"
    and "\<And>u v. u \<in> seen \<Longrightarrow> conn (edges g) u v \<Longrightarrow> v \<in> seen"
  shows "count_components g seen c ns = Inr (c + card (cls (edges g) ` (set ns - seen)))"
  using assms(2,3)
proof (induction ns arbitrary: seen c)
  case Nil
  show ?case by simp
next
  case (Cons n ns)
  let ?cls = "cls (edges g)"
  show ?case
  proof (cases "n \<in> seen")
    case True
    with Cons show ?thesis by (simp add: insert_Diff_if)
  next
    case False
    obtain d where d: "bfs_dist g n None {} = Inr d" "fst ` set d = ?cls n"
      using bfs_class[OF assms(1)] Cons.prems(1) by force
    let ?seen = "seen \<union> ?cls n"
    have closed: "v \<in> ?seen" if "u \<in> ?seen" "conn (edges g) u v" for u v
      using that Cons.prems(2) by (auto simp: cls_def intro: rtranclp_trans)
    have "count_components g seen c (n # ns) = count_components g ?seen (c + 1) ns"
      using False d by simp
    also have "\<dots> = Inr (c + 1 + card (?cls ` (set ns - ?seen)))"
      using Cons.IH[OF _ closed] Cons.prems(1) by simp
    also have "?cls ` (set ns - ?seen) = ?cls ` (set (n # ns) - seen) - {?cls n}"
    proof -
      have "m \<in> ?cls n \<longleftrightarrow> ?cls m = ?cls n" for m
        unfolding cls_eq_iff by (auto simp: cls_def dest: conn_sym)
      then show ?thesis by auto
    qed
    also have "c + 1 + card (?cls ` (set (n # ns) - seen) - {?cls n}) = c + card (?cls ` (set (n # ns) - seen))"
    proof -
      have "?cls n \<in> ?cls ` (set (n # ns) - seen)" using False by simp
      from card_Suc_Diff1[OF _ this] show ?thesis by simp
    qed
    finally show ?thesis .
  qed
qed

lemma component_count_eq: "graph_ok g \<Longrightarrow> component_count g = Inr (ncls (node_ids g) (edges g))"
  unfolding component_count_def
  by (subst count_components_classes) (auto simp: ncls_def)

lemma cyclomatic_surplus:
  "graph_ok g \<Longrightarrow> cyclomatic_number g = Inr (int (surplus_from [] (edges g)))"
proof -
  assume ok: "graph_ok g"
  have "length (edges g) + ncls (node_ids g) (edges g) = length (nodes g) + surplus_from [] (edges g)"
    using surplus_count[OF _ graph_ok_endpoints[OF ok]] card_node_ids[OF ok] by simp
  then show ?thesis by (simp add: cyclomatic_number_def component_count_eq[OF ok])
qed

end
