(* ===== verification/Region_Generator.thy ===== *)
theory Region_Generator
  imports Region_Cycles "HOL-Library.List_Lexorder" "HOL-Library.Char_ord"
begin

text \<open>
  Expansion generation for the region graph: the tunable thresholds (config.py), the Jaquays
  invariant checker (invariants.py), the candidate builder, the re-roll loop and the attach step
  (generator.py). The builder runs on a random tape; the hash of \<open>hashlib.blake2b\<close> and the seeding
  of \<open>random.Random\<close> are parameters, so the theorems hold for every seed and every hash.
\<close>

section \<open>Configuration\<close>

record jaquays_config =
  min_stitch_edges :: int
  min_loops_into_explored :: int
  min_hidden_edges :: int
  min_shortcut_edges :: int
  min_shortcut_gain :: int
  connection_burst :: int
  new_regions_per_expansion :: "int \<times> int"
  max_reroll_attempts :: int
  edge_kinds :: "string list"

definition default_jaquays_config :: jaquays_config where
  "default_jaquays_config =
     \<lparr>min_stitch_edges = 2, min_loops_into_explored = 1, min_hidden_edges = 1,
      min_shortcut_edges = 1, min_shortcut_gain = 1, connection_burst = 3,
      new_regions_per_expansion = (3, 6), max_reroll_attempts = 64,
      edge_kinds = [''corridor'', ''stairs'', ''shaft'', ''chute'', ''secret'']\<rparr>"

definition jaquays_validate :: "jaquays_config \<Rightarrow> unit res" where
  "jaquays_validate c =
     (if edge_kinds c = [] then Inl (ValueError ''edge_kinds must be non-empty'')
      else if ''secret'' \<notin> set (edge_kinds c) then Inl (ValueError ''edge_kinds must include secret'')
      else if min_stitch_edges c < 1 then Inl (ValueError ''min_stitch_edges must be >= 1'')
      else if min_loops_into_explored c < 1 then Inl (ValueError ''min_loops_into_explored must be >= 1'')
      else if min_hidden_edges c < 1 then Inl (ValueError ''min_hidden_edges must be >= 1'')
      else if min_shortcut_edges c < 1 then Inl (ValueError ''min_shortcut_edges must be >= 1'')
      else if min_shortcut_gain c < 1 then Inl (ValueError ''min_shortcut_gain must be >= 1'')
      else if connection_burst c < 0 then Inl (ValueError ''connection_burst must be >= 0'')
      else if max_reroll_attempts c < 1 then Inl (ValueError ''max_reroll_attempts must be >= 1'')
      else let (lo, hi) = new_regions_per_expansion c in
        if lo < 1 \<or> hi < lo then Inl (ValueError ''new_regions_per_expansion must be (lo>=1, hi>=lo)'')
        else if lo < min_stitch_edges c then Inl (ValueError ''lower bound must be >= min_stitch_edges'')
        else if lo < min_stitch_edges c + min_shortcut_edges c
          then Inl (ValueError ''lower bound must be >= min_stitch_edges + min_shortcut_edges'')
        else Inr ())"

section \<open>The invariant checker\<close>

record generation_report =
  rep_expansion_id :: int
  attempts :: nat
  stitch_edges :: nat
  loops_into_explored :: nat
  hidden_edges :: nat
  shortcut_edges :: nat
  new_regions :: nat
  invariants_passed :: "(string \<times> bool) list"

definition jaquays_invariants :: "string list" where
  "jaquays_invariants =
     [''two_independent_entries'', ''loops_into_explored'', ''mixed_kinds_with_hidden'',
      ''shortcut_collapses_distance'', ''no_single_entrance'', ''no_single_chokepoint'']"

definition all_passed :: "generation_report \<Rightarrow> bool" where
  "all_passed r \<longleftrightarrow> invariants_passed r \<noteq> [] \<and> list_all snd (invariants_passed r)"

definition failing :: "generation_report \<Rightarrow> string list" where
  "failing r = map fst (filter (\<lambda>p. \<not> snd p) (invariants_passed r))"

definition post_attach_graph :: "region_graph \<Rightarrow> expansion \<Rightarrow> region_graph res" where
  "post_attach_graph explored x =
     rbind (rfold (\<lambda>p. add_node (snd p)) (nodes explored) (empty_graph (entrance_id explored))) (\<lambda>g.
     rbind (rfold add_node (new_nodes x) g) (\<lambda>g.
       rfold add_edge (new_edges x) (g\<lparr>edges := edges g @ edges explored\<rparr>)))"

definition end_in :: "string set \<Rightarrow> region_edge \<Rightarrow> string" where
  "end_in S e = (if edge_a e \<in> S then edge_a e else edge_b e)"

definition is_seed :: "region_graph \<Rightarrow> bool" where
  "is_seed g \<longleftrightarrow> node_ids g = {entrance_id g}"

definition cross_edges :: "string set \<Rightarrow> string set \<Rightarrow> region_edge list \<Rightarrow> region_edge list" where
  "cross_edges new_ids explored_ids es =
     filter (\<lambda>e. card (endpoints e \<inter> new_ids) = 1 \<and> card (endpoints e \<inter> explored_ids) = 1) es"

definition stitches :: "region_graph \<Rightarrow> expansion \<Rightarrow> region_edge list" where
  "stitches explored x =
     filter (\<lambda>e. \<not> hidden e \<and> \<not> shortcut e)
       (cross_edges (new_region_ids x) (node_ids explored) (new_edges x))"

definition two_independent_entries :: "region_graph \<Rightarrow> expansion \<Rightarrow> jaquays_config \<Rightarrow> bool" where
  "two_independent_entries explored x c =
     (let stitch = stitches explored x; new_ids = new_region_ids x;
          enough_stitch = min_stitch_edges c \<le> int (length stitch);
          enough_new = min_stitch_edges c \<le> int (card (end_in new_ids ` set stitch));
          explored_ok =
            (if is_seed explored
             then 2 \<le> card (end_in new_ids ` set (filter (\<lambda>e. entrance_id explored \<in> endpoints e) stitch))
             else 2 \<le> card (end_in (node_ids explored) ` set stitch))
      in enough_stitch \<and> enough_new \<and> explored_ok)"

definition distance_gain :: "region_graph \<Rightarrow> string distances \<Rightarrow> string distances \<Rightarrow> int res" where
  "distance_gain post base alt =
     (let big = length (nodes post) + 1;
          gain = (\<lambda>r. int (dict_get alt r big) - int (dict_get base r big))
      in case map fst (nodes post) of [] \<Rightarrow> Inl (ValueError ''max() arg is an empty sequence'')
         | r # rs \<Rightarrow> Inr (gain (max_key gain r rs)))"

fun shortcut_hits :: "region_graph \<Rightarrow> string distances \<Rightarrow> int \<Rightarrow> (nat \<times> region_edge) list \<Rightarrow> nat res" where
  "shortcut_hits post base min_gain [] = Inr 0"
| "shortcut_hits post base min_gain ((i, e) # rest) =
     (if \<not> shortcut e then shortcut_hits post base min_gain rest
      else rbind (bfs_dist post (entrance_id post) None {i}) (\<lambda>alt.
           rbind (distance_gain post base alt) (\<lambda>gain.
           rbind (shortcut_hits post base min_gain rest) (\<lambda>n.
             Inr (if min_gain \<le> gain then n + 1 else n)))))"

fun chokepoint_free :: "region_graph \<Rightarrow> string set \<Rightarrow> string list \<Rightarrow> bool res" where
  "chokepoint_free post new_ids [] = Inr True"
| "chokepoint_free post new_ids (v # vs) =
     (if v = entrance_id post then chokepoint_free post new_ids vs
      else rbind (bfs_dist post (entrance_id post) (Some v) {}) (\<lambda>reached.
        if (new_ids - {v}) \<inter> fst ` set reached = {} then Inr False
        else chokepoint_free post new_ids vs))"

definition check_invariants :: "region_graph \<Rightarrow> expansion \<Rightarrow> jaquays_config \<Rightarrow> generation_report res" where
  "check_invariants explored x c =
     rbind (jaquays_validate c) (\<lambda>_.
     let new_ids = new_region_ids x; stitch = stitches explored x;
         n_hidden = length (filter hidden (new_edges x)); loops = length stitch - 1;
         kinds = kind ` set (new_edges x) in
     rbind (post_attach_graph explored x) (\<lambda>post.
     rbind (bfs_dist post (entrance_id post) None {}) (\<lambda>base.
     rbind (shortcut_hits post base (min_shortcut_gain c) (enumerate 0 (edges post))) (\<lambda>hits.
     rbind (rmap (\<lambda>n. degree post (node_id n)) (new_nodes x)) (\<lambda>degrees.
     rbind (chokepoint_free post new_ids
              (map (end_in new_ids) stitch @ map (end_in (node_ids explored)) stitch)) (\<lambda>choke_ok.
     let passed =
       [(''two_independent_entries'', two_independent_entries explored x c),
        (''loops_into_explored'', min_loops_into_explored c \<le> int loops),
        (''mixed_kinds_with_hidden'',
           kinds \<subseteq> set (edge_kinds c) \<and> 2 \<le> card kinds \<and> min_hidden_edges c \<le> int n_hidden),
        (''shortcut_collapses_distance'', min_shortcut_edges c \<le> int hits),
        (''no_single_entrance'', list_all (\<lambda>d. 2 \<le> d) degrees),
        (''no_single_chokepoint'', choke_ok)] in
     if set (map fst passed) \<noteq> set jaquays_invariants
     then Inl (RuntimeError ''invariant key-set mismatch'')
     else Inr \<lparr>rep_expansion_id = expansion_id x, attempts = 1, stitch_edges = length stitch,
               loops_into_explored = loops, hidden_edges = n_hidden, shortcut_edges = hits,
               new_regions = length (new_nodes x), invariants_passed = passed\<rparr>))))))"

section \<open>The candidate builder\<close>

definition subseed :: "(string \<Rightarrow> nat list) \<Rightarrow> int \<Rightarrow> int \<Rightarrow> nat \<Rightarrow> nat" where
  "subseed blake2b campaign_seed eid attempt =
     from_bytes_big (blake2b (show_int campaign_seed @ ''|'' @ show_int eid @ ''|'' @ show_nat attempt))"

definition pick_distinct :: "string list \<Rightarrow> nat \<Rightarrow> (rng, string list) sm" where
  "pick_distinct pool k = (if length pool \<le> k then shuffle pool else sample pool k)"

definition region_name :: "int \<Rightarrow> nat \<Rightarrow> string" where
  "region_name eid i = ''exp'' @ show_int_03d eid @ ''.r'' @ show_nat i"

definition build_nodes :: "int \<Rightarrow> string list \<Rightarrow> nat \<Rightarrow> (rng, region_node list) sm" where
  "build_nodes eid theme_pool n =
     smap (\<lambda>i. sbind (choice theme_pool) (\<lambda>t.
       ret \<lparr>node_id = region_name eid i, node_expansion_id = eid, theme = t, depth_score = None\<rparr>)) [0..<n]"

definition plain_edge :: "string \<Rightarrow> string \<Rightarrow> string \<Rightarrow> region_edge" where
  "plain_edge a b k = \<lparr>edge_a = a, edge_b = b, kind = k, hidden = False, shortcut = False\<rparr>"

definition build_tree :: "string list \<Rightarrow> (rng, region_edge list) sm" where
  "build_tree new_ids =
     smap (\<lambda>i. sbind (randrange i) (\<lambda>k. ret (plain_edge (new_ids ! k) (new_ids ! i) ''corridor'')))
       [1..<length new_ids]"

text \<open>The new regions, deepest first over the internal tree (section 1b of \<open>_build_candidate\<close>).\<close>

definition rank_by_depth :: "string list \<Rightarrow> region_edge list \<Rightarrow> string list res" where
  "rank_by_depth new_ids tree =
     (case new_ids of [] \<Rightarrow> Inl (IndexError ''new_ids[0]'')
      | first_id # _ \<Rightarrow>
         rbind (rfold add_adj tree (map (\<lambda>i. (i, [])) new_ids)) (\<lambda>tree_adj.
         rbind (bfs_loop None tree_adj [(first_id, 0)] [first_id]) (\<lambda>seen.
           Inr (sort_key (\<lambda>nid. - int (dict_get seen nid 0)) new_ids))))"

definition pad_to :: "nat \<Rightarrow> string list \<Rightarrow> string list \<Rightarrow> (rng, string list) sm" where
  "pad_to cnt pool xs =
     sbind (smap (\<lambda>_. sbind (randrange (length pool)) (\<lambda>k. ret (pool ! k))) [0..<cnt - length xs])
       (\<lambda>ys. ret (xs @ ys))"

definition stitch_sources :: "bool \<Rightarrow> string \<Rightarrow> string list \<Rightarrow> nat \<Rightarrow> (rng, string list) sm" where
  "stitch_sources seed entrance attach cnt =
     (if seed then ret (replicate cnt entrance)
      else sbind (pick_distinct attach (min (length attach) cnt)) (\<lambda>base.
           sbind (pad_to cnt attach base) (\<lambda>srcs.
             ret (if 2 \<le> cnt \<and> card (set (take cnt srcs)) < 2 \<and> 2 \<le> length attach
                  then srcs[1 := hd (filter (\<lambda>a. a \<noteq> srcs ! 0) attach)] else srcs))))"

definition build_stitches ::
  "bool \<Rightarrow> string \<Rightarrow> string list \<Rightarrow> string list \<Rightarrow> jaquays_config \<Rightarrow> (rng, region_edge list) sm" where
  "build_stitches seed entrance attach stitchable c =
     sbind (randint 0 (connection_burst c)) (\<lambda>burst.
     let cnt = nat (min_stitch_edges c + burst) in
     sbind (sbind (pick_distinct stitchable (min (length stitchable) cnt)) (pad_to cnt stitchable)) (\<lambda>targets.
     sbind (stitch_sources seed entrance attach cnt) (\<lambda>sources.
       smap (\<lambda>j. sbind (if j = 0 then ret ''corridor'' else choice (edge_kinds c)) (\<lambda>k.
              ret (plain_edge (sources ! j) (targets ! j) k))) [0..<cnt])))"

definition build_hidden ::
  "string list \<Rightarrow> string list \<Rightarrow> jaquays_config \<Rightarrow> (rng, region_edge list) sm" where
  "build_hidden sources stitchable c =
     smap (\<lambda>_. sbind (choice sources) (\<lambda>a. sbind (choice stitchable) (\<lambda>b.
       ret \<lparr>edge_a = a, edge_b = b, kind = ''secret'', hidden = True, shortcut = False\<rparr>)))
       [0..<nat (min_hidden_edges c)]"

definition nearest_region :: "region_graph \<Rightarrow> string list \<Rightarrow> string res" where
  "nearest_region explored attach =
     rbind (bfs_dist explored (entrance_id explored) None {}) (\<lambda>d.
       if list_all (dict_has d) (entrance_id explored # attach)
       then Inr (min_key (\<lambda>r. dict_get d r 0) (entrance_id explored) attach)
       else Inl (KeyError ''dist_from_entrance[r]''))"

definition build_shortcuts ::
  "string \<Rightarrow> string list \<Rightarrow> jaquays_config \<Rightarrow> (rng, region_edge list) sm" where
  "build_shortcuts nearest targets c =
     (let steep = filter (\<lambda>k. k \<in> set (edge_kinds c)) [''shaft'', ''chute'', ''stairs'', ''secret''] in
     sbind (choice (if steep = [] then edge_kinds c else steep)) (\<lambda>k.
       ret (map (\<lambda>t. \<lparr>edge_a = nearest, edge_b = t, kind = k, hidden = (k = ''secret''), shortcut = True\<rparr>)
              targets)))"

definition build_loops :: "string list \<Rightarrow> jaquays_config \<Rightarrow> (rng, region_edge list) sm" where
  "build_loops new_ids c =
     sbind (randint 0 (connection_burst c)) (\<lambda>m.
     sbind (smap (\<lambda>_. if 2 \<le> length new_ids
              then sbind (sample new_ids 2) (\<lambda>xy. ret [plain_edge (xy ! 0) (xy ! 1) ''corridor''])
              else ret []) [0..<nat m]) (\<lambda>ess. ret (concat ess)))"

definition ensure_two_kinds :: "string \<Rightarrow> string \<Rightarrow> jaquays_config \<Rightarrow> region_edge list \<Rightarrow> region_edge list" where
  "ensure_two_kinds a b c es =
     (case filter (\<lambda>k. k \<noteq> ''corridor'') (edge_kinds c) of
        [] \<Rightarrow> es
      | k # _ \<Rightarrow> if card (kind ` set es) < 2 then es @ [plain_edge a b k] else es)"

definition attach_points :: "region_graph \<Rightarrow> string list \<Rightarrow> string list res" where
  "attach_points explored ids =
     (if \<not> list_all (dict_has (nodes explored)) ids then Inl (ValueError ''attach region is not explored'')
      else if is_seed explored then Inr [entrance_id explored]
      else if card (set ids) < 2 then Inl (ValueError ''expansion needs >= 2 distinct attach regions'')
      else Inr (sort (remdups ids)))"

definition build_candidate ::
  "region_graph \<Rightarrow> int \<Rightarrow> string list \<Rightarrow> string list \<Rightarrow> jaquays_config \<Rightarrow> (rng, expansion) sm" where
  "build_candidate explored eid attach_ids theme_pool c =
     sbind (lift_res (jaquays_validate c)) (\<lambda>_.
     if theme_pool = [] then raise (ValueError ''theme_pool must be non-empty'') else
     sbind (lift_res (attach_points explored attach_ids)) (\<lambda>attach.
     sbind (randint (fst (new_regions_per_expansion c)) (snd (new_regions_per_expansion c))) (\<lambda>n.
     sbind (build_nodes eid theme_pool (nat n)) (\<lambda>nds.
     let new_ids = map node_id nds; ent = entrance_id explored in
     sbind (build_tree new_ids) (\<lambda>tree.
     sbind (lift_res (rank_by_depth new_ids tree)) (\<lambda>ranked.
     let targets = take (nat (min_shortcut_edges c)) ranked;
         rest = filter (\<lambda>i. i \<notin> set targets) new_ids;
         stitchable = (if rest = [] then new_ids else rest) in
     sbind (build_stitches (is_seed explored) ent attach stitchable c) (\<lambda>stitch.
     sbind (build_hidden attach stitchable c) (\<lambda>hid.
     sbind (lift_res (nearest_region explored attach)) (\<lambda>nearest.
     sbind (build_shortcuts nearest targets c) (\<lambda>short.
     sbind (build_loops new_ids c) (\<lambda>loops.
       ret \<lparr>expansion_id = eid, new_nodes = nds,
            new_edges = ensure_two_kinds (hd attach) (hd new_ids) c (tree @ stitch @ hid @ short @ loops)\<rparr>)))))))))))"

section \<open>The re-roll loop and the attach step\<close>

fun reroll ::
  "(nat \<Rightarrow> (rng, expansion) sm) \<Rightarrow> (nat \<Rightarrow> rng) \<Rightarrow> region_graph \<Rightarrow> jaquays_config \<Rightarrow> nat list \<Rightarrow>
   generation_report option \<Rightarrow> (generation_report option + expansion \<times> generation_report) res" where
  "reroll build tape g c [] prev = Inr (Inl prev)"
| "reroll build tape g c (k # ks) prev =
     rbind (fst (build k (tape k))) (\<lambda>cand.
     rbind (check_invariants g cand c) (\<lambda>rep.
     let rep' = rep\<lparr>attempts := k + 1\<rparr> in
     if all_passed rep' then Inr (Inr (cand, rep')) else reroll build tape g c ks (Some rep')))"

definition generate_expansion ::
  "(string \<Rightarrow> nat list) \<Rightarrow> (nat \<Rightarrow> rng) \<Rightarrow> region_graph \<Rightarrow> int \<Rightarrow> int \<Rightarrow> string list \<Rightarrow> string list \<Rightarrow>
   jaquays_config \<Rightarrow> (expansion \<times> generation_report) res" where
  "generate_expansion blake2b seeded g campaign_seed eid attach_ids theme_pool c =
     rbind (jaquays_validate c) (\<lambda>_.
     rbind (reroll (\<lambda>_. build_candidate g eid attach_ids theme_pool c)
              (\<lambda>k. seeded (subseed blake2b campaign_seed eid k)) g c
              [0..<nat (max_reroll_attempts c)] None) (\<lambda>r.
     case r of Inr found \<Rightarrow> Inr found
     | Inl prev \<Rightarrow> Inl (ExpansionGenerationError eid (nat (max_reroll_attempts c))
                          (case prev of None \<Rightarrow> [] | Some rep \<Rightarrow> failing rep))))"

text \<open>
  The attach step mutates the graph it is given; the state it leaves behind is part of the result,
  also when it raises.
\<close>

definition upd :: "('s \<Rightarrow> 's res) \<Rightarrow> ('s, unit) sm" where
  "upd f s = (case f s of Inl e \<Rightarrow> (Inl e, s) | Inr s' \<Rightarrow> (Inr (), s'))"

definition attach_expansion :: "expansion \<Rightarrow> (region_graph, unit) sm" where
  "attach_expansion x =
     sbind get_st (\<lambda>g0.
     sbind (lift_res (cyclomatic_number g0)) (\<lambda>pre_cyclomatic.
     sthen (sforeach (\<lambda>n. upd (add_node n)) (new_nodes x)) (
     sthen (sforeach (\<lambda>e. upd (add_edge e)) (new_edges x)) (
     sbind get_st (\<lambda>g.
     sbind (lift_res (is_connected g)) (\<lambda>connected.
     if \<not> connected then raise (ValueError ''attach left the map disconnected'') else
     sbind (lift_res (cyclomatic_number g)) (\<lambda>cyc.
     let is_first = length (nodes g0) \<le> 1;
         flr = (if \<not> is_first \<or> new_nodes x \<noteq> [] then 1 else 0) in
     if cyc < max flr pre_cyclomatic then raise (ValueError ''attach made the map less loopful'')
     else ret ())))))))"

end
