(* ===== verification/Region_Candidate.thy ===== *)
theory Region_Candidate
  imports Region_Generator
begin

text \<open>
  What the candidate builder guarantees before any invariant is checked: on a valid configuration
  and a connected map it never raises, whatever the tape, and its candidate has fresh distinct
  region ids, edges with two distinct known endpoints, every new region connected to the explored
  map, and more edges than regions.
\<close>

section \<open>What the checked configuration gives\<close>

definition config_ok :: "jaquays_config \<Rightarrow> bool" where
  "config_ok c \<longleftrightarrow> jaquays_validate c = Inr ()"

lemma config_okD:
  assumes "config_ok c"
  shows "edge_kinds c \<noteq> []" "''secret'' \<in> set (edge_kinds c)" "1 \<le> min_stitch_edges c"
    "1 \<le> min_hidden_edges c" "1 \<le> min_shortcut_edges c" "0 \<le> connection_burst c"
    "1 \<le> max_reroll_attempts c"
    "fst (new_regions_per_expansion c) \<le> snd (new_regions_per_expansion c)"
    "min_stitch_edges c + min_shortcut_edges c \<le> fst (new_regions_per_expansion c)"
  using assms unfolding config_ok_def jaquays_validate_def
  by (auto split: if_splits prod.splits simp: Let_def)

section \<open>The pieces of the candidate\<close>

lemma build_nodes_ok:
  assumes "theme_pool \<noteq> []"
  shows "ok (build_nodes eid theme_pool n) (\<lambda>nds. map node_id nds = map (region_name eid) [0..<n])"
proof -
  have "ok (build_nodes eid theme_pool n)
      (list_all2 (\<lambda>i nd. node_id nd = region_name eid i) [0..<n])"
    unfolding build_nodes_def
    by (rule ok_smap) (auto intro!: ok_sbind[OF choice_ok[OF assms]] wp)
  then show ?thesis
    by (rule ok_weaken) (auto simp: list_all2_conv_all_nth intro!: nth_equalityI)
qed

lemma region_name_inj: "region_name eid i = region_name eid j \<longleftrightarrow> i = j"
  by (simp add: region_name_def show_nat_inj)

lemma distinct_region_names: "distinct (map (region_name eid) [0..<n])"
  by (simp add: distinct_map inj_on_def region_name_inj)

definition tree_ok :: "string list \<Rightarrow> region_edge list \<Rightarrow> bool" where
  "tree_ok ids es \<longleftrightarrow>
     length es = length ids - 1 \<and>
     (\<forall>e \<in> set es. edge_a e \<noteq> edge_b e \<and> edge_a e \<in> set ids \<and> edge_b e \<in> set ids) \<and>
     (\<forall>v \<in> set ids. conn es (hd ids) v)"

lemma parent_edges_connect:
  assumes par: "list_all2 (\<lambda>i e. \<exists>k < i. e = plain_edge (ids ! k) (ids ! i) ''corridor'') [1..<length ids] es"
    and "i < length ids"
  shows "conn es (ids ! 0) (ids ! i)"
  using assms(2)
proof (induction i rule: less_induct)
  case (less i)
  show ?case
  proof (cases i)
    case 0
    then show ?thesis by simp
  next
    case (Suc m)
    have len: "length es = length ids - 1" using par by (simp add: list_all2_conv_all_nth)
    then have m: "m < length es" using less.prems Suc by simp
    then obtain k where k: "k < i" "es ! m = plain_edge (ids ! k) (ids ! i) ''corridor''"
      using par Suc less.prems by (auto simp: list_all2_conv_all_nth)
    have "lnk es (ids ! k) (ids ! i)"
      using m k(2) nth_mem[OF m] by (force simp: lnk_def plain_edge_def)
    moreover have "conn es (ids ! 0) (ids ! k)" using less.IH[OF k(1)] k(1) less.prems by simp
    ultimately show ?thesis by (meson rtranclp.rtrancl_into_rtrancl)
  qed
qed

lemma build_tree_ok:
  assumes "distinct ids" "ids \<noteq> []"
  shows "ok (build_tree ids) (tree_ok ids)"
proof -
  have "ok (build_tree ids)
      (list_all2 (\<lambda>i e. \<exists>k < i. e = plain_edge (ids ! k) (ids ! i) ''corridor'') [1..<length ids])"
    unfolding build_tree_def
    by (rule ok_smap) (auto intro!: ok_sbind[OF randrange_ok] wp)
  then show ?thesis
  proof (rule ok_weaken)
    fix es
    assume par: "list_all2 (\<lambda>i e. \<exists>k < i. e = plain_edge (ids ! k) (ids ! i) ''corridor'') [1..<length ids] es"
    have len: "length es = length ids - 1" using par by (simp add: list_all2_conv_all_nth)
    have "edge_a e \<noteq> edge_b e \<and> edge_a e \<in> set ids \<and> edge_b e \<in> set ids" if "e \<in> set es" for e
    proof -
      from that obtain m where "m < length es" "e = es ! m" by (auto simp: in_set_conv_nth)
      then obtain k where "k < Suc m" "Suc m < length ids" "e = plain_edge (ids ! k) (ids ! Suc m) ''corridor''"
        using par len by (auto simp: list_all2_conv_all_nth)
      then show ?thesis using assms(1) by (auto simp: plain_edge_def nth_eq_iff_index_eq)
    qed
    moreover have "conn es (hd ids) v" if "v \<in> set ids" for v
      using parent_edges_connect[OF par] that assms(2) by (auto simp: in_set_conv_nth hd_conv_nth)
    ultimately show "tree_ok ids es" using len by (simp add: tree_ok_def)
  qed
qed

text \<open>The internal tree is a second client of the search: the ids and the tree's edges.\<close>

definition tree_adj :: "string list \<times> region_edge list \<Rightarrow> string adjacency" where
  "tree_adj p = (case rfold add_adj (snd p) (map (\<lambda>i. (i, [])) (fst p)) of Inl _ \<Rightarrow> [] | Inr adj \<Rightarrow> adj)"

definition tree_valid :: "string list \<times> region_edge list \<Rightarrow> bool" where
  "tree_valid p \<longleftrightarrow> (\<forall>e \<in> set (snd p). edge_a e \<in> set (fst p) \<and> edge_b e \<in> set (fst p))"

lemma tree_adj_spec:
  assumes "tree_valid p"
  shows "rfold add_adj (snd p) (map (\<lambda>i. (i, [])) (fst p)) = Inr (tree_adj p)"
    and "adj_spec (tree_adj p) (snd p) (fst p)"
  using build_adj_spec[of "snd p" "fst p"] assms by (auto simp: tree_adj_def tree_valid_def)

interpretation tree: adjacency_graph tree_valid tree_adj
proof unfold_locales
  fix p u ns
  assume "tree_valid p" and "map_of (tree_adj p) u = Some ns"
  then show "set ns \<subseteq> fst ` set (tree_adj p)"
    using adj_spec_closed[OF tree_adj_spec(2)] by (simp add: tree_valid_def)
qed

lemma rank_by_depth_ok:
  assumes "tree_ok ids es" "ids \<noteq> []"
  shows "\<exists>r. rank_by_depth ids es = Inr r \<and> set r = set ids"
proof -
  have valid: "tree_valid (ids, es)" using assms(1) by (auto simp: tree_ok_def tree_valid_def)
  obtain x xs where ids: "ids = x # xs" using assms(2) by (cases ids) auto
  have "x \<in> fst ` set (tree_adj (ids, es))"
    using adj_spec_keys[OF tree_adj_spec(2)[OF valid]] ids by simp
  from tree.bfs_from[OF valid this, of None] obtain d where
    "bfs_loop None (tree_adj (ids, es)) [(x, 0)] [x] = Inr d" by blast
  then show ?thesis
    using tree_adj_spec(1)[OF valid] by (simp add: rank_by_depth_def ids set_insort_key)
qed

lemma pick_distinct_ok:
  "ok (pick_distinct pool k) (\<lambda>ys. set ys \<subseteq> set pool \<and> length ys = min k (length pool))"
proof (cases "length pool \<le> k")
  case True
  then show ?thesis unfolding pick_distinct_def
    by (auto intro!: ok_weaken[OF shuffle_ok] dest: mset_eq_setD mset_eq_length)
next
  case False
  then show ?thesis unfolding pick_distinct_def
    by (auto intro!: ok_weaken[OF sample_ok] dest: mset_subset_set)
qed

lemma pad_to_ok:
  assumes "pool \<noteq> []" "length xs \<le> n" "set xs \<subseteq> set pool"
  shows "ok (pad_to n pool xs) (\<lambda>ys. length ys = n \<and> set ys \<subseteq> set pool)"
  unfolding pad_to_def
proof (rule ok_sbind)
  show "ok (smap (\<lambda>_. sbind (randrange (length pool)) (\<lambda>k. ret (pool ! k))) [0..<n - length xs])
          (list_all2 (\<lambda>_ y. y \<in> set pool) [0..<n - length xs])"
    using assms(1) by (intro ok_smap) (auto intro!: ok_sbind[OF randrange_ok] wp)
next
  fix ys
  assume ys: "list_all2 (\<lambda>_ y. y \<in> set pool) [0..<n - length xs] ys"
  then have "length ys = n - length xs" by (simp add: list_all2_conv_all_nth)
  moreover have "set ys \<subseteq> set pool"
    using ys by (auto simp: list_all2_conv_all_nth in_set_conv_nth)
  ultimately show "ok (ret (xs @ ys)) (\<lambda>ys. length ys = n \<and> set ys \<subseteq> set pool)"
    using assms by (auto intro!: wp)
qed

lemma stitch_sources_ok:
  assumes "attach \<noteq> []" "distinct attach" "seed \<Longrightarrow> entrance \<in> set attach"
  shows "ok (stitch_sources seed entrance attach n) (\<lambda>ss. length ss = n \<and> set ss \<subseteq> set attach)"
proof (cases seed)
  case True
  then show ?thesis using assms(3) by (auto simp: stitch_sources_def intro!: wp)
next
  case False
  have fix_ok: "length ss' = n \<and> set ss' \<subseteq> set attach"
    if ss: "length ss = n" "set ss \<subseteq> set attach"
      and ss': "ss' = (if 2 \<le> n \<and> card (set (take n ss)) < 2 \<and> 2 \<le> length attach
                  then ss[1 := hd (filter (\<lambda>a. a \<noteq> ss ! 0) attach)] else ss)" for ss ss'
  proof (cases "2 \<le> n \<and> card (set (take n ss)) < 2 \<and> 2 \<le> length attach")
    case True
    have "\<exists>a \<in> set attach. a \<noteq> ss ! 0"
    proof (rule ccontr)
      assume "\<not> (\<exists>a \<in> set attach. a \<noteq> ss ! 0)"
      then have "set attach \<subseteq> {ss ! 0}" by auto
      then have "card (set attach) \<le> 1" by (metis card.empty card_insert_disjoint card_mono
            empty_iff finite.emptyI finite.insertI One_nat_def)
      with assms(2) True show False by (simp add: distinct_card)
    qed
    then have "filter (\<lambda>a. a \<noteq> ss ! 0) attach \<noteq> []" by (simp add: filter_empty_conv)
    then have "hd (filter (\<lambda>a. a \<noteq> ss ! 0) attach) \<in> set attach" by (metis (no_types, lifting) filter_is_subset subsetD hd_in_set)
    then show ?thesis using ss ss' True set_update_subset_insert[of ss 1] by auto
  next
    case False
    with ss ss' show ?thesis by auto
  qed
  show ?thesis
    unfolding stitch_sources_def if_not_P[OF False]
  proof (rule ok_sbind[OF pick_distinct_ok])
    fix base assume "set base \<subseteq> set attach \<and> length base = min (min (length attach) n) (length attach)"
    then have "ok (pad_to n attach base) (\<lambda>ys. length ys = n \<and> set ys \<subseteq> set attach)"
      using assms(1) by (intro pad_to_ok) auto
    then show "ok (sbind (pad_to n attach base) (\<lambda>srcs.
             ret (if 2 \<le> n \<and> card (set (take n srcs)) < 2 \<and> 2 \<le> length attach
                  then srcs[1 := hd (filter (\<lambda>a. a \<noteq> srcs ! 0) attach)] else srcs)))
        (\<lambda>ss. length ss = n \<and> set ss \<subseteq> set attach)"
    proof (rule ok_sbind)
      fix srcs assume "length srcs = n \<and> set srcs \<subseteq> set attach"
      then show "ok (ret (if 2 \<le> n \<and> card (set (take n srcs)) < 2 \<and> 2 \<le> length attach
                  then srcs[1 := hd (filter (\<lambda>a. a \<noteq> srcs ! 0) attach)] else srcs))
        (\<lambda>ss. length ss = n \<and> set ss \<subseteq> set attach)"
        by (intro ok_ret fix_ok[OF _ _ refl]) blast+
    qed
  qed
qed

lemma build_stitches_ok:
  assumes "config_ok c" "attach \<noteq> []" "distinct attach" "seed \<Longrightarrow> entrance \<in> set attach"
    and "stitchable \<noteq> []"
  shows "ok (build_stitches seed entrance attach stitchable c)
     (\<lambda>es. nat (min_stitch_edges c) \<le> length es \<and>
           (\<forall>e \<in> set es. edge_a e \<in> set attach \<and> edge_b e \<in> set stitchable))"
  unfolding build_stitches_def Let_def
proof (rule ok_sbind[OF randint_ok])
  show "0 \<le> connection_burst c" by (rule config_okD[OF assms(1)])
next
  fix burst assume burst: "0 \<le> burst \<and> burst \<le> connection_burst c"
  let ?n = "nat (min_stitch_edges c + burst)"
  show "ok (sbind (sbind (pick_distinct stitchable (min (length stitchable) ?n)) (pad_to ?n stitchable))
       (\<lambda>targets. sbind (stitch_sources seed entrance attach ?n)
         (\<lambda>sources. smap (\<lambda>j. sbind (if j = 0 then ret ''corridor'' else choice (edge_kinds c))
             (\<lambda>k. ret (plain_edge (sources ! j) (targets ! j) k))) [0..<?n])))
     (\<lambda>es. nat (min_stitch_edges c) \<le> length es \<and>
           (\<forall>e \<in> set es. edge_a e \<in> set attach \<and> edge_b e \<in> set stitchable))"
  proof (rule ok_sbind)
    show "ok (sbind (pick_distinct stitchable (min (length stitchable) ?n)) (pad_to ?n stitchable))
        (\<lambda>ts. length ts = ?n \<and> set ts \<subseteq> set stitchable)"
      using assms(5) by (auto intro!: ok_sbind[OF pick_distinct_ok] pad_to_ok)
  next
    fix targets assume targets: "length targets = ?n \<and> set targets \<subseteq> set stitchable"
    show "ok (sbind (stitch_sources seed entrance attach ?n)
         (\<lambda>sources. smap (\<lambda>j. sbind (if j = 0 then ret ''corridor'' else choice (edge_kinds c))
             (\<lambda>k. ret (plain_edge (sources ! j) (targets ! j) k))) [0..<?n]))
       (\<lambda>es. nat (min_stitch_edges c) \<le> length es \<and>
           (\<forall>e \<in> set es. edge_a e \<in> set attach \<and> edge_b e \<in> set stitchable))"
    proof (rule ok_sbind[OF stitch_sources_ok[OF assms(2,3,4)]])
      fix sources assume sources: "length sources = ?n \<and> set sources \<subseteq> set attach"
      let ?R = "\<lambda>j e. edge_a e \<in> set attach \<and> edge_b e \<in> set stitchable"
      have "ok (smap (\<lambda>j. sbind (if j = 0 then ret ''corridor'' else choice (edge_kinds c))
             (\<lambda>k. ret (plain_edge (sources ! j) (targets ! j) k))) [0..<?n]) (list_all2 ?R [0..<?n])"
      proof (rule ok_smap)
        fix j assume "j \<in> set [0..<?n]"
        then have "sources ! j \<in> set attach" "targets ! j \<in> set stitchable"
          using sources targets by (auto dest: nth_mem)
        moreover have "ok (if j = 0 then ret ''corridor'' else choice (edge_kinds c)) (\<lambda>_. True)"
          using config_okD(1)[OF assms(1)] by (auto intro!: wp ok_weaken[OF choice_ok])
        ultimately show "ok (sbind (if j = 0 then ret ''corridor'' else choice (edge_kinds c))
             (\<lambda>k. ret (plain_edge (sources ! j) (targets ! j) k))) (?R j)"
          by (auto intro!: ok_sbind[where P = "\<lambda>_. True"] wp simp: plain_edge_def)
      qed
      then show "ok (smap (\<lambda>j. sbind (if j = 0 then ret ''corridor'' else choice (edge_kinds c))
             (\<lambda>k. ret (plain_edge (sources ! j) (targets ! j) k))) [0..<?n])
           (\<lambda>es. nat (min_stitch_edges c) \<le> length es \<and> (\<forall>e \<in> set es. edge_a e \<in> set attach \<and> edge_b e \<in> set stitchable))"
        using burst by (elim ok_weaken) (auto simp: list_all2_conv_all_nth in_set_conv_nth)
    qed
  qed
qed

lemma build_hidden_ok:
  assumes "sources \<noteq> []" "stitchable \<noteq> []"
  shows "ok (build_hidden sources stitchable c)
     (\<lambda>es. length es = nat (min_hidden_edges c) \<and>
           (\<forall>e \<in> set es. edge_a e \<in> set sources \<and> edge_b e \<in> set stitchable))"
proof -
  have "ok (build_hidden sources stitchable c)
      (list_all2 (\<lambda>_ e. edge_a e \<in> set sources \<and> edge_b e \<in> set stitchable) [0..<nat (min_hidden_edges c)])"
    unfolding build_hidden_def
    by (rule ok_smap) (auto intro!: ok_sbind[OF choice_ok[OF assms(1)]] ok_sbind[OF choice_ok[OF assms(2)]] wp)
  then show ?thesis by (rule ok_weaken) (auto simp: list_all2_conv_all_nth in_set_conv_nth)
qed

lemma nearest_region_ok:
  assumes ok: "graph_ok g" and ent: "entrance_id g \<in> node_ids g" and conn: "is_connected g = Inr True"
    and att: "set attach \<subseteq> node_ids g"
  shows "\<exists>r. nearest_region g attach = Inr r \<and> r \<in> insert (entrance_id g) (set attach)"
proof -
  obtain d where d: "bfs_dist g (entrance_id g) None {} = Inr d"
      "fst ` set d = cls (edges g) (entrance_id g)"
    using bfs_class[OF ok ent] by blast
  have sub: "node_ids g \<subseteq> fst ` set d"
    using conn is_connected_iff[OF ok ent] unfolding d(2) by (auto simp: cls_def)
  have "x \<in> fst ` set d" if "x \<in> set (entrance_id g # attach)" for x
    using that ent att sub by (auto simp del: image_iff)
  then have "list_all (dict_has d) (entrance_id g # attach)"
    unfolding list_all_iff dict_has_iff by blast
  then show ?thesis
    using d(1) min_key_in[of "\<lambda>r. dict_get d r 0" "entrance_id g" attach] by (simp add: nearest_region_def)
qed

lemma build_shortcuts_ok:
  assumes "edge_kinds c \<noteq> []"
  shows "ok (build_shortcuts nearest targets c)
     (\<lambda>es. \<forall>e \<in> set es. edge_a e = nearest \<and> edge_b e \<in> set targets)"
  unfolding build_shortcuts_def Let_def
  by (rule ok_sbind[OF choice_ok]) (use assms in \<open>auto intro!: wp split: if_splits\<close>)

lemma build_loops_ok:
  assumes "0 \<le> connection_burst c" "distinct ids"
  shows "ok (build_loops ids c)
     (\<lambda>es. \<forall>e \<in> set es. edge_a e \<noteq> edge_b e \<and> edge_a e \<in> set ids \<and> edge_b e \<in> set ids)"
  unfolding build_loops_def
proof (rule ok_sbind[OF randint_ok[OF assms(1)]])
  fix m
  let ?P = "\<lambda>es. \<forall>e \<in> set es. edge_a e \<noteq> edge_b e \<and> edge_a e \<in> set ids \<and> edge_b e \<in> set ids"
  let ?body = "\<lambda>_::nat. if 2 \<le> length ids
      then sbind (sample ids 2) (\<lambda>xy. ret [plain_edge (xy ! 0) (xy ! 1) ''corridor'']) else ret []"
  have "ok (?body i) ?P" for i
  proof (cases "2 \<le> length ids")
    case True
    have "?P [plain_edge (xy ! 0) (xy ! 1) ''corridor'']"
      if xy: "length xy = 2 \<and> mset xy \<subseteq># mset ids" for xy
    proof -
      have "distinct xy" "set xy \<subseteq> set ids"
        using xy assms(2) by (auto dest: mset_subset_distinct mset_subset_set)
      with xy show ?thesis
        by (auto simp: plain_edge_def nth_eq_iff_index_eq subset_eq)
    qed
    with True show ?thesis by (auto intro!: ok_sbind[OF sample_ok] wp)
  qed (simp add: wp)
  then have "ok (smap ?body [0..<nat m]) (list_all2 (\<lambda>_. ?P) [0..<nat m])" by (intro ok_smap)
  then show "ok (sbind (smap ?body [0..<nat m]) (\<lambda>ess. ret (concat ess))) ?P"
    by (rule ok_sbind) (fastforce intro!: wp simp: list_all2_conv_all_nth in_set_conv_nth)
qed

section \<open>The whole candidate\<close>

text \<open>
  \<open>cand_spec g x\<close>: the new regions are fresh and distinct, every edge is legal on the enlarged map,
  every new region is connected to an explored one by the new edges, and there are more new edges
  than new regions.
\<close>

definition cand_spec :: "region_graph \<Rightarrow> expansion \<Rightarrow> bool" where
  "cand_spec g x \<longleftrightarrow>
     distinct (map node_id (new_nodes x)) \<and> new_nodes x \<noteq> [] \<and>
     new_region_ids x \<inter> node_ids g = {} \<and>
     (\<forall>e \<in> set (new_edges x). edge_a e \<noteq> edge_b e \<and>
        {edge_a e, edge_b e} \<subseteq> node_ids g \<union> new_region_ids x) \<and>
     (\<forall>v \<in> new_region_ids x. \<exists>u \<in> node_ids g. conn (new_edges x) u v) \<and>
     length (new_nodes x) < length (new_edges x)"

text \<open>The inputs the generator is called on: a connected map and attach points on it.\<close>

definition gen_inputs_ok :: "region_graph \<Rightarrow> int \<Rightarrow> string list \<Rightarrow> string list \<Rightarrow> jaquays_config \<Rightarrow> bool" where
  "gen_inputs_ok g eid attach_ids theme_pool c \<longleftrightarrow>
     config_ok c \<and> theme_pool \<noteq> [] \<and> graph_ok g \<and> entrance_id g \<in> node_ids g \<and>
     is_connected g = Inr True \<and> set attach_ids \<subseteq> node_ids g \<and>
     (is_seed g \<or> 2 \<le> card (set attach_ids)) \<and>
     (\<forall>i < nat (snd (new_regions_per_expansion c)). region_name eid i \<notin> node_ids g)"

lemma attach_points_ok:
  assumes "set ids \<subseteq> node_ids g" "is_seed g \<or> 2 \<le> card (set ids)" "entrance_id g \<in> node_ids g"
  shows "\<exists>a. attach_points g ids = Inr a \<and> a \<noteq> [] \<and> distinct a \<and> set a \<subseteq> node_ids g \<and>
           (is_seed g \<longrightarrow> entrance_id g \<in> set a)"
proof -
  have "list_all (dict_has (nodes g)) ids"
    using assms(1) unfolding list_all_iff dict_has_iff by blast
  moreover have "sort (remdups ids) \<noteq> []" if "\<not> is_seed g"
    using assms(2) that by (metis card.empty list.set(1) not_numeral_le_zero set_remdups set_sort)
  ultimately show ?thesis using assms by (auto simp: attach_points_def)
qed

lemma stitchable_props:
  assumes "set targets \<subseteq> set ids" "ids \<noteq> []"
    and "stitchable = (let rest = filter (\<lambda>i. i \<notin> set targets) ids in if rest = [] then ids else rest)"
  shows "stitchable \<noteq> []" "set stitchable \<subseteq> set ids"
  using assms by (auto simp: Let_def)

lemma ensure_two_kinds_cases:
  "ensure_two_kinds a b c es = es \<or> (\<exists>k. ensure_two_kinds a b c es = es @ [plain_edge a b k])"
  by (auto simp: ensure_two_kinds_def split: list.splits)

lemma assemble_cand_spec:
  fixes nds :: "region_node list"
  defines "ids \<equiv> map node_id nds"
  assumes ids: "distinct ids" "ids \<noteq> []" "set ids \<inter> node_ids g = {}"
    and tree: "tree_ok ids tree"
    and attach: "attach \<noteq> []" "set attach \<subseteq> node_ids g"
    and stitch: "2 \<le> length stitch + length short + length hid" "stitch \<noteq> []"
      "\<forall>e \<in> set stitch. edge_a e \<in> set attach \<and> edge_b e \<in> set ids"
    and hid: "\<forall>e \<in> set hid. edge_a e \<in> set attach \<and> edge_b e \<in> set ids"
    and short: "\<forall>e \<in> set short. edge_a e \<in> node_ids g \<and> edge_b e \<in> set ids"
    and loops: "\<forall>e \<in> set loops. edge_a e \<noteq> edge_b e \<and> edge_a e \<in> set ids \<and> edge_b e \<in> set ids"
    and es: "es = ensure_two_kinds (hd attach) (hd ids) c (tree @ stitch @ hid @ short @ loops)"
  shows "cand_spec g \<lparr>expansion_id = eid, new_nodes = nds, new_edges = es\<rparr>"
proof -
  let ?base = "tree @ stitch @ hid @ short @ loops"
  have ids_new: "new_region_ids \<lparr>expansion_id = eid, new_nodes = nds, new_edges = es\<rparr> = set ids"
    by (simp add: new_region_ids_def ids_def)
  have apart: "u \<noteq> v" if "u \<in> node_ids g" "v \<in> set ids" for u v using that ids(3) by blast
  have legal: "edge_a e \<noteq> edge_b e \<and> {edge_a e, edge_b e} \<subseteq> node_ids g \<union> set ids" if "e \<in> set ?base" for e
    using that tree stitch(3) hid short loops attach(2) apart by (auto simp: tree_ok_def subset_eq)
  have sub: "set ?base \<subseteq> set es" and longer: "length ?base \<le> length es"
    using ensure_two_kinds_cases[of "hd attach" "hd ids" c ?base] by (auto simp: es)
  have legal_es: "edge_a e \<noteq> edge_b e \<and> {edge_a e, edge_b e} \<subseteq> node_ids g \<union> set ids" if "e \<in> set es" for e
  proof -
    have h: "hd attach \<in> node_ids g" "hd ids \<in> set ids" using attach ids(2) by (auto simp: subset_eq)
    consider "es = ?base" | k where "es = ?base @ [plain_edge (hd attach) (hd ids) k]"
      using ensure_two_kinds_cases[of "hd attach" "hd ids" c ?base] unfolding es by blast
    then consider "e \<in> set ?base" | k where "e = plain_edge (hd attach) (hd ids) k"
      using \<open>e \<in> set es\<close> by cases auto
    then show ?thesis
    proof cases
      case 1
      then show ?thesis by (rule legal)
    next
      case 2
      with h apart[OF h] show ?thesis by (simp add: plain_edge_def)
    qed
  qed
  obtain s where s: "s \<in> set stitch" using stitch(2) by (cases stitch) auto
  then have sa: "edge_a s \<in> node_ids g" "edge_b s \<in> set ids" using stitch(3) attach(2) by auto
  have reach: "\<exists>u \<in> node_ids g. conn es u v" if v: "v \<in> set ids" for v
  proof -
    have "conn tree (hd ids) v" "conn tree (hd ids) (edge_b s)"
      using tree v sa(2) by (auto simp: tree_ok_def)
    then have "conn tree (edge_b s) v" by (meson conn_sym rtranclp_trans)
    then have "conn es (edge_b s) v" by (rule conn_mono) (use sub in auto)
    moreover have "conn es (edge_a s) (edge_b s)" using s sub by (intro conn_edge) auto
    ultimately show ?thesis using sa(1) by (meson rtranclp_trans)
  qed
  have "length nds < length es"
    using longer tree stitch(1) ids(2) by (auto simp: tree_ok_def ids_def)
  then show ?thesis
    unfolding cand_spec_def ids_new
    using ids legal_es reach by (simp add: ids_def)
qed

text \<open>
  The tape-independent half of the builder (its draws after the regions and the internal tree are
  fixed), then the builder itself.
\<close>

lemma build_edges_ok:
  fixes nds :: "region_node list"
  defines "ids \<equiv> map node_id nds"
  assumes c: "config_ok c" and ids: "distinct ids" "ids \<noteq> []" "set ids \<inter> node_ids g = {}"
    and tree: "tree_ok ids tree" and ranked: "set ranked = set ids" "ranked \<noteq> []"
    and attach: "attach \<noteq> []" "distinct attach" "set attach \<subseteq> node_ids g"
      "is_seed g \<longrightarrow> entrance_id g \<in> set attach"
    and near: "nearest_region g attach = Inr near" "near \<in> node_ids g"
    and targets: "targets = take (nat (min_shortcut_edges c)) ranked"
    and stitchable: "stitchable =
      (let rest = filter (\<lambda>i. i \<notin> set targets) ids in if rest = [] then ids else rest)"
  shows "ok (sbind (build_stitches (is_seed g) (entrance_id g) attach stitchable c) (\<lambda>stitch.
     sbind (build_hidden attach stitchable c) (\<lambda>hid.
     sbind (lift_res (nearest_region g attach)) (\<lambda>nearest.
     sbind (build_shortcuts nearest targets c) (\<lambda>short.
     sbind (build_loops ids c) (\<lambda>loops.
       ret \<lparr>expansion_id = eid, new_nodes = nds,
            new_edges = ensure_two_kinds (hd attach) (hd ids) c (tree @ stitch @ hid @ short @ loops)\<rparr>))))))
     (cand_spec g)"
proof -
  note cD = config_okD[OF c]
  have tsub: "set targets \<subseteq> set ids" using ranked(1) set_take_subset[of _ ranked] by (auto simp: targets)
  note st = stitchable_props[OF tsub ids(2) stitchable]
  show ?thesis
  proof (rule ok_sbind[OF build_stitches_ok[OF c attach(1,2) _ st(1)]])
    show "is_seed g \<Longrightarrow> entrance_id g \<in> set attach" using attach(4) by simp
  next
    fix stitch :: "region_edge list" assume s: "nat (min_stitch_edges c) \<le> length stitch \<and>
      (\<forall>e \<in> set stitch. edge_a e \<in> set attach \<and> edge_b e \<in> set stitchable)"
    show "ok (sbind (build_hidden attach stitchable c) (\<lambda>hid.
     sbind (lift_res (nearest_region g attach)) (\<lambda>nearest.
     sbind (build_shortcuts nearest targets c) (\<lambda>short.
     sbind (build_loops ids c) (\<lambda>loops.
       ret \<lparr>expansion_id = eid, new_nodes = nds,
            new_edges = ensure_two_kinds (hd attach) (hd ids) c (tree @ stitch @ hid @ short @ loops)\<rparr>)))))
     (cand_spec g)"
    proof (intro ok_sbind[OF build_hidden_ok[OF attach(1) st(1)]]
        ok_sbind[OF ok_lift_res[OF near(1), where Q = "\<lambda>x. x = near"]]
        ok_sbind[OF build_shortcuts_ok] ok_sbind[OF build_loops_ok] ok_ret)
      fix hid short loops :: "region_edge list" and nearest
      assume h: "length hid = nat (min_hidden_edges c) \<and>
          (\<forall>e \<in> set hid. edge_a e \<in> set attach \<and> edge_b e \<in> set stitchable)"
        and "nearest = near"
        and sh: "\<forall>e \<in> set short. edge_a e = nearest \<and> edge_b e \<in> set targets"
        and lp: "\<forall>e \<in> set loops. edge_a e \<noteq> edge_b e \<and> edge_a e \<in> set ids \<and> edge_b e \<in> set ids"
      show "cand_spec g \<lparr>expansion_id = eid, new_nodes = nds,
            new_edges = ensure_two_kinds (hd attach) (hd ids) c (tree @ stitch @ hid @ short @ loops)\<rparr>"
        unfolding ids_def
      proof (rule assemble_cand_spec[OF _ _ _ _ attach(1,3) _ _ _ _ _ _ refl], fold ids_def)
        show "2 \<le> length stitch + length short + length hid" using s h cD(3,4) by linarith
        show "stitch \<noteq> []" using s cD(3) by auto
        show "\<forall>e \<in> set stitch. edge_a e \<in> set attach \<and> edge_b e \<in> set ids" using s st(2) by blast
        show "\<forall>e \<in> set hid. edge_a e \<in> set attach \<and> edge_b e \<in> set ids" using h st(2) by blast
        show "\<forall>e \<in> set short. edge_a e \<in> node_ids g \<and> edge_b e \<in> set ids"
          using sh tsub near(2) \<open>nearest = near\<close> by blast
      qed (use ids tree lp in auto)
    qed (use cD ids(1) in auto)
  qed
qed

lemma build_candidate_ok:
  assumes inputs: "gen_inputs_ok g eid attach_ids theme_pool c"
  shows "ok (build_candidate g eid attach_ids theme_pool c) (cand_spec g)"
proof -
  have c: "config_ok c" and tp: "theme_pool \<noteq> []" and g: "graph_ok g" "entrance_id g \<in> node_ids g"
      "is_connected g = Inr True" and at: "set attach_ids \<subseteq> node_ids g" "is_seed g \<or> 2 \<le> card (set attach_ids)"
    and free: "\<And>i. i < nat (snd (new_regions_per_expansion c)) \<Longrightarrow> region_name eid i \<notin> node_ids g"
    using inputs by (auto simp: gen_inputs_ok_def simp del: image_iff)
  note cD = config_okD[OF c]
  have valid: "jaquays_validate c = Inr ()" using c by (simp add: config_ok_def)
  obtain attach where attach: "attach_points g attach_ids = Inr attach" "attach \<noteq> []" "distinct attach"
      "set attach \<subseteq> node_ids g" "is_seed g \<longrightarrow> entrance_id g \<in> set attach"
    using attach_points_ok[OF at g(2)] by blast
  obtain near where near: "nearest_region g attach = Inr near" "near \<in> node_ids g"
    using nearest_region_ok[OF g attach(4)] g(2) attach(4) by blast
  have rest: "distinct (map node_id nds)" "map node_id nds \<noteq> []" "set (map node_id nds) \<inter> node_ids g = {}"
    if "fst (new_regions_per_expansion c) \<le> n \<and> n \<le> snd (new_regions_per_expansion c)"
      and nds: "map node_id nds = map (region_name eid) [0..<nat n]" for n and nds :: "region_node list"
  proof -
    show "set (map node_id nds) \<inter> node_ids g = {}" unfolding nds
    proof (rule equals0I)
      fix x assume "x \<in> set (map (region_name eid) [0..<nat n]) \<inter> node_ids g"
      then have x: "x \<in> node_ids g" "x \<in> region_name eid ` {0..<nat n}" by simp_all
      from x(2) obtain i where "x = region_name eid i" "i < nat n" by (auto elim!: imageE)
      with x(1) have i: "region_name eid i \<in> node_ids g" "i < nat n" by simp_all
      then have "i < nat (snd (new_regions_per_expansion c))" using that(1) by linarith
      with i(1) free show False by blast
    qed
  qed (use that cD(3,5,9) in \<open>auto simp: distinct_region_names\<close>)
  show ?thesis
    unfolding build_candidate_def if_not_P[OF tp] Let_def
    apply (intro ok_sbind[OF ok_lift_res[OF valid, where Q = "\<lambda>_. True"]] ok_sbind[OF ok_lift_res[OF attach(1), where Q = "\<lambda>x. x = attach"]]
      ok_sbind[OF randint_ok[OF cD(8)]] ok_sbind[OF build_nodes_ok[OF tp]])
    subgoal by simp
    subgoal by simp
    subgoal premises prems for _ att n nds
    proof (rule ok_sbind[OF build_tree_ok[OF rest(1,2)[OF prems(3,4)]]], goal_cases)
      case (1 tree)
      note ids = rest[OF prems(3,4)]
      obtain r where r: "rank_by_depth (map node_id nds) tree = Inr r" "set r = set (map node_id nds)"
        using rank_by_depth_ok[OF 1 ids(2)] by blast
      have "r \<noteq> []" using r(2) ids(2) by auto
      note edges_ok = build_edges_ok[OF c ids 1 r(2) this attach(2-5) near refl refl, unfolded Let_def]
      show ?case
        unfolding prems(2)
        by (rule ok_sbind[OF ok_lift_res[OF r(1), where Q = "\<lambda>x. x = r"]]) (simp_all only: edges_ok)
    qed
    done
qed

end
