(* ===== verification/Region_Attach.thy ===== *)
theory Region_Attach
  imports Region_Candidate
begin

text \<open>
  The properties of expansion as a whole: what attaching a candidate does to the map, what the
  invariant checker's verdict means on the enlarged map, and that the re-roll loop returns either a
  candidate that passed every invariant or the generation error.
\<close>

section \<open>The enlarged map\<close>

text \<open>The map an attached expansion leads to: its regions and edges after the old ones.\<close>

definition enlarged :: "region_graph \<Rightarrow> expansion \<Rightarrow> region_graph" where
  "enlarged g x =
     g\<lparr>nodes := nodes g @ map (\<lambda>n. (node_id n, n)) (new_nodes x), edges := edges g @ new_edges x\<rparr>"

lemma enlarged_simps [simp]:
  "entrance_id (enlarged g x) = entrance_id g"
  "edges (enlarged g x) = edges g @ new_edges x"
  "length (nodes (enlarged g x)) = length (nodes g) + length (new_nodes x)"
  "node_ids (enlarged g x) = node_ids g \<union> new_region_ids x"
  by (simp_all add: enlarged_def new_region_ids_def image_Un image_image)

definition fits :: "region_graph \<Rightarrow> expansion \<Rightarrow> bool" where
  "fits g x \<longleftrightarrow> distinct (map node_id (new_nodes x)) \<and> new_region_ids x \<inter> node_ids g = {} \<and>
     (\<forall>e \<in> set (new_edges x). edge_a e \<noteq> edge_b e \<and>
        {edge_a e, edge_b e} \<subseteq> node_ids g \<union> new_region_ids x)"

lemma cand_spec_fits: "cand_spec g x \<Longrightarrow> fits g x"
  unfolding cand_spec_def fits_def by blast

lemma graph_ok_enlarged:
  assumes "graph_ok g" "fits g x"
  shows "graph_ok (enlarged g x)"
proof -
  have keys: "map fst (nodes (enlarged g x)) = map fst (nodes g) @ map node_id (new_nodes x)"
    by (simp add: enlarged_def comp_def)
  have "distinct (map fst (nodes (enlarged g x)))"
    unfolding keys using assms by (auto simp: graph_ok_def fits_def new_region_ids_def)
  moreover have "\<forall>p \<in> set (nodes (enlarged g x)). node_id (snd p) = fst p"
    using assms(1) by (auto simp: enlarged_def graph_ok_def)
  moreover have "edge_ok (enlarged g x) e" if "e \<in> set (edges (enlarged g x))" for e
    using that assms unfolding edge_ok_def enlarged_simps by (auto simp: graph_ok_def fits_def edge_ok_def)
  ultimately show ?thesis by (simp add: graph_ok_def)
qed

lemma post_attach_graph_enlarged:
  assumes "graph_ok g" "fits g x"
  shows "post_attach_graph g x = Inr (enlarged g x)"
proof -
  have fold: "rfold (\<lambda>p. add_node (snd p)) ps h = rfold add_node (map snd ps) h" for ps h
    by (induction ps arbitrary: h) (simp_all add: rbind_def split: sum.splits)
  have ids: "map node_id (map snd (nodes g)) = map fst (nodes g)"
    using assms(1) by (auto simp: graph_ok_def)
  have "rfold add_node (map snd (nodes g)) (empty_graph (entrance_id g)) =
      Inr ((empty_graph (entrance_id g))\<lparr>nodes := nodes g\<rparr>)"
    using rfold_add_nodes[of "map snd (nodes g)" "empty_graph (entrance_id g)"] assms(1)
    unfolding ids graph_ok_nodes_rebuild[OF assms(1)] by (simp add: empty_graph_def graph_ok_def)
  moreover have "rfold add_node (new_nodes x) ((empty_graph (entrance_id g))\<lparr>nodes := nodes g\<rparr>) =
      Inr ((empty_graph (entrance_id g))\<lparr>nodes := nodes g @ map (\<lambda>n. (node_id n, n)) (new_nodes x)\<rparr>)"
    using rfold_add_nodes[of "new_nodes x"] assms(2)
    by (auto simp: fits_def new_region_ids_def)
  moreover have "\<forall>e \<in> set (new_edges x). edge_ok (enlarged g x) e"
    using graph_ok_enlarged[OF assms] by (simp add: graph_ok_def)
  ultimately show ?thesis
    using rfold_add_edges[of "new_edges x"
        "\<lparr>entrance_id = entrance_id g, nodes = nodes g @ map (\<lambda>n. (node_id n, n)) (new_nodes x), edges = edges g\<rparr>"]
    by (auto simp: post_attach_graph_def fold empty_graph_def edge_ok_def enlarged_def)
qed

section \<open>Attaching\<close>

lemma sforeach_upd: "rfold f xs s = Inr s' \<Longrightarrow> sforeach (\<lambda>x. upd (f x)) xs s = (Inr (), s')"
  by (induction xs arbitrary: s) (auto simp: sm_defs upd_def rbind_Inr_iff)

lemma attach_expansion_eq:
  assumes "graph_ok g" "fits g x" "is_connected (enlarged g x) = Inr c"
  shows "attach_expansion x g =
     (if \<not> c then Inl (ValueError ''attach left the map disconnected'')
      else if int (surplus_from [] (edges g @ new_edges x)) <
           max (if \<not> length (nodes g) \<le> 1 \<or> new_nodes x \<noteq> [] then 1 else 0) (int (surplus_from [] (edges g)))
      then Inl (ValueError ''attach made the map less loopful'') else Inr (), enlarged g x)"
proof -
  let ?g1 = "g\<lparr>nodes := nodes g @ map (\<lambda>n. (node_id n, n)) (new_nodes x)\<rparr>"
  have "rfold add_node (new_nodes x) g = Inr ?g1"
    using assms(2) by (intro rfold_add_nodes) (auto simp: fits_def new_region_ids_def)
  then have 1: "sforeach (\<lambda>n. upd (add_node n)) (new_nodes x) g = (Inr (), ?g1)"
    by (rule sforeach_upd)
  have "\<forall>e \<in> set (new_edges x). edge_ok ?g1 e"
    using graph_ok_enlarged[OF assms(1,2)] by (auto simp: graph_ok_def edge_ok_def enlarged_def)
  from rfold_add_edges[OF this] have "rfold add_edge (new_edges x) ?g1 = Inr (enlarged g x)"
    by (simp add: enlarged_def)
  then have 2: "sforeach (\<lambda>e. upd (add_edge e)) (new_edges x) ?g1 = (Inr (), enlarged g x)"
    by (rule sforeach_upd)
  have 3: "cyclomatic_number (enlarged g x) = Inr (int (surplus_from [] (edges g @ new_edges x)))"
    using cyclomatic_surplus[OF graph_ok_enlarged[OF assms(1,2)]] by simp
  show ?thesis
    unfolding attach_expansion_def Let_def
    using cyclomatic_surplus[OF assms(1)] 1 2 3 assms(3) by (auto simp: sm_defs)
qed

lemma keeps_upd: "(\<And>s s'. P s \<Longrightarrow> f s = Inr s' \<Longrightarrow> P s') \<Longrightarrow> keeps P (upd f)"
  by (auto simp: keeps_def upd_def split: sum.splits)

lemma keeps_attach_expansion: "keeps graph_ok (attach_expansion x)"
  unfolding attach_expansion_def Let_def
  by (intro wp keeps_upd) (auto intro: graph_ok_add_node graph_ok_add_edge)

lemma rfold_add_nodes_inv:
  "rfold add_node ns g = Inr g' \<Longrightarrow>
     distinct (map node_id ns) \<and> node_id ` set ns \<inter> node_ids g = {} \<and>
     g' = g\<lparr>nodes := nodes g @ map (\<lambda>n. (node_id n, n)) ns\<rparr>"
proof (induction ns arbitrary: g)
  case Nil
  then show ?case by simp
next
  case (Cons n ns)
  then obtain g1 where "add_node n g = Inr g1" and r: "rfold add_node ns g1 = Inr g'"
    by (auto simp: rbind_Inr_iff)
  then have g1: "node_id n \<notin> node_ids g" "g1 = g\<lparr>nodes := nodes g @ [(node_id n, n)]\<rparr>"
    unfolding add_node_Inr by blast+
  show ?case using Cons.IH[OF r] g1 by auto
qed

lemma rfold_add_edges_inv:
  "rfold add_edge es g = Inr g' \<Longrightarrow> (\<forall>e \<in> set es. edge_ok g e) \<and> g' = g\<lparr>edges := edges g @ es\<rparr>"
proof (induction es arbitrary: g)
  case Nil
  then show ?case by simp
next
  case (Cons e es)
  then obtain g1 where "add_edge e g = Inr g1" and r: "rfold add_edge es g1 = Inr g'"
    by (auto simp: rbind_Inr_iff)
  then have g1: "edge_ok g e" "g1 = g\<lparr>edges := edges g @ [e]\<rparr>"
    unfolding add_edge_Inr by blast+
  show ?case using Cons.IH[OF r] g1 by (auto simp: edge_ok_def)
qed

lemma sforeach_upd_inv: "sforeach (\<lambda>x. upd (f x)) xs s = (Inr u, s') \<Longrightarrow> rfold f xs s = Inr s'"
  by (induction xs arbitrary: s) (auto simp: sm_defs upd_def split: sum.splits prod.splits)

lemma attach_returns_fits:
  assumes "attach_expansion x g = (Inr u, g')"
  shows "fits g x \<and> g' = enlarged g x"
proof -
  from assms obtain g1 where
      1: "sforeach (\<lambda>n. upd (add_node n)) (new_nodes x) g = (Inr (), g1)" and
      2: "sforeach (\<lambda>e. upd (add_edge e)) (new_edges x) g1 = (Inr (), g')"
    unfolding attach_expansion_def Let_def
    by (auto simp: sm_defs split: sum.splits prod.splits if_splits)
  from rfold_add_nodes_inv[OF sforeach_upd_inv[OF 1]] rfold_add_edges_inv[OF sforeach_upd_inv[OF 2]]
  show ?thesis by (auto simp: fits_def new_region_ids_def enlarged_def edge_ok_def)
qed

lemma attach_connected: "attach_expansion x g = (Inr u, g') \<Longrightarrow> is_connected g' = Inr True"
  unfolding attach_expansion_def Let_def
  by (auto simp: sm_defs split: sum.splits prod.splits if_splits)

lemma ncls_connected:
  assumes "graph_ok g" "entrance_id g \<in> node_ids g" "is_connected g = Inr True"
  shows "ncls (node_ids g) (edges g) = 1"
proof -
  have all: "\<forall>v \<in> node_ids g. conn (edges g) (entrance_id g) v"
    using assms is_connected_iff[OF assms(1,2)] by simp
  have "cls (edges g) ` node_ids g = {cls (edges g) (entrance_id g)}"
  proof (intro equalityI subsetI)
    fix S assume "S \<in> cls (edges g) ` node_ids g"
    then obtain v where "v \<in> node_ids g" "S = cls (edges g) v" by blast
    with all show "S \<in> {cls (edges g) (entrance_id g)}" by (metis cls_eq_iff singletonI)
  next
    fix S assume "S \<in> {cls (edges g) (entrance_id g)}"
    with assms(2) show "S \<in> cls (edges g) ` node_ids g" by blast
  qed
  then show ?thesis by (simp add: ncls_def)
qed

lemma surplus_connected:
  assumes "graph_ok g" "entrance_id g \<in> node_ids g" "is_connected g = Inr True"
  shows "length (edges g) + 1 = length (nodes g) + surplus_from [] (edges g)"
  using surplus_count[OF _ graph_ok_endpoints[OF assms(1)]] ncls_connected[OF assms] card_node_ids[OF assms(1)]
  by simp

lemma enlarged_connected:
  assumes "graph_ok g" "entrance_id g \<in> node_ids g" "is_connected g = Inr True" "cand_spec g x"
  shows "is_connected (enlarged g x) = Inr True"
proof -
  have old: "conn (edges g @ new_edges x) (entrance_id g) v" if "v \<in> node_ids g" for v
    using assms(3) is_connected_iff[OF assms(1,2)] that
    by (intro conn_mono[of "edges g" _ _ "edges g @ new_edges x"]) auto
  have new: "conn (edges g @ new_edges x) (entrance_id g) v" if v: "v \<in> new_region_ids x" for v
  proof -
    obtain u where u: "u \<in> node_ids g" "conn (new_edges x) u v"
      using assms(4) v unfolding cand_spec_def by blast
    have "conn (edges g @ new_edges x) u v" by (rule conn_mono[OF u(2)]) auto
    with old[OF u(1)] show ?thesis by (rule rtranclp_trans)
  qed
  have "graph_ok (enlarged g x)" "entrance_id (enlarged g x) \<in> node_ids (enlarged g x)"
    using graph_ok_enlarged[OF assms(1) cand_spec_fits[OF assms(4)]] assms(2)
    unfolding enlarged_simps by blast+
  moreover have "\<forall>v \<in> node_ids g \<union> new_region_ids x. conn (edges g @ new_edges x) (entrance_id g) v"
    using old new by blast
  then have "(\<forall>v \<in> node_ids g \<union> new_region_ids x. conn (edges g @ new_edges x) (entrance_id g) v) = True"
    by (rule eqTrueI)
  ultimately show ?thesis by (simp only: is_connected_iff enlarged_simps)
qed

lemma attach_candidate:
  assumes "graph_ok g" "entrance_id g \<in> node_ids g" "is_connected g = Inr True" "cand_spec g x"
    and "cyclomatic_number g = Inr cyc"
  shows "attach_expansion x g = (Inr (), enlarged g x)"
    and "cyclomatic_number (enlarged g x) = Inr (cyc + int (length (new_edges x)) - int (length (new_nodes x)))"
proof -
  note fit = cand_spec_fits[OF assms(4)]
  note ok = graph_ok_enlarged[OF assms(1) fit]
  note con = enlarged_connected[OF assms(1-4)]
  have ent: "entrance_id (enlarged g x) \<in> node_ids (enlarged g x)"
    unfolding enlarged_simps using assms(2) by blast
  have cyc: "cyc = int (surplus_from [] (edges g))" using cyclomatic_surplus[OF assms(1)] assms(5) by simp
  have grow: "int (surplus_from [] (edges g @ new_edges x)) =
      cyc + int (length (new_edges x)) - int (length (new_nodes x))"
    using surplus_connected[OF assms(1-3)] surplus_connected[OF ok ent con] cyc by simp
  moreover have "length (new_nodes x) < length (new_edges x)"
    using assms(4) unfolding cand_spec_def by blast
  ultimately show "attach_expansion x g = (Inr (), enlarged g x)"
    using attach_expansion_eq[OF assms(1) fit con] cyc by auto
  show "cyclomatic_number (enlarged g x) = Inr (cyc + int (length (new_edges x)) - int (length (new_nodes x)))"
    using cyclomatic_surplus[OF ok] grow by simp
qed

section \<open>What the checker's verdict means\<close>

text \<open>
  Edge \<open>i\<close> collapses distance: some region is \<open>k\<close> hops from the entrance, and every walk to it that
  does without the edge is at least \<open>gain\<close> hops longer.
\<close>

definition collapses :: "region_graph \<Rightarrow> int \<Rightarrow> nat \<Rightarrow> bool" where
  "collapses g gain i \<longleftrightarrow>
     (\<exists>r k. is_dist (link g None {}) (entrance_id g) r k \<and>
        (\<forall>j. hops (link g None {i}) (entrance_id g) j r \<longrightarrow> int k + gain \<le> int j))"

lemma link_skip_mono: "link g b {i} u v \<Longrightarrow> link g b {} u v"
  using live_edges_subset[of "{i}" "edges g"] by (auto simp: link_def)

lemma distance_gain_collapses:
  assumes ok: "graph_ok g" and ent: "entrance_id g \<in> node_ids g" and gain: "1 \<le> min_gain"
    and base: "bfs_dist g (entrance_id g) None {} = Inr base"
    and alt: "bfs_dist g (entrance_id g) None {i} = Inr alt"
    and d: "distance_gain g base alt = Inr d" and le: "min_gain \<le> d"
  shows "collapses g min_gain i"
proof -
  let ?big = "length (nodes g) + 1"
  obtain r where r: "d = int (dict_get alt r ?big) - int (dict_get base r ?big)"
    using d by (auto simp: distance_gain_def Let_def split: list.splits)
  have B: "map_of base v = Some k \<longleftrightarrow> is_dist (link g None {}) (entrance_id g) v k" for v k
    using bfs_dist_exact[OF ok ent, of None "{}"] base by auto
  have A: "map_of alt v = Some k \<longleftrightarrow> is_dist (link g None {i}) (entrance_id g) v k" for v k
    using bfs_dist_exact[OF ok ent, of None "{i}"] alt by auto
  show ?thesis
  proof (cases "map_of base r")
    case None
    have "map_of alt r = None"
    proof (rule ccontr)
      assume "map_of alt r \<noteq> None"
      then obtain k where "hops (link g None {i}) (entrance_id g) k r" using A by (auto simp: is_dist_def)
      then have "hops (link g None {}) (entrance_id g) k r" by (rule hops_mono) (rule link_skip_mono)
      then obtain k' where "is_dist (link g None {}) (entrance_id g) r k'"
        using is_dist_exists hops_rtranclp by metis
      then have "map_of base r = Some k'" by (simp only: B)
      with None show False by simp
    qed
    with None r le gain show ?thesis by (simp add: dict_get_def)
  next
    case (Some k)
    have "int k + min_gain \<le> int j" if j: "hops (link g None {i}) (entrance_id g) j r" for j
    proof -
      obtain m where m: "is_dist (link g None {i}) (entrance_id g) r m"
        using j is_dist_exists hops_rtranclp by metis
      then have "m \<le> j" using j by (simp add: is_dist_def)
      moreover have "map_of alt r = Some m" using A m by simp
      ultimately show ?thesis using r le Some by (simp add: dict_get_def)
    qed
    moreover have "is_dist (link g None {}) (entrance_id g) r k" using B Some by simp
    ultimately show ?thesis unfolding collapses_def by blast
  qed
qed

lemma distance_gain_total: "nodes g \<noteq> [] \<Longrightarrow> \<exists>d. distance_gain g base alt = Inr d"
  by (cases "nodes g") (auto simp: distance_gain_def Let_def)

lemma shortcut_hits_bound:
  assumes ok: "graph_ok g" and ent: "entrance_id g \<in> node_ids g" and gain: "1 \<le> min_gain"
    and base: "bfs_dist g (entrance_id g) None {} = Inr base"
  shows "\<exists>n. shortcut_hits g base min_gain ies = Inr n \<and>
     n \<le> length (filter (\<lambda>p. shortcut (snd p) \<and> collapses g min_gain (fst p)) ies)"
proof (induction ies)
  case Nil
  show ?case by simp
next
  case (Cons p ies)
  obtain i e where p: "p = (i, e)" by fastforce
  from Cons.IH obtain n where n: "shortcut_hits g base min_gain ies = Inr n"
    "n \<le> length (filter (\<lambda>p. shortcut (snd p) \<and> collapses g min_gain (fst p)) ies)" by blast
  obtain alt where alt: "bfs_dist g (entrance_id g) None {i} = Inr alt"
    using bfs_dist_exact[OF ok ent] by blast
  have "nodes g \<noteq> []" using ent by auto
  then obtain d where d: "distance_gain g base alt = Inr d" using distance_gain_total by blast
  show ?case
    using p n alt d distance_gain_collapses[OF ok ent gain base alt d] by auto
qed

lemma length_filter_enumerate:
  "length (filter (\<lambda>p. P (snd p) \<and> Q (fst p)) (enumerate 0 xs)) = card {i. i < length xs \<and> P (xs ! i) \<and> Q i}"
proof -
  have pairs: "enumerate 0 xs = map (\<lambda>i. (i, xs ! i)) [0..<length xs]"
    by (rule nth_equalityI) (simp_all add: nth_enumerate_eq)
  have "filter (\<lambda>p. P (snd p) \<and> Q (fst p)) (enumerate 0 xs) =
      map (\<lambda>i. (i, xs ! i)) (filter (\<lambda>i. P (xs ! i) \<and> Q i) [0..<length xs])"
    unfolding pairs by (simp add: filter_map comp_def)
  moreover have "card (set (filter (\<lambda>i. P (xs ! i) \<and> Q i) [0..<length xs])) =
      length (filter (\<lambda>i. P (xs ! i) \<and> Q i) [0..<length xs])"
    by (rule distinct_card) simp
  moreover have "set (filter (\<lambda>i. P (xs ! i) \<and> Q i) [0..<length xs]) = {i. i < length xs \<and> P (xs ! i) \<and> Q i}"
    by auto
  ultimately show ?thesis by simp
qed

lemma chokepoint_free_iff:
  assumes ok: "graph_ok g" and ent: "entrance_id g \<in> node_ids g"
  shows "chokepoint_free g new_ids vs = Inr (\<forall>v \<in> set vs. v \<noteq> entrance_id g \<longrightarrow>
     (\<exists>w \<in> new_ids - {v}. (link g (Some v) {})\<^sup>*\<^sup>* (entrance_id g) w))"
proof (induction vs)
  case Nil
  show ?case by simp
next
  case (Cons v vs)
  obtain d where d: "bfs_dist g (entrance_id g) (Some v) {} = Inr d" using bfs_dist_exact[OF ok ent] by blast
  from bfs_dist_keys[OF ok ent this]
  have "(new_ids - {v}) \<inter> fst ` set d = {} \<longleftrightarrow>
      \<not> (\<exists>w \<in> new_ids - {v}. (link g (Some v) {})\<^sup>*\<^sup>* (entrance_id g) w)" by blast
  with Cons.IH d show ?case by simp
qed

lemma degrees_total:
  assumes "node_id ` set ns \<subseteq> node_ids g"
  shows "rmap (\<lambda>n. degree g (node_id n)) ns =
     Inr (map (\<lambda>n. length (filter (\<lambda>e. node_id n \<in> endpoints e) (edges g))) ns)"
  using assms by (induction ns) (auto simp: degree_def endpoints_def)

text \<open>
  The six Jaquays invariants, stated on the enlarged map: visible stitches that enter enough new
  regions; enough loops; mixed kinds with a hidden edge; shortcuts that collapse distance; every
  new region with at least two ways in; and no single region whose removal cuts the expansion off.
\<close>

definition loopful :: "region_graph \<Rightarrow> expansion \<Rightarrow> jaquays_config \<Rightarrow> bool" where
  "loopful g x c \<longleftrightarrow> (let post = enlarged g x in
     two_independent_entries g x c \<and>
     min_loops_into_explored c < int (length (stitches g x)) \<and>
     kind ` set (new_edges x) \<subseteq> set (edge_kinds c) \<and> 2 \<le> card (kind ` set (new_edges x)) \<and>
     min_hidden_edges c \<le> int (length (filter hidden (new_edges x))) \<and>
     min_shortcut_edges c \<le> int (card {i. i < length (edges post) \<and> shortcut (edges post ! i) \<and>
        collapses post (min_shortcut_gain c) i}) \<and>
     (\<forall>v \<in> new_region_ids x. 2 \<le> length (filter (\<lambda>e. v \<in> endpoints e) (edges post))) \<and>
     (\<forall>e \<in> set (stitches g x). \<forall>v \<in> {end_in (new_region_ids x) e, end_in (node_ids g) e}.
        v \<noteq> entrance_id g \<longrightarrow>
        (\<exists>w \<in> new_region_ids x - {v}. (link post (Some v) {})\<^sup>*\<^sup>* (entrance_id g) w)))"

lemma config_ok_thresholds:
  assumes "config_ok c" shows "1 \<le> min_shortcut_gain c" "1 \<le> min_loops_into_explored c"
  using assms unfolding config_ok_def jaquays_validate_def by (auto split: if_splits)

lemma check_invariants_meaning:
  assumes c: "config_ok c" and ok: "graph_ok g" and ent: "entrance_id g \<in> node_ids g" and fit: "fits g x"
  shows "\<exists>rep. check_invariants g x c = Inr rep \<and> (all_passed rep \<longrightarrow> loopful g x c)"
proof -
  let ?post = "enlarged g x" and ?new = "new_region_ids x"
  let ?vs = "map (end_in ?new) (stitches g x) @ map (end_in (node_ids g)) (stitches g x)"
  have post: "graph_ok ?post" "entrance_id ?post \<in> node_ids ?post"
    using graph_ok_enlarged[OF ok fit] ent by (simp_all only: enlarged_simps) blast
  obtain base where base: "bfs_dist ?post (entrance_id ?post) None {} = Inr base"
    using bfs_dist_exact[OF post] by blast
  obtain n where n: "shortcut_hits ?post base (min_shortcut_gain c) (enumerate 0 (edges ?post)) = Inr n"
      "n \<le> card {i. i < length (edges ?post) \<and> shortcut (edges ?post ! i) \<and> collapses ?post (min_shortcut_gain c) i}"
    using shortcut_hits_bound[OF post config_ok_thresholds(1)[OF c] base, of "enumerate 0 (edges ?post)"]
      length_filter_enumerate[of shortcut "collapses ?post (min_shortcut_gain c)" "edges ?post"] by metis
  have deg: "rmap (\<lambda>n. degree ?post (node_id n)) (new_nodes x) =
      Inr (map (\<lambda>n. length (filter (\<lambda>e. node_id n \<in> endpoints e) (edges ?post))) (new_nodes x))"
    by (rule degrees_total) (simp only: enlarged_simps new_region_ids_def, blast)
  note choke = chokepoint_free_iff[OF post, of ?new ?vs]
  have valid: "jaquays_validate c = Inr ()" using c by (simp add: config_ok_def)
  have keys: "set (map fst [(''two_independent_entries'', b1), (''loops_into_explored'', b2),
      (''mixed_kinds_with_hidden'', b3), (''shortcut_collapses_distance'', b4), (''no_single_entrance'', b5),
      (''no_single_chokepoint'', b6)]) = set jaquays_invariants" for b1 b2 b3 b4 b5 b6 :: bool
    by (simp add: jaquays_invariants_def)
  have loops: "min_loops_into_explored c < int (length (stitches g x))"
    if "min_loops_into_explored c \<le> int (length (stitches g x) - 1)"
    using that config_ok_thresholds(2)[OF c] by linarith
  have degs: "\<forall>v \<in> ?new. 2 \<le> length (filter (\<lambda>e. v \<in> endpoints e) (edges ?post))"
    if "list_all ((\<le>) 2) (map (\<lambda>n. length (filter (\<lambda>e. node_id n \<in> endpoints e) (edges ?post))) (new_nodes x))"
    using that by (auto simp: list_all_iff new_region_ids_def)
  have hits: "min_shortcut_edges c \<le> int (card {i. i < length (edges ?post) \<and> shortcut (edges ?post ! i) \<and>
      collapses ?post (min_shortcut_gain c) i})" if "min_shortcut_edges c \<le> int n"
    using that n(2) by linarith
  have ends: "\<forall>e \<in> set (stitches g x). \<forall>v \<in> {end_in ?new e, end_in (node_ids g) e}. P v"
    if "\<forall>v \<in> set ?vs. P v" for P
    using that by simp
  show ?thesis
    unfolding check_invariants_def Let_def valid rbind_simps post_attach_graph_enlarged[OF ok fit] base n(1) deg choke
      keys all_passed_def loopful_def
    by (simp only: simp_thms if_False sum.inject ex_simps generation_report.simps list.distinct list.pred_inject snd_conv
        enlarged_simps(1)) (use loops degs hits ends in blast)
qed

section \<open>The re-roll loop\<close>

lemma reroll_outcome:
  assumes build: "\<And>k. ok (build k) (cand_spec g)"
    and c: "config_ok c" and ok: "graph_ok g" and ent: "entrance_id g \<in> node_ids g"
  shows "(\<exists>prev'. reroll build tape g c ks prev = Inr (Inl prev')) \<or>
     (\<exists>x rep k. reroll build tape g c ks prev = Inr (Inr (x, rep)) \<and> k \<in> set ks \<and> attempts rep = k + 1 \<and>
        cand_spec g x \<and> fst (build k (tape k)) = Inr x \<and> loopful g x c)"
proof (induction ks arbitrary: prev)
  case Nil
  show ?case by simp
next
  case (Cons k ks)
  obtain x where x: "fst (build k (tape k)) = Inr x" "cand_spec g x"
    using ok_result[OF build] by metis
  obtain rep where rep: "check_invariants g x c = Inr rep" "all_passed rep \<longrightarrow> loopful g x c"
    using check_invariants_meaning[OF c ok ent cand_spec_fits[OF x(2)]] by blast
  show ?case
  proof (cases "all_passed (rep\<lparr>attempts := k + 1\<rparr>)")
    case True
    with x rep show ?thesis by (auto simp: all_passed_def)
  next
    case False
    with x rep Cons.IH[of "Some (rep\<lparr>attempts := k + 1\<rparr>)"] show ?thesis by auto
  qed
qed

lemma generate_expansion_cases:
  assumes inputs: "gen_inputs_ok g eid attach_ids theme_pool c"
  shows "(\<exists>fs. generate_expansion blake2b seeded g campaign_seed eid attach_ids theme_pool c =
            Inl (ExpansionGenerationError eid (nat (max_reroll_attempts c)) fs)) \<or>
     (\<exists>x rep. generate_expansion blake2b seeded g campaign_seed eid attach_ids theme_pool c = Inr (x, rep) \<and>
        attempts rep \<le> nat (max_reroll_attempts c) \<and> cand_spec g x \<and> loopful g x c)"
proof -
  have c: "config_ok c" and g: "graph_ok g" "entrance_id g \<in> node_ids g"
    using inputs unfolding gen_inputs_ok_def by blast+
  have valid: "jaquays_validate c = Inr ()" using c by (simp add: config_ok_def)
  from reroll_outcome[where build = "\<lambda>_. build_candidate g eid attach_ids theme_pool c",
      OF build_candidate_ok[OF inputs] c g, of "\<lambda>k. seeded (subseed blake2b campaign_seed eid k)"
        "[0..<nat (max_reroll_attempts c)]" None]
  show ?thesis
    unfolding generate_expansion_def valid by (elim disjE exE conjE) auto
qed

end
