(* ===== verification/Region_Properties.thy ===== *)
theory Region_Properties
  imports Region_Attach
begin

text \<open>
  The properties of the region graph and its expansion, with concrete instances. The example map is a
  lone entrance; the example tape makes the first candidate pass.
\<close>

definition ex_map :: region_graph where
  "ex_map = \<lparr>entrance_id = ''gate'', nodes = [(''gate'', \<lparr>node_id = ''gate'', node_expansion_id = 0,
     theme = ''stone'', depth_score = None\<rparr>)], edges = []\<rparr>"

definition ex_config :: jaquays_config where
  "ex_config = \<lparr>min_stitch_edges = 2, min_loops_into_explored = 1, min_hidden_edges = 1,
     min_shortcut_edges = 1, min_shortcut_gain = 1, connection_burst = 0,
     new_regions_per_expansion = (3, 3), max_reroll_attempts = 4,
     edge_kinds = [''corridor'', ''shaft'', ''secret'']\<rparr>"

definition ex_tape :: "nat \<Rightarrow> rng" where
  "ex_tape n = [0, 0, 0, 0, 0, 1]"

definition ex_region :: "string \<Rightarrow> region_node" where
  "ex_region i = \<lparr>node_id = i, node_expansion_id = 1, theme = ''stone'', depth_score = Some (3 / 2)\<rparr>"

definition ex_ring :: region_graph where
  "ex_ring = \<lparr>entrance_id = ''a'', nodes = map (\<lambda>i. (i, ex_region i)) [''a'', ''b'', ''c''],
     edges = [plain_edge ''a'' ''b'' ''corridor'', plain_edge ''b'' ''c'' ''stairs'', plain_edge ''c'' ''a'' ''shaft'']\<rparr>"

lemma ex_ring_ok: "graph_ok ex_ring"
  by (simp add: graph_ok_def edge_ok_def ex_ring_def ex_region_def plain_edge_def)

lemma ex_inputs_ok: "gen_inputs_ok ex_map 1 [] [''stone''] ex_config"
proof -
  have "config_ok ex_config" by (simp add: config_ok_def jaquays_validate_def ex_config_def)
  moreover have "is_connected ex_map = Inr True"
    by (simp add: ex_map_def is_connected_def reachable_from_entrance_def bfs_dist_def adjacency_def live_edges_def)
  moreover have "region_name 1 i \<noteq> ''gate''" for i by (simp add: region_name_def)
  ultimately show ?thesis
    by (simp add: gen_inputs_ok_def graph_ok_def is_seed_def) (simp add: ex_map_def)
qed

lemma ex_generates:
  "\<exists>x rep. generate_expansion (\<lambda>_. [7]) ex_tape ex_map 1 1 [] [''stone''] ex_config = Inr (x, rep)"
proof -
  have "\<not> isl (generate_expansion (\<lambda>_. [7]) ex_tape ex_map 1 1 [] [''stone''] ex_config)" by code_simp
  then show ?thesis by (cases "generate_expansion (\<lambda>_. [7]) ex_tape ex_map 1 1 [] [''stone''] ex_config") auto
qed

text \<open>
  C1. From a connected well-formed map and a valid configuration, an expansion that the generator
  returns attaches without an exception. The new map is the old one with the new regions and edges
  appended; it is well formed, connected, has strictly more independent cycles, and all six Jaquays
  invariants hold of it as graph facts: enough visible stitches, mixed kinds with hidden edges,
  shortcuts without which some region is farther away, two ways into every new region, and no stitch
  end whose removal cuts off the rest of the expansion.
\<close>

theorem generated_expansion_attaches:
  assumes "gen_inputs_ok g eid attach_ids theme_pool c"
    and "generate_expansion blake2b seeded g campaign_seed eid attach_ids theme_pool c = Inr (x, rep)"
    and "cyclomatic_number g = Inr cyc"
  shows "\<exists>g'. attach_expansion x g = (Inr (), g') \<and>
     nodes g' = nodes g @ map (\<lambda>n. (node_id n, n)) (new_nodes x) \<and> edges g' = edges g @ new_edges x \<and>
     graph_ok g' \<and> is_connected g' = Inr True \<and>
     (\<exists>cyc'. cyclomatic_number g' = Inr cyc' \<and> cyc < cyc') \<and> loopful g x c"
proof -
  have g: "graph_ok g" "entrance_id g \<in> node_ids g" "is_connected g = Inr True"
    using assms(1) unfolding gen_inputs_ok_def by blast+
  have x: "cand_spec g x" "loopful g x c"
    using generate_expansion_cases[OF assms(1), of blake2b seeded campaign_seed] assms(2) by auto
  have "length (new_nodes x) < length (new_edges x)" using x(1) unfolding cand_spec_def by blast
  with attach_candidate[OF g x(1) assms(3)] enlarged_connected[OF g x(1)]
    graph_ok_enlarged[OF g(1) cand_spec_fits[OF x(1)]] x(2) show ?thesis
    by (intro exI[of _ "enlarged g x"]) (auto simp: enlarged_def)
qed

theorem generated_expansion_attaches_witness:
  "\<exists>x rep. generate_expansion (\<lambda>_. [7]) ex_tape ex_map 1 1 [] [''stone''] ex_config = Inr (x, rep) \<and>
     (\<exists>g'. attach_expansion x ex_map = (Inr (), g') \<and> is_connected g' = Inr True \<and> loopful ex_map x ex_config)"
proof -
  obtain x rep where x: "generate_expansion (\<lambda>_. [7]) ex_tape ex_map 1 1 [] [''stone''] ex_config = Inr (x, rep)"
    using ex_generates by blast
  have "graph_ok ex_map" using ex_inputs_ok unfolding gen_inputs_ok_def by blast
  from generated_expansion_attaches[OF ex_inputs_ok x cyclomatic_surplus[OF this]] x show ?thesis by blast
qed



text \<open>
  Every candidate the builder assembles, for every tape, has fresh and distinct region ids, edges
  between two different regions of the enlarged map, every new region connected to an explored one,
  and more edges than regions.
\<close>

theorem build_candidate_well_formed:
  assumes "gen_inputs_ok g eid attach_ids theme_pool c"
  shows "\<exists>x. fst (build_candidate g eid attach_ids theme_pool c tape) = Inr x \<and> cand_spec g x"
  using ok_result[OF build_candidate_ok[OF assms]] by blast

theorem build_candidate_well_formed_witness:
  "\<exists>x. fst (build_candidate ex_map 1 [] [''stone''] ex_config [3, 1, 4, 1, 5]) = Inr x \<and> cand_spec ex_map x"
  using build_candidate_well_formed[OF ex_inputs_ok] by blast

text \<open>
  C3. Attaching any expansion at all, well built or not, leaves a well-formed map behind, also when it
  raises; and when it returns, the map is connected and has at least as many independent cycles as
  before.
\<close>

theorem attach_expansion_sound:
  assumes "graph_ok g" and "attach_expansion x g = (r, g')"
  shows "graph_ok g' \<and> (r = Inr () \<longrightarrow> is_connected g' = Inr True \<and>
     (\<exists>n n'. cyclomatic_number g = Inr n \<and> cyclomatic_number g' = Inr n' \<and> n \<le> n'))"
proof -
  have "graph_ok g'"
    using keeps_attach_expansion[of x] assms unfolding keeps_def by (metis snd_conv)
  moreover have "is_connected g' = Inr True \<and> surplus_from [] (edges g) \<le> surplus_from [] (edges g')" if "r = Inr ()"
  proof -
    have f: "fits g x" "g' = enlarged g x" using attach_returns_fits[of x g "()" g'] assms(2) that by auto
    have con: "is_connected (enlarged g x) = Inr True" using attach_connected[of x g "()" g'] assms(2) that f(2) by simp
    have "fst (attach_expansion x g) = Inr ()" using assms(2) that by simp
    then have "surplus_from [] (edges g) \<le> surplus_from [] (edges g @ new_edges x)"
      unfolding attach_expansion_eq[OF assms(1) f(1) con] fst_conv by (simp split: if_splits)
    with con f(2) show ?thesis by simp
  qed
  ultimately show ?thesis using cyclomatic_surplus assms(1) by auto
qed

theorem attach_expansion_sound_witness:
  "graph_ok (snd (attach_expansion \<lparr>expansion_id = 2, new_nodes = [], new_edges = []\<rparr> ex_ring))"
proof -
  obtain r g' where a: "attach_expansion \<lparr>expansion_id = 2, new_nodes = [], new_edges = []\<rparr> ex_ring = (r, g')" by fastforce
  from attach_expansion_sound[OF ex_ring_ok a] a show ?thesis by simp
qed

text \<open>
  C38. Breadth-first distances are exact. On a well-formed map \<open>bfs_dist\<close> from a known region returns,
  and it records a region with distance \<open>k\<close> exactly when \<open>k\<close> is the length of a shortest walk over the
  edges that are not skipped and do not enter the blocked region.
\<close>

theorem bfs_dist_shortest_walks:
  assumes "graph_ok g" "source \<in> node_ids g"
  shows "\<exists>dm. bfs_dist g source blocked skip = Inr dm \<and>
     (\<forall>v k. map_of dm v = Some k \<longleftrightarrow>
        hops (link g blocked skip) source k v \<and> (\<forall>n. hops (link g blocked skip) source n v \<longrightarrow> k \<le> n))"
  using bfs_dist_exact[OF assms, of blocked skip] unfolding is_dist_def by blast

theorem bfs_dist_shortest_walks_witness:
  "\<exists>dm. bfs_dist ex_ring ''a'' (Some ''b'') {} = Inr dm \<and>
     (\<forall>v k. map_of dm v = Some k \<longleftrightarrow>
        hops (link ex_ring (Some ''b'') {}) ''a'' k v \<and>
        (\<forall>n. hops (link ex_ring (Some ''b'') {}) ''a'' n v \<longrightarrow> k \<le> n))"
  by (rule bfs_dist_shortest_walks[OF ex_ring_ok]) (simp add: ex_ring_def)

text \<open>
  The cyclomatic number counts loops: on a well-formed map it is never negative, and it is at
  least one exactly when some edge lies on a cycle, that is, its ends stay connected without it.
\<close>

theorem cyclomatic_number_counts_cycles:
  assumes "graph_ok g"
  shows "\<exists>n. cyclomatic_number g = Inr n \<and> 0 \<le> n \<and> (1 \<le> n \<longleftrightarrow> (\<exists>i. on_cycle (edges g) i))"
  using cyclomatic_surplus[OF assms] surplus_pos_iff[OF _ graph_ok_endpoints[OF assms]] by auto

theorem cyclomatic_number_counts_cycles_witness:
  "\<exists>n. cyclomatic_number ex_ring = Inr n \<and> 0 \<le> n \<and> (1 \<le> n \<longleftrightarrow> (\<exists>i. on_cycle (edges ex_ring) i))"
  by (rule cyclomatic_number_counts_cycles[OF ex_ring_ok])

text \<open>C39. Writing a well-formed map to its dictionary form and reading it back gives the same map.\<close>

theorem graph_dict_roundtrip:
  assumes "graph_ok g"
  shows "graph_from_dict (graph_to_dict g) = Inr g"
  by (rule graph_roundtrip[OF assms])

theorem graph_dict_roundtrip_witness: "graph_from_dict (graph_to_dict ex_ring) = Inr ex_ring"
  by (rule graph_dict_roundtrip[OF ex_ring_ok])

end
