(* ===== verification/Creature.thy ===== *)
theory Creature
  imports Prelude
begin

text \<open>
  The shared creature model: statuses (src/sidequest/game/status.py), the ablative hit-point pool and
  the creature core (creature_core.py), and the inert facets it carries (system_strain.py,
  wwn_magic.py). The interface \<open>bounded_pool\<close> states the delta contract that the hit-point pool, the
  rig composure pool and the War Rig hull share; its consequences are proved once and used through
  the interpretations.
\<close>

section \<open>Statuses\<close>

datatype status_severity = Scratch | Wound | Scar | Boon

record status =
  status_text :: string
  severity :: status_severity
  absorbed_shifts :: int
  created_turn :: int
  created_in_encounter :: "string option"
  incapacitating :: bool
  stabilizable :: bool
  source :: "string option"
  roll_modifier :: int

definition new_status :: "string \<Rightarrow> status_severity \<Rightarrow> status" where
  "new_status t sev = \<lparr>status_text = t, severity = sev, absorbed_shifts = 0, created_turn = 0,
     created_in_encounter = None, incapacitating = False, stabilizable = False, source = None,
     roll_modifier = 0\<rparr>"

definition status_roll_modifier :: "status list option \<Rightarrow> int" where
  "status_roll_modifier core = (case core of None \<Rightarrow> 0 | Some ss \<Rightarrow> sum_list (map roll_modifier ss))"

text \<open>
  The entries of a saved \<open>statuses\<close> list: a structured status, a legacy string, a dictionary that
  pydantic validates, or anything else.
\<close>

datatype 'd raw_status = RawStatus status | RawStr string | RawDict 'd | RawOther

fun migrate_legacy_statuses :: "('d \<Rightarrow> status res) \<Rightarrow> 'd raw_status list \<Rightarrow> status list res" where
  "migrate_legacy_statuses model_validate [] = Inr []"
| "migrate_legacy_statuses model_validate (r # rs) =
     rbind (case r of
         RawStatus s \<Rightarrow> Inr s
       | RawStr t \<Rightarrow> Inr (new_status t Scratch)
       | RawDict d \<Rightarrow> model_validate d
       | RawOther \<Rightarrow> Inl (TypeError ''unexpected entry in statuses list''))
       (\<lambda>s. rbind (migrate_legacy_statuses model_validate rs) (\<lambda>ss. Inr (s # ss)))"

section \<open>The hit-point pool\<close>

record hp_pool =
  hp_current :: int
  hp_max :: int
  hp_base_max :: int

definition hp_apply_delta :: "int \<Rightarrow> hp_pool \<Rightarrow> hp_pool" where
  "hp_apply_delta delta p = (let raw = hp_current p + delta in p\<lparr>hp_current := max 0 (min (hp_max p) raw)\<rparr>)"

definition hp_pool_from_hp :: "int \<Rightarrow> hp_pool" where
  "hp_pool_from_hp hp = (let seed = max 1 hp in \<lparr>hp_current = seed, hp_max = seed, hp_base_max = seed\<rparr>)"

definition hp_pool_from_config :: "(string \<times> int) list \<Rightarrow> string \<Rightarrow> int \<Rightarrow> hp_pool res" where
  "hp_pool_from_config base_max_by_class class_name con_score =
     (case map_of base_max_by_class class_name of
        None \<Rightarrow> Inl (KeyError class_name)
      | Some b \<Rightarrow>
         let con_modifier = (con_score - 10) div 2; m = max 1 (b + con_modifier)
         in Inr \<lparr>hp_current = m, hp_max = m, hp_base_max = m\<rparr>)"

section \<open>Facets\<close>

record system_strain_pool =
  strain_current :: rat
  strain_max :: int
  strain_permanent :: rat

datatype effort_duration = Maintained | SceneLong | DayLong

record effort_commitment =
  points :: int
  duration :: effort_duration
  label :: string

record effort_pool =
  effort_source :: string
  effort_max :: int
  commitments :: "effort_commitment list"

definition committed :: "effort_pool \<Rightarrow> int" where
  "committed p = sum_list (map points (commitments p))"

definition available :: "effort_pool \<Rightarrow> int" where
  "available p = effort_max p - committed p"

record spellcasting_state =
  prepared :: "string list"
  casts_remaining :: int
  casts_per_day :: int
  max_spell_level :: int

text \<open>The rig composure pool (rig_composure_pool.py): its data; its operations are in \<open>Rigs\<close>.\<close>

record rig_composure_pool =
  rig_current :: int
  rig_max :: int
  rig_base_max :: int
  character_id :: string
  chassis_id :: string

section \<open>The creature core\<close>

text \<open>
  \<open>'item\<close> is the free-form dictionary of an inventory entry; the Fate facet, inert here, is the
  record's extension.
\<close>

record 'item inventory =
  items :: "'item list"
  gold :: int

record 'item creature_core =
  core_name :: string
  description :: string
  personality :: string
  level :: int
  xp :: int
  core_inventory :: "'item inventory"
  statuses :: "status list"
  hp :: hp_pool
  system_strain :: "system_strain_pool option"
  effort :: "(string \<times> effort_pool) list"
  spellcasting :: "spellcasting_state option"
  armor_class :: int
  move :: "int option"
  trauma_target_mod :: int
  rig_pool :: "rig_composure_pool option"
  acquired_advancements :: "string list"

definition creature_validate :: "('i, 'm) creature_core_scheme \<Rightarrow> ('i, 'm) creature_core_scheme res" where
  "creature_validate core =
     (if blank (core_name core) then Inl (ValueError ''name cannot be blank'')
      else if blank (description core) then Inl (ValueError ''description cannot be blank'')
      else if blank (personality core) then Inl (ValueError ''personality cannot be blank'')
      else Inr core)"

definition apply_hp_delta :: "int \<Rightarrow> ('i, 'm) creature_core_scheme \<Rightarrow> ('i, 'm) creature_core_scheme" where
  "apply_hp_delta delta core = core\<lparr>hp := hp_apply_delta delta (hp core)\<rparr>"

definition append_status :: "status \<Rightarrow> ('i, 'm) creature_core_scheme \<Rightarrow> ('i, 'm) creature_core_scheme" where
  "append_status s core = core\<lparr>statuses := statuses core @ [s]\<rparr>"

definition has_status :: "string \<Rightarrow> ('i, 'm) creature_core_scheme \<Rightarrow> bool" where
  "has_status t core = list_ex (\<lambda>s. status_text s = t) (statuses core)"

section \<open>The contract of a bounded pool\<close>

text \<open>
  A pool with a current value and a ceiling, changed by a clamped delta. \<open>well\<close> is what the pool's
  constructor checks.
\<close>

locale bounded_pool =
  fixes cur :: "'p \<Rightarrow> int" and ceil :: "'p \<Rightarrow> int" and app :: "int \<Rightarrow> 'p \<Rightarrow> 'p" and well :: "'p \<Rightarrow> bool"
  assumes cur_app: "cur (app d p) = max 0 (min (ceil p) (cur p + d))"
    and ceil_app [simp]: "ceil (app d p) = ceil p"
    and well_bounds: "well p \<Longrightarrow> 0 \<le> cur p \<and> cur p \<le> ceil p"
    and well_app: "well p \<Longrightarrow> well (app d p)"
begin

lemma app_bounds: "well p \<Longrightarrow> 0 \<le> cur (app d p) \<and> cur (app d p) \<le> ceil p"
  using well_bounds[OF well_app, of p d] by simp

lemma app_zero: "well p \<Longrightarrow> cur (app 0 p) = cur p"
  using well_bounds[of p] by (simp add: cur_app)

lemma damage_adds:
  assumes "well p" "a \<le> 0" "b \<le> 0"
  shows "cur (app b (app a p)) = cur (app (a + b) p)"
  using well_bounds[OF assms(1)] assms(2,3) by (auto simp: cur_app max_def min_def)

lemma heal_adds:
  assumes "well p" "0 \<le> a" "0 \<le> b"
  shows "cur (app b (app a p)) = cur (app (a + b) p)"
  using well_bounds[OF assms(1)] assms(2,3) by (auto simp: cur_app max_def min_def)

lemma realized_loss: "well p \<Longrightarrow> 0 \<le> n \<Longrightarrow> cur p - cur (app (- n) p) = min n (cur p)"
  using well_bounds[of p] by (auto simp: cur_app)

lemma damage_anti_mono: "a \<le> b \<Longrightarrow> cur (app a p) \<le> cur (app b p)"
  by (auto simp: cur_app)

definition crosses :: "int \<Rightarrow> 'p \<Rightarrow> bool" where
  "crosses d p \<longleftrightarrow> 0 < cur p \<and> cur (app d p) = 0"

fun app_run :: "int list \<Rightarrow> 'p \<Rightarrow> 'p" where
  "app_run [] p = p"
| "app_run (d # ds) p = app_run ds (app d p)"

fun crossings :: "int list \<Rightarrow> 'p \<Rightarrow> nat" where
  "crossings [] p = 0"
| "crossings (d # ds) p = (if crosses d p then 1 else 0) + crossings ds (app d p)"

lemma well_run: "well p \<Longrightarrow> well (app_run ds p)"
  by (induction ds arbitrary: p) (auto intro: well_app)

lemma run_damage:
  assumes "well p" "\<forall>d \<in> set ds. d \<le> 0"
  shows "cur (app_run ds p) = max 0 (cur p + sum_list ds)"
  using assms
proof (induction ds arbitrary: p)
  case Nil
  then show ?case using well_bounds[of p] by simp
next
  case (Cons d ds)
  have "sum_list ds \<le> 0" using Cons.prems(2) by (intro sum_list_nonpos) auto
  then show ?case
    using Cons well_app[of p d] well_bounds[of p] by (auto simp: cur_app)
qed

text \<open>In a run of hits the downward crossing to zero is reported exactly when the run empties the pool, and once.\<close>

lemma crossings_damage:
  assumes "well p" "\<forall>d \<in> set ds. d \<le> 0"
  shows "crossings ds p = (if 0 < cur p \<and> cur (app_run ds p) = 0 then 1 else 0)"
  using assms
proof (induction ds arbitrary: p)
  case Nil
  then show ?case by simp
next
  case (Cons d ds)
  let ?q = "app d p"
  have q: "well ?q" and ds: "\<forall>d \<in> set ds. d \<le> 0" "sum_list ds \<le> 0"
    using Cons.prems by (auto intro: well_app sum_list_nonpos)
  note IH = Cons.IH[OF q ds(1)] and final = run_damage[OF q ds(1)]
  have "cur ?q \<le> cur p" "0 \<le> cur ?q"
    using Cons.prems well_bounds[of p] well_bounds[OF q] by (auto simp: cur_app)
  then show ?case
    unfolding crossings.simps app_run.simps IH crosses_def final using ds(2) by (cases "cur ?q = 0") auto
qed

end

section \<open>The hit-point pool meets the contract\<close>

definition hp_well :: "hp_pool \<Rightarrow> bool" where
  "hp_well p \<longleftrightarrow> 0 \<le> hp_current p \<and> hp_current p \<le> hp_max p"

interpretation hp: bounded_pool hp_current hp_max hp_apply_delta hp_well
  by unfold_locales (auto simp: hp_apply_delta_def hp_well_def)

lemma hp_pool_from_hp_well: "hp_well (hp_pool_from_hp n)" "0 < hp_current (hp_pool_from_hp n)"
  by (auto simp: hp_well_def hp_pool_from_hp_def Let_def)

lemma hp_pool_from_config_well:
  "hp_pool_from_config cfg cl con = Inr p \<Longrightarrow> hp_well p \<and> 0 < hp_current p \<and> hp_current p = hp_max p"
  by (auto simp: hp_pool_from_config_def hp_well_def Let_def split: option.splits)

lemma migrate_length: "migrate_legacy_statuses mv rs = Inr ss \<Longrightarrow> length ss = length rs"
  by (induction rs arbitrary: ss) (auto simp: rbind_Inr_iff)

lemma core_simps [simp]:
  "statuses (apply_hp_delta d core) = statuses core"
  "rig_pool (apply_hp_delta d core) = rig_pool core"
  "hp (apply_hp_delta d core) = hp_apply_delta d (hp core)"
  "statuses (append_status s core) = statuses core @ [s]"
  "rig_pool (append_status s core) = rig_pool core"
  "hp (append_status s core) = hp core"
  by (simp_all add: apply_hp_delta_def append_status_def)

end
