(* ===== verification/Rigs.thy ===== *)
theory Rigs
  imports Creature
begin

text \<open>
  Rig and War Rig combat: the composure pool (src/sidequest/game/rig_composure_pool.py), the crash
  handler (rig_crash.py), the shared hull with its crash fan-out (war_rig_combat.py), the command
  points and the crisis table (war_rig_command.py) and the stateless vehicle rules
  (vehicle_combat.py). The telemetry spans an operation opens are its event list, in order.
\<close>

section \<open>Telemetry events\<close>

datatype rig_span =
    PoolCreated string string int int
  | PoolDelta string string int int int
  | ZeroCrossing string string int int
  | CrashEvent string string int int

record delta_result =
  old_current :: int
  new_current :: int
  zero_crossed :: bool

section \<open>The composure pool\<close>

definition rig_check_bounds :: "rig_composure_pool \<Rightarrow> rig_composure_pool res" where
  "rig_check_bounds p =
     (if blank (character_id p) then Inl (ValueError ''character_id cannot be blank'')
      else if blank (chassis_id p) then Inl (ValueError ''chassis_id cannot be blank'')
      else if rig_max p \<le> 0 then Inl (ValueError ''max must be > 0'')
      else if rig_current p < 0 then Inl (ValueError ''current must be >= 0'')
      else if rig_current p > rig_max p then Inl (ValueError ''current cannot exceed max'')
      else Inr p)"

definition rig_apply_delta ::
  "int \<Rightarrow> rig_composure_pool \<Rightarrow> delta_result \<times> rig_composure_pool \<times> rig_span list" where
  "rig_apply_delta delta p =
     (let old = rig_current p; raw = rig_current p + delta; new = max 0 (min (rig_max p) raw);
          p' = p\<lparr>rig_current := new\<rparr>; crossed = (old > 0 \<and> new = 0);
          spans = PoolDelta (character_id p) (chassis_id p) delta old new #
            (if crossed then [ZeroCrossing (character_id p) (chassis_id p) old new] else [])
      in (\<lparr>old_current = old, new_current = new, zero_crossed = crossed\<rparr>, p', spans))"

definition rig_is_destroyed :: "rig_composure_pool \<Rightarrow> bool" where
  "rig_is_destroyed p \<longleftrightarrow> rig_current p = 0"

section \<open>The crash handler\<close>

definition INJURY_STATUS_TEXT :: string where "INJURY_STATUS_TEXT = ''injury''"
definition DISMOUNTED_STATUS_TEXT :: string where "DISMOUNTED_STATUS_TEXT = ''dismounted''"
definition MAJOR_INJURY_STATUS_TEXT :: string where "MAJOR_INJURY_STATUS_TEXT = ''major_injury''"
definition DRIVER_HP_HIT :: int where "DRIVER_HP_HIT = -1"

record crash_save_result =
  hp_delta :: int
  mortal :: bool
  major_injury :: bool

record rig_crash_result =
  crash_character_id :: string
  crash_chassis_id :: string
  edge_after :: int

record rig_damage_result =
  pool_result :: delta_result
  crash :: "rig_crash_result option"

definition already_dismounted :: "('i, 'm) creature_core_scheme \<Rightarrow> bool" where
  "already_dismounted core = has_status DISMOUNTED_STATUS_TEXT core"

definition resolve_crash_saves ::
  "bool \<Rightarrow> bool \<Rightarrow> ('i, 'm) creature_core_scheme \<Rightarrow> crash_save_result \<times> ('i, 'm) creature_core_scheme" where
  "resolve_crash_saves physical_passed luck_passed core =
     (let half = hp_max (hp core) div 2;
          failed = (if physical_passed then 0 else 1) + (if luck_passed then 0 else 1);
          hp_before = hp_current (hp core);
          core1 = (if failed \<noteq> 0 then apply_hp_delta (- half * failed) core else core);
          hp_after = hp_current (hp core1);
          major = (failed = 2);
          core2 = (if major then append_status (new_status MAJOR_INJURY_STATUS_TEXT Scar) core1 else core1)
      in (\<lparr>hp_delta = hp_after - hp_before, mortal = (major \<or> (failed > 0 \<and> hp_after = 0)),
           major_injury = major\<rparr>, core2))"

definition handle_rig_crash ::
  "(bool \<times> bool) option \<Rightarrow> ('i, 'm) creature_core_scheme \<Rightarrow>
   rig_crash_result option \<times> ('i, 'm) creature_core_scheme \<times> rig_span list" where
  "handle_rig_crash crash_save_outcomes core =
     (case rig_pool core of
        None \<Rightarrow> (None, core, [])
      | Some pool \<Rightarrow>
        if \<not> rig_is_destroyed pool then (None, core, [])
        else if already_dismounted core then (None, core, [])
        else
          let hp_before = hp_current (hp core);
              (delta, core1) =
                (case crash_save_outcomes of
                   Some (physical, luck) \<Rightarrow>
                     (let (r, c) = resolve_crash_saves physical luck core in (hp_delta r, c))
                 | None \<Rightarrow>
                     (let c = apply_hp_delta DRIVER_HP_HIT core in (hp_current (hp c) - hp_before, c)));
              hp_after = hp_current (hp core1);
              core2 = append_status (new_status INJURY_STATUS_TEXT Wound) core1;
              core3 = append_status (new_status DISMOUNTED_STATUS_TEXT Scar) core2
          in (Some \<lparr>crash_character_id = character_id pool, crash_chassis_id = chassis_id pool,
                     edge_after = hp_current (hp core3)\<rparr>,
              core3, [CrashEvent (character_id pool) (chassis_id pool) delta hp_after]))"

definition realized_damage :: "int \<Rightarrow> int \<Rightarrow> int" where
  "realized_damage amount armor = (if amount > 0 then max 1 (amount - armor) else 0)"

definition apply_rig_damage ::
  "int \<Rightarrow> int \<Rightarrow> (bool \<times> bool) option \<Rightarrow> ('i, 'm) creature_core_scheme \<Rightarrow>
   (rig_damage_result option \<times> ('i, 'm) creature_core_scheme \<times> rig_span list) res" where
  "apply_rig_damage amount armor crash_save_outcomes core =
     (if amount < 0 then Inl (ValueError ''amount must be >= 0'')
      else if armor < 0 then Inl (ValueError ''armor must be >= 0'')
      else case rig_pool core of
        None \<Rightarrow> Inr (None, core, [])
      | Some pool \<Rightarrow>
        let (res, pool', spans) = rig_apply_delta (- realized_damage amount armor) pool;
            core1 = core\<lparr>rig_pool := Some pool'\<rparr>
        in if zero_crossed res
           then (let (cr, core2, spans2) = handle_rig_crash crash_save_outcomes core1
                 in Inr (Some \<lparr>pool_result = res, crash = cr\<rparr>, core2, spans @ spans2))
           else Inr (Some \<lparr>pool_result = res, crash = None\<rparr>, core1, spans))"

section \<open>The shared hull\<close>

record war_rig_hull =
  hull_current :: int
  hull_max :: int
  hull_base_max :: int
  vessel_id :: string

definition hull_check_bounds :: "war_rig_hull \<Rightarrow> war_rig_hull res" where
  "hull_check_bounds h =
     (if blank (vessel_id h) then Inl (ValueError ''vessel_id cannot be blank'')
      else if hull_max h \<le> 0 then Inl (ValueError ''max must be > 0'')
      else if hull_current h < 0 then Inl (ValueError ''current must be >= 0'')
      else if hull_current h > hull_max h then Inl (ValueError ''current cannot exceed max'')
      else Inr h)"

definition hull_apply_delta :: "int \<Rightarrow> war_rig_hull \<Rightarrow> delta_result \<times> war_rig_hull \<times> rig_span list" where
  "hull_apply_delta delta h =
     (let old = hull_current h; new = max 0 (min (hull_max h) (old + delta));
          h' = h\<lparr>hull_current := new\<rparr>; crossed = (old > 0 \<and> new = 0);
          spans = PoolDelta (vessel_id h) (vessel_id h) delta old new #
            (if crossed then [ZeroCrossing (vessel_id h) (vessel_id h) old new] else [])
      in (\<lparr>old_current = old, new_current = new, zero_crossed = crossed\<rparr>, h', spans))"

definition hull_is_destroyed :: "war_rig_hull \<Rightarrow> bool" where
  "hull_is_destroyed h \<longleftrightarrow> hull_current h = 0"

record hull_damage_result =
  hull_pool_result :: delta_result
  crashed :: bool
  occupants_crashed :: nat

definition crash_occupant ::
  "string \<Rightarrow> (bool \<times> bool) option \<Rightarrow> ('i, 'm) creature_core_scheme \<Rightarrow> ('i, 'm) creature_core_scheme \<times> rig_span" where
  "crash_occupant vessel crash_save_outcomes occ =
     (let hp_before = hp_current (hp occ);
          occ1 = (case crash_save_outcomes of Some (physical, luck) \<Rightarrow> snd (resolve_crash_saves physical luck occ)
                  | None \<Rightarrow> occ);
          hp_after = hp_current (hp occ1);
          occ2 = (if has_status INJURY_STATUS_TEXT occ1 then occ1
                  else append_status (new_status INJURY_STATUS_TEXT Wound) occ1);
          occ3 = (if has_status DISMOUNTED_STATUS_TEXT occ2 then occ2
                  else append_status (new_status DISMOUNTED_STATUS_TEXT Scar) occ2)
      in (occ3, CrashEvent vessel vessel (hp_after - hp_before) hp_after))"

text \<open>
  The occupants are distinct creatures, so the loop over them is a map over the list of their states.
\<close>

definition apply_war_rig_hull_damage ::
  "int \<Rightarrow> int \<Rightarrow> (bool \<times> bool) option \<Rightarrow> war_rig_hull \<Rightarrow> ('i, 'm) creature_core_scheme list \<Rightarrow>
   (hull_damage_result \<times> war_rig_hull \<times> ('i, 'm) creature_core_scheme list \<times> rig_span list) res" where
  "apply_war_rig_hull_damage amount armor crash_save_outcomes shell occupants =
     (if amount < 0 then Inl (ValueError ''amount must be >= 0'')
      else if armor < 0 then Inl (ValueError ''armor must be >= 0'')
      else
        let (res, shell', spans) = hull_apply_delta (- realized_damage amount armor) shell;
            hit = zero_crossed res;
            outs = (if hit then map (crash_occupant (vessel_id shell) crash_save_outcomes) occupants else [])
        in Inr (\<lparr>hull_pool_result = res, crashed = hit, occupants_crashed = length outs\<rparr>, shell',
                if hit then map fst outs else occupants, spans @ map snd outs))"

section \<open>Command points\<close>

definition CP_DO_YOUR_DUTY :: string where "CP_DO_YOUR_DUTY = ''do_your_duty''"
definition CP_ABOVE_AND_BEYOND :: string where "CP_ABOVE_AND_BEYOND = ''above_and_beyond''"
definition CP_SUPPORT_DEPARTMENT :: string where "CP_SUPPORT_DEPARTMENT = ''support_department''"

definition CP_ACTION_COSTS :: "(string \<times> int) list" where
  "CP_ACTION_COSTS = [(CP_DO_YOUR_DUTY, 0), (CP_ABOVE_AND_BEYOND, 1), (CP_SUPPORT_DEPARTMENT, 1)]"

record command_point_pool =
  cp_current :: int
  cp_max :: int
  cp_vessel_id :: string

definition cp_check_bounds :: "command_point_pool \<Rightarrow> command_point_pool res" where
  "cp_check_bounds p =
     (if blank (cp_vessel_id p) then Inl (ValueError ''vessel_id cannot be blank'')
      else if cp_max p \<le> 0 then Inl (ValueError ''max must be > 0'')
      else if cp_current p < 0 then Inl (ValueError ''current must be >= 0'')
      else if cp_current p > cp_max p then Inl (ValueError ''current cannot exceed max'')
      else Inr p)"

record spend_result =
  action :: string
  cost :: int
  bonus :: int
  cp_old_current :: int
  cp_new_current :: int

text \<open>The state of a spend is the pool and the generator it draws from.\<close>

definition spend_command_points :: "string \<Rightarrow> (command_point_pool \<times> rng, spend_result) sm" where
  "spend_command_points act =
     (\<lambda>(pool, tape).
       case map_of CP_ACTION_COSTS act of
         None \<Rightarrow> (Inl (ValueError ''unknown command-point action''), (pool, tape))
       | Some c \<Rightarrow>
         if c > cp_current pool then (Inl (ValueError ''insufficient command points''), (pool, tape))
         else
           let (b, tape') = (if act = CP_ABOVE_AND_BEYOND then randint 1 6 tape else (Inr 0, tape)) in
           case b of
             Inl e \<Rightarrow> (Inl e, (pool, tape'))
           | Inr bns \<Rightarrow>
             let old = cp_current pool; pool' = pool\<lparr>cp_current := old - c\<rparr> in
             (Inr \<lparr>action = act, cost = c, bonus = bns, cp_old_current = old, cp_new_current = cp_current pool'\<rparr>,
              (pool', tape')))"

section \<open>The crisis table\<close>

text \<open>The prose description of an entry, which no rule reads, is left out.\<close>

datatype crisis_type = Continuing | Acute

record crisis_entry =
  crisis_id :: string
  crisis_kind :: crisis_type
  dc :: int
  hull_penalty :: int

definition crisis :: "string \<Rightarrow> crisis_type \<Rightarrow> int \<Rightarrow> int \<Rightarrow> crisis_entry" where
  "crisis i k d p = \<lparr>crisis_id = i, crisis_kind = k, dc = d, hull_penalty = p\<rparr>"

definition CRISIS_TABLE :: "(int \<times> crisis_entry) list" where
  "CRISIS_TABLE =
     [(1, crisis ''loose_cargo'' Acute 8 1), (2, crisis ''blinding_dust'' Acute 9 1),
      (3, crisis ''seized_gun'' Acute 9 1), (4, crisis ''fuel_leak'' Continuing 10 1),
      (5, crisis ''engine_fire'' Continuing 11 2), (6, crisis ''shredded_tire'' Continuing 10 1),
      (7, crisis ''boarders'' Continuing 12 2), (8, crisis ''steering_fault'' Continuing 11 1),
      (9, crisis ''overheat'' Continuing 10 1), (10, crisis ''rollover_threat'' Continuing 13 3)]"

definition roll_crisis :: "(rng, int \<times> crisis_entry) sm" where
  "roll_crisis = sbind (randint 1 10) (\<lambda>roll.
     case map_of CRISIS_TABLE roll of None \<Rightarrow> raise (KeyError (show_int roll)) | Some e \<Rightarrow> ret (roll, e))"

record crisis_resolution =
  res_crisis_id :: string
  success :: bool
  roll :: int
  total :: int
  escalated :: bool
  hull_delta :: int

definition deal_with_crisis ::
  "crisis_entry \<Rightarrow> int \<Rightarrow> (war_rig_hull option \<times> rng, crisis_resolution) sm" where
  "deal_with_crisis entry ability_mod =
     (\<lambda>(shell, tape).
       let (r, tape') = randint 1 10 tape in
       case r of
         Inl e \<Rightarrow> (Inl e, (shell, tape'))
       | Inr d \<Rightarrow>
         let tot = d + ability_mod; succ = (tot \<ge> dc entry); esc = (\<not> succ \<and> crisis_kind entry = Continuing);
             shell' = (if esc then map_option (\<lambda>h. fst (snd (hull_apply_delta (- hull_penalty entry) h))) shell else shell);
             hd = (if esc \<and> shell \<noteq> None then - hull_penalty entry else 0)
         in (Inr \<lparr>res_crisis_id = crisis_id entry, success = succ, roll = d, total = tot, escalated = esc,
                  hull_delta = hd\<rparr>, (shell', tape')))"

section \<open>Vehicle rules\<close>

definition STATIONARY_AC_PENALTY :: int where "STATIONARY_AC_PENALTY = -4"
definition RAM_TRAUMA_DIE :: string where "RAM_TRAUMA_DIE = ''1d12''"
definition RAM_TRAUMA_RATING :: int where "RAM_TRAUMA_RATING = 3"

definition vehicle_ac :: "int \<Rightarrow> int \<Rightarrow> bool \<Rightarrow> int" where
  "vehicle_ac base_ac drive_modifier moving =
     (if moving then base_ac + drive_modifier else base_ac + STATIONARY_AC_PENALTY)"

record ramming_result =
  attacker_wins :: bool
  defender_damage :: int
  attacker_damage :: int
  delivers_trauma :: bool
  trauma_die :: string
  trauma_rating :: int

definition resolve_ramming :: "int \<Rightarrow> int \<Rightarrow> int \<Rightarrow> int \<Rightarrow> ramming_result" where
  "resolve_ramming attacker_total defender_total attacker_max_hp defender_max_hp =
     (if attacker_total > defender_total
      then \<lparr>attacker_wins = True, defender_damage = attacker_max_hp, attacker_damage = attacker_max_hp,
            delivers_trauma = True, trauma_die = RAM_TRAUMA_DIE, trauma_rating = RAM_TRAUMA_RATING\<rparr>
      else \<lparr>attacker_wins = False, defender_damage = 0, attacker_damage = 0,
            delivers_trauma = False, trauma_die = RAM_TRAUMA_DIE, trauma_rating = RAM_TRAUMA_RATING\<rparr>)"

section \<open>The pools meet the delta contract\<close>

definition rig_well :: "rig_composure_pool \<Rightarrow> bool" where
  "rig_well p \<longleftrightarrow> rig_check_bounds p = Inr p"

definition hull_well :: "war_rig_hull \<Rightarrow> bool" where
  "hull_well h \<longleftrightarrow> hull_check_bounds h = Inr h"

definition rig_next :: "int \<Rightarrow> rig_composure_pool \<Rightarrow> rig_composure_pool" where
  "rig_next d p = fst (snd (rig_apply_delta d p))"

definition hull_next :: "int \<Rightarrow> war_rig_hull \<Rightarrow> war_rig_hull" where
  "hull_next d h = fst (snd (hull_apply_delta d h))"

interpretation rig: bounded_pool rig_current rig_max rig_next rig_well
  by unfold_locales
    (auto simp: rig_next_def rig_apply_delta_def rig_well_def rig_check_bounds_def Let_def split: if_splits)

interpretation hull: bounded_pool hull_current hull_max hull_next hull_well
  by unfold_locales
    (auto simp: hull_next_def hull_apply_delta_def hull_well_def hull_check_bounds_def Let_def split: if_splits)

lemma rig_zero_crossed: "zero_crossed (fst (rig_apply_delta d p)) \<longleftrightarrow> rig.crosses d p"
  by (simp add: rig.crosses_def rig_next_def rig_apply_delta_def Let_def)

lemma hull_zero_crossed: "zero_crossed (fst (hull_apply_delta d h)) \<longleftrightarrow> hull.crosses d h"
  by (simp add: hull.crosses_def hull_next_def hull_apply_delta_def Let_def)

lemma realized_damage_bounds:
  "0 \<le> armor \<Longrightarrow> 0 \<le> amount \<Longrightarrow> 0 \<le> realized_damage amount armor \<and> realized_damage amount armor \<le> amount"
  by (auto simp: realized_damage_def)

section \<open>The crash saves\<close>

lemmas crash_texts = INJURY_STATUS_TEXT_def DISMOUNTED_STATUS_TEXT_def MAJOR_INJURY_STATUS_TEXT_def

definition failed_saves :: "bool \<Rightarrow> bool \<Rightarrow> int" where
  "failed_saves physical luck = of_bool (\<not> physical) + of_bool (\<not> luck)"

lemma resolve_crash_saves_hp:
  "hp (snd (resolve_crash_saves ph lk core)) =
     (if ph \<and> lk then hp core else hp_apply_delta (- (hp_max (hp core) div 2) * failed_saves ph lk) (hp core))"
  by (auto simp: resolve_crash_saves_def failed_saves_def Let_def)

lemma resolve_crash_saves_rig [simp]: "rig_pool (snd (resolve_crash_saves ph lk core)) = rig_pool core"
  by (simp add: resolve_crash_saves_def Let_def)

lemma resolve_crash_saves_statuses:
  "statuses (snd (resolve_crash_saves ph lk core)) =
     statuses core @ (if \<not> ph \<and> \<not> lk then [new_status MAJOR_INJURY_STATUS_TEXT Scar] else [])"
  by (simp add: resolve_crash_saves_def Let_def)

lemma has_status_append [simp]:
  "has_status t (append_status s core) \<longleftrightarrow> has_status t core \<or> status_text s = t"
  by (auto simp: has_status_def)

lemma status_text_new [simp]: "status_text (new_status t sev) = t"
  by (simp add: new_status_def)

section \<open>A rig crashes at most once\<close>

text \<open>What every operation on a rig keeps: a dismounted rider stays dismounted.\<close>

lemma handle_rig_crash_dismounts:
  "handle_rig_crash saves core = (Some r, core', spans) \<Longrightarrow> \<not> already_dismounted core \<and> already_dismounted core'"
  by (auto simp: handle_rig_crash_def already_dismounted_def Let_def split: option.splits if_splits prod.splits)

lemma handle_rig_crash_keeps:
  "handle_rig_crash saves core = (None, core', spans) \<Longrightarrow> core' = core \<and> spans = []"
  by (auto simp: handle_rig_crash_def Let_def split: option.splits if_splits prod.splits)

lemma apply_rig_damage_statuses:
  assumes "apply_rig_damage amount armor saves core = Inr (res, core', spans)"
  shows "already_dismounted core \<Longrightarrow> already_dismounted core' \<and> (\<forall>r. res = Some r \<longrightarrow> crash r = None)"
    and "\<exists>r. res = Some r \<and> crash r \<noteq> None \<Longrightarrow> already_dismounted core'"
proof -
  have same: "already_dismounted (core\<lparr>rig_pool := p\<rparr>) \<longleftrightarrow> already_dismounted core" for p
    by (simp add: already_dismounted_def has_status_def)
  show "already_dismounted core \<Longrightarrow> already_dismounted core' \<and> (\<forall>r. res = Some r \<longrightarrow> crash r = None)"
    using assms unfolding apply_rig_damage_def Let_def
    by (auto simp: same split: if_splits option.splits prod.splits dest: handle_rig_crash_keeps)
      (auto simp: handle_rig_crash_def already_dismounted_def has_status_def split: option.splits if_splits)
  show "\<exists>r. res = Some r \<and> crash r \<noteq> None \<Longrightarrow> already_dismounted core'"
    using assms unfolding apply_rig_damage_def Let_def
    by (auto split: if_splits option.splits prod.splits dest: handle_rig_crash_dismounts)
qed

text \<open>A history of a driver: hits on the rig and repairs of its pool, in any order.\<close>

datatype rig_event = Hit int int "(bool \<times> bool) option" | Repair int

fun rig_history :: "rig_event list \<Rightarrow> ('i, 'm) creature_core_scheme \<Rightarrow> (nat \<times> ('i, 'm) creature_core_scheme) res" where
  "rig_history [] core = Inr (0, core)"
| "rig_history (Hit amount armor saves # es) core =
     rbind (apply_rig_damage amount armor saves core) (\<lambda>(res, core', _).
     rbind (rig_history es core') (\<lambda>(n, core'').
       Inr ((case res of Some r \<Rightarrow> (if crash r = None then n else n + 1) | None \<Rightarrow> n), core'')))"
| "rig_history (Repair d # es) core =
     rig_history es (core\<lparr>rig_pool := map_option (rig_next d) (rig_pool core)\<rparr>)"

lemma rig_history_crashes:
  "rig_history es core = Inr (n, core') \<Longrightarrow> n \<le> (if already_dismounted core then 0 else 1)"
proof (induction es core arbitrary: n core' rule: rig_history.induct)
  case (1 core)
  then show ?case by simp
next
  case (2 amount armor saves es core)
  from "2.prems" obtain res core1 spans m core2 where
      hit: "apply_rig_damage amount armor saves core = Inr (res, core1, spans)"
      and rest: "rig_history es core1 = Inr (m, core2)"
      and n: "n = (case res of Some r \<Rightarrow> (if crash r = None then m else m + 1) | None \<Rightarrow> m)"
    by (auto simp: rbind_Inr_iff)
  have m: "m \<le> (if already_dismounted core1 then 0 else 1)" using "2.IH"[OF hit refl refl rest] .
  show ?case
    using m n apply_rig_damage_statuses[OF hit] by (auto split: if_splits option.splits)
next
  case (3 d es core)
  have "already_dismounted (core\<lparr>rig_pool := map_option (rig_next d) (rig_pool core)\<rparr>) \<longleftrightarrow> already_dismounted core"
    by (simp add: already_dismounted_def has_status_def)
  with 3 show ?case by simp
qed

section \<open>The crash fan-out\<close>

lemma crash_occupant_marks:
  "has_status INJURY_STATUS_TEXT (fst (crash_occupant v saves occ)) \<and>
   has_status DISMOUNTED_STATUS_TEXT (fst (crash_occupant v saves occ))"
  by (simp add: crash_occupant_def Let_def)

lemma crash_occupant_hp:
  "hp (fst (crash_occupant v saves occ)) =
     (case saves of None \<Rightarrow> hp occ | Some (ph, lk) \<Rightarrow> hp (snd (resolve_crash_saves ph lk occ)))"
  by (auto simp: crash_occupant_def Let_def split: option.splits prod.splits)

end
