(* ===== verification/Rig_Properties.thy ===== *)
theory Rig_Properties
  imports Rigs
begin

text \<open>The properties of the bounded pools, the rig crash, the shared hull and the command layer.\<close>

definition ex_core :: "int \<Rightarrow> int \<Rightarrow> unit creature_core" where
  "ex_core h r = \<lparr>core_name = ''Max'', description = ''a driver'', personality = ''terse'', level = 1, xp = 0,
     core_inventory = \<lparr>items = [], gold = 0\<rparr>, statuses = [], hp = hp_pool_from_hp h, system_strain = None,
     effort = [], spellcasting = None, armor_class = 10, move = None, trauma_target_mod = 0,
     rig_pool = Some \<lparr>rig_current = r, rig_max = r, rig_base_max = r, character_id = ''max'', chassis_id = ''v8''\<rparr>,
     acquired_advancements = []\<rparr>"

definition ex_hull :: war_rig_hull where
  "ex_hull = \<lparr>hull_current = 3, hull_max = 6, hull_base_max = 6, vessel_id = ''rig''\<rparr>"

lemma ex_hull_well: "hull_well ex_hull"
  by (simp add: hull_well_def hull_check_bounds_def ex_hull_def blank_def is_space_def)

text \<open>
  A driver's rig crashes at most once: in any sequence of hits and repairs, with any damage, armor
  and save outcomes, at most one hit reports a crash.
\<close>

theorem rig_crashes_at_most_once:
  assumes "rig_history es core = Inr (n, core')"
  shows "n \<le> 1"
  using rig_history_crashes[OF assms] by (simp split: if_splits)

theorem rig_crashes_at_most_once_witness:
  "\<exists>n core'. rig_history [Hit 5 1 (Some (False, True)), Repair 4, Hit 9 0 None] (ex_core 7 4) = Inr (n, core') \<and> n = 1 \<and> n \<le> 1"
proof -
  have "(case rig_history [Hit 5 1 (Some (False, True)), Repair 4, Hit 9 0 None] (ex_core 7 4) of
      Inl _ \<Rightarrow> False | Inr (n, _) \<Rightarrow> n = 1)" by code_simp
  then obtain core' where h: "rig_history [Hit 5 1 (Some (False, True)), Repair 4, Hit 9 0 None] (ex_core 7 4) = Inr (1, core')"
    by (auto split: sum.splits)
  with rig_crashes_at_most_once[OF h] show ?thesis by blast
qed

text \<open>
  The downward crossing to zero is edge-triggered: in a run of hits on a rig's composure pool, the
  number of calls that report \<open>zero_crossed\<close> is one if the run takes the pool from positive to empty,
  and zero otherwise; and the pool ends at what its damage leaves, floored at zero.
\<close>

theorem rig_zero_crossing_fires_once:
  assumes "rig_well p" "\<forall>d \<in> set ds. d \<le> 0"
  shows "rig.crossings ds p = (if 0 < rig_current p \<and> rig_current (rig.app_run ds p) = 0 then 1 else 0) \<and>
     rig_current (rig.app_run ds p) = max 0 (rig_current p + sum_list ds)"
  using rig.crossings_damage[OF assms] rig.run_damage[OF assms] by auto

theorem rig_zero_crossing_fires_once_witness:
  "rig.crossings [-2, -3, -1] \<lparr>rig_current = 4, rig_max = 6, rig_base_max = 6, character_id = ''max'', chassis_id = ''v8''\<rparr> = 1"
proof -
  let ?p = "\<lparr>rig_current = 4, rig_max = 6, rig_base_max = 6, character_id = ''max'', chassis_id = ''v8''\<rparr>"
  have w: "rig_well ?p" by (simp add: rig_well_def rig_check_bounds_def blank_def is_space_def)
  have d: "\<forall>d \<in> set [-2, -3, -1 :: int]. d \<le> 0" by simp
  show ?thesis
    using rig_zero_crossing_fires_once[OF w d] by simp
qed

text \<open>
  Damage to the shared hull. With legal arguments the call returns; the hull loses the
  armor-reduced damage (at least one point for a connecting hit), floored at zero; the crash fans out
  exactly when this hit takes the hull from positive to zero; then every occupant, and no one else, is
  marked injured and dismounted and pays the crash saves from their own hit points, and otherwise no
  occupant changes.
\<close>

theorem hull_damage_fans_out:
  assumes "hull_well h" "0 \<le> amount" "0 \<le> armor"
  shows "\<exists>res h' occs' spans.
     apply_war_rig_hull_damage amount armor saves h occs = Inr (res, h', occs', spans) \<and>
     hull_well h' \<and> hull_current h' = max 0 (hull_current h - (if amount = 0 then 0 else max 1 (amount - armor))) \<and>
     crashed res = (0 < hull_current h \<and> hull_current h' = 0) \<and>
     (if crashed res
      then occupants_crashed res = length occs \<and>
        list_all2 (\<lambda>o' occ. has_status INJURY_STATUS_TEXT o' \<and> has_status DISMOUNTED_STATUS_TEXT o' \<and>
          hp o' = (case saves of None \<Rightarrow> hp occ | Some (ph, lk) \<Rightarrow> hp (snd (resolve_crash_saves ph lk occ)))) occs' occs
      else occupants_crashed res = 0 \<and> occs' = occs)"
proof -
  let ?d = "- realized_damage amount armor"
  obtain r h' sp where d: "hull_apply_delta ?d h = (r, h', sp)" by (cases "hull_apply_delta ?d h") auto
  have h': "h' = hull_next ?d h" by (simp add: hull_next_def d)
  have z: "zero_crossed r = (0 < hull_current h \<and> hull_current h' = 0)"
    using hull_zero_crossed[of ?d h] by (simp add: d hull.crosses_def h')
  have "hull_current h' = max 0 (hull_current h - realized_damage amount armor)"
    using hull.well_bounds[OF assms(1)] assms(2,3) realized_damage_bounds[of armor amount]
    by (simp add: h' hull.cur_app)
  moreover have "hull_well h'" unfolding h' by (rule hull.well_app[OF assms(1)])
  moreover have "realized_damage amount armor = (if amount = 0 then 0 else max 1 (amount - armor))"
    using assms(2) by (auto simp: realized_damage_def)
  moreover let ?outs = "if zero_crossed r then map (crash_occupant (vessel_id h) saves) occs else []"
  have "apply_war_rig_hull_damage amount armor saves h occs =
      Inr (\<lparr>hull_pool_result = r, crashed = zero_crossed r, occupants_crashed = length ?outs\<rparr>, h',
           if zero_crossed r then map fst ?outs else occs, sp @ map snd ?outs)"
    using assms(2,3) by (simp add: apply_war_rig_hull_damage_def d Let_def)
  moreover have "list_all2 (\<lambda>o' occ. has_status INJURY_STATUS_TEXT o' \<and> has_status DISMOUNTED_STATUS_TEXT o' \<and>
          hp o' = (case saves of None \<Rightarrow> hp occ | Some (ph, lk) \<Rightarrow> hp (snd (resolve_crash_saves ph lk occ))))
      (map fst (map (crash_occupant (vessel_id h) saves) occs)) occs"
    by (simp add: list_all2_conv_all_nth crash_occupant_marks crash_occupant_hp)
  ultimately show ?thesis using z by (cases "zero_crossed r") fastforce+
qed

theorem hull_damage_fans_out_witness:
  "\<exists>res h' occs' spans. apply_war_rig_hull_damage 5 1 (Some (False, False)) ex_hull [ex_core 9 2, ex_core 4 2] =
      Inr (res, h', occs', spans) \<and> hull_current h' = 0 \<and> occupants_crashed res = 2"
  using hull_damage_fans_out[OF ex_hull_well, of 5 1 "Some (False, False)" "[ex_core 9 2, ex_core 4 2]"]
  by (auto simp: ex_hull_def)

text \<open>
  The price of the crash saves: the driver ends at their hit points less half their maximum for
  each failed save, floored at zero, and within the pool's bounds. A driver at full health who fails
  both saves is flagged mortal and keeps exactly the parity of the maximum: one hit point when it is
  odd.
\<close>

theorem crash_saves_price:
  assumes "hp_well (hp core)" "resolve_crash_saves ph lk core = (r, core')"
  shows "hp_current (hp core') = max 0 (hp_current (hp core) - (hp_max (hp core) div 2) * failed_saves ph lk) \<and>
    hp_well (hp core') \<and>
    (\<not> ph \<and> \<not> lk \<and> hp_current (hp core) = hp_max (hp core) \<longrightarrow>
      mortal r \<and> hp_current (hp core') = hp_max (hp core) mod 2)"
proof -
  have c': "core' = snd (resolve_crash_saves ph lk core)" using assms(2) by simp
  let ?m = "hp_max (hp core)" and ?x = "hp_current (hp core)"
  have b: "0 \<le> ?x" "?x \<le> ?m" using assms(1) by (auto simp: hp_well_def)
  have f: "0 \<le> failed_saves ph lk" "failed_saves ph lk = 0 \<longleftrightarrow> ph \<and> lk" by (auto simp: failed_saves_def)
  let ?y = "(?m div 2) * failed_saves ph lk"
  have y: "0 \<le> ?y" "ph \<and> lk \<Longrightarrow> ?y = 0" using b f by auto
  have "hp_current (hp core') = (if ph \<and> lk then ?x else max 0 (min ?m (?x - ?y)))"
    unfolding c' resolve_crash_saves_hp by (simp add: hp.cur_app)
  moreover have "min ?m (?x - ?y) = ?x - ?y" using b y by linarith
  ultimately have price: "hp_current (hp core') = max 0 (?x - ?y)" using b y(2) by (cases "ph \<and> lk") auto
  have well: "hp_well (hp core')"
    unfolding c' resolve_crash_saves_hp using assms(1) hp.well_app by simp
  have "mortal r \<and> hp_current (hp core') = ?m mod 2" if both: "\<not> ph \<and> \<not> lk \<and> ?x = ?m"
  proof
    show "mortal r" using assms(2) both by (auto simp: resolve_crash_saves_def Let_def)
    have "?m - (?m div 2) * 2 = ?m mod 2" by (simp add: minus_div_mult_eq_mod)
    moreover have "0 \<le> ?m mod 2" by simp
    ultimately show "hp_current (hp core') = ?m mod 2" using price both by (simp add: failed_saves_def)
  qed
  with price well show ?thesis by blast
qed

theorem crash_saves_price_witness:
  "hp_current (hp (snd (resolve_crash_saves False False (ex_core 9 2)))) = 1 \<and>
   mortal (fst (resolve_crash_saves False False (ex_core 9 2)))"
proof -
  obtain r c where rc: "resolve_crash_saves False False (ex_core 9 2) = (r, c)" by fastforce
  have w: "hp_well (hp (ex_core 9 2))" by (simp add: ex_core_def hp_pool_from_hp_well)
  have "hp_current (hp (ex_core 9 2)) = 9" "hp_max (hp (ex_core 9 2)) = 9"
    by (simp_all add: ex_core_def hp_pool_from_hp_def)
  then show ?thesis using crash_saves_price[OF w rc] rc by simp
qed

text \<open>
  Spending command points. From a pool within its bounds, a spend either raises and leaves the pool
  as it was, or takes exactly the action's cost (nothing for Do Your Duty, one point for the other
  two) and grants a bonus of one to six for Above and Beyond and none otherwise; the pool stays within
  its bounds.
\<close>

theorem spend_command_points_exact:
  assumes "cp_check_bounds pool = Inr pool" "spend_command_points act (pool, tape) = (r, (pool', tape'))"
  shows "cp_check_bounds pool' = Inr pool' \<and>
     (case r of
        Inl e \<Rightarrow> pool' = pool \<and> (act \<notin> fst ` set CP_ACTION_COSTS \<or> cp_current pool < 1)
      | Inr res \<Rightarrow> cp_current pool' = cp_current pool - cost res \<and> map_of CP_ACTION_COSTS act = Some (cost res) \<and>
          (if act = CP_ABOVE_AND_BEYOND then 1 \<le> bonus res \<and> bonus res \<le> 6 else bonus res = 0))"
proof -
  have rr: "\<exists>x. fst (randint 1 6 tape) = Inr x \<and> 1 \<le> x \<and> x \<le> 6"
    using ok_result[OF randint_ok[of 1 6], of tape] by auto
  have cs: "c = 0 \<or> c = 1" if "map_of CP_ACTION_COSTS act = Some c" for c
    using that by (auto simp: CP_ACTION_COSTS_def split: if_splits)
  have no: "act \<notin> fst ` set CP_ACTION_COSTS" if "map_of CP_ACTION_COSTS act = None"
    using that by (simp add: map_of_eq_None_iff)
  show ?thesis
  proof (cases "map_of CP_ACTION_COSTS act")
    case None
    then show ?thesis using assms no by (auto simp: spend_command_points_def)
  next
    case (Some c)
    obtain x t1 where x: "randint 1 6 tape = (Inr x, t1)" "1 \<le> x" "x \<le> 6"
      using rr by (metis prod.collapse)
    show ?thesis
      using assms Some cs[OF Some] x
      by (auto simp: spend_command_points_def cp_check_bounds_def Let_def split: if_splits)
  qed
qed

theorem spend_command_points_exact_witness:
  "\<exists>r pool' tape'. spend_command_points CP_ABOVE_AND_BEYOND (\<lparr>cp_current = 2, cp_max = 4, cp_vessel_id = ''rig''\<rparr>, [4]) =
     (r, (pool', tape')) \<and> cp_check_bounds pool' = Inr pool'"
proof -
  have b: "cp_check_bounds \<lparr>cp_current = 2, cp_max = 4, cp_vessel_id = ''rig''\<rparr> = Inr \<lparr>cp_current = 2, cp_max = 4, cp_vessel_id = ''rig''\<rparr>"
    by (simp add: cp_check_bounds_def blank_def is_space_def)
  obtain r p' t' where s: "spend_command_points CP_ABOVE_AND_BEYOND (\<lparr>cp_current = 2, cp_max = 4, cp_vessel_id = ''rig''\<rparr>, [4]) = (r, (p', t'))"
    by (cases "spend_command_points CP_ABOVE_AND_BEYOND (\<lparr>cp_current = 2, cp_max = 4, cp_vessel_id = ''rig''\<rparr>, [4])") auto
  with spend_command_points_exact[OF b s] show ?thesis by blast
qed

text \<open>
  A crisis attempt reports the nominal penalty, not the realized one: when a continuing crisis is
  failed the reported \<open>hull_delta\<close> is the entry's penalty, while the hull itself loses at most what it
  has left and stays within its bounds; a success or an acute crisis touches nothing.
\<close>

theorem crisis_attempt_effect:
  assumes "hull_well h" "0 \<le> hull_penalty entry" "deal_with_crisis entry m (Some h, tape) = (r, (h', tape'))"
  shows "\<exists>res g. r = Inr res \<and> h' = Some g \<and> hull_well g \<and>
     (if escalated res then crisis_kind entry = Continuing \<and> total res < dc entry \<and>
        hull_delta res = - hull_penalty entry \<and> hull_current h - hull_current g = min (hull_penalty entry) (hull_current h)
      else g = h \<and> hull_delta res = 0)"
proof -
  obtain x t1 where x: "randint 1 10 tape = (Inr x, t1)"
    using ok_result[OF randint_ok[of 1 10], of tape] by (metis prod.collapse numeral_eq_one_iff one_le_numeral)
  let ?g = "fst (snd (hull_apply_delta (- hull_penalty entry) h))"
  have loss: "hull_current h - hull_current ?g = min (hull_penalty entry) (hull_current h)" and well: "hull_well ?g"
    using hull.realized_loss[OF assms(1,2)] hull.well_app[OF assms(1)] unfolding hull_next_def by blast+
  show ?thesis
  proof (cases "dc entry \<le> x + m \<or> crisis_kind entry = Acute")
    case True
    then show ?thesis using assms(1,3) x by (auto simp: deal_with_crisis_def Let_def)
  next
    case False
    then have "crisis_kind entry = Continuing" by (cases "crisis_kind entry") auto
    with False x have "deal_with_crisis entry m (Some h, tape) =
        (Inr \<lparr>res_crisis_id = crisis_id entry, success = False, roll = x, total = x + m, escalated = True,
              hull_delta = - hull_penalty entry\<rparr>, (Some ?g, t1))"
      by (simp add: deal_with_crisis_def Let_def)
    with assms(3) have r: "r = Inr \<lparr>res_crisis_id = crisis_id entry, success = False, roll = x, total = x + m,
        escalated = True, hull_delta = - hull_penalty entry\<rparr>" and h': "h' = Some ?g" by simp_all
    from loss well False \<open>crisis_kind entry = Continuing\<close> show ?thesis unfolding r h' by simp
  qed
qed

theorem crisis_attempt_effect_witness:
  "\<exists>res g t. deal_with_crisis (crisis ''rollover_threat'' Continuing 13 3) 0 (Some (ex_hull\<lparr>hull_current := 1\<rparr>), [0]) =
     (Inr res, (Some g, t)) \<and> hull_delta res = -3 \<and> hull_current g = 0"
proof -
  have w: "hull_well (ex_hull\<lparr>hull_current := 1\<rparr>)"
    by (simp add: hull_well_def hull_check_bounds_def ex_hull_def blank_def is_space_def)
  obtain r h' t where d: "deal_with_crisis (crisis ''rollover_threat'' Continuing 13 3) 0 (Some (ex_hull\<lparr>hull_current := 1\<rparr>), [0]) = (r, (h', t))"
    by (cases "deal_with_crisis (crisis ''rollover_threat'' Continuing 13 3) 0 (Some (ex_hull\<lparr>hull_current := 1\<rparr>), [0])") auto
  have "case fst (deal_with_crisis (crisis ''rollover_threat'' Continuing 13 3) 0 (Some (ex_hull\<lparr>hull_current := 1\<rparr>), [0])) of
      Inl _ \<Rightarrow> False | Inr res \<Rightarrow> escalated res" by code_simp
  then have e: "\<exists>res. r = Inr res \<and> escalated res" unfolding d by (cases r) auto
  from crisis_attempt_effect[OF w _ d] e d show ?thesis by (auto simp: crisis_def)
qed

end
