(* ===== verification/Float64.thy ===== *)
theory Float64
  imports Prelude "HOL-Library.Log_Nat"
begin

text \<open>
  Python floats. A float is the exact rational value of its IEEE 754 binary64 number; every
  operation computes exactly and rounds to the nearest binary64 number, ties to even, with \<open>rnd\<close>.
  \<open>rnd\<close> is concrete: it finds the binade of its argument, scales to a 53-bit integer significand and
  rounds that. Overflow to infinity and NaN do not arise from the bounded quantities modelled here
  and are left out. The facts the components use are monotonicity, exactness on representable
  numbers and the error bound of one rounding.
\<close>

section \<open>Rounding to an integer, half to even\<close>

definition rhe :: "rat \<Rightarrow> int" where
  "rhe x = (let f = \<lfloor>x\<rfloor>; d = x - of_int f in
     if d < 1 / 2 then f else if d > 1 / 2 then f + 1 else if even f then f else f + 1)"

lemma rhe_int [simp]: "rhe (of_int n) = n"
  by (simp add: rhe_def)

lemma rhe_bounds: "\<lfloor>x\<rfloor> \<le> rhe x" "rhe x \<le> \<lfloor>x\<rfloor> + 1"
  by (auto simp: rhe_def Let_def)

lemma rhe_error: "\<bar>of_int (rhe x) - x\<bar> \<le> 1 / 2"
  using of_int_floor_le[of x] floor_correct[of x] unfolding rhe_def Let_def by (auto simp: abs_le_iff)

lemma rhe_mono: "x \<le> y \<Longrightarrow> rhe x \<le> rhe y"
proof (cases "\<lfloor>x\<rfloor> = \<lfloor>y\<rfloor>")
  case True
  assume "x \<le> y"
  with True show ?thesis by (auto simp: rhe_def Let_def)
next
  case False
  assume "x \<le> y"
  then have "\<lfloor>x\<rfloor> \<le> \<lfloor>y\<rfloor>" by (rule floor_mono)
  with False have "\<lfloor>x\<rfloor> + 1 \<le> \<lfloor>y\<rfloor>" by simp
  with rhe_bounds(2)[of x] rhe_bounds(1)[of y] show ?thesis by linarith
qed

lemma rhe_minus: "rhe (- x) = - rhe x"
proof (cases "x = of_int \<lfloor>x\<rfloor>")
  case True
  then show ?thesis by (metis of_int_minus rhe_int)
next
  case False
  then have "\<lfloor>- x\<rfloor> = - \<lfloor>x\<rfloor> - 1"
    by (metis ceiling_altdef ceiling_def diff_conv_add_uminus minus_add_distrib minus_minus uminus_add_conv_diff add.commute)
  then show ?thesis by (auto simp: rhe_def Let_def)
qed

section \<open>The binade of a positive number\<close>

definition flog2 :: "rat \<Rightarrow> int" where
  "flog2 x = (let (a, b) = quotient_of x; e = int (floorlog 2 (nat a)) - int (floorlog 2 (nat b))
              in if 2 powi e \<le> x then e else e - 1)"

lemma floorlog_2_bounds:
  assumes "0 < n" shows "2 ^ (floorlog 2 n - 1) \<le> n" "n < 2 ^ floorlog 2 n"
  using assms floorlog_bounds[of n 2] by auto

lemma flog2_correct:
  assumes "0 < x"
  shows "2 powi flog2 x \<le> x" "x < 2 powi (flog2 x + 1)"
proof -
  obtain a b where q: "quotient_of x = (a, b)" by fastforce
  have b: "0 < b" using quotient_of_denom_pos[OF q] .
  have x: "x = of_int a / of_int b" using quotient_of_div[OF q] .
  have a: "0 < a" using assms b unfolding x by (simp add: zero_less_divide_iff)
  let ?i = "floorlog 2 (nat a)" and ?j = "floorlog 2 (nat b)"
  let ?e = "int ?i - int ?j"
  have i: "0 < ?i" and j: "0 < ?j" using a b by (simp_all add: floorlog_def)
  have "2 ^ (?i - 1) \<le> nat a" "nat a < 2 ^ ?i" "2 ^ (?j - 1) \<le> nat b" "nat b < 2 ^ ?j"
    using floorlog_2_bounds[of "nat a"] floorlog_2_bounds[of "nat b"] a b by auto
  then have "2 ^ (?i - 1) \<le> a" "a < 2 ^ ?i" "2 ^ (?j - 1) \<le> b" "b < 2 ^ ?j"
    using a b by (simp_all add: le_nat_iff nat_less_iff)
  then have R: "2 ^ (?i - 1) \<le> (of_int a :: rat)" "(of_int a :: rat) < 2 ^ ?i"
      "2 ^ (?j - 1) \<le> (of_int b :: rat)" "(of_int b :: rat) < 2 ^ ?j"
    by (metis of_int_le_iff of_int_less_iff of_int_numeral of_int_power)+
  have up: "x < 2 powi (?e + 1)"
  proof -
    have "x \<le> of_int a / 2 ^ (?j - 1)" unfolding x using R(3) a b by (intro divide_left_mono) auto
    also have "\<dots> < 2 ^ ?i / 2 ^ (?j - 1)" using R(2) by (simp add: divide_strict_right_mono)
    also have "\<dots> = 2 powi (int ?i - int (?j - 1))" by (simp add: power_int_diff)
    finally show ?thesis using j by (simp add: of_nat_diff algebra_simps)
  qed
  have low: "2 powi (?e - 1) \<le> x"
  proof -
    have "?e - 1 = int (?i - 1) - int ?j" using i by linarith
    moreover have "(2::rat) powi (int p - int q) = 2 ^ p / 2 ^ q" for p q by (simp add: power_int_diff)
    ultimately have "(2::rat) powi (?e - 1) = 2 ^ (?i - 1) / 2 ^ ?j" by metis
    also have "\<dots> \<le> of_int a / 2 ^ ?j" using R(1) by (simp add: divide_right_mono)
    also have "\<dots> \<le> x" unfolding x using R(4) a b by (intro divide_left_mono) auto
    finally show ?thesis .
  qed
  show "2 powi flog2 x \<le> x" "x < 2 powi (flog2 x + 1)"
    using up low by (auto simp: flog2_def q Let_def)
qed

lemma flog2_less_iff: "0 < x \<Longrightarrow> x < 2 powi k \<longleftrightarrow> flog2 x < k"
proof
  assume "0 < x" "x < 2 powi k"
  show "flog2 x < k"
  proof (rule ccontr)
    assume "\<not> flog2 x < k"
    then have "(2::rat) powi k \<le> 2 powi flog2 x" by (intro power_int_increasing) auto
    with \<open>x < 2 powi k\<close> flog2_correct(1)[OF \<open>0 < x\<close>] show False by linarith
  qed
next
  assume "0 < x" "flog2 x < k"
  then have "(2::rat) powi (flog2 x + 1) \<le> 2 powi k" by (intro power_int_increasing) auto
  then show "x < 2 powi k" using flog2_correct(2)[OF \<open>0 < x\<close>] by linarith
qed

lemma flog2_mono: "0 < x \<Longrightarrow> x \<le> y \<Longrightarrow> flog2 x \<le> flog2 y"
  using flog2_less_iff[of x "flog2 y + 1"] flog2_correct(2)[of y] by auto

section \<open>Rounding to binary64\<close>

definition fexp :: "rat \<Rightarrow> int" where
  "fexp x = max (-1074) (flog2 x - 52)"

definition rnd :: "rat \<Rightarrow> rat" where
  "rnd x = (if x = 0 then 0 else let e = fexp \<bar>x\<bar> in of_int (rhe (x / 2 powi e)) * 2 powi e)"

lemma rnd_0 [simp]: "rnd 0 = 0"
  by (simp add: rnd_def)

lemma rnd_minus: "rnd (- x) = - rnd x"
  by (simp add: rnd_def Let_def rhe_minus)

lemma powi_quotient: "k \<le> e \<Longrightarrow> (2::rat) powi e = of_int (2 ^ nat (e - k)) * 2 powi k"
proof -
  assume "k \<le> e"
  then have "(2::rat) powi e = 2 powi (e - k) * 2 powi k" by (simp add: power_int_add[symmetric])
  with \<open>k \<le> e\<close> show ?thesis by (simp add: power_int_def[of _ "e - k"])
qed

lemma rnd_pos_eq: "0 < x \<Longrightarrow> rnd x = of_int (rhe (x / 2 powi fexp x)) * 2 powi fexp x"
  by (simp add: rnd_def Let_def)

lemma rhe_le_scaled: "x \<le> of_int n * 2 powi e \<Longrightarrow> of_int (rhe (x / 2 powi e)) * 2 powi e \<le> (of_int n * 2 powi e :: rat)"
proof -
  assume "x \<le> of_int n * 2 powi e"
  then have "x / 2 powi e \<le> of_int n" by (simp add: divide_le_eq)
  then have "rhe (x / 2 powi e) \<le> n" using rhe_mono by (metis rhe_int)
  then show ?thesis by (intro mult_right_mono) auto
qed

lemma rhe_ge_scaled: "of_int n * 2 powi e \<le> x \<Longrightarrow> (of_int n * 2 powi e :: rat) \<le> of_int (rhe (x / 2 powi e)) * 2 powi e"
proof -
  assume "of_int n * 2 powi e \<le> x"
  then have "of_int n \<le> x / 2 powi e" by (simp add: le_divide_eq)
  then have "n \<le> rhe (x / 2 powi e)" using rhe_mono by (metis rhe_int)
  then show ?thesis by (intro mult_right_mono) auto
qed

lemma rnd_mono_pos:
  assumes "0 < x" "x \<le> y"
  shows "rnd x \<le> rnd y"
proof -
  have y: "0 < y" using assms by linarith
  have "fexp x \<le> fexp y" using flog2_mono[OF assms] by (auto simp: fexp_def)
  then consider "fexp x = fexp y" | "fexp x < fexp y" by linarith
  then show ?thesis
  proof cases
    case 1
    have "x / 2 powi fexp y \<le> y / 2 powi fexp y" using assms(2) by (simp add: divide_right_mono)
    then show ?thesis using rhe_mono y assms(1) 1 by (simp add: rnd_pos_eq)
  next
    case 2
    let ?k = "flog2 y"
    have k: "fexp y = ?k - 52" "flog2 x < ?k" "fexp x \<le> ?k" using 2 by (auto simp: fexp_def split: if_splits)
    have "x \<le> of_int (2 ^ nat (?k - fexp x)) * 2 powi fexp x"
      using flog2_less_iff[OF assms(1), of ?k] k(2) powi_quotient[OF k(3)] by simp
    then have "rnd x \<le> of_int (2 ^ nat (?k - fexp x)) * 2 powi fexp x"
      unfolding rnd_pos_eq[OF assms(1)] by (rule rhe_le_scaled)
    also have "\<dots> = 2 powi ?k" by (rule powi_quotient[OF k(3), symmetric])
    also have "\<dots> = of_int (2 ^ 52) * 2 powi fexp y" using powi_quotient[of "fexp y" ?k] k(1) by simp
    also have "\<dots> \<le> rnd y" unfolding rnd_pos_eq[OF y]
      by (rule rhe_ge_scaled) (use flog2_correct(1)[OF y] powi_quotient[of "fexp y" ?k] k(1) in simp)
    finally show ?thesis .
  qed
qed

lemma rnd_nonneg: "0 \<le> x \<Longrightarrow> 0 \<le> rnd x"
proof (cases "x = 0")
  case False
  assume "0 \<le> x"
  with False have x: "0 < x" by simp
  have "of_int 0 * 2 powi fexp x \<le> of_int (rhe (x / 2 powi fexp x)) * (2 powi fexp x :: rat)"
    by (rule rhe_ge_scaled) (use x in simp)
  then show ?thesis by (simp add: rnd_pos_eq[OF x])
qed simp

lemma rnd_mono: "x \<le> y \<Longrightarrow> rnd x \<le> rnd y"
proof -
  assume le: "x \<le> y"
  consider "0 < x" | "y < 0" | "x \<le> 0" "0 \<le> y" by linarith
  then show ?thesis
  proof cases
    case 1
    then show ?thesis using le by (rule rnd_mono_pos)
  next
    case 2
    have "rnd (- y) \<le> rnd (- x)" using 2 le by (intro rnd_mono_pos) auto
    then show ?thesis by (simp add: rnd_minus)
  next
    case 3
    have "0 \<le> rnd (- x)" using 3 by (intro rnd_nonneg) auto
    with 3(2) rnd_nonneg[of y] show ?thesis by (simp add: rnd_minus)
  qed
qed

text \<open>Exact on every number with a 53-bit significand.\<close>

lemma rnd_exact_pos:
  assumes x: "x = of_int m * 2 powi e" and m: "0 < m" "m \<le> 2 ^ 53" and e: "-1074 \<le> e"
  shows "rnd x = x"
proof -
  have pos: "0 < x" using x m(1) by simp
  have "\<exists>n. x = of_int n * 2 powi fexp x"
  proof (cases "fexp x \<le> e")
    case True
    have "x = of_int (m * 2 ^ nat (e - fexp x)) * 2 powi fexp x"
      by (subst x, subst powi_quotient[OF True]) simp
    then show ?thesis by blast
  next
    case False
    then have f: "fexp x = flog2 x - 52" "e < flog2 x - 52" using e by (auto simp: fexp_def split: if_splits)
    have "(of_int m :: rat) \<le> of_int (2 ^ 53)" using m(2) by (simp only: of_int_le_iff)
    then have "x \<le> of_int (2 ^ 53) * 2 powi e" unfolding x by (intro mult_right_mono) simp_all
    also have "\<dots> = 2 powi (e + 53)" using powi_quotient[of e "e + 53"] by simp
    finally have up: "x \<le> 2 powi (e + 53)" .
    have "(2::rat) powi (e + 53) \<le> 2 powi flog2 x" using f(2) by (intro power_int_increasing) auto
    with up flog2_correct(1)[OF pos] have "x = 2 powi flog2 x" by linarith
    also have "\<dots> = of_int (2 ^ 52) * 2 powi fexp x" using powi_quotient[of "fexp x" "flog2 x"] f(1) by simp
    finally show ?thesis by blast
  qed
  then obtain n where n: "x = of_int n * 2 powi fexp x" ..
  then have "x / 2 powi fexp x = of_int n" by (metis nonzero_mult_div_cancel_right power_int_not_zero zero_neq_numeral)
  then show ?thesis using n by (simp add: rnd_pos_eq[OF pos])
qed

lemma rnd_int: "\<bar>n\<bar> \<le> 2 ^ 53 \<Longrightarrow> rnd (of_int n) = of_int n"
proof -
  assume n: "\<bar>n\<bar> \<le> 2 ^ 53"
  consider "n = 0" | "0 < n" | "n < 0" by linarith
  then show ?thesis
  proof cases
    case 2
    then show ?thesis using rnd_exact_pos[of "of_int n" n 0] n by simp
  next
    case 3
    then have "rnd (of_int (- n)) = of_int (- n)" using rnd_exact_pos[of "of_int (- n)" "- n" 0] n by simp
    then show ?thesis using rnd_minus[of "of_int n"] by simp
  qed simp
qed

text \<open>Rounding twice is rounding once: a rounded number is a binary64 number.\<close>

lemma rnd_idem_pos: "0 < x \<Longrightarrow> rnd (rnd x) = rnd x"
proof -
  assume pos: "0 < x"
  define e where "e = fexp x"
  define m where "m = rhe (x / 2 powi e)"
  have r: "rnd x = of_int m * 2 powi e" unfolding m_def e_def by (rule rnd_pos_eq[OF pos])
  have e: "-1074 \<le> e" "flog2 x + 1 \<le> e + 53" by (auto simp: e_def fexp_def)
  have "x < 2 powi (flog2 x + 1)" by (rule flog2_correct(2)[OF pos])
  also have "\<dots> \<le> 2 powi (e + 53)" using e(2) by (intro power_int_increasing) auto
  also have "\<dots> = of_int (2 ^ 53) * 2 powi e" using powi_quotient[of e "e + 53"] by simp
  finally have "x / 2 powi e \<le> of_int (2 ^ 53)" by (simp add: divide_le_eq)
  then have up: "m \<le> 2 ^ 53" unfolding m_def using rhe_mono[of "x / 2 powi e" "of_int (2 ^ 53)"] by (simp only: rhe_int)
  have "0 \<le> m" unfolding m_def using rhe_mono[of 0 "x / 2 powi e"] rhe_int[of 0] pos by simp
  then show ?thesis using rnd_exact_pos[OF r _ up e(1)] by (cases "m = 0") (simp_all add: r)
qed

lemma rnd_idem [simp]: "rnd (rnd x) = rnd x"
proof -
  consider "x = 0" | "0 < x" | "0 < - x" by linarith
  then show ?thesis
  proof cases
    case 3
    then show ?thesis using rnd_idem_pos[OF 3] by (simp add: rnd_minus)
  qed (simp_all add: rnd_idem_pos)
qed

text \<open>One rounding moves a number below \<open>2 ^ k\<close> by at most \<open>2 ^ (k - 53) / 2\<close>.\<close>

lemma rnd_error_pos:
  assumes "0 < x" "x < 2 powi k" "-1021 \<le> k"
  shows "\<bar>rnd x - x\<bar> \<le> 2 powi (k - 53) / 2"
proof -
  let ?e = "fexp x"
  have "rnd x - x = (of_int (rhe (x / 2 powi ?e)) - x / 2 powi ?e) * 2 powi ?e"
    unfolding rnd_pos_eq[OF assms(1)] by (simp add: algebra_simps)
  then have "\<bar>rnd x - x\<bar> = \<bar>of_int (rhe (x / 2 powi ?e)) - x / 2 powi ?e\<bar> * 2 powi ?e"
    by (simp add: abs_mult)
  also have "\<dots> \<le> 1 / 2 * 2 powi ?e" using rhe_error by (intro mult_right_mono) auto
  also have "\<dots> \<le> 1 / 2 * 2 powi (k - 53)"
    using flog2_less_iff[OF assms(1), of k] assms(2,3) by (intro mult_left_mono power_int_increasing) (auto simp: fexp_def)
  finally show ?thesis by simp
qed

section \<open>Literals, rounding to decimals, random floats\<close>

text \<open>\<open>lit a b\<close> is the literal with value \<open>a / b\<close>; \<open>round_digits k x\<close> is \<open>round(x, k)\<close>, correctly rounded
  from the exact value; \<open>round(x)\<close> is \<open>rhe\<close>; \<open>int(x)\<close> truncates.\<close>

definition lit :: "int \<Rightarrow> int \<Rightarrow> rat" where
  "lit a b = rnd (of_int a / of_int b)"

definition round_digits :: "nat \<Rightarrow> rat \<Rightarrow> rat" where
  "round_digits k x = rnd (of_int (rhe (x * 10 ^ k)) / 10 ^ k)"

definition trunc :: "rat \<Rightarrow> int" where
  "trunc x = (if x < 0 then \<lceil>x\<rceil> else \<lfloor>x\<rfloor>)"

definition random_float :: "(rng, rat) sm" where
  "random_float = sbind draw (\<lambda>n. ret (of_nat (n mod 2 ^ 53) / 2 ^ 53))"

lemma random_float_ok: "ok random_float (\<lambda>x. 0 \<le> x \<and> x < 1)"
  unfolding random_float_def
  by (rule ok_sbind[OF draw_ok], rule ok_ret) (simp add: divide_less_eq flip: of_nat_power)

lemma round_digits_mono: "x \<le> y \<Longrightarrow> round_digits k x \<le> round_digits k y"
  unfolding round_digits_def
  by (intro rnd_mono divide_right_mono) (auto intro!: rhe_mono mult_right_mono)

lemma round_digits_int: "\<bar>n\<bar> \<le> 2 ^ 53 \<Longrightarrow> round_digits k (of_int n) = of_int n"
proof -
  have "rhe (of_int n * 10 ^ k) = n * 10 ^ k"
    using rhe_int[of "n * 10 ^ k"] by simp
  moreover assume "\<bar>n\<bar> \<le> 2 ^ 53"
  ultimately show ?thesis using rnd_int[of n] by (simp add: round_digits_def)
qed

end
