(* ===== verification/Table_Engine.thy ===== *)
theory Table_Engine
  imports Rigs Float64
begin

text \<open>
  The free-for-all N-seat table: its data (src/sidequest/game/table/types.py), the registry of game
  kinds (registry.py) and the decision-point engine (engine.py). The opaque \<open>private_state\<close> dictionary
  is a record of the keys the code reads and writes, each absent or present; \<open>shared_state\<close> holds the
  two pools the War Rig kind stows there. The engine is a state-and-exception computation, so what a
  decision point has changed before a raise stays visible. Telemetry spans of the table are left out.

  The interface \<open>lawful_game\<close> states what a game kind must respect for the engine to be correct; the
  engine's theorems are proved in it once, for every kind.
\<close>

section \<open>Data\<close>

datatype seat_status = Active | Folded | Out

record read_intel_entry =
  intel_target :: string
  intel_band :: "string option"
  intel_suspicious :: bool

record private_state =
  cards :: "string list option"
  strength_key :: "int option"
  strength_band :: "string option"
  cheat_trace :: "rat option"
  current_bid :: "int option"
  perception :: "int option"
  concealment :: "int option"
  valuation :: "int option"
  max_bid :: "int option"
  station :: "string option"
  read_intel :: "read_intel_entry list option"
  neuroticism :: "rat option"
  disposition :: "string option"

record table_seat =
  seat_id :: string
  party_name :: string
  is_pc :: bool
  seat_status :: seat_status
  private_state :: private_state

record table_pot =
  stake_kind :: string
  stake_descriptor :: string
  contributions :: "(string \<times> int) list"

record shared_pools =
  command_points :: "command_point_pool option"
  shared_hull :: "war_rig_hull option"

record table_state =
  game_kind :: string
  seats :: "table_seat list"
  table_pot :: table_pot
  order :: "string list"
  dealer_seat :: string
  decision_point :: int
  max_decision_points :: int
  resolved_winner :: "string option"
  shared_state :: shared_pools
  pending_accusations :: "(string \<times> string) list"

record table_commit =
  commit_seat :: string
  beat_id :: string
  amount :: int
  target_seat :: "string option"

record cheat_result =
  strength_before :: int
  strength_after :: int
  new_trace :: rat

record read_result =
  read_target :: string
  read_band :: string
  read_suspicious :: "bool option"

record table_outcome =
  showdown :: bool
  winner :: "string option"
  pot_awarded_to :: "string option"
  outcome_stake_kind :: "string option"
  outcome_stake :: "string option"
  narration_hint :: string
  forfeited_seats :: "string list"
  read_results :: "(string \<times> read_result) list"

definition find_seat :: "table_state \<Rightarrow> string \<Rightarrow> table_seat option" where
  "find_seat st sid = find (\<lambda>s. seat_id s = sid) (seats st)"

definition active_seat_ids :: "table_state \<Rightarrow> string list" where
  "active_seat_ids st =
     (let active = seat_id ` set (filter (\<lambda>s. seat_status s = Active) (seats st))
      in filter (\<lambda>sid. sid \<in> active) (order st))"

text \<open>Mutating the seat object that \<open>find_seat\<close> returns changes the first seat with that id.\<close>

fun update_seat :: "string \<Rightarrow> (table_seat \<Rightarrow> table_seat) \<Rightarrow> table_seat list \<Rightarrow> table_seat list" where
  "update_seat sid f [] = []"
| "update_seat sid f (s # ss) = (if seat_id s = sid then f s # ss else s # update_seat sid f ss)"

section \<open>Game kinds and their registry\<close>

record table_game =
  kind_name :: string
  g_deal :: "(table_seat list \<times> table_pot \<times> rng, unit) sm"
  g_strength :: "table_seat \<Rightarrow> int res"
  g_cheat :: "table_seat \<Rightarrow> (rng, cheat_result \<times> table_seat) sm"
  g_read :: "table_seat \<Rightarrow> table_seat \<Rightarrow> int \<Rightarrow> read_result res"
  g_custom :: "table_seat \<Rightarrow> table_commit \<Rightarrow> (table_state \<times> rng, unit) sm"

definition default_cheat :: "table_seat \<Rightarrow> (rng, cheat_result \<times> table_seat) sm" where
  "default_cheat s = raise (NotImplementedError ''table_game does not support Cheat'')"

definition default_read :: "table_seat \<Rightarrow> table_seat \<Rightarrow> int \<Rightarrow> read_result res" where
  "default_read reader target stat = Inl (NotImplementedError ''table_game does not support Read'')"

definition default_custom_beat :: "table_seat \<Rightarrow> table_commit \<Rightarrow> (table_state \<times> rng, unit) sm" where
  "default_custom_beat s c = raise (ValueError ''unsupported table beat'')"

type_synonym registry = "(string \<times> table_game) list"

definition register_table_game :: "table_game \<Rightarrow> registry \<Rightarrow> registry res" where
  "register_table_game g reg =
     (if dict_has reg (kind_name g) then Inl (ValueError ''table_game already registered'')
      else Inr (AList.update (kind_name g) g reg))"

definition get_table_game :: "registry \<Rightarrow> string \<Rightarrow> table_game res" where
  "get_table_game reg k =
     (case map_of reg k of None \<Rightarrow> Inl (ValueError ''UnknownTableGameError'') | Some g \<Rightarrow> Inr g)"

section \<open>The engine\<close>

definition POT_ACTIONS :: "string list" where
  "POT_ACTIONS = [''bet'', ''raise'', ''call'', ''bluff'', ''raise_bid'']"

definition ACCUSE_BASE_DC :: int where "ACCUSE_BASE_DC = 10"
definition ACCUSE_TRACE_WEIGHT :: int where "ACCUSE_TRACE_WEIGHT = 8"

text \<open>The engine's state: the table, the generator, and the reads collected so far.\<close>

type_synonym eng = "table_state \<times> rng \<times> (string \<times> read_result) list"

definition eng_table :: "(eng, table_state) sm" where
  "eng_table e = (Inr (fst e), e)"

definition eng_modify :: "(table_state \<Rightarrow> table_state) \<Rightarrow> (eng, unit) sm" where
  "eng_modify f = modify (\<lambda>(st, tape, reads). (f st, tape, reads))"

definition eng_rng :: "(rng, 'a) sm \<Rightarrow> (eng, 'a) sm" where
  "eng_rng m = (\<lambda>(st, tape, reads). let (r, tape') = m tape in (r, (st, tape', reads)))"

definition eng_lift :: "(table_state \<times> rng, 'a) sm \<Rightarrow> (eng, 'a) sm" where
  "eng_lift m = (\<lambda>(st, tape, reads). let (r, (st', tape')) = m (st, tape) in (r, (st', tape', reads)))"

definition eng_read :: "string \<Rightarrow> read_result \<Rightarrow> (eng, unit) sm" where
  "eng_read sid r = modify (\<lambda>(st, tape, reads). (st, tape, AList.update sid r reads))"

definition eng_return :: "(table_state \<Rightarrow> (string \<times> read_result) list \<Rightarrow> 'a) \<Rightarrow> (eng, 'a) sm" where
  "eng_return f = (\<lambda>(st, tape, reads). (Inr (f st reads), (st, tape, reads)))"

definition on_seat :: "string \<Rightarrow> (table_seat \<Rightarrow> table_seat) \<Rightarrow> table_state \<Rightarrow> table_state" where
  "on_seat sid f st = st\<lparr>seats := update_seat sid f (seats st)\<rparr>"

definition on_private :: "(private_state \<Rightarrow> private_state) \<Rightarrow> table_seat \<Rightarrow> table_seat" where
  "on_private f s = s\<lparr>private_state := f (private_state s)\<rparr>"

definition int_or_0 :: "int option \<Rightarrow> int" where
  "int_or_0 x = (case x of None \<Rightarrow> 0 | Some i \<Rightarrow> i)"

definition deal_table :: "registry \<Rightarrow> (table_state \<times> rng, unit) sm" where
  "deal_table reg = (\<lambda>(st, tape).
     if length (seats st) < 2 then (Inl (ValueError ''TableNeedsOthersError''), (st, tape))
     else case get_table_game reg (game_kind st) of
       Inl e \<Rightarrow> (Inl e, (st, tape))
     | Inr game \<Rightarrow>
         let (r, (ss, p, tape')) = g_deal game (seats st, table_pot st, tape)
         in (r, (st\<lparr>seats := ss, table_pot := p\<rparr>, tape')))"

definition require_target :: "table_state \<Rightarrow> table_commit \<Rightarrow> table_seat res" where
  "require_target st c =
     (case target_seat c of
        None \<Rightarrow> Inl (ValueError ''beat requires a target_seat'')
      | Some t \<Rightarrow> (case find_seat st t of
          None \<Rightarrow> Inl (ValueError ''beat targets unknown seat'') | Some s \<Rightarrow> Inr s))"

definition apply_signature_beat :: "table_game \<Rightarrow> string \<Rightarrow> table_seat \<Rightarrow> table_commit \<Rightarrow> (eng, unit) sm" where
  "apply_signature_beat game sid s c =
     (if beat_id c = ''cheat''
      then sbind (eng_rng (g_cheat game s)) (\<lambda>(res, s'). eng_modify (on_seat sid (\<lambda>_. s')))
      else if beat_id c = ''read_table'' \<or> beat_id c = ''read_room''
      then sbind eng_table (\<lambda>st.
           sbind (lift_res (require_target st c)) (\<lambda>target.
           sbind (lift_res (g_read game s target (int_or_0 (perception (private_state s))))) (\<lambda>r.
           sthen (eng_read sid r)
             (eng_modify (on_seat sid (on_private (\<lambda>p. p\<lparr>read_intel := Some
                ((case read_intel p of None \<Rightarrow> [] | Some xs \<Rightarrow> xs) @
                 [\<lparr>intel_target = read_target r, intel_band = Some (read_band r),
                   intel_suspicious = (case read_suspicious r of None \<Rightarrow> False | Some b \<Rightarrow> b)\<rparr>])\<rparr>)))))))
      else if beat_id c = ''accuse''
      then sbind eng_table (\<lambda>st.
           sbind (lift_res (require_target st c)) (\<lambda>target.
             eng_modify (\<lambda>st. st\<lparr>pending_accusations := pending_accusations st @ [(sid, seat_id target)]\<rparr>)))
      else eng_lift (g_custom game s c))"

definition pot_add :: "string \<Rightarrow> int \<Rightarrow> table_pot \<Rightarrow> table_pot" where
  "pot_add sid amt p =
     p\<lparr>contributions := AList.update sid (dict_get (contributions p) sid 0 + max 0 amt) (contributions p)\<rparr>"

definition apply_commit :: "table_game \<Rightarrow> string \<Rightarrow> table_commit \<Rightarrow> (eng, unit) sm" where
  "apply_commit game sid c =
     sbind eng_table (\<lambda>st.
     case find_seat st sid of
       None \<Rightarrow> raise (TypeError ''NoneType'')
     | Some s \<Rightarrow>
       if beat_id c = ''fold'' \<or> beat_id c = ''withdraw''
       then eng_modify (on_seat sid (\<lambda>s. s\<lparr>seat_status := Folded\<rparr>))
       else if beat_id c \<in> set POT_ACTIONS
       then eng_modify (\<lambda>st.
              let p = pot_add sid (amount c) (table_pot st)
              in on_seat sid (on_private (\<lambda>ps. ps\<lparr>current_bid := Some (dict_get (contributions p) sid 0)\<rparr>))
                   (st\<lparr>table_pot := p\<rparr>))
       else apply_signature_beat game sid s c)"

fun apply_commits :: "table_game \<Rightarrow> (string \<times> table_commit) list \<Rightarrow> string list \<Rightarrow> (eng, unit) sm" where
  "apply_commits game commits [] = ret ()"
| "apply_commits game commits (sid # rest) =
     sthen
       (case map_of commits sid of
          None \<Rightarrow> ret ()
        | Some c \<Rightarrow> sbind eng_table (\<lambda>st.
            case find_seat st sid of
              None \<Rightarrow> ret ()
            | Some s \<Rightarrow> if seat_status s \<noteq> Active then ret () else apply_commit game sid c))
       (apply_commits game commits rest)"

definition add_forfeit :: "string \<Rightarrow> string list \<Rightarrow> string list" where
  "add_forfeit sid forfeited = (if sid \<in> set forfeited then forfeited else forfeited @ [sid])"

fun resolve_accusations :: "table_state \<Rightarrow> (string \<times> string) list \<Rightarrow> string list \<Rightarrow> (rng, string list) sm" where
  "resolve_accusations st [] forfeited = ret forfeited"
| "resolve_accusations st ((accuser_id, target_id) # rest) forfeited =
     (case (find_seat st accuser_id, find_seat st target_id) of
        (Some accuser, Some target) \<Rightarrow>
          let accuser_stat = int_or_0 (perception (private_state accuser));
              conceal = int_or_0 (concealment (private_state target));
              trace_val = (case cheat_trace (private_state target) of None \<Rightarrow> 0 | Some x \<Rightarrow> x) in
          sbind (randint 1 20) (\<lambda>d.
            let accuser_total = d + accuser_stat;
                acc_dc = ACCUSE_BASE_DC + conceal - rhe (rnd (trace_val * of_int ACCUSE_TRACE_WEIGHT));
                landed = (accuser_total \<ge> acc_dc);
                loser = (if landed then target_id else accuser_id) in
            resolve_accusations st rest (add_forfeit loser forfeited))
      | _ \<Rightarrow> resolve_accusations st rest forfeited)"

definition showdown_strength :: "table_game \<Rightarrow> table_seat \<Rightarrow> int res" where
  "showdown_strength game s =
     (case g_strength game s of
        Inr x \<Rightarrow> Inr x
      | Inl (KeyError _) \<Rightarrow> Inl (ValueError ''showdown: seat has no readable strength'')
      | Inl (TypeError _) \<Rightarrow> Inl (ValueError ''showdown: seat has no readable strength'')
      | Inl (ValueError _) \<Rightarrow> Inl (ValueError ''showdown: seat has no readable strength'')
      | Inl e \<Rightarrow> Inl e)"

definition contenders :: "table_state \<Rightarrow> string list \<Rightarrow> table_seat list" where
  "contenders st forfeited = filter (\<lambda>s. seat_status s = Active \<and> seat_id s \<notin> set forfeited) (seats st)"

text \<open>\<open>max\<close> over the contenders by strength: the first of the strongest.\<close>

definition pick_winner :: "(table_seat \<times> int) list \<Rightarrow> table_seat" where
  "pick_winner xs = (case xs of [] \<Rightarrow> undefined | x # rest \<Rightarrow> fst (max_key snd x rest))"

definition do_showdown :: "table_game \<Rightarrow> (eng, table_outcome) sm" where
  "do_showdown game =
     sbind eng_table (\<lambda>st.
     sbind (eng_rng (resolve_accusations st (pending_accusations st) [])) (\<lambda>forfeited.
     sthen (eng_modify (\<lambda>st. st\<lparr>pending_accusations := []\<rparr>)) (
     let cs = contenders st forfeited in
     if cs = [] then raise (ValueError ''showdown with zero eligible contenders'')
     else sbind (lift_res (rmap (showdown_strength game) cs)) (\<lambda>strengths.
       let w = pick_winner (zip cs strengths);
           hint = party_name w @ '' takes '' @ stake_descriptor (table_pot st) @
             (if forfeited = [] then [] else '' (forfeits: '' @ intercalate '', '' forfeited @ '')'') in
       sthen (eng_modify (\<lambda>st. st\<lparr>resolved_winner := Some (seat_id w)\<rparr>))
       (eng_return (\<lambda>st' reads.
          \<lparr>showdown = True, winner = Some (seat_id w), pot_awarded_to = Some (seat_id w),
               outcome_stake_kind = Some (stake_kind (table_pot st')),
               outcome_stake = Some (stake_descriptor (table_pot st')),
               narration_hint = hint, forfeited_seats = forfeited, read_results = reads\<rparr>))))))"

definition resolve_point :: "table_game \<Rightarrow> (string \<times> table_commit) list \<Rightarrow> (eng, table_outcome) sm" where
  "resolve_point game commits =
     sbind eng_table (\<lambda>st.
     if \<not> list_all (\<lambda>p. find_seat st (fst p) \<noteq> None) commits
     then raise (ValueError ''commit for unknown seat'')
     else sthen (apply_commits game commits (order st)) (
       sbind eng_table (\<lambda>st.
       if length (active_seat_ids st) \<le> 1 \<or> decision_point st \<ge> max_decision_points st - 1
       then do_showdown game
       else sthen (eng_modify (\<lambda>st. st\<lparr>decision_point := decision_point st + 1\<rparr>))
         (eng_return (\<lambda>st' reads.
            \<lparr>showdown = False, winner = None, pot_awarded_to = None, outcome_stake_kind = None,
                 outcome_stake = None, narration_hint = [], forfeited_seats = [], read_results = reads\<rparr>)))))"

definition resolve_table ::
  "registry \<Rightarrow> (string \<times> table_commit) list \<Rightarrow> (table_state \<times> rng, table_outcome) sm" where
  "resolve_table reg commits = (\<lambda>(st, tape).
     case get_table_game reg (game_kind st) of
       Inl e \<Rightarrow> (Inl e, (st, tape))
     | Inr game \<Rightarrow>
         let (r, (st', tape', reads)) = resolve_point game commits (st, tape, []) in (r, (st', tape')))"

text \<open>A hand: one decision point per entry of the list, until a showdown.\<close>

fun play_hand :: "registry \<Rightarrow> (string \<times> table_commit) list list \<Rightarrow> (table_state \<times> rng, table_outcome option) sm" where
  "play_hand reg [] = ret None"
| "play_hand reg (c # cs) = sbind (resolve_table reg c) (\<lambda>out. if showdown out then ret (Some out) else play_hand reg cs)"

section \<open>How a table may change\<close>

text \<open>\<open>evolves R m\<close>: whatever \<open>m\<close> does, raise included, the state before and after are related by \<open>R\<close>.\<close>

definition evolves :: "('s \<Rightarrow> 's \<Rightarrow> bool) \<Rightarrow> ('s, 'a) sm \<Rightarrow> bool" where
  "evolves R m \<longleftrightarrow> (\<forall>s. R s (snd (m s)))"

lemma evolves_ret: "reflp R \<Longrightarrow> evolves R (ret x)"
  by (simp add: evolves_def ret_def reflpD)

lemma evolves_raise: "reflp R \<Longrightarrow> evolves R (raise e)"
  by (simp add: evolves_def raise_def reflpD)

lemma evolves_lift_res: "reflp R \<Longrightarrow> evolves R (lift_res r)"
  by (simp add: evolves_def lift_res_def reflpD)

lemma evolves_sbind:
  assumes "transp R" "evolves R m" "\<And>x. evolves R (f x)"
  shows "evolves R (sbind m f)"
  unfolding evolves_def
proof
  fix s
  obtain r s1 where m: "m s = (r, s1)" by fastforce
  have "R s s1" using assms(2) m unfolding evolves_def by (metis snd_conv)
  moreover have "R s1 (snd (f x s1))" for x using assms(3) unfolding evolves_def by blast
  ultimately show "R s (snd (sbind m f s))"
    using m assms(1) by (cases r) (auto simp: sbind_def intro: transpD)
qed

lemma evolves_sthen: "transp R \<Longrightarrow> evolves R m \<Longrightarrow> evolves R k \<Longrightarrow> evolves R (sthen m k)"
  unfolding sthen_def by (rule evolves_sbind)

lemma evolves_table:
  assumes "\<And>e. R e (snd (f (fst e) e))"
  shows "evolves R (sbind eng_table f)"
  using assms by (simp add: evolves_def sbind_def eng_table_def)

text \<open>
  A seat keeps who sits there, and its status stays or goes from active to folded. A table keeps its
  seats in this sense, its order, dealer, kind and length; no contribution shrinks and the decision
  point does not go back.
\<close>

definition seat_evolves :: "table_seat \<Rightarrow> table_seat \<Rightarrow> bool" where
  "seat_evolves s t \<longleftrightarrow>
     seat_id t = seat_id s \<and> party_name t = party_name s \<and> is_pc t = is_pc s \<and>
     (seat_status t = seat_status s \<or> seat_status s = Active \<and> seat_status t = Folded)"

definition table_evolves :: "table_state \<Rightarrow> table_state \<Rightarrow> bool" where
  "table_evolves a b \<longleftrightarrow>
     list_all2 seat_evolves (seats a) (seats b) \<and>
     game_kind b = game_kind a \<and> order b = order a \<and> dealer_seat b = dealer_seat a \<and>
     max_decision_points b = max_decision_points a \<and> decision_point a \<le> decision_point b \<and>
     stake_kind (table_pot b) = stake_kind (table_pot a) \<and>
     stake_descriptor (table_pot b) = stake_descriptor (table_pot a) \<and>
     (\<forall>sid. dict_get (contributions (table_pot a)) sid 0 \<le> dict_get (contributions (table_pot b)) sid 0)"

lemma seat_evolves_refl [simp]: "seat_evolves s s"
  by (simp add: seat_evolves_def)

lemma seat_evolves_trans: "seat_evolves r s \<Longrightarrow> seat_evolves s t \<Longrightarrow> seat_evolves r t"
  by (auto simp: seat_evolves_def)

lemma table_evolves_refl [simp]: "table_evolves st st"
  by (simp add: table_evolves_def list_all2_same)

lemma table_evolves_trans: "table_evolves a b \<Longrightarrow> table_evolves b c \<Longrightarrow> table_evolves a c"
  unfolding table_evolves_def
  by (elim conjE, intro conjI) (auto elim: list_all2_trans[rotated 1] intro: seat_evolves_trans order_trans)

definition eng_evolves :: "eng \<Rightarrow> eng \<Rightarrow> bool" where
  "eng_evolves e e' \<longleftrightarrow> table_evolves (fst e) (fst e')"

lemma eng_evolves_refl: "reflp eng_evolves"
  by (simp add: reflp_def eng_evolves_def)

lemma eng_evolves_trans: "transp eng_evolves"
  by (auto simp: transp_def eng_evolves_def intro: table_evolves_trans)

lemmas evolves_rules = evolves_ret[OF eng_evolves_refl] evolves_raise[OF eng_evolves_refl]
  evolves_lift_res[OF eng_evolves_refl] evolves_sbind[OF eng_evolves_trans] evolves_sthen[OF eng_evolves_trans]

lemma evolves_eng_table: "evolves eng_evolves eng_table"
  by (simp add: evolves_def eng_table_def eng_evolves_def)

lemma evolves_modify: "(\<And>st. table_evolves st (f st)) \<Longrightarrow> evolves eng_evolves (eng_modify f)"
  by (auto simp: evolves_def eng_modify_def modify_def eng_evolves_def)

lemma evolves_eng_rng: "evolves eng_evolves (eng_rng m)"
  by (auto simp: evolves_def eng_rng_def eng_evolves_def Let_def split: prod.splits)

lemma evolves_eng_read: "evolves eng_evolves (eng_read sid r)"
  by (auto simp: evolves_def eng_read_def modify_def eng_evolves_def)

lemma evolves_eng_return: "evolves eng_evolves (eng_return f)"
  by (auto simp: evolves_def eng_return_def eng_evolves_def)

lemma evolves_if: "evolves R m \<Longrightarrow> evolves R k \<Longrightarrow> evolves R (if b then m else k)"
  by simp

lemma update_seat_evolves:
  "(\<And>s. seat_id s = sid \<Longrightarrow> s \<in> set ss \<Longrightarrow> seat_evolves s (f s)) \<Longrightarrow> list_all2 seat_evolves ss (update_seat sid f ss)"
  by (induction ss) (auto simp: list_all2_same)

lemma on_seat_evolves:
  "(\<And>s. seat_id s = sid \<Longrightarrow> seat_evolves s (f s)) \<Longrightarrow> table_evolves st (on_seat sid f st)"
  by (auto simp: table_evolves_def on_seat_def intro: update_seat_evolves)

lemma on_private_evolves [simp]: "seat_evolves s (on_private f s)"
  by (simp add: seat_evolves_def on_private_def)

lemma find_seat_update_evolves:
  assumes "find_seat st sid = Some s" "seat_evolves s (f s)"
  shows "table_evolves st (on_seat sid f st)"
proof -
  have "list_all2 seat_evolves ss (update_seat sid f ss)"
    if "find (\<lambda>s. seat_id s = sid) ss = Some s" for ss
    using that assms(2) by (induction ss) (auto simp: list_all2_same split: if_splits)
  then show ?thesis using assms(1) by (simp add: table_evolves_def on_seat_def find_seat_def)
qed

lemma pot_add_evolves:
  "dict_get (contributions p) k 0 \<le> dict_get (contributions (pot_add sid amt p)) k 0"
  by (auto simp: pot_add_def dict_get_update)

section \<open>The showdown\<close>

lemma showdown_strength_Inr: "showdown_strength game s = Inr x \<longleftrightarrow> g_strength game s = Inr x"
  by (auto simp: showdown_strength_def split: sum.splits py_error.splits)

lemma rmap_Inr: "rmap f xs = Inr ys \<Longrightarrow> list_all2 (\<lambda>x y. f x = Inr y) xs ys"
  by (induction xs arbitrary: ys) (auto simp: rbind_Inr_iff)

lemma showdown_flag: "do_showdown game e = (Inr out, e') \<Longrightarrow> showdown out"
  by (auto simp: do_showdown_def Let_def sbind_def sthen_def raise_def eng_return_def eng_modify_def modify_def
      split: if_splits prod.splits sum.splits)

lemma pick_winner_max:
  assumes "list_all2 (\<lambda>s y. f s = Inr y) cs ys" "cs \<noteq> []"
  shows "pick_winner (zip cs ys) \<in> set cs"
    and "\<exists>b. f (pick_winner (zip cs ys)) = Inr b \<and> (\<forall>s \<in> set cs. \<exists>x \<le> b. f s = Inr x)"
proof -
  obtain c cs' y ys' where cs: "cs = c # cs'" and ys: "ys = y # ys'"
    using assms by (cases cs; cases ys) auto
  let ?m = "max_key snd (c, y) (zip cs' ys')"
  have m: "?m \<in> set (zip cs ys)" using max_key_in[of snd "(c, y)" "zip cs' ys'"] cs ys by simp
  have w: "pick_winner (zip cs ys) = fst ?m" by (simp add: pick_winner_def cs ys)
  have pairs: "f s = Inr x" if "(s, x) \<in> set (zip cs ys)" for s x
    using assms(1) that by (auto simp: list_all2_iff)
  show "pick_winner (zip cs ys) \<in> set cs"
    unfolding w using m by (metis in_set_zipE prod.collapse)
  have "f (fst ?m) = Inr (snd ?m)" using pairs[of "fst ?m" "snd ?m"] m by simp
  moreover have "\<exists>x \<le> snd ?m. f s = Inr x" if s: "s \<in> set cs" for s
  proof -
    obtain x where x: "(s, x) \<in> set (zip cs ys)"
      using s assms(1) by (metis in_set_impl_in_set_zip1 list_all2_lengthD)
    have "snd (s, x) \<le> snd ?m" using x cs ys by (intro max_key_ge) auto
    with pairs[OF x] show ?thesis by auto
  qed
  ultimately show "\<exists>b. f (pick_winner (zip cs ys)) = Inr b \<and> (\<forall>s \<in> set cs. \<exists>x \<le> b. f s = Inr x)"
    unfolding w by blast
qed

lemma showdown_winner:
  assumes "do_showdown game e = (Inr out, e')"
  shows "\<exists>w \<in> set (contenders (fst e) (forfeited_seats out)). winner out = Some (seat_id w) \<and>
     pot_awarded_to out = winner out \<and> resolved_winner (fst e') = winner out \<and>
     (\<exists>b. g_strength game w = Inr b \<and>
        (\<forall>s \<in> set (contenders (fst e) (forfeited_seats out)). \<exists>x \<le> b. g_strength game s = Inr x))"
proof -
  obtain st tape reads where e: "e = (st, tape, reads)" by (cases e) auto
  from assms obtain ff tape' ys where
      ff: "resolve_accusations st (pending_accusations st) [] tape = (Inr ff, tape')"
      and cs: "contenders st ff \<noteq> []" and ys: "rmap (showdown_strength game) (contenders st ff) = Inr ys"
      and out: "winner out = Some (seat_id (pick_winner (zip (contenders st ff) ys)))"
        "pot_awarded_to out = winner out" "forfeited_seats out = ff" "resolved_winner (fst e') = winner out"
    unfolding e
    by (auto simp: do_showdown_def Let_def sbind_def sthen_def raise_def eng_return_def eng_modify_def modify_def
        eng_table_def eng_rng_def lift_res_def split: if_splits prod.splits sum.splits)
  have "list_all2 (\<lambda>s y. g_strength game s = Inr y) (contenders st ff) ys"
    using rmap_Inr[OF ys] by (simp only: showdown_strength_Inr)
  from pick_winner_max[OF this cs] show ?thesis using out e by auto
qed

lemma set_add_forfeit [simp]: "set (add_forfeit l ff) = insert l (set ff)"
  by (auto simp: add_forfeit_def)

lemma forfeits_are_named:
  "resolve_accusations st acc ff tape = (Inr ff', tape') \<Longrightarrow>
     set ff \<subseteq> set ff' \<and> set ff' \<subseteq> set ff \<union> fst ` set acc \<union> snd ` set acc"
proof (induction acc arbitrary: ff tape)
  case Nil
  then show ?case by (simp add: ret_def)
next
  case (Cons p acc)
  obtain a t where p: "p = (a, t)" by fastforce
  consider "resolve_accusations st acc ff tape = (Inr ff', tape')"
    | l tape1 where "l = t \<or> l = a" "resolve_accusations st acc (add_forfeit l ff) tape1 = (Inr ff', tape')"
    using Cons.prems unfolding p resolve_accusations.simps Let_def sbind_def
    by (cases "find_seat st a"; cases "find_seat st t") (auto split: prod.splits sum.splits if_splits)
  then show ?case
  proof cases
    case 1
    from Cons.IH[OF 1] show ?thesis by auto
  next
    case 2
    from Cons.IH[OF 2(2)] 2(1) p show ?thesis by auto
  qed
qed

section \<open>The contract of a game kind\<close>

locale lawful_game =
  fixes game :: table_game
  assumes deal_frame: "list_all2 (\<lambda>s t. seat_evolves s t \<and> seat_status t = seat_status s) ss
      (fst (snd (g_deal game (ss, p, tape))))"
    and cheat_frame: "g_cheat game s tape = (Inr (r, s'), tape') \<Longrightarrow> seat_evolves s s'"
    and custom_frame: "\<exists>sh. fst (snd (g_custom game s c (st, tape))) = st\<lparr>shared_state := sh\<rparr>"
begin

lemma custom_evolves: "evolves eng_evolves (eng_lift (g_custom game s c))"
  unfolding evolves_def eng_lift_def eng_evolves_def
proof (clarsimp split: prod.splits)
  fix st tape reads r st' tape'
  assume "g_custom game s c (st, tape) = (r, st', tape')"
  then obtain sh where "st' = st\<lparr>shared_state := sh\<rparr>" using custom_frame[of s c st tape] by auto
  then show "table_evolves st st'" by (simp add: table_evolves_def list_all2_same)
qed

lemma signature_evolves:
  assumes "find_seat (fst e) sid = Some s"
  shows "eng_evolves e (snd (apply_signature_beat game sid s c e))"
proof (cases "beat_id c = ''cheat''")
  case True
  obtain st tape reads where e: "e = (st, tape, reads)" by (cases e) auto
  obtain r tape' where m: "g_cheat game s tape = (r, tape')" by fastforce
  show ?thesis
  proof (cases r)
    case (Inl x)
    then show ?thesis using True e m
      by (simp add: apply_signature_beat_def eng_rng_def sbind_def eng_evolves_def)
  next
    case (Inr x)
    obtain res s' where x: "x = (res, s')" by fastforce
    have "seat_evolves s s'" using cheat_frame m Inr x by blast
    then have "table_evolves st (on_seat sid (\<lambda>_. s') st)"
      using find_seat_update_evolves assms e by simp
    then show ?thesis using True e m Inr x
      by (simp add: apply_signature_beat_def eng_rng_def sbind_def eng_evolves_def eng_modify_def modify_def)
  qed
next
  case False
  have "evolves eng_evolves (apply_signature_beat game sid s c)"
    using False unfolding apply_signature_beat_def
    by (auto intro!: evolves_rules evolves_eng_table evolves_eng_read evolves_modify on_seat_evolves custom_evolves)
      (simp add: table_evolves_def list_all2_same)
  then show ?thesis unfolding evolves_def by blast
qed

lemma commit_evolves:
  assumes s: "find_seat (fst e) sid = Some s" "seat_status s = Active"
  shows "eng_evolves e (snd (apply_commit game sid c e))"
proof -
  obtain st tape reads where e: "e = (st, tape, reads)" by (cases e) auto
  let ?fold = "\<lambda>s. s\<lparr>seat_status := Folded\<rparr>"
  have fold: "table_evolves st (on_seat sid ?fold st)"
    using s e by (intro find_seat_update_evolves) (auto simp: seat_evolves_def)
  have pot: "table_evolves st (on_seat sid (on_private f) (st\<lparr>table_pot := pot_add sid a (table_pot st)\<rparr>))" for f a
  proof (rule table_evolves_trans)
    show "table_evolves st (st\<lparr>table_pot := pot_add sid a (table_pot st)\<rparr>)"
      using pot_add_evolves by (simp add: table_evolves_def list_all2_same pot_add_def)
  qed (rule on_seat_evolves, simp)
  show ?thesis
    using s e fold pot signature_evolves[of e sid s c]
    by (simp add: apply_commit_def sbind_def eng_table_def eng_modify_def modify_def eng_evolves_def Let_def)
qed

lemma commits_evolve: "evolves eng_evolves (apply_commits game commits sids)"
proof (induction sids)
  case Nil
  show ?case by (simp add: evolves_rules)
next
  case (Cons sid sids)
  have "evolves eng_evolves (sbind eng_table (\<lambda>st. case find_seat st sid of None \<Rightarrow> ret ()
      | Some s \<Rightarrow> if seat_status s \<noteq> Active then ret () else apply_commit game sid c))" for c
    by (rule evolves_table)
      (auto simp: ret_def eng_evolves_def[symmetric] reflpD[OF eng_evolves_refl] intro: commit_evolves split: option.splits)
  then have "evolves eng_evolves (case map_of commits sid of None \<Rightarrow> ret ()
        | Some c \<Rightarrow> sbind eng_table (\<lambda>st. case find_seat st sid of None \<Rightarrow> ret ()
            | Some s \<Rightarrow> if seat_status s \<noteq> Active then ret () else apply_commit game sid c))"
    by (cases "map_of commits sid") (simp_all add: evolves_rules)
  then show ?case unfolding apply_commits.simps by (intro evolves_rules Cons.IH)
qed

lemma showdown_evolves: "evolves eng_evolves (do_showdown game)"
  unfolding do_showdown_def Let_def
  by (intro evolves_rules evolves_if evolves_eng_table evolves_eng_rng evolves_modify evolves_eng_return)
    (simp_all add: table_evolves_def list_all2_same)

lemma point_evolves: "evolves eng_evolves (resolve_point game commits)"
  unfolding resolve_point_def
  by (intro evolves_rules evolves_if evolves_eng_table evolves_modify evolves_eng_return commits_evolve showdown_evolves)
    (simp add: table_evolves_def list_all2_same)

lemma point_progress:
  assumes "resolve_point game commits e = (Inr out, e')" "\<not> showdown out"
  shows "decision_point (fst e) < decision_point (fst e')"
    and "decision_point (fst e') < max_decision_points (fst e)"
proof -
  obtain u e1 where c: "apply_commits game commits (order (fst e)) e = (Inr u, e1)"
      and r: "decision_point (fst e1) < max_decision_points (fst e1) - 1"
        "e' = (fst e1\<lparr>decision_point := decision_point (fst e1) + 1\<rparr>, snd e1)"
    using assms showdown_flag
    by (auto simp: resolve_point_def sbind_def sthen_def eng_table_def raise_def eng_modify_def modify_def
        eng_return_def split: if_splits prod.splits sum.splits)
  have "eng_evolves e e1" using commits_evolve[of commits "order (fst e)"] c unfolding evolves_def by (metis snd_conv)
  then have "decision_point (fst e) \<le> decision_point (fst e1)" "max_decision_points (fst e1) = max_decision_points (fst e)"
    by (simp_all add: eng_evolves_def table_evolves_def)
  with r show "decision_point (fst e) < decision_point (fst e')"
    "decision_point (fst e') < max_decision_points (fst e)" by auto
qed

lemma resolve_evolves:
  assumes "get_table_game reg (game_kind st) = Inr game"
  shows "table_evolves st (fst (snd (resolve_table reg commits (st, tape))))"
  using point_evolves[of commits] assms unfolding evolves_def resolve_table_def eng_evolves_def
  by (auto split: prod.splits) (metis fst_conv snd_conv)

lemma resolve_progress:
  assumes "get_table_game reg (game_kind st) = Inr game"
    and "resolve_table reg commits (st, tape) = (Inr out, (st', tape'))" "\<not> showdown out"
  shows "decision_point st < decision_point st'" "decision_point st' < max_decision_points st"
  using assms point_progress[of commits "(st, tape, [])" out]
  by (auto simp: resolve_table_def split: prod.splits)

text \<open>A hand that has not come to its showdown has used fewer decision points than it has.\<close>

lemma play_bound:
  assumes "get_table_game reg (game_kind st) = Inr game"
    and "play_hand reg cs (st, tape) = (Inr None, s')"
  shows "cs = [] \<or> decision_point st + int (length cs) < max_decision_points st"
  using assms
proof (induction cs arbitrary: st tape)
  case Nil
  then show ?case by simp
next
  case (Cons c cs)
  from Cons.prems(2) obtain out st1 tape1 where
      r: "resolve_table reg c (st, tape) = (Inr out, (st1, tape1))" "\<not> showdown out"
      and rest: "play_hand reg cs (st1, tape1) = (Inr None, s')"
    by (auto simp: sbind_def ret_def split: prod.splits sum.splits if_splits)
  have ev: "table_evolves st st1" using resolve_evolves[OF Cons.prems(1), of c tape] r(1) by simp
  then have k: "game_kind st1 = game_kind st" "max_decision_points st1 = max_decision_points st"
    by (simp_all add: table_evolves_def)
  have "cs = [] \<or> decision_point st1 + int (length cs) < max_decision_points st1"
    using Cons.IH[OF _ rest] Cons.prems(1) k by simp
  then show ?case using resolve_progress[OF Cons.prems(1) r] k by auto
qed

end

end
