(* ===== verification/Table_Poker.thy ===== *)
theory Table_Poker
  imports Table_Engine "HOL-Library.Product_Lexorder" "HOL-Library.List_Lexorder"
begin

text \<open>
  The poker kind (src/sidequest/game/table/poker.py): the deck, the ranking of a hand packed into one
  number, dealing, and the Cheat and Read beats on the real hand. A card is its two-character string.
\<close>

section \<open>Cards and hands\<close>

definition RANKS :: string where "RANKS = ''23456789TJQKA''"
definition SUITS :: string where "SUITS = ''SHDC''"

definition RANK_VALUE :: "(char \<times> int) list" where
  "RANK_VALUE = zip RANKS [2..14]"

definition FULL_DECK :: "string list" where
  "FULL_DECK = concat (map (\<lambda>r. map (\<lambda>s. [r, s]) SUITS) RANKS)"

definition ANTE :: int where "ANTE = 1"
definition PACK_BASE :: int where "PACK_BASE = 100"
definition TIEBREAK_SLOTS :: nat where "TIEBREAK_SLOTS = 5"

definition card_value :: "string \<Rightarrow> int res" where
  "card_value c = (case c of [] \<Rightarrow> Inl (IndexError ''c[0]'') | r # _ \<Rightarrow>
     (case map_of RANK_VALUE r of None \<Rightarrow> Inl (KeyError [r]) | Some v \<Rightarrow> Inr v))"

definition card_suit :: "string \<Rightarrow> char res" where
  "card_suit c = (case c of _ # s # _ \<Rightarrow> Inr s | _ \<Rightarrow> Inl (IndexError ''c[1]''))"

text \<open>The values with their multiplicities, highest multiplicity and then highest value first.\<close>

definition by_count :: "int list \<Rightarrow> (nat \<times> int) list" where
  "by_count vs = rev (sort (map (\<lambda>v. (count_list vs v, v)) (remdups vs)))"

definition categorize_values :: "int list \<Rightarrow> char list \<Rightarrow> int \<times> int list" where
  "categorize_values vals suits =
     (let grouped = map snd (by_count vals);
          count_shape = map fst (by_count vals);
          is_flush = (card (set suits) = 1);
          distinct_vals = sort (remdups vals);
          wheel = (set vals = {14, 2, 3, 4, 5});
          is_straight = (length distinct_vals = 5 \<and> last distinct_vals - hd distinct_vals = 4 \<or> wheel);
          grouped_vals = (if wheel then [5, 4, 3, 2, 1] else grouped)
      in if is_straight \<and> is_flush then (8, grouped_vals)
         else if count_shape = [4, 1] then (7, grouped_vals)
         else if count_shape = [3, 2] then (6, grouped_vals)
         else if is_flush then (5, grouped_vals)
         else if is_straight then (4, grouped_vals)
         else if count_shape = [3, 1, 1] then (3, grouped_vals)
         else if count_shape = [2, 2, 1] then (2, grouped_vals)
         else if count_shape = [2, 1, 1, 1] then (1, grouped_vals)
         else (0, grouped_vals))"

definition categorize :: "string list \<Rightarrow> (int \<times> int list) res" where
  "categorize cs =
     rbind (rmap card_value cs) (\<lambda>vals.
     rbind (rmap card_suit cs) (\<lambda>suits. Inr (categorize_values (rev (sort vals)) suits)))"

definition padded :: "int list \<Rightarrow> int list" where
  "padded tiebreaks = take TIEBREAK_SLOTS (tiebreaks @ replicate TIEBREAK_SLOTS 0)"

definition pack :: "int \<Rightarrow> int list \<Rightarrow> int" where
  "pack category ds = foldl (\<lambda>strength v. strength * PACK_BASE + v) category ds"

definition hand_strength :: "string list \<Rightarrow> int res" where
  "hand_strength cs = rbind (categorize cs) (\<lambda>(category, tiebreaks). Inr (pack category (padded tiebreaks)))"

definition band_for :: "int \<Rightarrow> string" where
  "band_for strength =
     (let category = strength div (PACK_BASE ^ TIEBREAK_SLOTS) in
      if category \<ge> 7 then ''monster'' else if category \<ge> 4 then ''strong''
      else if category = 3 then ''decent'' else if category \<in> {1, 2} then ''marginal'' else ''weak'')"

section \<open>The kind's operations\<close>

definition deal_hand :: "string list \<Rightarrow> int \<Rightarrow> table_seat \<Rightarrow> table_seat" where
  "deal_hand hand v = on_private (\<lambda>p. p\<lparr>cards := Some hand, strength_key := Some v,
     strength_band := Some (band_for v), cheat_trace := Some 0\<rparr>)"

text \<open>
  One seat after the other: five pops from the end of the deck (an exhausted deck raises before the
  seat is touched), the seat's hand and strength, and the ante.
\<close>

fun poker_deal_loop ::
  "string list \<Rightarrow> table_seat list \<Rightarrow> table_pot \<Rightarrow> unit res \<times> table_seat list \<times> table_pot" where
  "poker_deal_loop deck [] p = (Inr (), [], p)"
| "poker_deal_loop deck (s # ss) p =
     (if length deck < 5 then (Inl (IndexError ''pop from empty list''), s # ss, p)
      else let hand = take 5 (rev deck) in
        case hand_strength hand of
          Inl e \<Rightarrow> (Inl e, s # ss, p)
        | Inr v \<Rightarrow>
            let (r, ss', p') = poker_deal_loop (take (length deck - 5) deck) ss (pot_add (seat_id s) ANTE p)
            in (r, deal_hand hand v s # ss', p'))"

definition poker_deal :: "(table_seat list \<times> table_pot \<times> rng, unit) sm" where
  "poker_deal = (\<lambda>(ss, p, tape).
     case shuffle FULL_DECK tape of
       (Inl e, tape') \<Rightarrow> (Inl e, (ss, p, tape'))
     | (Inr deck, tape') \<Rightarrow>
         let (r, ss', p') = poker_deal_loop deck ss p in (r, (ss', p', tape')))"

definition poker_strength :: "table_seat \<Rightarrow> int res" where
  "poker_strength s = (case strength_key (private_state s) of None \<Rightarrow> Inl (KeyError ''strength'') | Some v \<Rightarrow> Inr v)"

definition trace_or_0 :: "table_seat \<Rightarrow> rat" where
  "trace_or_0 s = (case cheat_trace (private_state s) of None \<Rightarrow> 0 | Some x \<Rightarrow> x)"

definition climb :: "rat \<Rightarrow> rat \<Rightarrow> rat" where
  "climb prior jitter = round_digits 4 (min 1 (rnd (rnd (prior + lit 3 10) + rnd (jitter * lit 15 100))))"

fun replace_first :: "'a \<Rightarrow> 'a \<Rightarrow> 'a list \<Rightarrow> 'a list" where
  "replace_first x y [] = []"
| "replace_first x y (z # zs) = (if z = x then y # zs else z # replace_first x y zs)"

definition value_or_0 :: "string \<Rightarrow> int" where
  "value_or_0 c = (case card_value c of Inl _ \<Rightarrow> 0 | Inr v \<Rightarrow> v)"

definition swap_weakest :: "string list \<Rightarrow> string list res" where
  "swap_weakest hand =
     rbind (rmap card_value hand) (\<lambda>_.
     case hand of [] \<Rightarrow> Inl (ValueError ''min() arg is an empty sequence'')
     | h # hs \<Rightarrow>
       let weakest = min_key value_or_0 h hs in
       case filter (\<lambda>c. c \<notin> set hand) FULL_DECK of
         [] \<Rightarrow> Inl (ValueError ''max() arg is an empty sequence'')
       | c # cs \<Rightarrow> Inr (replace_first weakest (max_key value_or_0 c cs) hand))"

definition poker_cheat :: "table_seat \<Rightarrow> (rng, cheat_result \<times> table_seat) sm" where
  "poker_cheat s =
     (case strength_key (private_state s) of
        None \<Rightarrow> raise (KeyError ''strength'')
      | Some before \<Rightarrow>
     (case cards (private_state s) of
        None \<Rightarrow> raise (KeyError ''cards'')
      | Some hand \<Rightarrow>
        sbind (lift_res (swap_weakest hand)) (\<lambda>swapped.
        sbind (lift_res (hand_strength swapped)) (\<lambda>after_swapped.
        let (new_hand, after) = (if after_swapped > before then (swapped, after_swapped) else (hand, before)) in
        sbind random_float (\<lambda>jitter.
        let new = climb (trace_or_0 s) jitter in
        ret (\<lparr>strength_before = before, strength_after = after, new_trace = new\<rparr>,
             on_private (\<lambda>p. p\<lparr>cards := Some new_hand, strength_key := Some after,
               strength_band := Some (band_for after), cheat_trace := Some new\<rparr>) s))))))"

definition read_threshold :: "int \<Rightarrow> rat" where
  "read_threshold reader_stat = max (lit 1 10) (rnd (lit 6 10 - rnd (lit 3 100 * rnd (of_int reader_stat))))"

definition poker_read :: "table_seat \<Rightarrow> table_seat \<Rightarrow> int \<Rightarrow> read_result res" where
  "poker_read reader target reader_stat =
     Inr \<lparr>read_target = seat_id target,
          read_band = (case strength_band (private_state target) of None \<Rightarrow> ''unknown'' | Some b \<Rightarrow> b),
          read_suspicious = Some (trace_or_0 target \<ge> read_threshold reader_stat)\<rparr>"

definition poker_game :: table_game where
  "poker_game = \<lparr>kind_name = ''poker'', g_deal = poker_deal, g_strength = poker_strength,
     g_cheat = poker_cheat, g_read = poker_read, g_custom = default_custom_beat\<rparr>"

section \<open>The packing of a hand's rank\<close>

lemma pack_snoc: "pack c (ds @ [d]) = pack c ds * 100 + d"
  by (simp add: pack_def PACK_BASE_def)

lemma pack_Cons: "pack c (d # ds) = pack (c * 100 + d) ds"
  by (simp add: pack_def PACK_BASE_def)

definition digits :: "int list \<Rightarrow> bool" where
  "digits ds \<longleftrightarrow> (\<forall>d \<in> set ds. 0 \<le> d \<and> d < 100)"

lemma pack_div: "digits ds \<Longrightarrow> pack c ds div 100 ^ length ds = c"
proof (induction ds rule: rev_induct)
  case Nil
  show ?case by (simp add: pack_def)
next
  case (snoc d ds)
  have "0 \<le> d" "d < 100" "digits ds" using snoc.prems by (auto simp: digits_def)
  then have "(pack c ds * 100 + d) div 100 = pack c ds" by simp
  moreover have "(100::int) ^ length (ds @ [d]) = 100 * 100 ^ length ds" by simp
  ultimately have "pack c (ds @ [d]) div 100 ^ length (ds @ [d]) = pack c ds div 100 ^ length ds"
    unfolding pack_snoc by (simp add: zdiv_zmult2_eq)
  then show ?case using snoc \<open>digits ds\<close> by simp
qed

lemma pack_less_category:
  assumes "digits ds" "digits es" "length ds = length es" "a < b"
  shows "pack a ds < pack b es"
proof (rule ccontr)
  assume "\<not> pack a ds < pack b es"
  then have "pack b es div 100 ^ length es \<le> pack a ds div 100 ^ length es"
    by (intro zdiv_mono1) auto
  with pack_div[OF assms(1), of a] pack_div[OF assms(2), of b] assms(3,4) show False by simp
qed

lemma pack_lex:
  assumes "digits ds" "digits es" "length ds = length es"
  shows "pack a ds < pack a es \<longleftrightarrow> ds < es"
  using assms
proof (induction ds arbitrary: es a)
  case Nil
  then show ?case by simp
next
  case (Cons d ds)
  obtain e es' where es: "es = e # es'" using Cons.prems(3) by (cases es) auto
  have D: "digits ds" "digits es'" "length ds = length es'"
    using Cons.prems es by (auto simp: digits_def)
  consider "d < e" | "d = e" | "e < d" by linarith
  then show ?case
  proof cases
    case 1
    then show ?thesis using pack_less_category[OF D, of "a * 100 + d" "a * 100 + e"] es by (simp add: pack_Cons)
  next
    case 2
    then show ?thesis using Cons.IH[OF D] es by (simp add: pack_Cons)
  next
    case 3
    then show ?thesis
      using pack_less_category[OF D(2,1) D(3)[symmetric], of "a * 100 + e" "a * 100 + d"] es by (simp add: pack_Cons)
  qed
qed

section \<open>Every hand of real cards has a rank\<close>

lemma deck_values: "c \<in> set FULL_DECK \<Longrightarrow> \<exists>v. card_value c = Inr v \<and> 2 \<le> v \<and> v \<le> 14"
proof -
  have "list_all (\<lambda>c. case card_value c of Inl _ \<Rightarrow> False | Inr v \<Rightarrow> 2 \<le> v \<and> v \<le> 14) FULL_DECK"
    by code_simp
  moreover assume "c \<in> set FULL_DECK"
  ultimately show ?thesis by (cases "card_value c") (auto simp: list_all_iff split: sum.splits)
qed

lemma deck_suits: "c \<in> set FULL_DECK \<Longrightarrow> \<exists>x. card_suit c = Inr x"
proof -
  have "list_all (\<lambda>c. case card_suit c of Inl _ \<Rightarrow> False | Inr v \<Rightarrow> True) FULL_DECK"
    by code_simp
  moreover assume "c \<in> set FULL_DECK"
  ultimately show ?thesis by (cases "card_suit c") (auto simp: list_all_iff split: sum.splits)
qed

lemma deck_distinct: "distinct FULL_DECK" and deck_length: "length FULL_DECK = 52"
  by code_simp+

lemma rmap_total:
  assumes "\<And>x. x \<in> set xs \<Longrightarrow> \<exists>y. f x = Inr y \<and> P y"
  shows "\<exists>ys. rmap f xs = Inr ys \<and> (\<forall>y \<in> set ys. P y) \<and> length ys = length xs"
  using assms
proof (induction xs)
  case Nil
  show ?case by simp
next
  case (Cons x xs)
  then obtain y ys where "f x = Inr y" "P y" "rmap f xs = Inr ys" "\<forall>y \<in> set ys. P y" "length ys = length xs"
    by (metis list.set_intros)
  then show ?case by simp
qed

lemma categorize_values_range:
  assumes "\<forall>v \<in> set vals. 0 \<le> v \<and> v < 100"
  shows "0 \<le> fst (categorize_values vals suits) \<and> fst (categorize_values vals suits) \<le> 8 \<and>
     digits (snd (categorize_values vals suits))"
proof -
  have "set (map snd (by_count vals)) = set vals" by (force simp: by_count_def)
  then have "digits (map snd (by_count vals))" using assms unfolding digits_def by blast
  moreover have "digits [5, 4, 3, 2, 1]" by (simp add: digits_def)
  ultimately show ?thesis by (simp add: categorize_values_def Let_def)
qed

lemma padded_digits: "digits ds \<Longrightarrow> digits (padded ds)" and length_padded [simp]: "length (padded ds) = TIEBREAK_SLOTS"
  by (auto simp: digits_def padded_def TIEBREAK_SLOTS_def dest: in_set_takeD)

lemma categorize_total:
  assumes "set hand \<subseteq> set FULL_DECK"
  shows "\<exists>k ts. categorize hand = Inr (k, ts) \<and> 0 \<le> k \<and> k \<le> 8 \<and> digits (padded ts)"
proof -
  obtain vals where v: "rmap card_value hand = Inr vals" "\<forall>v \<in> set vals. 2 \<le> v \<and> v \<le> 14"
    using rmap_total[of hand card_value "\<lambda>v. 2 \<le> v \<and> v \<le> 14"] deck_values assms by blast
  obtain suits where s: "rmap card_suit hand = Inr suits"
    using rmap_total[of hand card_suit "\<lambda>_. True"] deck_suits assms by blast
  have r: "\<forall>v \<in> set (rev (sort vals)). 0 \<le> v \<and> v < 100" using v(2) by fastforce
  obtain k ts where k: "categorize_values (rev (sort vals)) suits = (k, ts)" by fastforce
  show ?thesis
    using categorize_values_range[OF r, of suits] k v(1) s padded_digits[of ts] by (simp add: categorize_def)
qed

lemma hand_strength_total: "set hand \<subseteq> set FULL_DECK \<Longrightarrow> \<exists>v. hand_strength hand = Inr v"
  using categorize_total[of hand] by (auto simp: hand_strength_def)

section \<open>Dealing\<close>

definition hands :: "table_seat list \<Rightarrow> string list" where
  "hands ss = concat (map (\<lambda>s. case cards (private_state s) of None \<Rightarrow> [] | Some h \<Rightarrow> h) ss)"

definition dealt :: "table_seat \<Rightarrow> bool" where
  "dealt s \<longleftrightarrow> (\<exists>h v. cards (private_state s) = Some h \<and> length h = 5 \<and> hand_strength h = Inr v \<and>
     strength_key (private_state s) = Some v \<and> strength_band (private_state s) = Some (band_for v) \<and>
     cheat_trace (private_state s) = Some 0)"

lemma deal_loop_ok:
  assumes "set deck \<subseteq> set FULL_DECK" "5 * length ss \<le> length deck"
  shows "\<exists>ss' p'. poker_deal_loop deck ss p = (Inr (), ss', p') \<and> list_all dealt ss' \<and>
     mset (hands ss') \<subseteq># mset deck \<and> length ss' = length ss"
  using assms
proof (induction deck ss p rule: poker_deal_loop.induct)
  case (1 deck p)
  then show ?case by (simp add: hands_def)
next
  case (2 deck s ss p)
  let ?hand = "take 5 (rev deck)" and ?rest = "take (length deck - 5) deck"
  have len: "5 \<le> length deck" using "2.prems"(2) by simp
  have hand: "?hand = rev (drop (length deck - 5) deck)" using len by (simp add: rev_drop)
  obtain v where v: "hand_strength ?hand = Inr v"
    using hand_strength_total[of ?hand] "2.prems"(1) by (metis set_rev set_take_subset subset_trans)
  have "set ?rest \<subseteq> set FULL_DECK" using "2.prems"(1) set_take_subset by (rule subset_trans[rotated])
  moreover have rest_len: "5 * length ss \<le> length ?rest" using "2.prems"(2) by simp
  ultimately obtain ss' p' where IH: "poker_deal_loop ?rest ss (pot_add (seat_id s) ANTE p) = (Inr (), ss', p')"
      "list_all dealt ss'" "mset (hands ss') \<subseteq># mset ?rest" "length ss' = length ss"
    using "2.IH"[OF _ refl v] len rest_len by auto
  have "mset deck = mset ?hand + mset ?rest"
    unfolding hand mset_rev by (metis append_take_drop_id mset_append union_commute)
  moreover have "hands (deal_hand ?hand v s # ss') = ?hand @ hands ss'"
    by (simp add: hands_def deal_hand_def on_private_def)
  ultimately have "mset (hands (deal_hand ?hand v s # ss')) \<subseteq># mset deck" using IH(3) by simp
  moreover have "dealt (deal_hand ?hand v s)"
    using v len by (simp add: dealt_def deal_hand_def on_private_def)
  ultimately show ?case using IH v len by (simp add: Let_def)
qed

lemma deal_loop_frame:
  "list_all2 (\<lambda>s t. seat_evolves s t \<and> seat_status t = seat_status s) ss (fst (snd (poker_deal_loop deck ss p)))"
  by (induction deck ss p rule: poker_deal_loop.induct)
    (auto simp: list_all2_same deal_hand_def on_private_def seat_evolves_def Let_def split: sum.splits prod.splits)

section \<open>The trace a cheat leaves\<close>

lemma rnd_error_2:
  assumes "0 \<le> x" "x < 2"
  shows "x - 1 / 1000000 \<le> rnd x" "rnd x \<le> x + 1 / 1000000"
proof -
  have "\<bar>rnd x - x\<bar> \<le> 1 / 1000000"
  proof (cases "x = 0")
    case False
    with assms have "\<bar>rnd x - x\<bar> \<le> 2 powi (1 - 53) / 2" by (intro rnd_error_pos) auto
    also have "\<dots> \<le> 1 / 1000000" by (simp add: power_int_def power_divide)
    finally show ?thesis .
  qed simp
  then show "x - 1 / 1000000 \<le> rnd x" "rnd x \<le> x + 1 / 1000000" unfolding abs_le_iff by linarith+
qed

lemma round_digits_4_error:
  assumes "0 \<le> x" "x \<le> 1"
  shows "x - 1 / 1000 \<le> round_digits 4 x"
proof -
  let ?n = "rhe (x * 10 ^ 4)" and ?q = "of_int (rhe (x * 10 ^ 4)) / 10 ^ 4 :: rat"
  have e: "\<bar>of_int ?n - x * 10 ^ 4\<bar> \<le> 1 / 2" by (rule rhe_error)
  have q: "x - 1 / 20000 \<le> ?q" "?q \<le> x + 1 / 20000" using e unfolding abs_le_iff by (simp_all add: field_simps)
  have "rhe (of_int 0) \<le> ?n" using assms by (intro rhe_mono) simp
  then have "0 \<le> ?n" by (simp only: rhe_int)
  then have "0 \<le> ?q" by simp
  then have "?q - 1 / 1000000 \<le> rnd ?q" using q(2) assms(2) by (intro rnd_error_2(1)) linarith+
  with q(1) show ?thesis unfolding round_digits_def by linarith
qed

lemma lit_bounds: "29 / 100 \<le> lit 3 10" "lit 3 10 \<le> 31 / 100" "14 / 100 \<le> lit 15 100" "lit 15 100 \<le> 16 / 100"
  using rnd_error_2[of "3 / 10"] rnd_error_2[of "15 / 100"] by (simp_all add: lit_def)

lemma climb_bounds:
  assumes p: "0 \<le> prior" "prior \<le> 1" and j: "0 \<le> jitter" "jitter < 1"
  shows "min 1 (prior + 1 / 4) \<le> climb prior jitter" "climb prior jitter \<le> 1"
proof -
  let ?a = "rnd (prior + lit 3 10)" and ?b = "rnd (jitter * lit 15 100)"
  let ?c = "rnd (?a + ?b)"
  have "0 \<le> jitter * lit 15 100" using j(1) lit_bounds(3) by (intro mult_nonneg_nonneg) linarith+
  moreover have "jitter * lit 15 100 \<le> 1 * (16 / 100)" using j lit_bounds(3,4) by (intro mult_mono) linarith+
  ultimately have b: "0 \<le> ?b" "?b \<le> 17 / 100"
    using rnd_nonneg[of "jitter * lit 15 100"] rnd_error_2(2)[of "jitter * lit 15 100"] by linarith+
  have a: "prior + 28 / 100 \<le> ?a" "?a \<le> 14 / 10"
    using rnd_error_2[of "prior + lit 3 10"] lit_bounds(1,2) p by linarith+
  have low: "prior + 27 / 100 \<le> ?c" using rnd_error_2(1)[of "?a + ?b"] a b p by linarith
  show "climb prior jitter \<le> 1"
    using round_digits_mono[of "min 1 ?c" 1 4] round_digits_int[of 1 4] by (simp add: climb_def)
  show "min 1 (prior + 1 / 4) \<le> climb prior jitter"
  proof (cases "1 \<le> ?c")
    case True
    then have "climb prior jitter = 1" using round_digits_int[of 1 4] by (simp add: climb_def)
    then show ?thesis by simp
  next
    case False
    have "?c - 1 / 1000 \<le> round_digits 4 ?c" using False low p by (intro round_digits_4_error) auto
    moreover have "climb prior jitter = round_digits 4 ?c" using False by (simp add: climb_def)
    ultimately show ?thesis using low by linarith
  qed
qed

section \<open>Cheating never weakens the hand\<close>

definition hand_ok :: "string list \<Rightarrow> bool" where
  "hand_ok h \<longleftrightarrow> length h = 5 \<and> distinct h \<and> set h \<subseteq> set FULL_DECK"

lemma replace_first_props:
  assumes "distinct xs" "y \<notin> set xs"
  shows "length (replace_first x y xs) = length xs" "distinct (replace_first x y xs)"
    "set (replace_first x y xs) \<subseteq> insert y (set xs)"
  using assms by (induction xs) auto

lemma swap_weakest_ok:
  assumes "hand_ok h"
  shows "\<exists>h'. swap_weakest h = Inr h' \<and> hand_ok h'"
proof -
  have h: "length h = 5" "distinct h" "set h \<subseteq> set FULL_DECK" using assms by (auto simp: hand_ok_def)
  obtain vals where vals: "rmap card_value h = Inr vals"
    using rmap_total[of h card_value "\<lambda>_. True"] deck_values h(3) by blast
  obtain x xs where x: "h = x # xs" using h(1) by (cases h) auto
  have "\<not> set FULL_DECK \<subseteq> set h"
  proof
    assume "set FULL_DECK \<subseteq> set h"
    then have "card (set FULL_DECK) \<le> card (set h)" by (intro card_mono) auto
    then show False using h(1,2) deck_distinct deck_length by (simp add: distinct_card)
  qed
  then obtain c cs where c: "filter (\<lambda>c. c \<notin> set h) FULL_DECK = c # cs"
    by (cases "filter (\<lambda>c. c \<notin> set h) FULL_DECK") (auto simp: filter_empty_conv)
  let ?r = "max_key value_or_0 c cs"
  have "?r \<in> set (c # cs)" using max_key_in[of value_or_0 c cs] by simp
  then have r: "?r \<in> set FULL_DECK" "?r \<notin> set h" unfolding c[symmetric] by auto
  let ?h' = "replace_first (min_key value_or_0 x xs) ?r h"
  have "hand_ok ?h'" using replace_first_props[OF h(2) r(2)] h r(1) by (fastforce simp: hand_ok_def)
  moreover have "swap_weakest h = Inr ?h'" using vals c x by (simp add: swap_weakest_def)
  ultimately show ?thesis by blast
qed

lemma cheat_ok:
  assumes "strength_key (private_state s) = Some before" "cards (private_state s) = Some h"
    and "hand_ok h" "hand_strength h = Inr before" "0 \<le> trace_or_0 s" "trace_or_0 s \<le> 1"
  shows "ok (poker_cheat s) (\<lambda>(r, s'). strength_before r = before \<and> before \<le> strength_after r \<and>
     min 1 (trace_or_0 s + 1 / 4) \<le> new_trace r \<and> new_trace r \<le> 1 \<and>
     cheat_trace (private_state s') = Some (new_trace r) \<and>
     strength_key (private_state s') = Some (strength_after r) \<and>
     (\<exists>h'. cards (private_state s') = Some h' \<and> hand_ok h' \<and> hand_strength h' = Inr (strength_after r)) \<and>
     seat_evolves s s')"
proof -
  obtain h' where h': "swap_weakest h = Inr h'" "hand_ok h'" using swap_weakest_ok[OF assms(3)] by blast
  then obtain v where v: "hand_strength h' = Inr v"
    using hand_strength_total[of h'] by (auto simp: hand_ok_def)
  let ?hand = "if v > before then h' else h" and ?after = "if v > before then v else before"
  have "poker_cheat s = sbind random_float (\<lambda>jitter.
      ret (\<lparr>strength_before = before, strength_after = ?after, new_trace = climb (trace_or_0 s) jitter\<rparr>,
           on_private (\<lambda>p. p\<lparr>cards := Some ?hand, strength_key := Some ?after,
             strength_band := Some (band_for ?after), cheat_trace := Some (climb (trace_or_0 s) jitter)\<rparr>) s))"
    using assms(1,2) h'(1) v by (simp add: poker_cheat_def Let_def)
  moreover have "before \<le> ?after" "hand_ok ?hand" "hand_strength ?hand = Inr ?after" using assms(3,4) h' v by auto
  ultimately show ?thesis
    using climb_bounds[OF assms(5,6)]
    by (auto simp: on_private_def seat_evolves_def intro!: ok_sbind[OF random_float_ok] ok_ret)
qed

lemma read_threshold_antimono: "a \<le> b \<Longrightarrow> read_threshold b \<le> read_threshold a"
proof -
  assume "a \<le> b"
  have "0 \<le> lit 3 100" unfolding lit_def by (intro rnd_nonneg) simp
  moreover have "rnd (of_int a) \<le> rnd (of_int b)" using \<open>a \<le> b\<close> by (intro rnd_mono) simp
  ultimately have "rnd (lit 3 100 * rnd (of_int a)) \<le> rnd (lit 3 100 * rnd (of_int b))"
    by (intro rnd_mono[OF mult_left_mono])
  then show ?thesis unfolding read_threshold_def by (intro max.mono rnd_mono) auto
qed

lemma poker_cheat_frame: "poker_cheat s tape = (Inr (r, s'), tape') \<Longrightarrow> seat_evolves s s'"
  by (auto simp: poker_cheat_def Let_def sbind_def raise_def lift_res_def ret_def
      split: option.splits sum.splits prod.splits if_splits)

lemma poker_deal_frame:
  "list_all2 (\<lambda>s t. seat_evolves s t \<and> seat_status t = seat_status s) ss (fst (snd (poker_deal (ss, p, tape))))"
proof -
  obtain r tape' where sh: "shuffle FULL_DECK tape = (r, tape')" by fastforce
  show ?thesis
  proof (cases r)
    case (Inl e)
    then show ?thesis by (simp add: poker_deal_def sh list_all2_same)
  next
    case (Inr deck)
    obtain r' ss' p' where d: "poker_deal_loop deck ss p = (r', ss', p')" by (cases "poker_deal_loop deck ss p") auto
    show ?thesis using deal_loop_frame[of ss deck p] unfolding d by (simp add: poker_deal_def sh Inr d)
  qed
qed

interpretation poker: lawful_game poker_game
proof unfold_locales
  fix ss p tape
  show "list_all2 (\<lambda>s t. seat_evolves s t \<and> seat_status t = seat_status s) ss
      (fst (snd (g_deal poker_game (ss, p, tape))))"
    unfolding poker_game_def table_game.simps by (rule poker_deal_frame)
next
  fix s tape r s' tape'
  assume "g_cheat poker_game s tape = (Inr (r, s'), tape')"
  then show "seat_evolves s s'" by (auto simp: poker_game_def dest: poker_cheat_frame)
next
  fix s c st tape
  show "\<exists>sh. fst (snd (g_custom poker_game s c (st, tape))) = st\<lparr>shared_state := sh\<rparr>"
    by (rule exI[of _ "shared_state st"]) (simp add: poker_game_def default_custom_beat_def raise_def)
qed

end
