(* ===== verification/Table_Kinds.thy ===== *)
theory Table_Kinds
  imports Table_Poker
begin

text \<open>
  The other two game kinds, the auction (src/sidequest/game/table/auction.py) and the crewed War Rig
  (war_rig.py), the registry the three build at import, and the policy that commits for NPC seats
  (npc_policy.py).
\<close>

section \<open>The auction\<close>

definition BANDS :: "string list" where
  "BANDS = [''weak'', ''marginal'', ''decent'', ''strong'', ''monster'']"

definition AUCTION_CEILING :: int where "AUCTION_CEILING = 100"

definition band_for_valuation :: "int \<Rightarrow> int \<Rightarrow> string res" where
  "band_for_valuation v cap =
     (let frac = rnd (of_int v / of_int cap);
          idx = min (int (length BANDS) - 1) (trunc (rnd (frac * of_int (int (length BANDS)))))
      in py_index BANDS idx)"

definition auction_deal_seat :: "table_seat \<Rightarrow> (rng, table_seat) sm" where
  "auction_deal_seat s =
     sbind (randint 10 AUCTION_CEILING) (\<lambda>v.
     sbind (lift_res (band_for_valuation v AUCTION_CEILING)) (\<lambda>band.
       ret (on_private (\<lambda>p. p\<lparr>valuation := Some v, max_bid := Some v, strength_band := Some band,
                              current_bid := Some 0\<rparr>) s)))"

definition auction_deal :: "(table_seat list \<times> table_pot \<times> rng, unit) sm" where
  "auction_deal = (\<lambda>(ss, p, tape).
     case smap auction_deal_seat ss tape of
       (Inl e, tape') \<Rightarrow> (Inl e, (ss, p, tape'))
     | (Inr ss', tape') \<Rightarrow> (Inr (), (ss', p, tape')))"

definition auction_strength :: "table_seat \<Rightarrow> int res" where
  "auction_strength s =
     (let bid = int_or_0 (current_bid (private_state s)); limit = int_or_0 (max_bid (private_state s))
      in Inr (if bid \<le> limit then bid else -1))"

definition auction_read :: "table_seat \<Rightarrow> table_seat \<Rightarrow> int \<Rightarrow> read_result res" where
  "auction_read reader target reader_stat =
     Inr \<lparr>read_target = seat_id target,
          read_band = (case strength_band (private_state target) of None \<Rightarrow> ''unknown'' | Some b \<Rightarrow> b),
          read_suspicious = None\<rparr>"

definition auction_game :: table_game where
  "auction_game = \<lparr>kind_name = ''auction'', g_deal = auction_deal, g_strength = auction_strength,
     g_cheat = default_cheat, g_read = auction_read, g_custom = default_custom_beat\<rparr>"

section \<open>The crewed War Rig\<close>

definition WAR_RIG_STATIONS :: "string list" where
  "WAR_RIG_STATIONS = [''driver'', ''gunner'', ''wrench'', ''spotter'', ''road_boss'']"

definition WAR_RIG_STATION_VERBS :: "string list" where
  "WAR_RIG_STATION_VERBS = [''steer'', ''shoot'', ''repair'', ''scan'']"

definition WAR_RIG_COMMAND_VERBS :: "string list" where
  "WAR_RIG_COMMAND_VERBS = map fst CP_ACTION_COSTS"

definition WAR_RIG_DEAL_WITH_CRISIS :: string where "WAR_RIG_DEAL_WITH_CRISIS = ''deal_with_crisis''"
definition WAR_RIG_DEFAULT_COMMAND_POINTS :: int where "WAR_RIG_DEFAULT_COMMAND_POINTS = 4"
definition WAR_RIG_DEFAULT_HULL :: int where "WAR_RIG_DEFAULT_HULL = 6"

definition war_rig_deal :: "(table_seat list \<times> table_pot \<times> rng, unit) sm" where
  "war_rig_deal = (\<lambda>(ss, p, tape).
     (Inr (), (map (\<lambda>(i, s). on_private (\<lambda>q. q\<lparr>station := Some (WAR_RIG_STATIONS ! (i mod length WAR_RIG_STATIONS))\<rparr>) s)
                 (enumerate 0 ss), p, tape)))"

definition war_rig_strength :: "table_seat \<Rightarrow> int res" where
  "war_rig_strength s = Inr 0"

definition vessel_of :: "table_state \<Rightarrow> string" where
  "vessel_of st = ''war_rig_crew:'' @ dealer_seat st"

definition shared_cp_pool :: "table_state \<Rightarrow> command_point_pool res" where
  "shared_cp_pool st =
     (case command_points (shared_state st) of
        Some pool \<Rightarrow> Inr pool
      | None \<Rightarrow> cp_check_bounds \<lparr>cp_current = WAR_RIG_DEFAULT_COMMAND_POINTS,
                  cp_max = WAR_RIG_DEFAULT_COMMAND_POINTS, cp_vessel_id = vessel_of st\<rparr>)"

definition shared_war_rig_hull :: "table_state \<Rightarrow> war_rig_hull res" where
  "shared_war_rig_hull st =
     (case shared_hull (shared_state st) of
        Some h \<Rightarrow> Inr h
      | None \<Rightarrow> hull_check_bounds \<lparr>hull_current = WAR_RIG_DEFAULT_HULL, hull_max = WAR_RIG_DEFAULT_HULL,
                  hull_base_max = WAR_RIG_DEFAULT_HULL, vessel_id = vessel_of st\<rparr>)"

definition put_cp :: "command_point_pool \<Rightarrow> table_state \<Rightarrow> table_state" where
  "put_cp pool st = st\<lparr>shared_state := (shared_state st)\<lparr>command_points := Some pool\<rparr>\<rparr>"

definition put_hull :: "war_rig_hull option \<Rightarrow> table_state \<Rightarrow> table_state" where
  "put_hull h st = st\<lparr>shared_state := (shared_state st)\<lparr>shared_hull := h\<rparr>\<rparr>"

definition war_rig_command :: "string \<Rightarrow> (table_state \<times> rng, unit) sm" where
  "war_rig_command verb = (\<lambda>(st, tape).
     case shared_cp_pool st of
       Inl e \<Rightarrow> (Inl e, (st, tape))
     | Inr pool \<Rightarrow>
         let (r, (pool', tape')) = spend_command_points verb (pool, tape)
         in (case r of Inl e \<Rightarrow> Inl e | Inr _ \<Rightarrow> Inr (), (put_cp pool' st, tape')))"

definition war_rig_crisis :: "(table_state \<times> rng, unit) sm" where
  "war_rig_crisis = (\<lambda>(st, tape).
     case shared_war_rig_hull st of
       Inl e \<Rightarrow> (Inl e, (st, tape))
     | Inr h \<Rightarrow>
       (case roll_crisis tape of
          (Inl e, tape1) \<Rightarrow> (Inl e, (put_hull (Some h) st, tape1))
        | (Inr (face, entry), tape1) \<Rightarrow>
            let (r, (h', tape2)) = deal_with_crisis entry 0 (Some h, tape1)
            in (case r of Inl e \<Rightarrow> Inl e | Inr _ \<Rightarrow> Inr (), (put_hull h' st, tape2))))"

definition war_rig_custom_beat :: "table_seat \<Rightarrow> table_commit \<Rightarrow> (table_state \<times> rng, unit) sm" where
  "war_rig_custom_beat s c =
     (let verb = beat_id c in
      if verb \<in> set WAR_RIG_STATION_VERBS then ret ()
      else if verb \<in> set WAR_RIG_COMMAND_VERBS then war_rig_command verb
      else if verb = WAR_RIG_DEAL_WITH_CRISIS then war_rig_crisis
      else raise (ValueError ''war_rig_crew has no station verb''))"

definition war_rig_game :: table_game where
  "war_rig_game = \<lparr>kind_name = ''war_rig_crew'', g_deal = war_rig_deal, g_strength = war_rig_strength,
     g_cheat = default_cheat, g_read = default_read, g_custom = war_rig_custom_beat\<rparr>"

section \<open>The registry after import\<close>

definition import_registry :: "registry res" where
  "import_registry = rfold register_table_game [auction_game, poker_game, war_rig_game] []"

definition REGISTRY :: registry where
  "REGISTRY = [(''auction'', auction_game), (''poker'', poker_game), (''war_rig_crew'', war_rig_game)]"

section \<open>The NPC policy\<close>

definition BAND_RANK :: "(string \<times> int) list" where
  "BAND_RANK = [(''weak'', 0), (''marginal'', 1), (''decent'', 2), (''strong'', 3), (''monster'', 4)]"

text \<open>
  \<open>authored\<close> is the set of authored beats in the order Python's set iteration happens to give;
  \<open>next(iter(available))\<close> is its head.
\<close>

fun first_authored :: "string list \<Rightarrow> string list \<Rightarrow> string \<Rightarrow> string" where
  "first_authored [] authored fallback = fallback"
| "first_authored (p # ps) authored fallback =
     (if p \<in> set authored then p else first_authored ps authored fallback)"

text \<open>The normal hand-strength logic, once the larceny roll has fallen through.\<close>

definition by_hand :: "int \<Rightarrow> rat \<Rightarrow> int \<Rightarrow> string list \<Rightarrow> string \<Rightarrow> string \<Rightarrow> string \<Rightarrow> (rng, string) sm" where
  "by_hand rank neuro pot authored drop_out aggressive passive =
     (if rank = 0 then
        (if neuro \<ge> lit 6 10 then ret drop_out
         else if pot \<ge> 10 then ret drop_out
         else sbind random_float (\<lambda>x. ret (if x < lit 40 100 \<and> ''bluff'' \<in> set authored then ''bluff'' else drop_out)))
      else if rank \<ge> 3 then
        sbind (if neuro < lit 40 100 then sbind random_float (\<lambda>x. ret (x < lit 50 100)) else ret False) (\<lambda>slow.
          ret (if slow then passive else aggressive))
      else sbind random_float (\<lambda>x. ret (if x < lit 25 100 then aggressive else passive)))"

definition choose_beat :: "int \<Rightarrow> rat \<Rightarrow> string \<Rightarrow> int \<Rightarrow> string list \<Rightarrow> (rng, string) sm" where
  "choose_beat rank neuro dispo pot authored =
     (let drop_out = first_authored [''fold'', ''withdraw''] authored (hd authored);
          aggressive = first_authored [''raise'', ''raise_bid'', ''bet''] authored drop_out;
          passive = first_authored [''call'', ''raise_bid''] authored drop_out in
      sbind (if dispo = ''larcenous'' \<and> rank \<le> 2
             then sbind random_float (\<lambda>x. ret (x < lit 35 100)) else ret False) (\<lambda>larceny.
      if larceny \<and> ''cheat'' \<in> set authored then ret ''cheat''
      else by_hand rank neuro pot authored drop_out aggressive passive))"

definition bet_amount :: "string \<Rightarrow> int \<Rightarrow> (rng, int) sm" where
  "bet_amount beat rank =
     (if beat \<in> {''raise'', ''raise_bid'', ''bluff'', ''bet''}
      then sbind (randint 0 2) (\<lambda>k. ret (1 + rank + k))
      else ret (if beat = ''call'' then 1 else 0))"

fun pick_opponent :: "table_state \<Rightarrow> string \<Rightarrow> string list \<Rightarrow> string option" where
  "pick_opponent st me [] = None"
| "pick_opponent st me (sid # sids) =
     (case find_seat st sid of
        Some s \<Rightarrow> if seat_id s \<noteq> me \<and> seat_status s = Active then Some (seat_id s) else pick_opponent st me sids
      | None \<Rightarrow> pick_opponent st me sids)"

definition decide_npc_commit :: "table_state \<Rightarrow> table_seat \<Rightarrow> string list \<Rightarrow> (rng, table_commit) sm" where
  "decide_npc_commit st npc authored =
     (if authored = [] then raise (ValueError ''decide_npc_commit: available_beats is empty'')
      else
        let band = (case strength_band (private_state npc) of None \<Rightarrow> ''weak'' | Some b \<Rightarrow> b);
            rank = dict_get BAND_RANK band 0;
            neuro = (case neuroticism (private_state npc) of None \<Rightarrow> lit 5 10 | Some x \<Rightarrow> x);
            dispo = (case disposition (private_state npc) of None \<Rightarrow> ''neutral'' | Some d \<Rightarrow> d);
            pot = sum_list (map snd (contributions (table_pot st))) in
        sbind (choose_beat rank neuro dispo pot authored) (\<lambda>beat.
        sbind (bet_amount beat rank) (\<lambda>amt.
        if beat \<in> {''read_table'', ''read_room'', ''accuse''}
        then (case pick_opponent st (seat_id npc) (order st) of
                Some t \<Rightarrow> ret \<lparr>commit_seat = seat_id npc, beat_id = beat, amount = amt, target_seat = Some t\<rparr>
              | None \<Rightarrow> ret \<lparr>commit_seat = seat_id npc,
                            beat_id = first_authored [''fold'', ''withdraw''] authored (hd authored),
                            amount = 0, target_seat = None\<rparr>)
        else ret \<lparr>commit_seat = seat_id npc, beat_id = beat, amount = amt, target_seat = None\<rparr>)))"

section \<open>The kinds respect the engine's contract\<close>

lemma import_registry_eq: "import_registry = Inr REGISTRY"
  by (simp add: import_registry_def register_table_game_def REGISTRY_def auction_game_def poker_game_def war_rig_game_def)

lemma smap_frame:
  assumes "\<And>x t y t'. f x t = (Inr y, t') \<Longrightarrow> R x y"
  shows "smap f xs t = (Inr ys, t') \<Longrightarrow> list_all2 R xs ys"
proof (induction xs arbitrary: t ys)
  case Nil
  then show ?case by (simp add: ret_def)
next
  case (Cons x xs)
  then show ?case
    using assms by (auto simp: sbind_def ret_def split: prod.splits sum.splits)
qed

lemma auction_seat_frame:
  "auction_deal_seat s t = (Inr s', t') \<Longrightarrow> seat_evolves s s' \<and> seat_status s' = seat_status s"
  by (auto simp: auction_deal_seat_def sbind_def lift_res_def ret_def on_private_def seat_evolves_def
      split: prod.splits sum.splits)

interpretation auction: lawful_game auction_game
proof unfold_locales
  fix ss p tape
  obtain r t where d: "smap auction_deal_seat ss tape = (r, t)" by fastforce
  show "list_all2 (\<lambda>s t. seat_evolves s t \<and> seat_status t = seat_status s) ss
      (fst (snd (g_deal auction_game (ss, p, tape))))"
    using smap_frame[of auction_deal_seat "\<lambda>s t. seat_evolves s t \<and> seat_status t = seat_status s", OF auction_seat_frame] d
    by (cases r) (auto simp: auction_game_def auction_deal_def list_all2_same)
next
  fix s tape r s' tape'
  assume "g_cheat auction_game s tape = (Inr (r, s'), tape')"
  then show "seat_evolves s s'" by (simp add: auction_game_def default_cheat_def raise_def)
next
  fix s c st tape
  show "\<exists>sh. fst (snd (g_custom auction_game s c (st, tape))) = st\<lparr>shared_state := sh\<rparr>"
    by (rule exI[of _ "shared_state st"]) (simp add: auction_game_def default_custom_beat_def raise_def)
qed

lemma war_rig_command_frame: "\<exists>sh. fst (snd (war_rig_command verb (st, tape))) = st\<lparr>shared_state := sh\<rparr>"
proof (cases "shared_cp_pool st")
  case (Inl e)
  then show ?thesis by (intro exI[of _ "shared_state st"]) (simp add: war_rig_command_def)
next
  case (Inr p)
  then show ?thesis by (auto simp: war_rig_command_def put_cp_def split: prod.splits)
qed

lemma war_rig_crisis_frame: "\<exists>sh. fst (snd (war_rig_crisis (st, tape))) = st\<lparr>shared_state := sh\<rparr>"
proof (cases "shared_war_rig_hull st")
  case (Inl e)
  then show ?thesis by (intro exI[of _ "shared_state st"]) (simp add: war_rig_crisis_def)
next
  case (Inr h)
  then show ?thesis by (auto simp: war_rig_crisis_def put_hull_def split: prod.splits sum.splits)
qed

lemma war_rig_custom_frame: "\<exists>sh. fst (snd (war_rig_custom_beat s c (st, tape))) = st\<lparr>shared_state := sh\<rparr>"
proof -
  have "\<exists>sh. st = st\<lparr>shared_state := sh\<rparr>" by (rule exI[of _ "shared_state st"]) simp
  then show ?thesis
    using war_rig_command_frame[of "beat_id c" st tape] war_rig_crisis_frame[of st tape]
    by (simp add: war_rig_custom_beat_def Let_def ret_def raise_def)
qed

interpretation war_rig: lawful_game war_rig_game
proof unfold_locales
  fix ss p tape
  show "list_all2 (\<lambda>s t. seat_evolves s t \<and> seat_status t = seat_status s) ss
      (fst (snd (g_deal war_rig_game (ss, p, tape))))"
    by (auto simp: war_rig_game_def war_rig_deal_def list_all2_conv_all_nth nth_enumerate_eq on_private_def seat_evolves_def)
next
  fix s tape r s' tape'
  assume "g_cheat war_rig_game s tape = (Inr (r, s'), tape')"
  then show "seat_evolves s s'" by (simp add: war_rig_game_def default_cheat_def raise_def)
next
  fix s c st tape
  show "\<exists>sh. fst (snd (g_custom war_rig_game s c (st, tape))) = st\<lparr>shared_state := sh\<rparr>"
    using war_rig_custom_frame by (simp add: war_rig_game_def)
qed

lemma registry_lawful: "get_table_game REGISTRY k = Inr g \<Longrightarrow> lawful_game g"
  using poker.lawful_game_axioms auction.lawful_game_axioms war_rig.lawful_game_axioms
  by (auto simp: get_table_game_def REGISTRY_def split: if_splits)

section \<open>The auction's bands and bids\<close>

lemma band_for_valuation_ok:
  assumes "0 \<le> v" shows "\<exists>b \<in> set BANDS. band_for_valuation v AUCTION_CEILING = Inr b"
proof -
  let ?x = "rnd (rnd (of_int v / of_int AUCTION_CEILING) * of_int (int (length BANDS)))"
  have "0 \<le> ?x" using assms by (intro rnd_nonneg mult_nonneg_nonneg) (auto simp: AUCTION_CEILING_def)
  then have "0 \<le> trunc ?x" by (simp add: trunc_def)
  then have "0 \<le> min (int (length BANDS) - 1) (trunc ?x)" by (simp add: BANDS_def)
  moreover have "min (int (length BANDS) - 1) (trunc ?x) < int (length BANDS)" by simp
  moreover have "\<exists>b \<in> set BANDS. py_index BANDS i = Inr b" if "0 \<le> i" "i < int (length BANDS)" for i
    using that by (auto simp: py_index_def Let_def nat_less_iff)
  ultimately show ?thesis unfolding band_for_valuation_def Let_def by blast
qed

lemma auction_deal_seat_ok:
  "ok (auction_deal_seat s) (\<lambda>s'. \<exists>v. 10 \<le> v \<and> v \<le> AUCTION_CEILING \<and>
     valuation (private_state s') = Some v \<and> max_bid (private_state s') = Some v \<and>
     current_bid (private_state s') = Some 0 \<and> auction_strength s' = Inr 0)"
  unfolding auction_deal_seat_def
proof (rule ok_sbind[OF randint_ok])
  fix v assume v: "10 \<le> v \<and> v \<le> AUCTION_CEILING"
  then obtain b where "band_for_valuation v AUCTION_CEILING = Inr b" using band_for_valuation_ok[of v] by auto
  with v show "ok (sbind (lift_res (band_for_valuation v AUCTION_CEILING)) (\<lambda>band.
       ret (on_private (\<lambda>p. p\<lparr>valuation := Some v, max_bid := Some v, strength_band := Some band,
                              current_bid := Some 0\<rparr>) s)))
     (\<lambda>s'. \<exists>v. 10 \<le> v \<and> v \<le> AUCTION_CEILING \<and>
     valuation (private_state s') = Some v \<and> max_bid (private_state s') = Some v \<and>
     current_bid (private_state s') = Some 0 \<and> auction_strength s' = Inr 0)"
    by (auto intro!: ok_ret simp: on_private_def auction_strength_def int_or_0_def)
qed (simp add: AUCTION_CEILING_def)

section \<open>The policy only commits authored beats\<close>

lemma first_authored_in: "fallback \<in> set authored \<Longrightarrow> first_authored ps authored fallback \<in> set authored"
  by (induction ps) auto

lemma roll_ok: "ok (if b then sbind random_float (\<lambda>x. ret (x < p)) else ret False) (\<lambda>_. True)"
  by (auto intro!: ok_sbind[OF random_float_ok] ok_ret)

lemma by_hand_ok:
  assumes "d \<in> set authored" "a \<in> set authored" "p \<in> set authored"
  shows "ok (by_hand rank neuro pot authored d a p) (\<lambda>b. b \<in> set authored)"
  unfolding by_hand_def
  by (intro ok_if ok_sbind[OF roll_ok] ok_sbind[OF random_float_ok] ok_ret) (use assms in auto)

lemma choose_beat_ok:
  assumes "authored \<noteq> []"
  shows "ok (choose_beat rank neuro dispo pot authored) (\<lambda>b. b \<in> set authored)"
  unfolding choose_beat_def Let_def
proof (rule ok_sbind[OF roll_ok])
  fix larceny
  have "hd authored \<in> set authored" using assms by simp
  note first_authored_in[OF this] first_authored_in[OF first_authored_in[OF this]]
  note rest = by_hand_ok[OF this(1,2,2), of rank neuro pot]
  show "ok (if larceny \<and> ''cheat'' \<in> set authored then ret ''cheat''
      else by_hand rank neuro pot authored (first_authored [''fold'', ''withdraw''] authored (hd authored))
        (first_authored [''raise'', ''raise_bid'', ''bet''] authored
          (first_authored [''fold'', ''withdraw''] authored (hd authored)))
        (first_authored [''call'', ''raise_bid''] authored
          (first_authored [''fold'', ''withdraw''] authored (hd authored))))
     (\<lambda>b. b \<in> set authored)"
    by (cases "larceny \<and> ''cheat'' \<in> set authored") (simp_all add: ok_ret rest del: first_authored.simps)
qed

lemma bet_amount_ok: "0 \<le> rank \<Longrightarrow> ok (bet_amount beat rank) (\<lambda>a. 0 \<le> a)"
  unfolding bet_amount_def by (auto intro!: ok_sbind[OF randint_ok] ok_ret)

lemma BAND_RANK_nonneg: "0 \<le> dict_get BAND_RANK band 0"
  by (simp add: dict_get_def BAND_RANK_def)

lemma pick_opponent_active:
  "pick_opponent st me sids = Some t \<Longrightarrow> t \<noteq> me \<and> (\<exists>s \<in> set (seats st). seat_id s = t \<and> seat_status s = Active)"
  by (induction sids) (auto simp: find_seat_def find_Some_iff split: option.splits if_splits)

lemma decide_npc_commit_ok:
  assumes "authored \<noteq> []"
  shows "ok (decide_npc_commit st npc authored)
     (\<lambda>c. beat_id c \<in> set authored \<and> commit_seat c = seat_id npc \<and> 0 \<le> amount c \<and>
        (\<forall>t. target_seat c = Some t \<longrightarrow>
           t \<noteq> seat_id npc \<and> (\<exists>s \<in> set (seats st). seat_id s = t \<and> seat_status s = Active)))"
  unfolding decide_npc_commit_def Let_def if_not_P[OF assms]
proof (rule ok_sbind[OF choose_beat_ok[OF assms]], rule ok_sbind[OF bet_amount_ok[OF BAND_RANK_nonneg]])
  fix beat and amt :: int
  assume "beat \<in> set authored" "0 \<le> amt"
  then show "ok (if beat \<in> {''read_table'', ''read_room'', ''accuse''}
        then (case pick_opponent st (seat_id npc) (order st) of
                Some t \<Rightarrow> ret \<lparr>commit_seat = seat_id npc, beat_id = beat, amount = amt, target_seat = Some t\<rparr>
              | None \<Rightarrow> ret \<lparr>commit_seat = seat_id npc,
                            beat_id = first_authored [''fold'', ''withdraw''] authored (hd authored),
                            amount = 0, target_seat = None\<rparr>)
        else ret \<lparr>commit_seat = seat_id npc, beat_id = beat, amount = amt, target_seat = None\<rparr>)
     (\<lambda>c. beat_id c \<in> set authored \<and> commit_seat c = seat_id npc \<and> 0 \<le> amount c \<and>
        (\<forall>t. target_seat c = Some t \<longrightarrow>
           t \<noteq> seat_id npc \<and> (\<exists>s \<in> set (seats st). seat_id s = t \<and> seat_status s = Active)))"
    using first_authored_in[of "hd authored" authored] assms pick_opponent_active[of st "seat_id npc" "order st"]
    by (auto intro!: ok_ret split: option.split)
qed

section \<open>The crew's shared pools\<close>

definition pools_ok :: "table_state \<Rightarrow> bool" where
  "pools_ok st \<longleftrightarrow>
     (\<forall>p. command_points (shared_state st) = Some p \<longrightarrow> cp_check_bounds p = Inr p) \<and>
     (\<forall>h. shared_hull (shared_state st) = Some h \<longrightarrow> hull_well h)"

lemma spend_keeps_bounds:
  assumes "cp_check_bounds pool = Inr pool"
  shows "cp_check_bounds (fst (snd (spend_command_points act (pool, tape)))) =
     Inr (fst (snd (spend_command_points act (pool, tape))))"
proof -
  have c: "c = 0 \<or> c = 1" if "map_of CP_ACTION_COSTS act = Some c" for c
    using that by (auto simp: CP_ACTION_COSTS_def split: if_splits)
  show ?thesis
    using assms c by (auto simp: spend_command_points_def cp_check_bounds_def Let_def split: option.splits sum.splits prod.splits if_splits)
qed

lemma crisis_keeps_hull:
  assumes "hull_well h"
  shows "\<exists>h'. fst (snd (deal_with_crisis entry m (Some h, tape))) = Some h' \<and> hull_well h'"
  using assms hull.well_app[OF assms, unfolded hull_next_def]
  by (auto simp: deal_with_crisis_def Let_def split: sum.splits prod.splits)

lemma blank_append: "blank (xs @ ys) \<longleftrightarrow> blank xs \<and> blank ys"
  by (simp add: blank_def)

lemma war_rig_pools_ok:
  assumes "pools_ok st"
  shows "pools_ok (fst (snd (war_rig_custom_beat s c (st, tape))))"
proof -
  have nb: "\<not> blank (vessel_of st)" by (simp add: vessel_of_def blank_append blank_def is_space_def)
  have cp: "cp_check_bounds p = Inr p" if "shared_cp_pool st = Inr p" for p
    using that assms nb by (auto simp: shared_cp_pool_def pools_ok_def cp_check_bounds_def split: option.splits if_splits)
  have hl: "hull_well h" if "shared_war_rig_hull st = Inr h" for h
    using that assms nb by (auto simp: shared_war_rig_hull_def pools_ok_def hull_well_def hull_check_bounds_def split: option.splits if_splits)
  have 1: "pools_ok (fst (snd (war_rig_command verb (st, tape))))" for verb
  proof (cases "shared_cp_pool st")
    case (Inl e)
    then show ?thesis using assms by (simp add: war_rig_command_def)
  next
    case (Inr p)
    then show ?thesis
      using assms spend_keeps_bounds[OF cp[OF Inr], of verb tape]
      by (auto simp: war_rig_command_def pools_ok_def put_cp_def split: prod.splits)
  qed
  have 2: "pools_ok (fst (snd (war_rig_crisis (st, tape))))"
  proof (cases "shared_war_rig_hull st")
    case (Inl e)
    then show ?thesis using assms by (simp add: war_rig_crisis_def)
  next
    case (Inr h)
    obtain r t1 where roll: "roll_crisis tape = (r, t1)" by fastforce
    show ?thesis
    proof (cases r)
      case (Inl e)
      then show ?thesis using assms Inr hl[OF Inr] roll by (simp add: war_rig_crisis_def pools_ok_def put_hull_def)
    next
      case (Inr x)
      obtain face entry where "x = (face, entry)" by fastforce
      then show ?thesis
        using assms hl[OF \<open>shared_war_rig_hull st = Inr h\<close>] roll Inr \<open>shared_war_rig_hull st = Inr h\<close>
          crisis_keeps_hull[of h entry 0 t1]
        by (auto simp: war_rig_crisis_def pools_ok_def put_hull_def split: prod.splits)
    qed
  qed
  show ?thesis
    using assms 1 2 by (simp add: war_rig_custom_beat_def Let_def ret_def raise_def)
qed

end
