(* ===== verification/Table_Properties.thy ===== *)
theory Table_Properties
  imports Table_Kinds
begin

text \<open>The properties of the table: the engine over every registered kind, and the three kinds.\<close>

section \<open>Lemmas on dealing and on the shared pools\<close>

lemma deal_loop_exhausted:
  assumes "set deck \<subseteq> set FULL_DECK" "length deck < 5 * length ss"
  shows "fst (poker_deal_loop deck ss p) = Inl (IndexError ''pop from empty list'')"
  using assms
proof (induction deck ss p rule: poker_deal_loop.induct)
  case (1 deck p)
  then show ?case by simp
next
  case (2 deck s ss p)
  obtain v where v: "hand_strength (take 5 (rev deck)) = Inr v"
    using hand_strength_total[of "take 5 (rev deck)"] "2.prems"(1) by (metis set_rev set_take_subset subset_trans)
  have "set (take (length deck - 5) deck) \<subseteq> set FULL_DECK"
    using "2.prems"(1) set_take_subset by (rule subset_trans[rotated])
  then show ?case
    using "2.IH"[OF _ refl v] "2.prems"(2) v by (auto simp: Let_def split: prod.splits)
qed

lemma poker_deal_outcome:
  "case poker_deal (ss, p, tape) of (r, (ss', p', tape')) \<Rightarrow>
     if length ss \<le> 10
     then r = Inr () \<and> list_all dealt ss' \<and> distinct (hands ss') \<and> set (hands ss') \<subseteq> set FULL_DECK \<and> length ss' = length ss
     else r = Inl (IndexError ''pop from empty list'')"
proof -
  obtain deck tape' where sh: "shuffle FULL_DECK tape = (Inr deck, tape')" "mset deck = mset FULL_DECK"
    using ok_result[OF shuffle_ok[of FULL_DECK], of tape] by (metis prod.collapse)
  have deck: "set deck = set FULL_DECK" "length deck = 52" "distinct deck"
    using sh(2) deck_distinct deck_length by (metis mset_eq_setD, metis mset_eq_length, metis mset_eq_imp_distinct_iff)
  show ?thesis
  proof (cases "length ss \<le> 10")
    case True
    with deck obtain ss' p' where d: "poker_deal_loop deck ss p = (Inr (), ss', p')" "list_all dealt ss'"
        "mset (hands ss') \<subseteq># mset deck" "length ss' = length ss"
      using deal_loop_ok[of deck ss p] by auto
    then show ?thesis
      using True deck sh(1) mset_subset_distinct[OF d(3) deck(3)] mset_subset_set[OF d(3)] by (simp add: poker_deal_def)
  next
    case False
    then have "fst (poker_deal_loop deck ss p) = Inl (IndexError ''pop from empty list'')"
      using deck by (intro deal_loop_exhausted) auto
    then show ?thesis using False sh(1) by (auto simp: poker_deal_def split: prod.splits)
  qed
qed

lemma keeps_eng_modify: "(\<And>st. P st \<Longrightarrow> P (f st)) \<Longrightarrow> keeps (\<lambda>e. P (fst e)) (eng_modify f)"
  by (auto simp: keeps_def eng_modify_def modify_def)

lemma keeps_eng_rng: "keeps (\<lambda>e. P (fst e)) (eng_rng m)"
  by (auto simp: keeps_def eng_rng_def split: prod.splits)

lemma keeps_eng_read: "keeps (\<lambda>e. P (fst e)) (eng_read sid r)"
  by (auto simp: keeps_def eng_read_def modify_def)

lemma keeps_eng_table: "keeps P eng_table"
  by (simp add: keeps_def eng_table_def)

lemma keeps_eng_return: "keeps P (eng_return f)"
  by (auto simp: keeps_def eng_return_def)

lemma keeps_eng_lift: "(\<And>st t. P st \<Longrightarrow> P (fst (snd (m (st, t))))) \<Longrightarrow> keeps (\<lambda>e. P (fst e)) (eng_lift m)"
  by (auto simp: keeps_def eng_lift_def split: prod.splits) (metis fst_conv snd_conv)

lemma showdown_seats: "do_showdown game e = (r, e') \<Longrightarrow> seats (fst e') = seats (fst e)"
proof -
  assume d: "do_showdown game e = (r, e')"
  have "keeps (\<lambda>x. seats (fst x) = seats (fst e)) (do_showdown game)"
    unfolding do_showdown_def Let_def
    by (intro wp keeps_eng_modify keeps_eng_rng keeps_eng_table keeps_eng_return) simp_all
  with d show ?thesis unfolding keeps_def by (metis snd_conv)
qed

lemma pools_ok_on_seat [simp]: "pools_ok (on_seat sid f st) = pools_ok st"
  by (simp add: pools_ok_def on_seat_def)

lemma pools_ok_frame [simp]:
  "pools_ok (st\<lparr>table_pot := p\<rparr>) = pools_ok st" "pools_ok (st\<lparr>pending_accusations := a\<rparr>) = pools_ok st"
  "pools_ok (st\<lparr>resolved_winner := w\<rparr>) = pools_ok st" "pools_ok (st\<lparr>decision_point := d\<rparr>) = pools_ok st"
  by (simp_all add: pools_ok_def)

lemma custom_pools_ok:
  assumes "get_table_game REGISTRY k = Inr game" "pools_ok st"
  shows "pools_ok (fst (snd (g_custom game s c (st, t))))"
  using assms war_rig_pools_ok[OF assms(2)]
  by (auto simp: get_table_game_def REGISTRY_def poker_game_def auction_game_def war_rig_game_def
      default_custom_beat_def raise_def split: if_splits)

lemmas keeps_eng = wp keeps_eng_modify keeps_eng_rng keeps_eng_read keeps_eng_table keeps_eng_return keeps_eng_lift

lemma keeps_option: "keeps P m \<Longrightarrow> (\<And>x. keeps P (f x)) \<Longrightarrow> keeps P (case v of None \<Rightarrow> m | Some x \<Rightarrow> f x)"
  by (cases v) auto

lemma keeps_pair: "(\<And>x y. keeps P (f x y)) \<Longrightarrow> keeps P (case v of (x, y) \<Rightarrow> f x y)"
  by (cases v) auto

lemma resolve_point_pools:
  assumes "get_table_game REGISTRY k = Inr game"
  shows "keeps (\<lambda>e. pools_ok (fst e)) (resolve_point game commits)"
proof -
  have sig: "keeps (\<lambda>e. pools_ok (fst e)) (apply_signature_beat game sid s c)" for sid s c
    unfolding apply_signature_beat_def
    by (intro keeps_eng keeps_pair) (simp_all add: custom_pools_ok[OF assms])
  have com: "keeps (\<lambda>e. pools_ok (fst e)) (apply_commit game sid c)" for sid c
    unfolding apply_commit_def by (intro keeps_eng keeps_option sig) (simp_all add: Let_def)
  have coms: "keeps (\<lambda>e. pools_ok (fst e)) (apply_commits game commits sids)" for sids
    by (induction sids) (auto intro!: keeps_eng keeps_option com)
  show ?thesis
    unfolding resolve_point_def do_showdown_def Let_def
    by (intro keeps_eng coms) simp_all
qed

section \<open>Example tables\<close>

definition ex_private :: "int option \<Rightarrow> private_state" where
  "ex_private v = \<lparr>cards = None, strength_key = v, strength_band = None, cheat_trace = None, current_bid = None,
     perception = None, concealment = None, valuation = None, max_bid = None, station = None,
     read_intel = None, neuroticism = None, disposition = None\<rparr>"

definition ex_seat :: "string \<Rightarrow> int option \<Rightarrow> table_seat" where
  "ex_seat i v = \<lparr>seat_id = i, party_name = i, is_pc = True, seat_status = Active, private_state = ex_private v\<rparr>"

definition ex_table :: "string \<Rightarrow> int \<Rightarrow> table_state" where
  "ex_table k pts = \<lparr>game_kind = k, seats = [ex_seat ''s1'' (Some 5), ex_seat ''s2'' (Some 9)],
     table_pot = \<lparr>stake_kind = ''money'', stake_descriptor = ''the deed'', contributions = []\<rparr>,
     order = [''s1'', ''s2''], dealer_seat = ''s1'', decision_point = 0, max_decision_points = pts,
     resolved_winner = None, shared_state = \<lparr>command_points = None, shared_hull = None\<rparr>, pending_accusations = []\<rparr>"

definition ex_commit :: "string \<Rightarrow> string \<Rightarrow> table_commit" where
  "ex_commit sid b = \<lparr>commit_seat = sid, beat_id = b, amount = 2, target_seat = None\<rparr>"

definition ex_hand :: "string list" where
  "ex_hand = [''2S'', ''7H'', ''9D'', ''JC'', ''KS'']"

text \<open>The definitions that unfold a resolution of the example poker table, without unfolding the kind's dealing.\<close>

lemma poker_game_sel [simp]: "g_strength poker_game = poker_strength"
  by (simp add: poker_game_def)

lemma poker_registered [simp]: "get_table_game REGISTRY ''poker'' = Inr poker_game"
  by (simp add: get_table_game_def REGISTRY_def)

lemmas run_defs = resolve_table_def resolve_point_def sm_defs eng_table_def eng_modify_def eng_return_def eng_rng_def
  do_showdown_def contenders_def pick_winner_def showdown_strength_def poker_strength_def active_seat_ids_def
  apply_commit_def find_seat_def POT_ACTIONS_def on_seat_def on_private_def pot_add_def dict_get_def Let_def
  ex_table_def ex_seat_def ex_private_def ex_commit_def

lemma read_threshold_le_1: "0 \<le> stat \<Longrightarrow> read_threshold stat \<le> 1"
proof -
  assume "0 \<le> stat"
  have one: "rnd 1 = 1" using rnd_int[of 1] by simp
  have l: "lit 1 10 \<le> 1" "lit 6 10 \<le> 1" "0 \<le> lit 3 100"
    using rnd_mono[of "1 / 10" 1] rnd_mono[of "6 / 10" 1] one by (auto simp: lit_def intro: rnd_nonneg)
  have "0 \<le> rnd (lit 3 100 * rnd (of_int stat))"
    using l(3) \<open>0 \<le> stat\<close> by (intro rnd_nonneg mult_nonneg_nonneg) auto
  then have "rnd (lit 6 10 - rnd (lit 3 100 * rnd (of_int stat))) \<le> rnd 1" using l(2) by (intro rnd_mono) linarith
  then show ?thesis using l(1) one by (simp add: read_threshold_def)
qed

section \<open>The engine\<close>

text \<open>
  C4. Whatever the commits and the draws, resolving a decision point, raise included, keeps who sits
  where, the order, the dealer, the kind and the stakes of the table; a seat's status stays or goes
  from active to folded; no contribution to the pot shrinks; and the decision point does not go back.
  This holds for every registered kind.
\<close>

theorem resolve_table_evolves:
  "table_evolves st (fst (snd (resolve_table REGISTRY commits (st, tape))))"
proof (cases "get_table_game REGISTRY (game_kind st)")
  case (Inl e)
  then show ?thesis by (simp add: resolve_table_def)
next
  case (Inr game)
  then show ?thesis using lawful_game.resolve_evolves[OF registry_lawful[OF Inr] Inr] by blast
qed

text \<open>
  C12. A showdown has an honest winner: the seat that takes the pot is still active, was not named a
  forfeit, and no other such seat is stronger by the kind's own measure; the same seat is recorded on
  the table.
\<close>

theorem showdown_winner_is_strongest:
  assumes "resolve_table REGISTRY commits (st, tape) = (Inr out, (st', tape'))" "showdown out"
  shows "\<exists>game w b. get_table_game REGISTRY (game_kind st) = Inr game \<and>
     w \<in> set (contenders st' (forfeited_seats out)) \<and>
     winner out = Some (seat_id w) \<and> pot_awarded_to out = Some (seat_id w) \<and> resolved_winner st' = Some (seat_id w) \<and>
     g_strength game w = Inr b \<and>
     (\<forall>s \<in> set (contenders st' (forfeited_seats out)). \<exists>x \<le> b. g_strength game s = Inr x)"
proof -
  obtain game where game: "get_table_game REGISTRY (game_kind st) = Inr game"
    using assms(1) by (cases "get_table_game REGISTRY (game_kind st)") (auto simp: resolve_table_def)
  obtain reads where point: "resolve_point game commits (st, tape, []) = (Inr out, (st', tape', reads))"
    using assms(1) game by (auto simp: resolve_table_def split: prod.splits)
  then obtain e1 where sd: "do_showdown game e1 = (Inr out, (st', tape', reads))"
    using assms(2) unfolding resolve_point_def
    by (auto simp: sm_defs eng_table_def eng_modify_def eng_return_def split: if_splits prod.splits sum.splits)
  have "contenders st' ff = contenders (fst e1) ff" for ff
    using showdown_seats[OF sd] by (simp add: contenders_def)
  with showdown_winner[OF sd] game show ?thesis by auto
qed

theorem showdown_winner_is_strongest_witness:
  "\<exists>out st' tape'. resolve_table REGISTRY [] (ex_table ''poker'' 1, []) = (Inr out, (st', tape')) \<and> showdown out \<and>
     (\<exists>w. winner out = Some w \<and> resolved_winner st' = Some w)"
proof -
  obtain r st' tape' where r: "resolve_table REGISTRY [] (ex_table ''poker'' 1, []) = (r, (st', tape'))"
    by (cases "resolve_table REGISTRY [] (ex_table ''poker'' 1, [])") auto
  have "case fst (resolve_table REGISTRY [] (ex_table ''poker'' 1, [])) of Inl _ \<Rightarrow> False | Inr out \<Rightarrow> showdown out"
    by (simp add: run_defs del: set_filter)
  then obtain out where out: "r = Inr out" "showdown out" unfolding r by (cases r) auto
  from showdown_winner_is_strongest[OF r[unfolded out(1)] out(2)] r out show ?thesis by blast
qed

text \<open>
  C13. Every hand comes to its showdown: a sequence of decision points none of which raised or ended
  the hand is shorter than the number the table has left.
\<close>

theorem hand_ends_in_showdown:
  assumes "play_hand REGISTRY cs (st, tape) = (Inr None, s')" "cs \<noteq> []"
  shows "decision_point st + int (length cs) < max_decision_points st"
proof (cases "get_table_game REGISTRY (game_kind st)")
  case (Inl e)
  then show ?thesis using assms by (cases cs) (auto simp: resolve_table_def sbind_def)
next
  case (Inr game)
  then show ?thesis using lawful_game.play_bound[OF registry_lawful[OF Inr] Inr assms(1)] assms(2) by simp
qed

theorem hand_ends_in_showdown_witness:
  "\<exists>s'. play_hand REGISTRY [[], [(''s1'', ex_commit ''s1'' ''bet'')]] (ex_table ''poker'' 3, []) = (Inr None, s') \<and> 0 + int 2 < (3 :: int)"
proof -
  obtain r s' where p: "play_hand REGISTRY [[], [(''s1'', ex_commit ''s1'' ''bet'')]] (ex_table ''poker'' 3, []) = (r, s')" by (metis surj_pair)
  have "case fst (play_hand REGISTRY [[], [(''s1'', ex_commit ''s1'' ''bet'')]] (ex_table ''poker'' 3, [])) of
      Inl _ \<Rightarrow> False | Inr out \<Rightarrow> out = None" by (simp add: run_defs del: set_filter)
  then have r: "r = Inr None" unfolding p by (cases r) auto
  from hand_ends_in_showdown[OF p[unfolded r]] p r show ?thesis by (simp add: ex_table_def)
qed

text \<open>
  A commit for a seat that is not at the table is rejected before anything is applied: the call
  raises and neither the table nor the generator has changed.
\<close>

theorem ghost_commit_changes_nothing:
  assumes "get_table_game REGISTRY (game_kind st) = Inr game" "(sid, c) \<in> set commits" "find_seat st sid = None"
  shows "resolve_table REGISTRY commits (st, tape) = (Inl (ValueError ''commit for unknown seat''), (st, tape))"
proof -
  have "\<not> list_all (\<lambda>p. find_seat st (fst p) \<noteq> None) commits" using assms(2,3) by (force simp: list_all_iff)
  then show ?thesis
    using assms(1) by (simp add: resolve_table_def resolve_point_def sbind_def eng_table_def raise_def)
qed

theorem ghost_commit_changes_nothing_witness:
  "resolve_table REGISTRY [(''s1'', ex_commit ''s1'' ''fold''), (''s9'', ex_commit ''s9'' ''bet'')] (ex_table ''auction'' 3, [1]) =
     (Inl (ValueError ''commit for unknown seat''), (ex_table ''auction'' 3, [1]))"
  by (rule ghost_commit_changes_nothing[of _ auction_game "''s9''" "ex_commit ''s9'' ''bet''"])
    (simp_all add: get_table_game_def REGISTRY_def ex_table_def find_seat_def ex_seat_def)

section \<open>Poker\<close>

text \<open>
  Dealing poker: with two to ten seats the deal returns, every seat holds five cards and the
  strength and band of exactly that hand with a clean trace, and no card is dealt twice; with more
  seats the deck runs out and the deal raises.
\<close>

theorem poker_deal_is_fair:
  assumes "game_kind st = ''poker''" "2 \<le> length (seats st)" "deal_table REGISTRY (st, tape) = (r, (st', tape'))"
  shows "if length (seats st) \<le> 10
     then r = Inr () \<and> list_all dealt (seats st') \<and> distinct (hands (seats st')) \<and> set (hands (seats st')) \<subseteq> set FULL_DECK
     else r = Inl (IndexError ''pop from empty list'')"
  using assms poker_deal_outcome[of "seats st" "table_pot st" tape]
  by (auto simp: deal_table_def get_table_game_def REGISTRY_def poker_game_def split: prod.splits)

theorem poker_deal_is_fair_witness:
  "\<exists>st' tape'. deal_table REGISTRY (ex_table ''poker'' 3, [7, 3]) = (Inr (), (st', tape')) \<and> distinct (hands (seats st'))"
proof -
  obtain r st' tape' where d: "deal_table REGISTRY (ex_table ''poker'' 3, [7, 3]) = (r, (st', tape'))"
    by (cases "deal_table REGISTRY (ex_table ''poker'' 3, [7, 3])") auto
  from poker_deal_is_fair[OF _ _ d] d show ?thesis by (simp add: ex_table_def)
qed

text \<open>
  C40. The packed strength is the ranking of hands: comparing two hands of real cards by strength is
  comparing category first and then the tie-break values in order, and the category is recovered by
  the fixed-width division that the band uses.
\<close>

theorem hand_strength_is_ranking:
  assumes "set a \<subseteq> set FULL_DECK" "set b \<subseteq> set FULL_DECK"
    and "categorize a = Inr (ka, ta)" "categorize b = Inr (kb, tb)"
    and "hand_strength a = Inr x" "hand_strength b = Inr y"
  shows "(x < y \<longleftrightarrow> ka < kb \<or> ka = kb \<and> padded ta < padded tb) \<and>
     x div (PACK_BASE ^ TIEBREAK_SLOTS) = ka \<and> 0 \<le> ka \<and> ka \<le> 8"
proof -
  have d: "digits (padded ta)" "digits (padded tb)" "0 \<le> ka" "ka \<le> 8"
    using categorize_total[OF assms(1)] categorize_total[OF assms(2)] assms(3,4) by auto
  have xy: "x = pack ka (padded ta)" "y = pack kb (padded tb)" using assms(3-6) by (auto simp: hand_strength_def)
  have len: "length (padded ta) = length (padded tb)" by simp
  have "x < y \<longleftrightarrow> ka < kb \<or> ka = kb \<and> padded ta < padded tb"
    unfolding xy using pack_less_category[OF d(1,2) len] pack_less_category[OF d(2,1) len[symmetric]] pack_lex[OF d(1,2) len]
    by (metis linorder_less_linear order_less_asym)
  moreover have "x div (PACK_BASE ^ TIEBREAK_SLOTS) = ka"
    using pack_div[OF d(1), of ka] xy(1) by (simp add: PACK_BASE_def)
  ultimately show ?thesis using d by simp
qed

theorem hand_strength_is_ranking_witness:
  "\<exists>x y. hand_strength ex_hand = Inr x \<and> hand_strength [''2S'', ''2H'', ''3D'', ''4C'', ''5S''] = Inr y \<and> x < y"
proof -
  let ?b = "[''2S'', ''2H'', ''3D'', ''4C'', ''5S'']"
  have sub: "set ex_hand \<subseteq> set FULL_DECK" "set ?b \<subseteq> set FULL_DECK" by code_simp+
  have k: "categorize ex_hand = Inr (0, [13, 11, 9, 7, 2])" "categorize ?b = Inr (1, [2, 5, 4, 3])" by code_simp+
  obtain x y where xy: "hand_strength ex_hand = Inr x" "hand_strength ?b = Inr y"
    using hand_strength_total[OF sub(1)] hand_strength_total[OF sub(2)] by blast
  from hand_strength_is_ranking[OF sub k xy] xy show ?thesis by auto
qed

text \<open>
  Cheating gives a real advantage and real evidence: for a seat with a legal hand and a trace
  between zero and one, the beat never lowers the strength, leaves five distinct real cards whose
  strength is the recorded one, and raises the trace by at least a quarter until it reaches one, in
  binary64 arithmetic with its roundings.
\<close>

theorem poker_cheat_helps_and_traces:
  assumes "strength_key (private_state s) = Some before" "cards (private_state s) = Some h"
    and "hand_ok h" "hand_strength h = Inr before" "0 \<le> trace_or_0 s" "trace_or_0 s \<le> 1"
  shows "\<exists>r s'. fst (poker_cheat s tape) = Inr (r, s') \<and> before \<le> strength_after r \<and>
     min 1 (trace_or_0 s + 1 / 4) \<le> trace_or_0 s' \<and> trace_or_0 s' \<le> 1 \<and>
     (\<exists>h'. cards (private_state s') = Some h' \<and> hand_ok h' \<and> hand_strength h' = Inr (strength_after r) \<and>
        strength_key (private_state s') = Some (strength_after r))"
  using ok_result[OF cheat_ok[OF assms], of tape] by (auto simp: trace_or_0_def)

theorem poker_cheat_helps_and_traces_witness:
  "\<exists>r s'. fst (poker_cheat (on_private (\<lambda>p. p\<lparr>cards := Some ex_hand, cheat_trace := Some 0\<rparr>) (ex_seat ''s1'' (Some 1311090702))) [5]) =
     Inr (r, s') \<and> 1311090702 \<le> strength_after r \<and> 1 / 4 \<le> trace_or_0 s'"
proof -
  let ?s = "on_private (\<lambda>p. p\<lparr>cards := Some ex_hand, cheat_trace := Some 0\<rparr>) (ex_seat ''s1'' (Some 1311090702))"
  have p: "strength_key (private_state ?s) = Some 1311090702" "cards (private_state ?s) = Some ex_hand" "trace_or_0 ?s = 0"
    by (simp_all add: on_private_def ex_seat_def ex_private_def trace_or_0_def)
  have h: "hand_ok ex_hand" "hand_strength ex_hand = Inr 1311090702" by code_simp+
  from poker_cheat_helps_and_traces[OF p(1,2) h, of "[5]"] p(3) show ?thesis by auto
qed

text \<open>
  A sharper reader never sees less: the suspicion threshold does not rise with the reader's stat,
  so a trace that one reader finds suspicious is suspicious to every reader with a higher stat, and a
  read always reports the target's real band.
\<close>

theorem sharper_reader_sees_more:
  assumes "a \<le> b" "poker_read r1 t a = Inr x" "poker_read r2 t b = Inr y" "read_suspicious x = Some True"
  shows "read_suspicious y = Some True \<and> read_band y = read_band x"
  using assms read_threshold_antimono[OF assms(1)] by (auto simp: poker_read_def)

theorem sharper_reader_sees_more_witness:
  "read_suspicious \<lparr>read_target = ''s1'', read_band = ''unknown'', read_suspicious = Some (1 \<ge> read_threshold 5)\<rparr> = Some True"
proof -
  let ?t = "on_private (\<lambda>p. p\<lparr>cheat_trace := Some 1\<rparr>) (ex_seat ''s1'' None)"
  have low: "read_suspicious \<lparr>read_target = ''s1'', read_band = ''unknown'', read_suspicious = Some (1 \<ge> read_threshold 0)\<rparr> = Some True"
    by (simp add: read_threshold_le_1)
  have r: "poker_read ?t ?t k = Inr \<lparr>read_target = ''s1'', read_band = ''unknown'', read_suspicious = Some (1 \<ge> read_threshold k)\<rparr>" for k
    by (simp add: poker_read_def on_private_def ex_seat_def ex_private_def trace_or_0_def)
  from sharper_reader_sees_more[OF _ r r low, of 5] show ?thesis by simp
qed

section \<open>The crew and the NPC seats\<close>

text \<open>
  The crew's shared pools stay legal through play: if the command points and the hull on the table
  are within their bounds (or not yet seeded), they are after any decision point, raise included.
\<close>

theorem shared_pools_stay_in_bounds:
  assumes "pools_ok st"
  shows "pools_ok (fst (snd (resolve_table REGISTRY commits (st, tape))))"
proof (cases "get_table_game REGISTRY (game_kind st)")
  case (Inl e)
  then show ?thesis using assms by (simp add: resolve_table_def)
next
  case (Inr game)
  obtain r st' t' reads where p: "resolve_point game commits (st, tape, []) = (r, (st', t', reads))"
    by (cases "resolve_point game commits (st, tape, [])") auto
  have "pools_ok st'"
    using resolve_point_pools[OF Inr, of commits] assms p unfolding keeps_def by (metis fst_conv snd_conv)
  then show ?thesis using Inr p by (simp add: resolve_table_def)
qed

theorem shared_pools_stay_in_bounds_witness:
  "pools_ok (fst (snd (resolve_table REGISTRY [(''s1'', ex_commit ''s1'' ''above_and_beyond'')] (ex_table ''war_rig_crew'' 3, [3]))))"
  by (rule shared_pools_stay_in_bounds) (simp add: pools_ok_def ex_table_def)

text \<open>
  The NPC policy is kind-safe: with a non-empty list of authored beats it always returns a commit
  for its own seat whose beat is authored, whose amount is not negative, and whose target, when it has
  one, is another active seat.
\<close>

theorem npc_commits_authored_beats:
  assumes "authored \<noteq> []"
  shows "\<exists>c. fst (decide_npc_commit st npc authored tape) = Inr c \<and>
     beat_id c \<in> set authored \<and> commit_seat c = seat_id npc \<and> 0 \<le> amount c \<and>
     (\<forall>t. target_seat c = Some t \<longrightarrow>
        t \<noteq> seat_id npc \<and> (\<exists>s \<in> set (seats st). seat_id s = t \<and> seat_status s = Active))"
  using ok_result[OF decide_npc_commit_ok[OF assms]] by blast

theorem npc_commits_authored_beats_witness:
  "\<exists>c. fst (decide_npc_commit (ex_table ''auction'' 3) (ex_seat ''s2'' None) [''raise_bid'', ''withdraw''] [0]) = Inr c \<and>
     beat_id c \<in> {''raise_bid'', ''withdraw''} \<and> 0 \<le> amount c"
  using npc_commits_authored_beats[of "[''raise_bid'', ''withdraw'']" "ex_table ''auction'' 3" "ex_seat ''s2'' None" "[0]"] by auto

end
