(* ===== verification/Turn.thy ===== *)
theory Turn
  imports Prelude
begin

text \<open>
  Turn management (src/sidequest/game/turn.py): the round and interaction counters, the phase of the
  turn and the input barrier. The operations are functions on the manager; \<open>turn_step\<close> is the step
  relation they generate, over which the invariants are proved by rule induction.
\<close>

section \<open>Data and operations\<close>

datatype turn_phase = InputCollection | IntentRouting | AgentExecution | StatePatch | Broadcast

fun phase_transition :: "turn_phase \<Rightarrow> turn_phase" where
  "phase_transition InputCollection = IntentRouting"
| "phase_transition IntentRouting = AgentExecution"
| "phase_transition AgentExecution = StatePatch"
| "phase_transition StatePatch = Broadcast"
| "phase_transition Broadcast = Broadcast"

record turn_manager =
  round_no :: int
  interaction :: int
  phase :: turn_phase
  player_count :: int
  submitted :: "string set"

definition new_turn_manager :: turn_manager where
  "new_turn_manager = \<lparr>round_no = 1, interaction = 1, phase = InputCollection, player_count = 1, submitted = {}\<rparr>"

definition set_player_count :: "int \<Rightarrow> turn_manager \<Rightarrow> turn_manager" where
  "set_player_count n t = t\<lparr>player_count := n\<rparr>"

definition submit_input :: "string \<Rightarrow> turn_manager \<Rightarrow> turn_manager" where
  "submit_input pid t =
     (if phase t \<noteq> InputCollection then t
      else let s = insert pid (submitted t) in
        if int (card s) \<ge> player_count t then t\<lparr>phase := IntentRouting, submitted := {}\<rparr>
        else t\<lparr>submitted := s\<rparr>)"

definition recheck_barrier :: "int \<Rightarrow> turn_manager \<Rightarrow> bool \<times> turn_manager" where
  "recheck_barrier effective_count t =
     (if phase t \<noteq> InputCollection then (False, t)
      else if effective_count \<le> 0 then (False, t)
      else if int (card (submitted t)) \<ge> effective_count then (True, t\<lparr>phase := IntentRouting, submitted := {}\<rparr>)
      else (False, t))"

definition record_interaction :: "turn_manager \<Rightarrow> turn_manager" where
  "record_interaction t =
     t\<lparr>interaction := interaction t + 1, round_no := round_no t + 1, phase := InputCollection, submitted := {}\<rparr>"

definition advance_round :: "turn_manager \<Rightarrow> turn_manager" where
  "advance_round t = t\<lparr>round_no := round_no t + 1\<rparr>"

definition advance :: "turn_manager \<Rightarrow> turn_manager" where
  "advance t = t\<lparr>round_no := round_no t + 1, phase := InputCollection, submitted := {}\<rparr>"

definition advance_phase :: "turn_manager \<Rightarrow> turn_manager" where
  "advance_phase t = t\<lparr>phase := phase_transition (phase t)\<rparr>"

section \<open>The step relation\<close>

inductive turn_step :: "turn_manager \<Rightarrow> turn_manager \<Rightarrow> bool" where
  step_count: "turn_step t (set_player_count n t)"
| step_submit: "turn_step t (submit_input pid t)"
| step_recheck: "turn_step t (snd (recheck_barrier n t))"
| step_record: "turn_step t (record_interaction t)"
| step_round: "turn_step t (advance_round t)"
| step_advance: "turn_step t (advance t)"
| step_phase: "turn_step t (advance_phase t)"

inductive_cases turn_stepE: "turn_step t t'"

lemmas turn_defs = set_player_count_def submit_input_def recheck_barrier_def record_interaction_def
  advance_round_def advance_def advance_phase_def Let_def

definition turn_inv :: "turn_manager \<Rightarrow> bool" where
  "turn_inv t \<longleftrightarrow> finite (submitted t) \<and> 1 \<le> interaction t \<and> interaction t \<le> round_no t"

lemma turn_inv_new: "turn_inv new_turn_manager"
  by (simp add: turn_inv_def new_turn_manager_def)

lemma turn_inv_step: "turn_step t t' \<Longrightarrow> turn_inv t \<Longrightarrow> turn_inv t'"
  by (erule turn_stepE) (auto simp: turn_inv_def turn_defs)

lemma turn_inv_reachable: "turn_step\<^sup>*\<^sup>* new_turn_manager t \<Longrightarrow> turn_inv t"
  by (induction rule: rtranclp_induct) (auto intro: turn_inv_new turn_inv_step)

lemma counters_step: "turn_step t t' \<Longrightarrow> round_no t \<le> round_no t' \<and> interaction t \<le> interaction t'"
  by (erule turn_stepE) (auto simp: turn_defs)

lemma counters_mono: "turn_step\<^sup>*\<^sup>* t t' \<Longrightarrow> round_no t \<le> round_no t' \<and> interaction t \<le> interaction t'"
  by (induction rule: rtranclp_induct) (auto dest: counters_step)

section \<open>The barrier\<close>

definition submit_all :: "string list \<Rightarrow> turn_manager \<Rightarrow> turn_manager" where
  "submit_all ps t = fold submit_input ps t"

lemma submit_after_fire: "phase t \<noteq> InputCollection \<Longrightarrow> submit_all ps t = t"
  by (induction ps) (simp_all add: submit_all_def submit_input_def)

lemma submit_all_barrier:
  assumes "phase t = InputCollection" "finite (submitted t)" "ps \<noteq> []"
  shows "submit_all ps t =
     (if int (card (submitted t \<union> set ps)) \<ge> player_count t
      then t\<lparr>phase := IntentRouting, submitted := {}\<rparr> else t\<lparr>submitted := submitted t \<union> set ps\<rparr>)"
  using assms
proof (induction ps arbitrary: t)
  case Nil
  then show ?case by simp
next
  case (Cons p ps)
  let ?s = "insert p (submitted t)"
  show ?case
  proof (cases "int (card ?s) \<ge> player_count t")
    case True
    then have fire: "submit_input p t = t\<lparr>phase := IntentRouting, submitted := {}\<rparr>"
      using Cons.prems by (simp add: submit_input_def)
    have "card ?s \<le> card (submitted t \<union> set (p # ps))" using Cons.prems(2) by (intro card_mono) auto
    moreover have "submit_all (p # ps) t = submit_all ps (t\<lparr>phase := IntentRouting, submitted := {}\<rparr>)"
      by (simp add: submit_all_def fire)
    ultimately show ?thesis using True submit_after_fire by simp
  next
    case False
    let ?t1 = "t\<lparr>submitted := ?s\<rparr>"
    have one: "submit_input p t = ?t1" using Cons.prems False by (simp add: submit_input_def)
    then have eq: "submit_all (p # ps) t = submit_all ps ?t1" by (simp add: submit_all_def)
    show ?thesis
    proof (cases "ps = []")
      case True
      then show ?thesis using False eq by (simp add: submit_all_def)
    next
      case ps: False
      have "submitted t \<union> set (p # ps) = ?s \<union> set ps" by auto
      then show ?thesis using Cons.IH[of ?t1] Cons.prems(1,2) eq ps by simp
    qed
  qed
qed

section \<open>Properties\<close>

text \<open>
  The input barrier. While input is being collected, after any non-empty sequence of submissions,
  repeated ones included, the turn has moved to intent routing exactly when as many different players
  as the count have submitted; then the submissions are cleared, and until then they are the set of
  everyone who submitted.
\<close>

theorem barrier_fires_exactly_when_all_submitted:
  assumes "phase t = InputCollection" "finite (submitted t)" "ps \<noteq> []"
  shows "if player_count t \<le> int (card (submitted t \<union> set ps))
     then phase (submit_all ps t) = IntentRouting \<and> submitted (submit_all ps t) = {}
     else phase (submit_all ps t) = InputCollection \<and> submitted (submit_all ps t) = submitted t \<union> set ps"
  unfolding submit_all_barrier[OF assms] using assms(1) by simp

theorem barrier_fires_exactly_when_all_submitted_witness:
  "phase (submit_all [''ann'', ''ann'', ''bob''] (set_player_count 2 new_turn_manager)) = IntentRouting"
  using barrier_fires_exactly_when_all_submitted[of "set_player_count 2 new_turn_manager" "[''ann'', ''ann'', ''bob'']"]
  by (simp add: set_player_count_def new_turn_manager_def)

text \<open>
  A dropped player cannot stall the turn. If the players who already submitted are at least the
  reduced count, rechecking the barrier releases the turn and says so; with nobody left to act it
  never does; and when it does not fire it changes nothing.
\<close>

theorem recheck_releases_stalled_turn:
  assumes "recheck_barrier n t = (fired, t')"
  shows "(fired \<longleftrightarrow> phase t = InputCollection \<and> 0 < n \<and> n \<le> int (card (submitted t))) \<and>
     (fired \<longrightarrow> phase t' = IntentRouting \<and> submitted t' = {}) \<and> (\<not> fired \<longrightarrow> t' = t)"
  using assms by (auto simp: recheck_barrier_def split: if_splits)

theorem recheck_releases_stalled_turn_witness:
  "fst (recheck_barrier 1 (submit_input ''ann'' (set_player_count 2 new_turn_manager)))"
  using recheck_releases_stalled_turn[OF surjective_pairing, of 1 "submit_input ''ann'' (set_player_count 2 new_turn_manager)"]
  by (simp add: submit_input_def set_player_count_def new_turn_manager_def)

text \<open>
  The counters never go back and never drift apart the wrong way: along every sequence of
  operations from a new manager both counters only grow, they start at one, and the display round is
  never behind the interaction counter.
\<close>

theorem turn_counters_monotone:
  assumes "turn_step\<^sup>*\<^sup>* new_turn_manager t" "turn_step\<^sup>*\<^sup>* t t'"
  shows "round_no t \<le> round_no t' \<and> interaction t \<le> interaction t' \<and> 1 \<le> interaction t \<and> interaction t \<le> round_no t"
  using counters_mono[OF assms(2)] turn_inv_reachable[OF assms(1)] by (auto simp: turn_inv_def)

theorem turn_counters_monotone_witness:
  "round_no new_turn_manager \<le> round_no (record_interaction new_turn_manager)"
  using turn_counters_monotone[OF rtranclp.rtrancl_refl r_into_rtranclp[of turn_step, OF step_record]] by blast

end
