(* ===== verification/Dice.thy ===== *)
theory Dice
  imports Prelude "HOL-Library.Word"
begin

text \<open>
  Dice resolution (src/sidequest/game/dice.py and the dice types of src/sidequest/protocol/dice.py):
  the pool and its validation, the five-tier outcome, and the 64-bit FNV-1a seed for spectators. A
  string is the list of its UTF-8 bytes.
\<close>

unbundle bit_operations_syntax

section \<open>Dice pools\<close>

datatype die_sides = UnknownDie | D4 | D6 | D8 | D10 | D12 | D20 | D100

fun faces_of :: "die_sides \<Rightarrow> int option" where
  "faces_of UnknownDie = None"
| "faces_of D4 = Some 4"
| "faces_of D6 = Some 6"
| "faces_of D8 = Some 8"
| "faces_of D10 = Some 10"
| "faces_of D12 = Some 12"
| "faces_of D20 = Some 20"
| "faces_of D100 = Some 100"

definition from_wire :: "int \<Rightarrow> die_sides" where
  "from_wire v =
     (if v = 4 then D4 else if v = 6 then D6 else if v = 8 then D8 else if v = 10 then D10
      else if v = 12 then D12 else if v = 20 then D20 else if v = 100 then D100 else UnknownDie)"

datatype roll_outcome = CritSuccess | Success | Tie | Fail | CritFail | UnknownOutcome

record die_spec =
  sides :: die_sides
  die_count :: nat

datatype resolve_error =
    EmptyPool
  | UnknownDieError
  | FaceCountMismatch nat nat
  | FaceOutOfRange nat int int

record resolved_roll =
  rolls :: "(die_spec \<times> int list) list"
  roll_total :: int
  outcome :: roll_outcome

definition DECISIVE_MARGIN :: int where "DECISIVE_MARGIN = 3"

section \<open>Resolution\<close>

text \<open>One group: its faces checked in order, from the flat index at which the group starts.\<close>

fun take_group :: "nat \<Rightarrow> int \<Rightarrow> nat \<Rightarrow> int list \<Rightarrow> resolve_error + int list" where
  "take_group 0 n idx faces = Inr []"
| "take_group (Suc k) n idx faces =
     (let face = faces ! idx in
      if face < 1 \<or> face > n then Inl (FaceOutOfRange idx face n)
      else case take_group k n (Suc idx) faces of Inl e \<Rightarrow> Inl e | Inr fs \<Rightarrow> Inr (face # fs))"

fun take_groups :: "die_spec list \<Rightarrow> nat \<Rightarrow> int list \<Rightarrow> resolve_error + (die_spec \<times> int list) list" where
  "take_groups [] idx faces = Inr []"
| "take_groups (spec # specs) idx faces =
     (case faces_of (sides spec) of
        None \<Rightarrow> Inl UnknownDieError
      | Some n \<Rightarrow>
        (case take_group (die_count spec) n idx faces of
           Inl e \<Rightarrow> Inl e
         | Inr fs \<Rightarrow>
           (case take_groups specs (idx + die_count spec) faces of Inl e \<Rightarrow> Inl e | Inr gs \<Rightarrow> Inr ((spec, fs) # gs))))"

definition d20_faces :: "(die_spec \<times> int list) list \<Rightarrow> int list" where
  "d20_faces groups = concat (map snd (filter (\<lambda>g. sides (fst g) = D20) groups))"

definition classify :: "int list \<Rightarrow> int \<Rightarrow> int \<Rightarrow> roll_outcome" where
  "classify d20s tot difficulty =
     (if 20 \<in> set d20s then CritSuccess
      else if 1 \<in> set d20s then CritFail
      else if tot \<ge> difficulty + DECISIVE_MARGIN then CritSuccess
      else if tot > difficulty then Success
      else if tot = difficulty then Tie
      else Fail)"

definition resolve_dice_with_faces ::
  "die_spec list \<Rightarrow> int list \<Rightarrow> int \<Rightarrow> int \<Rightarrow> resolve_error + resolved_roll" where
  "resolve_dice_with_faces dice faces modifier difficulty =
     (if dice = [] then Inl EmptyPool
      else if list_ex (\<lambda>spec. faces_of (sides spec) = None) dice then Inl UnknownDieError
      else let expected = sum_list (map die_count dice) in
        if length faces \<noteq> expected then Inl (FaceCountMismatch expected (length faces))
        else case take_groups dice 0 faces of
          Inl e \<Rightarrow> Inl e
        | Inr groups \<Rightarrow>
            let tot = sum_list (concat (map snd groups)) + modifier
            in Inr \<lparr>rolls = groups, roll_total = tot, outcome = classify (d20_faces groups) tot difficulty\<rparr>)"

section \<open>The spectator seed\<close>

definition fnv_offset :: "64 word" where "fnv_offset = 0xCBF29CE484222325"
definition fnv_prime :: "64 word" where "fnv_prime = 0x100000001B3"

definition fnv_step :: "64 word \<Rightarrow> char \<Rightarrow> 64 word" where
  "fnv_step h c = (h XOR of_char c) * fnv_prime"

definition fnv :: "64 word \<Rightarrow> string \<Rightarrow> 64 word" where
  "fnv h s = foldl fnv_step h s"

definition generate_dice_seed :: "string \<Rightarrow> int \<Rightarrow> 64 word" where
  "generate_dice_seed session_id round_number =
     fnv (fnv_step (fnv fnv_offset session_id) CHR '':'') (show_int round_number)"

text \<open>The same loop on unbounded integers with the mask written out, as the source has it.\<close>

definition fnv_step_int :: "int \<Rightarrow> char \<Rightarrow> int" where
  "fnv_step_int h c = ((h XOR of_char c) * 0x100000001B3) mod 2 ^ 64"

definition generate_dice_seed_int :: "string \<Rightarrow> int \<Rightarrow> int" where
  "generate_dice_seed_int session_id round_number =
     foldl fnv_step_int (fnv_step_int (foldl fnv_step_int 0xCBF29CE484222325 session_id) CHR '':'') (show_int round_number)"

section \<open>The wire boundary\<close>

text \<open>A die group as it arrives: an integer side count goes through \<open>from_wire\<close>, the count is held to 1..255.\<close>

definition parse_die_spec :: "int \<Rightarrow> int \<Rightarrow> die_spec option" where
  "parse_die_spec raw_sides raw_count =
     (if 1 \<le> raw_count \<and> raw_count \<le> 255
      then Some \<lparr>sides = from_wire raw_sides, die_count = nat raw_count\<rparr> else None)"

text \<open>The result broadcast is refused when a group's faces do not match its count.\<close>

definition face_counts_match :: "(die_spec \<times> int list) list \<Rightarrow> bool" where
  "face_counts_match groups = list_all (\<lambda>g. length (snd g) = die_count (fst g)) groups"

section \<open>What resolution accepts\<close>

text \<open>The dice of a pool one by one.\<close>

definition flat_dice :: "die_spec list \<Rightarrow> die_sides list" where
  "flat_dice dice = concat (map (\<lambda>s. replicate (die_count s) (sides s)) dice)"

definition legal_face :: "die_sides \<Rightarrow> int \<Rightarrow> bool" where
  "legal_face d f = (case faces_of d of None \<Rightarrow> False | Some n \<Rightarrow> 1 \<le> f \<and> f \<le> n)"

lemma take_group_spec:
  assumes "idx + k \<le> length faces"
  shows "take_group k n idx faces = Inr fs \<longleftrightarrow>
     fs = take k (drop idx faces) \<and> (\<forall>f \<in> set (take k (drop idx faces)). 1 \<le> f \<and> f \<le> n)"
  using assms
proof (induction k arbitrary: idx fs)
  case 0
  then show ?case by auto
next
  case (Suc k)
  have split: "take (Suc k) (drop idx faces) = faces ! idx # take k (drop (Suc idx) faces)"
    using Suc.prems by (simp add: Cons_nth_drop_Suc[symmetric])
  show ?case
    using Suc.IH[of "Suc idx"] Suc.prems unfolding split
    by (cases "take_group k n (Suc idx) faces") (auto simp: Let_def)
qed

lemma take_groups_spec:
  assumes "idx + sum_list (map die_count specs) \<le> length faces"
  shows "take_groups specs idx faces = Inr gs \<Longrightarrow>
      map fst gs = specs \<and> concat (map snd gs) = take (sum_list (map die_count specs)) (drop idx faces) \<and>
      face_counts_match gs \<and>
      list_all2 legal_face (flat_dice specs) (take (sum_list (map die_count specs)) (drop idx faces))"
    and "list_all2 legal_face (flat_dice specs) (take (sum_list (map die_count specs)) (drop idx faces)) \<Longrightarrow>
      \<forall>s \<in> set specs. faces_of (sides s) \<noteq> None \<Longrightarrow> \<exists>gs. take_groups specs idx faces = Inr gs"
  using assms
proof (induction specs arbitrary: idx gs)
  case Nil
  {
    case 1
    then show ?case by (simp add: flat_dice_def face_counts_match_def)
  next
    case 2
    then show ?case by simp
  }
next
  case (Cons s specs)
  let ?k = "die_count s" and ?m = "sum_list (map die_count specs)"
  have take_split: "take (?k + ?m) (drop idx faces) = take ?k (drop idx faces) @ take ?m (drop (idx + ?k) faces)"
    for idx by (simp add: take_add add.commute)
  have flat: "flat_dice (s # specs) = replicate ?k (sides s) @ flat_dice specs" by (simp add: flat_dice_def)
  {
    case 1
    then obtain n fs gs' where n: "faces_of (sides s) = Some n" and fs: "take_group ?k n idx faces = Inr fs"
        and gs': "take_groups specs (idx + ?k) faces = Inr gs'" and gs: "gs = (s, fs) # gs'"
      by (auto split: option.splits sum.splits)
    have len: "idx + ?k \<le> length faces" "idx + ?k + ?m \<le> length faces" using 1 by auto
    have f: "fs = take ?k (drop idx faces)" "\<forall>f \<in> set fs. 1 \<le> f \<and> f \<le> n"
      using take_group_spec[OF len(1)] fs by auto
    have lf: "length fs = ?k" using f(1) len(1) by simp
    have "list_all2 legal_face (replicate ?k (sides s)) fs"
      using f(2) lf n by (auto simp: list_all2_conv_all_nth legal_face_def)
    then show ?case
      using Cons.IH(1)[OF gs' len(2)] gs f(1) lf by (simp add: take_split flat list_all2_appendI face_counts_match_def)
  next
    case 2
    from 2(2) obtain n where n: "faces_of (sides s) = Some n" by auto
    have len: "idx + ?k \<le> length faces" "idx + ?k + ?m \<le> length faces" using 2 by auto
    have "list_all2 legal_face (replicate ?k (sides s) @ flat_dice specs)
        (take ?k (drop idx faces) @ take ?m (drop (idx + ?k) faces))" using 2(1) flat take_split by simp
    then have l: "list_all2 legal_face (replicate ?k (sides s)) (take ?k (drop idx faces))"
        "list_all2 legal_face (flat_dice specs) (take ?m (drop (idx + ?k) faces))"
      using len by (simp_all add: list_all2_append)
    have "\<forall>f \<in> set (take ?k (drop idx faces)). 1 \<le> f \<and> f \<le> n"
      using l(1) n by (auto simp: list_all2_conv_all_nth in_set_conv_nth legal_face_def)
    then have "take_group ?k n idx faces = Inr (take ?k (drop idx faces))"
      using take_group_spec[OF len(1)] by blast
    moreover obtain gs' where "take_groups specs (idx + ?k) faces = Inr gs'"
      using Cons.IH(2)[OF l(2) _ len(2)] 2(2) by auto
    ultimately show ?case using n by simp
  }
qed

section \<open>The seed\<close>

lemma of_char_mod_64: "(of_char c :: int) mod 2 ^ 64 = of_char c"
proof -
  have eq: "(of_char c :: int) = int (of_char c)" by (rule of_nat_of_char[symmetric])
  have "int (of_char c) < 256" using nat_of_char_less_256[of c] by linarith
  then have "int (of_char c) < 2 ^ 64" by (rule order_less_trans) simp
  then show ?thesis unfolding eq by (intro mod_pos_pos_trivial) simp_all
qed

lemma uint_of_char: "uint (of_char c :: 64 word) = of_char c"
proof -
  have len64: "LENGTH(64) = 64" by simp
  have "uint (of_int (of_char c) :: 64 word) = of_char c"
    by (simp only: uint_word_of_int of_char_mod_64 len64)
  then show ?thesis by (simp only: of_int_of_char)
qed

lemma uint_fnv_step: "uint (fnv_step h c) = fnv_step_int (uint h) c"
  by (simp add: fnv_step_def fnv_step_int_def uint_word_ariths(3) fnv_prime_def unsigned_xor_eq uint_of_char)

lemma uint_fnv: "uint (fnv h s) = foldl fnv_step_int (uint h) s"
  unfolding fnv_def by (induction s arbitrary: h) (simp_all add: uint_fnv_step)

text \<open>The prime is odd, so one step loses nothing of the running hash.\<close>

definition fnv_prime_inverse :: "64 word" where "fnv_prime_inverse = 0xCE965057AFF6957B"

lemma fnv_prime_invertible: "fnv_prime * fnv_prime_inverse = 1"
  by (simp add: fnv_prime_def fnv_prime_inverse_def)

lemma fnv_step_inj: "fnv_step h c = fnv_step h' c \<longleftrightarrow> h = h'"
proof
  assume "fnv_step h c = fnv_step h' c"
  then have "(h XOR of_char c) * (fnv_prime * fnv_prime_inverse) = (h' XOR of_char c) * (fnv_prime * fnv_prime_inverse)"
    by (simp add: fnv_step_def flip: mult.assoc)
  then have "h XOR of_char c = h' XOR of_char c" by (simp add: fnv_prime_invertible)
  then have "(h XOR of_char c) XOR of_char c = (h' XOR of_char c) XOR of_char c" by simp
  then show "h = h'" by (simp add: xor.assoc)
qed simp

section \<open>Properties\<close>

definition legal_pool :: "die_spec list \<Rightarrow> int list \<Rightarrow> bool" where
  "legal_pool dice faces \<longleftrightarrow> dice \<noteq> [] \<and> list_all (\<lambda>s. faces_of (sides s) \<noteq> None) dice \<and>
     list_all2 legal_face (flat_dice dice) faces"

lemma length_flat_dice: "length (flat_dice dice) = sum_list (map die_count dice)"
  by (induction dice) (simp_all add: flat_dice_def)

lemma resolve_cases:
  "(\<exists>groups. resolve_dice_with_faces dice faces modifier difficulty =
       Inr \<lparr>rolls = groups, roll_total = sum_list faces + modifier,
            outcome = classify (d20_faces groups) (sum_list faces + modifier) difficulty\<rparr> \<and>
       map fst groups = dice \<and> concat (map snd groups) = faces \<and> face_counts_match groups \<and> legal_pool dice faces) \<or>
   (\<exists>e. resolve_dice_with_faces dice faces modifier difficulty = Inl e \<and> \<not> legal_pool dice faces)"
proof (cases "dice = [] \<or> list_ex (\<lambda>s. faces_of (sides s) = None) dice \<or> length faces \<noteq> sum_list (map die_count dice)")
  case True
  have "\<not> legal_pool dice faces"
  proof
    assume l: "legal_pool dice faces"
    then have "length (flat_dice dice) = length faces" by (auto simp: legal_pool_def dest: list_all2_lengthD)
    then show False using True l
      by (auto simp: legal_pool_def length_flat_dice list_ex_iff list_all_iff)
  qed
  then show ?thesis using True by (auto simp: resolve_dice_with_faces_def)
next
  case False
  then have len: "length faces = sum_list (map die_count dice)" and dice: "dice \<noteq> []"
    and known: "\<forall>s \<in> set dice. faces_of (sides s) \<noteq> None" by (auto simp: list_ex_iff)
  have le: "0 + sum_list (map die_count dice) \<le> length faces" using len by simp
  have all: "take (sum_list (map die_count dice)) (drop 0 faces) = faces" using len by simp
  show ?thesis
  proof (cases "take_groups dice 0 faces")
    case (Inl e)
    have "\<not> legal_pool dice faces"
      using take_groups_spec(2)[OF le _ known] Inl all by (auto simp: legal_pool_def)
    then show ?thesis using Inl False by (simp add: resolve_dice_with_faces_def Let_def)
  next
    case (Inr groups)
    have g: "map fst groups = dice" "concat (map snd groups) = faces" "face_counts_match groups"
        "list_all2 legal_face (flat_dice dice) faces"
      using take_groups_spec(1)[OF le Inr] all by auto
    then have "legal_pool dice faces" using dice known by (simp add: legal_pool_def list_all_iff)
    then show ?thesis using Inr False g by (simp add: resolve_dice_with_faces_def Let_def)
  qed
qed

text \<open>
  Resolving a throw returns a roll exactly for a legal one: the pool is non-empty, has no unknown
  die, and every reported face lies on its die. The roll's total is the sum of the faces plus the
  modifier, its groups are the pool's groups with the faces in the order reported, so the result
  broadcast passes its own validation, and the outcome is never the unknown one.
\<close>
theorem resolve_accepts_exactly_legal_throws:
  "(\<exists>r. resolve_dice_with_faces dice faces modifier difficulty = Inr r \<and> roll_total r = sum_list faces + modifier \<and>
      map fst (rolls r) = dice \<and> concat (map snd (rolls r)) = faces \<and> face_counts_match (rolls r) \<and>
      outcome r \<noteq> UnknownOutcome)
   = legal_pool dice faces"
  using resolve_cases[of dice faces modifier difficulty]
  by (auto simp: classify_def split: if_splits)

text \<open>The rank of an outcome, worst first.\<close>

fun outcome_rank :: "roll_outcome \<Rightarrow> nat" where
  "outcome_rank UnknownOutcome = 0"
| "outcome_rank CritFail = 1"
| "outcome_rank Fail = 2"
| "outcome_rank Tie = 3"
| "outcome_rank Success = 4"
| "outcome_rank CritSuccess = 5"

lemma classify_mono:
  "t \<le> t' \<Longrightarrow> d' \<le> d \<Longrightarrow> outcome_rank (classify ds t d) \<le> outcome_rank (classify ds t' d')"
  by (simp add: classify_def DECISIVE_MARGIN_def)

lemma resolve_roll:
  assumes "resolve_dice_with_faces dice faces modifier difficulty = Inr r"
  shows "r = \<lparr>rolls = rolls r, roll_total = sum_list faces + modifier,
    outcome = classify (d20_faces (rolls r)) (sum_list faces + modifier) difficulty\<rparr>"
    and "take_groups dice 0 faces = Inr (rolls r)"
  using resolve_cases[of dice faces modifier difficulty] assms
  by (auto simp: resolve_dice_with_faces_def Let_def split: if_splits sum.splits)

text \<open>
  For the same throw a bigger modifier or a lower difficulty never gives a worse outcome, and the
  natural faces decide first: a 20 on a d20 is a critical success whatever the modifier, and a 1
  without a 20 is a critical failure.
\<close>
theorem outcome_monotone:
  assumes "resolve_dice_with_faces dice faces modifier difficulty = Inr r"
    and "resolve_dice_with_faces dice faces modifier' difficulty' = Inr r'"
    and "modifier \<le> modifier'" and "difficulty' \<le> difficulty"
  shows "outcome_rank (outcome r) \<le> outcome_rank (outcome r') \<and>
    (20 \<in> set (d20_faces (rolls r)) \<longrightarrow> outcome r = CritSuccess \<and> outcome r' = CritSuccess) \<and>
    (1 \<in> set (d20_faces (rolls r)) \<and> 20 \<notin> set (d20_faces (rolls r)) \<longrightarrow> outcome r = CritFail \<and> outcome r' = CritFail)"
proof -
  note r = resolve_roll[OF assms(1)] and r' = resolve_roll[OF assms(2)]
  have same: "rolls r' = rolls r" using r(2) r'(2) by simp
  have o: "outcome r = classify (d20_faces (rolls r)) (sum_list faces + modifier) difficulty"
    "outcome r' = classify (d20_faces (rolls r)) (sum_list faces + modifier') difficulty'"
    using arg_cong[OF r(1), of outcome] arg_cong[OF r'(1), of outcome] same by simp_all
  show ?thesis unfolding o using classify_mono[of "sum_list faces + modifier" "sum_list faces + modifier'" difficulty' difficulty] assms
    by (simp add: classify_def)
qed

theorem outcome_monotone_witness:
  "\<exists>r r'. resolve_dice_with_faces [\<lparr>sides = D20, die_count = 1\<rparr>] [11] 1 12 = Inr r \<and>
     resolve_dice_with_faces [\<lparr>sides = D20, die_count = 1\<rparr>] [11] 4 12 = Inr r' \<and>
     outcome_rank (outcome r) \<le> outcome_rank (outcome r') \<and> outcome r = Tie \<and> outcome r' = CritSuccess"
proof -
  let ?d = "[\<lparr>sides = D20, die_count = 1\<rparr>] :: die_spec list"
  let ?r = "\<lparr>rolls = [(\<lparr>sides = D20, die_count = 1\<rparr>, [11])], roll_total = 12, outcome = Tie\<rparr>"
  let ?r' = "\<lparr>rolls = [(\<lparr>sides = D20, die_count = 1\<rparr>, [11])], roll_total = 15, outcome = CritSuccess\<rparr>"
  have r: "resolve_dice_with_faces ?d [11] 1 12 = Inr ?r" by code_simp
  have r': "resolve_dice_with_faces ?d [11] 4 12 = Inr ?r'" by code_simp
  show ?thesis using outcome_monotone[OF r r'] r r' by simp
qed

text \<open>
  The spectator seed computed with 64-bit words is the source's masked integer hash, and two rounds
  or two sessions whose prefixes hash differently keep different seeds as long as the rest of the text
  is the same: no step of the hash loses information about the running value.
\<close>
theorem dice_seed_is_masked_fnv:
  "uint (generate_dice_seed sid n) = generate_dice_seed_int sid n \<and>
   (generate_dice_seed sid n = generate_dice_seed sid' n \<longleftrightarrow> fnv fnv_offset sid = fnv fnv_offset sid')"
proof -
  have inj: "fnv h s = fnv h' s \<longleftrightarrow> h = h'" for h h' s
    unfolding fnv_def by (induction s arbitrary: h h') (simp_all add: fnv_step_inj)
  have "uint fnv_offset = 0xCBF29CE484222325" by (simp add: fnv_offset_def)
  then show ?thesis
    by (simp add: generate_dice_seed_def generate_dice_seed_int_def uint_fnv uint_fnv_step inj fnv_step_inj)
qed

end
