(* ===== verification/Embedding_Worker.thy ===== *)
theory Embedding_Worker
  imports Prelude "HOL-Library.Char_ord" "HOL-Library.List_Lexorder"
begin

text \<open>
  The embedding worker (src/sidequest/game/lore_embedding.py and entity_embedding.py): it drains the
  queue of cards without a vector, asking the embedding daemon for one card at a time. Every
  \<open>await client.embed(...)\<close> gives control to the other tasks of the event loop, which may change the
  store before the reply arrives; the interleaving is explicit here. An await is a pair: the daemon's
  reply as a function of the text that was sent, and the store operations the other tasks perform
  before the worker resumes. The daemon is not part of the program: its replies are the parameter,
  and a list of awaits that runs out reads as a daemon that has gone away.

  The loop is written once over the store's operations; Lore and Entities instantiate it with theirs.
\<close>

section \<open>The loop\<close>

datatype embed_reply =
    Unavailable
  | RequestError
  | TextTooLarge
  | Vector "rat list" "string option"

record worker_result =
  embedded :: nat
  failed_embed_error :: nat
  failed_text_too_large :: nat
  skipped_daemon_unavailable :: bool
  skipped_empty_queue :: bool
  embedding_model :: "string option"

definition new_worker_result :: worker_result where
  "new_worker_result = \<lparr>embedded = 0, failed_embed_error = 0, failed_text_too_large = 0,
     skipped_daemon_unavailable = False, skipped_empty_queue = False, embedding_model = None\<rparr>"

definition failed :: "worker_result \<Rightarrow> nat" where
  "failed r = failed_embed_error r + failed_text_too_large r"

type_synonym 'op await = "(string \<Rightarrow> embed_reply) \<times> 'op list"

record ('s, 'c, 'op) index_ops =
  get_card :: "'s \<Rightarrow> string \<Rightarrow> 'c option"
  card_text :: "'c \<Rightarrow> string"
  pending_ids :: "int option \<Rightarrow> 's \<Rightarrow> string list"
  mark_failed :: "string \<Rightarrow> ('s, int) sm"
  write_vector :: "string \<Rightarrow> rat list \<Rightarrow> nat option \<Rightarrow> ('s, bool) sm"
  other_step :: "'op \<Rightarrow> 's \<Rightarrow> 's"
  notes_model :: bool

definition note_model :: "bool \<Rightarrow> string option \<Rightarrow> worker_result \<Rightarrow> worker_result" where
  "note_model on m r = (if on \<and> embedding_model r = None then r\<lparr>embedding_model := m\<rparr> else r)"

definition pinned_dim :: "nat option \<Rightarrow> rat list \<Rightarrow> nat option" where
  "pinned_dim d v = (case d of None \<Rightarrow> Some (length v) | Some k \<Rightarrow> Some k)"

definition next_await :: "'op await list \<Rightarrow> 'op await" where
  "next_await aw = (case aw of [] \<Rightarrow> (\<lambda>_. Unavailable, []) | a # _ \<Rightarrow> a)"

text \<open>The body after the reply has arrived; \<open>Inl\<close> stops the loop, \<open>Inr\<close> carries the pinned dimension on.\<close>

definition handle_reply ::
  "('s, 'c, 'op) index_ops \<Rightarrow> string \<Rightarrow> embed_reply \<Rightarrow> nat option \<Rightarrow> worker_result
   \<Rightarrow> ('s, worker_result + nat option \<times> worker_result) sm" where
  "handle_reply ops i reply d r =
     (case reply of
        Unavailable \<Rightarrow> ret (Inl (r\<lparr>skipped_daemon_unavailable := True\<rparr>))
      | RequestError \<Rightarrow> sbind (mark_failed ops i) (\<lambda>_.
          ret (Inr (d, r\<lparr>failed_embed_error := failed_embed_error r + 1\<rparr>)))
      | TextTooLarge \<Rightarrow> sbind (mark_failed ops i) (\<lambda>_.
          ret (Inr (d, r\<lparr>failed_text_too_large := failed_text_too_large r + 1\<rparr>)))
      | Vector v m \<Rightarrow>
          (let r1 = note_model (notes_model ops) m r; d1 = pinned_dim d v in
           sbind (write_vector ops i v d1) (\<lambda>written.
             ret (Inr (d1, if written then r1\<lparr>embedded := embedded r1 + 1\<rparr>
                           else r1\<lparr>failed_embed_error := failed_embed_error r1 + 1\<rparr>)))))"

fun drain ::
  "('s, 'c, 'op) index_ops \<Rightarrow> string list \<Rightarrow> 'op await list \<Rightarrow> nat option \<Rightarrow> worker_result
   \<Rightarrow> ('s, worker_result) sm" where
  "drain ops [] aw d r s = (Inr r, s)"
| "drain ops (i # is) aw d r s =
     (case get_card ops s i of
        None \<Rightarrow> drain ops is aw d r s
      | Some c \<Rightarrow>
          (let (daemon, others) = next_await aw; s1 = fold (other_step ops) others s in
           case handle_reply ops i (daemon (card_text ops c)) d r s1 of
             (Inl e, s2) \<Rightarrow> (Inl e, s2)
           | (Inr (Inl r'), s2) \<Rightarrow> (Inr r', s2)
           | (Inr (Inr (d', r')), s2) \<Rightarrow> drain ops is (tl aw) d' r' s2))"

definition run_worker ::
  "('s, 'c, 'op) index_ops \<Rightarrow> int option \<Rightarrow> int option \<Rightarrow> bool \<Rightarrow> 'op await list \<Rightarrow> ('s, worker_result) sm" where
  "run_worker ops max_retries max_per_run daemon_available aw s =
     (let pending = pending_ids ops max_retries s in
      if pending = [] then (Inr (new_worker_result\<lparr>skipped_empty_queue := True\<rparr>), s)
      else if \<not> daemon_available then (Inr (new_worker_result\<lparr>skipped_daemon_unavailable := True\<rparr>), s)
      else let pending' = (case max_per_run of None \<Rightarrow> pending | Some n \<Rightarrow> take (nat (max 0 n)) pending)
           in drain ops pending' aw None new_worker_result s)"

section \<open>Facts about one reply\<close>

lemma snd_sbind_ret: "snd (sbind m (\<lambda>x. ret (f x)) s) = snd (m s)"
  by (simp add: sm_defs split: prod.splits sum.splits)

lemma snd_handle_reply:
  "snd (handle_reply ops i reply d r s) =
     (case reply of Unavailable \<Rightarrow> s | RequestError \<Rightarrow> snd (mark_failed ops i s)
      | TextTooLarge \<Rightarrow> snd (mark_failed ops i s)
      | Vector v m \<Rightarrow> snd (write_vector ops i v (pinned_dim d v) s))"
  by (cases reply) (simp_all add: handle_reply_def snd_sbind_ret Let_def, simp add: ret_def)

lemma handle_pin:
  "fst (handle_reply ops i reply d r s) = Inr (Inr (d', r')) \<Longrightarrow>
   (case reply of Vector v m \<Rightarrow> d' = pinned_dim d v | _ \<Rightarrow> d' = d)"
  by (cases reply) (auto simp: handle_reply_def sm_defs Let_def split: prod.splits sum.splits)

text \<open>Every card handled is counted once: as embedded or as failed.\<close>

lemma handle_counts:
  "fst (handle_reply ops i reply d r s) = Inr (Inr (d', r')) \<Longrightarrow>
   embedded r' + failed r' = Suc (embedded r + failed r)"
  by (cases reply) (auto simp: handle_reply_def sm_defs Let_def failed_def note_model_def split: prod.splits sum.splits if_splits)

lemma handle_stop_counts:
  "fst (handle_reply ops i reply d r s) = Inr (Inl r') \<Longrightarrow> embedded r' = embedded r \<and> failed r' = failed r"
  by (cases reply) (auto simp: handle_reply_def sm_defs Let_def failed_def split: prod.splits sum.splits)

lemma drain_counts:
  "fst (drain ops is aw d r s) = Inr r' \<Longrightarrow> embedded r' + failed r' \<le> embedded r + failed r + length is"
proof (induction "is" arbitrary: aw d r s)
  case (Cons i "is")
  show ?case
  proof (cases "get_card ops s i")
    case None
    then show ?thesis using Cons.IH[of aw d r s] Cons.prems by simp
  next
    case (Some c)
    obtain daemon others where aw: "next_await aw = (daemon, others)" by fastforce
    let ?s1 = "fold (other_step ops) others s" and ?reply = "daemon (card_text ops c)"
    obtain h s2 where h: "handle_reply ops i ?reply d r ?s1 = (h, s2)" by fastforce
    then have fst: "fst (handle_reply ops i ?reply d r ?s1) = h" by simp
    consider e where "h = Inl e" | r1 where "h = Inr (Inl r1)" | d1 r1 where "h = Inr (Inr (d1, r1))"
      by (metis sum.exhaust prod.exhaust)
    then show ?thesis
    proof cases
      case 1
      then show ?thesis using Cons.prems Some aw h by simp
    next
      case 2
      then show ?thesis using Cons.prems Some aw h handle_stop_counts[of ops i ?reply d r ?s1 r1] by simp
    next
      case 3
      then have "fst (drain ops is (tl aw) d1 r1 s2) = Inr r'" using Cons.prems Some aw h by simp
      then show ?thesis using Cons.IH handle_counts[of ops i ?reply d r ?s1 d1 r1] h 3 by fastforce
    qed
  qed
qed simp

lemma run_counts:
  assumes "fst (run_worker ops mr mp av aw s) = Inr r"
  shows "embedded r + failed r \<le> length (pending_ids ops mr s)"
proof -
  have z: "embedded new_worker_result = 0" "failed new_worker_result = 0" by (simp_all add: new_worker_result_def failed_def)
  have d: "embedded r + failed r \<le> length is" if "fst (drain ops is aw None new_worker_result s) = Inr r" for "is"
    using drain_counts[OF that] z by simp
  show ?thesis
  proof (cases "pending_ids ops mr s = [] \<or> \<not> av")
    case True
    then have "embedded r = 0 \<and> failed r = 0"
      using assms z by (cases "pending_ids ops mr s = []") (auto simp: run_worker_def Let_def failed_def)
    then show ?thesis by simp
  next
    case False
    then show ?thesis
    proof (cases mp)
      case None
      then show ?thesis using False assms d[of "pending_ids ops mr s"] by (simp add: run_worker_def Let_def)
    next
      case (Some n)
      then show ?thesis
        using False assms d[of "take (nat (max 0 n)) (pending_ids ops mr s)"] by (simp add: run_worker_def Let_def)
    qed
  qed
qed

section \<open>The interface of an embedding index\<close>

text \<open>
  What the worker needs of a store. \<open>inv\<close> is the store's invariant; \<open>others_ok\<close> says which operations
  the other tasks perform; \<open>dims\<close> is the set of dimensions of the stored vectors.
\<close>

locale embedding_index =
  fixes ops :: "('s, 'c, 'op) index_ops" and inv :: "'s \<Rightarrow> bool" and others_ok :: "'op \<Rightarrow> bool"
    and dims :: "'s \<Rightarrow> nat set"
  assumes inv_mark: "inv s \<Longrightarrow> inv (snd (mark_failed ops i s))"
    and inv_write: "inv s \<Longrightarrow> inv (snd (write_vector ops i v d s))"
    and inv_other: "inv s \<Longrightarrow> others_ok x \<Longrightarrow> inv (other_step ops x s)"
    and dims_mark: "inv s \<Longrightarrow> dims (snd (mark_failed ops i s)) \<subseteq> dims s"
    and dims_write: "inv s \<Longrightarrow> dims (snd (write_vector ops i v (Some k) s)) \<subseteq> insert k (dims s)"
    and dims_other: "inv s \<Longrightarrow> others_ok x \<Longrightarrow> dims (other_step ops x s) \<subseteq> dims s"
begin

definition awaits_ok :: "'op await list \<Rightarrow> bool" where
  "awaits_ok aw = list_all (\<lambda>a. list_all others_ok (snd a)) aw"

lemma awaits_ok_next: "awaits_ok aw \<Longrightarrow> list_all others_ok (snd (next_await aw)) \<and> awaits_ok (tl aw)"
  by (cases aw) (simp_all add: awaits_ok_def next_await_def)

lemma fold_others:
  "inv s \<Longrightarrow> list_all others_ok xs \<Longrightarrow>
   inv (fold (other_step ops) xs s) \<and> dims (fold (other_step ops) xs s) \<subseteq> dims s"
proof (induction xs arbitrary: s)
  case (Cons x xs)
  then show ?case using Cons.IH[of "other_step ops x s"] inv_other[of s x] dims_other[of s x] by auto
qed simp

lemma handle_inv: "inv s \<Longrightarrow> inv (snd (handle_reply ops i reply d r s))"
  by (cases reply) (simp_all add: snd_handle_reply inv_mark inv_write)

lemma handle_dims:
  assumes "inv s" "d = None \<or> d = Some k" "\<And>v m. reply = Vector v m \<Longrightarrow> pinned_dim d v = Some k"
  shows "dims (snd (handle_reply ops i reply d r s)) \<subseteq> insert k (dims s)"
  using dims_mark[OF assms(1), of i] dims_write[OF assms(1), of i _ k] assms(3)
  by (cases reply) (auto simp: snd_handle_reply)

text \<open>Any interleaving keeps the invariant, and a whole run stores vectors of one dimension only.\<close>

lemma drain_keeps:
  "inv s \<Longrightarrow> awaits_ok aw \<Longrightarrow>
   inv (snd (drain ops is aw d r s)) \<and>
   (\<exists>k. (d = None \<or> d = Some k) \<and> dims (snd (drain ops is aw d r s)) \<subseteq> insert k (dims s))"
proof (induction "is" arbitrary: aw d r s)
  case Nil
  then show ?case by (cases d) auto
next
  case (Cons i "is")
  show ?case
  proof (cases "get_card ops s i")
    case None
    then show ?thesis using Cons by simp
  next
    case (Some c)
    obtain daemon others where aw: "next_await aw = (daemon, others)" by fastforce
    let ?s1 = "fold (other_step ops) others s" and ?reply = "daemon (card_text ops c)"
    obtain h s2 where h: "handle_reply ops i ?reply d r ?s1 = (h, s2)" by fastforce
    have oth: "list_all others_ok others" "awaits_ok (tl aw)" using awaits_ok_next[OF Cons.prems(2)] aw by auto
    have s1: "inv ?s1" "dims ?s1 \<subseteq> dims s" using fold_others[OF Cons.prems(1) oth(1)] by auto
    have s2: "inv s2" using handle_inv[OF s1(1), of i ?reply d r] h by simp
    define k0 where "k0 = (case d of Some k \<Rightarrow> k | None \<Rightarrow> (case ?reply of Vector v m \<Rightarrow> length v | _ \<Rightarrow> 0))"
    have d0: "d = None \<or> d = Some k0" by (cases d) (auto simp: k0_def)
    have "dims s2 \<subseteq> insert k0 (dims ?s1)"
      using handle_dims[OF s1(1) d0, of ?reply i r] h
      by (auto simp: pinned_dim_def k0_def split: option.splits)
    then have dims2: "dims s2 \<subseteq> insert k0 (dims s)" using s1(2) by auto
    show ?thesis
    proof (cases "\<exists>d' r'. h = Inr (Inr (d', r'))")
      case True
      then obtain d' r' where h': "h = Inr (Inr (d', r'))" by auto
      have step: "drain ops (i # is) aw d r s = drain ops is (tl aw) d' r' s2"
        using Some aw h h' by simp
      obtain k where k: "d' = None \<or> d' = Some k" "dims (snd (drain ops is (tl aw) d' r' s2)) \<subseteq> insert k (dims s2)"
        and i: "inv (snd (drain ops is (tl aw) d' r' s2))"
        using Cons.IH[OF s2 oth(2), of d' r'] by auto
      have d': "(d' = d \<and> s2 \<in> {?s1, snd (mark_failed ops i ?s1)}) \<or> d' = Some k0"
        using h h' handle_pin[of ops i ?reply d r ?s1] snd_handle_reply[of ops i ?reply d r ?s1]
        by (cases ?reply) (auto simp: k0_def pinned_dim_def split: option.splits)
      show ?thesis
      proof (cases "d' = Some k0")
        case True
        then show ?thesis using step i k dims2 d0 by auto
      next
        case False
        then have "d' = d" "dims s2 \<subseteq> dims s"
          using d' s1 dims_mark[OF s1(1), of i] by auto
        then show ?thesis using step i k by auto
      qed
    next
      case False
      then have "snd (drain ops (i # is) aw d r s) = s2"
        using Some aw h by (auto split: sum.splits)
      then show ?thesis using s2 dims2 d0 by auto
    qed
  qed
qed

lemma run_keeps:
  assumes "inv s" "awaits_ok aw"
  shows "inv (snd (run_worker ops mr mp av aw s)) \<and>
    (\<exists>k. dims (snd (run_worker ops mr mp av aw s)) \<subseteq> insert k (dims s))"
proof -
  have d: "\<exists>k. dims (snd (drain ops is aw None new_worker_result s)) \<subseteq> insert k (dims s)" for "is"
    using drain_keeps[OF assms] by blast
  have i: "inv (snd (drain ops is aw None new_worker_result s))" for "is"
    using drain_keeps[OF assms] by blast
  have triv: "\<exists>k. dims s \<subseteq> insert k (dims s)" by blast
  show ?thesis
    unfolding run_worker_def Let_def by (simp add: d i triv assms(1))
qed

end

text \<open>
  An index whose other tasks leave the text of an existing card alone: then no reply is applied to a
  text it was not computed from, and no card vanishes under the worker.
\<close>

locale stable_index = embedding_index +
  fixes fresh :: "(string \<Rightarrow> rat list) \<Rightarrow> 's \<Rightarrow> bool"
  assumes stable_other: "inv s \<Longrightarrow> others_ok x \<Longrightarrow> get_card ops s i = Some c \<Longrightarrow>
      \<exists>c'. get_card ops (other_step ops x s) i = Some c' \<and> card_text ops c' = card_text ops c"
    and fresh_other: "inv s \<Longrightarrow> others_ok x \<Longrightarrow> fresh f s \<Longrightarrow> fresh f (other_step ops x s)"
    and fresh_mark: "inv s \<Longrightarrow> fresh f s \<Longrightarrow> fresh f (snd (mark_failed ops i s))"
    and fresh_write: "inv s \<Longrightarrow> fresh f s \<Longrightarrow> get_card ops s i = Some c \<Longrightarrow>
      fresh f (snd (write_vector ops i (f (card_text ops c)) d s))"
    and mark_returns: "get_card ops s i = Some c \<Longrightarrow> \<exists>n. fst (mark_failed ops i s) = Inr n"
    and write_returns: "get_card ops s i = Some c \<Longrightarrow> v \<noteq> [] \<Longrightarrow> \<exists>b. fst (write_vector ops i v d s) = Inr b"
begin

definition honest :: "(string \<Rightarrow> rat list) \<Rightarrow> 'op await list \<Rightarrow> bool" where
  "honest f aw \<longleftrightarrow> (\<forall>a \<in> set aw. \<forall>t v m. fst a t = Vector v m \<longrightarrow> v = f t \<and> v \<noteq> [])"

lemma fold_stable:
  "inv s \<Longrightarrow> list_all others_ok xs \<Longrightarrow> get_card ops s i = Some c \<Longrightarrow>
   \<exists>c'. get_card ops (fold (other_step ops) xs s) i = Some c' \<and> card_text ops c' = card_text ops c"
proof (induction xs arbitrary: s c)
  case (Cons x xs)
  then obtain c' where "get_card ops (other_step ops x s) i = Some c'" "card_text ops c' = card_text ops c"
    using stable_other[of s x i c] by auto
  then show ?case using Cons.IH[of "other_step ops x s" c'] Cons.prems inv_other[of s x] by simp
qed simp

lemma fold_fresh:
  "inv s \<Longrightarrow> list_all others_ok xs \<Longrightarrow> fresh f s \<Longrightarrow> fresh f (fold (other_step ops) xs s)"
proof (induction xs arbitrary: s)
  case (Cons x xs)
  then show ?case using Cons.IH[of "other_step ops x s"] inv_other[of s x] fresh_other[of s x f] by simp
qed simp

lemma handle_fresh:
  assumes "inv s" "fresh f s" "get_card ops s i = Some c"
    and "\<And>v m. reply = Vector v m \<Longrightarrow> v = f (card_text ops c) \<and> v \<noteq> []"
  shows "fresh f (snd (handle_reply ops i reply d r s)) \<and> (\<exists>y. fst (handle_reply ops i reply d r s) = Inr y)"
proof (cases reply)
  case Unavailable
  then show ?thesis using assms(2) by (simp add: handle_reply_def sm_defs)
next
  case (Vector v m)
  then have v: "v = f (card_text ops c)" "v \<noteq> []" using assms(4) by auto
  obtain b s' where w: "write_vector ops i v (pinned_dim d v) s = (Inr b, s')"
    using write_returns[OF assms(3) v(2), of "pinned_dim d v"] by (metis prod.collapse)
  then have "fresh f s'" using fresh_write[OF assms(1,2,3), of "pinned_dim d v"] v(1) by simp
  then show ?thesis using Vector w by (simp add: handle_reply_def sm_defs Let_def)
qed (use mark_returns[OF assms(3)] fresh_mark[OF assms(1,2), of i] in
      \<open>auto simp: handle_reply_def sm_defs split: prod.splits sum.splits\<close>)

lemma drain_fresh:
  "inv s \<Longrightarrow> awaits_ok aw \<Longrightarrow> honest f aw \<Longrightarrow> fresh f s \<Longrightarrow>
   fresh f (snd (drain ops is aw d r s)) \<and> (\<exists>r'. fst (drain ops is aw d r s) = Inr r')"
proof (induction "is" arbitrary: aw d r s)
  case (Cons i "is")
  show ?case
  proof (cases "get_card ops s i")
    case None
    then show ?thesis using Cons by simp
  next
    case (Some c)
    obtain daemon others where aw: "next_await aw = (daemon, others)" by fastforce
    let ?s1 = "fold (other_step ops) others s" and ?reply = "daemon (card_text ops c)"
    have oth: "list_all others_ok others" "awaits_ok (tl aw)" using awaits_ok_next[OF Cons.prems(2)] aw by auto
    have s1: "inv ?s1" "fresh f ?s1"
      using fold_others[OF Cons.prems(1) oth(1)] fold_fresh[OF Cons.prems(1) oth(1) Cons.prems(4)] by auto
    obtain c' where c': "get_card ops ?s1 i = Some c'" "card_text ops c' = card_text ops c"
      using fold_stable[OF Cons.prems(1) oth(1) Some] by auto
    have hon: "?reply = Vector v m \<Longrightarrow> v = f (card_text ops c') \<and> v \<noteq> []" for v m
      using Cons.prems(3) aw c'(2) by (cases aw) (auto simp: next_await_def honest_def)
    have tl: "honest f (tl aw)" using Cons.prems(3) by (cases aw) (auto simp: honest_def)
    obtain y s2 where h: "handle_reply ops i ?reply d r ?s1 = (Inr y, s2)" and f2: "fresh f s2"
      using handle_fresh[OF s1 c'(1), of ?reply d r] hon by (metis prod.collapse)
    have i2: "inv s2" using handle_inv[OF s1(1), of i ?reply d r] h by simp
    show ?thesis
      using Some aw h f2 Cons.IH[OF i2 oth(2) tl f2] by (cases y) auto
  qed
qed simp

lemma run_fresh:
  assumes "inv s" "awaits_ok aw" "honest f aw" "fresh f s"
  shows "fresh f (snd (run_worker ops mr mp av aw s)) \<and> (\<exists>r'. fst (run_worker ops mr mp av aw s) = Inr r')"
  using drain_fresh[OF assms] assms(4) by (simp add: run_worker_def Let_def)

end

end
