(* ===== verification/Embedding_Store.thy ===== *)
theory Embedding_Store
  imports Embedding_Worker
begin

text \<open>
  What the lore store and the entity store share: an entry with a text, an optional vector and the
  retry bookkeeping, and the operations both stores have with the same body (re-queueing of vectors of
  another dimension, the retry counter, the queue of pending ids, the token total). The two kinds of
  entry extend the record \<open>embeddable\<close>. Texts are ASCII, for which characters and bytes coincide.
\<close>

section \<open>Entries\<close>

record embeddable =
  card_id :: string
  content :: string
  token_estimate :: int
  metadata :: "(string \<times> string) list"
  embedding :: "rat list option"
  embedding_pending :: bool
  embedding_retry_count :: int

type_synonym 'a index = "(string \<times> 'a embeddable_scheme) list"

definition estimate_tokens :: "string \<Rightarrow> int" where
  "estimate_tokens s = (int (length s) + 3) div 4"

definition content_must_not_be_blank :: "string \<Rightarrow> unit res" where
  "content_must_not_be_blank v =
     (if blank v then Inl (ValueError ''content must not be blank or whitespace-only'') else Inr ())"

section \<open>Shared operations\<close>

definition requeue_card :: "int \<Rightarrow> 'a embeddable_scheme \<Rightarrow> 'a embeddable_scheme" where
  "requeue_card d f =
     (case embedding f of None \<Rightarrow> f
      | Some v \<Rightarrow> if int (length v) \<noteq> d
                 then f\<lparr>embedding := None, embedding_pending := True, embedding_retry_count := 0\<rparr> else f)"

definition requeue_dimension_mismatched :: "int \<Rightarrow> ('a index, nat) sm" where
  "requeue_dimension_mismatched d s =
     (if d \<le> 0 then (Inr 0, s)
      else (Inr (length (filter (\<lambda>(_, f). case embedding f of None \<Rightarrow> False | Some v \<Rightarrow> int (length v) \<noteq> d) s)),
            map (\<lambda>(k, f). (k, requeue_card d f)) s))"

definition mark_embedding_failed :: "string \<Rightarrow> ('a index, int) sm" where
  "mark_embedding_failed i s =
     (case map_of s i of
        None \<Rightarrow> (Inl (KeyError i), s)
      | Some f \<Rightarrow> (Inr (embedding_retry_count f + 1),
                  AList.update i (f\<lparr>embedding_retry_count := embedding_retry_count f + 1\<rparr>) s))"

definition pending_embedding_ids :: "int option \<Rightarrow> 'a index \<Rightarrow> string list" where
  "pending_embedding_ids max_retries s =
     sort (map fst (filter (\<lambda>(k, f). embedding_pending f \<and>
       (case max_retries of None \<Rightarrow> True | Some m \<Rightarrow> embedding_retry_count f < m)) s))"

definition total_tokens :: "'a index \<Rightarrow> int" where
  "total_tokens s = sum_list (map (\<lambda>(k, f). token_estimate f) s)"

section \<open>Invariant\<close>

definition card_ok :: "'a embeddable_scheme \<Rightarrow> bool" where
  "card_ok f \<longleftrightarrow> \<not> blank (content f) \<and> token_estimate f = estimate_tokens (content f) \<and>
     0 \<le> embedding_retry_count f \<and> embedding_pending f = (embedding f = None)"

definition index_ok :: "'a index \<Rightarrow> bool" where
  "index_ok s \<longleftrightarrow> distinct (map fst s) \<and> list_all (\<lambda>(k, f). card_id f = k \<and> card_ok f) s"

definition index_dims :: "'a index \<Rightarrow> nat set" where
  "index_dims s = {length v |k f v. (k, f) \<in> set s \<and> embedding f = Some v}"

definition index_fresh :: "(string \<Rightarrow> rat list) \<Rightarrow> 'a index \<Rightarrow> bool" where
  "index_fresh g s \<longleftrightarrow> (\<forall>k f v. (k, f) \<in> set s \<longrightarrow> embedding f = Some v \<longrightarrow> v = g (content f))"

text \<open>The texts of a store, by id.\<close>

definition texts :: "'a index \<Rightarrow> (string \<times> string) list" where
  "texts s = map (\<lambda>(k, f). (k, content f)) s"

text \<open>Replacing the value of an existing key touches that entry only.\<close>

lemma update_entry:
  assumes "map_of s i = Some f" "distinct (map fst s)"
  shows "set (AList.update i f' s) = insert (i, f') (set s - {(i, f)})"
  using assms
proof (induction s)
  case (Cons p s)
  have "(i, f) \<notin> set s" if "i \<notin> fst ` set s" using that by force
  then show ?case using Cons by (cases p) (auto split: if_splits dest: map_of_SomeD)
qed simp

lemma update_entry_fst: "map_of s i = Some f \<Longrightarrow> map fst (AList.update i f' s) = map fst s"
  by (induction s) auto

lemma index_ok_iff:
  "index_ok s \<longleftrightarrow> distinct (map fst s) \<and> (\<forall>k f. (k, f) \<in> set s \<longrightarrow> card_id f = k \<and> card_ok f)"
  by (auto simp: index_ok_def list_all_iff)

lemma index_ok_update:
  assumes "index_ok s" "map_of s i = Some f" "card_ok f'" "card_id f' = card_id f"
  shows "index_ok (AList.update i f' s)"
  using assms update_entry[OF assms(2), of f'] update_entry_fst[OF assms(2), of f']
  by (auto simp: index_ok_iff dest: map_of_SomeD)

lemma index_ok_entry: "index_ok s \<Longrightarrow> map_of s i = Some f \<Longrightarrow> card_id f = i \<and> card_ok f"
  by (auto simp: index_ok_iff dest: map_of_SomeD)

lemma requeue_card_facts:
  "card_ok f \<Longrightarrow> card_ok (requeue_card d f)"
  "card_id (requeue_card d f) = card_id f"
  "content (requeue_card d f) = content f"
  "embedding (requeue_card d f) = Some v \<Longrightarrow> embedding f = Some v"
  by (auto simp: requeue_card_def card_ok_def split: option.splits if_splits)

lemma requeue_state:
  "snd (requeue_dimension_mismatched d s) =
     (if d \<le> 0 then s else map (\<lambda>(k, f). (k, requeue_card d f)) s)"
  by (simp add: requeue_dimension_mismatched_def)

lemma map_of_requeue:
  "map_of (map (\<lambda>(k, f). (k, g f)) s) i = map_option g (map_of s i)"
  by (induction s) auto

lemma mark_state:
  "snd (mark_embedding_failed i s) = (case map_of s i of None \<Rightarrow> s
     | Some f \<Rightarrow> AList.update i (f\<lparr>embedding_retry_count := embedding_retry_count f + 1\<rparr>) s)"
  by (simp add: mark_embedding_failed_def split: option.splits)

definition with_vector :: "rat list \<Rightarrow> 'a embeddable_scheme \<Rightarrow> 'a embeddable_scheme" where
  "with_vector v f = f\<lparr>embedding := Some v, embedding_pending := False, embedding_retry_count := 0\<rparr>"

lemma with_vector_facts [simp]:
  "card_ok f \<Longrightarrow> card_ok (with_vector v f)" "card_id (with_vector v f) = card_id f"
  "content (with_vector v f) = content f" "embedding (with_vector v f) = Some v"
  by (simp_all add: with_vector_def card_ok_def)

lemma index_ok_distinct: "index_ok s \<Longrightarrow> distinct (map fst s)"
  by (simp add: index_ok_iff)

lemma index_ok_requeue: "index_ok s \<Longrightarrow> index_ok (snd (requeue_dimension_mismatched d s))"
  by (auto simp: requeue_state index_ok_iff requeue_card_facts(1-3) comp_def split_def)

lemma index_ok_mark: "index_ok s \<Longrightarrow> index_ok (snd (mark_embedding_failed i s))"
  using index_ok_entry[of s i]
  by (auto simp: mark_state card_ok_def intro!: index_ok_update split: option.splits)

lemma index_dims_subset:
  "index_dims s \<subseteq> D \<longleftrightarrow> (\<forall>k f v. (k, f) \<in> set s \<longrightarrow> embedding f = Some v \<longrightarrow> length v \<in> D)"
  by (auto simp: index_dims_def)

lemma index_dimsI: "(k, f) \<in> set s \<Longrightarrow> embedding f = Some v \<Longrightarrow> length v \<in> index_dims s"
  by (auto simp: index_dims_def)

lemma index_dims_mark: "index_ok s \<Longrightarrow> index_dims (snd (mark_embedding_failed i s)) \<subseteq> index_dims s"
  unfolding index_dims_subset
  by (auto simp: mark_state update_entry index_ok_distinct split: option.splits intro: index_dimsI dest: map_of_SomeD)

lemma index_fresh_mark: "index_ok s \<Longrightarrow> index_fresh g s \<Longrightarrow> index_fresh g (snd (mark_embedding_failed i s))"
  by (auto simp: mark_state index_fresh_def update_entry index_ok_distinct dest: map_of_SomeD split: option.splits)

end
