(* ===== verification/Lore.thy ===== *)
theory Lore
  imports Embedding_Store
begin

text \<open>
  The lore store (src/sidequest/game/lore_store.py) and its embedding worker. A fragment's text never
  changes after it was added; what changes is the embedding and its bookkeeping. Similarity ranking is
  left out.
\<close>

section \<open>Fragments and the store\<close>

record lore_fragment = embeddable +
  frag_category :: string
  frag_source :: string
  turn_created :: "int option"

definition LoreCategory_Event :: string where "LoreCategory_Event = ''event''"
definition LoreSource_GameEvent :: string where "LoreSource_GameEvent = ''game_event''"

definition new_fragment ::
  "string \<Rightarrow> string \<Rightarrow> string \<Rightarrow> string \<Rightarrow> int option \<Rightarrow> (string \<times> string) list \<Rightarrow> lore_fragment res" where
  "new_fragment i category text source turn meta =
     rbind (content_must_not_be_blank text) (\<lambda>_.
       Inr \<lparr>card_id = i, content = text, token_estimate = estimate_tokens text, metadata = meta,
            embedding = None, embedding_pending = True, embedding_retry_count = 0,
            frag_category = category, frag_source = source, turn_created = turn\<rparr>)"

type_synonym lore_store = "(string \<times> lore_fragment) list"

definition lore_add :: "lore_fragment \<Rightarrow> (lore_store, unit) sm" where
  "lore_add f s =
     (if dict_has s (card_id f) then (Inl (DuplicateLoreId (card_id f)), s)
      else (Inr (), AList.update (card_id f) f s))"

definition query_by_category :: "string \<Rightarrow> lore_store \<Rightarrow> lore_fragment list" where
  "query_by_category c s = filter (\<lambda>f. frag_category f = c) (map snd s)"

definition query_by_keyword :: "string \<Rightarrow> lore_store \<Rightarrow> lore_fragment list" where
  "query_by_keyword k s = filter (\<lambda>f. occurs_in (lower k) (lower (content f))) (map snd s)"

fun current_embedding_dim :: "lore_store \<Rightarrow> nat option" where
  "current_embedding_dim [] = None"
| "current_embedding_dim ((k, f) # s) =
     (case embedding f of None \<Rightarrow> current_embedding_dim s | Some v \<Rightarrow> Some (length v))"

definition update_embedding :: "string \<Rightarrow> rat list \<Rightarrow> nat option \<Rightarrow> (lore_store, bool) sm" where
  "update_embedding i v expected_dim s =
     (let d = (case expected_dim of None \<Rightarrow> current_embedding_dim s | Some k \<Rightarrow> Some k) in
      if d \<noteq> None \<and> length v \<noteq> the d then (Inr False, s)
      else case map_of s i of
        None \<Rightarrow> (Inl (KeyError i), s)
      | Some f \<Rightarrow> (Inr True, AList.update i
            (f\<lparr>embedding := Some v, embedding_pending := False, embedding_retry_count := 0\<rparr>) s))"

section \<open>The worker on the lore store\<close>

datatype lore_op = LoreAdd lore_fragment | LoreRequeue int

fun lore_other :: "lore_op \<Rightarrow> lore_store \<Rightarrow> lore_store" where
  "lore_other (LoreAdd f) s = snd (lore_add f s)"
| "lore_other (LoreRequeue d) s = snd (requeue_dimension_mismatched d s)"

definition lore_index :: "(lore_store, lore_fragment, lore_op) index_ops" where
  "lore_index = \<lparr>get_card = map_of, card_text = content, pending_ids = pending_embedding_ids,
     mark_failed = mark_embedding_failed, write_vector = update_embedding, other_step = lore_other,
     notes_model = True\<rparr>"

definition embed_pending_fragments ::
  "int option \<Rightarrow> int option \<Rightarrow> bool \<Rightarrow> lore_op await list \<Rightarrow> (lore_store, worker_result) sm" where
  "embed_pending_fragments = run_worker lore_index"

section \<open>The laws of the index\<close>

definition lore_other_ok :: "lore_op \<Rightarrow> bool" where
  "lore_other_ok x = (case x of LoreAdd f \<Rightarrow> card_ok f \<and> embedding f = None | LoreRequeue d \<Rightarrow> True)"

lemma new_fragment_well:
  "new_fragment i c t src n m = Inr f \<Longrightarrow> card_ok f \<and> embedding f = None \<and> card_id f = i \<and> content f = t"
  by (auto simp: new_fragment_def content_must_not_be_blank_def card_ok_def rbind_Inr_iff split: if_splits)

lemma add_state:
  "snd (lore_add f s) = (if dict_has s (card_id f) then s else s @ [(card_id f, f)])"
proof (cases "card_id f \<in> fst ` set s")
  case False
  then have "AList.update (card_id f) f s = s @ [(card_id f, f)]" by (induction s) auto
  then show ?thesis using False by (simp add: lore_add_def)
qed (simp add: lore_add_def)

lemma write_state:
  "snd (update_embedding i v d s) \<in> {s} \<union> {AList.update i (with_vector v f) s |f. map_of s i = Some f}"
  by (auto simp: update_embedding_def with_vector_def Let_def split: option.splits)

lemma write_dim: "snd (update_embedding i v (Some k) s) \<noteq> s \<Longrightarrow> length v = k"
  by (auto simp: update_embedding_def Let_def split: if_splits)

lemma index_ok_add: "index_ok s \<Longrightarrow> card_ok f \<Longrightarrow> index_ok (snd (lore_add f s))"
  by (auto simp: add_state index_ok_iff)

lemma index_ok_write: "index_ok s \<Longrightarrow> index_ok (snd (update_embedding i v d s))"
  using write_state[of i v d s] index_ok_entry[of s i] by (auto intro!: index_ok_update)

lemma index_dims_write: "index_ok s \<Longrightarrow> index_dims (snd (update_embedding i v (Some k) s)) \<subseteq> insert k (index_dims s)"
proof (cases "snd (update_embedding i v (Some k) s) = s")
  case False
  moreover assume "index_ok s"
  ultimately show ?thesis using write_state[of i v "Some k" s] write_dim[OF False]
    unfolding index_dims_subset by (auto simp: update_entry index_ok_distinct intro: index_dimsI)
qed auto

lemma lore_other_facts:
  assumes "index_ok s" "lore_other_ok x"
  shows "index_ok (lore_other x s)" "index_dims (lore_other x s) \<subseteq> index_dims s"
    "index_fresh g s \<Longrightarrow> index_fresh g (lore_other x s)"
    "map_of s i = Some c \<Longrightarrow> \<exists>c'. map_of (lore_other x s) i = Some c' \<and> content c' = content c"
proof -
  show "index_ok (lore_other x s)"
    using assms by (cases x) (auto simp: lore_other_ok_def index_ok_add index_ok_requeue)
  show "index_dims (lore_other x s) \<subseteq> index_dims s"
    unfolding index_dims_subset using assms
    by (cases x) (auto simp: lore_other_ok_def add_state requeue_state split: if_splits
        intro: index_dimsI dest: requeue_card_facts(4))
  show "index_fresh g s \<Longrightarrow> index_fresh g (lore_other x s)"
    unfolding index_fresh_def using assms
    by (cases x) (auto simp: lore_other_ok_def add_state requeue_state requeue_card_facts(3) split: if_splits
        dest: requeue_card_facts(4))
  show "map_of s i = Some c \<Longrightarrow> \<exists>c'. map_of (lore_other x s) i = Some c' \<and> content c' = content c"
    by (cases x) (auto simp: add_state requeue_state map_of_requeue requeue_card_facts(3))
qed

lemma index_fresh_write:
  "index_ok s \<Longrightarrow> index_fresh g s \<Longrightarrow> map_of s i = Some c \<Longrightarrow> index_fresh g (snd (update_embedding i (g (content c)) d s))"
  using write_state[of i "g (content c)" d s] by (auto simp: index_fresh_def update_entry index_ok_distinct)

interpretation lore: stable_index lore_index index_ok lore_other_ok index_dims index_fresh
proof (unfold_locales, goal_cases)
  case (11 s i c)
  then show ?case by (simp add: lore_index_def mark_embedding_failed_def)
next
  case (12 s i c v d)
  then show ?case by (auto simp: lore_index_def update_embedding_def Let_def)
qed (simp_all add: lore_index_def index_ok_mark index_ok_write index_dims_mark index_dims_write lore_other_facts
       index_fresh_mark index_fresh_write)

section \<open>A daemon that keeps failing\<close>

text \<open>One run in which every request fails and no other task interferes.\<close>

definition failing_run :: "int \<Rightarrow> lore_store \<Rightarrow> lore_store" where
  "failing_run m s = snd (embed_pending_fragments (Some m) None True (replicate (length s) (\<lambda>_. RequestError, [])) s)"

definition charge :: "lore_fragment \<Rightarrow> lore_fragment" where
  "charge f = f\<lparr>embedding_retry_count := embedding_retry_count f + 1\<rparr>"

lemma drain_failing:
  "length is \<le> n \<Longrightarrow> set is \<subseteq> fst ` set s \<Longrightarrow>
   snd (drain lore_index is (replicate n (\<lambda>_. RequestError, [])) d r s) = fold (\<lambda>i s. snd (mark_embedding_failed i s)) is s"
proof (induction "is" arbitrary: n r s)
  case (Cons i "is")
  then obtain n' where n: "n = Suc n'" by (cases n) auto
  obtain c where c: "map_of s i = Some c" using Cons.prems(2) map_of_dom[of i s] by auto
  have "fst ` set (snd (mark_embedding_failed i s)) = fst ` set s"
    using c arg_cong[OF update_entry_fst[OF c], of set] by (simp add: mark_state)
  then show ?case
    using Cons.IH[of n' "snd (mark_embedding_failed i s)"] Cons.prems c n
    by (simp add: next_await_def handle_reply_def sm_defs lore_index_def mark_embedding_failed_def)
qed simp

lemma map_of_mark: "map_of (snd (mark_embedding_failed i s)) j = (if i = j then map_option charge (map_of s j) else map_of s j)"
  by (auto simp: mark_state charge_def update_conv' split: option.splits)

lemma map_of_marks:
  "distinct is \<Longrightarrow> map_of (fold (\<lambda>i s. snd (mark_embedding_failed i s)) is s) j =
     (if j \<in> set is then map_option charge (map_of s j) else map_of s j)"
proof (induction "is" arbitrary: s)
  case (Cons i "is")
  then show ?case using Cons.IH[of "snd (mark_embedding_failed i s)"] by (auto simp: map_of_mark)
qed simp

lemma pending_set:
  "distinct (map fst s) \<Longrightarrow> i \<in> set (pending_embedding_ids (Some m) s) \<longleftrightarrow>
   (\<exists>f. map_of s i = Some f \<and> embedding_pending f \<and> embedding_retry_count f < m)"
  by (force simp: pending_embedding_ids_def dest: map_of_is_SomeI)

lemma pending_distinct: "distinct (map fst s) \<Longrightarrow> distinct (pending_embedding_ids mr s)"
  by (simp add: pending_embedding_ids_def distinct_map_filter)

lemma failing_run_map:
  assumes "index_ok s"
  shows "map_of (failing_run m s) j = map_option (\<lambda>f. if embedding_pending f \<and> embedding_retry_count f < m then charge f else f) (map_of s j)"
    and "index_ok (failing_run m s)"
proof -
  let ?p = "pending_embedding_ids (Some m) s"
  note d = index_ok_distinct[OF assms]
  have keys: "set ?p \<subseteq> fst ` set s" by (auto simp: pending_embedding_ids_def)
  have len: "length ?p \<le> length s" by (simp add: pending_embedding_ids_def)
  have eq: "failing_run m s = fold (\<lambda>i s. snd (mark_embedding_failed i s)) ?p s"
  proof (cases "?p = []")
    case True
    then show ?thesis by (simp add: failing_run_def embed_pending_fragments_def run_worker_def lore_index_def)
  next
    case False
    then show ?thesis using drain_failing[OF len keys]
      by (simp add: failing_run_def embed_pending_fragments_def run_worker_def Let_def lore_index_def)
  qed
  show "map_of (failing_run m s) j = map_option (\<lambda>f. if embedding_pending f \<and> embedding_retry_count f < m then charge f else f) (map_of s j)"
    unfolding eq map_of_marks[OF pending_distinct[OF d]] pending_set[OF d] by (cases "map_of s j") auto
  have "index_ok (fold (\<lambda>i s. snd (mark_embedding_failed i s)) xs t)" if "index_ok t" for xs t
    using that by (induction xs arbitrary: t) (simp_all add: index_ok_mark)
  then show "index_ok (failing_run m s)" using assms eq by simp
qed

lemma failing_runs:
  "index_ok s \<Longrightarrow> index_ok ((failing_run m ^^ n) s) \<and>
   (\<forall>j f. map_of ((failing_run m ^^ n) s) j = Some f \<longrightarrow> min (int n) m \<le> embedding_retry_count f \<or> \<not> embedding_pending f)"
proof (induction n)
  case 0
  then show ?case by (auto simp: index_ok_iff card_ok_def dest!: map_of_SomeD intro: min.coboundedI1)
next
  case (Suc n)
  let ?t = "(failing_run m ^^ n) s"
  have t: "index_ok ?t" using Suc by simp
  have "min (int (Suc n)) m \<le> embedding_retry_count f \<or> \<not> embedding_pending f"
    if found: "map_of (failing_run m ?t) j = Some f" for j f
  proof -
    obtain z where z: "map_of ?t j = Some z"
        "f = (if embedding_pending z \<and> embedding_retry_count z < m then charge z else z)"
      using found failing_run_map(1)[OF t, of m j] by (cases "map_of ?t j") auto
    then have "min (int n) m \<le> embedding_retry_count z \<or> \<not> embedding_pending z" using Suc by simp
    then show ?thesis using z(2) by (auto simp: charge_def min_def split: if_splits)
  qed
  then show ?case using failing_run_map(2)[OF t, of m] by simp
qed

section \<open>Properties\<close>

text \<open>
  Whatever other tasks add to the store or re-queue while the worker waits for the daemon, a run
  keeps the store consistent: ids stay unique, every fragment is either pending or embedded, its token
  estimate and retry counter are right. A run stores vectors of at most one new dimension, however
  often the daemon changes its model meanwhile.
\<close>
theorem lore_worker_keeps_store:
  assumes "index_ok s" and "list_all (\<lambda>a. list_all lore_other_ok (snd a)) aw"
  shows "index_ok (snd (embed_pending_fragments mr mp av aw s)) \<and>
    (\<exists>k. index_dims (snd (embed_pending_fragments mr mp av aw s)) \<subseteq> insert k (index_dims s))"
  unfolding embed_pending_fragments_def
  using lore.run_keeps[OF assms(1)] assms(2) by (simp add: lore.awaits_ok_def)

definition sample_fragment :: "string \<Rightarrow> string \<Rightarrow> lore_fragment" where
  "sample_fragment i t = \<lparr>card_id = i, content = t, token_estimate = estimate_tokens t, metadata = [],
     embedding = None, embedding_pending = True, embedding_retry_count = 0,
     frag_category = ''event'', frag_source = ''game_event'', turn_created = Some 1\<rparr>"

definition sample_lore :: lore_store where
  "sample_lore = [(''b'', sample_fragment ''b'' ''The bridge burns.''), (''a'', sample_fragment ''a'' ''A pact.'')]"

definition sample_awaits :: "lore_op await list" where
  "sample_awaits = [(\<lambda>t. Vector [of_nat (length t)] None, [LoreAdd (sample_fragment ''c'' ''Rain.'')]),
     (\<lambda>t. Vector [of_nat (length t), 1] None, [LoreRequeue 2])]"

lemma sample_lore_ok: "index_ok sample_lore"
  by code_simp

theorem lore_worker_keeps_store_witness:
  "index_ok (snd (embed_pending_fragments (Some 3) None True sample_awaits sample_lore))"
proof -
  have "list_all (\<lambda>a. list_all lore_other_ok (snd a)) sample_awaits" by code_simp
  from lore_worker_keeps_store[OF sample_lore_ok this] show ?thesis by blast
qed

text \<open>
  If the daemon answers every text with that text's vector, then after a run every stored vector
  belongs to its fragment's text, under every interleaving with additions and re-queueing; and the run
  returns, it never dies on a missing fragment. At most the pending fragments are counted as embedded
  or failed.
\<close>
theorem lore_vectors_match_texts:
  assumes "index_ok s" and "list_all (\<lambda>a. list_all lore_other_ok (snd a)) aw"
    and "\<forall>a \<in> set aw. \<forall>t v m. fst a t = Vector v m \<longrightarrow> v = g t \<and> v \<noteq> []" and "index_fresh g s"
  shows "index_fresh g (snd (embed_pending_fragments mr mp av aw s)) \<and>
    (\<exists>r. fst (embed_pending_fragments mr mp av aw s) = Inr r \<and> embedded r + failed r \<le> length (pending_embedding_ids mr s))"
proof -
  have ok: "lore.awaits_ok aw" "lore.honest g aw" using assms(2,3) by (auto simp: lore.awaits_ok_def lore.honest_def)
  obtain r where r: "fst (run_worker lore_index mr mp av aw s) = Inr r"
    using lore.run_fresh[OF assms(1) ok assms(4)] by blast
  have "embedded r + failed r \<le> length (pending_embedding_ids mr s)"
    using run_counts[OF r] by (simp add: lore_index_def)
  then show ?thesis using lore.run_fresh[OF assms(1) ok assms(4), of mr mp av] r
    unfolding embed_pending_fragments_def by blast
qed

theorem lore_vectors_match_texts_witness:
  "\<exists>aw. index_fresh (\<lambda>t. [of_nat (length t)]) (snd (embed_pending_fragments (Some 3) None True aw sample_lore)) \<and>
     map_option embedding (map_of (snd (embed_pending_fragments (Some 3) None True aw sample_lore)) ''a'') = Some (Some [7])"
proof -
  let ?aw = "[(\<lambda>t. Vector [of_nat (length t)] None, [LoreRequeue 5]), (\<lambda>t. RequestError, [])] :: lore_op await list"
  have ok: "list_all (\<lambda>a. list_all lore_other_ok (snd a)) ?aw" by code_simp
  have fresh: "index_fresh (\<lambda>t. [of_nat (length t)]) sample_lore"
    by (auto simp: index_fresh_def sample_lore_def sample_fragment_def)
  have val: "map_option embedding (map_of (snd (embed_pending_fragments (Some 3) None True ?aw sample_lore)) ''a'') = Some (Some [7])"
    by code_simp
  have "index_fresh (\<lambda>t. [of_nat (length t)]) (snd (embed_pending_fragments (Some 3) None True ?aw sample_lore))"
    using lore_vectors_match_texts[OF sample_lore_ok ok, of "\<lambda>t. [of_nat (length t)]"] fresh by simp
  then show ?thesis using val by blast
qed

text \<open>
  A daemon that keeps failing costs a bounded number of requests: after as many failing runs as
  the retry ceiling no fragment is eligible any more, so a poisoned fragment cannot be retried forever.
\<close>
theorem retry_budget_is_finite:
  assumes "index_ok s"
  shows "pending_embedding_ids (Some (int m)) ((failing_run (int m) ^^ m) s) = []"
proof -
  let ?t = "(failing_run (int m) ^^ m) s"
  have t: "index_ok ?t" "\<forall>j f. map_of ?t j = Some f \<longrightarrow> int m \<le> embedding_retry_count f \<or> \<not> embedding_pending f"
    using failing_runs[OF assms, where m = "int m" and n = m] by auto
  have "i \<notin> set (pending_embedding_ids (Some (int m)) ?t)" for i
    using t(2) pending_set[OF index_ok_distinct[OF t(1)], of i "int m"] by force
  then show ?thesis by (metis list.set_intros(1) list.exhaust)
qed

theorem retry_budget_is_finite_witness:
  "pending_embedding_ids (Some 3) ((failing_run 3 ^^ 3) sample_lore) = [] \<and>
   pending_embedding_ids (Some 3) ((failing_run 3 ^^ 2) sample_lore) = [''a'', ''b'']"
proof -
  have "pending_embedding_ids (Some 3) ((failing_run 3 ^^ 2) sample_lore) = [''a'', ''b'']" by code_simp
  then show ?thesis using retry_budget_is_finite[OF sample_lore_ok, of 3] by simp
qed

text \<open>
  The first reply of a run is written whatever the dimension of the store: the worker pins its
  expected dimension to that reply, so the guard of \<open>update_embedding\<close> against another dimension does
  not apply to it. A vector of the old model that arrives after a re-queueing for a new dimension is
  stored and the fragment leaves the queue.
\<close>
theorem first_reply_escapes_requeue:
  assumes "pending_embedding_ids mr s = i # is" and "map_of s i = Some f" and "daemon (content f) = Vector v m"
  shows "\<exists>f'. map_of (snd (embed_pending_fragments mr (Some 1) True [(daemon, [LoreRequeue d])] s)) i = Some f' \<and>
    embedding f' = Some v \<and> \<not> embedding_pending f'"
proof -
  obtain f1 where f1: "map_of (snd (requeue_dimension_mismatched d s)) i = Some f1"
    using assms(2) by (cases "d \<le> 0") (auto simp: requeue_state map_of_requeue)
  show ?thesis
    using assms f1
    by (simp add: embed_pending_fragments_def run_worker_def lore_index_def next_await_def handle_reply_def sm_defs
        pinned_dim_def update_embedding_def Let_def update_conv')
qed

theorem first_reply_escapes_requeue_witness:
  "\<exists>f'. map_of (snd (embed_pending_fragments (Some 3) (Some 1) True [(\<lambda>t. Vector [1, 2] None, [LoreRequeue 3])] sample_lore)) ''a'' = Some f' \<and>
    embedding f' = Some [1, 2] \<and> \<not> embedding_pending f'"
proof -
  have p: "pending_embedding_ids (Some 3) sample_lore = [''a'', ''b'']" by code_simp
  have a: "map_of sample_lore ''a'' = Some (sample_fragment ''a'' ''A pact.'')" by code_simp
  show ?thesis by (rule first_reply_escapes_requeue[OF p a]) (rule refl)
qed

end
