(* ===== verification/Entities.thy ===== *)
theory Entities
  imports Lore
begin

text \<open>
  The entity index (src/sidequest/game/entity_card.py, entity_store.py) and its embedding worker
  (entity_embedding.py). Unlike lore, an entity card may be replaced by a fresh projection or evicted
  while the worker waits for the daemon; the theorems say what survives that and what does not. The
  projectors that render a creature or a place into a card's text are left out.
\<close>

section \<open>Cards\<close>

record entity_card = embeddable +
  entity_type :: string
  entity_ref :: string

definition ID_NAMESPACE :: "(string \<times> string) list" where
  "ID_NAMESPACE = [(''npc'', ''npc''), (''location'', ''loc''), (''faction'', ''faction''),
     (''relationship'', ''rel''), (''quest'', ''quest''), (''trope'', ''trope'')]"

definition new_card ::
  "string \<Rightarrow> string \<Rightarrow> string \<Rightarrow> string option \<Rightarrow> (string \<times> string) list \<Rightarrow> entity_card res" where
  "new_card etype eid text ref meta =
     (case map_of ID_NAMESPACE etype of
        None \<Rightarrow> Inl (ValueError ''unknown entity_type'')
      | Some namespace \<Rightarrow>
          if blank eid then Inl (ValueError ''entity_id must not be blank or whitespace-only'')
          else rbind (content_must_not_be_blank text) (\<lambda>_.
            Inr \<lparr>card_id = namespace @ '':'' @ eid, content = text, token_estimate = estimate_tokens text,
                 metadata = meta, embedding = None, embedding_pending = True, embedding_retry_count = 0,
                 entity_type = etype, entity_ref = (case ref of None \<Rightarrow> eid | Some r \<Rightarrow> r)\<rparr>))"

definition slug :: "string \<Rightarrow> string res" where
  "slug name =
     (if blank name then Inl (ValueError ''entity name must not be blank or whitespace-only'')
      else Inr (map (\<lambda>c. if c = CHR '' '' then CHR ''_'' else c) (lower (strip name))))"

definition npc_card_id :: "string \<Rightarrow> string res" where
  "npc_card_id name = rbind (slug name) (\<lambda>s. Inr (''npc'' @ '':'' @ s))"

definition relationship_card_id :: "string \<Rightarrow> string res" where
  "relationship_card_id name = rbind (slug name) (\<lambda>s. Inr (''rel'' @ '':'' @ s))"

section \<open>The store\<close>

type_synonym entity_store = "(string \<times> entity_card) list"

definition entity_add :: "entity_card \<Rightarrow> (entity_store, unit) sm" where
  "entity_add c s =
     (if dict_has s (card_id c) then (Inl (DuplicateEntityId (card_id c)), s)
      else (Inr (), AList.update (card_id c) c s))"

definition entity_upsert :: "entity_card \<Rightarrow> entity_store \<Rightarrow> bool \<times> entity_store" where
  "entity_upsert c s =
     (case map_of s (card_id c) of
        None \<Rightarrow> (True, AList.update (card_id c) c s)
      | Some existing \<Rightarrow>
          if content existing = content c then (False, s)
          else (True, AList.update (card_id c) (c\<lparr>embedding_pending := True\<rparr>) s))"

definition entity_discard :: "string \<Rightarrow> entity_store \<Rightarrow> bool \<times> entity_store" where
  "entity_discard i s = (if dict_has s i then (True, AList.delete i s) else (False, s))"

definition entity_mark_embedding_failed :: "string \<Rightarrow> (entity_store, int) sm" where
  "entity_mark_embedding_failed = mark_embedding_failed"

definition query_by_type :: "string \<Rightarrow> entity_store \<Rightarrow> entity_card list" where
  "query_by_type t s = filter (\<lambda>c. entity_type c = t) (map snd s)"

definition entity_pending_embedding_ids :: "int option \<Rightarrow> entity_store \<Rightarrow> string list" where
  "entity_pending_embedding_ids = pending_embedding_ids"

definition entity_requeue_dimension_mismatched :: "int \<Rightarrow> (entity_store, nat) sm" where
  "entity_requeue_dimension_mismatched = requeue_dimension_mismatched"

definition entity_update_embedding :: "string \<Rightarrow> rat list \<Rightarrow> nat option \<Rightarrow> (entity_store, bool) sm" where
  "entity_update_embedding i v expected_dim s =
     (if v = [] then (Inl (ValueError ''embedding must not be empty''), s)
      else if expected_dim \<noteq> None \<and> length v \<noteq> the expected_dim then (Inr False, s)
      else case map_of s i of
        None \<Rightarrow> (Inl (KeyError i), s)
      | Some c \<Rightarrow> (Inr True, AList.update i
            (c\<lparr>embedding := Some v, embedding_pending := False, embedding_retry_count := 0\<rparr>) s))"

definition entity_total_tokens :: "entity_store \<Rightarrow> int" where
  "entity_total_tokens = total_tokens"

section \<open>The worker on the entity store\<close>

datatype entity_op = EntityAdd entity_card | EntityUpsert entity_card | EntityDiscard string | EntityRequeue int

fun entity_other :: "entity_op \<Rightarrow> entity_store \<Rightarrow> entity_store" where
  "entity_other (EntityAdd c) s = snd (entity_add c s)"
| "entity_other (EntityUpsert c) s = snd (entity_upsert c s)"
| "entity_other (EntityDiscard i) s = snd (entity_discard i s)"
| "entity_other (EntityRequeue d) s = snd (entity_requeue_dimension_mismatched d s)"

definition entity_index :: "(entity_store, entity_card, entity_op) index_ops" where
  "entity_index = \<lparr>get_card = map_of, card_text = content, pending_ids = entity_pending_embedding_ids,
     mark_failed = entity_mark_embedding_failed, write_vector = entity_update_embedding, other_step = entity_other,
     notes_model = False\<rparr>"

definition embed_pending_entity_cards ::
  "int option \<Rightarrow> int option \<Rightarrow> bool \<Rightarrow> entity_op await list \<Rightarrow> (entity_store, worker_result) sm" where
  "embed_pending_entity_cards = run_worker entity_index"

section \<open>The laws of the index\<close>

text \<open>Other tasks bring in freshly projected cards, which carry no vector yet.\<close>

definition projected :: "entity_card \<Rightarrow> bool" where
  "projected c \<longleftrightarrow> card_ok c \<and> embedding c = None"

definition entity_other_ok :: "entity_op \<Rightarrow> bool" where
  "entity_other_ok x = (case x of EntityAdd c \<Rightarrow> projected c | EntityUpsert c \<Rightarrow> projected c | _ \<Rightarrow> True)"

text \<open>The operations that leave existing texts alone.\<close>

definition entity_other_stable :: "entity_op \<Rightarrow> bool" where
  "entity_other_stable x = (case x of EntityAdd c \<Rightarrow> projected c | EntityRequeue d \<Rightarrow> True | _ \<Rightarrow> False)"

lemma index_ok_append:
  "index_ok s \<Longrightarrow> card_ok c \<Longrightarrow> card_id c \<notin> fst ` set s \<Longrightarrow> index_ok (s @ [(card_id c, c)])"
  by (auto simp: index_ok_iff)

lemma entity_upsert_state:
  assumes "projected c"
  shows "snd (entity_upsert c s) =
    (case map_of s (card_id c) of None \<Rightarrow> s @ [(card_id c, c)]
     | Some e \<Rightarrow> if content e = content c then s else AList.update (card_id c) c s)"
proof -
  have pend: "c\<lparr>embedding_pending := True\<rparr> = c" using assms by (simp add: projected_def card_ok_def)
  show ?thesis
  proof (cases "map_of s (card_id c)")
    case None
    then have "card_id c \<notin> fst ` set s" by (simp add: map_of_eq_None_iff)
    then show ?thesis using None by (simp add: entity_upsert_def update_new)
  next
    case (Some e)
    then show ?thesis by (simp add: entity_upsert_def pend)
  qed
qed

lemma entity_add_state:
  "snd (entity_add c s) = (if card_id c \<in> fst ` set s then s else s @ [(card_id c, c)])"
  by (simp add: entity_add_def update_new)

lemma entity_write_state:
  "snd (entity_update_embedding i v d s) \<in> {s} \<union>
     {AList.update i (c\<lparr>embedding := Some v, embedding_pending := False, embedding_retry_count := 0\<rparr>) s |c. map_of s i = Some c}"
  by (auto simp: entity_update_embedding_def split: option.splits)

lemma entity_write_dim: "snd (entity_update_embedding i v (Some k) s) \<noteq> s \<Longrightarrow> length v = k"
  by (auto simp: entity_update_embedding_def split: if_splits)

lemma entity_ok_write: "index_ok s \<Longrightarrow> index_ok (snd (entity_update_embedding i v d s))"
  using entity_write_state[of i v d s] index_ok_entry[of s i]
  by (auto intro!: index_ok_update simp: card_ok_def)

lemma entity_dims_write: "index_ok s \<Longrightarrow> index_dims (snd (entity_update_embedding i v (Some k) s)) \<subseteq> insert k (index_dims s)"
proof (cases "snd (entity_update_embedding i v (Some k) s) = s")
  case False
  moreover assume "index_ok s"
  ultimately show ?thesis using entity_write_state[of i v "Some k" s] entity_write_dim[OF False]
    unfolding index_dims_subset by (auto simp: update_entry index_ok_distinct intro: index_dimsI)
qed auto

lemma set_AList_delete: "set (AList.delete i s) = {(k, c) \<in> set s. k \<noteq> i}"
  by (auto simp: AList.delete_eq)

lemma entity_ok_upsert: "index_ok s \<Longrightarrow> projected c \<Longrightarrow> index_ok (snd (entity_upsert c s))"
proof -
  assume ok: "index_ok s" and c: "projected c"
  show ?thesis
  proof (cases "map_of s (card_id c)")
    case None
    moreover have "card_id c \<notin> fst ` set s" using None by (simp add: map_of_eq_None_iff)
    ultimately show ?thesis using ok c index_ok_append[of s c] by (simp add: entity_upsert_state projected_def)
  next
    case (Some e)
    then show ?thesis using ok c index_ok_update[OF ok Some, of c] index_ok_entry[OF ok Some]
      by (simp add: entity_upsert_state projected_def)
  qed
qed

lemma entity_dims_upsert: "index_ok s \<Longrightarrow> projected c \<Longrightarrow> index_dims (snd (entity_upsert c s)) \<subseteq> index_dims s"
  unfolding index_dims_subset
  by (auto simp: entity_upsert_state projected_def update_entry index_ok_distinct split: option.splits if_splits
      intro: index_dimsI)

lemma entity_other_facts:
  assumes "index_ok s" "entity_other_ok x"
  shows "index_ok (entity_other x s)" "index_dims (entity_other x s) \<subseteq> index_dims s"
proof -
  show "index_ok (entity_other x s)"
    using assms index_ok_requeue[of s] index_ok_append[of s] entity_ok_upsert[of s]
    by (cases x) (auto simp: entity_other_ok_def entity_add_state projected_def entity_requeue_dimension_mismatched_def
        entity_discard_def index_ok_iff set_AList_delete distinct_delete)
  show "index_dims (entity_other x s) \<subseteq> index_dims s"
  proof (cases x)
    case (EntityUpsert c)
    then show ?thesis using assms entity_dims_upsert[of s c] by (simp add: entity_other_ok_def)
  next
    case (EntityRequeue d)
    then show ?thesis unfolding index_dims_subset
      by (auto simp: entity_requeue_dimension_mismatched_def requeue_state split: if_splits
          intro: index_dimsI dest: requeue_card_facts(4))
  qed (use assms in \<open>auto simp: index_dims_subset entity_other_ok_def entity_add_state entity_discard_def projected_def
       set_AList_delete split: if_splits intro: index_dimsI\<close>)
qed

interpretation entities: embedding_index entity_index index_ok entity_other_ok index_dims
  by unfold_locales
    (simp_all add: entity_index_def entity_mark_embedding_failed_def index_ok_mark index_dims_mark
      entity_ok_write entity_dims_write entity_other_facts)

lemma entity_stable_ok: "entity_other_stable x \<Longrightarrow> entity_other_ok x"
  by (cases x) (simp_all add: entity_other_stable_def entity_other_ok_def)

lemma entity_stable_facts:
  assumes "entity_other_stable x"
  shows "index_fresh g s \<Longrightarrow> index_fresh g (entity_other x s)"
    "map_of s i = Some c \<Longrightarrow> \<exists>c'. map_of (entity_other x s) i = Some c' \<and> content c' = content c"
proof -
  show "index_fresh g s \<Longrightarrow> index_fresh g (entity_other x s)"
    unfolding index_fresh_def using assms
    by (cases x) (auto simp: entity_other_stable_def entity_add_state projected_def requeue_state
        entity_requeue_dimension_mismatched_def requeue_card_facts(3) split: if_splits dest: requeue_card_facts(4))
  show "map_of s i = Some c \<Longrightarrow> \<exists>c'. map_of (entity_other x s) i = Some c' \<and> content c' = content c"
    using assms
    by (cases x) (auto simp: entity_other_stable_def entity_add_state requeue_state map_of_requeue
        entity_requeue_dimension_mismatched_def requeue_card_facts(3))
qed

lemma entity_fresh_write:
  "index_ok s \<Longrightarrow> index_fresh g s \<Longrightarrow> map_of s i = Some c \<Longrightarrow>
   index_fresh g (snd (entity_update_embedding i (g (content c)) d s))"
  using entity_write_state[of i "g (content c)" d s] by (auto simp: index_fresh_def update_entry index_ok_distinct)

interpretation settled: stable_index entity_index index_ok entity_other_stable index_dims index_fresh
proof (unfold_locales, goal_cases)
  case (11 s i c)
  then show ?case by (simp add: entity_index_def entity_mark_embedding_failed_def mark_embedding_failed_def)
next
  case (12 s i c v d)
  then show ?case by (auto simp: entity_index_def entity_update_embedding_def)
qed (simp_all add: entity_index_def entity_mark_embedding_failed_def index_ok_mark index_dims_mark index_fresh_mark
      entity_ok_write entity_dims_write entity_other_facts entity_stable_ok entity_stable_facts entity_fresh_write)

section \<open>Properties\<close>

text \<open>
  Whatever other tasks project into the entity store, replace, evict or re-queue while the worker
  waits for the daemon, a run keeps the store consistent and stores vectors of at most one new
  dimension.
\<close>
theorem entity_worker_keeps_store:
  assumes "index_ok s" and "list_all (\<lambda>a. list_all entity_other_ok (snd a)) aw"
  shows "index_ok (snd (embed_pending_entity_cards mr mp av aw s)) \<and>
    (\<exists>k. index_dims (snd (embed_pending_entity_cards mr mp av aw s)) \<subseteq> insert k (index_dims s))"
  unfolding embed_pending_entity_cards_def
  using entities.run_keeps[OF assms(1)] assms(2) by (simp add: entities.awaits_ok_def)

definition sample_card :: "string \<Rightarrow> string \<Rightarrow> entity_card" where
  "sample_card i t = \<lparr>card_id = i, content = t, token_estimate = estimate_tokens t, metadata = [],
     embedding = None, embedding_pending = True, embedding_retry_count = 0, entity_type = ''npc'', entity_ref = i\<rparr>"

definition sample_cards :: entity_store where
  "sample_cards = [(''npc:borin'', sample_card ''npc:borin'' ''Borin, neutral''), (''npc:ash'', sample_card ''npc:ash'' ''Ash, wary'')]"

lemma sample_cards_ok: "index_ok sample_cards"
  by code_simp

definition sample_entity_awaits :: "entity_op await list" where
  "sample_entity_awaits = [(\<lambda>t. Vector [of_nat (length t)] None, [EntityUpsert (sample_card ''npc:ash'' ''Ash, hostile''), EntityDiscard ''npc:cat'']),
     (\<lambda>t. Vector [of_nat (length t)] None, [EntityDiscard ''npc:ash''])]"

theorem entity_worker_keeps_store_witness:
  "index_ok (snd (embed_pending_entity_cards (Some 3) None True sample_entity_awaits sample_cards))"
proof -
  have "list_all (\<lambda>a. list_all entity_other_ok (snd a)) sample_entity_awaits" by code_simp
  from entity_worker_keeps_store[OF sample_cards_ok this] show ?thesis by blast
qed

text \<open>
  While no card is replaced or evicted during a run, every stored vector belongs to its card's
  text and the run returns.
\<close>
theorem entity_vectors_match_texts:
  assumes "index_ok s" and "list_all (\<lambda>a. list_all entity_other_stable (snd a)) aw"
    and "\<forall>a \<in> set aw. \<forall>t v m. fst a t = Vector v m \<longrightarrow> v = g t \<and> v \<noteq> []" and "index_fresh g s"
  shows "index_fresh g (snd (embed_pending_entity_cards mr mp av aw s)) \<and>
    (\<exists>r. fst (embed_pending_entity_cards mr mp av aw s) = Inr r)"
  unfolding embed_pending_entity_cards_def
  using settled.run_fresh[OF assms(1) _ _ assms(4)] assms(2,3)
  by (simp add: settled.awaits_ok_def settled.honest_def)

theorem entity_vectors_match_texts_witness:
  "\<exists>aw. index_fresh (\<lambda>t. [of_nat (length t)]) (snd (embed_pending_entity_cards (Some 3) None True aw sample_cards)) \<and>
     map_option embedding (map_of (snd (embed_pending_entity_cards (Some 3) None True aw sample_cards)) ''npc:ash'') = Some (Some [9])"
proof -
  let ?aw = "[(\<lambda>t. Vector [of_nat (length t)] None, [EntityRequeue 5]), (\<lambda>t. TextTooLarge, [])] :: entity_op await list"
  have ok: "list_all (\<lambda>a. list_all entity_other_stable (snd a)) ?aw" by code_simp
  have fresh: "index_fresh (\<lambda>t. [of_nat (length t)]) sample_cards"
    by (auto simp: index_fresh_def sample_cards_def sample_card_def)
  have val: "map_option embedding (map_of (snd (embed_pending_entity_cards (Some 3) None True ?aw sample_cards)) ''npc:ash'') = Some (Some [9])"
    by code_simp
  have "index_fresh (\<lambda>t. [of_nat (length t)]) (snd (embed_pending_entity_cards (Some 3) None True ?aw sample_cards))"
    using entity_vectors_match_texts[OF sample_cards_ok ok, of "\<lambda>t. [of_nat (length t)]"] fresh by simp
  then show ?thesis using val by blast
qed

text \<open>
  A card that is re-projected with a changed text while its embedding request is under way ends up
  with the vector of its old text and leaves the queue: the worker writes the reply back by id only, so
  the re-arming of the pending flag done by \<open>upsert\<close> is undone and the new text is not embedded until
  it changes again.
\<close>
theorem reprojected_card_keeps_stale_vector:
  assumes "entity_pending_embedding_ids mr s = i # is" and "map_of s i = Some c"
    and "card_id c' = i" and "content c' \<noteq> content c" and "daemon (content c) = Vector v m" and "v \<noteq> []"
  shows "\<exists>c''. map_of (snd (embed_pending_entity_cards mr (Some 1) True [(daemon, [EntityUpsert c'])] s)) i = Some c'' \<and>
    content c'' = content c' \<and> embedding c'' = Some v \<and> \<not> embedding_pending c''"
  using assms
  by (simp add: embed_pending_entity_cards_def run_worker_def entity_index_def next_await_def handle_reply_def sm_defs
      pinned_dim_def entity_update_embedding_def entity_upsert_def Let_def update_conv')

theorem reprojected_card_keeps_stale_vector_witness:
  "\<exists>c''. map_of (snd (embed_pending_entity_cards (Some 3) (Some 1) True
       [(\<lambda>t. Vector [of_nat (length t)] None, [EntityUpsert (sample_card ''npc:ash'' ''Ash, hostile'')])] sample_cards)) ''npc:ash'' = Some c'' \<and>
     content c'' = ''Ash, hostile'' \<and> embedding c'' = Some [9] \<and> \<not> embedding_pending c''"
proof -
  have p: "entity_pending_embedding_ids (Some 3) sample_cards = [''npc:ash'', ''npc:borin'']" by code_simp
  have a: "map_of sample_cards ''npc:ash'' = Some (sample_card ''npc:ash'' ''Ash, wary'')" by code_simp
  show ?thesis
    using reprojected_card_keeps_stale_vector[OF p a, of "sample_card ''npc:ash'' ''Ash, hostile''"
        "\<lambda>t. Vector [of_nat (length t)] None" "[9]" None] by (simp add: sample_card_def)
qed

end
