(* ===== verification/Resources.thy ===== *)
theory Resources
  imports Lore Float64
begin

text \<open>
  Resource pools: threshold crossings and the lore they mint (src/sidequest/game/thresholds.py), the
  pool and its clamp (resource_pool.py), the declarations of a genre pack (genre/models/rules.py) and
  the mutators of the game snapshot (session.py). Values are floats: finite binary64 numbers, added
  with rounding.
\<close>

section \<open>Thresholds\<close>

datatype direction = Down | Up

record threshold =
  at_value :: rat
  event_id :: string
  narrator_hint :: string
  direction :: direction

definition crossed :: "rat \<Rightarrow> rat \<Rightarrow> threshold \<Rightarrow> bool" where
  "crossed old new t \<longleftrightarrow>
     (direction t = Down \<and> old > at_value t \<and> new \<le> at_value t) \<or> (direction t = Up \<and> old < at_value t \<and> new \<ge> at_value t)"

definition detect_crossings :: "threshold list \<Rightarrow> rat \<Rightarrow> rat \<Rightarrow> threshold list" where
  "detect_crossings ts old new = filter (crossed old new) ts"

text \<open>A blank hint is refused by the fragment's constructor, which stops the loop; a duplicate id is
  logged and skipped.\<close>

fun mint_threshold_lore :: "threshold list \<Rightarrow> int \<Rightarrow> (lore_store, unit) sm" where
  "mint_threshold_lore [] turn s = (Inr (), s)"
| "mint_threshold_lore (t # ts) turn s =
     (case new_fragment (event_id t) LoreCategory_Event (narrator_hint t) LoreSource_GameEvent (Some turn) [] of
        Inl e \<Rightarrow> (Inl e, s)
      | Inr f \<Rightarrow>
          (case lore_add f s of
             (Inl (DuplicateLoreId _), s') \<Rightarrow> mint_threshold_lore ts turn s'
           | (Inl e, s') \<Rightarrow> (Inl e, s')
           | (Inr _, s') \<Rightarrow> mint_threshold_lore ts turn s'))"

section \<open>Pools\<close>

datatype patch_op = AddOp | SubtractOp | SetOp

record resource_patch =
  resource_name :: string
  operation :: patch_op
  patch_value :: rat

record patch_result =
  old_value :: rat
  new_value :: rat
  crossed_thresholds :: "threshold list"

record resource_pool =
  pool_name :: string
  label :: string
  current :: rat
  pool_min :: rat
  pool_max :: rat
  voluntary :: bool
  decay_per_turn :: rat
  thresholds :: "threshold list"

definition raw_value :: "patch_op \<Rightarrow> rat \<Rightarrow> rat \<Rightarrow> rat" where
  "raw_value op cur v = (case op of AddOp \<Rightarrow> rnd (cur + v) | SubtractOp \<Rightarrow> rnd (cur - v) | SetOp \<Rightarrow> v)"

definition apply_and_clamp :: "patch_op \<Rightarrow> rat \<Rightarrow> resource_pool \<Rightarrow> patch_result \<times> resource_pool" where
  "apply_and_clamp op v p =
     (let old = current p; new = clamp (pool_min p) (pool_max p) (raw_value op old v) in
      (\<lparr>old_value = old, new_value = new, crossed_thresholds = detect_crossings (thresholds p) old new\<rparr>,
       p\<lparr>current := new\<rparr>))"

section \<open>The snapshot's mutators\<close>

type_synonym resources = "(string \<times> resource_pool) list"

definition apply_resource_patch :: "resource_patch \<Rightarrow> (resources, patch_result) sm" where
  "apply_resource_patch patch rs =
     (case map_of rs (resource_name patch) of
        None \<Rightarrow> (Inl (UnknownResource (resource_name patch)), rs)
      | Some pool \<Rightarrow>
          (let (r, pool') = apply_and_clamp (operation patch) (patch_value patch) pool
           in (Inr r, AList.update (resource_name patch) pool' rs)))"

definition apply_resource_patch_player :: "resource_patch \<Rightarrow> (resources, patch_result) sm" where
  "apply_resource_patch_player patch rs =
     (if operation patch = SubtractOp then
        (case map_of rs (resource_name patch) of
           None \<Rightarrow> (Inl (UnknownResource (resource_name patch)), rs)
         | Some pool \<Rightarrow> if \<not> voluntary pool then (Inl (NotVoluntary (resource_name patch)), rs)
                       else apply_resource_patch patch rs)
      else apply_resource_patch patch rs)"

definition float_epsilon :: rat where "float_epsilon = 1 / 2 ^ 52"

definition decay_pool :: "resource_pool \<Rightarrow> threshold list \<times> resource_pool" where
  "decay_pool p =
     (if \<bar>decay_per_turn p\<bar> < float_epsilon then ([], p)
      else let (r, p') = apply_and_clamp AddOp (decay_per_turn p) p in (crossed_thresholds r, p'))"

definition apply_pool_decay :: "resources \<Rightarrow> threshold list \<times> resources" where
  "apply_pool_decay rs =
     (concat (map (\<lambda>(k, p). fst (decay_pool p)) rs), map (\<lambda>(k, p). (k, snd (decay_pool p))) rs)"

record threshold_decl =
  decl_at :: rat
  decl_event_id :: string
  decl_narrator_hint :: string

record resource_declaration =
  decl_name :: string
  decl_label :: string
  decl_min :: rat
  decl_max :: rat
  decl_starting :: rat
  decl_voluntary :: bool
  decl_decay_per_turn :: rat
  decl_thresholds :: "threshold_decl list"

definition validate_range :: "resource_declaration \<Rightarrow> unit res" where
  "validate_range d =
     (if decl_max d < decl_min d then Inl (ValueError ''max must be >= min'')
      else if \<not> (decl_min d \<le> decl_starting d \<and> decl_starting d \<le> decl_max d) then Inl (ValueError ''starting out of range'')
      else Inr ())"

definition declared_thresholds :: "resource_declaration \<Rightarrow> threshold list" where
  "declared_thresholds d =
     map (\<lambda>t. \<lparr>at_value = decl_at t, event_id = decl_event_id t, narrator_hint = decl_narrator_hint t, direction = Down\<rparr>)
       (decl_thresholds d)"

definition init_resource_pool :: "resource_declaration \<Rightarrow> resources \<Rightarrow> resources" where
  "init_resource_pool d rs =
     AList.update (decl_name d)
       (case map_of rs (decl_name d) of
          Some e \<Rightarrow> e\<lparr>label := decl_label d, pool_min := decl_min d, pool_max := decl_max d, voluntary := decl_voluntary d,
                     decay_per_turn := decl_decay_per_turn d, thresholds := declared_thresholds d,
                     current := clamp (decl_min d) (decl_max d) (current e)\<rparr>
        | None \<Rightarrow> \<lparr>pool_name = decl_name d, label = decl_label d, current = decl_starting d, pool_min = decl_min d,
                   pool_max = decl_max d, voluntary = decl_voluntary d, decay_per_turn = decl_decay_per_turn d,
                   thresholds = declared_thresholds d\<rparr>) rs"

definition init_resource_pools :: "resource_declaration list \<Rightarrow> resources \<Rightarrow> resources" where
  "init_resource_pools ds rs = fold init_resource_pool ds rs"

definition apply_resource_patch_by_name :: "string \<Rightarrow> patch_op \<Rightarrow> rat \<Rightarrow> (resources, patch_result) sm" where
  "apply_resource_patch_by_name name op v =
     apply_resource_patch \<lparr>resource_name = name, operation = op, patch_value = v\<rparr>"

definition process_resource_patch_with_lore ::
  "string \<Rightarrow> patch_op \<Rightarrow> rat \<Rightarrow> int \<Rightarrow> (resources \<times> lore_store, patch_result) sm" where
  "process_resource_patch_with_lore name op v turn st =
     (case apply_resource_patch_by_name name op v (fst st) of
        (Inl e, rs) \<Rightarrow> (Inl e, rs, snd st)
      | (Inr r, rs) \<Rightarrow>
          (case mint_threshold_lore (crossed_thresholds r) turn (snd st) of
             (Inl e, store) \<Rightarrow> (Inl e, rs, store)
           | (Inr _, store) \<Rightarrow> (Inr r, rs, store)))"

section \<open>The pool invariant\<close>

definition pool_ok :: "resource_pool \<Rightarrow> bool" where
  "pool_ok p \<longleftrightarrow> pool_min p \<le> current p \<and> current p \<le> pool_max p"

definition resources_ok :: "resources \<Rightarrow> bool" where
  "resources_ok rs = list_all (\<lambda>(k, p). pool_ok p) rs"

text \<open>Everything that happens to the pools of a running session.\<close>

inductive resource_step :: "resources \<Rightarrow> resources \<Rightarrow> bool" where
  engine_patch: "resource_step rs (snd (apply_resource_patch patch rs))"
| player_patch: "resource_step rs (snd (apply_resource_patch_player patch rs))"
| decay: "resource_step rs (snd (apply_pool_decay rs))"
| init: "list_all (\<lambda>d. validate_range d = Inr ()) ds \<Longrightarrow> resource_step rs (init_resource_pools ds rs)"

lemma apply_and_clamp_ok: "pool_min p \<le> pool_max p \<Longrightarrow> pool_ok (snd (apply_and_clamp op v p))"
  using clamp_bounds[of "pool_min p" "pool_max p"] by (simp add: apply_and_clamp_def pool_ok_def Let_def)

lemma pool_ok_range: "pool_ok p \<Longrightarrow> pool_min p \<le> pool_max p"
  by (auto simp: pool_ok_def)

lemma decay_pool_ok: "pool_ok p \<Longrightarrow> pool_ok (snd (decay_pool p))"
  using apply_and_clamp_ok[OF pool_ok_range] by (simp add: decay_pool_def split_def Let_def)

lemma resources_ok_update: "resources_ok rs \<Longrightarrow> pool_ok p \<Longrightarrow> resources_ok (AList.update k p rs)"
  unfolding resources_ok_def by (induction rs) auto

lemma resources_ok_lookup: "resources_ok rs \<Longrightarrow> map_of rs k = Some p \<Longrightarrow> pool_ok p"
  by (auto simp: resources_ok_def list_all_iff dest: map_of_SomeD)

lemma patch_ok: "resources_ok rs \<Longrightarrow> resources_ok (snd (apply_resource_patch patch rs))"
proof (cases "map_of rs (resource_name patch)")
  case (Some p)
  moreover assume "resources_ok rs"
  ultimately show ?thesis
    using resources_ok_update apply_and_clamp_ok[OF pool_ok_range[OF resources_ok_lookup]]
    by (simp add: apply_resource_patch_def split_def Let_def)
qed (simp add: apply_resource_patch_def)

lemma init_ok:
  assumes "resources_ok rs" "validate_range d = Inr ()"
  shows "resources_ok (init_resource_pool d rs)"
proof -
  have r: "decl_min d \<le> decl_starting d" "decl_starting d \<le> decl_max d"
    using assms(2) by (auto simp: validate_range_def split: if_splits)
  then have "decl_min d \<le> decl_max d" by simp
  then show ?thesis using r assms(1) clamp_bounds[of "decl_min d" "decl_max d"]
    unfolding init_resource_pool_def
    by (intro resources_ok_update) (auto simp: pool_ok_def split: option.splits)
qed

lemma resource_step_ok: "resource_step rs rs' \<Longrightarrow> resources_ok rs \<Longrightarrow> resources_ok rs'"
proof (induction rule: resource_step.induct)
  case (player_patch rs patch)
  then show ?case using patch_ok[of rs patch] by (auto simp: apply_resource_patch_player_def split: option.splits)
next
  case (decay rs)
  then show ?case by (auto simp: apply_pool_decay_def resources_ok_def list_all_iff decay_pool_ok)
next
  case (init ds rs)
  then show ?case unfolding init_resource_pools_def
  proof (induction ds arbitrary: rs)
    case (Cons d ds)
    then show ?case using init_ok[of rs d] by simp
  qed simp
qed (simp add: patch_ok)

section \<open>Decay, tick by tick\<close>

fun decay_run :: "nat \<Rightarrow> resource_pool \<Rightarrow> threshold list list" where
  "decay_run 0 p = []"
| "decay_run (Suc n) p = fst (decay_pool p) # decay_run n (snd (decay_pool p))"

text \<open>The numbers of a pool are binary64 numbers.\<close>

definition float_pool :: "resource_pool \<Rightarrow> bool" where
  "float_pool p \<longleftrightarrow> rnd (current p) = current p \<and> rnd (pool_min p) = pool_min p \<and> rnd (pool_max p) = pool_max p"

lemma decay_pool_facts:
  assumes "pool_ok p" "float_pool p" "decay_per_turn p \<le> 0"
  shows "float_pool (snd (decay_pool p))" "decay_per_turn (snd (decay_pool p)) = decay_per_turn p"
    "current (snd (decay_pool p)) \<le> current p" "thresholds (snd (decay_pool p)) = thresholds p"
    "t \<in> set (fst (decay_pool p)) \<Longrightarrow> crossed (current p) (current (snd (decay_pool p))) t"
proof -
  have "rnd (current p + decay_per_turn p) \<le> rnd (current p)" using assms(3) by (intro rnd_mono) simp
  then have le: "rnd (current p + decay_per_turn p) \<le> current p" using assms(2) by (simp add: float_pool_def)
  show "float_pool (snd (decay_pool p))"
    using assms(2) by (auto simp: decay_pool_def apply_and_clamp_def raw_value_def float_pool_def clamp_def Let_def max_def min_def)
  show "current (snd (decay_pool p)) \<le> current p"
    using le assms(1) by (auto simp: decay_pool_def apply_and_clamp_def raw_value_def clamp_def Let_def pool_ok_def)
  show "decay_per_turn (snd (decay_pool p)) = decay_per_turn p" "thresholds (snd (decay_pool p)) = thresholds p"
    by (simp_all add: decay_pool_def apply_and_clamp_def Let_def)
  show "t \<in> set (fst (decay_pool p)) \<Longrightarrow> crossed (current p) (current (snd (decay_pool p))) t"
    by (auto simp: decay_pool_def apply_and_clamp_def detect_crossings_def Let_def split: if_splits)
qed

lemma decay_run_passed:
  assumes "pool_ok p" "float_pool p" "decay_per_turn p \<le> 0" "direction t = Down" "current p \<le> at_value t"
  shows "filter (\<lambda>ts. t \<in> set ts) (decay_run n p) = []"
  using assms
proof (induction n arbitrary: p)
  case (Suc n)
  note f = decay_pool_facts[OF Suc.prems(1-3)]
  have "t \<notin> set (fst (decay_pool p))" using f(5)[of t] Suc.prems(4,5) by (auto simp: crossed_def)
  moreover have "filter (\<lambda>ts. t \<in> set ts) (decay_run n (snd (decay_pool p))) = []"
    using f(1-3) decay_pool_ok[OF Suc.prems(1)] Suc.prems(3-5) by (intro Suc.IH) auto
  ultimately show ?case by simp
qed simp

lemma decay_run_once:
  assumes "pool_ok p" "float_pool p" "decay_per_turn p \<le> 0" "direction t = Down"
  shows "length (filter (\<lambda>ts. t \<in> set ts) (decay_run n p)) \<le> 1"
  using assms
proof (induction n arbitrary: p)
  case (Suc n)
  note f = decay_pool_facts[OF Suc.prems(1-3)]
  let ?p' = "snd (decay_pool p)"
  have p': "pool_ok ?p'" "float_pool ?p'" "decay_per_turn ?p' \<le> 0"
    using f(1,2) decay_pool_ok[OF Suc.prems(1)] Suc.prems(3) by auto
  show ?case
  proof (cases "t \<in> set (fst (decay_pool p))")
    case True
    then have "current ?p' \<le> at_value t" using f(5)[of t] Suc.prems(4) by (simp add: crossed_def)
    then show ?thesis using True decay_run_passed[OF p' Suc.prems(4), of n] by simp
  next
    case False
    then show ?thesis using Suc.IH[OF p' Suc.prems(4)] by simp
  qed
qed simp

section \<open>Minting\<close>

lemma mint_facts:
  "mint_threshold_lore ts turn s = (Inr (), s') \<Longrightarrow>
   fst ` set s' = fst ` set s \<union> event_id ` set ts \<and> (\<forall>k \<in> fst ` set s. map_of s' k = map_of s k) \<and>
   (index_ok s \<longrightarrow> index_ok s') \<and> (\<forall>t \<in> set ts. \<not> blank (narrator_hint t))"
proof (induction ts arbitrary: s)
  case (Cons t ts)
  obtain f where f: "new_fragment (event_id t) LoreCategory_Event (narrator_hint t) LoreSource_GameEvent (Some turn) [] = Inr f"
    using Cons.prems by (auto split: sum.splits)
  note w = new_fragment_well[OF f]
  let ?s1 = "snd (lore_add f s)"
  have rest: "mint_threshold_lore ts turn ?s1 = (Inr (), s')"
    using Cons.prems f by (auto simp: lore_add_def split: if_splits)
  have keys: "fst ` set ?s1 = insert (event_id t) (fst ` set s)" using w by (auto simp: add_state)
  have old: "map_of ?s1 k = map_of s k" if "k \<in> fst ` set s" for k
    using that w map_of_dom[of k s] by (auto simp: add_state map_add_def)
  have "index_ok s \<longrightarrow> index_ok ?s1" "\<not> blank (narrator_hint t)" using w index_ok_add[of s f] by (auto simp: card_ok_def)
  then show ?case using Cons.IH[OF rest] keys old by auto
qed simp

lemma mint_again:
  assumes "event_id ` set ts \<subseteq> fst ` set s" "\<forall>t \<in> set ts. \<not> blank (narrator_hint t)"
  shows "mint_threshold_lore ts turn s = (Inr (), s)"
  using assms
  by (induction ts) (auto simp: new_fragment_def content_must_not_be_blank_def lore_add_def)

section \<open>Properties\<close>

text \<open>
  Resource pools stay within their bounds: along every sequence of engine patches, player patches,
  decay ticks and re-initialisations from validated declarations, whatever the values and the
  roundings, and also when a patch is refused.
\<close>
theorem resources_stay_in_bounds:
  assumes "resource_step\<^sup>*\<^sup>* rs rs'" and "resources_ok rs"
  shows "resources_ok rs'"
  using assms by (induction rule: rtranclp_induct) (auto dest: resource_step_ok)

definition luck :: resource_declaration where
  "luck = \<lparr>decl_name = ''luck'', decl_label = ''Luck'', decl_min = 0, decl_max = 10, decl_starting = 5, decl_voluntary = False,
     decl_decay_per_turn = - 1, decl_thresholds = [\<lparr>decl_at = 2, decl_event_id = ''luck_low'', decl_narrator_hint = ''Luck runs thin.''\<rparr>]\<rparr>"

theorem resources_stay_in_bounds_witness:
  "resources_ok (snd (apply_resource_patch \<lparr>resource_name = ''luck'', operation = SubtractOp, patch_value = 7\<rparr> (init_resource_pools [luck] []))) \<and>
   map_option current (map_of (snd (apply_resource_patch \<lparr>resource_name = ''luck'', operation = SubtractOp, patch_value = 7\<rparr> (init_resource_pools [luck] []))) ''luck'') = Some 0"
proof -
  let ?p = "\<lparr>resource_name = ''luck'', operation = SubtractOp, patch_value = 7\<rparr>"
  have "list_all (\<lambda>d. validate_range d = Inr ()) [luck]" by code_simp
  then have "resource_step [] (init_resource_pools [luck] [])" by (rule resource_step.init)
  moreover have "resource_step (init_resource_pools [luck] []) (snd (apply_resource_patch ?p (init_resource_pools [luck] [])))"
    by (rule resource_step.engine_patch)
  ultimately have run: "resource_step\<^sup>*\<^sup>* [] (snd (apply_resource_patch ?p (init_resource_pools [luck] [])))" by simp
  have start: "resources_ok []" by (simp add: resources_ok_def)
  have "map_option current (map_of (snd (apply_resource_patch ?p (init_resource_pools [luck] []))) ''luck'') = Some 0" by code_simp
  then show ?thesis using resources_stay_in_bounds[OF run start] by simp
qed

text \<open>
  Under a decay that never adds, a downward threshold fires at most once however many turns pass,
  also with the rounding of every addition and the clamp at the floor.
\<close>
theorem threshold_fires_once_under_decay:
  assumes "pool_ok p" and "float_pool p" and "decay_per_turn p \<le> 0" and "direction t = Down"
  shows "length (filter (\<lambda>ts. t \<in> set ts) (decay_run n p)) \<le> 1"
  using decay_run_once[OF assms] .

definition luck_pool :: resource_pool where
  "luck_pool = \<lparr>pool_name = ''luck'', label = ''Luck'', current = 5, pool_min = 0, pool_max = 10, voluntary = False,
     decay_per_turn = - 1, thresholds = declared_thresholds luck\<rparr>"

theorem threshold_fires_once_under_decay_witness:
  "length (filter (\<lambda>ts. hd (declared_thresholds luck) \<in> set ts) (decay_run 7 luck_pool)) = 1"
proof -
  have "pool_ok luck_pool" "float_pool luck_pool" "decay_per_turn luck_pool \<le> 0" "direction (hd (declared_thresholds luck)) = Down"
    by code_simp+
  from threshold_fires_once_under_decay[OF this, of 7]
  have "length (filter (\<lambda>ts. hd (declared_thresholds luck) \<in> set ts) (decay_run 7 luck_pool)) \<le> 1" .
  moreover have "0 < length (filter (\<lambda>ts. hd (declared_thresholds luck) \<in> set ts) (decay_run 7 luck_pool))" by code_simp
  ultimately show ?thesis by linarith
qed

text \<open>
  The player path refuses to subtract from a pool that is not voluntary and leaves everything as it
  was; the refusal looks at the operation only, so adding the negated amount on the same path makes
  exactly the spend that subtracting it would on the engine path.
\<close>
theorem voluntary_gate_covers_subtract_only:
  assumes "map_of rs name = Some p" and "\<not> voluntary p"
  shows "apply_resource_patch_player \<lparr>resource_name = name, operation = SubtractOp, patch_value = v\<rparr> rs = (Inl (NotVoluntary name), rs) \<and>
    apply_resource_patch_player \<lparr>resource_name = name, operation = AddOp, patch_value = - v\<rparr> rs =
      apply_resource_patch \<lparr>resource_name = name, operation = SubtractOp, patch_value = v\<rparr> rs"
  using assms
  by (simp add: apply_resource_patch_player_def apply_resource_patch_def apply_and_clamp_def raw_value_def)

theorem voluntary_gate_covers_subtract_only_witness:
  "apply_resource_patch_player \<lparr>resource_name = ''luck'', operation = SubtractOp, patch_value = 2\<rparr> [(''luck'', luck_pool)] = (Inl (NotVoluntary ''luck''), [(''luck'', luck_pool)]) \<and>
   current (snd (hd (snd (apply_resource_patch_player \<lparr>resource_name = ''luck'', operation = AddOp, patch_value = - 2\<rparr> [(''luck'', luck_pool)])))) = 3"
proof -
  have "map_of [(''luck'', luck_pool)] ''luck'' = Some luck_pool" "\<not> voluntary luck_pool" by code_simp+
  note w = voluntary_gate_covers_subtract_only[OF this, of 2]
  have "current (snd (hd (snd (apply_resource_patch_player \<lparr>resource_name = ''luck'', operation = AddOp, patch_value = - 2\<rparr> [(''luck'', luck_pool)])))) = 3"
    by code_simp
  then show ?thesis using w by blast
qed

text \<open>
  Minting is idempotent and never overwrites: when it returns, every crossed threshold has a lore
  fragment under its event id, fragments that were there before are unchanged, the store stays
  consistent, and minting the same crossings again, on any later turn, changes nothing.
\<close>
theorem minting_is_idempotent:
  assumes "mint_threshold_lore ts turn s = (Inr (), s')"
  shows "fst ` set s' = fst ` set s \<union> event_id ` set ts \<and> (\<forall>k \<in> fst ` set s. map_of s' k = map_of s k) \<and>
    (index_ok s \<longrightarrow> index_ok s') \<and> mint_threshold_lore ts turn' s' = (Inr (), s')"
  using mint_facts[OF assms] mint_again[of ts s' turn'] by auto

theorem minting_is_idempotent_witness:
  "\<exists>s'. mint_threshold_lore (declared_thresholds luck) 3 sample_lore = (Inr (), s') \<and>
     mint_threshold_lore (declared_thresholds luck) 4 s' = (Inr (), s') \<and> length s' = 3"
proof -
  let ?s' = "snd (mint_threshold_lore (declared_thresholds luck) 3 sample_lore)"
  have m: "mint_threshold_lore (declared_thresholds luck) 3 sample_lore = (Inr (), ?s')" by code_simp
  have "length ?s' = 3" by code_simp
  then show ?thesis using minting_is_idempotent[OF m, of 4] m by blast
qed

end
