(* ===== verification/Encounter.thy ===== *)
theory Encounter
  imports Creature Float64
begin

text \<open>
  Structured encounters (src/sidequest/game/encounter.py, encounter_tag.py, taunt.py, taunt_tick.py,
  encounter_classifier.py, hp_depletion.py): the two dials, the seated actors, scene tags, the taunt
  tracker, the ways an encounter resolves, and the reading of hit points through a resolver.

  The creature cores an encounter touches are shared objects of the session. They are a store of cores
  by id; the \<open>edge_resolver\<close> handed to the engine maps an actor's name to the id of a core or to none,
  so that two names may denote the same core. The Fate, table, dogfight and display fields of an
  encounter are not read by the code below and are left out.
\<close>

section \<open>Cores and the resolver\<close>

text \<open>An inventory entry is a dictionary of which the engine reads the key \<open>mitigation\<close>.\<close>

record item_entry =
  mitigation :: "int option"

type_synonym core = "item_entry creature_core"
type_synonym cores = "(string \<times> core) list"
type_synonym edge_resolver = "string \<Rightarrow> string option"

definition resolve_core :: "edge_resolver \<Rightarrow> cores \<Rightarrow> string \<Rightarrow> core option" where
  "resolve_core res cs name = (case res name of None \<Rightarrow> None | Some i \<Rightarrow> map_of cs i)"

definition hurt :: "edge_resolver \<Rightarrow> string \<Rightarrow> int \<Rightarrow> cores \<Rightarrow> cores" where
  "hurt res name n cs =
     (case res name of None \<Rightarrow> cs
      | Some i \<Rightarrow> (case map_of cs i of None \<Rightarrow> cs | Some c \<Rightarrow> AList.update i (apply_hp_delta (- n) c) cs))"

section \<open>Tags and taunt\<close>

record encounter_tag =
  tag_text :: string
  created_by :: string
  tag_target :: "string option"
  leverage :: int
  fleeting :: bool
  created_turn :: int

text \<open>The constructor refuses a missing text and a negative leverage.\<close>

definition new_tag :: "string option \<Rightarrow> string \<Rightarrow> string option \<Rightarrow> int \<Rightarrow> bool \<Rightarrow> int \<Rightarrow> encounter_tag res" where
  "new_tag text by tgt lev fl turn =
     (case text of None \<Rightarrow> Inl (ValueError ''text'')
      | Some t \<Rightarrow> if lev < 0 then Inl (ValueError ''leverage'')
                 else Inr \<lparr>tag_text = t, created_by = by, tag_target = tgt, leverage = lev, fleeting = fl, created_turn = turn\<rparr>)"

record taunt_state =
  active_actor :: "string option"
  remaining_rounds :: int
  redirects_this_round :: int

definition no_taunt :: taunt_state where
  "no_taunt = \<lparr>active_actor = None, remaining_rounds = 0, redirects_this_round = 0\<rparr>"

definition activate :: "string \<Rightarrow> taunt_state \<Rightarrow> taunt_state" where
  "activate a t = t\<lparr>active_actor := Some a, remaining_rounds := 1, redirects_this_round := 0\<rparr>"

definition end_of_round_decay :: "taunt_state \<Rightarrow> taunt_state" where
  "end_of_round_decay t =
     (let t1 = (if remaining_rounds t > 0 then t\<lparr>remaining_rounds := remaining_rounds t - 1\<rparr> else t)
      in if remaining_rounds t1 = 0 then t1\<lparr>active_actor := None, redirects_this_round := 0\<rparr> else t1)"

definition try_consume_redirect :: "taunt_state \<Rightarrow> bool \<times> taunt_state" where
  "try_consume_redirect t =
     (if active_actor t = None then (False, t)
      else if redirects_this_round t \<ge> 1 then (False, t)
      else (True, t\<lparr>redirects_this_round := redirects_this_round t + 1\<rparr>))"

section \<open>The encounter\<close>

datatype actor_side = Player | Opponent | Neutral

record encounter_actor =
  actor_name :: string
  role :: string
  side :: actor_side
  withdrawn :: bool
  display_name :: "string option"
  stats :: "(string \<times> int) list option"

datatype encounter_phase = Setup | Opening | Escalation | Climax | Resolution

definition drama_weight :: "encounter_phase \<Rightarrow> rat" where
  "drama_weight p = (case p of Setup \<Rightarrow> lit 70 100 | Opening \<Rightarrow> lit 75 100 | Escalation \<Rightarrow> lit 80 100 | Climax \<Rightarrow> lit 95 100 | Resolution \<Rightarrow> lit 70 100)"

datatype win_condition = DialThreshold | HpDepletion | TableShowdown | FateConflict

record encounter_metric =
  metric_name :: string
  metric_current :: int
  starting :: int
  threshold :: int

record pending_compel =
  compel_target :: string
  compel_aspect :: string
  reason :: string
  offered_delta :: int

text \<open>The player-facing readout of one beat: what happened and how it is told.\<close>

datatype beat_effect = Advance | Setback | ResolutionEffect | TagEffect | Backfire | Inert

datatype beat_summary =
    HpLoss int "string option"
  | EdgeMoves "int option" "int option" "string option"
  | OwnSlips int
  | TheirRises int
  | Rebounds "string option"
  | Resolves "string option"
  | SetsUp string
  | DialHeld
  | NoChange

record beat_impact =
  effect :: beat_effect
  dial_moved :: bool
  summary :: beat_summary
  impact_own :: int
  impact_opponent :: int
  impact_resolution :: bool
  impact_tag :: "string option"

record encounter =
  encounter_type :: string
  win_condition :: win_condition
  player_metric :: encounter_metric
  opponent_metric :: encounter_metric
  beat :: int
  structured_phase :: "encounter_phase option"
  actors :: "encounter_actor list"
  pending_compels :: "pending_compel list"
  tags :: "encounter_tag list"
  enc_outcome :: "string option"
  resolved :: bool
  morale_events :: "string list"
  flee_consequence_pending :: "string option"
  opponents_disposition :: "string option"
  taunt :: taunt_state
  last_beat_impacts :: "(actor_side \<times> beat_impact) list"

definition find_actor :: "string \<Rightarrow> encounter \<Rightarrow> encounter_actor option" where
  "find_actor n e = find (\<lambda>a. actor_name a = n) (actors e)"

definition find_actor_for_player :: "string \<Rightarrow> encounter \<Rightarrow> encounter_actor option" where
  "find_actor_for_player n e = find (\<lambda>a. side a = Player \<and> actor_name a = n) (actors e)"

definition promote_actor :: "string \<Rightarrow> encounter_actor \<Rightarrow> bool \<times> encounter_actor" where
  "promote_actor dn a =
     (if blank dn then (False, a)
      else if dn = actor_name a then (False, a)
      else if display_name a \<noteq> None then (False, a)
      else (True, a\<lparr>display_name := Some dn\<rparr>))"

definition add_pending_compel :: "string \<Rightarrow> string \<Rightarrow> string \<Rightarrow> encounter \<Rightarrow> pending_compel \<times> encounter" where
  "add_pending_compel tgt asp why e =
     (let c = \<lparr>compel_target = tgt, compel_aspect = asp, reason = why, offered_delta = 1\<rparr>
      in (c, e\<lparr>pending_compels := pending_compels e @ [c]\<rparr>))"

definition find_pending_compel :: "string \<Rightarrow> string \<Rightarrow> encounter \<Rightarrow> pending_compel option" where
  "find_pending_compel tgt asp e = find (\<lambda>c. compel_target c = tgt \<and> compel_aspect c = asp) (pending_compels e)"

definition remove_pending_compel :: "pending_compel \<Rightarrow> (encounter, unit) sm" where
  "remove_pending_compel c e =
     (if c \<in> set (pending_compels e) then (Inr (), e\<lparr>pending_compels := remove1 c (pending_compels e)\<rparr>)
      else (Inl (ValueError ''list.remove(x): x not in list''), e))"

definition resolve_with :: "string \<Rightarrow> encounter \<Rightarrow> encounter" where
  "resolve_with out e = e\<lparr>resolved := True, enc_outcome := Some out, structured_phase := Some Resolution\<rparr>"

definition resolve_from_trope :: "string \<Rightarrow> encounter \<Rightarrow> encounter" where
  "resolve_from_trope trope_id e =
     (if resolved e then e else resolve_with (''resolved_by_trope:'' @ trope_id) e)"

definition dial_threshold_outcome :: "encounter \<Rightarrow> string option" where
  "dial_threshold_outcome e =
     (if win_condition e \<noteq> DialThreshold then None
      else if metric_current (player_metric e) \<ge> threshold (player_metric e) then Some ''player_victory''
      else if metric_current (opponent_metric e) \<ge> threshold (opponent_metric e) then Some ''opponent_victory''
      else None)"

definition opponent_yield_outcome :: "encounter \<Rightarrow> string option" where
  "opponent_yield_outcome e =
     (let opponents = filter (\<lambda>a. side a = Opponent) (actors e) in
      if opponents = [] then None
      else if list_all withdrawn opponents \<or> opponents_disposition e \<in> {Some ''surrendered'', Some ''routed''}
      then Some ''opponent_yielded'' else None)"

definition WN_FAMILY :: "string list" where "WN_FAMILY = [''swn'', ''wwn'', ''cwn'', ''awn'']"

definition is_live_wn_combat :: "encounter option \<Rightarrow> string option \<Rightarrow> bool" where
  "is_live_wn_combat e r =
     (case e of None \<Rightarrow> False
      | Some e \<Rightarrow> if resolved e then False
                 else case r of None \<Rightarrow> False
                   | Some b \<Rightarrow> if b \<notin> set WN_FAMILY then False else win_condition e = HpDepletion)"

definition wn_binding_owns_combat_resolution :: "string option \<Rightarrow> bool" where
  "wn_binding_owns_combat_resolution r = (case r of None \<Rightarrow> False | Some b \<Rightarrow> b \<in> set WN_FAMILY)"

definition tick_taunt_round_advance :: "encounter \<Rightarrow> encounter" where
  "tick_taunt_round_advance e = e\<lparr>taunt := end_of_round_decay (taunt e)\<rparr>"

section \<open>Classifying outcomes\<close>

definition is_player_victory :: "string \<Rightarrow> bool" where
  "is_player_victory out \<longleftrightarrow> out \<in> {''player_victory'', ''opponent_yielded'', ''surrender'', ''rout''}"

definition yield_side_for :: "string \<Rightarrow> actor_side option" where
  "yield_side_for out =
     (if out = ''yielded'' then Some Player
      else if out \<in> {''opponent_yielded'', ''surrender'', ''rout''} then Some Opponent else None)"

section \<open>Rig stats\<close>

datatype rig_type = Interceptor | WarRig | Bike | Hauler | Frankenstein

fun base_stats :: "rig_type \<Rightarrow> int \<times> int \<times> int \<times> int \<times> int" where
  "base_stats Interceptor = (15, 5, 1, 3, 8)"
| "base_stats WarRig = (30, 2, 5, 1, 12)"
| "base_stats Bike = (8, 4, 0, 5, 5)"
| "base_stats Hauler = (25, 2, 3, 1, 20)"
| "base_stats Frankenstein = (18, 3, 2, 3, 10)"

definition rig_damage_tier_label :: "int \<Rightarrow> int \<Rightarrow> string" where
  "rig_damage_tier_label cur full =
     (if full = 0 then ''WRECK''
      else let pct = rnd (rnd (of_int cur / of_int full) * 100) in
        if pct \<le> 0 then ''WRECK'' else if pct \<le> 25 then ''SKELETON'' else if pct \<le> 50 then ''FAILING''
        else if pct \<le> 75 then ''COSMETIC'' else ''PRISTINE'')"

definition rig_secondary_stats :: "rig_type \<Rightarrow> (string \<times> int \<times> int) list \<times> string" where
  "rig_secondary_stats r =
     (case base_stats r of (h, sp, ar, mv, fu) \<Rightarrow>
       ([(''hp'', h, h), (''speed'', sp, sp), (''armor'', ar, ar), (''maneuver'', mv, mv), (''fuel'', fu, fu)],
        rig_damage_tier_label h h))"

section \<open>Hit-point depletion\<close>

datatype down_side = OpponentDown | PlayerDown | BothDown

definition seated_cores :: "edge_resolver \<Rightarrow> cores \<Rightarrow> actor_side \<Rightarrow> encounter \<Rightarrow> core list" where
  "seated_cores res cs sd e =
     List.map_filter (\<lambda>a. if side a \<noteq> sd \<or> withdrawn a then None else resolve_core res cs (actor_name a)) (actors e)"

definition side_down :: "edge_resolver \<Rightarrow> cores \<Rightarrow> actor_side \<Rightarrow> encounter \<Rightarrow> bool" where
  "side_down res cs sd e =
     (let seated = seated_cores res cs sd e
      in seated \<noteq> [] \<and> list_all (\<lambda>c. hp_current (hp c) \<le> 0) seated)"

definition check_hp_depletion :: "edge_resolver \<Rightarrow> cores \<Rightarrow> encounter \<Rightarrow> (string \<times> down_side) option \<times> encounter" where
  "check_hp_depletion res cs e =
     (if resolved e then (None, e)
      else let p = side_down res cs Player e; o' = side_down res cs Opponent e in
        if \<not> list_ex (\<lambda>c. hp_current (hp c) \<le> 0) (seated_cores res cs Player e @ seated_cores res cs Opponent e) then (None, e)
        else if \<not> p \<and> \<not> o' then (None, e)
        else let r = (if p \<and> o' then (''mutual_destruction'', BothDown)
                      else if o' then (''player_victory'', OpponentDown) else (''opponent_victory'', PlayerDown))
             in (Some r, resolve_with (fst r) e))"

lemma check_hp_depletion_cases:
  "check_hp_depletion res cs e =
     (if resolved e \<or> (\<not> side_down res cs Player e \<and> \<not> side_down res cs Opponent e) then (None, e)
      else let r = (if side_down res cs Player e \<and> side_down res cs Opponent e then (''mutual_destruction'', BothDown)
                    else if side_down res cs Opponent e then (''player_victory'', OpponentDown) else (''opponent_victory'', PlayerDown))
           in (Some r, resolve_with (fst r) e))"
proof -
  have "side_down res cs s e \<Longrightarrow> list_ex (\<lambda>c. hp_current (hp c) \<le> 0) (seated_cores res cs s e)" for s
    by (cases "seated_cores res cs s e") (auto simp: side_down_def Let_def)
  then show ?thesis by (auto simp: check_hp_depletion_def Let_def)
qed

lemma seated_cores_iff:
  "c \<in> set (seated_cores res cs sd e) \<longleftrightarrow>
   (\<exists>a \<in> set (actors e). side a = sd \<and> \<not> withdrawn a \<and> resolve_core res cs (actor_name a) = Some c)"
proof -
  have "set (List.map_filter f xs) = {y. \<exists>x \<in> set xs. f x = Some y}" for f :: "encounter_actor \<Rightarrow> core option" and xs
    by (induction xs) (auto split: option.splits)
  then show ?thesis by (auto simp: seated_cores_def split: if_splits)
qed

lemma standing_not_down:
  assumes "a \<in> set (actors e)" "side a = sd" "\<not> withdrawn a" "resolve_core res cs (actor_name a) = Some c" "0 < hp_current (hp c)"
  shows "\<not> side_down res cs sd e"
proof -
  have "c \<in> set (seated_cores res cs sd e)" using assms(1-4) seated_cores_iff by blast
  then show ?thesis using assms(5) by (auto simp: side_down_def Let_def list_all_iff) force
qed

end
