(* ===== verification/Beats.thy ===== *)
theory Beats
  imports Encounter Dice
begin

text \<open>
  The beat engine (src/sidequest/game/beat_kinds.py): the per-kind delta tables and their overrides,
  the impact descriptor, and \<open>apply_beat\<close>, which resolves one beat of one actor against the encounter
  and the creature cores. \<open>apply_beat\<close> may raise after it has changed the encounter; the state left
  behind is part of the model. Telemetry is left out; a damage resolver is the number it returns.
\<close>

section \<open>Deltas\<close>

datatype beat_kind = Strike | Brace | Push | Angle

text \<open>A rule is a dictionary: a field is \<open>None\<close> when its key is absent.\<close>

record delta_rule =
  rule_own :: "int option"
  rule_opponent :: "int option"
  own_expr :: "string option"
  opponent_expr :: "string option"
  rule_grants_tag :: "string option option"
  rule_grants_fleeting_tag :: "string option option"
  rule_tag_leverage :: "int option"
  rule_tag_backfire :: "bool option"
  rule_resolution :: "bool option"
  grants_tag_from_target :: "bool option"
  grants_fleeting_tag_from_target :: "bool option"

definition empty_rule :: delta_rule where
  "empty_rule = \<lparr>rule_own = None, rule_opponent = None, own_expr = None, opponent_expr = None, rule_grants_tag = None,
     rule_grants_fleeting_tag = None, rule_tag_leverage = None, rule_tag_backfire = None, rule_resolution = None,
     grants_tag_from_target = None, grants_fleeting_tag_from_target = None\<rparr>"

fun default_deltas :: "beat_kind \<Rightarrow> roll_outcome \<Rightarrow> delta_rule" where
  "default_deltas Strike Tie = empty_rule\<lparr>own_expr := Some ''b // 2''\<rparr>"
| "default_deltas Strike Success = empty_rule\<lparr>own_expr := Some ''b''\<rparr>"
| "default_deltas Strike CritSuccess = empty_rule\<lparr>own_expr := Some ''b'', rule_grants_fleeting_tag := Some (Some ''Opening'')\<rparr>"
| "default_deltas Brace CritFail = empty_rule\<lparr>rule_opponent := Some 1\<rparr>"
| "default_deltas Brace Tie = empty_rule\<lparr>opponent_expr := Some ''-(b // 2)''\<rparr>"
| "default_deltas Brace Success = empty_rule\<lparr>opponent_expr := Some ''-b''\<rparr>"
| "default_deltas Brace CritSuccess = empty_rule\<lparr>opponent_expr := Some ''-b'', rule_grants_fleeting_tag := Some (Some ''Counter Stance'')\<rparr>"
| "default_deltas Push CritFail = empty_rule\<lparr>rule_own := Some (- 1)\<rparr>"
| "default_deltas Push Success = empty_rule\<lparr>rule_resolution := Some True\<rparr>"
| "default_deltas Push CritSuccess = empty_rule\<lparr>rule_resolution := Some True, rule_grants_fleeting_tag := Some (Some ''Clean Exit'')\<rparr>"
| "default_deltas Angle CritFail = empty_rule\<lparr>rule_tag_backfire := Some True, grants_fleeting_tag_from_target := Some True\<rparr>"
| "default_deltas Angle Tie = empty_rule\<lparr>grants_fleeting_tag_from_target := Some True\<rparr>"
| "default_deltas Angle Success = empty_rule\<lparr>grants_tag_from_target := Some True, rule_tag_leverage := Some 1\<rparr>"
| "default_deltas Angle CritSuccess = empty_rule\<lparr>grants_tag_from_target := Some True, rule_tag_leverage := Some 2\<rparr>"
| "default_deltas _ _ = empty_rule"

definition eval_expr :: "string \<Rightarrow> int \<Rightarrow> int res" where
  "eval_expr e b =
     (let s = filter (\<lambda>c. c \<noteq> CHR '' '') e in
      if s = ''b'' then Inr b
      else if s = ''-b'' then Inr (- b)
      else if s = ''b//2'' then Inr (b div 2)
      else if s = ''-(b//2)'' then Inr (- (b div 2))
      else Inl (ValueError ''unsupported delta expression''))"

definition over :: "'a option \<Rightarrow> 'a option \<Rightarrow> 'a option" where
  "over new old = (case new of None \<Rightarrow> old | Some _ \<Rightarrow> new)"

definition rule_update :: "delta_rule \<Rightarrow> delta_rule \<Rightarrow> delta_rule" where
  "rule_update r n =
     \<lparr>rule_own = over (rule_own n) (rule_own r), rule_opponent = over (rule_opponent n) (rule_opponent r),
      own_expr = over (own_expr n) (own_expr r), opponent_expr = over (opponent_expr n) (opponent_expr r),
      rule_grants_tag = over (rule_grants_tag n) (rule_grants_tag r),
      rule_grants_fleeting_tag = over (rule_grants_fleeting_tag n) (rule_grants_fleeting_tag r),
      rule_tag_leverage = over (rule_tag_leverage n) (rule_tag_leverage r),
      rule_tag_backfire = over (rule_tag_backfire n) (rule_tag_backfire r),
      rule_resolution = over (rule_resolution n) (rule_resolution r),
      grants_tag_from_target = over (grants_tag_from_target n) (grants_tag_from_target r),
      grants_fleeting_tag_from_target = over (grants_fleeting_tag_from_target n) (grants_fleeting_tag_from_target r)\<rparr>"

record resolved_deltas =
  own :: int
  opponent :: int
  grants_tag :: "string option"
  tag_leverage :: int
  grants_fleeting_tag :: "string option"
  tag_backfire :: bool
  delta_resolution :: bool

definition get_or :: "'a option \<Rightarrow> 'a \<Rightarrow> 'a" where
  "get_or x d = (case x of None \<Rightarrow> d | Some y \<Rightarrow> y)"

definition truthy :: "string option \<Rightarrow> bool" where
  "truthy x = (case x of None \<Rightarrow> False | Some s \<Rightarrow> s \<noteq> [])"

definition dial_delta :: "int option \<Rightarrow> string option \<Rightarrow> int \<Rightarrow> int res" where
  "dial_delta flat expr b = (case expr of None \<Rightarrow> Inr (get_or flat 0) | Some e \<Rightarrow> eval_expr e b)"

definition resolve_tier_deltas ::
  "beat_kind \<Rightarrow> int \<Rightarrow> roll_outcome \<Rightarrow> (roll_outcome \<times> delta_rule) list option \<Rightarrow> string option \<Rightarrow> resolved_deltas res" where
  "resolve_tier_deltas kind b out overrides target_tag =
     (if out = UnknownOutcome then Inl (ValueError ''RollOutcome.Unknown cannot resolve a beat tier'')
      else if kind = Angle \<and> \<not> truthy target_tag then Inl (ValueError ''angle beats require a target_tag'')
      else let rule = (case map_of (get_or overrides []) out of None \<Rightarrow> default_deltas kind out
                       | Some n \<Rightarrow> rule_update (default_deltas kind out) n) in
        rbind (dial_delta (rule_own rule) (own_expr rule) b) (\<lambda>o1.
        rbind (dial_delta (rule_opponent rule) (opponent_expr rule) b) (\<lambda>o2.
          Inr \<lparr>own = o1, opponent = o2,
               grants_tag = (if get_or (grants_tag_from_target rule) False then target_tag else get_or (rule_grants_tag rule) None),
               tag_leverage = get_or (rule_tag_leverage rule) 0,
               grants_fleeting_tag = (if get_or (grants_fleeting_tag_from_target rule) False then target_tag
                                      else get_or (rule_grants_fleeting_tag rule) None),
               tag_backfire = get_or (rule_tag_backfire rule) False,
               delta_resolution = get_or (rule_resolution rule) False\<rparr>)))"

definition tier_of :: "string \<Rightarrow> roll_outcome res" where
  "tier_of k =
     (if k = ''crit_fail'' then Inr CritFail else if k = ''fail'' then Inr Fail else if k = ''tie'' then Inr Tie
      else if k = ''success'' then Inr Success else if k = ''crit_success'' then Inr CritSuccess else Inl (KeyError k))"

definition normalize_overrides :: "(string \<times> delta_rule) list option \<Rightarrow> (roll_outcome \<times> delta_rule) list option res" where
  "normalize_overrides raw =
     (case raw of None \<Rightarrow> Inr None
      | Some kvs \<Rightarrow> rbind (rmap (\<lambda>(k, v). rbind (tier_of k) (\<lambda>t. Inr (t, v))) kvs) (\<lambda>l. Inr (Some l)))"

section \<open>Impact\<close>

definition py_or :: "string option \<Rightarrow> string option \<Rightarrow> string option" where
  "py_or a b = (if truthy a then a else b)"

definition shown :: "string option \<Rightarrow> string option" where
  "shown t = (if truthy t then t else None)"

definition describe_beat_impact :: "resolved_deltas \<Rightarrow> bool \<Rightarrow> int \<Rightarrow> beat_impact" where
  "describe_beat_impact d hp_depletion_suppressed hp_removed =
     (let suppressed_dial_move = hp_depletion_suppressed \<and> (own d \<noteq> 0 \<or> opponent d \<noteq> 0);
          o1 = (if hp_depletion_suppressed then 0 else own d);
          o2 = (if hp_depletion_suppressed then 0 else opponent d);
          tag = py_or (grants_tag d) (grants_fleeting_tag d);
          es = (if hp_depletion_suppressed \<and> hp_removed > 0 then (Advance, HpLoss hp_removed (shown tag))
                else if o1 > 0 \<or> o2 < 0 then
                  (Advance, EdgeMoves (if o1 > 0 then Some o1 else None) (if o2 < 0 then Some o2 else None) (shown tag))
                else if o1 < 0 \<or> o2 > 0 then (Setback, if o1 < 0 then OwnSlips o1 else TheirRises o2)
                else if tag_backfire d then (Backfire, Rebounds (shown tag))
                else if delta_resolution d then (ResolutionEffect, Resolves (shown tag))
                else if truthy tag then (TagEffect, SetsUp (the tag))
                else if suppressed_dial_move then (Inert, DialHeld)
                else (Inert, NoChange))
      in \<lparr>effect = fst es, dial_moved = (o1 \<noteq> 0 \<or> o2 \<noteq> 0), summary = snd es, impact_own = o1, impact_opponent = o2,
          impact_resolution = delta_resolution d, impact_tag = tag\<rparr>)"

section \<open>Applying a beat\<close>

datatype damage_channel = NoChannel | StrikeChannel | BraceChannel

record beat_def =
  beat_id :: string
  kind :: beat_kind
  base :: int
  deltas :: "(string \<times> delta_rule) list option"
  target_tag :: "string option"
  stat_check :: "string option"
  beat_resolution :: "bool option"
  edge_delta :: "int option"
  target_edge_delta :: "int option"
  target_select :: "string option"
  channel :: damage_channel
  mitigation_override :: "int option"

record apply_result =
  result_deltas :: "resolved_deltas option"
  result_resolved :: bool
  skipped_reason :: "string option"
  impact :: "beat_impact option"
  hp_removed :: int

definition skip_beat :: "string \<Rightarrow> apply_result" where
  "skip_beat why = \<lparr>result_deltas = None, result_resolved = False, skipped_reason = Some why, impact = None, hp_removed = 0\<rparr>"

definition phase_for_beat :: "int \<Rightarrow> encounter_phase" where
  "phase_for_beat n =
     (if n = 0 then Setup else if n = 1 then Opening else if n = 2 \<or> n = 3 \<or> n = 4 then Escalation else Climax)"

definition other_side :: "actor_side \<Rightarrow> actor_side" where
  "other_side s = (if s = Player then Opponent else Player)"

definition opposite_side_live_actors :: "actor_side \<Rightarrow> encounter \<Rightarrow> string list" where
  "opposite_side_live_actors s e = map actor_name (filter (\<lambda>a. side a = other_side s \<and> \<not> withdrawn a) (actors e))"

definition opposite_side_first_actor :: "actor_side \<Rightarrow> encounter \<Rightarrow> string option" where
  "opposite_side_first_actor s e =
     (let candidates = opposite_side_live_actors s e in
      if candidates = [] then None
      else case active_actor (taunt e) of
        Some t \<Rightarrow> if t \<in> set candidates then Some t else Some (hd candidates)
      | None \<Rightarrow> Some (hd candidates))"

definition advance_metric :: "int \<Rightarrow> encounter_metric \<Rightarrow> encounter_metric" where
  "advance_metric n m = (if n = 0 then m else m\<lparr>metric_current := max 0 (metric_current m + n)\<rparr>)"

definition move_dials :: "actor_side \<Rightarrow> resolved_deltas \<Rightarrow> encounter \<Rightarrow> encounter" where
  "move_dials s d e =
     (if win_condition e = HpDepletion then e
      else if s = Player then e\<lparr>player_metric := advance_metric (own d) (player_metric e),
                                opponent_metric := advance_metric (opponent d) (opponent_metric e)\<rparr>
      else e\<lparr>opponent_metric := advance_metric (own d) (opponent_metric e),
             player_metric := advance_metric (opponent d) (player_metric e)\<rparr>)"

definition stamp_impact :: "actor_side \<Rightarrow> beat_impact \<Rightarrow> encounter \<Rightarrow> encounter" where
  "stamp_impact s i e = e\<lparr>last_beat_impacts := AList.update s i (last_beat_impacts e)\<rparr>"

type_synonym scene = "encounter \<times> cores"

definition on_enc :: "(encounter \<Rightarrow> encounter) \<Rightarrow> (scene, unit) sm" where
  "on_enc f = modify (\<lambda>(e, cs). (f e, cs))"

definition append_tag :: "string option \<Rightarrow> string \<Rightarrow> actor_side \<Rightarrow> int \<Rightarrow> bool \<Rightarrow> int \<Rightarrow> (scene, unit) sm" where
  "append_tag text by s lev fl turn =
     sbind get_st (\<lambda>(e, cs).
     sbind (lift_res (new_tag text by (opposite_side_first_actor s e) lev fl turn)) (\<lambda>t.
       on_enc (\<lambda>e. e\<lparr>tags := tags e @ [t]\<rparr>)))"

definition grant_tags :: "encounter_actor \<Rightarrow> beat_def \<Rightarrow> resolved_deltas \<Rightarrow> int \<Rightarrow> (scene, unit) sm" where
  "grant_tags a b d turn =
     sthen (if tag_backfire d then append_tag (target_tag b) (actor_name a) (side a) 1 True turn
            else if truthy (grants_tag d) then
              append_tag (grants_tag d) (actor_name a) (side a) (if tag_leverage d = 0 then 1 else tag_leverage d) False turn
            else ret ())
       (if truthy (grants_fleeting_tag d) \<and> \<not> tag_backfire d
        then append_tag (grants_fleeting_tag d) (actor_name a) (side a) 1 True turn else ret ())"

text \<open>One debit through the resolver; the result says whether the debited core is at zero.\<close>

definition debit :: "edge_resolver \<Rightarrow> string \<Rightarrow> int \<Rightarrow> (scene, bool) sm" where
  "debit res name n =
     sbind get_st (\<lambda>(e, cs).
       case resolve_core res cs name of
         None \<Rightarrow> raise (ValueError ''edge_resolver returned no CreatureCore'')
       | Some c \<Rightarrow> sthen (modify (\<lambda>(e, cs). (e, hurt res name n cs)))
                    (ret (hp_current (hp (apply_hp_delta (- n) c)) \<le> 0)))"

definition note_break :: "string option \<Rightarrow> string \<Rightarrow> bool \<Rightarrow> string option" where
  "note_break brk name down = (if down \<and> brk = None then Some name else brk)"

definition redirect_target :: "string list \<Rightarrow> string \<Rightarrow> (scene, string) sm" where
  "redirect_target live name =
     sbind get_st (\<lambda>(e, cs).
       case active_actor (taunt e) of
         None \<Rightarrow> ret name
       | Some t \<Rightarrow>
           if t \<noteq> [] \<and> name \<noteq> t \<and> t \<in> set live then
             (let (got, taunt') = try_consume_redirect (taunt e) in
              sthen (on_enc (\<lambda>e. e\<lparr>taunt := taunt'\<rparr>)) (ret (if got then t else name)))
           else ret name)"

fun spread_debits :: "edge_resolver \<Rightarrow> string list \<Rightarrow> int \<Rightarrow> string list \<Rightarrow> string option \<Rightarrow> (scene, string option) sm" where
  "spread_debits res live n [] brk = ret brk"
| "spread_debits res live n (name # names) brk =
     sbind (redirect_target live name) (\<lambda>tgt.
     sbind (debit res tgt n) (\<lambda>down.
       spread_debits res live n names (note_break brk tgt down)))"

definition target_debits :: "edge_resolver \<Rightarrow> encounter_actor \<Rightarrow> beat_def \<Rightarrow> int \<Rightarrow> string option \<Rightarrow> (scene, string option) sm" where
  "target_debits res a b n brk =
     sbind get_st (\<lambda>(e, cs).
       if target_select b = Some ''spread'' then
         (let live = opposite_side_live_actors (side a) e in
          if live = [] then ret brk
          else let per_target = n div int (length live) in
            if per_target > 0 then spread_debits res live per_target live brk else ret brk)
       else case opposite_side_first_actor (side a) e of
         None \<Rightarrow> ret brk
       | Some name \<Rightarrow> sbind (debit res name n) (\<lambda>down. ret (note_break brk name down)))"

definition edge_debits :: "edge_resolver option \<Rightarrow> encounter_actor \<Rightarrow> beat_def \<Rightarrow> (scene, string option) sm" where
  "edge_debits eres a b =
     (let s = get_or (edge_delta b) 0; t = get_or (target_edge_delta b) 0 in
      if s = 0 \<and> t = 0 then ret None
      else case eres of
        None \<Rightarrow> raise (ValueError ''apply_beat received no edge_resolver'')
      | Some res \<Rightarrow>
          sbind (if s \<noteq> 0 then sbind (debit res (actor_name a) s) (\<lambda>down. ret (note_break None (actor_name a) down)) else ret None) (\<lambda>brk.
            if t \<noteq> 0 then target_debits res a b t brk else ret brk))"

definition first_mitigation :: "item_entry list \<Rightarrow> int" where
  "first_mitigation its = (case List.find (\<lambda>i. mitigation i \<noteq> None) its of None \<Rightarrow> 0 | Some i \<Rightarrow> the (mitigation i))"

definition hp_channel_loss :: "int \<Rightarrow> int \<Rightarrow> int" where
  "hp_channel_loss damage_total target_mitigation =
     (if damage_total \<le> 0 then 0 else max 0 (damage_total - max 0 target_mitigation))"

definition apply_beat_hp_channel :: "edge_resolver \<Rightarrow> string \<Rightarrow> int \<Rightarrow> int \<Rightarrow> cores \<Rightarrow> int \<times> cores" where
  "apply_beat_hp_channel res name damage_total target_mitigation cs =
     (let applied = hp_channel_loss damage_total target_mitigation in
      if applied = 0 then (0, cs)
      else case resolve_core res cs name of
        None \<Rightarrow> (0, cs)
      | Some c \<Rightarrow> (hp_current (hp c) - hp_current (hp (apply_hp_delta (- applied) c)), hurt res name applied cs))"

definition strike_damage :: "edge_resolver option \<Rightarrow> int option \<Rightarrow> encounter_actor \<Rightarrow> beat_def \<Rightarrow> (scene, int) sm" where
  "strike_damage eres damage a b =
     (case (channel b, damage) of
        (StrikeChannel, Some damage_total) \<Rightarrow>
          sbind get_st (\<lambda>(e, cs).
            case (opposite_side_first_actor (side a) e, eres) of
              (Some name, Some res) \<Rightarrow>
                (let mit = (case mitigation_override b of Some m \<Rightarrow> m
                            | None \<Rightarrow> (case resolve_core res cs name of None \<Rightarrow> 0 | Some c \<Rightarrow> first_mitigation (items (core_inventory c))));
                     (lost, cs') = apply_beat_hp_channel res name damage_total mit cs
                 in sthen (put_st (e, cs')) (ret lost))
            | _ \<Rightarrow> ret 0)
      | _ \<Rightarrow> ret 0)"

definition settle :: "edge_resolver option \<Rightarrow> beat_def \<Rightarrow> resolved_deltas \<Rightarrow> string option \<Rightarrow> (scene, bool) sm" where
  "settle eres b d brk =
     sbind get_st (\<lambda>(e, cs).
       case brk of
         Some name \<Rightarrow> sthen (on_enc (resolve_with (''composure_break:'' @ name))) (ret True)
       | None \<Rightarrow>
           (let hp_dep = (win_condition e = HpDepletion);
                checked = (case eres of Some res \<Rightarrow> if hp_dep then check_hp_depletion res cs e else (None, e) | None \<Rightarrow> (None, e))
            in if fst checked \<noteq> None then sthen (put_st (snd checked, cs)) (ret True)
               else if \<not> hp_dep \<and> metric_current (player_metric e) \<ge> threshold (player_metric e)
               then sthen (on_enc (resolve_with ''player_victory'')) (ret True)
               else if \<not> hp_dep \<and> metric_current (opponent_metric e) \<ge> threshold (opponent_metric e)
               then sthen (on_enc (resolve_with ''opponent_victory'')) (ret True)
               else if delta_resolution d \<or> beat_resolution b = Some True
               then sthen (on_enc (resolve_with (''resolution_beat:'' @ beat_id b))) (ret True)
               else ret False))"

definition advance_beat :: "encounter_actor \<Rightarrow> beat_def \<Rightarrow> roll_outcome \<Rightarrow> encounter \<Rightarrow> encounter" where
  "advance_beat a b out e =
     (let e1 = e\<lparr>beat := beat e + 1, structured_phase := Some (phase_for_beat (beat e + 1))\<rparr>
      in if beat_id b = ''taunt'' \<and> out \<notin> {Fail, CritFail} then e1\<lparr>taunt := activate (actor_name a) (taunt e1)\<rparr> else e1)"

definition beat_body ::
  "encounter_actor \<Rightarrow> beat_def \<Rightarrow> roll_outcome \<Rightarrow> int \<Rightarrow> edge_resolver option \<Rightarrow> int option \<Rightarrow> resolved_deltas \<Rightarrow> bool
   \<Rightarrow> (scene, apply_result) sm" where
  "beat_body a b out turn eres damage d hp_dep =
     (let i = describe_beat_impact d hp_dep 0 in
      sthen (on_enc (\<lambda>e. move_dials (side a) d (stamp_impact (side a) i e)))
     (sthen (grant_tags a b d turn)
     (sbind (edge_debits eres a b) (\<lambda>brk.
      sbind (strike_damage eres damage a b) (\<lambda>lost.
      sthen (if hp_dep \<and> lost > 0 then on_enc (stamp_impact (side a) (describe_beat_impact d True lost)) else ret ())
     (sthen (on_enc (advance_beat a b out))
     (sbind (settle eres b d brk) (\<lambda>done.
        ret \<lparr>result_deltas = Some d, result_resolved = done, skipped_reason = None, impact = Some i, hp_removed = lost\<rparr>))))))))"

definition apply_beat ::
  "encounter_actor \<Rightarrow> beat_def \<Rightarrow> roll_outcome \<Rightarrow> int \<Rightarrow> edge_resolver option \<Rightarrow> int option \<Rightarrow> (scene, apply_result) sm" where
  "apply_beat a b out turn eres damage =
     sbind get_st (\<lambda>(e, cs).
       if resolved e then ret (skip_beat ''encounter_resolved'')
       else if side a = Neutral then ret (skip_beat ''neutral_actor'')
       else if withdrawn a then ret (skip_beat ''withdrawn_actor'')
       else if win_condition e = FateConflict then ret (skip_beat ''fate_conflict_suppressed'')
       else sbind (lift_res (rbind (normalize_overrides (deltas b)) (\<lambda>ov. resolve_tier_deltas (kind b) (base b) out ov (target_tag b)))) (\<lambda>d.
         beat_body a b out turn eres damage d (win_condition e = HpDepletion)))"

end
