(* ===== verification/Beat_Laws.thy ===== *)
theory Beat_Laws
  imports Beats
begin

text \<open>
  The laws of one beat: what every step of \<open>apply_beat\<close> leaves alone, the verdict its last step reaches,
  and the case analysis of a whole call that the properties of encounters rest on.
\<close>

section \<open>What every step leaves alone\<close>

definition cores_ok :: "cores \<Rightarrow> bool" where
  "cores_ok cs \<longleftrightarrow> list_all (\<lambda>(k, c). hp_well (hp c)) cs"

definition tags_ok :: "encounter_tag list \<Rightarrow> bool" where
  "tags_ok ts \<longleftrightarrow> list_all (\<lambda>t. 0 \<le> leverage t) ts"

definition enc_ok :: "encounter \<Rightarrow> bool" where
  "enc_ok e \<longleftrightarrow> 0 \<le> metric_current (player_metric e) \<and> 0 \<le> metric_current (opponent_metric e) \<and> tags_ok (tags e) \<and>
     0 \<le> redirects_this_round (taunt e) \<and> redirects_this_round (taunt e) \<le> 1 \<and> 0 \<le> remaining_rounds (taunt e) \<and>
     remaining_rounds (taunt e) \<le> 1"

text \<open>What a beat may not change at all.\<close>

definition same_setup :: "encounter \<Rightarrow> encounter \<Rightarrow> bool" where
  "same_setup e0 e \<longleftrightarrow> win_condition e = win_condition e0 \<and> actors e = actors e0 \<and> encounter_type e = encounter_type e0 \<and>
     threshold (player_metric e) = threshold (player_metric e0) \<and> threshold (opponent_metric e) = threshold (opponent_metric e0) \<and>
     pending_compels e = pending_compels e0 \<and>
     (win_condition e0 = HpDepletion \<longrightarrow> player_metric e = player_metric e0 \<and> opponent_metric e = opponent_metric e0)"

definition scene_rel :: "encounter \<Rightarrow> string list \<Rightarrow> scene \<Rightarrow> bool" where
  "scene_rel e0 ks w \<longleftrightarrow> same_setup e0 (fst w) \<and> enc_ok (fst w) \<and> map fst (snd w) = ks \<and> cores_ok (snd w)"

text \<open>Until the last step a beat neither resolves the encounter nor advances it.\<close>

definition still_open :: "encounter \<Rightarrow> scene \<Rightarrow> bool" where
  "still_open e0 w \<longleftrightarrow> resolved (fst w) = resolved e0 \<and> enc_outcome (fst w) = enc_outcome e0 \<and> beat (fst w) = beat e0"

lemma keeps_on_enc [wp]: "(\<And>e cs. P (e, cs) \<Longrightarrow> P (f e, cs)) \<Longrightarrow> keeps P (on_enc f)"
  unfolding on_enc_def by (rule keeps_modify) auto

lemma keeps_get_st [wp]: "(\<And>w. P w \<Longrightarrow> P (snd (g w w))) \<Longrightarrow> keeps P (sbind get_st g)"
  by (auto simp: keeps_def sm_defs)

lemma keepsD: "keeps P m \<Longrightarrow> P s \<Longrightarrow> P (snd (m s))"
  by (simp add: keeps_def)

lemma hurt_keys: "map fst (hurt res name n cs) = map fst cs"
proof -
  have "map fst (AList.update i c' cs) = map fst cs" if "map_of cs i = Some c" for i c c'
    using that by (induction cs) auto
  then show ?thesis by (auto simp: hurt_def split: option.splits)
qed

lemma cores_ok_update: "cores_ok cs \<Longrightarrow> hp_well (hp c) \<Longrightarrow> cores_ok (AList.update i c cs)"
  unfolding cores_ok_def by (induction cs) auto

lemma hurt_ok: "cores_ok cs \<Longrightarrow> cores_ok (hurt res name n cs)"
proof -
  assume ok: "cores_ok cs"
  have "hp_well (hp c)" if "map_of cs i = Some c" for i c
    using ok map_of_SomeD[OF that] by (auto simp: cores_ok_def list_all_iff)
  then show ?thesis using ok by (auto simp: hurt_def split: option.splits intro!: cores_ok_update hp.well_app)
qed

lemma move_dials_facts:
  "same_setup e0 e \<Longrightarrow> same_setup e0 (move_dials s d (stamp_impact s' i e))"
  "enc_ok e \<Longrightarrow> enc_ok (move_dials s d (stamp_impact s' i e))"
  "resolved (move_dials s d (stamp_impact s' i e)) = resolved e"
  "enc_outcome (move_dials s d (stamp_impact s' i e)) = enc_outcome e"
  "beat (move_dials s d (stamp_impact s' i e)) = beat e"
  by (auto simp: move_dials_def stamp_impact_def same_setup_def enc_ok_def advance_metric_def)

definition mid :: "encounter \<Rightarrow> string list \<Rightarrow> scene \<Rightarrow> bool" where
  "mid e0 ks w \<longleftrightarrow> scene_rel e0 ks w \<and> still_open e0 w"

lemma mid_enc:
  assumes "\<And>e. same_setup e0 e \<Longrightarrow> same_setup e0 (f e)" "\<And>e. enc_ok e \<Longrightarrow> enc_ok (f e)"
    "\<And>e. resolved (f e) = resolved e" "\<And>e. enc_outcome (f e) = enc_outcome e" "\<And>e. beat (f e) = beat e"
  shows "keeps (mid e0 ks) (on_enc f)"
  using assms by (intro keeps_on_enc) (auto simp: mid_def scene_rel_def still_open_def)

lemma mid_tag: "keeps (mid e0 ks) (append_tag text by s lev fl turn)"
proof -
  have "mid e0 ks (snd (append_tag text by s lev fl turn w))" if "mid e0 ks w" for w
  proof (cases "new_tag text by (opposite_side_first_actor s (fst w)) lev fl turn")
    case (Inr t)
    then have "0 \<le> leverage t" by (auto simp: new_tag_def split: option.splits if_splits)
    then show ?thesis using that Inr
      by (auto simp: append_tag_def sm_defs on_enc_def split_def mid_def scene_rel_def still_open_def same_setup_def enc_ok_def tags_ok_def)
  qed (use that in \<open>simp add: append_tag_def sm_defs split_def\<close>)
  then show ?thesis by (simp add: keeps_def)
qed

lemma mid_debit: "keeps (mid e0 ks) (debit res name n)"
  unfolding keeps_def
  by (auto simp: debit_def sm_defs mid_def scene_rel_def still_open_def hurt_keys hurt_ok split: option.splits prod.splits)

lemma mid_redirect: "keeps (mid e0 ks) (redirect_target live name)"
  unfolding keeps_def
  by (auto simp: redirect_target_def try_consume_redirect_def sm_defs on_enc_def mid_def scene_rel_def still_open_def
      same_setup_def enc_ok_def Let_def split: option.splits prod.splits)

lemma mid_spread: "keeps (mid e0 ks) (spread_debits res live n names brk)"
  by (induction names arbitrary: brk) (auto intro!: wp mid_redirect mid_debit)

lemma mid_targets: "keeps (mid e0 ks) (target_debits res a b n brk)"
  unfolding target_debits_def
proof (rule keeps_get_st, goal_cases)
  case (1 w)
  let ?k = "\<lambda>(e, cs). if target_select b = Some ''spread'' then
         (let live = opposite_side_live_actors (side a) e in
          if live = [] then ret brk
          else let per_target = n div int (length live) in
            if per_target > 0 then spread_debits res live per_target live brk else ret brk)
       else case opposite_side_first_actor (side a) e of
         None \<Rightarrow> ret brk
       | Some name \<Rightarrow> sbind (debit res name n) (\<lambda>down. ret (note_break brk name down))"
  have "keeps (mid e0 ks) (?k w)"
    by (auto simp: Let_def split: prod.splits option.splits intro!: wp mid_spread mid_debit)
  then show ?case using 1 by (rule keepsD)
qed

lemma mid_edges: "keeps (mid e0 ks) (edge_debits eres a b)"
  unfolding edge_debits_def Let_def by (auto split: option.splits intro!: wp mid_debit mid_targets)

lemma hp_channel_facts:
  "map fst (snd (apply_beat_hp_channel res name t m cs)) = map fst cs"
  "cores_ok cs \<Longrightarrow> cores_ok (snd (apply_beat_hp_channel res name t m cs))"
  by (auto simp: apply_beat_hp_channel_def hurt_keys hurt_ok Let_def split: option.splits)

lemma mid_strike: "keeps (mid e0 ks) (strike_damage eres damage a b)"
proof (cases "channel b = StrikeChannel \<and> damage \<noteq> None")
  case True
  then obtain t where t: "channel b = StrikeChannel" "damage = Some t" by auto
  show ?thesis unfolding keeps_def
  proof (intro allI impI)
    fix w assume w: "mid e0 ks w"
    show "mid e0 ks (snd (strike_damage eres damage a b w))"
      using w by (auto simp: strike_damage_def t sm_defs Let_def split_def hp_channel_facts mid_def scene_rel_def still_open_def
        split: option.splits)
  qed
next
  case False
  then have "strike_damage eres damage a b = ret 0"
    by (auto simp: strike_damage_def split: damage_channel.splits option.splits)
  then show ?thesis by (simp add: keeps_ret)
qed

lemma mid_tags: "keeps (mid e0 ks) (grant_tags a b d turn)"
  unfolding grant_tags_def by (auto intro!: wp mid_tag)

section \<open>The whole beat\<close>

lemma advance_beat_facts:
  "same_setup e0 e \<Longrightarrow> same_setup e0 (advance_beat a b out e)"
  "enc_ok e \<Longrightarrow> enc_ok (advance_beat a b out e)"
  "resolved (advance_beat a b out e) = resolved e" "enc_outcome (advance_beat a b out e) = enc_outcome e"
  "beat (advance_beat a b out e) = beat e + 1" "win_condition (advance_beat a b out e) = win_condition e"
  by (auto simp: advance_beat_def activate_def same_setup_def enc_ok_def Let_def)

lemma resolve_with_facts [simp]:
  "same_setup e0 (resolve_with out e) = same_setup e0 e" "enc_ok (resolve_with out e) = enc_ok e"
  "resolved (resolve_with out e)" "enc_outcome (resolve_with out e) = Some out" "beat (resolve_with out e) = beat e"
  "structured_phase (resolve_with out e) = Some Resolution" "player_metric (resolve_with out e) = player_metric e"
  "opponent_metric (resolve_with out e) = opponent_metric e" "win_condition (resolve_with out e) = win_condition e"
  "actors (resolve_with out e) = actors e"
  by (auto simp: resolve_with_def same_setup_def enc_ok_def)

text \<open>How the last step decides: by a composure break, else by hit points or by the dials, else by a resolution beat.\<close>

definition verdict :: "edge_resolver option \<Rightarrow> beat_def \<Rightarrow> resolved_deltas \<Rightarrow> string option \<Rightarrow> scene \<Rightarrow> string option" where
  "verdict eres b d brk w =
     (let (e, cs) = w; ending = (if delta_resolution d \<or> beat_resolution b = Some True then Some (''resolution_beat:'' @ beat_id b) else None) in
      case brk of Some name \<Rightarrow> Some (''composure_break:'' @ name)
      | None \<Rightarrow>
        if win_condition e = HpDepletion then
          (case eres of None \<Rightarrow> ending
           | Some res \<Rightarrow> (case fst (check_hp_depletion res cs e) of Some r \<Rightarrow> Some (fst r) | None \<Rightarrow> ending))
        else if metric_current (player_metric e) \<ge> threshold (player_metric e) then Some ''player_victory''
        else if metric_current (opponent_metric e) \<ge> threshold (opponent_metric e) then Some ''opponent_victory''
        else ending)"

lemma settle_verdict:
  "settle eres b d brk w =
     (case verdict eres b d brk w of None \<Rightarrow> (Inr False, w)
      | Some out \<Rightarrow> (Inr True, resolve_with out (fst w), snd w))"
proof -
  obtain e cs where w: "w = (e, cs)" by fastforce
  have hp: "snd (check_hp_depletion res cs e) = resolve_with (fst r) e" if "fst (check_hp_depletion res cs e) = Some r" for res r
    using that by (auto simp: check_hp_depletion_cases Let_def split: if_splits)
  show ?thesis
  proof (cases brk)
    case (Some name)
    then show ?thesis by (simp add: w settle_def verdict_def sm_defs on_enc_def)
  next
    case None
    show ?thesis
    proof (cases "win_condition e = HpDepletion")
      case True
      then show ?thesis using hp None
        by (cases eres; cases "fst (check_hp_depletion (the eres) cs e)")
          (auto simp: w settle_def verdict_def sm_defs on_enc_def Let_def)
    next
      case False
      then show ?thesis using None
        by (cases eres) (auto simp: w settle_def verdict_def sm_defs on_enc_def Let_def)
    qed
  qed
qed

lemma run_cases:
  assumes "keeps P m" "P s"
  obtains err s' where "m s = (Inl err, s')" "P s'" | x s' where "m s = (Inr x, s')" "P s'"
proof -
  obtain r s' where m: "m s = (r, s')" by fastforce
  then have "P s'" using keepsD[OF assms] by simp
  then show ?thesis using m that by (cases r) auto
qed

definition beat_ends :: "encounter_actor \<Rightarrow> beat_def \<Rightarrow> roll_outcome \<Rightarrow> edge_resolver option \<Rightarrow> resolved_deltas \<Rightarrow> beat_impact \<Rightarrow>
    string option \<Rightarrow> int \<Rightarrow> scene \<Rightarrow> apply_result res \<times> scene" where
  "beat_ends a b out eres d i brk lost w1 =
     (let w2 = (advance_beat a b out (fst w1), snd w1); v = verdict eres b d brk w2 in
      (Inr \<lparr>result_deltas = Some d, result_resolved = (v \<noteq> None), skipped_reason = None, impact = Some i, hp_removed = lost\<rparr>,
       case v of None \<Rightarrow> w2 | Some o' \<Rightarrow> (resolve_with o' (fst w2), snd w2)))"

lemma beat_body_outcome:
  assumes "mid e0 ks w"
  shows "(\<exists>err w'. beat_body a b out turn eres damage d hp_dep w = (Inl err, w') \<and> mid e0 ks w') \<or>
    (\<exists>brk lost w1. mid e0 ks w1 \<and> beat_body a b out turn eres damage d hp_dep w =
       beat_ends a b out eres d (describe_beat_impact d hp_dep 0) brk lost w1)"
proof -
  let ?i = "describe_beat_impact d hp_dep 0"
  let ?fin = "\<lambda>brk lost. sthen (if hp_dep \<and> lost > 0 then on_enc (stamp_impact (side a) (describe_beat_impact d True lost)) else ret ())
     (sthen (on_enc (advance_beat a b out))
     (sbind (settle eres b d brk) (\<lambda>done.
        ret \<lparr>result_deltas = Some d, result_resolved = done, skipped_reason = None, impact = Some ?i, hp_removed = lost\<rparr>)))"
  have fin: "\<exists>w1. mid e0 ks w1 \<and> ?fin brk lost w = beat_ends a b out eres d ?i brk lost w1" if "mid e0 ks w" for brk lost w
  proof -
    let ?w1 = "if hp_dep \<and> lost > 0 then (stamp_impact (side a) (describe_beat_impact d True lost) (fst w), snd w) else w"
    have "mid e0 ks ?w1" using that
      by (auto simp: mid_def scene_rel_def still_open_def same_setup_def enc_ok_def stamp_impact_def)
    moreover have "?fin brk lost w = beat_ends a b out eres d ?i brk lost ?w1"
      by (cases w) (auto simp: sm_defs on_enc_def settle_verdict beat_ends_def Let_def split: option.splits)
    ultimately show ?thesis by blast
  qed
  let ?w0 = "(move_dials (side a) d (stamp_impact (side a) ?i (fst w)), snd w)"
  have w0: "mid e0 ks ?w0" using assms by (simp add: mid_def scene_rel_def still_open_def move_dials_facts)
  have start: "beat_body a b out turn eres damage d hp_dep w =
      sthen (grant_tags a b d turn) (sbind (edge_debits eres a b) (\<lambda>brk. sbind (strike_damage eres damage a b) (?fin brk))) ?w0"
    by (cases w) (simp add: beat_body_def Let_def sthen_def sbind_def on_enc_def modify_def)
  show ?thesis
  proof (rule run_cases[OF mid_tags w0, of a b d turn])
    fix err w' assume "grant_tags a b d turn ?w0 = (Inl err, w')" "mid e0 ks w'"
    then show ?thesis using start by (simp add: sthen_def sbind_def)
  next
    fix x w1 assume t: "grant_tags a b d turn ?w0 = (Inr x, w1)" and w1: "mid e0 ks w1"
    show ?thesis
    proof (rule run_cases[OF mid_edges w1, of eres a b])
      fix err w' assume "edge_debits eres a b w1 = (Inl err, w')" "mid e0 ks w'"
      then show ?thesis using start t by (simp add: sthen_def sbind_def)
    next
      fix brk w2 assume e: "edge_debits eres a b w1 = (Inr brk, w2)" and w2: "mid e0 ks w2"
      show ?thesis
      proof (rule run_cases[OF mid_strike w2, of eres damage a b])
        fix err w' assume "strike_damage eres damage a b w2 = (Inl err, w')" "mid e0 ks w'"
        then show ?thesis using start t e by (simp add: sthen_def sbind_def)
      next
        fix lost w3 assume s: "strike_damage eres damage a b w2 = (Inr lost, w3)" and w3: "mid e0 ks w3"
        have "beat_body a b out turn eres damage d hp_dep w = ?fin brk lost w3"
          using start t e s by (simp add: sthen_def sbind_def)
        then show ?thesis using fin[OF w3, of lost brk] by metis
      qed
    qed
  qed
qed

text \<open>Every call of \<open>apply_beat\<close>: it is skipped, it raises, or it ends with a verdict.\<close>

definition skip_reason :: "encounter_actor \<Rightarrow> encounter \<Rightarrow> string option" where
  "skip_reason a e =
     (if resolved e then Some ''encounter_resolved'' else if side a = Neutral then Some ''neutral_actor''
      else if withdrawn a then Some ''withdrawn_actor'' else if win_condition e = FateConflict then Some ''fate_conflict_suppressed'' else None)"

definition beat_deltas :: "beat_def \<Rightarrow> roll_outcome \<Rightarrow> resolved_deltas res" where
  "beat_deltas b out = rbind (normalize_overrides (deltas b)) (\<lambda>ov. resolve_tier_deltas (kind b) (base b) out ov (target_tag b))"

lemma apply_beat_skip: "skip_reason a e = Some why \<Longrightarrow> apply_beat a b out turn eres damage (e, cs) = (Inr (skip_beat why), (e, cs))"
  by (auto simp: apply_beat_def skip_reason_def sm_defs split: if_splits)

lemma apply_beat_run:
  "skip_reason a e = None \<Longrightarrow> apply_beat a b out turn eres damage (e, cs) =
     (case beat_deltas b out of Inl err \<Rightarrow> (Inl err, (e, cs))
      | Inr d \<Rightarrow> beat_body a b out turn eres damage d (win_condition e = HpDepletion) (e, cs))"
  by (auto simp: apply_beat_def skip_reason_def beat_deltas_def sm_defs split: if_splits sum.splits)

lemma mid_start: "enc_ok e \<Longrightarrow> cores_ok cs \<Longrightarrow> mid e (map fst cs) (e, cs)"
  by (simp add: mid_def scene_rel_def still_open_def same_setup_def)

lemma apply_beat_cases:
  assumes "enc_ok e" "cores_ok cs"
  obtains why where "skip_reason a e = Some why" "apply_beat a b out turn eres damage (e, cs) = (Inr (skip_beat why), (e, cs))"
  | err w where "skip_reason a e = None" "apply_beat a b out turn eres damage (e, cs) = (Inl err, w)" "mid e (map fst cs) w"
  | d brk lost w1 where "skip_reason a e = None" "beat_deltas b out = Inr d" "mid e (map fst cs) w1"
      "apply_beat a b out turn eres damage (e, cs) =
         beat_ends a b out eres d (describe_beat_impact d (win_condition e = HpDepletion) 0) brk lost w1"
proof (cases "skip_reason a e")
  case None
  show ?thesis
  proof (cases "beat_deltas b out")
    case (Inl err)
    then show ?thesis using apply_beat_run[OF None] mid_start[OF assms] that(2)[OF None] by simp
  next
    case (Inr d)
    then have "apply_beat a b out turn eres damage (e, cs) = beat_body a b out turn eres damage d (win_condition e = HpDepletion) (e, cs)"
      using apply_beat_run[OF None] by simp
    then show ?thesis
      using beat_body_outcome[OF mid_start[OF assms], of a b out turn eres damage d "win_condition e = HpDepletion"]
        that(2)[OF None] that(3)[OF None Inr] by metis
  qed
qed (use apply_beat_skip that(1) in blast)

text \<open>After a beat that was not skipped: the final scene and what it says.\<close>

lemma beat_ends_facts:
  assumes "mid e0 ks w1" "beat_ends a b out eres d i brk lost w1 = (Inr r, (e', cs'))" "\<not> resolved e0"
  shows "scene_rel e0 ks (e', cs')" "beat e' = beat e0 + 1" "skipped_reason r = None" "result_resolved r = resolved e'"
    "resolved e' \<Longrightarrow> enc_outcome e' \<noteq> None \<and> structured_phase e' = Some Resolution"
    "\<not> resolved e' \<Longrightarrow> enc_outcome e' = enc_outcome e0 \<and> structured_phase e' = Some (phase_for_beat (beat e0 + 1))"
    "\<not> resolved e' \<Longrightarrow> win_condition e0 \<noteq> HpDepletion \<Longrightarrow>
       metric_current (player_metric e') < threshold (player_metric e0) \<and> metric_current (opponent_metric e') < threshold (opponent_metric e0)"
    "\<not> resolved e' \<Longrightarrow> win_condition e0 = HpDepletion \<Longrightarrow> eres = Some res \<Longrightarrow>
       \<not> side_down res cs' Player e0 \<and> \<not> side_down res cs' Opponent e0"
proof -
  let ?e2 = "advance_beat a b out (fst w1)"
  have m: "same_setup e0 (fst w1)" "enc_ok (fst w1)" "map fst (snd w1) = ks" "cores_ok (snd w1)" "\<not> resolved (fst w1)"
      "enc_outcome (fst w1) = enc_outcome e0" "beat (fst w1) = beat e0"
    using assms(1,3) by (auto simp: mid_def scene_rel_def still_open_def)
  have e2: "same_setup e0 ?e2" "enc_ok ?e2" "\<not> resolved ?e2" "enc_outcome ?e2 = enc_outcome e0" "beat ?e2 = beat e0 + 1"
    using m advance_beat_facts by auto
  have ph: "structured_phase ?e2 = Some (phase_for_beat (beat e0 + 1))" using m(7) by (auto simp: advance_beat_def Let_def)
  let ?v = "verdict eres b d brk (?e2, snd w1)"
  have fin: "cs' = snd w1" "e' = (case ?v of None \<Rightarrow> ?e2 | Some o' \<Rightarrow> resolve_with o' ?e2)" "result_resolved r = (?v \<noteq> None)" "skipped_reason r = None"
    using assms(2) by (auto simp: beat_ends_def Let_def split: option.splits)
  show "scene_rel e0 ks (e', cs')" using fin e2 m by (auto simp: scene_rel_def split: option.splits)
  show "beat e' = beat e0 + 1" "skipped_reason r = None" "result_resolved r = resolved e'"
    using fin e2 by (auto split: option.splits)
  show "resolved e' \<Longrightarrow> enc_outcome e' \<noteq> None \<and> structured_phase e' = Some Resolution"
    using fin e2 by (auto split: option.splits)
  have open': "\<not> resolved e' \<Longrightarrow> ?v = None \<and> e' = ?e2" using fin by (cases ?v) auto
  then show "\<not> resolved e' \<Longrightarrow> enc_outcome e' = enc_outcome e0 \<and> structured_phase e' = Some (phase_for_beat (beat e0 + 1))"
    using e2 ph by simp
  show "\<not> resolved e' \<Longrightarrow> win_condition e0 \<noteq> HpDepletion \<Longrightarrow>
       metric_current (player_metric e') < threshold (player_metric e0) \<and> metric_current (opponent_metric e') < threshold (opponent_metric e0)"
    using open' e2(1) by (auto simp: verdict_def Let_def same_setup_def split: option.splits if_splits)
  show "\<not> resolved e' \<Longrightarrow> win_condition e0 = HpDepletion \<Longrightarrow> eres = Some res \<Longrightarrow>
       \<not> side_down res cs' Player e0 \<and> \<not> side_down res cs' Opponent e0"
    using open' e2(1,3) fin(1)
    by (auto simp: verdict_def Let_def same_setup_def check_hp_depletion_cases side_down_def seated_cores_def split: option.splits if_splits)
qed

end
