(* ===== verification/Opposed.thy ===== *)
theory Opposed
  imports Beats Lore
begin

text \<open>
  Opposed checks (src/sidequest/game/opposed_check.py) and the numerical-advantage modifier of
  beat_kinds.py. Sums of floats follow CPython's compensated summation.
\<close>

section \<open>Numerical advantage\<close>

text \<open>\<open>sum\<close> over floats: a running total and a correction, added at the end.\<close>

fun fsum_from :: "rat \<Rightarrow> rat \<Rightarrow> rat list \<Rightarrow> rat" where
  "fsum_from total_f c [] = (if c = 0 then total_f else rnd (total_f + c))"
| "fsum_from total_f c (x # xs) =
     (let t = rnd (total_f + x);
          c' = (if \<bar>total_f\<bar> \<ge> \<bar>x\<bar> then rnd (c + rnd (rnd (total_f - t) + x)) else rnd (c + rnd (rnd (x - t) + total_f)))
      in fsum_from t c' xs)"

definition fsum :: "rat list \<Rightarrow> rat" where
  "fsum xs = (case xs of [] \<Rightarrow> 0 | x # ys \<Rightarrow> fsum_from x 0 ys)"

definition NUMERICAL_ADVANTAGE_DIVISOR :: rat where "NUMERICAL_ADVANTAGE_DIVISOR = 2"
definition NUMERICAL_ADVANTAGE_CAP :: int where "NUMERICAL_ADVANTAGE_CAP = 3"

definition numerical_advantage_modifier :: "rat list \<Rightarrow> int" where
  "numerical_advantage_modifier fs =
     (if fs = [] then 0
      else let raw = trunc (rnd (fsum fs / NUMERICAL_ADVANTAGE_DIVISOR));
               capped = min raw NUMERICAL_ADVANTAGE_CAP;
               broken = length (filter (\<lambda>f. f \<le> 0) fs)
           in if broken * 2 > length fs then - max capped 1 else capped)"

definition ally_fraction :: "edge_resolver \<Rightarrow> cores \<Rightarrow> encounter_actor \<Rightarrow> encounter_actor \<Rightarrow> rat option" where
  "ally_fraction res cs initiator a =
     (if actor_name a = actor_name initiator \<or> side a \<noteq> side initiator then None
      else if withdrawn a then Some 0
      else case resolve_core res cs (actor_name a) of
        None \<Rightarrow> None
      | Some c \<Rightarrow> Some (rnd (of_int (hp_current (hp c)) / of_int (if hp_max (hp c) > 0 then hp_max (hp c) else 1))))"

definition numerical_advantage_for :: "edge_resolver \<Rightarrow> cores \<Rightarrow> encounter_actor \<Rightarrow> encounter \<Rightarrow> int" where
  "numerical_advantage_for res cs initiator e =
     numerical_advantage_modifier (List.map_filter (ally_fraction res cs initiator) (actors e))"

section \<open>Opposed checks\<close>

definition CRIT_SUCCESS_SHIFT :: int where "CRIT_SUCCESS_SHIFT = 10"
definition SUCCESS_SHIFT :: int where "SUCCESS_SHIFT = 2"
definition FAIL_SHIFT :: int where "FAIL_SHIFT = - 2"
definition CRIT_FAIL_SHIFT :: int where "CRIT_FAIL_SHIFT = - 10"

definition tier_from_shift :: "int \<Rightarrow> roll_outcome" where
  "tier_from_shift s =
     (if s \<ge> CRIT_SUCCESS_SHIFT then CritSuccess
      else if s \<ge> SUCCESS_SHIFT then Success
      else if s \<le> CRIT_FAIL_SHIFT then CritFail
      else if s \<le> FAIL_SHIFT then Fail
      else Tie)"

definition ability_modifier :: "int \<Rightarrow> int" where
  "ability_modifier score = (score - 10) div 2"

text \<open>Exact key first, then the first key that agrees up to case.\<close>

definition stat_lookup :: "(string \<times> int) list \<Rightarrow> string \<Rightarrow> int option" where
  "stat_lookup m k =
     (case map_of m k of Some v \<Rightarrow> Some v
      | None \<Rightarrow> map_option snd (List.find (\<lambda>(k', v). lower k' = lower k) m))"

definition stat_score_from_actor :: "encounter_actor \<Rightarrow> string \<Rightarrow> int option" where
  "stat_score_from_actor a k = (case stats a of None \<Rightarrow> None | Some m \<Rightarrow> stat_lookup m k)"

definition stat_score_from_cdef_default :: "(string \<times> int) list option \<Rightarrow> string \<Rightarrow> int option" where
  "stat_score_from_cdef_default m k = (case m of None \<Rightarrow> None | Some m \<Rightarrow> stat_lookup m k)"

definition OPPONENT_RESERVED_STAT_KEYS :: "string list" where
  "OPPONENT_RESERVED_STAT_KEYS = [''hp'', ''armor_class'', ''dexterity'', ''armor'', ''pilot_skill'', ''attack_bonus'']"

definition opponent_ability_scores :: "(string \<times> int) list option \<Rightarrow> (string \<times> int) list option" where
  "opponent_ability_scores m = map_option (filter (\<lambda>(k, v). k \<notin> set OPPONENT_RESERVED_STAT_KEYS)) m"

definition resolve_opponent_modifier :: "encounter_actor \<Rightarrow> (string \<times> int) list option \<Rightarrow> string option \<Rightarrow> int res" where
  "resolve_opponent_modifier a default_stats check =
     (if \<not> truthy check then Inl (ValueError ''opposed_check resolution requires a non-empty stat_check'')
      else case stat_score_from_actor a (the check) of
        Some score \<Rightarrow> Inr (ability_modifier score)
      | None \<Rightarrow> (case stat_score_from_cdef_default (opponent_ability_scores default_stats) (the check) of
          Some score \<Rightarrow> Inr (ability_modifier score)
        | None \<Rightarrow> Inl (ValueError ''opposed_check: no stat for opponent'')))"

record opposed_roll_result =
  player_roll :: int
  player_mod :: int
  opponent_roll :: int
  opponent_mod :: int
  shift :: int
  tier :: roll_outcome
  player_num_advantage :: int
  opponent_num_advantage :: int

definition d20_face :: "int \<Rightarrow> bool" where
  "d20_face n \<longleftrightarrow> 1 \<le> n \<and> n \<le> 20"

definition resolve_opposed_check ::
  "encounter_actor \<Rightarrow> encounter_actor \<Rightarrow> beat_def \<Rightarrow> beat_def \<Rightarrow> (string \<times> int) list option \<Rightarrow> int \<Rightarrow> int
   \<Rightarrow> encounter option \<Rightarrow> (edge_resolver \<times> cores) option \<Rightarrow> int option \<Rightarrow> opposed_roll_result res" where
  "resolve_opposed_check pa oa pb ob default_stats p_roll o_roll enc eres fixed =
     (if (case fixed of None \<Rightarrow> False | Some f \<Rightarrow> \<not> d20_face f) then Inl (ValueError ''fixed_opponent_roll not in 1..20'')
      else let o_roll' = get_or fixed o_roll in
        if \<not> d20_face p_roll then Inl (ValueError ''opposed_check: player_roll not in 1..20'')
        else if \<not> d20_face o_roll' then Inl (ValueError ''opposed_check: opponent_roll not in 1..20'')
        else rbind (resolve_opponent_modifier pa default_stats (stat_check pb)) (\<lambda>p_mod.
          rbind (resolve_opponent_modifier oa default_stats (stat_check ob)) (\<lambda>o_mod.
            let adv = (\<lambda>a. case (eres, enc) of (Some (res, cs), Some e) \<Rightarrow> numerical_advantage_for res cs a e | _ \<Rightarrow> 0);
                s = (p_roll + p_mod + adv pa) - (o_roll' + o_mod + adv oa)
            in Inr \<lparr>player_roll = p_roll, player_mod = p_mod, opponent_roll = o_roll', opponent_mod = o_mod, shift = s,
                    tier = tier_from_shift s, player_num_advantage = adv pa, opponent_num_advantage = adv oa\<rparr>)))"

section \<open>Facts\<close>

fun mirror :: "roll_outcome \<Rightarrow> roll_outcome" where
  "mirror CritSuccess = CritFail"
| "mirror Success = Fail"
| "mirror Tie = Tie"
| "mirror Fail = Success"
| "mirror CritFail = CritSuccess"
| "mirror UnknownOutcome = UnknownOutcome"

lemmas shift_bands = CRIT_SUCCESS_SHIFT_def SUCCESS_SHIFT_def FAIL_SHIFT_def CRIT_FAIL_SHIFT_def

lemma tier_mirror: "tier_from_shift (- s) = mirror (tier_from_shift s)"
  by (auto simp: tier_from_shift_def shift_bands)

lemma tier_mono: "s \<le> t \<Longrightarrow> outcome_rank (tier_from_shift s) \<le> outcome_rank (tier_from_shift t)"
  by (auto simp: tier_from_shift_def shift_bands)

lemma numerical_advantage_bounds:
  "numerical_advantage_modifier fs \<le> 3"
  "length fs < 2 * length (filter (\<lambda>f. f \<le> 0) fs) \<Longrightarrow> - 3 \<le> numerical_advantage_modifier fs \<and> numerical_advantage_modifier fs \<le> - 1"
  by (auto simp: numerical_advantage_modifier_def NUMERICAL_ADVANTAGE_CAP_def Let_def)

end
