(* ===== verification/Morale.thy ===== *)
theory Morale
  imports Encounter
begin

text \<open>
  Morale (src/sidequest/game/morale.py, the morale block of genre/models/rules.py, and the triggers and
  consequences of server/narration_apply.py): a side that takes losses rolls 2d6 against its score and
  may flee, surrender or rout.
\<close>

section \<open>The check\<close>

datatype morale_trigger = FirstBlood | HalfKilled | Intimidated | LeaderKilled
datatype flee_consequence = Chase | Surrender | Rout
datatype morale_outcome = Stay | Flee

fun trigger_value :: "morale_trigger \<Rightarrow> string" where
  "trigger_value FirstBlood = ''first_blood''"
| "trigger_value HalfKilled = ''half_killed''"
| "trigger_value Intimidated = ''intimidated''"
| "trigger_value LeaderKilled = ''leader_killed''"

record morale_def =
  score :: int
  triggers :: "morale_trigger list"
  flee_consequence :: flee_consequence

definition morale_validate :: "morale_def \<Rightarrow> unit res" where
  "morale_validate m =
     (if \<not> (2 \<le> score m \<and> score m \<le> 12) then Inl (ValueError ''morale score not in 2..12'')
      else if triggers m = [] then Inl (ValueError ''morale.triggers must be non-empty'') else Inr ())"

record opponent_state =
  opponent_id :: string
  mindless :: bool
  alive :: bool
  is_leader :: bool

definition maybe_check_morale :: "morale_def option \<Rightarrow> opponent_state list \<Rightarrow> morale_trigger \<Rightarrow> (rng, morale_outcome) sm" where
  "maybe_check_morale md opponents trg =
     (case md of None \<Rightarrow> ret Stay
      | Some m \<Rightarrow>
          if trg \<notin> set (triggers m) then ret Stay
          else if filter (\<lambda>o'. alive o' \<and> \<not> mindless o') opponents = [] then ret Stay
          else sbind (randint 1 6) (\<lambda>d1. sbind (randint 1 6) (\<lambda>d2.
            ret (if d1 + d2 \<le> score m then Stay else Flee))))"

section \<open>Triggers and consequences\<close>

definition event_key :: "morale_trigger \<Rightarrow> string \<Rightarrow> string" where
  "event_key trg lbl = trigger_value trg @ '':'' @ lbl"

definition alive_count :: "opponent_state list \<Rightarrow> nat" where
  "alive_count os = length (filter alive os)"

definition triggers_to_check ::
  "string list \<Rightarrow> string \<Rightarrow> opponent_state list \<Rightarrow> opponent_state list \<Rightarrow> bool \<Rightarrow> morale_trigger list" where
  "triggers_to_check events lbl pre post killed_was_leader =
     (let pre_alive = alive_count pre; post_alive = alive_count post; n = length pre in
      (if pre_alive = n \<and> post_alive < n \<and> event_key FirstBlood lbl \<notin> set events then [FirstBlood] else []) @
      (if post_alive \<le> n div 2 \<and> n div 2 < pre_alive \<and> event_key HalfKilled lbl \<notin> set events then [HalfKilled] else []) @
      (if killed_was_leader then [LeaderKilled] else []))"

fun fire_triggers ::
  "morale_def option \<Rightarrow> string \<Rightarrow> opponent_state list \<Rightarrow> morale_trigger list
   \<Rightarrow> (encounter \<times> rng, (morale_trigger \<times> morale_outcome) list) sm" where
  "fire_triggers md lbl post [] w = (Inr [], w)"
| "fire_triggers md lbl post (trg # ts) w =
     (case maybe_check_morale md post trg (snd w) of
        (Inl err, g) \<Rightarrow> (Inl err, (fst w, g))
      | (Inr out, g) \<Rightarrow>
          (case fire_triggers md lbl post ts ((fst w)\<lparr>morale_events := morale_events (fst w) @ [event_key trg lbl]\<rparr>, g) of
             (Inl err, w') \<Rightarrow> (Inl err, w')
           | (Inr fired, w') \<Rightarrow> (Inr ((trg, out) # fired), w')))"

definition emit_morale_triggers ::
  "morale_def option \<Rightarrow> string \<Rightarrow> opponent_state list \<Rightarrow> opponent_state list \<Rightarrow> bool
   \<Rightarrow> (encounter \<times> rng, (morale_trigger \<times> morale_outcome) list) sm" where
  "emit_morale_triggers md lbl pre post killed_was_leader w =
     fire_triggers md lbl post (triggers_to_check (morale_events (fst w)) lbl pre post killed_was_leader) w"

definition end_by_morale :: "string \<Rightarrow> string \<Rightarrow> encounter \<Rightarrow> encounter" where
  "end_by_morale consequence disposition e =
     (let e1 = e\<lparr>flee_consequence_pending := Some consequence, opponents_disposition := Some disposition\<rparr>
      in if \<not> resolved e1 then e1\<lparr>resolved := True, enc_outcome := Some consequence\<rparr> else e1)"

definition apply_flee_consequences ::
  "morale_def option \<Rightarrow> (morale_trigger \<times> morale_outcome) list \<Rightarrow> (encounter, unit) sm" where
  "apply_flee_consequences md fired e =
     (if \<not> list_ex (\<lambda>(_, out). out = Flee) fired then (Inr (), e)
      else case md of
        None \<Rightarrow> (Inl (ValueError ''_apply_flee_consequences called with fired outcomes but no morale block''), e)
      | Some m \<Rightarrow>
          (case flee_consequence m of
             Chase \<Rightarrow> (Inr (), e\<lparr>flee_consequence_pending := Some ''chase''\<rparr>)
           | Surrender \<Rightarrow> (Inr (), end_by_morale ''surrender'' ''surrendered'' e)
           | Rout \<Rightarrow> (Inr (), end_by_morale ''rout'' ''routed'' e)))"

section \<open>Facts\<close>

lemma check_morale_ok: "ok (maybe_check_morale md os trg) (\<lambda>_. True)"
  unfolding maybe_check_morale_def
  by (auto split: option.splits intro!: ok_ret ok_if ok_sbind[OF randint_ok])

lemma check_morale_Flee:
  "fst (maybe_check_morale md os trg g) = Inr Flee \<Longrightarrow>
   \<exists>m. md = Some m \<and> trg \<in> set (triggers m) \<and> (\<exists>o' \<in> set os. alive o' \<and> \<not> mindless o') \<and> score m < 12"
proof -
  assume f: "fst (maybe_check_morale md os trg g) = Inr Flee"
  then obtain m where m: "md = Some m" "trg \<in> set (triggers m)" "filter (\<lambda>o'. alive o' \<and> \<not> mindless o') os \<noteq> []"
    by (auto simp: maybe_check_morale_def ret_def split: option.splits if_splits)
  have "ok (maybe_check_morale md os trg) (\<lambda>out. out = Flee \<longrightarrow> score m < 12)"
    using m unfolding maybe_check_morale_def
    by (auto intro!: ok_ret ok_sbind[OF randint_ok] split: if_splits)
  then have "score m < 12" using f by (auto dest!: ok_result[where s = g])
  then show ?thesis using m by (auto simp: filter_empty_conv)
qed

lemma fire_triggers_returns:
  "\<exists>fired e' g. fire_triggers md lbl post ts w = (Inr fired, (e', g)) \<and> map fst fired = ts \<and>
     e' = (fst w)\<lparr>morale_events := morale_events (fst w) @ map (\<lambda>t. event_key t lbl) ts\<rparr>"
proof (induction ts arbitrary: w)
  case Nil
  show ?case by (cases w) simp
next
  case (Cons trg ts)
  obtain out g where c: "maybe_check_morale md post trg (snd w) = (Inr out, g)"
    using ok_result[OF check_morale_ok] by (metis prod.collapse)
  show ?case using c Cons.IH[of "((fst w)\<lparr>morale_events := morale_events (fst w) @ [event_key trg lbl]\<rparr>, g)"] by auto
qed

end
