(* ===== verification/Encounter_Properties.thy ===== *)
theory Encounter_Properties
  imports Beat_Laws Opposed Morale
begin

text \<open>The properties of encounters, beats, opposed checks and morale.\<close>

section \<open>A sample fight\<close>

definition ex_core :: "string \<Rightarrow> int \<Rightarrow> core" where
  "ex_core n h = \<lparr>core_name = n, description = ''d'', personality = ''p'', level = 1, xp = 0,
     core_inventory = \<lparr>items = [], gold = 0\<rparr>, statuses = [], hp = hp_pool_from_hp h, system_strain = None, effort = [],
     spellcasting = None, armor_class = 10, move = None, trauma_target_mod = 0, rig_pool = None, acquired_advancements = []\<rparr>"

definition ex_actor :: "string \<Rightarrow> actor_side \<Rightarrow> encounter_actor" where
  "ex_actor n s = \<lparr>actor_name = n, role = ''r'', side = s, withdrawn = False, display_name = None, stats = Some [(''STR'', 14)]\<rparr>"

definition ex_metric :: encounter_metric where
  "ex_metric = \<lparr>metric_name = ''edge'', metric_current = 0, starting = 0, threshold = 3\<rparr>"

definition ex_enc :: "win_condition \<Rightarrow> encounter" where
  "ex_enc wc = \<lparr>encounter_type = ''brawl'', win_condition = wc, player_metric = ex_metric, opponent_metric = ex_metric, beat = 0,
     structured_phase = None, actors = [ex_actor ''Rux'' Player, ex_actor ''Orc'' Opponent, ex_actor ''Imp'' Opponent],
     pending_compels = [], tags = [], enc_outcome = None, resolved = False, morale_events = [], flee_consequence_pending = None,
     opponents_disposition = None, taunt = no_taunt, last_beat_impacts = []\<rparr>"

definition ex_cores :: cores where
  "ex_cores = [(''Rux'', ex_core ''Rux'' 9), (''Orc'', ex_core ''Orc'' 5), (''Imp'', ex_core ''Imp'' 2)]"

definition ex_beat :: beat_def where
  "ex_beat = \<lparr>beat_id = ''slash'', kind = Strike, base = 3, deltas = None, target_tag = None, stat_check = Some ''str'', beat_resolution = None,
     edge_delta = None, target_edge_delta = None, target_select = None, channel = StrikeChannel, mitigation_override = None\<rparr>"

lemma ex_scene_ok: "enc_ok (ex_enc wc)" "cores_ok ex_cores"
  by (cases wc; code_simp) code_simp

section \<open>Beats\<close>

text \<open>
  A beat reports exactly what it did. A skipped beat (encounter over, neutral or withdrawn actor,
  Fate conflict) changes nothing. A beat that returns advances the beat counter by one; its
  \<open>resolved\<close> flag is true exactly when the encounter is over afterwards, and then an outcome is recorded
  and the phase is the resolution; otherwise the outcome is untouched, both dials are below their
  thresholds, and under hit-point depletion neither side is down.
\<close>
theorem beat_reports_resolution:
  assumes "apply_beat a b out turn (Some res) damage (e, cs) = (Inr r, (e', cs'))" and "\<not> resolved e"
    and "enc_ok e" and "cores_ok cs"
  shows "if skipped_reason r \<noteq> None then (e', cs') = (e, cs)
    else beat e' = beat e + 1 \<and> result_resolved r = resolved e' \<and>
      (if resolved e' then enc_outcome e' \<noteq> None \<and> structured_phase e' = Some Resolution
       else enc_outcome e' = enc_outcome e \<and>
         (if win_condition e = HpDepletion then \<not> side_down res cs' Player e \<and> \<not> side_down res cs' Opponent e
          else metric_current (player_metric e') < threshold (player_metric e) \<and>
               metric_current (opponent_metric e') < threshold (opponent_metric e)))"
proof (cases rule: apply_beat_cases[OF assms(3,4), of a b out turn "Some res" damage])
  case (1 why)
  then show ?thesis using assms(1) by (simp add: skip_beat_def)
next
  case (2 err w)
  then show ?thesis using assms(1) by simp
next
  case (3 d brk lost w1)
  have "beat_ends a b out (Some res) d (describe_beat_impact d (win_condition e = HpDepletion) 0) brk lost w1 = (Inr r, (e', cs'))"
    using 3(4) assms(1) by simp
  note f = beat_ends_facts[OF 3(3) this assms(2)]
  show ?thesis using f(2-7) f(8)[of res] by simp
qed

theorem beat_reports_resolution_witness:
  "\<exists>r e' cs'. apply_beat (ex_actor ''Rux'' Player) ex_beat Success 1 (Some Some) (Some 2) (ex_enc DialThreshold, ex_cores) = (Inr r, (e', cs')) \<and>
     beat e' = 1 \<and> resolved e' \<and> enc_outcome e' = Some ''player_victory''"
proof -
  let ?w = "apply_beat (ex_actor ''Rux'' Player) ex_beat Success 1 (Some Some) (Some 2) (ex_enc DialThreshold, ex_cores)"
  let ?r = "projr (fst ?w)" and ?e = "fst (snd ?w)" and ?cs = "snd (snd ?w)"
  have run: "?w = (Inr ?r, (?e, ?cs))" by code_simp
  have o: "\<not> resolved (ex_enc DialThreshold)" by code_simp
  have f: "skipped_reason ?r = None" "resolved ?e" "enc_outcome ?e = Some ''player_victory''" by code_simp+
  have "beat (ex_enc DialThreshold) = 0" by code_simp
  then have "beat ?e = 1" using beat_reports_resolution[OF run o ex_scene_ok] f by simp
  then show ?thesis using run f by blast
qed



text \<open>
  One downed fighter is not a lost fight. The hit-point check ends an open encounter exactly when
  some side has at least one seated, resolvable, not withdrawn fighter and all of them are at zero; the
  outcome names the other side, or mutual destruction; and a side with a fighter standing is never
  declared beaten.
\<close>
theorem hp_depletion_needs_whole_side:
  assumes "\<not> resolved e"
  shows "(fst (check_hp_depletion res cs e) \<noteq> None \<longleftrightarrow> side_down res cs Player e \<or> side_down res cs Opponent e) \<and>
    (enc_outcome (snd (check_hp_depletion res cs e)) = Some ''opponent_victory'' \<and> enc_outcome e = None \<longrightarrow>
       side_down res cs Player e \<and> \<not> side_down res cs Opponent e) \<and>
    (\<forall>a \<in> set (actors e). \<forall>c. side a = Player \<and> \<not> withdrawn a \<and> resolve_core res cs (actor_name a) = Some c \<and> 0 < hp_current (hp c)
       \<longrightarrow> \<not> side_down res cs Player e)"
  using assms
  by (auto simp: check_hp_depletion_cases Let_def dest: standing_not_down split: if_splits)

theorem hp_depletion_needs_whole_side_witness:
  "fst (check_hp_depletion Some [(''Rux'', ex_core ''Rux'' 9), (''Orc'', (ex_core ''Orc'' 5)\<lparr>hp := \<lparr>hp_current = 0, hp_max = 5, hp_base_max = 5\<rparr>\<rparr>), (''Imp'', ex_core ''Imp'' 2)] (ex_enc HpDepletion)) = None \<and>
   \<not> side_down Some [(''Rux'', ex_core ''Rux'' 9), (''Orc'', (ex_core ''Orc'' 5)\<lparr>hp := \<lparr>hp_current = 0, hp_max = 5, hp_base_max = 5\<rparr>\<rparr>), (''Imp'', ex_core ''Imp'' 2)] Opponent (ex_enc HpDepletion)"
proof -
  let ?cs = "[(''Rux'', ex_core ''Rux'' 9), (''Orc'', (ex_core ''Orc'' 5)\<lparr>hp := \<lparr>hp_current = 0, hp_max = 5, hp_base_max = 5\<rparr>\<rparr>), (''Imp'', ex_core ''Imp'' 2)]"
  have o: "\<not> resolved (ex_enc HpDepletion)" by code_simp
  have n: "fst (check_hp_depletion Some ?cs (ex_enc HpDepletion)) = None" by code_simp
  from hp_depletion_needs_whole_side[OF o, of Some ?cs] n show ?thesis by blast
qed

text \<open>
  The readout of a beat speaks of the nominal move, not of the clamped one: a failed push by an
  actor whose dial is at zero is shown as a setback of one with a moved dial, while the dial stays at
  zero.
\<close>
theorem impact_shows_nominal_dial_move:
  assumes "skip_reason a e = None" and "side a = Player" and "win_condition e = DialThreshold"
    and "metric_current (player_metric e) = 0" and "kind b = Push" and "deltas b = None"
    and "edge_delta b = None" and "target_edge_delta b = None" and "channel b = NoChannel"
  shows "\<exists>r e'. apply_beat a b CritFail turn eres damage (e, cs) = (Inr r, (e', cs)) \<and>
    metric_current (player_metric e') = 0 \<and>
    (\<exists>i. impact r = Some i \<and> effect i = Setback \<and> dial_moved i \<and> impact_own i = - 1)"
proof -
  let ?d = "\<lparr>own = - 1, opponent = 0, grants_tag = None, tag_leverage = 0, grants_fleeting_tag = None, tag_backfire = False, delta_resolution = False\<rparr>"
  have d: "beat_deltas b CritFail = Inr ?d"
    using assms(5,6) by (simp add: beat_deltas_def normalize_overrides_def resolve_tier_deltas_def dial_delta_def get_or_def empty_rule_def Let_def)
  let ?i = "describe_beat_impact ?d False 0"
  let ?e1 = "move_dials Player ?d (stamp_impact Player ?i e)"
  have run: "apply_beat a b CritFail turn eres damage (e, cs) = beat_ends a b CritFail eres ?d ?i None 0 (?e1, cs)"
    using assms d
    by (simp add: apply_beat_run beat_body_def beat_ends_def settle_verdict grant_tags_def edge_debits_def strike_damage_def get_or_def truthy_def
        sm_defs on_enc_def Let_def split: option.splits)
  have "metric_current (player_metric ?e1) = 0"
    using assms(3,4) by (simp add: move_dials_def stamp_impact_def advance_metric_def)
  then have "metric_current (player_metric (advance_beat a b CritFail ?e1)) = 0" by (simp add: advance_beat_def Let_def)
  then show ?thesis unfolding run
    by (auto simp: beat_ends_def Let_def describe_beat_impact_def split: option.splits)
qed

theorem impact_shows_nominal_dial_move_witness:
  "\<exists>r e'. apply_beat (ex_actor ''Rux'' Player) (ex_beat\<lparr>kind := Push, channel := NoChannel\<rparr>) CritFail 1 None None (ex_enc DialThreshold, ex_cores) = (Inr r, (e', ex_cores)) \<and>
    metric_current (player_metric e') = 0 \<and> (\<exists>i. impact r = Some i \<and> effect i = Setback \<and> dial_moved i \<and> impact_own i = - 1)"
proof (rule impact_shows_nominal_dial_move)
  show "skip_reason (ex_actor ''Rux'' Player) (ex_enc DialThreshold) = None" by code_simp
qed (simp_all add: ex_actor_def ex_enc_def ex_beat_def ex_metric_def)

section \<open>Opposed checks\<close>

lemma opposed_check_run:
  assumes "resolve_opposed_check pa oa pb ob ds p q enc eres None = Inr r"
  obtains m n adv where "resolve_opponent_modifier pa ds (stat_check pb) = Inr m" "resolve_opponent_modifier oa ds (stat_check ob) = Inr n"
    "d20_face p" "d20_face q" "adv = (\<lambda>a. case (eres, enc) of (Some (res, cs), Some e) \<Rightarrow> numerical_advantage_for res cs a e | _ \<Rightarrow> 0)"
    "shift r = (p + m + adv pa) - (q + n + adv oa)" "tier r = tier_from_shift (shift r)"
  using assms by (auto simp: resolve_opposed_check_def get_or_def Let_def rbind_Inr_iff split: if_splits)

lemma opposed_check_returns:
  assumes "resolve_opponent_modifier pa ds (stat_check pb) = Inr m" "resolve_opponent_modifier oa ds (stat_check ob) = Inr n"
    "d20_face p" "d20_face q" "adv = (\<lambda>a. case (eres, enc) of (Some (res, cs), Some e) \<Rightarrow> numerical_advantage_for res cs a e | _ \<Rightarrow> 0)"
  shows "\<exists>r. resolve_opposed_check pa oa pb ob ds p q enc eres None = Inr r \<and>
    shift r = (p + m + adv pa) - (q + n + adv oa) \<and> tier r = tier_from_shift (shift r)"
  using assms by (simp add: resolve_opposed_check_def get_or_def Let_def)

text \<open>
  An opposed check is fair: it returns a real tier, exchanging the two sides gives the opposite
  shift and the mirrored tier, and a better face for the player never gives a worse tier.
\<close>
theorem opposed_check_is_fair:
  assumes "resolve_opposed_check pa oa pb ob ds p q enc eres None = Inr r" and "p \<le> p'" and "p' \<le> 20"
  shows "tier r \<noteq> UnknownOutcome \<and>
    (\<exists>r'. resolve_opposed_check oa pa ob pb ds q p enc eres None = Inr r' \<and> shift r' = - shift r \<and> tier r' = mirror (tier r)) \<and>
    (\<exists>r2. resolve_opposed_check pa oa pb ob ds p' q enc eres None = Inr r2 \<and> outcome_rank (tier r) \<le> outcome_rank (tier r2))"
proof -
  obtain m n adv where f: "resolve_opponent_modifier pa ds (stat_check pb) = Inr m" "resolve_opponent_modifier oa ds (stat_check ob) = Inr n"
    "d20_face p" "d20_face q" "adv = (\<lambda>a. case (eres, enc) of (Some (res, cs), Some e) \<Rightarrow> numerical_advantage_for res cs a e | _ \<Rightarrow> 0)"
    "shift r = (p + m + adv pa) - (q + n + adv oa)" "tier r = tier_from_shift (shift r)"
    using opposed_check_run[OF assms(1)] by blast
  have p': "d20_face p'" using f(3) assms(2,3) by (simp add: d20_face_def)
  obtain r' where r': "resolve_opposed_check oa pa ob pb ds q p enc eres None = Inr r'" "shift r' = (q + n + adv oa) - (p + m + adv pa)"
      "tier r' = tier_from_shift (shift r')"
    using opposed_check_returns[OF f(2,1,4,3,5)] by blast
  obtain r2 where r2: "resolve_opposed_check pa oa pb ob ds p' q enc eres None = Inr r2" "shift r2 = (p' + m + adv pa) - (q + n + adv oa)"
      "tier r2 = tier_from_shift (shift r2)"
    using opposed_check_returns[OF f(1,2) p' f(4,5)] by blast
  have s': "shift r' = - shift r" using r'(2) f(6) by simp
  have "tier r' = mirror (tier r)" unfolding r'(3) f(7) s' by (rule tier_mirror)
  moreover have "shift r \<le> shift r2" using f(6) r2(2) assms(2) by simp
  then have "outcome_rank (tier r) \<le> outcome_rank (tier r2)" unfolding f(7) r2(3) by (rule tier_mono)
  moreover have "tier r \<noteq> UnknownOutcome" unfolding f(7) by (simp add: tier_from_shift_def)
  ultimately show ?thesis using r'(1) s' r2(1) by blast
qed

theorem opposed_check_is_fair_witness:
  "\<exists>r. resolve_opposed_check (ex_actor ''Rux'' Player) (ex_actor ''Orc'' Opponent) ex_beat ex_beat None 12 9 (Some (ex_enc DialThreshold)) (Some (Some, ex_cores)) None = Inr r \<and>
     tier r = Success \<and> tier r \<noteq> UnknownOutcome"
proof -
  let ?x = "resolve_opposed_check (ex_actor ''Rux'' Player) (ex_actor ''Orc'' Opponent) ex_beat ex_beat None 12 9 (Some (ex_enc DialThreshold)) (Some (Some, ex_cores)) None"
  have r: "?x = Inr (projr ?x)" by code_simp
  have "tier (projr ?x) = Success" by code_simp
  then show ?thesis using opposed_check_is_fair[OF r, of 15] r by auto
qed

section \<open>Morale\<close>

type_synonym kill = "opponent_state list \<times> opponent_state list \<times> bool"

fun morale_run :: "morale_def option \<Rightarrow> string \<Rightarrow> kill list \<Rightarrow> encounter \<times> rng \<Rightarrow> (morale_trigger \<times> morale_outcome) list res" where
  "morale_run md lbl [] w = Inr []"
| "morale_run md lbl ((pre, post, leader) # ks) w =
     (case emit_morale_triggers md lbl pre post leader w of
        (Inl err, w') \<Rightarrow> Inl err
      | (Inr fired, w') \<Rightarrow> rbind (morale_run md lbl ks w') (\<lambda>rest. Inr (fired @ rest)))"

definition fired_times :: "morale_trigger \<Rightarrow> (morale_trigger \<times> morale_outcome) list \<Rightarrow> nat" where
  "fired_times t fs = length (filter (\<lambda>f. fst f = t) fs)"

lemma fired_times_map: "fired_times t fs = count_list (map fst fs) t"
  unfolding fired_times_def by (induction fs) auto

lemma triggers_once:
  "count_list (triggers_to_check ev lbl pre post leader) FirstBlood \<le> (if event_key FirstBlood lbl \<in> set ev then 0 else 1)"
  "count_list (triggers_to_check ev lbl pre post leader) HalfKilled \<le> (if event_key HalfKilled lbl \<in> set ev then 0 else 1)"
  by (auto simp: triggers_to_check_def Let_def)

lemma morale_run_once:
  assumes "t = FirstBlood \<or> t = HalfKilled"
  shows "\<exists>fs. morale_run md lbl ks w = Inr fs \<and> fired_times t fs \<le> (if event_key t lbl \<in> set (morale_events (fst w)) then 0 else 1)"
proof (induction ks arbitrary: w)
  case Nil
  then show ?case by (simp add: fired_times_def)
next
  case (Cons k ks)
  obtain pre post leader where k: "k = (pre, post, leader)" by (cases k) auto
  let ?ts = "triggers_to_check (morale_events (fst w)) lbl pre post leader"
  obtain fired e' g where f: "emit_morale_triggers md lbl pre post leader w = (Inr fired, (e', g))" "map fst fired = ?ts"
      "morale_events e' = morale_events (fst w) @ map (\<lambda>t. event_key t lbl) ?ts"
    using fire_triggers_returns[of md lbl post ?ts w] by (auto simp: emit_morale_triggers_def)
  obtain fs where fs: "morale_run md lbl ks (e', g) = Inr fs"
      "fired_times t fs \<le> (if event_key t lbl \<in> set (morale_events e') then 0 else 1)"
    using Cons.IH[of "(e', g)"] by auto
  have "morale_run md lbl (k # ks) w = Inr (fired @ fs)" using k f(1) fs(1) by simp
  moreover have "fired_times t (fired @ fs) = count_list ?ts t + fired_times t fs"
    unfolding fired_times_map by (simp add: f(2))
  moreover have "count_list ?ts t \<le> (if event_key t lbl \<in> set (morale_events (fst w)) then 0 else 1)"
    using triggers_once assms by blast
  moreover have "t \<in> set ?ts \<Longrightarrow> event_key t lbl \<in> set (morale_events e')" using f(3) by auto
  moreover have "event_key t lbl \<in> set (morale_events (fst w)) \<Longrightarrow> event_key t lbl \<in> set (morale_events e')" using f(3) by simp
  moreover have "t \<notin> set ?ts \<Longrightarrow> count_list ?ts t = 0" by (simp add: count_list_0_iff)
  ultimately show ?case using fs(2) by (cases "t \<in> set ?ts") (auto split: if_splits)
qed

text \<open>
  Losses are counted once: through any sequence of kills on a side, whatever the rolls, the check
  never raises and the first-blood and the half-killed morale checks are each made at most once.
\<close>
theorem morale_triggers_fire_once:
  "\<exists>fs. morale_run md lbl kills w = Inr fs \<and> fired_times FirstBlood fs \<le> 1 \<and> fired_times HalfKilled fs \<le> 1"
proof -
  have a: "(if b then 0 else 1) \<le> (1::nat)" for b by simp
  obtain fs where "morale_run md lbl kills w = Inr fs" "fired_times FirstBlood fs \<le> 1"
    using morale_run_once[of FirstBlood md lbl kills w] order_trans[OF _ a] by blast
  moreover obtain fs' where "morale_run md lbl kills w = Inr fs'" "fired_times HalfKilled fs' \<le> 1"
    using morale_run_once[of HalfKilled md lbl kills w] order_trans[OF _ a] by blast
  ultimately show ?thesis by auto
qed

text \<open>
  A side that breaks hands the players their victory: when a check came up flee and the pack says
  surrender or rout, an open encounter ends with that label, which counts as a player victory by a
  yielding opponent, and a seated opponent side is seen to have yielded; an encounter that was already
  over keeps its outcome.
\<close>
theorem broken_side_yields:
  assumes "list_ex (\<lambda>(_, out). out = Flee) fired" and "flee_consequence m \<noteq> Chase"
  shows "\<exists>e' out. apply_flee_consequences (Some m) fired e = (Inr (), e') \<and> resolved e' \<and>
    enc_outcome e' = (if resolved e then enc_outcome e else Some out) \<and>
    is_player_victory out \<and> yield_side_for out = Some Opponent \<and>
    (list_ex (\<lambda>a. side a = Opponent) (actors e) \<longrightarrow> opponent_yield_outcome e' = Some ''opponent_yielded'')"
proof -
  have "opponent_yield_outcome (end_by_morale c d e) = Some ''opponent_yielded''"
    if "d = ''surrendered'' \<or> d = ''routed''" "list_ex (\<lambda>a. side a = Opponent) (actors e)" for c d
    using that by (auto simp: opponent_yield_outcome_def end_by_morale_def Let_def list_ex_iff filter_empty_conv)
  moreover have "resolved (end_by_morale c d e)" "enc_outcome (end_by_morale c d e) = (if resolved e then enc_outcome e else Some c)" for c d
    by (simp_all add: end_by_morale_def Let_def)
  ultimately show ?thesis
    using assms by (cases "flee_consequence m") (auto simp: apply_flee_consequences_def is_player_victory_def yield_side_for_def)
qed

theorem broken_side_yields_witness:
  "\<exists>e' out. apply_flee_consequences (Some \<lparr>score = 7, triggers = [FirstBlood], flee_consequence = Rout\<rparr>) [(FirstBlood, Flee)] (ex_enc DialThreshold) = (Inr (), e') \<and>
     resolved e' \<and> enc_outcome e' = Some out \<and> is_player_victory out \<and> opponent_yield_outcome e' = Some ''opponent_yielded''"
proof -
  let ?m = "\<lparr>score = 7, triggers = [FirstBlood], flee_consequence = Rout\<rparr>"
  have h: "list_ex (\<lambda>(_, out). out = Flee) [(FirstBlood, Flee)]" "flee_consequence ?m \<noteq> Chase" by simp_all
  have e: "\<not> resolved (ex_enc DialThreshold)" "list_ex (\<lambda>a. side a = Opponent) (actors (ex_enc DialThreshold))" by code_simp+
  obtain e' out where "apply_flee_consequences (Some ?m) [(FirstBlood, Flee)] (ex_enc DialThreshold) = (Inr (), e')" "resolved e'"
     "enc_outcome e' = Some out" "is_player_victory out" "opponent_yield_outcome e' = Some ''opponent_yielded''"
    using broken_side_yields[OF h, of "ex_enc DialThreshold"] e by auto
  then show ?thesis by blast
qed

end
