(* ===== verification/Tactical_Grid.thy ===== *)
theory Tactical_Grid
  imports Prelude
begin

text \<open>
  Tactical-grid adjudication over an ASCII mask (src/sidequest/game/tactical/adjudication.py): floor
  tests, king-move neighbours, the movement flood, path costs and verdicts, rays, line of sight, reach
  and area templates. The flood is a label-correcting loop on a cost dictionary and a frontier that is
  sorted before each pop; it terminates because every round records a new floor cell, lowers a cost or
  shortens the frontier. The ray walk is a partial function, proved to return for all end points.
\<close>

section \<open>The mask\<close>

type_synonym cell = "int \<times> int"
type_synonym mask_rows = "string list"

definition FLOOR_CHAR :: char where "FLOOR_CHAR = CHR ''.''"
definition WALL_CHAR :: char where "WALL_CHAR = CHR ''#''"

fun parse_mask :: "string \<Rightarrow> mask_rows" where
  "parse_mask [] = [[]]"
| "parse_mask (c # cs) =
     (if c = CHR 0x0A then [] # parse_mask cs
      else case parse_mask cs of [] \<Rightarrow> [[c]] | r # rs \<Rightarrow> (c # r) # rs)"

definition in_bounds :: "mask_rows \<Rightarrow> cell \<Rightarrow> bool" where
  "in_bounds rows c = (case c of (x, y) \<Rightarrow>
     0 \<le> y \<and> y < int (length rows) \<and> 0 \<le> x \<and> x < int (length (rows ! nat y)))"

definition is_floor :: "mask_rows \<Rightarrow> cell \<Rightarrow> bool" where
  "is_floor rows c = (if \<not> in_bounds rows c then False else case c of (x, y) \<Rightarrow> rows ! nat y ! nat x = FLOOR_CHAR)"

definition chebyshev_distance :: "cell \<Rightarrow> cell \<Rightarrow> int" where
  "chebyshev_distance a b = max \<bar>fst a - fst b\<bar> \<bar>snd a - snd b\<bar>"

definition STEPS :: "cell list" where
  "STEPS = [(1, 0), (-1, 0), (0, 1), (0, -1), (1, 1), (1, -1), (-1, 1), (-1, -1)]"

definition neighbors :: "mask_rows \<Rightarrow> cell \<Rightarrow> cell list" where
  "neighbors rows c = filter (is_floor rows) (map (\<lambda>s. (fst c + fst s, snd c + snd s)) STEPS)"

text \<open>All floor cells in scan order, row by row.\<close>

definition floor_cells :: "mask_rows \<Rightarrow> cell list" where
  "floor_cells rows = concat (map (\<lambda>y. map (\<lambda>x. (int x, int y)) (filter (\<lambda>x. rows ! y ! x = FLOOR_CHAR) [0..<length (rows ! y)]))
     [0..<length rows])"

lemma floor_cells_iff: "c \<in> set (floor_cells rows) \<longleftrightarrow> is_floor rows c"
proof (cases c)
  case (Pair x y)
  show ?thesis
  proof
    assume "is_floor rows c"
    then have *: "0 \<le> y" "y < int (length rows)" "0 \<le> x" "x < int (length (rows ! nat y))" "rows ! nat y ! nat x = FLOOR_CHAR"
      by (auto simp: Pair is_floor_def in_bounds_def split: if_splits)
    have "(int (nat x), int (nat y)) \<in> set (floor_cells rows)"
      unfolding floor_cells_def using * by (auto intro!: bexI[of _ "nat y"] image_eqI[of _ _ "nat x"] simp: nat_less_iff)
    then show "c \<in> set (floor_cells rows)" using * Pair by simp
  qed (auto simp: Pair floor_cells_def is_floor_def in_bounds_def)
qed

lemma finite_floor: "finite {c. is_floor rows c}"
proof -
  have "{c. is_floor rows c} = set (floor_cells rows)" using floor_cells_iff[of _ rows] by blast
  then show ?thesis by simp
qed

lemma cheb_sym: "chebyshev_distance a b = chebyshev_distance b a"
  by (simp add: chebyshev_distance_def abs_minus_commute)

lemma cheb_zero: "chebyshev_distance a b = 0 \<longleftrightarrow> a = b"
  by (cases a; cases b) (auto simp: chebyshev_distance_def)

lemma cheb_nonneg [simp]: "0 \<le> chebyshev_distance a b"
  by (simp add: chebyshev_distance_def le_max_iff_disj)

lemma king_step: "max \<bar>a\<bar> \<bar>b\<bar> = (1::int) \<longleftrightarrow> (a, b) \<in> set STEPS"
proof -
  have "max \<bar>a\<bar> \<bar>b\<bar> = 1 \<longleftrightarrow> (a = 1 \<or> a = -1 \<or> a = 0) \<and> (b = 1 \<or> b = -1 \<or> b = 0) \<and> \<not> (a = 0 \<and> b = 0)"
    unfolding max_def abs_if by presburger
  then show ?thesis by (auto simp: STEPS_def)
qed

lemma neighbors_iff: "n \<in> set (neighbors rows c) \<longleftrightarrow> is_floor rows n \<and> chebyshev_distance c n = 1"
proof -
  have "n \<in> (\<lambda>s. (fst c + fst s, snd c + snd s)) ` set STEPS \<longleftrightarrow> (fst n - fst c, snd n - snd c) \<in> set STEPS"
    by (cases n) (force simp: image_iff)
  then show ?thesis unfolding cheb_sym[of c n] unfolding chebyshev_distance_def king_step by (auto simp: neighbors_def)
qed

section \<open>The movement flood\<close>

definition enter_cost :: "cell set \<Rightarrow> cell \<Rightarrow> nat" where
  "enter_cost difficult n = (if n \<in> difficult then 2 else 1)"

fun relax_cells ::
  "cell set \<Rightarrow> int \<Rightarrow> nat \<Rightarrow> cell list \<Rightarrow> (cell \<times> nat) list \<Rightarrow> cell list \<Rightarrow> (cell \<times> nat) list \<times> cell list" where
  "relax_cells difficult budget cur_cost [] cost frontier = (cost, frontier)"
| "relax_cells difficult budget cur_cost (n # ns) cost frontier =
     (let nc = cur_cost + enter_cost difficult n in
      if \<not> dict_has cost n \<or> nc < dict_get cost n 0
      then relax_cells difficult budget cur_cost ns (AList.update n nc cost) (if int nc \<le> budget then frontier @ [n] else frontier)
      else relax_cells difficult budget cur_cost ns cost frontier)"

text \<open>What one round can do to the cost dictionary, for the termination order.\<close>

definition unrecorded :: "mask_rows \<Rightarrow> (cell \<times> nat) list \<Rightarrow> nat" where
  "unrecorded rows cost = card ({c. is_floor rows c} - fst ` set cost)"

definition cost_sum :: "mask_rows \<Rightarrow> (cell \<times> nat) list \<Rightarrow> nat" where
  "cost_sum rows cost = (\<Sum>c | is_floor rows c. dict_get cost c 0)"

lemma unrecorded_update:
  assumes "is_floor rows n" "n \<notin> fst ` set cost"
  shows "unrecorded rows (AList.update n v cost) < unrecorded rows cost"
proof -
  have "{c. is_floor rows c} - fst ` set (AList.update n v cost) \<subset> {c. is_floor rows c} - fst ` set cost"
    using assms by (auto simp: dom_update)
  then show ?thesis unfolding unrecorded_def by (intro psubset_card_mono) (simp add: finite_floor)
qed

lemma cost_sum_update:
  assumes "is_floor rows n" "v < dict_get cost n 0"
  shows "cost_sum rows (AList.update n v cost) < cost_sum rows cost"
proof -
  have "\<exists>c \<in> {c. is_floor rows c}. dict_get (AList.update n v cost) c 0 < dict_get cost c 0"
    using assms by (intro bexI[of _ n]) (simp_all add: dict_get_update)
  then show ?thesis unfolding cost_sum_def
    by (intro sum_strict_mono_ex1) (use assms in \<open>auto simp: finite_floor dict_get_update\<close>)
qed

lemma relax_cells_measure:
  assumes "\<And>n. n \<in> set ns \<Longrightarrow> is_floor rows n" "relax_cells difficult budget k ns cost fr = (cost', fr')"
  shows "unrecorded rows cost' < unrecorded rows cost \<or>
    unrecorded rows cost' = unrecorded rows cost \<and> cost_sum rows cost' < cost_sum rows cost \<or>
    cost' = cost \<and> fr' = fr"
  using assms
proof (induction ns arbitrary: cost fr)
  case (Cons n ns)
  define nc where "nc = k + enter_cost difficult n"
  show ?case
  proof (cases "\<not> dict_has cost n \<or> nc < dict_get cost n 0")
    case True
    define c1 where "c1 = AList.update n nc cost"
    have 1: "unrecorded rows c1 < unrecorded rows cost \<or>
        unrecorded rows c1 = unrecorded rows cost \<and> cost_sum rows c1 < cost_sum rows cost"
    proof (cases "n \<in> fst ` set cost")
      case rec: True
      then have "unrecorded rows c1 = unrecorded rows cost" unfolding unrecorded_def c1_def
        by (simp add: dom_update insert_absorb)
      then show ?thesis using cost_sum_update[of rows n nc cost] Cons.prems(1) True rec by (auto simp: c1_def)
    next
      case False
      then show ?thesis using unrecorded_update[of rows n cost nc] Cons.prems(1) by (simp add: c1_def)
    qed
    have "relax_cells difficult budget k ns c1 (if int nc \<le> budget then fr @ [n] else fr) = (cost', fr')"
      using Cons.prems(2) True by (simp add: c1_def nc_def Let_def)
    from Cons.IH[OF Cons.prems(1) this] 1 show ?thesis by auto
  next
    case False
    then show ?thesis using Cons by (simp add: nc_def Let_def)
  qed
qed simp

function flood_loop ::
  "mask_rows \<Rightarrow> cell set \<Rightarrow> int \<Rightarrow> (cell \<times> nat) list \<Rightarrow> cell list \<Rightarrow> (cell \<times> nat) list" where
  "flood_loop rows difficult budget cost frontier =
     (case sort_key (\<lambda>c. dict_get cost c 0) frontier of
        [] \<Rightarrow> cost
      | cur # rest \<Rightarrow>
          (case relax_cells difficult budget (dict_get cost cur 0) (neighbors rows cur) cost rest of
             (cost', frontier') \<Rightarrow> flood_loop rows difficult budget cost' frontier'))"
  by pat_completeness auto
termination
proof (relation "measures [\<lambda>(rows, d, b, cost, fr). unrecorded rows cost, \<lambda>(rows, d, b, cost, fr). cost_sum rows cost,
    \<lambda>(rows, d, b, cost, fr). length fr]", goal_cases)
  case (2 rows difficult budget cost frontier cur rest cost' frontier')
  have "length frontier = Suc (length rest)" using arg_cong[OF 2(1), of length] by simp
  moreover have "relax_cells difficult budget (dict_get cost cur 0) (neighbors rows cur) cost rest = (cost', frontier')"
    using 2(2) by simp
  ultimately show ?case
    using relax_cells_measure[of "neighbors rows cur" rows difficult budget "dict_get cost cur 0" cost rest cost' frontier']
    by (auto simp: neighbors_iff)
qed simp

declare flood_loop.simps [simp del]

record reach_result =
  reachable :: "cell set"
  reach_cost :: "(cell \<times> nat) list"

definition cells_reachable :: "cell \<Rightarrow> int \<Rightarrow> string \<Rightarrow> cell set \<Rightarrow> reach_result" where
  "cells_reachable origin budget msk difficult =
     (let rows = parse_mask msk in
      if budget \<le> 0 \<or> \<not> is_floor rows origin then \<lparr>reachable = {}, reach_cost = []\<rparr>
      else let cost = flood_loop rows difficult budget [(origin, 0)] [origin] in
        \<lparr>reachable = set (filter (\<lambda>c. c \<noteq> origin \<and> int (dict_get cost c 0) \<le> budget) (map fst cost)), reach_cost = cost\<rparr>)"

section \<open>Paths and verdicts\<close>

fun walk_cost :: "mask_rows \<Rightarrow> cell set \<Rightarrow> nat \<Rightarrow> cell list \<Rightarrow> nat option" where
  "walk_cost rows difficult tot (a # b # rest) =
     (if \<not> is_floor rows a \<or> \<not> is_floor rows b then None
      else if chebyshev_distance a b \<noteq> 1 then None
      else walk_cost rows difficult (tot + enter_cost difficult b) (b # rest))"
| "walk_cost rows difficult tot [a] = Some tot"
| "walk_cost rows difficult tot [] = Some tot"

definition movement_cost :: "cell list \<Rightarrow> string \<Rightarrow> cell set \<Rightarrow> nat option" where
  "movement_cost path msk difficult =
     (let rows = parse_mask msk in
      case path of [] \<Rightarrow> None
      | [p] \<Rightarrow> if is_floor rows p then Some 0 else None
      | _ \<Rightarrow> walk_cost rows difficult 0 path)"

record move_adjudication =
  valid :: bool
  cells_spent :: nat
  cells_budget :: int
  move_reason :: string

definition adjudicate_move :: "cell \<Rightarrow> cell list \<Rightarrow> int \<Rightarrow> string \<Rightarrow> cell set \<Rightarrow> move_adjudication" where
  "adjudicate_move origin path budget_cells msk difficult =
     (if path = [] \<or> hd path \<noteq> origin
      then \<lparr>valid = False, cells_spent = 0, cells_budget = budget_cells, move_reason = ''move path must start at the actor's cell''\<rparr>
      else case movement_cost path msk difficult of
        None \<Rightarrow> \<lparr>valid = False, cells_spent = 0, cells_budget = budget_cells,
                 move_reason = ''illegal move path (crosses a wall or skips a cell)''\<rparr>
      | Some cost \<Rightarrow>
          if int cost > budget_cells
          then \<lparr>valid = False, cells_spent = cost, cells_budget = budget_cells,
                move_reason = ''that move is '' @ show_nat cost @ '' cells; you can move '' @ show_int budget_cells @
                  '' cell'' @ (if budget_cells \<noteq> 1 then ''s'' else []) @ '' this turn''\<rparr>
          else \<lparr>valid = True, cells_spent = cost, cells_budget = budget_cells, move_reason = []\<rparr>)"

section \<open>The flood finds exactly the cheapest walks\<close>

text \<open>Walks over floor cells with their cost: the specification of both the flood and the path cost.\<close>

inductive walk :: "mask_rows \<Rightarrow> cell set \<Rightarrow> cell \<Rightarrow> cell \<Rightarrow> nat \<Rightarrow> bool" for rows difficult origin where
  walk_start: "is_floor rows origin \<Longrightarrow> walk rows difficult origin origin 0"
| walk_step: "walk rows difficult origin c k \<Longrightarrow> is_floor rows n \<Longrightarrow> chebyshev_distance c n = 1 \<Longrightarrow>
    walk rows difficult origin n (k + enter_cost difficult n)"

lemma enter_cost_bounds: "1 \<le> enter_cost d n" "enter_cost d n \<le> 2"
  by (auto simp: enter_cost_def)

lemma walk_floor: "walk rows d s c k \<Longrightarrow> is_floor rows c"
  by (induction rule: walk.induct) auto

lemma walk_origin: "walk rows d s c k \<Longrightarrow> is_floor rows s"
  by (induction rule: walk.induct) auto

lemma walk_costs: "walk rows d s c k \<Longrightarrow> c \<noteq> s \<Longrightarrow> 1 \<le> k"
  by (erule walk.cases) (simp_all add: enter_cost_def)

text \<open>What relaxing the neighbours of one cell of cost \<open>kc\<close> does.\<close>

definition relaxed :: "mask_rows \<Rightarrow> cell set \<Rightarrow> (cell \<times> nat) list \<Rightarrow> cell \<Rightarrow> nat \<Rightarrow> bool" where
  "relaxed rows d cost c k \<longleftrightarrow> (\<forall>n \<in> set (neighbors rows c). \<exists>k'. map_of cost n = Some k' \<and> k' \<le> k + enter_cost d n)"

definition relax_post ::
  "cell set \<Rightarrow> int \<Rightarrow> nat \<Rightarrow> cell list \<Rightarrow> (cell \<times> nat) list \<Rightarrow> cell list \<Rightarrow> (cell \<times> nat) list \<Rightarrow> cell list \<Rightarrow> bool" where
  "relax_post d b kc ns cost fr cost' fr' \<longleftrightarrow>
     (\<forall>c k. map_of cost c = Some k \<longrightarrow> (\<exists>k' \<le> k. map_of cost' c = Some k')) \<and>
     (\<forall>c k. map_of cost' c = Some k \<longrightarrow> map_of cost c = Some k \<or>
        (c \<in> set ns \<and> k = kc + enter_cost d c \<and> (int k \<le> b \<longrightarrow> c \<in> set fr'))) \<and>
     set fr \<subseteq> set fr' \<and>
     (\<forall>c \<in> set fr'. c \<in> set fr \<or> (\<exists>k. map_of cost' c = Some k \<and> int k \<le> b)) \<and>
     (\<forall>n \<in> set ns. \<exists>k'. map_of cost' n = Some k' \<and> k' \<le> kc + enter_cost d n)"

lemma relax_postD:
  assumes "relax_post d b kc ns cost fr cost' fr'"
  shows "map_of cost c = Some k \<Longrightarrow> \<exists>k' \<le> k. map_of cost' c = Some k'"
    and "map_of cost' c = Some k \<Longrightarrow> map_of cost c = Some k \<or>
           (c \<in> set ns \<and> k = kc + enter_cost d c \<and> (int k \<le> b \<longrightarrow> c \<in> set fr'))"
    and "set fr \<subseteq> set fr'"
    and "c \<in> set fr' \<Longrightarrow> c \<in> set fr \<or> (\<exists>k. map_of cost' c = Some k \<and> int k \<le> b)"
    and "n \<in> set ns \<Longrightarrow> \<exists>k'. map_of cost' n = Some k' \<and> k' \<le> kc + enter_cost d n"
  using assms unfolding relax_post_def by blast+

lemma relax_post_trans:
  assumes one: "relax_post d b kc [n] cost fr cost1 fr1" and rest: "relax_post d b kc ns cost1 fr1 cost' fr'"
  shows "relax_post d b kc (n # ns) cost fr cost' fr'"
proof -
  note o = relax_postD[OF one] and r = relax_postD[OF rest]
  have "\<exists>k' \<le> k. map_of cost' c = Some k'" if "map_of cost c = Some k" for c k
    using o(1)[OF that] r(1) by (meson order_trans)
  moreover have "map_of cost c = Some k \<or> (c \<in> set (n # ns) \<and> k = kc + enter_cost d c \<and> (int k \<le> b \<longrightarrow> c \<in> set fr'))"
    if "map_of cost' c = Some k" for c k
    using r(2)[OF that] o(2)[of c k] r(3) by auto
  moreover have "c \<in> set fr \<or> (\<exists>k. map_of cost' c = Some k \<and> int k \<le> b)" if "c \<in> set fr'" for c
  proof (cases "c \<in> set fr \<or> c \<notin> set fr1")
    case False
    then obtain k where k: "map_of cost1 c = Some k" "int k \<le> b" using o(4)[of c] by blast
    with r(1)[OF k(1)] show ?thesis by auto
  qed (use r(4)[OF that] in blast)
  moreover have "\<exists>k'. map_of cost' x = Some k' \<and> k' \<le> kc + enter_cost d x" if "x \<in> set (n # ns)" for x
  proof (cases "x = n")
    case True
    then obtain k where "map_of cost1 x = Some k" "k \<le> kc + enter_cost d x" using o(5)[of n] by auto
    with r(1) show ?thesis by (meson order_trans)
  qed (use that r(5)[of x] in auto)
  ultimately show ?thesis unfolding relax_post_def using o(3) r(3) by blast
qed

lemma relax_post_one:
  assumes "relax_cells d b kc [n] cost fr = (cost', fr')"
  shows "relax_post d b kc [n] cost fr cost' fr'"
proof (cases "\<not> dict_has cost n \<or> kc + enter_cost d n < dict_get cost n 0")
  case True
  with assms have "cost' = AList.update n (kc + enter_cost d n) cost"
    "fr' = (if int (kc + enter_cost d n) \<le> b then fr @ [n] else fr)" by (auto simp: Let_def)
  with True show ?thesis unfolding relax_post_def dict_has_iff map_of_dom by (auto simp: update_conv' dict_get_def)
next
  case False
  then obtain k where "map_of cost n = Some k" unfolding dict_has_iff map_of_dom by blast
  with False assms show ?thesis unfolding relax_post_def by (auto simp: Let_def dict_get_def)
qed

lemma relax_cells_spec: "relax_cells d b kc ns cost fr = (cost', fr') \<Longrightarrow> relax_post d b kc ns cost fr cost' fr'"
proof (induction ns arbitrary: cost fr)
  case (Cons n ns)
  obtain cost1 fr1 where 1: "relax_cells d b kc [n] cost fr = (cost1, fr1)" by fastforce
  with Cons.prems have "relax_cells d b kc ns cost1 fr1 = (cost', fr')" by (auto simp: Let_def split: if_splits)
  from relax_post_trans[OF relax_post_one[OF 1] Cons.IH[OF this]] show ?case .
qed (simp add: relax_post_def)

definition flood_inv :: "mask_rows \<Rightarrow> cell set \<Rightarrow> int \<Rightarrow> cell \<Rightarrow> (cell \<times> nat) list \<Rightarrow> cell list \<Rightarrow> bool" where
  "flood_inv rows d b s cost fr \<longleftrightarrow>
     map_of cost s = Some 0 \<and>
     (\<forall>c \<in> set fr. \<exists>k. map_of cost c = Some k \<and> int k \<le> b) \<and>
     (\<forall>c k. map_of cost c = Some k \<longrightarrow> walk rows d s c k \<and> int k \<le> b + 2) \<and>
     (\<forall>c k. map_of cost c = Some k \<and> int k \<le> b \<and> c \<notin> set fr \<longrightarrow> relaxed rows d cost c k)"

lemma flood_invD:
  assumes "flood_inv rows d b s cost fr"
  shows "map_of cost s = Some 0" "c \<in> set fr \<Longrightarrow> \<exists>k. map_of cost c = Some k \<and> int k \<le> b"
    and "map_of cost c = Some k \<Longrightarrow> walk rows d s c k" "map_of cost c = Some k \<Longrightarrow> int k \<le> b + 2"
    and "map_of cost c = Some k \<Longrightarrow> int k \<le> b \<Longrightarrow> c \<notin> set fr \<Longrightarrow> relaxed rows d cost c k"
  using assms unfolding flood_inv_def by blast+

lemma flood_inv_step:
  assumes inv: "flood_inv rows d b s cost fr"
    and srt: "set fr = insert cur (set rest)"
    and rl: "relax_cells d b (dict_get cost cur 0) (neighbors rows cur) cost rest = (cost', fr')"
  shows "flood_inv rows d b s cost' fr'"
proof -
  note sp = relax_postD[OF relax_cells_spec[OF rl]]
  obtain kc where kc: "map_of cost cur = Some kc" "int kc \<le> b" "walk rows d s cur kc"
    using inv srt unfolding flood_inv_def by force
  have kd: "dict_get cost cur 0 = kc" using kc(1) by (simp add: dict_get_def)
  have "map_of cost' s = Some 0" using sp(1) flood_invD(1)[OF inv] by (metis le_zero_eq)
  moreover have "\<exists>k. map_of cost' c = Some k \<and> int k \<le> b" if "c \<in> set fr'" for c
  proof (cases "c \<in> set rest")
    case True
    then obtain k where "map_of cost c = Some k" "int k \<le> b" using inv srt unfolding flood_inv_def by blast
    moreover from this sp(1) obtain k' where "k' \<le> k" "map_of cost' c = Some k'" by blast
    ultimately show ?thesis by auto
  qed (use that sp(4) in blast)
  moreover have "walk rows d s c k \<and> int k \<le> b + 2" if asm: "map_of cost' c = Some k" for c k
  proof -
    consider "map_of cost c = Some k" | "c \<in> set (neighbors rows cur)" "k = kc + enter_cost d c"
      using sp(2)[OF asm] kd by blast
    then show ?thesis
    proof cases
      case 2
      then show ?thesis using walk_step[OF kc(3)] kc(2) enter_cost_bounds(2)[of d c] by (auto simp: neighbors_iff)
    qed (use flood_invD(3,4)[OF inv] in blast)
  qed
  moreover have "relaxed rows d cost' c k" if c: "map_of cost' c = Some k" "int k \<le> b" "c \<notin> set fr'" for c k
  proof -
    have old: "map_of cost c = Some k" using sp(2)[OF c(1)] c by blast
    show ?thesis
    proof (cases "c = cur")
      case True
      then show ?thesis using sp(5) old kc(1) kd by (simp add: relaxed_def)
    next
      case False
      then have "c \<notin> set fr" using c(3) sp(3) srt by blast
      then have "relaxed rows d cost c k" using inv old c(2) unfolding flood_inv_def by blast
      then show ?thesis unfolding relaxed_def using sp(1) by (meson order_trans)
    qed
  qed
  ultimately show ?thesis unfolding flood_inv_def by blast
qed

lemma flood_loop_inv: "flood_inv rows d b s cost fr \<Longrightarrow> flood_inv rows d b s (flood_loop rows d b cost fr) []"
proof (induction rows d b cost fr rule: flood_loop.induct)
  case (1 rows d b cost fr)
  show ?case
  proof (cases "sort_key (\<lambda>c. dict_get cost c 0) fr")
    case Nil
    then have "fr = []" by (metis length_0_conv length_sort)
    with 1(2) show ?thesis by (simp add: flood_loop.simps[of _ _ _ _ "[]"])
  next
    case (Cons cur rest)
    obtain cost' fr' where rl: "relax_cells d b (dict_get cost cur 0) (neighbors rows cur) cost rest = (cost', fr')" by fastforce
    have "set fr = insert cur (set rest)" using arg_cong[OF Cons, of set] by simp
    from 1(1)[OF Cons rl[symmetric] flood_inv_step[OF 1(2) this rl]] rl Cons show ?thesis
      by (simp add: flood_loop.simps[of _ _ _ _ fr])
  qed
qed

text \<open>When the frontier is empty the recorded costs are the least costs of walks.\<close>

lemma flood_complete:
  assumes "flood_inv rows d b s cost []" "walk rows d s c k" "int k \<le> b"
  shows "\<exists>k' \<le> k. map_of cost c = Some k'"
  using assms(2,3)
proof (induction rule: walk.induct)
  case walk_start
  then show ?case using assms(1) by (auto simp: flood_inv_def)
next
  case (walk_step c k n)
  then have "int k \<le> b" by simp
  then obtain k' where k': "k' \<le> k" "map_of cost c = Some k'" using walk_step.IH by blast
  then have "relaxed rows d cost c k'" using flood_invD(5)[OF assms(1) k'(2)] \<open>int k \<le> b\<close> by simp
  moreover have "n \<in> set (neighbors rows c)" using walk_step.hyps by (simp add: neighbors_iff)
  ultimately show ?case using k'(1) unfolding relaxed_def by (meson add_le_mono1 order_trans)
qed

lemma flood_least:
  assumes inv: "flood_inv rows d b s cost []" and rec: "map_of cost c = Some k" and w: "walk rows d s c j"
  shows "k \<le> j"
proof (cases "int j \<le> b")
  case True
  from flood_complete[OF inv w True] rec show ?thesis by auto
next
  case False
  have kb: "int k \<le> b + 2" using inv rec unfolding flood_inv_def by blast
  from w show ?thesis
  proof (cases rule: walk.cases)
    case walk_start
    then show ?thesis using flood_invD(1)[OF inv] rec by simp
  next
    case (walk_step m i)
    show ?thesis
    proof (cases "int i \<le> b")
      case True
      then obtain i' where i': "i' \<le> i" "map_of cost m = Some i'" using flood_complete[OF inv walk_step(2)] by blast
      then have "relaxed rows d cost m i'" using flood_invD(5)[OF inv i'(2)] True by simp
      then have "\<exists>k'. map_of cost c = Some k' \<and> k' \<le> i' + enter_cost d c"
        using walk_step(3,4) unfolding relaxed_def by (simp add: neighbors_iff)
      with rec i'(1) walk_step(1) show ?thesis by auto
    next
      case over: False
      then show ?thesis using kb enter_cost_bounds(1)[of d c] walk_step(1) by linarith
    qed
  qed
qed

lemma cells_reachable_inv:
  assumes "\<not> (b \<le> 0 \<or> \<not> is_floor (parse_mask m) s)"
  shows "flood_inv (parse_mask m) d b s (flood_loop (parse_mask m) d b [(s, 0)] [s]) []"
proof (rule flood_loop_inv)
  show "flood_inv (parse_mask m) d b s [(s, 0)] [s]"
    using assms by (auto simp: flood_inv_def intro: walk_start split: if_splits)
qed

lemma cells_reachable_iff:
  "c \<in> reachable (cells_reachable s b m d) \<longleftrightarrow> c \<noteq> s \<and> (\<exists>k. walk (parse_mask m) d s c k \<and> int k \<le> b)"
proof (cases "b \<le> 0 \<or> \<not> is_floor (parse_mask m) s")
  case True
  have "\<not> (c \<noteq> s \<and> walk (parse_mask m) d s c k \<and> int k \<le> b)" for k
  proof
    assume a: "c \<noteq> s \<and> walk (parse_mask m) d s c k \<and> int k \<le> b"
    with True walk_origin[of "parse_mask m" d s c k] walk_costs[of "parse_mask m" d s c k] show False by linarith
  qed
  with True show ?thesis by (auto simp: cells_reachable_def Let_def)
next
  case False
  let ?rows = "parse_mask m" let ?cost = "flood_loop ?rows d b [(s, 0)] [s]"
  have inv: "flood_inv ?rows d b s ?cost []" by (rule cells_reachable_inv[OF False])
  have "c \<in> fst ` set ?cost \<and> int (dict_get ?cost c 0) \<le> b \<longleftrightarrow> (\<exists>k. walk ?rows d s c k \<and> int k \<le> b)"
  proof
    assume a: "c \<in> fst ` set ?cost \<and> int (dict_get ?cost c 0) \<le> b"
    then obtain k where "map_of ?cost c = Some k" unfolding map_of_dom by blast
    with a flood_invD(3)[OF inv, of c k] show "\<exists>k. walk ?rows d s c k \<and> int k \<le> b" by (auto simp: dict_get_def)
  next
    assume "\<exists>k. walk ?rows d s c k \<and> int k \<le> b"
    with flood_complete[OF inv] obtain k k' where "k' \<le> k" "int k \<le> b" "map_of ?cost c = Some k'" by blast
    then show "c \<in> fst ` set ?cost \<and> int (dict_get ?cost c 0) \<le> b" unfolding map_of_dom by (auto simp: dict_get_def)
  qed
  then show ?thesis using False by (auto simp: cells_reachable_def Let_def)
qed

lemma recorded_cost_is_least:
  assumes "map_of (reach_cost (cells_reachable s b m d)) c = Some k"
  shows "walk (parse_mask m) d s c k" "walk (parse_mask m) d s c j \<Longrightarrow> k \<le> j"
proof -
  have ok: "\<not> (b \<le> 0 \<or> \<not> is_floor (parse_mask m) s)" using assms by (auto simp: cells_reachable_def Let_def split: if_splits)
  with assms have "map_of (flood_loop (parse_mask m) d b [(s, 0)] [s]) c = Some k" by (simp add: cells_reachable_def Let_def)
  with cells_reachable_inv[OF ok] show "walk (parse_mask m) d s c k" "walk (parse_mask m) d s c j \<Longrightarrow> k \<le> j"
    using flood_invD(3) flood_least by blast+
qed

section \<open>Paths are walks\<close>

lemma walk_cost_snoc:
  assumes "p \<noteq> []"
  shows "walk_cost rows d t (p @ [b]) =
    (case walk_cost rows d t p of None \<Rightarrow> None
     | Some k \<Rightarrow> if is_floor rows (last p) \<and> is_floor rows b \<and> chebyshev_distance (last p) b = 1
                then Some (k + enter_cost d b) else None)"
  using assms
proof (induction p arbitrary: t)
  case (Cons a p)
  then show ?case by (cases p) (auto split: option.splits)
qed simp

lemma movement_cost_snoc:
  assumes "p \<noteq> []"
  shows "movement_cost (p @ [b]) m d =
    (case movement_cost p m d of None \<Rightarrow> None
     | Some k \<Rightarrow> if is_floor (parse_mask m) b \<and> chebyshev_distance (last p) b = 1 then Some (k + enter_cost d b) else None)"
proof -
  have flo: "is_floor rows (last p)" if "walk_cost rows d t p = Some k" "2 \<le> length p" for rows t k
    using that
  proof (induction p arbitrary: t)
    case (Cons a p)
    then show ?case by (cases p; cases "tl p") (auto split: if_splits)
  qed simp
  show ?thesis
  proof (cases "tl p")
    case Nil
    then obtain a where "p = [a]" using assms by (cases p) auto
    then show ?thesis by (simp add: movement_cost_def Let_def)
  next
    case (Cons a q)
    then obtain a0 where p: "p = a0 # a # q" using assms by (cases p) auto
    have "movement_cost (p @ [b]) m d = walk_cost (parse_mask m) d 0 (p @ [b])" "movement_cost p m d = walk_cost (parse_mask m) d 0 p"
      by (auto simp: p movement_cost_def Let_def)
    then show ?thesis using flo[of "parse_mask m" 0] walk_cost_snoc[OF assms, of "parse_mask m" d 0 b] by (auto simp: p split: option.splits)
  qed
qed

lemma walk_iff_path:
  "walk (parse_mask m) d s c k \<longleftrightarrow> (\<exists>p. p \<noteq> [] \<and> hd p = s \<and> last p = c \<and> movement_cost p m d = Some k)"
proof
  assume "walk (parse_mask m) d s c k"
  then show "\<exists>p. p \<noteq> [] \<and> hd p = s \<and> last p = c \<and> movement_cost p m d = Some k"
  proof (induction rule: walk.induct)
    case walk_start
    then show ?case by (intro exI[of _ "[s]"]) (simp add: movement_cost_def Let_def)
  next
    case (walk_step c k n)
    then obtain p where p: "p \<noteq> []" "hd p = s" "last p = c" "movement_cost p m d = Some k" by blast
    with walk_step.hyps show ?case by (intro exI[of _ "p @ [n]"]) (simp add: movement_cost_snoc)
  qed
next
  assume "\<exists>p. p \<noteq> [] \<and> hd p = s \<and> last p = c \<and> movement_cost p m d = Some k"
  then obtain p where "p \<noteq> []" "hd p = s" "last p = c" "movement_cost p m d = Some k" by blast
  then show "walk (parse_mask m) d s c k"
  proof (induction p arbitrary: c k rule: rev_induct)
    case (snoc b p)
    show ?case
    proof (cases "p = []")
      case True
      then show ?thesis using snoc.prems walk_start by (auto simp: movement_cost_def Let_def split: if_splits)
    next
      case False
      with snoc.prems obtain i where i: "movement_cost p m d = Some i" "is_floor (parse_mask m) b"
        "chebyshev_distance (last p) b = 1" "k = i + enter_cost d b"
        by (auto simp: movement_cost_snoc split: option.splits if_splits)
      from walk_step[OF snoc.IH[OF False _ refl i(1)] i(2,3)] False snoc.prems i(4) show ?thesis by simp
    qed
  qed simp
qed

section \<open>Rays, sight and areas\<close>

text \<open>
  The \<open>while\<close> loop of \<open>_ray_cells\<close>. It stops only on the target, so that it returns at all is a theorem
  (\<open>ray_walk_ok\<close> below).
\<close>

partial_function (option) ray_loop ::
  "cell \<Rightarrow> int \<Rightarrow> int \<Rightarrow> int \<Rightarrow> int \<Rightarrow> int \<Rightarrow> cell \<Rightarrow> cell list \<Rightarrow> cell list option" where
  "ray_loop target dx dy sx sy err cur cells =
     (if cur = target then Some cells
      else let e2 = 2 * err;
               err1 = (if e2 > - dy then err - dy else err);
               x = (if e2 > - dy then fst cur + sx else fst cur);
               err2 = (if e2 < dx then err1 + dx else err1);
               y = (if e2 < dx then snd cur + sy else snd cur)
           in ray_loop target dx dy sx sy err2 (x, y) (cells @ [(x, y)]))"

declare ray_loop.simps [code]

definition ray_walk :: "cell \<Rightarrow> cell \<Rightarrow> cell list option" where
  "ray_walk a b =
     (let dx = \<bar>fst b - fst a\<bar>; dy = \<bar>snd b - snd a\<bar>;
          sx = (if fst a < fst b then 1 else -1); sy = (if snd a < snd b then 1 else -1)
      in ray_loop b dx dy sx sy (dx - dy) a [a])"

definition ray_cells :: "cell \<Rightarrow> cell \<Rightarrow> cell list" where
  "ray_cells a b = the (ray_walk a b)"

definition line_of_sight :: "cell \<Rightarrow> cell \<Rightarrow> string \<Rightarrow> bool" where
  "line_of_sight a b msk = (let rows = parse_mask msk; ray = ray_cells a b in list_all (is_floor rows) (butlast (tl ray)))"

definition square :: "cell \<Rightarrow> int \<Rightarrow> cell list" where
  "square c r = concat (map (\<lambda>y. map (\<lambda>x. (x, y)) [fst c - r .. fst c + r]) [snd c - r .. snd c + r])"

definition reach_cells :: "cell \<Rightarrow> int \<Rightarrow> string \<Rightarrow> cell set" where
  "reach_cells origin reach msk =
     (if reach \<le> 0 then {}
      else let rows = parse_mask msk in
        set (filter (\<lambda>c. c \<noteq> origin \<and> is_floor rows c \<and> chebyshev_distance origin c \<le> reach) (square origin reach)))"

record range_adjudication =
  in_range :: bool
  distance_cells :: int
  max_cells :: int
  range_mode :: string
  has_los :: bool
  range_reason :: string

definition adjudicate_reach :: "cell \<Rightarrow> cell \<Rightarrow> int \<Rightarrow> string \<Rightarrow> string \<Rightarrow> bool \<Rightarrow> range_adjudication res" where
  "adjudicate_reach origin target maxc msk mode require_los =
     (if mode \<noteq> ''melee'' \<and> mode \<noteq> ''ranged'' then Inl (ValueError ''mode must be melee or ranged'')
      else let d = chebyshev_distance origin target;
               los = (if require_los then line_of_sight origin target msk else True);
               verdict = (\<lambda>ok why. \<lparr>in_range = ok, distance_cells = d, max_cells = maxc, range_mode = mode,
                                    has_los = los, range_reason = why\<rparr>)
           in Inr (if d > maxc
                   then verdict False (''target is '' @ show_int d @ '' cells away; your '' @
                          (if mode = ''melee'' then ''reach'' else ''range'') @ '' is '' @ show_int maxc)
                   else if require_los \<and> \<not> los then verdict False ''no line of sight to the target''
                   else verdict True []))"

definition aoe_burst :: "cell \<Rightarrow> int \<Rightarrow> string \<Rightarrow> bool \<Rightarrow> cell set" where
  "aoe_burst centre radius msk require_los =
     (let rows = parse_mask msk in
      set (filter (\<lambda>c. \<not> (\<not> is_floor rows c \<or> chebyshev_distance centre c > radius) \<and>
                      \<not> (require_los \<and> c \<noteq> centre \<and> \<not> line_of_sight centre c msk)) (square centre radius)))"

definition aoe_line :: "cell \<Rightarrow> cell \<Rightarrow> string \<Rightarrow> cell set" where
  "aoe_line origin target msk = (let rows = parse_mask msk in set (takeWhile (is_floor rows) (ray_cells origin target)))"

section \<open>The ray is the straight line\<close>

text \<open>Twice the distance of a cell from the line through the end points, scaled by the longer side.\<close>

definition off_line :: "cell \<Rightarrow> cell \<Rightarrow> cell \<Rightarrow> int" where
  "off_line a b c = 2 * ((fst c - fst a) * (snd b - snd a) - (snd c - snd a) * (fst b - fst a))"

definition straight :: "cell \<Rightarrow> cell \<Rightarrow> cell list \<Rightarrow> bool" where
  "straight a b cs \<longleftrightarrow> cs \<noteq> [] \<and> hd cs = a \<and> last cs = b \<and> int (length cs) = chebyshev_distance a b + 1 \<and>
     successively (\<lambda>c d. chebyshev_distance c d = 1) cs \<and> (\<forall>c \<in> set cs. \<bar>off_line a b c\<bar> \<le> chebyshev_distance a b)"

text \<open>
  The walk when the x side is the longer one. \<open>X\<close> and \<open>Y\<close> count the steps made on each axis; the error
  term is a linear function of them, which stays within half a cell of the line, so that x is stepped
  in every round and the target is met after \<open>dx\<close> rounds.
\<close>

lemma ray_loop_major:
  fixes X Y :: int
  assumes par: "0 \<le> dy" "dy \<le> dx" "0 < dx" "\<bar>sx\<bar> = 1" "\<bar>sy\<bar> = 1"
    and "X \<le> dx" "- dx < 2 * (X * dy - Y * dx)" "2 * (X * dy - Y * dx) \<le> dx" "dx = dy \<longrightarrow> X = Y"
  shows "\<exists>rest. ray_loop (x0 + sx * dx, y0 + sy * dy) dx dy sx sy (dx - dy - X * dy + Y * dx) (x0 + sx * X, y0 + sy * Y) cells
           = Some (cells @ rest) \<and> int (length rest) = dx - X \<and>
         successively (\<lambda>c d. chebyshev_distance c d = 1) ((x0 + sx * X, y0 + sy * Y) # rest) \<and>
         last ((x0 + sx * X, y0 + sy * Y) # rest) = (x0 + sx * dx, y0 + sy * dy) \<and>
         (\<forall>c \<in> set rest. \<exists>X Y. c = (x0 + sx * X, y0 + sy * Y) \<and> \<bar>2 * (X * dy - Y * dx)\<bar> \<le> dx)"
  using assms(6-9)
proof (induction "nat (dx - X)" arbitrary: X Y cells)
  case 0
  then have X: "X = dx" by simp
  have "- dx < 2 * ((dy - Y) * dx)" "2 * ((dy - Y) * dx) \<le> dx" using 0 X by (simp_all add: algebra_simps)
  have "Y = dy"
  proof (rule ccontr)
    assume "Y \<noteq> dy"
    then consider "1 \<le> dy - Y" | "dy - Y \<le> -1" by linarith
    then show False
    proof cases
      case 1
      then have "1 * dx \<le> (dy - Y) * dx" using par(3) by (intro mult_right_mono) auto
      with \<open>2 * ((dy - Y) * dx) \<le> dx\<close> par(3) show False by linarith
    next
      case 2
      then have "(dy - Y) * dx \<le> -1 * dx" using par(3) by (intro mult_right_mono) auto
      with \<open>- dx < 2 * ((dy - Y) * dx)\<close> par(3) show False by linarith
    qed
  qed
  with X show ?case by (simp add: ray_loop.simps)
next
  case (Suc n)
  let ?cur = "(x0 + sx * X, y0 + sy * Y)"
  define f where "f = X * dy - Y * dx"
  define Y' where "Y' = (if 2 * (dx - dy - f) < dx then Y + 1 else Y)"
  define nxt where "nxt = (x0 + sx * (X + 1), y0 + sy * Y')"
  have lt: "X < dx" using Suc(2) by simp
  have ne: "?cur \<noteq> (x0 + sx * dx, y0 + sy * dy)" using lt par(4) by auto
  have err: "dx - dy - X * dy + Y * dx = dx - dy - f" by (simp add: f_def)
  have xs: "2 * (dx - dy - f) > - dy"
  proof (cases "dx = dy")
    case True
    then have "f = 0" using Suc.prems(4) by (simp add: f_def)
    then show ?thesis using True par(3) by simp
  qed (use Suc.prems(3) par in \<open>simp add: f_def\<close>)
  have f': "(X + 1) * dy - Y' * dx = (if 2 * (dx - dy - f) < dx then f + dy - dx else f + dy)"
    by (simp add: Y'_def f_def algebra_simps)
  have bounds: "- dx < 2 * ((X + 1) * dy - Y' * dx)" "2 * ((X + 1) * dy - Y' * dx) \<le> dx"
    unfolding f' using Suc.prems(2,3) par by (auto simp flip: f_def)
  have diag: "dx = dy \<longrightarrow> X + 1 = Y'" using Suc.prems(4) par(3) by (auto simp: Y'_def f_def)
  have step: "ray_loop (x0 + sx * dx, y0 + sy * dy) dx dy sx sy (dx - dy - X * dy + Y * dx) ?cur cells =
      ray_loop (x0 + sx * dx, y0 + sy * dy) dx dy sx sy (dx - dy - (X + 1) * dy + Y' * dx) nxt (cells @ [nxt])"
    unfolding err using ne xs lt par(4) by (subst ray_loop.simps) (auto simp: Let_def nxt_def Y'_def f_def algebra_simps)
  have adj: "chebyshev_distance ?cur nxt = 1"
    using par(4,5) by (auto simp: chebyshev_distance_def nxt_def Y'_def algebra_simps)
  have "n = nat (dx - (X + 1))" "X + 1 \<le> dx" using Suc(2) lt by auto
  from Suc.hyps(1)[OF this bounds diag, of "cells @ [nxt]", folded nxt_def] obtain rest where r:
    "ray_loop (x0 + sx * dx, y0 + sy * dy) dx dy sx sy (dx - dy - (X + 1) * dy + Y' * dx) nxt (cells @ [nxt]) = Some ((cells @ [nxt]) @ rest)"
    "int (length rest) = dx - (X + 1)" "successively (\<lambda>c d. chebyshev_distance c d = 1) (nxt # rest)"
    "last (nxt # rest) = (x0 + sx * dx, y0 + sy * dy)"
    "\<forall>c \<in> set rest. \<exists>X Y. c = (x0 + sx * X, y0 + sy * Y) \<and> \<bar>2 * (X * dy - Y * dx)\<bar> \<le> dx" by blast
  have "\<exists>X Y. nxt = (x0 + sx * X, y0 + sy * Y) \<and> \<bar>2 * (X * dy - Y * dx)\<bar> \<le> dx"
    using bounds by (intro exI[of _ "X + 1"] exI[of _ Y']) (auto simp: nxt_def abs_le_iff)
  with r adj show ?case unfolding step by (intro exI[of _ "nxt # rest"]) auto
qed

text \<open>Exchanging the axes exchanges the two steps of a round, so the other case is the mirror image.\<close>

lemma ray_loop_swap:
  "ray_loop target dx dy sx sy err cur cells = Some cs \<Longrightarrow>
   ray_loop (prod.swap target) dy dx sy sx (- err) (prod.swap cur) (map prod.swap cells) = Some (map prod.swap cs)"
proof (erule ray_loop.raw_induct[where P = "\<lambda>target dx dy sx sy err cur cells cs.
    ray_loop (prod.swap target) dy dx sy sx (- err) (prod.swap cur) (map prod.swap cells) = Some (map prod.swap cs)", rotated])
  fix loop target dx dy sx sy err cur cells cs
  assume IH: "\<And>target dx dy sx sy err cur cells cs. loop target dx dy sx sy err cur cells = Some cs \<Longrightarrow>
      ray_loop (prod.swap target) dy dx sy sx (- err) (prod.swap cur) (map prod.swap cells) = Some (map prod.swap cs)"
    and eq: "(if cur = target then Some cells
      else let e2 = 2 * err;
               err1 = (if e2 > - dy then err - dy else err);
               x = (if e2 > - dy then fst cur + sx else fst cur);
               err2 = (if e2 < dx then err1 + dx else err1);
               y = (if e2 < dx then snd cur + sy else snd cur)
           in loop target dx dy sx sy err2 (x, y) (cells @ [(x, y)])) = Some cs"
  show "ray_loop (prod.swap target) dy dx sy sx (- err) (prod.swap cur) (map prod.swap cells) = Some (map prod.swap cs)"
  proof (cases "cur = target")
    case True
    then show ?thesis using eq by (simp add: ray_loop.simps)
  next
    case False
    then have "prod.swap cur \<noteq> prod.swap target" by (auto simp: prod_eq_iff)
    moreover define x where "x = (if 2 * err > - dy then fst cur + sx else fst cur)"
    moreover define y where "y = (if 2 * err < dx then snd cur + sy else snd cur)"
    moreover define err2 where "err2 = err + (if 2 * err > - dy then - dy else 0) + (if 2 * err < dx then dx else 0)"
    moreover have "loop target dx dy sx sy err2 (x, y) (cells @ [(x, y)]) = Some cs"
      using eq False by (simp add: Let_def x_def y_def err2_def split: if_splits)
    note IH[OF this]
    ultimately show ?thesis by (subst ray_loop.simps) (simp add: Let_def algebra_simps split: if_splits)
  qed
qed

lemma ray_walk_swap: "ray_walk a b = Some cs \<Longrightarrow> ray_walk (prod.swap a) (prod.swap b) = Some (map prod.swap cs)"
  unfolding ray_walk_def Let_def by (drule ray_loop_swap) simp

lemma straight_swap: "straight a b cs \<Longrightarrow> straight (prod.swap a) (prod.swap b) (map prod.swap cs)"
proof -
  have c: "chebyshev_distance (prod.swap c) (prod.swap d) = chebyshev_distance c d" for c d
    by (simp add: chebyshev_distance_def max.commute)
  have o: "\<bar>off_line (prod.swap a) (prod.swap b) (prod.swap c)\<bar> = \<bar>off_line a b c\<bar>" for c
    by (simp add: off_line_def abs_minus_commute algebra_simps)
  assume "straight a b cs"
  then show ?thesis unfolding straight_def by (simp add: c o hd_map last_map successively_map)
qed

lemma ray_walk_major:
  assumes "\<bar>snd b - snd a\<bar> \<le> \<bar>fst b - fst a\<bar>"
  shows "\<exists>cs. ray_walk a b = Some cs \<and> straight a b cs"
proof (cases "a = b")
  case True
  then show ?thesis by (simp add: ray_walk_def Let_def ray_loop.simps straight_def off_line_def chebyshev_distance_def)
next
  case False
  define dx where "dx = \<bar>fst b - fst a\<bar>"
  define dy where "dy = \<bar>snd b - snd a\<bar>"
  define sx :: int where "sx = (if fst a < fst b then 1 else -1)"
  define sy :: int where "sy = (if snd a < snd b then 1 else -1)"
  have par: "0 \<le> dy" "dy \<le> dx" "0 < dx" "\<bar>sx\<bar> = 1" "\<bar>sy\<bar> = 1"
    using assms False by (auto simp: dx_def dy_def sx_def sy_def prod_eq_iff)
  have b: "(fst a + sx * dx, snd a + sy * dy) = b" by (auto simp: sx_def sy_def dx_def dy_def prod_eq_iff)
  have sgn: "fst b - fst a = sx * dx" "snd b - snd a = sy * dy" by (auto simp: sx_def sy_def dx_def dy_def)
  have cheb: "chebyshev_distance a b = dx" using par(2) by (simp add: chebyshev_distance_def dx_def dy_def abs_minus_commute)
  have off: "\<bar>off_line a b (fst a + sx * X, snd a + sy * Y)\<bar> = \<bar>2 * (X * dy - Y * dx)\<bar>" for X Y
  proof -
    have "off_line a b (fst a + sx * X, snd a + sy * Y) = (sx * sy) * (2 * (X * dy - Y * dx))"
      by (simp add: off_line_def sgn algebra_simps)
    then show ?thesis using par(4,5) by (simp add: abs_mult)
  qed
  obtain rest where r: "ray_walk a b = Some (a # rest)" "int (length rest) = dx"
      "successively (\<lambda>c d. chebyshev_distance c d = 1) (a # rest)" "last (a # rest) = b"
      "\<forall>c \<in> set rest. \<exists>X Y. c = (fst a + sx * X, snd a + sy * Y) \<and> \<bar>2 * (X * dy - Y * dx)\<bar> \<le> dx"
    using ray_loop_major[OF par, of 0 0 "fst a" "snd a" "[a]", unfolded b] par(3)
    by (auto simp: ray_walk_def Let_def dx_def dy_def sx_def sy_def)
  have "\<bar>off_line a b c\<bar> \<le> dx" if asm: "c \<in> set (a # rest)" for c
  proof (cases "c = a")
    case False
    then obtain X Y where "c = (fst a + sx * X, snd a + sy * Y)" "\<bar>2 * (X * dy - Y * dx)\<bar> \<le> dx" using asm r(5) by (metis set_ConsD)
    then show ?thesis using off[of X Y] by simp
  qed (use par(3) in \<open>simp add: off_line_def\<close>)
  with r(2-4) have "straight a b (a # rest)" by (simp add: straight_def cheb)
  with r(1) show ?thesis by blast
qed

lemma ray_walk_ok: "\<exists>cs. ray_walk a b = Some cs \<and> straight a b cs"
proof (cases "\<bar>snd b - snd a\<bar> \<le> \<bar>fst b - fst a\<bar>")
  case False
  then have "\<bar>snd (prod.swap b) - snd (prod.swap a)\<bar> \<le> \<bar>fst (prod.swap b) - fst (prod.swap a)\<bar>" by simp
  from ray_walk_major[OF this] obtain cs where
    cs: "ray_walk (prod.swap a) (prod.swap b) = Some cs" "straight (prod.swap a) (prod.swap b) cs" by blast
  from ray_walk_swap[OF cs(1)] straight_swap[OF cs(2)] show ?thesis by (intro exI[of _ "map prod.swap cs"]) simp
qed (rule ray_walk_major)

lemma ray_cells_straight: "straight a b (ray_cells a b)"
  using ray_walk_ok[of a b] by (auto simp: ray_cells_def)

end
