(* ===== verification/Tactical_Zones.thy ===== *)
theory Tactical_Zones
  imports Tactical_Grid "HOL-Library.List_Lexorder" "HOL-Library.Char_ord"
begin

text \<open>
  The projection of a mask's floor into zones (src/sidequest/game/tactical/zones.py): seeds are the
  components of the cells that are no chokepoints, a breadth-first flood gives every cell reachable
  from a seed to a zone, and what is left becomes one zone per component. The two floods by stack and
  the one by queue share \<open>mark\<close>, the labelling of a cell's unlabelled neighbours.
\<close>

section \<open>Floods\<close>

type_synonym zone_map = "(cell \<times> string) list"

definition orth_floor_count :: "mask_rows \<Rightarrow> cell \<Rightarrow> nat" where
  "orth_floor_count rows c =
     length (filter (\<lambda>s. is_floor rows (fst c + fst s, snd c + snd s)) [(1, 0), (-1, 0), (0, 1), (0, -1)])"

fun mark :: "(cell \<Rightarrow> bool) \<Rightarrow> string \<Rightarrow> cell list \<Rightarrow> zone_map \<Rightarrow> cell list \<Rightarrow> zone_map \<times> cell list" where
  "mark skip z [] zs new = (zs, new)"
| "mark skip z (nb # nbs) zs new =
     (if skip nb \<or> dict_has zs nb then mark skip z nbs zs new
      else mark skip z nbs (zs @ [(nb, z)]) (new @ [nb]))"

definition unzoned :: "mask_rows \<Rightarrow> zone_map \<Rightarrow> nat" where
  "unzoned rows zs = card ({c. is_floor rows c} - fst ` set zs)"

lemma mark_measure:
  assumes "mark skip z nbs zs new = (zs', new')" "\<And>nb. nb \<in> set nbs \<Longrightarrow> is_floor rows nb"
  shows "unzoned rows zs' < unzoned rows zs \<or> zs' = zs \<and> new' = new"
  using assms
proof (induction nbs arbitrary: zs new)
  case (Cons nb nbs)
  show ?case
  proof (cases "skip nb \<or> dict_has zs nb")
    case False
    then have "{c. is_floor rows c} - fst ` set (zs @ [(nb, z)]) \<subset> {c. is_floor rows c} - fst ` set zs"
      using Cons.prems(2)[of nb] by auto
    then have "unzoned rows (zs @ [(nb, z)]) < unzoned rows zs"
      unfolding unzoned_def by (intro psubset_card_mono) (simp add: finite_floor)
    then show ?thesis using Cons.IH[of "zs @ [(nb, z)]" "new @ [nb]"] Cons.prems False by auto
  qed (use Cons in auto)
qed simp

text \<open>\<open>stack.pop()\<close> takes the cell pushed last: the head of the list is the top of the stack.\<close>

function flood_stack :: "mask_rows \<Rightarrow> (cell \<Rightarrow> bool) \<Rightarrow> string \<Rightarrow> zone_map \<Rightarrow> cell list \<Rightarrow> zone_map" where
  "flood_stack rows skip z zs [] = zs"
| "flood_stack rows skip z zs (cur # stack) =
     (case mark skip z (neighbors rows cur) zs [] of (zs', new) \<Rightarrow> flood_stack rows skip z zs' (rev new @ stack))"
  by pat_completeness auto
termination
proof (relation "measures [\<lambda>(rows, s, z, zs, st). unzoned rows zs, \<lambda>(rows, s, z, zs, st). length st]", goal_cases)
  case (2 rows skip z zs cur stack zs' new)
  then show ?case using mark_measure[OF 2[symmetric], of rows] by (auto simp: neighbors_iff)
qed simp

function flood_queue :: "mask_rows \<Rightarrow> zone_map \<Rightarrow> cell list \<Rightarrow> zone_map" where
  "flood_queue rows zs [] = zs"
| "flood_queue rows zs (cur # queue) =
     (case mark (\<lambda>_. False) (dict_get zs cur []) (neighbors rows cur) zs [] of (zs', new) \<Rightarrow> flood_queue rows zs' (queue @ new))"
  by pat_completeness auto
termination
proof (relation "measures [\<lambda>(rows, zs, q). unzoned rows zs, \<lambda>(rows, zs, q). length q]", goal_cases)
  case (2 rows zs cur queue zs' new)
  then show ?case using mark_measure[OF 2[symmetric], of rows] by (auto simp: neighbors_iff)
qed simp

definition zone_name :: "nat \<Rightarrow> string" where
  "zone_name k = ''z'' @ show_nat k"

text \<open>One zone per component of the listed cells that has no zone yet, in scan order.\<close>

fun component_zones :: "mask_rows \<Rightarrow> (cell \<Rightarrow> bool) \<Rightarrow> cell list \<Rightarrow> nat \<Rightarrow> zone_map \<Rightarrow> nat \<times> zone_map" where
  "component_zones rows skip [] zid zs = (zid, zs)"
| "component_zones rows skip (start # rest) zid zs =
     (if dict_has zs start then component_zones rows skip rest zid zs
      else component_zones rows skip rest (zid + 1)
             (flood_stack rows skip (zone_name zid) (zs @ [(start, zone_name zid)]) [start]))"

section \<open>The projection\<close>

record zone_projection =
  zones :: "(string \<times> cell set) list"
  cell_to_zone :: zone_map
  adjacency :: "(string \<times> string set) list"

definition seed_order :: "zone_map \<Rightarrow> cell list" where
  "seed_order zs = sort_key (\<lambda>c. dict_get zs c []) (sort_key snd (sort_key fst (map fst zs)))"

definition zone_of :: "mask_rows \<Rightarrow> zone_map" where
  "zone_of rows =
     (let floor = floor_cells rows;
          choke = (\<lambda>c. is_floor rows c \<and> orth_floor_count rows c \<le> 2);
          core = filter (\<lambda>c. \<not> choke c) floor;
          (zid, seed_zone) = component_zones rows choke core 0 [];
          spread = flood_queue rows seed_zone (seed_order seed_zone)
      in snd (component_zones rows (\<lambda>_. False) floor zid spread))"

definition collect_zones :: "zone_map \<Rightarrow> (string \<times> cell set) list" where
  "collect_zones zs = fold (\<lambda>(c, z). AList.map_default z {c} (insert c)) zs []"

definition link :: "string \<Rightarrow> string \<Rightarrow> (string \<times> string set) list \<Rightarrow> (string \<times> string set) list" where
  "link z nz adj = AList.map_entry nz (insert z) (AList.map_entry z (insert nz) adj)"

definition link_nb :: "zone_map \<Rightarrow> string \<Rightarrow> cell \<Rightarrow> (string \<times> string set) list \<Rightarrow> (string \<times> string set) list" where
  "link_nb zs z nb adj = (case map_of zs nb of None \<Rightarrow> adj | Some nz \<Rightarrow> if nz \<noteq> z then link z nz adj else adj)"

definition link_zones :: "mask_rows \<Rightarrow> zone_map \<Rightarrow> (string \<times> string set) list \<Rightarrow> (string \<times> string set) list" where
  "link_zones rows zs = fold (\<lambda>(c, z). fold (link_nb zs z) (neighbors rows c)) zs"

definition project_zones :: "string \<Rightarrow> zone_projection" where
  "project_zones msk =
     (let rows = parse_mask msk in
      if floor_cells rows = [] then \<lparr>zones = [], cell_to_zone = [], adjacency = []\<rparr>
      else let zs = zone_of rows; zn = collect_zones zs
           in \<lparr>zones = zn, cell_to_zone = zs, adjacency = link_zones rows zs (map (\<lambda>(z, _). (z, {})) zn)\<rparr>)"

section \<open>Zones are connected\<close>

declare split_paired_All [simp del] split_paired_Ex [simp del]

definition same_zone :: "zone_map \<Rightarrow> cell \<Rightarrow> cell \<Rightarrow> bool" where
  "same_zone zs u v \<longleftrightarrow> chebyshev_distance u v = 1 \<and> (\<exists>z. map_of zs u = Some z \<and> map_of zs v = Some z)"

definition zone_inv :: "mask_rows \<Rightarrow> zone_map \<Rightarrow> bool" where
  "zone_inv rows zs \<longleftrightarrow> distinct (map fst zs) \<and> (\<forall>c \<in> fst ` set zs. is_floor rows c) \<and>
     (\<forall>c d z. map_of zs c = Some z \<and> map_of zs d = Some z \<longrightarrow> (same_zone zs)\<^sup>*\<^sup>* c d)"

definition extends :: "zone_map \<Rightarrow> zone_map \<Rightarrow> bool" where
  "extends zs zs' \<longleftrightarrow> (\<exists>ext. zs' = zs @ ext)"

lemma extends_refl [simp]: "extends zs zs"
  by (simp add: extends_def)

lemma extends_snoc [simp]: "extends zs (zs @ ext)"
  by (simp add: extends_def)

lemma extends_trans: "extends a b \<Longrightarrow> extends b c \<Longrightarrow> extends a c"
  unfolding extends_def by auto

lemma extends_map_of: "extends zs zs' \<Longrightarrow> map_of zs c = Some z \<Longrightarrow> map_of zs' c = Some z"
  by (auto simp: extends_def)

lemma same_zone_sym: "same_zone zs u v \<Longrightarrow> same_zone zs v u"
  by (auto simp: same_zone_def cheb_sym)

lemma same_zone_snoc: "(same_zone zs)\<^sup>*\<^sup>* u v \<Longrightarrow> (same_zone (zs @ ext))\<^sup>*\<^sup>* u v"
  by (erule rtranclp_mono[THEN predicate2D, rotated]) (auto simp: same_zone_def)

lemma map_of_snoc: "nb \<notin> fst ` set zs \<Longrightarrow> map_of (zs @ [(nb, z)]) c = (if c = nb then Some z else map_of zs c)"
  using map_of_dom[of nb zs] by (cases "map_of zs nb") (auto simp: map_add_def split: option.splits)

lemma zone_invD:
  assumes "zone_inv rows zs"
  shows "map_of zs c = Some z \<Longrightarrow> map_of zs d = Some z \<Longrightarrow> (same_zone zs)\<^sup>*\<^sup>* c d" "distinct (map fst zs)"
    and "c \<in> fst ` set zs \<Longrightarrow> is_floor rows c"
  using assms unfolding zone_inv_def by blast+

lemma extends_keys: "extends zs zs' \<Longrightarrow> fst ` set zs \<subseteq> fst ` set zs'"
  by (auto simp: extends_def)

lemma zone_inv_Nil [simp]: "zone_inv rows []"
  by (simp add: zone_inv_def)

lemma zone_inv_grow:
  assumes "zone_inv rows zs" "nb \<notin> fst ` set zs" "is_floor rows nb" "map_of zs cur = Some z" "chebyshev_distance cur nb = 1"
  shows "zone_inv rows (zs @ [(nb, z)])"
proof -
  let ?zs = "zs @ [(nb, z)]"
  have m: "map_of ?zs c = (if c = nb then Some z else map_of zs c)" for c using map_of_snoc[OF assms(2)] .
  have cur: "cur \<noteq> nb" using assms(2,4) map_of_dom[of cur zs] by auto
  have nb: "same_zone ?zs cur nb" using m cur assms(4,5) by (auto simp: same_zone_def)
  have "(same_zone ?zs)\<^sup>*\<^sup>* c d" if eq: "map_of ?zs c = Some y" "map_of ?zs d = Some y" for c d y
  proof -
    have old: "(same_zone ?zs)\<^sup>*\<^sup>* u v" if "map_of zs u = Some y" "map_of zs v = Some y" for u v y
      using same_zone_snoc[OF zone_invD(1)[OF assms(1) that]] .
    have to_nb: "(same_zone ?zs)\<^sup>*\<^sup>* u nb" "(same_zone ?zs)\<^sup>*\<^sup>* nb u" if "map_of zs u = Some z" for u
      using old[OF that assms(4)] old[OF assms(4) that] nb same_zone_sym[OF nb]
      by (auto intro: rtranclp.rtrancl_into_rtrancl converse_rtranclp_into_rtranclp)
    show ?thesis
    proof (cases "c = nb"; cases "d = nb")
      assume "c \<noteq> nb" "d \<noteq> nb"
      then show ?thesis using eq old[of c y d] unfolding m by simp
    next
      assume "c = nb" "d \<noteq> nb"
      then show ?thesis using eq to_nb(2)[of d] unfolding m by simp
    next
      assume "c \<noteq> nb" "d = nb"
      then show ?thesis using eq to_nb(1)[of c] unfolding m by simp
    qed simp
  qed
  with assms(1-3) show ?thesis unfolding zone_inv_def by auto
qed

lemma zone_inv_start:
  assumes "zone_inv rows zs" "nb \<notin> fst ` set zs" "is_floor rows nb" "z \<notin> snd ` set zs"
  shows "zone_inv rows (zs @ [(nb, z)])"
proof -
  let ?zs = "zs @ [(nb, z)]"
  have m: "map_of ?zs c = (if c = nb then Some z else map_of zs c)" for c using map_of_snoc[OF assms(2)] .
  have nz: "map_of zs c \<noteq> Some z" for c using assms(4) map_of_SomeD by force
  have "(same_zone ?zs)\<^sup>*\<^sup>* c d" if eq: "map_of ?zs c = Some y" "map_of ?zs d = Some y" for c d y
  proof (cases "c = nb \<or> d = nb")
    case True
    then show ?thesis using eq nz unfolding m by (auto split: if_splits)
  next
    case False
    then have "(same_zone zs)\<^sup>*\<^sup>* c d" using eq assms(1) unfolding m zone_inv_def by auto
    then show ?thesis by (rule same_zone_snoc)
  qed
  with assms(1-3) show ?thesis unfolding zone_inv_def by auto
qed

lemma mark_ok:
  assumes "zone_inv rows zs" "map_of zs cur = Some z" "set nbs \<subseteq> set (neighbors rows cur)" "mark skip z nbs zs new = (zs', new')"
    and "\<forall>c \<in> set new. map_of zs c = Some z"
  shows "zone_inv rows zs' \<and> extends zs zs' \<and> snd ` set zs' \<subseteq> insert z (snd ` set zs) \<and> (\<forall>c \<in> set new'. map_of zs' c = Some z)"
  using assms
proof (induction nbs arbitrary: zs new)
  case (Cons nb nbs)
  show ?case
  proof (cases "skip nb \<or> dict_has zs nb")
    case False
    then have n: "nb \<notin> fst ` set zs" by simp
    have nb: "is_floor rows nb" "chebyshev_distance cur nb = 1" using Cons.prems(3) by (auto simp: neighbors_iff)
    let ?zs = "zs @ [(nb, z)]"
    have "mark skip z nbs ?zs (new @ [nb]) = (zs', new')" using Cons.prems(4) False by simp
    moreover have "\<forall>c \<in> set (new @ [nb]). map_of ?zs c = Some z" using Cons.prems(5) map_of_snoc[OF n] by auto
    moreover have "map_of ?zs cur = Some z" using Cons.prems(2) by simp
    ultimately have "zone_inv rows zs' \<and> extends ?zs zs' \<and> snd ` set zs' \<subseteq> insert z (snd ` set ?zs) \<and> (\<forall>c \<in> set new'. map_of zs' c = Some z)"
      using Cons.IH[OF zone_inv_grow[OF Cons.prems(1) n nb(1) Cons.prems(2) nb(2)]] Cons.prems(3) by auto
    then show ?thesis using extends_trans[of zs ?zs zs'] by auto
  qed (use Cons in auto)
qed auto

lemma flood_stack_ok:
  "zone_inv rows zs \<Longrightarrow> (\<forall>c \<in> set stack. map_of zs c = Some z) \<Longrightarrow>
   zone_inv rows (flood_stack rows skip z zs stack) \<and> extends zs (flood_stack rows skip z zs stack) \<and>
   snd ` set (flood_stack rows skip z zs stack) \<subseteq> insert z (snd ` set zs)"
proof (induction rows skip z zs stack rule: flood_stack.induct)
  case (2 rows skip z zs cur stack)
  obtain zs' new where m: "mark skip z (neighbors rows cur) zs [] = (zs', new)" by fastforce
  have k: "zone_inv rows zs'" "extends zs zs'" "snd ` set zs' \<subseteq> insert z (snd ` set zs)" "\<forall>c \<in> set new. map_of zs' c = Some z"
    using mark_ok[OF 2(2) _ subset_refl m] 2(3) by auto
  have "\<forall>c \<in> set (rev new @ stack). map_of zs' c = Some z" using k(4) 2(3) extends_map_of[OF k(2)] by auto
  from 2(1)[OF m[symmetric] k(1) this] show ?case using m extends_trans[OF k(2)] k(3) by (simp, blast)
qed auto

lemma flood_queue_ok:
  "zone_inv rows zs \<Longrightarrow> set q \<subseteq> fst ` set zs \<Longrightarrow>
   zone_inv rows (flood_queue rows zs q) \<and> extends zs (flood_queue rows zs q) \<and> snd ` set (flood_queue rows zs q) \<subseteq> snd ` set zs"
proof (induction rows zs q rule: flood_queue.induct)
  case (2 rows zs cur q)
  obtain z where z: "map_of zs cur = Some z" using 2(3) map_of_dom[of cur zs] by auto
  then have zd: "dict_get zs cur [] = z" and zi: "z \<in> snd ` set zs" by (auto simp: dict_get_def image_iff dest!: map_of_SomeD intro: bexI[of _ "(cur, z)"])
  obtain zs' new where m: "mark (\<lambda>_. False) z (neighbors rows cur) zs [] = (zs', new)" by fastforce
  have k: "zone_inv rows zs'" "extends zs zs'" "snd ` set zs' \<subseteq> snd ` set zs" "\<forall>c \<in> set new. map_of zs' c = Some z"
    using mark_ok[OF 2(2) z subset_refl m] zi by auto
  have "set new \<subseteq> fst ` set zs'" using k(4) map_of_dom by fastforce
  then have "set (q @ new) \<subseteq> fst ` set zs'" using 2(3) extends_keys[OF k(2)] by auto
  from 2(1)[OF m[unfolded zd[symmetric], symmetric] k(1) this] show ?case using m zd extends_trans[OF k(2)] k(3) by (simp, blast)
qed simp

definition fresh_from :: "nat \<Rightarrow> zone_map \<Rightarrow> bool" where
  "fresh_from k zs \<longleftrightarrow> (\<forall>z \<in> snd ` set zs. \<exists>i < k. z = zone_name i)"

lemma zone_name_inj: "zone_name i = zone_name j \<longleftrightarrow> i = j"
  by (simp add: zone_name_def show_nat_inj)

lemma component_zones_ok:
  assumes "zone_inv rows zs" "fresh_from zid zs" "\<forall>c \<in> set cells. is_floor rows c" "component_zones rows skip cells zid zs = (zid', zs')"
  shows "zone_inv rows zs' \<and> fresh_from zid' zs' \<and> extends zs zs' \<and> set cells \<subseteq> fst ` set zs'"
  using assms
proof (induction cells arbitrary: zid zs)
  case (Cons start rest)
  show ?case
  proof (cases "dict_has zs start")
    case True
    then have r: "zone_inv rows zs'" "fresh_from zid' zs'" "extends zs zs'" "set rest \<subseteq> fst ` set zs'"
      using Cons.IH[OF Cons.prems(1,2)] Cons.prems(3,4) by auto
    then show ?thesis using True extends_keys[OF r(3)] by auto
  next
    case False
    let ?z = "zone_name zid" let ?zs = "zs @ [(start, zone_name zid)]"
    define zs1 where "zs1 = flood_stack rows skip ?z ?zs [start]"
    have n: "start \<notin> fst ` set zs" using False by simp
    have fz: "?z \<notin> snd ` set zs"
    proof
      assume "?z \<in> snd ` set zs"
      then obtain i where "i < zid" "?z = zone_name i" using Cons.prems(2) unfolding fresh_from_def by blast
      then show False by (simp add: zone_name_inj)
    qed
    have i0: "zone_inv rows ?zs" using zone_inv_start[OF Cons.prems(1) n _ fz] Cons.prems(3) by simp
    have "\<forall>c \<in> set [start]. map_of ?zs c = Some ?z" using map_of_snoc[OF n] by simp
    from flood_stack_ok[OF i0 this, of skip] have k: "zone_inv rows zs1" "extends ?zs zs1" "snd ` set zs1 \<subseteq> insert ?z (snd ` set ?zs)"
      unfolding zs1_def by auto
    have "z = ?z \<or> z \<in> snd ` set zs" if "z \<in> snd ` set zs1" for z using k(3) that by auto
    then have fr: "fresh_from (zid + 1) zs1" using Cons.prems(2) unfolding fresh_from_def
      by (metis less_add_one trans_less_add1)
    have "component_zones rows skip rest (zid + 1) zs1 = (zid', zs')" using Cons.prems(4) False by (simp add: zs1_def)
    from Cons.IH[OF k(1) fr _ this] Cons.prems(3) have
      r: "zone_inv rows zs'" "fresh_from zid' zs'" "extends zs1 zs'" "set rest \<subseteq> fst ` set zs'" by auto
    have "extends ?zs zs'" using extends_trans[OF k(2) r(3)] .
    then show ?thesis using r extends_trans[of zs ?zs zs'] extends_keys[of ?zs zs'] by auto
  qed
qed simp

lemma zone_of_ok: "zone_inv rows (zone_of rows)" "fst ` set (zone_of rows) = {c. is_floor rows c}"
proof -
  define choke where "choke = (\<lambda>c. is_floor rows c \<and> orth_floor_count rows c \<le> 2)"
  obtain zid seed where s: "component_zones rows choke (filter (\<lambda>c. \<not> choke c) (floor_cells rows)) 0 [] = (zid, seed)" by fastforce
  define spread where "spread = flood_queue rows seed (seed_order seed)"
  obtain zid' zs where t: "component_zones rows (\<lambda>_. False) (floor_cells rows) zid spread = (zid', zs)" by fastforce
  have zo: "zone_of rows = zs" using s t by (simp add: zone_of_def Let_def choke_def spread_def)
  have k: "zone_inv rows seed" "fresh_from zid seed"
    using component_zones_ok[OF zone_inv_Nil _ _ s] by (simp_all add: fresh_from_def floor_cells_iff)
  have "set (seed_order seed) \<subseteq> fst ` set seed" by (simp add: seed_order_def)
  from flood_queue_ok[OF k(1) this] k(2) have sp: "zone_inv rows spread" "fresh_from zid spread"
    unfolding spread_def fresh_from_def by blast+
  from component_zones_ok[OF sp _ t] have
    r: "zone_inv rows zs" "set (floor_cells rows) \<subseteq> fst ` set zs" by (auto simp: floor_cells_iff)
  from r(1) zo show "zone_inv rows (zone_of rows)" by simp
  from r show "fst ` set (zone_of rows) = {c. is_floor rows c}" unfolding zo zone_inv_def using floor_cells_iff[of _ rows] by blast
qed

section \<open>Zone sets and adjacency\<close>

lemma map_of_map_default:
  "map_of (AList.map_default k v f xs) = (map_of xs)(k \<mapsto> (case map_of xs k of None \<Rightarrow> v | Some w \<Rightarrow> f w))"
  by (induction xs) (auto simp: fun_eq_iff)

lemma collect_zones_gen:
  assumes "\<And>z. map_of acc z = (if {c. (c, z) \<in> set done} = {} then None else Some {c. (c, z) \<in> set done})"
  shows "map_of (fold (\<lambda>(c, z). AList.map_default z {c} (insert c)) zs acc) z =
    (if {c. (c, z) \<in> set (done @ zs)} = {} then None else Some {c. (c, z) \<in> set (done @ zs)})"
  using assms
proof (induction zs arbitrary: acc "done")
  case (Cons p zs)
  obtain c y where p: "p = (c, y)" by fastforce
  have "map_of (AList.map_default y {c} (insert c) acc) z =
      (if {c. (c, z) \<in> set (done @ [p])} = {} then None else Some {c. (c, z) \<in> set (done @ [p])})" for z
    unfolding map_of_map_default using Cons.prems[of z] Cons.prems[of y] by (auto simp: p split: if_splits)
  from Cons.IH[OF this] show ?case by (simp add: p)
qed simp

lemma collect_zones_iff: "map_of (collect_zones zs) z = Some S \<longleftrightarrow> S \<noteq> {} \<and> S = {c. (c, z) \<in> set zs}"
  unfolding collect_zones_def using collect_zones_gen[of "[]" "[]" zs z] by auto

lemma keys_map_entry [simp]: "map fst (AList.map_entry k f xs) = map fst xs"
  by (induction xs) auto

lemma dict_get_map_entry:
  "dict_get (AList.map_entry k f xs) j d = (if j = k \<and> k \<in> fst ` set xs then f (dict_get xs k d) else dict_get xs j d)"
proof -
  have "map_of (AList.map_entry k f xs) j = (if j = k then map_option f (map_of xs j) else map_of xs j)"
    by (induction xs) auto
  then show ?thesis unfolding map_of_dom by (auto simp: dict_get_def split: option.splits)
qed

text \<open>The adjacency dictionary as a relation: every linking step adds pairs and keeps the keys.\<close>

definition adj_rel :: "(string \<times> string set) list \<Rightarrow> (string \<times> string) set" where
  "adj_rel adj = {(y, y'). y' \<in> dict_get adj y {}}"

definition new_links :: "zone_map \<Rightarrow> string \<Rightarrow> cell \<Rightarrow> (string \<times> string) set" where
  "new_links zs z nb = {(y, y'). y \<noteq> y' \<and> (y = z \<and> map_of zs nb = Some y' \<or> y' = z \<and> map_of zs nb = Some y)}"

lemma fold_adds:
  assumes "\<And>x a. x \<in> set xs \<Longrightarrow> K a \<Longrightarrow> K (f x a) \<and> R (f x a) = R a \<union> N x" "K a"
  shows "K (fold f xs a) \<and> R (fold f xs a) = R a \<union> (\<Union>x \<in> set xs. N x)"
  using assms
proof (induction xs arbitrary: a)
  case (Cons x xs)
  have "K (f x a)" "R (f x a) = R a \<union> N x" using Cons.prems by auto
  with Cons.IH[of "f x a"] Cons.prems(1) show ?case by auto
qed simp

lemma link_rel:
  assumes "z \<in> fst ` set adj" "nz \<in> fst ` set adj" "z \<noteq> nz"
  shows "adj_rel (link z nz adj) = adj_rel adj \<union> {(z, nz), (nz, z)}"
proof -
  have "fst ` set (AList.map_entry z (insert nz) adj) = fst ` set adj"
    using keys_map_entry[of z "insert nz" adj] by (metis list.set_map)
  then have "dict_get (link z nz adj) y {} =
      (if y = nz then insert z (dict_get adj y {}) else if y = z then insert nz (dict_get adj y {}) else dict_get adj y {})" for y
    using assms unfolding link_def by (simp add: dict_get_map_entry)
  then show ?thesis using assms(3) by (auto simp: adj_rel_def split: if_splits)
qed

lemma link_nb_rel:
  assumes "\<And>c z. map_of zs c = Some z \<Longrightarrow> z \<in> Z" "z \<in> Z" "fst ` set adj = Z"
  shows "fst ` set (link_nb zs z nb adj) = Z \<and> adj_rel (link_nb zs z nb adj) = adj_rel adj \<union> new_links zs z nb"
proof (cases "map_of zs nb")
  case None
  then show ?thesis using assms by (simp add: link_nb_def new_links_def)
next
  case (Some nz)
  show ?thesis
  proof (cases "nz = z")
    case True
    then show ?thesis using Some assms by (auto simp: link_nb_def new_links_def)
  next
    case False
    have "fst ` set (link z nz adj) = fst ` set adj"
      using keys_map_entry[of nz "insert z"] keys_map_entry[of z "insert nz" adj] unfolding link_def by (metis list.set_map)
    moreover have "new_links zs z nb = {(z, nz), (nz, z)}" using False Some by (auto simp: new_links_def)
    ultimately show ?thesis using False Some link_rel[of z adj nz] assms by (simp add: link_nb_def)
  qed
qed

lemma link_zones_rel:
  assumes "\<And>c z. map_of zs c = Some z \<Longrightarrow> z \<in> Z" "\<And>p. p \<in> set zs \<Longrightarrow> snd p \<in> Z" "fst ` set adj = Z"
  shows "adj_rel (link_zones rows zs adj) = adj_rel adj \<union> (\<Union>(c, z) \<in> set zs. \<Union>nb \<in> set (neighbors rows c). new_links zs z nb)"
proof -
  have "fst ` set (fold (link_nb zs z) nbs a) = Z \<and> adj_rel (fold (link_nb zs z) nbs a) = adj_rel a \<union> (\<Union>nb \<in> set nbs. new_links zs z nb)"
    if "fst ` set a = Z" "z \<in> Z" for a z nbs
    by (rule fold_adds[where K = "\<lambda>a. fst ` set a = Z" and R = adj_rel and N = "new_links zs z"])
      (rule link_nb_rel[OF assms(1) that(2)], assumption+, rule that(1))
  note inner = this
  have "fst ` set (link_zones rows zs adj) = Z \<and>
      adj_rel (link_zones rows zs adj) = adj_rel adj \<union> (\<Union>p \<in> set zs. \<Union>nb \<in> set (neighbors rows (fst p)). new_links zs (snd p) nb)"
    unfolding link_zones_def split_def
    by (rule fold_adds[where K = "\<lambda>a. fst ` set a = Z" and R = adj_rel])
      (rule inner, assumption, erule assms(2), rule assms(3))
  then show ?thesis by (simp add: split_def)
qed

lemma link_zones_iff:
  assumes "distinct (map fst zs)" "\<And>c. c \<in> fst ` set zs \<Longrightarrow> is_floor rows c" "fst ` set adj = snd ` set zs" "\<And>y. dict_get adj y {} = {}"
  shows "y' \<in> dict_get (link_zones rows zs adj) y {} \<longleftrightarrow>
    y \<noteq> y' \<and> (\<exists>c d. map_of zs c = Some y \<and> map_of zs d = Some y' \<and> chebyshev_distance c d = 1)"
proof -
  have in_zs: "(c, z) \<in> set zs \<longleftrightarrow> map_of zs c = Some z" for c z using map_of_eq_Some_iff[OF assms(1)] by simp
  have lab: "z \<in> snd ` set zs" if "map_of zs c = Some z" for c z using in_zs[of c z] that by force
  have nb: "nb \<in> set (neighbors rows c) \<longleftrightarrow> chebyshev_distance c nb = 1" if "map_of zs nb = Some z" for nb c z
    using that assms(2)[of nb] map_of_dom[of nb zs] by (auto simp: neighbors_iff)
  have "(y, y') \<in> adj_rel (link_zones rows zs adj) \<longleftrightarrow> (\<exists>c z nb. map_of zs c = Some z \<and> nb \<in> set (neighbors rows c) \<and> (y, y') \<in> new_links zs z nb)"
  proof -
    have "snd p \<in> snd ` set zs" if "p \<in> set zs" for p using that by blast
    note r = link_zones_rel[where rows = rows and zs = zs, OF lab this assms(3)]
    have "adj_rel adj = {}" by (simp add: adj_rel_def assms(4))
    with r have "(y, y') \<in> adj_rel (link_zones rows zs adj) \<longleftrightarrow>
        (\<exists>p \<in> set zs. \<exists>nb \<in> set (neighbors rows (fst p)). (y, y') \<in> new_links zs (snd p) nb)" by (simp add: split_def)
    then show ?thesis using in_zs by (metis fst_conv snd_conv prod.collapse)
  qed
  also have "\<dots> \<longleftrightarrow> y \<noteq> y' \<and> (\<exists>c d. map_of zs c = Some y \<and> map_of zs d = Some y' \<and> chebyshev_distance c d = 1)"
  proof
    assume "\<exists>c z nb. map_of zs c = Some z \<and> nb \<in> set (neighbors rows c) \<and> (y, y') \<in> new_links zs z nb"
    then obtain c z nb where *: "map_of zs c = Some z" "nb \<in> set (neighbors rows c)" "(y, y') \<in> new_links zs z nb" by blast
    then show "y \<noteq> y' \<and> (\<exists>c d. map_of zs c = Some y \<and> map_of zs d = Some y' \<and> chebyshev_distance c d = 1)"
      using cheb_sym[of c nb] unfolding new_links_def neighbors_iff by (auto intro: exI[of _ c] exI[of _ nb])
  next
    assume "y \<noteq> y' \<and> (\<exists>c d. map_of zs c = Some y \<and> map_of zs d = Some y' \<and> chebyshev_distance c d = 1)"
    then obtain c d where "y \<noteq> y'" "map_of zs c = Some y" "map_of zs d = Some y'" "chebyshev_distance c d = 1" by blast
    then show "\<exists>c z nb. map_of zs c = Some z \<and> nb \<in> set (neighbors rows c) \<and> (y, y') \<in> new_links zs z nb"
      using nb[of d y' c] by (intro exI[of _ c] exI[of _ y] exI[of _ d]) (simp add: new_links_def)
  qed
  finally show ?thesis by (simp add: adj_rel_def)
qed

lemma project_zones_props:
  fixes msk :: string
  defines "rows \<equiv> parse_mask msk" and "p \<equiv> project_zones msk"
  shows "zone_inv rows (cell_to_zone p)" "fst ` set (cell_to_zone p) = {c. is_floor rows c}"
    and "map_of (zones p) z = Some S \<longleftrightarrow> S \<noteq> {} \<and> S = {c. map_of (cell_to_zone p) c = Some z}"
    and "z' \<in> dict_get (adjacency p) z {} \<longleftrightarrow>
      z \<noteq> z' \<and> (\<exists>c d. map_of (cell_to_zone p) c = Some z \<and> map_of (cell_to_zone p) d = Some z' \<and> chebyshev_distance c d = 1)"
proof -
  have inv: "zone_inv rows (cell_to_zone p) \<and> fst ` set (cell_to_zone p) = {c. is_floor rows c}"
    using zone_of_ok[of rows] floor_cells_iff[of _ rows] by (auto simp: p_def project_zones_def rows_def Let_def zone_inv_def)
  then show "zone_inv rows (cell_to_zone p)" "fst ` set (cell_to_zone p) = {c. is_floor rows c}" by auto
  have in_zs: "(c, z) \<in> set (cell_to_zone p) \<longleftrightarrow> map_of (cell_to_zone p) c = Some z" for c z
    using inv map_of_eq_Some_iff[of "cell_to_zone p"] unfolding zone_inv_def by simp
  have zn: "zones p = collect_zones (cell_to_zone p)" by (auto simp: p_def project_zones_def Let_def collect_zones_def)
  show zi: "map_of (zones p) z = Some S \<longleftrightarrow> S \<noteq> {} \<and> S = {c. map_of (cell_to_zone p) c = Some z}" for z S
    unfolding zn collect_zones_iff in_zs by simp
  have adj: "adjacency p = link_zones rows (cell_to_zone p) (map (\<lambda>(z, _). (z, {})) (zones p))"
    by (auto simp: p_def project_zones_def rows_def Let_def link_zones_def)
  have keys: "fst ` set (map (\<lambda>(z, _). (z, {})) (zones p)) = snd ` set (cell_to_zone p)"
  proof -
    have "z \<in> fst ` set (zones p) \<longleftrightarrow> z \<in> snd ` set (cell_to_zone p)" for z
      unfolding map_of_dom zi using in_zs by (force simp: image_iff)
    then show ?thesis by (auto simp: image_image split_def)
  qed
  have "dict_get (map (\<lambda>(z, _). (z, {})) (zones p)) y {} = {}" for y
    by (auto simp: dict_get_def split_def dest!: map_of_SomeD split: option.splits)
  from link_zones_iff[OF zone_invD(2)[OF conjunct1[OF inv]] zone_invD(3)[OF conjunct1[OF inv]] keys this] show "z' \<in> dict_get (adjacency p) z {} \<longleftrightarrow>
      z \<noteq> z' \<and> (\<exists>c d. map_of (cell_to_zone p) c = Some z \<and> map_of (cell_to_zone p) d = Some z' \<and> chebyshev_distance c d = 1)"
    unfolding adj .
qed

end
