(* ===== verification/Tactical_Seating.thy ===== *)
theory Tactical_Seating
  imports Tactical_Grid Encounter Float64
begin

text \<open>
  Where tokens stand: the tactical features and anchors of a procedural room
  (src/sidequest/dungeon/tactical.py) and the seating of encounter actors on them
  (src/sidequest/game/tactical/seating.py). The hash behind the room's seed is a parameter. Actors are
  told apart by their position in the encounter's list, as the objects they are, not by name.
\<close>

section \<open>Features of a room\<close>

definition WATER_THEMES :: "string set" where "WATER_THEMES = {''drowned_cavern''}"
definition WATER_FRACTION :: rat where "WATER_FRACTION = lit 18 100"

record feature_cell =
  feature_type :: string
  feature_at :: cell
  feature_label :: string

record token_anchor =
  anchor_cell :: cell
  anchor_role :: string

record region_tactical =
  tactical_region :: string
  features :: "feature_cell list"
  anchors :: "token_anchor list"
  pois :: "cell list"
  exit_thresholds :: "(string \<times> cell) list"

definition region_seed :: "(string \<Rightarrow> nat list) \<Rightarrow> string \<Rightarrow> int" where
  "region_seed sha256 region_id = int (from_bytes_big (take 8 (sha256 region_id)))"

text \<open>A grid is a list of rows of numbers, 0 for floor.\<close>

definition grid_floor :: "int list list \<Rightarrow> cell list" where
  "grid_floor grid = concat (map (\<lambda>y. map (\<lambda>x. (int x, int y)) (filter (\<lambda>x. grid ! y ! x = 0) [0..<length (grid ! y)]))
     [0..<length grid])"

definition floor_neighbors :: "int list list \<Rightarrow> cell \<Rightarrow> nat" where
  "floor_neighbors grid c =
     length (filter (\<lambda>s. let nx = fst c + fst s; ny = snd c + snd s in
       0 \<le> ny \<and> ny < int (length grid) \<and> 0 \<le> nx \<and> nx < int (length (grid ! nat ny)) \<and> grid ! nat ny ! nat nx = 0)
       [(1, 0), (-1, 0), (0, 1), (0, -1)])"

definition chokepoints :: "int list list \<Rightarrow> cell list" where
  "chokepoints grid = filter (\<lambda>c. floor_neighbors grid c \<le> 2) (grid_floor grid)"

fun rotation :: "'a list \<Rightarrow> nat \<Rightarrow> nat \<Rightarrow> nat \<Rightarrow> 'a list" where
  "rotation pool step 0 i = []"
| "rotation pool step (Suc k) i = pool ! (i mod length pool) # rotation pool step k (i + step)"

fun dedup :: "'a set \<Rightarrow> 'a list \<Rightarrow> 'a list" where
  "dedup seen [] = []"
| "dedup seen (c # cs) = (if c \<in> seen then dedup seen cs else c # dedup (insert c seen) cs)"

fun top_up :: "nat \<Rightarrow> 'a list \<Rightarrow> 'a list \<Rightarrow> 'a list" where
  "top_up k uniq [] = uniq"
| "top_up k uniq (c # cs) =
     (if length uniq \<ge> k then uniq else if c \<in> set uniq then top_up k uniq cs else top_up k (uniq @ [c]) cs)"

definition deterministic_sample :: "'a list \<Rightarrow> int \<Rightarrow> int \<Rightarrow> 'a list" where
  "deterministic_sample pool k seed =
     (if k \<le> 0 \<or> pool = [] then []
      else if k \<ge> int (length pool) then pool
      else let start = nat (seed mod int (length pool));
               step = max 1 (length pool div nat k);
               out = rotation pool step (nat k) start;
               uniq = dedup {} out
           in take (nat k) (top_up (nat k) uniq pool))"

definition spaced :: "string \<Rightarrow> string" where
  "spaced piece = map (\<lambda>ch. if ch = CHR ''_'' then CHR '' '' else ch) piece"

definition choke_features :: "int list list \<Rightarrow> feature_cell list" where
  "choke_features grid =
     map (\<lambda>c. \<lparr>feature_type = ''difficult_terrain'', feature_at = c, feature_label = ''a tight squeeze - the passage narrows''\<rparr>)
       (chokepoints grid)"

definition water_features :: "int list list \<Rightarrow> string \<Rightarrow> int \<Rightarrow> feature_cell list" where
  "water_features grid theme_key seed =
     (if theme_key \<in> WATER_THEMES
      then let non_choke = filter (\<lambda>c. c \<notin> set (chokepoints grid)) (grid_floor grid);
               k = max 1 (trunc (rnd (of_nat (length non_choke) * WATER_FRACTION)))
           in map (\<lambda>c. \<lparr>feature_type = ''water'', feature_at = c, feature_label = ''black water, depth uncertain''\<rparr>)
                (deterministic_sample non_choke k seed)
      else [])"

definition hazard_features :: "int list list \<Rightarrow> string list \<Rightarrow> int \<Rightarrow> feature_cell list" where
  "hazard_features grid pieces seed =
     map (\<lambda>(piece, c). \<lparr>feature_type = ''hazard'', feature_at = c, feature_label = spaced piece @ '' - unstable''\<rparr>)
       (zip pieces (deterministic_sample (grid_floor grid) (int (length pieces)) (Bit_Operations.xor seed 0x9E3779B9)))"

definition room_anchors :: "int list list \<Rightarrow> int \<Rightarrow> int \<Rightarrow> token_anchor list" where
  "room_anchors grid creature_count seed =
     (let floor = grid_floor grid in
      if floor = [] then []
      else let rest = (if tl floor = [] then floor else tl floor)
           in \<lparr>anchor_cell = hd floor, anchor_role = ''entrance''\<rparr> #
              map (\<lambda>c. \<lparr>anchor_cell = c, anchor_role = ''creature''\<rparr>)
                (deterministic_sample rest creature_count (Bit_Operations.xor seed 0x85EBCA6B)))"

definition thresholds_for :: "int list list \<Rightarrow> string list \<Rightarrow> int \<Rightarrow> (string \<times> cell) list" where
  "thresholds_for grid neighbor_ids seed =
     (if grid_floor grid = [] \<or> neighbor_ids = [] then []
      else fold (\<lambda>(nid, c). AList.update nid c)
             (zip neighbor_ids (deterministic_sample (grid_floor grid) (int (length neighbor_ids)) (Bit_Operations.xor seed 0xC2B2AE35))) [])"

definition derive_region_tactical ::
  "(string \<Rightarrow> nat list) \<Rightarrow> string \<Rightarrow> int list list \<Rightarrow> string \<Rightarrow> string list \<Rightarrow> string list \<Rightarrow> int \<Rightarrow> region_tactical" where
  "derive_region_tactical sha256 region_id grid theme_key neighbor_ids hazard_setpieces creature_count =
     (let seed = region_seed sha256 region_id;
          fs = choke_features grid @ water_features grid theme_key seed @ hazard_features grid hazard_setpieces seed
      in \<lparr>tactical_region = region_id, features = fs, anchors = room_anchors grid creature_count seed,
          pois = map feature_at (filter (\<lambda>f. feature_type f \<in> {''hazard'', ''interactable''}) fs),
          exit_thresholds = thresholds_for grid neighbor_ids seed\<rparr>)"

section \<open>Seating\<close>

text \<open>\<open>per_actor_state["cell"]\<close> of an actor.\<close>

record seated_actor = encounter_actor +
  seat_cell :: "cell option"

definition anchors_of :: "string \<Rightarrow> token_anchor list \<Rightarrow> cell list" where
  "anchors_of r as = map anchor_cell (filter (\<lambda>a. anchor_role a = r) as)"

definition take_cell :: "cell list list \<Rightarrow> cell set \<Rightarrow> cell option" where
  "take_cell pools used = find (\<lambda>c. c \<notin> used) (concat pools)"

definition seat_priority :: "actor_side \<Rightarrow> seated_actor \<Rightarrow> nat" where
  "seat_priority player_side a = (if side a = player_side then 0 else if side a = Opponent then 1 else 2)"

type_synonym seating = "seated_actor list \<times> (string \<times> cell) list \<times> cell set"

definition seat_one :: "actor_side \<Rightarrow> cell list \<Rightarrow> cell list \<Rightarrow> nat \<Rightarrow> seating \<Rightarrow> seating" where
  "seat_one player_side entrance creature i = (\<lambda>(acts, placed, used).
     let a = acts ! i in
     case take_cell (if side a = player_side then [entrance, creature] else [creature, entrance]) used of
       None \<Rightarrow> (acts, placed, used)
     | Some c \<Rightarrow> (acts[i := a\<lparr>seat_cell := Some c\<rparr>], AList.update (actor_name a) c placed, insert c used))"

definition already_placed :: "seated_actor list \<Rightarrow> (string \<times> cell) list" where
  "already_placed acts = fold (\<lambda>a. case seat_cell a of None \<Rightarrow> id | Some c \<Rightarrow> AList.update (actor_name a) c) acts []"

definition seat_order :: "actor_side \<Rightarrow> seated_actor list \<Rightarrow> nat list" where
  "seat_order player_side acts =
     sort_key (\<lambda>i. seat_priority player_side (acts ! i)) (filter (\<lambda>i. seat_cell (acts ! i) = None) [0..<length acts])"

definition seat_actor_cells ::
  "actor_side \<Rightarrow> token_anchor list \<Rightarrow> seated_actor list \<Rightarrow> (string \<times> cell) list \<times> seated_actor list" where
  "seat_actor_cells player_side as acts =
     (let used = set (List.map_filter seat_cell acts);
          (acts', placed, _) = fold (seat_one player_side (anchors_of ''entrance'' as) (anchors_of ''creature'' as))
             (seat_order player_side acts) (acts, already_placed acts, used)
      in (placed, acts'))"

section \<open>Sampling\<close>

lemma dedup_props: "distinct (dedup seen xs)" "set (dedup seen xs) = set xs - seen" "length (dedup seen xs) \<le> length xs"
  by (induction xs arbitrary: seen) (auto intro: le_SucI)

lemma top_up_props:
  assumes "distinct uniq" "set uniq \<subseteq> S" "set pool \<subseteq> S"
  shows "distinct (top_up k uniq pool)" "set (top_up k uniq pool) \<subseteq> S"
    and "length uniq \<le> k \<Longrightarrow> k \<le> card (set uniq \<union> set pool) \<Longrightarrow> length (top_up k uniq pool) = k"
  using assms
proof (induction pool arbitrary: uniq)
  case Nil
  {
    case 3
    then show ?case using distinct_card[of uniq] by simp
  }
qed (auto simp: insert_absorb distinct_card)

lemma rotation_props: "pool \<noteq> [] \<Longrightarrow> set (rotation pool step k i) \<subseteq> set pool" "length (rotation pool step k i) = k"
  by (induction k arbitrary: i) auto

lemma deterministic_sample_props:
  assumes "distinct pool"
  shows "distinct (deterministic_sample pool k seed)" "set (deterministic_sample pool k seed) \<subseteq> set pool"
    and "length (deterministic_sample pool k seed) = min (nat k) (length pool)"
proof -
  define out where "out = rotation pool (max 1 (length pool div nat k)) (nat k) (nat (seed mod int (length pool)))"
  define res where "res = top_up (nat k) (dedup {} out) pool"
  have main: "distinct res \<and> set res \<subseteq> set pool \<and> length res = nat k" if "pool \<noteq> []" "nat k \<le> length pool"
  proof -
    have o: "set out \<subseteq> set pool" "length out = nat k" unfolding out_def by (rule rotation_props(1)[OF that(1)], rule rotation_props(2))
    have u: "distinct (dedup {} out)" "set (dedup {} out) \<subseteq> set pool" "length (dedup {} out) \<le> nat k"
      using dedup_props[of "{}" out] o by auto
    have "nat k \<le> card (set (dedup {} out) \<union> set pool)" using u(2) that(2) assms by (simp add: sup.absorb2 distinct_card)
    then show ?thesis using top_up_props[OF u(1,2) subset_refl, of "nat k"] u(3) unfolding res_def by simp
  qed
  have "deterministic_sample pool k seed = (if k \<le> 0 \<or> pool = [] then [] else if k \<ge> int (length pool) then pool else take (nat k) res)"
    by (simp add: deterministic_sample_def res_def out_def Let_def)
  then show "distinct (deterministic_sample pool k seed)" "set (deterministic_sample pool k seed) \<subseteq> set pool"
      "length (deterministic_sample pool k seed) = min (nat k) (length pool)"
    using main assms by (auto simp: min_def dest: in_set_takeD)
qed

lemma grid_floor_iff:
  "c \<in> set (grid_floor grid) \<longleftrightarrow> 0 \<le> fst c \<and> 0 \<le> snd c \<and> nat (snd c) < length grid \<and>
     nat (fst c) < length (grid ! nat (snd c)) \<and> grid ! nat (snd c) ! nat (fst c) = 0"
proof (cases c)
  case (Pair x y)
  have "(x, y) \<in> set (grid_floor grid)" if "0 \<le> x" "0 \<le> y" "nat y < length grid" "nat x < length (grid ! nat y)" "grid ! nat y ! nat x = 0"
    using that unfolding grid_floor_def by (auto intro!: bexI[of _ "nat y"] image_eqI[of _ _ "nat x"])
  then show ?thesis by (auto simp: Pair grid_floor_def)
qed

lemma distinct_grid_floor: "distinct (grid_floor grid)"
proof -
  have "distinct (concat (map (\<lambda>y. map (\<lambda>x. (int x, int y)) (filter (P y) [0..<n y])) ys))" if "distinct ys" for ys P n
    using that by (induction ys) (auto simp: distinct_map inj_on_def)
  then show ?thesis unfolding grid_floor_def by simp
qed

section \<open>Who sits where\<close>

declare split_paired_All [simp del] split_paired_Ex [simp del]

definition occupied :: "seated_actor list \<Rightarrow> cell set" where
  "occupied acts = {c. \<exists>i < length acts. seat_cell (acts ! i) = Some c}"

definition no_overlap :: "seated_actor list \<Rightarrow> bool" where
  "no_overlap acts \<longleftrightarrow> (\<forall>i < length acts. \<forall>j < length acts. i \<noteq> j \<longrightarrow> seat_cell (acts ! i) \<noteq> None \<longrightarrow> seat_cell (acts ! i) \<noteq> seat_cell (acts ! j))"

text \<open>\<open>seats_more A acts acts'\<close>: only empty seats were filled, with cells of \<open>A\<close> that were free.\<close>

definition seats_more :: "cell set \<Rightarrow> seated_actor list \<Rightarrow> seated_actor list \<Rightarrow> bool" where
  "seats_more A acts acts' \<longleftrightarrow> length acts' = length acts \<and>
     (\<forall>i < length acts. acts' ! i = acts ! i \<or>
        seat_cell (acts ! i) = None \<and> (\<exists>c \<in> A. acts' ! i = (acts ! i)\<lparr>seat_cell := Some c\<rparr>))"

lemma seats_more_refl [simp]: "seats_more A acts acts"
  by (simp add: seats_more_def)

lemma seats_more_trans: "seats_more A a b \<Longrightarrow> seats_more A b c \<Longrightarrow> seats_more A a c"
  unfolding seats_more_def by (elim conjE, intro conjI allI impI; fastforce)

lemma seats_more_occupied: "seats_more A acts acts' \<Longrightarrow> occupied acts \<subseteq> occupied acts'"
  unfolding seats_more_def occupied_def by fastforce

lemma used_occupied: "set (List.map_filter seat_cell acts) = occupied acts"
  unfolding occupied_def by (force simp: map_filter_def in_set_conv_nth image_iff)

definition consistent :: "seating \<Rightarrow> bool" where
  "consistent st \<longleftrightarrow> no_overlap (fst st) \<and> snd (snd st) = occupied (fst st)"

lemma seat_one_cases:
  assumes "consistent (acts, placed, used)" "i < length acts" "seat_cell (acts ! i) = None"
  obtains "seat_one ps en cr i (acts, placed, used) = (acts, placed, used)" "set en \<union> set cr \<subseteq> occupied acts"
  | c where "c \<in> set en \<union> set cr" "c \<notin> occupied acts" "seat_one ps en cr i (acts, placed, used) =
        (acts[i := (acts ! i)\<lparr>seat_cell := Some c\<rparr>], AList.update (actor_name (acts ! i)) c placed, insert c used)"
proof -
  have used: "used = occupied acts" using assms(1) by (simp add: consistent_def)
  let ?pools = "if side (acts ! i) = ps then [en, cr] else [cr, en]"
  have pools: "set (concat ?pools) = set en \<union> set cr" by auto
  show ?thesis
  proof (cases "take_cell ?pools used")
    case None
    then have "set en \<union> set cr \<subseteq> occupied acts" using pools used unfolding take_cell_def find_None_iff by blast
    then show ?thesis using that(1) None by (simp add: seat_one_def Let_def)
  next
    case (Some c)
    then have "c \<in> set en \<union> set cr" "c \<notin> occupied acts" using pools used unfolding take_cell_def find_Some_iff by (metis nth_mem)+
    then show ?thesis using that(2) Some by (simp add: seat_one_def Let_def)
  qed
qed

lemma consistent_update:
  assumes "consistent (acts, placed, used)" "i < length acts" "seat_cell (acts ! i) = None" "c \<notin> occupied acts"
  shows "consistent (acts[i := (acts ! i)\<lparr>seat_cell := Some c\<rparr>], placed', insert c used)"
proof -
  have free: "seat_cell (acts ! j) \<noteq> Some c" if "j < length acts" for j using assms(4) that by (auto simp: occupied_def)
  let ?acts = "acts[i := (acts ! i)\<lparr>seat_cell := Some c\<rparr>]"
  have "occupied ?acts = insert c (occupied acts)"
  proof (intro set_eqI iffI)
    fix d assume "d \<in> occupied ?acts"
    then show "d \<in> insert c (occupied acts)" using assms(2) by (auto simp: occupied_def nth_list_update split: if_splits)
  next
    fix d assume "d \<in> insert c (occupied acts)"
    then consider "d = c" | j where "j < length acts" "seat_cell (acts ! j) = Some d" by (auto simp: occupied_def)
    then show "d \<in> occupied ?acts"
    proof cases
      case 1
      then show ?thesis using assms(2) by (auto simp: occupied_def intro!: exI[of _ i])
    next
      case (2 j)
      then have "j \<noteq> i" using assms(3) by auto
      then show ?thesis using 2 by (auto simp: occupied_def intro!: exI[of _ j])
    qed
  qed
  moreover have "no_overlap ?acts" unfolding no_overlap_def
  proof (intro allI impI)
    fix j k assume *: "j < length ?acts" "k < length ?acts" "j \<noteq> k" "seat_cell (?acts ! j) \<noteq> None"
    then show "seat_cell (?acts ! j) \<noteq> seat_cell (?acts ! k)"
      using assms(1,2) free[of j] free[of k] unfolding consistent_def no_overlap_def by (cases "j = i"; cases "k = i") (auto simp: nth_list_update)
  qed
  ultimately show ?thesis using assms(1) by (simp add: consistent_def)
qed

text \<open>One run of the seating loop: who it serves either gets a free anchor or found all anchors taken.\<close>

lemma seat_loop_ok:
  assumes "consistent (acts, placed, used)" "distinct is" "\<forall>i \<in> set is. i < length acts \<and> seat_cell (acts ! i) = None"
    and "fold (seat_one ps en cr) is (acts, placed, used) = (acts', placed', used')"
  shows "consistent (acts', placed', used') \<and> seats_more (set en \<union> set cr) acts acts' \<and>
    (\<forall>i < length acts. i \<notin> set is \<longrightarrow> acts' ! i = acts ! i) \<and>
    (\<forall>i \<in> set is. seat_cell (acts' ! i) = None \<longrightarrow> set en \<union> set cr \<subseteq> occupied acts')"
  using assms
proof (induction "is" arbitrary: acts placed used)
  case (Cons i "is")
  have i: "i < length acts" "seat_cell (acts ! i) = None" "i \<notin> set is" using Cons.prems(2,3) by auto
  from Cons.prems(1) i(1,2) show ?case
  proof (cases rule: seat_one_cases[of acts placed used i ps en cr])
    case 1
    have "fold (seat_one ps en cr) is (acts, placed, used) = (acts', placed', used')" using Cons.prems(4) 1 by simp
    with Cons.IH[OF Cons.prems(1)] Cons.prems(2,3) have
      r: "consistent (acts', placed', used')" "seats_more (set en \<union> set cr) acts acts'"
        "\<forall>i < length acts. i \<notin> set is \<longrightarrow> acts' ! i = acts ! i"
        "\<forall>i \<in> set is. seat_cell (acts' ! i) = None \<longrightarrow> set en \<union> set cr \<subseteq> occupied acts'" by auto
    then show ?thesis using 1(2) seats_more_occupied[OF r(2)] by auto
  next
    case (2 c)
    let ?acts = "acts[i := (acts ! i)\<lparr>seat_cell := Some c\<rparr>]"
    have con: "consistent (?acts, AList.update (actor_name (acts ! i)) c placed, insert c used)"
      using consistent_update[OF Cons.prems(1) i(1,2) 2(2)] .
    have more: "seats_more (set en \<union> set cr) acts ?acts" using i 2(1) by (auto simp: seats_more_def nth_list_update)
    have "fold (seat_one ps en cr) is (?acts, AList.update (actor_name (acts ! i)) c placed, insert c used) = (acts', placed', used')"
      using Cons.prems(4) 2(3) by simp
    note eq = this
    have later: "\<forall>j \<in> set is. j < length ?acts \<and> seat_cell (?acts ! j) = None" using Cons.prems(3) i(3) by (auto simp: nth_list_update)
    have "distinct is" using Cons.prems(2) by simp
    from Cons.IH[OF con this later eq] have
      r: "consistent (acts', placed', used')" "seats_more (set en \<union> set cr) ?acts acts'"
        "\<forall>i < length acts. i \<notin> set is \<longrightarrow> acts' ! i = ?acts ! i"
        "\<forall>i \<in> set is. seat_cell (acts' ! i) = None \<longrightarrow> set en \<union> set cr \<subseteq> occupied acts'"
      by auto
    then have "seat_cell (acts' ! i) \<noteq> None" using i by simp
    then show ?thesis using r seats_more_trans[OF more r(2)] by (auto simp: nth_list_update)
  qed
qed auto

lemma seat_loop_full:
  assumes "set en \<union> set cr \<subseteq> used"
  shows "fold (seat_one ps en cr) is (acts, placed, used) = (acts, placed, used)"
proof (induction "is")
  case (Cons i "is")
  have "take_cell pools used = None" if "pools \<in> {[en, cr], [cr, en]}" for pools
    using assms that by (auto simp: take_cell_def find_None_iff)
  then have "seat_one ps en cr i (acts, placed, used) = (acts, placed, used)" by (simp add: seat_one_def Let_def)
  with Cons show ?case by simp
qed simp

lemma seat_order_props:
  "distinct (seat_order ps acts)" "set (seat_order ps acts) = {i. i < length acts \<and> seat_cell (acts ! i) = None}"
  by (auto simp: seat_order_def)

lemma seat_order_split:
  obtains first rest where "seat_order ps acts = first @ rest"
    "set first = {i. i < length acts \<and> seat_cell (acts ! i) = None \<and> side (acts ! i) = ps}"
proof -
  define key where "key = (\<lambda>i. seat_priority ps (acts ! i))"
  define xs where "xs = seat_order ps acts"
  have srt: "sorted (map key xs)" by (simp add: xs_def key_def seat_order_def)
  have zero: "key i = 0 \<longleftrightarrow> side (acts ! i) = ps" for i by (simp add: key_def seat_priority_def)
  have "set (takeWhile (\<lambda>i. key i = 0) ys) = {i \<in> set ys. key i = 0}" if "sorted (map key ys)" for ys
    using that by (induction ys) (auto dest: set_takeWhileD)
  from this[OF srt] have "set (takeWhile (\<lambda>i. key i = 0) xs) = {i. i < length acts \<and> seat_cell (acts ! i) = None \<and> side (acts ! i) = ps}"
    using seat_order_props(2)[of ps acts] zero by (auto simp: xs_def)
  then show ?thesis using that[of "takeWhile (\<lambda>i. key i = 0) xs" "dropWhile (\<lambda>i. key i = 0) xs"] xs_def by simp
qed

section \<open>The returned map of names to cells\<close>

definition placed_ok :: "seated_actor list \<Rightarrow> (string \<times> cell) list \<Rightarrow> bool" where
  "placed_ok acts placed \<longleftrightarrow> (\<forall>n c. map_of placed n = Some c \<longleftrightarrow> (\<exists>i < length acts. actor_name (acts ! i) = n \<and> seat_cell (acts ! i) = Some c))"

lemma already_placed_ok:
  assumes "distinct (map actor_name acts)"
  shows "placed_ok acts (already_placed acts)"
proof -
  let ?step = "\<lambda>a. case seat_cell a of None \<Rightarrow> id | Some c \<Rightarrow> AList.update (actor_name a) c"
  have gen: "map_of (fold ?step xs d) n = Some c \<longleftrightarrow>
      (\<exists>a \<in> set xs. actor_name a = n \<and> seat_cell a = Some c) \<or> (map_of d n = Some c \<and> (\<forall>a \<in> set xs. actor_name a = n \<longrightarrow> seat_cell a = None))"
    if "distinct (map actor_name xs)" for xs d n c
    using that
  proof (induction xs arbitrary: d)
    case (Cons a xs)
    have n: "\<And>b. b \<in> set xs \<Longrightarrow> actor_name b \<noteq> actor_name a" "distinct (map actor_name xs)"
      using Cons.prems by (force simp: image_iff)+
    have "map_of (fold ?step (a # xs) d) n = Some c \<longleftrightarrow> (\<exists>a \<in> set xs. actor_name a = n \<and> seat_cell a = Some c) \<or>
        (map_of (?step a d) n = Some c \<and> (\<forall>a \<in> set xs. actor_name a = n \<longrightarrow> seat_cell a = None))"
      using Cons.IH[OF n(2)] by simp
    then show ?case using n(1) by (cases "seat_cell a"; cases "n = actor_name a") (auto simp: update_conv')
  qed simp
  have idx: "(\<exists>a \<in> set acts. actor_name a = n \<and> seat_cell a = Some c) \<longleftrightarrow>
      (\<exists>i < length acts. actor_name (acts ! i) = n \<and> seat_cell (acts ! i) = Some c)" for n c
    by (metis in_set_conv_nth)
  show ?thesis unfolding placed_ok_def already_placed_def gen[OF assms] idx by simp
qed

lemma placed_ok_update:
  assumes "placed_ok acts placed" "distinct (map actor_name acts)" "i < length acts" "seat_cell (acts ! i) = None"
  shows "placed_ok (acts[i := (acts ! i)\<lparr>seat_cell := Some c\<rparr>]) (AList.update (actor_name (acts ! i)) c placed)"
proof -
  have uniq: "j = i" if "j < length acts" "actor_name (acts ! j) = actor_name (acts ! i)" for j
    using nth_eq_iff_index_eq[OF assms(2)] that assms(3) by simp
  have none: "map_of placed (actor_name (acts ! i)) = None"
    using assms(1,4) uniq unfolding placed_ok_def by (metis not_Some_eq option.distinct(1))
  show ?thesis unfolding placed_ok_def
  proof (intro allI)
    fix n d
    show "map_of (AList.update (actor_name (acts ! i)) c placed) n = Some d \<longleftrightarrow>
      (\<exists>j < length (acts[i := (acts ! i)\<lparr>seat_cell := Some c\<rparr>]). actor_name (acts[i := (acts ! i)\<lparr>seat_cell := Some c\<rparr>] ! j) = n \<and>
         seat_cell (acts[i := (acts ! i)\<lparr>seat_cell := Some c\<rparr>] ! j) = Some d)"
    proof (cases "n = actor_name (acts ! i)")
      case True
      then show ?thesis using uniq assms(3) by (auto simp: update_conv' nth_list_update)
    next
      case False
      have "(\<exists>j < length acts. actor_name (acts ! j) = n \<and> seat_cell (acts ! j) = Some d) \<longleftrightarrow>
        (\<exists>j < length acts. j \<noteq> i \<and> actor_name (acts ! j) = n \<and> seat_cell (acts ! j) = Some d)" using False by auto
      moreover have "(\<exists>j < length (acts[i := (acts ! i)\<lparr>seat_cell := Some c\<rparr>]). actor_name (acts[i := (acts ! i)\<lparr>seat_cell := Some c\<rparr>] ! j) = n \<and>
         seat_cell (acts[i := (acts ! i)\<lparr>seat_cell := Some c\<rparr>] ! j) = Some d) \<longleftrightarrow>
         (\<exists>j < length acts. j \<noteq> i \<and> actor_name (acts ! j) = n \<and> seat_cell (acts ! j) = Some d)"
        using False assms(3) by (auto simp: nth_list_update split: if_splits)
      moreover have "map_of (AList.update (actor_name (acts ! i)) c placed) n = map_of placed n" using False by (simp add: update_conv')
      ultimately show ?thesis using assms(1) unfolding placed_ok_def by metis
    qed
  qed
qed

lemma seat_loop_placed:
  assumes "consistent (acts, placed, used)" "distinct is" "\<forall>i \<in> set is. i < length acts \<and> seat_cell (acts ! i) = None"
    and "fold (seat_one ps en cr) is (acts, placed, used) = (acts', placed', used')" "distinct (map actor_name acts)" "placed_ok acts placed"
  shows "placed_ok acts' placed'"
  using assms
proof (induction "is" arbitrary: acts placed used)
  case (Cons i "is")
  have i: "i < length acts" "seat_cell (acts ! i) = None" "i \<notin> set is" using Cons.prems(2,3) by auto
  from Cons.prems(1) i(1,2) show ?case
  proof (cases rule: seat_one_cases[of acts placed used i ps en cr])
    case 1
    then show ?thesis using Cons.IH[OF Cons.prems(1)] Cons.prems(2-6) by simp
  next
    case (2 c)
    let ?acts = "acts[i := (acts ! i)\<lparr>seat_cell := Some c\<rparr>]"
    have names: "map actor_name ?acts = map actor_name acts" by (simp add: map_update) (metis i(1) list_update_id map_update nth_map)
    have later: "\<forall>j \<in> set is. j < length ?acts \<and> seat_cell (?acts ! j) = None" using Cons.prems(3) i(3) by (auto simp: nth_list_update)
    have eq: "fold (seat_one ps en cr) is (?acts, AList.update (actor_name (acts ! i)) c placed, insert c used) = (acts', placed', used')"
      using Cons.prems(4) 2(3) by simp
    show ?thesis
      using Cons.IH[OF consistent_update[OF Cons.prems(1) i(1,2) 2(2)] _ later eq] Cons.prems(2,5) names
        placed_ok_update[OF Cons.prems(6,5) i(1,2)] by simp
  qed
qed simp

text \<open>The actors of the player side come first in the order, so a player who finds no anchor leaves none to others.\<close>

lemma players_first:
  assumes con: "consistent (acts, placed, used)"
    and fold: "fold (seat_one ps en cr) (seat_order ps acts) (acts, placed, used) = (acts', placed', used')"
    and i: "i < length acts" "side (acts ! i) = ps" "seat_cell (acts' ! i) = None" and j: "j < length acts" "side (acts ! j) \<noteq> ps"
  shows "acts' ! j = acts ! j"
proof -
  obtain first rest where s: "seat_order ps acts = first @ rest"
    "set first = {i. i < length acts \<and> seat_cell (acts ! i) = None \<and> side (acts ! i) = ps}" by (rule seat_order_split)
  obtain a1 p1 u1 where 1: "fold (seat_one ps en cr) first (acts, placed, used) = (a1, p1, u1)" using prod_cases3 by blast
  have d: "distinct first" using seat_order_props(1)[of ps acts] s(1) by simp
  have "\<forall>i \<in> set first. i < length acts \<and> seat_cell (acts ! i) = None" using s(2) by simp
  note r1 = seat_loop_ok[OF con d this 1]
  have 2: "fold (seat_one ps en cr) rest (a1, p1, u1) = (acts', placed', used')" using fold s(1) 1 by simp
  have none: "seat_cell (acts ! i) = None"
  proof (rule ccontr)
    assume "seat_cell (acts ! i) \<noteq> None"
    moreover have "\<forall>i \<in> set (seat_order ps acts). i < length acts \<and> seat_cell (acts ! i) = None" by (simp add: seat_order_props)
    ultimately show False using seat_loop_ok[OF con seat_order_props(1) _ fold] i(1,3) seat_order_props(2)[of ps acts] by force
  qed
  have later: "\<forall>k \<in> set rest. k < length a1 \<and> seat_cell (a1 ! k) = None"
  proof
    fix k assume k: "k \<in> set rest"
    then have "k < length acts" "seat_cell (acts ! k) = None" using seat_order_props(2)[of ps acts] s(1) by auto
    moreover have "k \<notin> set first" using seat_order_props(1)[of ps acts] s(1) k by auto
    ultimately show "k < length a1 \<and> seat_cell (a1 ! k) = None" using r1 by (auto simp: seats_more_def)
  qed
  have dr: "distinct rest" using seat_order_props(1)[of ps acts] s(1) by simp
  note r2 = seat_loop_ok[OF conjunct1[OF r1] dr later 2]
  have "seat_cell (a1 ! i) = None"
  proof (rule ccontr)
    assume a: "seat_cell (a1 ! i) \<noteq> None"
    have "i < length a1" using r1 i(1) by (simp add: seats_more_def)
    moreover have "i \<notin> set rest"
    proof
      assume "i \<in> set rest"
      from bspec[OF later this] a show False by simp
    qed
    ultimately have "acts' ! i = a1 ! i" using conjunct1[OF conjunct2[OF conjunct2[OF r2]]] by blast
    with a i(3) show False by simp
  qed
  then have "set en \<union> set cr \<subseteq> occupied a1" using r1 s(2) i none by blast
  then have "set en \<union> set cr \<subseteq> u1" using r1 by (simp add: consistent_def)
  from seat_loop_full[OF this] have "acts' = a1" using 2 by simp
  then show ?thesis using r1 j s(2) by blast
qed

section \<open>Anchors and exits of a room\<close>

lemma room_anchors_props:
  fixes grid :: "int list list"
  defines "flr \<equiv> grid_floor grid" and "as \<equiv> \<lambda>n seed. room_anchors grid n seed"
  shows "(\<forall>a \<in> set (as n seed). anchor_cell a \<in> set flr) \<and> distinct (anchors_of ''creature'' (as n seed)) \<and>
    length (anchors_of ''creature'' (as n seed)) = (if flr = [] then 0 else min (nat n) (max 1 (length flr - 1)))"
proof (cases "flr = []")
  case True
  then show ?thesis by (simp add: as_def room_anchors_def flr_def anchors_of_def)
next
  case False
  define rest where "rest = (if tl flr = [] then flr else tl flr)"
  have df: "distinct flr" unfolding flr_def by (rule distinct_grid_floor)
  obtain x xs where f: "flr = x # xs" using False by (cases flr) auto
  have r: "distinct rest" "set rest \<subseteq> set flr" "length rest = max 1 (length flr - 1)"
    using df unfolding rest_def f by (auto simp: max_def) (cases xs; simp)
  let ?cs = "deterministic_sample rest n (Bit_Operations.xor seed 0x85EBCA6B)"
  have as: "as n seed = \<lparr>anchor_cell = hd flr, anchor_role = ''entrance''\<rparr> # map (\<lambda>c. \<lparr>anchor_cell = c, anchor_role = ''creature''\<rparr>) ?cs"
    using False by (simp add: as_def room_anchors_def Let_def rest_def flip: flr_def)
  have "anchors_of ''creature'' (as n seed) = ?cs" by (simp add: as anchors_of_def filter_map o_def)
  then show ?thesis using deterministic_sample_props[OF r(1), of n "Bit_Operations.xor seed 0x85EBCA6B"] r(2,3) False by (auto simp: as)
qed

lemma fold_update_fresh:
  "distinct (map fst ps) \<Longrightarrow> fst ` set d \<inter> fst ` set ps = {} \<Longrightarrow> fold (\<lambda>(k, v). AList.update k v) ps d = d @ ps"
proof (induction ps arbitrary: d)
  case (Cons p ps)
  then have "AList.update (fst p) (snd p) d = d @ [p]" by (simp add: update_new)
  moreover have "fst ` set (d @ [p]) \<inter> fst ` set ps = {}" using Cons.prems by auto
  ultimately show ?case using Cons.IH[of "d @ [p]"] Cons.prems(1) by (simp add: split_def)
qed simp

lemma thresholds_for_props:
  assumes "distinct nbs"
  shows "map fst (thresholds_for grid nbs seed) = take (length (grid_floor grid)) nbs \<and> distinct (map snd (thresholds_for grid nbs seed)) \<and>
    (\<forall>p \<in> set (thresholds_for grid nbs seed). snd p \<in> set (grid_floor grid))"
proof (cases "grid_floor grid = [] \<or> nbs = []")
  case True
  then show ?thesis by (auto simp: thresholds_for_def)
next
  case False
  let ?s = "deterministic_sample (grid_floor grid) (int (length nbs)) (Bit_Operations.xor seed 0xC2B2AE35)"
  note ds = deterministic_sample_props[OF distinct_grid_floor, of grid "int (length nbs)" "Bit_Operations.xor seed 0xC2B2AE35"]
  have f: "map fst (zip nbs ?s) = take (length (grid_floor grid)) nbs" "map snd (zip nbs ?s) = ?s"
    using ds(3) by (simp_all add: map_fst_zip_take map_snd_zip_take min_def)
  have "thresholds_for grid nbs seed = zip nbs ?s"
    using False fold_update_fresh[of "zip nbs ?s" "[]"] f(1) assms by (simp add: thresholds_for_def)
  then show ?thesis using f ds(1,2) by (auto dest: set_zip_rightD)
qed

end
