(* ===== verification/Tactical_Properties.thy ===== *)
theory Tactical_Properties
  imports Tactical_Zones Tactical_Seating
begin

text \<open>What the tactical grid guarantees: movement, rays and sight, zones, room features and seating.\<close>

section \<open>Movement\<close>

lemma valid_move_iff:
  "valid (adjudicate_move s p b m d) \<longleftrightarrow> p \<noteq> [] \<and> hd p = s \<and> (\<exists>k. movement_cost p m d = Some k \<and> int k \<le> b)"
  by (auto simp: adjudicate_move_def split: option.splits)

text \<open>
  C15. The movement overlay and the referee agree: the flood marks a cell reachable exactly when some path
  to it is accepted by the move adjudication with the same budget, and the cost it records for a cell
  is the cost of a cheapest legal path, for cells just beyond the budget too.
\<close>

theorem flood_agrees_with_verdict:
  "(c \<in> reachable (cells_reachable s b m d) \<longleftrightarrow> c \<noteq> s \<and> (\<exists>p. last p = c \<and> valid (adjudicate_move s p b m d))) \<and>
   (map_of (reach_cost (cells_reachable s b m d)) c = Some k \<longrightarrow>
      (\<exists>p. p \<noteq> [] \<and> hd p = s \<and> last p = c \<and> movement_cost p m d = Some k) \<and>
      (\<forall>p j. p \<noteq> [] \<longrightarrow> hd p = s \<longrightarrow> last p = c \<longrightarrow> movement_cost p m d = Some j \<longrightarrow> k \<le> j))"
proof (intro conjI impI)
  show "c \<in> reachable (cells_reachable s b m d) \<longleftrightarrow> c \<noteq> s \<and> (\<exists>p. last p = c \<and> valid (adjudicate_move s p b m d))"
    unfolding cells_reachable_iff walk_iff_path valid_move_iff by blast
  assume rec: "map_of (reach_cost (cells_reachable s b m d)) c = Some k"
  from recorded_cost_is_least[OF rec]
  show "\<exists>p. p \<noteq> [] \<and> hd p = s \<and> last p = c \<and> movement_cost p m d = Some k"
    and "\<forall>p j. p \<noteq> [] \<longrightarrow> hd p = s \<longrightarrow> last p = c \<longrightarrow> movement_cost p m d = Some j \<longrightarrow> k \<le> j"
    using walk_iff_path[of m d s c] by blast+
qed

theorem flood_agrees_with_verdict_witness:
  "(2, 1) \<in> reachable (cells_reachable (0, 0) 3 (''.#.'' @ [CHR 0x0A] @ ''...'') {(1, 1)}) \<and>
   (\<exists>p. hd p = (0, 0) \<and> last p = (2, 1) \<and> movement_cost p (''.#.'' @ [CHR 0x0A] @ ''...'') {(1, 1)} = Some 3)"
proof -
  let ?m = "''.#.'' @ [CHR 0x0A] @ ''...''"
  have "(2, 1) \<in> reachable (cells_reachable (0, 0) 3 ?m {(1, 1)})" by code_simp
  moreover have "map_of (reach_cost (cells_reachable (0, 0) 3 ?m {(1, 1)})) (2, 1) = Some 3" by code_simp
  ultimately show ?thesis using flood_agrees_with_verdict[of "(2, 1)" "(0, 0)" 3 ?m "{(1, 1)}" 3] by blast
qed

section \<open>Rays and sight\<close>

text \<open>
  The ray walk always returns. It goes from the first cell to the second in king moves, as many as the
  distance says, and every cell of it lies within half a cell of the straight line between them.
  Neighbouring cells see each other on every mask.
\<close>

theorem ray_is_straight:
  "ray_walk a b = Some (ray_cells a b) \<and> straight a b (ray_cells a b) \<and> (chebyshev_distance a b \<le> 1 \<longrightarrow> line_of_sight a b m)"
proof (intro conjI impI)
  show "ray_walk a b = Some (ray_cells a b)" using ray_walk_ok[of a b] by (auto simp: ray_cells_def)
  show st: "straight a b (ray_cells a b)" by (rule ray_cells_straight)
  assume "chebyshev_distance a b \<le> 1"
  then have "length (ray_cells a b) \<le> 2" using st by (simp add: straight_def)
  then have "butlast (tl (ray_cells a b)) = []" by (cases "ray_cells a b"; cases "tl (ray_cells a b)") auto
  then show "line_of_sight a b m" by (simp add: line_of_sight_def Let_def)
qed

theorem ray_is_straight_witness: "straight (3, 1) (0, 0) (ray_cells (3, 1) (0, 0)) \<and> line_of_sight (1, 1) (0, 0) ''#''"
  using ray_is_straight[of "(3, 1)" "(0, 0)"] ray_is_straight[of "(1, 1)" "(0, 0)" "''#''"] by (simp add: chebyshev_distance_def)

text \<open>
  Sight is not mutual: a shooter can have a clear line to a target that has none back, because the ray
  breaks ties in the direction of travel.
\<close>

theorem sight_is_not_symmetric:
  "\<exists>a b m. line_of_sight a b m \<and> \<not> line_of_sight b a m"
proof -
  have "line_of_sight (0, 0) (2, 1) (''...'' @ [CHR 0x0A] @ ''.#.'') \<and> \<not> line_of_sight (2, 1) (0, 0) (''...'' @ [CHR 0x0A] @ ''.#.'')"
    by code_simp
  then show ?thesis by blast
qed

section \<open>Zones\<close>

text \<open>
  C16. The zones partition the floor: exactly the floor cells have a zone, the zone sets are the non-empty
  classes of that assignment, any two cells of a zone are linked by king moves inside the zone, and
  two zones are adjacent exactly when they are different and some cells of theirs touch.
\<close>

theorem zones_partition_floor:
  fixes msk :: string
  defines "p \<equiv> project_zones msk"
  shows "((\<exists>z. map_of (cell_to_zone p) c = Some z) \<longleftrightarrow> is_floor (parse_mask msk) c) \<and>
    (map_of (zones p) z = Some S \<longleftrightarrow> S \<noteq> {} \<and> S = {c. map_of (cell_to_zone p) c = Some z}) \<and>
    (map_of (zones p) z = Some S \<longrightarrow> c \<in> S \<longrightarrow> d \<in> S \<longrightarrow> (\<lambda>u v. u \<in> S \<and> v \<in> S \<and> chebyshev_distance u v = 1)\<^sup>*\<^sup>* c d) \<and>
    (z' \<in> dict_get (adjacency p) z {} \<longleftrightarrow> z \<noteq> z' \<and>
      (\<exists>c d. map_of (cell_to_zone p) c = Some z \<and> map_of (cell_to_zone p) d = Some z' \<and> chebyshev_distance c d = 1))"
proof -
  note q = project_zones_props[where msk = msk, folded p_def]
  have "(\<exists>z. map_of (cell_to_zone p) c = Some z) \<longleftrightarrow> is_floor (parse_mask msk) c"
    using q(2) map_of_dom[of c "cell_to_zone p"] by blast
  moreover have "(\<lambda>u v. u \<in> S \<and> v \<in> S \<and> chebyshev_distance u v = 1)\<^sup>*\<^sup>* c d"
    if "map_of (zones p) z = Some S" "c \<in> S" "d \<in> S"
  proof -
    have S: "u \<in> S \<longleftrightarrow> map_of (cell_to_zone p) u = Some z" for u using q(3)[of z S] that(1) by blast
    have "(same_zone (cell_to_zone p))\<^sup>*\<^sup>* c d" using zone_invD(1)[OF q(1)] S that(2,3) by blast
    then show ?thesis
    proof (induction rule: rtranclp_induct)
      case (step u v)
      have "c \<in> S" by (rule that(2))
      have "u \<in> S" using step.IH \<open>c \<in> S\<close> by (induction rule: rtranclp_induct) auto
      then show ?case using step S by (auto simp: same_zone_def intro: rtranclp.rtrancl_into_rtrancl)
    qed simp
  qed
  ultimately show ?thesis using q(3)[of z S] q(4)[of z' z] by blast
qed

theorem zones_partition_floor_witness:
  "\<exists>S. map_of (zones (project_zones ''..#.'')) ''z0'' = Some S \<and>
     (\<lambda>u v. u \<in> S \<and> v \<in> S \<and> chebyshev_distance u v = 1)\<^sup>*\<^sup>* (0, 0) (1, 0)"
proof -
  let ?p = "project_zones ''..#.''"
  let ?S = "{(0, 0), (1, 0)} :: cell set"
  have c: "map_of (zones ?p) ''z0'' = Some ?S" by code_simp
  from zones_partition_floor[where msk = "''..#.''" and c = "(0, 0)" and z = "''z0''" and S = ?S and d = "(1, 0)"] c
  have "(\<lambda>u v. u \<in> ?S \<and> v \<in> ?S \<and> chebyshev_distance u v = 1)\<^sup>*\<^sup>* (0, 0) (1, 0)" by blast
  with c show ?thesis by blast
qed

section \<open>Rooms\<close>

text \<open>
  Everything the room derivation places lies on the floor: features, anchors and exits. No two hazards
  share a cell, no two creature anchors do, exits of different neighbours are different cells, and each
  kind has as many as were asked for, or as the floor has room for.
\<close>

theorem room_tactical_on_floor:
  fixes digest rid grid theme nbs pieces n
  defines "t \<equiv> derive_region_tactical digest rid grid theme nbs pieces n" and "flr \<equiv> grid_floor grid"
  assumes "distinct nbs"
  shows "list_all (\<lambda>f. feature_at f \<in> set flr) (features t) \<and> list_all (\<lambda>a. anchor_cell a \<in> set flr) (anchors t) \<and>
    list_all (\<lambda>p. snd p \<in> set flr) (exit_thresholds t) \<and>
    distinct (pois t) \<and> length (pois t) = min (length pieces) (length flr) \<and>
    distinct (anchors_of ''creature'' (anchors t)) \<and>
    length (anchors_of ''creature'' (anchors t)) = (if flr = [] then 0 else min (nat n) (max 1 (length flr - 1))) \<and>
    map fst (exit_thresholds t) = take (length flr) nbs \<and> distinct (map snd (exit_thresholds t))"
proof -
  define seed where "seed = region_seed digest rid"
  note ds = deterministic_sample_props
  have df: "distinct flr" unfolding flr_def by (rule distinct_grid_floor)
  have ck: "set (chokepoints grid) \<subseteq> set flr" by (auto simp: chokepoints_def flr_def)
  let ?hz = "deterministic_sample flr (int (length pieces)) (Bit_Operations.xor seed 0x9E3779B9)"
  have hz: "hazard_features grid pieces seed = map (\<lambda>(piece, c). \<lparr>feature_type = ''hazard'', feature_at = c, feature_label = spaced piece @ '' - unstable''\<rparr>)
      (zip pieces ?hz)" by (simp add: hazard_features_def flr_def)
  have hz_at: "map feature_at (hazard_features grid pieces seed) = ?hz"
    unfolding hz using ds(3)[OF df, of "int (length pieces)"] by (simp add: split_def o_def map_snd_zip_take min_def)
  have ft: "list_all (\<lambda>f. feature_type f = ''hazard'') (hazard_features grid pieces seed)"
    unfolding hz by (auto simp: list_all_iff)
  have po: "pois t = ?hz" unfolding t_def derive_region_tactical_def Let_def
    using hz_at ft by (auto simp: choke_features_def water_features_def Let_def filter_empty_conv list_all_iff filter_id_conv simp flip: seed_def)
  have wf: "set (map feature_at (water_features grid theme seed)) \<subseteq> set flr"
  proof -
    let ?nc = "filter (\<lambda>c. c \<notin> set (chokepoints grid)) flr"
    have "distinct ?nc" using df by simp
    from ds(2)[OF this] show ?thesis by (fastforce simp: water_features_def Let_def o_def simp flip: flr_def)
  qed
  have "map feature_at (features t) = chokepoints grid @ map feature_at (water_features grid theme seed) @ ?hz"
    using hz_at by (simp add: t_def derive_region_tactical_def Let_def choke_features_def o_def flip: seed_def)
  then have "set (map feature_at (features t)) \<subseteq> set flr" using ck wf ds(2)[OF df] by simp
  moreover have "distinct (pois t)" "length (pois t) = min (length pieces) (length flr)"
    unfolding po using ds(1,3)[OF df] by simp_all
  moreover have "(\<forall>a \<in> set (anchors t). anchor_cell a \<in> set flr) \<and> distinct (anchors_of ''creature'' (anchors t)) \<and>
      length (anchors_of ''creature'' (anchors t)) = (if flr = [] then 0 else min (nat n) (max 1 (length flr - 1)))"
    using room_anchors_props[of grid n seed] by (simp add: t_def derive_region_tactical_def Let_def flr_def seed_def)
  moreover have "map fst (exit_thresholds t) = take (length flr) nbs \<and> distinct (map snd (exit_thresholds t)) \<and>
      (\<forall>p \<in> set (exit_thresholds t). snd p \<in> set flr)"
    using thresholds_for_props[OF assms(3), of grid seed] by (simp add: t_def derive_region_tactical_def Let_def flr_def seed_def)
  ultimately show ?thesis by (auto simp: list_all_iff)
qed

theorem room_tactical_on_floor_witness:
  "map fst (exit_thresholds (derive_region_tactical (\<lambda>_. [7]) ''r'' [[0, 0], [1, 0]] ''stone'' [''a'', ''b''] [''pit''] 2)) = [''a'', ''b''] \<and>
   distinct (map snd (exit_thresholds (derive_region_tactical (\<lambda>_. [7]) ''r'' [[0, 0], [1, 0]] ''stone'' [''a'', ''b''] [''pit''] 2)))"
proof -
  have "length (grid_floor [[0, 0], [1, 0]]) = 3" by code_simp
  with room_tactical_on_floor[where nbs = "[''a'', ''b'']" and digest = "\<lambda>_. [7]" and rid = "''r''" and grid = "[[0, 0], [1, 0]]"
    and theme = "''stone''" and pieces = "[''pit'']" and n = 2]
  show ?thesis by simp
qed

section \<open>Seating\<close>

definition ex_seat :: "string \<Rightarrow> actor_side \<Rightarrow> seated_actor" where
  "ex_seat n sd = \<lparr>actor_name = n, role = [], side = sd, withdrawn = False, display_name = None, stats = None, seat_cell = None\<rparr>"

text \<open>
  C17. Seating puts no two actors on one cell: from a table without overlaps it fills only empty seats, with
  free anchors, and leaves everyone else where they are. An actor stays unseated only when every anchor
  is taken, players are served before anyone else, doing it again changes nothing, and the returned map
  says for each name where its actor stands.
\<close>

theorem seating_is_collision_free:
  assumes "no_overlap acts" "seat_actor_cells ps as acts = (placed, acts')"
  shows "no_overlap acts' \<and> seats_more (set (anchors_of ''entrance'' as) \<union> set (anchors_of ''creature'' as)) acts acts' \<and>
    ((\<exists>i < length acts. seat_cell (acts' ! i) = None) \<longrightarrow>
       set (anchors_of ''entrance'' as) \<union> set (anchors_of ''creature'' as) \<subseteq> occupied acts') \<and>
    ((\<exists>i < length acts. side (acts ! i) = ps \<and> seat_cell (acts' ! i) = None) \<longrightarrow>
       (\<forall>j < length acts. side (acts ! j) \<noteq> ps \<longrightarrow> acts' ! j = acts ! j)) \<and>
    snd (seat_actor_cells ps as acts') = acts' \<and>
    (distinct (map actor_name acts) \<longrightarrow> placed_ok acts' placed)"
proof -
  let ?en = "anchors_of ''entrance'' as" let ?cr = "anchors_of ''creature'' as"
  let ?st = "(acts, already_placed acts, occupied acts)"
  obtain used' where fold: "fold (seat_one ps ?en ?cr) (seat_order ps acts) ?st = (acts', placed, used')"
    using assms(2) by (auto simp: seat_actor_cells_def used_occupied Let_def split: prod.splits)
  have con: "consistent ?st" using assms(1) by (simp add: consistent_def)
  have idx: "\<forall>i \<in> set (seat_order ps acts). i < length acts \<and> seat_cell (acts ! i) = None" by (simp add: seat_order_props)
  note r = seat_loop_ok[OF con seat_order_props(1) idx fold]
  have len: "length acts' = length acts" using r by (simp add: seats_more_def)
  have full: "set ?en \<union> set ?cr \<subseteq> occupied acts'" if "i < length acts" "seat_cell (acts' ! i) = None" for i
  proof (cases "seat_cell (acts ! i)")
    case None
    then show ?thesis using r that seat_order_props(2)[of ps acts] by blast
  next
    case (Some c)
    then have "acts' ! i = acts ! i" using r that seat_order_props(2)[of ps acts] by force
    with Some that show ?thesis by simp
  qed
  have first: "acts' ! j = acts ! j"
    if "i < length acts" "side (acts ! i) = ps" "seat_cell (acts' ! i) = None" "j < length acts" "side (acts ! j) \<noteq> ps" for i j
    using players_first[OF con fold that] .
  have "snd (seat_actor_cells ps as acts') = acts'"
  proof (cases "\<exists>i < length acts. seat_cell (acts' ! i) = None")
    case True
    then have "set ?en \<union> set ?cr \<subseteq> occupied acts'" using full by blast
    from seat_loop_full[OF this] show ?thesis by (simp add: seat_actor_cells_def used_occupied Let_def)
  next
    case False
    then have "set (seat_order ps acts') = {}" using seat_order_props(2)[of ps acts'] len by auto
    then show ?thesis by (simp add: seat_actor_cells_def Let_def)
  qed
  moreover have "placed_ok acts' placed" if "distinct (map actor_name acts)"
    using seat_loop_placed[OF con seat_order_props(1) idx fold that already_placed_ok[OF that]] .
  moreover have "no_overlap acts'" using conjunct1[OF r] by (simp add: consistent_def)
  ultimately show ?thesis using conjunct1[OF conjunct2[OF r]] full first by (intro conjI impI) blast+
qed

theorem seating_is_collision_free_witness:
  "snd (seat_actor_cells Player [\<lparr>anchor_cell = (0, 0), anchor_role = ''entrance''\<rparr>]
     [ex_seat ''Ada'' Player, ex_seat ''Ogre'' Opponent]) = [(ex_seat ''Ada'' Player)\<lparr>seat_cell := Some (0, 0)\<rparr>, ex_seat ''Ogre'' Opponent] \<and>
   snd (seat_actor_cells Player [\<lparr>anchor_cell = (0, 0), anchor_role = ''entrance''\<rparr>]
     [(ex_seat ''Ada'' Player)\<lparr>seat_cell := Some (0, 0)\<rparr>, ex_seat ''Ogre'' Opponent]) = [(ex_seat ''Ada'' Player)\<lparr>seat_cell := Some (0, 0)\<rparr>, ex_seat ''Ogre'' Opponent]"
proof -
  let ?as = "[\<lparr>anchor_cell = (0, 0), anchor_role = ''entrance''\<rparr>] :: token_anchor list"
  let ?a = "[ex_seat ''Ada'' Player, ex_seat ''Ogre'' Opponent]"
  let ?b = "[(ex_seat ''Ada'' Player)\<lparr>seat_cell := Some (0, 0)\<rparr>, ex_seat ''Ogre'' Opponent]"
  have eq: "seat_actor_cells Player ?as ?a = ([(''Ada'', (0, 0))], ?b)"
    by (simp add: seat_actor_cells_def seat_order_def already_placed_def ex_seat_def seat_one_def take_cell_def anchors_of_def
        map_filter_def seat_priority_def upt_rec Let_def)
  have "no_overlap ?a" by (simp add: no_overlap_def ex_seat_def nth_Cons split: nat.splits)
  from seating_is_collision_free[OF this eq] eq show ?thesis by simp
qed

end
