(* ===== verification/Wn_Core.thy ===== *)
theory Wn_Core
  imports Beats Opposed Tactical_Grid Float64
begin

text \<open>
  The Without Number rules core, part one: configuration, attribute modifiers, weapon ranges and their
  use on the tactical grid, attacks, checks, saves, initiative, damage dice and the search for a
  weapon's damage (src/sidequest/game/ruleset/without_number.py, swn.py, cwn.py, resolution.py,
  combat_rules.py, dial.py; DamageSpec of genre/models/inventory.py; the configuration classes of
  genre/models/rules.py).
\<close>

section \<open>Configuration\<close>

record swn_config =
  save_base :: int
  difficulties :: "(string \<times> int) list"
  attribute_map :: "(string \<times> string) list"

record strain_config =
  rest_recovery_per_night :: int
  first_aid_cost :: int

record trauma_config =
  default_trauma_target :: int
  mortal_injury_rounds :: int

record magic_config =
  effort_base :: int
  killing_blow_divisor :: int
  day_reclaim_requires_comfort :: bool
  default_spell_save :: string

text \<open>The configuration classes; \<open>AwnConfig\<close> is a \<open>CwnConfig\<close> with nothing added.\<close>

datatype ruleset_config =
    SwnConfig swn_config
  | CwnConfig swn_config strain_config trauma_config
  | WwnConfig swn_config strain_config trauma_config magic_config

fun swn_of :: "ruleset_config \<Rightarrow> swn_config" where
  "swn_of (SwnConfig b) = b"
| "swn_of (CwnConfig b s t) = b"
| "swn_of (WwnConfig b s t m) = b"

text \<open>\<open>isinstance(cfg, (CwnConfig, WwnConfig))\<close>, with the blocks it carries.\<close>

fun lethality_of :: "ruleset_config option \<Rightarrow> (strain_config \<times> trauma_config) option" where
  "lethality_of (Some (CwnConfig b s t)) = Some (s, t)"
| "lethality_of (Some (WwnConfig b s t m)) = Some (s, t)"
| "lethality_of _ = None"

fun magic_of :: "ruleset_config option \<Rightarrow> magic_config option" where
  "magic_of (Some (WwnConfig b s t m)) = Some m"
| "magic_of _ = None"

section \<open>Attributes\<close>

definition swn_attribute_modifier :: "int \<Rightarrow> int" where
  "swn_attribute_modifier score =
     (if score \<le> 3 then -2 else if score \<le> 7 then -1 else if score \<le> 13 then 0 else if score \<le> 17 then 1 else 2)"

definition wn_stat :: "(string \<times> int) list \<Rightarrow> string \<Rightarrow> int res" where
  "wn_stat ss key = (case stat_lookup ss key of Some v \<Rightarrow> Inr v | None \<Rightarrow> Inl (KeyError key))"

definition stat_modifier :: "(string \<times> int) list \<Rightarrow> string \<Rightarrow> int res" where
  "stat_modifier ss key = rbind (wn_stat ss key) (\<lambda>v. Inr (swn_attribute_modifier v))"

text \<open>The dial engine's own modifier and difficulty.\<close>

definition dial_stat_modifier :: "(string \<times> int) list \<Rightarrow> string \<Rightarrow> int" where
  "dial_stat_modifier ss key = (case stat_lookup ss key of None \<Rightarrow> 0 | Some v \<Rightarrow> (v - 10) div 2)"

definition dial_compute_dc :: "int \<Rightarrow> int" where
  "dial_compute_dc b = max 10 (min 30 (10 + \<bar>b\<bar> * 2))"

section \<open>Moves and ranges\<close>

definition METERS_PER_CELL :: rat where "METERS_PER_CELL = lit 15 10"
definition DEFAULT_MOVE_METERS :: int where "DEFAULT_MOVE_METERS = 10"
definition MELEE_REACH_CELLS :: int where "MELEE_REACH_CELLS = 1"

definition RANGE_BAND_CELLS :: "(string \<times> int) list" where
  "RANGE_BAND_CELLS = [(''melee'', 1), (''thrown'', 6), (''shotgun'', 8), (''pistol'', 20), (''rifle'', 40), (''heavy'', 60),
     (''near'', 6), (''far'', 40)]"

definition meters_to_cells :: "int \<Rightarrow> int" where
  "meters_to_cells m = max 1 (trunc (rnd (rnd (of_int m) / METERS_PER_CELL)))"

definition combat_move_cells :: "int option \<Rightarrow> int" where
  "combat_move_cells mv = meters_to_cells (case mv of None \<Rightarrow> DEFAULT_MOVE_METERS | Some m \<Rightarrow> m)"

definition is_digit :: "char \<Rightarrow> bool" where
  "is_digit c \<longleftrightarrow> c \<in> set ''0123456789''"

text \<open>\<open>^\s*(\d+)\s*/\s*(\d+)\s*$\<close>.\<close>

definition parse_nn :: "string \<Rightarrow> (nat \<times> nat) option" where
  "parse_nn s =
     (let s1 = dropWhile is_space s; n1 = takeWhile is_digit s1; s2 = dropWhile is_space (dropWhile is_digit s1) in
      if n1 = [] \<or> s2 = [] \<or> hd s2 \<noteq> CHR ''/'' then None
      else let s3 = dropWhile is_space (tl s2); n2 = takeWhile is_digit s3; s4 = dropWhile is_space (dropWhile is_digit s3) in
        if n2 = [] \<or> s4 \<noteq> [] then None else Some (read_nat_acc 0 n1, read_nat_acc 0 n2))"

definition range_band_to_cells :: "string \<Rightarrow> int res" where
  "range_band_to_cells band =
     (case parse_nn band of
        Some (a, b) \<Rightarrow> Inr (meters_to_cells (int (max a b)))
      | None \<Rightarrow> (case map_of RANGE_BAND_CELLS band of Some n \<Rightarrow> Inr n | None \<Rightarrow> Inl (ValueError ''unknown weapon range_band'')))"

definition weapon_range_cells :: "string option \<Rightarrow> (string \<times> int) res" where
  "weapon_range_cells band =
     (if band = None \<or> band = Some ''melee'' then Inr (''melee'', MELEE_REACH_CELLS)
      else rbind (range_band_to_cells (the band)) (\<lambda>n. Inr (''ranged'', n)))"

definition adjudicate_tactical_move :: "cell \<Rightarrow> cell list \<Rightarrow> int option \<Rightarrow> string \<Rightarrow> cell set \<Rightarrow> move_adjudication" where
  "adjudicate_tactical_move origin path mv msk difficult = adjudicate_move origin path (combat_move_cells mv) msk difficult"

definition adjudicate_tactical_reach :: "cell \<Rightarrow> cell \<Rightarrow> string option \<Rightarrow> string \<Rightarrow> range_adjudication res" where
  "adjudicate_tactical_reach attacker_cell target_cell band msk =
     rbind (weapon_range_cells band) (\<lambda>(mode, maxc).
       adjudicate_reach attacker_cell target_cell maxc msk mode (mode = ''ranged''))"

section \<open>Attacks, checks and saves\<close>

record attack_roll_params =
  attack_modifier :: int
  target_number :: int

record opponent_attack_outcome =
  attack_hit :: bool
  attack_total :: int
  outcome_modifier :: int
  attack_d20 :: int
  outcome_target_ac :: int

record check_roll_params =
  check_sides :: int
  check_count :: int
  check_modifier :: int
  check_difficulty :: int
  check_label :: string

definition offer_difficulty :: "int option \<Rightarrow> int" where
  "offer_difficulty target_ac = (case target_ac of Some ac \<Rightarrow> ac | None \<Rightarrow> 10)"

definition attack_params ::
  "int \<Rightarrow> int \<Rightarrow> string \<Rightarrow> (string \<times> int) list \<Rightarrow> status list option \<Rightarrow> int option \<Rightarrow> attack_roll_params res" where
  "attack_params attack_bonus combat_skill check attacker_stats attacker_statuses target_ac =
     rbind (stat_modifier attacker_stats check) (\<lambda>attr_mod.
       Inr \<lparr>attack_modifier = attack_bonus + combat_skill + attr_mod + status_roll_modifier attacker_statuses,
            target_number = offer_difficulty target_ac\<rparr>)"

definition resolve_opponent_attack ::
  "(string \<times> int) list \<Rightarrow> string \<Rightarrow> int \<Rightarrow> int \<Rightarrow> int \<Rightarrow> int \<Rightarrow> opponent_attack_outcome res" where
  "resolve_opponent_attack attacker_stats check attack_bonus combat_skill target_ac d20 =
     rbind (stat_modifier attacker_stats check) (\<lambda>attr_mod.
       let m = attack_bonus + combat_skill + attr_mod; tot = d20 + m in
       Inr \<lparr>attack_hit = (tot \<ge> target_ac), attack_total = tot, outcome_modifier = m, attack_d20 = d20, outcome_target_ac = target_ac\<rparr>)"

definition check_params ::
  "(string \<times> int) list \<Rightarrow> string option \<Rightarrow> int \<Rightarrow> string \<Rightarrow> string \<Rightarrow> swn_config \<Rightarrow> status list option \<Rightarrow> check_roll_params res" where
  "check_params ss attribute skill_level difficulty_key lbl cfg sts =
     (case attribute of
        None \<Rightarrow> Inl (ValueError ''check_params requires a non-None attribute'')
      | Some a \<Rightarrow> rbind (stat_modifier ss a) (\<lambda>attr_mod.
          case map_of (difficulties cfg) difficulty_key of
            None \<Rightarrow> Inl (KeyError difficulty_key)
          | Some d \<Rightarrow> Inr \<lparr>check_sides = 6, check_count = 2, check_modifier = attr_mod + skill_level + status_roll_modifier sts,
                           check_difficulty = d, check_label = lbl\<rparr>))"

definition SAVE_ATTRS :: "(string \<times> string list) list" where
  "SAVE_ATTRS = [(''physical'', [''STRENGTH'', ''CONSTITUTION'']), (''evasion'', [''DEXTERITY'', ''INTELLIGENCE'']),
     (''mental'', [''WISDOM'', ''CHARISMA''])]"

definition flavor_of :: "swn_config \<Rightarrow> string \<Rightarrow> string res" where
  "flavor_of cfg attr = (case map_of (attribute_map cfg) attr of None \<Rightarrow> Inl (KeyError attr) | Some f \<Rightarrow> Inr f)"

text \<open>\<open>max\<close> of the modifiers of the listed attributes.\<close>

definition best_modifier :: "swn_config \<Rightarrow> (string \<times> int) list \<Rightarrow> string list \<Rightarrow> int res" where
  "best_modifier cfg ss attrs =
     rbind (rmap (flavor_of cfg) attrs) (\<lambda>flavors. rbind (rmap (stat_modifier ss) flavors) (\<lambda>ms.
       case ms of [] \<Rightarrow> Inl (ValueError ''max() iterable argument is empty'') | m # rest \<Rightarrow> Inr (foldl max m rest)))"

definition save_target :: "swn_config \<Rightarrow> int \<Rightarrow> int" where
  "save_target cfg lvl = save_base cfg - (lvl - 1)"

definition save_params ::
  "(string \<times> int) list \<Rightarrow> string \<Rightarrow> int \<Rightarrow> string \<Rightarrow> swn_config \<Rightarrow> status list option \<Rightarrow> check_roll_params res" where
  "save_params ss save lvl lbl cfg sts =
     (if save = ''luck''
      then Inr \<lparr>check_sides = 20, check_count = 1, check_modifier = status_roll_modifier sts,
                check_difficulty = save_target cfg lvl, check_label = lbl\<rparr>
      else case map_of SAVE_ATTRS save of
        None \<Rightarrow> Inl (ValueError ''unknown save category'')
      | Some attrs \<Rightarrow> rbind (best_modifier cfg ss attrs) (\<lambda>best.
          Inr \<lparr>check_sides = 20, check_count = 1, check_modifier = best + status_roll_modifier sts,
               check_difficulty = save_target cfg lvl, check_label = lbl\<rparr>))"

definition swn_save_params ::
  "(string \<times> int) list \<Rightarrow> string \<Rightarrow> int \<Rightarrow> string \<Rightarrow> swn_config \<Rightarrow> status list option \<Rightarrow> check_roll_params res" where
  "swn_save_params ss save lvl lbl cfg sts =
     (if save = ''luck'' then Inl (ValueError ''swn ruleset has no Luck save'') else save_params ss save lvl lbl cfg sts)"

definition ship_attack_params ::
  "(string \<times> int) list \<Rightarrow> int \<Rightarrow> int \<Rightarrow> int \<Rightarrow> int \<Rightarrow> swn_config \<Rightarrow> attack_roll_params res" where
  "ship_attack_params attacker_stats pilot_skill attack_bonus geometry_modifier target_ac cfg =
     rbind (best_modifier cfg attacker_stats [''DEXTERITY'', ''INTELLIGENCE'']) (\<lambda>best.
       Inr \<lparr>attack_modifier = attack_bonus + pilot_skill + best + geometry_modifier, target_number = target_ac\<rparr>)"

definition resolve_hacking :: "int \<Rightarrow> int \<Rightarrow> int" where
  "resolve_hacking base_dc alert_modifier = base_dc + alert_modifier"

section \<open>Jumps\<close>

definition SPIKE_TRANSIT_DAYS :: int where "SPIKE_TRANSIT_DAYS = 6"
definition SPIKE_FUEL_PER_JUMP :: int where "SPIKE_FUEL_PER_JUMP = 1"
definition UNDERRATED_DRIVE_FUEL_PENALTY :: int where "UNDERRATED_DRIVE_FUEL_PENALTY = 1"

record route =
  jump_fuel :: "int option"
  transit_days :: "int option"
  hazard :: "string option"
  drive_rating_min :: "int option"

record jump_adjudication =
  fuel_spent :: int
  jump_days :: int
  jump_hazard :: "string option"
  hazard_roll :: int
  jump_source :: string

definition adjudicate_jump :: "route option \<Rightarrow> int \<Rightarrow> (rng, jump_adjudication) sm" where
  "adjudicate_jump rt drive_rating =
     sbind (randint 1 6) (\<lambda>roll. ret (case rt of
       None \<Rightarrow> \<lparr>fuel_spent = SPIKE_FUEL_PER_JUMP, jump_days = SPIKE_TRANSIT_DAYS, jump_hazard = None, hazard_roll = roll,
                jump_source = ''ruleset_default''\<rparr>
     | Some r \<Rightarrow>
         let fuel = (case jump_fuel r of Some f \<Rightarrow> f | None \<Rightarrow> SPIKE_FUEL_PER_JUMP);
             strained = (case drive_rating_min r of Some m \<Rightarrow> drive_rating < m | None \<Rightarrow> False)
         in \<lparr>fuel_spent = (if strained then fuel + UNDERRATED_DRIVE_FUEL_PENALTY else fuel),
             jump_days = (case transit_days r of Some d \<Rightarrow> d | None \<Rightarrow> SPIKE_TRANSIT_DAYS),
             jump_hazard = hazard r, hazard_roll = roll, jump_source = ''route''\<rparr>))"

section \<open>Initiative\<close>

record initiative_entry =
  token_id :: string
  init_value :: int

definition roll_entry :: "string \<times> int \<Rightarrow> (rng, initiative_entry) sm" where
  "roll_entry p = sbind (randint 1 8) (\<lambda>d. ret \<lparr>token_id = fst p, init_value = d + swn_attribute_modifier (snd p)\<rparr>)"

text \<open>\<open>entries.sort(key=value, reverse=True)\<close>: descending, equal values in the order they came.\<close>

definition roll_initiative :: "(string \<times> int) list \<Rightarrow> (rng, initiative_entry list) sm" where
  "roll_initiative dex = sbind (smap roll_entry dex) (\<lambda>es. ret (sort_key (\<lambda>e. - init_value e) es))"

section \<open>Damage\<close>

record damage_spec =
  dice :: string
  bonus :: int
  armor_piercing :: int
  trauma_die :: "string option"
  trauma_rating :: int
  trauma_target :: "int option"
  shock :: int
  shock_ac :: "int option"

definition plain_dice :: "string \<Rightarrow> damage_spec" where
  "plain_dice d = \<lparr>dice = d, bonus = 0, armor_piercing = 0, trauma_die = None, trauma_rating = 1, trauma_target = None,
     shock = 0, shock_ac = None\<rparr>"

definition parse_dice :: "string \<Rightarrow> (nat \<times> nat) option" where
  "parse_dice s =
     (let n1 = takeWhile is_digit s; s2 = dropWhile is_digit s in
      if n1 = [] \<or> s2 = [] \<or> hd s2 \<noteq> CHR ''d'' then None
      else let n2 = takeWhile is_digit (tl s2) in
        if n2 = [] \<or> dropWhile is_digit (tl s2) \<noteq> [] then None else Some (read_nat_acc 0 n1, read_nat_acc 0 n2))"

definition supported_sides :: "nat set" where
  "supported_sides = {4, 6, 8, 10, 12, 20, 100}"

definition valid_dice :: "string \<Rightarrow> bool" where
  "valid_dice d = (case parse_dice (strip d) of None \<Rightarrow> False | Some (n, f) \<Rightarrow> 1 \<le> n \<and> (f = 2 \<or> f \<in> supported_sides))"

definition valid_trauma_die :: "string option \<Rightarrow> bool" where
  "valid_trauma_die d = (case d of None \<Rightarrow> True
     | Some t \<Rightarrow> (case parse_dice (strip t) of None \<Rightarrow> False | Some (n, f) \<Rightarrow> f \<in> supported_sides))"

definition damage_validate :: "damage_spec \<Rightarrow> damage_spec res" where
  "damage_validate s =
     (if valid_dice (dice s) \<and> 0 \<le> armor_piercing s \<and> valid_trauma_die (trauma_die s) \<and> 1 \<le> trauma_rating s \<and>
         (case trauma_target s of None \<Rightarrow> True | Some t \<Rightarrow> 2 \<le> t) \<and> 0 \<le> shock s \<and>
         (case shock_ac s of None \<Rightarrow> True | Some a \<Rightarrow> 1 \<le> a) \<and> \<not> (shock s > 0 \<and> shock_ac s = None)
      then Inr s else Inl (ValueError ''DamageSpec''))"

definition parity_value :: "int \<Rightarrow> int" where
  "parity_value face = (if face mod 2 = 0 then 1 else 2)"

definition roll_die :: "nat \<Rightarrow> (rng, int) sm" where
  "roll_die faces = (if faces = 2 then sbind (randint 1 6) (\<lambda>x. ret (parity_value x)) else randint 1 (int faces))"

definition roll_damage :: "damage_spec \<Rightarrow> (rng, int) sm" where
  "roll_damage s =
     (case parse_dice (strip (dice s)) of
        None \<Rightarrow> raise (TypeError ''NoneType'')
      | Some (n, f) \<Rightarrow> sbind (smap (\<lambda>_. roll_die f) [0..<n]) (\<lambda>xs. ret (sum_list xs + bonus s)))"

definition SRD_UNARMED_DICE :: string where "SRD_UNARMED_DICE = ''1d2''"

text \<open>
  What an inventory entry says about damage, and a catalog item. The catalog of the bound world and
  pack is the result of \<open>resolve_inventory\<close>, an argument here.
\<close>

datatype raw_damage = DamageDict damage_spec | DamageStr string | DamageOther

record weapon_item =
  weapon_id :: "string option"
  weapon_damage :: "raw_damage option"

record catalog_item =
  catalog_id :: string
  catalog_damage :: "damage_spec option"
  range_band :: "string option"

fun item_damage :: "weapon_item \<Rightarrow> damage_spec option" where
  "item_damage i = (case weapon_damage i of
     Some (DamageDict d) \<Rightarrow> (case damage_validate d of Inr s \<Rightarrow> Some s | Inl _ \<Rightarrow> None)
   | Some (DamageStr d) \<Rightarrow> (case damage_validate (plain_dice d) of Inr s \<Rightarrow> Some s | Inl _ \<Rightarrow> None)
   | _ \<Rightarrow> None)"

definition catalog_entry :: "catalog_item list \<Rightarrow> weapon_item \<Rightarrow> catalog_item option" where
  "catalog_entry cat i = (case weapon_id i of None \<Rightarrow> None
     | Some n \<Rightarrow> if n = [] then None else map_of (rev (map (\<lambda>c. (catalog_id c, c)) cat)) n)"

fun first_some :: "('a \<Rightarrow> 'b option) \<Rightarrow> 'a list \<Rightarrow> 'b option" where
  "first_some f [] = None"
| "first_some f (x # xs) = (case f x of Some y \<Rightarrow> Some y | None \<Rightarrow> first_some f xs)"

definition resolve_damage_spec ::
  "damage_spec option \<Rightarrow> weapon_item list \<Rightarrow> catalog_item list \<Rightarrow> damage_spec option \<Rightarrow> damage_spec option" where
  "resolve_damage_spec damage_override its cat unarmed =
     (case damage_override of Some s \<Rightarrow> Some s
      | None \<Rightarrow> (case first_some item_damage its of Some s \<Rightarrow> Some s
        | None \<Rightarrow> (case first_some (\<lambda>i. Option.bind (catalog_entry cat i) catalog_damage) its of Some s \<Rightarrow> Some s
          | None \<Rightarrow> unarmed)))"

definition resolve_damage :: "damage_spec option \<Rightarrow> weapon_item list \<Rightarrow> catalog_item list \<Rightarrow> damage_spec option \<Rightarrow> damage_spec" where
  "resolve_damage damage_override its cat unarmed =
     (case resolve_damage_spec damage_override its cat unarmed of Some s \<Rightarrow> s | None \<Rightarrow> plain_dice SRD_UNARMED_DICE)"

definition resolve_weapon_range_band :: "weapon_item list \<Rightarrow> catalog_item list \<Rightarrow> string option" where
  "resolve_weapon_range_band its cat = first_some (\<lambda>i. Option.bind (catalog_entry cat i) range_band) its"

definition find_confrontation_def :: "('d \<Rightarrow> string) \<Rightarrow> 'd list \<Rightarrow> string \<Rightarrow> 'd option" where
  "find_confrontation_def confrontation_type defs wanted = List.find (\<lambda>d. confrontation_type d = wanted) defs"

end
