(* ===== verification/Wn_Lethality.thy ===== *)
theory Wn_Lethality
  imports Wn_Core
begin

text \<open>
  The Without Number rules core, part two: Shock, Trauma, System Strain, Mortal and Major Injury
  (src/sidequest/game/ruleset/without_number.py, lethality.py, system_strain.py), the Effort economy and
  psionic disciplines (without_number.py, wwn_magic.py), spellcasting and the Warrior abilities (wwn.py),
  and the ruleset's part of character creation (without_number.py, base.py). Operations that mutate a
  creature are state computations on its core, paired with the generator where they roll.
\<close>

section \<open>Shock and Trauma\<close>

definition resolve_shock :: "damage_spec \<Rightarrow> int \<Rightarrow> int" where
  "resolve_shock spec target_melee_ac =
     (if shock spec \<le> 0 then 0
      else case shock_ac spec of None \<Rightarrow> 0 | Some y \<Rightarrow> if target_melee_ac > y then 0 else shock spec)"

record lethality_result =
  base_total :: int
  final_total :: int
  traumatic :: bool
  trauma_roll :: int
  rolled_against :: int

definition resolve_trauma :: "damage_spec \<Rightarrow> int \<Rightarrow> ruleset_config option \<Rightarrow> (rng, lethality_result) sm" where
  "resolve_trauma spec total0 cfg =
     (case trauma_die spec of
        None \<Rightarrow> ret \<lparr>base_total = total0, final_total = total0, traumatic = False, trauma_roll = 0, rolled_against = 0\<rparr>
      | Some die \<Rightarrow>
        (case lethality_of cfg of
           None \<Rightarrow> raise (ValueError ''resolve_trauma requires a CwnConfig/WwnConfig'')
         | Some (_, t) \<Rightarrow>
             let target = (case trauma_target spec of Some x \<Rightarrow> x | None \<Rightarrow> default_trauma_target t) in
             sbind (lift_res (damage_validate (plain_dice die))) (\<lambda>d.
             sbind (roll_damage d) (\<lambda>roll.
               let hit = (roll \<ge> target) in
               ret \<lparr>base_total = total0, final_total = (if hit then total0 * trauma_rating spec else total0), traumatic = hit,
                    trauma_roll = roll, rolled_against = target\<rparr>))))"

section \<open>System Strain\<close>

record strain_result =
  strain_applied :: bool
  strain_now :: rat
  strain_cap :: int
  strain_floor :: rat
  strain_delta :: rat

definition fadd :: "rat \<Rightarrow> rat \<Rightarrow> rat" where
  "fadd x y = rnd (x + y)"

text \<open>What a change does to the pool: \<open>None\<close> is a refusal.\<close>

definition strain_gain :: "rat \<Rightarrow> system_strain_pool \<Rightarrow> system_strain_pool option" where
  "strain_gain amount p =
     (let new = fadd (strain_current p) amount in
      if new > of_int (strain_max p) then None else Some (p\<lparr>strain_current := new\<rparr>))"

definition strain_permanent_change :: "rat \<Rightarrow> system_strain_pool \<Rightarrow> system_strain_pool option" where
  "strain_permanent_change amount p =
     (let new_perm = max 0 (fadd (strain_permanent p) amount); new = fadd (strain_current p) amount in
      if amount > 0 \<and> new > of_int (strain_max p) then None
      else Some (p\<lparr>strain_permanent := new_perm, strain_current := max new_perm new\<rparr>))"

definition strain_rest :: "strain_config \<Rightarrow> rat \<Rightarrow> system_strain_pool \<Rightarrow> system_strain_pool" where
  "strain_rest sc amount p =
     p\<lparr>strain_current := max (strain_permanent p)
        (fadd (strain_current p) (rnd (- of_int (rest_recovery_per_night sc) * max 0 amount)))\<rparr>"

definition strain_change :: "strain_config \<Rightarrow> string \<Rightarrow> rat \<Rightarrow> system_strain_pool \<Rightarrow> system_strain_pool option res" where
  "strain_change sc knd amount p =
     (if knd = ''first_aid'' then Inr (strain_gain (of_int (first_aid_cost sc)) p)
      else if knd = ''temporary'' then Inr (strain_gain amount p)
      else if knd = ''permanent'' then Inr (strain_permanent_change amount p)
      else if knd = ''rest'' then Inr (Some (strain_rest sc amount p))
      else Inl (ValueError ''unknown system_strain kind''))"

definition apply_system_strain ::
  "string \<Rightarrow> rat \<Rightarrow> ruleset_config option \<Rightarrow> (('i, 'm) creature_core_scheme, strain_result) sm" where
  "apply_system_strain knd amount cfg =
     sbind get_st (\<lambda>core.
       case system_strain core of
         None \<Rightarrow> raise (ValueError ''no system_strain pool'')
       | Some p \<Rightarrow>
         (case lethality_of cfg of
            None \<Rightarrow> raise (ValueError ''apply_system_strain requires a CwnConfig/WwnConfig'')
          | Some (sc, _) \<Rightarrow>
              sbind (lift_res (strain_change sc knd amount p)) (\<lambda>r.
                let p' = (case r of None \<Rightarrow> p | Some q \<Rightarrow> q) in
                sthen (put_st (core\<lparr>system_strain := Some p'\<rparr>))
                  (ret \<lparr>strain_applied = (r \<noteq> None), strain_now = strain_current p', strain_cap = strain_max p',
                        strain_floor = strain_permanent p', strain_delta = fadd (strain_current p') (- strain_current p)\<rparr>))))"

section \<open>Mortal and Major Injury\<close>

definition MAJOR_INJURY_TABLE :: "(int \<times> string) list" where
  "MAJOR_INJURY_TABLE =
     [(1, ''Knocked senseless - out cold for the rest of the scene, but no lasting harm.''),
      (2, ''Deep bleeding wound. Frail until properly treated and rested.''),
      (3, ''Broken limb - an arm or leg is fractured; that limb is useless until set and healed.''),
      (4, ''Cracked ribs and internal bruising. Every exertion costs; Frail until healed.''),
      (5, ''Severe blood loss. Stabilize within the hour or slip toward death.''),
      (6, ''Concussion - dazed, disoriented; mental tasks suffer until recovered.''),
      (7, ''Lost an eye. Permanent - depth perception and ranged accuracy are diminished.''),
      (8, ''Mangled hand - fingers crushed or severed; fine manipulation is permanently impaired.''),
      (9, ''Severed limb - an arm or leg is lost. Permanent without expensive chrome.''),
      (10, ''Internal damage - a punctured organ. Frail and failing until major surgery.''),
      (11, ''Brain damage - permanent cognitive or motor impairment.''),
      (12, ''Instant death. The wound is mortal beyond saving.'')]"

definition major_injury_entry :: "int \<Rightarrow> string res" where
  "major_injury_entry roll = (case map_of MAJOR_INJURY_TABLE roll of None \<Rightarrow> Inl (ValueError ''major injury roll out of range'') | Some t \<Rightarrow> Inr t)"

record downed_result =
  mortal :: bool
  major :: bool
  major_roll :: int
  major_text :: string
  save_made :: bool

definition is_dying_window_status :: "status \<Rightarrow> bool" where
  "is_dying_window_status s = stabilizable s"

definition injury_status :: "string \<Rightarrow> int \<Rightarrow> string option \<Rightarrow> bool \<Rightarrow> status" where
  "injury_status txt turn enc dying =
     status.created_turn_update (\<lambda>_. turn) (new_status txt Scar)
       \<lparr>created_in_encounter := enc, incapacitating := dying, stabilizable := dying\<rparr>"

definition mortal_text :: "int \<Rightarrow> string" where
  "mortal_text rounds = ''Mortal Injury - dies in '' @ show_int rounds @ '' rounds unless stabilized''"

definition on_core :: "('c \<Rightarrow> 'c) \<Rightarrow> ('c \<times> rng, unit) sm" where
  "on_core f = modify (\<lambda>(c, g). (f c, g))"

definition on_rng :: "(rng, 'a) sm \<Rightarrow> ('c \<times> rng, 'a) sm" where
  "on_rng m = (\<lambda>(c, g). let (r, g') = m g in (r, (c, g')))"

definition resolve_downed ::
  "int \<Rightarrow> bool \<Rightarrow> ruleset_config option \<Rightarrow> int \<Rightarrow> string option \<Rightarrow> bool \<Rightarrow> bool \<Rightarrow> (('i, 'm) creature_core_scheme \<times> rng, downed_result) sm" where
  "resolve_downed target scene_traumatic cfg turn enc superseded_by_terminal dying_window =
     (case lethality_of cfg of
        None \<Rightarrow> raise (ValueError ''resolve_downed requires a CwnConfig/WwnConfig'')
      | Some (_, t) \<Rightarrow>
          sthen (if superseded_by_terminal then ret ()
                 else on_core (append_status (injury_status (mortal_text (mortal_injury_rounds t)) turn enc dying_window)))
          (if \<not> scene_traumatic then ret \<lparr>mortal = True, major = False, major_roll = 0, major_text = [], save_made = True\<rparr>
           else sbind (on_rng (randint 1 20)) (\<lambda>save_roll.
             if save_roll \<ge> target then ret \<lparr>mortal = True, major = False, major_roll = 0, major_text = [], save_made = True\<rparr>
             else sbind (on_rng (randint 1 12)) (\<lambda>roll.
                  sbind (lift_res (major_injury_entry roll)) (\<lambda>txt.
                  sthen (on_core (append_status (injury_status (''Major Injury - '' @ txt) turn enc False)))
                    (ret \<lparr>mortal = True, major = True, major_roll = roll, major_text = txt, save_made = False\<rparr>))))))"

section \<open>Effort\<close>

definition PSIONIC_EFFORT_SOURCE :: string where "PSIONIC_EFFORT_SOURCE = ''psionic''"

definition parse_duration :: "string \<Rightarrow> effort_duration res" where
  "parse_duration d =
     (if d = ''maintained'' then Inr Maintained else if d = ''scene'' then Inr SceneLong else if d = ''day'' then Inr DayLong
      else Inl (ValueError ''EffortCommitment.duration''))"

record effort_result =
  effort_applied :: bool
  effort_available :: int
  effort_cap :: int

definition set_pool :: "string \<Rightarrow> effort_pool \<Rightarrow> ('i, 'm) creature_core_scheme \<Rightarrow> ('i, 'm) creature_core_scheme" where
  "set_pool src p core = core\<lparr>effort := AList.update src p (effort core)\<rparr>"

definition commit_effort :: "string \<Rightarrow> int \<Rightarrow> string \<Rightarrow> string \<Rightarrow> (('i, 'm) creature_core_scheme, effort_result) sm" where
  "commit_effort src pts dur lbl =
     sbind get_st (\<lambda>core.
       case map_of (effort core) src of
         None \<Rightarrow> raise (ValueError ''no Effort pool'')
       | Some p \<Rightarrow>
         if pts \<le> available p
         then sbind (lift_res (parse_duration dur)) (\<lambda>d.
              let p' = p\<lparr>commitments := commitments p @ [\<lparr>points = pts, duration = d, label = lbl\<rparr>]\<rparr> in
              sthen (put_st (set_pool src p' core))
                (ret \<lparr>effort_applied = True, effort_available = available p', effort_cap = effort_max p'\<rparr>))
         else ret \<lparr>effort_applied = False, effort_available = available p, effort_cap = effort_max p\<rparr>)"

definition drop_commitments :: "effort_duration set \<Rightarrow> effort_pool \<Rightarrow> effort_pool" where
  "drop_commitments ds p = p\<lparr>commitments := filter (\<lambda>c. duration c \<notin> ds) (commitments p)\<rparr>"

text \<open>A trigger that names no duration matches no commitment.\<close>

definition durations_named :: "string \<Rightarrow> effort_duration set" where
  "durations_named trig = (case parse_duration trig of Inl _ \<Rightarrow> {} | Inr d \<Rightarrow> {d})"

definition reclaim_effort :: "string \<Rightarrow> string \<Rightarrow> (('i, 'm) creature_core_scheme, effort_result) sm" where
  "reclaim_effort src trig =
     sbind get_st (\<lambda>core.
       case map_of (effort core) src of
         None \<Rightarrow> raise (ValueError ''no Effort pool'')
       | Some p \<Rightarrow>
         if \<not> list_ex (\<lambda>c. duration c \<in> durations_named trig) (commitments p)
         then ret \<lparr>effort_applied = False, effort_available = available p, effort_cap = effort_max p\<rparr>
         else let p' = drop_commitments (durations_named trig) p in
              sthen (put_st (set_pool src p' core))
                (ret \<lparr>effort_applied = True, effort_available = available p', effort_cap = effort_max p'\<rparr>))"

definition drop_everywhere :: "effort_duration set \<Rightarrow> ('i, 'm) creature_core_scheme \<Rightarrow> ('i, 'm) creature_core_scheme" where
  "drop_everywhere ds core = core\<lparr>effort := map (\<lambda>(s, p). (s, drop_commitments ds p)) (effort core)\<rparr>"

definition reclaim_scene_effort :: "('i, 'm) creature_core_scheme \<Rightarrow> ('i, 'm) creature_core_scheme" where
  "reclaim_scene_effort = drop_everywhere {SceneLong}"

definition reclaim_day_and_refresh :: "bool \<Rightarrow> ruleset_config option \<Rightarrow> (('i, 'm) creature_core_scheme, unit) sm" where
  "reclaim_day_and_refresh comfortable cfg =
     (case cfg of
        None \<Rightarrow> raise (ValueError ''reclaim_day_and_refresh requires a SwnConfig'')
      | Some _ \<Rightarrow>
          let requires_comfort = (case magic_of cfg of None \<Rightarrow> True | Some m \<Rightarrow> day_reclaim_requires_comfort m);
              ds = (if comfortable \<or> \<not> requires_comfort then {SceneLong, DayLong} else {SceneLong})
          in modify (\<lambda>core. let core1 = drop_everywhere ds core in
               core1\<lparr>spellcasting := map_option (\<lambda>s. s\<lparr>casts_remaining := casts_per_day s\<rparr>) (spellcasting core1)\<rparr>))"

section \<open>Psionic disciplines\<close>

record psionic_discipline =
  discipline_id :: string
  discipline_name :: string
  effort_cost :: int
  discipline_duration :: string
  strain_cost :: int

record activation_result =
  activated :: bool
  activation_available :: int
  strained :: int

definition activate_discipline ::
  "psionic_discipline \<Rightarrow> string \<Rightarrow> ruleset_config option \<Rightarrow> (('i, 'm) creature_core_scheme, activation_result) sm" where
  "activate_discipline d src cfg =
     sbind get_st (\<lambda>core.
       case map_of (effort core) src of
         None \<Rightarrow> raise (ValueError ''no Effort pool'')
       | Some p \<Rightarrow>
         if strain_cost d > 0 \<and> system_strain core = None
         then ret \<lparr>activated = False, activation_available = available p, strained = 0\<rparr>
         else if effort_cost d \<le> available p
         then sthen (commit_effort src (effort_cost d) (discipline_duration d) (discipline_name d))
             (sthen (if strain_cost d > 0
                     then sthen (apply_system_strain ''temporary'' (of_int (strain_cost d)) cfg) (ret ()) else ret ())
             (sbind get_st (\<lambda>core'.
                ret \<lparr>activated = True,
                     activation_available = (case map_of (effort core') src of None \<Rightarrow> 0 | Some q \<Rightarrow> available q),
                     strained = (if strain_cost d > 0 then strain_cost d else 0)\<rparr>)))
         else ret \<lparr>activated = False, activation_available = available p, strained = 0\<rparr>)"

section \<open>Spells and Warrior abilities\<close>

record cast_input =
  spell_id :: string
  spell_level :: int
  spell_save :: "string option"
  damage_die :: "string option"
  damage_per_level :: bool

record spellcast_result =
  was_cast :: bool
  casts_left :: int
  spell_save_made :: "bool option"
  spell_damage :: int

definition refuse_cast :: "spellcasting_state \<Rightarrow> spellcast_result" where
  "refuse_cast s = \<lparr>was_cast = False, casts_left = casts_remaining s, spell_save_made = None, spell_damage = 0\<rparr>"

text \<open>The defender: the level of the target's core and the ability scores the caller looked up.\<close>

definition spell_save_roll ::
  "cast_input \<Rightarrow> (int \<times> (string \<times> int) list) option \<Rightarrow> swn_config \<Rightarrow> (rng, bool option) sm" where
  "spell_save_roll sp target cfg =
     (case (spell_save sp, target) of
        (Some save, Some (lvl, ss)) \<Rightarrow>
          sbind (lift_res (save_params ss save lvl (''spell-save:'' @ spell_id sp) cfg None)) (\<lambda>ps.
          sbind (randint 1 (check_sides ps)) (\<lambda>roll. ret (Some (roll + check_modifier ps \<ge> check_difficulty ps))))
      | _ \<Rightarrow> ret None)"

definition spell_damage_roll :: "cast_input \<Rightarrow> int \<Rightarrow> bool option \<Rightarrow> (rng, int) sm" where
  "spell_damage_roll sp caster_level made =
     (case damage_die sp of
        None \<Rightarrow> ret 0
      | Some die \<Rightarrow>
         (case parse_dice (strip die) of
            None \<Rightarrow> raise (ValueError ''damage_die is not NdM notation'')
          | Some (n, f) \<Rightarrow>
              let cnt = (if damage_per_level sp then show_int caster_level else show_nat n) in
              sbind (lift_res (damage_validate (plain_dice (cnt @ ''d'' @ show_nat f)))) (\<lambda>spec.
              sbind (roll_damage spec) (\<lambda>dmg. ret (if made = Some True then dmg div 2 else dmg)))))"

definition resolve_spellcast ::
  "cast_input \<Rightarrow> (int \<times> (string \<times> int) list) option \<Rightarrow> ruleset_config option
   \<Rightarrow> (('i, 'm) creature_core_scheme \<times> rng, spellcast_result) sm" where
  "resolve_spellcast sp target cfg =
     (case cfg of
        Some (WwnConfig b sc t m) \<Rightarrow>
          sbind get_st (\<lambda>(core, g).
            case spellcasting core of
              None \<Rightarrow> raise (ValueError ''no spellcasting state'')
            | Some s \<Rightarrow>
              if casts_remaining s \<le> 0 \<or> spell_id sp \<notin> set (prepared s) \<or> spell_level sp > max_spell_level s
              then ret (refuse_cast s)
              else let s' = s\<lparr>casts_remaining := casts_remaining s - 1\<rparr> in
                sthen (on_core (\<lambda>c. c\<lparr>spellcasting := Some s'\<rparr>))
               (sbind (on_rng (spell_save_roll sp target b)) (\<lambda>made.
                sbind (on_rng (spell_damage_roll sp (level core) made)) (\<lambda>dmg.
                  ret \<lparr>was_cast = True, casts_left = casts_remaining s', spell_save_made = made, spell_damage = dmg\<rparr>))))
      | _ \<Rightarrow> raise (ValueError ''resolve_spellcast requires a WwnConfig''))"

text \<open>\<open>math.ceil(level / divisor)\<close> with the float division in between.\<close>

definition apply_killing_blow :: "int \<Rightarrow> int \<Rightarrow> ruleset_config option \<Rightarrow> int res" where
  "apply_killing_blow total0 lvl cfg =
     (case magic_of cfg of
        None \<Rightarrow> Inl (ValueError ''apply_killing_blow requires a WwnConfig'')
      | Some m \<Rightarrow> if killing_blow_divisor m = 0 then Inl ZeroDivisionError
                 else Inr (total0 + \<lceil>rnd (of_int lvl / of_int (killing_blow_divisor m))\<rceil>))"

definition VETERANS_LUCK_USED_MARKER :: string where
  "VETERANS_LUCK_USED_MARKER = ''Veteran's Luck used this scene''"

definition veterans_luck :: "(('i, 'm) creature_core_scheme, bool) sm" where
  "veterans_luck =
     sbind get_st (\<lambda>core.
       if has_status VETERANS_LUCK_USED_MARKER core then ret False
       else sthen (put_st (append_status (new_status VETERANS_LUCK_USED_MARKER Scratch) core)) (ret True))"

end
