(* ===== verification/Wn_Chargen.thy ===== *)
theory Wn_Chargen
  imports Wn_Lethality
begin

text \<open>
  The ruleset's part of character creation: ability scores (src/sidequest/game/ruleset/base.py and the
  overrides of without_number.py), background and focus grants, and the resource pools a new character
  starts with (without_number.py; WwnClassMagic, Background and Focus of genre/models/character.py).
  Dicts are association lists, written in the order the code writes them.
\<close>

section \<open>Value pools\<close>

definition DEFAULT_STANDARD_ARRAY :: "int list" where
  "DEFAULT_STANDARD_ARRAY = [15, 14, 13, 12, 10, 8]"

definition WN_STANDARD_ARRAY :: "int list" where
  "WN_STANDARD_ARRAY = [14, 12, 11, 10, 9, 7]"

definition roll_one_stat :: "string \<Rightarrow> (rng, string \<times> int) sm" where
  "roll_one_stat nm = sbind (randint 1 6) (\<lambda>a. sbind (randint 1 6) (\<lambda>b. sbind (randint 1 6) (\<lambda>c. ret (nm, a + b + c))))"

definition roll_3d6_stats :: "string list \<Rightarrow> (rng, (string \<times> int) list) sm" where
  "roll_3d6_stats ability_names = smap roll_one_stat ability_names"

definition marginal_cost :: "int \<Rightarrow> int" where
  "marginal_cost v = (if 9 \<le> v \<and> v \<le> 13 then 1 else if v = 14 \<or> v = 15 then 2 else 2 ^ 30)"

text \<open>One round of the loop over the stats: the stats, what remains, whether any was raised.\<close>

fun point_buy_pass :: "int list \<Rightarrow> int \<Rightarrow> int list \<times> int \<times> bool" where
  "point_buy_pass [] remaining = ([], remaining, False)"
| "point_buy_pass (v # vs) remaining =
     (let next_val = v + 1 in
      if next_val \<le> 15 \<and> marginal_cost next_val \<le> remaining
      then (case point_buy_pass vs (remaining - marginal_cost next_val) of (vs', r, b) \<Rightarrow> (next_val # vs', r, True))
      else (case point_buy_pass vs remaining of (vs', r, b) \<Rightarrow> (v # vs', r, b)))"

definition headroom :: "int list \<Rightarrow> nat" where
  "headroom vs = sum_list (map (\<lambda>v. nat (15 - v)) vs)"

lemma point_buy_pass_headroom:
  "point_buy_pass vs remaining = (vs', r, b) \<Longrightarrow> headroom vs' \<le> headroom vs \<and> (b \<longrightarrow> headroom vs' < headroom vs)"
  by (induction vs arbitrary: remaining vs' r b)
     (fastforce simp: headroom_def Let_def split: if_splits prod.splits)+

function point_buy_loop :: "int list \<Rightarrow> int \<Rightarrow> int list" where
  "point_buy_loop vs remaining =
     (case point_buy_pass vs remaining of (vs', r, raised) \<Rightarrow>
        if \<not> raised \<or> r = 0 then vs' else point_buy_loop vs' r)"
  by pat_completeness auto
termination
proof (relation "measure (\<lambda>(vs, r). headroom vs)")
  show "wf (measure (\<lambda>(vs, r::int). headroom vs))" by simp
qed (auto dest!: point_buy_pass_headroom[OF sym])

declare point_buy_loop.simps [simp del]

definition allocate_point_buy :: "nat \<Rightarrow> int \<Rightarrow> int list" where
  "allocate_point_buy n budget = point_buy_loop (replicate n 8) budget"

definition base_attribute_values ::
  "string \<Rightarrow> string list \<Rightarrow> int list option \<Rightarrow> int \<Rightarrow> (string \<times> int) list option \<Rightarrow> (rng, int list) sm" where
  "base_attribute_values meth ability_names standard_array budget rolled =
     (if ability_names = [] then ret []
      else if meth = ''roll_3d6_strict''
      then (case rolled of Some rs \<Rightarrow> ret (map snd rs)
            | None \<Rightarrow> sbind (roll_3d6_stats ability_names) (\<lambda>rs. ret (map snd rs)))
      else if meth = ''roll_the_bones''
      then (case rolled of Some rs \<Rightarrow> ret (map snd rs)
            | None \<Rightarrow> raise (RuntimeError ''roll_the_bones mode active but no rolled stats recorded''))
      else if meth = ''standard_array''
      then ret (case standard_array of Some a \<Rightarrow> a | None \<Rightarrow> DEFAULT_STANDARD_ARRAY)
      else if meth = ''point_buy'' then ret (allocate_point_buy (length ability_names) budget)
      else raise (ValueError (''unknown stat generation method: '' @ meth)))"

definition wn_attribute_values ::
  "string \<Rightarrow> string list \<Rightarrow> int list option \<Rightarrow> int \<Rightarrow> (string \<times> int) list option \<Rightarrow> (rng, int list) sm" where
  "wn_attribute_values meth ability_names standard_array budget rolled =
     (if meth = ''point_buy'' then ret (case standard_array of Some a \<Rightarrow> a | None \<Rightarrow> WN_STANDARD_ARRAY)
      else base_attribute_values meth ability_names standard_array budget rolled)"

section \<open>Assignment\<close>

record accumulated_choices =
  class_hint :: "string option"
  race_hint :: "string option"
  affinity_hint :: "string option"
  mutation_hint :: "string option"
  training_hint :: "string option"
  stat_bonuses :: "(string \<times> int) list"

text \<open>\<open>stats[k] = stats[k] + d\<close>.\<close>

definition bump_stat :: "string \<Rightarrow> int \<Rightarrow> (string \<times> int) list \<Rightarrow> (string \<times> int) list res" where
  "bump_stat k d tbl = (case map_of tbl k of None \<Rightarrow> Inl (KeyError k) | Some v \<Rightarrow> Inr (AList.update k (v + d) tbl))"

definition dict_zip :: "string list \<Rightarrow> int list \<Rightarrow> (string \<times> int) list" where
  "dict_zip names pool = fold (\<lambda>(k, v) d. AList.update k v d) (zip names pool) []"

definition base_assign :: "int list \<Rightarrow> string list \<Rightarrow> accumulated_choices option \<Rightarrow> (string \<times> int) list res" where
  "base_assign pool names acc =
     (let tbl = dict_zip names pool in
      case acc of
        Some a \<Rightarrow>
          if stat_bonuses a = [] \<and> length names \<ge> 3
          then rbind (if race_hint a \<noteq> None then bump_stat (names ! 0) 3 tbl else Inr tbl) (\<lambda>s1.
               rbind (if mutation_hint a \<noteq> None \<or> affinity_hint a \<noteq> None
                      then rbind (bump_stat (names ! 1) 2 s1) (bump_stat (last names) (- 1)) else Inr s1) (\<lambda>s2.
               if class_hint a \<noteq> None \<or> training_hint a \<noteq> None
               then bump_stat (names ! min 2 (length names - 1)) 2 s2 else Inr s2))
          else Inr tbl
      | None \<Rightarrow> Inr tbl)"

text \<open>The names other than the prime in order, each with the next value (\<open>rest.pop(0)\<close>).\<close>

fun fill_stats :: "string option \<Rightarrow> string list \<Rightarrow> int list \<Rightarrow> (string \<times> int) list \<Rightarrow> (string \<times> int) list res" where
  "fill_stats prime [] rest tbl = Inr tbl"
| "fill_stats prime (nm # names) rest tbl =
     (if Some nm = prime then fill_stats prime names rest tbl
      else case rest of [] \<Rightarrow> Inl (IndexError ''pop from empty list'')
        | v # rest' \<Rightarrow> fill_stats prime names rest' (AList.update nm v tbl))"

definition wn_assign :: "int list \<Rightarrow> string list \<Rightarrow> string option \<Rightarrow> (string \<times> int) list res" where
  "wn_assign pool names class_prime =
     (let ordered = rev (sort pool);
          prime = (case class_prime of Some p \<Rightarrow> if p \<in> set names then Some p else None | None \<Rightarrow> None)
      in rbind (case prime of
                  Some p \<Rightarrow> (case ordered of [] \<Rightarrow> Inl (IndexError ''list index out of range'')
                            | v # rest \<Rightarrow> fill_stats prime names rest [(p, v)])
                | None \<Rightarrow> fill_stats prime names ordered []) (\<lambda>tbl.
         if ordered = [] then Inl (IndexError ''list index out of range'') else Inr tbl))"

definition apply_bonuses :: "(string \<times> int) list \<Rightarrow> (string \<times> int) list \<Rightarrow> (string \<times> int) list" where
  "apply_bonuses bonuses tbl =
     fold (\<lambda>(k, d) s. case map_of s k of None \<Rightarrow> s | Some v \<Rightarrow> AList.update k (v + d) s) bonuses tbl"

datatype attribute_rules = BaseRules | WnRules

definition generate_attributes ::
  "attribute_rules \<Rightarrow> string \<Rightarrow> string list \<Rightarrow> int list option \<Rightarrow> int \<Rightarrow> (string \<times> int) list option \<Rightarrow> accumulated_choices
   \<Rightarrow> string option \<Rightarrow> (rng, (string \<times> int) list) sm" where
  "generate_attributes rules meth names standard_array budget rolled acc class_prime =
     sbind (case rules of BaseRules \<Rightarrow> base_attribute_values meth names standard_array budget rolled
            | WnRules \<Rightarrow> wn_attribute_values meth names standard_array budget rolled) (\<lambda>pool.
     sbind (lift_res (case rules of
              BaseRules \<Rightarrow> base_assign pool names (if meth = ''standard_array'' then Some acc else None)
            | WnRules \<Rightarrow> wn_assign pool names class_prime)) (\<lambda>tbl.
     ret (apply_bonuses (stat_bonuses acc) tbl)))"

section \<open>Backgrounds and foci\<close>

record background =
  free_skill :: "string option"
  quick_skills :: "string list"

definition raise_skill :: "string \<Rightarrow> int \<Rightarrow> (string \<times> int) list \<Rightarrow> (string \<times> int) list" where
  "raise_skill k n d = AList.update k (max (case map_of d k of None \<Rightarrow> 0 | Some v \<Rightarrow> v) n) d"

definition contribute_background_skills :: "background option \<Rightarrow> (string \<times> int) list" where
  "contribute_background_skills bg =
     (case bg of None \<Rightarrow> []
      | Some b \<Rightarrow> fold (\<lambda>s. raise_skill s 0) (quick_skills b)
          (case free_skill b of None \<Rightarrow> [] | Some s \<Rightarrow> if s = [] then [] else raise_skill s 0 []))"

record 'a focus_level =
  focus_skills :: "(string \<times> int) list"
  focus_abilities :: "'a list"

definition contribute_foci :: "'a focus_level list list \<Rightarrow> (string \<times> int) list \<times> 'a list" where
  "contribute_foci foci =
     (let firsts = concat (map (take 1) foci) in
      (fold (\<lambda>l. fold (\<lambda>(k, n). raise_skill k n) (focus_skills l)) firsts [], concat (map focus_abilities firsts)))"

section \<open>Starting resources\<close>

record effort_source_def =
  source_name :: string
  governing_attr :: string
  starting_skill_level :: int

record class_magic =
  effort_sources :: "effort_source_def list"
  casts_per_day_by_level :: "(string \<times> int) list"
  max_spell_level_by_level :: "(string \<times> int) list"
  prepared_by_level :: "(string \<times> int) list"
  starting_prepared :: "string list"
  partial :: bool

record chargen_resources =
  seeded_effort :: "(string \<times> effort_pool) list"
  seeded_spellcasting :: "spellcasting_state option"
  seeded_strain :: "system_strain_pool option"

text \<open>\<open>xs[:n]\<close>.\<close>

definition slice_to :: "int \<Rightarrow> 'a list \<Rightarrow> 'a list" where
  "slice_to n xs = take (nat (if n < 0 then int (length xs) + n else n)) xs"

definition seed_strain :: "(string \<times> int) list \<Rightarrow> ruleset_config option \<Rightarrow> system_strain_pool option res" where
  "seed_strain tbl cfg =
     (case cfg of
        Some (CwnConfig b sc t) \<Rightarrow> rbind (flavor_of b ''CONSTITUTION'') (\<lambda>con_flavor.
          Inr (Some \<lparr>strain_current = 0, strain_max = max 1 (dict_get tbl con_flavor 10), strain_permanent = 0\<rparr>))
      | _ \<Rightarrow> Inr None)"

definition seed_effort_pool :: "swn_config \<Rightarrow> magic_config \<Rightarrow> bool \<Rightarrow> (string \<times> int) list \<Rightarrow> effort_source_def
    \<Rightarrow> (string \<times> effort_pool) list \<Rightarrow> (string \<times> effort_pool) list res" where
  "seed_effort_pool b mc is_partial tbl src d =
     rbind (flavor_of b (governing_attr src)) (\<lambda>flavor.
       let pool_max = effort_base mc + starting_skill_level src + swn_attribute_modifier (dict_get tbl flavor 10);
           pool_max = (if is_partial then pool_max - 1 else pool_max)
       in Inr (AList.update (source_name src)
                \<lparr>effort_source = source_name src, effort_max = max 1 pool_max, commitments = []\<rparr> d))"

definition seed_spellcasting :: "class_magic \<Rightarrow> spellcasting_state option" where
  "seed_spellcasting cm =
     (if casts_per_day_by_level cm = [] then None
      else let n = dict_get (casts_per_day_by_level cm) ''1'' 0;
               capacity = dict_get (prepared_by_level cm) ''1'' (int (length (starting_prepared cm)))
           in Some \<lparr>prepared = slice_to capacity (starting_prepared cm), casts_remaining = n, casts_per_day = n,
                    max_spell_level = dict_get (max_spell_level_by_level cm) ''1'' 0\<rparr>)"

text \<open>The configuration is a \<open>WwnConfig\<close> exactly for the \<open>wwn\<close> ruleset.\<close>

definition seed_chargen_resources ::
  "ruleset_config option \<Rightarrow> (string \<times> int) list \<Rightarrow> class_magic option \<Rightarrow> chargen_resources res" where
  "seed_chargen_resources cfg tbl cls =
     rbind (seed_strain tbl cfg) (\<lambda>strain.
       case (cfg, cls) of
         (Some (WwnConfig b sc t mc), Some cm) \<Rightarrow>
           rbind (rfold (seed_effort_pool b mc (partial cm) tbl) (effort_sources cm) []) (\<lambda>pools.
             Inr \<lparr>seeded_effort = pools, seeded_spellcasting = seed_spellcasting cm, seeded_strain = strain\<rparr>)
       | _ \<Rightarrow> Inr \<lparr>seeded_effort = [], seeded_spellcasting = None, seeded_strain = strain\<rparr>)"

end
