(* ===== verification/Wn_Properties.thy ===== *)
theory Wn_Properties
  imports Wn_Chargen
begin

text \<open>
  Laws of the Without Number rules. The daily and committed resources (Effort points, spell casts) are
  instances of one contract, an allowance that is spent or refused; System Strain is a rounded pool with
  a floor and a ceiling.
\<close>

definition ex_psychic :: "unit creature_core" where
  "ex_psychic = \<lparr>core_name = ''Ilse'', description = ''a psychic'', personality = ''calm'', level = 3, xp = 0,
     core_inventory = \<lparr>items = [], gold = 0\<rparr>, statuses = [], hp = hp_pool_from_hp 9,
     system_strain = Some \<lparr>strain_current = 9, strain_max = 10, strain_permanent = 2\<rparr>,
     effort = [(''psionic'', \<lparr>effort_source = ''psionic'', effort_max = 3,
        commitments = [\<lparr>points = 1, duration = SceneLong, label = ''veil''\<rparr>]\<rparr>)],
     spellcasting = Some \<lparr>prepared = [''bolt''], casts_remaining = 2, casts_per_day = 2, max_spell_level = 1\<rparr>,
     armor_class = 10, move = None, trauma_target_mod = 0, rig_pool = None, acquired_advancements = []\<rparr>"

definition ex_swn :: swn_config where
  "ex_swn = \<lparr>save_base = 15, difficulties = [], attribute_map = [(''CONSTITUTION'', ''Body'')]\<rparr>"

definition ex_cwn :: ruleset_config where
  "ex_cwn = CwnConfig ex_swn \<lparr>rest_recovery_per_night = 1, first_aid_cost = 1\<rparr>
     \<lparr>default_trauma_target = 6, mortal_injury_rounds = 6\<rparr>"

definition ex_wwn :: ruleset_config where
  "ex_wwn = WwnConfig ex_swn \<lparr>rest_recovery_per_night = 1, first_aid_cost = 1\<rparr> \<lparr>default_trauma_target = 6, mortal_injury_rounds = 6\<rparr>
     \<lparr>effort_base = 1, killing_blow_divisor = 2, day_reclaim_requires_comfort = True, default_spell_save = ''mental''\<rparr>"

section \<open>Allowances\<close>

text \<open>
  An allowance has an amount in use and a capacity. A request is granted, using its cost, or refused;
  a granted request never takes the use beyond the capacity.
\<close>

locale allowance =
  fixes well :: "'p \<Rightarrow> bool" and used :: "'p \<Rightarrow> int" and cap :: "'p \<Rightarrow> int"
    and cost :: "'a \<Rightarrow> int" and spend :: "'a \<Rightarrow> 'p \<Rightarrow> 'p option"
  assumes well_used: "well p \<Longrightarrow> used p \<le> cap p"
    and spend_well: "well p \<Longrightarrow> spend a p = Some q \<Longrightarrow> well q"
    and spend_used: "spend a p = Some q \<Longrightarrow> used q = used p + cost a"
    and spend_cap: "spend a p = Some q \<Longrightarrow> cap q = cap p"
begin

fun serve :: "'a list \<Rightarrow> 'p \<Rightarrow> 'p" where
  "serve [] p = p"
| "serve (a # as) p = (case spend a p of None \<Rightarrow> serve as p | Some q \<Rightarrow> serve as q)"

fun grants :: "'a list \<Rightarrow> 'p \<Rightarrow> bool list" where
  "grants [] p = []"
| "grants (a # as) p = (case spend a p of None \<Rightarrow> False # grants as p | Some q \<Rightarrow> True # grants as q)"

definition granted_cost :: "'a list \<Rightarrow> 'p \<Rightarrow> int" where
  "granted_cost as p = sum_list (map (\<lambda>(a, b). if b then cost a else 0) (zip as (grants as p)))"

lemma serve_laws:
  assumes "well p"
  shows "well (serve as p) \<and> cap (serve as p) = cap p \<and> used (serve as p) = used p + granted_cost as p"
  using assms
proof (induction as arbitrary: p)
  case Nil
  then show ?case by (simp add: granted_cost_def)
next
  case (Cons a as)
  show ?case
  proof (cases "spend a p")
    case None
    then show ?thesis using Cons by (simp add: granted_cost_def)
  next
    case (Some q)
    from Cons.IH[of q] spend_well[OF Cons.prems Some] spend_used[OF Some] spend_cap[OF Some]
    show ?thesis using Some by (simp add: granted_cost_def)
  qed
qed

lemma granted_within_capacity: "well p \<Longrightarrow> used p + granted_cost as p \<le> cap p"
  using serve_laws[of p as] well_used[of "serve as p"] by simp

end

section \<open>Effort is an allowance\<close>

type_synonym effort_request = "int \<times> effort_duration \<times> string"

definition effort_ok :: "effort_pool \<Rightarrow> bool" where
  "effort_ok p \<longleftrightarrow> committed p \<le> effort_max p"

definition commit_pool :: "effort_request \<Rightarrow> effort_pool \<Rightarrow> effort_pool option" where
  "commit_pool r p = (case r of (pts, d, lbl) \<Rightarrow>
     if pts \<le> available p then Some (p\<lparr>commitments := commitments p @ [\<lparr>points = pts, duration = d, label = lbl\<rparr>]\<rparr>) else None)"

interpretation effort: allowance effort_ok committed effort_max fst commit_pool
  by unfold_locales (auto simp: effort_ok_def commit_pool_def committed_def available_def split: prod.splits if_splits)

fun duration_name :: "effort_duration \<Rightarrow> string" where
  "duration_name Maintained = ''maintained''"
| "duration_name SceneLong = ''scene''"
| "duration_name DayLong = ''day''"

lemma parse_duration_name [simp]: "parse_duration (duration_name d) = Inr d"
  by (cases d) (simp_all add: parse_duration_def)

text \<open>One request of the narrator: commit from a source.\<close>

definition request_effort :: "string \<Rightarrow> effort_request \<Rightarrow> (('i, 'm) creature_core_scheme, effort_result) sm" where
  "request_effort src r = (case r of (pts, d, lbl) \<Rightarrow> commit_effort src pts (duration_name d) lbl)"

lemma set_pool_simps [simp]:
  "map_of (effort (set_pool src p core)) = (map_of (effort core))(src \<mapsto> p)"
  "system_strain (set_pool src p core) = system_strain core"
  "spellcasting (set_pool src p core) = spellcasting core"
  "statuses (set_pool src p core) = statuses core"
  by (simp_all add: set_pool_def update_conv')

lemma set_pool_twice [simp]: "set_pool src q (set_pool src p core) = set_pool src q core"
  by (simp add: set_pool_def update_triv update_last)

lemma set_pool_same: "map_of (effort core) src = Some p \<Longrightarrow> set_pool src p core = core"
  by (simp add: set_pool_def update_triv)

lemma request_effort_run:
  assumes "map_of (effort core) src = Some p"
  shows "request_effort src r core =
    (Inr \<lparr>effort_applied = (commit_pool r p \<noteq> None),
          effort_available = available (case commit_pool r p of None \<Rightarrow> p | Some q \<Rightarrow> q), effort_cap = effort_max p\<rparr>,
     (case commit_pool r p of None \<Rightarrow> core | Some q \<Rightarrow> set_pool src q core))"
  using assms
  by (cases r) (simp add: request_effort_def commit_effort_def commit_pool_def sm_core_defs Let_def)

lemma requests_run:
  assumes "map_of (effort core) src = Some p"
  shows "\<exists>rs. smap (request_effort src) reqs core = (Inr rs, set_pool src (effort.serve reqs p) core) \<and>
           map effort_applied rs = effort.grants reqs p"
  using assms
proof (induction reqs arbitrary: core p)
  case Nil
  then show ?case by (simp add: ret_def set_pool_same)
next
  case (Cons r reqs)
  let ?p' = "case commit_pool r p of None \<Rightarrow> p | Some q \<Rightarrow> q"
  let ?c' = "case commit_pool r p of None \<Rightarrow> core | Some q \<Rightarrow> set_pool src q core"
  have c': "map_of (effort ?c') src = Some ?p'"
    using Cons.prems by (simp split: option.splits)
  obtain rs where rs: "smap (request_effort src) reqs ?c' = (Inr rs, set_pool src (effort.serve reqs ?p') ?c')"
      "map effort_applied rs = effort.grants reqs ?p'"
    using Cons.IH[OF c'] by blast
  show ?case
    using rs request_effort_run[OF Cons.prems, of r]
    by (auto simp: sbind_def ret_def split: option.splits)
qed

text \<open>
  However many times the narrator asks a character to commit Effort from one source, with whatever
  points and durations, no request raises, the pool is never committed beyond its maximum, what is
  committed in the end is what was committed before plus exactly the requests reported as applied, and
  no other pool of the character is touched.
\<close>
theorem effort_never_overcommitted:
  assumes "map_of (effort core) src = Some p" and "committed p \<le> effort_max p"
  shows "\<exists>rs q. fst (smap (request_effort src) reqs core) = Inr rs \<and> length rs = length reqs \<and>
           map_of (effort (snd (smap (request_effort src) reqs core))) = (map_of (effort core))(src \<mapsto> q) \<and>
           effort_max q = effort_max p \<and> committed q \<le> effort_max q \<and>
           committed q = committed p + sum_list (map (\<lambda>(a, r). if effort_applied r then fst a else 0) (zip reqs rs))"
proof -
  obtain rs where rs: "smap (request_effort src) reqs core = (Inr rs, set_pool src (effort.serve reqs p) core)"
      "map effort_applied rs = effort.grants reqs p"
    using requests_run[OF assms(1)] by blast
  have ok: "effort_ok p" using assms(2) by (simp add: effort_ok_def)
  have len: "length rs = length reqs"
  proof -
    have "length (effort.grants as q) = length as" for as q
      by (induction as arbitrary: q) (auto split: option.splits)
    then show ?thesis using arg_cong[OF rs(2), of length] by simp
  qed
  have "effort.granted_cost reqs p = sum_list (map (\<lambda>(a, r). if effort_applied r then fst a else 0) (zip reqs rs))"
    unfolding effort.granted_cost_def rs(2)[symmetric] by (simp add: zip_map2 o_def case_prod_unfold cong: if_cong)
  then show ?thesis
    using rs len effort.serve_laws[OF ok, of reqs] by (auto simp: effort_ok_def)
qed


theorem effort_never_overcommitted_witness:
  "\<exists>rs q. fst (smap (request_effort ''psionic'') [(1, DayLong, ''a''), (2, SceneLong, ''b''), (1, Maintained, ''c'')] ex_psychic) = Inr rs \<and>
     length rs = 3 \<and> effort_max q = 3 \<and> committed q \<le> 3"
proof -
  have a: "map_of (effort ex_psychic) ''psionic'' = Some \<lparr>effort_source = ''psionic'', effort_max = 3,
        commitments = [\<lparr>points = 1, duration = SceneLong, label = ''veil''\<rparr>]\<rparr>" by (simp add: ex_psychic_def)
  have b: "committed \<lparr>effort_source = ''psionic'', effort_max = 3,
        commitments = [\<lparr>points = 1, duration = SceneLong, label = ''veil''\<rparr>]\<rparr> \<le> 3" by (simp add: committed_def)
  obtain rs q where "fst (smap (request_effort ''psionic'') [(1, DayLong, ''a''), (2, SceneLong, ''b''), (1, Maintained, ''c'')] ex_psychic) = Inr rs"
      "length rs = 3" "effort_max q = 3" "committed q \<le> 3"
    using effort_never_overcommitted[OF a, of "[(1, DayLong, ''a''), (2, SceneLong, ''b''), (1, Maintained, ''c'')]"] b
    by (auto simp del: smap.simps)
  then show ?thesis by blast
qed

section \<open>Spell casts are an allowance\<close>

definition casts_ok :: "spellcasting_state \<Rightarrow> bool" where
  "casts_ok s \<longleftrightarrow> 0 \<le> casts_remaining s"

definition castable :: "cast_input \<Rightarrow> spellcasting_state \<Rightarrow> bool" where
  "castable sp s \<longleftrightarrow> 0 < casts_remaining s \<and> spell_id sp \<in> set (prepared s) \<and> spell_level sp \<le> max_spell_level s"

definition spend_cast :: "cast_input \<Rightarrow> spellcasting_state \<Rightarrow> spellcasting_state option" where
  "spend_cast sp s = (if castable sp s then Some (s\<lparr>casts_remaining := casts_remaining s - 1\<rparr>) else None)"

interpretation casts: allowance casts_ok "\<lambda>s. casts_per_day s - casts_remaining s" casts_per_day "\<lambda>_. 1" spend_cast
  by unfold_locales (auto simp: casts_ok_def spend_cast_def castable_def split: if_splits)

lemma on_rng_core: "fst (snd (on_rng m cg)) = fst cg"
  by (cases cg) (simp add: on_rng_def Let_def split: prod.splits)

text \<open>The rolls of a spell after the cast is spent, as one computation on the generator.\<close>

definition spell_rolls :: "cast_input \<Rightarrow> (int \<times> (string \<times> int) list) option \<Rightarrow> swn_config \<Rightarrow> int \<Rightarrow> (rng, bool option \<times> int) sm" where
  "spell_rolls sp target b lvl =
     sbind (spell_save_roll sp target b) (\<lambda>made. sbind (spell_damage_roll sp lvl made) (\<lambda>dmg. ret (made, dmg)))"

lemma resolve_spellcast_run:
  assumes "spellcasting core = Some s"
  shows "resolve_spellcast sp target (Some (WwnConfig b sc t m)) (core, g) =
    (case spend_cast sp s of
       None \<Rightarrow> (Inr (refuse_cast s), (core, g))
     | Some s' \<Rightarrow>
        (case spell_rolls sp target b (level core) g of
           (Inl e, g') \<Rightarrow> (Inl e, (core\<lparr>spellcasting := Some s'\<rparr>, g'))
         | (Inr (made, dmg), g') \<Rightarrow>
             (Inr \<lparr>was_cast = True, casts_left = casts_remaining s', spell_save_made = made, spell_damage = dmg\<rparr>,
              (core\<lparr>spellcasting := Some s'\<rparr>, g'))))"
  using assms
  by (auto simp: resolve_spellcast_def spell_rolls_def spend_cast_def castable_def refuse_cast_def sm_core_defs
        on_core_def on_rng_def Let_def split: prod.splits sum.splits)

text \<open>
  Casting a spell under a Worlds Without Number configuration. A spell that may not be cast (no casts
  left, not prepared, too high a level) is refused and changes nothing at all, the generator included.
  One that may be cast takes exactly one cast from the day's allowance whatever happens next, also when
  its rolls raise, and touches nothing else of the caster; the result reports the casts that are left.
\<close>
theorem spell_spends_one_cast:
  assumes "spellcasting core = Some s"
  shows "(case resolve_spellcast sp target (Some (WwnConfig b sc t m)) (core, g) of (r, (core', g')) \<Rightarrow>
    (if castable sp s
     then core' = core\<lparr>spellcasting := Some (s\<lparr>casts_remaining := casts_remaining s - 1\<rparr>)\<rparr> \<and>
          (\<forall>x. r = Inr x \<longrightarrow> was_cast x \<and> casts_left x = casts_remaining s - 1)
     else core' = core \<and> g' = g \<and> (\<exists>x. r = Inr x \<and> \<not> was_cast x \<and> casts_left x = casts_remaining s)))"
  by (auto simp: resolve_spellcast_run[OF assms] spend_cast_def refuse_cast_def split: prod.splits sum.splits)

theorem spell_spends_one_cast_witness:
  "casts_remaining (the (spellcasting (fst (snd (resolve_spellcast
     \<lparr>spell_id = ''bolt'', spell_level = 1, spell_save = None, damage_die = Some ''1d6'', damage_per_level = True\<rparr> None
     (Some ex_wwn)
     (ex_psychic, [4, 1, 3])))))) = 1"
proof -
  let ?s = "\<lparr>prepared = [''bolt''], casts_remaining = 2, casts_per_day = 2, max_spell_level = 1\<rparr>"
  let ?sp = "\<lparr>spell_id = ''bolt'', spell_level = 1, spell_save = None, damage_die = Some ''1d6'', damage_per_level = True\<rparr>"
  have s: "spellcasting ex_psychic = Some ?s" by (simp add: ex_psychic_def)
  have "castable ?sp ?s" by (simp add: castable_def)
  with spell_spends_one_cast[OF s, where sp = ?sp and g = "[4, 1, 3]" and target = None and b = ex_swn and sc = "\<lparr>rest_recovery_per_night = 1, first_aid_cost = 1\<rparr>"
      and t = "\<lparr>default_trauma_target = 6, mortal_injury_rounds = 6\<rparr>"
      and m = "\<lparr>effort_base = 1, killing_blow_divisor = 2, day_reclaim_requires_comfort = True, default_spell_save = ''mental''\<rparr>"]
  have "case resolve_spellcast ?sp None (Some ex_wwn) (ex_psychic, [4, 1, 3]) of (r, core', g') \<Rightarrow>
      core' = ex_psychic\<lparr>spellcasting := Some (?s\<lparr>casts_remaining := 1\<rparr>)\<rparr>"
    unfolding ex_wwn_def by (auto split: prod.splits)
  then show ?thesis by (simp split: prod.splits)
qed

section \<open>System Strain\<close>

text \<open>The floor and the ceiling, and that the two floats are binary64 numbers.\<close>

definition strain_ok :: "system_strain_pool \<Rightarrow> bool" where
  "strain_ok p \<longleftrightarrow> 0 \<le> strain_permanent p \<and> strain_permanent p \<le> strain_current p \<and> strain_current p \<le> of_int (strain_max p) \<and>
     rnd (strain_permanent p) = strain_permanent p \<and> rnd (strain_current p) = strain_current p"

lemma strain_gain_ok: "strain_ok p \<Longrightarrow> 0 \<le> amount \<Longrightarrow> strain_gain amount p = Some q \<Longrightarrow> strain_ok q"
  using rnd_mono[of "strain_current p" "strain_current p + amount"]
  by (auto simp: strain_gain_def strain_ok_def fadd_def Let_def split: if_splits)

lemma rnd_max: "rnd x = x \<Longrightarrow> rnd y = y \<Longrightarrow> rnd (max x y) = max x y"
  by (simp add: max_def)

lemma strain_permanent_change_ok:
  assumes ok: "strain_ok p" and ch: "strain_permanent_change amount p = Some q"
  shows "strain_ok q"
proof -
  define np where "np = max 0 (fadd (strain_permanent p) amount)"
  define nc where "nc = fadd (strain_current p) amount"
  have q: "q = p\<lparr>strain_permanent := np, strain_current := max np nc\<rparr>"
    and guard: "amount > 0 \<longrightarrow> nc \<le> of_int (strain_max p)"
    using ch by (auto simp: strain_permanent_change_def Let_def np_def nc_def split: if_splits)
  have le: "fadd (strain_permanent p) amount \<le> nc"
    unfolding nc_def fadd_def using ok by (intro rnd_mono) (simp add: strain_ok_def)
  have "max np nc \<le> of_int (strain_max p)"
  proof (cases "amount > 0")
    case True
    then show ?thesis using guard le ok by (auto simp: np_def strain_ok_def)
  next
    case False
    then have "nc \<le> strain_current p" "fadd (strain_permanent p) amount \<le> strain_permanent p"
      using ok rnd_mono[of "strain_current p + amount" "strain_current p"]
        rnd_mono[of "strain_permanent p + amount" "strain_permanent p"]
      by (auto simp: nc_def fadd_def strain_ok_def)
    then show ?thesis using ok by (auto simp: np_def strain_ok_def)
  qed
  moreover have "rnd np = np" "rnd (max np nc) = max np nc"
    by (simp_all add: np_def nc_def fadd_def rnd_max)
  ultimately show ?thesis using q by (simp add: strain_ok_def np_def)
qed

lemma strain_rest_ok:
  assumes ok: "strain_ok p" and r: "0 \<le> rest_recovery_per_night sc"
  shows "strain_ok (strain_rest sc amount p)"
proof -
  define delta where "delta = rnd (- of_int (rest_recovery_per_night sc) * max 0 amount)"
  have "delta \<le> rnd 0" unfolding delta_def using r by (intro rnd_mono) simp
  then have "fadd (strain_current p) delta \<le> rnd (strain_current p)"
    unfolding fadd_def by (intro rnd_mono) simp
  then have "fadd (strain_current p) delta \<le> strain_current p" using ok by (simp add: strain_ok_def)
  moreover have "rnd (max (strain_permanent p) (fadd (strain_current p) delta)) = max (strain_permanent p) (fadd (strain_current p) delta)"
    using ok by (intro rnd_max) (simp_all add: strain_ok_def fadd_def)
  ultimately show ?thesis
    using ok unfolding strain_rest_def delta_def[symmetric] by (auto simp: strain_ok_def)
qed

text \<open>What the caller asks for: a known kind, no negative temporary strain, and no negative costs in the configuration.\<close>

definition strain_request_ok :: "strain_config \<Rightarrow> string \<Rightarrow> rat \<Rightarrow> bool" where
  "strain_request_ok sc knd amount \<longleftrightarrow> 0 \<le> rest_recovery_per_night sc \<and> 0 \<le> first_aid_cost sc \<and>
     (knd = ''first_aid'' \<or> knd = ''permanent'' \<or> knd = ''rest'' \<or> knd = ''temporary'' \<and> 0 \<le> amount)"

lemma strain_change_ok:
  assumes "strain_ok p" "strain_request_ok sc knd amount"
  obtains r where "strain_change sc knd amount p = Inr r" "\<And>q. r = Some q \<Longrightarrow> strain_ok q"
proof -
  obtain r where r: "strain_change sc knd amount p = Inr r"
    using assms(2) by (auto simp: strain_request_ok_def strain_change_def)
  have "strain_ok q" if "r = Some q" for q
    using r that assms strain_gain_ok[of p "of_int (first_aid_cost sc)" q] strain_gain_ok[of p amount q] strain_permanent_change_ok[of p amount q] strain_rest_ok[of p sc amount]
    by (auto simp: strain_request_ok_def strain_change_def)
  with r that show thesis by blast
qed




text \<open>A temporary change may be negative, and then nothing stops it at the floor or at zero.\<close>

lemma negative_temporary_strain_undercuts_floor:
  "snd (apply_system_strain ''temporary'' (- 3) (Some (CwnConfig b sc t))
     (core\<lparr>system_strain := Some \<lparr>strain_current = 2, strain_max = 10, strain_permanent = 2\<rparr>\<rparr>))
   = core\<lparr>system_strain := Some \<lparr>strain_current = - 1, strain_max = 10, strain_permanent = 2\<rparr>\<rparr>"
  using rnd_int[of "- 1"] by (simp add: apply_system_strain_def sm_core_defs Let_def strain_change_def strain_gain_def fadd_def)

section \<open>Disciplines\<close>

lemma commit_effort_run:
  assumes "map_of (effort core) src = Some p" and "pts \<le> available p" and "parse_duration dur = Inr d"
  shows "commit_effort src pts dur lbl core =
    (Inr \<lparr>effort_applied = True, effort_available = available p - pts, effort_cap = effort_max p\<rparr>,
     set_pool src (p\<lparr>commitments := commitments p @ [\<lparr>points = pts, duration = d, label = lbl\<rparr>]\<rparr>) core)"
  using assms by (simp add: commit_effort_def sm_core_defs Let_def available_def committed_def)

text \<open>
  A psychic whose System Strain is too full to take the cost of a discipline activates it all the same:
  the Effort is committed, the result says that the strain cost was paid, and the strain pool has not
  moved.
\<close>
theorem full_strain_push_is_free:
  assumes "map_of (effort core) src = Some p" and "effort_cost d \<le> available p"
    and "parse_duration (discipline_duration d) = Inr dur" and "0 < strain_cost d"
    and "system_strain core = Some sp" and "of_int (strain_max sp) < fadd (strain_current sp) (of_int (strain_cost d))"
    and "lethality_of cfg = Some lt"
  shows "\<exists>q. activate_discipline d src cfg core =
    (Inr \<lparr>activated = True, activation_available = available p - effort_cost d, strained = strain_cost d\<rparr>, set_pool src q core) \<and>
    committed q = committed p + effort_cost d \<and> system_strain (set_pool src q core) = Some sp"
proof -
  define q where "q = p\<lparr>commitments := commitments p @ [\<lparr>points = effort_cost d, duration = dur, label = discipline_name d\<rparr>]\<rparr>"
  have c: "commit_effort src (effort_cost d) (discipline_duration d) (discipline_name d) core =
      (Inr \<lparr>effort_applied = True, effort_available = available p - effort_cost d, effort_cap = effort_max p\<rparr>, set_pool src q core)"
    using commit_effort_run[OF assms(1,2,3)] by (simp add: q_def)
  have q: "committed q = committed p + effort_cost d" "available q = available p - effort_cost d"
    by (simp_all add: q_def committed_def available_def)
  have keep: "(set_pool src q core)\<lparr>system_strain := Some sp\<rparr> = set_pool src q core"
    using assms(5) by (simp add: set_pool_def)
  obtain sc t where "lt = (sc, t)" by (cases lt)
  then have s: "\<exists>r. apply_system_strain ''temporary'' (of_int (strain_cost d)) cfg (set_pool src q core) = (Inr r, set_pool src q core)"
    using assms(5,6,7) keep
    by (simp add: apply_system_strain_def sm_core_defs Let_def strain_change_def strain_gain_def)
  then show ?thesis
    using assms(1,2,4,5) c q by (auto simp: activate_discipline_def sm_core_defs)
qed

theorem full_strain_push_is_free_witness:
  "\<exists>q. activate_discipline \<lparr>discipline_id = ''tp'', discipline_name = ''Teleport'', effort_cost = 1, discipline_duration = ''day'',
       strain_cost = 2\<rparr> ''psionic'' (Some ex_cwn) ex_psychic =
     (Inr \<lparr>activated = True, activation_available = 1, strained = 2\<rparr>, set_pool ''psionic'' q ex_psychic) \<and>
     strain_current (the (system_strain (set_pool ''psionic'' q ex_psychic))) = 9"
proof -
  let ?d = "\<lparr>discipline_id = ''tp'', discipline_name = ''Teleport'', effort_cost = 1, discipline_duration = ''day'', strain_cost = 2\<rparr>"
  let ?p = "\<lparr>effort_source = ''psionic'', effort_max = 3, commitments = [\<lparr>points = 1, duration = SceneLong, label = ''veil''\<rparr>]\<rparr>"
  have p: "map_of (effort ex_psychic) ''psionic'' = Some ?p" by (simp add: ex_psychic_def)
  have "fadd 9 2 = 11" using rnd_int[of 11] by (simp add: fadd_def)
  then show ?thesis
    using full_strain_push_is_free[OF p, of ?d DayLong "\<lparr>strain_current = 9, strain_max = 10, strain_permanent = 2\<rparr>" "Some ex_cwn"]
    by (simp add: ex_cwn_def available_def committed_def parse_duration_def) (auto simp: ex_psychic_def)
qed

section \<open>Starting resources\<close>

text \<open>
  A new character of the Worlds Without Number ruleset starts without a System Strain pool, whatever
  the class and scores, so that every System Strain change of that character raises; one of the cyberpunk
  and post-apocalyptic rulesets starts with an empty pool that lies in bounds.
\<close>
theorem wwn_characters_cannot_strain:
  assumes "seed_chargen_resources (Some cfg) tbl cls = Inr res" and "system_strain core = seeded_strain res"
  shows "(case cfg of
      WwnConfig b sc t m \<Rightarrow> seeded_strain res = None \<and> (\<exists>e. apply_system_strain knd amount (Some cfg) core = (Inl e, core))
    | CwnConfig b sc t \<Rightarrow> (\<exists>p. seeded_strain res = Some p \<and> strain_ok p \<and> strain_current p = 0)
    | SwnConfig b \<Rightarrow> seeded_strain res = None)"
  using assms
  by (cases cfg) (auto simp: seed_chargen_resources_def seed_strain_def rbind_Inr_iff apply_system_strain_def sm_core_defs
      strain_ok_def split: option.splits)


theorem wwn_characters_cannot_strain_witness:
  "\<exists>res p. seed_chargen_resources (Some ex_cwn) [(''Body'', 12)] None = Inr res \<and> seeded_strain res = Some p \<and> strain_ok p"
proof -
  let ?res = "\<lparr>seeded_effort = [], seeded_spellcasting = None,
    seeded_strain = Some \<lparr>strain_current = 0, strain_max = 12, strain_permanent = 0\<rparr>\<rparr>"
  have r: "seed_chargen_resources (Some ex_cwn) [(''Body'', 12)] None = Inr ?res"
    by (simp add: seed_chargen_resources_def seed_strain_def ex_cwn_def ex_swn_def flavor_of_def dict_get_def)
  have "system_strain (ex_psychic\<lparr>system_strain := seeded_strain ?res\<rparr>) = seeded_strain ?res" by simp
  from wwn_characters_cannot_strain[OF r this] show ?thesis using r by (auto simp: ex_cwn_def)
qed

section \<open>Initiative\<close>

lemma swn_modifier_bounds: "- 2 \<le> swn_attribute_modifier s" "swn_attribute_modifier s \<le> 2"
  by (simp_all add: swn_attribute_modifier_def)

lemma roll_entry_ok:
  "ok (roll_entry p) (\<lambda>e. token_id e = fst p \<and> swn_attribute_modifier (snd p) + 1 \<le> init_value e \<and>
     init_value e \<le> swn_attribute_modifier (snd p) + 8)"
  unfolding roll_entry_def by (rule ok_sbind[OF randint_ok]) (simp_all add: wp)

text \<open>
  Rolling initiative never raises. The order lists every token exactly once, as often as it was given,
  highest value first; tokens with the same value keep the order they were given in; each value is one
  to eight plus the token's modifier, hence between -1 and 10.
\<close>
theorem initiative_is_a_sorted_roster:
  "\<exists>es es0. fst (roll_initiative dex g) = Inr es \<and> mset es = mset es0 \<and>
     list_all2 (\<lambda>p e. token_id e = fst p \<and> 1 \<le> init_value e - swn_attribute_modifier (snd p) \<and>
        init_value e - swn_attribute_modifier (snd p) \<le> 8) dex es0 \<and>
     sorted_wrt (\<lambda>a b. init_value b \<le> init_value a) es \<and>
     (\<forall>v. filter (\<lambda>e. init_value e = v) es = filter (\<lambda>e. init_value e = v) es0) \<and>
     (\<forall>e \<in> set es. - 1 \<le> init_value e \<and> init_value e \<le> 10)"
proof -
  let ?R = "\<lambda>p e. token_id e = fst p \<and> 1 \<le> init_value e - swn_attribute_modifier (snd p) \<and>
        init_value e - swn_attribute_modifier (snd p) \<le> 8"
  have "ok (smap roll_entry dex) (list_all2 ?R dex)"
    by (intro ok_smap ok_weaken[OF roll_entry_ok]) auto
  then obtain es0 g' where es0: "smap roll_entry dex g = (Inr es0, g')" "list_all2 ?R dex es0"
    unfolding ok_def by blast
  let ?es = "sort_key (\<lambda>e. - init_value e) es0"
  have run: "fst (roll_initiative dex g) = Inr ?es"
    using es0(1) by (simp add: roll_initiative_def sbind_def ret_def)
  have sorted: "sorted_wrt (\<lambda>a b. init_value b \<le> init_value a) ?es"
    using sorted_sort_key[of "\<lambda>e. - init_value e" es0] by (simp add: sorted_map)
  have stable: "filter (\<lambda>e. init_value e = v) ?es = filter (\<lambda>e. init_value e = v) es0" for v
    using filter_sort[of "\<lambda>e. init_value e = v"] sort_key_stable[of "\<lambda>e. - init_value e" "- v" es0] by simp
  have "- 1 \<le> init_value e \<and> init_value e \<le> 10" if "e \<in> set ?es" for e
  proof -
    from that obtain i where "i < length es0" "e = es0 ! i" by (auto simp: in_set_conv_nth)
    then have "?R (dex ! i) e" using es0(2) by (simp add: list_all2_conv_all_nth)
    then show ?thesis using swn_modifier_bounds[of "snd (dex ! i)"] by linarith
  qed
  then show ?thesis using run sorted stable es0(2) by (intro exI[of _ ?es] exI[of _ es0]) auto
qed

section \<open>Damage\<close>

lemma roll_die_ok: "0 < f \<Longrightarrow> ok (roll_die f) (\<lambda>x. 1 \<le> x \<and> x \<le> int f)"
  unfolding roll_die_def
  by (rule ok_if) (rule ok_sbind[OF randint_ok] | auto intro!: wp randint_ok simp: parity_value_def)+

lemma sum_list_bounds:
  "\<forall>x \<in> set xs. lo \<le> x \<and> x \<le> hi \<Longrightarrow> int (length xs) * lo \<le> sum_list xs \<and> sum_list xs \<le> int (length xs) * (hi :: int)"
  by (induction xs) (auto simp: algebra_simps)

lemma roll_damage_ok:
  assumes "parse_dice (strip (dice s)) = Some (n, f)" "0 < f"
  shows "ok (roll_damage s) (\<lambda>x. int n + bonus s \<le> x \<and> x \<le> int n * int f + bonus s)"
proof -
  have "ok (smap (\<lambda>_. roll_die f) [0..<n]) (\<lambda>xs. length xs = n \<and> (\<forall>x \<in> set xs. 1 \<le> x \<and> x \<le> int f))"
    by (rule ok_weaken[OF ok_smap[OF roll_die_ok[OF assms(2)]]]) (auto simp: list_all2_conv_all_nth in_set_conv_nth)
  then show ?thesis
    unfolding roll_damage_def assms(1) option.case prod.case
    by (rule ok_sbind) (auto intro!: wp dest!: sum_list_bounds)
qed

lemma validated_dice:
  assumes "damage_validate s = Inr s'"
  obtains n f where "s' = s" "parse_dice (strip (dice s)) = Some (n, f)" "1 \<le> n" "0 < f" "1 \<le> trauma_rating s"
  using assms by (auto simp: damage_validate_def valid_dice_def supported_sides_def split: if_splits option.splits)

text \<open>
  Rolling a damage specification that passed its validation never raises, and the total lies between
  the number of dice and the number of dice times their faces, plus the bonus.
\<close>
theorem validated_damage_rolls_in_range:
  assumes "damage_validate s = Inr s'"
  shows "\<exists>n f x. parse_dice (strip (dice s)) = Some (n, f) \<and> fst (roll_damage s' g) = Inr x \<and>
           int n + bonus s \<le> x \<and> x \<le> int n * int f + bonus s"
proof -
  obtain n f where s: "s' = s" "parse_dice (strip (dice s)) = Some (n, f)" "0 < f" using validated_dice[OF assms] by blast
  from ok_result[OF roll_damage_ok[OF s(2,3)], of g] s(1,2) show ?thesis by auto
qed

theorem validated_damage_rolls_in_range_witness:
  "\<exists>x. fst (roll_damage (plain_dice ''2d6'') [3, 5]) = Inr x \<and> 2 \<le> x \<and> x \<le> 12"
proof -
  have v: "damage_validate (plain_dice ''2d6'') = Inr (plain_dice ''2d6'')" by code_simp
  have "parse_dice (strip (dice (plain_dice ''2d6''))) = Some (2, 6)" by code_simp
  with validated_damage_rolls_in_range[OF v, of "[3, 5]"] show ?thesis by (auto simp: plain_dice_def)
qed

text \<open>The check on a trauma die looks at its faces only, so a die thrown zero times loads and raises when it is rolled.\<close>

lemma zero_trauma_die_raises:
  "valid_trauma_die (Some ''0d6'') \<and>
   (\<exists>e. resolve_trauma ((plain_dice ''1d6'')\<lparr>trauma_die := Some ''0d6''\<rparr>) n (Some ex_cwn) g = (Inl e, g))"
proof -
  have v: "valid_trauma_die (Some ''0d6'')" by code_simp
  have "damage_validate (plain_dice ''0d6'') = Inl (ValueError ''DamageSpec'')" by code_simp
  then show ?thesis using v by (simp add: resolve_trauma_def plain_dice_def ex_cwn_def sm_core_defs Let_def)
qed

lemma zero_move_is_one_cell: "combat_move_cells (Some 0) = 1"
  by (simp add: combat_move_cells_def meters_to_cells_def trunc_def)

section \<open>Going down\<close>

lemma major_injury_entry_total: "1 \<le> r \<Longrightarrow> r \<le> 12 \<Longrightarrow> \<exists>t. major_injury_entry r = Inr t"
proof -
  assume "1 \<le> r" "r \<le> 12"
  then have "r \<in> {1, 2, 3, 4, 5, 6, 7, 8, 9, 10, 11, 12}" unfolding insert_iff empty_iff by presburger
  then show ?thesis by (auto simp: major_injury_entry_def MAJOR_INJURY_TABLE_def)
qed

definition minted :: "('i, 'm) creature_core_scheme \<Rightarrow> ('i, 'm) creature_core_scheme \<Rightarrow> status list" where
  "minted core core' = drop (length (statuses core)) (statuses core')"

lemma randint_runs: "lo \<le> hi \<Longrightarrow> \<exists>k g'. randint lo hi g = (Inr k, g') \<and> lo \<le> k \<and> k \<le> hi"
  using randint_ok[of lo hi] by (simp add: ok_def)

lemma injury_status_simps [simp]:
  "stabilizable (injury_status txt turn enc dying) = dying"
  "severity (injury_status txt turn enc dying) = Scar"
  "status_text (injury_status txt turn enc dying) = txt"
  "incapacitating (injury_status txt turn enc dying) = dying"
  by (simp_all add: injury_status_def new_status_def)

text \<open>
  Resolving a character who drops to zero hit points never raises under a lethality configuration. It
  appends to the character's statuses and changes nothing else of the character: the Mortal Injury
  unless a terminal verdict supersedes it, and a Major Injury exactly when a Traumatic Hit landed in the
  scene and the save failed. A stabilizable window is opened only when it was asked for and is not
  superseded, and what is appended is always a Scar.
\<close>
theorem downed_mints_coherent_statuses:
  assumes "lethality_of cfg = Some lt"
  shows "\<exists>r core' g'. resolve_downed target traumatic_hit cfg turn enc superseded dying (core, g) = (Inr r, (core', g')) \<and>
    core' = core\<lparr>statuses := statuses core @ minted core core'\<rparr> \<and> mortal r \<and>
    (major r \<longleftrightarrow> traumatic_hit \<and> \<not> save_made r) \<and>
    length (minted core core') = (if superseded then 0 else 1) + (if major r then 1 else 0) \<and>
    ((\<exists>s \<in> set (minted core core'). is_dying_window_status s) \<longleftrightarrow> dying \<and> \<not> superseded) \<and>
    (\<forall>s \<in> set (minted core core'). severity s = Scar)"
proof -
  obtain sc t where lt: "lethality_of cfg = Some (sc, t)" using assms by (cases lt) auto
  obtain k g1 where k: "randint 1 20 g = (Inr k, g1)" using randint_runs[of 1 20 g] by auto
  obtain m g2 where m: "randint 1 12 g1 = (Inr m, g2)" "1 \<le> m" "m \<le> 12" using randint_runs[of 1 12 g1] by auto
  obtain wound where wound: "major_injury_entry m = Inr wound" using major_injury_entry_total m by blast
  note run = resolve_downed_def sm_core_defs lt on_core_def on_rng_def Let_def minted_def append_status_def
    is_dying_window_status_def k m(1) wound
  show ?thesis
  proof (cases traumatic_hit)
    case False
    then show ?thesis by (simp add: run)
  next
    case True
    then show ?thesis by (cases "target \<le> k") (simp_all add: run)
  qed
qed


theorem downed_mints_coherent_statuses_witness:
  "\<exists>r core' g'. resolve_downed 15 True (Some ex_cwn) 4 None False True (ex_psychic, [3, 6]) = (Inr r, (core', g')) \<and> mortal r"
proof -
  have "lethality_of (Some ex_cwn) = Some (\<lparr>rest_recovery_per_night = 1, first_aid_cost = 1\<rparr>, \<lparr>default_trauma_target = 6, mortal_injury_rounds = 6\<rparr>)"
    by (simp add: ex_cwn_def)
  from downed_mints_coherent_statuses[OF this, of 15 True 4 None False True ex_psychic "[3, 6]"] show ?thesis by blast
qed

section \<open>Ability scores\<close>

text \<open>The points a score costs in all, counted from 8.\<close>

definition stat_cost :: "int \<Rightarrow> int" where
  "stat_cost v = (if v \<le> 13 then v - 8 else 5 + 2 * (v - 13))"

definition scores_ok :: "int list \<Rightarrow> bool" where
  "scores_ok vs \<longleftrightarrow> (\<forall>v \<in> set vs. 8 \<le> v \<and> v \<le> 15)"

definition none_affordable :: "int list \<Rightarrow> int \<Rightarrow> bool" where
  "none_affordable vs left \<longleftrightarrow> (\<forall>v \<in> set vs. v = 15 \<or> left < marginal_cost (v + 1))"

lemma stat_cost_step: "8 \<le> v \<Longrightarrow> v < 15 \<Longrightarrow> stat_cost (v + 1) = stat_cost v + marginal_cost (v + 1)"
  by (auto simp: stat_cost_def marginal_cost_def)

lemma marginal_cost_pos: "8 \<le> v \<Longrightarrow> v < 15 \<Longrightarrow> 0 < marginal_cost (v + 1)"
  by (auto simp: marginal_cost_def)

lemma point_buy_pass_spec:
  assumes "point_buy_pass vs remaining = (vs', r, b)" "scores_ok vs" "0 \<le> remaining"
  shows "length vs' = length vs \<and> scores_ok vs' \<and> 0 \<le> r \<and>
    sum_list (map stat_cost vs') + r = sum_list (map stat_cost vs) + remaining \<and>
    (\<not> b \<longrightarrow> vs' = vs \<and> r = remaining \<and> none_affordable vs remaining)"
  using assms
proof (induction vs arbitrary: remaining vs' r b)
  case Nil
  then show ?case by (simp add: none_affordable_def)
next
  case (Cons v vs)
  have v: "8 \<le> v" "v \<le> 15" and vs: "scores_ok vs" using Cons.prems(2) by (auto simp: scores_ok_def)
  show ?case
  proof (cases "v + 1 \<le> 15 \<and> marginal_cost (v + 1) \<le> remaining")
    case True
    then obtain ws b' where ws: "point_buy_pass vs (remaining - marginal_cost (v + 1)) = (ws, r, b')" "vs' = (v + 1) # ws" "b"
      using Cons.prems(1) by (auto simp: Let_def split: prod.splits)
    show ?thesis
      using Cons.IH[OF ws(1) vs] ws(2,3) True v stat_cost_step[of v] by (auto simp: scores_ok_def)
  next
    case False
    then obtain ws where ws: "point_buy_pass vs remaining = (ws, r, b)" "vs' = v # ws"
      using Cons.prems(1) by (auto simp: Let_def split: prod.splits)
    show ?thesis
      using Cons.IH[OF ws(1) vs Cons.prems(3)] ws(2) False v by (auto simp: scores_ok_def none_affordable_def)
  qed
qed

lemma point_buy_loop_spec:
  assumes "scores_ok vs" "0 \<le> remaining"
  shows "length (point_buy_loop vs remaining) = length vs \<and> scores_ok (point_buy_loop vs remaining) \<and>
    (\<exists>left. 0 \<le> left \<and> sum_list (map stat_cost (point_buy_loop vs remaining)) + left = sum_list (map stat_cost vs) + remaining \<and>
       none_affordable (point_buy_loop vs remaining) left)"
  using assms
proof (induction vs remaining rule: point_buy_loop.induct)
  case (1 vs remaining)
  obtain vs' r b where p: "point_buy_pass vs remaining = (vs', r, b)" by (cases "point_buy_pass vs remaining")
  note spec = point_buy_pass_spec[OF p "1.prems"]
  show ?case
  proof (cases "\<not> b \<or> r = 0")
    case True
    then have eq: "point_buy_loop vs remaining = vs'" by (simp add: point_buy_loop.simps[of vs] p)
    have "none_affordable vs' r"
    proof (cases b)
      case True
      with \<open>\<not> b \<or> r = 0\<close> have "r = 0" by simp
      then show ?thesis using spec marginal_cost_pos by (fastforce simp: none_affordable_def scores_ok_def)
    qed (use spec in simp)
    then show ?thesis using spec eq by auto
  next
    case False
    then have eq: "point_buy_loop vs remaining = point_buy_loop vs' r" by (simp add: point_buy_loop.simps[of vs] p)
    show ?thesis unfolding eq using "1.IH"[OF p[symmetric] refl False] spec by auto
  qed
qed

text \<open>
  Point buy ends, gives every stat a score from 8 to 15, never overspends the budget, and leaves over
  only what cannot buy another point: what is left is less than the cost of raising any stat below 15.
\<close>
theorem point_buy_spends_all_it_can:
  assumes "0 \<le> budget"
  shows "length (allocate_point_buy n budget) = n \<and> (\<forall>v \<in> set (allocate_point_buy n budget). 8 \<le> v \<and> v \<le> 15) \<and>
    (\<exists>left. 0 \<le> left \<and> sum_list (map stat_cost (allocate_point_buy n budget)) = budget - left \<and>
       (\<forall>v \<in> set (allocate_point_buy n budget). v < 15 \<longrightarrow> left < marginal_cost (v + 1)))"
proof -
  have "scores_ok (replicate n 8)" "sum_list (map stat_cost (replicate n 8)) = 0"
    by (auto simp: scores_ok_def stat_cost_def sum_list_replicate)
  with point_buy_loop_spec[OF _ assms, of "replicate n 8"] show ?thesis
    unfolding allocate_point_buy_def by (fastforce simp: scores_ok_def none_affordable_def)
qed

theorem point_buy_spends_all_it_can_witness:
  "length (allocate_point_buy 6 27) = 6 \<and> (\<exists>left \<ge> 0. sum_list (map stat_cost (allocate_point_buy 6 27)) = 27 - left)"
  using point_buy_spends_all_it_can[of 27 6] by auto

lemma fill_stats_zip:
  assumes "distinct (filter (\<lambda>n. Some n \<noteq> prime) names)" "set (filter (\<lambda>n. Some n \<noteq> prime) names) \<inter> fst ` set tbl = {}"
  shows "fill_stats prime names rest tbl =
    (if length (filter (\<lambda>n. Some n \<noteq> prime) names) \<le> length rest
     then Inr (tbl @ zip (filter (\<lambda>n. Some n \<noteq> prime) names) rest) else Inl (IndexError ''pop from empty list''))"
  using assms
proof (induction names arbitrary: rest tbl)
  case Nil
  then show ?case by simp
next
  case (Cons nm names)
  show ?case
  proof (cases "Some nm = prime")
    case True
    then show ?thesis using Cons by simp
  next
    case False
    have upd: "AList.update nm v tbl = tbl @ [(nm, v)]" for v
      using Cons.prems(2) False by (intro update_new) auto
    show ?thesis
    proof (cases rest)
      case (Cons v rest')
      have "set (filter (\<lambda>n. Some n \<noteq> prime) names) \<inter> fst ` set (tbl @ [(nm, v)]) = {}"
        using Cons.prems False by auto
      then show ?thesis
        using Cons.IH[of "tbl @ [(nm, v)]" rest'] Cons.prems False by (simp add: Cons upd)
    qed (use False in simp)
  qed
qed

text \<open>The order in which the sorted values are handed out.\<close>

definition placement :: "string option \<Rightarrow> string list \<Rightarrow> string list" where
  "placement cp names = (case cp of Some p \<Rightarrow> if p \<in> set names then p # filter (\<lambda>n. n \<noteq> p) names else names | None \<Rightarrow> names)"

lemma mset_placement: "distinct names \<Longrightarrow> mset (placement cp names) = mset names"
  by (auto simp: placement_def set_eq_iff_mset_eq_distinct[symmetric] split: option.splits)


lemma length_placement [simp]: "distinct names \<Longrightarrow> length (placement cp names) = length names"
  using mset_placement[of names cp] by (metis size_mset)

lemma sort_Nil_iff [simp]: "sort xs = [] \<longleftrightarrow> xs = []"
  by (metis length_0_conv length_sort)

lemma length_other: "distinct (names :: string list) \<Longrightarrow> p \<in> set names \<Longrightarrow> Suc (length (filter (\<lambda>n. n \<noteq> p) names)) = length names"
  using length_placement[of names "Some p"] by (simp add: placement_def)

text \<open>The prime that drives the placement, if any, and the assignment by cases on it.\<close>

lemma wn_assign_prime:
  assumes "distinct names" "p \<in> set names"
  shows "wn_assign pool names (Some p) =
    (case rev (sort pool) of [] \<Rightarrow> Inl (IndexError ''list index out of range'')
     | v # rest \<Rightarrow> if length names \<le> length pool then Inr ((p, v) # zip (filter (\<lambda>n. n \<noteq> p) names) rest)
                  else Inl (IndexError ''pop from empty list''))"
proof (cases "rev (sort pool)")
  case (Cons v rest)
  have "Suc (length rest) = length pool" using arg_cong[OF Cons, of length] by simp
  then show ?thesis
    using fill_stats_zip[of "Some p" names "[(p, v)]" rest] length_other[OF assms] assms
    by (auto simp: wn_assign_def Let_def Cons)
qed (simp add: wn_assign_def Let_def assms)

lemma wn_assign_plain:
  assumes "distinct names" "\<And>p. cp = Some p \<Longrightarrow> p \<notin> set names"
  shows "wn_assign pool names cp =
    (if length names \<le> length pool then if pool = [] then Inl (IndexError ''list index out of range'') else Inr (zip names (rev (sort pool)))
     else Inl (IndexError ''pop from empty list''))"
proof -
  have "(case cp of Some p \<Rightarrow> if p \<in> set names then Some p else None | None \<Rightarrow> None) = None"
    using assms(2) by (simp split: option.splits)
  then show ?thesis
    using fill_stats_zip[of None names "[]" "rev (sort pool)"] assms(1) by (simp add: wn_assign_def Let_def)
qed

lemma wn_assign_short:
  assumes "distinct names" "pool = [] \<or> length pool < length names"
  shows "\<exists>msg. wn_assign pool names cp = Inl (IndexError msg)"
proof (cases "\<exists>p. cp = Some p \<and> p \<in> set names")
  case True
  then show ?thesis using wn_assign_prime[OF assms(1)] assms(2) by (auto split: list.split)
qed (use wn_assign_plain[OF assms(1), of cp pool] assms(2) in auto)

lemma wn_assign_run:
  assumes "distinct names" "pool \<noteq> []" "length names \<le> length pool"
  shows "wn_assign pool names cp = Inr (zip (placement cp names) (rev (sort pool)))"
proof (cases "\<exists>p. cp = Some p \<and> p \<in> set names")
  case True
  obtain v rest where "rev (sort pool) = v # rest" using assms(2) by (metis list.exhaust rev_is_Nil_conv length_0_conv length_sort)
  then show ?thesis using True wn_assign_prime[OF assms(1)] assms(3) by (auto simp: placement_def)
qed (use wn_assign_plain[OF assms(1), of cp pool] assms(2,3) in \<open>auto simp: placement_def split: option.splits\<close>)

lemma hd_descending: "pool \<noteq> [] \<Longrightarrow> hd (rev (sort pool)) = Max (set (pool :: int list))"
proof (rule Max_eqI[symmetric])
  assume ne: "pool \<noteq> []"
  then have hd: "hd (rev (sort pool)) = last (sort pool)" by (simp add: hd_rev)
  show "hd (rev (sort pool)) \<in> set pool" using ne by (metis hd last_in_set length_0_conv length_sort set_sort)
  fix y assume "y \<in> set pool"
  then obtain i where "i < length pool" "y = sort pool ! i" by (metis in_set_conv_nth length_sort set_sort)
  then show "y \<le> hd (rev (sort pool))"
    using ne sorted_nth_mono[of "sort pool" i "length pool - 1"] by (simp add: hd last_conv_nth)
qed simp

text \<open>
  The ability scores a Without Number character is given: the pool from the highest value down, first
  to the prime requisite of the class, then to the other abilities in declaration order. So every
  ability gets one value, no value is used twice, and the prime requisite holds the highest value of
  the pool. A pool with fewer values than abilities, or none, raises an IndexError.
\<close>
theorem prime_requisite_gets_the_best:
  assumes "distinct names"
  shows "(pool = [] \<or> length pool < length names \<longrightarrow> (\<exists>msg. wn_assign pool names cp = Inl (IndexError msg))) \<and>
    (pool \<noteq> [] \<and> length names \<le> length pool \<longrightarrow>
       (\<exists>tbl. wn_assign pool names cp = Inr tbl \<and> mset (map fst tbl) = mset names \<and>
          map snd tbl = take (length names) (rev (sort pool)) \<and>
          (\<forall>p. cp = Some p \<and> p \<in> set names \<longrightarrow> map_of tbl p = Some (Max (set pool)))))"
proof (intro conjI impI)
  assume short: "pool = [] \<or> length pool < length names"
  show "\<exists>msg. wn_assign pool names cp = Inl (IndexError msg)" using wn_assign_short[OF assms short] .
next
  assume long: "pool \<noteq> [] \<and> length names \<le> length pool"
  let ?tbl = "zip (placement cp names) (rev (sort pool))"
  have "wn_assign pool names cp = Inr ?tbl" using wn_assign_run[OF assms] long by blast
  moreover have "mset (map fst ?tbl) = mset names" "map snd ?tbl = take (length names) (rev (sort pool))"
    using long mset_placement[OF assms, of cp] assms by (simp_all add: map_fst_zip_take map_snd_zip_take min_def)
  moreover have "map_of ?tbl p = Some (Max (set pool))" if "cp = Some p \<and> p \<in> set names" for p
    using that long hd_descending[of pool] by (cases "rev (sort pool)") (auto simp: placement_def)
  ultimately show "\<exists>tbl. wn_assign pool names cp = Inr tbl \<and> mset (map fst tbl) = mset names \<and>
      map snd tbl = take (length names) (rev (sort pool)) \<and>
      (\<forall>p. cp = Some p \<and> p \<in> set names \<longrightarrow> map_of tbl p = Some (Max (set pool)))" by blast
qed

theorem prime_requisite_gets_the_best_witness:
  "\<exists>tbl. wn_assign [7, 14, 9] [''STR'', ''DEX'', ''CON''] (Some ''DEX'') = Inr tbl \<and> map_of tbl ''DEX'' = Some 14"
  using prime_requisite_gets_the_best[of "[''STR'', ''DEX'', ''CON'']" "[7, 14, 9]" "Some ''DEX''"] by auto

end
