(* ===== verification/Interiors.thy ===== *)
theory Interiors
  imports Prelude Float64
begin

text \<open>
  The interior generators of a dungeon (src/sidequest/dungeon/interiors): the grid and its carving
  helpers, the depth-first and Prim mazes, the cellular cave, rooms with corridors, the braid and the
  dispatch. A grid is a list of rows of numbers, 0 for floor and 1 for wall; a cell is a pair of column
  and row. The generator a seed leads to is a parameter, a function from seeds to tapes.
\<close>

unbundle bit_operations_syntax

type_synonym grid = "int list list"
type_synonym gcell = "int \<times> int"

section \<open>Grids\<close>

definition FLOOR :: int where "FLOOR = 0"
definition WALL :: int where "WALL = 1"

definition new_grid :: "int \<Rightarrow> int \<Rightarrow> grid" where
  "new_grid width height = replicate (nat height) (replicate (nat width) WALL)"

text \<open>What a grid has at a cell; \<open>None\<close> outside.\<close>

definition cell_at :: "grid \<Rightarrow> gcell \<Rightarrow> int option" where
  "cell_at g c = (if 0 \<le> snd c \<and> nat (snd c) < length g \<and> 0 \<le> fst c \<and> nat (fst c) < length (g ! nat (snd c))
     then Some (g ! nat (snd c) ! nat (fst c)) else None)"

definition in_grid :: "grid \<Rightarrow> gcell \<Rightarrow> bool" where
  "in_grid g c \<longleftrightarrow> 0 \<le> snd c \<and> snd c < int (length g) \<and> 0 \<le> fst c \<and> fst c < int (length (g ! 0))"

definition wall_neighbors :: "grid \<Rightarrow> gcell \<Rightarrow> gcell list" where
  "wall_neighbors g c = filter (\<lambda>n. in_grid g n \<and> cell_at g n = Some WALL)
     (map (\<lambda>d. (fst c + fst d, snd c + snd d)) [(2, 0), (-2, 0), (0, 2), (0, -2)])"

lemma in_wall_neighbors:
  "n \<in> set (wall_neighbors g c) \<longleftrightarrow> in_grid g n \<and> cell_at g n = Some WALL \<and>
     n \<in> {(fst c + 2, snd c), (fst c - 2, snd c), (fst c, snd c + 2), (fst c, snd c - 2)}"
  unfolding wall_neighbors_def set_filter by auto

text \<open>Writing a cell that lies in the grid, which every caller has checked.\<close>

definition set_cell :: "gcell \<Rightarrow> int \<Rightarrow> grid \<Rightarrow> grid" where
  "set_cell c v g = (if 0 \<le> fst c \<and> 0 \<le> snd c then g[nat (snd c) := (g ! nat (snd c))[nat (fst c) := v]] else g)"

definition midpoint :: "gcell \<Rightarrow> gcell \<Rightarrow> gcell" where
  "midpoint a b = ((fst a + fst b) div 2, (snd a + snd b) div 2)"

definition carve_between :: "gcell \<Rightarrow> gcell \<Rightarrow> grid \<Rightarrow> grid" where
  "carve_between a b g = set_cell (midpoint a b) FLOOR (set_cell b FLOOR (set_cell a FLOOR g))"

section \<open>Depth-first mazes\<close>

text \<open>The number of walls, for termination: carving a wall lowers it.\<close>

definition walls :: "grid \<Rightarrow> nat" where
  "walls g = sum_list (map (\<lambda>row. count_list row WALL) g)"

lemma count_list_update:
  "i < length xs \<Longrightarrow> count_list (xs[i := y]) x + (if xs ! i = x then 1 else 0) = count_list xs x + (if y = x then 1 else 0)"
proof (induction xs arbitrary: i)
  case (Cons z zs)
  show ?case
  proof (cases i)
    case (Suc j)
    then show ?thesis using Cons.IH[of j] Cons.prems by auto
  qed auto
qed simp

lemma count_list_floor: "count_list (row[i := FLOOR]) WALL \<le> count_list row WALL"
  using count_list_update[of i row FLOOR WALL] by (cases "i < length row") (auto simp: FLOOR_def WALL_def list_update_beyond)

lemma sum_list_update_nat: "i < length xs \<Longrightarrow> sum_list (xs[i := y]) + xs ! i = sum_list xs + (y::nat)"
  by (induction xs arbitrary: i) (auto split: nat.splits)

lemma walls_set_floor: "walls (set_cell c FLOOR g) \<le> walls g"
proof (cases "nat (snd c) < length g")
  case True
  then show ?thesis
    using sum_list_update_nat[of "nat (snd c)" "map (\<lambda>row. count_list row WALL) g"
        "count_list ((g ! nat (snd c))[nat (fst c) := FLOOR]) WALL"]
      count_list_floor[of "g ! nat (snd c)" "nat (fst c)"]
    by (simp add: walls_def set_cell_def map_update)
qed (simp add: set_cell_def list_update_beyond)

lemma walls_carve_wall: "cell_at g c = Some WALL \<Longrightarrow> walls (set_cell c FLOOR g) < walls g"
  using sum_list_update_nat[of "nat (snd c)" "map (\<lambda>row. count_list row WALL) g"
      "count_list ((g ! nat (snd c))[nat (fst c) := FLOOR]) WALL"]
    count_list_update[of "nat (fst c)" "g ! nat (snd c)" FLOOR WALL]
  by (auto simp: walls_def set_cell_def map_update cell_at_def FLOOR_def WALL_def split: if_splits)

lemma cell_at_set:
  "cell_at (set_cell c v g) d = (if d = c then map_option (\<lambda>_. v) (cell_at g c) else cell_at g d)"
  by (cases c; cases d) (auto simp: cell_at_def set_cell_def nth_list_update)

lemma walls_carve: "cell_at g b = Some WALL \<Longrightarrow> walls (carve_between a b g) < walls g"
proof -
  assume b: "cell_at g b = Some WALL"
  have "walls (carve_between a b g) \<le> walls (set_cell b FLOOR (set_cell a FLOOR g))"
    unfolding carve_between_def by (rule walls_set_floor)
  also have "\<dots> < walls g"
  proof (cases "a = b")
    case True
    then show ?thesis
      using le_less_trans[OF walls_set_floor[of b "set_cell b FLOOR g"] walls_carve_wall[OF b]] by simp
  next
    case False
    then have "cell_at (set_cell a FLOOR g) b = Some WALL" using b by (simp add: cell_at_set)
    from less_le_trans[OF walls_carve_wall[OF this] walls_set_floor] show ?thesis .
  qed
  finally show ?thesis .
qed

lemma randrange_below: "randrange n r = (Inr k, r') \<Longrightarrow> k < n"
proof (cases "n = 0")
  case False
  assume r: "randrange n r = (Inr k, r')"
  from False have "ok (randrange n) (\<lambda>k. k < n)" by (simp add: randrange_ok)
  then obtain x s' where "randrange n r = (Inr x, s')" "x < n" unfolding ok_def by blast
  with r show ?thesis by simp
qed (simp add: randrange_def raise_def)

text \<open>The loop on the stack, its top first.\<close>

function depthfirst_loop :: "grid \<Rightarrow> gcell list \<Rightarrow> (rng, grid) sm" where
  "depthfirst_loop g [] r = (Inr g, r)"
| "depthfirst_loop g (c # stack) r =
     (let candidates = wall_neighbors g c in
      if candidates = [] then depthfirst_loop g stack r
      else case randrange (length candidates) r of
        (Inl e, r') \<Rightarrow> (Inl e, r')
      | (Inr k, r') \<Rightarrow> depthfirst_loop (carve_between c (candidates ! k) g) (candidates ! k # c # stack) r')"
  by pat_completeness auto
termination
proof (relation "measures [\<lambda>(g, st, r). walls g, \<lambda>(g, st, r). length st]", goal_cases)
  case (3 g c stack r candidates x y k)
  then have "k < length candidates" using randrange_below[of "length candidates" r k y] by auto
  then have "candidates ! k \<in> set (wall_neighbors g c)" using 3 by simp
  then have "cell_at g (candidates ! k) = Some WALL" by (simp add: in_wall_neighbors)
  then show ?case using walls_carve by simp
qed auto

text \<open>\<open>rng.randrange(0, max(1, (n - 1) // 2)) * 2 + 1\<close>.\<close>

definition odd_start :: "int \<Rightarrow> (rng, int) sm" where
  "odd_start n = sbind (randrange (nat (max 1 ((n - 1) div 2)))) (\<lambda>k. ret (int k * 2 + 1))"

definition gen_depthfirst :: "int \<Rightarrow> int \<Rightarrow> (rng, grid) sm" where
  "gen_depthfirst width height =
     (if width < 3 \<or> height < 3 then raise (ValueError ''gen_depthfirst requires width>=3 and height>=3'')
      else sbind (odd_start width) (\<lambda>sx. sbind (odd_start height) (\<lambda>sy.
        depthfirst_loop (set_cell (sx, sy) FLOOR (new_grid width height)) [(sx, sy)])))"

section \<open>Prim mazes\<close>

fun prim_walk :: "nat \<Rightarrow> gcell \<Rightarrow> grid \<Rightarrow> (rng, grid) sm" where
  "prim_walk 0 c g = ret g"
| "prim_walk (Suc n) c g =
     (let candidates = wall_neighbors g c in
      if candidates = [] then ret g
      else sbind (randrange (length candidates)) (\<lambda>k. prim_walk n (candidates ! k) (carve_between c (candidates ! k) g)))"

fun prim_sow :: "nat \<Rightarrow> nat \<Rightarrow> int \<Rightarrow> int \<Rightarrow> grid \<Rightarrow> (rng, grid) sm" where
  "prim_sow 0 complexity width height g = ret g"
| "prim_sow (Suc n) complexity width height g =
     sbind (odd_start width) (\<lambda>x. sbind (odd_start height) (\<lambda>y.
     sbind (prim_walk complexity (x, y) (set_cell (x, y) FLOOR g)) (prim_sow n complexity width height)))"

definition gen_prim :: "int \<Rightarrow> int \<Rightarrow> int option \<Rightarrow> int option \<Rightarrow> (rng, grid) sm" where
  "gen_prim width height density complexity =
     (if width < 3 \<or> height < 3 then raise (ValueError ''gen_prim requires width>=3 and height>=3'')
      else let d = (case density of Some n \<Rightarrow> n | None \<Rightarrow> max 1 ((width + height) div 8));
               c = (case complexity of Some n \<Rightarrow> n | None \<Rightarrow> max 1 ((width + height) div 2))
           in prim_sow (nat d) (nat c) width height (new_grid width height))"

section \<open>Caves\<close>

text \<open>The walled rim.\<close>

definition rim :: "int \<Rightarrow> int \<Rightarrow> gcell list" where
  "rim width height = concat (map (\<lambda>x. [(x, 0), (x, height - 1)]) [0..width - 1]) @
     concat (map (\<lambda>y. [(0, y), (width - 1, y)]) [0..height - 1])"

definition wall_rim :: "int \<Rightarrow> int \<Rightarrow> grid \<Rightarrow> grid" where
  "wall_rim width height g = fold (\<lambda>c. set_cell c WALL) (rim width height) g"

definition noise_row :: "int \<Rightarrow> rat \<Rightarrow> (rng, int list) sm" where
  "noise_row width density = smap (\<lambda>_. sbind random_float (\<lambda>x. ret (if x < density then FLOOR else WALL))) [0..width - 1]"

definition noise :: "int \<Rightarrow> int \<Rightarrow> rat \<Rightarrow> (rng, grid) sm" where
  "noise width height density = smap (\<lambda>_. noise_row width density) [0..height - 1]"

definition eight_neighbors :: "gcell \<Rightarrow> gcell list" where
  "eight_neighbors c = [(fst c + dx, snd c + dy). dy \<leftarrow> [-1, 0, 1], dx \<leftarrow> [-1, 0, 1], \<not> (dx = 0 \<and> dy = 0)]"

definition inner_cells :: "int \<Rightarrow> int \<Rightarrow> gcell list" where
  "inner_cells width height = [(x, y). y \<leftarrow> [1..height - 2], x \<leftarrow> [1..width - 2]]"

definition ca_cell :: "grid \<Rightarrow> int \<Rightarrow> gcell \<Rightarrow> grid \<Rightarrow> grid" where
  "ca_cell g cutoff c new =
     (let n = int (length (filter (\<lambda>d. cell_at g d = Some WALL) (eight_neighbors c))) in
      if n \<ge> cutoff then set_cell c WALL new else if n < 4 then set_cell c FLOOR new else new)"

definition ca_pass :: "int \<Rightarrow> int \<Rightarrow> int \<Rightarrow> grid \<Rightarrow> grid" where
  "ca_pass width height cutoff g = fold (ca_cell g cutoff) (inner_cells width height) g"

text \<open>The flood of one region: the stack with its top first, the cells seen and the region so far.\<close>

definition flood_ok :: "grid \<Rightarrow> int \<Rightarrow> int \<Rightarrow> gcell set \<Rightarrow> gcell \<Rightarrow> bool" where
  "flood_ok g width height seen c \<longleftrightarrow>
     \<not> (fst c < 0 \<or> snd c < 0 \<or> fst c \<ge> width \<or> snd c \<ge> height) \<and> \<not> (c \<in> seen \<or> cell_at g c \<noteq> Some FLOOR)"

definition floor_set :: "grid \<Rightarrow> gcell set" where
  "floor_set g = {c. cell_at g c = Some FLOOR}"

lemma finite_floor_set [simp]: "finite (floor_set g)"
proof (rule finite_subset)
  show "floor_set g \<subseteq> (\<Union>y \<in> {..<length g}. (\<lambda>x. (int x, int y)) ` {..<length (g ! y)})"
  proof
    fix c assume "c \<in> floor_set g"
    then have "c = (int (nat (fst c)), int (nat (snd c)))" "nat (snd c) < length g" "nat (fst c) < length (g ! nat (snd c))"
      by (auto simp: floor_set_def cell_at_def split: if_splits)
    then show "c \<in> (\<Union>y \<in> {..<length g}. (\<lambda>x. (int x, int y)) ` {..<length (g ! y)})" by blast
  qed
qed simp

function flood :: "grid \<Rightarrow> int \<Rightarrow> int \<Rightarrow> gcell list \<Rightarrow> gcell set \<Rightarrow> gcell list \<Rightarrow> gcell set \<times> gcell list" where
  "flood g width height [] seen region = (seen, region)"
| "flood g width height (c # stack) seen region =
     (if flood_ok g width height seen c
      then flood g width height ([(fst c, snd c - 1), (fst c, snd c + 1), (fst c - 1, snd c), (fst c + 1, snd c)] @ stack)
             (insert c seen) (region @ [c])
      else flood g width height stack seen region)"
  by pat_completeness auto
termination
proof (relation "measures [\<lambda>(g, w, h, st, seen, r). card (floor_set g - seen), \<lambda>(g, w, h, st, seen, r). length st]")
  fix g width height c stack seen and region :: "gcell list"
  assume "flood_ok g width height seen c"
  then have "floor_set g - insert c seen \<subset> floor_set g - seen" by (auto simp: flood_ok_def floor_set_def)
  from psubset_card_mono[OF _ this]
  show "((g, width, height, [(fst c, snd c - 1), (fst c, snd c + 1), (fst c - 1, snd c), (fst c + 1, snd c)] @ stack, insert c seen, region @ [c]),
      g, width, height, c # stack, seen, region)
      \<in> measures [\<lambda>(g, w, h, st, seen, r). card (floor_set g - seen), \<lambda>(g, w, h, st, seen, r). length st]"
    by simp
qed auto

definition all_cells :: "int \<Rightarrow> int \<Rightarrow> gcell list" where
  "all_cells width height = [(x, y). y \<leftarrow> [0..height - 1], x \<leftarrow> [0..width - 1]]"

fun scan_regions :: "grid \<Rightarrow> int \<Rightarrow> int \<Rightarrow> gcell list \<Rightarrow> gcell set \<Rightarrow> gcell list \<Rightarrow> gcell list" where
  "scan_regions g width height [] seen best = best"
| "scan_regions g width height (c # cs) seen best =
     (if cell_at g c \<noteq> Some FLOOR \<or> c \<in> seen then scan_regions g width height cs seen best
      else case flood g width height [c] seen [] of (seen', region) \<Rightarrow>
        scan_regions g width height cs seen' (if length region > length best then region else best))"

definition keep_largest_floor_region :: "int \<Rightarrow> int \<Rightarrow> grid \<Rightarrow> grid" where
  "keep_largest_floor_region width height g =
     (let keep = set (scan_regions g width height (all_cells width height) {} []) in
      fold (\<lambda>c out. if cell_at g c = Some FLOOR \<and> c \<notin> keep then set_cell c WALL out else out) (all_cells width height) g)"

definition gen_cave :: "int \<Rightarrow> int \<Rightarrow> rat \<Rightarrow> int \<Rightarrow> nat \<Rightarrow> (rng, grid) sm" where
  "gen_cave width height density cutoff passes =
     (if width < 3 \<or> height < 3 then raise (ValueError ''gen_cave requires width>=3 and height>=3'')
      else sbind (noise width height density) (\<lambda>g.
        ret (keep_largest_floor_region width height ((ca_pass width height cutoff ^^ passes) (wall_rim width height g)))))"

section \<open>Rooms and corridors\<close>

text \<open>\<open>grid[y][x] = v\<close> with Python's indices: a negative one counts from the end, one out of range raises.\<close>

definition py_pos :: "nat \<Rightarrow> int \<Rightarrow> nat option" where
  "py_pos n i = (if 0 \<le> i \<and> i < int n then Some (nat i) else if - int n \<le> i \<and> i < 0 then Some (nat (i + int n)) else None)"

definition assign_cell :: "int \<Rightarrow> gcell \<Rightarrow> grid \<Rightarrow> grid res" where
  "assign_cell v c g =
     (case py_pos (length g) (snd c) of
        None \<Rightarrow> Inl (IndexError ''list index out of range'')
      | Some j \<Rightarrow> (case py_pos (length (g ! j)) (fst c) of
          None \<Rightarrow> Inl (IndexError ''list assignment index out of range'')
        | Some i \<Rightarrow> Inr (g[j := (g ! j)[i := v]])))"

definition room_cells :: "int \<Rightarrow> int \<Rightarrow> int \<Rightarrow> int \<Rightarrow> gcell list" where
  "room_cells x y rw rh = [(i, j). j \<leftarrow> [y..y + rh - 1], i \<leftarrow> [x..x + rw - 1]]"

definition h_cells :: "int \<Rightarrow> int \<Rightarrow> int \<Rightarrow> gcell list" where
  "h_cells xa xb y = map (\<lambda>x. (x, y)) [min xa xb..max xa xb]"

definition v_cells :: "int \<Rightarrow> int \<Rightarrow> int \<Rightarrow> gcell list" where
  "v_cells ya yb x = map (\<lambda>y. (x, y)) [min ya yb..max ya yb]"

definition carve :: "gcell list \<Rightarrow> grid \<Rightarrow> grid res" where
  "carve cs g = rfold (assign_cell FLOOR) cs g"

definition corridor_cells :: "bool \<Rightarrow> gcell \<Rightarrow> gcell \<Rightarrow> gcell list" where
  "corridor_cells horizontal_first p c =
     (if horizontal_first then h_cells (fst p) (fst c) (snd p) @ v_cells (snd p) (snd c) (fst c)
      else v_cells (snd p) (snd c) (fst p) @ h_cells (fst p) (fst c) (snd c))"

text \<open>One round of the room loop on the grid and the last centre.\<close>

definition place_room :: "int \<Rightarrow> int \<Rightarrow> int \<Rightarrow> int \<Rightarrow> grid \<times> gcell option \<Rightarrow> (rng, grid \<times> gcell option) sm" where
  "place_room width height room_min room_max s =
     sbind (randint room_min room_max) (\<lambda>rw. sbind (randint room_min room_max) (\<lambda>rh.
     sbind (randint 1 (max 1 (width - rw - 1))) (\<lambda>x. sbind (randint 1 (max 1 (height - rh - 1))) (\<lambda>y.
     if x + rw \<ge> width - 1 \<or> y + rh \<ge> height - 1 then ret s
     else sbind (lift_res (carve (room_cells x y rw rh) (fst s))) (\<lambda>g.
       let c = (x + rw div 2, y + rh div 2) in
       case snd s of
         None \<Rightarrow> ret (g, Some c)
       | Some p \<Rightarrow> sbind random_float (\<lambda>u. sbind (lift_res (carve (corridor_cells (u < 1 / 2) p c) g)) (\<lambda>g'. ret (g', Some c))))))))"

fun place_rooms :: "nat \<Rightarrow> int \<Rightarrow> int \<Rightarrow> int \<Rightarrow> int \<Rightarrow> grid \<times> gcell option \<Rightarrow> (rng, grid \<times> gcell option) sm" where
  "place_rooms 0 width height room_min room_max s = ret s"
| "place_rooms (Suc n) width height room_min room_max s =
     sbind (place_room width height room_min room_max s) (place_rooms n width height room_min room_max)"

definition gen_roomcorridor :: "int \<Rightarrow> int \<Rightarrow> nat \<Rightarrow> int \<Rightarrow> int \<Rightarrow> (rng, grid) sm" where
  "gen_roomcorridor width height max_rooms room_min room_max =
     (if width < 5 \<or> height < 5 then raise (ValueError ''gen_roomcorridor requires width>=5 and height>=5'')
      else sbind (place_rooms max_rooms width height room_min room_max (new_grid width height, None)) (\<lambda>s.
        ret (wall_rim width height (fst s))))"

section \<open>Braiding and dispatch\<close>

definition ORTHO :: "gcell list" where "ORTHO = [(1, 0), (-1, 0), (0, 1), (0, -1)]"

definition ortho :: "gcell \<Rightarrow> gcell list" where
  "ortho c = map (\<lambda>d. (fst c + fst d, snd c + snd d)) ORTHO"

definition floor_around :: "grid \<Rightarrow> gcell \<Rightarrow> gcell list" where
  "floor_around g c = filter (\<lambda>n. in_grid g n \<and> cell_at g n = Some FLOOR) (ortho c)"

definition dead_ends :: "grid \<Rightarrow> gcell list" where
  "dead_ends g = filter (\<lambda>c. cell_at g c = Some FLOOR \<and> length (floor_around g c) = 1)
     [(int x, int y). y \<leftarrow> [0..<length g], x \<leftarrow> [0..<length (g ! 0)]]"

definition wall_around :: "grid \<Rightarrow> gcell \<Rightarrow> gcell list" where
  "wall_around g c = filter (\<lambda>n. in_grid g n \<and> cell_at g n = Some WALL \<and> 0 < fst n \<and> fst n < int (length (g ! 0)) - 1 \<and>
     0 < snd n \<and> snd n < int (length g) - 1) (ortho c)"

fun braid_loop :: "gcell list \<Rightarrow> nat \<Rightarrow> grid \<Rightarrow> (rng, grid) sm" where
  "braid_loop [] left g = ret g"
| "braid_loop (c # pending) left g =
     (if left = 0 then ret g
      else if length (floor_around g c) \<noteq> 1 then braid_loop pending left g
      else let wall_n = wall_around g c in
        if wall_n = [] then braid_loop pending left g
        else sbind (randrange (length wall_n)) (\<lambda>k. braid_loop pending (left - 1) (set_cell (wall_n ! k) FLOOR g)))"

definition braid_target :: "nat \<Rightarrow> rat \<Rightarrow> int" where
  "braid_target n ratio = rhe (rnd (of_nat n * min 1 ratio))"

definition braid :: "rat \<Rightarrow> grid \<Rightarrow> (rng, grid) sm" where
  "braid ratio g =
     (if ratio \<le> 0 then ret g
      else let original = dead_ends g; target = braid_target (length original) ratio in
        if target \<le> 0 then ret g
        else sbind (shuffle (sort_key fst (sort_key snd original))) (\<lambda>pending. braid_loop pending (nat target) g))"

text \<open>The keyword arguments of a call: none, or those of one generator.\<close>

datatype interior_params =
    NoParams
  | CellularParams rat int nat
  | PrimParams "int option" "int option"
  | RoomcorridorParams nat int int

definition ALGORITHMS :: "string list" where
  "ALGORITHMS = [''cellular'', ''depthfirst'', ''prim'', ''roomcorridor'']"

text \<open>A call with keyword arguments of another generator is a TypeError; one without gets the defaults.\<close>

definition run_algorithm :: "string \<Rightarrow> int \<Rightarrow> int \<Rightarrow> interior_params \<Rightarrow> (rng, grid) sm" where
  "run_algorithm algorithm width height params =
     (case params of
        NoParams \<Rightarrow>
          if algorithm = ''cellular'' then gen_cave width height (lit 55 100) 5 4
          else if algorithm = ''depthfirst'' then gen_depthfirst width height
          else if algorithm = ''prim'' then gen_prim width height None None
          else gen_roomcorridor width height 12 3 7
      | CellularParams density cutoff passes \<Rightarrow>
          if algorithm = ''cellular'' then gen_cave width height density cutoff passes else raise (TypeError ''unexpected keyword argument'')
      | PrimParams density complexity \<Rightarrow>
          if algorithm = ''prim'' then gen_prim width height density complexity else raise (TypeError ''unexpected keyword argument'')
      | RoomcorridorParams max_rooms room_min room_max \<Rightarrow>
          if algorithm = ''roomcorridor'' then gen_roomcorridor width height max_rooms room_min room_max
          else raise (TypeError ''unexpected keyword argument''))"

definition generate_interior :: "(int \<Rightarrow> rng) \<Rightarrow> string \<Rightarrow> int \<Rightarrow> int \<Rightarrow> int \<Rightarrow> rat \<Rightarrow> interior_params \<Rightarrow> grid res" where
  "generate_interior rng_of algorithm width height seed ratio params =
     (if algorithm \<notin> set ALGORITHMS then Inl (ValueError ''unknown interior algorithm'')
      else rbind (fst (run_algorithm algorithm width height params (rng_of seed))) (\<lambda>g.
        if ratio > 0 then fst (braid ratio g (rng_of (seed XOR 0x5EED))) else Inr g))"

end
