(* ===== verification/Interior_Mazes.thy ===== *)
theory Interior_Mazes
  imports Interiors
begin

text \<open>
  What a set of floor cells looks like: joined (any two cells have a walk between them) and grown (it
  was built by adding one leaf at a time, so that the walk is unique). The depth-first generator grows
  its maze.
\<close>

declare split_paired_All [simp del] split_paired_Ex [simp del]

section \<open>Joined sets of cells\<close>

definition touching :: "gcell \<Rightarrow> gcell \<Rightarrow> bool" where
  "touching a b \<longleftrightarrow> \<bar>fst a - fst b\<bar> + \<bar>snd a - snd b\<bar> = 1"

definition steps_in :: "gcell set \<Rightarrow> (gcell \<times> gcell) set" where
  "steps_in F = {(a, b). a \<in> F \<and> b \<in> F \<and> touching a b}"

definition joined :: "gcell set \<Rightarrow> bool" where
  "joined F \<longleftrightarrow> (\<forall>a \<in> F. \<forall>b \<in> F. (a, b) \<in> (steps_in F)\<^sup>*)"

lemma touching_sym: "touching a b \<Longrightarrow> touching b a"
  by (simp add: touching_def abs_minus_commute)

lemma touching_irrefl: "\<not> touching a a"
  by (simp add: touching_def)

lemma touching_parity: "touching a b \<Longrightarrow> odd (fst a + snd a) \<longleftrightarrow> even (fst b + snd b)"
  unfolding touching_def by presburger

lemma steps_in_sym: "(a, b) \<in> (steps_in F)\<^sup>* \<Longrightarrow> (b, a) \<in> (steps_in F)\<^sup>*"
proof -
  have "sym (steps_in F)" by (auto simp: sym_def steps_in_def touching_sym)
  then show "(a, b) \<in> (steps_in F)\<^sup>* \<Longrightarrow> (b, a) \<in> (steps_in F)\<^sup>*" by (meson sym_rtrancl symD)
qed

lemma steps_in_mono: "F \<subseteq> G \<Longrightarrow> (a, b) \<in> (steps_in F)\<^sup>* \<Longrightarrow> (a, b) \<in> (steps_in G)\<^sup>*"
  by (rule rtrancl_mono[THEN subsetD, of "steps_in F"]) (auto simp: steps_in_def)

lemma joined_empty [simp]: "joined {}"
  by (simp add: joined_def)

lemma joined_single [simp]: "joined {c}"
  by (simp add: joined_def)

text \<open>It is enough that every cell can be reached from one.\<close>

lemma joined_from: "(\<And>b. b \<in> F \<Longrightarrow> (a, b) \<in> (steps_in F)\<^sup>*) \<Longrightarrow> joined F"
  unfolding joined_def by (meson rtrancl_trans steps_in_sym)

lemma joined_Un:
  assumes "joined A" "joined B" "c \<in> A" "c \<in> B"
  shows "joined (A \<union> B)"
proof (rule joined_from)
  fix b assume "b \<in> A \<union> B"
  then show "(c, b) \<in> (steps_in (A \<union> B))\<^sup>*"
    using assms steps_in_mono[of A "A \<union> B" c b] steps_in_mono[of B "A \<union> B" c b] unfolding joined_def by blast
qed

lemma joined_pair: "touching c d \<Longrightarrow> joined {c, d}"
  by (rule joined_from[of _ c]) (auto simp: steps_in_def)

lemma joined_insert:
  assumes "joined F" "c \<in> F" "touching c d"
  shows "joined (insert d F)"
proof -
  have "F \<union> {c, d} = insert d F" using assms(2) by auto
  with joined_Un[OF assms(1) joined_pair[OF assms(3)] assms(2)] show ?thesis by simp
qed

section \<open>Grown sets\<close>

inductive grown :: "gcell set \<Rightarrow> bool" where
  seed: "grown {c}"
| leaf: "grown F \<Longrightarrow> c \<in> F \<Longrightarrow> d \<notin> F \<Longrightarrow> touching c d \<Longrightarrow> (\<And>e. e \<in> F \<Longrightarrow> touching d e \<Longrightarrow> e = c) \<Longrightarrow> grown (insert d F)"

lemma grown_joined: "grown F \<Longrightarrow> joined F"
  by (induction rule: grown.induct) (auto intro: joined_insert)

text \<open>A simple walk: floor cells, each touching the next, none twice.\<close>

definition simple_walk :: "gcell set \<Rightarrow> gcell list \<Rightarrow> bool" where
  "simple_walk F p \<longleftrightarrow> p \<noteq> [] \<and> set p \<subseteq> F \<and> successively touching p \<and> distinct p"

lemma touching_flip: "(\<lambda>x y. touching y x) = touching"
  by (intro ext) (auto intro: touching_sym)

lemma simple_walk_rev [simp]: "simple_walk F (rev p) \<longleftrightarrow> simple_walk F p"
  unfolding simple_walk_def successively_rev touching_flip by simp

lemma leaf_is_an_end:
  assumes w: "simple_walk (insert d F) p" and d: "d \<notin> F" and only: "\<And>e. e \<in> F \<Longrightarrow> touching d e \<Longrightarrow> e = c" and mem: "d \<in> set p"
  shows "d = hd p \<or> d = last p"
proof (rule ccontr)
  assume neg: "\<not> (d = hd p \<or> d = last p)"
  obtain xs ys where p: "p = xs @ d # ys" using mem by (meson split_list)
  with neg have "xs \<noteq> []" "ys \<noteq> []" by auto
  then obtain xs' e f ys' where xs: "xs = xs' @ [e]" and ys: "ys = f # ys'" by (metis rev_exhaust neq_Nil_conv)
  have dist: "distinct (xs' @ [e] @ d # f # ys')" and succ: "successively touching (xs' @ [e] @ d # f # ys')"
    and sub: "e \<in> insert d F" "f \<in> insert d F"
    using w by (auto simp: simple_walk_def p xs ys)
  have "touching e d" "touching d f" using succ by (auto simp: successively_append_iff)
  moreover have "e \<in> F" "f \<in> F" using sub dist by auto
  ultimately have "e = c" "f = c" using only touching_sym by blast+
  with dist show False by auto
qed

lemma walk_from_leaf:
  assumes w: "simple_walk (insert d F) p" and d: "d \<notin> F" and only: "\<And>e. e \<in> F \<Longrightarrow> touching d e \<Longrightarrow> e = c" and "hd p = d"
  shows "p = [d] \<or> (\<exists>p'. p = d # p' \<and> simple_walk F p' \<and> hd p' = c)"
proof -
  obtain p' where p: "p = d # p'" using w assms(4) by (cases p) (auto simp: simple_walk_def)
  show ?thesis
  proof (cases p')
    case (Cons e es)
    have "set p' \<subseteq> F" "e \<in> F" using w p Cons by (auto simp: simple_walk_def)
    moreover have "touching d e" using w p Cons by (simp add: simple_walk_def)
    ultimately have "simple_walk F p'" "e = c" using w p Cons only by (auto simp: simple_walk_def)
    then show ?thesis using p Cons by auto
  qed (use p in simp)
qed

text \<open>In a grown set there is exactly one simple walk from a cell to another.\<close>

lemma walk_from_leaf_unique:
  assumes IH: "\<And>p q. simple_walk F p \<Longrightarrow> simple_walk F q \<Longrightarrow> hd p = hd q \<Longrightarrow> last p = last q \<Longrightarrow> p = q"
    and d: "d \<notin> F" and only: "\<And>e. e \<in> F \<Longrightarrow> touching d e \<Longrightarrow> e = c"
    and p: "simple_walk (insert d F) p" "hd p = d" and q: "simple_walk (insert d F) q" "hd q = d" and "last p = last q"
  shows "p = q"
proof -
  have end_d: "r = [d]" if r: "simple_walk (insert d F) r" "hd r = d" "last r = d" for r
  proof (rule ccontr)
    assume "r \<noteq> [d]"
    then obtain r' where r': "r = d # r'" "simple_walk F r'" using walk_from_leaf[OF r(1) d only r(2)] by blast
    then have "last r \<in> F" by (auto simp: simple_walk_def)
    then show False using r(3) d by simp
  qed
  show ?thesis
  proof (cases "last p = d")
    case True
    then show ?thesis using end_d p q assms(8) by metis
  next
    case False
    then obtain p' q' where "p = d # p'" "simple_walk F p'" "hd p' = c" "q = d # q'" "simple_walk F q'" "hd q' = c"
      using walk_from_leaf[OF p(1) d only p(2)] walk_from_leaf[OF q(1) d only q(2)] assms(8) by force
    moreover from this have "last p' = last q'" using assms(8) by (simp add: simple_walk_def)
    ultimately show ?thesis using IH[of p' q'] by simp
  qed
qed

lemma grown_unique:
  assumes "grown F" "simple_walk F p" "simple_walk F q" "hd p = hd q" "last p = last q"
  shows "p = q"
  using assms
proof (induction arbitrary: p q rule: grown.induct)
  case (seed c)
  have "r = [c]" if "simple_walk {c} r" for r
    using that by (cases r; cases "tl r") (auto simp: simple_walk_def)
  then show ?case using seed by blast
next
  case (leaf F c d)
  have from_leaf: "r = s" if rs: "simple_walk (insert d F) r" "hd r = d" "simple_walk (insert d F) s" "hd s = d" "last r = last s" for r s
    by (rule walk_from_leaf_unique[OF leaf.IH leaf.hyps(3,5) rs])
  show ?case
  proof (cases "d \<in> set p \<or> d \<in> set q")
    case False
    then have "simple_walk F p" "simple_walk F q" using leaf.prems by (auto simp: simple_walk_def)
    then show ?thesis using leaf.IH leaf.prems by blast
  next
    case True
    then have "d = hd p \<or> d = last p"
      using leaf_is_an_end[OF leaf.prems(1) leaf.hyps(3,5)] leaf_is_an_end[OF leaf.prems(2) leaf.hyps(3,5)] leaf.prems(3,4) by auto
    then show ?thesis
    proof
      assume "d = hd p"
      then show ?thesis using leaf.prems by (intro from_leaf) simp_all
    next
      assume "d = last p"
      then have "rev p = rev q"
        using leaf.prems by (intro from_leaf) (simp_all add: hd_rev last_rev)
      then show ?thesis by simp
    qed
  qed
qed

lemma walk_to_leaf: "simple_walk F p \<Longrightarrow> last p = c \<Longrightarrow> d \<notin> F \<Longrightarrow> touching c d \<Longrightarrow> simple_walk (insert d F) (p @ [d])"
  by (auto simp: simple_walk_def successively_append_iff)

lemma grown_walk: "grown F \<Longrightarrow> a \<in> F \<Longrightarrow> b \<in> F \<Longrightarrow> \<exists>p. simple_walk F p \<and> hd p = a \<and> last p = b"
proof (induction arbitrary: a b rule: grown.induct)
  case (seed c)
  then show ?case by (intro exI[of _ "[c]"]) (auto simp: simple_walk_def)
next
  case (leaf F c d)
  have to_d: "\<exists>p. simple_walk (insert d F) p \<and> hd p = x \<and> last p = d" if x: "x \<in> F" for x
  proof -
    obtain p where p: "simple_walk F p" "hd p = x" "last p = c" using leaf.IH[OF x leaf.hyps(2)] by blast
    from walk_to_leaf[OF p(1,3) leaf.hyps(3,4)] p(1,2) show ?thesis
      by (intro exI[of _ "p @ [d]"]) (auto simp: simple_walk_def)
  qed
  consider "a = d" "b = d" | "a = d" "b \<in> F" | "a \<in> F" "b = d" | "a \<in> F" "b \<in> F" using leaf.prems by blast
  then show ?case
  proof cases
    case 1
    then show ?thesis by (intro exI[of _ "[d]"]) (auto simp: simple_walk_def)
  next
    case 2
    then obtain p where "simple_walk (insert d F) p" "hd p = b" "last p = d" using to_d by blast
    then have "simple_walk (insert d F) (rev p) \<and> hd (rev p) = a \<and> last (rev p) = b"
      using 2 by (simp add: hd_rev last_rev)
    then show ?thesis by blast
  next
    case 3
    then show ?thesis using to_d by blast
  next
    case 4
    then obtain p where "simple_walk F p" "hd p = a" "last p = b" using leaf.IH by blast
    then show ?thesis by (intro exI[of _ p]) (auto simp: simple_walk_def)
  qed
qed

lemma grown_unique_walk: "grown F \<Longrightarrow> a \<in> F \<Longrightarrow> b \<in> F \<Longrightarrow> \<exists>!p. simple_walk F p \<and> hd p = a \<and> last p = b"
proof (rule ex_ex1I)
  assume F: "grown F" "a \<in> F" "b \<in> F"
  show "\<exists>p. simple_walk F p \<and> hd p = a \<and> last p = b" using grown_walk[OF F] .
  fix p q
  assume "simple_walk F p \<and> hd p = a \<and> last p = b" "simple_walk F q \<and> hd q = a \<and> last q = b"
  then show "p = q" using grown_unique[OF F(1), of p q] by simp
qed


section \<open>Grids of a size\<close>

definition grid_ok :: "int \<Rightarrow> int \<Rightarrow> grid \<Rightarrow> bool" where
  "grid_ok width height g \<longleftrightarrow> length g = nat height \<and> (\<forall>row \<in> set g. length row = nat width \<and> set row \<subseteq> {FLOOR, WALL})"

definition inside :: "int \<Rightarrow> int \<Rightarrow> gcell \<Rightarrow> bool" where
  "inside width height c \<longleftrightarrow> 0 \<le> fst c \<and> fst c < width \<and> 0 \<le> snd c \<and> snd c < height"

lemma cell_at_inside: "grid_ok w h g \<Longrightarrow> cell_at g c \<noteq> None \<longleftrightarrow> inside w h c"
  by (auto simp: grid_ok_def cell_at_def inside_def nth_mem nat_less_iff split: if_splits)

lemma cell_at_values: "grid_ok w h g \<Longrightarrow> inside w h c \<Longrightarrow> cell_at g c = Some FLOOR \<or> cell_at g c = Some WALL"
proof -
  assume g: "grid_ok w h g" and c: "inside w h c"
  then have "g ! nat (snd c) \<in> set g" by (simp add: grid_ok_def inside_def nat_less_iff)
  then have "length (g ! nat (snd c)) = nat w" "set (g ! nat (snd c)) \<subseteq> {FLOOR, WALL}" using g by (auto simp: grid_ok_def)
  then have "g ! nat (snd c) ! nat (fst c) \<in> {FLOOR, WALL}" using c nth_mem[of "nat (fst c)" "g ! nat (snd c)"]
    unfolding inside_def by (metis (no_types, lifting) nat_less_eq_zless subsetD)
  then show ?thesis using cell_at_inside[OF g, of c] c by (auto simp: cell_at_def split: if_splits)
qed

lemma floor_set_inside: "grid_ok w h g \<Longrightarrow> c \<in> floor_set g \<Longrightarrow> inside w h c"
  using cell_at_inside[of w h g c] by (auto simp: floor_set_def)

lemma in_grid_inside: "grid_ok w h g \<Longrightarrow> in_grid g c \<longleftrightarrow> inside w h c"
  by (cases g) (auto simp: grid_ok_def in_grid_def inside_def)

lemma grid_ok_set: "grid_ok w h g \<Longrightarrow> v \<in> {FLOOR, WALL} \<Longrightarrow> grid_ok w h (set_cell c v g)"
proof (cases "0 \<le> fst c \<and> 0 \<le> snd c \<and> nat (snd c) < length g")
  case True
  assume g: "grid_ok w h g" and v: "v \<in> {FLOOR, WALL}"
  have "length row = nat w \<and> set row \<subseteq> {FLOOR, WALL}" if "row \<in> set (set_cell c v g)" for row
    using that g v True set_update_subset_insert[of g "nat (snd c)"] set_update_subset_insert[of "g ! nat (snd c)" "nat (fst c)" v]
    by (fastforce simp: set_cell_def grid_ok_def)
  then show ?thesis using g by (simp add: grid_ok_def set_cell_def)
qed (auto simp: set_cell_def list_update_beyond)

lemma floor_set_floor: "cell_at g c \<noteq> None \<Longrightarrow> floor_set (set_cell c FLOOR g) = insert c (floor_set g)"
  by (auto simp: floor_set_def cell_at_set)

lemma floor_set_wall: "floor_set (set_cell c WALL g) = floor_set g - {c}"
  by (auto simp: floor_set_def cell_at_set FLOOR_def WALL_def)

lemma grid_ok_new: "grid_ok w h (new_grid w h)"
  by (auto simp: grid_ok_def new_grid_def)

lemma cell_at_new: "inside w h c \<Longrightarrow> cell_at (new_grid w h) c = Some WALL"
  by (auto simp: new_grid_def cell_at_def inside_def nat_less_iff)

lemma floor_set_new: "floor_set (new_grid w h) = {}"
  using cell_at_new[of w h] cell_at_inside[OF grid_ok_new, of w h] by (fastforce simp: floor_set_def FLOOR_def WALL_def)

lemma carve_between_laws:
  assumes "grid_ok w h g" "inside w h a" "inside w h b" "inside w h (midpoint a b)"
  shows "grid_ok w h (carve_between a b g)"
    and "floor_set (carve_between a b g) = insert (midpoint a b) (insert b (insert a (floor_set g)))"
  using assms cell_at_inside[OF assms(1)]
  by (auto simp: carve_between_def grid_ok_set floor_set_floor cell_at_set split: if_splits)

section \<open>The depth-first maze\<close>

definition node :: "gcell \<Rightarrow> bool" where
  "node c \<longleftrightarrow> odd (fst c) \<and> odd (snd c)"

definition two_apart :: "gcell \<Rightarrow> gcell \<Rightarrow> bool" where
  "two_apart a b \<longleftrightarrow> b \<in> {(fst a + 2, snd a), (fst a - 2, snd a), (fst a, snd a + 2), (fst a, snd a - 2)}"

lemma two_apart_node: "two_apart a b \<Longrightarrow> node a \<Longrightarrow> node b"
  by (auto simp: two_apart_def node_def)

lemma midpoint_touches: "two_apart a b \<Longrightarrow> touching a (midpoint a b) \<and> touching (midpoint a b) b"
  by (auto simp: two_apart_def midpoint_def touching_def)

lemma midpoint_inside: "two_apart a b \<Longrightarrow> inside w h a \<Longrightarrow> inside w h b \<Longrightarrow> inside w h (midpoint a b)"
  by (auto simp: two_apart_def midpoint_def inside_def)

lemma midpoint_parity: "two_apart a b \<Longrightarrow> node a \<Longrightarrow> odd (fst (midpoint a b) + snd (midpoint a b))"
  using touching_parity[OF conjunct1[OF midpoint_touches, of a b]] by (auto simp: node_def)

lemma midpoint_ends: "two_apart a b \<Longrightarrow> node a \<Longrightarrow> node q \<Longrightarrow> touching (midpoint a b) q \<Longrightarrow> q = a \<or> q = b"
  unfolding two_apart_def midpoint_def node_def touching_def
  by (cases a; cases q) (auto; presburger)

text \<open>
  The invariant of the loop: the floor is grown; its cells are nodes and passages between two carved
  nodes; every carved node is on the stack or has no uncarved neighbour left.
\<close>

definition maze_inv :: "int \<Rightarrow> int \<Rightarrow> gcell \<Rightarrow> grid \<Rightarrow> gcell list \<Rightarrow> bool" where
  "maze_inv w h s g st \<longleftrightarrow> grid_ok w h g \<and> grown (floor_set g) \<and> s \<in> floor_set g \<and>
     (\<forall>c \<in> floor_set g. node c \<or> (odd (fst c + snd c) \<and> (\<forall>q. node q \<longrightarrow> touching c q \<longrightarrow> q \<in> floor_set g))) \<and>
     (\<forall>c \<in> set st. c \<in> floor_set g \<and> node c) \<and>
     (\<forall>c \<in> floor_set g. node c \<longrightarrow> c \<in> set st \<or> wall_neighbors g c = [])"

lemma wall_neighbors_inside:
  "grid_ok w h g \<Longrightarrow> n \<in> set (wall_neighbors g c) \<longleftrightarrow> inside w h n \<and> n \<notin> floor_set g \<and> two_apart c n"
  using cell_at_values[of w h g n] by (auto simp: in_wall_neighbors in_grid_inside two_apart_def floor_set_def FLOOR_def WALL_def)

lemma wall_neighbors_shrink:
  assumes "grid_ok w h g" "grid_ok w h g'" "floor_set g \<subseteq> floor_set g'" "wall_neighbors g c = []"
  shows "wall_neighbors g' c = []"
proof -
  have "set (wall_neighbors g' c) \<subseteq> set (wall_neighbors g c)"
    using assms(1-3) by (auto simp: wall_neighbors_inside)
  then show ?thesis using assms(4) by simp
qed

lemma maze_step_grown:
  assumes inv: "maze_inv w h s g (c # st)" and n: "n \<in> set (wall_neighbors g c)"
  shows "grown (insert n (insert (midpoint c n) (floor_set g)))" and "midpoint c n \<notin> floor_set g"
proof -
  let ?F = "floor_set g" and ?m = "midpoint c n"
  have g: "grid_ok w h g" and gr: "grown ?F" and c: "c \<in> ?F" "node c"
    and kinds: "\<And>e. e \<in> ?F \<Longrightarrow> \<not> node e \<Longrightarrow> odd (fst e + snd e) \<and> (\<forall>q. node q \<longrightarrow> touching e q \<longrightarrow> q \<in> ?F)"
    using inv by (auto simp: maze_inv_def)
  have nn: "n \<notin> ?F" "two_apart c n" using n g by (simp_all add: wall_neighbors_inside)
  have node_n: "node n" using nn(2) c(2) by (rule two_apart_node)
  note t = midpoint_touches[OF nn(2)]
  have odd_m: "odd (fst ?m + snd ?m)" using midpoint_parity[OF nn(2) c(2)] .
  then have "\<not> node ?m" by (auto simp: node_def)
  then show m: "?m \<notin> ?F" using kinds[of ?m] node_n t nn(1) by blast
  have only_m: "e = c" if "e \<in> ?F" "touching ?m e" for e
  proof -
    have "even (fst e + snd e)" using touching_parity[OF that(2)] odd_m by simp
    then have "node e" using kinds[OF that(1)] by blast
    then show ?thesis using midpoint_ends[OF nn(2) c(2) _ that(2)] that(1) nn(1) by blast
  qed
  have "grown (insert ?m ?F)" using grown.leaf[OF gr c(1) m conjunct1[OF t]] only_m by blast
  moreover have "n \<notin> insert ?m ?F" using nn(1) t touching_irrefl[of n] by (metis insertE)
  moreover have "e = ?m" if "e \<in> insert ?m ?F" "touching n e" for e
  proof (rule ccontr)
    assume "e \<noteq> ?m"
    then have e: "e \<in> ?F" using that(1) by simp
    have "odd (fst e + snd e)" using touching_parity[OF that(2)] node_n by (auto simp: node_def)
    then have "\<not> node e" by (auto simp: node_def)
    then show False using kinds[OF e] node_n touching_sym[OF that(2)] nn(1) by blast
  qed
  ultimately show "grown (insert n (insert ?m ?F))" using grown.leaf[of "insert ?m ?F" ?m n] t by blast
qed

lemma maze_step:
  assumes inv: "maze_inv w h s g (c # st)" and n: "n \<in> set (wall_neighbors g c)"
  shows "maze_inv w h s (carve_between c n g) (n # c # st)"
proof -
  let ?F = "floor_set g" and ?m = "midpoint c n" and ?g = "carve_between c n g"
  have g: "grid_ok w h g" and c: "c \<in> ?F" "node c" using inv by (auto simp: maze_inv_def)
  have nn: "inside w h n" "two_apart c n" using n g by (simp_all add: wall_neighbors_inside)
  note ins = floor_set_inside[OF g c(1)]
  note carve = carve_between_laws[OF g ins nn(1) midpoint_inside[OF nn(2) ins nn(1)]]
  have F: "floor_set ?g = insert n (insert ?m ?F)" using carve(2) c(1) by auto
  have node_n: "node n" using nn(2) c(2) by (rule two_apart_node)
  have kinds: "node d \<or> (odd (fst d + snd d) \<and> (\<forall>q. node q \<longrightarrow> touching d q \<longrightarrow> q \<in> floor_set ?g))" if "d \<in> floor_set ?g" for d
    using that inv node_n midpoint_parity[OF nn(2) c(2)] midpoint_ends[OF nn(2) c(2)] c(1) unfolding F maze_inv_def by blast
  have rest: "d \<in> set (n # c # st) \<or> wall_neighbors ?g d = []" if "d \<in> floor_set ?g" "node d" for d
  proof (cases "d \<in> ?F")
    case True
    then have "d \<in> set (c # st) \<or> wall_neighbors g d = []" using inv that(2) by (simp add: maze_inv_def)
    then show ?thesis using wall_neighbors_shrink[OF g carve(1), of d] F by auto
  next
    case False
    then have "d = n" using that F midpoint_parity[OF nn(2) c(2)] by (auto simp: node_def)
    then show ?thesis by simp
  qed
  show ?thesis
    unfolding maze_inv_def
    using carve(1) maze_step_grown(1)[OF inv n] inv kinds rest node_n c F by (auto simp: maze_inv_def)
qed

lemma maze_pop: "maze_inv w h s g (c # st) \<Longrightarrow> wall_neighbors g c = [] \<Longrightarrow> maze_inv w h s g st"
  by (auto simp: maze_inv_def)

lemma depthfirst_loop_inv:
  assumes "maze_inv w h s g st"
  shows "\<exists>g' r'. depthfirst_loop g st r = (Inr g', r') \<and> maze_inv w h s g' []"
  using assms
proof (induction g st r rule: depthfirst_loop.induct)
  case (1 g r)
  then show ?case by simp
next
  case (2 g c st r)
  show ?case
  proof (cases "wall_neighbors g c = []")
    case True
    then show ?thesis using "2.IH"(1)[OF refl True maze_pop[OF "2.prems" True]] by simp
  next
    case False
    then have "0 < length (wall_neighbors g c)" by simp
    then obtain k r' where k: "randrange (length (wall_neighbors g c)) r = (Inr k, r')" "k < length (wall_neighbors g c)"
      using randrange_ok[of "length (wall_neighbors g c)"] unfolding ok_def by blast
    have "maze_inv w h s (carve_between c (wall_neighbors g c ! k) g) (wall_neighbors g c ! k # c # st)"
      using maze_step[OF "2.prems" nth_mem[OF k(2)]] .
    then show ?thesis using "2.IH"(2)[OF refl False k(1)[symmetric] refl] k(1) False by (simp add: Let_def)
  qed
qed


text \<open>A property of a start value that spreads in steps of two within a range holds of every value of the range with the same parity.\<close>

lemma spread_by_two:
  assumes start: "P (s::int)" and s: "0 \<le> s" "s < n" and up: "\<And>x. P x \<Longrightarrow> even (x - s) \<Longrightarrow> s \<le> x \<Longrightarrow> x + 2 < n \<Longrightarrow> P (x + 2)"
    and down: "\<And>x. P x \<Longrightarrow> even (x - s) \<Longrightarrow> x \<le> s \<Longrightarrow> 0 \<le> x - 2 \<Longrightarrow> P (x - 2)" and x: "0 \<le> x" "x < n" "even (x - s)"
  shows "P x"
  using x
proof (induction "nat \<bar>x - s\<bar>" arbitrary: x rule: less_induct)
  case less
  have "x = s \<or> s + 2 \<le> x \<or> x \<le> s - 2" using less.prems(3) by presburger
  then consider "x = s" | "s + 2 \<le> x" | "x \<le> s - 2" by blast
  then show ?case
  proof cases
    case 2
    then have "P (x - 2)" using less.hyps[of "x - 2"] less.prems s by auto
    then show ?thesis using up[of "x - 2"] 2 less.prems by simp
  next
    case 3
    then have "P (x + 2)" using less.hyps[of "x + 2"] less.prems s by auto
    then show ?thesis using down[of "x + 2"] 3 less.prems by simp
  qed (use start in simp)
qed


lemma maze_closed:
  assumes "maze_inv w h s g []" "c \<in> floor_set g" "node c" "two_apart c n" "inside w h n"
  shows "n \<in> floor_set g"
  using assms wall_neighbors_inside[of w h g n c] by (auto simp: maze_inv_def)

lemma maze_spans:
  assumes inv: "maze_inv w h s g []" and s: "node s" and c: "inside w h c" "node c"
  shows "c \<in> floor_set g"
proof -
  have g: "grid_ok w h g" and sF: "s \<in> floor_set g" using inv by (simp_all add: maze_inv_def)
  have sin: "inside w h s" by (rule floor_set_inside[OF g sF])
  note closed = maze_closed[OF inv]
  have row: "(x, snd s) \<in> floor_set g" if "0 \<le> x" "x < w" "even (x - fst s)" for x
    by (rule spread_by_two[where s = "fst s" and n = w and P = "\<lambda>x. (x, snd s) \<in> floor_set g"])
      (use sF sin s that closed in \<open>auto simp: inside_def node_def two_apart_def\<close>)
  have x: "even (fst c - fst s)" "even (snd c - snd s)" using s c(2) by (auto simp: node_def)
  have start: "(fst c, snd s) \<in> floor_set g" using row[of "fst c"] c x by (simp add: inside_def)
  have "(fst c, snd c) \<in> floor_set g"
    by (rule spread_by_two[where s = "snd s" and n = h and P = "\<lambda>y. (fst c, y) \<in> floor_set g"])
      (use start sin s c x closed in \<open>auto simp: inside_def node_def two_apart_def\<close>)
  then show ?thesis by simp
qed

lemma odd_start_runs: "3 \<le> n \<Longrightarrow> \<exists>k r'. odd_start n r = (Inr k, r') \<and> odd k \<and> 0 \<le> k \<and> k < n"
proof -
  assume n: "3 \<le> n"
  define m where "m = nat (max 1 ((n - 1) div 2))"
  have "0 < m" by (simp add: m_def)
  then obtain k r' where k: "randrange m r = (Inr k, r')" "k < m" using randrange_ok[of m] unfolding ok_def by blast
  have "int k < (n - 1) div 2" using k(2) n by (simp add: m_def)
  then have "int k * 2 + 1 < n" by presburger
  then show ?thesis using k by (simp add: odd_start_def m_def[symmetric] sbind_def ret_def)
qed

lemma maze_start:
  assumes "inside w h c" "node c"
  shows "maze_inv w h c (set_cell c FLOOR (new_grid w h)) [c]"
proof -
  have "floor_set (set_cell c FLOOR (new_grid w h)) = {c}"
    using cell_at_new[OF assms(1)] floor_set_floor[of "new_grid w h" c] by (simp add: floor_set_new)
  then show ?thesis using assms by (auto simp: maze_inv_def grid_ok_set grid_ok_new grown.seed)
qed

lemma gen_depthfirst_run:
  assumes "3 \<le> w" "3 \<le> h"
  shows "\<exists>g r' s. gen_depthfirst w h r = (Inr g, r') \<and> maze_inv w h s g [] \<and> node s"
proof -
  obtain x r1 where x: "odd_start w r = (Inr x, r1)" "odd x" "0 \<le> x" "x < w" using odd_start_runs[OF assms(1), of r] by blast
  obtain y r2 where y: "odd_start h r1 = (Inr y, r2)" "odd y" "0 \<le> y" "y < h" using odd_start_runs[OF assms(2), of r1] by blast
  have s: "inside w h (x, y)" "node (x, y)" using x y by (simp_all add: inside_def node_def)
  obtain g r' where "depthfirst_loop (set_cell (x, y) FLOOR (new_grid w h)) [(x, y)] r2 = (Inr g, r')" "maze_inv w h (x, y) g []"
    using depthfirst_loop_inv[OF maze_start[OF s]] by blast
  then have "gen_depthfirst w h r = (Inr g, r') \<and> maze_inv w h (x, y) g [] \<and> node (x, y)"
    using x(1) y(1) s(2) assms by (simp add: gen_depthfirst_def sbind_def)
  then show ?thesis by blast
qed

text \<open>
  C19. The depth-first generator gives a perfect maze: it returns a grid of the size asked for, every cell
  with two odd coordinates is floor, and between any two floor cells there is exactly one walk that
  visits no cell twice.
\<close>

theorem depthfirst_is_a_perfect_maze:
  assumes "3 \<le> w" and "3 \<le> h"
  shows "\<exists>g. fst (gen_depthfirst w h r) = Inr g \<and> grid_ok w h g \<and>
    (\<forall>x y. odd x \<and> odd y \<and> 0 \<le> x \<and> x < w \<and> 0 \<le> y \<and> y < h \<longrightarrow> (x, y) \<in> floor_set g) \<and>
    (\<forall>a \<in> floor_set g. \<forall>b \<in> floor_set g. \<exists>!p. simple_walk (floor_set g) p \<and> hd p = a \<and> last p = b)"
proof -
  obtain g r' s where g: "gen_depthfirst w h r = (Inr g, r')" "maze_inv w h s g []" "node s"
    using gen_depthfirst_run[OF assms] by blast
  have "(x, y) \<in> floor_set g" if "odd x" "odd y" "0 \<le> x" "x < w" "0 \<le> y" "y < h" for x y
    using maze_spans[OF g(2,3), of "(x, y)"] that by (simp add: inside_def node_def)
  moreover have "grown (floor_set g)" using g(2) by (simp add: maze_inv_def)
  ultimately show ?thesis
    using g grown_unique_walk[of "floor_set g"] by (intro exI[of _ g]) (simp add: maze_inv_def)
qed


theorem depthfirst_is_a_perfect_maze_witness:
  "\<exists>g. fst (gen_depthfirst 7 5 [1, 0, 2]) = Inr g \<and> (5, 3) \<in> floor_set g \<and>
     (\<exists>!p. simple_walk (floor_set g) p \<and> hd p = (1, 1) \<and> last p = (5, 3))"
proof -
  obtain g where g: "fst (gen_depthfirst 7 5 [1, 0, 2]) = Inr g"
      "\<forall>x y. odd x \<and> odd y \<and> 0 \<le> x \<and> x < (7::int) \<and> 0 \<le> y \<and> y < (5::int) \<longrightarrow> (x, y) \<in> floor_set g"
      "\<forall>a \<in> floor_set g. \<forall>b \<in> floor_set g. \<exists>!p. simple_walk (floor_set g) p \<and> hd p = a \<and> last p = b"
    using depthfirst_is_a_perfect_maze[of 7 5 "[1, 0, 2]"] by auto
  have "(1, 1) \<in> floor_set g" "(5, 3) \<in> floor_set g" using g(2) by simp_all
  then show ?thesis using g(1,3) by blast
qed

end
