(* ===== verification/Interior_Rooms.thy ===== *)
theory Interior_Rooms
  imports Interior_Mazes
begin

text \<open>
  The braid only opens walls next to floor, and rooms hang together through their corridors: both keep
  a floor joined and away from the rim.
\<close>

section \<open>Braiding\<close>

text \<open>Cells strictly between the walls of the rim.\<close>

definition inner :: "int \<Rightarrow> int \<Rightarrow> gcell \<Rightarrow> bool" where
  "inner w h c \<longleftrightarrow> 0 < fst c \<and> fst c < w - 1 \<and> 0 < snd c \<and> snd c < h - 1"

lemma inner_inside: "inner w h c \<Longrightarrow> inside w h c"
  by (simp add: inner_def inside_def)

lemma ortho_touching: "d \<in> set (ortho c) \<longleftrightarrow> touching c d"
proof -
  have "touching c d \<longleftrightarrow> d = (fst c + 1, snd c) \<or> d = (fst c - 1, snd c) \<or> d = (fst c, snd c + 1) \<or> d = (fst c, snd c - 1)"
    unfolding touching_def by (cases d) auto
  then show ?thesis by (auto simp: ortho_def ORTHO_def)
qed

lemma wall_around_laws:
  assumes g: "grid_ok w h g" and h: "0 < h" and n: "n \<in> set (wall_around g c)"
  shows "touching c n" "inner w h n" "cell_at g n \<noteq> None" "n \<notin> floor_set g"
proof -
  have "g ! 0 \<in> set g" using g h by (simp add: grid_ok_def)
  then have len: "length (g ! 0) = nat w" "length g = nat h" using g by (simp_all add: grid_ok_def)
  from n have n: "n \<in> set (ortho c)" "cell_at g n = Some WALL" "0 < fst n" "fst n < int (length (g ! 0)) - 1" "0 < snd n"
      "snd n < int (length g) - 1"
    unfolding wall_around_def set_filter by blast+
  show "touching c n" using n(1) by (simp add: ortho_touching)
  show "inner w h n" using n(3-6) len by (simp add: inner_def split: if_splits)
  show "cell_at g n \<noteq> None" "n \<notin> floor_set g" using n(2) by (simp_all add: floor_set_def FLOOR_def WALL_def)
qed

lemma braid_loop_laws:
  assumes "grid_ok w h g" "0 < h" "joined (floor_set g)" "set pending \<subseteq> floor_set g"
  shows "\<exists>g' r'. braid_loop pending left g r = (Inr g', r') \<and> grid_ok w h g' \<and> joined (floor_set g') \<and>
    floor_set g \<subseteq> floor_set g' \<and> (\<forall>c \<in> floor_set g' - floor_set g. inner w h c) \<and> card (floor_set g' - floor_set g) \<le> left"
  using assms
proof (induction pending left g arbitrary: r rule: braid_loop.induct)
  case (1 left g)
  then show ?case by (simp add: ret_def)
next
  case (2 c pending left g)
  consider "left = 0" | "left \<noteq> 0" "length (floor_around g c) \<noteq> 1" | "left \<noteq> 0" "length (floor_around g c) = 1" "wall_around g c = []"
    | "left \<noteq> 0" "length (floor_around g c) = 1" "wall_around g c \<noteq> []" by blast
  then show ?case
  proof cases
    case 1
    then show ?thesis using "2.prems" by (simp add: ret_def)
  next
    case 2
    then show ?thesis using "2.IH"(1)[OF 2] "2.prems" by simp
  next
    case 3
    then show ?thesis using "2.IH"(2)[OF 3(1) _ refl 3(3)] "2.prems" by simp
  next
    case 4
    let ?ws = "wall_around g c"
    obtain k r1 where k: "randrange (length ?ws) r = (Inr k, r1)" "k < length ?ws"
      using randrange_ok[of "length ?ws"] 4(3) unfolding ok_def by blast
    note n = wall_around_laws[OF "2.prems"(1,2) nth_mem[OF k(2)]]
    let ?g = "set_cell (?ws ! k) FLOOR g"
    have F: "floor_set ?g = insert (?ws ! k) (floor_set g)" using n(3) by (rule floor_set_floor)
    have "grid_ok w h ?g" using "2.prems"(1) by (simp add: grid_ok_set)
    moreover have "joined (floor_set ?g)" using joined_insert[OF "2.prems"(3) _ n(1)] "2.prems"(4) F by simp
    ultimately obtain g' r' where g': "braid_loop pending (left - 1) ?g r1 = (Inr g', r')" "grid_ok w h g'" "joined (floor_set g')"
        "floor_set ?g \<subseteq> floor_set g'" "\<forall>c \<in> floor_set g' - floor_set ?g. inner w h c" "card (floor_set g' - floor_set ?g) \<le> left - 1"
      using "2.IH"(3)[OF 4(1) _ refl 4(3), of k r1] 4(2) "2.prems"(2,4) F by auto
    have "floor_set g' - floor_set g = insert (?ws ! k) (floor_set g' - floor_set ?g)" using F g'(4) n(4) by auto
    then have "card (floor_set g' - floor_set g) \<le> left" "\<forall>c \<in> floor_set g' - floor_set g. inner w h c"
      using g'(5,6) 4(1) card_insert_le_m1[of left] n(2) by (auto simp: card_insert_if)
    moreover have "braid_loop (c # pending) left g r = (Inr g', r')"
      using 4 k(1) g'(1) by (simp add: sbind_def Let_def)
    ultimately show ?thesis using g' F by auto
  qed
qed

lemma braid_laws:
  assumes "grid_ok w h g" "0 < h" "joined (floor_set g)"
  shows "\<exists>g' r'. braid ratio g r = (Inr g', r') \<and> grid_ok w h g' \<and> joined (floor_set g') \<and> floor_set g \<subseteq> floor_set g' \<and>
    (\<forall>c \<in> floor_set g' - floor_set g. inner w h c) \<and>
    int (card (floor_set g' - floor_set g)) \<le> max 0 (braid_target (length (dead_ends g)) ratio)"
proof (cases "ratio \<le> 0 \<or> braid_target (length (dead_ends g)) ratio \<le> 0")
  case True
  then show ?thesis using assms by (auto simp: braid_def Let_def ret_def)
next
  case False
  define ds where "ds = sort_key fst (sort_key snd (dead_ends g))"
  obtain p r1 where p: "shuffle ds r = (Inr p, r1)" "mset p = mset ds" using shuffle_ok[of ds] unfolding ok_def by blast
  have "set p = set (dead_ends g)" using p(2) by (metis ds_def set_mset_mset set_sort)
  then have "set p \<subseteq> floor_set g" by (auto simp: dead_ends_def floor_set_def)
  from braid_loop_laws[OF assms this, of "nat (braid_target (length (dead_ends g)) ratio)" r1]
  show ?thesis using False p(1) by (auto simp: braid_def Let_def sbind_def ds_def[symmetric])
qed

section \<open>Rooms and corridors\<close>

lemma row_walk: "a \<le> i \<Longrightarrow> (\<And>x. a \<le> x \<Longrightarrow> x \<le> i \<Longrightarrow> (x, y) \<in> F) \<Longrightarrow> ((a, y), (i, y)) \<in> (steps_in F)\<^sup>*"
proof (induction i rule: int_ge_induct)
  case (step i)
  have "((i, y), (i + 1, y)) \<in> steps_in F" using step by (simp add: steps_in_def touching_def)
  moreover have "((a, y), (i, y)) \<in> (steps_in F)\<^sup>*" using step by simp
  ultimately show ?case by (rule rtrancl_into_rtrancl[rotated])
qed simp

lemma col_walk: "a \<le> j \<Longrightarrow> (\<And>y. a \<le> y \<Longrightarrow> y \<le> j \<Longrightarrow> (x, y) \<in> F) \<Longrightarrow> ((x, a), (x, j)) \<in> (steps_in F)\<^sup>*"
proof (induction j rule: int_ge_induct)
  case (step j)
  have "((x, j), (x, j + 1)) \<in> steps_in F" using step by (simp add: steps_in_def touching_def)
  moreover have "((x, a), (x, j)) \<in> (steps_in F)\<^sup>*" using step by simp
  ultimately show ?case by (rule rtrancl_into_rtrancl[rotated])
qed simp

lemma joined_box: "joined ({xa..xb} \<times> {ya..yb})"
proof (rule joined_from[of _ "(xa, ya)"])
  let ?F = "{xa..xb} \<times> {ya..yb}"
  fix b :: gcell assume b: "b \<in> ?F"
  have "((xa, ya), (xa, snd b)) \<in> (steps_in ?F)\<^sup>*" using b by (intro col_walk) auto
  moreover have "((xa, snd b), (fst b, snd b)) \<in> (steps_in ?F)\<^sup>*" using b by (intro row_walk) auto
  ultimately show "((xa, ya), b) \<in> (steps_in ?F)\<^sup>*" using rtrancl_trans[of "(xa, ya)" "(xa, snd b)" "steps_in ?F" b] by simp
qed

lemma set_room_cells: "set (room_cells x y rw rh) = {x..x + rw - 1} \<times> {y..y + rh - 1}"
  unfolding room_cells_def by auto

lemma in_room_cells: "d \<in> set (room_cells x y rw rh) \<longleftrightarrow> x \<le> fst d \<and> fst d < x + rw \<and> y \<le> snd d \<and> snd d < y + rh"
  by (auto simp: set_room_cells mem_Times_iff)

lemma set_h_cells: "set (h_cells xa xb y) = {min xa xb..max xa xb} \<times> {y..y}"
  unfolding h_cells_def by auto

lemma set_v_cells: "set (v_cells ya yb x) = {x..x} \<times> {min ya yb..max ya yb}"
  unfolding v_cells_def by auto

lemma in_h_cells: "c \<in> set (h_cells xa xb y) \<longleftrightarrow> min xa xb \<le> fst c \<and> fst c \<le> max xa xb \<and> snd c = y"
  by (cases c) (auto simp: set_h_cells)

lemma in_v_cells: "c \<in> set (v_cells ya yb x) \<longleftrightarrow> min ya yb \<le> snd c \<and> snd c \<le> max ya yb \<and> fst c = x"
  by (cases c) (auto simp: set_v_cells)

lemma joined_h_cells: "joined (set (h_cells xa xb y))"
  unfolding set_h_cells by (rule joined_box)

lemma joined_v_cells: "joined (set (v_cells ya yb x))"
  unfolding set_v_cells by (rule joined_box)

lemma corridor_laws:
  fixes p c :: gcell
  shows "joined (set (corridor_cells hf p c))" "p \<in> set (corridor_cells hf p c)" "c \<in> set (corridor_cells hf p c)"
    and "inner w h p \<Longrightarrow> inner w h c \<Longrightarrow> d \<in> set (corridor_cells hf p c) \<Longrightarrow> inner w h d"
proof -
  let ?q = "if hf then (fst c, snd p) else (fst p, snd c)"
  show "joined (set (corridor_cells hf p c))"
    unfolding corridor_cells_def 
    by (cases hf; simp; rule joined_Un[where c = ?q]) (simp_all add: joined_h_cells joined_v_cells in_h_cells in_v_cells)
  show "p \<in> set (corridor_cells hf p c)" "c \<in> set (corridor_cells hf p c)"
    unfolding corridor_cells_def by (cases p; cases c; auto simp: set_h_cells set_v_cells)+
  show "inner w h p \<Longrightarrow> inner w h c \<Longrightarrow> d \<in> set (corridor_cells hf p c) \<Longrightarrow> inner w h d"
    unfolding corridor_cells_def by (cases hf) (auto simp: set_h_cells set_v_cells inner_def)
qed

lemma assign_inside:
  assumes "grid_ok w h g" "inside w h c"
  shows "assign_cell v c g = Inr (set_cell c v g)"
proof -
  have "nat (snd c) < length g" using assms by (simp add: grid_ok_def inside_def nat_less_iff)
  then have "length (g ! nat (snd c)) = nat w" using assms(1) nth_mem unfolding grid_ok_def by blast
  then show ?thesis using assms by (auto simp: assign_cell_def py_pos_def set_cell_def inside_def grid_ok_def)
qed

lemma carve_laws:
  assumes "grid_ok w h g" "\<And>c. c \<in> set cs \<Longrightarrow> inside w h c"
  shows "\<exists>g'. carve cs g = Inr g' \<and> grid_ok w h g' \<and> floor_set g' = set cs \<union> floor_set g"
  using assms unfolding carve_def
proof (induction cs arbitrary: g)
  case (Cons c cs)
  have c: "inside w h c" using Cons.prems(2) by simp
  have "grid_ok w h (set_cell c FLOOR g)" using Cons.prems(1) by (simp add: grid_ok_set)
  with Cons.IH[of "set_cell c FLOOR g"] Cons.prems(2)
  obtain g' where "rfold (assign_cell FLOOR) cs (set_cell c FLOOR g) = Inr g'" "grid_ok w h g'"
      "floor_set g' = set cs \<union> floor_set (set_cell c FLOOR g)" by auto
  then show ?case
    using assign_inside[OF Cons.prems(1) c, of FLOOR] cell_at_inside[OF Cons.prems(1), of c] c by (auto simp: floor_set_floor)
qed simp

definition rooms_inv :: "int \<Rightarrow> int \<Rightarrow> grid \<times> gcell option \<Rightarrow> bool" where
  "rooms_inv w h s \<longleftrightarrow> grid_ok w h (fst s) \<and> joined (floor_set (fst s)) \<and> (\<forall>c \<in> floor_set (fst s). inner w h c) \<and>
     (case snd s of None \<Rightarrow> floor_set (fst s) = {} | Some c \<Rightarrow> c \<in> floor_set (fst s))"

lemma rooms_inv_new: "rooms_inv w h (new_grid w h, None)"
  by (simp add: rooms_inv_def grid_ok_new floor_set_new)

text \<open>A room and, after the first, a corridor from the last centre keep the floor joined.\<close>

lemma room_added:
  assumes s: "rooms_inv w h s" and g: "grid_ok w h g" "floor_set g = set (room_cells x y rw rh) \<union> floor_set (fst s)"
    and fits: "1 \<le> x" "1 \<le> y" "x + rw < w - 1" "y + rh < h - 1" "1 \<le> rw" "1 \<le> rh"
  defines "c \<equiv> (x + rw div 2, y + rh div 2)"
  shows "snd s = None \<Longrightarrow> rooms_inv w h (g, Some c)"
    and "snd s = Some p \<Longrightarrow> \<exists>g'. carve (corridor_cells hf p c) g = Inr g' \<and> rooms_inv w h (g', Some c)"
proof -
  let ?R = "set (room_cells x y rw rh)"
  have c: "c \<in> ?R" using fits by (simp add: c_def set_room_cells) linarith
  have R: "joined ?R" by (simp add: set_room_cells joined_box)
  have inR: "inner w h d" if "d \<in> ?R" for d using that fits by (simp add: in_room_cells inner_def)
  show "rooms_inv w h (g, Some c)" if "snd s = None"
    using that s g R c inR by (simp add: rooms_inv_def)
  show "\<exists>g'. carve (corridor_cells hf p c) g = Inr g' \<and> rooms_inv w h (g', Some c)" if p: "snd s = Some p"
  proof -
    let ?K = "set (corridor_cells hf p c)"
    have ps: "p \<in> floor_set (fst s)" "inner w h p" using s p by (auto simp: rooms_inv_def)
    note K = corridor_laws[where hf = hf and p = p and c = c]
    have inK: "inner w h d" if "d \<in> ?K" for d using K(4)[OF ps(2) inR[OF c] that] .
    obtain g' where g': "carve (corridor_cells hf p c) g = Inr g'" "grid_ok w h g'" "floor_set g' = ?K \<union> floor_set g"
      using carve_laws[OF g(1), of "corridor_cells hf p c"] inK inner_inside by blast
    have "joined (?K \<union> (?R \<union> floor_set (fst s)))"
    proof -
      have "joined (?K \<union> ?R)" using joined_Un[OF K(1) R K(3) c] .
      from joined_Un[OF this _ _ ps(1)] s K(2) show ?thesis by (simp add: rooms_inv_def Un_assoc)
    qed
    then show ?thesis using g' g(2) s inR inK c by (auto simp: rooms_inv_def)
  qed
qed

lemma place_room_inv:
  assumes s: "rooms_inv w h s" and ri: "1 \<le> room_min" "room_min \<le> room_max"
  shows "ok (place_room w h room_min room_max s) (rooms_inv w h)"
  unfolding place_room_def
proof (intro ok_sbind[OF randint_ok[OF ri(2)]] ok_sbind[OF randint_ok] ok_if)
  fix rw rh x y
  assume r: "room_min \<le> rw \<and> rw \<le> room_max" "room_min \<le> rh \<and> rh \<le> room_max" "1 \<le> x \<and> x \<le> max 1 (w - rw - 1)"
    "1 \<le> y \<and> y \<le> max 1 (h - rh - 1)"
  show "ok (ret s) (rooms_inv w h)" using s by (simp add: wp)
  assume fits: "\<not> (w - 1 \<le> x + rw \<or> h - 1 \<le> y + rh)"
  let ?c = "(x + rw div 2, y + rh div 2)"
  have "inside w h d" if "d \<in> set (room_cells x y rw rh)" for d
    using that fits r by (simp add: in_room_cells inside_def)
  with carve_laws[of w h "fst s" "room_cells x y rw rh"] s
  obtain g where g: "carve (room_cells x y rw rh) (fst s) = Inr g" "grid_ok w h g"
      "floor_set g = set (room_cells x y rw rh) \<union> floor_set (fst s)" by (auto simp: rooms_inv_def)
  note added = room_added[OF s g(2,3)]
  show "ok (sbind (lift_res (carve (room_cells x y rw rh) (fst s))) (\<lambda>g. let c = ?c in case snd s of None \<Rightarrow> ret (g, Some c)
      | Some p \<Rightarrow> sbind random_float (\<lambda>u. sbind (lift_res (carve (corridor_cells (u < 1 / 2) p c) g)) (\<lambda>g'. ret (g', Some c)))))
    (rooms_inv w h)"
  proof (cases "snd s")
    case None
    then show ?thesis using added(1) fits r ri g(1) by (simp add: Let_def wp)
  next
    case (Some p)
    have "ok (sbind (lift_res (carve (corridor_cells (u < 1 / 2) p ?c) g)) (\<lambda>g'. ret (g', Some ?c))) (rooms_inv w h)" for u :: rat
      using added(2)[OF _ _ _ _ _ _ Some, of "u < 1 / 2"] fits r ri by (auto simp: wp)
    then show ?thesis using Some g(1) by (auto simp: Let_def intro: ok_sbind[OF random_float_ok])
  qed
qed simp_all

lemma place_rooms_inv:
  assumes "1 \<le> room_min" "room_min \<le> room_max"
  shows "rooms_inv w h s \<Longrightarrow> ok (place_rooms n w h room_min room_max s) (rooms_inv w h)"
proof (induction n arbitrary: s)
  case (Suc n)
  show ?case unfolding place_rooms.simps by (rule ok_sbind[OF place_room_inv[OF Suc.prems assms] Suc.IH])
qed (simp add: wp)

end
