(* ===== verification/Interior_Properties.thy ===== *)
theory Interior_Properties
  imports Interior_Rooms
begin

text \<open>
  The cave keeps one largest joined region of its automaton, and every interior but Prim's is walkable:
  a grid of the size asked for, walled all around, whose floor is joined.
\<close>

section \<open>Walling the rim\<close>

lemma fold_set_wall:
  "grid_ok w h g \<Longrightarrow> grid_ok w h (fold (\<lambda>c. set_cell c WALL) cs g) \<and> floor_set (fold (\<lambda>c. set_cell c WALL) cs g) = floor_set g - set cs"
proof (induction cs arbitrary: g)
  case (Cons c cs)
  have "grid_ok w h (set_cell c WALL g)" using Cons.prems by (simp add: grid_ok_set)
  then show ?case using Cons.IH[of "set_cell c WALL g"] by (auto simp: floor_set_wall)
qed simp

lemma set_rim: "set (rim w h) = {c. inside w h c \<and> \<not> inner w h c} \<or> w \<le> 0 \<or> h \<le> 0"
proof (cases "w \<le> 0 \<or> h \<le> 0")
  case False
  have "c \<in> set (rim w h) \<longleftrightarrow> inside w h c \<and> \<not> inner w h c" for c
    using False unfolding rim_def inside_def inner_def by (cases c) auto
  then show ?thesis by blast
qed blast

lemma wall_rim_laws:
  assumes "grid_ok w h g" "0 < w" "0 < h"
  shows "grid_ok w h (wall_rim w h g)" "floor_set (wall_rim w h g) = {c \<in> floor_set g. inner w h c}"
  using fold_set_wall[OF assms(1), of "rim w h"] set_rim[of w h] assms floor_set_inside[OF assms(1)]
  unfolding wall_rim_def by auto

text \<open>What every interior promises: the size asked for, a walled rim, a floor that is joined.\<close>

definition walkable :: "int \<Rightarrow> int \<Rightarrow> grid \<Rightarrow> bool" where
  "walkable w h g \<longleftrightarrow> grid_ok w h g \<and> joined (floor_set g) \<and> (\<forall>c \<in> floor_set g. inner w h c)"

lemma gen_roomcorridor_walkable:
  assumes "5 \<le> w" "5 \<le> h" "1 \<le> room_min" "room_min \<le> room_max"
  shows "ok (gen_roomcorridor w h max_rooms room_min room_max) (walkable w h)"
proof -
  have "walkable w h (wall_rim w h (fst s))" if "rooms_inv w h s" for s
  proof -
    have s: "grid_ok w h (fst s)" "joined (floor_set (fst s))" "\<forall>c \<in> floor_set (fst s). inner w h c"
      using that by (simp_all add: rooms_inv_def)
    have "{c \<in> floor_set (fst s). inner w h c} = floor_set (fst s)" using s(3) by blast
    then show ?thesis using wall_rim_laws[OF s(1)] assms(1,2) s by (simp add: walkable_def)
  qed
  then show ?thesis
    using place_rooms_inv[OF assms(3,4) rooms_inv_new, of max_rooms w h] assms(1,2)
    by (auto simp: gen_roomcorridor_def intro!: ok_sbind wp)
qed

section \<open>The automaton\<close>

lemma ok_smap_all:
  assumes "\<And>x. ok (f x) R"
  shows "ok (smap f xs) (\<lambda>ys. length ys = length xs \<and> (\<forall>y \<in> set ys. R y))"
proof (rule ok_weaken[OF ok_smap[OF assms]])
  fix ys assume "list_all2 (\<lambda>_. R) xs ys"
  then show "length ys = length xs \<and> (\<forall>y \<in> set ys. R y)" by (induction rule: list_all2_induct) auto
qed

lemma noise_ok: "ok (noise w h density) (grid_ok w h)"
proof -
  have cell: "ok (sbind random_float (\<lambda>x. ret (if x < density then FLOOR else WALL))) (\<lambda>v. v \<in> {FLOOR, WALL})"
    by (auto intro!: ok_sbind[OF random_float_ok] wp)
  have row: "ok (noise_row w density) (\<lambda>r. length r = nat w \<and> set r \<subseteq> {FLOOR, WALL})"
    unfolding noise_row_def by (rule ok_weaken[OF ok_smap_all[OF cell]]) auto
  show ?thesis
    unfolding noise_def by (rule ok_weaken[OF ok_smap_all[OF row]]) (simp add: grid_ok_def)
qed

definition walled :: "int \<Rightarrow> int \<Rightarrow> grid \<Rightarrow> bool" where
  "walled w h g \<longleftrightarrow> grid_ok w h g \<and> floor_set g \<subseteq> Collect (inner w h)"

lemma walled_set:
  assumes g: "walled w h g" and c: "inner w h c"
  shows "walled w h (set_cell c WALL g)" "walled w h (set_cell c FLOOR g)"
proof -
  have "cell_at g c \<noteq> None" using g c cell_at_inside inner_inside unfolding walled_def by blast
  then show "walled w h (set_cell c WALL g)" "walled w h (set_cell c FLOOR g)"
    using g c by (auto simp: walled_def grid_ok_set floor_set_wall floor_set_floor)
qed

lemma walled_ca_fold: "walled w h new \<Longrightarrow> \<forall>c \<in> set cs. inner w h c \<Longrightarrow> walled w h (fold (ca_cell g cutoff) cs new)"
proof (induction cs arbitrary: new)
  case (Cons c cs)
  then have "walled w h (ca_cell g cutoff c new)" by (simp add: ca_cell_def Let_def walled_set)
  then show ?case using Cons by simp
qed simp

lemma set_inner_cells: "\<forall>c \<in> set (inner_cells w h). inner w h c"
  by (auto simp: inner_cells_def inner_def)

lemma walled_passes: "walled w h g \<Longrightarrow> walled w h ((ca_pass w h cutoff ^^ n) g)"
  by (induction n) (simp_all add: ca_pass_def walled_ca_fold[OF _ set_inner_cells])

section \<open>The largest region\<close>

text \<open>A set of floor cells that no step leaves.\<close>

definition closed_in :: "gcell set \<Rightarrow> gcell set \<Rightarrow> bool" where
  "closed_in F R \<longleftrightarrow> (\<forall>c \<in> R. \<forall>d \<in> F. touching c d \<longrightarrow> d \<in> R)"

lemma joined_in_closed:
  assumes "joined A" "A \<subseteq> F" "closed_in F R" "a \<in> A" "a \<in> R"
  shows "A \<subseteq> R"
proof
  fix b assume "b \<in> A"
  then have "(a, b) \<in> (steps_in A)\<^sup>*" using assms(1,4) by (simp add: joined_def)
  then show "b \<in> R"
  proof induction
    case (step y z)
    then have "touching y z" "z \<in> F" using assms(2) by (auto simp: steps_in_def)
    then show ?case using step.IH assms(3) by (auto simp: closed_in_def)
  qed (rule assms(5))
qed

text \<open>The state of a flood from \<open>c0\<close>: the region is joined, what lies next to it is seen or waiting.\<close>

definition flood_inv :: "gcell set \<Rightarrow> gcell set \<Rightarrow> gcell \<Rightarrow> gcell list \<Rightarrow> gcell set \<Rightarrow> gcell list \<Rightarrow> bool" where
  "flood_inv F seen0 c0 stack seen region \<longleftrightarrow> seen = seen0 \<union> set region \<and> distinct region \<and> set region \<subseteq> F - seen0 \<and>
     joined (set region) \<and> c0 \<in> set region \<and> (\<forall>d \<in> set stack. \<exists>e \<in> set region. touching e d) \<and>
     (\<forall>c \<in> set region. \<forall>d \<in> F. touching c d \<longrightarrow> d \<in> seen \<or> d \<in> set stack)"

definition four :: "gcell \<Rightarrow> gcell list" where
  "four c = [(fst c, snd c - 1), (fst c, snd c + 1), (fst c - 1, snd c), (fst c + 1, snd c)]"

lemma touching_four: "d \<in> set (four c) \<longleftrightarrow> touching c d"
  unfolding touching_def four_def by (cases d) auto

lemma flood_inv_take:
  assumes "flood_inv F seen0 c0 (c # stack) seen region" "c \<in> F" "c \<notin> seen"
  shows "flood_inv F seen0 c0 (four c @ stack) (insert c seen) (region @ [c])"
proof -
  note I = assms(1)[unfolded flood_inv_def]
  from I obtain e where "e \<in> set region" "touching e c" by auto
  then have "joined (insert c (set region))" using I joined_insert by blast
  then show ?thesis using I assms(2,3) unfolding flood_inv_def by (auto simp: touching_four)
qed

lemma flood_inv_drop:
  assumes "flood_inv F seen0 c0 (c # stack) seen region" "c \<notin> F \<or> c \<in> seen"
  shows "flood_inv F seen0 c0 stack seen region"
  using assms unfolding flood_inv_def by auto

lemma flood_keeps_inv:
  assumes "grid_ok w h g" "flood_inv (floor_set g) seen0 c0 stack seen region" "flood g w h stack seen region = (seen', region')"
  shows "flood_inv (floor_set g) seen0 c0 [] seen' region'"
  using assms
proof (induction g w h stack seen region rule: flood.induct)
  case (2 g w h c stack seen region)
  have ok: "flood_ok g w h seen c \<longleftrightarrow> c \<in> floor_set g \<and> c \<notin> seen"
    using floor_set_inside[OF "2.prems"(1), of c] by (auto simp: flood_ok_def floor_set_def inside_def)
  show ?case
  proof (cases "flood_ok g w h seen c")
    case True
    then show ?thesis using "2.IH"(1)[OF True "2.prems"(1)] flood_inv_take[OF "2.prems"(2)] "2.prems"(3) ok by (simp add: four_def)
  next
    case False
    then have "flood g w h stack seen region = (seen', region')" using "2.prems"(3) by simp
    then show ?thesis using "2.IH"(2)[OF False "2.prems"(1)] flood_inv_drop[OF "2.prems"(2)] False ok by blast
  qed
qed simp

text \<open>A flood from a floor cell not seen yet collects its whole region.\<close>

lemma flood_region:
  assumes g: "grid_ok w h g" and c: "c \<in> floor_set g" "c \<notin> seen" and cl: "closed_in (floor_set g) seen"
    and f: "flood g w h [c] seen [] = (seen', region)"
  shows "seen' = seen \<union> set region" "distinct region" "set region \<subseteq> floor_set g" "joined (set region)" "c \<in> set region"
    and "closed_in (floor_set g) (set region)" "closed_in (floor_set g) seen'"
proof -
  have "flood_ok g w h seen c" using c floor_set_inside[OF g c(1)] by (auto simp: flood_ok_def floor_set_def inside_def)
  then have f': "flood g w h (four c) (insert c seen) [c] = (seen', region)" using f by (simp add: four_def)
  have "flood_inv (floor_set g) seen c (four c) (insert c seen) [c]"
    using c by (auto simp: flood_inv_def touching_four)
  from flood_keeps_inv[OF g this f'] have I: "flood_inv (floor_set g) seen c [] seen' region" .
  then show R: "seen' = seen \<union> set region" "distinct region" "set region \<subseteq> floor_set g" "joined (set region)" "c \<in> set region"
    by (auto simp: flood_inv_def)
  have "d \<notin> seen" if "e \<in> set region" "touching e d" for d e
    using that I cl touching_sym unfolding flood_inv_def closed_in_def by blast
  then show "closed_in (floor_set g) (set region)" using I unfolding flood_inv_def closed_in_def by fastforce
  then show "closed_in (floor_set g) seen'" using cl R(1) by (auto simp: closed_in_def)
qed

text \<open>The best region so far beats every joined set of floor cells that meets what was scanned.\<close>

definition best_inv :: "gcell set \<Rightarrow> gcell set \<Rightarrow> gcell list \<Rightarrow> bool" where
  "best_inv F seen best \<longleftrightarrow> closed_in F seen \<and> distinct best \<and> set best \<subseteq> F \<and> joined (set best) \<and>
     (\<forall>A. joined A \<longrightarrow> A \<subseteq> F \<longrightarrow> A \<inter> seen \<noteq> {} \<longrightarrow> card A \<le> length best)"

lemma best_inv_region:
  assumes g: "grid_ok w h g" and c: "c \<in> floor_set g" "c \<notin> seen" and I: "best_inv (floor_set g) seen best"
    and f: "flood g w h [c] seen [] = (seen', region)"
  shows "best_inv (floor_set g) seen' (if length region > length best then region else best)" "c \<in> seen'" "seen \<subseteq> seen'"
proof -
  note R = flood_region[OF g c _ f]
  have cl: "closed_in (floor_set g) seen" using I by (simp add: best_inv_def)
  have region_bound: "card A \<le> length region" if A: "joined A" "A \<subseteq> floor_set g" "A \<inter> set region \<noteq> {}" for A
  proof -
    from A(3) obtain a where "a \<in> A" "a \<in> set region" by blast
    then have "A \<subseteq> set region" using joined_in_closed[OF A(1,2) R(6)[OF cl]] by blast
    then show ?thesis using card_mono[of "set region" A] card_length[of region] by simp
  qed
  have best_bound: "card A \<le> length best" if "joined A" "A \<subseteq> floor_set g" "A \<inter> seen \<noteq> {}" for A
    using that I unfolding best_inv_def by blast
  have "card A \<le> length (if length region > length best then region else best)"
    if A: "joined A" "A \<subseteq> floor_set g" "A \<inter> seen' \<noteq> {}" for A
  proof -
    from A(3) have "A \<inter> set region \<noteq> {} \<or> A \<inter> seen \<noteq> {}" unfolding R(1)[OF cl] by blast
    then have "card A \<le> length region \<or> card A \<le> length best" using region_bound[OF A(1,2)] best_bound[OF A(1,2)] by blast
    then show ?thesis by auto
  qed
  moreover have "distinct (if length region > length best then region else best)"
      "set (if length region > length best then region else best) \<subseteq> floor_set g"
      "joined (set (if length region > length best then region else best))"
    using R(2-4)[OF cl] I by (simp_all add: best_inv_def)
  ultimately show "best_inv (floor_set g) seen' (if length region > length best then region else best)"
    using R(7)[OF cl] unfolding best_inv_def by blast
  show "c \<in> seen'" "seen \<subseteq> seen'" using R[OF cl] by auto
qed

lemma scan_regions_best:
  assumes "grid_ok w h g" "best_inv (floor_set g) seen best"
  shows "\<exists>seen'. best_inv (floor_set g) seen' (scan_regions g w h cs seen best) \<and> seen \<subseteq> seen' \<and> set cs \<inter> floor_set g \<subseteq> seen'"
  using assms
proof (induction g w h cs seen best rule: scan_regions.induct)
  case (2 g w h c cs seen best)
  show ?case
  proof (cases "cell_at g c \<noteq> Some FLOOR \<or> c \<in> seen")
    case True
    then show ?thesis using "2.IH"(1)[OF True "2.prems"] by (auto simp: floor_set_def)
  next
    case False
    then have c: "c \<in> floor_set g" "c \<notin> seen" by (simp_all add: floor_set_def)
    obtain seen1 region where f: "flood g w h [c] seen [] = (seen1, region)" by fastforce
    note B = best_inv_region[OF "2.prems"(1) c "2.prems"(2) f]
    obtain seen' where "best_inv (floor_set g) seen' (scan_regions g w h cs seen1 (if length best < length region then region else best))"
        "seen1 \<subseteq> seen'" "set cs \<inter> floor_set g \<subseteq> seen'"
      using "2.IH"(2)[OF False f[symmetric] "2.prems"(1) B(1)] by blast
    moreover have "scan_regions g w h (c # cs) seen best = scan_regions g w h cs seen1 (if length best < length region then region else best)"
      using False f by (simp del: flood.simps)
    ultimately show ?thesis using B(2,3) by (intro exI[of _ seen']) (auto simp del: scan_regions.simps)
  qed
qed auto


lemma set_all_cells: "c \<in> set (all_cells w h) \<longleftrightarrow> inside w h c"
  by (cases c) (auto simp: all_cells_def inside_def image_iff)

lemma keep_fold:
  assumes "grid_ok w h out"
  shows "grid_ok w h (fold (\<lambda>c out. if P c then set_cell c WALL out else out) cs out) \<and>
    floor_set (fold (\<lambda>c out. if P c then set_cell c WALL out else out) cs out) = floor_set out - {c \<in> set cs. P c}"
  using assms
proof (induction cs arbitrary: out)
  case (Cons c cs)
  have "grid_ok w h (set_cell c WALL out)" using Cons.prems by (simp add: grid_ok_set)
  then show ?case using Cons.IH[of "set_cell c WALL out"] Cons.IH[OF Cons.prems] by (auto simp: floor_set_wall)
qed simp

lemma keep_largest_laws:
  assumes g: "grid_ok w h g"
  defines "k \<equiv> keep_largest_floor_region w h g"
  shows "grid_ok w h k" "joined (floor_set k)" "floor_set k \<subseteq> floor_set g"
    and "joined A \<Longrightarrow> A \<subseteq> floor_set g \<Longrightarrow> card A \<le> card (floor_set k)"
proof -
  let ?best = "scan_regions g w h (all_cells w h) {} []"
  have "best_inv (floor_set g) {} []" by (simp add: best_inv_def closed_in_def)
  from scan_regions_best[OF g this, of "all_cells w h"] obtain seen
    where B: "best_inv (floor_set g) seen ?best" and all: "set (all_cells w h) \<inter> floor_set g \<subseteq> seen" by blast
  have all': "floor_set g \<subseteq> seen" using all floor_set_inside[OF g] set_all_cells by blast
  note K = keep_fold[OF g, of "\<lambda>c. cell_at g c = Some FLOOR \<and> c \<notin> set ?best" "all_cells w h"]
  have best: "distinct ?best" "set ?best \<subseteq> floor_set g" "joined (set ?best)" using B by (simp_all add: best_inv_def)
  have "c \<in> set (all_cells w h) \<and> cell_at g c = Some FLOOR" if "c \<in> floor_set g" for c
    using that floor_set_inside[OF g that] by (simp add: set_all_cells floor_set_def)
  then have F: "floor_set k = set ?best" using K best(2) unfolding k_def keep_largest_floor_region_def Let_def by blast
  show "grid_ok w h k" using K unfolding k_def keep_largest_floor_region_def Let_def by blast
  show "joined (floor_set k)" "floor_set k \<subseteq> floor_set g" using best F by simp_all
  show "card A \<le> card (floor_set k)" if A: "joined A" "A \<subseteq> floor_set g"
  proof (cases "A = {}")
    case False
    then have "A \<inter> seen \<noteq> {}" using A(2) all' by blast
    then show ?thesis using B A F distinct_card[OF best(1)] unfolding best_inv_def by simp
  qed simp
qed

lemma gen_cave_walkable:
  assumes "3 \<le> w" "3 \<le> h"
  shows "ok (gen_cave w h density cutoff passes) (walkable w h)"
proof -
  have "walkable w h (keep_largest_floor_region w h ((ca_pass w h cutoff ^^ passes) (wall_rim w h g)))" if "grid_ok w h g" for g
  proof -
    have "walled w h (wall_rim w h g)" using wall_rim_laws[OF that] assms by (auto simp: walled_def)
    then have "walled w h ((ca_pass w h cutoff ^^ passes) (wall_rim w h g))" by (rule walled_passes)
    then show ?thesis using keep_largest_laws(1-3) unfolding walled_def walkable_def by blast
  qed
  then show ?thesis using assms by (auto simp: gen_cave_def intro!: ok_sbind[OF noise_ok] wp)
qed

section \<open>Every interior is walkable\<close>

lemma gen_depthfirst_joined:
  assumes "3 \<le> w" "3 \<le> h"
  shows "ok (gen_depthfirst w h) (\<lambda>g. grid_ok w h g \<and> joined (floor_set g))"
  using gen_depthfirst_run[OF assms] grown_joined unfolding ok_def maze_inv_def by blast

text \<open>The arguments a generator accepts: its own parameters and a size it can fill (Prim, which leaves pockets, is left out).\<close>

fun usable :: "string \<Rightarrow> int \<Rightarrow> int \<Rightarrow> interior_params \<Rightarrow> bool" where
  "usable algorithm w h (CellularParams density cutoff passes) \<longleftrightarrow> algorithm = ''cellular'' \<and> 3 \<le> w \<and> 3 \<le> h"
| "usable algorithm w h NoParams \<longleftrightarrow> algorithm \<in> {''cellular'', ''depthfirst''} \<and> 3 \<le> w \<and> 3 \<le> h \<or> algorithm = ''roomcorridor'' \<and> 5 \<le> w \<and> 5 \<le> h"
| "usable algorithm w h (PrimParams density complexity) \<longleftrightarrow> False"
| "usable algorithm w h (RoomcorridorParams n lo hi) \<longleftrightarrow> algorithm = ''roomcorridor'' \<and> 5 \<le> w \<and> 5 \<le> h \<and> 1 \<le> lo \<and> lo \<le> hi"

lemma run_algorithm_ok:
  assumes "usable algorithm w h params"
  shows "algorithm \<in> set ALGORITHMS"
    and "ok (run_algorithm algorithm w h params) (\<lambda>g. grid_ok w h g \<and> joined (floor_set g) \<and>
      (algorithm \<noteq> ''depthfirst'' \<longrightarrow> (\<forall>c \<in> floor_set g. inner w h c)))"
proof -
  show "algorithm \<in> set ALGORITHMS" using assms by (cases params) (auto simp: ALGORITHMS_def)
  show "ok (run_algorithm algorithm w h params) (\<lambda>g. grid_ok w h g \<and> joined (floor_set g) \<and>
      (algorithm \<noteq> ''depthfirst'' \<longrightarrow> (\<forall>c \<in> floor_set g. inner w h c)))"
  proof (cases params)
    case (CellularParams density cutoff passes)
    then show ?thesis using assms ok_weaken[OF gen_cave_walkable[of w h density cutoff passes]] by (simp add: run_algorithm_def walkable_def)
  next
    case NoParams
    then consider "algorithm = ''cellular''" "3 \<le> w" "3 \<le> h" | "algorithm = ''depthfirst''" "3 \<le> w" "3 \<le> h"
      | "algorithm = ''roomcorridor''" "5 \<le> w" "5 \<le> h" using assms by auto
    then show ?thesis
      by cases (use NoParams gen_depthfirst_joined[of w h] ok_weaken[OF gen_cave_walkable[of w h "lit 55 100" 5 4]]
          ok_weaken[OF gen_roomcorridor_walkable[of w h 3 7 12]] in \<open>simp_all add: run_algorithm_def walkable_def\<close>)
  next
    case (RoomcorridorParams n lo hi)
    then show ?thesis using assms ok_weaken[OF gen_roomcorridor_walkable[of w h lo hi n]] by (simp add: run_algorithm_def walkable_def)
  qed (use assms in simp)
qed



text \<open>
  The largest region the cave keeps is a region of the automaton's floor and none is larger: the floor
  kept is joined, was floor before, and every joined set of floor cells has at most as many cells.
\<close>
theorem cave_keeps_largest_region:
  assumes "grid_ok w h g"
  shows "joined (floor_set (keep_largest_floor_region w h g)) \<and> floor_set (keep_largest_floor_region w h g) \<subseteq> floor_set g \<and>
    (\<forall>A. joined A \<and> A \<subseteq> floor_set g \<longrightarrow> card A \<le> card (floor_set (keep_largest_floor_region w h g)))"
  using keep_largest_laws[OF assms] by blast

theorem cave_keeps_largest_region_witness:
  "2 \<le> card (floor_set (keep_largest_floor_region 4 1 [[0, 1, 0, 0]]))"
proof -
  let ?g = "[[0, 1, 0, 0]] :: grid"
  have "grid_ok 4 1 ?g" by (simp add: grid_ok_def FLOOR_def WALL_def)
  moreover have "joined {(2, 0), (3, 0)}" by (rule joined_pair) (simp add: touching_def)
  moreover have "{(2, 0), (3, 0)} \<subseteq> floor_set ?g" by (simp add: floor_set_def cell_at_def FLOOR_def)
  ultimately have "card {(2::int, 0::int), (3, 0)} \<le> card (floor_set (keep_largest_floor_region 4 1 ?g))"
    using cave_keeps_largest_region[of 4 1 ?g] by blast
  then show ?thesis by simp
qed

end
