(* ===== verification/Interior_Braids.thy ===== *)
theory Interior_Braids
  imports Interior_Properties
begin

text \<open>
  A full braid of a depth-first maze leaves no dead end: on a maze of odd size every dead end is a node
  with a wall between it and another node, so the single pass opens one at each.
\<close>

section \<open>Floor and walls around a cell\<close>

definition around :: "gcell set \<Rightarrow> gcell \<Rightarrow> gcell set" where
  "around F c = {n \<in> F. touching c n}"

lemma around_mono: "F \<subseteq> G \<Longrightarrow> around F c \<subseteq> around G c"
  by (auto simp: around_def)

lemma finite_around [simp]: "finite F \<Longrightarrow> finite (around F c)"
  by (simp add: around_def)

lemma distinct_ortho: "distinct (ortho c)"
  by (simp add: ortho_def ORTHO_def)

lemma length_floor_around: "grid_ok w h g \<Longrightarrow> length (floor_around g c) = card (around (floor_set g) c)"
proof -
  assume g: "grid_ok w h g"
  have "set (floor_around g c) = around (floor_set g) c"
    using in_grid_inside[OF g] floor_set_inside[OF g] unfolding floor_around_def set_filter around_def ortho_touching
    by (auto simp: floor_set_def)
  moreover have "distinct (floor_around g c)" by (simp add: floor_around_def distinct_ortho)
  ultimately show ?thesis by (metis distinct_card)
qed

lemma set_wall_around:
  assumes g: "grid_ok w h g" and h: "0 < h"
  shows "n \<in> set (wall_around g c) \<longleftrightarrow> touching c n \<and> inner w h n \<and> n \<notin> floor_set g"
proof
  assume "n \<in> set (wall_around g c)"
  then show "touching c n \<and> inner w h n \<and> n \<notin> floor_set g" using wall_around_laws[OF g h] by blast
next
  assume n: "touching c n \<and> inner w h n \<and> n \<notin> floor_set g"
  have "g ! 0 \<in> set g" using g h by (simp add: grid_ok_def)
  then have len: "length (g ! 0) = nat w" "length g = nat h" using g by (simp_all add: grid_ok_def)
  have "inside w h n" using n inner_inside by blast
  then have "in_grid g n" "cell_at g n = Some WALL" using cell_at_values[OF g, of n] n in_grid_inside[OF g, of n] by (auto simp: floor_set_def)
  then show "n \<in> set (wall_around g c)" using n len unfolding wall_around_def set_filter ortho_touching by (auto simp: inner_def)
qed

lemma in_dead_ends: "grid_ok w h g \<Longrightarrow> c \<in> set (dead_ends g) \<longleftrightarrow> c \<in> floor_set g \<and> card (around (floor_set g) c) = 1"
proof -
  assume g: "grid_ok w h g"
  have "c \<in> set [(int x, int y). y \<leftarrow> [0..<length g], x \<leftarrow> [0..<length (g ! 0)]]" if "c \<in> floor_set g"
  proof -
    have c: "in_grid g c" using floor_set_inside[OF g that] in_grid_inside[OF g] by blast
    then obtain x y where "c = (int x, int y)" "y < length g" "x < length (g ! 0)"
      using that by (metis in_grid_def nat_0_le nat_less_iff prod.collapse)
    then show ?thesis by (auto simp: image_iff)
  qed
  then show ?thesis unfolding dead_ends_def set_filter length_floor_around[OF g] by (auto simp: floor_set_def)
qed

section \<open>Lattices of odd size\<close>

text \<open>What a depth-first maze of odd size is, and stays while it is braided.\<close>

definition lattice :: "int \<Rightarrow> int \<Rightarrow> grid \<Rightarrow> bool" where
  "lattice w h g \<longleftrightarrow> grid_ok w h g \<and> (\<forall>c. inside w h c \<longrightarrow> node c \<longrightarrow> c \<in> floor_set g) \<and>
     (\<forall>c \<in> floor_set g. node c \<or> odd (fst c + snd c) \<and> (\<forall>q. node q \<longrightarrow> touching c q \<longrightarrow> q \<in> floor_set g)) \<and>
     (\<forall>c \<in> floor_set g. around (floor_set g) c \<noteq> {})"

lemma passage_nodes:
  assumes "odd (fst c + snd c)"
  obtains a b where "node a" "node b" "touching c a" "touching c b" "a \<noteq> b"
proof (cases "odd (snd c)")
  case True
  then show ?thesis using assms by (intro that[of "(fst c - 1, snd c)" "(fst c + 1, snd c)"]) (auto simp: node_def touching_def)
next
  case False
  then show ?thesis using assms by (intro that[of "(fst c, snd c - 1)" "(fst c, snd c + 1)"]) (auto simp: node_def touching_def)
qed

lemma two_around: "finite F \<Longrightarrow> {a, b} \<subseteq> around F c \<Longrightarrow> a \<noteq> b \<Longrightarrow> 2 \<le> card (around F c)"
  using card_mono[of "around F c" "{a, b}"] by simp

lemma passage_not_dead:
  assumes "lattice w h g" "c \<in> floor_set g" "\<not> node c"
  shows "2 \<le> card (around (floor_set g) c)"
proof -
  have c: "odd (fst c + snd c)" "\<forall>q. node q \<longrightarrow> touching c q \<longrightarrow> q \<in> floor_set g" using assms by (auto simp: lattice_def)
  obtain a b where "node a" "node b" "touching c a" "touching c b" "a \<noteq> b" using passage_nodes[OF c(1)] .
  then show ?thesis using c(2) by (intro two_around[of _ a b]) (auto simp: around_def)
qed

lemma node_exits:
  assumes "odd w" "odd h" "5 \<le> w" "5 \<le> h" "inside w h c" "node c"
  obtains a b where "touching c a" "touching c b" "inner w h a" "inner w h b" "a \<noteq> b"
proof -
  have c: "1 \<le> fst c" "fst c \<le> w - 2" "1 \<le> snd c" "snd c \<le> h - 2"
    using assms unfolding inside_def node_def by presburger+
  let ?a = "if fst c = 1 then (fst c + 1, snd c) else (fst c - 1, snd c)"
  let ?b = "if snd c = 1 then (fst c, snd c + 1) else (fst c, snd c - 1)"
  have "fst c = 1 \<or> 3 \<le> fst c" "snd c = 1 \<or> 3 \<le> snd c" using c assms(6) unfolding node_def by presburger+
  then show ?thesis using that[of ?a ?b] c assms(3,4) by (auto simp: touching_def inner_def split: if_splits)
qed

lemma dead_end_has_wall:
  assumes "lattice w h g" "odd w" "odd h" "5 \<le> w" "5 \<le> h" "c \<in> floor_set g" "card (around (floor_set g) c) = 1"
  shows "wall_around g c \<noteq> []" "node c"
proof -
  have g: "grid_ok w h g" using assms(1) by (simp add: lattice_def)
  show c: "node c" using passage_not_dead[OF assms(1,6)] assms(7) by fastforce
  obtain a b where ab: "touching c a" "touching c b" "inner w h a" "inner w h b" "a \<noteq> b"
    using node_exits[OF assms(2-5) floor_set_inside[OF g assms(6)] c] .
  have "a \<notin> floor_set g \<or> b \<notin> floor_set g" using two_around[of "floor_set g" a b c] ab assms(7) by (auto simp: around_def)
  then have "a \<in> set (wall_around g c) \<or> b \<in> set (wall_around g c)" using ab set_wall_around[OF g, of _ c] assms(5) by auto
  then show "wall_around g c \<noteq> []" by auto
qed

text \<open>Opening a wall next to a dead end keeps the lattice and makes no new dead end.\<close>

lemma lattice_open:
  assumes L: "lattice w h g" and h: "0 < h" and c: "c \<in> floor_set g" "node c" and n: "n \<in> set (wall_around g c)"
  defines "g' \<equiv> set_cell n FLOOR g"
  shows "floor_set g' = insert n (floor_set g)" "lattice w h g'" "2 \<le> card (around (floor_set g') n)"
proof -
  have g: "grid_ok w h g" using L by (simp add: lattice_def)
  note nn = wall_around_laws[OF g h n]
  show F: "floor_set g' = insert n (floor_set g)" unfolding g'_def using nn(3) by (rule floor_set_floor)
  have odd_n: "odd (fst n + snd n)" using touching_parity[OF touching_sym[OF nn(1)]] c(2) by (auto simp: node_def)
  have ends: "q \<in> floor_set g" if "node q" "touching n q" for q
  proof -
    have "inside w h q" using nn(2) that(2) unfolding inner_def inside_def touching_def by linarith
    then show ?thesis using L that(1) by (auto simp: lattice_def)
  qed
  have "around (floor_set g') d \<noteq> {}" if "d \<in> floor_set g'" for d
    using that L c(1) touching_sym[OF nn(1)] unfolding F lattice_def around_def by blast
  moreover have "grid_ok w h g'" unfolding g'_def using g by (simp add: grid_ok_set)
  ultimately show "lattice w h g'" using L odd_n ends unfolding lattice_def F by blast
  obtain a b where "node a" "node b" "touching n a" "touching n b" "a \<noteq> b" using passage_nodes[OF odd_n] .
  then show "2 \<le> card (around (floor_set g') n)" using ends F by (intro two_around[of _ a b]) (auto simp: around_def)
qed

lemma opened_not_dead:
  assumes L: "lattice w h g" and h: "0 < h" and c: "c \<in> floor_set g" "node c" and n: "n \<in> set (wall_around g c)"
    and dead: "\<forall>d \<in> floor_set g. card (around (floor_set g) d) = 1 \<longrightarrow> d \<in> set (c # pending)"
    and d: "d \<in> floor_set (set_cell n FLOOR g)" "card (around (floor_set (set_cell n FLOOR g)) d) = 1"
  shows "d \<in> set pending"
proof -
  let ?F = "floor_set g" and ?G = "floor_set (set_cell n FLOOR g)"
  have g: "grid_ok w h g" using L by (simp add: lattice_def)
  note O = lattice_open[OF L h c n] and nn = wall_around_laws[OF g h n]
  have dF: "d \<in> ?F" using d O(1,3) by (cases "d = n") auto
  then have ne: "around ?F d \<noteq> {}" using L by (auto simp: lattice_def)
  have sub: "around ?F d \<subseteq> around ?G d" using O(1) by (auto simp: around_def)
  have "card (around ?F d) = 1" using ne card_mono[OF _ sub] d(2) by (simp add: card_gt_0_iff le_antisym Suc_leI)
  moreover have "d \<noteq> c"
  proof
    assume "d = c"
    obtain e where "e \<in> around ?F c" using ne \<open>d = c\<close> by blast
    then have "2 \<le> card (around ?G c)" using nn(1,4) O(1) by (intro two_around[of _ e n]) (auto simp: around_def)
    then show False using d(2) \<open>d = c\<close> by simp
  qed
  ultimately show ?thesis using dead dF by auto
qed

lemma braid_loop_clears:
  assumes odds: "odd w" "odd h" "5 \<le> w" "5 \<le> h"
    and "lattice w h g" "length pending \<le> left" "set pending \<subseteq> floor_set g"
    and "\<forall>d \<in> floor_set g. card (around (floor_set g) d) = 1 \<longrightarrow> d \<in> set pending"
  shows "\<exists>g' r'. braid_loop pending left g r = (Inr g', r') \<and> lattice w h g' \<and> (\<forall>d \<in> floor_set g'. card (around (floor_set g') d) \<noteq> 1)"
  using assms(5-8)
proof (induction pending left g arbitrary: r rule: braid_loop.induct)
  case (1 left g)
  then show ?case by (auto simp: ret_def)
next
  case (2 c pending left g)
  have g: "grid_ok w h g" and left: "left \<noteq> 0" and c: "c \<in> floor_set g" using "2.prems" by (auto simp: lattice_def)
  note len = length_floor_around[OF g, of c]
  show ?case
  proof (cases "card (around (floor_set g) c) = 1")
    case False
    then have "\<forall>d \<in> floor_set g. card (around (floor_set g) d) = 1 \<longrightarrow> d \<in> set pending" using "2.prems"(4) by auto
    then show ?thesis using "2.IH"(1)[OF left] False len left "2.prems" by simp
  next
    case True
    note W = dead_end_has_wall[OF "2.prems"(1) odds c True]
    obtain k r1 where k: "randrange (length (wall_around g c)) r = (Inr k, r1)" "k < length (wall_around g c)"
      using randrange_ok[of "length (wall_around g c)"] W(1) unfolding ok_def by blast
    have h: "0 < h" using odds by simp
    note O = lattice_open[OF "2.prems"(1) h c W(2) nth_mem[OF k(2)]]
    note clear = opened_not_dead[OF "2.prems"(1) h c W(2) nth_mem[OF k(2)] "2.prems"(4)]
    have pre: "length pending \<le> left - 1" "set pending \<subseteq> floor_set (set_cell (wall_around g c ! k) FLOOR g)"
        "\<forall>d \<in> floor_set (set_cell (wall_around g c ! k) FLOOR g). card (around (floor_set (set_cell (wall_around g c ! k) FLOOR g)) d) = 1 \<longrightarrow> d \<in> set pending"
      using "2.prems"(2,3) O(1) clear by auto
    obtain g' r' where "braid_loop pending (left - 1) (set_cell (wall_around g c ! k) FLOOR g) r1 = (Inr g', r')" "lattice w h g'"
        "\<forall>d \<in> floor_set g'. card (around (floor_set g') d) \<noteq> 1"
      using "2.IH"(3)[OF left _ refl W(1) O(2) pre, of r1] True len by auto
    then show ?thesis using True len left W(1) k(1) by (simp add: sbind_def Let_def)
  qed
qed

section \<open>Full braids\<close>

lemma maze_lattice:
  assumes inv: "maze_inv w h s g []" and s: "node s" and size: "4 \<le> w" "4 \<le> h"
  shows "lattice w h g"
proof -
  let ?F = "floor_set g"
  note spans = maze_spans[OF inv s]
  have J: "joined ?F" using inv grown_joined by (auto simp: maze_inv_def)
  have "around ?F c \<noteq> {}" if "c \<in> ?F" for c
  proof -
    have "(1, 1) \<in> ?F" "(3, 1) \<in> ?F" using spans[of "(1, 1)"] spans[of "(3, 1)"] size by (simp_all add: inside_def node_def)
    moreover have "(1, 1) \<noteq> (3 :: int, 1 :: int)" by simp
    ultimately obtain d where "d \<in> ?F" "d \<noteq> c" by metis
    then have "(c, d) \<in> (steps_in ?F)\<^sup>*" using J that by (simp add: joined_def)
    then show ?thesis using \<open>d \<noteq> c\<close> by (cases rule: converse_rtranclE) (auto simp: steps_in_def around_def)
  qed
  then show ?thesis using inv spans unfolding lattice_def maze_inv_def by blast
qed

lemma length_dead_ends: "grid_ok w h g \<Longrightarrow> 0 < h \<Longrightarrow> length (dead_ends g) \<le> nat w * nat h"
proof -
  assume g: "grid_ok w h g" and h: "0 < h"
  have "g ! 0 \<in> set g" using g h by (simp add: grid_ok_def)
  then have "length (g ! 0) = nat w" "length g = nat h" using g by (simp_all add: grid_ok_def)
  then have "length [(int x, int y). y \<leftarrow> [0..<length g], x \<leftarrow> [0..<length (g ! 0)]] = nat w * nat h"
    by (simp add: length_concat comp_def sum_list_triv)
  then show ?thesis unfolding dead_ends_def by (intro order_trans[OF length_filter_le]) simp
qed

lemma braid_target_full: "1 \<le> ratio \<Longrightarrow> int n \<le> 2 ^ 53 \<Longrightarrow> braid_target n ratio = int n"
  using rnd_int[of "int n"] rhe_int[of "int n"] by (simp add: braid_target_def min_def)

lemma braid_clears:
  assumes odds: "odd w" "odd h" "5 \<le> w" "5 \<le> h" and L: "lattice w h g" and size: "w * h \<le> 2 ^ 53" and ratio: "1 \<le> ratio"
  shows "\<exists>g' r'. braid ratio g r = (Inr g', r') \<and> dead_ends g' = []"
proof -
  have g: "grid_ok w h g" using L by (simp add: lattice_def)
  have h: "0 < h" using odds by simp
  have "int (length (dead_ends g)) \<le> w * h"
  proof -
    have "int (length (dead_ends g)) \<le> int (nat w * nat h)" using length_dead_ends[OF g h] by (rule of_nat_mono)
    also have "\<dots> = w * h" using odds by simp
    finally show ?thesis .
  qed
  then have target: "braid_target (length (dead_ends g)) ratio = int (length (dead_ends g))"
    using size ratio by (intro braid_target_full) simp_all
  show ?thesis
  proof (cases "dead_ends g = []")
    case True
    then show ?thesis using ratio target by (simp add: braid_def Let_def ret_def)
  next
    case False
    define ds where "ds = sort_key fst (sort_key snd (dead_ends g))"
    obtain p r1 where p: "shuffle ds r = (Inr p, r1)" "mset p = mset ds" using shuffle_ok[of ds] unfolding ok_def by blast
    have ps: "set p = set (dead_ends g)" "length p = length (dead_ends g)"
      using p(2) by (metis ds_def set_mset_mset set_sort, metis ds_def length_sort size_mset)
    obtain g' r' where "braid_loop p (length (dead_ends g)) g r1 = (Inr g', r')" "lattice w h g'"
        "\<forall>d \<in> floor_set g'. card (around (floor_set g') d) \<noteq> 1"
      using braid_loop_clears[OF odds L, of p "length (dead_ends g)" r1] ps in_dead_ends[OF g] by (metis order_refl subsetI)
    moreover from this have "dead_ends g' = []" using in_dead_ends[of w h g'] unfolding lattice_def by (metis list.set_intros(1) neq_Nil_conv)
    ultimately show ?thesis using ratio False target p(1) by (simp add: braid_def Let_def sbind_def ds_def[symmetric])
  qed
qed

text \<open>
  A depth-first interior of odd size, at least five by five, braided with a ratio of one or more has no
  dead end left, for every seed.
\<close>
theorem full_braid_leaves_no_dead_end:
  assumes "odd w" "odd h" "5 \<le> w" "5 \<le> h" "w * h \<le> 2 ^ 53" "1 \<le> ratio"
  shows "\<exists>g. generate_interior rng_of ''depthfirst'' w h seed ratio NoParams = Inr g \<and> dead_ends g = []"
proof -
  obtain g r' s where g: "gen_depthfirst w h (rng_of seed) = (Inr g, r')" "maze_inv w h s g []" "node s"
    using gen_depthfirst_run[of w h "rng_of seed"] assms(3,4) by auto
  have "lattice w h g" using maze_lattice[OF g(2,3)] assms(3,4) by simp
  from braid_clears[OF assms(1-4) this assms(5,6), of "rng_of (seed XOR 0x5EED)"]
  show ?thesis using g(1) assms(6) by (auto simp: generate_interior_def run_algorithm_def ALGORITHMS_def)
qed

theorem full_braid_leaves_no_dead_end_witness:
  "\<exists>g. generate_interior (\<lambda>s. [nat \<bar>s\<bar>, 5, 3]) ''depthfirst'' 7 5 11 1 NoParams = Inr g \<and> dead_ends g = []"
  by (rule full_braid_leaves_no_dead_end) simp_all

end
