(* ===== verification/Projection.thy ===== *)
theory Projection
  imports Prelude
begin

text \<open>
  The per-player projection of events (src/sidequest/game/projection, game/projection_filter.py): which
  recipients an event reaches and with which of its fields. The payload of an event is a JSON object; a
  JSON text is the object it holds or, when it holds none, itself. The view of the game state a filter
  asks is a record of functions, one per method of the protocol.
\<close>

section \<open>JSON\<close>

datatype json =
    JNull
  | JBool bool
  | JNum rat
  | JStr string
  | JList "json list"
  | JObj "(string \<times> json) list"

type_synonym dict = "(string \<times> json) list"

datatype json_text = Text dict | NotAnObject string

text \<open>\<open>json.loads\<close> and \<open>json.dumps\<close> on payloads, which are objects.\<close>

fun loads :: "json_text \<Rightarrow> dict res" where
  "loads (Text d) = Inr d"
| "loads (NotAnObject s) = Inl (ValueError ''not a JSON object'')"

definition dumps :: "dict \<Rightarrow> json_text" where "dumps = Text"

text \<open>\<open>d.get(key)\<close>, where a missing key reads as \<open>None\<close>, and the truth value of a JSON value.\<close>

definition jget :: "dict \<Rightarrow> string \<Rightarrow> json" where
  "jget d k = dict_get d k JNull"

fun truthy :: "json \<Rightarrow> bool" where
  "truthy JNull = False"
| "truthy (JBool b) = b"
| "truthy (JNum x) = (x \<noteq> 0)"
| "truthy (JStr s) = (s \<noteq> [])"
| "truthy (JList xs) = (xs \<noteq> [])"
| "truthy (JObj d) = (d \<noteq> [])"

text \<open>A value whose \<open>.get\<close> is called: other than objects have none.\<close>

fun as_dict :: "json \<Rightarrow> dict res" where
  "as_dict (JObj d) = Inr d"
| "as_dict v = Inl (AttributeError ''object has no attribute get'')"

section \<open>Envelopes, decisions and views\<close>

record message_envelope =
  env_kind :: string
  env_payload :: json_text
  origin_seq :: "int option"

record filter_decision =
  fd_include :: bool
  fd_payload :: json_text

definition excluded :: filter_decision where
  "excluded = \<lparr>fd_include = False, fd_payload = NotAnObject []\<rparr>"

definition included :: "json_text \<Rightarrow> filter_decision" where
  "included p = \<lparr>fd_include = True, fd_payload = p\<rparr>"

record game_state_view =
  seat_of :: "string \<Rightarrow> string option"
  character_of :: "string \<Rightarrow> string option"
  zone_of :: "string \<Rightarrow> string option"
  view_visible_to :: "string \<Rightarrow> string \<Rightarrow> bool"
  owner_of_item :: "string \<Rightarrow> string option"
  party_of :: "string \<Rightarrow> string option"

record session_game_state_view =
  player_id_to_character :: "(string \<times> string) list"
  party_id :: "string option"
  seat_assignments :: "(string \<times> string) list"
  character_zones :: "(string \<times> string) list"
  hidden_characters :: "string list"

definition session_visible_to :: "session_game_state_view \<Rightarrow> string \<Rightarrow> string \<Rightarrow> bool" where
  "session_visible_to v viewer target =
     (if target \<in> set (hidden_characters v) then False
      else case (map_of (character_zones v) viewer, map_of (character_zones v) target) of
        (Some a, Some b) \<Rightarrow> a = b
      | _ \<Rightarrow> False)"

definition session_party_of :: "session_game_state_view \<Rightarrow> string \<Rightarrow> string option" where
  "session_party_of v player_id = (if dict_has (player_id_to_character v) player_id then party_id v else None)"

definition session_view :: "session_game_state_view \<Rightarrow> game_state_view" where
  "session_view v = \<lparr>seat_of = map_of (seat_assignments v), character_of = map_of (player_id_to_character v),
     zone_of = map_of (character_zones v), view_visible_to = session_visible_to v, owner_of_item = (\<lambda>_. None),
     party_of = session_party_of v\<rparr>"

section \<open>Field paths\<close>

definition is_lower :: "char \<Rightarrow> bool" where "is_lower c \<longleftrightarrow> 97 \<le> (of_char c :: nat) \<and> (of_char c :: nat) \<le> 122"
definition is_upper :: "char \<Rightarrow> bool" where "is_upper c \<longleftrightarrow> 65 \<le> (of_char c :: nat) \<and> (of_char c :: nat) \<le> 90"
definition is_digit :: "char \<Rightarrow> bool" where "is_digit c \<longleftrightarrow> 48 \<le> (of_char c :: nat) \<and> (of_char c :: nat) \<le> 57"

definition name_start :: "char \<Rightarrow> bool" where "name_start c \<longleftrightarrow> is_lower c \<or> is_upper c \<or> c = CHR ''_''"
definition name_char :: "char \<Rightarrow> bool" where "name_char c \<longleftrightarrow> name_start c \<or> is_digit c"

definition is_name :: "string \<Rightarrow> bool" where
  "is_name s \<longleftrightarrow> s \<noteq> [] \<and> name_start (hd s) \<and> list_all name_char s"

text \<open>\<open>s.split(c)\<close>.\<close>

fun split_at_char :: "char \<Rightarrow> string \<Rightarrow> string list" where
  "split_at_char c [] = [[]]"
| "split_at_char c (x # xs) =
     (if x = c then [] # split_at_char c xs
      else case split_at_char c xs of [] \<Rightarrow> [[x]] | y # ys \<Rightarrow> (x # y) # ys)"

type_synonym segment = "string \<times> bool"

text \<open>A segment: a name, \<open>[*]\<close> when it ranges over a list; \<open>$\<close> also matches before a final newline.\<close>

definition parse_segment :: "string \<Rightarrow> segment res" where
  "parse_segment seg =
     (let s = (if seg \<noteq> [] \<and> List.last seg = CHR 0x0A then butlast seg else seg);
          starred = length s \<ge> 3 \<and> drop (length s - 3) s = ''[*]'';
          name = (if starred then take (length s - 3) s else s)
      in if is_name name then Inr (name, starred) else Inl (ValueError ''invalid field path segment''))"

definition parse_path :: "string \<Rightarrow> segment list res" where
  "parse_path path = rmap parse_segment (split_at_char (CHR ''.'') path)"

fun read_step :: "segment \<Rightarrow> json \<Rightarrow> json list" where
  "read_step (name, is_list) (JObj d) =
     (case map_of d name of
        None \<Rightarrow> []
      | Some v \<Rightarrow> if is_list then (case v of JList xs \<Rightarrow> xs | _ \<Rightarrow> []) else [v])"
| "read_step s v = []"

definition read_path :: "dict \<Rightarrow> string \<Rightarrow> json list res" where
  "read_path payload path = rbind (parse_path path) (\<lambda>segs.
     Inr (fold (\<lambda>seg current. concat (map (read_step seg) current)) segs [JObj payload]))"

text \<open>The value a mask leaves at the last segment, and the masked tree.\<close>

definition masked_leaf :: "bool \<Rightarrow> json \<Rightarrow> json \<Rightarrow> json" where
  "masked_leaf is_list mk v =
     (case v of JList xs \<Rightarrow> if is_list then JList (map (\<lambda>_. mk) xs) else mk | _ \<Rightarrow> mk)"

fun mask_at :: "segment list \<Rightarrow> json \<Rightarrow> json \<Rightarrow> json" where
  "mask_at [] mk node = node"
| "mask_at ((name, is_list) # rest) mk node =
     (case node of
        JObj d \<Rightarrow> (case map_of d name of
            None \<Rightarrow> JObj d
          | Some v \<Rightarrow>
              if rest = [] then JObj (AList.update name (masked_leaf is_list mk v) d)
              else if is_list then (case v of JList xs \<Rightarrow> JObj (AList.update name (JList (map (mask_at rest mk) xs)) d) | _ \<Rightarrow> JObj d)
              else JObj (AList.update name (mask_at rest mk v) d))
      | _ \<Rightarrow> node)"

fun mask_dict :: "segment list \<Rightarrow> json \<Rightarrow> dict \<Rightarrow> dict" where
  "mask_dict segs mk d = (case mask_at segs mk (JObj d) of JObj d' \<Rightarrow> d' | _ \<Rightarrow> d)"

definition apply_mask :: "string \<Rightarrow> json \<Rightarrow> dict \<Rightarrow> dict res" where
  "apply_mask path mk payload = rbind (parse_path path) (\<lambda>segs. Inr (mask_dict segs mk payload))"

section \<open>Rules\<close>

record predicate_call =
  predicate :: string
  call_arg :: "string option"

text \<open>\<open>PredicateCall.parse\<close>: \<open>name(arg)\<close>, the argument without newlines.\<close>

definition parse_call :: "string \<Rightarrow> predicate_call res" where
  "parse_call expr =
     (let s = strip expr;
          name = takeWhile (\<lambda>c. is_lower c \<or> is_digit c \<or> c = CHR ''_'') s;
          rest = drop (length name) s
      in if name \<noteq> [] \<and> \<not> is_digit (hd name) \<and> 2 \<le> length rest \<and> hd rest = CHR ''('' \<and> List.last rest = CHR '')'' \<and>
            CHR 0x0A \<notin> set rest
         then let arg = strip (butlast (tl rest)) in
           Inr \<lparr>predicate = name, call_arg = (if arg = [] then None else Some arg)\<rparr>
         else Inl (ValueError ''invalid predicate expression''))"

record redact_spec =
  rs_field :: string
  rs_unless :: predicate_call
  rs_mask :: json

datatype projection_rule =
    TargetOnlyRule string string
  | IncludeIfRule string predicate_call
  | RedactFieldsRule string "redact_spec list"
  | VisibilityTagRule string

fun rule_kind :: "projection_rule \<Rightarrow> string" where
  "rule_kind (TargetOnlyRule k f) = k"
| "rule_kind (IncludeIfRule k c) = k"
| "rule_kind (RedactFieldsRule k ss) = k"
| "rule_kind (VisibilityTagRule k) = k"

text \<open>The check that a raw rule carries exactly one action.\<close>

definition check_raw_rule :: "json \<Rightarrow> unit res" where
  "check_raw_rule r =
     (case r of
        JObj d \<Rightarrow>
          if length (filter (dict_has d) [''target_only'', ''include_if'', ''redact_fields'', ''visibility_tag'']) \<noteq> 1
          then Inl (ValueError ''rule must carry exactly one of target_only/include_if/redact_fields/visibility_tag'')
          else Inr ()
      | _ \<Rightarrow> Inl (ValueError ''rule entry must be a mapping''))"

definition disambiguate_rule_variants :: "json \<Rightarrow> json res" where
  "disambiguate_rule_variants data =
     (case data of
        JObj d \<Rightarrow> (case jget d ''rules'' of
            JList raw \<Rightarrow> rbind (rmap check_raw_rule raw) (\<lambda>_. Inr (JObj d))
          | _ \<Rightarrow> Inr data)
      | _ \<Rightarrow> Inr data)"

section \<open>Predicates\<close>

record predicate_context =
  ctx_view :: game_state_view
  ctx_payload :: dict
  viewer_player_id :: string
  viewer_character_id :: "string option"

definition read_field :: "dict \<Rightarrow> string option \<Rightarrow> json" where
  "read_field payload field_ref = (case field_ref of None \<Rightarrow> JNull | Some f \<Rightarrow> jget payload f)"

definition is_self :: "predicate_context \<Rightarrow> string option \<Rightarrow> bool" where
  "is_self ctx f = (let value = read_field (ctx_payload ctx) f in
     if value = JNull then False
     else case viewer_character_id ctx of None \<Rightarrow> False | Some c \<Rightarrow> value = JStr c)"

definition is_owner_of :: "predicate_context \<Rightarrow> string option \<Rightarrow> bool" where
  "is_owner_of ctx f =
     (case read_field (ctx_payload ctx) f of
        JStr item_id \<Rightarrow> owner_of_item (ctx_view ctx) item_id = Some (viewer_player_id ctx)
      | _ \<Rightarrow> False)"

definition in_same_zone :: "predicate_context \<Rightarrow> string option \<Rightarrow> bool" where
  "in_same_zone ctx f =
     (case (read_field (ctx_payload ctx) f, viewer_character_id ctx) of
        (JStr target, Some viewer) \<Rightarrow>
          (case (zone_of (ctx_view ctx) viewer, zone_of (ctx_view ctx) target) of (Some a, Some b) \<Rightarrow> a = b | _ \<Rightarrow> False)
      | _ \<Rightarrow> False)"

definition visible_to :: "predicate_context \<Rightarrow> string option \<Rightarrow> bool" where
  "visible_to ctx f =
     (case (read_field (ctx_payload ctx) f, viewer_character_id ctx) of
        (JStr target, Some viewer) \<Rightarrow> view_visible_to (ctx_view ctx) viewer target
      | _ \<Rightarrow> False)"

definition in_same_party :: "predicate_context \<Rightarrow> string option \<Rightarrow> bool" where
  "in_same_party ctx f =
     (case read_field (ctx_payload ctx) f of
        JStr target \<Rightarrow>
          (case (party_of (ctx_view ctx) (viewer_player_id ctx), party_of (ctx_view ctx) target) of
             (Some a, Some b) \<Rightarrow> a = b | _ \<Rightarrow> False)
      | _ \<Rightarrow> False)"

definition PREDICATES :: "(string \<times> (predicate_context \<Rightarrow> string option \<Rightarrow> bool)) list" where
  "PREDICATES = [(''is_self'', is_self), (''is_owner_of'', is_owner_of), (''in_same_zone'', in_same_zone),
     (''visible_to'', visible_to), (''in_same_party'', in_same_party)]"

section \<open>The structural stage\<close>

definition TARGETED_KINDS :: "(string \<times> string) list" where
  "TARGETED_KINDS = [(''DICE_REQUEST'', ''to''), (''JOURNAL_RESPONSE'', ''to'')]"

definition VISIBILITY_GATED_KINDS :: "string list" where
  "VISIBILITY_GATED_KINDS = [''SECRET_NOTE'', ''NARRATION_SEGMENT'']"

definition SELF_AUTHORED_KINDS :: "string list" where
  "SELF_AUTHORED_KINDS = [''PLAYER_ACTION'', ''DICE_THROW'', ''BEAT_SELECTION'', ''CHARACTER_CREATION'']"

definition PLAYER_EXCLUDED_KINDS :: "string list" where
  "PLAYER_EXCLUDED_KINDS = [''THINKING'']"

definition match_to_field :: "json \<Rightarrow> string \<Rightarrow> bool" where
  "match_to_field to_value player_id =
     (case to_value of JStr s \<Rightarrow> s = player_id | JList xs \<Rightarrow> JStr player_id \<in> set xs | _ \<Rightarrow> False)"

text \<open>\<open>viz.get("visible_to") if isinstance(viz, dict) else None\<close>.\<close>

definition sidecar_visible_to :: "dict \<Rightarrow> json" where
  "sidecar_visible_to payload = (case jget payload ''_visibility'' of JObj viz \<Rightarrow> jget viz ''visible_to'' | _ \<Rightarrow> JNull)"

definition listed :: "string \<Rightarrow> json \<Rightarrow> bool" where
  "listed player_id v = (case v of JList xs \<Rightarrow> JStr player_id \<in> set xs | _ \<Rightarrow> False)"

definition is_jlist :: "json \<Rightarrow> bool" where
  "is_jlist v = (case v of JList xs \<Rightarrow> True | _ \<Rightarrow> False)"

definition gate :: "bool \<Rightarrow> json_text \<Rightarrow> filter_decision" where
  "gate b p = (if b then included p else excluded)"

text \<open>A terminal outcome is a decision with its source; no outcome sends the event to the rules.\<close>

definition core_evaluate :: "message_envelope \<Rightarrow> string \<Rightarrow> (filter_decision \<times> string) option res" where
  "core_evaluate env player_id =
     (let kind = env_kind env; p = env_payload env in
      if dict_has TARGETED_KINDS kind then
        rbind (loads p) (\<lambda>payload. Inr (Some (gate (match_to_field (jget payload (dict_get TARGETED_KINDS kind [])) player_id) p,
          ''invariant:targeted'')))
      else if kind \<in> set VISIBILITY_GATED_KINDS then
        rbind (loads p) (\<lambda>payload. let v = sidecar_visible_to payload in
          Inr (Some (gate (v = JStr ''all'' \<or> listed player_id v) p, ''invariant:visibility_gated'')))
      else rbind
        (if kind = ''NARRATION'' then
           rbind (loads p) (\<lambda>payload. let v = sidecar_visible_to payload in Inr (is_jlist v \<and> \<not> listed player_id v))
         else Inr False)
        (\<lambda>narration_excluded.
          if narration_excluded then Inr (Some (excluded, ''invariant:narration_visibility_list''))
          else if kind \<in> set SELF_AUTHORED_KINDS then
            rbind (loads p) (\<lambda>payload. Inr (Some (gate (jget payload ''author_player_id'' = JStr player_id) p, ''invariant:self_echo'')))
          else if kind \<in> set PLAYER_EXCLUDED_KINDS then Inr (Some (excluded, ''invariant:player_excluded_kind''))
          else Inr None))"

section \<open>The rule stage\<close>

definition span_kind :: "dict \<Rightarrow> json" where
  "span_kind sp = dict_get sp ''kind'' (JStr ''full'')"

definition keep_span :: "string \<Rightarrow> dict \<Rightarrow> bool" where
  "keep_span fidelity sp =
     (if fidelity = ''audio_only'' \<or> fidelity = ''audio_only_muffled'' then span_kind sp \<noteq> JStr ''visual_only''
      else if fidelity = ''visual_only'' then span_kind sp \<noteq> JStr ''audio_only''
      else if fidelity = ''periphery_only'' then truthy (jget sp ''periphery_tolerant'')
      else if fidelity = ''inferred_from_aftermath'' then truthy (jget sp ''aftermath'')
      else True)"

definition muffle :: "dict \<Rightarrow> dict" where
  "muffle sp = (if jget sp ''kind'' = JStr ''audio_only'' then AList.update ''muffled'' (JBool True) sp else sp)"

text \<open>
  \<open>_apply_fidelity\<close>: \<open>None\<close> when it returns its argument, the new dictionary otherwise. A fidelity that is
  not a string equals no bucket and keeps every span.
\<close>

definition fidelity_name :: "json \<Rightarrow> string" where
  "fidelity_name v = (case v of JStr s \<Rightarrow> s | _ \<Rightarrow> [])"

definition apply_fidelity :: "dict \<Rightarrow> string \<Rightarrow> dict option res" where
  "apply_fidelity payload fidelity =
     (if fidelity = ''full'' then Inr None
      else case jget payload ''spans'' of
        JList spans \<Rightarrow> rbind (rmap as_dict spans) (\<lambda>ds.
          let kept = filter (keep_span fidelity) ds;
              out = (if fidelity = ''audio_only_muffled'' then map muffle kept else kept)
          in Inr (Some (AList.update ''spans'' (JList (map JObj out)) payload)))
      | _ \<Rightarrow> Inr None)"

text \<open>
  The loop state. \<open>own\<close> is \<open>None\<close> while \<open>working\<close> and \<open>payload\<close> are one dictionary; after a fidelity
  pass \<open>working\<close> is a copy that shares its values with \<open>payload\<close>, but for the keys in \<open>own\<close>.
\<close>

record stage_state =
  st_payload :: dict
  st_working :: dict
  st_own :: "string list option"
  last_applied :: "nat option"

definition mask_state :: "segment list \<Rightarrow> json \<Rightarrow> stage_state \<Rightarrow> stage_state" where
  "mask_state segs mk s =
     (let w = mask_dict segs mk (st_working s) in
      case st_own s of
        None \<Rightarrow> s\<lparr>st_payload := w, st_working := w\<rparr>
      | Some own \<Rightarrow>
          let name = fst (hd segs) in
          if length segs = 1 then s\<lparr>st_working := w, st_own := Some (name # own)\<rparr>
          else if name \<in> set own then s\<lparr>st_working := w\<rparr>
          else s\<lparr>st_working := w, st_payload := mask_dict segs mk (st_payload s)\<rparr>)"

definition context_for :: "game_state_view \<Rightarrow> string \<Rightarrow> dict \<Rightarrow> predicate_context" where
  "context_for view player_id payload =
     \<lparr>ctx_view = view, ctx_payload = payload, viewer_player_id = player_id, viewer_character_id = character_of view player_id\<rparr>"

definition run_predicate :: "game_state_view \<Rightarrow> string \<Rightarrow> dict \<Rightarrow> predicate_call \<Rightarrow> bool res" where
  "run_predicate view player_id payload c =
     (case map_of PREDICATES (predicate c) of
        None \<Rightarrow> Inl (RuntimeError ''unknown predicate at runtime'')
      | Some pred \<Rightarrow> Inr (pred (context_for view player_id payload) (call_arg c)))"

text \<open>The redactions of one rule. The context they share is the payload dictionary itself, so a later
  predicate reads what an earlier mask left there.\<close>

definition redact_step :: "game_state_view \<Rightarrow> string \<Rightarrow> nat \<Rightarrow> redact_spec \<Rightarrow> stage_state \<Rightarrow> stage_state res" where
  "redact_step view player_id idx spec s =
     rbind (run_predicate view player_id (st_payload s) (rs_unless spec)) (\<lambda>ok.
       if ok then Inr s
       else rbind (parse_path (rs_field spec)) (\<lambda>segs.
         Inr ((mask_state segs (rs_mask spec) s)\<lparr>last_applied := Some idx\<rparr>)))"

text \<open>One rule: \<open>Inl idx\<close> inside the result when it drops the event.\<close>

datatype step_result = Dropped nat | Goes stage_state

definition visibility_step :: "string \<Rightarrow> nat \<Rightarrow> stage_state \<Rightarrow> step_result res" where
  "visibility_step player_id idx s =
     (case jget (st_payload s) ''_visibility'' of
        JObj viz \<Rightarrow>
          let v = jget viz ''visible_to'' in
          if v \<noteq> JStr ''all'' \<and> \<not> listed player_id v then Inr (Dropped idx)
          else let fidelity = jget viz ''fidelity'' in
            rbind (if truthy fidelity then as_dict fidelity else Inr []) (\<lambda>fidelity_map.
              let player_fidelity = jget fidelity_map player_id in
              if truthy player_fidelity then
                rbind (apply_fidelity (st_working s) (fidelity_name player_fidelity)) (\<lambda>copy.
                  Inr (Goes (case copy of
                    None \<Rightarrow> s\<lparr>last_applied := Some idx\<rparr>
                  | Some w \<Rightarrow> s\<lparr>st_working := w, st_own := Some (''spans'' # (case st_own s of None \<Rightarrow> [] | Some own \<Rightarrow> own)),
                      last_applied := Some idx\<rparr>)))
              else Inr (Goes s))
      | _ \<Rightarrow> Inr (Goes s))"

fun rule_step :: "game_state_view \<Rightarrow> string \<Rightarrow> nat \<times> projection_rule \<Rightarrow> stage_state \<Rightarrow> step_result res" where
  "rule_step view player_id (idx, VisibilityTagRule k) s = visibility_step player_id idx s"
| "rule_step view player_id (idx, TargetOnlyRule k f) s =
     Inr (if match_to_field (jget (st_payload s) f) player_id then Goes s else Dropped idx)"
| "rule_step view player_id (idx, IncludeIfRule k c) s =
     rbind (run_predicate view player_id (st_payload s) c) (\<lambda>ok. Inr (if ok then Goes s else Dropped idx))"
| "rule_step view player_id (idx, RedactFieldsRule k specs) s =
     rbind (rfold (redact_step view player_id idx) specs s) (\<lambda>s'. Inr (Goes s'))"

fun run_rules :: "game_state_view \<Rightarrow> string \<Rightarrow> (nat \<times> projection_rule) list \<Rightarrow> stage_state \<Rightarrow> (filter_decision \<times> nat option) res" where
  "run_rules view player_id [] s = Inr (included (dumps (st_working s)), last_applied s)"
| "run_rules view player_id (r # rs) s =
     rbind (rule_step view player_id r s) (\<lambda>res.
       case res of Dropped idx \<Rightarrow> Inr (excluded, Some idx) | Goes s' \<Rightarrow> run_rules view player_id rs s')"

definition rules_for :: "projection_rule list \<Rightarrow> string \<Rightarrow> (nat \<times> projection_rule) list" where
  "rules_for rules kind = filter (\<lambda>(i, r). rule_kind r = kind) (enumerate 0 rules)"

definition stage_start :: "dict \<Rightarrow> stage_state" where
  "stage_start payload = \<lparr>st_payload = payload, st_working = payload, st_own = None, last_applied = None\<rparr>"

definition genre_evaluate ::
  "projection_rule list \<Rightarrow> game_state_view \<Rightarrow> string \<Rightarrow> message_envelope \<Rightarrow> (filter_decision \<times> nat option) res" where
  "genre_evaluate rules view player_id env =
     (let rs = rules_for rules (env_kind env) in
      if rs = [] then Inr (included (env_payload env), None)
      else rbind (loads (env_payload env)) (\<lambda>payload. run_rules view player_id rs (stage_start payload)))"

section \<open>The composed filter\<close>

definition format_genre_source :: "string option \<Rightarrow> string \<Rightarrow> nat option \<Rightarrow> string" where
  "format_genre_source pack_slug kind matched =
     (case matched of
        None \<Rightarrow> ''default:pass_through''
      | Some i \<Rightarrow> ''genre:'' @ (case pack_slug of Some s \<Rightarrow> if s = [] then ''<unknown>'' else s | None \<Rightarrow> ''<unknown>'') @
          ''/'' @ kind @ ''/'' @ show_nat i)"

text \<open>The decision with the rule source the trace records.\<close>

definition project ::
  "projection_rule list \<Rightarrow> string option \<Rightarrow> game_state_view \<Rightarrow> string \<Rightarrow> message_envelope \<Rightarrow> (filter_decision \<times> string) res" where
  "project rules pack_slug view player_id env =
     rbind (core_evaluate env player_id) (\<lambda>outcome.
       case outcome of
         Some r \<Rightarrow> Inr r
       | None \<Rightarrow> rbind (genre_evaluate rules view player_id env) (\<lambda>(d, matched).
           Inr (d, format_genre_source pack_slug (env_kind env) matched)))"

definition pass_through :: "message_envelope \<Rightarrow> filter_decision" where
  "pass_through env = included (env_payload env)"

end
