(* ===== verification/Projection_Pipeline.thy ===== *)
theory Projection_Pipeline
  imports Projection
begin

text \<open>
  What surrounds the projection filter: the semantic check of a pack's rules (projection/validator.py),
  the view built from the session (server/views.py), the fan-out of one event with its companions and the
  perception pass (server/emitters.py, server/session_handler.py, agents/perception_rewriter.py), and the
  decision cache with its lazy fill and pruning (projection/cache.py, cache_fill.py, game/pg/events.py).
\<close>

section \<open>Schemas\<close>

text \<open>
  The annotations of a payload model: scalars, lists with or without an item type, models by their
  fields, root models by what they wrap, unions, and anything else.
\<close>

datatype ann =
    TNone
  | TStr
  | TBool
  | TNum
  | TOther string
  | TList "ann option"
  | TModel "(string \<times> ann) list"
  | TRoot ann
  | TUnion "ann list"

type_synonym schema = "(string \<times> ann) list"

definition unwrap_rootmodel :: "ann \<Rightarrow> ann" where
  "unwrap_rootmodel a = (case a of TRoot b \<Rightarrow> b | _ \<Rightarrow> a)"

definition unwrap_optional :: "ann \<Rightarrow> ann" where
  "unwrap_optional a =
     (case a of
        TUnion as \<Rightarrow> if TNone \<in> set as then (case filter (\<lambda>b. b \<noteq> TNone) as of [b] \<Rightarrow> b | _ \<Rightarrow> a) else a
      | _ \<Rightarrow> a)"

definition unwrap_type :: "ann \<Rightarrow> ann" where
  "unwrap_type a = unwrap_rootmodel (unwrap_optional a)"

text \<open>The fields of a model class; a root model is one, with the field \<open>root\<close>.\<close>

definition model_fields :: "ann \<Rightarrow> (string \<times> ann) list option" where
  "model_fields a = (case a of TModel fs \<Rightarrow> Some fs | TRoot b \<Rightarrow> Some [(''root'', b)] | _ \<Rightarrow> None)"

definition dict_update :: "schema \<Rightarrow> schema \<Rightarrow> schema" where
  "dict_update d e = fold (\<lambda>kv. AList.update (fst kv) (snd kv)) e d"

text \<open>The fields a field's type contributes, with the path between; the type the field itself is listed with.\<close>

definition nested_fields :: "ann \<Rightarrow> (string \<times> (string \<times> ann) list) option" where
  "nested_fields t =
     (case t of
        TList (Some item) \<Rightarrow> map_option (Pair ''[*].'') (model_fields (unwrap_type item))
      | _ \<Rightarrow> map_option (Pair ''.'') (model_fields t))"

definition plain_entries :: "string \<Rightarrow> ann \<Rightarrow> schema" where
  "plain_entries key t = (case t of TList (Some item) \<Rightarrow> [(key @ ''[*]'', unwrap_type item), (key, TList None)] | _ \<Rightarrow> [(key, t)])"

definition own_type :: "ann \<Rightarrow> ann" where
  "own_type t = (case t of TList i \<Rightarrow> TList None | _ \<Rightarrow> t)"

definition weight :: "(string \<times> ann) list \<Rightarrow> nat" where
  "weight fs = sum_list (map (\<lambda>f. size (snd f) + 1) fs)"

lemma weight_model_fields: "model_fields a = Some fs \<Longrightarrow> weight fs \<le> size a"
proof (cases a)
  case (TModel gs)
  have "weight gs \<le> size_list (size_prod (\<lambda>_. 0) size) gs"
    by (induction gs) (auto simp: weight_def)
  moreover assume "model_fields a = Some fs"
  ultimately show ?thesis using TModel by (simp add: model_fields_def)
qed (auto simp: model_fields_def weight_def)

lemma size_unwrap: "size (unwrap_type a) \<le> size a"
proof -
  have root: "size (unwrap_rootmodel b) \<le> size b" for b by (cases b) (simp_all add: unwrap_rootmodel_def)
  have "size (unwrap_optional a) \<le> size a"
  proof (cases a)
    case (TUnion as)
    have "size b \<le> size (TUnion as)" if "filter (\<lambda>b. b \<noteq> TNone) as = [b]" for b
    proof -
      have "b \<in> set (filter (\<lambda>b. b \<noteq> TNone) as)" unfolding that by simp
      then have "b \<in> set as" by simp
      then have "size b \<le> size_list size as" by (simp add: size_list_estimation')
      then show ?thesis by simp
    qed
    then show ?thesis using TUnion by (auto simp: unwrap_optional_def split: list.splits)
  qed (simp_all add: unwrap_optional_def)
  then show ?thesis unfolding unwrap_type_def using root[of "unwrap_optional a"] by simp
qed

lemma weight_nested: "nested_fields (unwrap_type a) = Some (sfx, fs) \<Longrightarrow> weight fs \<le> size a"
proof -
  assume n: "nested_fields (unwrap_type a) = Some (sfx, fs)"
  have "weight fs \<le> size (unwrap_type a)"
  proof (cases "\<exists>item. unwrap_type a = TList (Some item)")
    case True
    then obtain item where item: "unwrap_type a = TList (Some item)" by blast
    then have "weight fs \<le> size (unwrap_type item)" using n weight_model_fields by (auto simp: nested_fields_def)
    also have "\<dots> \<le> size item" by (rule size_unwrap)
    finally show ?thesis using item by simp
  next
    case False
    then show ?thesis using n weight_model_fields[of "unwrap_type a" fs] by (auto simp: nested_fields_def split: ann.splits option.splits)
  qed
  then show ?thesis using size_unwrap[of a] by simp
qed

function flatten_schema :: "string \<Rightarrow> (string \<times> ann) list \<Rightarrow> schema" where
  "flatten_schema prefix [] = []"
| "flatten_schema prefix ((name, a) # rest) =
     (let key = prefix @ name in
      dict_update
        (case nested_fields (unwrap_type a) of
           Some (sfx, fs) \<Rightarrow> dict_update (flatten_schema (key @ sfx) fs) [(key, own_type (unwrap_type a))]
         | None \<Rightarrow> plain_entries key (unwrap_type a))
        (flatten_schema prefix rest))"
  by pat_completeness auto
termination
proof (relation "measure (\<lambda>(p, fs). weight fs)", goal_cases)
  case (2 prefix name a rest key x sfx fs)
  then show ?case using weight_nested[of a sfx fs] by (simp add: weight_def)
qed (auto simp: weight_def)

text \<open>The payload schema of a kind: none for a kind without a message class.\<close>

type_synonym registry = "(string \<times> (string \<times> ann) list) list"

definition schema_fields_for_kind :: "registry \<Rightarrow> string \<Rightarrow> schema" where
  "schema_fields_for_kind reg kind = (case map_of reg kind of None \<Rightarrow> [] | Some fs \<Rightarrow> flatten_schema [] fs)"

section \<open>The semantic check\<close>

definition mask_is_compatible :: "json \<Rightarrow> ann \<Rightarrow> bool" where
  "mask_is_compatible mk field_type =
     (if mk = JNull then True
      else case unwrap_type field_type of
        TStr \<Rightarrow> (case mk of JStr s \<Rightarrow> True | _ \<Rightarrow> False)
      | TBool \<Rightarrow> (case mk of JBool b \<Rightarrow> True | _ \<Rightarrow> False)
      | TNum \<Rightarrow> (case mk of JNum x \<Rightarrow> True | JBool b \<Rightarrow> True | _ \<Rightarrow> False)
      | TList i \<Rightarrow> (case mk of JList xs \<Rightarrow> True | _ \<Rightarrow> False)
      | TModel fs \<Rightarrow> (case mk of JObj d \<Rightarrow> True | _ \<Rightarrow> False)
      | TRoot b \<Rightarrow> (case mk of JObj d \<Rightarrow> True | _ \<Rightarrow> False)
      | _ \<Rightarrow> True)"

definition invalid :: "string \<Rightarrow> 'a res" where
  "invalid what = Inl (ValueError what)"

definition check_predicate :: "schema \<Rightarrow> predicate_call \<Rightarrow> unit res" where
  "check_predicate sch c =
     (if \<not> dict_has PREDICATES (predicate c) then invalid ''unknown predicate''
      else case call_arg c of
        Some a \<Rightarrow> if dict_has sch a then Inr () else invalid ''predicate arg is not a field''
      | None \<Rightarrow> Inr ())"

type_synonym seen = "((string \<times> string) \<times> predicate_call) list"

definition check_redaction :: "string \<Rightarrow> schema \<Rightarrow> redact_spec \<Rightarrow> seen \<Rightarrow> seen res" where
  "check_redaction kind sch spec seen =
     (case map_of sch (rs_field spec) of
        None \<Rightarrow> invalid ''unknown field in redact_fields''
      | Some field_type \<Rightarrow>
          rbind (check_predicate sch (rs_unless spec)) (\<lambda>_.
            if \<not> mask_is_compatible (rs_mask spec) field_type then invalid ''type-incompatible mask''
            else case map_of seen (kind, rs_field spec) of
              Some c \<Rightarrow> if c \<noteq> rs_unless spec then invalid ''conflicting redactions''
                  else Inr (AList.update (kind, rs_field spec) (rs_unless spec) seen)
            | None \<Rightarrow> Inr (AList.update (kind, rs_field spec) (rs_unless spec) seen)))"

text \<open>The message types and the registry of message classes are arguments.\<close>

definition check_rule :: "string list \<Rightarrow> registry \<Rightarrow> projection_rule \<Rightarrow> seen \<Rightarrow> seen res" where
  "check_rule message_types reg rule seen =
     (let kind = rule_kind rule; sch = schema_fields_for_kind reg kind in
      if kind \<notin> set message_types then invalid ''unknown kind''
      else if \<not> dict_has reg kind then invalid ''not filter-reachable''
      else case rule of
        TargetOnlyRule k f \<Rightarrow> if dict_has sch f then Inr seen else invalid ''unknown field in target_only''
      | IncludeIfRule k c \<Rightarrow> rbind (check_predicate sch c) (\<lambda>_. Inr seen)
      | VisibilityTagRule k \<Rightarrow> Inr seen
      | RedactFieldsRule k specs \<Rightarrow> rfold (check_redaction kind sch) specs seen)"

definition validate_projection_rules :: "string list \<Rightarrow> registry \<Rightarrow> projection_rule list \<Rightarrow> unit res" where
  "validate_projection_rules message_types reg rules = rbind (rfold (check_rule message_types reg) rules []) (\<lambda>_. Inr ())"

definition REQUIRED_VISIBILITY_KINDS :: "string list" where
  "REQUIRED_VISIBILITY_KINDS = [''NARRATION'', ''SECRET_NOTE'']"

text \<open>One finding per required kind without a visibility rule; a finding is named by its kind.\<close>

definition validate_visibility_coverage :: "projection_rule list \<Rightarrow> string list" where
  "validate_visibility_coverage rules =
     filter (\<lambda>kind. \<not> (\<exists>r \<in> set rules. r = VisibilityTagRule kind)) REQUIRED_VISIBILITY_KINDS"

section \<open>The view of the session\<close>

definition HIDDEN_STATUS_TOKENS :: "string list" where
  "HIDDEN_STATUS_TOKENS = [''hidden'', ''invisible'', ''stealth'', ''concealed'']"

definition is_hidden_status_list :: "string list \<Rightarrow> bool" where
  "is_hidden_status_list texts \<longleftrightarrow> (\<exists>t \<in> set texts. lower t \<in> set HIDDEN_STATUS_TOKENS)"

text \<open>What the view reads of a snapshot: characters and others by name with their status texts, the
  locations of characters, the seats, and an NPC's own location.\<close>

record seen_character =
  sc_name :: string
  sc_statuses :: "string list"

record seen_npc =
  sn_name :: string
  sn_location :: "string option"
  sn_statuses :: "string list"

record seen_snapshot =
  ss_characters :: "seen_character list"
  ss_npcs :: "seen_npc list"
  character_locations :: "(string \<times> string) list"
  player_seats :: "(string \<times> string) list"

definition party_location :: "seen_snapshot \<Rightarrow> string option \<Rightarrow> string option" where
  "party_location snap perspective =
     (case perspective of
        Some p \<Rightarrow> if p = [] then None else map_of (character_locations snap) p
      | None \<Rightarrow>
          (case filter (\<lambda>n. n \<noteq> []) (map snd (player_seats snap)) of
             [] \<Rightarrow> None
           | seated \<Rightarrow>
               let locations = map (map_of (character_locations snap)) seated in
               if None \<in> set locations \<or> card (set locations) \<noteq> 1 then None else hd locations))"

definition player_mapping :: "string \<Rightarrow> (string \<times> string) list \<Rightarrow> seen_snapshot \<Rightarrow> (string \<times> string) list" where
  "player_mapping active slots snap =
     fold (\<lambda>sp m. if fst sp \<in> sc_name ` set (ss_characters snap) then AList.update (snd sp) (fst sp) m else m) slots
       (case ss_characters snap of [] \<Rightarrow> [] | c # cs \<Rightarrow> [(active, sc_name c)])"

definition character_zone :: "seen_snapshot \<Rightarrow> string option \<Rightarrow> string \<Rightarrow> string option" where
  "character_zone snap party_zone name =
     (case map_of (character_locations snap) name of Some z \<Rightarrow> if z \<noteq> [] then Some z else party_zone | None \<Rightarrow> party_zone)"

definition zone_map :: "seen_snapshot \<Rightarrow> (string \<times> string) list" where
  "zone_map snap =
     (let put = (\<lambda>name z m. case z of Some loc \<Rightarrow> AList.update name loc m | None \<Rightarrow> m) in
      fold (\<lambda>n. put (sn_name n) (case sn_location n of Some l \<Rightarrow> if l \<noteq> [] then Some l else None | None \<Rightarrow> None)) (ss_npcs snap)
        (fold (\<lambda>c. put (sc_name c) (character_zone snap (party_location snap None) (sc_name c))) (ss_characters snap) []))"

definition hidden_names :: "seen_snapshot \<Rightarrow> string list" where
  "hidden_names snap = map sc_name (filter (\<lambda>c. is_hidden_status_list (sc_statuses c)) (ss_characters snap)) @
     map sn_name (filter (\<lambda>n. is_hidden_status_list (sn_statuses n)) (ss_npcs snap))"

text \<open>\<open>slots\<close> is the room's map of slot names to players (empty without a room), \<open>None\<close> no session.\<close>

definition build_game_state_view :: "(string \<times> seen_snapshot) option \<Rightarrow> (string \<times> string) list \<Rightarrow> session_game_state_view" where
  "build_game_state_view session slots =
     (case session of
        None \<Rightarrow> \<lparr>player_id_to_character = [], party_id = None, seat_assignments = [], character_zones = [], hidden_characters = []\<rparr>
      | Some (active, snap) \<Rightarrow>
          \<lparr>player_id_to_character = player_mapping active slots snap, party_id = None, seat_assignments = [],
           character_zones = zone_map snap, hidden_characters = hidden_names snap\<rparr>)"

definition status_effects_by_player :: "(string \<times> seen_snapshot) option \<Rightarrow> (string \<times> string list) list" where
  "status_effects_by_player session =
     (case session of
        None \<Rightarrow> []
      | Some (active, snap) \<Rightarrow> (case ss_characters snap of [] \<Rightarrow> [] | c # cs \<Rightarrow> [(active, sc_statuses c)]))"

section \<open>Companions\<close>

datatype companion_relationship = PET | PEER | HIRELING

definition parse_companion_relationship :: "string \<Rightarrow> companion_relationship option" where
  "parse_companion_relationship raw =
     (if raw = ''pet'' then Some PET else if raw = ''peer'' then Some PEER else if raw = ''hireling'' then Some HIRELING else None)"

record session_room =
  player_identities :: "(string \<times> string) list"
  companion_bonds :: "(string \<times> string \<times> companion_relationship) list"

definition pets_of :: "session_room \<Rightarrow> string \<Rightarrow> string list" where
  "pets_of room owner =
     (case map_of (player_identities room) owner of
        None \<Rightarrow> []
      | Some i \<Rightarrow> map fst (filter (\<lambda>(cid, ident, rel). rel = PET \<and> ident = i) (companion_bonds room)))"

text \<open>The pets of one entry of \<open>visible_to\<close>; a value that cannot be a dictionary key raises.\<close>

fun pets_of_entry :: "session_room \<Rightarrow> json \<Rightarrow> string list res" where
  "pets_of_entry room (JStr owner) = Inr (pets_of room owner)"
| "pets_of_entry room (JList xs) = Inl (TypeError ''unhashable type'')"
| "pets_of_entry room (JObj d) = Inl (TypeError ''unhashable type'')"
| "pets_of_entry room v = Inr []"

definition widen :: "json list \<Rightarrow> string list \<Rightarrow> json list" where
  "widen xs pets = fold (\<lambda>p ys. if JStr p \<in> set ys then ys else ys @ [JStr p]) pets xs"

definition expand_visibility_for_companions :: "session_room option \<Rightarrow> message_envelope \<Rightarrow> message_envelope res" where
  "expand_visibility_for_companions room env =
     (case room of
        None \<Rightarrow> Inr env
      | Some rm \<Rightarrow>
          if env_kind env \<notin> set VISIBILITY_GATED_KINDS then Inr env
          else rbind (loads (env_payload env)) (\<lambda>payload.
            case jget payload ''_visibility'' of
              JObj viz \<Rightarrow>
                (case jget viz ''visible_to'' of
                   JList xs \<Rightarrow> rbind (rmap (pets_of_entry rm) xs) (\<lambda>pets.
                     let widened = widen xs (concat pets) in
                     if widened = xs then Inr env
                     else Inr (env\<lparr>env_payload := dumps (AList.update ''_visibility''
                       (JObj (AList.update ''visible_to'' (JList widened) viz)) payload)\<rparr>))
                 | _ \<Rightarrow> Inr env)
            | _ \<Rightarrow> Inr env))"

section \<open>The perception pass\<close>

definition STATUS_FIDELITY_OVERRIDE :: "(string \<times> string option) list" where
  "STATUS_FIDELITY_OVERRIDE = [(''blinded'', Some ''audio_only''), (''deafened'', Some ''visual_only''), (''invisible'', None)]"

fun fidelity_for :: "json \<Rightarrow> string list \<Rightarrow> json" where
  "fidelity_for base [] = base"
| "fidelity_for base (fx # fxs) =
     (case map_of STATUS_FIDELITY_OVERRIDE fx of Some (Some f) \<Rightarrow> JStr f | _ \<Rightarrow> fidelity_for base fxs)"

definition rewrite_for_recipient :: "string \<Rightarrow> (string \<times> string list) list \<Rightarrow> dict \<Rightarrow> dict res" where
  "rewrite_for_recipient viewer status_effects payload =
     (let viz = jget payload ''_visibility'' in
      rbind (if truthy viz then as_dict viz else Inr []) (\<lambda>v.
      let fid = jget v ''fidelity'' in
      rbind (if truthy fid then as_dict fid else Inr []) (\<lambda>m.
      let effective = fidelity_for (dict_get m viewer (JStr ''full'')) (dict_get status_effects viewer []) in
      case jget payload ''spans'' of
        JList spans \<Rightarrow>
          if effective = JStr ''full'' then Inr payload
          else rbind (rmap as_dict spans) (\<lambda>ds.
            Inr (AList.update ''spans'' (JList (map JObj (filter (keep_span (fidelity_name effective)) ds))) payload))
      | _ \<Rightarrow> Inr payload)))"

section \<open>Events, the decision cache and the fan-out\<close>

record event_row =
  ev_seq :: int
  ev_kind :: string
  ev_payload :: json_text

type_synonym cache = "((int \<times> string) \<times> bool \<times> json_text option) list"

record save_store =
  events :: "event_row list"
  projection_cache :: cache

definition latest_event_seq :: "save_store \<Rightarrow> int" where
  "latest_event_seq s = fold max (map ev_seq (events s)) 0"

definition append_event :: "string \<Rightarrow> json_text \<Rightarrow> (save_store, event_row) sm" where
  "append_event kind payload s =
     (let row = \<lparr>ev_seq = latest_event_seq s + 1, ev_kind = kind, ev_payload = payload\<rparr>
      in (Inr row, s\<lparr>events := events s @ [row]\<rparr>))"

definition read_events_since :: "int \<Rightarrow> save_store \<Rightarrow> event_row list" where
  "read_events_since since s = sort_key ev_seq (filter (\<lambda>r. since < ev_seq r) (events s))"

definition write_projection :: "int \<Rightarrow> string \<Rightarrow> filter_decision \<Rightarrow> save_store \<Rightarrow> save_store" where
  "write_projection seq pid d s = s\<lparr>projection_cache :=
     AList.update (seq, pid) (fd_include d, if fd_include d then Some (fd_payload d) else None) (projection_cache s)\<rparr>"

record cached_decision =
  cd_seq :: int
  cd_include :: bool
  cd_payload :: "json_text option"

definition read_projection_since :: "string \<Rightarrow> int \<Rightarrow> save_store \<Rightarrow> cached_decision list" where
  "read_projection_since pid since s =
     sort_key cd_seq (map (\<lambda>((q, p), i, b). \<lparr>cd_seq = q, cd_include = i, cd_payload = b\<rparr>)
       (filter (\<lambda>((q, p), _). p = pid \<and> since < q) (projection_cache s)))"

text \<open>\<open>prune_projection_cache\<close>: a row goes when its player has at least so many newer ones.\<close>

definition newer_rows :: "int \<times> string \<Rightarrow> cache \<Rightarrow> nat" where
  "newer_rows k c = length (filter (\<lambda>r. snd (fst r) = snd k \<and> fst k < fst (fst r)) c)"

definition prune_projection_cache :: "int \<Rightarrow> (save_store, nat) sm" where
  "prune_projection_cache keep s =
     (if keep < 1 then (Inl (ValueError ''keep_last_per_player must be >= 1''), s)
      else let c = projection_cache s; kept = filter (\<lambda>r. int (newer_rows (fst r) c) < keep) c
           in (Inr (length c - length kept), s\<lparr>projection_cache := kept\<rparr>))"

text \<open>A filter is a function from envelopes and players to decisions.\<close>

type_synonym projection_filter = "message_envelope \<Rightarrow> string \<Rightarrow> filter_decision res"

definition composed_filter :: "projection_rule list \<Rightarrow> string option \<Rightarrow> game_state_view \<Rightarrow> projection_filter" where
  "composed_filter rules slug view env pid = rbind (project rules slug view pid env) (\<lambda>(d, src). Inr d)"

definition envelope_of :: "event_row \<Rightarrow> message_envelope" where
  "envelope_of r = \<lparr>env_kind = ev_kind r, env_payload = ev_payload r, origin_seq = Some (ev_seq r)\<rparr>"

text \<open>Each row of the lazy fill commits on its own.\<close>

fun fill_rows :: "projection_filter \<Rightarrow> string \<Rightarrow> int list \<Rightarrow> event_row list \<Rightarrow> nat \<Rightarrow> (save_store, nat) sm" where
  "fill_rows flt pid present [] n s = (Inr n, s)"
| "fill_rows flt pid present (r # rs) n s =
     (if ev_seq r \<in> set present then fill_rows flt pid present rs n s
      else case flt (envelope_of r) pid of
        Inl e \<Rightarrow> (Inl e, s)
      | Inr d \<Rightarrow> fill_rows flt pid present rs (n + 1) (write_projection (ev_seq r) pid d s))"

definition lazy_fill :: "projection_filter \<Rightarrow> string \<Rightarrow> (save_store, nat) sm" where
  "lazy_fill flt pid s = fill_rows flt pid (map cd_seq (read_projection_since pid 0 s)) (read_events_since 0 s) 0 s"

definition project_frames :: "projection_filter \<Rightarrow> message_envelope \<Rightarrow> string list \<Rightarrow> (string \<times> filter_decision) list res" where
  "project_frames flt env players = rmap (\<lambda>pid. rbind (flt env pid) (\<lambda>d. Inr (pid, d))) players"

text \<open>The frame of a recipient before the prose is put in its point of view: \<open>None\<close> for none.\<close>

definition recipient_frame :: "(string \<times> string list) list \<Rightarrow> string \<times> filter_decision \<Rightarrow> (string \<times> dict option) res" where
  "recipient_frame effects pd =
     (if fd_include (snd pd) then
        rbind (loads (fd_payload (snd pd))) (\<lambda>d. rbind (rewrite_for_recipient (fst pd) effects d) (\<lambda>d'. Inr (fst pd, Some d')))
      else Inr (fst pd, None))"

definition write_decisions :: "int \<Rightarrow> (string \<times> filter_decision) list \<Rightarrow> save_store \<Rightarrow> save_store" where
  "write_decisions seq ds s = fold (\<lambda>pd. write_projection seq (fst pd) (snd pd)) ds s"

text \<open>The peers of the emitter, and the emitter itself when its own frame is projected.\<close>

definition recipients :: "string list \<Rightarrow> string option \<Rightarrow> bool \<Rightarrow> string list" where
  "recipients connected_ids emitter project_emitter =
     filter (\<lambda>p. Some p \<noteq> emitter) connected_ids @ (case emitter of Some e \<Rightarrow> if project_emitter then [e] else [] | None \<Rightarrow> [])"

text \<open>
  The turn transaction of \<open>emit_event\<close>: the event and the decisions of all recipients are written
  together, and an exception leaves the store as it was. The session has a room, a filter and a cache;
  the census and the rewriting of the prose into the recipient's person, which the code does in the same
  transaction, are left out. An emitter whose own frame is none gets the
  canonical payload back.
\<close>

definition emit_fanout ::
  "projection_filter \<Rightarrow> session_room option \<Rightarrow> (string \<times> string list) list \<Rightarrow> string \<Rightarrow> json_text \<Rightarrow> string list \<Rightarrow> string option \<Rightarrow> bool
   \<Rightarrow> (save_store, int \<times> (string \<times> dict option) list) sm" where
  "emit_fanout flt room effects kind payload connected_ids emitter project_emitter s =
     (case append_event kind payload s of
        (Inl e, s1) \<Rightarrow> (Inl e, s)
      | (Inr row, s1) \<Rightarrow>
          (case rbind (expand_visibility_for_companions room (envelope_of row)) (\<lambda>env.
               rbind (project_frames flt env (recipients connected_ids emitter project_emitter)) (\<lambda>ds.
               rbind (rmap (recipient_frame effects) ds) (\<lambda>frames. Inr (ds, frames)))) of
             Inl e \<Rightarrow> (Inl e, s)
           | Inr (ds, frames) \<Rightarrow> (Inr (ev_seq row, frames), write_decisions (ev_seq row) ds s1)))"

end
