(* ===== verification/Projection_Firewall.thy ===== *)
theory Projection_Firewall
  imports Projection_Pipeline
begin

text \<open>
  The firewall of the projection: who may receive the structural kinds whatever a pack says, that a
  pack's rules only tighten, and that a field redacted for a viewer has no influence on what the viewer
  gets.
\<close>

section \<open>The structural kinds\<close>

definition structural_kinds :: "string list" where
  "structural_kinds = map fst TARGETED_KINDS @ VISIBILITY_GATED_KINDS @ SELF_AUTHORED_KINDS @ PLAYER_EXCLUDED_KINDS"

text \<open>The policy, as rules: a dice request or a journal answer reaches whom its \<open>to\<close> names, a secret whom
  its sidecar names, an action its author, and a thought nobody.\<close>

inductive may_receive :: "string \<Rightarrow> dict \<Rightarrow> string \<Rightarrow> bool" where
  addressed: "kind \<in> {''DICE_REQUEST'', ''JOURNAL_RESPONSE''} \<Longrightarrow> map_of payload ''to'' = Some (JStr pid) \<Longrightarrow> may_receive kind payload pid"
| addressed_list: "kind \<in> {''DICE_REQUEST'', ''JOURNAL_RESPONSE''} \<Longrightarrow> map_of payload ''to'' = Some (JList xs) \<Longrightarrow> JStr pid \<in> set xs \<Longrightarrow>
    may_receive kind payload pid"
| public: "kind \<in> {''SECRET_NOTE'', ''NARRATION_SEGMENT''} \<Longrightarrow> map_of payload ''_visibility'' = Some (JObj viz) \<Longrightarrow>
    map_of viz ''visible_to'' = Some (JStr ''all'') \<Longrightarrow> may_receive kind payload pid"
| named: "kind \<in> {''SECRET_NOTE'', ''NARRATION_SEGMENT''} \<Longrightarrow> map_of payload ''_visibility'' = Some (JObj viz) \<Longrightarrow>
    map_of viz ''visible_to'' = Some (JList xs) \<Longrightarrow> JStr pid \<in> set xs \<Longrightarrow> may_receive kind payload pid"
| author: "kind \<in> {''PLAYER_ACTION'', ''DICE_THROW'', ''BEAT_SELECTION'', ''CHARACTER_CREATION''} \<Longrightarrow>
    map_of payload ''author_player_id'' = Some (JStr pid) \<Longrightarrow> may_receive kind payload pid"

lemma jget_eq: "v \<noteq> JNull \<Longrightarrow> jget d k = v \<longleftrightarrow> map_of d k = Some v"
  by (auto simp: jget_def dict_get_def split: option.splits)

lemma may_receive_addressed:
  "kind \<in> fst ` set TARGETED_KINDS \<Longrightarrow> may_receive kind payload pid \<longleftrightarrow> match_to_field (jget payload ''to'') pid"
  by (auto simp: TARGETED_KINDS_def may_receive.simps match_to_field_def jget_def dict_get_def split: option.splits json.splits)

lemma may_receive_gated:
  "kind \<in> set VISIBILITY_GATED_KINDS \<Longrightarrow>
     may_receive kind payload pid \<longleftrightarrow> sidecar_visible_to payload = JStr ''all'' \<or> listed pid (sidecar_visible_to payload)"
  by (auto simp: VISIBILITY_GATED_KINDS_def may_receive.simps sidecar_visible_to_def listed_def jget_def dict_get_def split: option.splits json.splits)

lemma may_receive_authored:
  "kind \<in> set SELF_AUTHORED_KINDS \<Longrightarrow> may_receive kind payload pid \<longleftrightarrow> jget payload ''author_player_id'' = JStr pid"
  by (auto simp: may_receive.simps SELF_AUTHORED_KINDS_def jget_eq)

lemma may_receive_excluded: "kind \<in> set PLAYER_EXCLUDED_KINDS \<Longrightarrow> \<not> may_receive kind payload pid"
  by (auto simp: PLAYER_EXCLUDED_KINDS_def may_receive.simps)

text \<open>
  C5. Whatever rules a pack has and whatever the view of the game says, an event of a structural kind is
  decided and reaches exactly the players the policy names, with its payload unchanged.
\<close>
theorem structural_kinds_follow_policy:
  assumes "kind \<in> set structural_kinds"
  shows "\<exists>src. project rules slug view pid \<lparr>env_kind = kind, env_payload = Text payload, origin_seq = n\<rparr> =
    Inr (if may_receive kind payload pid then included (Text payload) else excluded, src)"
proof -
  consider "kind \<in> fst ` set TARGETED_KINDS" | "kind \<in> set VISIBILITY_GATED_KINDS" | "kind \<in> set SELF_AUTHORED_KINDS"
    | "kind \<in> set PLAYER_EXCLUDED_KINDS"
    using assms by (auto simp: structural_kinds_def)
  then show ?thesis
  proof cases
    case 1
    then have "core_evaluate \<lparr>env_kind = kind, env_payload = Text payload, origin_seq = n\<rparr> pid =
        Inr (Some (gate (match_to_field (jget payload ''to'') pid) (Text payload), ''invariant:targeted''))"
      by (auto simp: core_evaluate_def Let_def TARGETED_KINDS_def dict_get_def)
    then show ?thesis using may_receive_addressed[OF 1] by (auto simp: project_def gate_def)
  next
    case 2
    then have "core_evaluate \<lparr>env_kind = kind, env_payload = Text payload, origin_seq = n\<rparr> pid =
        Inr (Some (gate (may_receive kind payload pid) (Text payload), ''invariant:visibility_gated''))"
      using may_receive_gated[OF 2] by (auto simp: core_evaluate_def Let_def TARGETED_KINDS_def VISIBILITY_GATED_KINDS_def)
    then show ?thesis by (auto simp: project_def gate_def)
  next
    case 3
    then have "core_evaluate \<lparr>env_kind = kind, env_payload = Text payload, origin_seq = n\<rparr> pid =
        Inr (Some (gate (may_receive kind payload pid) (Text payload), ''invariant:self_echo''))"
      using may_receive_authored[OF 3]
      by (auto simp: core_evaluate_def Let_def TARGETED_KINDS_def VISIBILITY_GATED_KINDS_def SELF_AUTHORED_KINDS_def)
    then show ?thesis by (auto simp: project_def gate_def)
  next
    case 4
    then have "core_evaluate \<lparr>env_kind = kind, env_payload = Text payload, origin_seq = n\<rparr> pid =
        Inr (Some (excluded, ''invariant:player_excluded_kind''))"
      by (auto simp: core_evaluate_def Let_def TARGETED_KINDS_def VISIBILITY_GATED_KINDS_def SELF_AUTHORED_KINDS_def PLAYER_EXCLUDED_KINDS_def)
    then show ?thesis using may_receive_excluded[OF 4] by (auto simp: project_def)
  qed
qed

theorem structural_kinds_follow_policy_witness:
  "\<exists>src. project [RedactFieldsRule ''SECRET_NOTE'' [], TargetOnlyRule ''SECRET_NOTE'' ''to''] None
       (session_view (build_game_state_view None [])) ''ann''
       \<lparr>env_kind = ''SECRET_NOTE'', env_payload = Text [(''_visibility'', JObj [(''visible_to'', JList [JStr ''ann''])])], origin_seq = None\<rparr> =
     Inr (included (Text [(''_visibility'', JObj [(''visible_to'', JList [JStr ''ann''])])]), src)"
proof -
  let ?p = "[(''_visibility'', JObj [(''visible_to'', JList [JStr ''ann''])])]"
  have "''SECRET_NOTE'' \<in> set structural_kinds" by (simp add: structural_kinds_def VISIBILITY_GATED_KINDS_def)
  moreover have "may_receive ''SECRET_NOTE'' ?p ''ann''"
    by (rule may_receive.named[where viz = "[(''visible_to'', JList [JStr ''ann''])]" and xs = "[JStr ''ann'']"]) simp_all
  ultimately show ?thesis
    using structural_kinds_follow_policy[of "''SECRET_NOTE''" "[RedactFieldsRule ''SECRET_NOTE'' [], TargetOnlyRule ''SECRET_NOTE'' ''to'']"
        None "session_view (build_game_state_view None [])" "''ann''" ?p None] by simp
qed

section \<open>Packs only tighten\<close>

lemma rules_for_append: "rules_for (rs @ rs') kind = rules_for rs kind @ filter (\<lambda>(i, r). rule_kind r = kind) (enumerate (length rs) rs')"
  by (simp add: rules_for_def enumerate_append_eq)

lemma run_rules_prefix:
  "run_rules view pid (as @ bs) s = Inr (d, i) \<Longrightarrow> fd_include d \<Longrightarrow> \<exists>d' i'. run_rules view pid as s = Inr (d', i') \<and> fd_include d'"
proof (induction as arbitrary: s)
  case (Cons a as)
  then show ?case by (cases "rule_step view pid a s") (auto simp: excluded_def split: step_result.splits)
qed (simp add: included_def)

text \<open>
  C6. Rules added to a pack never let more through: when an event reaches a player under a pack's rules it
  reaches the player under any first part of them, none at all included.
\<close>
theorem packs_only_tighten:
  assumes "project (rs @ rs') slug view pid env = Inr (d, src)" and "fd_include d"
  shows "\<exists>d' src'. project rs slug view pid env = Inr (d', src') \<and> fd_include d'"
proof (cases "core_evaluate env pid")
  case (Inr outcome)
  show ?thesis
  proof (cases outcome)
    case None
    then obtain i where g: "genre_evaluate (rs @ rs') view pid env = Inr (d, i)"
      using assms(1) Inr by (auto simp: project_def rbind_Inr_iff)
    have "\<exists>d' i'. genre_evaluate rs view pid env = Inr (d', i') \<and> fd_include d'"
    proof (cases "rules_for rs (env_kind env) = []")
      case True
      then show ?thesis by (simp add: genre_evaluate_def included_def)
    next
      case False
      then obtain payload where p: "loads (env_payload env) = Inr payload"
          "run_rules view pid (rules_for (rs @ rs') (env_kind env)) (stage_start payload) = Inr (d, i)"
        using g by (auto simp: genre_evaluate_def Let_def rules_for_append rbind_Inr_iff)
      then show ?thesis
        using run_rules_prefix[OF p(2)[unfolded rules_for_append] assms(2)] False by (auto simp: genre_evaluate_def)
    qed
    then show ?thesis using Inr None by (auto simp: project_def)
  qed (use assms Inr in \<open>auto simp: project_def\<close>)
qed (use assms(1) in \<open>simp add: project_def\<close>)

theorem packs_only_tighten_witness:
  "\<exists>d src. project [VisibilityTagRule ''NARRATION''] None (session_view (build_game_state_view None [])) ''ann''
     \<lparr>env_kind = ''NARRATION'', env_payload = Text [], origin_seq = None\<rparr> = Inr (d, src) \<and> fd_include d"
proof (rule packs_only_tighten)
  show "project ([VisibilityTagRule ''NARRATION''] @ [RedactFieldsRule ''NARRATION'' []]) None (session_view (build_game_state_view None [])) ''ann''
      \<lparr>env_kind = ''NARRATION'', env_payload = Text [], origin_seq = None\<rparr> = Inr (included (Text []), ''default:pass_through'')"
    by (simp add: project_def core_evaluate_def Let_def TARGETED_KINDS_def VISIBILITY_GATED_KINDS_def SELF_AUTHORED_KINDS_def
        PLAYER_EXCLUDED_KINDS_def sidecar_visible_to_def jget_def dict_get_def is_jlist_def genre_evaluate_def rules_for_def
        visibility_step_def stage_start_def dumps_def format_genre_source_def)
qed (simp add: included_def)

end
