(* ===== verification/Projection_Redaction.thy ===== *)
theory Projection_Redaction
  imports Projection_Firewall
begin

text \<open>
  Noninterference of redaction: two runs on payloads that differ in one redacted field take the same
  steps, and the field is gone before anything is delivered.
\<close>

declare split_paired_All [simp del] split_paired_Ex [simp del]

section \<open>Payloads that differ in one field\<close>

definition same_entry :: "string \<Rightarrow> string \<times> json \<Rightarrow> string \<times> json \<Rightarrow> bool" where
  "same_entry f a b \<longleftrightarrow> fst a = fst b \<and> (fst a \<noteq> f \<longrightarrow> a = b)"

definition agree_off :: "string \<Rightarrow> dict \<Rightarrow> dict \<Rightarrow> bool" where
  "agree_off f d e \<longleftrightarrow> list_all2 (same_entry f) d e"

lemma agree_off_Cons [simp]: "agree_off f (a # d) (b # e) \<longleftrightarrow> same_entry f a b \<and> agree_off f d e"
  by (simp add: agree_off_def)

lemma agree_off_refl [simp]: "agree_off f d d"
  by (simp add: agree_off_def list_all2_refl same_entry_def)

lemma agree_off_induct [consumes 1, case_names Nil Cons]:
  assumes "agree_off f d e" "P [] []" "\<And>a d b e. same_entry f a b \<Longrightarrow> agree_off f d e \<Longrightarrow> P d e \<Longrightarrow> P (a # d) (b # e)"
  shows "P d e"
  using assms(1) unfolding agree_off_def
proof (induction rule: list_all2_induct)
  case (Cons a d b e)
  then show ?case using assms(3)[of a b d e] by (simp add: agree_off_def)
qed (rule assms(2))

lemma same_entry_fst: "same_entry f a b \<Longrightarrow> fst b = fst a"
  by (simp add: same_entry_def)

lemma same_entry_eq: "same_entry f a b \<Longrightarrow> fst a \<noteq> f \<Longrightarrow> b = a"
  by (simp add: same_entry_def)

lemma agree_off_keys: "agree_off f d e \<Longrightarrow> map fst d = map fst e"
  by (induction rule: agree_off_induct) (simp_all add: same_entry_fst)

lemma agree_off_map_of: "agree_off f d e \<Longrightarrow> k \<noteq> f \<Longrightarrow> map_of d k = map_of e k"
proof (induction rule: agree_off_induct)
  case (Cons a d b e)
  then show ?case using same_entry_fst[OF Cons.hyps(1)] same_entry_eq[OF Cons.hyps(1)] by (cases "fst a = k") simp_all
qed simp

lemma agree_off_jget: "agree_off f d e \<Longrightarrow> k \<noteq> f \<Longrightarrow> jget d k = jget e k"
  by (simp add: jget_def dict_get_def agree_off_map_of)

lemma update_Cons: "AList.update k v (a # d) = (if fst a = k then (k, v) # d else a # AList.update k v d)"
  by (cases a) simp

lemma agree_off_update: "agree_off f d e \<Longrightarrow> agree_off f (AList.update k v d) (AList.update k v e)"
proof (induction rule: agree_off_induct)
  case (Cons a d b e)
  then show ?case using same_entry_fst[OF Cons.hyps(1)] by (simp add: update_Cons same_entry_def)
qed simp

lemma agree_off_absent: "agree_off f d e \<Longrightarrow> f \<notin> fst ` set d \<Longrightarrow> d = e"
proof (induction rule: agree_off_induct)
  case (Cons a d b e)
  then have "b = a" "d = e" using same_entry_eq[OF Cons.hyps(1)] by auto
  then show ?case by simp
qed simp

lemma agree_off_masked: "agree_off f d e \<Longrightarrow> distinct (map fst d) \<Longrightarrow> AList.update f v d = AList.update f v e"
proof (induction rule: agree_off_induct)
  case (Cons a d b e)
  show ?case
  proof (cases "fst a = f")
    case True
    then have "f \<notin> fst ` set d" using Cons.prems by auto
    then have "d = e" using agree_off_absent[OF Cons.hyps(2)] by simp
    then show ?thesis using True same_entry_fst[OF Cons.hyps(1)] by (simp add: update_Cons)
  next
    case False
    then show ?thesis using Cons same_entry_eq[OF Cons.hyps(1)] by (simp add: update_Cons)
  qed
qed simp

section \<open>Masks\<close>

text \<open>Masking touches the first name of its path only, and what it leaves there depends on what was there only.\<close>

definition masked_value :: "segment list \<Rightarrow> json \<Rightarrow> json \<Rightarrow> json option" where
  "masked_value segs mk v =
     (if tl segs = [] then Some (masked_leaf (snd (hd segs)) mk v)
      else if snd (hd segs) then (case v of JList xs \<Rightarrow> Some (JList (map (mask_at (tl segs) mk) xs)) | _ \<Rightarrow> None)
      else Some (mask_at (tl segs) mk v))"

lemma mask_dict_form:
  assumes "segs \<noteq> []"
  shows "mask_dict segs mk d = (case Option.bind (map_of d (fst (hd segs))) (masked_value segs mk) of
    None \<Rightarrow> d | Some u \<Rightarrow> AList.update (fst (hd segs)) u d)"
proof -
  obtain name is_list rest where segs: "segs = (name, is_list) # rest" using assms by (metis list.exhaust surj_pair)
  show ?thesis
    by (cases "map_of d name") (simp_all add: segs masked_value_def split: json.splits)
qed

declare mask_dict.simps [simp del]

lemma mask_dict_agree:
  assumes "agree_off f d e" "segs \<noteq> []" "fst (hd segs) \<noteq> f"
  shows "agree_off f (mask_dict segs mk d) (mask_dict segs mk e)"
  unfolding mask_dict_form[OF assms(2)] agree_off_map_of[OF assms(1,3)]
  using assms(1) agree_off_update by (cases "Option.bind (map_of e (fst (hd segs))) (masked_value segs mk)") auto

lemma mask_dict_whole: "mask_dict [(f, False)] mk d = (if f \<in> fst ` set d then AList.update f mk d else d)"
proof -
  have "masked_leaf False mk v = mk" for v by (cases v) (simp_all add: masked_leaf_def)
  then show ?thesis by (cases "map_of d f") (simp_all add: mask_dict_form masked_value_def map_of_dom)
qed

lemma mask_whole_agree:
  assumes "agree_off f d e" "distinct (map fst d)"
  shows "mask_dict [(f, False)] mk d = mask_dict [(f, False)] mk e"
proof (cases "f \<in> fst ` set d")
  case True
  then have "f \<in> fst ` set e" using agree_off_keys[OF assms(1)] by (metis set_map)
  then show ?thesis using True agree_off_masked[OF assms] by (simp add: mask_dict_whole)
next
  case False
  then show ?thesis using agree_off_absent[OF assms(1)] by simp
qed

lemma mask_dict_other: "segs \<noteq> [] \<Longrightarrow> k \<noteq> fst (hd segs) \<Longrightarrow> map_of (mask_dict segs mk d) k = map_of d k"
  by (cases "Option.bind (map_of d (fst (hd segs))) (masked_value segs mk)") (simp_all add: mask_dict_form update_conv')

lemma mask_dict_keys: "segs \<noteq> [] \<Longrightarrow> map fst (mask_dict segs mk d) = map fst d"
proof -
  assume segs: "segs \<noteq> []"
  have "map fst (AList.update k u d) = map fst d" if "map_of d k \<noteq> None" for k u
    using that by (induction d) (auto split: if_splits)
  then show ?thesis
    by (cases "Option.bind (map_of d (fst (hd segs))) (masked_value segs mk)") (auto simp: mask_dict_form[OF segs] Option.bind_eq_Some_conv)
qed

lemma split_at_char_nonempty: "split_at_char c s \<noteq> []"
  by (induction s) (auto split: list.splits)

lemma parse_path_nonempty: "parse_path path = Inr segs \<Longrightarrow> segs \<noteq> []"
  using rmap_length[of parse_segment "split_at_char (CHR ''.'') path" segs] split_at_char_nonempty[of "CHR ''.''" path]
  by (auto simp: parse_path_def)

section \<open>Related runs\<close>

definition related :: "string \<Rightarrow> stage_state \<Rightarrow> stage_state \<Rightarrow> bool" where
  "related f s t \<longleftrightarrow> agree_off f (st_payload s) (st_payload t) \<and> agree_off f (st_working s) (st_working t) \<and>
     distinct (map fst (st_payload s)) \<and> distinct (map fst (st_working s)) \<and> st_own s = st_own t \<and> last_applied s = last_applied t"

text \<open>A mask on another field, or on the whole field, keeps two states related; the second makes their deliverables equal.\<close>

lemma mask_state_related:
  assumes r: "related f s t" and segs: "segs \<noteq> []" "fst (hd segs) = f \<longrightarrow> segs = [(f, False)]"
  shows "related f (mask_state segs mk s) (mask_state segs mk t)"
    and "st_working s = st_working t \<or> fst (hd segs) = f \<Longrightarrow> st_working (mask_state segs mk s) = st_working (mask_state segs mk t)"
proof -
  have agree: "agree_off f (mask_dict segs mk d) (mask_dict segs mk e)" if "agree_off f d e" "distinct (map fst d)" for d e
  proof (cases "fst (hd segs) = f")
    case True
    then show ?thesis using segs(2) mask_whole_agree[OF that, of mk] by simp
  qed (rule mask_dict_agree[OF that(1) segs(1)])
  show "related f (mask_state segs mk s) (mask_state segs mk t)"
    using r agree[of "st_payload s" "st_payload t"] agree[of "st_working s" "st_working t"] mask_dict_keys[OF segs(1)]
    by (cases "st_own t") (simp_all add: related_def mask_state_def Let_def)
  have W: "st_working (mask_state segs mk u) = mask_dict segs mk (st_working u)" for u
    by (auto simp: mask_state_def Let_def split: option.splits)
  show "st_working (mask_state segs mk s) = st_working (mask_state segs mk t)" if "st_working s = st_working t \<or> fst (hd segs) = f"
    unfolding W using that
  proof
    assume "fst (hd segs) = f"
    then show "mask_dict segs mk (st_working s) = mask_dict segs mk (st_working t)"
      using segs(2) r mask_whole_agree[of f "st_working s" "st_working t" mk] by (simp add: related_def)
  qed simp
qed

section \<open>Rules that keep a field private\<close>

fun reads :: "string \<Rightarrow> projection_rule \<Rightarrow> bool" where
  "reads f (TargetOnlyRule k g) \<longleftrightarrow> g = f"
| "reads f (IncludeIfRule k c) \<longleftrightarrow> call_arg c = Some f"
| "reads f (RedactFieldsRule k specs) \<longleftrightarrow> (\<exists>sp \<in> set specs. call_arg (rs_unless sp) = Some f)"
| "reads f (VisibilityTagRule k) \<longleftrightarrow> f = ''_visibility'' \<or> f = ''spans''"

definition path_head :: "string \<Rightarrow> string option" where
  "path_head path = (case parse_path path of Inr segs \<Rightarrow> Some (fst (hd segs)) | Inl e \<Rightarrow> None)"

fun specs_of :: "projection_rule \<Rightarrow> redact_spec list" where
  "specs_of (RedactFieldsRule k specs) = specs"
| "specs_of r = []"

text \<open>
  The rules keep \<open>f\<close> private under the call \<open>c\<close>: none reads it, every mask that starts at it covers it
  whole, and no mask touches the field the call asks about.
\<close>

definition keeps_private :: "string \<Rightarrow> predicate_call \<Rightarrow> projection_rule \<Rightarrow> bool" where
  "keeps_private f c r \<longleftrightarrow> \<not> reads f r \<and>
     (\<forall>sp \<in> set (specs_of r). (path_head (rs_field sp) = Some f \<longrightarrow> rs_field sp = f) \<and>
        (path_head (rs_field sp) = None \<or> path_head (rs_field sp) \<noteq> call_arg c))"

lemma context_for_sels:
  "ctx_view (context_for view pid d) = view" "ctx_payload (context_for view pid d) = d"
  "viewer_player_id (context_for view pid d) = pid" "viewer_character_id (context_for view pid d) = character_of view pid"
  by (simp_all add: context_for_def)

lemma run_predicate_cong:
  assumes "read_field d (call_arg c) = read_field e (call_arg c)"
  shows "run_predicate view pid d c = run_predicate view pid e c"
proof -
  have "\<forall>n pred. (n, pred) \<in> set PREDICATES \<longrightarrow> pred (context_for view pid d) (call_arg c) = pred (context_for view pid e) (call_arg c)"
    unfolding PREDICATES_def list.set insert_iff empty_iff prod.inject
    by (intro allI impI; elim disjE conjE FalseE)
      (simp_all only: is_self_def is_owner_of_def in_same_zone_def visible_to_def in_same_party_def context_for_sels assms)
  then show ?thesis unfolding run_predicate_def by (auto split: option.splits dest: map_of_SomeD)
qed

lemma run_predicate_agree:
  "agree_off f d e \<Longrightarrow> call_arg c \<noteq> Some f \<Longrightarrow> run_predicate view pid d c = run_predicate view pid e c"
  by (rule run_predicate_cong) (auto simp: read_field_def agree_off_jget split: option.splits)

text \<open>What a state keeps of its payload: the field the call asks about; and one dictionary until it is copied.\<close>

definition asks_same :: "dict \<Rightarrow> predicate_call \<Rightarrow> stage_state \<Rightarrow> bool" where
  "asks_same d c s \<longleftrightarrow> (st_own s = None \<longrightarrow> st_working s = st_payload s) \<and> read_field (st_payload s) (call_arg c) = read_field d (call_arg c)"

lemma mask_state_asks:
  assumes "asks_same d c s" "segs \<noteq> []" "Some (fst (hd segs)) \<noteq> call_arg c"
  shows "asks_same d c (mask_state segs mk s)"
proof -
  have "read_field (mask_dict segs mk p) (call_arg c) = read_field p (call_arg c)" for p
    using mask_dict_other[OF assms(2)] assms(3) by (cases "call_arg c") (auto simp: read_field_def jget_def dict_get_def)
  then show ?thesis using assms(1) by (cases "st_own s") (auto simp: asks_same_def mask_state_def Let_def)
qed

section \<open>Lockstep\<close>

definition lockstep :: "string \<Rightarrow> dict \<Rightarrow> predicate_call \<Rightarrow> bool \<Rightarrow> stage_state \<Rightarrow> stage_state \<Rightarrow> bool" where
  "lockstep f d c clean s t \<longleftrightarrow> related f s t \<and> asks_same d c s \<and> (clean \<longrightarrow> st_working s = st_working t)"

lemma redact_step_lockstep:
  assumes L: "lockstep f d c clean s t" and f: "parse_path f = Inr [(f, False)]" and c: "run_predicate view pid d c = Inr False"
    and sp: "call_arg (rs_unless sp) \<noteq> Some f" "path_head (rs_field sp) = Some f \<longrightarrow> rs_field sp = f"
      "path_head (rs_field sp) = None \<or> path_head (rs_field sp) \<noteq> call_arg c"
  shows "(\<exists>e. redact_step view pid i sp s = Inl e \<and> redact_step view pid i sp t = Inl e) \<or>
    (\<exists>s' t'. redact_step view pid i sp s = Inr s' \<and> redact_step view pid i sp t = Inr t' \<and>
      lockstep f d c (clean \<or> rs_field sp = f \<and> rs_unless sp = c) s' t')"
proof -
  have r: "related f s t" "asks_same d c s" using L by (simp_all add: lockstep_def)
  have same: "run_predicate view pid (st_payload s) (rs_unless sp) = run_predicate view pid (st_payload t) (rs_unless sp)"
    using r(1) sp(1) by (intro run_predicate_agree) (simp_all add: related_def)
  show ?thesis
  proof (cases "run_predicate view pid (st_payload t) (rs_unless sp)")
    case (Inl e)
    then show ?thesis using same by (simp add: redact_step_def)
  next
    case (Inr b)
    show ?thesis
    proof (cases b)
      case True
      have "run_predicate view pid (st_payload s) c = run_predicate view pid d c"
        using r(2) by (intro run_predicate_cong) (simp add: asks_same_def)
      then have "rs_unless sp \<noteq> c" using Inr True same c by auto
      then show ?thesis using Inr True same L by (simp add: redact_step_def)
    next
      case False
      show ?thesis
      proof (cases "parse_path (rs_field sp)")
        case (Inr segs)
        have ne: "segs \<noteq> []" using parse_path_nonempty[OF Inr] .
        have head: "fst (hd segs) = f \<longrightarrow> segs = [(f, False)]" using sp(2) Inr f by (auto simp: path_head_def)
        have whole: "rs_field sp = f \<longrightarrow> fst (hd segs) = f" using Inr f by auto
        have "Some (fst (hd segs)) \<noteq> call_arg c" using sp(3) Inr by (auto simp: path_head_def)
        then have "asks_same d c (mask_state segs (rs_mask sp) s)" by (rule mask_state_asks[OF r(2) ne])
        with mask_state_related[OF r(1) ne head, of "rs_mask sp"] whole L
        have "lockstep f d c (clean \<or> rs_field sp = f \<and> rs_unless sp = c) ((mask_state segs (rs_mask sp) s)\<lparr>last_applied := Some i\<rparr>)
            ((mask_state segs (rs_mask sp) t)\<lparr>last_applied := Some i\<rparr>)"
          by (auto simp: lockstep_def related_def asks_same_def)
        then show ?thesis using False same Inr \<open>run_predicate view pid (st_payload t) (rs_unless sp) = Inr b\<close> by (simp add: redact_step_def)
      qed (use False same Inr in \<open>simp add: redact_step_def\<close>)
    qed
  qed
qed

lemma redact_fold_lockstep:
  assumes "lockstep f d c clean s t" and f: "parse_path f = Inr [(f, False)]" and c: "run_predicate view pid d c = Inr False"
    and "\<forall>sp \<in> set specs. call_arg (rs_unless sp) \<noteq> Some f \<and> (path_head (rs_field sp) = Some f \<longrightarrow> rs_field sp = f) \<and>
      (path_head (rs_field sp) = None \<or> path_head (rs_field sp) \<noteq> call_arg c)"
  shows "(\<exists>e. rfold (redact_step view pid i) specs s = Inl e \<and> rfold (redact_step view pid i) specs t = Inl e) \<or>
    (\<exists>s' t'. rfold (redact_step view pid i) specs s = Inr s' \<and> rfold (redact_step view pid i) specs t = Inr t' \<and>
      lockstep f d c (clean \<or> (\<exists>sp \<in> set specs. rs_field sp = f \<and> rs_unless sp = c)) s' t')"
  using assms(1,4)
proof (induction specs arbitrary: s t clean)
  case (Cons sp specs)
  have sp: "call_arg (rs_unless sp) \<noteq> Some f" "path_head (rs_field sp) = Some f \<longrightarrow> rs_field sp = f"
      "path_head (rs_field sp) = None \<or> path_head (rs_field sp) \<noteq> call_arg c" using Cons.prems(2) by auto
  from redact_step_lockstep[OF Cons.prems(1) f c sp, of i]
  show ?case
  proof (elim disjE exE conjE)
    fix s1 t1
    assume s1: "redact_step view pid i sp s = Inr s1" "redact_step view pid i sp t = Inr t1"
      and L: "lockstep f d c (clean \<or> rs_field sp = f \<and> rs_unless sp = c) s1 t1"
    show ?thesis using Cons.IH[OF L] Cons.prems(2) s1 by (simp add: disj_assoc)
  qed simp
qed simp

lemma apply_fidelity_agree:
  assumes "agree_off f d e" "f \<noteq> ''spans''"
  shows "(\<exists>x. apply_fidelity d n = Inl x \<and> apply_fidelity e n = Inl x) \<or> apply_fidelity d n = Inr None \<and> apply_fidelity e n = Inr None \<or>
    (\<exists>v. apply_fidelity d n = Inr (Some (AList.update ''spans'' v d)) \<and> apply_fidelity e n = Inr (Some (AList.update ''spans'' v e)))"
proof -
  have "jget d ''spans'' = jget e ''spans''" using agree_off_jget[OF assms(1)] assms(2) by simp
  then show ?thesis
    by (cases "n = ''full''"; cases "jget e ''spans''"; cases "rmap as_dict (case jget e ''spans'' of JList xs \<Rightarrow> xs | _ \<Rightarrow> [])")
      (auto simp: apply_fidelity_def Let_def)
qed

definition results :: "string \<Rightarrow> dict \<Rightarrow> predicate_call \<Rightarrow> bool \<Rightarrow> step_result res \<Rightarrow> step_result res \<Rightarrow> bool" where
  "results f d c clean x y \<longleftrightarrow> (\<exists>e. x = Inl e \<and> y = Inl e) \<or> (\<exists>i. x = Inr (Dropped i) \<and> y = Inr (Dropped i)) \<or>
     (\<exists>s t. x = Inr (Goes s) \<and> y = Inr (Goes t) \<and> lockstep f d c clean s t)"

lemma results_intros:
  "results f d c clean (Inl e) (Inl e)" "results f d c clean (Inr (Dropped i)) (Inr (Dropped i))"
  "lockstep f d c clean s t \<Longrightarrow> results f d c clean (Inr (Goes s)) (Inr (Goes t))"
  by (auto simp: results_def)

lemma lockstep_copy:
  assumes "lockstep f d c clean s t"
  shows "lockstep f d c clean (s\<lparr>last_applied := i\<rparr>) (t\<lparr>last_applied := i\<rparr>)"
    and "lockstep f d c clean (s\<lparr>st_working := AList.update k v (st_working s), st_own := Some own, last_applied := i\<rparr>)
      (t\<lparr>st_working := AList.update k v (st_working t), st_own := Some own, last_applied := i\<rparr>)"
  using assms by (auto simp: lockstep_def related_def asks_same_def agree_off_update distinct_update)

lemma visibility_step_lockstep:
  assumes L: "lockstep f d c clean s t" and f: "f \<noteq> ''_visibility''" "f \<noteq> ''spans''"
  shows "results f d c clean (visibility_step pid i s) (visibility_step pid i t)"
proof -
  have r: "agree_off f (st_payload s) (st_payload t)" "agree_off f (st_working s) (st_working t)" "st_own s = st_own t"
    using L by (simp_all add: lockstep_def related_def)
  have viz: "jget (st_payload s) ''_visibility'' = jget (st_payload t) ''_visibility''" using agree_off_jget[OF r(1)] f by simp
  show ?thesis
  proof (cases "jget (st_payload t) ''_visibility''")
    case (JObj vz)
    let ?v = "jget vz ''visible_to''" and ?fid = "jget vz ''fidelity''"
    show ?thesis
    proof (cases "?v \<noteq> JStr ''all'' \<and> \<not> listed pid ?v")
      case True
      then show ?thesis using JObj viz by (simp add: visibility_step_def Let_def results_intros)
    next
      case False
      show ?thesis
      proof (cases "if truthy ?fid then as_dict ?fid else Inr []")
        case (Inl e)
        then show ?thesis using JObj viz False by (auto simp: visibility_step_def Let_def results_intros)
      next
        case (Inr m)
        let ?pf = "jget m pid"
        have vis: "visibility_step pid i u = (if truthy ?pf then
            rbind (apply_fidelity (st_working u) (fidelity_name ?pf)) (\<lambda>copy. Inr (Goes (case copy of
              None \<Rightarrow> u\<lparr>last_applied := Some i\<rparr>
            | Some w \<Rightarrow> u\<lparr>st_working := w, st_own := Some (''spans'' # (case st_own u of None \<Rightarrow> [] | Some own \<Rightarrow> own)), last_applied := Some i\<rparr>)))
            else Inr (Goes u))" if "jget (st_payload u) ''_visibility'' = JObj vz" for u
          using that False Inr by (auto simp: visibility_step_def Let_def)
        show ?thesis
        proof (cases "truthy ?pf")
          case True
          then show ?thesis using vis[of s] vis[of t] JObj viz r(3) apply_fidelity_agree[OF r(2) f(2), of "fidelity_name ?pf"]
            by (auto intro!: results_intros lockstep_copy[OF L])
        qed (use vis[of s] vis[of t] JObj viz L in \<open>auto intro: results_intros\<close>)
      qed
    qed
  qed (use viz L in \<open>simp_all add: visibility_step_def results_intros\<close>)
qed

lemma rule_step_lockstep:
  assumes L: "lockstep f d c clean s t" and f: "parse_path f = Inr [(f, False)]" and c: "run_predicate view pid d c = Inr False"
    and r: "keeps_private f c r"
  shows "results f d c (clean \<or> (\<exists>sp \<in> set (specs_of r). rs_field sp = f \<and> rs_unless sp = c))
    (rule_step view pid (i, r) s) (rule_step view pid (i, r) t)"
proof -
  have pay: "agree_off f (st_payload s) (st_payload t)" using L by (simp add: lockstep_def related_def)
  show ?thesis
  proof (cases r)
    case (TargetOnlyRule k g)
    then have "jget (st_payload s) g = jget (st_payload t) g" using agree_off_jget[OF pay] r by (simp add: keeps_private_def)
    then show ?thesis using TargetOnlyRule L by (simp add: results_intros)
  next
    case (IncludeIfRule k q)
    then have "run_predicate view pid (st_payload s) q = run_predicate view pid (st_payload t) q"
      using run_predicate_agree[OF pay] r by (simp add: keeps_private_def)
    then show ?thesis using IncludeIfRule L by (cases "run_predicate view pid (st_payload t) q") (simp_all add: results_intros)
  next
    case (RedactFieldsRule k specs)
    then have "\<forall>sp \<in> set specs. call_arg (rs_unless sp) \<noteq> Some f \<and> (path_head (rs_field sp) = Some f \<longrightarrow> rs_field sp = f) \<and>
        (path_head (rs_field sp) = None \<or> path_head (rs_field sp) \<noteq> call_arg c)" using r by (simp add: keeps_private_def)
    from redact_fold_lockstep[OF L f c this, of i] show ?thesis
      using RedactFieldsRule by (auto simp: results_intros)
  next
    case (VisibilityTagRule k)
    then show ?thesis using visibility_step_lockstep[OF L] r by (simp add: keeps_private_def)
  qed
qed

lemma run_rules_lockstep:
  assumes f: "parse_path f = Inr [(f, False)]" and c: "run_predicate view pid d c = Inr False"
    and "lockstep f d c clean s t" "\<forall>r \<in> set rs. keeps_private f c (snd r)"
    and "clean \<or> (\<exists>r \<in> set rs. \<exists>sp \<in> set (specs_of (snd r)). rs_field sp = f \<and> rs_unless sp = c)"
  shows "run_rules view pid rs s = run_rules view pid rs t"
  using assms(3-5)
proof (induction rs arbitrary: s t clean)
  case Nil
  then show ?case by (auto simp: lockstep_def related_def)
next
  case (Cons r rs)
  obtain i q where r: "r = (i, q)" by (cases r)
  let ?clean = "clean \<or> (\<exists>sp \<in> set (specs_of q). rs_field sp = f \<and> rs_unless sp = c)"
  have "results f d c ?clean (rule_step view pid (i, q) s) (rule_step view pid (i, q) t)"
    using rule_step_lockstep[OF Cons.prems(1) f c] Cons.prems(2) r by simp
  then consider e where "rule_step view pid (i, q) s = Inl e" "rule_step view pid (i, q) t = Inl e"
    | j where "rule_step view pid (i, q) s = Inr (Dropped j)" "rule_step view pid (i, q) t = Inr (Dropped j)"
    | s' t' where "rule_step view pid (i, q) s = Inr (Goes s')" "rule_step view pid (i, q) t = Inr (Goes t')" "lockstep f d c ?clean s' t'"
    unfolding results_def by blast
  then show ?case
  proof cases
    case 3
    have "run_rules view pid rs s' = run_rules view pid rs t'"
      using Cons.IH[OF 3(3)] Cons.prems(2,3) r by auto
    then show ?thesis using 3(1,2) r by simp
  qed (simp_all add: r)
qed

section \<open>Noninterference\<close>

text \<open>
  C7. A field that a pack redacts for a viewer does not reach the viewer, in the payload or through any
  decision: two events whose payloads differ in that field alone are projected alike. The rules of the
  kind mask the field as a whole unless a predicate holds that fails for this viewer, no rule reads the
  field, and no mask touches what the predicate asks about.
\<close>
theorem redacted_field_does_not_interfere:
  assumes kind: "kind \<notin> set structural_kinds" and f: "parse_path f = Inr [(f, False)]" "f \<noteq> ''_visibility''"
    and payloads: "distinct (map fst d)" "agree_off f d e"
    and fails: "run_predicate view pid d c = Inr False"
    and priv: "\<forall>r \<in> set rules. rule_kind r = kind \<longrightarrow> keeps_private f c r"
    and redacts: "\<exists>r \<in> set rules. rule_kind r = kind \<and> (\<exists>sp \<in> set (specs_of r). rs_field sp = f \<and> rs_unless sp = c)"
  shows "project rules slug view pid \<lparr>env_kind = kind, env_payload = Text d, origin_seq = n\<rparr> =
    project rules slug view pid \<lparr>env_kind = kind, env_payload = Text e, origin_seq = n\<rparr>"
proof -
  let ?E = "\<lambda>p. \<lparr>env_kind = kind, env_payload = Text p, origin_seq = n\<rparr>"
  have "sidecar_visible_to d = sidecar_visible_to e" using agree_off_jget[OF payloads(2)] f(2) by (simp add: sidecar_visible_to_def)
  then have core: "core_evaluate (?E d) pid = core_evaluate (?E e) pid" "core_evaluate (?E d) pid = Inr None \<or> core_evaluate (?E d) pid = Inr (Some (excluded, ''invariant:narration_visibility_list''))"
    using kind by (auto simp: core_evaluate_def Let_def structural_kinds_def)
  have "lockstep f d c False (stage_start d) (stage_start e)"
    using payloads by (simp add: lockstep_def related_def asks_same_def stage_start_def)
  moreover have sub: "\<forall>r \<in> set (rules_for rules kind). keeps_private f c (snd r)"
    using priv by (auto simp: rules_for_def in_set_enumerate_eq)
  moreover obtain r where r: "r \<in> set (rules_for rules kind)" "\<exists>sp \<in> set (specs_of (snd r)). rs_field sp = f \<and> rs_unless sp = c"
  proof -
    obtain q where q: "q \<in> set rules" "rule_kind q = kind" "\<exists>sp \<in> set (specs_of q). rs_field sp = f \<and> rs_unless sp = c" using redacts by blast
    then obtain i where "i < length rules" "rules ! i = q" by (metis in_set_conv_nth)
    then show ?thesis using that[of "(i, q)"] q by (auto simp: rules_for_def in_set_enumerate_eq)
  qed
  ultimately have "run_rules view pid (rules_for rules kind) (stage_start d) = run_rules view pid (rules_for rules kind) (stage_start e)"
    by (intro run_rules_lockstep[OF f(1) fails]) blast+
  moreover have "rules_for rules kind \<noteq> []" using r(1) by auto
  ultimately have "genre_evaluate rules view pid (?E d) = genre_evaluate rules view pid (?E e)" by (simp add: genre_evaluate_def)
  then show ?thesis using core by (auto simp: project_def)
qed

theorem redacted_field_does_not_interfere_witness:
  "project [RedactFieldsRule ''COMBAT_EVENT'' [\<lparr>rs_field = ''hp'', rs_unless = \<lparr>predicate = ''is_self'', call_arg = Some ''target''\<rparr>, rs_mask = JNull\<rparr>]]
      None (session_view (build_game_state_view None [])) ''ann''
      \<lparr>env_kind = ''COMBAT_EVENT'', env_payload = Text [(''target'', JStr ''Bo''), (''hp'', JNum 3)], origin_seq = None\<rparr> =
   project [RedactFieldsRule ''COMBAT_EVENT'' [\<lparr>rs_field = ''hp'', rs_unless = \<lparr>predicate = ''is_self'', call_arg = Some ''target''\<rparr>, rs_mask = JNull\<rparr>]]
      None (session_view (build_game_state_view None [])) ''ann''
      \<lparr>env_kind = ''COMBAT_EVENT'', env_payload = Text [(''target'', JStr ''Bo''), (''hp'', JNum 9)], origin_seq = None\<rparr>"
proof (rule redacted_field_does_not_interfere[where f = "''hp''" and c = "\<lparr>predicate = ''is_self'', call_arg = Some ''target''\<rparr>"])
  show "''COMBAT_EVENT'' \<notin> set structural_kinds"
    by (simp add: structural_kinds_def TARGETED_KINDS_def VISIBILITY_GATED_KINDS_def SELF_AUTHORED_KINDS_def PLAYER_EXCLUDED_KINDS_def)
  show "parse_path ''hp'' = Inr [(''hp'', False)]" by code_simp
  show "agree_off ''hp'' [(''target'', JStr ''Bo''), (''hp'', JNum 3)] [(''target'', JStr ''Bo''), (''hp'', JNum 9)]"
    by (simp add: agree_off_def same_entry_def)
  show "run_predicate (session_view (build_game_state_view None [])) ''ann'' [(''target'', JStr ''Bo''), (''hp'', JNum 3)]
      \<lparr>predicate = ''is_self'', call_arg = Some ''target''\<rparr> = Inr False"
    by (simp add: run_predicate_def PREDICATES_def is_self_def context_for_def session_view_def build_game_state_view_def)
  have "path_head ''hp'' = Some ''hp''" by code_simp
  then show "\<forall>r \<in> set [RedactFieldsRule ''COMBAT_EVENT'' [\<lparr>rs_field = ''hp'', rs_unless = \<lparr>predicate = ''is_self'', call_arg = Some ''target''\<rparr>, rs_mask = JNull\<rparr>]].
      rule_kind r = ''COMBAT_EVENT'' \<longrightarrow> keeps_private ''hp'' \<lparr>predicate = ''is_self'', call_arg = Some ''target''\<rparr> r"
    by (simp add: keeps_private_def)
qed simp_all

end
