(* ===== verification/Projection_Delivery.thy ===== *)
theory Projection_Delivery
  imports Projection_Redaction
begin

text \<open>
  What reaches a player in the end: validated rules run, secrets reach the players they name and their
  pets, a perception status holds for every frame, and the decision cache answers for every event.
\<close>

section \<open>Validated rules run\<close>

lemma rfold_pre:
  assumes "rfold g xs s = Inr t" "x \<in> set xs"
  shows "\<exists>u v. g x u = Inr v"
  using assms by (induction xs arbitrary: s) (auto simp: rbind_Inr_iff)

definition well_named :: "predicate_call \<Rightarrow> bool" where
  "well_named c \<longleftrightarrow> dict_has PREDICATES (predicate c)"

text \<open>What the semantic check leaves of a rule: its predicates exist and its paths parse.\<close>

fun runnable :: "projection_rule \<Rightarrow> bool" where
  "runnable (IncludeIfRule k c) \<longleftrightarrow> well_named c"
| "runnable (RedactFieldsRule k specs) \<longleftrightarrow> (\<forall>sp \<in> set specs. well_named (rs_unless sp) \<and> (\<exists>segs. parse_path (rs_field sp) = Inr segs))"
| "runnable r \<longleftrightarrow> True"

lemma check_predicate_well_named: "check_predicate sch c = Inr u \<Longrightarrow> well_named c"
  by (auto simp: check_predicate_def well_named_def invalid_def split: if_splits)

lemma check_redaction_field:
  assumes "check_redaction kind sch sp seen = Inr v"
  shows "well_named (rs_unless sp)" "dict_has sch (rs_field sp)"
  using assms check_predicate_well_named[of sch "rs_unless sp"]
  by (auto simp: check_redaction_def invalid_def rbind_Inr_iff map_of_dom split: option.splits)

lemma validated_runnable:
  assumes "validate_projection_rules mt reg rules = Inr u" "r \<in> set rules"
    and paths: "\<And>kind key. dict_has (schema_fields_for_kind reg kind) key \<Longrightarrow> \<exists>segs. parse_path key = Inr segs"
  shows "runnable r"
proof -
  obtain t where t: "rfold (check_rule mt reg) rules [] = Inr t" using assms(1) by (auto simp: validate_projection_rules_def rbind_Inr_iff)
  obtain seen v where v: "check_rule mt reg r seen = Inr v" using rfold_pre[OF t assms(2)] by blast
  show ?thesis
  proof (cases r)
    case (IncludeIfRule k c)
    then show ?thesis using v check_predicate_well_named by (auto simp: check_rule_def Let_def invalid_def rbind_Inr_iff split: if_splits)
  next
    case (RedactFieldsRule k specs)
    then have f: "rfold (check_redaction k (schema_fields_for_kind reg k)) specs seen = Inr v"
      using v by (auto simp: check_rule_def Let_def invalid_def split: if_splits)
    have "well_named (rs_unless sp) \<and> (\<exists>segs. parse_path (rs_field sp) = Inr segs)" if "sp \<in> set specs" for sp
      using rfold_pre[OF f that] check_redaction_field paths by blast
    then show ?thesis using RedactFieldsRule by simp
  qed simp_all
qed

lemma run_predicate_named: "well_named c \<Longrightarrow> \<exists>b. run_predicate view pid d c = Inr b"
  unfolding well_named_def dict_has_iff map_of_dom run_predicate_def by auto

lemma rmap_as_dict: "rmap as_dict xs = Inl e \<Longrightarrow> \<exists>m. e = AttributeError m"
proof (induction xs)
  case (Cons x xs)
  then show ?case by (cases x) (auto simp: rbind_Inl_iff)
qed simp

lemma apply_fidelity_error: "apply_fidelity d n = Inl e \<Longrightarrow> \<exists>m. e = AttributeError m"
  by (auto simp: apply_fidelity_def Let_def rbind_Inl_iff rmap_as_dict split: if_splits json.splits)

lemma as_dict_error: "as_dict v = Inl e \<Longrightarrow> \<exists>m. e = AttributeError m"
  by (cases v) auto

lemma visibility_step_error: "visibility_step pid i s = Inl e \<Longrightarrow> \<exists>m. e = AttributeError m"
  by (auto simp: visibility_step_def Let_def rbind_Inl_iff as_dict_error apply_fidelity_error split: if_splits json.splits)

lemma redact_fold_runs:
  assumes "\<forall>sp \<in> set specs. well_named (rs_unless sp) \<and> (\<exists>segs. parse_path (rs_field sp) = Inr segs)"
  shows "\<exists>s'. rfold (redact_step view pid i) specs s = Inr s'"
  using assms
proof (induction specs arbitrary: s)
  case (Cons sp specs)
  obtain b where "run_predicate view pid (st_payload s) (rs_unless sp) = Inr b" using Cons.prems run_predicate_named by fastforce
  moreover obtain segs where "parse_path (rs_field sp) = Inr segs" using Cons.prems by auto
  ultimately obtain s' where "redact_step view pid i sp s = Inr s'" by (cases b) (auto simp: redact_step_def)
  then show ?case using Cons by simp
qed simp

lemma run_rules_error:
  assumes "\<forall>r \<in> set rs. runnable (snd r)" "run_rules view pid rs s = Inl e"
  shows "\<exists>m. e = AttributeError m"
  using assms
proof (induction rs arbitrary: s)
  case (Cons r rs)
  obtain i q where r: "r = (i, q)" by (cases r)
  show ?case
  proof (cases "rule_step view pid (i, q) s")
    case (Inl e')
    have "\<exists>m. e' = AttributeError m"
    proof (cases q)
      case (VisibilityTagRule k)
      then show ?thesis using Inl visibility_step_error by simp
    next
      case (IncludeIfRule k c)
      obtain b where "run_predicate view pid (st_payload s) c = Inr b" using run_predicate_named IncludeIfRule Cons.prems(1) r by fastforce
      then show ?thesis using Inl IncludeIfRule by simp
    next
      case (RedactFieldsRule k specs)
      then show ?thesis using Inl redact_fold_runs[of specs view pid i s] Cons.prems(1) r by auto
    qed (use Inl in simp)
    then show ?thesis using Inl Cons.prems(2) r by simp
  next
    case (Inr res)
    then show ?thesis using Cons r by (cases res) auto
  qed
qed simp



section \<open>Secrets\<close>

lemma set_widen: "set (widen xs ps) = set xs \<union> JStr ` set ps"
  unfolding widen_def by (induction ps arbitrary: xs) auto

lemma gated_decision:
  assumes "env_kind env \<in> set VISIBILITY_GATED_KINDS" "env_payload env = Text d" "sidecar_visible_to d = JList xs"
  shows "composed_filter rules slug view env pid = Inr (gate (JStr pid \<in> set xs) (Text d))"
proof -
  have "\<not> dict_has TARGETED_KINDS (env_kind env)"
    using assms(1) by (auto simp: VISIBILITY_GATED_KINDS_def TARGETED_KINDS_def)
  then show ?thesis using assms by (simp add: composed_filter_def project_def core_evaluate_def Let_def listed_def)
qed

lemma pets_of_names: "rmap (pets_of_entry room) (map JStr owners) = Inr (map (pets_of room) owners)"
  by (induction owners) simp_all

lemma sidecar_of:
  "jget d ''_visibility'' = JObj viz \<Longrightarrow> jget viz ''visible_to'' = v \<Longrightarrow> sidecar_visible_to d = v"
  by (simp add: sidecar_visible_to_def)

lemma jget_update: "jget (AList.update k v d) j = (if j = k then v else jget d j)"
  by (simp add: jget_def dict_get_update)

text \<open>The widened event: its sidecar names the owners and their pets, the rest of the payload is as it was.\<close>

lemma expanded_secret:
  assumes kind: "env_kind env \<in> set VISIBILITY_GATED_KINDS" and p: "env_payload env = Text d"
    and viz: "jget d ''_visibility'' = JObj viz" "jget viz ''visible_to'' = JList (map JStr owners)"
  shows "\<exists>env' d' viz' xs. expand_visibility_for_companions (Some room) env = Inr env' \<and> env_kind env' = env_kind env \<and> env_payload env' = Text d' \<and>
    jget d' ''_visibility'' = JObj viz' \<and> jget viz' ''visible_to'' = JList xs \<and> set xs = JStr ` (set owners \<union> (\<Union>q \<in> set owners. set (pets_of room q))) \<and>
    (\<forall>k. k \<noteq> ''_visibility'' \<longrightarrow> jget d' k = jget d k) \<and> (\<forall>k. k \<noteq> ''visible_to'' \<longrightarrow> jget viz' k = jget viz k)"
proof -
  let ?w = "widen (map JStr owners) (concat (map (pets_of room) owners))"
  have w: "set ?w = JStr ` (set owners \<union> (\<Union>q \<in> set owners. set (pets_of room q)))" unfolding set_widen by auto
  show ?thesis
  proof (cases "?w = map JStr owners")
    case True
    then have "expand_visibility_for_companions (Some room) env = Inr env"
      using kind p viz by (simp add: expand_visibility_for_companions_def pets_of_names Let_def)
    then show ?thesis using p viz w True by (intro exI[of _ env] exI[of _ d] exI[of _ viz] exI[of _ "map JStr owners"]) simp
  next
    case False
    let ?viz = "AList.update ''visible_to'' (JList ?w) viz" and ?d = "AList.update ''_visibility'' (JObj (AList.update ''visible_to'' (JList ?w) viz)) d"
    have "expand_visibility_for_companions (Some room) env = Inr (env\<lparr>env_payload := Text ?d\<rparr>)"
      using kind p viz False by (simp add: expand_visibility_for_companions_def pets_of_names Let_def dumps_def)
    then show ?thesis
      using w by (intro exI[of _ "env\<lparr>env_payload := Text ?d\<rparr>"] exI[of _ ?d] exI[of _ ?viz] exI[of _ ?w]) (simp add: jget_update)
  qed
qed

lemma plain_frame:
  assumes "\<not> is_jlist (jget d ''spans'')" "jget d ''_visibility'' = JObj viz" "jget viz ''fidelity'' = JNull"
  shows "recipient_frame effects (pid, gate b (Text d)) = Inr (pid, if b then Some d else None)"
proof -
  have "rewrite_for_recipient pid effects d = Inr d"
    using assms by (cases "jget d ''spans''"; cases "viz = []") (auto simp: rewrite_for_recipient_def is_jlist_def Let_def)
  then show ?thesis by (simp add: recipient_frame_def gate_def included_def excluded_def)
qed



section \<open>Perception\<close>

lemma fidelity_for_blinded: "''blinded'' \<in> set fxs \<Longrightarrow> ''deafened'' \<notin> set fxs \<Longrightarrow> fidelity_for base fxs = JStr ''audio_only''"
  by (induction fxs) (auto simp: STATUS_FIDELITY_OVERRIDE_def)

lemma rewrite_filters:
  assumes "rewrite_for_recipient pid effects d = Inr d'" "jget d' ''spans'' = JList xs"
    and "\<And>base. fidelity_for base (dict_get effects pid []) = JStr n" "n \<noteq> ''full''" "JObj sp \<in> set xs"
  shows "keep_span n sp" "\<exists>ys. jget d ''spans'' = JList ys \<and> JObj sp \<in> set ys"
proof -
  obtain ys ds where ys: "jget d ''spans'' = JList ys" and ds: "rmap as_dict ys = Inr ds"
    and d': "d' = AList.update ''spans'' (JList (map JObj (filter (keep_span n) ds))) d"
    using assms(1-4) by (auto simp: rewrite_for_recipient_def Let_def rbind_Inr_iff fidelity_name_def split: if_splits json.splits)
  have "map JObj es = zs" if "rmap as_dict zs = Inr es" for zs es
    using that
  proof (induction zs arbitrary: es)
    case (Cons z zs)
    then show ?case by (cases z) (auto simp: rbind_Inr_iff)
  qed simp
  then have "ys = map JObj ds" using ds by auto
  moreover have "xs = map JObj (filter (keep_span n) ds)" using assms(2) d' by (simp add: jget_update)
  ultimately show "keep_span n sp" "\<exists>ys. jget d ''spans'' = JList ys \<and> JObj sp \<in> set ys" using assms(5) ys by auto
qed

lemma emit_frame:
  assumes "emit_fanout flt room effects kind p players emitter pe s = (Inr (seq, frames), s')" "(pid, Some d') \<in> set frames"
  shows "\<exists>d. rewrite_for_recipient pid effects d = Inr d'"
proof -
  obtain env ds where "rmap (recipient_frame effects) ds = Inr frames"
    using assms(1) by (auto simp: emit_fanout_def append_event_def Let_def rbind_Inr_iff rbind_Inl_iff split: sum.splits prod.splits)
  from rmap_result[OF this assms(2)] obtain pd where pd: "recipient_frame effects pd = Inr (pid, Some d')" by blast
  then show ?thesis by (auto simp: recipient_frame_def rbind_Inr_iff split: if_splits)
qed

text \<open>
  A recipient who is blinded and not deafened gets no visual span in any frame, whatever the filter, the
  rules and the fidelity the event grants.
\<close>
theorem blinded_gets_no_visual_span:
  assumes "emit_fanout flt room effects kind p players emitter pe s = (Inr (seq, frames), s')" and "(pid, Some d) \<in> set frames"
    and "''blinded'' \<in> set (dict_get effects pid [])" "''deafened'' \<notin> set (dict_get effects pid [])"
    and "jget d ''spans'' = JList xs" "JObj sp \<in> set xs"
  shows "span_kind sp \<noteq> JStr ''visual_only''"
proof -
  obtain d0 where "rewrite_for_recipient pid effects d0 = Inr d" using emit_frame[OF assms(1,2)] by blast
  from rewrite_filters(1)[OF this assms(5) fidelity_for_blinded[OF assms(3,4)] _ assms(6)] show ?thesis by (simp add: keep_span_def)
qed

theorem blinded_gets_no_visual_span_witness:
  "\<exists>frames s'. emit_fanout (\<lambda>env pid. Inr (pass_through env)) None [(''ann'', [''blinded''])] ''NARRATION''
      (Text [(''spans'', JList [JObj [(''kind'', JStr ''audio_only'')], JObj [(''kind'', JStr ''visual_only'')]])]) [''ann''] None False
      \<lparr>events = [], projection_cache = []\<rparr> = (Inr (1, frames), s') \<and>
    frames = [(''ann'', Some [(''spans'', JList [JObj [(''kind'', JStr ''audio_only'')]])])] \<and>
    span_kind [(''kind'', JStr ''audio_only'')] \<noteq> JStr ''visual_only''"
proof -
  let ?frames = "[(''ann'', Some [(''spans'', JList [JObj [(''kind'', JStr ''audio_only'')]])])]"
  let ?s = "\<lparr>events = [], projection_cache = []\<rparr> :: save_store"
  let ?e = "emit_fanout (\<lambda>env pid. Inr (pass_through env)) None [(''ann'', [''blinded''])] ''NARRATION''
      (Text [(''spans'', JList [JObj [(''kind'', JStr ''audio_only'')], JObj [(''kind'', JStr ''visual_only'')]])]) [''ann''] None False ?s"
  have e: "?e = (Inr (1, ?frames), snd ?e)"
    by (simp add: emit_fanout_def append_event_def latest_event_seq_def envelope_of_def expand_visibility_for_companions_def Let_def
        project_frames_def recipients_def pass_through_def recipient_frame_def included_def rewrite_for_recipient_def jget_def dict_get_def
        STATUS_FIDELITY_OVERRIDE_def fidelity_name_def keep_span_def span_kind_def)
  have "span_kind [(''kind'', JStr ''audio_only'')] \<noteq> JStr ''visual_only''"
    by (rule blinded_gets_no_visual_span[OF e, of "''ann''" "[(''spans'', JList [JObj [(''kind'', JStr ''audio_only'')]])]"
          "[JObj [(''kind'', JStr ''audio_only'')]]"]) (simp_all add: dict_get_def jget_def)
  then show ?thesis using e by blast
qed

end
