(* ===== verification/Projection_Cache.thy ===== *)
theory Projection_Cache
  imports Projection_Delivery
begin

text \<open>
  The decision cache: every turn keeps the store well formed, a lazy fill answers for every event without
  touching a row that is there, and a pruned row is decided again by the filter of the day.
\<close>

definition store_ok :: "save_store \<Rightarrow> bool" where
  "store_ok s \<longleftrightarrow> distinct (map ev_seq (events s)) \<and> (\<forall>r \<in> set (events s). 0 < ev_seq r) \<and> distinct (map fst (projection_cache s))"

definition cache_row :: "filter_decision \<Rightarrow> bool \<times> json_text option" where
  "cache_row d = (fd_include d, if fd_include d then Some (fd_payload d) else None)"

lemma write_projection_row: "projection_cache (write_projection q p d s) = AList.update (q, p) (cache_row d) (projection_cache s)"
  by (simp add: write_projection_def cache_row_def)

lemma write_projection_events [simp]: "events (write_projection q p d s) = events s"
  by (simp add: write_projection_def)

lemma append_event_ok:
  assumes "store_ok s"
  shows "store_ok (snd (append_event kind p s))"
proof -
  have "ev_seq r \<le> latest_event_seq s" if "r \<in> set (events s)" for r
    using that fold_max_ge[of "ev_seq r" "map ev_seq (events s)" 0] by (auto simp: latest_event_seq_def)
  moreover have "0 \<le> latest_event_seq s" by (simp add: latest_event_seq_def fold_max_start)
  ultimately show ?thesis using assms by (fastforce simp: store_ok_def append_event_def Let_def)
qed

lemma write_projection_ok: "store_ok s \<Longrightarrow> store_ok (write_projection q p d s)"
  by (simp add: store_ok_def write_projection_row distinct_update)

lemma write_decisions_ok: "store_ok s \<Longrightarrow> store_ok (write_decisions q ds s)"
  unfolding write_decisions_def by (induction ds arbitrary: s) (simp_all add: write_projection_ok)

lemma write_decisions_row:
  "distinct (map fst ds) \<Longrightarrow> (pid, d) \<in> set ds \<Longrightarrow> map_of (projection_cache (write_decisions q ds s)) (q, pid) = Some (cache_row d)"
proof (induction ds arbitrary: s)
  case (Cons pd ds)
  have keep: "map_of (projection_cache (write_decisions q es t)) k = map_of (projection_cache t) k" if "snd k \<notin> fst ` set es" for es t k
    using that
  proof (induction es arbitrary: t)
    case (Cons e es)
    then show ?case by (auto simp: write_decisions_def write_projection_row update_conv')
  qed (simp add: write_decisions_def)
  show ?case
  proof (cases "pd = (pid, d)")
    case True
    then show ?thesis using Cons.prems(1) keep[of "(q, pid)" ds] by (auto simp: write_decisions_def write_projection_row update_conv')
  next
    case False
    then show ?thesis using Cons by (simp add: write_decisions_def)
  qed
qed simp

lemma find_unique: "r \<in> set xs \<Longrightarrow> P r \<Longrightarrow> (\<And>q. q \<in> set xs \<Longrightarrow> P q \<Longrightarrow> q = r) \<Longrightarrow> find P xs = Some r"
proof (induction xs)
  case (Cons x xs)
  show ?case
  proof (cases "P x")
    case True
    then show ?thesis using Cons.prems(3)[of x] by simp
  next
    case False
    then have "r \<in> set xs" using Cons.prems(1,2) by auto
    then show ?thesis using False Cons.IH[OF _ Cons.prems(2)] Cons.prems(3) by simp
  qed
qed simp

section \<open>Lazy fill\<close>

definition decided :: "projection_filter \<Rightarrow> string \<Rightarrow> event_row \<Rightarrow> filter_decision" where
  "decided flt pid r = projr (flt (envelope_of r) pid)"

lemma fill_rows_run:
  assumes "\<forall>r \<in> set rs. \<exists>d. flt (envelope_of r) pid = Inr d"
  shows "fill_rows flt pid present rs n s =
    (Inr (n + length (filter (\<lambda>r. ev_seq r \<notin> set present) rs)),
     fold (\<lambda>r. write_projection (ev_seq r) pid (decided flt pid r)) (filter (\<lambda>r. ev_seq r \<notin> set present) rs) s)"
  using assms
proof (induction rs arbitrary: n s)
  case (Cons r rs)
  obtain d where d: "flt (envelope_of r) pid = Inr d" using Cons.prems by auto
  then show ?case using Cons by (simp add: decided_def)
qed simp

lemma fold_writes:
  assumes "distinct (map ev_seq rs)"
  shows "map_of (projection_cache (fold (\<lambda>r. write_projection (ev_seq r) pid (decided flt pid r)) rs s)) k =
      (case find (\<lambda>r. k = (ev_seq r, pid)) rs of Some r \<Rightarrow> Some (cache_row (decided flt pid r)) | None \<Rightarrow> map_of (projection_cache s) k)"
    and "events (fold (\<lambda>r. write_projection (ev_seq r) pid (decided flt pid r)) rs s) = events s"
  using assms
proof (induction rs arbitrary: s)
  case (Cons r rs)
  { case 1
    have "find (\<lambda>r. k = (ev_seq r, pid)) rs = None" if "k = (ev_seq r, pid)" using 1 that by (auto simp: find_None_iff)
    then show ?case using Cons.IH(1)[of "write_projection (ev_seq r) pid (decided flt pid r) s"] 1
      by (auto simp: write_projection_row update_conv' split: option.splits)
  }
  { case 2 then show ?case using Cons.IH(2) by simp }
qed simp_all

lemma set_present:
  "set (map cd_seq (read_projection_since pid 0 s)) = {q. 0 < q \<and> map_of (projection_cache s) (q, pid) \<noteq> None}"
proof -
  have "q \<in> set (map cd_seq (read_projection_since pid 0 s)) \<longleftrightarrow> 0 < q \<and> (q, pid) \<in> fst ` set (projection_cache s)" for q
    unfolding read_projection_since_def by (force simp: image_iff)
  then show ?thesis unfolding map_of_eq_None_iff by auto
qed

lemma read_events_all:
  assumes "store_ok s"
  shows "set (read_events_since 0 s) = set (events s)" "distinct (map ev_seq (read_events_since 0 s))"
proof -
  have all: "filter (\<lambda>r. 0 < ev_seq r) (events s) = events s" using assms by (simp add: store_ok_def)
  show "set (read_events_since 0 s) = set (events s)" unfolding read_events_since_def all by simp
  have "mset (map ev_seq (read_events_since 0 s)) = mset (map ev_seq (events s))" unfolding read_events_since_def all by simp
  then show "distinct (map ev_seq (read_events_since 0 s))" using assms by (metis mset_eq_imp_distinct_iff store_ok_def)
qed

lemma lazy_fill_rows:
  assumes ok: "store_ok s" and total: "\<forall>r \<in> set (events s). \<exists>d. flt (envelope_of r) pid = Inr d"
  obtains n s' where "lazy_fill flt pid s = (Inr n, s')" "events s' = events s"
    "\<And>r. r \<in> set (events s) \<Longrightarrow> map_of (projection_cache s') (ev_seq r, pid) =
       (case map_of (projection_cache s) (ev_seq r, pid) of Some x \<Rightarrow> Some x | None \<Rightarrow> Some (cache_row (decided flt pid r)))"
    "\<And>k. snd k \<noteq> pid \<or> fst k \<notin> ev_seq ` set (events s) \<Longrightarrow> map_of (projection_cache s') k = map_of (projection_cache s) k"
proof -
  note ev = read_events_all[OF ok]
  let ?present = "map cd_seq (read_projection_since pid 0 s)"
  let ?todo = "filter (\<lambda>r. ev_seq r \<notin> set ?present) (read_events_since 0 s)"
  let ?s' = "fold (\<lambda>r. write_projection (ev_seq r) pid (decided flt pid r)) ?todo s"
  have run: "lazy_fill flt pid s = (Inr (length ?todo), ?s')" unfolding lazy_fill_def using fill_rows_run[of "read_events_since 0 s"] total ev(1) by simp
  have dist: "distinct (map ev_seq ?todo)" using ev(2) by (simp add: distinct_map_filter)
  note w = fold_writes[OF dist, of pid flt s]
  have mem: "ev_seq r \<in> set ?present \<longleftrightarrow> map_of (projection_cache s) (ev_seq r, pid) \<noteq> None" if "r \<in> set (events s)" for r
    unfolding set_present using that ok by (simp add: store_ok_def)
  show ?thesis
  proof (rule that[OF run w(2)])
    fix r assume r: "r \<in> set (events s)"
    show "map_of (projection_cache ?s') (ev_seq r, pid) =
        (case map_of (projection_cache s) (ev_seq r, pid) of Some x \<Rightarrow> Some x | None \<Rightarrow> Some (cache_row (decided flt pid r)))"
    proof (cases "map_of (projection_cache s) (ev_seq r, pid)")
      case None
      then have "r \<in> set ?todo" using mem[OF r] r ev(1) by auto
      have "find (\<lambda>q. (ev_seq r, pid) = (ev_seq q, pid)) ?todo = Some r"
      proof (rule find_unique[OF \<open>r \<in> set ?todo\<close> refl])
        fix q assume q: "q \<in> set ?todo" "(ev_seq r, pid) = (ev_seq q, pid)"
        have "inj_on ev_seq (set ?todo)" using dist unfolding distinct_map by (rule conjunct2)
        then show "q = r" by (rule inj_onD) (use q \<open>r \<in> set ?todo\<close> in simp_all)
      qed
      then show ?thesis using w(1) None by simp
    next
      case (Some x)
      then have "find (\<lambda>q. (ev_seq r, pid) = (ev_seq q, pid)) ?todo = None" using mem[OF r] by (auto simp: find_None_iff)
      then show ?thesis using w(1) Some by simp
    qed
  next
    fix k :: "int \<times> string" assume "snd k \<noteq> pid \<or> fst k \<notin> ev_seq ` set (events s)"
    then have "find (\<lambda>q. k = (ev_seq q, pid)) ?todo = None" using ev(1) by (auto simp: find_None_iff)
    then show "map_of (projection_cache ?s') k = map_of (projection_cache s) k" using w(1) by simp
  qed
qed

text \<open>
  C10. After a lazy fill the cache answers for every event of the log: a row that was there is unchanged, every
  other one is the decision of the filter, the rows of other players are untouched, and filling again
  writes nothing, with any filter.
\<close>
theorem lazy_fill_answers_for_every_event:
  assumes "store_ok s" and "\<forall>r \<in> set (events s). \<exists>d. flt (envelope_of r) pid = Inr d"
  shows "\<exists>n s'. lazy_fill flt pid s = (Inr n, s') \<and>
    (\<forall>r \<in> set (events s). map_of (projection_cache s') (ev_seq r, pid) =
       (case map_of (projection_cache s) (ev_seq r, pid) of Some x \<Rightarrow> Some x | None \<Rightarrow> Some (cache_row (decided flt pid r)))) \<and>
    (\<forall>q p. p \<noteq> pid \<longrightarrow> map_of (projection_cache s') (q, p) = map_of (projection_cache s) (q, p)) \<and>
    lazy_fill flt2 pid s' = (Inr 0, s')"
proof -
  obtain n s' where fill: "lazy_fill flt pid s = (Inr n, s')" "events s' = events s"
    and rows: "\<And>r. r \<in> set (events s) \<Longrightarrow> map_of (projection_cache s') (ev_seq r, pid) =
       (case map_of (projection_cache s) (ev_seq r, pid) of Some x \<Rightarrow> Some x | None \<Rightarrow> Some (cache_row (decided flt pid r)))"
    and others: "\<And>k. snd k \<noteq> pid \<or> fst k \<notin> ev_seq ` set (events s) \<Longrightarrow> map_of (projection_cache s') k = map_of (projection_cache s) k"
    by (rule lazy_fill_rows[of s flt pid, OF assms]) (rule that)
  have "set (read_events_since 0 s') = set (events s)"
    using read_events_all(1)[OF assms(1)] fill(2) by (simp add: read_events_since_def)
  moreover have "ev_seq r \<in> set (map cd_seq (read_projection_since pid 0 s'))" if "r \<in> set (events s)" for r
    unfolding set_present using rows[OF that] that assms(1) by (auto simp: store_ok_def split: option.splits)
  ultimately have none: "\<forall>r \<in> set (read_events_since 0 s'). ev_seq r \<in> set (map cd_seq (read_projection_since pid 0 s'))" by blast
  have "fill_rows g pid present rs m t = (Inr m, t)" if "\<forall>r \<in> set rs. ev_seq r \<in> set present" for g present rs m t
    using that by (induction rs) simp_all
  then have "lazy_fill flt2 pid s' = (Inr 0, s')" unfolding lazy_fill_def using none by blast
  then show ?thesis using fill(1) rows others by (intro exI[of _ n] exI[of _ s']) auto
qed

theorem lazy_fill_answers_for_every_event_witness:
  "\<exists>n s'. lazy_fill (\<lambda>env pid. Inr (pass_through env)) ''ann''
      \<lparr>events = [\<lparr>ev_seq = 1, ev_kind = ''NARRATION'', ev_payload = Text []\<rparr>], projection_cache = [((1, ''bo''), False, None)]\<rparr> = (Inr n, s') \<and>
    map_of (projection_cache s') (1, ''ann'') = Some (cache_row (included (Text [])))"
proof -
  let ?r = "\<lparr>ev_seq = 1, ev_kind = ''NARRATION'', ev_payload = Text []\<rparr>"
  let ?s = "\<lparr>events = [?r], projection_cache = [((1, ''bo''), False, None)]\<rparr> :: save_store"
  have "store_ok ?s" by (simp add: store_ok_def)
  from lazy_fill_answers_for_every_event[of ?s "\<lambda>env pid. Inr (pass_through env)" "''ann''" "\<lambda>env pid. Inr (pass_through env)", OF this] show ?thesis
    by (auto simp: decided_def pass_through_def envelope_of_def)
qed

section \<open>Pruning\<close>

lemma map_of_filter_key: "distinct (map fst c) \<Longrightarrow> map_of (filter P c) k = (case map_of c k of Some v \<Rightarrow> if P (k, v) then Some v else None | None \<Rightarrow> None)"
proof (induction c)
  case (Cons a c)
  have "map_of (filter P c) (fst a) = None" if "fst a \<notin> fst ` set c"
    using that by (auto simp: map_of_eq_None_iff)
  then show ?case using Cons by (cases a) (auto split: option.splits)
qed simp

text \<open>
  After a prune and a lazy fill every event has a row again: one among the newest that are kept is as it
  was, every other one is decided by the filter given now, whatever it was before.
\<close>
theorem pruned_rows_are_decided_again:
  assumes "store_ok s" and "\<forall>r \<in> set (events s). \<exists>d. flt (envelope_of r) pid = Inr d" and "1 \<le> keep"
  shows "\<exists>m s1 n s2. prune_projection_cache keep s = (Inr m, s1) \<and> lazy_fill flt pid s1 = (Inr n, s2) \<and>
    (\<forall>r \<in> set (events s). map_of (projection_cache s2) (ev_seq r, pid) =
       (case map_of (projection_cache s) (ev_seq r, pid) of
          Some x \<Rightarrow> if int (newer_rows (ev_seq r, pid) (projection_cache s)) < keep then Some x else Some (cache_row (decided flt pid r))
        | None \<Rightarrow> Some (cache_row (decided flt pid r))))"
proof -
  let ?P = "\<lambda>r. int (newer_rows (fst r) (projection_cache s)) < keep"
  let ?s1 = "s\<lparr>projection_cache := filter ?P (projection_cache s)\<rparr>"
  have prune: "prune_projection_cache keep s = (Inr (length (projection_cache s) - length (filter ?P (projection_cache s))), ?s1)"
    using assms(3) by (simp add: prune_projection_cache_def Let_def)
  have dist: "distinct (map fst (projection_cache s))" using assms(1) by (simp add: store_ok_def)
  then have "store_ok ?s1" using assms(1) by (simp add: store_ok_def distinct_map_filter)
  moreover have "\<forall>r \<in> set (events ?s1). \<exists>d. flt (envelope_of r) pid = Inr d" using assms(2) by simp
  ultimately obtain n s2 where fill: "lazy_fill flt pid ?s1 = (Inr n, s2)"
    and rows: "\<And>r. r \<in> set (events ?s1) \<Longrightarrow> map_of (projection_cache s2) (ev_seq r, pid) =
       (case map_of (projection_cache ?s1) (ev_seq r, pid) of Some x \<Rightarrow> Some x | None \<Rightarrow> Some (cache_row (decided flt pid r)))"
    by (rule lazy_fill_rows[of ?s1 flt pid]) (rule that)
  have "map_of (projection_cache ?s1) k = (case map_of (projection_cache s) k of Some v \<Rightarrow> if int (newer_rows k (projection_cache s)) < keep then Some v else None
      | None \<Rightarrow> None)" for k
    using map_of_filter_key[OF dist, of ?P k] by (simp split: option.splits)
  then have "\<forall>r \<in> set (events s). map_of (projection_cache s2) (ev_seq r, pid) =
       (case map_of (projection_cache s) (ev_seq r, pid) of
          Some x \<Rightarrow> if int (newer_rows (ev_seq r, pid) (projection_cache s)) < keep then Some x else Some (cache_row (decided flt pid r))
        | None \<Rightarrow> Some (cache_row (decided flt pid r)))"
    using rows by (auto split: option.splits)
  then show ?thesis using prune fill by blast
qed

theorem pruned_rows_are_decided_again_witness:
  "\<exists>m s1 n s2. prune_projection_cache 1
       \<lparr>events = [\<lparr>ev_seq = 1, ev_kind = ''NARRATION'', ev_payload = Text []\<rparr>, \<lparr>ev_seq = 2, ev_kind = ''NARRATION'', ev_payload = Text []\<rparr>],
        projection_cache = [((1, ''ann''), False, None), ((2, ''ann''), False, None)]\<rparr> = (Inr m, s1) \<and>
     lazy_fill (\<lambda>env pid. Inr (pass_through env)) ''ann'' s1 = (Inr n, s2) \<and>
     map_of (projection_cache s2) (1, ''ann'') = Some (True, Some (Text [])) \<and> map_of (projection_cache s2) (2, ''ann'') = Some (False, None)"
proof -
  let ?r = "\<lambda>i. \<lparr>ev_seq = i, ev_kind = ''NARRATION'', ev_payload = Text []\<rparr>"
  let ?s = "\<lparr>events = [?r 1, ?r 2], projection_cache = [((1, ''ann''), False, None), ((2, ''ann''), False, None)]\<rparr> :: save_store"
  have "store_ok ?s" by (simp add: store_ok_def)
  from pruned_rows_are_decided_again[OF this, of "\<lambda>env pid. Inr (pass_through env)" "''ann''" 1] show ?thesis
    by (auto simp: decided_def pass_through_def envelope_of_def newer_rows_def cache_row_def included_def)
qed

section \<open>Turns\<close>

lemma distinct_recipients: "distinct players \<Longrightarrow> distinct (recipients players emitter pe)"
  by (cases emitter) (auto simp: recipients_def)

lemma list_all2_right: "list_all2 P xs ys \<Longrightarrow> y \<in> set ys \<Longrightarrow> \<exists>x \<in> set xs. P x y"
  by (induction rule: list_all2_induct) auto

lemma project_frames_fst: "project_frames flt env ps = Inr ds \<Longrightarrow> map fst ds = ps"
  unfolding project_frames_def by (induction ps arbitrary: ds) (auto simp: rbind_Inr_iff)

lemma recipient_frame_some: "recipient_frame effects pd = Inr fr \<Longrightarrow> fst fr = fst pd \<and> (snd fr \<noteq> None \<longleftrightarrow> fd_include (snd pd))"
  by (auto simp: recipient_frame_def rbind_Inr_iff split: if_splits)

text \<open>
  C8. A turn writes its event and the decisions of all its recipients, or nothing: when anything raises, the
  store is as it was; otherwise the event has a number above all earlier ones, and the cached decision of
  each recipient says whether it got a frame.
\<close>
theorem turn_commits_event_with_decisions:
  assumes ok: "store_ok s" and players: "distinct players"
  shows "case emit_fanout flt room effects kind p players emitter pe s of
      (Inl e, s') \<Rightarrow> s' = s
    | (Inr (seq, frames), s') \<Rightarrow> store_ok s' \<and> events s' = events s @ [\<lparr>ev_seq = seq, ev_kind = kind, ev_payload = p\<rparr>] \<and>
        (\<forall>r \<in> set (events s). ev_seq r < seq) \<and> map fst frames = recipients players emitter pe \<and>
        (\<forall>fr \<in> set frames. \<exists>body. map_of (projection_cache s') (seq, fst fr) = Some (snd fr \<noteq> None, body))"
proof -
  define row where "row = \<lparr>ev_seq = latest_event_seq s + 1, ev_kind = kind, ev_payload = p\<rparr>"
  define s1 where "s1 = s\<lparr>events := events s @ [row]\<rparr>"
  have app: "append_event kind p s = (Inr row, s1)" by (simp add: append_event_def row_def s1_def Let_def)
  have ok1: "store_ok s1" using append_event_ok[OF ok, of kind p] app by simp
  let ?m = "rbind (expand_visibility_for_companions room (envelope_of row)) (\<lambda>env.
    rbind (project_frames flt env (recipients players emitter pe)) (\<lambda>ds. rbind (rmap (recipient_frame effects) ds) (\<lambda>frames. Inr (ds, frames))))"
  show ?thesis
  proof (cases ?m)
    case (Inl e)
    then show ?thesis by (simp add: emit_fanout_def app)
  next
    case (Inr res)
    obtain ds frames where res: "res = (ds, frames)" by (cases res)
    then obtain env where ds: "project_frames flt env (recipients players emitter pe) = Inr ds" "rmap (recipient_frame effects) ds = Inr frames"
      using Inr by (auto simp: rbind_Inr_iff)
    have fan: "emit_fanout flt room effects kind p players emitter pe s = (Inr (ev_seq row, frames), write_decisions (ev_seq row) ds s1)"
      using Inr res by (simp add: emit_fanout_def app)
    have zip: "list_all2 (\<lambda>pd fr. fst fr = fst pd \<and> (snd fr \<noteq> None \<longleftrightarrow> fd_include (snd pd))) ds frames"
      using rmap_zip[OF ds(2)] by (rule list_all2_mono) (rule recipient_frame_some)
    then have "map fst frames = map fst ds" by (induction rule: list_all2_induct) auto
    then have names: "map fst frames = recipients players emitter pe" using project_frames_fst[OF ds(1)] by simp
    have dist: "distinct (map fst ds)" using project_frames_fst[OF ds(1)] distinct_recipients[OF players] by simp
    have rows: "\<exists>body. map_of (projection_cache (write_decisions (ev_seq row) ds s1)) (ev_seq row, fst fr) = Some (snd fr \<noteq> None, body)"
      if "fr \<in> set frames" for fr
    proof -
      obtain pd where "pd \<in> set ds" "fst fr = fst pd" "snd fr \<noteq> None \<longleftrightarrow> fd_include (snd pd)"
        using list_all2_right[OF zip \<open>fr \<in> set frames\<close>] by blast
      then show ?thesis using write_decisions_row[OF dist, of "fst pd" "snd pd" "ev_seq row" s1] by (auto simp: cache_row_def)
    qed
    have "events (write_decisions q xs t) = events t" for q xs t
      unfolding write_decisions_def by (induction xs arbitrary: t) simp_all
    moreover have "ev_seq r < ev_seq row" if "r \<in> set (events s)" for r
      using that fold_max_ge[of "ev_seq r" "map ev_seq (events s)" 0] by (auto simp: row_def latest_event_seq_def)
    moreover have "row = \<lparr>ev_seq = ev_seq row, ev_kind = kind, ev_payload = p\<rparr>" by (simp add: row_def)
    ultimately show ?thesis using fan names rows write_decisions_ok[OF ok1] by (simp add: s1_def)
  qed
qed

theorem turn_commits_event_with_decisions_witness:
  "store_ok (snd (emit_fanout (\<lambda>env pid. Inr (pass_through env)) None [] ''NARRATION'' (Text []) [''ann'', ''bo''] (Some ''bo'') True
      \<lparr>events = [], projection_cache = []\<rparr>))"
  using turn_commits_event_with_decisions[where s = "\<lparr>events = [], projection_cache = []\<rparr>" and players = "[''ann'', ''bo'']"
      and flt = "\<lambda>env pid. Inr (pass_through env)" and room = None and effects = "[]" and kind = "''NARRATION''" and p = "Text []"
      and emitter = "Some ''bo''" and pe = True]
  by (auto simp: store_ok_def split: prod.splits sum.splits)

section \<open>Predicates of a session view\<close>

text \<open>
  On the views the server builds two predicates of the catalogue never hold: the party of a player and
  the owner of an item are not tracked, so a rule on either hides from everyone.
\<close>
theorem party_and_owner_rules_hide_from_all:
  assumes "predicate c \<in> {''in_same_party'', ''is_owner_of''}" and "view = session_view (build_game_state_view session slots)"
  shows "run_predicate view pid d c = Inr False \<and> rule_step view pid (i, IncludeIfRule kind c) s = Inr (Dropped i)"
proof -
  have "run_predicate view pid e c = Inr False" for e
  proof -
    have "party_of view = (\<lambda>_. None)" "owner_of_item view = (\<lambda>_. None)"
      using assms(2) by (auto simp: session_view_def session_party_of_def build_game_state_view_def split: option.splits)
    then have "in_same_party (context_for view pid e) a = False" "is_owner_of (context_for view pid e) a = False" for a
      by (auto simp: in_same_party_def is_owner_of_def context_for_sels split: json.splits)
    then show ?thesis using assms(1) by (auto simp: run_predicate_def PREDICATES_def)
  qed
  then show ?thesis by simp
qed

theorem party_and_owner_rules_hide_from_all_witness:
  "run_predicate (session_view (build_game_state_view None [])) ''ann'' [(''who'', JStr ''ann'')] \<lparr>predicate = ''in_same_party'', call_arg = Some ''who''\<rparr> = Inr False"
  using party_and_owner_rules_hide_from_all[of "\<lparr>predicate = ''in_same_party'', call_arg = Some ''who''\<rparr>" _ None "[]" "''ann''" "[(''who'', JStr ''ann'')]"]
  by simp

end
