(* ===== verification/Beliefs.thy ===== *)
theory Beliefs
  imports Prelude Float64
begin

text \<open>
  Per-NPC beliefs and the gossip engine (src/sidequest/game/belief_state.py, gossip_engine.py) and what
  the relationship panel shows of them (projection/relationships.py). Scores are doubles: rationals, with
  every sum rounded. A belief state is updated in place in the code; here the table of NPCs is returned.
\<close>

section \<open>Belief states\<close>

datatype belief_source = Witnessed | ToldBy string | Inferred | Overheard

definition source_label :: "belief_source \<Rightarrow> string" where
  "source_label s = (case s of Witnessed \<Rightarrow> ''witnessed'' | ToldBy by \<Rightarrow> ''told_by:'' @ by | Inferred \<Rightarrow> ''inferred'' | Overheard \<Rightarrow> ''overheard'')"

datatype claim_sentiment = Corroborating | Contradicting | Neutral

datatype belief =
    BeliefFact (subject: string) (belief_content: string) (turn_learned: int) (source: belief_source)
  | BeliefSuspicion (subject: string) (belief_content: string) (turn_learned: int) (source: belief_source) (confidence: rat)
  | BeliefClaim (subject: string) (belief_content: string) (turn_learned: int) (source: belief_source) (believed: bool) (sentiment: claim_sentiment)

definition make_suspicion :: "string \<Rightarrow> string \<Rightarrow> int \<Rightarrow> belief_source \<Rightarrow> rat \<Rightarrow> belief" where
  "make_suspicion subj cont turn src conf = BeliefSuspicion subj cont turn src (clamp 0 1 conf)"

definition new_credibility :: "rat \<Rightarrow> rat" where
  "new_credibility score = clamp 0 1 score"

definition credibility_adjust :: "rat \<Rightarrow> rat \<Rightarrow> rat" where
  "credibility_adjust score delta = clamp 0 1 (rnd (score + delta))"

record belief_state =
  beliefs :: "belief list"
  credibility_scores :: "(string \<times> rat) list"

definition add_belief :: "belief \<Rightarrow> belief_state \<Rightarrow> belief_state" where
  "add_belief b s = s\<lparr>beliefs := beliefs s @ [b]\<rparr>"

definition beliefs_about :: "belief_state \<Rightarrow> string \<Rightarrow> belief list" where
  "beliefs_about s subj = filter (\<lambda>b. subject b = subj) (beliefs s)"

definition credibility_of :: "belief_state \<Rightarrow> string \<Rightarrow> rat" where
  "credibility_of s npc = dict_get (credibility_scores s) npc (1 / 2)"

definition update_credibility :: "string \<Rightarrow> rat \<Rightarrow> belief_state \<Rightarrow> belief_state" where
  "update_credibility npc score s = s\<lparr>credibility_scores := AList.update npc (new_credibility score) (credibility_scores s)\<rparr>"

section \<open>Gossip\<close>

record gossip_transmission =
  from_npc :: string
  to_npc :: string
  gt_subject :: string
  gt_content :: string
  gt_sentiment :: claim_sentiment

text \<open>The checks of the constructor.\<close>

definition transmission_valid :: "gossip_transmission \<Rightarrow> unit res" where
  "transmission_valid t =
     (if from_npc t = [] \<or> to_npc t = [] \<or> gt_subject t = [] \<or> gt_content t = [] then Inl (ValueError ''String should have at least 1 character'')
      else if from_npc t = to_npc t then Inl (ValueError ''GossipTransmission self-loop'')
      else Inr ())"

text \<open>An outcome repeats the fields of its transmission; here it holds the transmission.\<close>

record transmission_outcome =
  transmission :: gossip_transmission
  credibility_before :: rat
  credibility_after :: rat
  accepted :: bool
  contradicted :: bool

definition confidence_in :: "belief \<Rightarrow> rat" where
  "confidence_in b =
     (case b of
        BeliefFact s c t src \<Rightarrow> 1
      | BeliefSuspicion s c t src conf \<Rightarrow> conf
      | BeliefClaim s c t src bel sent \<Rightarrow> if bel then 1 else 0)"

definition sender_confidence :: "belief_state \<Rightarrow> string \<Rightarrow> rat option" where
  "sender_confidence sender subj =
     (case map confidence_in (beliefs_about sender subj) of [] \<Rightarrow> None | c # cs \<Rightarrow> Some (fold max cs c))"

definition is_fact :: "belief \<Rightarrow> bool" where
  "is_fact b = (case b of BeliefFact s c t src \<Rightarrow> True | _ \<Rightarrow> False)"

definition has_contradicting_fact :: "belief_state \<Rightarrow> gossip_transmission \<Rightarrow> bool" where
  "has_contradicting_fact receiver t \<longleftrightarrow> (\<exists>b \<in> set (beliefs_about receiver (gt_subject t)). is_fact b \<and> belief_content b \<noteq> gt_content t)"

type_synonym npc_table = "(string \<times> belief_state) list"

text \<open>Phase one: what a transmission is worth, from the table as it is at the start.\<close>

definition weigh :: "rat \<Rightarrow> npc_table \<Rightarrow> gossip_transmission \<Rightarrow> transmission_outcome res" where
  "weigh decay npcs t =
     (case map_of npcs (to_npc t) of
        None \<Rightarrow> Inl (KeyError ''GossipTransmission targets unknown to_npc'')
      | Some receiver \<Rightarrow>
          (case map_of npcs (from_npc t) of
             None \<Rightarrow> Inl (KeyError ''GossipTransmission names unknown from_npc'')
           | Some sender \<Rightarrow>
               let trust = credibility_of receiver (from_npc t);
                   before = (case sender_confidence sender (gt_subject t) of None \<Rightarrow> trust | Some c \<Rightarrow> min trust c);
                   after = max 0 (rnd (before - decay));
                   contra = has_contradicting_fact receiver t
               in Inr \<lparr>transmission = t, credibility_before = before, credibility_after = after,
                       accepted = (after > 0 \<and> \<not> contra), contradicted = contra\<rparr>))"

text \<open>Phase two: a rumour with credit left is added to the receiver.\<close>

definition integrate :: "int \<Rightarrow> transmission_outcome \<Rightarrow> npc_table \<Rightarrow> npc_table" where
  "integrate turn out npcs =
     (if credibility_after out > 0 then
        (case map_of npcs (to_npc (transmission out)) of
           None \<Rightarrow> npcs
         | Some receiver \<Rightarrow> AList.update (to_npc (transmission out))
             (add_belief (make_suspicion (gt_subject (transmission out)) (gt_content (transmission out)) turn
               (ToldBy (from_npc (transmission out))) (credibility_after out)) receiver) npcs)
      else npcs)"

definition propagate :: "rat \<Rightarrow> int \<Rightarrow> gossip_transmission list \<Rightarrow> (npc_table, transmission_outcome list) sm" where
  "propagate decay turn ts npcs =
     (case rmap (weigh decay npcs) ts of
        Inl e \<Rightarrow> (Inl e, npcs)
      | Inr outs \<Rightarrow> (Inr outs, fold (integrate turn) outs npcs))"

definition DEFAULT_DECAY_PER_HOP :: rat where "DEFAULT_DECAY_PER_HOP = lit 1 10"

section \<open>What players see of beliefs\<close>

definition credibility_hint :: "belief \<Rightarrow> belief_state \<Rightarrow> string" where
  "credibility_hint claim s =
     (case (case source claim of ToldBy by \<Rightarrow> map_of (credibility_scores s) by | _ \<Rightarrow> None) of
        None \<Rightarrow> if believed claim then ''credible'' else ''doubtful''
      | Some score \<Rightarrow> if score \<ge> lit 66 100 then ''credible'' else if score \<ge> lit 33 100 then ''uncertain'' else ''doubtful'')"

definition is_claim :: "belief \<Rightarrow> bool" where
  "is_claim b = (case b of BeliefClaim s c t src bel sent \<Rightarrow> True | _ \<Rightarrow> False)"

text \<open>The claims that cross to the players, each as its text and a hint.\<close>

definition claims_to_party :: "belief_state \<Rightarrow> (string \<times> string) list" where
  "claims_to_party s = map (\<lambda>b. (belief_content b, credibility_hint b s)) (filter is_claim (beliefs s))"

definition band_for :: "int \<Rightarrow> string" where
  "band_for value = (if value \<ge> 50 then ''Devoted'' else if value \<ge> 10 then ''Warm'' else if value > -10 then ''Neutral''
     else if value > -50 then ''Cool'' else ''Hostile'')"

definition trend_for :: "int list \<Rightarrow> nat \<Rightarrow> string" where
  "trend_for deltas k = (let t = sum_list (if k = 0 then deltas else drop (length deltas - k) deltas) in if t > 0 then ''up'' else if t < 0 then ''down'' else ''flat'')"

section \<open>What a batch of gossip does\<close>

definition rumour :: "int \<Rightarrow> transmission_outcome \<Rightarrow> belief" where
  "rumour turn out = make_suspicion (gt_subject (transmission out)) (gt_content (transmission out)) turn
     (ToldBy (from_npc (transmission out))) (credibility_after out)"

definition lands_on :: "string \<Rightarrow> transmission_outcome \<Rightarrow> bool" where
  "lands_on n out \<longleftrightarrow> credibility_after out > 0 \<and> to_npc (transmission out) = n"

lemma integrate_at:
  "map_of (integrate turn out npcs) n =
     map_option (\<lambda>s. if lands_on n out then s\<lparr>beliefs := beliefs s @ [rumour turn out]\<rparr> else s) (map_of npcs n)"
  by (cases "map_of npcs n"; cases "map_of npcs (to_npc (transmission out))")
    (auto simp: integrate_def lands_on_def rumour_def add_belief_def update_conv')

lemma fold_integrate_at:
  "map_of (fold (integrate turn) outs npcs) n =
     map_option (\<lambda>s. s\<lparr>beliefs := beliefs s @ map (rumour turn) (filter (lands_on n) outs)\<rparr>) (map_of npcs n)"
proof (induction outs arbitrary: npcs)
  case (Cons out outs)
  show ?case by (cases "map_of npcs n") (simp_all add: Cons.IH integrate_at)
qed (simp add: option.map_ident)

lemma weigh_ok: "(\<exists>out. weigh decay npcs t = Inr out) \<longleftrightarrow> to_npc t \<in> fst ` set npcs \<and> from_npc t \<in> fst ` set npcs"
  by (auto simp: weigh_def Let_def map_of_dom split: option.splits)

text \<open>
  C23. The order of the transmissions of a turn does not matter: permuting a batch raises when the batch does,
  and otherwise gives the same outcomes and leaves every NPC with the same beliefs, up to their order,
  and the same trust in others.
\<close>
theorem gossip_order_is_irrelevant:
  assumes "mset ts2 = mset ts"
  shows "case (propagate decay turn ts npcs, propagate decay turn ts2 npcs) of
      ((Inl e, s), (r2, s2)) \<Rightarrow> (\<exists>e2. r2 = Inl e2) \<and> s = npcs \<and> s2 = npcs
    | ((Inr outs, s), (r2, s2)) \<Rightarrow> (\<exists>outs2. r2 = Inr outs2 \<and> mset outs2 = mset outs) \<and>
        (\<forall>n. rel_option (\<lambda>b b2. mset (beliefs b) = mset (beliefs b2) \<and> credibility_scores b = credibility_scores b2) (map_of s n) (map_of s2 n))"
proof -
  have "set ts2 = set ts" using assms by (metis set_mset_mset)
  then have iff: "(\<exists>ys. rmap (weigh decay npcs) ts2 = Inr ys) \<longleftrightarrow> (\<exists>ys. rmap (weigh decay npcs) ts = Inr ys)"
    unfolding rmap_ok_iff by simp
  show ?thesis
  proof (cases "rmap (weigh decay npcs) ts")
    case (Inl e)
    then obtain e2 where "rmap (weigh decay npcs) ts2 = Inl e2" using iff by (cases "rmap (weigh decay npcs) ts2") auto
    then show ?thesis using Inl by (simp add: propagate_def)
  next
    case (Inr outs)
    then obtain outs2 where outs2: "rmap (weigh decay npcs) ts2 = Inr outs2" using iff by auto
    have m: "mset outs2 = mset outs" using rmap_projr[OF Inr] rmap_projr[OF outs2] assms by (metis mset_map)
    then have "mset (map (rumour turn) (filter (lands_on n) outs2)) = mset (map (rumour turn) (filter (lands_on n) outs))" for n
      by (metis mset_filter mset_map)
    then have "rel_option (\<lambda>b b2. mset (beliefs b) = mset (beliefs b2) \<and> credibility_scores b = credibility_scores b2)
        (map_of (fold (integrate turn) outs npcs) n) (map_of (fold (integrate turn) outs2 npcs) n)" for n
      unfolding fold_integrate_at by (cases "map_of npcs n") simp_all
    then show ?thesis using Inr outs2 m by (simp add: propagate_def)
  qed
qed

theorem gossip_order_is_irrelevant_witness:
  "\<exists>outs2 s2. propagate (lit 1 10) 3
      [\<lparr>from_npc = ''b'', to_npc = ''a'', gt_subject = ''x'', gt_content = ''q'', gt_sentiment = Neutral\<rparr>,
       \<lparr>from_npc = ''a'', to_npc = ''b'', gt_subject = ''x'', gt_content = ''p'', gt_sentiment = Neutral\<rparr>]
      [(''a'', \<lparr>beliefs = [], credibility_scores = []\<rparr>), (''b'', \<lparr>beliefs = [], credibility_scores = []\<rparr>)] = (Inr outs2, s2)"
proof -
  let ?t = "\<lparr>from_npc = ''a'', to_npc = ''b'', gt_subject = ''x'', gt_content = ''p'', gt_sentiment = Neutral\<rparr>"
  let ?u = "\<lparr>from_npc = ''b'', to_npc = ''a'', gt_subject = ''x'', gt_content = ''q'', gt_sentiment = Neutral\<rparr>"
  let ?npcs = "[(''a'', \<lparr>beliefs = [], credibility_scores = []\<rparr>), (''b'', \<lparr>beliefs = [], credibility_scores = []\<rparr>)] :: npc_table"
  have "\<exists>outs s. propagate (lit 1 10) 3 [?t, ?u] ?npcs = (Inr outs, s)"
    by (simp add: propagate_def weigh_def Let_def)
  then obtain outs s where r: "propagate (lit 1 10) 3 [?t, ?u] ?npcs = (Inr outs, s)" by blast
  have "mset [?u, ?t] = mset [?t, ?u]" by simp
  from gossip_order_is_irrelevant[OF this, where decay = "lit 1 10" and turn = 3 and npcs = ?npcs] r show ?thesis
    by (cases "propagate (lit 1 10) 3 [?u, ?t] ?npcs") auto
qed

text \<open>Doubles between zero and one, and states whose scores are such.\<close>

definition unit_double :: "rat \<Rightarrow> bool" where
  "unit_double x \<longleftrightarrow> 0 \<le> x \<and> x \<le> 1 \<and> rnd x = x"

definition scores_ok :: "belief_state \<Rightarrow> bool" where
  "scores_ok s \<longleftrightarrow> (\<forall>b \<in> set (beliefs s). unit_double (confidence_in b)) \<and> (\<forall>nc \<in> set (credibility_scores s). unit_double (snd nc))"

lemma rnd_half: "rnd (1 / 2) = 1 / 2"
  by code_simp

lemma credibility_unit: "scores_ok s \<Longrightarrow> unit_double (credibility_of s m)"
  by (auto simp: scores_ok_def credibility_of_def dict_get_def unit_double_def rnd_half split: option.splits dest!: map_of_SomeD)

lemma fold_max_in: "fold max xs (x::rat) \<in> insert x (set xs)"
proof (induction xs arbitrary: x)
  case (Cons y ys)
  show ?case using Cons.IH[of "max y x"] by (auto simp: max_def split: if_splits)
qed simp

lemma sender_confidence_unit: "scores_ok s \<Longrightarrow> sender_confidence s subj = Some c \<Longrightarrow> unit_double c"
proof -
  assume s: "scores_ok s" and c: "sender_confidence s subj = Some c"
  obtain z zs where "beliefs_about s subj = z # zs" "c = fold max (map confidence_in zs) (confidence_in z)"
    using c by (auto simp: sender_confidence_def split: list.splits)
  then have "c \<in> set (map confidence_in (beliefs_about s subj))"
    using fold_max_in[of "map confidence_in zs" "confidence_in z"] by simp
  then show ?thesis using s by (auto simp: scores_ok_def beliefs_about_def)
qed

lemma weigh_result:
  assumes "weigh decay npcs t = Inr out"
  obtains receiver sender where "map_of npcs (to_npc t) = Some receiver" "map_of npcs (from_npc t) = Some sender" "transmission out = t"
    "credibility_after out = max 0 (rnd ((case sender_confidence sender (gt_subject t) of None \<Rightarrow> credibility_of receiver (from_npc t)
      | Some c \<Rightarrow> min (credibility_of receiver (from_npc t)) c) - decay))"
proof -
  obtain receiver where r: "map_of npcs (to_npc t) = Some receiver" using assms by (auto simp: weigh_def split: option.splits)
  obtain sender where s: "map_of npcs (from_npc t) = Some sender" using assms r by (auto simp: weigh_def split: option.splits)
  show ?thesis using that[OF r s] assms r s by (auto simp: weigh_def Let_def)
qed

text \<open>A rumour that lands is worth at most the listener's trust and the teller's own confidence.\<close>

lemma weigh_bounds:
  assumes w: "weigh decay npcs t = Inr out" and pos: "0 < credibility_after out" and ok: "\<forall>ns \<in> set npcs. scores_ok (snd ns)" and decay: "0 \<le> decay"
    and n: "map_of npcs (to_npc t) = Some b"
  obtains sender where "map_of npcs (from_npc t) = Some sender" "credibility_after out \<le> credibility_of b (from_npc t)"
    "\<And>c. sender_confidence sender (gt_subject t) = Some c \<Longrightarrow> credibility_after out \<le> c" "unit_double (credibility_after out)"
proof -
  obtain sender where s: "map_of npcs (from_npc t) = Some sender" and a: "credibility_after out =
      max 0 (rnd ((case sender_confidence sender (gt_subject t) of None \<Rightarrow> credibility_of b (from_npc t) | Some c \<Rightarrow> min (credibility_of b (from_npc t)) c) - decay))"
    using weigh_result[OF w] n by (metis option.sel)
  define x where "x = (case sender_confidence sender (gt_subject t) of None \<Rightarrow> credibility_of b (from_npc t) | Some c \<Rightarrow> min (credibility_of b (from_npc t)) c) - decay"
  have a': "credibility_after out = rnd x" using a pos by (auto simp: x_def max_def split: if_splits)
  have "scores_ok b" "scores_ok sender" using ok n s by (auto dest!: map_of_SomeD)
  have below: "rnd x \<le> y" if "x \<le> y" "rnd y = y" for y using rnd_mono[OF that(1)] that(2) by simp
  have trust: "rnd x \<le> credibility_of b (from_npc t)"
    using credibility_unit[OF \<open>scores_ok b\<close>] decay by (intro below) (auto simp: x_def unit_double_def split: option.splits)
  moreover have "rnd x \<le> c" if c: "sender_confidence sender (gt_subject t) = Some c" for c
    using sender_confidence_unit[OF \<open>scores_ok sender\<close> c] decay c by (intro below) (auto simp: x_def unit_double_def)
  moreover have "unit_double (rnd x)"
    using trust credibility_unit[OF \<open>scores_ok b\<close>, of "from_npc t"] pos a' by (auto simp: unit_double_def)
  ultimately show ?thesis using that[OF s] a' by simp
qed

text \<open>
  Gossip only adds rumours. Every NPC keeps all its beliefs, facts included, and its trust in others; what
  it gains are suspicions of this turn, each with a confidence above zero that is no more than its trust
  in the teller nor than the teller's own confidence; and all scores stay doubles between zero and one.
\<close>
theorem gossip_only_adds_rumours:
  assumes "propagate decay turn ts npcs = (Inr outs, npcs2)" and "\<forall>ns \<in> set npcs. scores_ok (snd ns)" and "0 \<le> decay"
    and "map_of npcs n = Some b"
  shows "\<exists>new. map_of npcs2 n = Some (b\<lparr>beliefs := beliefs b @ new\<rparr>) \<and> scores_ok (b\<lparr>beliefs := beliefs b @ new\<rparr>) \<and>
    (\<forall>r \<in> set new. \<exists>m sender subj text conf. r = BeliefSuspicion subj text turn (ToldBy m) conf \<and> 0 < conf \<and> conf \<le> credibility_of b m \<and>
       map_of npcs m = Some sender \<and> (\<forall>c. sender_confidence sender subj = Some c \<longrightarrow> conf \<le> c))"
proof -
  have outs: "rmap (weigh decay npcs) ts = Inr outs" and npcs2: "npcs2 = fold (integrate turn) outs npcs"
    using assms(1) by (auto simp: propagate_def split: sum.splits)
  let ?new = "map (rumour turn) (filter (lands_on n) outs)"
  have at_n: "map_of npcs2 n = Some (b\<lparr>beliefs := beliefs b @ ?new\<rparr>)" using npcs2 assms(4) by (simp add: fold_integrate_at)
  have new: "(\<exists>m sender subj text conf. r = BeliefSuspicion subj text turn (ToldBy m) conf \<and> 0 < conf \<and> conf \<le> credibility_of b m \<and>
      map_of npcs m = Some sender \<and> (\<forall>c. sender_confidence sender subj = Some c \<longrightarrow> conf \<le> c)) \<and> unit_double (confidence_in r)"
    if r: "r \<in> set ?new" for r
  proof -
    obtain out where out: "out \<in> set outs" "lands_on n out" "r = rumour turn out" using r by auto
    obtain t where t: "t \<in> set ts" "weigh decay npcs t = Inr out"
      using out(1) outs rmap_projr[OF outs] rmap_ok_iff[of "weigh decay npcs" ts] by force
    have tr: "transmission out = t" using weigh_result[OF t(2)] by metis
    have pos: "0 < credibility_after out" and to: "map_of npcs (to_npc t) = Some b" using out(2) tr assms(4) by (simp_all add: lands_on_def)
    obtain sender where s: "map_of npcs (from_npc t) = Some sender" "credibility_after out \<le> credibility_of b (from_npc t)"
        "\<And>c. sender_confidence sender (gt_subject t) = Some c \<Longrightarrow> credibility_after out \<le> c" "unit_double (credibility_after out)"
      using weigh_bounds[OF t(2) pos assms(2,3) to] by blast
    have "r = BeliefSuspicion (gt_subject t) (gt_content t) turn (ToldBy (from_npc t)) (credibility_after out)"
      using out(3) tr s(4) by (simp add: rumour_def make_suspicion_def clamp_def unit_double_def)
    then show ?thesis using s pos by (auto simp: confidence_in_def)
  qed
  have "scores_ok b" using assms(2,4) by (auto dest!: map_of_SomeD)
  then have "scores_ok (b\<lparr>beliefs := beliefs b @ ?new\<rparr>)" using new by (auto simp: scores_ok_def simp del: set_map)
  then show ?thesis using at_n new by blast
qed

theorem gossip_only_adds_rumours_witness:
  "\<exists>new npcs2. map_of npcs2 ''b'' = Some \<lparr>beliefs = new, credibility_scores = []\<rparr> \<and> scores_ok \<lparr>beliefs = new, credibility_scores = []\<rparr>"
proof -
  let ?t = "\<lparr>from_npc = ''a'', to_npc = ''b'', gt_subject = ''x'', gt_content = ''p'', gt_sentiment = Neutral\<rparr>"
  let ?b = "\<lparr>beliefs = [], credibility_scores = []\<rparr>"
  let ?npcs = "[(''a'', ?b), (''b'', ?b)] :: npc_table"
  have "\<exists>outs s. propagate (lit 1 10) 3 [?t] ?npcs = (Inr outs, s)" by (simp add: propagate_def weigh_def Let_def)
  then obtain outs s where r: "propagate (lit 1 10) 3 [?t] ?npcs = (Inr outs, s)" by blast
  have ok: "\<forall>ns \<in> set ?npcs. scores_ok (snd ns)" by (simp add: scores_ok_def)
  have d: "0 \<le> lit 1 10" by code_simp
  have b: "map_of ?npcs ''b'' = Some ?b" by simp
  from gossip_only_adds_rumours[OF r ok d b] show ?thesis by auto
qed

end
