(* ===== verification/Scenario.thy ===== *)
theory Scenario
  imports Beliefs
begin

text \<open>
  The scenario system: packs (src/sidequest/genre/models/scenario.py), the bound state
  (game/scenario_state.py), binding at character creation (server/dispatch/scenario_bind.py), clues read
  from narrator footnotes (scenario_clue_intake.py) and accusations (game/accusation.py,
  scenario_accusation.py). The game snapshot is cut down to what these read and write.
\<close>

section \<open>Packs\<close>

text \<open>The records keep the fields that the operations below read; prose, pacing and atmosphere are left out.\<close>

record suspect =
  suspect_id :: string
  archetype_ref :: string
  can_be_guilty :: bool

record clue_node =
  clue_node_id :: string
  clue_type :: string
  clue_description :: string
  requires :: "string list"
  red_herring :: bool

record authored_suspicion =
  target :: string
  suspicion_confidence :: rat
  basis :: string

record initial_beliefs =
  initial_facts :: "string list"
  suspicions :: "authored_suspicion list"

record scenario_npc =
  scenario_npc_id :: string
  scenario_npc_name :: string
  npc_beliefs :: initial_beliefs

record scenario_pack =
  pack_name :: string
  suspects :: "suspect list"
  pack_clue_graph :: "clue_node list"
  scenario_npcs :: "scenario_npc list"

section \<open>The bound state\<close>

datatype scenario_role = Guilty | Witness | Innocent

record scenario_state =
  clue_graph :: "clue_node list"
  discovered_clues :: "string set"
  npc_roles :: "(string \<times> scenario_role) list"
  guilty_npc :: string
  tension :: rat
  resolved :: bool
  adjacency :: "(string \<times> string list) list"
  questioned_npcs :: "string set"

definition choose_guilty :: "scenario_pack \<Rightarrow> (rng, string) sm" where
  "choose_guilty pack =
     (let candidates = map suspect_id (filter can_be_guilty (suspects pack)) in
      if candidates \<noteq> [] then choice candidates
      else ret (case scenario_npcs pack of [] \<Rightarrow> [] | n # _ \<Rightarrow> scenario_npc_id n))"

definition role_for :: "string \<Rightarrow> scenario_npc \<Rightarrow> scenario_role" where
  "role_for guilty n =
     (if scenario_npc_id n = guilty then Guilty
      else if suspicions (npc_beliefs n) \<noteq> [] then Witness
      else Innocent)"

definition roles_of :: "string \<Rightarrow> scenario_npc list \<Rightarrow> (string \<times> scenario_role) list" where
  "roles_of guilty ns = fold (\<lambda>n. AList.update (scenario_npc_name n) (role_for guilty n)) ns []"

definition adjacency_of :: "string list \<Rightarrow> (string \<times> string list) list" where
  "adjacency_of names = fold (\<lambda>n. AList.update n (filter (\<lambda>other. other \<noteq> n) names)) names []"

definition from_genre_pack :: "scenario_pack \<Rightarrow> (rng, scenario_state) sm" where
  "from_genre_pack pack =
     sbind (choose_guilty pack) (\<lambda>guilty.
       ret \<lparr>clue_graph = pack_clue_graph pack, discovered_clues = {}, npc_roles = roles_of guilty (scenario_npcs pack),
            guilty_npc = guilty, tension = 0, resolved = False,
            adjacency = adjacency_of (map scenario_npc_name (scenario_npcs pack)), questioned_npcs = {}\<rparr>)"

definition set_tension :: "rat \<Rightarrow> scenario_state \<Rightarrow> scenario_state" where
  "set_tension t s = s\<lparr>tension := max 0 (min 1 t)\<rparr>"

definition record_questioned_npc :: "string \<Rightarrow> scenario_state \<Rightarrow> scenario_state" where
  "record_questioned_npc n s = s\<lparr>questioned_npcs := insert n (questioned_npcs s)\<rparr>"

datatype clue_error = PrerequisiteNotSatisfiedError (err_clue_id: string) (missing_prerequisites: "string list")

definition node_of :: "scenario_state \<Rightarrow> string \<Rightarrow> clue_node option" where
  "node_of s c = find (\<lambda>n. clue_node_id n = c) (clue_graph s)"

definition discover_clue :: "string \<Rightarrow> scenario_state \<Rightarrow> clue_error + scenario_state" where
  "discover_clue c s =
     (let missing = (case node_of s c of None \<Rightarrow> [] | Some n \<Rightarrow> filter (\<lambda>r. r \<notin> discovered_clues s) (requires n)) in
      if missing \<noteq> [] then Inl (PrerequisiteNotSatisfiedError c missing)
      else Inr (s\<lparr>discovered_clues := insert c (discovered_clues s)\<rparr>))"

section \<open>The snapshot and binding\<close>

datatype fact_category = FactLore | FactPlace | FactPerson | FactQuest | FactAbility

datatype fact_confidence = Certain | Suspected | Rumored | Discovered

record known_fact =
  fact_content :: string
  fact_confidence :: fact_confidence
  fact_source :: string
  learned_turn :: int
  fact_id :: string
  fact_category :: fact_category

record scenario_character =
  character_name :: string
  known_facts :: "known_fact list"

record scenario_snapshot =
  scenario :: "scenario_state option"
  snapshot_npcs :: "(string \<times> belief_state) list"
  characters :: "scenario_character list"
  interaction :: int

definition seed_beliefs :: "scenario_npc \<Rightarrow> belief_state \<Rightarrow> belief_state" where
  "seed_beliefs n s =
     fold (\<lambda>su. add_belief (make_suspicion (target su) (basis su) 0 Inferred (suspicion_confidence su))) (suspicions (npc_beliefs n))
       (fold (\<lambda>f. add_belief (BeliefFact (scenario_npc_name n) f 0 Witnessed)) (initial_facts (npc_beliefs n)) s)"

text \<open>The first NPC of that name in the snapshot, when there is one.\<close>

fun seed_npc :: "scenario_npc \<Rightarrow> (string \<times> belief_state) list \<Rightarrow> (string \<times> belief_state) list" where
  "seed_npc n [] = []"
| "seed_npc n ((name, b) # rest) =
     (if name = scenario_npc_name n then (name, seed_beliefs n b) # rest else (name, b) # seed_npc n rest)"

text \<open>The scenarios of the active world, in the order of its file; \<open>None\<close> for an unknown world.\<close>

definition bind_scenario ::
  "(string \<times> (string \<times> scenario_pack) list) list \<Rightarrow> string \<Rightarrow> scenario_snapshot \<Rightarrow>
   (rng, (string \<times> scenario_pack) option \<times> scenario_snapshot) sm" where
  "bind_scenario worlds world_slug snap =
     (case (case map_of worlds world_slug of None \<Rightarrow> [] | Some scenarios \<Rightarrow> scenarios) of
        [] \<Rightarrow> ret (None, snap)
      | (sid, pack) # _ \<Rightarrow>
          sbind (from_genre_pack pack) (\<lambda>state.
            ret (Some (sid, pack), snap\<lparr>scenario := Some state, snapshot_npcs := fold seed_npc (scenario_npcs pack) (snapshot_npcs snap)\<rparr>)))"

section \<open>Clues from footnotes\<close>

record footnote =
  footnote_fact_id :: "string option"
  footnote_summary :: string
  footnote_category :: fact_category

definition clue_fact :: "int \<Rightarrow> string \<Rightarrow> footnote \<Rightarrow> known_fact" where
  "clue_fact turn c fn = \<lparr>fact_content = footnote_summary fn, fact_confidence = Discovered, fact_source = ''ScenarioClue'',
     learned_turn = turn, fact_id = c, fact_category = footnote_category fn\<rparr>"

text \<open>One footnote: the state after it and the facts minted so far.\<close>

definition consume_footnote :: "int \<Rightarrow> footnote \<Rightarrow> scenario_state \<times> known_fact list \<Rightarrow> scenario_state \<times> known_fact list" where
  "consume_footnote turn fn sf =
     (case footnote_fact_id fn of
        None \<Rightarrow> sf
      | Some c \<Rightarrow>
          if c \<notin> clue_node_id ` set (clue_graph (fst sf)) then sf
          else
            (case discover_clue c (fst sf) of
               Inl e \<Rightarrow> sf
             | Inr s' \<Rightarrow> (s', if c \<notin> discovered_clues (fst sf) then snd sf @ [clue_fact turn c fn] else snd sf)))"

fun learn :: "string \<Rightarrow> known_fact list \<Rightarrow> scenario_character list \<Rightarrow> scenario_character list" where
  "learn who fs [] = []"
| "learn who fs (c # cs) = (if character_name c = who then c\<lparr>known_facts := known_facts c @ fs\<rparr> # cs else c # learn who fs cs)"

definition consume_clue_footnotes :: "footnote list \<Rightarrow> string \<Rightarrow> scenario_snapshot \<Rightarrow> scenario_snapshot" where
  "consume_clue_footnotes fns who snap =
     (case scenario snap of
        None \<Rightarrow> snap
      | Some s \<Rightarrow>
          let sf = fold (consume_footnote (interaction snap)) fns (s, []) in
          snap\<lparr>scenario := Some (fst sf), characters := learn who (snd sf) (characters snap)\<rparr>)"

section \<open>Accusations\<close>

datatype contribution = Helps | Hurts | NeutralPart

datatype verdict = Circumstantial | Strong | Airtight

record evidence_item =
  clue_id :: string
  evidence_description :: string
  evidence_confidence :: fact_confidence
  chain_of_custody :: "string list"
  contribution :: contribution

record evidence_summary =
  accused_npc :: string
  evidence :: "evidence_item list"
  verdict :: verdict
  score :: rat
  rationale :: string

definition confidence_weight :: "fact_confidence \<Rightarrow> rat" where
  "confidence_weight c = (case c of Certain \<Rightarrow> 2 | Suspected \<Rightarrow> 1 | Rumored \<Rightarrow> 1 / 2 | Discovered \<Rightarrow> 3 / 2)"

definition contribution_multiplier :: "contribution \<Rightarrow> rat" where
  "contribution_multiplier c = (case c of Helps \<Rightarrow> 1 | Hurts \<Rightarrow> - 1 | NeutralPart \<Rightarrow> 0)"

definition red_herring_ids :: "clue_node list \<Rightarrow> string set" where
  "red_herring_ids nodes = set (map clue_node_id (filter red_herring nodes))"

text \<open>
  The C library's power function is a parameter: \<open>hop n\<close> is the double \<open>0.7 ** n\<close>.
\<close>

definition item_score :: "(nat \<Rightarrow> rat) \<Rightarrow> evidence_item \<Rightarrow> rat" where
  "item_score hop item =
     rnd (rnd (confidence_weight (evidence_confidence item) * contribution_multiplier (contribution item)) * hop (length (chain_of_custody item)))"

definition add_item :: "(nat \<Rightarrow> rat) \<Rightarrow> string set \<Rightarrow> evidence_item \<Rightarrow> rat \<Rightarrow> rat" where
  "add_item hop herrings item acc = (if clue_id item \<in> herrings then acc else rnd (acc + item_score hop item))"

definition total_score :: "(nat \<Rightarrow> rat) \<Rightarrow> string set \<Rightarrow> evidence_item list \<Rightarrow> rat" where
  "total_score hop herrings items = fold (add_item hop herrings) items 0"

definition verdict_for :: "rat \<Rightarrow> rat \<Rightarrow> rat \<Rightarrow> verdict" where
  "verdict_for strong airtight x = (if x \<ge> airtight then Airtight else if x \<ge> strong then Strong else Circumstantial)"

definition verdict_name :: "verdict \<Rightarrow> string" where
  "verdict_name v = (case v of Circumstantial \<Rightarrow> ''Circumstantial'' | Strong \<Rightarrow> ''Strong'' | Airtight \<Rightarrow> ''Airtight'')"

text \<open>The format \<open>.2f\<close>: the decimal nearest to the exact value of the double.\<close>

definition show_2f :: "rat \<Rightarrow> string" where
  "show_2f x = (let n = nat (rhe (\<bar>x\<bar> * 100)) in
     (if x < 0 then ''-'' else []) @ show_nat (n div 100) @ ''.'' @ show_nat (n mod 100 div 10) @ show_nat (n mod 10))"

definition rationale_for :: "rat \<Rightarrow> rat \<Rightarrow> rat \<Rightarrow> verdict \<Rightarrow> nat \<Rightarrow> string" where
  "rationale_for strong airtight x v k =
     verdict_name v @ '' verdict from '' @ show_nat k @ '' evidence item(s): score '' @ show_2f x @
     '' against thresholds strong='' @ show_2f strong @ '', airtight='' @ show_2f airtight @ ''.''"

definition evaluate :: "(nat \<Rightarrow> rat) \<Rightarrow> rat \<Rightarrow> rat \<Rightarrow> scenario_state \<Rightarrow> string \<Rightarrow> evidence_item list \<Rightarrow> evidence_summary res" where
  "evaluate hop strong airtight s accused items =
     (if accused = [] then Inl (ValueError ''accused_npc cannot be empty'')
      else if items = [] then Inl (ValueError ''evidence list cannot be empty'')
      else
        let x = total_score hop (red_herring_ids (clue_graph s)) items; v = verdict_for strong airtight x in
        Inr \<lparr>accused_npc = accused, evidence = items, verdict = v, score = x, rationale = rationale_for strong airtight x v (length items)\<rparr>)"

definition SUPPORTED_CONFIDENCES :: "fact_confidence list" where
  "SUPPORTED_CONFIDENCES = [Certain, Suspected, Rumored, Discovered]"

definition evidence_fact :: "known_fact \<Rightarrow> bool" where
  "evidence_fact f \<longleftrightarrow> fact_source f = ''ScenarioClue'' \<and> fact_confidence f \<in> set SUPPORTED_CONFIDENCES"

text \<open>The constructor refuses an empty id or description.\<close>

definition evidence_from :: "string \<Rightarrow> known_fact \<Rightarrow> evidence_item res" where
  "evidence_from c f =
     (if c = [] \<or> fact_content f = [] then Inl (ValueError ''String should have at least 1 character'')
      else Inr \<lparr>clue_id = c, evidence_description = fact_content f, evidence_confidence = fact_confidence f,
                chain_of_custody = [], contribution = Helps\<rparr>)"

fun build_from :: "clue_node list \<Rightarrow> nat \<Rightarrow> known_fact list \<Rightarrow> evidence_item list res" where
  "build_from nodes i [] = Inr []"
| "build_from nodes i (f # fs) =
     (if evidence_fact f then
        rbind (evidence_from (clue_node_id (nodes ! min i (length nodes - 1))) f) (\<lambda>item.
          rbind (build_from nodes (Suc i) fs) (\<lambda>items. Inr (item # items)))
      else build_from nodes i fs)"

definition build_evidence :: "known_fact list \<Rightarrow> scenario_state \<Rightarrow> evidence_item list res" where
  "build_evidence facts s = (if clue_graph s = [] then Inr [] else build_from (clue_graph s) 0 facts)"

text \<open>The quoted name is its \<open>repr\<close>, for a name without quotes and backslashes.\<close>

definition no_evidence :: "string \<Rightarrow> string \<Rightarrow> evidence_summary" where
  "no_evidence accused why = \<lparr>accused_npc = accused, evidence = [], verdict = Circumstantial, score = 0, rationale = why\<rparr>"

definition consume_accusation_request :: "(nat \<Rightarrow> rat) \<Rightarrow> scenario_snapshot \<Rightarrow> string \<Rightarrow> string \<Rightarrow> evidence_summary option res" where
  "consume_accusation_request hop snap accused who =
     (case scenario snap of
        None \<Rightarrow> Inr None
      | Some s \<Rightarrow>
          (case find (\<lambda>c. character_name c = who) (characters snap) of
             None \<Rightarrow> Inr (Some (no_evidence accused (''No active character named '' @ [CHR 0x27] @ who @ [CHR 0x27] @ '' found; cannot assemble evidence.'')))
           | Some active \<Rightarrow>
               rbind (build_evidence (known_facts active) s) (\<lambda>items.
                 if items = [] then Inr (Some (no_evidence accused ''No scenario-sourced evidence in the active character's known facts; verdict defaults to Circumstantial pending discovery.''))
                 else rbind (evaluate hop 3 5 s accused items) (\<lambda>r. Inr (Some r)))))"

end
