(* ===== verification/Scenario_Properties.thy ===== *)
theory Scenario_Properties
  imports Scenario
begin

text \<open>
  What the scenario system guarantees: clues are found in the order their prerequisites allow and minted
  once, binding names its culprit, verdicts move with the evidence, and what an accusation does not see.
\<close>

section \<open>Clue discovery\<close>

definition prereqs_met :: "scenario_state \<Rightarrow> bool" where
  "prereqs_met s \<longleftrightarrow> (\<forall>c \<in> discovered_clues s. \<forall>n. node_of s c = Some n \<longrightarrow> set (requires n) \<subseteq> discovered_clues s)"

lemma discover_clue_Inr:
  assumes "discover_clue c s = Inr s'"
  shows "s' = s\<lparr>discovered_clues := insert c (discovered_clues s)\<rparr>" "\<And>n. node_of s c = Some n \<Longrightarrow> set (requires n) \<subseteq> discovered_clues s"
  using assms by (auto simp: discover_clue_def Let_def filter_empty_conv split: if_splits)

lemma node_of_update [simp]: "node_of (s\<lparr>discovered_clues := D\<rparr>) c = node_of s c"
  by (simp add: node_of_def)

lemma discover_keeps_prereqs: "discover_clue c s = Inr s' \<Longrightarrow> prereqs_met s \<Longrightarrow> prereqs_met s'"
  using discover_clue_Inr[of c s s'] by (fastforce simp: prereqs_met_def)

lemma discover_ready: "(\<And>n. node_of s c = Some n \<Longrightarrow> set (requires n) \<subseteq> discovered_clues s) \<Longrightarrow>
    discover_clue c s = Inr (s\<lparr>discovered_clues := insert c (discovered_clues s)\<rparr>)"
  by (cases "node_of s c") (auto simp: discover_clue_def Let_def filter_empty_conv subset_iff)

text \<open>What holds of the state and of the facts minted while a batch of footnotes is read.\<close>

definition intake :: "int \<Rightarrow> scenario_state \<Rightarrow> footnote set \<Rightarrow> scenario_state \<times> known_fact list \<Rightarrow> bool" where
  "intake turn s0 cited sf \<longleftrightarrow>
     prereqs_met (fst sf) \<and> (\<exists>D. fst sf = s0\<lparr>discovered_clues := discovered_clues s0 \<union> D\<rparr>) \<and>
     distinct (map fact_id (snd sf)) \<and> fact_id ` set (snd sf) = discovered_clues (fst sf) - discovered_clues s0 \<and>
     (\<forall>f \<in> set (snd sf). fact_id f \<in> clue_node_id ` set (clue_graph s0) \<and>
        (\<exists>fn \<in> cited. footnote_fact_id fn = Some (fact_id f) \<and> f = clue_fact turn (fact_id f) fn))"

lemma intake_frame:
  assumes "intake turn s0 cited (s, fs)"
  shows "clue_graph s = clue_graph s0" "node_of s c = node_of s0 c" "discovered_clues s0 \<subseteq> discovered_clues s"
  using assms by (auto simp: intake_def node_of_def)

lemma intake_step:
  assumes i: "intake turn s0 cited (s, fs)"
  shows "intake turn s0 (insert fn cited) (consume_footnote turn fn (s, fs))"
    and "discovered_clues s \<subseteq> discovered_clues (fst (consume_footnote turn fn (s, fs)))"
proof -
  have weak: "intake turn s0 (insert fn cited) (s, fs)" using i by (fastforce simp: intake_def)
  have "intake turn s0 (insert fn cited) (consume_footnote turn fn (s, fs)) \<and> discovered_clues s \<subseteq> discovered_clues (fst (consume_footnote turn fn (s, fs)))"
  proof (cases "\<exists>c s'. footnote_fact_id fn = Some c \<and> c \<in> clue_node_id ` set (clue_graph s) \<and> discover_clue c s = Inr s'")
    case False
    then have "consume_footnote turn fn (s, fs) = (s, fs)"
      by (auto simp: consume_footnote_def split: option.splits sum.splits)
    then show ?thesis using weak by simp
  next
    case True
    then obtain c s' where c: "footnote_fact_id fn = Some c" "c \<in> clue_node_id ` set (clue_graph s)" "discover_clue c s = Inr s'" by blast
    have s': "s' = s\<lparr>discovered_clues := insert c (discovered_clues s)\<rparr>" "prereqs_met s'"
      using discover_clue_Inr(1)[OF c(3)] discover_keeps_prereqs[OF c(3)] i by (auto simp: intake_def)
    obtain D where D: "s = s0\<lparr>discovered_clues := discovered_clues s0 \<union> D\<rparr>" using i by (auto simp: intake_def)
    have step: "consume_footnote turn fn (s, fs) = (s', if c \<notin> discovered_clues s then fs @ [clue_fact turn c fn] else fs)"
      using c by (simp add: consume_footnote_def)
    have "\<exists>D'. s' = s0\<lparr>discovered_clues := discovered_clues s0 \<union> D'\<rparr>" using s'(1) D by (intro exI[of _ "insert c D"]) simp
    moreover have "c \<notin> discovered_clues s \<Longrightarrow> c \<notin> fact_id ` set fs \<and> c \<notin> discovered_clues s0" using i D by (auto simp: intake_def)
    ultimately show ?thesis using step s' weak c(1,2) intake_frame[OF i]
      by (auto simp: intake_def clue_fact_def insert_Diff_if)
  qed
  then show "intake turn s0 (insert fn cited) (consume_footnote turn fn (s, fs))"
    "discovered_clues s \<subseteq> discovered_clues (fst (consume_footnote turn fn (s, fs)))" by simp_all
qed

lemma intake_fold:
  assumes "intake turn s0 cited sf"
  shows "intake turn s0 (set fns \<union> cited) (fold (consume_footnote turn) fns sf)"
    and "discovered_clues (fst sf) \<subseteq> discovered_clues (fst (fold (consume_footnote turn) fns sf))"
  using assms
proof (induction fns arbitrary: sf cited)
  case (Cons fn fns)
  {
    case 1
    then show ?case using Cons.IH(1)[OF intake_step(1)[of turn s0 cited "fst sf" "snd sf" fn]] by simp
  next
    case 2
    then show ?case using Cons.IH(2)[OF intake_step(1)[of turn s0 cited "fst sf" "snd sf" fn]]
        intake_step(2)[of turn s0 cited "fst sf" "snd sf" fn] by auto
  }
qed simp_all

lemma intake_start: "prereqs_met s \<Longrightarrow> intake turn s {} (s, [])"
  unfolding intake_def by (auto intro!: exI[of _ "{}"])

text \<open>A footnote that cites a clue whose prerequisites were met before the batch makes it discovered.\<close>

lemma ready_clue_found:
  assumes s: "prereqs_met s" and fn: "fn \<in> set fns" "footnote_fact_id fn = Some c" "c \<in> clue_node_id ` set (clue_graph s)"
    and ready: "\<And>n. node_of s c = Some n \<Longrightarrow> set (requires n) \<subseteq> discovered_clues s"
  shows "c \<in> discovered_clues (fst (fold (consume_footnote turn) fns (s, [])))"
proof -
  obtain before after where fns: "fns = before @ fn # after" using fn(1) by (meson split_list)
  obtain s1 f1 where r: "fold (consume_footnote turn) before (s, []) = (s1, f1)" by fastforce
  have i: "intake turn s (set before) (s1, f1)" using intake_fold(1)[OF intake_start[OF s], of turn before] r by simp
  have "discover_clue c s1 = Inr (s1\<lparr>discovered_clues := insert c (discovered_clues s1)\<rparr>)"
    using ready intake_frame[OF i] by (intro discover_ready) fastforce
  then have "c \<in> discovered_clues (fst (consume_footnote turn fn (s1, f1)))"
    using fn(2,3) intake_frame(1)[OF i] by (simp add: consume_footnote_def)
  then show ?thesis using intake_fold(2)[OF intake_step(1)[OF i, of fn], of after] r fns by auto
qed

text \<open>
  A batch of footnotes. Discovered clues stay closed under prerequisites; the active character learns
  exactly one fact per clue that the batch discovered, each carrying the clue's id and cited by a footnote of the
  batch; nothing else of the snapshot changes; and a cited clue whose prerequisites were met is discovered, whatever other
  footnotes of the batch were refused.
\<close>
theorem footnotes_advance_the_clue_graph:
  assumes "scenario snap = Some s" and "prereqs_met s"
  shows "\<exists>s' new. consume_clue_footnotes fns who snap = snap\<lparr>scenario := Some s', characters := learn who new (characters snap)\<rparr> \<and>
    prereqs_met s' \<and> s' = s\<lparr>discovered_clues := discovered_clues s'\<rparr> \<and> discovered_clues s \<subseteq> discovered_clues s' \<and>
    distinct (map fact_id new) \<and> fact_id ` set new = discovered_clues s' - discovered_clues s \<and>
    (\<forall>f \<in> set new. fact_id f \<in> clue_node_id ` set (clue_graph s) \<and>
       (\<exists>fn \<in> set fns. footnote_fact_id fn = Some (fact_id f) \<and> f = clue_fact (interaction snap) (fact_id f) fn)) \<and>
    (\<forall>fn \<in> set fns. \<forall>c. footnote_fact_id fn = Some c \<and> c \<in> clue_node_id ` set (clue_graph s) \<and>
       (\<forall>n. node_of s c = Some n \<longrightarrow> set (requires n) \<subseteq> discovered_clues s) \<longrightarrow> c \<in> discovered_clues s')"
proof -
  obtain s' new where r: "fold (consume_footnote (interaction snap)) fns (s, []) = (s', new)" by fastforce
  have i: "intake (interaction snap) s (set fns) (s', new)"
    using intake_fold(1)[OF intake_start[OF assms(2)], of "interaction snap" fns] r by simp
  have ready: "\<forall>fn \<in> set fns. \<forall>c. footnote_fact_id fn = Some c \<and> c \<in> clue_node_id ` set (clue_graph s) \<and>
       (\<forall>n. node_of s c = Some n \<longrightarrow> set (requires n) \<subseteq> discovered_clues s) \<longrightarrow> c \<in> discovered_clues s'"
    using ready_clue_found[OF assms(2), of _ fns _ "interaction snap"] r by simp
  have snap: "consume_clue_footnotes fns who snap = snap\<lparr>scenario := Some s', characters := learn who new (characters snap)\<rparr>"
    using assms(1) r by (simp add: consume_clue_footnotes_def Let_def)
  have frame: "s' = s\<lparr>discovered_clues := discovered_clues s'\<rparr>" using i by (auto simp: intake_def)
  have "prereqs_met s'" "distinct (map fact_id new)" "fact_id ` set new = discovered_clues s' - discovered_clues s"
    "\<forall>f \<in> set new. fact_id f \<in> clue_node_id ` set (clue_graph s) \<and>
       (\<exists>fn \<in> set fns. footnote_fact_id fn = Some (fact_id f) \<and> f = clue_fact (interaction snap) (fact_id f) fn)"
    using i unfolding intake_def fst_conv snd_conv by blast+
  then show ?thesis using snap ready frame intake_frame(3)[OF i] by (intro exI[of _ s'] exI[of _ new] conjI)
qed

theorem footnotes_advance_the_clue_graph_witness:
  "\<exists>s'. scenario (consume_clue_footnotes
      [\<lparr>footnote_fact_id = Some ''knife'', footnote_summary = ''A bloody knife.'', footnote_category = FactLore\<rparr>] ''Ada''
      \<lparr>scenario = Some \<lparr>clue_graph = [\<lparr>clue_node_id = ''knife'', clue_type = ''physical'', clue_description = ''k'', requires = [], red_herring = False\<rparr>],
         discovered_clues = {}, npc_roles = [], guilty_npc = ''x'', tension = 0, resolved = False, adjacency = [], questioned_npcs = {}\<rparr>,
        snapshot_npcs = [], characters = [\<lparr>character_name = ''Ada'', known_facts = []\<rparr>], interaction = 4\<rparr>) = Some s' \<and> ''knife'' \<in> discovered_clues s'"
proof -
  define fn where "fn = \<lparr>footnote_fact_id = Some ''knife'', footnote_summary = ''A bloody knife.'', footnote_category = FactLore\<rparr>"
  define s where "s = \<lparr>clue_graph = [\<lparr>clue_node_id = ''knife'', clue_type = ''physical'', clue_description = ''k'', requires = [], red_herring = False\<rparr>],
         discovered_clues = {}, npc_roles = [], guilty_npc = ''x'', tension = 0, resolved = False, adjacency = [], questioned_npcs = {}\<rparr>"
  define snap where "snap = \<lparr>scenario = Some s, snapshot_npcs = [], characters = [\<lparr>character_name = ''Ada'', known_facts = []\<rparr>], interaction = 4\<rparr>"
  have s: "scenario snap = Some s" and p: "prereqs_met s" by (simp_all add: snap_def prereqs_met_def s_def)
  have ready: "footnote_fact_id fn = Some ''knife'' \<and> ''knife'' \<in> clue_node_id ` set (clue_graph s) \<and>
      (\<forall>n. node_of s ''knife'' = Some n \<longrightarrow> set (requires n) \<subseteq> discovered_clues s)"
    by (simp add: fn_def s_def node_of_def)
  obtain s' new where "consume_clue_footnotes [fn] ''Ada'' snap = snap\<lparr>scenario := Some s', characters := learn ''Ada'' new (characters snap)\<rparr>"
    and "''knife'' \<in> discovered_clues s'"
    using footnotes_advance_the_clue_graph[OF s p, of "[fn]" "''Ada''"] ready by (metis list.set_intros(1))
  then have "\<exists>s'. scenario (consume_clue_footnotes [fn] ''Ada'' snap) = Some s' \<and> ''knife'' \<in> discovered_clues s'" by simp
  then show ?thesis unfolding fn_def snap_def s_def .
qed

section \<open>A scenario in play\<close>

text \<open>The facts about clues that a character holds.\<close>

definition clue_facts :: "scenario_character \<Rightarrow> string list" where
  "clue_facts c = map fact_id (filter (\<lambda>f. fact_source f = ''ScenarioClue'') (known_facts c))"

definition all_clue_facts :: "scenario_snapshot \<Rightarrow> string list" where
  "all_clue_facts snap = concat (map clue_facts (characters snap))"

text \<open>
  A game with a scenario: it is bound once to a snapshot whose characters hold no clue yet, then footnotes arrive,
  NPCs are questioned and the tension is set, in any order.
\<close>

inductive in_play :: "scenario_snapshot \<Rightarrow> bool" where
  bound: "bind_scenario worlds slug snap rng = (Inr (Some chosen, snap'), rng') \<Longrightarrow> all_clue_facts snap = [] \<Longrightarrow> in_play snap'"
| footnotes: "in_play snap \<Longrightarrow> in_play (consume_clue_footnotes fns who snap)"
| questioned: "in_play snap \<Longrightarrow> scenario snap = Some s \<Longrightarrow> in_play (snap\<lparr>scenario := Some (record_questioned_npc n s)\<rparr>)"
| tense: "in_play snap \<Longrightarrow> scenario snap = Some s \<Longrightarrow> in_play (snap\<lparr>scenario := Some (set_tension t s)\<rparr>)"

lemma learn_clue_facts:
  assumes "\<forall>f \<in> set new. fact_source f = ''ScenarioClue''"
  shows "mset (concat (map clue_facts (learn who new cs))) =
    mset (concat (map clue_facts cs)) + (if \<exists>c \<in> set cs. character_name c = who then mset (map fact_id new) else {#})"
  using assms by (induction cs) (auto simp: clue_facts_def filter_id_conv)

lemma bound_start:
  assumes "bind_scenario worlds slug snap rng = (Inr (Some chosen, snap'), rng')"
  shows "\<exists>s. scenario snap' = Some s \<and> discovered_clues s = {} \<and> tension s = 0 \<and> characters snap' = characters snap"
  using assms
  by (auto simp: bind_scenario_def from_genre_pack_def sbind_def ret_def split: list.splits prod.splits sum.splits)

definition play_ok :: "scenario_snapshot \<Rightarrow> bool" where
  "play_ok snap \<longleftrightarrow> (\<exists>s. scenario snap = Some s \<and> prereqs_met s \<and> 0 \<le> tension s \<and> tension s \<le> 1 \<and>
     distinct (all_clue_facts snap) \<and> set (all_clue_facts snap) \<subseteq> discovered_clues s)"

lemma notes_keep_play_ok:
  assumes "play_ok snap"
  shows "play_ok (consume_clue_footnotes fns who snap)"
proof -
  obtain s where s: "scenario snap = Some s" "prereqs_met s" "0 \<le> tension s" "tension s \<le> 1"
      "distinct (all_clue_facts snap)" "set (all_clue_facts snap) \<subseteq> discovered_clues s"
    using assms by (auto simp: play_ok_def)
  obtain s' new where r: "fold (consume_footnote (interaction snap)) fns (s, []) = (s', new)" by fastforce
  have i: "intake (interaction snap) s (set fns) (s', new)"
    using intake_fold(1)[OF intake_start[OF s(2)], of "interaction snap" fns] r by simp
  have snap: "consume_clue_footnotes fns who snap = snap\<lparr>scenario := Some s', characters := learn who new (characters snap)\<rparr>"
    using s(1) r by (simp add: consume_clue_footnotes_def Let_def)
  have "\<forall>f \<in> set new. fact_source f = ''ScenarioClue''"
  proof
    fix f assume "f \<in> set new"
    then obtain fn where "f = clue_fact (interaction snap) (fact_id f) fn" using i by (auto simp: intake_def)
    then have "fact_source f = fact_source (clue_fact (interaction snap) (fact_id f) fn)" by simp
    then show "fact_source f = ''ScenarioClue''" by (simp add: clue_fact_def)
  qed
  then have m: "mset (all_clue_facts (consume_clue_footnotes fns who snap)) =
      mset (all_clue_facts snap) + (if \<exists>c \<in> set (characters snap). character_name c = who then mset (map fact_id new) else {#})"
    by (simp add: snap all_clue_facts_def learn_clue_facts)
  have new: "distinct (map fact_id new)" "fact_id ` set new = discovered_clues s' - discovered_clues s" "prereqs_met s'" "tension s' = tension s"
    using i by (auto simp: intake_def)
  have "distinct (all_clue_facts snap @ map fact_id new)" using s(5,6) new by auto
  then have "distinct (all_clue_facts (consume_clue_footnotes fns who snap))"
    using m s(5) mset_eq_imp_distinct_iff[of "all_clue_facts (consume_clue_footnotes fns who snap)" "all_clue_facts snap @ map fact_id new"]
      mset_eq_imp_distinct_iff[of "all_clue_facts (consume_clue_footnotes fns who snap)" "all_clue_facts snap"]
    by (auto split: if_splits)
  moreover have "set (all_clue_facts (consume_clue_footnotes fns who snap)) \<subseteq> discovered_clues s'"
    using arg_cong[OF m, of set_mset] s(6) new(2) intake_frame(3)[OF i] by (auto split: if_splits)
  ultimately show ?thesis using s(3,4) new snap by (simp add: play_ok_def)
qed

lemma in_play_ok: "in_play snap \<Longrightarrow> play_ok snap"
proof (induction rule: in_play.induct)
  case (bound worlds slug snap rng chosen snap' rng')
  obtain s where s: "scenario snap' = Some s" "discovered_clues s = {}" "tension s = 0" "characters snap' = characters snap"
    using bound_start[OF bound(1)] by blast
  have "all_clue_facts snap' = []" using bound(2) s(4) unfolding all_clue_facts_def by simp
  then show ?case using s by (simp add: play_ok_def prereqs_met_def)
next
  case (footnotes snap fns who)
  then show ?case by (simp add: notes_keep_play_ok)
next
  case (questioned snap s n)
  then show ?case by (auto simp: play_ok_def record_questioned_npc_def prereqs_met_def node_of_def all_clue_facts_def)
next
  case (tense snap s t)
  then show ?case by (auto simp: play_ok_def set_tension_def prereqs_met_def node_of_def all_clue_facts_def)
qed



end
