(* ===== verification/Scenario_Verdicts.thy ===== *)
theory Scenario_Verdicts
  imports Scenario
begin

text \<open>
  Binding a scenario and judging an accusation: who is guilty, how the verdict moves with the evidence, and
  which evidence an accusation is built from.
\<close>

section \<open>Verdicts\<close>

text \<open>The bands of a verdict, weakest first.\<close>

fun band :: "verdict \<Rightarrow> nat" where
  "band Circumstantial = 0"
| "band Strong = 1"
| "band Airtight = 2"

lemma band_inj: "band v = band w \<Longrightarrow> v = w"
  by (cases v; cases w) simp_all

instantiation verdict :: linorder
begin

definition less_eq_verdict :: "verdict \<Rightarrow> verdict \<Rightarrow> bool" where
  "less_eq_verdict v w \<longleftrightarrow> band v \<le> band w"

definition less_verdict :: "verdict \<Rightarrow> verdict \<Rightarrow> bool" where
  "less_verdict v w \<longleftrightarrow> band v < band w"

instance
  by standard (auto simp: less_eq_verdict_def less_verdict_def intro: band_inj)

end

lemma verdict_mono: "strong \<le> airtight \<Longrightarrow> x \<le> y \<Longrightarrow> verdict_for strong airtight x \<le> verdict_for strong airtight y"
  by (auto simp: verdict_for_def less_eq_verdict_def)

lemma add_item_mono: "x \<le> y \<Longrightarrow> add_item hop h item x \<le> add_item hop h item y"
  by (simp add: add_item_def rnd_mono)

lemma add_items_mono: "x \<le> y \<Longrightarrow> fold (add_item hop h) items x \<le> fold (add_item hop h) items y"
  by (induction items arbitrary: x y) (simp_all add: add_item_mono)

lemma add_items_double: "rnd x = x \<Longrightarrow> rnd (fold (add_item hop h) items x) = fold (add_item hop h) items x"
  by (induction items arbitrary: x) (simp_all add: add_item_def)

lemma item_score_sign:
  assumes "\<And>n. 0 \<le> hop n"
  shows "contribution item = Helps \<Longrightarrow> 0 \<le> item_score hop item" "contribution item = NeutralPart \<Longrightarrow> item_score hop item = 0"
    "contribution item = Hurts \<Longrightarrow> item_score hop item \<le> 0"
proof -
  have w: "0 \<le> rnd (confidence_weight c)" for c by (intro rnd_nonneg) (simp add: confidence_weight_def split: fact_confidence.split)
  then have p: "0 \<le> rnd (rnd (confidence_weight c) * hop n)" for c n using assms by (intro rnd_nonneg) simp
  show "contribution item = Helps \<Longrightarrow> 0 \<le> item_score hop item" "contribution item = NeutralPart \<Longrightarrow> item_score hop item = 0"
    "contribution item = Hurts \<Longrightarrow> item_score hop item \<le> 0"
    using p by (simp_all add: item_score_def contribution_multiplier_def rnd_minus)
qed

text \<open>One more item: it counts for what it says, and a red herring for nothing.\<close>

lemma add_item_moves:
  assumes hop: "\<And>n. 0 \<le> hop n" and x: "rnd x = x"
  shows "contribution item = Helps \<Longrightarrow> x \<le> add_item hop h item x" "contribution item = Hurts \<Longrightarrow> add_item hop h item x \<le> x"
    "clue_id item \<in> h \<or> contribution item = NeutralPart \<Longrightarrow> add_item hop h item x = x"
proof -
  note s = item_score_sign[OF hop, of item]
  show "contribution item = Helps \<Longrightarrow> x \<le> add_item hop h item x" using s(1) x rnd_mono[of x "x + item_score hop item"] by (simp add: add_item_def)
  show "contribution item = Hurts \<Longrightarrow> add_item hop h item x \<le> x" using s(3) x rnd_mono[of "x + item_score hop item" x] by (simp add: add_item_def)
  show "clue_id item \<in> h \<or> contribution item = NeutralPart \<Longrightarrow> add_item hop h item x = x" using s(2) x by (auto simp: add_item_def)
qed

text \<open>
  C22. A verdict follows the evidence. Putting one more item anywhere in the list cannot lower score and verdict when the item
  helps, cannot raise them when it hurts, and leaves them as they are when the item is neutral or its clue is a red
  herring; an accusation without a target or without evidence is refused.
\<close>
theorem verdict_follows_evidence:
  assumes "\<And>n. 0 \<le> hop n" and "strong \<le> airtight" and "accused \<noteq> []" and "before @ after \<noteq> []"
  shows "\<exists>r1 r2. evaluate hop strong airtight s accused (before @ after) = Inr r1 \<and>
      evaluate hop strong airtight s accused (before @ item # after) = Inr r2 \<and>
      (contribution item = Helps \<longrightarrow> score r1 \<le> score r2 \<and> verdict r1 \<le> verdict r2) \<and>
      (contribution item = Hurts \<longrightarrow> score r2 \<le> score r1 \<and> verdict r2 \<le> verdict r1) \<and>
      (contribution item = NeutralPart \<or> (\<exists>n \<in> set (clue_graph s). red_herring n \<and> clue_node_id n = clue_id item) \<longrightarrow>
         score r2 = score r1 \<and> verdict r2 = verdict r1) \<and>
      evaluate hop strong airtight s [] (before @ after) = Inl (ValueError ''accused_npc cannot be empty'') \<and>
      evaluate hop strong airtight s accused [] = Inl (ValueError ''evidence list cannot be empty'')"
proof -
  let ?h = "red_herring_ids (clue_graph s)"
  let ?x = "fold (add_item hop ?h) before 0" and ?rest = "fold (add_item hop ?h) after"
  have d: "rnd ?x = ?x" by (rule add_items_double) simp
  have herring: "clue_id item \<in> ?h" if "n \<in> set (clue_graph s)" "red_herring n" "clue_node_id n = clue_id item" for n
    using that by (auto simp: red_herring_ids_def image_iff)
  note m = add_item_moves[OF assms(1) d, of item]
  have helps: "contribution item = Helps \<Longrightarrow> ?rest ?x \<le> ?rest (add_item hop ?h item ?x)" by (rule add_items_mono[OF m(1)])
  have hurts: "contribution item = Hurts \<Longrightarrow> ?rest (add_item hop ?h item ?x) \<le> ?rest ?x" by (rule add_items_mono[OF m(2)])
  have neither: "?rest (add_item hop ?h item ?x) = ?rest ?x"
    if "contribution item = NeutralPart \<or> (\<exists>n \<in> set (clue_graph s). red_herring n \<and> clue_node_id n = clue_id item)"
    using that m(3) herring by auto
  show ?thesis using helps hurts neither assms(3,4) verdict_mono[OF assms(2)] by (simp add: evaluate_def Let_def total_score_def)
qed

theorem verdict_follows_evidence_witness:
  "\<exists>r1 r2. evaluate (\<lambda>n. 1 / 2) 3 5
       \<lparr>clue_graph = [], discovered_clues = {}, npc_roles = [], guilty_npc = ''x'', tension = 0, resolved = False, adjacency = [], questioned_npcs = {}\<rparr> ''x''
       [\<lparr>clue_id = ''a'', evidence_description = ''d'', evidence_confidence = Certain, chain_of_custody = [], contribution = Helps\<rparr>] = Inr r1 \<and>
     evaluate (\<lambda>n. 1 / 2) 3 5
       \<lparr>clue_graph = [], discovered_clues = {}, npc_roles = [], guilty_npc = ''x'', tension = 0, resolved = False, adjacency = [], questioned_npcs = {}\<rparr> ''x''
       [\<lparr>clue_id = ''a'', evidence_description = ''d'', evidence_confidence = Certain, chain_of_custody = [], contribution = Helps\<rparr>,
        \<lparr>clue_id = ''b'', evidence_description = ''d'', evidence_confidence = Suspected, chain_of_custody = [''m''], contribution = Helps\<rparr>] = Inr r2 \<and> score r1 \<le> score r2"
  using verdict_follows_evidence[where hop = "\<lambda>n. 1 / 2" and strong = 3 and airtight = 5 and accused = "''x''" and after = "[]"
    and before = "[\<lparr>clue_id = ''a'', evidence_description = ''d'', evidence_confidence = Certain, chain_of_custody = [], contribution = Helps\<rparr>]"
    and item = "\<lparr>clue_id = ''b'', evidence_description = ''d'', evidence_confidence = Suspected, chain_of_custody = [''m''], contribution = Helps\<rparr>"
    and s = "\<lparr>clue_graph = [], discovered_clues = {}, npc_roles = [], guilty_npc = ''x'', tension = 0, resolved = False, adjacency = [], questioned_npcs = {}\<rparr>"]
  by fastforce

section \<open>The evidence of an accusation\<close>

definition judged :: "evidence_item \<Rightarrow> string \<times> fact_confidence \<times> contribution \<times> nat" where
  "judged item = (clue_id item, evidence_confidence item, contribution item, length (chain_of_custody item))"

lemma judged_item [simp]:
  "judged \<lparr>clue_id = c, evidence_description = d, evidence_confidence = k, chain_of_custody = ch, contribution = b\<rparr> = (c, k, b, length ch)"
  by (simp add: judged_def)

lemma total_score_judged: "map judged items = map judged items2 \<Longrightarrow> fold (add_item hop h) items x = fold (add_item hop h) items2 x"
proof (induction items arbitrary: items2 x)
  case (Cons item items)
  then obtain item2 rest where r: "items2 = item2 # rest" "judged item2 = judged item" "map judged items = map judged rest" by auto
  have "add_item hop h item2 x = add_item hop h item x" using r(2) by (simp add: judged_def add_item_def item_score_def)
  then show ?case using Cons.IH[OF r(3)] r(1) by simp
qed simp

lemma build_from_positions:
  assumes "\<forall>n \<in> set nodes. clue_node_id n \<noteq> []" "nodes \<noteq> []" "\<forall>f \<in> set facts. fact_content f \<noteq> []"
  shows "\<exists>items. build_from nodes i facts = Inr items \<and> map judged items =
    map (\<lambda>(j, c). (clue_node_id (nodes ! min j (length nodes - 1)), c, Helps, 0)) (enumerate i (map fact_confidence (filter evidence_fact facts)))"
  using assms(3)
proof (induction facts arbitrary: i)
  case (Cons f facts)
  obtain items where items: "build_from nodes (Suc i) facts = Inr items" "map judged items =
      map (\<lambda>(j, c). (clue_node_id (nodes ! min j (length nodes - 1)), c, Helps, 0)) (enumerate (Suc i) (map fact_confidence (filter evidence_fact facts)))"
    using Cons.IH[of "Suc i"] Cons.prems by auto
  obtain skipped where "build_from nodes i facts = Inr skipped" "map judged skipped =
      map (\<lambda>(j, c). (clue_node_id (nodes ! min j (length nodes - 1)), c, Helps, 0)) (enumerate i (map fact_confidence (filter evidence_fact facts)))"
    using Cons.IH[of i] Cons.prems by auto
  moreover have "nodes ! min i (length nodes - 1) \<in> set nodes" using assms(2) by (simp add: min_less_iff_disj)
  then have "clue_node_id (nodes ! min i (length nodes - 1)) \<noteq> []" using assms(1) by blast
  ultimately show ?case using items Cons.prems by (simp add: evidence_from_def)
qed simp

text \<open>
  An accusation does not look at which clues were found. Clues are paired with the nodes of the clue graph by their position, so
  two investigators who hold as many clue facts with the same confidences get the same score and verdict, whichever
  clues the facts are about.
\<close>
theorem accusation_ignores_which_clues:
  assumes "scenario snap = Some s" and "clue_graph s \<noteq> []" and "\<forall>n \<in> set (clue_graph s). clue_node_id n \<noteq> []"
    and "find (\<lambda>c. character_name c = who1) (characters snap) = Some c1" and "\<forall>f \<in> set (known_facts c1). fact_content f \<noteq> []"
    and "find (\<lambda>c. character_name c = who2) (characters snap) = Some c2" and "\<forall>f \<in> set (known_facts c2). fact_content f \<noteq> []"
    and "map fact_confidence (filter evidence_fact (known_facts c1)) = map fact_confidence (filter evidence_fact (known_facts c2))"
    and "accused \<noteq> []"
  shows "\<exists>r1 r2. consume_accusation_request hop snap accused who1 = Inr (Some r1) \<and> consume_accusation_request hop snap accused who2 = Inr (Some r2) \<and>
    score r1 = score r2 \<and> verdict r1 = verdict r2"
proof -
  obtain i1 where i1: "build_evidence (known_facts c1) s = Inr i1" "map judged i1 =
      map (\<lambda>(j, c). (clue_node_id (clue_graph s ! min j (length (clue_graph s) - 1)), c, Helps, 0)) (enumerate 0 (map fact_confidence (filter evidence_fact (known_facts c1))))"
    using build_from_positions[OF assms(3,2,5), of 0] assms(2) by (auto simp: build_evidence_def)
  obtain i2 where i2: "build_evidence (known_facts c2) s = Inr i2" "map judged i2 =
      map (\<lambda>(j, c). (clue_node_id (clue_graph s ! min j (length (clue_graph s) - 1)), c, Helps, 0)) (enumerate 0 (map fact_confidence (filter evidence_fact (known_facts c2))))"
    using build_from_positions[OF assms(3,2,7), of 0] assms(2) by (auto simp: build_evidence_def)
  have j: "map judged i1 = map judged i2" using i1(2) i2(2) assms(8) by simp
  then have "i1 = [] \<longleftrightarrow> i2 = []" by (metis map_is_Nil_conv)
  moreover have "total_score hop h i1 = total_score hop h i2" for h unfolding total_score_def by (rule total_score_judged[OF j])
  ultimately show ?thesis using assms(1,4,6,9) i1(1) i2(1)
    by (auto simp: consume_accusation_request_def evaluate_def no_evidence_def Let_def)
qed

theorem accusation_ignores_which_clues_witness:
  "\<exists>r1 r2. consume_accusation_request (\<lambda>n. 1)
      \<lparr>scenario = Some \<lparr>clue_graph = [\<lparr>clue_node_id = ''knife'', clue_type = ''t'', clue_description = ''d'', requires = [], red_herring = False\<rparr>],
         discovered_clues = {}, npc_roles = [], guilty_npc = ''x'', tension = 0, resolved = False, adjacency = [], questioned_npcs = {}\<rparr>,
       snapshot_npcs = [], characters = [
         \<lparr>character_name = ''Ada'', known_facts = [\<lparr>fact_content = ''A knife.'', fact_confidence = Discovered, fact_source = ''ScenarioClue'', learned_turn = 1, fact_id = ''knife'', fact_category = FactLore\<rparr>]\<rparr>,
         \<lparr>character_name = ''Bea'', known_facts = [\<lparr>fact_content = ''A glove.'', fact_confidence = Discovered, fact_source = ''ScenarioClue'', learned_turn = 1, fact_id = ''glove'', fact_category = FactLore\<rparr>]\<rparr>], interaction = 4\<rparr>
      ''x'' ''Ada'' = Inr (Some r1) \<and> score r1 = score (r2::evidence_summary)"
proof -
  define s where "s = \<lparr>clue_graph = [\<lparr>clue_node_id = ''knife'', clue_type = ''t'', clue_description = ''d'', requires = [], red_herring = False\<rparr>],
         discovered_clues = {}, npc_roles = [], guilty_npc = ''x'', tension = 0, resolved = False, adjacency = [], questioned_npcs = {}\<rparr>"
  define ada where "ada = \<lparr>character_name = ''Ada'', known_facts = [\<lparr>fact_content = ''A knife.'', fact_confidence = Discovered, fact_source = ''ScenarioClue'', learned_turn = 1, fact_id = ''knife'', fact_category = FactLore\<rparr>]\<rparr>"
  define bea where "bea = \<lparr>character_name = ''Bea'', known_facts = [\<lparr>fact_content = ''A glove.'', fact_confidence = Discovered, fact_source = ''ScenarioClue'', learned_turn = 1, fact_id = ''glove'', fact_category = FactLore\<rparr>]\<rparr>"
  define snap where "snap = \<lparr>scenario = Some s, snapshot_npcs = [], characters = [ada, bea], interaction = 4\<rparr>"
  have h: "scenario snap = Some s" "clue_graph s \<noteq> []" "\<forall>n \<in> set (clue_graph s). clue_node_id n \<noteq> []"
    "find (\<lambda>c. character_name c = ''Ada'') (characters snap) = Some ada" "\<forall>f \<in> set (known_facts ada). fact_content f \<noteq> []"
    "find (\<lambda>c. character_name c = ''Bea'') (characters snap) = Some bea" "\<forall>f \<in> set (known_facts bea). fact_content f \<noteq> []"
    "map fact_confidence (filter evidence_fact (known_facts ada)) = map fact_confidence (filter evidence_fact (known_facts bea))" "''x'' \<noteq> []"
    by (simp_all add: snap_def s_def ada_def bea_def evidence_fact_def)
  obtain r1 r2 :: evidence_summary where "consume_accusation_request (\<lambda>n. 1) snap ''x'' ''Ada'' = Inr (Some r1)" "score r1 = score r2"
    using accusation_ignores_which_clues[OF h, of "\<lambda>n. 1"] by (elim exE conjE) (rule that, assumption+)
  then have "\<exists>r1 r2. consume_accusation_request (\<lambda>n. 1) snap ''x'' ''Ada'' = Inr (Some r1) \<and> score r1 = score (r2::evidence_summary)" by blast
  then show ?thesis unfolding snap_def s_def ada_def bea_def by simp
qed

text \<open>So an investigator who has only found the red herring of a scenario is credited with its first clue.\<close>

lemma red_herring_scores:
  "map_option score (projr (consume_accusation_request (\<lambda>n. 1)
     (consume_clue_footnotes [\<lparr>footnote_fact_id = Some ''glove'', footnote_summary = ''A glove.'', footnote_category = FactLore\<rparr>] ''Ada''
       \<lparr>scenario = Some \<lparr>clue_graph = [\<lparr>clue_node_id = ''knife'', clue_type = ''t'', clue_description = ''d'', requires = [], red_herring = False\<rparr>,
            \<lparr>clue_node_id = ''glove'', clue_type = ''t'', clue_description = ''d'', requires = [], red_herring = True\<rparr>],
          discovered_clues = {}, npc_roles = [], guilty_npc = ''x'', tension = 0, resolved = False, adjacency = [], questioned_npcs = {}\<rparr>,
         snapshot_npcs = [], characters = [\<lparr>character_name = ''Ada'', known_facts = []\<rparr>], interaction = 4\<rparr>) ''x'' ''Ada'')) = Some (3 / 2)"
proof -
  have "rnd (3 / 2) = 3 / 2" by code_simp
  then show ?thesis
    by (simp add: consume_clue_footnotes_def consume_footnote_def discover_clue_def node_of_def clue_fact_def Let_def consume_accusation_request_def
        build_evidence_def evidence_fact_def SUPPORTED_CONFIDENCES_def evidence_from_def evaluate_def total_score_def add_item_def item_score_def
        red_herring_ids_def confidence_weight_def contribution_multiplier_def)
qed

section \<open>Binding\<close>

lemma fold_update_at:
  assumes "distinct (map f ns)" and "n \<in> set ns"
  shows "map_of (fold (\<lambda>n. AList.update (f n) (g n)) ns d) (f n) = Some (g n)"
  using assms by (induction ns rule: rev_induct) (auto simp: update_conv' image_iff)

lemma seed_npc_at:
  "map_of (seed_npc n t) m = map_option (\<lambda>b. if m = scenario_npc_name n then seed_beliefs n b else b) (map_of t m)"
  by (induction t) (auto simp: option.map_ident)

lemma seed_npcs_at:
  assumes "distinct (map scenario_npc_name ns)"
  shows "n \<in> set ns \<Longrightarrow> map_of (fold seed_npc ns t) (scenario_npc_name n) = map_option (seed_beliefs n) (map_of t (scenario_npc_name n))"
    and "m \<notin> scenario_npc_name ` set ns \<Longrightarrow> map_of (fold seed_npc ns t) m = map_of t m"
proof -
  show other: "m \<notin> scenario_npc_name ` set ns \<Longrightarrow> map_of (fold seed_npc ns t) m = map_of t m" for m ns t
    by (induction ns arbitrary: t) (simp_all add: seed_npc_at option.map_ident)
  show "n \<in> set ns \<Longrightarrow> map_of (fold seed_npc ns t) (scenario_npc_name n) = map_option (seed_beliefs n) (map_of t (scenario_npc_name n))"
    using assms by (induction ns arbitrary: t) (auto simp: seed_npc_at other image_iff option.map_ident)
qed

lemma fold_add_belief: "fold (\<lambda>x. add_belief (h x)) xs c = c\<lparr>beliefs := beliefs c @ map h xs\<rparr>"
  by (induction xs arbitrary: c) (simp_all add: add_belief_def)

lemma seed_beliefs_appends:
  "seed_beliefs n b = b\<lparr>beliefs := beliefs b @ map (\<lambda>f. BeliefFact (scenario_npc_name n) f 0 Witnessed) (initial_facts (npc_beliefs n)) @
     map (\<lambda>su. make_suspicion (target su) (basis su) 0 Inferred (suspicion_confidence su)) (suspicions (npc_beliefs n))\<rparr>"
  by (simp add: seed_beliefs_def fold_add_belief)

lemma choose_guilty_result:
  assumes "choose_guilty pack rng = (Inr g, rng')"
  shows "filter can_be_guilty (suspects pack) \<noteq> [] \<Longrightarrow> \<exists>su \<in> set (suspects pack). can_be_guilty su \<and> suspect_id su = g"
    and "filter can_be_guilty (suspects pack) = [] \<Longrightarrow> g = (case scenario_npcs pack of [] \<Rightarrow> [] | n # _ \<Rightarrow> scenario_npc_id n)"
proof -
  assume ne: "filter can_be_guilty (suspects pack) \<noteq> []"
  then have "ok (choose_guilty pack) (\<lambda>x. x \<in> set (map suspect_id (filter can_be_guilty (suspects pack))))"
    using choice_ok[of "map suspect_id (filter can_be_guilty (suspects pack))"] by (simp add: choose_guilty_def)
  then show "\<exists>su \<in> set (suspects pack). can_be_guilty su \<and> suspect_id su = g" using ok_result[of "choose_guilty pack" _ rng] assms by fastforce
qed (use assms in \<open>auto simp: choose_guilty_def ret_def\<close>)

text \<open>
  Binding the first scenario of a world. The culprit is one of the suspects that may be guilty, or the first NPC when there is
  none; each NPC of the scenario has the role that its id and its suspicions give it, and gossips with all the others; no
  clue is found yet; and the NPCs of the snapshot that the scenario names gain their authored beliefs after those they
  had, while all the others keep theirs.
\<close>
theorem binding_casts_the_scenario:
  assumes "bind_scenario worlds slug snap rng = (Inr (Some (sid, pack), snap'), rng')" and "distinct (map scenario_npc_name (scenario_npcs pack))"
  shows "\<exists>s rest. map_of worlds slug = Some ((sid, pack) # rest) \<and> scenario snap' = Some s \<and> discovered_clues s = {} \<and> clue_graph s = pack_clue_graph pack \<and>
    (if filter can_be_guilty (suspects pack) = [] then guilty_npc s = (case scenario_npcs pack of [] \<Rightarrow> [] | n # _ \<Rightarrow> scenario_npc_id n)
     else \<exists>su \<in> set (suspects pack). can_be_guilty su \<and> suspect_id su = guilty_npc s) \<and>
    (\<forall>n \<in> set (scenario_npcs pack).
       map_of (npc_roles s) (scenario_npc_name n) = Some (if scenario_npc_id n = guilty_npc s then Guilty else if suspicions (npc_beliefs n) \<noteq> [] then Witness else Innocent) \<and>
       map_of (adjacency s) (scenario_npc_name n) = Some (filter (\<lambda>m. m \<noteq> scenario_npc_name n) (map scenario_npc_name (scenario_npcs pack))) \<and>
       map_of (snapshot_npcs snap') (scenario_npc_name n) = map_option (\<lambda>b. b\<lparr>beliefs := beliefs b @
           map (\<lambda>f. BeliefFact (scenario_npc_name n) f 0 Witnessed) (initial_facts (npc_beliefs n)) @
           map (\<lambda>su. make_suspicion (target su) (basis su) 0 Inferred (suspicion_confidence su)) (suspicions (npc_beliefs n))\<rparr>) (map_of (snapshot_npcs snap) (scenario_npc_name n))) \<and>
    (\<forall>m. m \<notin> scenario_npc_name ` set (scenario_npcs pack) \<longrightarrow> map_of (snapshot_npcs snap') m = map_of (snapshot_npcs snap) m)"
proof -
  obtain rest where w: "map_of worlds slug = Some ((sid, pack) # rest)"
    using assms(1) by (auto simp: bind_scenario_def sbind_def ret_def split: option.splits list.splits prod.splits sum.splits)
  obtain g r where g: "choose_guilty pack rng = (Inr g, r)" and snap': "snap' = snap\<lparr>scenario := Some
      \<lparr>clue_graph = pack_clue_graph pack, discovered_clues = {}, npc_roles = roles_of g (scenario_npcs pack),
       guilty_npc = g, tension = 0, resolved = False, adjacency = adjacency_of (map scenario_npc_name (scenario_npcs pack)), questioned_npcs = {}\<rparr>,
      snapshot_npcs := fold seed_npc (scenario_npcs pack) (snapshot_npcs snap)\<rparr>"
    using assms(1) w by (auto simp: bind_scenario_def from_genre_pack_def sbind_def ret_def split: prod.splits sum.splits)
  have "map_of (roles_of g (scenario_npcs pack)) (scenario_npc_name n) = Some (role_for g n)" if "n \<in> set (scenario_npcs pack)" for n
    unfolding roles_of_def by (rule fold_update_at[OF assms(2) that])
  moreover have "map_of (adjacency_of (map scenario_npc_name (scenario_npcs pack))) m = Some (filter (\<lambda>x. x \<noteq> m) (map scenario_npc_name (scenario_npcs pack)))"
    if "m \<in> set (map scenario_npc_name (scenario_npcs pack))" for m
    unfolding adjacency_of_def using fold_update_at[of "\<lambda>x. x" "map scenario_npc_name (scenario_npcs pack)" m] assms(2) that by simp
  ultimately show ?thesis
    using w choose_guilty_result[OF g] seed_npcs_at[OF assms(2)] unfolding snap' seed_beliefs_appends[abs_def] role_for_def by simp
qed

theorem binding_casts_the_scenario_witness:
  "\<exists>s. scenario (snd (projr (fst (bind_scenario [(''w'', [(''s'', \<lparr>pack_name = ''p'', suspects = [\<lparr>suspect_id = ''n1'', archetype_ref = ''a'', can_be_guilty = True\<rparr>],
      pack_clue_graph = [], scenario_npcs = []\<rparr>)])] ''w''
      \<lparr>scenario = None, snapshot_npcs = [], characters = [], interaction = 0\<rparr> [])))) = Some s \<and> guilty_npc s = ''n1''"
proof -
  let ?worlds = "[(''w'', [(''s'', \<lparr>pack_name = ''p'', suspects = [\<lparr>suspect_id = ''n1'', archetype_ref = ''a'', can_be_guilty = True\<rparr>],
      pack_clue_graph = [], scenario_npcs = []\<rparr>)])]"
  let ?snap = "\<lparr>scenario = None, snapshot_npcs = [], characters = [], interaction = 0\<rparr>"
  have "\<exists>snap' r. bind_scenario ?worlds ''w'' ?snap [] = (Inr (Some (''s'', \<lparr>pack_name = ''p'',
      suspects = [\<lparr>suspect_id = ''n1'', archetype_ref = ''a'', can_be_guilty = True\<rparr>], pack_clue_graph = [], scenario_npcs = []\<rparr>), snap'), r)"
    by (simp add: bind_scenario_def from_genre_pack_def choose_guilty_def choice_def randbelow_def sbind_def ret_def)
  then obtain snap' r where b: "bind_scenario ?worlds ''w'' ?snap [] = (Inr (Some (''s'', \<lparr>pack_name = ''p'',
      suspects = [\<lparr>suspect_id = ''n1'', archetype_ref = ''a'', can_be_guilty = True\<rparr>], pack_clue_graph = [], scenario_npcs = []\<rparr>), snap'), r)" by blast
  show ?thesis using binding_casts_the_scenario[OF b] b by auto
qed

end
