(* ===== verification/Tropes.thy ===== *)
theory Tropes
  imports Prelude Float64 "HOL-Library.List_Lexorder" "HOL-Library.Char_ord" "HOL-Library.Product_Lexorder"
begin

text \<open>
  The trope engine: the passes of a tick (src/sidequest/game/trope_tick.py), the drift over skipped days
  (trope_time_skip.py), the tuning constants (trope_tuning.py) and the zone filter of activations
  (zone_eligibility.py, GameSnapshot.region_for). Progress is a double, so every sum and product is
  rounded; the telemetry of a pass is left out.
\<close>

section \<open>Definitions and states\<close>

record trope_escalation =
  at_progress :: rat
  beat_event :: string
  npcs_involved :: "string list"
  stakes :: string

record passive_progression =
  rate_per_turn :: rat
  rate_per_day :: rat

record trope_definition =
  tdef_id :: "string option"
  tdef_name :: string
  escalation :: "trope_escalation list"
  passive_prog :: "passive_progression option"
  factions :: "string list"

datatype trope_status = Dormant | Progressing | Resolved

record trope_state =
  trope_id :: string
  status :: trope_status
  progress :: rat
  beats_fired :: nat
  fire_cooldown_until :: "int option"
  last_fired_turn :: "int option"

record time_skip_beat =
  tsb_trope_id :: string
  tsb_trope_name :: string
  beat_index :: nat
  tsb_event :: string
  tsb_stakes :: string
  tsb_npcs :: "string list"
  days_into_skip :: int

text \<open>A cartography is the \<open>controlled_by\<close> of each region.\<close>

type_synonym cartography = "(string \<times> string option) list"

record trope_pack =
  pack_tropes :: "trope_definition list"
  pack_worlds :: "(string \<times> cartography option) list"

record trope_snapshot =
  active_tropes :: "trope_state list"
  pending_time_skip_summary :: "time_skip_beat list"
  days_elapsed :: int
  world_slug :: string
  seats :: "(string \<times> string) list"
  pc_regions :: "(string \<times> string) list"

definition MAX_SIMULTANEOUS_ACTIVE :: nat where "MAX_SIMULTANEOUS_ACTIVE = 3"
definition FIRE_COOLDOWN_TURNS :: int where "FIRE_COOLDOWN_TURNS = 2"
definition FOREGROUND_K :: nat where "FOREGROUND_K = 2"
definition PROGRESSION_RATE_MULTIPLIER :: rat where "PROGRESSION_RATE_MULTIPLIER = 1 / 2"
definition DAY_TICK_CAP :: int where "DAY_TICK_CAP = 14"

definition tropes_by_id :: "trope_definition list \<Rightarrow> (string \<times> trope_definition) list" where
  "tropes_by_id ds = fold (\<lambda>d m. case tdef_id d of None \<Rightarrow> m | Some i \<Rightarrow> AList.update i d m) ds []"

section \<open>Zones\<close>

definition named :: "string option \<Rightarrow> bool" where
  "named f = (case f of None \<Rightarrow> False | Some s \<Rightarrow> s \<noteq> [])"

definition world_is_zoned :: "cartography option \<Rightarrow> bool" where
  "world_is_zoned c = (case c of None \<Rightarrow> False | Some regions \<Rightarrow> list_ex (\<lambda>r. named (snd r)) regions)"

definition is_eligible :: "string list \<Rightarrow> string list \<Rightarrow> bool \<Rightarrow> bool" where
  "is_eligible content act zoned =
     (if \<not> zoned then True
      else if act = [] then True
      else if ''*'' \<in> set content then True
      else if content = [] then True
      else set content \<inter> set act \<noteq> {})"

definition cartography_for :: "trope_snapshot \<Rightarrow> trope_pack \<Rightarrow> cartography option" where
  "cartography_for snap pack =
     (if world_slug snap = [] then None
      else case map_of (pack_worlds pack) (world_slug snap) of None \<Rightarrow> None | Some c \<Rightarrow> c)"

definition region_for :: "trope_snapshot \<Rightarrow> string option \<Rightarrow> string option" where
  "region_for snap perspective =
     (case perspective of
        Some p \<Rightarrow> if p = [] then None else map_of (pc_regions snap) p
      | None \<Rightarrow>
          (case filter (\<lambda>n. n \<noteq> []) (map snd (seats snap)) of
             [] \<Rightarrow> None
           | seated \<Rightarrow>
               let regions = map (map_of (pc_regions snap)) seated in
               if None \<in> set regions \<or> card (set regions) \<noteq> 1 then None else hd regions))"

definition faction_for_region :: "cartography \<Rightarrow> string option \<Rightarrow> string option" where
  "faction_for_region c region =
     (case region of
        None \<Rightarrow> None
      | Some r \<Rightarrow> if r = [] then None else (case map_of c r of None \<Rightarrow> None | Some f \<Rightarrow> f))"

definition faction_list :: "string option \<Rightarrow> string list" where
  "faction_list f = (case f of None \<Rightarrow> [] | Some s \<Rightarrow> if s = [] then [] else [s])"

definition active_factions :: "trope_snapshot \<Rightarrow> trope_pack \<Rightarrow> string option \<Rightarrow> string list" where
  "active_factions snap pack perspective =
     (case cartography_for snap pack of
        None \<Rightarrow> []
      | Some c \<Rightarrow>
          if perspective \<noteq> None then faction_list (faction_for_region c (region_for snap perspective))
          else if region_for snap None \<noteq> None then faction_list (faction_for_region c (region_for snap None))
          else concat (map (\<lambda>n. faction_list (faction_for_region c (map_of (pc_regions snap) n)))
                 (filter (\<lambda>n. n \<noteq> []) (map snd (seats snap)))))"

section \<open>The passes of a tick\<close>

type_synonym trope_table = "(string \<times> trope_definition) list"

text \<open>Pass A.\<close>

definition advance_one :: "trope_table \<Rightarrow> trope_state \<Rightarrow> trope_state" where
  "advance_one defs t =
     (if status t \<noteq> Progressing then t
      else case map_of defs (trope_id t) of
        None \<Rightarrow> t
      | Some d \<Rightarrow>
          (case passive_prog d of
             None \<Rightarrow> t
           | Some p \<Rightarrow> t\<lparr>progress := min 1 (rnd (progress t + rnd (rate_per_turn p * PROGRESSION_RATE_MULTIPLIER)))\<rparr>))"

definition advance_progress :: "trope_table \<Rightarrow> trope_state list \<Rightarrow> trope_state list" where
  "advance_progress defs ts = map (advance_one defs) ts"

text \<open>Pass A2: the beats a trope crosses in the skipped days. The loop reads \<open>beats_fired\<close> as it goes.\<close>

definition skip_day :: "rat \<Rightarrow> rat \<Rightarrow> int \<Rightarrow> trope_escalation \<Rightarrow> int" where
  "skip_day before rate days b = min (max 1 (rhe (rnd (rnd (at_progress b - before) / rate)))) days"

fun skip_beats :: "trope_definition \<Rightarrow> rat \<Rightarrow> rat \<Rightarrow> int \<Rightarrow> int \<Rightarrow> nat \<Rightarrow> trope_escalation list \<Rightarrow> trope_state
    \<Rightarrow> trope_state \<times> time_skip_beat list" where
  "skip_beats d before rate days now i [] t = (t, [])"
| "skip_beats d before rate days now i (b # bs) t =
     (if i < beats_fired t \<or> at_progress b > progress t then skip_beats d before rate days now (Suc i) bs t
      else
        let ev = \<lparr>tsb_trope_id = trope_id t, tsb_trope_name = tdef_name d, beat_index = i, tsb_event = beat_event b,
                  tsb_stakes = stakes b, tsb_npcs = npcs_involved b, days_into_skip = skip_day before rate days b\<rparr>;
            r = skip_beats d before rate days now (Suc i) bs (t\<lparr>beats_fired := i + 1, last_fired_turn := Some now\<rparr>)
        in (fst r, ev # snd r))"

definition skip_one :: "trope_table \<Rightarrow> int \<Rightarrow> int \<Rightarrow> trope_state \<Rightarrow> trope_state \<times> time_skip_beat list" where
  "skip_one defs days now t =
     (if status t \<noteq> Progressing then (t, [])
      else case map_of defs (trope_id t) of
        None \<Rightarrow> (t, [])
      | Some d \<Rightarrow>
          let rate = (case passive_prog d of None \<Rightarrow> 0 | Some p \<Rightarrow> rate_per_day p);
              after = min 1 (rnd (progress t + rnd (rate * of_int days)))
          in if rate \<le> 0 then (t, [])
             else if after = progress t then (t, [])
             else
               let (t', evs) = skip_beats d (progress t) rate days now 0 (escalation d) (t\<lparr>progress := after\<rparr>)
               in (if after \<ge> 1 \<and> escalation d \<noteq> [] \<and> beats_fired t' \<ge> length (escalation d) then t'\<lparr>status := Resolved\<rparr> else t', evs))"

definition pass_a2_time_skip :: "trope_table \<Rightarrow> int \<Rightarrow> int \<Rightarrow> trope_snapshot \<Rightarrow> trope_snapshot" where
  "pass_a2_time_skip defs days_advanced now snap =
     (let days = max 0 (min days_advanced DAY_TICK_CAP) in
      if days = 0 then snap
      else
        let rs = map (skip_one defs days now) (active_tropes snap) in
        snap\<lparr>active_tropes := map fst rs,
             pending_time_skip_summary := pending_time_skip_summary snap @
               sort_key (\<lambda>e. (days_into_skip e, tsb_trope_id e)) (concat (map snd rs)),
             days_elapsed := days_elapsed snap + days\<rparr>)"

text \<open>Passes B and C: the candidate with the most progress fires its next beat.\<close>

definition beat_due :: "trope_table \<Rightarrow> trope_state \<Rightarrow> bool" where
  "beat_due defs t \<longleftrightarrow> status t = Progressing \<and>
     (case map_of defs (trope_id t) of
        None \<Rightarrow> False
      | Some d \<Rightarrow> beats_fired t < length (escalation d) \<and> at_progress (escalation d ! beats_fired t) \<le> progress t)"

definition fire_winner :: "trope_table \<Rightarrow> int \<Rightarrow> trope_state \<Rightarrow> trope_state" where
  "fire_winner defs now t =
     (let t' = t\<lparr>beats_fired := beats_fired t + 1, last_fired_turn := Some now, fire_cooldown_until := Some (now + FIRE_COOLDOWN_TURNS)\<rparr> in
      case map_of defs (trope_id t) of
        Some d \<Rightarrow> if beats_fired t' \<ge> length (escalation d) \<and> progress t' \<ge> 1 then t'\<lparr>status := Resolved\<rparr> else t'
      | None \<Rightarrow> t')"

definition fire_one_staggered_beat :: "trope_table \<Rightarrow> int \<Rightarrow> trope_state list \<Rightarrow> trope_state list" where
  "fire_one_staggered_beat defs now ts =
     (case sort_key (\<lambda>i. (- progress (ts ! i), trope_id (ts ! i))) (filter (\<lambda>i. beat_due defs (ts ! i)) [0..<length ts]) of
        [] \<Rightarrow> ts
      | w # _ \<Rightarrow> ts[w := fire_winner defs now (ts ! w)])"

text \<open>Pass D: zone, then cooldown, then cap. The result carries the number of tropes held back.\<close>

definition cooldown_end :: "trope_state list \<Rightarrow> int" where
  "cooldown_end ts = (case map (\<lambda>t. case fire_cooldown_until t of None \<Rightarrow> 0 | Some c \<Rightarrow> c) ts of [] \<Rightarrow> 0 | c # cs \<Rightarrow> fold max cs c)"

definition progressing_count :: "trope_state list \<Rightarrow> nat" where
  "progressing_count ts = length (filter (\<lambda>t. status t = Progressing) ts)"

definition trope_factions :: "trope_table \<Rightarrow> trope_state \<Rightarrow> string list" where
  "trope_factions defs t = (case map_of defs (trope_id t) of None \<Rightarrow> [] | Some d \<Rightarrow> factions d)"

fun activate_from :: "trope_table \<Rightarrow> bool \<Rightarrow> bool \<Rightarrow> string list \<Rightarrow> nat \<Rightarrow> trope_state list \<Rightarrow> nat \<times> trope_state list" where
  "activate_from defs cooling zoned act n [] = (0, [])"
| "activate_from defs cooling zoned act n (t # ts) =
     (if status t \<noteq> Dormant \<or> \<not> is_eligible (trope_factions defs t) act zoned then
        (let r = activate_from defs cooling zoned act n ts in (fst r, t # snd r))
      else if cooling \<or> n \<ge> MAX_SIMULTANEOUS_ACTIVE then
        (let r = activate_from defs cooling zoned act n ts in (fst r + 1, t # snd r))
      else (let r = activate_from defs cooling zoned act (n + 1) ts in (fst r, t\<lparr>status := Progressing\<rparr> # snd r)))"

definition gate_activations :: "trope_table \<Rightarrow> int \<Rightarrow> bool \<Rightarrow> string list \<Rightarrow> trope_state list \<Rightarrow> nat \<times> trope_state list" where
  "gate_activations defs now zoned act ts = activate_from defs (cooldown_end ts \<ge> now) zoned act (progressing_count ts) ts"

definition tick_tropes :: "trope_pack \<Rightarrow> int \<Rightarrow> int \<Rightarrow> trope_snapshot \<Rightarrow> trope_snapshot" where
  "tick_tropes pack now days_advanced snap =
     (let defs = tropes_by_id (pack_tropes pack);
          s1 = snap\<lparr>active_tropes := advance_progress defs (active_tropes snap)\<rparr>;
          s2 = (if days_advanced > 0 then pass_a2_time_skip defs days_advanced now s1 else s1);
          s3 = s2\<lparr>active_tropes := fire_one_staggered_beat defs now (active_tropes s2)\<rparr>;
          zoned = world_is_zoned (cartography_for s3 pack);
          act = (if zoned then active_factions s3 pack None else [])
      in s3\<lparr>active_tropes := snd (gate_activations defs now zoned act (active_tropes s3))\<rparr>)"

definition select_foreground_tropes :: "trope_state list \<Rightarrow> trope_state list \<times> trope_state list" where
  "select_foreground_tropes ts =
     (let p = sort_key (\<lambda>t. (- progress t, trope_id t)) (filter (\<lambda>t. status t = Progressing) ts)
      in (take FOREGROUND_K p, drop FOREGROUND_K p))"

end
