(* ===== verification/Trope_Properties.thy ===== *)
theory Trope_Properties
  imports Tropes
begin

text \<open>
  What the trope engine keeps: the life of a trope only moves forward, the cap and the cooldown hold, a
  skip over days fires the beats it crosses, and tropes whose ladder ends early occupy the engine for good.
\<close>

section \<open>One tick, trope by trope\<close>

fun stage :: "trope_status \<Rightarrow> nat" where
  "stage Dormant = 0"
| "stage Progressing = 1"
| "stage Resolved = 2"

definition ladder :: "trope_table \<Rightarrow> trope_state \<Rightarrow> nat" where
  "ladder defs t = (case map_of defs (trope_id t) of None \<Rightarrow> 0 | Some d \<Rightarrow> length (escalation d))"

text \<open>What a pass may do to a trope that is under way.\<close>

definition moves_on :: "trope_table \<Rightarrow> trope_state \<Rightarrow> trope_state \<Rightarrow> bool" where
  "moves_on defs t t' \<longleftrightarrow> trope_id t' = trope_id t \<and> stage (status t) \<le> stage (status t') \<and> progress t \<le> progress t' \<and>
     (progress t \<le> 1 \<longrightarrow> progress t' \<le> 1) \<and> (rnd (progress t) = progress t \<longrightarrow> rnd (progress t') = progress t') \<and>
     beats_fired t \<le> beats_fired t' \<and> (beats_fired t \<le> ladder defs t \<longrightarrow> beats_fired t' \<le> ladder defs t) \<and>
     (status t = Resolved \<longrightarrow> t' = t) \<and> (status t = Dormant \<longrightarrow> t' = t \<or> t' = t\<lparr>status := Progressing\<rparr>) \<and>
     (status t = Progressing \<and> status t' = Resolved \<longrightarrow> 1 \<le> progress t' \<and> ladder defs t \<le> beats_fired t')"

lemma moves_on_refl [simp]: "moves_on defs t t"
  by (cases "status t") (simp_all add: moves_on_def)

lemma moves_on_trans:
  assumes "moves_on defs t u" "moves_on defs u v" "status u = Dormant \<longrightarrow> status t = Dormant" "status t = Dormant \<longrightarrow> status u = Dormant"
  shows "moves_on defs t v"
proof -
  have l: "ladder defs u = ladder defs t" using assms(1) by (simp add: moves_on_def ladder_def)
  show ?thesis
    by (cases "status t"; cases "status u") (use assms l in \<open>auto simp: moves_on_def\<close>)
qed

text \<open>The rates of a pack, when none is negative.\<close>

definition rates_ok :: "trope_table \<Rightarrow> bool" where
  "rates_ok defs \<longleftrightarrow> (\<forall>i d p. map_of defs i = Some d \<and> passive_prog d = Some p \<longrightarrow> 0 \<le> rate_per_turn p)"

lemma rnd_grows: "rnd x = x \<Longrightarrow> 0 \<le> y \<Longrightarrow> x \<le> rnd (x + y)"
  using rnd_mono[of x "x + y"] by simp

lemma min_one_double: "rnd x = x \<Longrightarrow> rnd (min 1 x) = min 1 (x :: rat)"
  using rnd_int[of 1] by (auto simp: min_def)

definition trope_ok :: "trope_state \<Rightarrow> bool" where
  "trope_ok t \<longleftrightarrow> rnd (progress t) = progress t \<and> progress t \<le> 1"

lemma advance_one_moves: "rates_ok defs \<Longrightarrow> trope_ok t \<Longrightarrow> moves_on defs t (advance_one defs t)"
proof -
  assume r: "rates_ok defs" and t: "trope_ok t"
  have "progress t \<le> min 1 (rnd (progress t + rnd (rate_per_turn p * PROGRESSION_RATE_MULTIPLIER)))"
    if "map_of defs (trope_id t) = Some d" "passive_prog d = Some p" for d p
  proof -
    have "0 \<le> rnd (rate_per_turn p * PROGRESSION_RATE_MULTIPLIER)"
      using r that by (intro rnd_nonneg) (auto simp: rates_ok_def PROGRESSION_RATE_MULTIPLIER_def)
    then show ?thesis using rnd_grows[of "progress t"] t by (simp add: trope_ok_def)
  qed
  then show ?thesis using t
    by (auto simp: advance_one_def moves_on_def trope_ok_def ladder_def min_one_double split: option.splits)
qed

lemma advance_one_status [simp]: "status (advance_one defs t) = status t"
  by (auto simp: advance_one_def split: option.splits)

lemma skip_beats_frame:
  "\<exists>n l. fst (skip_beats d before rate days now i bs t) = t\<lparr>beats_fired := n, last_fired_turn := l\<rparr> \<and>
     beats_fired t \<le> n \<and> (n = beats_fired t \<or> n \<le> i + length bs)"
proof (induction bs arbitrary: i t)
  case Nil
  show ?case by (intro exI[of _ "beats_fired t"] exI[of _ "last_fired_turn t"]) simp
next
  case (Cons b bs)
  show ?case
  proof (cases "i < beats_fired t \<or> at_progress b > progress t")
    case True
    obtain n l where "fst (skip_beats d before rate days now (Suc i) bs t) = t\<lparr>beats_fired := n, last_fired_turn := l\<rparr>"
        "beats_fired t \<le> n" "n = beats_fired t \<or> n \<le> Suc i + length bs"
      using Cons.IH[of "Suc i" t] by blast
    then show ?thesis using True by (intro exI[of _ n] exI[of _ l]) simp
  next
    case False
    let ?t = "t\<lparr>beats_fired := i + 1, last_fired_turn := Some now\<rparr>"
    obtain n l where "fst (skip_beats d before rate days now (Suc i) bs ?t) = ?t\<lparr>beats_fired := n, last_fired_turn := l\<rparr>"
        "beats_fired ?t \<le> n" "n = beats_fired ?t \<or> n \<le> Suc i + length bs"
      using Cons.IH[of "Suc i" ?t] by blast
    then show ?thesis using False by (intro exI[of _ n] exI[of _ l]) (auto simp: Let_def)
  qed
qed

lemma skip_one_moves: "trope_ok t \<Longrightarrow> moves_on defs t (fst (skip_one defs days now t)) \<and> (status t = Dormant \<longleftrightarrow> status (fst (skip_one defs days now t)) = Dormant)"
  if "0 \<le> days"
proof -
  assume t: "trope_ok t"
  let ?r = "skip_one defs days now t"
  show ?thesis
  proof (cases "status t = Progressing \<and> map_of defs (trope_id t) \<noteq> None")
    case False
    then have "?r = (t, [])" by (auto simp: skip_one_def)
    then show ?thesis by simp
  next
    case True
    then obtain d where p: "status t = Progressing" and d: "map_of defs (trope_id t) = Some d" by blast
    define rate where "rate = (case passive_prog d of None \<Rightarrow> 0 | Some p \<Rightarrow> rate_per_day p)"
    define after where "after = min 1 (rnd (progress t + rnd (rate * of_int days)))"
    show ?thesis
    proof (cases "rate \<le> 0 \<or> after = progress t")
      case True
      then have "?r = (t, [])" using p d by (auto simp: skip_one_def Let_def rate_def after_def)
      then show ?thesis by simp
    next
      case False
      have "0 \<le> rnd (rate * of_int days)" using False that by (intro rnd_nonneg) simp
      then have grow: "progress t \<le> after" using rnd_grows[of "progress t"] t by (simp add: after_def trope_ok_def)
      have dbl: "rnd after = after" "after \<le> 1" by (simp_all add: after_def min_one_double)
      obtain n l where sb: "fst (skip_beats d (progress t) rate days now 0 (escalation d) (t\<lparr>progress := after\<rparr>)) =
          t\<lparr>progress := after\<rparr>\<lparr>beats_fired := n, last_fired_turn := l\<rparr>" "beats_fired t \<le> n" "n = beats_fired t \<or> n \<le> length (escalation d)"
        using skip_beats_frame[of d "progress t" rate days now 0 "escalation d" "t\<lparr>progress := after\<rparr>"] by auto
      have "fst ?r = (let t' = t\<lparr>progress := after\<rparr>\<lparr>beats_fired := n, last_fired_turn := l\<rparr> in
          if after \<ge> 1 \<and> escalation d \<noteq> [] \<and> n \<ge> length (escalation d) then t'\<lparr>status := Resolved\<rparr> else t')"
        using p d False sb(1) by (simp add: skip_one_def Let_def rate_def[symmetric] after_def[symmetric] split_beta)
      then show ?thesis using p d grow dbl sb(2,3) by (auto simp: Let_def moves_on_def ladder_def)
    qed
  qed
qed

lemma fire_winner_moves: "beat_due defs t \<Longrightarrow> moves_on defs t (fire_winner defs now t) \<and> status (fire_winner defs now t) \<noteq> Dormant"
  by (auto simp: beat_due_def fire_winner_def moves_on_def ladder_def Let_def split: option.splits)

lemma fire_result:
  "fire_one_staggered_beat defs now ts = ts \<and> (\<forall>t \<in> set ts. \<not> beat_due defs t) \<or>
   (\<exists>w < length ts. beat_due defs (ts ! w) \<and> fire_one_staggered_beat defs now ts = ts[w := fire_winner defs now (ts ! w)] \<and>
      (\<forall>t \<in> set ts. beat_due defs t \<longrightarrow> progress t \<le> progress (ts ! w)))"
proof -
  let ?k = "\<lambda>i. (- progress (ts ! i), trope_id (ts ! i))" and ?c = "filter (\<lambda>i. beat_due defs (ts ! i)) [0..<length ts]"
  have s: "set (sort_key ?k ?c) = {i. i < length ts \<and> beat_due defs (ts ! i)}" by auto
  show ?thesis
  proof (cases "sort_key ?k ?c")
    case Nil
    then have "{i. i < length ts \<and> beat_due defs (ts ! i)} = {}" using s by simp
    then show ?thesis using Nil by (auto simp: fire_one_staggered_beat_def in_set_conv_nth)
  next
    case (Cons w ws)
    have w: "w < length ts" "beat_due defs (ts ! w)" using s Cons by auto
    have "sorted (map ?k (w # ws))" using sorted_sort_key[of ?k ?c] Cons by simp
    then have "\<forall>i \<in> set ws. ?k w \<le> ?k i" by simp
    then have "progress (ts ! i) \<le> progress (ts ! w)" if "i < length ts" "beat_due defs (ts ! i)" for i
    proof -
      assume below: "\<forall>i \<in> set ws. ?k w \<le> ?k i"
      have "i \<in> insert w (set ws)" using that s unfolding Cons by simp
      then show ?thesis using below by (auto simp: less_eq_prod_def)
    qed
    then have "\<forall>t \<in> set ts. beat_due defs t \<longrightarrow> progress t \<le> progress (ts ! w)" by (auto simp: in_set_conv_nth)
    moreover have "fire_one_staggered_beat defs now ts = ts[w := fire_winner defs now (ts ! w)]" using Cons by (simp add: fire_one_staggered_beat_def)
    ultimately show ?thesis using w by blast
  qed
qed

section \<open>Activation\<close>

definition activated :: "trope_state \<Rightarrow> trope_state \<Rightarrow> bool" where
  "activated t t' \<longleftrightarrow> status t = Dormant \<and> t' = t\<lparr>status := Progressing\<rparr>"

lemma activate_from_each:
  "list_all2 (\<lambda>t t'. t' = t \<or> (\<not> cooling \<and> n < MAX_SIMULTANEOUS_ACTIVE \<and> is_eligible (trope_factions defs t) act zoned \<and> activated t t')) ts
     (snd (activate_from defs cooling zoned act n ts))"
proof (induction ts arbitrary: n)
  case (Cons t ts)
  have "list_all2 (\<lambda>t t'. t' = t \<or> (\<not> cooling \<and> n < MAX_SIMULTANEOUS_ACTIVE \<and> is_eligible (trope_factions defs t) act zoned \<and> activated t t')) ts
     (snd (activate_from defs cooling zoned act (n + 1) ts))"
    using Cons.IH[of "n + 1"] by (rule list_all2_mono) auto
  then show ?case using Cons.IH[of n] by (auto simp: Let_def activated_def)
qed simp

lemma activate_from_count:
  "progressing_count (snd (activate_from defs cooling zoned act n ts)) \<le> progressing_count ts + (MAX_SIMULTANEOUS_ACTIVE - n)"
proof (induction ts arbitrary: n)
  case (Cons t ts)
  have "progressing_count (snd (activate_from defs cooling zoned act (n + 1) ts)) \<le> progressing_count ts + (MAX_SIMULTANEOUS_ACTIVE - (n + 1))"
    by (rule Cons.IH)
  then show ?case using Cons.IH[of n] by (auto simp: Let_def progressing_count_def)
qed (simp add: progressing_count_def)

lemma gate_count: "progressing_count (snd (gate_activations defs now zoned act ts)) \<le> max (progressing_count ts) MAX_SIMULTANEOUS_ACTIVE"
  using activate_from_count[of defs "cooldown_end ts \<ge> now" zoned act "progressing_count ts" ts] by (simp add: gate_activations_def)

lemma gate_each: "list_all2 (\<lambda>t t'. t' = t \<or> activated t t') ts (snd (gate_activations defs now zoned act ts))"
  unfolding gate_activations_def by (rule list_all2_mono[OF activate_from_each]) auto

lemma gate_closed:
  assumes "cooldown_end ts \<ge> now \<or> progressing_count ts \<ge> MAX_SIMULTANEOUS_ACTIVE"
  shows "snd (gate_activations defs now zoned act ts) = ts"
proof -
  have "list_all2 (=) ts (snd (gate_activations defs now zoned act ts))"
    unfolding gate_activations_def by (rule list_all2_mono[OF activate_from_each]) (use assms in auto)
  then show ?thesis by (simp add: list.rel_eq)
qed

section \<open>The whole tick\<close>

text \<open>The tropes after the first passes, before activations.\<close>

definition before_gate :: "trope_table \<Rightarrow> int \<Rightarrow> int \<Rightarrow> trope_state list \<Rightarrow> trope_state list" where
  "before_gate defs now days_advanced ts =
     fire_one_staggered_beat defs now
       (let us = advance_progress defs ts; days = max 0 (min days_advanced DAY_TICK_CAP) in
        if 0 < days_advanced \<and> days \<noteq> 0 then map (\<lambda>t. fst (skip_one defs days now t)) us else us)"

lemma tick_split:
  "\<exists>zoned act. active_tropes (tick_tropes pack now days snap) =
     snd (gate_activations (tropes_by_id (pack_tropes pack)) now zoned act (before_gate (tropes_by_id (pack_tropes pack)) now days (active_tropes snap)))"
  by (auto simp: tick_tropes_def before_gate_def pass_a2_time_skip_def Let_def comp_def)

definition holds_on :: "trope_table \<Rightarrow> trope_state \<Rightarrow> trope_state \<Rightarrow> bool" where
  "holds_on defs t u \<longleftrightarrow> moves_on defs t u \<and> (status t = Dormant \<longleftrightarrow> status u = Dormant)"

lemma holds_on_trans: "holds_on defs t u \<Longrightarrow> holds_on defs u v \<Longrightarrow> holds_on defs t v"
  using moves_on_trans[of defs t u v] by (auto simp: holds_on_def)

lemma trope_ok_moves: "moves_on defs t u \<Longrightarrow> trope_ok t \<Longrightarrow> trope_ok u"
  by (auto simp: moves_on_def trope_ok_def)

lemma fire_holds: "list_all2 (holds_on defs) ts (fire_one_staggered_beat defs now ts)"
proof -
  have "holds_on defs t t" for t by (simp add: holds_on_def)
  moreover have "holds_on defs t (fire_winner defs now t)" if "beat_due defs t" for t
    using fire_winner_moves[OF that] that by (auto simp: holds_on_def beat_due_def)
  ultimately show ?thesis using fire_result[of defs now ts]
    by (auto simp del: list_update_id simp: list_all2_conv_all_nth nth_list_update)
qed

lemma before_gate_holds:
  assumes "rates_ok defs" and "\<forall>t \<in> set ts. trope_ok t"
  shows "list_all2 (holds_on defs) ts (before_gate defs now days ts)"
proof -
  have a: "holds_on defs t (advance_one defs t)" if "t \<in> set ts" for t
    using advance_one_moves[OF assms(1)] assms(2) that by (simp add: holds_on_def)
  have b: "holds_on defs (advance_one defs t) (fst (skip_one defs (max 0 d) now (advance_one defs t)))" if "t \<in> set ts" for t d
    using skip_one_moves[of "max 0 d" "advance_one defs t" defs now] trope_ok_moves a[OF that] assms(2) that by (auto simp: holds_on_def)
  let ?us = "let us = advance_progress defs ts; d = max 0 (min days DAY_TICK_CAP) in
        if 0 < days \<and> d \<noteq> 0 then map (\<lambda>t. fst (skip_one defs d now t)) us else us"
  have "list_all2 (holds_on defs) ts ?us"
    using a holds_on_trans[OF a b] by (simp add: Let_def advance_progress_def list_all2_conv_all_nth)
  from list_all2_trans[OF holds_on_trans this fire_holds] show ?thesis unfolding before_gate_def .
qed

lemma holds_count:
  assumes "list_all2 (holds_on defs) ts us"
  shows "progressing_count us \<le> progressing_count ts"
  using assms
proof (induction ts us rule: list_all2_induct)
  case (Cons t ts u us)
  have "status u = Progressing \<Longrightarrow> status t = Progressing"
    using Cons(1) by (cases "status t") (auto simp: holds_on_def moves_on_def)
  then show ?case using Cons(3) by (auto simp: progressing_count_def)
qed (simp add: progressing_count_def)



section \<open>Cooldown\<close>

lemma cooldown_end_ge: "t \<in> set ts \<Longrightarrow> fire_cooldown_until t = Some c \<Longrightarrow> c \<le> cooldown_end ts"
proof -
  assume t: "t \<in> set ts" "fire_cooldown_until t = Some c"
  let ?f = "\<lambda>t. case fire_cooldown_until t of None \<Rightarrow> 0 | Some c \<Rightarrow> c"
  obtain u us where ts: "ts = u # us" using t(1) by (cases ts) auto
  have "?f t \<in> insert (?f u) (set (map ?f us))" using t(1) ts by auto
  then have "?f t \<le> fold max (map ?f us) (?f u)" using fold_max_ge[of "?f t" "map ?f us" "?f u"] fold_max_start[of "?f u" "map ?f us"] by auto
  then show ?thesis using t(2) ts by (simp add: cooldown_end_def)
qed

lemma advance_one_cooldown [simp]: "fire_cooldown_until (advance_one defs t) = fire_cooldown_until t"
  by (auto simp: advance_one_def split: option.splits)

text \<open>
  A beat that fires keeps dormant tropes dormant in the tick that fires it and, while its cooldown is not over, in the
  ticks that follow; the cooldown of a fire at one turn covers the next two.
\<close>
theorem cooldown_holds_back_activations:
  fixes pack snap now
  defines "defs \<equiv> tropes_by_id (pack_tropes pack)"
  assumes "(\<exists>t \<in> set (active_tropes snap). \<exists>c. fire_cooldown_until t = Some c \<and> now \<le> c) \<or>
           (\<exists>t \<in> set (advance_progress defs (active_tropes snap)). beat_due defs t)"
  shows "list_all2 (\<lambda>t t'. status t = Dormant \<longrightarrow> status t' = Dormant) (active_tropes snap) (active_tropes (tick_tropes pack now 0 snap)) \<and>
    ((\<exists>t \<in> set (advance_progress defs (active_tropes snap)). beat_due defs t) \<longrightarrow>
       (\<exists>t \<in> set (active_tropes (tick_tropes pack now 0 snap)). last_fired_turn t = Some now \<and> fire_cooldown_until t = Some (now + FIRE_COOLDOWN_TURNS)))"
proof -
  let ?us = "advance_progress defs (active_tropes snap)"
  let ?vs = "fire_one_staggered_beat defs now ?us"
  have winner: "\<exists>t \<in> set ?vs. last_fired_turn t = Some now \<and> fire_cooldown_until t = Some (now + FIRE_COOLDOWN_TURNS)"
    if due: "\<exists>t \<in> set ?us. beat_due defs t"
  proof -
    obtain w where w: "w < length ?us" "?vs = ?us[w := fire_winner defs now (?us ! w)]" using fire_result[of defs now ?us] due by metis
    have "fire_winner defs now (?us ! w) \<in> set ?vs" using w set_update_memI[of w ?us] by simp
    then show ?thesis by (rule bexI[rotated]) (auto simp: fire_winner_def Let_def split: option.splits)
  qed
  have "now \<le> cooldown_end ?vs"
  proof (cases "\<exists>t \<in> set ?us. beat_due defs t")
    case True
    then show ?thesis using winner cooldown_end_ge[of _ ?vs "now + FIRE_COOLDOWN_TURNS"] by (fastforce simp: FIRE_COOLDOWN_TURNS_def)
  next
    case False
    then have same: "?vs = ?us" using fire_result[of defs now ?us] by (metis nth_mem)
    obtain t c where "t \<in> set (active_tropes snap)" "fire_cooldown_until t = Some c" "now \<le> c" using assms(2) False by blast
    then show ?thesis using cooldown_end_ge[of "advance_one defs t" ?us c] same by (auto simp: advance_progress_def)
  qed
  then have res: "active_tropes (tick_tropes pack now 0 snap) = ?vs"
    using tick_split[of pack now 0 snap] gate_closed[of now ?vs] by (auto simp: before_gate_def defs_def)
  have "list_all2 (\<lambda>t t'. status t = Dormant \<longrightarrow> status t' = Dormant) ?us ?vs"
    by (rule list_all2_mono[OF fire_holds]) (auto simp: holds_on_def)
  then have "list_all2 (\<lambda>t t'. status t = Dormant \<longrightarrow> status t' = Dormant) (active_tropes snap) ?vs"
    by (simp add: advance_progress_def list_all2_map1)
  then show ?thesis using res winner by simp
qed

section \<open>Ladders that end early\<close>

text \<open>A trope under way whose beats have all fired, or that has none.\<close>

definition exhausted :: "trope_table \<Rightarrow> trope_state \<Rightarrow> bool" where
  "exhausted defs t \<longleftrightarrow> status t = Progressing \<and> ladder defs t \<le> beats_fired t"

lemma advance_exhausted: "exhausted defs (advance_one defs t) \<longleftrightarrow> exhausted defs t"
  by (auto simp: exhausted_def ladder_def advance_one_def split: option.splits)

lemma exhausted_not_due: "exhausted defs t \<Longrightarrow> \<not> beat_due defs t"
  by (auto simp: exhausted_def ladder_def beat_due_def split: option.splits)

text \<open>What a tick without skipped days does when at least a cap's worth of tropes is exhausted.\<close>

lemma tick_exhausted:
  fixes pack snap
  defines "defs \<equiv> tropes_by_id (pack_tropes pack)"
  assumes "MAX_SIMULTANEOUS_ACTIVE \<le> length (filter (exhausted defs) (active_tropes snap))"
  shows "list_all2 (\<lambda>t t'. (exhausted defs t \<longrightarrow> exhausted defs t') \<and> (status t = Dormant \<longrightarrow> status t' = Dormant))
    (active_tropes snap) (active_tropes (tick_tropes pack now 0 snap))"
proof -
  let ?us = "advance_progress defs (active_tropes snap)"
  let ?vs = "fire_one_staggered_beat defs now ?us"
  have each: "list_all2 (\<lambda>t t'. (exhausted defs t \<longrightarrow> t' = t) \<and> (status t = Dormant \<longrightarrow> status t' = Dormant)) ?us ?vs"
    using fire_result[of defs now ?us] exhausted_not_due
    by (auto simp del: list_update_id simp: list_all2_conv_all_nth nth_list_update beat_due_def)
  then have "length (filter (exhausted defs) ?us) \<le> progressing_count ?vs"
    by (induction rule: list_all2_induct) (auto simp: progressing_count_def exhausted_def)
  moreover have "length (filter (exhausted defs) ?us) = length (filter (exhausted defs) (active_tropes snap))"
    by (simp add: advance_progress_def filter_map comp_def advance_exhausted)
  ultimately have "MAX_SIMULTANEOUS_ACTIVE \<le> progressing_count ?vs" using assms(2) by simp
  then have res: "active_tropes (tick_tropes pack now 0 snap) = ?vs"
    using tick_split[of pack now 0 snap] gate_closed[of now ?vs] by (auto simp: before_gate_def defs_def)
  have "list_all2 (\<lambda>t t'. (exhausted defs (advance_one defs t) \<longrightarrow> t' = advance_one defs t) \<and> (status t = Dormant \<longrightarrow> status t' = Dormant))
      (active_tropes snap) ?vs"
    using each by (simp add: advance_progress_def list_all2_map1)
  then show ?thesis unfolding res by (rule list_all2_mono) (auto simp: advance_exhausted)
qed

lemma exhausted_count: "list_all2 (\<lambda>t t'. (P t \<longrightarrow> P t') \<and> Q t t') ts us \<Longrightarrow> length (filter P ts) \<le> length (filter P us)"
  by (induction rule: list_all2_induct) auto

text \<open>
  C31. Tropes whose ladder is spent block the engine. Ticks never resolve a trope once its last beat has fired below full progress,
  and it keeps its slot under the cap: when as many tropes as the cap allows are in that state, they all stay progressing
  and no dormant trope is ever activated, however many turns go by without skipped days.
\<close>
theorem spent_tropes_starve_the_engine:
  assumes "MAX_SIMULTANEOUS_ACTIVE \<le> length (filter (exhausted (tropes_by_id (pack_tropes pack))) (active_tropes snap))"
    and "i < length (active_tropes snap)"
  shows "(status (active_tropes snap ! i) = Dormant \<longrightarrow>
      status (active_tropes (fold (\<lambda>now. tick_tropes pack now 0) turns snap) ! i) = Dormant) \<and>
    (exhausted (tropes_by_id (pack_tropes pack)) (active_tropes snap ! i) \<longrightarrow>
      status (active_tropes (fold (\<lambda>now. tick_tropes pack now 0) turns snap) ! i) = Progressing)"
  using assms
proof (induction turns arbitrary: snap)
  case (Cons now turns)
  let ?defs = "tropes_by_id (pack_tropes pack)" and ?s = "tick_tropes pack now 0 snap"
  have step: "list_all2 (\<lambda>t t'. (exhausted ?defs t \<longrightarrow> exhausted ?defs t') \<and> (status t = Dormant \<longrightarrow> status t' = Dormant))
      (active_tropes snap) (active_tropes ?s)"
    by (rule tick_exhausted[OF Cons.prems(1)])
  have "i < length (active_tropes ?s)" using step Cons.prems(2) by (simp add: list_all2_lengthD[symmetric])
  moreover have "MAX_SIMULTANEOUS_ACTIVE \<le> length (filter (exhausted ?defs) (active_tropes ?s))"
    using exhausted_count[OF step] Cons.prems(1) by simp
  ultimately show ?case using Cons.IH[of ?s] list_all2_nthD[OF step Cons.prems(2)] by simp
qed (simp add: exhausted_def)

theorem spent_tropes_starve_the_engine_witness:
  "status (active_tropes (fold (\<lambda>now. tick_tropes \<lparr>pack_tropes = [], pack_worlds = []\<rparr> now 0) [1, 2, 3]
     \<lparr>active_tropes = [\<lparr>trope_id = ''a'', status = Progressing, progress = 0, beats_fired = 0, fire_cooldown_until = None, last_fired_turn = None\<rparr>,
        \<lparr>trope_id = ''b'', status = Progressing, progress = 0, beats_fired = 0, fire_cooldown_until = None, last_fired_turn = None\<rparr>,
        \<lparr>trope_id = ''c'', status = Progressing, progress = 0, beats_fired = 0, fire_cooldown_until = None, last_fired_turn = None\<rparr>,
        \<lparr>trope_id = ''d'', status = Dormant, progress = 0, beats_fired = 0, fire_cooldown_until = None, last_fired_turn = None\<rparr>],
      pending_time_skip_summary = [], days_elapsed = 0, world_slug = [], seats = [], pc_regions = []\<rparr>) ! 3) = Dormant"
proof -
  let ?pack = "\<lparr>pack_tropes = [], pack_worlds = []\<rparr>"
  let ?snap = "\<lparr>active_tropes = [\<lparr>trope_id = ''a'', status = Progressing, progress = 0, beats_fired = 0, fire_cooldown_until = None, last_fired_turn = None\<rparr>,
        \<lparr>trope_id = ''b'', status = Progressing, progress = 0, beats_fired = 0, fire_cooldown_until = None, last_fired_turn = None\<rparr>,
        \<lparr>trope_id = ''c'', status = Progressing, progress = 0, beats_fired = 0, fire_cooldown_until = None, last_fired_turn = None\<rparr>,
        \<lparr>trope_id = ''d'', status = Dormant, progress = 0, beats_fired = 0, fire_cooldown_until = None, last_fired_turn = None\<rparr>],
      pending_time_skip_summary = [], days_elapsed = 0, world_slug = [], seats = [], pc_regions = []\<rparr>"
  have "MAX_SIMULTANEOUS_ACTIVE \<le> length (filter (exhausted (tropes_by_id (pack_tropes ?pack))) (active_tropes ?snap))"
    by (simp add: MAX_SIMULTANEOUS_ACTIVE_def exhausted_def ladder_def tropes_by_id_def)
  from spent_tropes_starve_the_engine[OF this, of 3 "[1, 2, 3]"] show ?thesis by simp
qed

section \<open>Skipped days\<close>

lemma skip_beats_none:
  "\<forall>b \<in> set bs. progress t < at_progress b \<Longrightarrow> skip_beats d before rate days now i bs t = (t, [])"
  by (induction bs arbitrary: i) auto

lemma filter_sorted_none: "sorted (map f (b # bs)) \<Longrightarrow> x < f b \<Longrightarrow> filter (\<lambda>c. f c \<le> (x :: rat)) (b # bs) = []"
  by (auto simp: filter_empty_conv)

text \<open>On a ladder in ascending order the beats fired are the next ones, up to the last that is crossed.\<close>

lemma skip_beats_sorted:
  assumes "sorted (map at_progress bs)"
  shows "map beat_index (snd (skip_beats d before rate days now i bs t)) =
      [max i (beats_fired t) ..< max i (max (beats_fired t) (i + length (filter (\<lambda>b. at_progress b \<le> progress t) bs)))] \<and>
    beats_fired (fst (skip_beats d before rate days now i bs t)) =
      (if max i (beats_fired t) < i + length (filter (\<lambda>b. at_progress b \<le> progress t) bs)
       then i + length (filter (\<lambda>b. at_progress b \<le> progress t) bs) else beats_fired t)"
  using assms
proof (induction bs arbitrary: i t)
  case (Cons b bs)
  let ?t = "t\<lparr>beats_fired := i + 1, last_fired_turn := Some now\<rparr>"
  consider (high) "progress t < at_progress b" | (old) "at_progress b \<le> progress t" "i < beats_fired t" | (new) "at_progress b \<le> progress t" "beats_fired t \<le> i"
    by linarith
  then show ?case
  proof cases
    case high
    then have "\<forall>c \<in> set (b # bs). progress t < at_progress c" using Cons.prems by auto
    then have "skip_beats d before rate days now i (b # bs) t = (t, [])" by (rule skip_beats_none)
    then show ?thesis using filter_sorted_none[OF Cons.prems high] by simp
  next
    case old
    then show ?thesis using Cons.IH[of "Suc i" t] Cons.prems by (auto simp: max_def)
  next
    case new
    let ?k = "length (filter (\<lambda>b. at_progress b \<le> progress t) bs)"
    have IH: "map beat_index (snd (skip_beats d before rate days now (Suc i) bs ?t)) = [Suc i ..< Suc i + ?k]"
        "beats_fired (fst (skip_beats d before rate days now (Suc i) bs ?t)) = Suc i + ?k"
      using Cons.IH[of "Suc i" ?t] Cons.prems by (auto simp: max_def)
    have "[i ..< Suc i + ?k] = i # [Suc i ..< Suc i + ?k]" by (rule upt_conv_Cons) simp
    then show ?thesis using new IH by (auto simp: Let_def max_def)
  qed
qed simp

lemma skip_days_bounds: "e \<in> set (snd (skip_beats d before rate days now i bs t)) \<Longrightarrow> 1 \<le> days \<Longrightarrow> 1 \<le> days_into_skip e \<and> days_into_skip e \<le> days"
  by (induction bs arbitrary: i t) (auto simp: Let_def skip_day_def split: if_splits)

text \<open>
  A skip over days, for a trope whose ladder is in ascending order. The trope drifts by its daily rate times the days,
  capped at one; the skip fires, once each and in order, exactly the beats after those already fired whose threshold the new
  progress reaches, dates each within the days of the skip, and resolves the trope if and only if the ladder is done
  at full progress.
\<close>
theorem time_skip_fires_crossed_beats:
  fixes t d p days now
  defines "after \<equiv> min 1 (rnd (progress t + rnd (rate_per_day p * of_int days)))"
  defines "reached \<equiv> length (filter (\<lambda>b. at_progress b \<le> after) (escalation d))"
  assumes "status t = Progressing" and "map_of defs (trope_id t) = Some d" and "passive_prog d = Some p" and "0 < rate_per_day p" and "1 \<le> days"
    and "after \<noteq> progress t" and "sorted (map at_progress (escalation d))" and "beats_fired t \<le> length (escalation d)"
  shows "\<exists>t' evs. skip_one defs days now t = (t', evs) \<and> progress t' = after \<and> beats_fired t' = max (beats_fired t) reached \<and>
    map beat_index evs = [beats_fired t ..< beats_fired t'] \<and> (\<forall>e \<in> set evs. 1 \<le> days_into_skip e \<and> days_into_skip e \<le> days) \<and>
    (status t' = Resolved \<longleftrightarrow> after = 1 \<and> escalation d \<noteq> [] \<and> beats_fired t' = length (escalation d))"
proof -
  let ?t = "t\<lparr>progress := after\<rparr>"
  let ?r = "skip_beats d (progress t) (rate_per_day p) days now 0 (escalation d) ?t"
  have r: "map beat_index (snd ?r) = [beats_fired t ..< max (beats_fired t) reached]" "beats_fired (fst ?r) = max (beats_fired t) reached"
    using skip_beats_sorted[OF assms(9), of d "progress t" "rate_per_day p" days now 0 ?t] by (auto simp: reached_def max_def)
  obtain n l where fr: "fst ?r = ?t\<lparr>beats_fired := n, last_fired_turn := l\<rparr>"
    using skip_beats_frame[of d "progress t" "rate_per_day p" days now 0 "escalation d" ?t] by blast
  define t' where "t' = (if after \<ge> 1 \<and> escalation d \<noteq> [] \<and> beats_fired (fst ?r) \<ge> length (escalation d) then (fst ?r)\<lparr>status := Resolved\<rparr> else fst ?r)"
  have one: "skip_one defs days now t = (t', snd ?r)"
    using assms(3,4,5,6,8) by (simp add: skip_one_def Let_def after_def[symmetric] split_beta t'_def)
  have "reached \<le> length (escalation d)" by (simp add: reached_def)
  then have le: "beats_fired (fst ?r) \<le> length (escalation d)" using r(2) assms(10) by simp
  have "after \<le> 1" by (simp add: after_def)
  then have st: "status t' = Resolved \<longleftrightarrow> after = 1 \<and> escalation d \<noteq> [] \<and> beats_fired t' = length (escalation d)"
    using fr le assms(3) by (auto simp: t'_def)
  have pr: "progress t' = after" "beats_fired t' = max (beats_fired t) reached" using fr r(2) by (auto simp: t'_def)
  have "\<forall>e \<in> set (snd ?r). 1 \<le> days_into_skip e \<and> days_into_skip e \<le> days" using skip_days_bounds assms(7) by blast
  then show ?thesis using one pr r(1) st by (intro exI[of _ t'] exI[of _ "snd ?r"]) simp
qed

theorem time_skip_fires_crossed_beats_witness:
  "\<exists>t' evs. skip_one [(''a'', \<lparr>tdef_id = Some ''a'', tdef_name = ''A'',
       escalation = [\<lparr>at_progress = 1 / 2, beat_event = ''e'', npcs_involved = [], stakes = ''s''\<rparr>, \<lparr>at_progress = 1, beat_event = ''f'', npcs_involved = [], stakes = ''s''\<rparr>],
       passive_prog = Some \<lparr>rate_per_turn = 0, rate_per_day = 1\<rparr>, factions = []\<rparr>)] 2 7
     \<lparr>trope_id = ''a'', status = Progressing, progress = 0, beats_fired = 0, fire_cooldown_until = None, last_fired_turn = None\<rparr> = (t', evs) \<and>
     map beat_index evs = [0, 1] \<and> status t' = Resolved"
proof -
  let ?d = "\<lparr>tdef_id = Some ''a'', tdef_name = ''A'',
       escalation = [\<lparr>at_progress = 1 / 2, beat_event = ''e'', npcs_involved = [], stakes = ''s''\<rparr>, \<lparr>at_progress = 1, beat_event = ''f'', npcs_involved = [], stakes = ''s''\<rparr>],
       passive_prog = Some \<lparr>rate_per_turn = 0, rate_per_day = 1\<rparr>, factions = []\<rparr>"
  let ?t = "\<lparr>trope_id = ''a'', status = Progressing, progress = 0, beats_fired = 0, fire_cooldown_until = None, last_fired_turn = None\<rparr>"
  let ?p = "\<lparr>rate_per_turn = 0, rate_per_day = 1\<rparr>"
  have two: "rnd 2 = 2" using rnd_int[of 2] by simp
  have pre: "status ?t = Progressing" "map_of [(''a'', ?d)] (trope_id ?t) = Some ?d" "passive_prog ?d = Some ?p" "0 < rate_per_day ?p" "1 \<le> (2::int)"
    "min 1 (rnd (progress ?t + rnd (rate_per_day ?p * of_int 2))) \<noteq> progress ?t" "sorted (map at_progress (escalation ?d))"
    "beats_fired ?t \<le> length (escalation ?d)"
    using two by simp_all
  have "[0 ..< 2] = [0, 1::nat]" by (simp add: upt_rec)
  then show ?thesis using time_skip_fires_crossed_beats[OF pre, of 7] two by (auto simp: numeral_2_eq_2)
qed

end
