(* ===== verification/Relationships.thy ===== *)
theory Relationships
  imports Beliefs
begin

text \<open>
  Dispositions, their beat log and the relationship panel: src/sidequest/game/disposition.py, the beat log of
  game/session.py, game/projection/relationships.py with game/npc_pool.py, and the change gate of
  server/websocket_handlers/relationships_emit.py.
\<close>

section \<open>Dispositions\<close>

datatype attitude = FRIENDLY | NEUTRAL | HOSTILE

record attitude_thresholds =
  friendly_at :: int
  hostile_at :: int

definition validate_strict_ordering :: "attitude_thresholds \<Rightarrow> attitude_thresholds res" where
  "validate_strict_ordering th = (if hostile_at th < friendly_at th then Inr th
     else Inl (ValueError ''disposition_thresholds: hostile_at must be strictly less than friendly_at''))"

definition DEFAULT_ATTITUDE_THRESHOLDS :: attitude_thresholds where
  "DEFAULT_ATTITUDE_THRESHOLDS = \<lparr>friendly_at = 10, hostile_at = - 10\<rparr>"

text \<open>The bands are one variable of the process; a pack that declares none sets the defaults.\<close>

definition configure_attitude_thresholds :: "attitude_thresholds \<Rightarrow> attitude_thresholds \<Rightarrow> attitude_thresholds" where
  "configure_attitude_thresholds th active_thresholds = th"

definition load_pack_bands :: "attitude_thresholds option \<Rightarrow> attitude_thresholds \<Rightarrow> attitude_thresholds" where
  "load_pack_bands declared active_thresholds =
     configure_attitude_thresholds (case declared of Some th \<Rightarrow> th | None \<Rightarrow> DEFAULT_ATTITUDE_THRESHOLDS) active_thresholds"

definition disposition :: "int \<Rightarrow> int" where
  "disposition v = max (- 100) (min 100 v)"

definition attitude :: "attitude_thresholds \<Rightarrow> int \<Rightarrow> attitude" where
  "attitude active_thresholds v =
     (if v > friendly_at active_thresholds then FRIENDLY else if v < hostile_at active_thresholds then HOSTILE else NEUTRAL)"

definition DISPOSITION_LOG_CAP :: nat where "DISPOSITION_LOG_CAP = 10"

record disposition_beat =
  db_turn :: int
  db_delta :: int
  db_reason :: string
  db_location :: "string option"

definition record_disposition_beat :: "disposition_beat \<Rightarrow> disposition_beat list \<Rightarrow> disposition_beat list" where
  "record_disposition_beat b lg =
     (if db_delta b = 0 then lg
      else let lg' = lg @ [b] in
        if length lg' > DISPOSITION_LOG_CAP then drop (length lg' - DISPOSITION_LOG_CAP) lg' else lg')"

section \<open>The panel\<close>

definition OCEAN_DESCRIPTORS :: "(string \<times> string \<times> string) list" where
  "OCEAN_DESCRIPTORS =
     [(''openness'', ''curious and imaginative'', ''conventional and grounded''),
      (''conscientiousness'', ''disciplined and reliable'', ''careless and impulsive''),
      (''extraversion'', ''outgoing and warm'', ''reserved and private''),
      (''agreeableness'', ''gracious and trusting'', ''abrasive and blunt''),
      (''neuroticism'', ''anxious and volatile'', ''calm and steady'')]"

definition upper_char :: "char \<Rightarrow> char" where
  "upper_char c = (let n = (of_char c :: nat) in if 97 \<le> n \<and> n \<le> 122 then char_of (n - 32) else c)"

definition capitalize :: "string \<Rightarrow> string" where
  "capitalize s = (case s of [] \<Rightarrow> [] | c # cs \<Rightarrow> upper_char c # lower cs)"

definition phrase_for :: "string \<times> rat \<Rightarrow> string" where
  "phrase_for dv = (case dict_get OCEAN_DESCRIPTORS (fst dv) ([], []) of (high, low) \<Rightarrow> if snd dv > 0 then high else low)"

definition personality_read :: "(string \<times> rat) list option \<Rightarrow> string option" where
  "personality_read ocean =
     (case ocean of
        None \<Rightarrow> None
      | Some [] \<Rightarrow> None
      | Some o1 \<Rightarrow>
          let scored = sort_key (\<lambda>dv. - \<bar>snd dv\<bar>) (map (\<lambda>dv. (fst dv, rnd (snd dv - 5))) (filter (\<lambda>dv. dict_has OCEAN_DESCRIPTORS (fst dv)) o1));
              salient = take 2 (filter (\<lambda>dv. \<bar>snd dv\<bar> \<ge> 2) scored)
          in if salient = [] then Some ''Even-keeled and hard to read.''
             else Some (capitalize (intercalate ''; '' (map phrase_for salient)) @ ''.''))"

record panel_npc =
  npc_name :: string
  npc_disposition :: int
  npc_log :: "disposition_beat list"
  npc_last_seen_turn :: int
  npc_last_seen_location :: "string option"
  npc_ocean :: "(string \<times> rat) list option"
  npc_belief_state :: belief_state

record pool_member =
  member_name :: string
  member_disposition :: int
  observation_pending :: bool
  non_transactional_interactions :: int
  member_last_seen_turn :: int
  member_last_seen_location :: "string option"

record panel_snapshot =
  panel_npcs :: "panel_npc list"
  npc_pool :: "pool_member list"

record relationship_entry =
  re_name :: string
  re_band :: string
  re_disposition :: int
  re_trend :: string
  re_last_seen_turn :: int
  re_last_seen_location :: "string option"
  re_beats :: "disposition_beat list"
  re_personality :: "string option"
  re_ocean :: "(string \<times> rat) list option"
  re_claims :: "(string \<times> string) list"

definition TREND_WINDOW :: nat where "TREND_WINDOW = 3"

definition is_projectable :: "pool_member \<Rightarrow> bool" where
  "is_projectable m \<longleftrightarrow> \<not> observation_pending m"

definition pool_projection_skip_reason :: "pool_member \<Rightarrow> string option" where
  "pool_projection_skip_reason m =
     (if \<not> is_projectable m then Some ''not_ratified''
      else if member_last_seen_turn m \<le> 0 then Some ''not_present''
      else if non_transactional_interactions m < 1 then Some ''no_interactions''
      else None)"

definition npc_entry :: "panel_npc \<Rightarrow> relationship_entry" where
  "npc_entry n = \<lparr>re_name = npc_name n, re_band = band_for (npc_disposition n), re_disposition = npc_disposition n,
     re_trend = trend_for (map db_delta (npc_log n)) TREND_WINDOW, re_last_seen_turn = npc_last_seen_turn n,
     re_last_seen_location = npc_last_seen_location n, re_beats = npc_log n, re_personality = personality_read (npc_ocean n),
     re_ocean = npc_ocean n, re_claims = claims_to_party (npc_belief_state n)\<rparr>"

definition pool_entry :: "pool_member \<Rightarrow> relationship_entry" where
  "pool_entry m = \<lparr>re_name = member_name m, re_band = band_for (member_disposition m), re_disposition = member_disposition m,
     re_trend = ''flat'', re_last_seen_turn = member_last_seen_turn m, re_last_seen_location = member_last_seen_location m, re_beats = [],
     re_personality = None, re_ocean = None, re_claims = []\<rparr>"

definition build_relationship_entries :: "panel_snapshot \<Rightarrow> relationship_entry list" where
  "build_relationship_entries snap =
     map npc_entry (filter (\<lambda>n. npc_last_seen_turn n > 0) (panel_npcs snap)) @
     map pool_entry (filter (\<lambda>m. pool_projection_skip_reason m = None) (npc_pool snap))"

section \<open>The change gate\<close>

definition npc_part :: "panel_npc \<Rightarrow> string" where
  "npc_part n = npc_name n @ '':'' @ show_int (npc_disposition n) @ '':'' @ show_nat (length (npc_log n)) @ '':'' @
     show_nat (length (filter is_claim (beliefs (npc_belief_state n))))"

definition pool_part :: "pool_member \<Rightarrow> string" where
  "pool_part m = ''pool:'' @ member_name m @ '':'' @ show_int (member_disposition m) @ '':'' @
     show_int (non_transactional_interactions m) @ '':'' @ show_int (member_last_seen_turn m)"

definition relationships_signature :: "panel_snapshot \<Rightarrow> string" where
  "relationships_signature snap = intercalate ''|'' (map npc_part (panel_npcs snap) @ map pool_part (npc_pool snap))"

text \<open>The message that goes out, if any, and the signature the handler remembers.\<close>

definition maybe_emit_relationships :: "panel_snapshot \<Rightarrow> string option \<Rightarrow> relationship_entry list option \<times> string option" where
  "maybe_emit_relationships snap last_sig =
     (if panel_npcs snap = [] \<and> npc_pool snap = [] then (None, last_sig)
      else if last_sig = Some (relationships_signature snap) then (None, last_sig)
      else let entries = build_relationship_entries snap in
        if entries = [] then (None, last_sig) else (Some entries, Some (relationships_signature snap)))"

section \<open>What the panel shows\<close>

text \<open>
  The beat log is the tail of the history: however many shifts are recorded, it holds the last ten that moved the disposition, in
  order, and the trend of the panel is the sign of the last three of them.
\<close>
theorem beat_log_keeps_last_ten:
  assumes "length lg \<le> DISPOSITION_LOG_CAP"
  shows "fold record_disposition_beat bs lg =
    (let history = lg @ filter (\<lambda>b. db_delta b \<noteq> 0) bs in drop (length history - DISPOSITION_LOG_CAP) history)"
  using assms
proof (induction bs arbitrary: lg)
  case (Cons b bs)
  let ?h = "\<lambda>l. l @ filter (\<lambda>b. db_delta b \<noteq> 0) bs"
  show ?case
  proof (cases "db_delta b = 0")
    case False
    let ?l = "record_disposition_beat b lg"
    have l: "?l = drop (length lg + 1 - DISPOSITION_LOG_CAP) (lg @ [b])"
      using False by (simp add: record_disposition_beat_def Let_def)
    then have "length ?l \<le> DISPOSITION_LOG_CAP" by simp
    then have "fold record_disposition_beat bs ?l = drop (length (?h ?l) - DISPOSITION_LOG_CAP) (?h ?l)"
      using Cons.IH[of ?l] by (simp add: Let_def)
    also have "\<dots> = drop (length (?h (lg @ [b])) - DISPOSITION_LOG_CAP) (?h (lg @ [b]))"
      unfolding l using Cons.prems by (cases "length lg < DISPOSITION_LOG_CAP") (auto simp: drop_append drop_Cons' not_less)
    finally show ?thesis using False by (simp add: Let_def)
  qed (use Cons in \<open>simp add: record_disposition_beat_def\<close>)
qed (simp add: Let_def)

theorem beat_log_keeps_last_ten_witness:
  "fold record_disposition_beat [\<lparr>db_turn = 1, db_delta = 0, db_reason = ''r'', db_location = None\<rparr>, \<lparr>db_turn = 2, db_delta = 5, db_reason = ''r'', db_location = None\<rparr>] [] =
     [\<lparr>db_turn = 2, db_delta = 5, db_reason = ''r'', db_location = None\<rparr>]"
  using beat_log_keeps_last_ten[where lg = "[]" and bs = "[\<lparr>db_turn = 1, db_delta = 0, db_reason = ''r'', db_location = None\<rparr>, \<lparr>db_turn = 2, db_delta = 5, db_reason = ''r'', db_location = None\<rparr>]"]
  by (simp add: DISPOSITION_LOG_CAP_def Let_def)

text \<open>
  The claims of a card are the statements an NPC was told: no fact and no suspicion, which hold the solution of a mystery, crosses to the
  players, and only NPCs that were met and ratified, engaged pool members have a card.
\<close>
theorem panel_shows_claims_and_met_only:
  assumes "e \<in> set (build_relationship_entries snap)"
  shows "re_last_seen_turn e > 0 \<and>
    ((\<exists>n \<in> set (panel_npcs snap). e = npc_entry n \<and>
        (\<forall>c \<in> set (re_claims e). \<exists>b \<in> set (beliefs (npc_belief_state n)). is_claim b \<and> fst c = belief_content b \<and>
           snd c \<in> {''credible'', ''uncertain'', ''doubtful''})) \<or>
     (\<exists>m \<in> set (npc_pool snap). e = pool_entry m \<and> \<not> observation_pending m \<and> non_transactional_interactions m \<ge> 1 \<and> re_claims e = []))"
proof -
  have hint: "credibility_hint b s \<in> {''credible'', ''uncertain'', ''doubtful''}" for b s
    by (simp add: credibility_hint_def split: option.split belief_source.split)
  from assms consider (npc) n where "n \<in> set (panel_npcs snap)" "npc_last_seen_turn n > 0" "e = npc_entry n"
    | (pool) m where "m \<in> set (npc_pool snap)" "pool_projection_skip_reason m = None" "e = pool_entry m"
    by (auto simp: build_relationship_entries_def)
  then show ?thesis
  proof cases
    case npc
    have "\<exists>b \<in> set (beliefs (npc_belief_state n)). is_claim b \<and> fst c = belief_content b \<and> snd c \<in> {''credible'', ''uncertain'', ''doubtful''}"
      if "c \<in> set (re_claims e)" for c
      using that hint unfolding npc(3) by (auto simp: npc_entry_def claims_to_party_def)
    moreover have "re_last_seen_turn e > 0" using npc by (simp add: npc_entry_def)
    ultimately show ?thesis using npc by blast
  next
    case pool
    then have "member_last_seen_turn m > 0" "\<not> observation_pending m" "non_transactional_interactions m \<ge> 1"
      by (auto simp: pool_projection_skip_reason_def is_projectable_def split: if_splits)
    then show ?thesis using pool by (auto simp: pool_entry_def)
  qed
qed

theorem panel_shows_claims_and_met_only_witness:
  "re_last_seen_turn (pool_entry \<lparr>member_name = ''Mia'', member_disposition = 3, observation_pending = False,
     non_transactional_interactions = 1, member_last_seen_turn = 2, member_last_seen_location = None\<rparr>) > 0"
proof -
  let ?m = "\<lparr>member_name = ''Mia'', member_disposition = 3, observation_pending = False,
     non_transactional_interactions = 1, member_last_seen_turn = 2, member_last_seen_location = None\<rparr>"
  have "pool_entry ?m \<in> set (build_relationship_entries \<lparr>panel_npcs = [], npc_pool = [?m]\<rparr>)"
    by (simp add: build_relationship_entries_def pool_projection_skip_reason_def is_projectable_def)
  then show ?thesis using panel_shows_claims_and_met_only[of "pool_entry ?m"] by blast
qed

text \<open>
  The change gate does not see that an NPC was met. After the panel went out, an NPC of the roster that turns from latent to seen
  changes the cards but not the signature: nothing is sent, and what the players see misses the new card.
\<close>
theorem newly_met_npc_is_not_announced:
  assumes "maybe_emit_relationships snap sig0 = (Some shown, sig)" and "panel_npcs snap = before @ n # after"
    and "npc_last_seen_turn n \<le> 0" and "0 < turn"
  shows "let snap' = snap\<lparr>panel_npcs := before @ n\<lparr>npc_last_seen_turn := turn\<rparr> # after\<rparr> in
    maybe_emit_relationships snap' sig = (None, sig) \<and> length (build_relationship_entries snap') = length shown + 1"
proof -
  have s: "shown = build_relationship_entries snap" "sig = Some (relationships_signature snap)"
    using assms(1) by (auto simp: maybe_emit_relationships_def Let_def split: if_splits)
  let ?snap = "snap\<lparr>panel_npcs := before @ n\<lparr>npc_last_seen_turn := turn\<rparr> # after\<rparr>"
  have "relationships_signature ?snap = relationships_signature snap"
    using assms(2) by (simp add: relationships_signature_def npc_part_def)
  then show ?thesis using s assms(2-4)
    by (simp add: maybe_emit_relationships_def build_relationship_entries_def)
qed

theorem newly_met_npc_is_not_announced_witness:
  "\<exists>shown sig. maybe_emit_relationships \<lparr>panel_npcs =
       [\<lparr>npc_name = ''Ana'', npc_disposition = 0, npc_log = [], npc_last_seen_turn = 1, npc_last_seen_location = None, npc_ocean = None,
         npc_belief_state = \<lparr>beliefs = [], credibility_scores = []\<rparr>\<rparr>,
        \<lparr>npc_name = ''Bo'', npc_disposition = 0, npc_log = [], npc_last_seen_turn = 0, npc_last_seen_location = None, npc_ocean = None,
         npc_belief_state = \<lparr>beliefs = [], credibility_scores = []\<rparr>\<rparr>], npc_pool = []\<rparr> None = (Some shown, sig) \<and>
     maybe_emit_relationships \<lparr>panel_npcs =
       [\<lparr>npc_name = ''Ana'', npc_disposition = 0, npc_log = [], npc_last_seen_turn = 1, npc_last_seen_location = None, npc_ocean = None,
         npc_belief_state = \<lparr>beliefs = [], credibility_scores = []\<rparr>\<rparr>,
        \<lparr>npc_name = ''Bo'', npc_disposition = 0, npc_log = [], npc_last_seen_turn = 5, npc_last_seen_location = None, npc_ocean = None,
         npc_belief_state = \<lparr>beliefs = [], credibility_scores = []\<rparr>\<rparr>], npc_pool = []\<rparr> sig = (None, sig)"
proof -
  let ?a = "\<lparr>npc_name = ''Ana'', npc_disposition = 0, npc_log = [], npc_last_seen_turn = 1, npc_last_seen_location = None, npc_ocean = None,
         npc_belief_state = \<lparr>beliefs = [], credibility_scores = []\<rparr>\<rparr>"
  let ?b = "\<lparr>npc_name = ''Bo'', npc_disposition = 0, npc_log = [], npc_last_seen_turn = 0, npc_last_seen_location = None, npc_ocean = None,
         npc_belief_state = \<lparr>beliefs = [], credibility_scores = []\<rparr>\<rparr>"
  let ?snap = "\<lparr>panel_npcs = [?a, ?b], npc_pool = []\<rparr>"
  have "\<exists>shown sig. maybe_emit_relationships ?snap None = (Some shown, sig)"
    by (simp add: maybe_emit_relationships_def build_relationship_entries_def Let_def)
  then obtain shown sig where e: "maybe_emit_relationships ?snap None = (Some shown, sig)" by blast
  have p: "panel_npcs ?snap = [?a] @ ?b # []" "npc_last_seen_turn ?b \<le> 0" "0 < (5::int)" by simp_all
  from newly_met_npc_is_not_announced[OF e p] e show ?thesis by (simp add: Let_def)
qed

text \<open>
  The bands are shared by all sessions of the process: an attitude is read with the bands of the pack loaded last, whichever session the
  NPC belongs to.
\<close>

lemma attitude_uses_last_loaded_pack:
  "attitude (fold load_pack_bands (loads @ [declared]) bands) v =
     attitude (case declared of Some th \<Rightarrow> th | None \<Rightarrow> DEFAULT_ATTITUDE_THRESHOLDS) v"
  by (simp add: load_pack_bands_def configure_attitude_thresholds_def)

lemma other_session_rebands:
  "attitude (fold load_pack_bands [None] bands) 20 = FRIENDLY"
  "attitude (fold load_pack_bands [None, Some \<lparr>friendly_at = 50, hostile_at = - 50\<rparr>] bands) 20 = NEUTRAL"
  by (simp_all add: load_pack_bands_def configure_attitude_thresholds_def attitude_def DEFAULT_ATTITUDE_THRESHOLDS_def)

end
