(* ===== verification/Pacing.thy ===== *)
theory Pacing
  imports Prelude Float64
begin

text \<open>
  The tension tracker that paces narration (src/sidequest/game/tension_tracker.py, the thresholds of
  genre/models/ocean.py): two tension tracks, a decaying spike and the hint derived from them. Values are
  doubles, rounded after every operation of the code; the watcher event of an observation is left out.
\<close>

section \<open>Classification\<close>

definition BORING_BASE :: rat where "BORING_BASE = lit 5 100"
definition ACTION_DECAY :: rat where "ACTION_DECAY = lit 9 10"
definition DEFAULT_SPIKE_DECAY_RATE :: rat where "DEFAULT_SPIKE_DECAY_RATE = lit 15 100"
definition DRAMATIC_DAMAGE_THRESHOLD :: int where "DRAMATIC_DAMAGE_THRESHOLD = 15"
definition NEAR_MISS_HP_THRESHOLD :: rat where "NEAR_MISS_HP_THRESHOLD = lit 2 10"

definition clamp01 :: "rat \<Rightarrow> rat" where
  "clamp01 v = (if v < 0 then 0 else if v > 1 then 1 else v)"

record damage_event =
  de_attacker :: string
  de_target :: string
  de_damage :: int
  de_round :: int

record round_result =
  rr_round :: int
  damage_events :: "damage_event list"
  effects_applied :: "string list"
  effects_expired :: "string list"

datatype delivery_mode = Instant | Sentence | Streaming
datatype combat_event = Boring | Dramatic | Normal
datatype detailed_combat_event = CriticalHit | KillingBlow | DeathSave | FirstBlood | NearMiss | LastStanding

fun spike_magnitude :: "detailed_combat_event \<Rightarrow> rat" where
  "spike_magnitude CriticalHit = lit 8 10"
| "spike_magnitude KillingBlow = 1"
| "spike_magnitude DeathSave = lit 7 10"
| "spike_magnitude FirstBlood = lit 6 10"
| "spike_magnitude NearMiss = lit 5 10"
| "spike_magnitude LastStanding = lit 9 10"

fun decay_rate_of :: "detailed_combat_event \<Rightarrow> rat" where
  "decay_rate_of CriticalHit = lit 15 100"
| "decay_rate_of KillingBlow = lit 20 100"
| "decay_rate_of DeathSave = lit 15 100"
| "decay_rate_of FirstBlood = lit 10 100"
| "decay_rate_of NearMiss = lit 10 100"
| "decay_rate_of LastStanding = lit 20 100"

datatype turn_classification = TurnBoring | TurnNormal | TurnDramatic detailed_combat_event

definition total_damage :: "round_result \<Rightarrow> int" where
  "total_damage r = sum_list (map (\<lambda>e. max (de_damage e) 0) (damage_events r))"

definition classify_round :: "round_result \<Rightarrow> string option \<Rightarrow> combat_event" where
  "classify_round r killed =
     (if killed \<noteq> None then Dramatic
      else if effects_applied r \<noteq> [] then Dramatic
      else if total_damage r \<ge> DRAMATIC_DAMAGE_THRESHOLD then Dramatic
      else if total_damage r = 0 then Boring
      else Normal)"

definition classify_combat_outcome :: "round_result \<Rightarrow> string option \<Rightarrow> rat option \<Rightarrow> turn_classification" where
  "classify_combat_outcome r killed lowest =
     (if killed \<noteq> None then TurnDramatic KillingBlow
      else if (case lowest of None \<Rightarrow> False | Some x \<Rightarrow> x \<le> NEAR_MISS_HP_THRESHOLD \<and> total_damage r > 0) then TurnDramatic NearMiss
      else if total_damage r \<ge> DRAMATIC_DAMAGE_THRESHOLD then TurnDramatic CriticalHit
      else if effects_applied r \<noteq> [] then TurnDramatic FirstBlood
      else if total_damage r = 0 then TurnBoring
      else TurnNormal)"

section \<open>The tracker\<close>

record event_spike =
  magnitude :: rat
  decay_rate :: rat

record tension_tracker =
  action_tension :: rat
  stakes_tension :: rat
  last_event_spike :: "event_spike option"
  spike_decay_age :: nat
  boring_streak :: nat

definition new_tracker :: tension_tracker where
  "new_tracker = \<lparr>action_tension = 0, stakes_tension = 0, last_event_spike = None, spike_decay_age = 0, boring_streak = 0\<rparr>"

definition with_values :: "rat \<Rightarrow> rat \<Rightarrow> tension_tracker" where
  "with_values a s = new_tracker\<lparr>action_tension := clamp01 a, stakes_tension := clamp01 s\<rparr>"

definition effective_spike :: "tension_tracker \<Rightarrow> rat" where
  "effective_spike t =
     (case last_event_spike t of
        None \<Rightarrow> 0
      | Some sp \<Rightarrow> max (rnd (magnitude sp - rnd (decay_rate sp * of_nat (spike_decay_age t)))) 0)"

definition age_spike :: "tension_tracker \<Rightarrow> tension_tracker" where
  "age_spike t =
     (case last_event_spike t of
        None \<Rightarrow> t
      | Some sp \<Rightarrow>
          let t' = t\<lparr>spike_decay_age := spike_decay_age t + 1\<rparr> in
          if effective_spike t' \<le> 0 then t'\<lparr>last_event_spike := None, spike_decay_age := 0\<rparr> else t')"

definition drama_weight :: "tension_tracker \<Rightarrow> rat" where
  "drama_weight t = clamp01 (max (max (action_tension t) (stakes_tension t)) (effective_spike t))"

definition inject_spike :: "rat \<Rightarrow> tension_tracker \<Rightarrow> tension_tracker" where
  "inject_spike amount t =
     t\<lparr>last_event_spike := Some \<lparr>magnitude = clamp01 amount, decay_rate = DEFAULT_SPIKE_DECAY_RATE\<rparr>, spike_decay_age := 0\<rparr>"

definition record_event :: "combat_event \<Rightarrow> tension_tracker \<Rightarrow> tension_tracker" where
  "record_event ev t =
     (case ev of
        Boring \<Rightarrow> t\<lparr>boring_streak := boring_streak t + 1,
          action_tension := clamp01 (rnd (action_tension t + rnd (BORING_BASE * of_nat (boring_streak t + 1))))\<rparr>
      | Dramatic \<Rightarrow> t\<lparr>action_tension := 0, boring_streak := 0\<rparr>
      | Normal \<Rightarrow> t)"

definition update_stakes :: "int \<Rightarrow> int \<Rightarrow> tension_tracker \<Rightarrow> tension_tracker res" where
  "update_stakes current_hp max_hp t =
     (if max_hp \<le> 0 then Inl (ValueError ''max_hp must be positive'')
      else Inr (t\<lparr>stakes_tension := clamp01 (rnd (1 - rnd (rnd (of_int current_hp) / rnd (of_int max_hp))))\<rparr>))"

definition tick :: "tension_tracker \<Rightarrow> tension_tracker" where
  "tick t = age_spike (t\<lparr>action_tension := rnd (action_tension t * ACTION_DECAY)\<rparr>)"

definition observe :: "round_result \<Rightarrow> string option \<Rightarrow> rat option \<Rightarrow> tension_tracker \<Rightarrow> turn_classification \<times> tension_tracker" where
  "observe r killed lowest t =
     (let t1 = age_spike t; c = classify_combat_outcome r killed lowest in
      (c, case c of
        TurnBoring \<Rightarrow> record_event Boring t1
      | TurnNormal \<Rightarrow> record_event Normal t1
      | TurnDramatic ev \<Rightarrow> (record_event Dramatic t1)\<lparr>
          last_event_spike := Some \<lparr>magnitude = spike_magnitude ev, decay_rate = decay_rate_of ev\<rparr>, spike_decay_age := 0\<rparr>))"

section \<open>The hint\<close>

record drama_thresholds =
  sentence_delivery_min :: rat
  streaming_delivery_min :: rat
  escalation_streak :: int

record pacing_hint =
  hint_weight :: rat
  target_sentences :: int
  hint_mode :: delivery_mode
  escalation_beat :: "string option"

definition pacing_hint_for :: "drama_thresholds \<Rightarrow> tension_tracker \<Rightarrow> pacing_hint" where
  "pacing_hint_for th t =
     (let dw = drama_weight t in
      \<lparr>hint_weight = dw, target_sentences = 1 + \<lfloor>rnd (dw * 5)\<rfloor>,
       hint_mode = (if dw > streaming_delivery_min th then Streaming else if dw \<ge> sentence_delivery_min th then Sentence else Instant),
       escalation_beat = (if int (boring_streak t) \<ge> escalation_streak th
         then Some ''The environment shifts - introduce a new element to break the monotony.'' else None)\<rparr>)"

definition narrator_directive :: "pacing_hint \<Rightarrow> string" where
  "narrator_directive h = ''Target approximately '' @ show_int (target_sentences h) @ '' sentence(s) for this narration. Drama level: '' @
     show_int (rhe (rnd (hint_weight h * 100))) @ ''%.''"

section \<open>Bounds\<close>

datatype tracker_op = Inject rat | Record combat_event | Stakes int int | Tick | Observe round_result "string option" "rat option"

text \<open>A call that raises leaves the tracker as it was.\<close>

fun apply_op :: "tracker_op \<Rightarrow> tension_tracker \<Rightarrow> tension_tracker" where
  "apply_op (Inject x) t = inject_spike x t"
| "apply_op (Record ev) t = record_event ev t"
| "apply_op (Stakes c m) t = (case update_stakes c m t of Inl e \<Rightarrow> t | Inr t' \<Rightarrow> t')"
| "apply_op Tick t = tick t"
| "apply_op (Observe r k l) t = snd (observe r k l t)"

text \<open>Every spike decays by at least a tenth per turn, and a spike that has faded is gone.\<close>

definition tracker_ok :: "tension_tracker \<Rightarrow> bool" where
  "tracker_ok t \<longleftrightarrow> 0 \<le> action_tension t \<and> action_tension t \<le> 1 \<and> 0 \<le> stakes_tension t \<and> stakes_tension t \<le> 1 \<and>
     (case last_event_spike t of None \<Rightarrow> spike_decay_age t = 0
      | Some sp \<Rightarrow> 0 \<le> magnitude sp \<and> magnitude sp \<le> 1 \<and> lit 10 100 \<le> decay_rate sp \<and> spike_decay_age t \<le> 9)"

lemma clamp01_bounds [simp]: "0 \<le> clamp01 v" "clamp01 v \<le> 1"
  by (auto simp: clamp01_def)

lemma decay_rates: "lit 10 100 \<le> decay_rate_of ev" "lit 10 100 \<le> DEFAULT_SPIKE_DECAY_RATE"
proof -
  have l: "lit 10 100 \<le> lit 15 100" "lit 10 100 \<le> lit 20 100" by (simp_all add: lit_def rnd_mono)
  then show "lit 10 100 \<le> decay_rate_of ev" by (cases ev) simp_all
  show "lit 10 100 \<le> DEFAULT_SPIKE_DECAY_RATE" using l by (simp add: DEFAULT_SPIKE_DECAY_RATE_def)
qed

lemma magnitudes: "0 \<le> spike_magnitude ev" "spike_magnitude ev \<le> 1"
proof -
  have "0 \<le> lit n 10 \<and> lit n 10 \<le> 1" if "0 \<le> n" "n \<le> 10" for n
    using that rnd_mono[of "of_int n / 10" 1] rnd_int[of 1] by (simp add: lit_def rnd_nonneg)
  then show "0 \<le> spike_magnitude ev" "spike_magnitude ev \<le> 1" by (cases ev; simp)+
qed

lemma tenth_times_ten: "1 \<le> rnd (lit 10 100 * 10)"
proof -
  have "1 / 10 \<le> lit 10 100" by code_simp
  then have "1 \<le> lit 10 100 * 10" by simp
  then have "rnd 1 \<le> rnd (lit 10 100 * 10)" by (rule rnd_mono)
  then show ?thesis using rnd_int[of 1] by simp
qed

lemma spike_gone:
  assumes "last_event_spike t = Some sp" "magnitude sp \<le> 1" "lit 10 100 \<le> decay_rate sp" "10 \<le> spike_decay_age t"
  shows "effective_spike t \<le> 0"
proof -
  have "0 \<le> lit 10 100" by code_simp
  then have "lit 10 100 * 10 \<le> decay_rate sp * of_nat (spike_decay_age t)" using assms(3,4) by (intro mult_mono) simp_all
  then have "1 \<le> rnd (decay_rate sp * of_nat (spike_decay_age t))" using tenth_times_ten rnd_mono order_trans by blast
  then have "magnitude sp - rnd (decay_rate sp * of_nat (spike_decay_age t)) \<le> 0" using assms(2) by simp
  then have "rnd (magnitude sp - rnd (decay_rate sp * of_nat (spike_decay_age t))) \<le> rnd 0" by (rule rnd_mono)
  then show ?thesis using assms(1) by (simp add: effective_spike_def)
qed

lemma age_spike_ok: "tracker_ok t \<Longrightarrow> tracker_ok (age_spike t)"
proof (cases "last_event_spike t")
  case (Some sp)
  assume t: "tracker_ok t"
  let ?t = "t\<lparr>spike_decay_age := spike_decay_age t + 1\<rparr>"
  have "spike_decay_age t + 1 \<le> 9" if "\<not> effective_spike ?t \<le> 0"
    using spike_gone[of ?t sp] that t Some by (fastforce simp: tracker_ok_def)
  then show ?thesis using t Some by (auto simp: tracker_ok_def age_spike_def Let_def)
qed (simp add: age_spike_def)

lemma age_spike_cases:
  "last_event_spike t = None \<Longrightarrow> age_spike t = t"
  "last_event_spike (age_spike t) = None \<or> spike_decay_age (age_spike t) = Suc (spike_decay_age t)"
  by (auto simp: age_spike_def Let_def split: option.splits)

lemma apply_op_ok: "tracker_ok t \<Longrightarrow> tracker_ok (apply_op op t)"
proof (cases op)
  case Tick
  assume t: "tracker_ok t"
  have "0 \<le> ACTION_DECAY" "ACTION_DECAY \<le> 1" by code_simp+
  then have "0 \<le> action_tension t * ACTION_DECAY" "action_tension t * ACTION_DECAY \<le> 1"
    using t mult_mono[of "action_tension t" 1 ACTION_DECAY 1] by (auto simp: tracker_ok_def)
  then have "0 \<le> rnd (action_tension t * ACTION_DECAY)" "rnd (action_tension t * ACTION_DECAY) \<le> 1"
    using rnd_nonneg rnd_mono[of "action_tension t * ACTION_DECAY" 1] rnd_int[of 1] by simp_all
  then have "tracker_ok (t\<lparr>action_tension := rnd (action_tension t * ACTION_DECAY)\<rparr>)" using t by (simp add: tracker_ok_def split: option.splits)
  then show ?thesis unfolding Tick by (simp add: tick_def age_spike_ok)
next
  case (Observe r k l)
  assume t: "tracker_ok t"
  show ?thesis unfolding Observe using age_spike_ok[OF t] decay_rates magnitudes
    by (auto simp: observe_def Let_def tracker_ok_def record_event_def split: turn_classification.split option.splits)
next
  case (Record ev)
  assume "tracker_ok t"
  then show ?thesis unfolding Record by (cases ev) (auto simp: record_event_def tracker_ok_def split: option.splits)
qed (auto simp: tracker_ok_def inject_spike_def decay_rates update_stakes_def split: option.splits)

lemma ops_ok: "tracker_ok t \<Longrightarrow> tracker_ok (fold apply_op ops t)"
  by (induction ops arbitrary: t) (simp_all add: apply_op_ok)

text \<open>
  Pacing stays in its range. Whatever the tracker is told, in whatever order, from any start values: drama is
  between zero and one, the narrator is asked for one to six sentences, and a spike is gone after at most ten turns
  without a new one.
\<close>
theorem pacing_is_bounded:
  "let t = fold apply_op ops (with_values a s); h = pacing_hint_for th t in
     0 \<le> hint_weight h \<and> hint_weight h \<le> 1 \<and> 1 \<le> target_sentences h \<and> target_sentences h \<le> 6 \<and>
     last_event_spike ((age_spike ^^ 10) t) = None"
proof -
  let ?t = "fold apply_op ops (with_values a s)"
  have ok: "tracker_ok ?t" by (rule ops_ok) (simp add: tracker_ok_def with_values_def new_tracker_def)
  have dw: "0 \<le> drama_weight ?t" "drama_weight ?t \<le> 1" by (simp_all add: drama_weight_def)
  have "0 \<le> rnd (drama_weight ?t * 5)" using dw by (simp add: rnd_nonneg)
  moreover have "rnd (drama_weight ?t * 5) \<le> 5" using dw rnd_mono[of "drama_weight ?t * 5" 5] rnd_int[of 5] by simp
  ultimately have fl: "0 \<le> \<lfloor>rnd (drama_weight ?t * 5)\<rfloor>" "\<lfloor>rnd (drama_weight ?t * 5)\<rfloor> \<le> 5" by (simp_all add: floor_le_iff)
  have aged: "last_event_spike ((age_spike ^^ k) ?t) = None \<or> k \<le> spike_decay_age ((age_spike ^^ k) ?t) \<and> tracker_ok ((age_spike ^^ k) ?t)" for k
  proof (induction k)
    case (Suc k)
    define u where "u = (age_spike ^^ k) ?t"
    have "last_event_spike u = None \<or> k \<le> spike_decay_age u \<and> tracker_ok u" using Suc by (simp add: u_def)
    then have "last_event_spike (age_spike u) = None \<or> Suc k \<le> spike_decay_age (age_spike u) \<and> tracker_ok (age_spike u)"
      using age_spike_cases[of u] age_spike_ok[of u] by auto
    then show ?case by (simp add: u_def)
  qed (simp add: ok)
  from aged[of 10] have "last_event_spike ((age_spike ^^ 10) ?t) = None" by (auto simp: tracker_ok_def split: option.splits)
  then show ?thesis using dw fl by (simp add: Let_def pacing_hint_for_def)
qed

text \<open>The two classifiers agree on what is boring; the detailed one can raise a harmless-looking round to a near miss.\<close>

lemma classifiers_agree:
  "classify_round r killed = Boring \<longleftrightarrow> classify_combat_outcome r killed lowest = TurnBoring"
  "classify_round r killed = Dramatic \<Longrightarrow> \<exists>ev. classify_combat_outcome r killed lowest = TurnDramatic ev"
  by (auto simp: classify_round_def classify_combat_outcome_def DRAMATIC_DAMAGE_THRESHOLD_def split: option.splits if_splits)

end
