(* ===== verification/Mutations.thy ===== *)
theory Mutations
  imports Wn_Lethality "HOL-Library.List_Lexorder" "HOL-Library.Char_ord"
begin

text \<open>
  The mutation system of the mutant rulesets (src/sidequest/mutation): the catalog and its validators
  (models.py, without the attack and modifier blocks, which no operation here reads), per-character state (state.py), resume-safe dice (rolls.py), acquisition (acquire_ops.py),
  character creation (chargen.py), saints (saints.py), stocks (stocks.py) and use in play (use_ops.py). The
  digest behind a roll is a parameter: \<open>digest s\<close> is the number in the first eight bytes of the SHA-256 of \<open>s\<close>.
\<close>

section \<open>The catalog\<close>

datatype mutation_usage = AtWill | PerScene | PerDay

record positive_mutation =
  pm_id :: string
  pm_name :: string
  pm_category :: string
  pm_effect :: string
  strain_cost :: int
  pm_usage :: mutation_usage
  uses_per_period :: int
  pm_save :: "(string option \<times> string) option"

record negative_mutation =
  nm_id :: string
  nm_name :: string
  roll_range :: "int \<times> int"
  nm_effect :: string
  attr_penalties :: "(string \<times> int) list"

record stigma_tables =
  st_body_part :: "string list"
  st_nature :: "string list"
  st_flavor :: "string list"

record mp_economy =
  mutant_classes :: "string list"
  base_mp :: int
  per_negative_mp :: int
  max_negatives :: int
  concealable_stigma_cost :: int
  spend_random_positive :: int
  spend_pick_positive :: int
  spend_same_category :: int
  chargen_negatives_rolled :: int

record mutation_catalog =
  economy :: mp_economy
  stigma_of :: stigma_tables
  negatives :: "negative_mutation list"
  positives :: "positive_mutation list"

definition slug_letter :: "char \<Rightarrow> bool" where
  "slug_letter c \<longleftrightarrow> 97 \<le> (of_char c :: nat) \<and> (of_char c :: nat) \<le> 122 \<or> c = CHR ''_''"

definition slug_char :: "char \<Rightarrow> bool" where
  "slug_char c \<longleftrightarrow> slug_letter c \<or> 48 \<le> (of_char c :: nat) \<and> (of_char c :: nat) \<le> 57"

definition id_prefix :: "string \<Rightarrow> string" where
  "id_prefix s = takeWhile (\<lambda>c. c \<noteq> CHR ''/'') s"

text \<open>The pattern of an id; \<open>$\<close> also matches before a final newline.\<close>

definition id_slug_shape :: "string \<Rightarrow> bool" where
  "id_slug_shape v =
     (let s = (if v \<noteq> [] \<and> List.last v = CHR 0x0A then butlast v else v); pre = id_prefix s; rest = drop (length pre + 1) s
      in pre \<noteq> [] \<and> list_all slug_letter pre \<and> length pre < length s \<and> rest \<noteq> [] \<and> list_all slug_char rest)"

definition mutation_categories :: "string list" where
  "mutation_categories = [''structure'', ''sense'', ''hybrid'', ''cognition'', ''pseudo_psychic'', ''exotic'']"

definition validate_positive :: "positive_mutation \<Rightarrow> unit res" where
  "validate_positive m =
     (if strain_cost m < 0 \<or> uses_per_period m < 1 \<or> pm_category m \<notin> set mutation_categories then Inl (ValueError ''out of range'')
      else if \<not> id_slug_shape (pm_id m) then Inl (ValueError ''mutation id must match <category>/<snake_case>'')
      else if id_prefix (pm_id m) \<noteq> pm_category m then Inl (ValueError ''id prefix must equal category'')
      else Inr ())"

definition starts_negative :: "string \<Rightarrow> bool" where
  "starts_negative s \<longleftrightarrow> take 9 s = ''negative/''"

definition validate_negative :: "negative_mutation \<Rightarrow> unit res" where
  "validate_negative m =
     (if \<not> id_slug_shape (nm_id m) \<or> \<not> starts_negative (nm_id m) then Inl (ValueError ''negative mutation id must match negative/<snake_case>'')
      else if list_ex (\<lambda>ap. snd ap < - 2 \<or> snd ap > 0) (attr_penalties m) then Inl (ValueError ''attr penalty out of range'')
      else if \<not> (1 \<le> fst (roll_range m) \<and> fst (roll_range m) \<le> snd (roll_range m) \<and> snd (roll_range m) \<le> 100)
        then Inl (ValueError ''roll_range must satisfy 1 <= lo <= hi <= 100'')
      else Inr ())"

definition table_sizes :: "stigma_tables \<Rightarrow> unit res" where
  "table_sizes t =
     (if length (st_body_part t) \<noteq> 6 \<or> length (st_nature t) \<noteq> 6 \<or> length (st_flavor t) \<noteq> 12
      then Inl (ValueError ''stigma tables must be d6/d6/d12'') else Inr ())"

definition unique_ids :: "mutation_catalog \<Rightarrow> unit res" where
  "unique_ids cat = (if distinct (map nm_id (negatives cat) @ map pm_id (positives cat)) then Inr () else Inl (ValueError ''duplicate mutation ids''))"

fun partition_from :: "int \<Rightarrow> (int \<times> int) list \<Rightarrow> unit res" where
  "partition_from cursor [] = (if cursor \<noteq> 101 then Inl (ValueError ''negative d100 table must partition 1-100 exactly'') else Inr ())"
| "partition_from cursor ((lo, hi) # rs) =
     (if lo \<noteq> cursor then Inl (ValueError ''negative d100 table must partition 1-100 exactly'') else partition_from (hi + 1) rs)"

text \<open>Sorting pairs: by the first component, then by the second, as tuples compare.\<close>

definition d100_partition :: "mutation_catalog \<Rightarrow> unit res" where
  "d100_partition cat = partition_from 1 (sort_key fst (sort_key snd (map roll_range (negatives cat))))"

definition validate_catalog :: "mutation_catalog \<Rightarrow> unit res" where
  "validate_catalog cat =
     rbind (table_sizes (stigma_of cat)) (\<lambda>_. rbind (rmap validate_negative (negatives cat)) (\<lambda>_.
     rbind (rmap validate_positive (positives cat)) (\<lambda>_. rbind (unique_ids cat) (\<lambda>_. d100_partition cat))))"

definition positive_by_id :: "mutation_catalog \<Rightarrow> string \<Rightarrow> positive_mutation res" where
  "positive_by_id cat i = (case find (\<lambda>m. pm_id m = i) (positives cat) of Some m \<Rightarrow> Inr m | None \<Rightarrow> Inl (KeyError ''positive mutation not in catalog''))"

definition negative_for_roll :: "mutation_catalog \<Rightarrow> int \<Rightarrow> negative_mutation res" where
  "negative_for_roll cat roll =
     (case find (\<lambda>m. fst (roll_range m) \<le> roll \<and> roll \<le> snd (roll_range m)) (negatives cat) of
        Some m \<Rightarrow> Inr m
      | None \<Rightarrow> Inl (ValueError ''d100 roll matched no negative range''))"

section \<open>State and dice\<close>

record stigma_record =
  sr_body_part :: string
  sr_nature :: string
  sr_flavor :: string
  sr_concealable :: bool

record usage_counter =
  uc_period :: mutation_usage
  uc_used :: int

record character_mutations =
  mp_remaining :: int
  stigma :: "stigma_record list"
  negative_ids :: "string list"
  positive_ids :: "string list"
  usage :: "(string \<times> usage_counter) list"
  acquisition_log :: "string list"

record mutation_state =
  mut_characters :: "(string \<times> character_mutations) list"
  roll_sequence :: int

definition fresh_character :: "int \<Rightarrow> character_mutations" where
  "fresh_character mp = \<lparr>mp_remaining = mp, stigma = [], negative_ids = [], positive_ids = [], usage = [], acquisition_log = []\<rparr>"

definition map_counters :: "(usage_counter \<Rightarrow> usage_counter) \<Rightarrow> mutation_state \<Rightarrow> mutation_state" where
  "map_counters f s = s\<lparr>mut_characters := map (\<lambda>(a, c). (a, c\<lparr>usage := map (\<lambda>(i, u). (i, f u)) (usage c)\<rparr>)) (mut_characters s)\<rparr>"

definition reset_scene :: "mutation_state \<Rightarrow> mutation_state" where
  "reset_scene s = map_counters (\<lambda>u. if uc_period u = PerScene then u\<lparr>uc_used := 0\<rparr> else u) s"

definition reset_day :: "mutation_state \<Rightarrow> mutation_state" where
  "reset_day s = map_counters (\<lambda>u. u\<lparr>uc_used := 0\<rparr>) s"

definition set_character :: "string \<Rightarrow> character_mutations \<Rightarrow> mutation_state \<Rightarrow> mutation_state" where
  "set_character actor c s = s\<lparr>mut_characters := AList.update actor c (mut_characters s)\<rparr>"

text \<open>The roll for the current sequence number.\<close>

definition deterministic_roll :: "(string \<Rightarrow> nat) \<Rightarrow> string \<Rightarrow> string \<Rightarrow> string \<Rightarrow> int \<Rightarrow> int \<Rightarrow> int res" where
  "deterministic_roll digest session_id actor purpose sequence die =
     (if die < 1 then Inl (ValueError ''sides must be >= 1'')
      else Inr (int (digest (session_id @ ''|'' @ actor @ ''|'' @ purpose @ ''|'' @ show_int sequence)) mod die + 1))"

definition next_roll :: "(string \<Rightarrow> nat) \<Rightarrow> string \<Rightarrow> string \<Rightarrow> string \<Rightarrow> int \<Rightarrow> (mutation_state, int) sm" where
  "next_roll digest session_id actor purpose die =
     sthen (modify (\<lambda>s. s\<lparr>roll_sequence := roll_sequence s + 1\<rparr>))
       (sbind get_st (\<lambda>s. lift_res (deterministic_roll digest session_id actor purpose (roll_sequence s) die)))"

section \<open>Acquisition\<close>

record acquire_result =
  acquired :: bool
  acq_actor :: string
  acq_mutation_id :: string
  acq_roll :: int
  mp_delta :: int
  mp_left :: int
  acq_reason :: string

definition refusal :: "string \<Rightarrow> string \<Rightarrow> character_mutations \<Rightarrow> string \<Rightarrow> acquire_result" where
  "refusal actor i c why = \<lparr>acquired = False, acq_actor = actor, acq_mutation_id = i, acq_roll = 0, mp_delta = 0, mp_left = mp_remaining c, acq_reason = why\<rparr>"

definition character_of_actor :: "string \<Rightarrow> (mutation_state, character_mutations) sm" where
  "character_of_actor actor =
     sbind get_st (\<lambda>s. case map_of (mut_characters s) actor of
       None \<Rightarrow> raise (KeyError ''actor has no mutation state'') | Some c \<Rightarrow> ret c)"

fun negative_attempts :: "(string \<Rightarrow> nat) \<Rightarrow> mutation_catalog \<Rightarrow> string \<Rightarrow> string \<Rightarrow> string list \<Rightarrow> nat \<Rightarrow> (mutation_state, int \<times> negative_mutation) sm" where
  "negative_attempts digest cat session_id actor owned 0 = raise (ValueError ''could not roll a non-duplicate negative'')"
| "negative_attempts digest cat session_id actor owned (Suc k) =
     sbind (next_roll digest session_id actor ''negative_d100'' 100) (\<lambda>roll.
     sbind (lift_res (negative_for_roll cat roll)) (\<lambda>nd.
       if nm_id nd \<notin> set owned then ret (roll, nd) else negative_attempts digest cat session_id actor owned k))"

definition acquire_random_negative :: "(string \<Rightarrow> nat) \<Rightarrow> mutation_catalog \<Rightarrow> string \<Rightarrow> string \<Rightarrow> (mutation_state, acquire_result) sm" where
  "acquire_random_negative digest cat session_id actor =
     sbind (character_of_actor actor) (\<lambda>c.
       if int (length (negative_ids c)) \<ge> max_negatives (economy cat) then ret (refusal actor [] c ''max_negatives reached'')
       else sbind (negative_attempts digest cat session_id actor (negative_ids c) (length (negatives cat) * 4)) (\<lambda>(roll, nd).
         let c' = c\<lparr>negative_ids := negative_ids c @ [nm_id nd], acquisition_log := acquisition_log c @ [nm_id nd],
                    mp_remaining := mp_remaining c + per_negative_mp (economy cat)\<rparr> in
         sthen (modify (set_character actor c'))
           (ret \<lparr>acquired = True, acq_actor = actor, acq_mutation_id = nm_id nd, acq_roll = roll, mp_delta = per_negative_mp (economy cat),
                 mp_left = mp_remaining c', acq_reason = []\<rparr>)))"

definition positive_spend_cost :: "character_mutations \<Rightarrow> mutation_catalog \<Rightarrow> bool \<Rightarrow> string \<Rightarrow> int" where
  "positive_spend_cost c cat picked category =
     (if picked then spend_pick_positive (economy cat)
      else if list_ex (\<lambda>i. id_prefix i = category) (positive_ids c) then spend_same_category (economy cat)
      else spend_random_positive (economy cat))"

definition spend_on_positive :: "mutation_catalog \<Rightarrow> string \<Rightarrow> character_mutations \<Rightarrow> bool \<Rightarrow> int \<Rightarrow> positive_mutation \<Rightarrow> (mutation_state, acquire_result) sm" where
  "spend_on_positive cat actor c picked roll chosen =
     (let cost = positive_spend_cost c cat picked (pm_category chosen) in
      if mp_remaining c < cost then ret (refusal actor (pm_id chosen) c ''insufficient_mp'')
      else
        let c' = c\<lparr>mp_remaining := mp_remaining c - cost, positive_ids := positive_ids c @ [pm_id chosen],
                   acquisition_log := acquisition_log c @ [pm_id chosen]\<rparr> in
        sthen (modify (set_character actor c'))
          (ret \<lparr>acquired = True, acq_actor = actor, acq_mutation_id = pm_id chosen, acq_roll = roll, mp_delta = - cost, mp_left = mp_remaining c', acq_reason = []\<rparr>))"

definition acquire_positive :: "(string \<Rightarrow> nat) \<Rightarrow> mutation_catalog \<Rightarrow> string \<Rightarrow> string \<Rightarrow> string option \<Rightarrow> string option \<Rightarrow> (mutation_state, acquire_result) sm" where
  "acquire_positive digest cat session_id actor mutation_id category =
     sbind (character_of_actor actor) (\<lambda>c.
       case mutation_id of
         Some i \<Rightarrow>
           sbind (lift_res (positive_by_id cat i)) (\<lambda>target.
             if i \<in> set (positive_ids c) then ret (refusal actor i c ''already_owned'')
             else spend_on_positive cat actor c True 0 target)
       | None \<Rightarrow>
           let pool = filter (\<lambda>p. pm_id p \<notin> set (positive_ids c) \<and> (category = None \<or> category = Some (pm_category p))) (positives cat) in
           if pool = [] then ret (refusal actor [] c ''pool_exhausted'')
           else sbind (next_roll digest session_id actor ''positive_pick'' (int (length pool))) (\<lambda>roll.
             spend_on_positive cat actor c False roll (sort_key pm_id pool ! nat (roll - 1))))"

definition roll_stigma :: "(string \<Rightarrow> nat) \<Rightarrow> mutation_catalog \<Rightarrow> string \<Rightarrow> string \<Rightarrow> bool \<Rightarrow> (mutation_state, stigma_record option) sm" where
  "roll_stigma digest cat session_id actor concealable =
     sbind (character_of_actor actor) (\<lambda>c.
       if concealable \<and> mp_remaining c < concealable_stigma_cost (economy cat) then ret None
       else
         let c1 = (if concealable then c\<lparr>mp_remaining := mp_remaining c - concealable_stigma_cost (economy cat)\<rparr> else c) in
         sthen (modify (set_character actor c1))
         (sbind (next_roll digest session_id actor ''stigma_body'' 6) (\<lambda>b.
          sbind (next_roll digest session_id actor ''stigma_nature'' 6) (\<lambda>n.
          sbind (next_roll digest session_id actor ''stigma_flavor'' 12) (\<lambda>f.
            let r = \<lparr>sr_body_part = st_body_part (stigma_of cat) ! nat (b - 1), sr_nature = st_nature (stigma_of cat) ! nat (n - 1),
                     sr_flavor = st_flavor (stigma_of cat) ! nat (f - 1), sr_concealable = concealable\<rparr> in
            sthen (modify (set_character actor (c1\<lparr>stigma := stigma c1 @ [r]\<rparr>))) (ret (Some r)))))))"

section \<open>Character creation\<close>

fun roll_negatives :: "(string \<Rightarrow> nat) \<Rightarrow> mutation_catalog \<Rightarrow> string \<Rightarrow> string \<Rightarrow> nat \<Rightarrow> (mutation_state, unit) sm" where
  "roll_negatives digest cat session_id actor 0 = ret ()"
| "roll_negatives digest cat session_id actor (Suc k) =
     sbind (acquire_random_negative digest cat session_id actor) (\<lambda>_. roll_negatives digest cat session_id actor k)"

text \<open>An exception takes the half-seeded character out again; the sequence number stays advanced.\<close>

definition seed_character_mutations :: "(string \<Rightarrow> nat) \<Rightarrow> mutation_catalog \<Rightarrow> string \<Rightarrow> string \<Rightarrow> string \<Rightarrow> (mutation_state, character_mutations option) sm" where
  "seed_character_mutations digest cat session_id actor cls s =
     (if cls \<notin> set (mutant_classes (economy cat)) then (Inr None, s)
      else case map_of (mut_characters s) actor of
        Some c \<Rightarrow> (Inr (Some c), s)
      | None \<Rightarrow>
          (case roll_negatives digest cat session_id actor (nat (chargen_negatives_rolled (economy cat)))
                  (set_character actor (fresh_character (base_mp (economy cat))) s) of
             (Inl e, s') \<Rightarrow> (Inl e, s'\<lparr>mut_characters := AList.delete actor (mut_characters s')\<rparr>)
           | (Inr _, s') \<Rightarrow> (Inr (map_of (mut_characters s') actor), s')))"

section \<open>Saints and stocks\<close>

record saint_def =
  saint_id :: string
  saint_bundle :: "string list"
  drawback :: string
  affinity :: "string list"

text \<open>Saint and stock ids are bare names; \<open>$\<close> also matches before a final newline.\<close>

definition bare_snake :: "string \<Rightarrow> bool" where
  "bare_snake v =
     (let s = (if v \<noteq> [] \<and> List.last v = CHR 0x0A then butlast v else v)
      in s \<noteq> [] \<and> slug_letter (hd s) \<and> hd s \<noteq> CHR ''_'' \<and> list_all slug_char s)"

definition validate_saint :: "saint_def \<Rightarrow> unit res" where
  "validate_saint s =
     (if \<not> bare_snake (saint_id s) then Inl (ValueError ''saint id must be bare snake_case'')
      else if saint_bundle s = [] then Inl (ValueError ''saint bundle must be non-empty'')
      else if list_ex starts_negative (saint_bundle s) then Inl (ValueError ''bundle entry is a negative'')
      else if \<not> starts_negative (drawback s) then Inl (ValueError ''drawback must be a negative/ catalog id'')
      else if list_ex starts_negative (affinity s) then Inl (ValueError ''affinity entry is a negative'')
      else if \<not> distinct (saint_bundle s) then Inl (ValueError ''duplicate bundle entries'')
      else Inr ())"

definition validate_saint_against_catalog :: "mutation_catalog \<Rightarrow> saint_def \<Rightarrow> unit res" where
  "validate_saint_against_catalog cat s =
     (if \<not> list_all (\<lambda>i. i \<in> pm_id ` set (positives cat)) (saint_bundle s @ affinity s) then Inl (ValueError ''unknown positive mutation'')
      else if drawback s \<notin> nm_id ` set (negatives cat) then Inl (ValueError ''drawback is not in the negative table'')
      else if int (length (saint_bundle s)) * spend_random_positive (economy cat) > base_mp (economy cat) + per_negative_mp (economy cat)
        then Inl (ValueError ''the Saint would grant more than the economy pays for'')
      else Inr ())"

definition load_saint_registry :: "mutation_catalog \<Rightarrow> saint_def list \<Rightarrow> saint_def list res" where
  "load_saint_registry cat saints =
     rbind (rmap validate_saint saints) (\<lambda>_.
       if \<not> distinct (map saint_id saints) then Inl (ValueError ''duplicate saint ids'')
       else rbind (rmap (validate_saint_against_catalog cat) saints) (\<lambda>_. Inr saints))"

definition saint_by_id :: "saint_def list \<Rightarrow> string \<Rightarrow> saint_def res" where
  "saint_by_id saints i = (case find (\<lambda>s. saint_id s = i) saints of Some s \<Rightarrow> Inr s | None \<Rightarrow> Inl (KeyError ''saint not in registry''))"

definition saint_mp :: "mutation_catalog \<Rightarrow> saint_def \<Rightarrow> int" where
  "saint_mp cat s = base_mp (economy cat) + per_negative_mp (economy cat) - int (length (saint_bundle s)) * spend_random_positive (economy cat)"

definition apply_saint_preset :: "mutation_catalog \<Rightarrow> saint_def list \<Rightarrow> string \<Rightarrow> string \<Rightarrow> (mutation_state, character_mutations) sm" where
  "apply_saint_preset cat saints actor i =
     sbind (lift_res (saint_by_id saints i)) (\<lambda>saint.
     sbind get_st (\<lambda>s. case map_of (mut_characters s) actor of
       Some c \<Rightarrow> ret c
     | None \<Rightarrow>
         let c = (fresh_character (saint_mp cat saint))\<lparr>negative_ids := [drawback saint], positive_ids := saint_bundle saint,
                   acquisition_log := drawback saint # saint_bundle saint\<rparr> in
         sthen (modify (set_character actor c)) (ret c)))"

record stock_def =
  stock_id :: string
  attr_mods :: "(string \<times> int) list"
  stock_move :: "int option"
  stock_ac :: "int option"
  stock_trauma_mod :: int
  granted_mutations :: "string list"
  saint_affinity_allowed :: bool

definition validate_stock :: "mutation_catalog \<Rightarrow> stock_def \<Rightarrow> unit res" where
  "validate_stock cat st =
     (if \<not> bare_snake (stock_id st) then Inl (ValueError ''stock id must be bare snake_case'')
      else if list_ex starts_negative (granted_mutations st) then Inl (ValueError ''granted mutation is a negative'')
      else if \<not> distinct (granted_mutations st) then Inl (ValueError ''duplicate granted mutations'')
      else if \<not> list_all (\<lambda>i. i \<in> pm_id ` set (positives cat)) (granted_mutations st) then Inl (ValueError ''unknown positive mutation'')
      else Inr ())"

definition stock_by_id :: "stock_def list \<Rightarrow> string \<Rightarrow> stock_def res" where
  "stock_by_id stocks i = (case find (\<lambda>s. stock_id s = i) stocks of Some s \<Rightarrow> Inr s | None \<Rightarrow> Inl (KeyError ''stock not in registry''))"

definition stock_saint :: "stock_def \<Rightarrow> saint_def list option \<Rightarrow> string option \<Rightarrow> saint_def option res" where
  "stock_saint st saints wanted =
     (case wanted of
        None \<Rightarrow> Inr None
      | Some i \<Rightarrow>
          if \<not> saint_affinity_allowed st then Inl (ValueError ''stock does not allow a Saint affinity'')
          else (case saints of
            None \<Rightarrow> Inl (ValueError ''no Saint registry supplied'')
          | Some ss \<Rightarrow> rbind (saint_by_id ss i) (\<lambda>s. Inr (Some s))))"

definition stock_stats :: "stock_def \<Rightarrow> (string \<times> int) list \<Rightarrow> (string \<times> int) list" where
  "stock_stats st m = fold (\<lambda>am m. AList.update (fst am) (dict_get m (fst am) 0 + snd am) m) (attr_mods st) m"

definition stock_core :: "stock_def \<Rightarrow> ('i, 'm) creature_core_scheme \<Rightarrow> ('i, 'm) creature_core_scheme" where
  "stock_core st core =
     core\<lparr>armor_class := (case stock_ac st of Some a \<Rightarrow> a | None \<Rightarrow> armor_class core),
          move := (case stock_move st of Some v \<Rightarrow> Some v | None \<Rightarrow> move core),
          trauma_target_mod := stock_trauma_mod st\<rparr>"

text \<open>The registry: every stock valid, then distinct ids.\<close>

definition load_stock_registry :: "mutation_catalog \<Rightarrow> stock_def list \<Rightarrow> stock_def list res" where
  "load_stock_registry cat stocks =
     rbind (rmap (validate_stock cat) stocks) (\<lambda>_.
       if \<not> distinct (map stock_id stocks) then Inl (ValueError ''duplicate stock ids'') else Inr stocks)"

definition stock_character :: "mutation_catalog \<Rightarrow> stock_def \<Rightarrow> saint_def option \<Rightarrow> character_mutations" where
  "stock_character cat st saint =
     (case saint of
        None \<Rightarrow> (fresh_character (base_mp (economy cat)))\<lparr>positive_ids := granted_mutations st, acquisition_log := granted_mutations st\<rparr>
      | Some s \<Rightarrow> (fresh_character (saint_mp cat s))\<lparr>negative_ids := [drawback s], positive_ids := granted_mutations st @ saint_bundle s,
                    acquisition_log := drawback s # granted_mutations st @ saint_bundle s\<rparr>)"

text \<open>The state is the mutation state, the attributes of the sheet and the creature core.\<close>

definition apply_stock ::
  "mutation_catalog \<Rightarrow> stock_def list \<Rightarrow> saint_def list option \<Rightarrow> string \<Rightarrow> string \<Rightarrow> string option
   \<Rightarrow> (mutation_state \<times> (string \<times> int) list \<times> ('i, 'm) creature_core_scheme, character_mutations) sm" where
  "apply_stock cat stocks saints actor wanted_stock wanted_saint s =
     (case rbind (stock_by_id stocks wanted_stock) (\<lambda>st. rbind (stock_saint st saints wanted_saint) (\<lambda>saint. Inr (st, saint))) of
        Inl e \<Rightarrow> (Inl e, s)
      | Inr (st, saint) \<Rightarrow>
          (case s of (ms, attrs, core) \<Rightarrow>
             (case map_of (mut_characters ms) actor of
                Some c \<Rightarrow> (Inr c, s)
              | None \<Rightarrow>
                  if \<not> list_all (\<lambda>am. dict_has attrs (fst am)) (attr_mods st)
                  then (Inl (ValueError ''stock modifies attributes which are not on the sheet''), s)
                  else let c = stock_character cat st saint in (Inr c, (set_character actor c ms, stock_stats st attrs, stock_core st core)))))"

section \<open>Use in play\<close>

record use_result =
  use_applied :: bool
  use_reason :: string
  use_strain :: "strain_result option"
  uses_remaining :: int
  save_stat :: "string option"
  save_result :: "bool option"
  landed_effect :: string

definition use_refused :: "string \<Rightarrow> strain_result option \<Rightarrow> use_result" where
  "use_refused why strain = \<lparr>use_applied = False, use_reason = why, use_strain = strain, uses_remaining = - 1, save_stat = None, save_result = None, landed_effect = []\<rparr>"

definition counter_of :: "positive_mutation \<Rightarrow> character_mutations \<Rightarrow> usage_counter" where
  "counter_of md c = dict_get (usage c) (pm_id md) \<lparr>uc_period = pm_usage md, uc_used = 0\<rparr>"

text \<open>The cost in strain: what the pool says, and the core it leaves.\<close>

definition pay_strain :: "ruleset_config option \<Rightarrow> positive_mutation \<Rightarrow> (('i, 'm) creature_core_scheme, strain_result option) sm" where
  "pay_strain cfg md =
     (if strain_cost md > 0 then sbind (apply_system_strain ''temporary'' (of_int (strain_cost md)) cfg) (\<lambda>r. ret (Some r)) else ret None)"

definition saved_stat :: "positive_mutation \<Rightarrow> string option" where
  "saved_stat md = (case pm_save md of None \<Rightarrow> None | Some (stat, eff) \<Rightarrow> stat)"

definition effect_after :: "positive_mutation \<Rightarrow> bool option \<Rightarrow> string" where
  "effect_after md saved = (if saved = Some True \<and> map_option snd (pm_save md) = Some ''negates'' then [] else pm_effect md)"

definition use_mutation ::
  "mutation_catalog \<Rightarrow> ruleset_config option \<Rightarrow> (string \<Rightarrow> string \<Rightarrow> bool) option \<Rightarrow> string \<Rightarrow> string \<Rightarrow> string
   \<Rightarrow> (mutation_state \<times> ('i, 'm) creature_core_scheme, use_result) sm" where
  "use_mutation cat cfg save_resolver actor i target s =
     (case map_of (mut_characters (fst s)) actor of
        None \<Rightarrow> (Inr (use_refused ''not_owned (actor has no mutation state)'' None), s)
      | Some c \<Rightarrow>
          if i \<notin> set (positive_ids c) then (Inr (use_refused ''not_owned'' None), s)
          else case positive_by_id cat i of
            Inl e \<Rightarrow> (Inl e, s)
          | Inr md \<Rightarrow>
              let limited = pm_usage md \<noteq> AtWill; counter = counter_of md c;
                  c1 = (if limited then c\<lparr>usage := AList.update i counter (usage c)\<rparr> else c);
                  s1 = set_character actor c1 (fst s)
              in if limited \<and> uc_used counter \<ge> uses_per_period md then (Inr (use_refused ''limit_exhausted'' None), (s1, snd s))
                 else if saved_stat md \<noteq> None \<and> save_resolver = None then (Inl (ValueError ''mutation has a save but no save_resolver was provided''), (s1, snd s))
                 else case pay_strain cfg md (snd s) of
                   (Inl e, core) \<Rightarrow> (Inl e, (s1, core))
                 | (Inr strain, core) \<Rightarrow>
                     if (case strain of None \<Rightarrow> False | Some r \<Rightarrow> \<not> strain_applied r) then (Inr (use_refused ''strain_over_max'' strain), (s1, core))
                     else
                       let saved = (case (saved_stat md, save_resolver) of (Some st, Some f) \<Rightarrow> Some (f st target) | _ \<Rightarrow> None);
                           c2 = (if limited then c1\<lparr>usage := AList.update i (counter\<lparr>uc_used := uc_used counter + 1\<rparr>) (usage c1)\<rparr> else c1)
                       in (Inr \<lparr>use_applied = True, use_reason = [], use_strain = strain,
                                uses_remaining = (if limited then uses_per_period md - (uc_used counter + 1) else - 1),
                                save_stat = saved_stat md, save_result = saved, landed_effect = effect_after md saved\<rparr>,
                           (set_character actor c2 s1, core)))"

definition use_implant :: "ruleset_config option \<Rightarrow> int option \<Rightarrow> (('i, 'm) creature_core_scheme, strain_result) sm" where
  "use_implant cfg cost =
     (case cost of
        Some k \<Rightarrow> if k < 1 then raise (ValueError ''item is not a System-Strain source'') else apply_system_strain ''temporary'' (of_int k) cfg
      | None \<Rightarrow> raise (ValueError ''item is not a System-Strain source''))"

end
