(* ===== verification/Magic.thy ===== *)
theory Magic
  imports Creature Float64
begin

text \<open>
  The magic system (src/sidequest/magic): bar specifications and workings (models.py), the ledger (state.py),
  the validator with its three plugins (validator.py, plugins), prepared spells (learned_ops.py), cast
  resolution (innate_v1_cast.py), reliquaries (reliquary_ops.py), confrontations and their triggers
  (confrontations.py), the outputs of a confrontation (outputs.py), the bonds of a chassis
  (game/chassis.py), and what server/narration_apply.py and server/dispatch/confrontation.py do with
  them in a turn. Bar values are binary64 floats. Telemetry and the texts of flag details are left out, as are the
  fields of the world configuration that only the prompt reads.
\<close>

section \<open>Bars and workings\<close>

datatype bar_scope = CharacterScope | WorldScope | ItemScope | FactionScope | LocationScope | BondPairScope
datatype bar_direction = BarUp | BarDown | BarBoth
datatype starts = Scalar rat | is_ByClass: ByClass "(string \<times> rat) list"

fun scope_name :: "bar_scope \<Rightarrow> string" where
  "scope_name CharacterScope = ''character''"
| "scope_name WorldScope = ''world''"
| "scope_name ItemScope = ''item''"
| "scope_name FactionScope = ''faction''"
| "scope_name LocationScope = ''location''"
| "scope_name BondPairScope = ''bond_pair''"

record ledger_bar_spec =
  bar_spec_id :: string
  bar_scope :: bar_scope
  bar_direction :: bar_direction
  bar_range :: "rat \<times> rat"
  threshold_high :: "rat option"
  threshold_higher :: "rat option"
  threshold_low :: "rat option"
  threshold_lower :: "rat option"
  consequence_on_high_cross :: "string option"
  consequence_on_low_cross :: "string option"
  starts_at_chargen :: starts
  promote_to_status :: "(string \<times> status_severity) option"

definition in_range :: "rat \<times> rat \<Rightarrow> rat \<Rightarrow> bool" where
  "in_range r v \<longleftrightarrow> fst r \<le> v \<and> v \<le> snd r"

definition starts_values :: "starts \<Rightarrow> rat list" where
  "starts_values st = (case st of Scalar v \<Rightarrow> [v] | ByClass m \<Rightarrow> map snd m)"

definition validate_bar_spec :: "ledger_bar_spec \<Rightarrow> unit res" where
  "validate_bar_spec sp =
     (if bar_direction sp = BarDown \<and> threshold_low sp = None then Inl (ValueError ''direction=down requires threshold_low'')
      else if bar_direction sp = BarUp \<and> threshold_high sp = None then Inl (ValueError ''direction=up requires threshold_high'')
      else if bar_direction sp = BarBoth \<and> (threshold_low sp = None \<or> threshold_high sp = None)
        then Inl (ValueError ''direction=bidirectional requires both thresholds'')
      else if is_ByClass (starts_at_chargen sp) \<and> bar_scope sp \<noteq> CharacterScope
        then Inl (ValueError ''only character-scope bars may key by class'')
      else if starts_at_chargen sp = ByClass [] then Inl (ValueError ''starts_at_chargen dict is empty'')
      else if \<not> fst (bar_range sp) < snd (bar_range sp) then Inl (ValueError ''range must satisfy lo < hi'')
      else if list_ex (\<lambda>t. case t of None \<Rightarrow> False | Some v \<Rightarrow> \<not> in_range (bar_range sp) v)
                [threshold_high sp, threshold_higher sp, threshold_low sp, threshold_lower sp]
        then Inl (ValueError ''threshold must lie within range'')
      else if \<not> list_all (in_range (bar_range sp)) (starts_values (starts_at_chargen sp))
        then Inl (ValueError ''starts_at_chargen outside range'')
      else Inr ())"

record magic_working =
  w_plugin :: string
  w_mechanism :: string
  w_actor :: string
  w_costs :: "(string \<times> rat) list"
  w_domain :: string
  narrator_basis :: string
  w_flavor :: "string option"
  w_consent_state :: "string option"
  w_item_id :: "string option"
  w_alignment :: "rat option"
  w_spell_id :: "string option"
  w_slot_level :: "int option"

definition mechanisms :: "string list" where
  "mechanisms = [''faction'', ''place'', ''time'', ''condition'', ''native'', ''discovery'', ''relational'', ''cosmic'', ''studied'', ''granted'']"

definition domains :: "string list" where
  "domains = [''elemental'', ''physical'', ''psychic'', ''spatial'', ''temporal'', ''necromantic'', ''illusory'', ''divinatory'', ''transmutative'', ''alchemical'']"

definition validate_magic_working :: "magic_working \<Rightarrow> unit res" where
  "validate_magic_working w =
     (if w_mechanism w \<notin> set mechanisms \<or> w_domain w \<notin> set domains then Inl (ValueError ''not a literal of the schema'')
      else if list_ex (\<lambda>c. snd c < 0) (w_costs w) then Inl (ValueError ''cost must be >= 0'')
      else Inr ())"

definition AWARENESS_ORDER :: "string list" where
  "AWARENESS_ORDER = [''denied'', ''folkloric'', ''mythic_lapsed'', ''esoteric'', ''classified'', ''acknowledged'']"

definition rank_in :: "string list \<Rightarrow> string \<Rightarrow> nat" where
  "rank_in order x = length (takeWhile (\<lambda>y. y \<noteq> x) order)"

definition local_register_le_primary :: "string \<Rightarrow> string option \<Rightarrow> unit res" where
  "local_register_le_primary primary local =
     (case local of
        None \<Rightarrow> Inr ()
      | Some l \<Rightarrow> if rank_in AWARENESS_ORDER l > rank_in AWARENESS_ORDER primary
                    then Inl (ValueError ''local_register exceeds primary in awareness ordering'') else Inr ())"

section \<open>Confrontation definitions\<close>

record fire_conditions =
  interior_room_present :: string
  bond_tier_min :: string
  cooldown_turns :: int

record confrontation_def =
  conf_id :: string
  conf_label :: string
  conf_register :: "string option"
  auto_fire :: bool
  auto_fire_trigger :: "string option"
  conf_fire_conditions :: "fire_conditions option"
  once_per_arc :: bool
  resource_pool :: "(string \<times> string) list"
  outcomes :: "(string \<times> string list) list"

definition required_branches :: "string option \<Rightarrow> string list" where
  "required_branches r =
     (if r = Some ''intimate'' then [''clear_win'', ''refused''] else [''clear_win'', ''pyrrhic_win'', ''clear_loss'', ''refused''])"

text \<open>The four branch names are the only keys the schema allows, and every branch lists an output.\<close>

definition required_branches_present :: "confrontation_def \<Rightarrow> unit res" where
  "required_branches_present c =
     (if list_ex (\<lambda>b. fst b \<notin> set (required_branches None) \<or> snd b = []) (outcomes c) then Inl (ValueError ''schema'')
      else if list_ex (\<lambda>b. \<not> dict_has (outcomes c) b) (required_branches (conf_register c)) then Inl (ValueError ''missing branch(es)'')
      else Inr ())"

section \<open>The ledger\<close>

record bar_key =
  key_scope :: bar_scope
  owner_id :: string
  bar_id :: string

record ledger_bar =
  bar_spec :: ledger_bar_spec
  bar_value :: rat

record world_magic_config =
  config_world_slug :: string
  genre_slug :: string
  allowed_sources :: "string list"
  active_plugins :: "string list"
  hard_limits :: "(string \<times> string) list"
  cost_types :: "string list"
  ledger_bars :: "ledger_bar_spec list"

record threshold_crossing =
  crossing_key :: bar_key
  crossing_direction :: bar_direction
  consequence :: string
  crossing_value :: rat

record magic_state =
  magic_config :: world_magic_config
  ledger :: "(string \<times> ledger_bar) list"
  working_log :: "magic_working list"
  confrontations :: "confrontation_def list"
  control_tier :: "(string \<times> int) list"
  pending_status_promotions :: "(string \<times> string \<times> string) list"
  known_spells :: "(string \<times> string list) list"
  prepared_spells :: "(string \<times> (int \<times> string list) list) list"
  spent_spells :: "(string \<times> (int \<times> string list) list) list"
  reliquary_free_use_spent :: "string list"

definition serialize_bar_key :: "bar_key \<Rightarrow> string" where
  "serialize_bar_key k = scope_name (key_scope k) @ ''|'' @ owner_id k @ ''|'' @ bar_id k"

definition split_bar :: "string \<Rightarrow> string \<times> string" where
  "split_bar s = (takeWhile (\<lambda>c. c \<noteq> CHR ''|'') s, drop 1 (dropWhile (\<lambda>c. c \<noteq> CHR ''|'') s))"

definition scope_of :: "string \<Rightarrow> bar_scope option" where
  "scope_of s = find (\<lambda>sc. scope_name sc = s) [CharacterScope, WorldScope, ItemScope, FactionScope, LocationScope, BondPairScope]"

text \<open>Splitting at the first two bars: fewer than two is an unpacking error, an unknown scope a validation error.\<close>

definition deserialize_bar_key :: "string \<Rightarrow> bar_key res" where
  "deserialize_bar_key s =
     (let (sc, rest) = split_bar s; (ow, b) = split_bar rest in
      if length (filter (\<lambda>c. c = CHR ''|'') s) < 2 then Inl (ValueError ''not enough values to unpack'')
      else case scope_of sc of
        None \<Rightarrow> Inl (ValueError ''scope'')
      | Some k \<Rightarrow> Inr \<lparr>key_scope = k, owner_id = ow, bar_id = b\<rparr>)"

definition resolve_starts_at_chargen :: "ledger_bar_spec \<Rightarrow> string option \<Rightarrow> rat res" where
  "resolve_starts_at_chargen sp cls =
     (case starts_at_chargen sp of
        Scalar v \<Rightarrow> Inr v
      | ByClass m \<Rightarrow>
          (case cls of
             None \<Rightarrow> Inl (ValueError ''class-keyed starts_at_chargen but no character_class'')
           | Some c \<Rightarrow> (case map_of m c of None \<Rightarrow> Inl (ValueError ''character_class missing from starts_at_chargen'') | Some v \<Rightarrow> Inr v)))"

definition clamp_bar :: "rat \<Rightarrow> ledger_bar_spec \<Rightarrow> rat" where
  "clamp_bar v sp = max (fst (bar_range sp)) (min (snd (bar_range sp)) v)"

definition put_bar :: "bar_key \<Rightarrow> ledger_bar \<Rightarrow> magic_state \<Rightarrow> magic_state" where
  "put_bar k b s = s\<lparr>ledger := AList.update (serialize_bar_key k) b (ledger s)\<rparr>"

definition world_bars :: "world_magic_config \<Rightarrow> (string \<times> ledger_bar) list" where
  "world_bars cfg =
     fold (\<lambda>sp l. case starts_at_chargen sp of
         Scalar v \<Rightarrow> AList.update (serialize_bar_key \<lparr>key_scope = WorldScope, owner_id = config_world_slug cfg, bar_id = bar_spec_id sp\<rparr>)
                       \<lparr>bar_spec = sp, bar_value = v\<rparr> l
       | ByClass _ \<Rightarrow> l)
       (filter (\<lambda>sp. bar_scope sp = WorldScope) (ledger_bars cfg)) []"

definition magic_from_config :: "world_magic_config \<Rightarrow> magic_state" where
  "magic_from_config cfg =
     \<lparr>magic_config = cfg, ledger = world_bars cfg, working_log = [], confrontations = [], control_tier = [], pending_status_promotions = [],
      known_spells = [], prepared_spells = [], spent_spells = [], reliquary_free_use_spent = []\<rparr>"

fun add_bars :: "string \<Rightarrow> string option \<Rightarrow> ledger_bar_spec list \<Rightarrow> (magic_state, unit) sm" where
  "add_bars who cls [] s = (Inr (), s)"
| "add_bars who cls (sp # sps) s =
     (let k = \<lparr>key_scope = CharacterScope, owner_id = who, bar_id = bar_spec_id sp\<rparr> in
      if bar_scope sp \<noteq> CharacterScope \<or> dict_has (ledger s) (serialize_bar_key k) then add_bars who cls sps s
      else case resolve_starts_at_chargen sp cls of
        Inl e \<Rightarrow> (Inl e, s)
      | Inr v \<Rightarrow> add_bars who cls sps (put_bar k \<lparr>bar_spec = sp, bar_value = v\<rparr> s))"

definition add_character :: "string \<Rightarrow> string option \<Rightarrow> (magic_state, unit) sm" where
  "add_character who cls s = add_bars who cls (ledger_bars (magic_config s)) s"

text \<open>A template keyed by class is no float: building the bar raises.\<close>

fun add_item_bars :: "string \<Rightarrow> ledger_bar_spec option list \<Rightarrow> (magic_state, unit) sm" where
  "add_item_bars item [] s = (Inr (), s)"
| "add_item_bars item (None # ts) s = add_item_bars item ts s"
| "add_item_bars item (Some sp # ts) s =
     (case starts_at_chargen sp of
        ByClass _ \<Rightarrow> (Inl (ValueError ''value''), s)
      | Scalar v \<Rightarrow> add_item_bars item ts (put_bar \<lparr>key_scope = ItemScope, owner_id = item, bar_id = bar_spec_id sp\<rparr> \<lparr>bar_spec = sp, bar_value = v\<rparr> s))"

definition add_item :: "string \<Rightarrow> ledger_bar_spec option \<Rightarrow> ledger_bar_spec option \<Rightarrow> (magic_state, unit) sm" where
  "add_item item bond history = add_item_bars item [bond, history]"

definition learn_spell :: "string \<Rightarrow> string \<Rightarrow> magic_state \<Rightarrow> magic_state" where
  "learn_spell who sp s =
     (let known = dict_get (known_spells s) who [] in
      s\<lparr>known_spells := AList.update who (if sp \<in> set known then known else known @ [sp]) (known_spells s)\<rparr>)"

definition prepare_spells :: "string \<Rightarrow> (int \<times> string list) list \<Rightarrow> magic_state \<Rightarrow> magic_state" where
  "prepare_spells who prep s = s\<lparr>prepared_spells := AList.update who prep (prepared_spells s)\<rparr>"

definition get_bar :: "bar_key \<Rightarrow> magic_state \<Rightarrow> ledger_bar res" where
  "get_bar k s = (case map_of (ledger s) (serialize_bar_key k) of None \<Rightarrow> Inl (KeyError (serialize_bar_key k)) | Some b \<Rightarrow> Inr b)"

definition set_bar_value :: "bar_key \<Rightarrow> rat \<Rightarrow> (magic_state, unit) sm" where
  "set_bar_value k v s =
     (case get_bar k s of
        Inl e \<Rightarrow> (Inl e, s)
      | Inr b \<Rightarrow> (Inr (), put_bar k (b\<lparr>bar_value := clamp_bar v (bar_spec b)\<rparr>) s))"

section \<open>Applying a working\<close>

datatype route = Routed bar_key | Unrouted string

definition route_cost :: "world_magic_config \<Rightarrow> magic_working \<Rightarrow> string \<Rightarrow> route" where
  "route_cost cfg w cost_type =
     (case find (\<lambda>sp. bar_spec_id sp = cost_type) (ledger_bars cfg) of
        None \<Rightarrow> Unrouted ''no_ledger_bar_spec''
      | Some sp \<Rightarrow>
          (case bar_scope sp of
             CharacterScope \<Rightarrow> Routed \<lparr>key_scope = CharacterScope, owner_id = w_actor w, bar_id = cost_type\<rparr>
           | WorldScope \<Rightarrow> Routed \<lparr>key_scope = WorldScope, owner_id = config_world_slug cfg, bar_id = cost_type\<rparr>
           | ItemScope \<Rightarrow>
               (case w_item_id w of
                  None \<Rightarrow> Unrouted ''item_scope_missing_item_id''
                | Some i \<Rightarrow> if i = [] then Unrouted ''item_scope_missing_item_id''
                             else Routed \<lparr>key_scope = ItemScope, owner_id = i, bar_id = cost_type\<rparr>)
           | _ \<Rightarrow> Unrouted ''scope_not_yet_wired''))"

definition charged :: "rat \<Rightarrow> ledger_bar \<Rightarrow> rat" where
  "charged amount b =
     (if bar_direction (bar_spec b) = BarUp then clamp_bar (rnd (bar_value b + amount)) (bar_spec b)
      else clamp_bar (rnd (bar_value b - amount)) (bar_spec b))"

definition crossing_of :: "bar_key \<Rightarrow> ledger_bar \<Rightarrow> rat \<Rightarrow> threshold_crossing list" where
  "crossing_of k b v =
     (case (bar_direction (bar_spec b), threshold_low (bar_spec b), threshold_high (bar_spec b)) of
        (BarDown, Some t, _) \<Rightarrow>
          if bar_value b > t \<and> t \<ge> v
          then [\<lparr>crossing_key = k, crossing_direction = BarDown, consequence = (case consequence_on_low_cross (bar_spec b) of None \<Rightarrow> [] | Some c \<Rightarrow> c), crossing_value = v\<rparr>]
          else []
      | (BarUp, _, Some t) \<Rightarrow>
          if bar_value b < t \<and> t \<le> v
          then [\<lparr>crossing_key = k, crossing_direction = BarUp, consequence = (case consequence_on_high_cross (bar_spec b) of None \<Rightarrow> [] | Some c \<Rightarrow> c), crossing_value = v\<rparr>]
          else []
      | _ \<Rightarrow> [])"

record apply_working_result =
  aw_crossings :: "threshold_crossing list"
  aw_bar_changes :: "(string \<times> rat \<times> rat) list"

fun charge_costs :: "magic_working \<Rightarrow> (string \<times> rat) list \<Rightarrow> magic_state \<Rightarrow> apply_working_result \<Rightarrow> apply_working_result \<times> magic_state" where
  "charge_costs w [] s r = (r, s)"
| "charge_costs w ((cost_type, amount) # cs) s r =
     (case route_cost (magic_config s) w cost_type of
        Unrouted _ \<Rightarrow> charge_costs w cs s r
      | Routed k \<Rightarrow>
          (case get_bar k s of
             Inl _ \<Rightarrow> charge_costs w cs s r
           | Inr b \<Rightarrow>
               let v = charged amount b in
               charge_costs w cs (put_bar k (b\<lparr>bar_value := v\<rparr>) s)
                 (r\<lparr>aw_crossings := aw_crossings r @ crossing_of k b v,
                    aw_bar_changes := AList.update cost_type (bar_value b, v) (aw_bar_changes r)\<rparr>)))"

definition actor_prefix :: "string \<Rightarrow> string" where
  "actor_prefix who = ''character|'' @ who @ ''|''"

definition apply_working :: "magic_working \<Rightarrow> (magic_state, apply_working_result) sm" where
  "apply_working w s =
     (if \<not> list_ex (\<lambda>e. starts_with (actor_prefix (w_actor w)) (fst e)) (ledger s)
      then (Inl (KeyError ''unknown actor''), s)
      else (case charge_costs w (w_costs w) s \<lparr>aw_crossings = [], aw_bar_changes = []\<rparr> of
        (r, s') \<Rightarrow> (Inr r, s'\<lparr>working_log := working_log s' @ [w]\<rparr>)))"

end
