(* ===== verification/Magic_Casting.thy ===== *)
theory Magic_Casting
  imports Magic
begin

text \<open>
  What checks and resolves magic: the validator of a working with the lanes of the three plugins
  (validator.py, plugins), prepared spells and their slots (learned_ops.py), the catalog and the
  resolution of a cast (spell_catalog.py, innate_v1_cast.py, narration_apply.py) and reliquaries
  (reliquary_ops.py).
\<close>

section \<open>Validating a working\<close>

datatype flag_severity = Yellow | Red | DeepRed

type_synonym flag = "flag_severity \<times> string"

definition PLUGIN_SOURCE :: "(string \<times> string) list" where
  "PLUGIN_SOURCE = [(''innate_v1'', ''innate''), (''item_legacy_v1'', ''item_based''), (''learned_v1'', ''learned''), (''divine_v1'', ''divine''),
     (''bargained_for_v1'', ''bargained_for'')]"

definition CONSENT_BY_FLAVOR :: "(string \<times> string) list" where
  "CONSENT_BY_FLAVOR = [(''acquired'', ''involuntary''), (''born_to_it'', ''involuntary''), (''trained_register'', ''willing''), (''covenant_lineage'', ''involuntary'')]"

definition innate_validate :: "magic_working \<Rightarrow> flag list" where
  "innate_validate w =
     (if w_flavor w = None then [(Yellow, ''missing_required_attr_flavor'')] else []) @
     (if w_consent_state w = None then [(Yellow, ''missing_required_attr_consent_state'')] else []) @
     (case (w_flavor w, w_consent_state w) of
        (Some f, Some c) \<Rightarrow>
          if f \<noteq> [] \<and> c \<noteq> [] \<and> map_of CONSENT_BY_FLAVOR f \<noteq> None \<and> map_of CONSENT_BY_FLAVOR f \<noteq> Some c
          then [(Yellow, ''consent_state_flavor_mismatch'')] else []
      | _ \<Rightarrow> []) @
     (if w_mechanism w = ''faction'' then [(Red, ''innate_via_faction_is_lane_violation'')] else [])"

definition item_legacy_validate :: "magic_working \<Rightarrow> flag list" where
  "item_legacy_validate w =
     (if w_item_id w = None then [(Yellow, ''missing_required_attr_item_id'')] else []) @
     (case w_alignment w of
        None \<Rightarrow> [(Yellow, ''missing_required_attr_alignment_with_item_nature'')]
      | Some a \<Rightarrow> if - 1 \<le> a \<and> a \<le> 1 then [] else [(Red, ''alignment_out_of_range'')]) @
     (if w_mechanism w = ''native'' then [(Red, ''item_legacy_via_native_is_lane_violation'')] else [])"

definition ITEM_LANE_MECHANISMS :: "string list" where
  "ITEM_LANE_MECHANISMS = [''discovery'', ''mccoy'', ''relational'', ''faction'']"

definition INNATE_LANE_MECHANISMS :: "string list" where
  "INNATE_LANE_MECHANISMS = [''native'', ''condition'']"

definition learned_validate :: "magic_working \<Rightarrow> flag list" where
  "learned_validate w =
     (if w_spell_id w = None then [(Yellow, ''missing_required_attr_spell_id'')] else []) @
     (case w_slot_level w of
        None \<Rightarrow> [(Yellow, ''missing_required_attr_slot_level'')]
      | Some l \<Rightarrow> if l < 1 then [(Red, ''slot_level_below_one'')] else []) @
     (if w_mechanism w \<in> set ITEM_LANE_MECHANISMS then [(Red, ''learned_via_item_mechanism_is_lane_violation'')] else []) @
     (if w_mechanism w \<in> set INNATE_LANE_MECHANISMS then [(Red, ''learned_via_innate_mechanism_is_lane_violation'')] else [])"

definition MAGIC_PLUGINS :: "(string \<times> (magic_working \<Rightarrow> flag list)) list" where
  "MAGIC_PLUGINS = [(''innate_v1'', innate_validate), (''item_legacy_v1'', item_legacy_validate), (''learned_v1'', learned_validate)]"

text \<open>\<open>str.replace\<close>: every occurrence from the left, none overlapping. The pattern is never empty here.\<close>

fun replace_all :: "string \<Rightarrow> string \<Rightarrow> string \<Rightarrow> string" where
  "replace_all old new [] = []"
| "replace_all old new (c # cs) =
     (if old \<noteq> [] \<and> starts_with old (c # cs) then new @ replace_all old new (drop (length old) (c # cs)) else c # replace_all old new cs)"

definition limit_keyword :: "string \<Rightarrow> string" where
  "limit_keyword i = replace_all ''_'' '' '' (replace_all ''no_'' [] i)"

definition hard_limit_flags :: "(string \<times> string) list \<Rightarrow> string \<Rightarrow> flag list" where
  "hard_limit_flags limits basis =
     map (\<lambda>l. (DeepRed, ''hard_limit_violation:'' @ fst l))
       (filter (\<lambda>l. limit_keyword (fst l) \<noteq> [] \<and> occurs_in (limit_keyword (fst l)) (lower basis)) limits)"

definition validate :: "magic_working \<Rightarrow> world_magic_config \<Rightarrow> flag list" where
  "validate w cfg =
     (if w_plugin w \<notin> set (active_plugins cfg) then [(DeepRed, ''plugin_not_in_active_plugins'')]
      else case map_of PLUGIN_SOURCE (w_plugin w) of
        None \<Rightarrow> [(DeepRed, ''unknown_plugin_id'')]
      | Some src \<Rightarrow>
          (if src \<notin> set (allowed_sources cfg) then [(DeepRed, ''source_not_in_allowed_sources'')] else []) @
          map (\<lambda>c. (Yellow, ''unknown_cost_type'')) (filter (\<lambda>c. fst c \<notin> set (cost_types cfg)) (w_costs w)) @
          hard_limit_flags (hard_limits cfg) (narrator_basis w) @
          (case map_of MAGIC_PLUGINS (w_plugin w) of
             None \<Rightarrow> [(DeepRed, ''plugin_known_but_not_registered'')]
           | Some v \<Rightarrow> v w))"

section \<open>Prepared spells\<close>

definition slot_bar_key :: "string \<Rightarrow> int \<Rightarrow> bar_key" where
  "slot_bar_key who lvl = \<lparr>key_scope = CharacterScope, owner_id = who, bar_id = ''slots_l'' @ show_int lvl\<rparr>"

fun check_prep :: "string \<Rightarrow> string list \<Rightarrow> magic_state \<Rightarrow> (int \<times> string list) list \<Rightarrow> unit res" where
  "check_prep who known s [] = Inr ()"
| "check_prep who known s ((lvl, ids) # ps) =
     (if list_ex (\<lambda>i. i \<notin> set known) ids then Inl (ValueError ''spell not in known_spells'')
      else case get_bar (slot_bar_key who lvl) s of
        Inl _ \<Rightarrow> Inl (ValueError ''class does not grant slots'')
      | Inr b \<Rightarrow> if int (length ids) > trunc (bar_value b) then Inl (ValueError ''exceeds slot budget'') else check_prep who known s ps)"

definition rest_value :: "ledger_bar \<Rightarrow> rat" where
  "rest_value b = (case starts_at_chargen (bar_spec b) of Scalar v \<Rightarrow> v | ByClass _ \<Rightarrow> bar_value b)"

fun refresh_slots :: "string \<Rightarrow> int list \<Rightarrow> (magic_state, unit) sm" where
  "refresh_slots who [] = ret ()"
| "refresh_slots who (lvl # ls) =
     sbind (\<lambda>s. (get_bar (slot_bar_key who lvl) s, s)) (\<lambda>b.
       sthen (set_bar_value (slot_bar_key who lvl) (rest_value b)) (refresh_slots who ls))"

definition prepare :: "string \<Rightarrow> (int \<times> string list) list \<Rightarrow> (magic_state, (int \<times> nat) list) sm" where
  "prepare who prep s =
     (case check_prep who (dict_get (known_spells s) who []) s prep of
        Inl e \<Rightarrow> (Inl e, s)
      | Inr _ \<Rightarrow> sthen (refresh_slots who (map fst prep)) (ret (map (\<lambda>(l, ids). (l, length ids)) prep)) (prepare_spells who prep s))"

definition prepared_at :: "magic_state \<Rightarrow> string \<Rightarrow> int \<Rightarrow> string list" where
  "prepared_at s who lvl = dict_get (dict_get (prepared_spells s) who []) lvl []"

text \<open>The result says that the slot was consumed.\<close>

definition cast :: "magic_working \<Rightarrow> (magic_state, bool) sm" where
  "cast w s =
     (case (w_spell_id w, w_slot_level w) of
        (Some i, Some lvl) \<Rightarrow>
          if i \<notin> set (prepared_at s (w_actor w) lvl) then (Inl (ValueError ''spell not prepared''), s)
          else (case get_bar (slot_bar_key (w_actor w) lvl) s of
            Inl e \<Rightarrow> (Inl e, s)
          | Inr b \<Rightarrow> if bar_value b \<le> 0 then (Inl (ValueError ''no slots remaining''), s)
                      else sthen (apply_working w) (ret True) s)
      | _ \<Rightarrow> (Inl (ValueError ''cast requires spell_id and slot_level''), s))"

text \<open>\<open>int\<close> of a string: white space around it, a sign, digits with single underscores between them.\<close>

definition digit_of :: "char \<Rightarrow> nat option" where
  "digit_of c = (let n = of_char c :: nat in if 48 \<le> n \<and> n \<le> 57 then Some (n - 48) else None)"

fun read_digits :: "bool \<Rightarrow> nat \<Rightarrow> string \<Rightarrow> nat option" where
  "read_digits after_digit acc [] = (if after_digit then Some acc else None)"
| "read_digits after_digit acc (c # cs) =
     (case digit_of c of
        Some d \<Rightarrow> read_digits True (10 * acc + d) cs
      | None \<Rightarrow> if c = CHR ''_'' \<and> after_digit then read_digits False acc cs else None)"

definition py_int :: "string \<Rightarrow> int res" where
  "py_int s =
     (let t = strip s;
          r = (case t of
                 [] \<Rightarrow> None
               | c # cs \<Rightarrow> if c = CHR ''-'' then map_option (\<lambda>n. - int n) (read_digits False 0 cs)
                            else if c = CHR ''+'' then map_option int (read_digits False 0 cs)
                            else map_option int (read_digits False 0 t))
      in case r of None \<Rightarrow> Inl (ValueError ''invalid literal for int()'') | Some n \<Rightarrow> Inr n)"

definition slot_prefix :: "string \<Rightarrow> string" where
  "slot_prefix who = ''character|'' @ who @ ''|slots_l''"

text \<open>The text after the last \<open>slots_l\<close> of a key.\<close>

fun after_last :: "string \<Rightarrow> string \<Rightarrow> string \<Rightarrow> string" where
  "after_last pat [] best = best"
| "after_last pat (c # cs) best = after_last pat cs (if starts_with pat (c # cs) then drop (length pat) (c # cs) else best)"

fun rest_bars :: "string \<Rightarrow> string list \<Rightarrow> (int \<times> rat) list \<Rightarrow> (magic_state, (int \<times> rat) list) sm" where
  "rest_bars who [] out s = (Inr out, s)"
| "rest_bars who (k # ks) out s =
     (if \<not> starts_with (slot_prefix who) k then rest_bars who ks out s
      else case map_of (ledger s) k of
        None \<Rightarrow> (Inl (KeyError k), s)
      | Some b \<Rightarrow>
          let s' = s\<lparr>ledger := AList.update k (b\<lparr>bar_value := rest_value b\<rparr>) (ledger s)\<rparr> in
          (case py_int (after_last ''slots_l'' k []) of
             Inl e \<Rightarrow> (Inl e, s')
           | Inr lvl \<Rightarrow> rest_bars who ks (AList.update lvl (rest_value b) out) s'))"

definition rest :: "string \<Rightarrow> (magic_state, (int \<times> rat) list) sm" where
  "rest who s =
     (case rest_bars who (map fst (ledger s)) [] s of
        (Inl e, s') \<Rightarrow> (Inl e, s')
      | (Inr out, s') \<Rightarrow>
          (Inr out, s'\<lparr>prepared_spells := AList.update who [] (prepared_spells s'), spent_spells := AList.update who [] (spent_spells s')\<rparr>))"

definition favor_key :: "string \<Rightarrow> bar_key" where
  "favor_key who = \<lparr>key_scope = CharacterScope, owner_id = who, bar_id = ''divine_favor''\<rparr>"

definition turn_undead :: "string \<Rightarrow> magic_state \<Rightarrow> rat res" where
  "turn_undead who s =
     (case get_bar (favor_key who) s of
        Inl _ \<Rightarrow> Inl (ValueError ''no divine_favor bar; not a Cleric class'')
      | Inr b \<Rightarrow>
          (case threshold_low (bar_spec b) of
             Some t \<Rightarrow> if bar_value b \<le> t then Inl (ValueError ''divine_favor below threshold'') else Inr (bar_value b)
           | None \<Rightarrow> Inr (bar_value b)))"

section \<open>Spells and casts\<close>

datatype save_category = DeathRayOrPoison | MagicWands | ParalysisOrStone | DragonBreath | RodsStavesSpells

record spell =
  sp_id :: string
  sp_level :: int
  sp_save_stat :: "string option"
  sp_save_effect :: string
  sp_save_category :: save_category
  effect_template :: string

definition validate_spell_save :: "spell \<Rightarrow> unit res" where
  "validate_spell_save sp =
     (if sp_save_effect sp \<notin> set [''none'', ''negates'', ''halves''] \<and> \<not> (starts_with ''partial:'' (sp_save_effect sp) \<and> length (sp_save_effect sp) > 8)
        then Inl (ValueError ''effect is not a known value'')
      else if sp_save_category sp = DragonBreath \<and> sp_save_stat sp \<noteq> None then Inl (ValueError ''dragon_breath must have stat=None'')
      else if sp_save_category sp \<noteq> DragonBreath \<and> sp_save_stat sp = None \<and> sp_save_effect sp \<noteq> ''none''
        then Inl (ValueError ''null-stat spells must declare effect none'')
      else Inr ())"

definition validate_spell_catalog :: "spell list \<Rightarrow> unit res" where
  "validate_spell_catalog sps =
     rbind (rmap validate_spell_save sps) (\<lambda>_. if distinct (map sp_id sps) then Inr () else Inl (ValueError ''duplicate spell ids''))"

definition catalog_get :: "spell list \<Rightarrow> string \<Rightarrow> spell res" where
  "catalog_get sps i = (case find (\<lambda>sp. sp_id sp = i) sps of None \<Rightarrow> Inl (KeyError ''spell not in catalog'') | Some sp \<Rightarrow> Inr sp)"

record cast_result =
  cr_spell_id :: string
  slot_consumed :: bool
  save_skipped :: bool
  cr_save_stat :: "string option"
  save_success :: "bool option"
  effect_applied :: "string option"

definition effect_on_save :: "spell \<Rightarrow> bool \<Rightarrow> string option" where
  "effect_on_save sp saved =
     (if \<not> saved then Some (effect_template sp)
      else if sp_save_effect sp = ''negates'' then None
      else if starts_with ''partial:'' (sp_save_effect sp) then Some (drop 8 (sp_save_effect sp))
      else Some (''halves: '' @ effect_template sp))"

definition resolve_innate_v1_cast :: "spell \<Rightarrow> string \<Rightarrow> bool \<Rightarrow> (string \<Rightarrow> string \<Rightarrow> bool) option \<Rightarrow> cast_result res" where
  "resolve_innate_v1_cast sp target consumed resolver =
     (case sp_save_stat sp of
        None \<Rightarrow> Inr \<lparr>cr_spell_id = sp_id sp, slot_consumed = consumed, save_skipped = True, cr_save_stat = None, save_success = None,
                      effect_applied = Some (effect_template sp)\<rparr>
      | Some st \<Rightarrow>
          (case resolver of
             None \<Rightarrow> Inl (ValueError ''no save_resolver was provided'')
           | Some f \<Rightarrow> Inr \<lparr>cr_spell_id = sp_id sp, slot_consumed = consumed, save_skipped = False, cr_save_stat = Some st, save_success = Some (f st target),
                             effect_applied = effect_on_save sp (f st target)\<rparr>))"

definition find_spell :: "(string \<times> spell list) list \<Rightarrow> string \<Rightarrow> spell option" where
  "find_spell catalogs i = (case find (\<lambda>c. find (\<lambda>sp. sp_id sp = i) (snd c) \<noteq> None) catalogs of None \<Rightarrow> None | Some c \<Rightarrow> find (\<lambda>sp. sp_id sp = i) (snd c))"

text \<open>The turn's handling of a cast: a missing precondition leaves the state alone. The stub resolver never saves.\<close>

definition resolve_innate_cast_for_beat ::
  "(string \<times> spell list) list \<Rightarrow> string option \<Rightarrow> string \<Rightarrow> string \<Rightarrow> magic_state option \<Rightarrow> cast_result option \<times> magic_state option" where
  "resolve_innate_cast_for_beat catalogs chosen who target st =
     (case (chosen, st) of
        (Some i, Some s) \<Rightarrow>
          if i = [] then (None, st)
          else (case find_spell catalogs i of
            None \<Rightarrow> (None, st)
          | Some sp \<Rightarrow>
              if i \<notin> set (prepared_at s who (sp_level sp)) then (None, st)
              else (case resolve_innate_v1_cast sp target True (if sp_save_stat sp = None then None else Some (\<lambda>_ _. False)) of
                Inl _ \<Rightarrow> (None, st)
              | Inr r \<Rightarrow>
                  let spent = dict_get (spent_spells s) who []; at_level = dict_get spent (sp_level sp) [];
                      spent' = AList.update (sp_level sp) (if i \<in> set at_level then at_level else at_level @ [i]) spent
                  in (Some r, Some (s\<lparr>spent_spells := AList.update who spent' (spent_spells s)\<rparr>))))
      | _ \<Rightarrow> (None, st))"

section \<open>Reliquaries\<close>

definition DEFAULT_DIVINE_FAVOR_THRESHOLD :: rat where
  "DEFAULT_DIVINE_FAVOR_THRESHOLD = lit 7 10"

record reliquary =
  reliquary_id :: string
  reliquary_name :: string
  divine_favor_effect :: "string option"

definition find_reliquary :: "reliquary list \<Rightarrow> string \<Rightarrow> reliquary option" where
  "find_reliquary rs i = find (\<lambda>r. reliquary_id r = i) rs"

definition invoke_reliquary :: "string \<Rightarrow> string \<Rightarrow> reliquary list \<Rightarrow> rat \<Rightarrow> (magic_state, rat \<times> string) sm" where
  "invoke_reliquary who i rs threshold s =
     (case get_bar (favor_key who) s of
        Inl _ \<Rightarrow> (Inl (ValueError ''no_divine_favor_bar''), s)
      | Inr b \<Rightarrow>
          if bar_value b < threshold then (Inl (ValueError ''favor_below_threshold''), s)
          else (case find_reliquary rs i of
            None \<Rightarrow> (Inl (ValueError ''unknown_reliquary''), s)
          | Some r \<Rightarrow>
              (case divine_favor_effect r of
                 None \<Rightarrow> (Inl (ValueError ''reliquary_missing_effect''), s)
               | Some eff \<Rightarrow>
                   if eff = [] then (Inl (ValueError ''reliquary_missing_effect''), s)
                   else if who \<in> set (reliquary_free_use_spent s) then (Inl (ValueError ''free_use_already_spent''), s)
                   else (Inr (bar_value b, eff), s\<lparr>reliquary_free_use_spent := reliquary_free_use_spent s @ [who]\<rparr>))))"

end
