(* ===== verification/Magic_Confrontations.thy ===== *)
theory Magic_Confrontations
  imports Magic_Casting
begin

text \<open>
  Confrontations of the magic system: the trigger language and its evaluation, the room-entry gate
  (confrontations.py), the bonds of a chassis (game/chassis.py), the outputs of a resolved confrontation
  (outputs.py), and the turn that applies a working, fires what its bars trigger and promotes
  crossings to statuses (server/narration_apply.py, server/dispatch/confrontation.py). The snapshot is
  reduced to what these read and write.
\<close>

section \<open>Triggers\<close>

datatype trigger_op = OpLe | OpGe | OpLt | OpGt | OpEq

definition word_char :: "char \<Rightarrow> bool" where
  "word_char c \<longleftrightarrow> (let n = of_char c :: nat in 48 \<le> n \<and> n \<le> 57 \<or> 65 \<le> n \<and> n \<le> 90 \<or> 97 \<le> n \<and> n \<le> 122 \<or> c = CHR ''_'')"

definition value_char :: "char \<Rightarrow> bool" where
  "value_char c \<longleftrightarrow> digit_of c \<noteq> None \<or> c = CHR ''.''"

definition read_op :: "string \<Rightarrow> (trigger_op \<times> string) option" where
  "read_op s =
     (if starts_with ''<='' s then Some (OpLe, drop 2 s)
      else if starts_with ''>='' s then Some (OpGe, drop 2 s)
      else if starts_with ''<'' s then Some (OpLt, drop 1 s)
      else if starts_with ''>'' s then Some (OpGt, drop 1 s)
      else if starts_with ''=='' s then Some (OpEq, drop 2 s)
      else None)"

text \<open>The regular expression of a trigger is deterministic: no class it repeats overlaps with what may follow.\<close>

definition parse_trigger :: "string \<Rightarrow> (string \<times> trigger_op \<times> string) option" where
  "parse_trigger s =
     (let s1 = dropWhile is_space s; bar = takeWhile word_char s1; s2 = dropWhile is_space (dropWhile word_char s1) in
      if bar = [] then None
      else case read_op s2 of
        None \<Rightarrow> None
      | Some (q, s3) \<Rightarrow>
          let s4 = dropWhile is_space s3; v = takeWhile value_char s4 in
          if v = [] \<or> \<not> blank (dropWhile value_char s4) then None else Some (bar, q, v))"

text \<open>\<open>float\<close> of digits and points: at most one point, at least one digit, correctly rounded.\<close>

definition digits_value :: "string \<Rightarrow> nat" where
  "digits_value ds = fold (\<lambda>c n. 10 * n + (case digit_of c of None \<Rightarrow> 0 | Some d \<Rightarrow> d)) ds 0"

definition py_float :: "string \<Rightarrow> rat res" where
  "py_float v =
     (let whole = takeWhile (\<lambda>c. c \<noteq> CHR ''.'') v; frac = drop 1 (dropWhile (\<lambda>c. c \<noteq> CHR ''.'') v) in
      if CHR ''.'' \<in> set frac \<or> whole = [] \<and> frac = [] then Inl (ValueError ''could not convert string to float'')
      else Inr (rnd (of_nat (digits_value (whole @ frac)) / 10 ^ length frac)))"

fun op_holds :: "trigger_op \<Rightarrow> rat \<Rightarrow> rat \<Rightarrow> bool" where
  "op_holds OpLe x t = (x \<le> t)"
| "op_holds OpGe x t = (x \<ge> t)"
| "op_holds OpLt x t = (x < t)"
| "op_holds OpGt x t = (x > t)"
| "op_holds OpEq x t = (x = t)"

definition fires :: "(string \<times> rat) list \<Rightarrow> confrontation_def \<Rightarrow> bool res" where
  "fires bars c =
     (case (auto_fire c, auto_fire_trigger c) of
        (True, Some t) \<Rightarrow>
          (case parse_trigger t of
             None \<Rightarrow> Inl (ValueError ''cannot parse auto_fire_trigger'')
           | Some (bar, q, v) \<Rightarrow>
               rbind (py_float v) (\<lambda>threshold. Inr (case map_of bars bar of None \<Rightarrow> False | Some x \<Rightarrow> op_holds q x threshold)))
      | _ \<Rightarrow> Inr False)"

definition evaluate_auto_fire_triggers :: "confrontation_def list \<Rightarrow> (string \<times> rat) list \<Rightarrow> confrontation_def list res" where
  "evaluate_auto_fire_triggers cs bars = rbind (rmap (fires bars) cs) (\<lambda>bs. Inr (map fst (filter snd (zip cs bs))))"

definition BOND_TIER_ORDER :: "string list" where
  "BOND_TIER_ORDER = [''severed'', ''hostile'', ''strained'', ''neutral'', ''familiar'', ''trusted'', ''fused'']"

definition bond_tier_at_or_above :: "string \<Rightarrow> string \<Rightarrow> bool res" where
  "bond_tier_at_or_above actual minimum =
     (if actual \<notin> set BOND_TIER_ORDER then Inl (ValueError ''unknown bond_tier'')
      else if minimum \<notin> set BOND_TIER_ORDER then Inl (ValueError ''unknown bond_tier_min'')
      else Inr (rank_in BOND_TIER_ORDER actual \<ge> rank_in BOND_TIER_ORDER minimum))"

definition room_eligible :: "string \<Rightarrow> string \<Rightarrow> confrontation_def \<Rightarrow> bool res" where
  "room_eligible room tier c =
     (case (auto_fire c, conf_fire_conditions c) of
        (True, Some fc) \<Rightarrow> if interior_room_present fc \<noteq> room then Inr False else bond_tier_at_or_above tier (bond_tier_min fc)
      | _ \<Rightarrow> Inr False)"

definition find_eligible_room_autofire :: "confrontation_def list \<Rightarrow> string \<Rightarrow> string \<Rightarrow> confrontation_def list res" where
  "find_eligible_room_autofire cs room tier = rbind (rmap (room_eligible room tier) cs) (\<lambda>bs. Inr (map fst (filter snd (zip cs bs))))"

section \<open>Chassis bonds\<close>

definition TIER_THRESHOLDS :: "(rat \<times> string) list" where
  "TIER_THRESHOLDS = [(lit (- 85) 100, ''severed''), (lit (- 45) 100, ''hostile''), (lit (- 1) 10, ''strained''), (lit 1 10, ''neutral''),
     (lit 4 10, ''familiar''), (lit 8 10, ''trusted''), (lit 101 100, ''fused'')]"

definition derive_bond_tier :: "rat \<Rightarrow> string" where
  "derive_bond_tier strength = (case find (\<lambda>t. strength < fst t) TIER_THRESHOLDS of None \<Rightarrow> ''fused'' | Some t \<Rightarrow> snd t)"

record bond_history_event =
  bh_turn_id :: int
  bh_delta_character :: rat
  bh_delta_chassis :: rat
  bh_reason :: string
  bh_confrontation_id :: "string option"

record bond_ledger_entry =
  bond_character_id :: string
  bond_character_to_chassis :: rat
  bond_chassis_to_character :: rat
  bond_tier_character :: string
  bond_tier_chassis :: string
  bond_history :: "bond_history_event list"

record chassis_lineage_entry =
  lineage_turn_id :: int
  lineage_kind :: string
  narrative_seed :: string
  lineage_confrontation_id :: "string option"

record chassis =
  chassis_key :: string
  bond_ledger :: "bond_ledger_entry list"
  lineage :: "chassis_lineage_entry list"

record bond_event_result =
  tier_character_before :: string
  tier_character_after :: string
  tier_chassis_before :: string
  tier_chassis_after :: string

definition tier_character_crossed :: "bond_event_result \<Rightarrow> bool" where
  "tier_character_crossed r \<longleftrightarrow> tier_character_before r \<noteq> tier_character_after r"

definition tier_chassis_crossed :: "bond_event_result \<Rightarrow> bool" where
  "tier_chassis_crossed r \<longleftrightarrow> tier_chassis_before r \<noteq> tier_chassis_after r"

definition clamp_bond :: "rat \<Rightarrow> rat" where
  "clamp_bond v = max (- 1) (min 1 v)"

definition bond_moved :: "rat \<Rightarrow> rat \<Rightarrow> bond_history_event \<Rightarrow> bond_ledger_entry \<Rightarrow> bond_ledger_entry" where
  "bond_moved dchar dchas ev e =
     (let a = clamp_bond (rnd (bond_character_to_chassis e + dchar)); b = clamp_bond (rnd (bond_chassis_to_character e + dchas)) in
      e\<lparr>bond_character_to_chassis := a, bond_chassis_to_character := b, bond_tier_character := derive_bond_tier a,
        bond_tier_chassis := derive_bond_tier b, bond_history := bond_history e @ [ev]\<rparr>)"

fun update_first :: "('a \<Rightarrow> bool) \<Rightarrow> ('a \<Rightarrow> 'a) \<Rightarrow> 'a list \<Rightarrow> 'a list" where
  "update_first P f [] = []"
| "update_first P f (x # xs) = (if P x then f x # xs else x # update_first P f xs)"

definition apply_bond_event ::
  "string \<Rightarrow> rat \<Rightarrow> rat \<Rightarrow> string \<Rightarrow> string option \<Rightarrow> int \<Rightarrow> (chassis, bond_event_result) sm" where
  "apply_bond_event who dchar dchas why conf turn ch =
     (case find (\<lambda>e. bond_character_id e = who) (bond_ledger ch) of
        None \<Rightarrow> (Inl (ValueError ''chassis has no bond ledger entry for character''), ch)
      | Some e \<Rightarrow>
          let ev = \<lparr>bh_turn_id = turn, bh_delta_character = dchar, bh_delta_chassis = dchas, bh_reason = why, bh_confrontation_id = conf\<rparr>;
              e' = bond_moved dchar dchas ev e
          in (Inr \<lparr>tier_character_before = bond_tier_character e, tier_character_after = bond_tier_character e',
                   tier_chassis_before = bond_tier_chassis e, tier_chassis_after = bond_tier_chassis e'\<rparr>,
              ch\<lparr>bond_ledger := update_first (\<lambda>e. bond_character_id e = who) (bond_moved dchar dchas ev) (bond_ledger ch)\<rparr>))"

definition apply_chassis_lineage_intimate :: "string \<Rightarrow> int \<Rightarrow> string option \<Rightarrow> chassis \<Rightarrow> chassis" where
  "apply_chassis_lineage_intimate seed turn conf ch =
     ch\<lparr>lineage := lineage ch @ [\<lparr>lineage_turn_id = turn, lineage_kind = ''intimate'', narrative_seed = seed, lineage_confrontation_id = conf\<rparr>]\<rparr>"

section \<open>The outputs of a confrontation\<close>

record magic_snapshot =
  magic :: "magic_state option"
  roster :: "(string \<times> status list) list"
  chassis_registry :: "(string \<times> chassis) list"
  interaction :: int
  scene_type :: "string option"
  pending_magic_auto_fires :: "(string \<times> string \<times> int) list"
  pending_magic_confrontation_outcome :: "(string \<times> string \<times> string list) option"

definition rebind_chassis_bonds_to_character :: "string \<Rightarrow> magic_snapshot \<Rightarrow> magic_snapshot" where
  "rebind_chassis_bonds_to_character who sn =
     sn\<lparr>chassis_registry := map (\<lambda>(i, ch). (i, ch\<lparr>bond_ledger :=
          map (\<lambda>e. if bond_character_id e = ''player_character'' then e\<lparr>bond_character_id := who\<rparr> else e) (bond_ledger ch)\<rparr>)) (chassis_registry sn)\<rparr>"

record output_context =
  ctx_status_text :: "string option"
  ctx_chassis_id :: "string option"
  ctx_confrontation_id :: "string option"
  ctx_turn_id :: "int option"
  ctx_narrative_seed :: "string option"

definition SANITY_DECREMENT_DEFAULT :: rat where "SANITY_DECREMENT_DEFAULT = lit 1 10"
definition SANITY_INCREMENT_DEFAULT :: rat where "SANITY_INCREMENT_DEFAULT = lit 1 10"
definition NOTICE_DECREMENT_DEFAULT :: rat where "NOTICE_DECREMENT_DEFAULT = lit 15 100"
definition NOTICE_INCREMENT_DEFAULT :: rat where "NOTICE_INCREMENT_DEFAULT = lit 1 10"
definition HEGEMONY_HEAT_INCREMENT_DEFAULT :: rat where "HEGEMONY_HEAT_INCREMENT_DEFAULT = lit 1 10"
definition HEGEMONY_HEAT_DECREMENT_DEFAULT :: rat where "HEGEMONY_HEAT_DECREMENT_DEFAULT = lit 1 10"
definition SANITY_FLOOR_LOWERED_DEFAULT :: rat where "SANITY_FLOOR_LOWERED_DEFAULT = lit 5 100"
definition BOND_INTIMATE_DELTA_CHARACTER :: rat where "BOND_INTIMATE_DELTA_CHARACTER = lit 4 100"
definition BOND_INTIMATE_DELTA_CHASSIS :: rat where "BOND_INTIMATE_DELTA_CHASSIS = lit 6 100"

definition on_magic :: "(magic_state \<Rightarrow> magic_state) \<Rightarrow> magic_snapshot \<Rightarrow> magic_snapshot" where
  "on_magic f sn = sn\<lparr>magic := map_option f (magic sn)\<rparr>"

definition shift_bar :: "bar_key \<Rightarrow> rat \<Rightarrow> magic_state \<Rightarrow> magic_state" where
  "shift_bar k amount s = (case get_bar k s of Inl _ \<Rightarrow> s | Inr b \<Rightarrow> snd (set_bar_value k (rnd (bar_value b + amount)) s))"

definition char_key :: "string \<Rightarrow> string \<Rightarrow> bar_key" where
  "char_key who b = \<lparr>key_scope = CharacterScope, owner_id = who, bar_id = b\<rparr>"

definition heat_key :: "magic_state \<Rightarrow> bar_key" where
  "heat_key s = \<lparr>key_scope = WorldScope, owner_id = config_world_slug (magic_config s), bar_id = ''hegemony_heat''\<rparr>"

definition queue_status_promotion :: "string \<Rightarrow> string \<Rightarrow> string \<Rightarrow> magic_state \<Rightarrow> magic_state" where
  "queue_status_promotion who t sev s = s\<lparr>pending_status_promotions := pending_status_promotions s @ [(who, t, sev)]\<rparr>"

definition status_text_or :: "output_context \<Rightarrow> string \<Rightarrow> string" where
  "status_text_or ctx otherwise = (case ctx_status_text ctx of None \<Rightarrow> otherwise | Some t \<Rightarrow> t)"

definition clear_bleeding_through :: "string \<Rightarrow> magic_state \<Rightarrow> magic_state" where
  "clear_bleeding_through who s =
     s\<lparr>pending_status_promotions := filter (\<lambda>(a, t, _). \<not> (a = who \<and> occurs_in ''bleeding'' (lower t))) (pending_status_promotions s)\<rparr>"

text \<open>What an output does to the magic state; \<open>None\<close> for an output that is not one of these.\<close>

definition magic_output :: "string \<Rightarrow> string \<Rightarrow> output_context \<Rightarrow> (magic_state \<Rightarrow> magic_state) option" where
  "magic_output i who ctx =
     (if i = ''sanity_decrement'' then Some (shift_bar (char_key who ''sanity'') (- SANITY_DECREMENT_DEFAULT))
      else if i = ''sanity_increment'' then Some (shift_bar (char_key who ''sanity'') SANITY_INCREMENT_DEFAULT)
      else if i = ''notice_decrement'' then Some (shift_bar (char_key who ''notice'') (- NOTICE_DECREMENT_DEFAULT))
      else if i = ''notice_increment'' then Some (shift_bar (char_key who ''notice'') NOTICE_INCREMENT_DEFAULT)
      else if i = ''hegemony_heat_increment'' then Some (\<lambda>s. shift_bar (heat_key s) HEGEMONY_HEAT_INCREMENT_DEFAULT s)
      else if i = ''hegemony_heat_decrement'' then Some (\<lambda>s. shift_bar (heat_key s) (- HEGEMONY_HEAT_DECREMENT_DEFAULT) s)
      else if i = ''status_add_scratch'' then Some (queue_status_promotion who (status_text_or ctx ''Marked'') ''Scratch'')
      else if i = ''status_add_wound'' then Some (queue_status_promotion who (status_text_or ctx ''Wounded'') ''Wound'')
      else if i \<in> set [''status_add_scar'', ''scar_political'', ''character_scar_extracted'']
        then Some (queue_status_promotion who (status_text_or ctx ''Scarred'') ''Scar'')
      else if i = ''control_tier_advance'' then Some (\<lambda>s. s\<lparr>control_tier := AList.update who (dict_get (control_tier s) who 0 + 1) (control_tier s)\<rparr>)
      else if i \<in> set [''lore_revealed'', ''lore_revealed_major'', ''item_acquired'', ''item_acquired_alien'', ''item_acquired_with_low_bond'',
                       ''item_history_increment'', ''bond_increment'', ''bond_decrement'', ''bond_increment_to_alien''] then Some id
      else if i = ''sanity_floor_lowered'' then Some (shift_bar (char_key who ''sanity'') (- SANITY_FLOOR_LOWERED_DEFAULT))
      else if i = ''status_clear_bleeding_through'' then Some (clear_bleeding_through who)
      else None)"

definition in_text :: "string option \<Rightarrow> string" where
  "in_text v = (case v of None \<Rightarrow> ''None'' | Some t \<Rightarrow> t)"

definition grow_bond :: "string \<Rightarrow> output_context \<Rightarrow> (magic_snapshot, unit) sm" where
  "grow_bond who ctx sn =
     (case ctx_chassis_id ctx of
        None \<Rightarrow> (Inl (ValueError ''bond_strength_growth_via_intimacy requires chassis_id in context''), sn)
      | Some i \<Rightarrow>
          (case map_of (chassis_registry sn) i of
             None \<Rightarrow> (Inl (KeyError i), sn)
           | Some ch \<Rightarrow>
               (case apply_bond_event who BOND_INTIMATE_DELTA_CHARACTER BOND_INTIMATE_DELTA_CHASSIS (in_text (ctx_confrontation_id ctx) @ '' clear_win'')
                       (ctx_confrontation_id ctx) (case ctx_turn_id ctx of None \<Rightarrow> 0 | Some t \<Rightarrow> t) ch of
                  (Inl e, _) \<Rightarrow> (Inl e, sn)
                | (Inr _, ch') \<Rightarrow> (Inr (), sn\<lparr>chassis_registry := AList.update i ch' (chassis_registry sn)\<rparr>))))"

definition grow_lineage :: "output_context \<Rightarrow> (magic_snapshot, unit) sm" where
  "grow_lineage ctx sn =
     (case ctx_chassis_id ctx of
        None \<Rightarrow> (Inl (ValueError ''chassis_lineage_intimate requires chassis_id in context''), sn)
      | Some i \<Rightarrow>
          (case map_of (chassis_registry sn) i of
             None \<Rightarrow> (Inl (KeyError i), sn)
           | Some ch \<Rightarrow>
               (Inr (), sn\<lparr>chassis_registry := AList.update i
                   (apply_chassis_lineage_intimate (case ctx_narrative_seed ctx of None \<Rightarrow> [] | Some t \<Rightarrow> t)
                      (case ctx_turn_id ctx of None \<Rightarrow> 0 | Some t \<Rightarrow> t) (ctx_confrontation_id ctx) ch) (chassis_registry sn)\<rparr>)))"

definition run_output :: "string \<Rightarrow> output_context \<Rightarrow> string \<Rightarrow> (magic_snapshot, unit) sm" where
  "run_output who ctx i sn =
     (case magic_output i who ctx of
        Some f \<Rightarrow> (Inr (), on_magic f sn)
      | None \<Rightarrow>
          if i = ''bond_strength_growth_via_intimacy'' then grow_bond who ctx sn
          else if i = ''chassis_lineage_intimate'' then grow_lineage ctx sn
          else (Inl (ValueError ''unknown output''), sn))"

definition apply_mandatory_outputs :: "string list \<Rightarrow> string \<Rightarrow> output_context \<Rightarrow> (magic_snapshot, unit) sm" where
  "apply_mandatory_outputs outs who ctx = sforeach (run_output who ctx) outs"

definition no_context :: output_context where
  "no_context = \<lparr>ctx_status_text = None, ctx_chassis_id = None, ctx_confrontation_id = None, ctx_turn_id = None, ctx_narrative_seed = None\<rparr>"

definition resolve_magic_confrontation :: "string \<Rightarrow> string \<Rightarrow> string \<Rightarrow> (magic_snapshot, (string \<times> string \<times> string list) option) sm" where
  "resolve_magic_confrontation i branch who sn =
     (case magic sn of
        None \<Rightarrow> (Inr None, sn)
      | Some s \<Rightarrow>
          (case find (\<lambda>c. conf_id c = i) (confrontations s) of
             None \<Rightarrow> (Inr None, sn)
           | Some c \<Rightarrow>
               (case map_of (outcomes c) branch of
                  None \<Rightarrow> (Inl (KeyError branch), sn)
                | Some outs \<Rightarrow> sthen (apply_mandatory_outputs outs who no_context) (ret (Some (i, branch, outs))) sn)))"

definition OUTCOME_TO_BRANCH :: "(string \<times> string) list" where
  "OUTCOME_TO_BRANCH = [(''win'', ''clear_win''), (''clear_win'', ''clear_win''), (''pyrrhic_win'', ''pyrrhic_win''), (''pyrrhic'', ''pyrrhic_win''),
     (''loss'', ''clear_loss''), (''clear_loss'', ''clear_loss''), (''refused'', ''refused''), (''yield'', ''refused''), (''yielded'', ''refused'')]"

definition severity_of :: "string \<Rightarrow> status_severity option" where
  "severity_of s = map_of [(''Scratch'', Scratch), (''Wound'', Wound), (''Scar'', Scar), (''Boon'', Boon)] s"

definition append_status :: "magic_snapshot \<Rightarrow> string \<Rightarrow> string \<Rightarrow> status_severity \<Rightarrow> magic_snapshot" where
  "append_status sn who t sev =
     sn\<lparr>roster := update_first (\<lambda>c. fst c = who)
        (\<lambda>(n, ss). (n, ss @ [(new_status t sev)\<lparr>created_turn := interaction sn, created_in_encounter := scene_type sn\<rparr>])) (roster sn)\<rparr>"

fun drain_promotions :: "(string \<times> string \<times> string) list \<Rightarrow> magic_snapshot \<Rightarrow> (string \<times> string \<times> string) list \<times> magic_snapshot" where
  "drain_promotions [] sn = ([], sn)"
| "drain_promotions ((who, t, sev) # ps) sn =
     (if dict_has (roster sn) who \<and> severity_of sev \<noteq> None
      then drain_promotions ps (append_status sn who t (the (severity_of sev)))
      else (case drain_promotions ps sn of (left, sn') \<Rightarrow> ((who, t, sev) # left, sn')))"

definition drain_pending_status_promotions :: "magic_snapshot \<Rightarrow> magic_snapshot" where
  "drain_pending_status_promotions sn =
     (case magic sn of
        None \<Rightarrow> sn
      | Some s \<Rightarrow> (case drain_promotions (pending_status_promotions s) sn of
          (left, sn') \<Rightarrow> on_magic (\<lambda>s. s\<lparr>pending_status_promotions := left\<rparr>) sn'))"

definition resolve_magic_confrontation_if_applicable :: "string \<Rightarrow> string \<Rightarrow> string \<Rightarrow> (magic_snapshot, unit) sm" where
  "resolve_magic_confrontation_if_applicable etype outcome who sn =
     (case magic sn of
        None \<Rightarrow> (Inr (), sn)
      | Some s \<Rightarrow>
          if \<not> list_ex (\<lambda>c. conf_id c = etype) (confrontations s) then (Inr (), sn)
          else (case map_of OUTCOME_TO_BRANCH (lower outcome) of
            None \<Rightarrow> (Inr (), sn)
          | Some branch \<Rightarrow>
              (case resolve_magic_confrontation etype branch who sn of
                 (Inl e, sn') \<Rightarrow> (Inl e, sn')
               | (Inr None, sn') \<Rightarrow> (Inr (), sn')
               | (Inr (Some p), sn') \<Rightarrow> (Inr (), drain_pending_status_promotions (sn'\<lparr>pending_magic_confrontation_outcome := Some p\<rparr>)))))"

section \<open>The turn of a working\<close>

definition actor_bar_values :: "string \<Rightarrow> magic_state \<Rightarrow> (string \<times> rat) list" where
  "actor_bar_values who s =
     fold (\<lambda>(k, b) m. AList.update (snd (split_bar (snd (split_bar k)))) (bar_value b) m)
       (filter (\<lambda>e. starts_with (actor_prefix who) (fst e)) (ledger s)) []"

text \<open>The payload of a fired confrontation: its id, the actor, and the primary bar on the overlay's scale of ten.\<close>

definition confrontation_payload :: "confrontation_def \<Rightarrow> string \<Rightarrow> magic_state \<Rightarrow> string \<times> string \<times> int" where
  "confrontation_payload c who s =
     (let primary = dict_get (resource_pool c) ''primary'' ''primary'';
          v = (case get_bar (char_key who primary) s of Inl _ \<Rightarrow> 0 | Inr b \<Rightarrow> bar_value b)
      in (conf_id c, who, trunc (rnd (v * 10))))"

record magic_apply_result =
  ma_apply :: apply_working_result
  ma_flags :: "flag list"
  auto_fired :: "confrontation_def list"

definition apply_magic_working :: "magic_working \<Rightarrow> (magic_snapshot, magic_apply_result) sm" where
  "apply_magic_working w sn =
     (case magic sn of
        None \<Rightarrow> (Inl (ValueError ''magic_working emitted but world has no magic_state loaded''), sn)
      | Some s \<Rightarrow>
          (case validate_magic_working w of
             Inl _ \<Rightarrow> (Inl (ValueError ''magic_working schema invalid''), sn)
           | Inr _ \<Rightarrow>
               (case apply_working w s of
                  (Inl _, _) \<Rightarrow> (Inl (ValueError ''unknown actor''), sn)
                | (Inr r, s') \<Rightarrow>
                    (case evaluate_auto_fire_triggers (confrontations s') (actor_bar_values (w_actor w) s') of
                       Inl e \<Rightarrow> (Inl e, sn\<lparr>magic := Some s'\<rparr>)
                     | Inr fired \<Rightarrow>
                         (Inr \<lparr>ma_apply = r, ma_flags = validate w (magic_config s), auto_fired = fired\<rparr>,
                          sn\<lparr>magic := Some s', pending_magic_auto_fires := pending_magic_auto_fires sn @
                               map (\<lambda>c. confrontation_payload c (w_actor w) s') fired\<rparr>)))))"

text \<open>Later bars of the same id shadow earlier ones here, while a cost is routed by the first.\<close>

definition promote_crossings_to_status_changes :: "magic_apply_result \<Rightarrow> magic_snapshot \<Rightarrow> (string \<times> string \<times> status_severity) list" where
  "promote_crossings_to_status_changes r sn =
     (case magic sn of
        None \<Rightarrow> []
      | Some s \<Rightarrow>
          concat (map (\<lambda>x. case map_of (rev (map (\<lambda>sp. (bar_spec_id sp, sp)) (ledger_bars (magic_config s)))) (bar_id (crossing_key x)) of
              None \<Rightarrow> []
            | Some sp \<Rightarrow> (case promote_to_status sp of None \<Rightarrow> [] | Some (t, sev) \<Rightarrow> [(owner_id (crossing_key x), t, sev)])) (aw_crossings (ma_apply r))))"

definition apply_magic_status_promotions :: "magic_apply_result \<Rightarrow> magic_snapshot \<Rightarrow> magic_snapshot" where
  "apply_magic_status_promotions r sn =
     fold (\<lambda>(who, t, sev) sn. if dict_has (roster sn) who then append_status sn who t sev else sn) (promote_crossings_to_status_changes r sn) sn"

definition run_magic_working :: "magic_working \<Rightarrow> (magic_snapshot, unit) sm" where
  "run_magic_working w = sbind (apply_magic_working w) (\<lambda>r. modify (apply_magic_status_promotions r))"

end
