(* ===== verification/Magic_Properties.thy ===== *)
theory Magic_Properties
  imports Magic_Confrontations
begin

text \<open>
  What the magic system guarantees: every bar stays in its range whatever a session does, a working charges
  each bar once and reports exactly the thresholds it crosses, a reliquary works once a session. And what it does
  not: slots that a cast need not consume, that preparing refills and that rest does not, and confrontations that
  fire again and again.
\<close>

section \<open>Keys\<close>

lemma scope_name_no_bar [simp]: "CHR ''|'' \<notin> set (scope_name sc)"
  by (cases sc) auto

lemma scope_of_name [simp]: "scope_of (scope_name sc) = Some sc"
  by (cases sc) (simp_all add: scope_of_def)

lemma scope_name_inject [simp]: "scope_name a = scope_name b \<longleftrightarrow> a = b"
  by (metis option.inject scope_of_name)

lemma split_bar_append: "CHR ''|'' \<notin> set a \<Longrightarrow> split_bar (a @ CHR ''|'' # r) = (a, r)"
  unfolding split_bar_def
  by (subst takeWhile_append2, blast, subst dropWhile_append2, blast) simp

text \<open>A key survives its way into the ledger and back as long as the name of its owner has no bar in it. With one, two
  different keys share a string: an actor called \<open>a|b\<close> shares a bar with actor \<open>a\<close>.\<close>

theorem bar_key_roundtrip:
  assumes "CHR ''|'' \<notin> set (owner_id k)"
  shows "deserialize_bar_key (serialize_bar_key k) = Inr k"
proof -
  have "split_bar (serialize_bar_key k) = (scope_name (key_scope k), owner_id k @ CHR ''|'' # bar_id k)"
    using split_bar_append[of "scope_name (key_scope k)"] by (simp add: serialize_bar_key_def)
  moreover have "split_bar (owner_id k @ CHR ''|'' # bar_id k) = (owner_id k, bar_id k)"
    using split_bar_append[OF assms] by simp
  ultimately show ?thesis by (simp add: deserialize_bar_key_def serialize_bar_key_def)
qed

theorem bar_key_roundtrip_witness:
  "deserialize_bar_key (serialize_bar_key \<lparr>key_scope = ItemScope, owner_id = ''crow bell'', bar_id = ''a|b''\<rparr>)
     = Inr \<lparr>key_scope = ItemScope, owner_id = ''crow bell'', bar_id = ''a|b''\<rparr>"
  by (rule bar_key_roundtrip) simp

lemma owners_with_bars_collide:
  "serialize_bar_key \<lparr>key_scope = CharacterScope, owner_id = ''a|b'', bar_id = ''c''\<rparr>
     = serialize_bar_key \<lparr>key_scope = CharacterScope, owner_id = ''a'', bar_id = ''b|c''\<rparr>"
  by (simp add: serialize_bar_key_def)

lemma serialize_same_owner:
  "serialize_bar_key \<lparr>key_scope = sc, owner_id = who, bar_id = b\<rparr> = serialize_bar_key \<lparr>key_scope = sc, owner_id = who, bar_id = b'\<rparr> \<longleftrightarrow> b = b'"
  by (simp add: serialize_bar_key_def)

lemma serialize_scope:
  assumes "serialize_bar_key k = serialize_bar_key k'"
  shows "key_scope k = key_scope k'"
proof -
  have "fst (split_bar (serialize_bar_key k)) = scope_name (key_scope k)" for k
    using split_bar_append[of "scope_name (key_scope k)"] by (simp add: serialize_bar_key_def)
  from this[of k] this[of k'] assms show ?thesis by simp
qed

section \<open>Every bar in its range\<close>

definition bar_ok :: "ledger_bar \<Rightarrow> bool" where
  "bar_ok b \<longleftrightarrow> validate_bar_spec (bar_spec b) = Inr () \<and> in_range (bar_range (bar_spec b)) (bar_value b)"

definition ledger_ok :: "magic_state \<Rightarrow> bool" where
  "ledger_ok s \<longleftrightarrow> (\<forall>e\<in>set (ledger s). bar_ok (snd e)) \<and> (\<forall>sp\<in>set (ledger_bars (magic_config s)). validate_bar_spec sp = Inr ())"

definition snapshot_ok :: "magic_snapshot \<Rightarrow> bool" where
  "snapshot_ok sn \<longleftrightarrow> (\<forall>s. magic sn = Some s \<longrightarrow> ledger_ok s)"

lemma valid_range: "validate_bar_spec sp = Inr u \<Longrightarrow> fst (bar_range sp) < snd (bar_range sp)"
  by (auto simp: validate_bar_spec_def split: if_splits)

lemma valid_starts: "validate_bar_spec sp = Inr u \<Longrightarrow> v \<in> set (starts_values (starts_at_chargen sp)) \<Longrightarrow> in_range (bar_range sp) v"
  by (auto simp: validate_bar_spec_def list_all_iff split: if_splits)

lemma clamp_ok: "validate_bar_spec sp = Inr () \<Longrightarrow> bar_ok \<lparr>bar_spec = sp, bar_value = clamp_bar v sp\<rparr>"
  using valid_range[of sp] by (auto simp: bar_ok_def clamp_bar_def in_range_def)

lemma resolved_start: "validate_bar_spec sp = Inr () \<Longrightarrow> resolve_starts_at_chargen sp cls = Inr v \<Longrightarrow> in_range (bar_range sp) v"
  by (rule valid_starts) (auto simp: resolve_starts_at_chargen_def starts_values_def split: starts.splits option.splits dest!: map_of_SomeD intro: rev_image_eqI)

lemma put_bar_ok: "ledger_ok s \<Longrightarrow> bar_ok b \<Longrightarrow> ledger_ok (put_bar k b s)"
  using set_alist_update[of "serialize_bar_key k" b "ledger s"] by (auto simp: ledger_ok_def put_bar_def)

lemma got_bar_ok: "ledger_ok s \<Longrightarrow> get_bar k s = Inr b \<Longrightarrow> bar_ok b"
  by (auto simp: ledger_ok_def get_bar_def split: option.splits dest!: map_of_SomeD)

lemma set_value_ok: "ledger_ok s \<Longrightarrow> ledger_ok (snd (set_bar_value k v s))"
proof (cases "get_bar k s")
  case (Inr b)
  assume ok: "ledger_ok s"
  from got_bar_ok[OF ok Inr] have "bar_ok (b\<lparr>bar_value := clamp_bar v (bar_spec b)\<rparr>)"
    using clamp_ok[of "bar_spec b" v] by (simp add: bar_ok_def)
  with ok Inr show ?thesis by (simp add: set_bar_value_def put_bar_ok)
qed (simp add: set_bar_value_def)

lemma ledger_ok_congs [simp]:
  "ledger_ok (s\<lparr>working_log := x1\<rparr>) = ledger_ok s" "ledger_ok (s\<lparr>control_tier := x2\<rparr>) = ledger_ok s"
  "ledger_ok (s\<lparr>pending_status_promotions := x3\<rparr>) = ledger_ok s" "ledger_ok (s\<lparr>known_spells := x4\<rparr>) = ledger_ok s"
  "ledger_ok (s\<lparr>prepared_spells := x5\<rparr>) = ledger_ok s" "ledger_ok (s\<lparr>spent_spells := x6\<rparr>) = ledger_ok s"
  "ledger_ok (s\<lparr>reliquary_free_use_spent := x7\<rparr>) = ledger_ok s" "ledger_ok (s\<lparr>confrontations := x8\<rparr>) = ledger_ok s"
  by (simp_all add: ledger_ok_def)

lemma from_config_ok:
  assumes "\<forall>sp\<in>set (ledger_bars cfg). validate_bar_spec sp = Inr ()"
  shows "ledger_ok (magic_from_config cfg)"
proof -
  have gen: "\<forall>e\<in>set (fold (\<lambda>sp l. case starts_at_chargen sp of
          Scalar v \<Rightarrow> AList.update (k sp) \<lparr>bar_spec = sp, bar_value = v\<rparr> l | ByClass _ \<Rightarrow> l) sps l). bar_ok (snd e)"
    if "\<forall>sp\<in>set sps. validate_bar_spec sp = Inr ()" "\<forall>e\<in>set l. bar_ok (snd e)" for sps l and k :: "ledger_bar_spec \<Rightarrow> string"
    using that
  proof (induction sps arbitrary: l)
    case (Cons sp sps)
    have "\<forall>e\<in>set (case starts_at_chargen sp of Scalar v \<Rightarrow> AList.update (k sp) \<lparr>bar_spec = sp, bar_value = v\<rparr> l | ByClass _ \<Rightarrow> l). bar_ok (snd e)"
      using Cons.prems valid_starts[of sp] set_alist_update[of "k sp" _ l]
      by (fastforce simp: bar_ok_def starts_values_def split: starts.splits)
    with Cons show ?case by simp
  qed simp
  show ?thesis
    using assms gen[of "filter (\<lambda>sp. bar_scope sp = WorldScope) (ledger_bars cfg)" "[]"
        "\<lambda>sp. serialize_bar_key \<lparr>key_scope = WorldScope, owner_id = config_world_slug cfg, bar_id = bar_spec_id sp\<rparr>"]
    by (simp add: ledger_ok_def magic_from_config_def world_bars_def)
qed

lemma add_bars_ok: "ledger_ok s \<Longrightarrow> \<forall>sp\<in>set sps. validate_bar_spec sp = Inr () \<Longrightarrow> ledger_ok (snd (add_bars who cls sps s))"
proof (induction sps arbitrary: s)
  case (Cons sp sps)
  let ?k = "\<lparr>key_scope = CharacterScope, owner_id = who, bar_id = bar_spec_id sp\<rparr>"
  have "ledger_ok (put_bar ?k \<lparr>bar_spec = sp, bar_value = v\<rparr> s)" if "resolve_starts_at_chargen sp cls = Inr v" for v
    using Cons.prems that resolved_start[of sp cls v] by (intro put_bar_ok) (simp_all add: bar_ok_def)
  with Cons show ?case by (simp add: Let_def split: sum.split)
qed simp

lemma add_item_bars_ok:
  "ledger_ok s \<Longrightarrow> \<forall>sp. Some sp \<in> set ts \<longrightarrow> validate_bar_spec sp = Inr () \<Longrightarrow> ledger_ok (snd (add_item_bars item ts s))"
proof (induction ts arbitrary: s)
  case (Cons t ts)
  have "ledger_ok (put_bar k \<lparr>bar_spec = sp, bar_value = v\<rparr> s)" if "t = Some sp" "starts_at_chargen sp = Scalar v" for k sp v
    using Cons.prems that valid_starts[of sp "()" v] by (intro put_bar_ok) (simp_all add: bar_ok_def starts_values_def)
  with Cons show ?case by (cases t) (auto split: starts.split)
qed simp

lemma charged_ok: "bar_ok b \<Longrightarrow> bar_ok (b\<lparr>bar_value := charged a b\<rparr>)"
  using clamp_ok[of "bar_spec b"] by (auto simp: charged_def bar_ok_def)

lemma charge_costs_ok: "ledger_ok s \<Longrightarrow> ledger_ok (snd (charge_costs w cs s r))"
proof (induction w cs s r rule: charge_costs.induct)
  case (2 w c a cs s r)
  show ?case
  proof (cases "route_cost (magic_config s) w c")
    case (Routed k)
    show ?thesis
    proof (cases "get_bar k s")
      case (Inr b)
      have "ledger_ok (put_bar k (b\<lparr>bar_value := charged a b\<rparr>) s)"
        using 2(4) got_bar_ok[OF 2(4) Inr] by (intro put_bar_ok charged_ok)
      with 2(2)[OF Routed Inr refl] Routed Inr show ?thesis by (simp add: Let_def)
    qed (use 2 Routed in simp)
  qed (use 2 in simp)
qed simp

lemma apply_working_ok: "ledger_ok s \<Longrightarrow> ledger_ok (snd (apply_working w s))"
  by (cases "charge_costs w (w_costs w) s \<lparr>aw_crossings = [], aw_bar_changes = []\<rparr>") (auto simp: apply_working_def dest: charge_costs_ok[of s w "w_costs w" "\<lparr>aw_crossings = [], aw_bar_changes = []\<rparr>"])



section \<open>Charging a working\<close>

lemma route_scope:
  "route_cost cfg w c = Routed k \<Longrightarrow>
     bar_id k = c \<and> owner_id k = (case key_scope k of CharacterScope \<Rightarrow> w_actor w | WorldScope \<Rightarrow> config_world_slug cfg | _ \<Rightarrow> the (w_item_id w))"
  by (auto simp: route_cost_def split: option.splits bar_scope.splits if_splits)

lemma route_keys_differ:
  assumes "route_cost cfg w c = Routed k" "route_cost cfg w c' = Routed k'" "serialize_bar_key k = serialize_bar_key k'"
  shows "c = c'"
proof -
  have "key_scope k = key_scope k'" by (rule serialize_scope[OF assms(3)])
  with route_scope[OF assms(1)] route_scope[OF assms(2)] have "owner_id k = owner_id k'" by simp
  with \<open>key_scope k = key_scope k'\<close> assms(3) have "bar_id k = bar_id k'" by (simp add: serialize_bar_key_def)
  with route_scope[OF assms(1)] route_scope[OF assms(2)] show ?thesis by simp
qed

lemma put_bar_get: "get_bar j (put_bar k b s) = (if serialize_bar_key j = serialize_bar_key k then Inr b else get_bar j s)"
  by (simp add: get_bar_def put_bar_def update_conv')

lemma put_bar_fields [simp]:
  "magic_config (put_bar k b s) = magic_config s" "confrontations (put_bar k b s) = confrontations s"
  "working_log (put_bar k b s) = working_log s" "reliquary_free_use_spent (put_bar k b s) = reliquary_free_use_spent s"
  "pending_status_promotions (put_bar k b s) = pending_status_promotions s" "prepared_spells (put_bar k b s) = prepared_spells s"
  by (simp_all add: put_bar_def)

text \<open>The keys a list of costs is routed to.\<close>

definition charged_keys :: "world_magic_config \<Rightarrow> magic_working \<Rightarrow> (string \<times> rat) list \<Rightarrow> string set" where
  "charged_keys cfg w cs = {serialize_bar_key k |k c. c \<in> fst ` set cs \<and> route_cost cfg w c = Routed k}"

lemma charge_costs_fields [simp]:
  "magic_config (snd (charge_costs w cs s r)) = magic_config s \<and> confrontations (snd (charge_costs w cs s r)) = confrontations s \<and>
   working_log (snd (charge_costs w cs s r)) = working_log s \<and> reliquary_free_use_spent (snd (charge_costs w cs s r)) = reliquary_free_use_spent s \<and>
   prepared_spells (snd (charge_costs w cs s r)) = prepared_spells s"
  by (induction cs arbitrary: s r) (auto simp: Let_def split: route.splits sum.splits)

lemma charge_costs_other:
  "key \<notin> charged_keys (magic_config s) w cs \<Longrightarrow> map_of (ledger (snd (charge_costs w cs s r))) key = map_of (ledger s) key"
proof (induction cs arbitrary: s r)
  case (Cons ca cs)
  obtain c a where ca: "ca = (c, a)" by fastforce
  have rest: "key \<notin> charged_keys (magic_config s) w cs" using Cons.prems by (auto simp: charged_keys_def)
  show ?case
  proof (cases "route_cost (magic_config s) w c")
    case (Routed k)
    with Cons.prems ca have "key \<noteq> serialize_bar_key k" by (force simp: charged_keys_def)
    then show ?thesis
      using Cons.IH[of "put_bar k b s" r' for b r'] rest Routed ca Cons.IH[OF rest]
      by (auto simp: Let_def put_bar_def update_conv' split: sum.splits)
  qed (use Cons.IH[OF rest] ca in simp)
qed simp

lemma charge_costs_hit:
  "distinct (map fst cs) \<Longrightarrow> (c, a) \<in> set cs \<Longrightarrow> route_cost (magic_config s) w c = Routed k \<Longrightarrow> get_bar k s = Inr b
    \<Longrightarrow> get_bar k (snd (charge_costs w cs s r)) = Inr (b\<lparr>bar_value := charged a b\<rparr>)"
proof (induction cs arbitrary: s r)
  case (Cons da ds)
  obtain d e where da: "da = (d, e)" by fastforce
  show ?case
  proof (cases "d = c")
    case True
    with Cons.prems da have e: "e = a" by (auto simp: image_iff)
    have "serialize_bar_key k \<notin> charged_keys (magic_config s) w ds"
    proof
      assume "serialize_bar_key k \<in> charged_keys (magic_config s) w ds"
      then obtain j c' where "c' \<in> fst ` set ds" "route_cost (magic_config s) w c' = Routed j" "serialize_bar_key k = serialize_bar_key j"
        by (auto simp: charged_keys_def)
      with route_keys_differ[OF Cons.prems(3)] have "c \<in> fst ` set ds" by blast
      then show False using Cons.prems(1) True da by auto
    qed
    then have "get_bar k (snd (charge_costs w ds (put_bar k b' s) r')) = Inr b'" for b' r'
      using charge_costs_other[of "serialize_bar_key k" "put_bar k b' s" w ds r'] by (simp add: get_bar_def put_bar_def update_conv')
    then show ?thesis using True Cons.prems da e by (simp add: Let_def)
  next
    case False
    then have inds: "(c, a) \<in> set ds" "distinct (map fst ds)" using Cons.prems da by auto
    show ?thesis
    proof (cases "route_cost (magic_config s) w d")
      case (Routed j)
      have ne: "serialize_bar_key k \<noteq> serialize_bar_key j" using route_keys_differ[OF Cons.prems(3) Routed] False by auto
      then have "get_bar k (put_bar j b' s) = Inr b" for b' using Cons.prems(4) by (simp add: put_bar_get)
      then have "get_bar k (snd (charge_costs w ds (put_bar j b' s) r')) = Inr (b\<lparr>bar_value := charged a b\<rparr>)" for b' r'
        using Cons.IH[OF inds(2,1), of "put_bar j b' s" r'] Cons.prems(3) by simp
      then show ?thesis using Routed da Cons.IH[OF inds(2,1) Cons.prems(3,4)] by (auto simp: Let_def split: sum.split)
    qed (use Cons.IH[OF inds(2,1) Cons.prems(3,4)] da in simp)
  qed
qed simp

lemma charge_costs_crossings:
  "distinct (map fst cs) \<Longrightarrow> set (aw_crossings (fst (charge_costs w cs s r))) = set (aw_crossings r) \<union>
     {x. \<exists>c a k b. (c, a) \<in> set cs \<and> route_cost (magic_config s) w c = Routed k \<and> get_bar k s = Inr b \<and> x \<in> set (crossing_of k b (charged a b))}"
proof (induction cs arbitrary: s r)
  case (Cons da ds)
  obtain d e where da: "da = (d, e)" by fastforce
  have ds: "distinct (map fst ds)" "d \<notin> fst ` set ds" using Cons.prems da by auto
  show ?case
  proof (cases "route_cost (magic_config s) w d")
    case (Routed j)
    have same: "get_bar k (put_bar j b' s) = get_bar k s" if "(c, a) \<in> set ds" "route_cost (magic_config s) w c = Routed k" for c a k b'
      using route_keys_differ[OF that(2) Routed] that(1) ds(2) by (force simp: put_bar_get)
    show ?thesis
    proof (cases "get_bar j s")
      case (Inl err)
      with Routed Cons.IH[OF ds(1)] da show ?thesis by auto
    next
      case (Inr b)
      have "{x. \<exists>c a k b'. (c, a) \<in> set ds \<and> route_cost (magic_config s) w c = Routed k \<and> get_bar k (put_bar j v s) = Inr b' \<and> x \<in> set (crossing_of k b' (charged a b'))}
          = {x. \<exists>c a k b'. (c, a) \<in> set ds \<and> route_cost (magic_config s) w c = Routed k \<and> get_bar k s = Inr b' \<and> x \<in> set (crossing_of k b' (charged a b'))}" for v
        using same by (intro Collect_cong) metis
      with Routed Inr Cons.IH[OF ds(1)] da show ?thesis by (auto simp: Let_def)
    qed
  qed (use Cons.IH[OF ds(1)] da in auto)
qed simp



section \<open>Slots\<close>

lemma slot_key_other: "c \<noteq> bar_id k \<Longrightarrow> route_cost cfg w c = Routed j \<Longrightarrow> serialize_bar_key j \<noteq> serialize_bar_key k \<or> key_scope k \<noteq> CharacterScope \<or> owner_id k \<noteq> w_actor w"
  using route_scope[of cfg w c j] serialize_scope[of j k] by (cases j; cases k) (auto simp: serialize_same_owner)

text \<open>A cast says that it consumed its slot; it does only when the narrator listed the slot among the costs. Without
  that cost the cast succeeds, reports the slot as consumed, and the slot bar is what it was.\<close>

theorem cast_without_cost_keeps_slot:
  assumes "cast w s = (Inr consumed, s')" "w_slot_level w = Some lvl" "''slots_l'' @ show_int lvl \<notin> fst ` set (w_costs w)"
  shows "consumed \<and> get_bar (slot_bar_key (w_actor w) lvl) s' = get_bar (slot_bar_key (w_actor w) lvl) s"
proof -
  let ?k = "slot_bar_key (w_actor w) lvl"
  obtain r where r: "apply_working w s = (Inr r, s')" "consumed"
    using assms(1,2) by (auto simp: cast_def sm_core_defs split: option.splits if_splits sum.splits prod.splits)
  have "serialize_bar_key ?k \<notin> charged_keys (magic_config s) w (w_costs w)"
  proof
    assume "serialize_bar_key ?k \<in> charged_keys (magic_config s) w (w_costs w)"
    then obtain j c where "c \<in> fst ` set (w_costs w)" "route_cost (magic_config s) w c = Routed j" "serialize_bar_key j = serialize_bar_key ?k"
      unfolding charged_keys_def by fastforce
    moreover from this(1) assms(3) have "c \<noteq> bar_id ?k" by (metis bar_key.select_convs(3) slot_bar_key_def)
    ultimately show False using slot_key_other[of c ?k "magic_config s" w j] by (simp add: slot_bar_key_def)
  qed
  then have "map_of (ledger (snd (charge_costs w (w_costs w) s r'))) (serialize_bar_key ?k) = map_of (ledger s) (serialize_bar_key ?k)" for r'
    by (rule charge_costs_other)
  with r show ?thesis by (auto simp: get_bar_def apply_working_def split: if_splits prod.splits) (metis snd_conv)+
qed

text \<open>Preparing needs no rest: an empty preparation of a level whose slots are all spent puts its bar back to the
  starting value, as often as one likes.\<close>

theorem preparing_nothing_refills_slots:
  assumes "ledger_ok s" "get_bar (slot_bar_key who lvl) s = Inr b" "starts_at_chargen (bar_spec b) = Scalar v" "0 \<le> bar_value b"
  shows "\<exists>s'. prepare who [(lvl, [])] s = (Inr [(lvl, 0)], s') \<and> get_bar (slot_bar_key who lvl) s' = Inr (b\<lparr>bar_value := v\<rparr>)"
proof -
  let ?k = "slot_bar_key who lvl" and ?s = "prepare_spells who [(lvl, [])] s"
  have ok: "bar_ok b" by (rule got_bar_ok[OF assms(1,2)])
  then have "in_range (bar_range (bar_spec b)) v" using valid_starts[of "bar_spec b" "()" v] assms(3) by (simp add: bar_ok_def starts_values_def)
  then have cl: "clamp_bar v (bar_spec b) = v" by (simp add: clamp_bar_def in_range_def)
  have g: "get_bar ?k ?s = Inr b" using assms(2) by (simp add: prepare_spells_def get_bar_def)
  have "check_prep who known s [(lvl, [])] = Inr ()" for known using assms(2,4) by (simp add: trunc_def)
  then show ?thesis
    using g cl assms(3) by (auto simp: prepare_def sm_core_defs set_bar_value_def rest_value_def put_bar_get)
qed

lemma rest_bars_by_class:
  "\<forall>b. map_of (ledger s) key = Some b \<longrightarrow> is_ByClass (starts_at_chargen (bar_spec b))
    \<Longrightarrow> map_of (ledger (snd (rest_bars who ks out s))) key = map_of (ledger s) key"
proof (induction who ks out s rule: rest_bars.induct)
  case (2 who k ks out s)
  let ?s = "\<lambda>b. s\<lparr>ledger := AList.update k (b\<lparr>bar_value := rest_value b\<rparr>) (ledger s)\<rparr>"
  have same: "map_of (ledger (?s b)) key = map_of (ledger s) key" if "map_of (ledger s) k = Some b" for b
    using 2(3) that by (cases "starts_at_chargen (bar_spec b)") (auto simp: update_conv' rest_value_def)
  then show ?case using 2 by (auto simp: Let_def split: option.split sum.split)
qed simp

text \<open>A rest puts slot bars back to their start, except those whose start depends on the class: they keep the value
  they had, so a spent slot of such a bar is never restored by resting.\<close>

theorem rest_skips_class_keyed_bars:
  assumes "map_of (ledger s) key = Some b" "is_ByClass (starts_at_chargen (bar_spec b))"
  shows "map_of (ledger (snd (rest who s))) key = Some b"
proof -
  have "map_of (ledger (snd (rest_bars who (map fst (ledger s)) [] s))) key = Some b"
    using rest_bars_by_class[of s key] assms by simp
  then show ?thesis by (auto simp: rest_def split: sum.splits prod.splits)
qed

section \<open>A session\<close>

text \<open>The operations of a session on the magic state, raises included.\<close>

inductive magic_step :: "magic_state \<Rightarrow> magic_state \<Rightarrow> bool" where
  "magic_step s (snd (add_character who cls s))"
| "\<forall>sp. bond = Some sp \<or> history = Some sp \<longrightarrow> validate_bar_spec sp = Inr () \<Longrightarrow> magic_step s (snd (add_item item bond history s))"
| "magic_step s (learn_spell who sp s)"
| "magic_step s (snd (prepare who prep s))"
| "magic_step s (snd (cast w s))"
| "magic_step s (snd (rest who s))"
| "magic_step s (snd (invoke_reliquary who i rs threshold s))"
| "magic_step s (snd (set_bar_value k v s))"
| "magic_step s (snd (apply_working w s))"
| "magic_output i who ctx = Some f \<Longrightarrow> magic_step s (f s)"
| "magic_step s (s\<lparr>pending_status_promotions := left\<rparr>)"
| "resolve_innate_cast_for_beat cats chosen who target (Some s) = (r, Some s') \<Longrightarrow> magic_step s s'"

lemma refresh_slots_ok: "ledger_ok s \<Longrightarrow> ledger_ok (snd (refresh_slots who ls s))"
proof (induction ls arbitrary: s)
  case (Cons l ls)
  show ?case
  proof (cases "get_bar (slot_bar_key who l) s")
    case (Inr b)
    obtain q s' where set: "set_bar_value (slot_bar_key who l) (rest_value b) s = (q, s')" by fastforce
    then have "ledger_ok s'" using set_value_ok[OF Cons.prems, of "slot_bar_key who l" "rest_value b"] by simp
    with set Inr Cons.IH[of s'] show ?thesis by (auto simp: sm_core_defs split: sum.split)
  qed (use Cons.prems in \<open>simp add: sm_core_defs\<close>)
qed (simp add: ret_def)

lemma prepare_ok: "ledger_ok s \<Longrightarrow> ledger_ok (snd (prepare who prep s))"
proof -
  assume "ledger_ok s"
  then have "ledger_ok (prepare_spells who prep s)" by (simp add: prepare_spells_def)
  from refresh_slots_ok[OF this, of who "map fst prep"] show ?thesis using \<open>ledger_ok s\<close>
    by (auto simp: prepare_def sm_core_defs split: sum.splits prod.splits)
qed

lemma rest_value_ok: "bar_ok b \<Longrightarrow> bar_ok (b\<lparr>bar_value := rest_value b\<rparr>)"
  using valid_starts[of "bar_spec b" "()"] by (cases "starts_at_chargen (bar_spec b)") (auto simp: bar_ok_def rest_value_def starts_values_def)

lemma rest_bars_ok: "ledger_ok s \<Longrightarrow> ledger_ok (snd (rest_bars who ks out s))"
proof (induction who ks out s rule: rest_bars.induct)
  case (2 who k ks out s)
  have "ledger_ok (s\<lparr>ledger := AList.update k (b\<lparr>bar_value := rest_value b\<rparr>) (ledger s)\<rparr>)" if "map_of (ledger s) k = Some b" for b
    using 2(3) that rest_value_ok[of b] by (auto simp: ledger_ok_def dest!: subsetD[OF set_alist_update] map_of_SomeD)
  with 2 show ?case by (auto simp: Let_def split: option.split sum.split)
qed simp

lemma rest_ok: "ledger_ok s \<Longrightarrow> ledger_ok (snd (rest who s))"
  using rest_bars_ok[of s who "map fst (ledger s)" "[]"] by (auto simp: rest_def split: sum.splits prod.splits)

lemma shift_bar_ok: "ledger_ok s \<Longrightarrow> ledger_ok (shift_bar k a s)"
  by (auto simp: shift_bar_def set_value_ok split: sum.split)

lemma if_some_cases: "(if c then x else y) = Some f \<Longrightarrow> (x = Some f \<Longrightarrow> P) \<Longrightarrow> (y = Some f \<Longrightarrow> P) \<Longrightarrow> P"
  by (simp split: if_split_asm)

lemma magic_output_ok: "magic_output i who ctx = Some f \<Longrightarrow> ledger_ok s \<Longrightarrow> ledger_ok (f s)"
  unfolding magic_output_def
  by (elim if_some_cases) (auto simp: queue_status_promotion_def clear_bleeding_through_def shift_bar_ok)

lemma magic_step_ok: "magic_step s s' \<Longrightarrow> ledger_ok s \<Longrightarrow> ledger_ok s'"
proof (induction rule: magic_step.induct)
  case (1 s who cls) then show ?case unfolding add_character_def by (intro add_bars_ok) (simp_all add: ledger_ok_def)
next
  case (2 bond history s item) then show ?case unfolding add_item_def by (intro add_item_bars_ok) auto
next
  case (5 s w) then show ?case by (auto simp: cast_def sm_core_defs split: option.split sum.split prod.split) (metis apply_working_ok snd_conv)+
next
  case (7 s who i rs threshold) then show ?case by (auto simp: invoke_reliquary_def split: option.split sum.split)
next
  case (12 cats chosen who target s r s')
  then show ?case by (auto simp: resolve_innate_cast_for_beat_def Let_def split: option.splits if_splits sum.splits)
qed (simp_all add: learn_spell_def Let_def prepare_ok rest_ok set_value_ok apply_working_ok magic_output_ok)


end
