(* ===== verification/Magic_Sessions.thy ===== *)
theory Magic_Sessions
  imports Magic_Properties
begin

text \<open>
  The magic system in a session: a reliquary answers once, confrontations fire again while their condition
  holds, bonds and their tiers, and queued statuses.
\<close>

section \<open>Reliquaries\<close>

lemma charge_spent [simp]: "reliquary_free_use_spent (snd (charge_costs w cs s r)) = reliquary_free_use_spent s"
  by simp

lemma set_value_spent [simp]: "reliquary_free_use_spent (snd (set_bar_value k v s)) = reliquary_free_use_spent s"
  by (simp add: set_bar_value_def split: sum.split)

lemma refresh_spent: "reliquary_free_use_spent (snd (refresh_slots who ls s)) = reliquary_free_use_spent s"
proof (induction ls arbitrary: s)
  case (Cons l ls)
  show ?case
  proof (cases "get_bar (slot_bar_key who l) s")
    case (Inr b)
    obtain q s' where set: "set_bar_value (slot_bar_key who l) (rest_value b) s = (q, s')" by fastforce
    then have "reliquary_free_use_spent s' = reliquary_free_use_spent s" by (metis set_value_spent snd_conv)
    with set Inr Cons.IH[of s'] show ?thesis by (auto simp: sm_core_defs split: sum.split)
  qed (simp add: sm_core_defs)
qed (simp add: ret_def)

lemma rest_bars_spent: "reliquary_free_use_spent (snd (rest_bars who ks out s)) = reliquary_free_use_spent s"
  by (induction who ks out s rule: rest_bars.induct) (auto simp: Let_def split: option.split sum.split)

lemma add_bars_spent: "reliquary_free_use_spent (snd (add_bars who cls sps s)) = reliquary_free_use_spent s"
  by (induction sps arbitrary: s) (auto simp: Let_def split: sum.split)

lemma add_item_bars_spent: "reliquary_free_use_spent (snd (add_item_bars item ts s)) = reliquary_free_use_spent s"
  by (induction item ts s rule: add_item_bars.induct) (auto split: starts.split)

lemma working_spent: "reliquary_free_use_spent (snd (apply_working w s)) = reliquary_free_use_spent s"
  by (cases "charge_costs w (w_costs w) s \<lparr>aw_crossings = [], aw_bar_changes = []\<rparr>")
    (auto simp: apply_working_def dest: arg_cong[where f = "\<lambda>p. reliquary_free_use_spent (snd p)"])

lemma output_spent: "magic_output i who ctx = Some f \<Longrightarrow> reliquary_free_use_spent (f s) = reliquary_free_use_spent s"
  unfolding magic_output_def
  by (elim if_some_cases) (auto simp: queue_status_promotion_def clear_bleeding_through_def shift_bar_def split: sum.split)

lemma step_keeps_spent: "magic_step s s' \<Longrightarrow> set (reliquary_free_use_spent s) \<subseteq> set (reliquary_free_use_spent s')"
proof (induction rule: magic_step.induct)
  case (4 s who prep)
  then show ?case
    using refresh_spent[of who "map fst prep" "prepare_spells who prep s"]
    by (auto simp: prepare_def sm_core_defs prepare_spells_def split: sum.splits prod.splits)
next
  case (5 s w) then show ?case using working_spent[of w s] by (auto simp: cast_def sm_core_defs split: option.split sum.split prod.split)
next
  case (6 s who) then show ?case using rest_bars_spent[of who "map fst (ledger s)" "[]" s] by (auto simp: rest_def split: sum.split prod.split)
next
  case (7 s who i rs need) then show ?case by (auto simp: invoke_reliquary_def split: option.split sum.split)
next
  case (12 cats chosen who target s r s')
  then show ?case by (auto simp: resolve_innate_cast_for_beat_def Let_def split: option.splits if_splits sum.splits)
qed (simp_all add: add_character_def add_bars_spent add_item_def add_item_bars_spent learn_spell_def Let_def working_spent output_spent)

text \<open>C26. Once an actor's reliquary has answered, no later invocation by that actor answers, however much happens in
  between: the session's one use is gone, rests included.\<close>

theorem reliquary_answers_once:
  assumes "invoke_reliquary who i rs need s = (Inr x, s1)" "magic_step\<^sup>*\<^sup>* s1 s2"
  shows "\<exists>e. invoke_reliquary who j rs' need' s2 = (Inl e, s2)"
proof -
  have "who \<in> set (reliquary_free_use_spent s1)"
    using assms(1) by (auto simp: invoke_reliquary_def split: sum.splits if_splits option.splits)
  with assms(2) have "who \<in> set (reliquary_free_use_spent s2)"
    by (induction rule: rtranclp_induct) (auto dest: step_keeps_spent)
  then show ?thesis by (auto simp: invoke_reliquary_def split: sum.split option.split)
qed

section \<open>Confrontations that fire again\<close>

lemma charge_costs_keys: "fst ` set (ledger s) \<subseteq> fst ` set (ledger (snd (charge_costs w cs s r)))"
proof (induction cs arbitrary: s r)
  case (Cons ca cs)
  have "fst ` set (ledger s) \<subseteq> fst ` set (ledger (snd (charge_costs w cs (put_bar k b s) r')))" for k b r'
  proof -
    have "fst ` set (ledger s) \<subseteq> fst ` set (ledger (put_bar k b s))" by (auto simp: put_bar_def dom_update)
    with Cons.IH[of "put_bar k b s" r'] show ?thesis by (rule order_trans[rotated])
  qed
  with Cons.IH[of s r] show ?case by (cases ca) (auto simp: Let_def split: route.split sum.split)
qed simp

text \<open>A confrontation marked once per arc that a working fires is fired again by the next working of that actor which
  leaves the actor's bars alone: the flag is read by nothing, and the trigger looks at the level of the bar, not at its
  crossing.\<close>

theorem once_per_arc_fires_again:
  assumes "apply_magic_working w sn = (Inr r, sn')" "c \<in> set (auto_fired r)" "once_per_arc c"
    and "w_actor w' = w_actor w" "w_costs w' = []" "validate_magic_working w' = Inr ()"
  shows "\<exists>r' sn''. apply_magic_working w' sn' = (Inr r', sn'') \<and> c \<in> set (auto_fired r')"
proof -
  obtain s q s' fired where s: "magic sn = Some s" "apply_working w s = (Inr q, s')"
      "evaluate_auto_fire_triggers (confrontations s') (actor_bar_values (w_actor w) s') = Inr fired" "auto_fired r = fired" "magic sn' = Some s'"
    using assms(1) by (auto simp: apply_magic_working_def split: option.splits sum.splits prod.splits)
  let ?r0 = "\<lparr>aw_crossings = [], aw_bar_changes = []\<rparr>" and ?s'' = "s'\<lparr>working_log := working_log s' @ [w']\<rparr>"
  have keys: "fst ` set (ledger s) \<subseteq> fst ` set (ledger s')"
  proof -
    obtain q' x where c: "charge_costs w (w_costs w) s ?r0 = (q', x)" by fastforce
    then have "ledger s' = ledger x" using s(2) by (auto simp: apply_working_def split: if_splits)
    then show ?thesis using charge_costs_keys[of s w "w_costs w" ?r0] c by simp
  qed
  have "list_ex (\<lambda>e. starts_with (actor_prefix (w_actor w)) (fst e)) (ledger s')"
  proof -
    have "\<exists>k \<in> fst ` set (ledger s). starts_with (actor_prefix (w_actor w)) k"
      using s(2) by (auto simp: apply_working_def list_ex_iff split: if_splits)
    with keys have "\<exists>k \<in> fst ` set (ledger s'). starts_with (actor_prefix (w_actor w)) k" by blast
    then show ?thesis by (simp add: list_ex_iff)
  qed
  then have run: "apply_working w' s' = (Inr ?r0, ?s'')" using assms(4,5) by (simp add: apply_working_def)
  have "evaluate_auto_fire_triggers (confrontations ?s'') (actor_bar_values (w_actor w') ?s'') = Inr fired"
    using s(3) assms(4) by (simp add: actor_bar_values_def)
  with run s(4,5) assms(2,6) show ?thesis by (simp add: apply_magic_working_def)
qed

section \<open>Bonds\<close>

lemma tier_rank_mono: "a \<le> b \<Longrightarrow> rank_in BOND_TIER_ORDER (derive_bond_tier a) \<le> rank_in BOND_TIER_ORDER (derive_bond_tier b)"
  by (simp add: derive_bond_tier_def TIER_THRESHOLDS_def rank_in_def BOND_TIER_ORDER_def)

definition bond_ok :: "bond_ledger_entry \<Rightarrow> bool" where
  "bond_ok e \<longleftrightarrow> - 1 \<le> bond_character_to_chassis e \<and> bond_character_to_chassis e \<le> 1 \<and>
     - 1 \<le> bond_chassis_to_character e \<and> bond_chassis_to_character e \<le> 1 \<and>
     bond_tier_character e = derive_bond_tier (bond_character_to_chassis e) \<and> bond_tier_chassis e = derive_bond_tier (bond_chassis_to_character e)"

lemma bond_moved_ok: "bond_ok (bond_moved dchar dchas ev e)"
  by (simp add: bond_ok_def bond_moved_def clamp_bond_def Let_def)

lemma clamp_bond_mono: "x \<le> y \<Longrightarrow> clamp_bond x \<le> clamp_bond y"
  by (auto simp: clamp_bond_def)

lemma update_first_find: "find P xs = Some x \<Longrightarrow> P (f x) \<Longrightarrow> find P (update_first P f xs) = Some (f x)"
  by (induction xs) (auto split: if_splits)

lemma update_first_others: "filter (\<lambda>x. \<not> P x) (update_first P f xs) = filter (\<lambda>x. \<not> P x) xs" if "\<And>x. P x \<Longrightarrow> P (f x)"
  using that by (induction xs) auto

lemma derive_tier_range: "derive_bond_tier a \<in> set BOND_TIER_ORDER"
  by (simp add: derive_bond_tier_def TIER_THRESHOLDS_def BOND_TIER_ORDER_def)

text \<open>A bond event moves the bond of its character and no other: afterwards both strengths lie between minus one
  and one, each tier is the one its strength derives, and the event closes the history. The result reports the tiers before and
  after, so it names every crossing.\<close>

theorem bond_event_moves_one_bond:
  assumes "apply_bond_event who dchar dchas why conf turn ch = (Inr r, ch')"
  shows "\<exists>e e'. find (\<lambda>e. bond_character_id e = who) (bond_ledger ch) = Some e \<and> find (\<lambda>e. bond_character_id e = who) (bond_ledger ch') = Some e' \<and>
    bond_ok e' \<and> length (bond_history e') = Suc (length (bond_history e)) \<and>
    filter (\<lambda>e. bond_character_id e \<noteq> who) (bond_ledger ch') = filter (\<lambda>e. bond_character_id e \<noteq> who) (bond_ledger ch) \<and>
    (tier_chassis_crossed r \<longleftrightarrow> bond_tier_chassis e \<noteq> bond_tier_chassis e') \<and> (tier_character_crossed r \<longleftrightarrow> bond_tier_character e \<noteq> bond_tier_character e')"
proof -
  obtain e where e: "find (\<lambda>e. bond_character_id e = who) (bond_ledger ch) = Some e"
    using assms by (auto simp: apply_bond_event_def split: option.splits)
  define ev where "ev = \<lparr>bh_turn_id = turn, bh_delta_character = dchar, bh_delta_chassis = dchas, bh_reason = why, bh_confrontation_id = conf\<rparr>"
  define e' where "e' = bond_moved dchar dchas ev e"
  have id: "bond_character_id (bond_moved dchar dchas ev x) = bond_character_id x" for x by (simp add: bond_moved_def Let_def)
  have ch': "bond_ledger ch' = update_first (\<lambda>e. bond_character_id e = who) (bond_moved dchar dchas ev) (bond_ledger ch)"
    and r: "r = \<lparr>tier_character_before = bond_tier_character e, tier_character_after = bond_tier_character e',
                 tier_chassis_before = bond_tier_chassis e, tier_chassis_after = bond_tier_chassis e'\<rparr>"
    using assms e by (auto simp: apply_bond_event_def ev_def e'_def Let_def)
  have who: "bond_character_id e = who" using e by (auto simp: find_Some_iff)
  have "find (\<lambda>e. bond_character_id e = who) (bond_ledger ch') = Some e'"
    unfolding ch' e'_def using e who id by (intro update_first_find) auto
  moreover have "filter (\<lambda>e. bond_character_id e \<noteq> who) (bond_ledger ch') = filter (\<lambda>e. bond_character_id e \<noteq> who) (bond_ledger ch)"
    unfolding ch' by (rule update_first_others) (simp add: id)
  moreover have "length (bond_history e') = Suc (length (bond_history e))" by (simp add: e'_def bond_moved_def Let_def)
  ultimately show ?thesis
    using e bond_moved_ok[of dchar dchas ev e] by (auto simp: r tier_chassis_crossed_def tier_character_crossed_def e'_def)
qed

section \<open>Queued statuses\<close>

definition deliverable :: "magic_snapshot \<Rightarrow> string \<times> string \<times> string \<Rightarrow> bool" where
  "deliverable sn p \<longleftrightarrow> dict_has (roster sn) (fst p) \<and> severity_of (snd (snd p)) \<noteq> None"

definition stamped :: "magic_snapshot \<Rightarrow> string \<times> string \<times> string \<Rightarrow> status" where
  "stamped sn p = (new_status (fst (snd p)) (the (severity_of (snd (snd p)))))\<lparr>created_turn := interaction sn, created_in_encounter := scene_type sn\<rparr>"

lemma update_first_map_of:
  "map_of (update_first (\<lambda>c. fst c = who) (\<lambda>(n, ss). (n, f ss)) xs) n = (if n = who then map_option f (map_of xs n) else map_of xs n)"
  by (induction xs) auto

lemma append_status_facts:
  "interaction (append_status sn who t sev) = interaction sn" "scene_type (append_status sn who t sev) = scene_type sn"
  "dict_has (roster (append_status sn who t sev)) n = dict_has (roster sn) n" "magic (append_status sn who t sev) = magic sn"
  "map_of (roster (append_status sn who t sev)) n =
     (if n = who then map_option (\<lambda>ss. ss @ [(new_status t sev)\<lparr>created_turn := interaction sn, created_in_encounter := scene_type sn\<rparr>]) (map_of (roster sn) n)
      else map_of (roster sn) n)"
proof -
  show m: "map_of (roster (append_status sn who t sev)) n =
     (if n = who then map_option (\<lambda>ss. ss @ [(new_status t sev)\<lparr>created_turn := interaction sn, created_in_encounter := scene_type sn\<rparr>]) (map_of (roster sn) n)
      else map_of (roster sn) n)"
    by (simp add: append_status_def update_first_map_of)
  have has: "dict_has d n = (map_of d n \<noteq> None)" for d :: "(string \<times> status list) list"
    by (simp add: dict_has_def map_of_eq_None_iff)
  show "dict_has (roster (append_status sn who t sev)) n = dict_has (roster sn) n"
    using m by (simp only: has) auto
qed (simp_all add: append_status_def)

text \<open>Draining the queue gives every queued status to the character it names, in the order of the queue and stamped
  with the turn and the encounter, and keeps exactly those whose character is not on the roster or whose severity
  does not exist.\<close>

theorem drained_statuses_arrive:
  assumes "drain_promotions ps sn = (left, sn')"
  shows "left = filter (\<lambda>p. \<not> deliverable sn p) ps \<and>
    map_of (roster sn') n = map_option (\<lambda>ss. ss @ map (stamped sn) (filter (\<lambda>p. fst p = n \<and> deliverable sn p) ps)) (map_of (roster sn) n)"
  using assms
proof (induction ps arbitrary: sn left)
  case Nil
  then show ?case by (simp add: option.map_ident)
next
  case (Cons p ps)
  obtain who t sev where p: "p = (who, t, sev)" by (cases p) auto
  show ?case
  proof (cases "deliverable sn p")
    case True
    let ?sn = "append_status sn who t (the (severity_of sev))"
    have d: "deliverable ?sn = deliverable sn" "stamped ?sn = stamped sn"
      by (simp_all add: deliverable_def stamped_def append_status_facts fun_eq_iff del: dict_has_iff)
    from True Cons.prems p have "drain_promotions ps ?sn = (left, sn')" by (simp add: deliverable_def)
    from Cons.IH[OF this] True p show ?thesis
      by (cases "map_of (roster sn) n") (auto simp: d append_status_facts stamped_def)
  next
    case False
    with Cons.prems p obtain l where "drain_promotions ps sn = (l, sn')" "left = p # l"
      by (auto simp: deliverable_def split: prod.splits)
    with Cons.IH[of sn l] False show ?thesis by auto
  qed
qed

end
