(* ===== verification/Magic_Examples.thy ===== *)
theory Magic_Examples
  imports Magic_Sessions
begin

text \<open>A small world of magic, and the theorems of \<open>Magic_Properties\<close> and \<open>Magic_Sessions\<close> at work in it.\<close>

definition ex_bar :: "string \<Rightarrow> rat \<Rightarrow> rat \<Rightarrow> rat \<Rightarrow> ledger_bar_spec" where
  "ex_bar i hi low st =
     \<lparr>bar_spec_id = i, bar_scope = CharacterScope, bar_direction = BarDown, bar_range = (0, hi), threshold_high = None, threshold_higher = None,
      threshold_low = Some low, threshold_lower = None, consequence_on_high_cross = None, consequence_on_low_cross = None,
      starts_at_chargen = Scalar st, promote_to_status = None\<rparr>"

definition ex_magic_config :: world_magic_config where
  "ex_magic_config =
     \<lparr>config_world_slug = ''sunden'', genre_slug = ''caverns'', allowed_sources = [''learned''], active_plugins = [''learned_v1''], hard_limits = [],
      cost_types = [''sanity''], ledger_bars = [ex_bar ''slots_l1'' 4 0 2, ex_bar ''sanity'' 10 4 5, ex_bar ''divine_favor'' 1 0 1]\<rparr>"

definition ex_magic :: magic_state where
  "ex_magic = snd (add_character ''Ada'' None (magic_from_config ex_magic_config))"

definition ex_working :: "(string \<times> rat) list \<Rightarrow> magic_working" where
  "ex_working costs =
     \<lparr>w_plugin = ''learned_v1'', w_mechanism = ''studied'', w_actor = ''Ada'', w_costs = costs, w_domain = ''psychic'', narrator_basis = [],
      w_flavor = None, w_consent_state = None, w_item_id = None, w_alignment = None, w_spell_id = Some ''sleep'', w_slot_level = Some 1\<rparr>"

lemma ex_bars_valid: "\<forall>sp\<in>set (ledger_bars ex_magic_config). validate_bar_spec sp = Inr ()"
  by code_simp

lemma ex_magic_step: "magic_step\<^sup>*\<^sup>* (magic_from_config ex_magic_config) ex_magic"
  unfolding ex_magic_def by (intro r_into_rtranclp magic_step.intros)

lemma ex_magic_ok: "ledger_ok ex_magic"
  by (rule magic_step_ok[of "magic_from_config ex_magic_config"]) (simp_all add: ex_magic_def magic_step.intros from_config_ok[OF ex_bars_valid])



theorem cast_without_cost_keeps_slot_witness:
  "\<exists>s'. cast (ex_working []) (prepare_spells ''Ada'' [(1, [''sleep''])] ex_magic) = (Inr True, s') \<and>
     get_bar (slot_bar_key ''Ada'' 1) s' = Inr \<lparr>bar_spec = ex_bar ''slots_l1'' 4 0 2, bar_value = 2\<rparr>"
proof -
  let ?s = "prepare_spells ''Ada'' [(1, [''sleep''])] ex_magic"
  obtain s' where run: "cast (ex_working []) ?s = (Inr True, s')"
  proof -
    have "fst (cast (ex_working []) ?s) = Inr True" by code_simp
    then show ?thesis using that by (metis prod.collapse)
  qed
  have "get_bar (slot_bar_key ''Ada'' 1) ?s = Inr \<lparr>bar_spec = ex_bar ''slots_l1'' 4 0 2, bar_value = 2\<rparr>" by code_simp
  with cast_without_cost_keeps_slot[OF run, of 1] run show ?thesis by (simp add: ex_working_def)
qed

theorem preparing_nothing_refills_slots_witness:
  "\<exists>s'. prepare ''Ada'' [(1, [])] (snd (set_bar_value (slot_bar_key ''Ada'' 1) 0 ex_magic)) = (Inr [(1, 0)], s') \<and>
     get_bar (slot_bar_key ''Ada'' 1) s' = Inr \<lparr>bar_spec = ex_bar ''slots_l1'' 4 0 2, bar_value = 2\<rparr>"
proof -
  let ?s = "snd (set_bar_value (slot_bar_key ''Ada'' 1) 0 ex_magic)"
  have g: "get_bar (slot_bar_key ''Ada'' 1) ?s = Inr \<lparr>bar_spec = ex_bar ''slots_l1'' 4 0 2, bar_value = 0\<rparr>" by code_simp
  from preparing_nothing_refills_slots[OF set_value_ok[OF ex_magic_ok] g, of 2] show ?thesis by (simp add: ex_bar_def)
qed

theorem reliquary_answers_once_witness:
  "\<exists>e s1. fst (invoke_reliquary ''Ada'' ''bowl'' [\<lparr>reliquary_id = ''bowl'', reliquary_name = ''Bowl'', divine_favor_effect = Some ''light''\<rparr>] 1 ex_magic) = Inr (1, ''light'')
     \<and> invoke_reliquary ''Ada'' ''bowl'' [] 0 (snd (rest ''Ada'' s1)) = (Inl e, snd (rest ''Ada'' s1))"
proof -
  let ?call = "invoke_reliquary ''Ada'' ''bowl'' [\<lparr>reliquary_id = ''bowl'', reliquary_name = ''Bowl'', divine_favor_effect = Some ''light''\<rparr>] 1 ex_magic"
  have f: "fst ?call = Inr (1, ''light'')" by code_simp
  then obtain s1 where run: "?call = (Inr (1, ''light''), s1)" by (metis prod.collapse)
  have "magic_step\<^sup>*\<^sup>* s1 (snd (rest ''Ada'' s1))" by (intro r_into_rtranclp magic_step.intros)
  from reliquary_answers_once[OF run this] f show ?thesis by blast
qed

definition ex_confrontation :: confrontation_def where
  "ex_confrontation =
     \<lparr>conf_id = ''bleeding'', conf_label = ''The Bleeding-Through'', conf_register = None, auto_fire = True, auto_fire_trigger = Some ''sanity <= 4'',
      conf_fire_conditions = None, once_per_arc = True, resource_pool = [(''primary'', ''sanity'')], outcomes = []\<rparr>"

definition ex_magic_snapshot :: magic_snapshot where
  "ex_magic_snapshot =
     \<lparr>magic = Some (ex_magic\<lparr>confrontations := [ex_confrontation]\<rparr>), roster = [], chassis_registry = [], interaction = 3, scene_type = None,
      pending_magic_auto_fires = [], pending_magic_confrontation_outcome = None\<rparr>"

theorem once_per_arc_fires_again_witness:
  "\<exists>r r' sn' sn''. apply_magic_working (ex_working [(''sanity'', 2)]) ex_magic_snapshot = (Inr r, sn') \<and> ex_confrontation \<in> set (auto_fired r) \<and>
     apply_magic_working (ex_working []) sn' = (Inr r', sn'') \<and> ex_confrontation \<in> set (auto_fired r')"
proof -
  let ?run = "apply_magic_working (ex_working [(''sanity'', 2)]) ex_magic_snapshot"
  have "case fst ?run of Inr r \<Rightarrow> auto_fired r = [ex_confrontation] | Inl _ \<Rightarrow> False" by code_simp
  then obtain r sn' where run: "?run = (Inr r, sn')" "ex_confrontation \<in> set (auto_fired r)"
    by (cases ?run) (auto split: sum.splits)
  have v: "once_per_arc ex_confrontation" "w_actor (ex_working []) = w_actor (ex_working [(''sanity'', 2)])" "w_costs (ex_working []) = []"
    "validate_magic_working (ex_working []) = Inr ()" by code_simp+
  from once_per_arc_fires_again[OF run v] run show ?thesis by blast
qed

end
