(* ===== verification/Magic_Encounters.thy ===== *)
theory Magic_Encounters
  imports Magic_Examples Encounter_Properties
begin

text \<open>
  How a resolved encounter meets a magic confrontation: what the beat engine of \<open>Beats\<close> writes as the outcome, and
  what \<open>Magic_Confrontations\<close> looks up.
\<close>

section \<open>Encounters and magic confrontations\<close>

lemma verdict_has_no_branch:
  assumes "verdict eres b d brk w = Some out"
  shows "map_of OUTCOME_TO_BRANCH (lower out) = None"
proof -
  have hp: "fst r \<in> {''player_victory'', ''opponent_victory'', ''mutual_destruction''}" if "fst (check_hp_depletion res cs e) = Some r" for res cs e r
    using that unfolding check_hp_depletion_cases Let_def by (cases "side_down res cs Player e"; cases "side_down res cs Opponent e"; cases "resolved e") auto
  have "(\<exists>res r. fst (check_hp_depletion res (snd w) (fst w)) = Some r \<and> out = fst r) \<or> out \<in> {pv, ov} \<or> (\<exists>n. out = cb @ n) \<or> (\<exists>n. out = rb @ n)"
    if "verdict eres b d brk w = Some out" "pv = ''player_victory''" "ov = ''opponent_victory''" "cb = ''composure_break:''" "rb = ''resolution_beat:''" for pv ov cb rb
    using that(1) unfolding verdict_def Let_def that(2-5)[symmetric]
    by (cases w; cases eres) (auto split: if_split_asm option.split_asm)
  from this[OF assms refl refl refl refl] hp
  have out: "out \<in> {''player_victory'', ''opponent_victory'', ''mutual_destruction''} \<or> (\<exists>n. out = ''composure_break:'' @ n) \<or> (\<exists>n. out = ''resolution_beat:'' @ n)"
    by blast
  have fixed: "map_of OUTCOME_TO_BRANCH (lower ''player_victory'') = None" "map_of OUTCOME_TO_BRANCH (lower ''opponent_victory'') = None"
    "map_of OUTCOME_TO_BRANCH (lower ''mutual_destruction'') = None" by code_simp+
  have pre: "lower (a @ n) = lower a @ lower n" for a n by (simp add: lower_def)
  have l: "lower ''composure_break:'' = ''composure_break:''" "lower ''resolution_beat:'' = ''resolution_beat:''" by code_simp+
  have "map_of OUTCOME_TO_BRANCH (lower (''composure_break:'' @ n)) = None" "map_of OUTCOME_TO_BRANCH (lower (''resolution_beat:'' @ n)) = None" for n
    unfolding pre l by (simp_all add: OUTCOME_TO_BRANCH_def)
  with out fixed show ?thesis by auto
qed

text \<open>C27. When a beat resolves an encounter that is a magic confrontation, none of the confrontation's mandatory outputs
  fires: no outcome the beat engine writes is one of the strings the branch table knows, so the snapshot is left as
  it is, won or lost.\<close>

theorem resolved_confrontations_pay_nothing:
  assumes "apply_beat a b out turn eres damage (e, cs) = (Inr r, (e', cs'))" "enc_ok e" "cores_ok cs" "result_resolved r"
  shows "\<exists>o'. enc_outcome e' = Some o' \<and> resolve_magic_confrontation_if_applicable etype o' who sn = (Inr (), sn)"
proof (cases rule: apply_beat_cases[OF assms(2,3), of a b out turn eres damage])
  case (3 d brk lost w1)
  then obtain o' where o': "verdict eres b d brk (advance_beat a b out (fst w1), snd w1) = Some o'" "enc_outcome e' = Some o'"
    using assms(1,4) by (auto simp: beat_ends_def Let_def resolve_with_def split: option.splits)
  from verdict_has_no_branch[OF o'(1)] o'(2) show ?thesis
    by (auto simp: resolve_magic_confrontation_if_applicable_def split: option.split)
qed (use assms in \<open>auto simp: skip_beat_def\<close>)

theorem resolved_confrontations_pay_nothing_witness:
  "\<exists>r e' cs' o'. apply_beat (ex_actor ''Rux'' Player) ex_beat Success 1 (Some Some) (Some 2) (ex_enc DialThreshold, ex_cores) = (Inr r, (e', cs')) \<and>
     enc_outcome e' = Some o' \<and> resolve_magic_confrontation_if_applicable ''bleeding'' o' ''Rux'' ex_magic_snapshot = (Inr (), ex_magic_snapshot)"
proof -
  let ?w = "apply_beat (ex_actor ''Rux'' Player) ex_beat Success 1 (Some Some) (Some 2) (ex_enc DialThreshold, ex_cores)"
  let ?r = "projr (fst ?w)" and ?e = "fst (snd ?w)" and ?cs = "snd (snd ?w)"
  have run: "?w = (Inr ?r, (?e, ?cs))" by code_simp
  have "result_resolved ?r" by code_simp
  from resolved_confrontations_pay_nothing[OF run ex_scene_ok this] run show ?thesis by blast
qed

end
