(* ===== verification/Fate.thy ===== *)
theory Fate
  imports Encounter Sanitize
begin

text \<open>
  The Fate ruleset (src/sidequest/game/fate_sheet.py, game/ruleset/fate_resolution.py, fate.py,
  fate_gear.py, fate_item_promotion.py, fate_chargen.py): the 4dF roll on the ladder, the sheet with its
  aspects, stress and consequences, the fate-point economy, and how a sheet is built, geared and promoted.
  Operations that mutate a sheet are computations on it.
\<close>

section \<open>Resolution\<close>

definition LADDER :: "(int \<times> string) list" where
  "LADDER = [(-2, ''Terrible''), (-1, ''Poor''), (0, ''Mediocre''), (1, ''Average''), (2, ''Fair''), (3, ''Good''), (4, ''Great''),
     (5, ''Superb''), (6, ''Fantastic''), (7, ''Epic''), (8, ''Legendary'')]"

definition ladder_name :: "int \<Rightarrow> string" where
  "ladder_name v =
     (if v < -2 then ''Terrible'' @ show_int (v + 2) else if v > 8 then ''Legendary+'' @ show_int (v - 8) else dict_get LADDER v [])"

datatype fate_tier = FateFail | FateTie | FateSucceed | SucceedWithStyle

record fate_outcome =
  fo_dice :: "int list"
  roll_total :: int
  ladder_total :: int
  fo_opposition :: int
  fo_shifts :: int
  fo_tier :: fate_tier

definition classify_outcome :: "int \<Rightarrow> int \<Rightarrow> int \<times> fate_tier" where
  "classify_outcome tot opp =
     (let s = tot - opp in
      (s, if s < 0 then FateFail else if s = 0 then FateTie else if s \<le> 2 then FateSucceed else SucceedWithStyle))"

definition roll_4df :: "(rng, int list) sm" where
  "roll_4df = smap (\<lambda>_. choice [-1, 0, 1]) [0 :: nat, 1, 2, 3]"

definition build_outcome :: "int list \<Rightarrow> int \<Rightarrow> int \<Rightarrow> int \<Rightarrow> fate_outcome" where
  "build_outcome dice rating opp bonus =
     (let roll = sum_list dice; tot = roll + rating + bonus; (s, t) = classify_outcome tot opp in
      \<lparr>fo_dice = dice, roll_total = roll, ladder_total = tot, fo_opposition = opp, fo_shifts = s, fo_tier = t\<rparr>)"

definition resolve_action :: "int \<Rightarrow> int \<Rightarrow> int \<Rightarrow> (rng, fate_outcome) sm" where
  "resolve_action rating opp bonus = sbind roll_4df (\<lambda>dice. ret (build_outcome dice rating opp bonus))"

definition resolve_action_from_faces :: "int \<Rightarrow> int \<Rightarrow> int list \<Rightarrow> int \<Rightarrow> fate_outcome res" where
  "resolve_action_from_faces rating opp faces bonus =
     (if length faces \<noteq> 4 \<or> \<not> list_all (\<lambda>f. f \<in> {-1, 0, 1}) faces then Inl (ValueError ''invalid dF faces'')
      else Inr (build_outcome faces rating opp bonus))"

section \<open>The sheet\<close>

datatype aspect_kind = HighConcept | Trouble | CharacterAspect | SituationAspect | ConsequenceAspect | Boost | Permission

record aspect =
  aspect_text :: string
  aspect_kind :: aspect_kind
  free_invokes :: int
  source_gear :: "string option"

definition new_aspect :: "string \<Rightarrow> aspect_kind \<Rightarrow> aspect" where
  "new_aspect t k = \<lparr>aspect_text = t, aspect_kind = k, free_invokes = 0, source_gear = None\<rparr>"

record stunt =
  stunt_name :: string
  stunt_description :: string
  stunt_gear :: "string option"

record stress_box =
  box_value :: int
  checked :: bool

record consequence =
  cons_level :: string
  cons_value :: int
  cons_aspect :: "aspect option"

record fate_sheet =
  aspects :: "aspect list"
  skills :: "(string \<times> int) list"
  stunts :: "stunt list"
  refresh :: int
  fate_points :: int
  stress :: "(string \<times> stress_box list) list"
  consequences :: "consequence list"

definition CONSEQUENCE_VALUES :: "(string \<times> int) list" where
  "CONSEQUENCE_VALUES = [(''mild'', 2), (''moderate'', 4), (''severe'', 6), (''extreme'', 8)]"

definition default_stress :: "(string \<times> stress_box list) list" where
  "default_stress =
     (let boxes = [\<lparr>box_value = 1, checked = False\<rparr>, \<lparr>box_value = 2, checked = False\<rparr>] in
      [(''physical'', boxes), (''mental'', boxes)])"

definition default_consequences :: "consequence list" where
  "default_consequences = map (\<lambda>(l, v). \<lparr>cons_level = l, cons_value = v, cons_aspect = None\<rparr>) CONSEQUENCE_VALUES"

definition empty_sheet :: fate_sheet where
  "empty_sheet = \<lparr>aspects = [], skills = [], stunts = [], refresh = 3, fate_points = 3, stress = default_stress,
     consequences = default_consequences\<rparr>"

definition all_aspects :: "fate_sheet \<Rightarrow> aspect list" where
  "all_aspects sh = aspects sh @ List.map_filter cons_aspect (consequences sh)"

section \<open>The fate-point economy\<close>

definition spend_fate_point :: "(fate_sheet, int) sm" where
  "spend_fate_point sh =
     (if fate_points sh \<le> 0 then (Inl (FateEconomyError ''no fate point to spend''), sh)
      else (Inr (fate_points sh - 1), sh\<lparr>fate_points := fate_points sh - 1\<rparr>))"

definition earn_fate_point :: "(fate_sheet, int) sm" where
  "earn_fate_point sh = (Inr (fate_points sh + 1), sh\<lparr>fate_points := fate_points sh + 1\<rparr>)"

definition refresh_fate_points :: "(fate_sheet, int) sm" where
  "refresh_fate_points sh =
     (let p = max (fate_points sh) (refresh sh) in (Inr p, sh\<lparr>fate_points := p\<rparr>))"

fun map_first :: "('a \<Rightarrow> bool) \<Rightarrow> ('a \<Rightarrow> 'a) \<Rightarrow> 'a list \<Rightarrow> 'a list" where
  "map_first P f [] = []"
| "map_first P f (x # xs) = (if P x then f x # xs else x # map_first P f xs)"

text \<open>The aspect found first is the object that loses the free invocation, on the sheet or in a slot.\<close>

definition use_free_invoke :: "string \<Rightarrow> fate_sheet \<Rightarrow> fate_sheet" where
  "use_free_invoke t sh =
     (let used = (\<lambda>a. a\<lparr>free_invokes := free_invokes a - 1\<rparr>) in
      if list_ex (\<lambda>a. aspect_text a = t) (aspects sh) then sh\<lparr>aspects := map_first (\<lambda>a. aspect_text a = t) used (aspects sh)\<rparr>
      else sh\<lparr>consequences := map_first (\<lambda>c. map_option aspect_text (cons_aspect c) = Some t)
                 (\<lambda>c. c\<lparr>cons_aspect := map_option used (cons_aspect c)\<rparr>) (consequences sh)\<rparr>)"

definition invoke_aspect :: "string \<Rightarrow> string \<Rightarrow> (fate_sheet, int) sm" where
  "invoke_aspect t mode sh =
     (case find (\<lambda>a. aspect_text a = t) (all_aspects sh) of
        None \<Rightarrow> (Inl (FateEconomyError ''cannot invoke unknown aspect''), sh)
      | Some a \<Rightarrow>
          if mode \<notin> {''bonus'', ''reroll''} then (Inl (FateEconomyError ''invoked with unknown mode''), sh)
          else let bonus = (if mode = ''bonus'' then 2 else 0) in
            if free_invokes a > 0 then (Inr bonus, use_free_invoke t sh)
            else sthen spend_fate_point (ret bonus) sh)"

definition offer_compel :: "string \<Rightarrow> string \<Rightarrow> string \<Rightarrow> encounter option \<Rightarrow> encounter option" where
  "offer_compel asp actor why enc =
     (case enc of None \<Rightarrow> None | Some e \<Rightarrow> if resolved e then Some e else Some (snd (add_pending_compel actor asp why e)))"

definition accept_compel :: "(fate_sheet, int) sm" where
  "accept_compel = earn_fate_point"

definition refuse_compel :: "(fate_sheet, int) sm" where
  "refuse_compel = spend_fate_point"

definition mark_stress :: "string \<Rightarrow> int \<Rightarrow> (fate_sheet, int) sm" where
  "mark_stress track v sh =
     (case map_of (stress sh) track of
        None \<Rightarrow> (Inl (FateEconomyError ''no such stress track''), sh)
      | Some boxes \<Rightarrow>
          if \<not> list_ex (\<lambda>b. box_value b = v \<and> \<not> checked b) boxes then (Inl (FateEconomyError ''no unchecked box of that value''), sh)
          else (Inr v, sh\<lparr>stress := AList.update track
                 (map_first (\<lambda>b. box_value b = v \<and> \<not> checked b) (\<lambda>b. b\<lparr>checked := True\<rparr>) boxes) (stress sh)\<rparr>))"

definition take_consequence :: "string \<Rightarrow> string \<Rightarrow> (fate_sheet, int) sm" where
  "take_consequence lev t sh =
     (case find (\<lambda>c. cons_level c = lev) (consequences sh) of
        None \<Rightarrow> (Inl (FateEconomyError ''no such consequence slot''), sh)
      | Some c \<Rightarrow>
          if cons_aspect c \<noteq> None then (Inl (FateEconomyError ''consequence is already filled''), sh)
          else (Inr (cons_value c), sh\<lparr>consequences := map_first (\<lambda>c. cons_level c = lev)
                 (\<lambda>c. c\<lparr>cons_aspect := Some ((new_aspect t ConsequenceAspect)\<lparr>free_invokes := 1\<rparr>)\<rparr>) (consequences sh)\<rparr>))"

section \<open>Gear\<close>

record gear_def =
  gear_id :: string
  gear_name :: string
  grants_aspects :: "(string \<times> aspect_kind) list"
  grants_stunts :: "(string \<times> string) list"

definition REFRESH_FLOOR :: int where "REFRESH_FLOOR = 1"

record gear_result =
  compiled_ids :: "string list"
  aspects_placed :: nat
  stunts_added :: nat
  permission_aspects :: nat
  refresh_before :: int
  refresh_after :: int
  refresh_debited :: int

text \<open>A dict comprehension: a repeated key keeps its place and takes the last value.\<close>

definition dict_of :: "('k \<times> 'v) list \<Rightarrow> ('k \<times> 'v) list" where
  "dict_of kvs = fold (\<lambda>(k, v). AList.update k v) kvs []"

definition gear_by_id :: "gear_def list \<Rightarrow> string \<Rightarrow> gear_def option" where
  "gear_by_id defs = map_of (dict_of (map (\<lambda>g. (gear_id g, g)) defs))"

definition granted_aspects :: "gear_def \<Rightarrow> aspect list" where
  "granted_aspects g = map (\<lambda>(t, k). (new_aspect t k)\<lparr>source_gear := Some (gear_id g)\<rparr>) (grants_aspects g)"

definition granted_stunts :: "gear_def \<Rightarrow> stunt list" where
  "granted_stunts g = map (\<lambda>(n, d). \<lparr>stunt_name = n, stunt_description = d, stunt_gear = Some (gear_id g)\<rparr>) (grants_stunts g)"

definition resolve_gear :: "gear_def list \<Rightarrow> string list \<Rightarrow> gear_def list res" where
  "resolve_gear defs ids =
     rmap (\<lambda>i. case gear_by_id defs i of None \<Rightarrow> Inl (GearCompileError ''references unknown gear id'') | Some g \<Rightarrow> Inr g) ids"

definition compile_gear_onto_sheet :: "string list \<Rightarrow> gear_def list \<Rightarrow> int \<Rightarrow> int \<Rightarrow> (fate_sheet, gear_result) sm" where
  "compile_gear_onto_sheet ids defs base_refresh free_stunts sh =
     (case resolve_gear defs ids of
        Inl e \<Rightarrow> (Inl e, sh)
      | Inr gear \<Rightarrow>
          let new_asp = concat (map granted_aspects gear); new_stunts = concat (map granted_stunts gear);
              tot = int (length (stunts sh) + length new_stunts);
              after = max REFRESH_FLOOR (base_refresh - max 0 (tot - free_stunts))
          in (Inr \<lparr>compiled_ids = ids, aspects_placed = length new_asp, stunts_added = length new_stunts,
                   permission_aspects = length (filter (\<lambda>a. aspect_kind a = Permission) new_asp),
                   refresh_before = base_refresh, refresh_after = after, refresh_debited = base_refresh - after\<rparr>,
              sh\<lparr>aspects := aspects sh @ new_asp, stunts := stunts sh @ new_stunts, refresh := after, fate_points := after\<rparr>))"

text \<open>The genre's gear with the active world's on top; an absent world or one without gear changes nothing.\<close>

definition resolve_fate_gear_catalog :: "gear_def list \<Rightarrow> gear_def list option \<Rightarrow> gear_def list" where
  "resolve_fate_gear_catalog genre_gear world_gear =
     (case world_gear of None \<Rightarrow> genre_gear | Some [] \<Rightarrow> genre_gear
      | Some ws \<Rightarrow> map snd (dict_of (map (\<lambda>g. (gear_id g, g)) (genre_gear @ ws))))"

section \<open>Promotion of items gained in play\<close>

definition slugify :: "string \<Rightarrow> string" where
  "slugify n = map (\<lambda>c. if c = CHR '' '' \<or> c = CHR ''-'' then CHR ''_'' else c) (lower (strip n))"

text \<open>\<open>str.split()\<close> and \<open>' '.join\<close>: white space is trimmed and runs become one space.\<close>

fun squeeze :: "bool \<Rightarrow> string \<Rightarrow> string" where
  "squeeze gap [] = []"
| "squeeze gap (c # s) = (if is_space c then squeeze True s else (if gap then CHR '' '' # c # squeeze False s else c # squeeze False s))"

definition join_words :: "string \<Rightarrow> string" where
  "join_words s = squeeze False (dropWhile is_space s)"

definition match_gained_gear :: "string \<Rightarrow> string \<Rightarrow> gear_def list \<Rightarrow> gear_def option" where
  "match_gained_gear item_id item_name defs =
     (if defs = [] then None
      else
        let name = join_words item_name; stripped = strip item_id;
            raw = (if starts_with ''narrator:'' stripped then drop (length ''narrator:'') stripped else stripped);
            by_name = map_of (dict_of (map (\<lambda>g. (lower (strip (gear_name g)), g)) defs));
            m1 = (if raw \<noteq> [] then gear_by_id defs raw else None);
            m2 = (if m1 = None \<and> name \<noteq> [] then gear_by_id defs (slugify name) else m1)
        in if m2 = None \<and> name \<noteq> [] then by_name (lower name) else m2)"

record promotion_result =
  promoted :: bool
  aspects_added :: nat
  promotion_source :: string
  stunts_deferred :: nat
  deduped :: bool

definition promote_gained_item ::
  "string \<Rightarrow> string \<Rightarrow> gear_def list \<Rightarrow> string option \<Rightarrow> fate_sheet \<Rightarrow> promotion_result \<times> fate_sheet" where
  "promote_gained_item item_id item_name defs narrator_aspect sh =
     (if list_ex (\<lambda>a. source_gear a = Some item_id) (aspects sh) then
        (\<lparr>promoted = False, aspects_added = 0, promotion_source = [], stunts_deferred = 0, deduped = True\<rparr>, sh)
      else case match_gained_gear item_id item_name defs of
        None \<Rightarrow>
          let t = strip (case narrator_aspect of None \<Rightarrow> [] | Some x \<Rightarrow> x) in
          if t = [] then (\<lparr>promoted = False, aspects_added = 0, promotion_source = [], stunts_deferred = 0, deduped = False\<rparr>, sh)
          else (\<lparr>promoted = True, aspects_added = 1, promotion_source = ''narrator'', stunts_deferred = 0, deduped = False\<rparr>,
                sh\<lparr>aspects := aspects sh @ [(new_aspect t CharacterAspect)\<lparr>source_gear := Some item_id\<rparr>]\<rparr>)
      | Some g \<Rightarrow>
          let new_asp = map (\<lambda>(t, k). (new_aspect t k)\<lparr>source_gear := Some item_id\<rparr>) (grants_aspects g) in
          (\<lparr>promoted = new_asp \<noteq> [], aspects_added = length new_asp, promotion_source = ''catalog'',
             stunts_deferred = length (grants_stunts g), deduped = False\<rparr>,
           sh\<lparr>aspects := aspects sh @ new_asp\<rparr>))"

section \<open>Well-formed sheets and wear\<close>

definition sheet_ok :: "fate_sheet \<Rightarrow> bool" where
  "sheet_ok sh \<longleftrightarrow> 0 \<le> fate_points sh \<and> (\<forall>a \<in> set (aspects sh). 0 \<le> free_invokes a) \<and>
     (\<forall>t bs. map_of (stress sh) t = Some bs \<longrightarrow> (\<forall>b \<in> set bs. 0 < box_value b)) \<and>
     (\<forall>c \<in> set (consequences sh). 0 < cons_value c \<and> (\<forall>a. cons_aspect c = Some a \<longrightarrow> 0 \<le> free_invokes a)) \<and>
     distinct (map cons_level (consequences sh))"

text \<open>An aspect keeps its text; a checked box stays checked and a filled slot stays filled.\<close>

definition same_aspect :: "aspect \<Rightarrow> aspect \<Rightarrow> bool" where
  "same_aspect a b \<longleftrightarrow> aspect_text b = aspect_text a \<and> aspect_kind b = aspect_kind a \<and> source_gear b = source_gear a \<and> free_invokes b \<le> free_invokes a"

definition worn_box :: "stress_box \<Rightarrow> stress_box \<Rightarrow> bool" where
  "worn_box b b' \<longleftrightarrow> box_value b' = box_value b \<and> (checked b \<longrightarrow> checked b')"

definition worn_slot :: "consequence \<Rightarrow> consequence \<Rightarrow> bool" where
  "worn_slot c c' \<longleftrightarrow> cons_level c' = cons_level c \<and> cons_value c' = cons_value c \<and>
     (\<forall>a. cons_aspect c = Some a \<longrightarrow> (\<exists>a'. cons_aspect c' = Some a' \<and> same_aspect a a'))"

definition worn :: "fate_sheet \<Rightarrow> fate_sheet \<Rightarrow> bool" where
  "worn sh sh' \<longleftrightarrow> skills sh' = skills sh \<and> stunts sh' = stunts sh \<and> refresh sh' = refresh sh \<and>
     list_all2 same_aspect (aspects sh) (aspects sh') \<and> list_all2 worn_slot (consequences sh) (consequences sh') \<and>
     (\<forall>t. rel_option (list_all2 worn_box) (map_of (stress sh) t) (map_of (stress sh') t))"

lemma same_aspect_refl [simp]: "same_aspect a a" and worn_box_refl [simp]: "worn_box b b" and worn_slot_refl [simp]: "worn_slot c c"
  by (simp_all add: same_aspect_def worn_box_def worn_slot_def)

lemma worn_refl [simp]: "worn sh sh"
  by (auto simp: worn_def list_all2_same option.rel_refl)

lemma worn_trans:
  assumes "worn a b" and "worn b c"
  shows "worn a c"
proof -
  have s: "same_aspect x z" if "same_aspect x y" "same_aspect y z" for x y z using that by (auto simp: same_aspect_def)
  have t: "worn_slot x z" if "worn_slot x y" "worn_slot y z" for x y z
    using that s unfolding worn_slot_def by (metis (no_types, lifting))
  have b: "worn_box x z" if "worn_box x y" "worn_box y z" for x y z using that by (auto simp: worn_box_def)
  have "rel_option (list_all2 worn_box) (map_of (stress a) t) (map_of (stress c) t)" for t
  proof -
    have "rel_option (list_all2 worn_box) (map_of (stress a) t) (map_of (stress b) t)"
      "rel_option (list_all2 worn_box) (map_of (stress b) t) (map_of (stress c) t)" using assms by (auto simp: worn_def)
    then show ?thesis by (cases "map_of (stress a) t"; cases "map_of (stress b) t"; cases "map_of (stress c) t") (auto intro: list_all2_trans[OF b])
  qed
  moreover have "list_all2 same_aspect (aspects a) (aspects b)" "list_all2 same_aspect (aspects b) (aspects c)"
    "list_all2 worn_slot (consequences a) (consequences b)" "list_all2 worn_slot (consequences b) (consequences c)"
    using assms by (simp_all add: worn_def)
  note list_all2_trans[OF s this(1,2)] list_all2_trans[OF t this(3,4)]
  ultimately show ?thesis using assms by (simp add: worn_def)
qed

lemma map_first_all2: "(\<And>x. R x x) \<Longrightarrow> (\<And>x. find P xs = Some x \<Longrightarrow> R x (f x)) \<Longrightarrow> list_all2 R xs (map_first P f xs)"
  by (induction xs) (auto simp: list_all2_same split: if_splits)

lemma map_first_map: "(\<And>x. P x \<Longrightarrow> g (f x) = g x) \<Longrightarrow> map g (map_first P f xs) = map g xs"
  by (induction xs) auto

lemma map_first_set: "y \<in> set (map_first P f xs) \<Longrightarrow> y \<in> set xs \<or> (\<exists>x. find P xs = Some x \<and> x \<in> set xs \<and> P x \<and> y = f x)"
  by (induction xs) (auto split: if_splits)

lemma map_first_ball:
  assumes "\<forall>x \<in> set xs. Q x" and "\<And>x. find P xs = Some x \<Longrightarrow> x \<in> set xs \<Longrightarrow> P x \<Longrightarrow> Q x \<Longrightarrow> Q (f x)"
  shows "\<forall>x \<in> set (map_first P f xs). Q x"
  using assms map_first_set[of _ P f xs] by blast

lemma map_first_find: "find P xs = Some x \<Longrightarrow> P (f x) \<Longrightarrow> find P (map_first P f xs) = Some (f x)"
  by (induction xs) (auto split: if_splits)

lemma map_first_find_other: "(\<And>x. P x \<Longrightarrow> \<not> Q x \<and> \<not> Q (f x)) \<Longrightarrow> find Q (map_first P f xs) = find Q xs"
  by (induction xs) auto

lemma find_some: "find P xs = Some x \<Longrightarrow> x \<in> set xs \<and> P x"
  by (induction xs) (auto split: if_splits)

text \<open>Operations on a sheet keep it well-formed and only wear it.\<close>

abbreviation wear :: "fate_sheet \<Rightarrow> fate_sheet \<Rightarrow> bool" where
  "wear sh0 sh \<equiv> sheet_ok sh \<and> worn sh0 sh"

lemma wear_keeps: "(\<And>sh. sheet_ok sh \<Longrightarrow> wear sh (snd (m sh))) \<Longrightarrow> keeps (wear sh0) m"
  unfolding keeps_def using worn_trans by blast

lemma spend_wears [wp]: "keeps (wear sh0) spend_fate_point" and earn_wears [wp]: "keeps (wear sh0) earn_fate_point"
  by (rule wear_keeps; force simp: spend_fate_point_def earn_fate_point_def sheet_ok_def worn_def list_all2_same option.rel_refl)+

lemma mark_wears [wp]: "keeps (wear sh0) (mark_stress track v)"
proof (rule wear_keeps)
  fix sh
  assume ok: "sheet_ok sh"
  show "wear sh (snd (mark_stress track v sh))"
  proof (cases "map_of (stress sh) track")
    case (Some boxes)
    let ?new = "map_first (\<lambda>b. box_value b = v \<and> \<not> checked b) (\<lambda>b. b\<lparr>checked := True\<rparr>) boxes"
    have w: "list_all2 worn_box boxes ?new" by (rule map_first_all2) (auto simp: worn_box_def)
    have "\<forall>b \<in> set ?new. 0 < box_value b" by (rule map_first_ball) (use ok Some in \<open>auto simp: sheet_ok_def\<close>)
    then show ?thesis using ok Some w
      by (auto simp: mark_stress_def sheet_ok_def worn_def update_conv' list_all2_same option.rel_refl)
  qed (use ok in \<open>simp add: mark_stress_def\<close>)
qed

lemma take_wears [wp]: "keeps (wear sh0) (take_consequence lev t)"
proof (rule wear_keeps)
  fix sh
  assume ok: "sheet_ok sh"
  let ?f = "\<lambda>c. c\<lparr>cons_aspect := Some ((new_aspect t ConsequenceAspect)\<lparr>free_invokes := 1\<rparr>)\<rparr>"
  let ?P = "\<lambda>c. cons_level c = lev" and ?sh = "snd (take_consequence lev t sh)"
  show "wear sh ?sh"
  proof (cases "?sh = sh")
    case False
    then obtain c where c: "find ?P (consequences sh) = Some c" "cons_aspect c = None" and
      sh: "?sh = sh\<lparr>consequences := map_first ?P ?f (consequences sh)\<rparr>" by (auto simp: take_consequence_def split: option.splits if_splits)
    have l: "map cons_level (map_first ?P ?f (consequences sh)) = map cons_level (consequences sh)" by (rule map_first_map) simp
    have w: "list_all2 worn_slot (consequences sh) (map_first ?P ?f (consequences sh))"
      by (rule map_first_all2) (use c in \<open>auto simp: worn_slot_def\<close>)
    have "\<forall>c \<in> set (map_first ?P ?f (consequences sh)). 0 < cons_value c \<and> (\<forall>a. cons_aspect c = Some a \<longrightarrow> 0 \<le> free_invokes a)"
      by (rule map_first_ball) (use ok in \<open>auto simp: sheet_ok_def new_aspect_def\<close>)
    then show ?thesis unfolding sh using ok w l by (simp add: sheet_ok_def worn_def list_all2_same option.rel_refl)
  qed (use ok in simp)
qed

lemma find_append: "find P (xs @ ys) = (case find P xs of None \<Rightarrow> find P ys | Some x \<Rightarrow> Some x)"
  by (induction xs) auto

lemma find_map_filter:
  "(\<And>x. Q x \<longleftrightarrow> (case g x of None \<Rightarrow> False | Some y \<Rightarrow> P y)) \<Longrightarrow>
    find P (List.map_filter g xs) = (case find Q xs of None \<Rightarrow> None | Some x \<Rightarrow> g x)"
proof (induction xs)
  case (Cons x xs)
  then show ?case by (cases "g x") (simp_all add: map_filter_simps)
qed (simp add: map_filter_simps)

lemma find_list_ex: "list_ex P xs \<longleftrightarrow> find P xs \<noteq> None"
  by (induction xs) auto

lemma use_free_wears:
  assumes ok: "sheet_ok sh" and f: "find (\<lambda>a. aspect_text a = t) (all_aspects sh) = Some a" and p: "0 < free_invokes a"
  shows "wear sh (use_free_invoke t sh)"
proof -
  let ?used = "\<lambda>a. a\<lparr>free_invokes := free_invokes a - 1\<rparr>" and ?P = "\<lambda>a. aspect_text a = t"
  have u: "same_aspect b (?used b)" for b by (simp add: same_aspect_def)
  show ?thesis
  proof (cases "find ?P (aspects sh)")
    case (Some b)
    then have b: "b = a" using f by (simp add: all_aspects_def find_append)
    have "list_all2 same_aspect (aspects sh) (map_first ?P ?used (aspects sh))" by (rule map_first_all2) (use u in auto)
    moreover have "\<forall>a \<in> set (map_first ?P ?used (aspects sh)). 0 \<le> free_invokes a"
      by (rule map_first_ball) (use ok p b Some in \<open>auto simp: sheet_ok_def\<close>)
    ultimately show ?thesis using ok Some
      by (simp add: use_free_invoke_def find_list_ex sheet_ok_def worn_def list_all2_same option.rel_refl)
  next
    case None
    let ?Q = "\<lambda>c. map_option aspect_text (cons_aspect c) = Some t" and ?f = "\<lambda>c. c\<lparr>cons_aspect := map_option ?used (cons_aspect c)\<rparr>"
    have "find ?P (List.map_filter cons_aspect (consequences sh)) = (case find ?Q (consequences sh) of None \<Rightarrow> None | Some x \<Rightarrow> cons_aspect x)"
      by (rule find_map_filter) (simp split: option.splits)
    then have c: "find ?Q (consequences sh) = Some c \<Longrightarrow> cons_aspect c = Some a" for c
      using f None by (simp add: all_aspects_def find_append)
    have l: "map cons_level (map_first ?Q ?f (consequences sh)) = map cons_level (consequences sh)" by (rule map_first_map) simp
    have "list_all2 worn_slot (consequences sh) (map_first ?Q ?f (consequences sh))"
      by (rule map_first_all2) (use u in \<open>auto simp: worn_slot_def\<close>)
    moreover have "\<forall>c \<in> set (map_first ?Q ?f (consequences sh)). 0 < cons_value c \<and> (\<forall>a. cons_aspect c = Some a \<longrightarrow> 0 \<le> free_invokes a)"
      by (rule map_first_ball) (use ok p c in \<open>auto simp: sheet_ok_def\<close>)
    ultimately show ?thesis using ok None l
      by (simp add: use_free_invoke_def find_list_ex sheet_ok_def worn_def list_all2_same option.rel_refl Let_def)
  qed
qed

lemma invoke_wears [wp]: "keeps (wear sh0) (invoke_aspect t mode)"
proof (rule wear_keeps)
  fix sh
  assume ok: "sheet_ok sh"
  have "wear sh (snd (sthen spend_fate_point (ret x) sh))" for x :: int
    using keeps_sthen[OF spend_wears keeps_ret, of sh x] ok by (simp add: keeps_def)
  then show "wear sh (snd (invoke_aspect t mode sh))"
    using use_free_wears[OF ok] ok by (auto simp: invoke_aspect_def Let_def split: option.splits)
qed

end
