(* ===== verification/Fate_Conflict.thy ===== *)
theory Fate_Conflict
  imports Fate Tactical_Zones
begin

text \<open>
  Fate conflicts (src/sidequest/server/dispatch/fate_conflict.py, game/fate_opponent.py, the Fate records of
  game/encounter.py): sealing one action each, the barrier, the opponents' decisions, the defenses of player
  characters, and the walk that resolves an exchange. The state is the scene, the names of the player
  characters, the sheets of the creatures and the tape of the generator. As for hit points, a creature is
  reached through a resolver from names to positions of the store of sheets.
\<close>

section \<open>The state\<close>

datatype fate_action = Overcome | CreateAdvantage | Attack

record sealed_commit =
  cm_actor :: string
  cm_action :: fate_action
  cm_skill :: string
  cm_target :: "string option"
  cm_difficulty :: int
  cm_total :: int
  cm_dice :: "int list"
  cm_aspect :: string

record pending_defense =
  pd_request :: string
  pd_attacker :: string
  pd_defender :: string
  pd_attack_skill :: string
  pd_attack_total :: int
  pd_mental :: bool
  pd_total :: "int option"
  pd_conceded :: bool
  pd_skill :: string

record contest_state =
  contest_target :: int
  player_victories :: int
  opponent_victories :: int

record exchange_line =
  line_actor :: string
  line_action :: fate_action
  line_skill :: string
  line_target :: string
  line_defense_skill :: string
  line_actor_total :: int
  line_opposition :: int
  line_shifts :: int
  line_outcome :: string
  line_detail :: string

record fate_scene =
  base_enc :: encounter
  scene_category :: string
  fate_commits :: "sealed_commit list"
  pending_defenses :: "pending_defense list"
  contest :: "contest_state option"
  situation_aspects :: "aspect list"
  scene_zones :: "string list"
  resolution_log :: "exchange_line list"
  narrator_hints :: "string list"

record fate_world =
  in_encounter :: bool
  scene :: fate_scene
  pc_names :: "string list"
  sheets :: "(string \<times> fate_sheet option) list"
  tape :: rng

definition on_scene :: "(fate_scene \<Rightarrow> fate_scene) \<Rightarrow> (fate_world, unit) sm" where
  "on_scene f = modify (\<lambda>w. w\<lparr>scene := f (scene w)\<rparr>)"

definition on_tape :: "(rng, 'a) sm \<Rightarrow> (fate_world, 'a) sm" where
  "on_tape m w = (let (r, t) = m (tape w) in (r, w\<lparr>tape := t\<rparr>))"

definition sheet_of :: "edge_resolver \<Rightarrow> fate_world \<Rightarrow> string \<Rightarrow> fate_sheet option" where
  "sheet_of res w n = (case res n of None \<Rightarrow> None | Some i \<Rightarrow> (case map_of (sheets w) i of None \<Rightarrow> None | Some s \<Rightarrow> s))"

text \<open>An operation on the sheet a name leads to; without a sheet it raises.\<close>

definition on_sheet :: "edge_resolver \<Rightarrow> string \<Rightarrow> py_error \<Rightarrow> (fate_sheet, 'a) sm \<Rightarrow> (fate_world, 'a) sm" where
  "on_sheet res n err m w =
     (case sheet_of res w n of
        None \<Rightarrow> (Inl err, w)
      | Some sh \<Rightarrow> let (r, sh') = m sh in (r, w\<lparr>sheets := AList.update (the (res n)) (Some sh') (sheets w)\<rparr>))"

definition skill_rating :: "edge_resolver \<Rightarrow> fate_world \<Rightarrow> string \<Rightarrow> string \<Rightarrow> int" where
  "skill_rating res w n s = (case sheet_of res w n of None \<Rightarrow> 0 | Some sh \<Rightarrow> dict_get (skills sh) s 0)"

definition seated :: "string \<Rightarrow> fate_world \<Rightarrow> encounter_actor option" where
  "seated n w = find_actor n (base_enc (scene w))"

definition is_resolved :: "fate_world \<Rightarrow> bool" where
  "is_resolved w = resolved (base_enc (scene w))"

definition withdraw :: "string \<Rightarrow> fate_scene \<Rightarrow> fate_scene" where
  "withdraw n sc = sc\<lparr>base_enc := (base_enc sc)\<lparr>actors := map_first (\<lambda>a. actor_name a = n) (\<lambda>a. a\<lparr>withdrawn := True\<rparr>) (actors (base_enc sc))\<rparr>\<rparr>"

definition log_line :: "exchange_line \<Rightarrow> fate_scene \<Rightarrow> fate_scene" where
  "log_line l sc = sc\<lparr>resolution_log := resolution_log sc @ [l]\<rparr>"

definition add_situation :: "string \<Rightarrow> aspect_kind \<Rightarrow> int \<Rightarrow> fate_scene \<Rightarrow> fate_scene" where
  "add_situation t k n sc = sc\<lparr>situation_aspects := situation_aspects sc @ [(new_aspect t k)\<lparr>free_invokes := n\<rparr>]\<rparr>"

definition is_mental :: "fate_world \<Rightarrow> bool" where
  "is_mental w = (scene_category (scene w) = ''social'')"

definition track_of :: "bool \<Rightarrow> string" where
  "track_of mental = (if mental then ''mental'' else ''physical'')"

definition DEFENSE_SKILL :: "bool \<Rightarrow> string" where
  "DEFENSE_SKILL mental = (if mental then ''Will'' else ''Athletics'')"

definition ORDER_SKILL :: "bool \<Rightarrow> string" where
  "ORDER_SKILL mental = (if mental then ''Empathy'' else ''Notice'')"

section \<open>Sealing, the barrier and the order\<close>

definition seal_fate_commit :: "sealed_commit \<Rightarrow> (fate_world, unit) sm" where
  "seal_fate_commit c w =
     (if cm_actor c \<in> cm_actor ` set (fate_commits (scene w)) then (Inl (FateConflictError ''has already committed an action this exchange''), w)
      else on_scene (\<lambda>sc. sc\<lparr>fate_commits := fate_commits sc @ [c]\<rparr>) w)"

definition fate_waiting_actors :: "fate_world \<Rightarrow> string list" where
  "fate_waiting_actors w =
     map actor_name (filter (\<lambda>a. side a = Player \<and> \<not> withdrawn a \<and> actor_name a \<notin> cm_actor ` set (fate_commits (scene w)) \<and>
       actor_name a \<in> set (pc_names w)) (actors (base_enc (scene w))))"

definition fate_barrier_closed :: "fate_world \<Rightarrow> bool" where
  "fate_barrier_closed w = (fate_waiting_actors w = [])"

definition fate_turn_order :: "edge_resolver \<Rightarrow> bool \<Rightarrow> fate_world \<Rightarrow> string list" where
  "fate_turn_order res mental w =
     map actor_name (sort_key (\<lambda>a. - skill_rating res w (actor_name a) (ORDER_SKILL mental))
       (filter (\<lambda>a. \<not> withdrawn a \<and> side a \<in> {Player, Opponent}) (actors (base_enc (scene w)))))"

section \<open>Absorbing a hit\<close>

definition upper_char :: "char \<Rightarrow> char" where
  "upper_char c = (let n = of_char c :: nat in if 97 \<le> n \<and> n \<le> 122 then char_of (n - 32) else c)"

fun title_word :: "string \<Rightarrow> string" where
  "title_word [] = []"
| "title_word (c # s) = upper_char c # lower s"

fun absorb_slots :: "string \<Rightarrow> consequence list \<Rightarrow> int \<Rightarrow> (fate_sheet, int) sm" where
  "absorb_slots src [] left = ret left"
| "absorb_slots src (c # cs) left =
     (if left \<le> 0 then ret left
      else sthen (take_consequence (cons_level c) (title_word (cons_level c) @ '' consequence inflicted by '' @ src))
             (absorb_slots src cs (max 0 (left - cons_value c))))"

text \<open>The smallest free box that covers the whole hit, else the largest free one.\<close>

definition chosen_box :: "stress_box list \<Rightarrow> int \<Rightarrow> stress_box option" where
  "chosen_box boxes shifts =
     (let free = filter (\<lambda>b. \<not> checked b) boxes in
      case filter (\<lambda>b. box_value b \<ge> shifts) free of
        b # bs \<Rightarrow> Some (min_key box_value b bs)
      | [] \<Rightarrow> (case free of [] \<Rightarrow> None | b # bs \<Rightarrow> Some (max_key box_value b bs)))"

definition open_slots :: "fate_sheet \<Rightarrow> consequence list" where
  "open_slots sh = sort_key cons_value (filter (\<lambda>c. cons_aspect c = None) (consequences sh))"

definition absorb_shifts :: "string \<Rightarrow> int \<Rightarrow> string \<Rightarrow> (fate_sheet, bool) sm" where
  "absorb_shifts track shifts src sh =
     (if shifts \<le> 0 then (Inl (FateConflictError ''absorb_shifts requires shifts >= 1''), sh)
      else case map_of (stress sh) track of
        None \<Rightarrow> (Inl (FateConflictError ''no such stress track''), sh)
      | Some boxes \<Rightarrow>
          sbind (case chosen_box boxes shifts of
                   None \<Rightarrow> ret shifts
                 | Some b \<Rightarrow> sthen (mark_stress track (box_value b)) (ret (max 0 (shifts - box_value b))))
            (\<lambda>left. sbind (absorb_slots src (open_slots sh) left) (\<lambda>rest. ret (rest \<le> 0))) sh)"

section \<open>The opponents\<close>

definition roll_defense :: "edge_resolver \<Rightarrow> string \<Rightarrow> bool \<Rightarrow> (fate_world, int) sm" where
  "roll_defense res who mental w =
     sbind (on_tape (resolve_action (skill_rating res w who (DEFENSE_SKILL mental)) 0 0)) (\<lambda>o'. ret (ladder_total o')) w"

definition maybe_resolve_side_cleared :: "fate_scene \<Rightarrow> fate_scene" where
  "maybe_resolve_side_cleared sc =
     (let e = base_enc sc; out = (\<lambda>s. \<exists>a \<in> set (actors e). side a = s) ; gone = (\<lambda>s. \<forall>a \<in> set (actors e). side a = s \<longrightarrow> withdrawn a) in
      if resolved e then sc
      else if out Opponent \<and> gone Opponent then sc\<lparr>base_enc := resolve_with ''opponent_yielded'' e\<rparr>
      else if out Player \<and> gone Player then sc\<lparr>base_enc := resolve_with ''yielded'' e\<rparr>
      else sc)"

definition ATTACK_SKILLS :: "bool \<Rightarrow> string list" where
  "ATTACK_SKILLS mental = (if mental then [''Provoke''] else [''Fight'', ''Shoot''])"

definition is_wounded :: "fate_sheet \<Rightarrow> bool \<Rightarrow> bool" where
  "is_wounded sh mental \<longleftrightarrow> list_ex (\<lambda>c. cons_aspect c \<noteq> None) (consequences sh) \<or>
     (case map_of (stress sh) (track_of mental) of None \<Rightarrow> False | Some boxes \<Rightarrow> list_ex checked boxes)"

definition live_player_actors :: "fate_world \<Rightarrow> string list" where
  "live_player_actors w = map actor_name (filter (\<lambda>a. side a = Player \<and> \<not> withdrawn a) (actors (base_enc (scene w))))"

definition select_target :: "edge_resolver \<Rightarrow> string \<Rightarrow> bool \<Rightarrow> fate_world \<Rightarrow> string option" where
  "select_target res opp mental w =
     (let live = live_player_actors w;
          threat = (\<lambda>n. skill_rating res w n (hd (ATTACK_SKILLS mental)))
      in case live of [] \<Rightarrow> None
       | n # ns \<Rightarrow>
           (case find (\<lambda>n. case sheet_of res w n of None \<Rightarrow> False | Some sh \<Rightarrow> is_wounded sh mental) live of
              Some n \<Rightarrow> Some n
            | None \<Rightarrow>
                (case find (\<lambda>c. cm_action c = Attack \<and> cm_target c = Some opp \<and> cm_actor c \<in> set live) (fate_commits (scene w)) of
                   Some c \<Rightarrow> Some (cm_actor c)
                 | None \<Rightarrow> Some (snd (fold (\<lambda>n (r, best). if threat n > r then (threat n, n) else (r, best)) live (-1, n))))))"

definition select_skill :: "fate_sheet \<Rightarrow> bool \<Rightarrow> string" where
  "select_skill sh mental =
     snd (fold (\<lambda>s (r, best). let x = dict_get (skills sh) s 0 in if x > r then (x, s) else (r, best)) (ATTACK_SKILLS mental) (-1, hd (ATTACK_SKILLS mental)))"

text \<open>The attack an opponent makes: its target and its skill; none when no player is left.\<close>

definition decide_opponent_action :: "edge_resolver \<Rightarrow> string \<Rightarrow> bool \<Rightarrow> fate_world \<Rightarrow> (string \<times> string) option res" where
  "decide_opponent_action res opp mental w =
     (case sheet_of res w opp of
        None \<Rightarrow> Inl (ValueError ''Fate opponent is seated but has no fate_sheet'')
      | Some sh \<Rightarrow> Inr (map_option (\<lambda>t. (t, select_skill sh mental)) (select_target res opp mental w)))"

definition seat_opponent :: "edge_resolver \<Rightarrow> bool \<Rightarrow> string \<Rightarrow> (fate_world, unit) sm" where
  "seat_opponent res mental opp w =
     (case decide_opponent_action res opp mental w of
        Inl e \<Rightarrow> (Inl e, w)
      | Inr None \<Rightarrow> (Inr (), w)
      | Inr (Some (t, s)) \<Rightarrow>
          sbind (on_tape (resolve_action (skill_rating res w opp s) 0 0)) (\<lambda>o'.
            seal_fate_commit \<lparr>cm_actor = opp, cm_action = Attack, cm_skill = s, cm_target = Some t, cm_difficulty = 0,
              cm_total = ladder_total o', cm_dice = fo_dice o', cm_aspect = []\<rparr>) w)"

text \<open>The actors that had committed when the seating began are left alone.\<close>

definition seat_opponent_commits :: "edge_resolver \<Rightarrow> bool \<Rightarrow> (fate_world, unit) sm" where
  "seat_opponent_commits res mental w =
     (let done = cm_actor ` set (fate_commits (scene w));
          opps = filter (\<lambda>a. side a = Opponent \<and> \<not> withdrawn a) (actors (base_enc (scene w)))
      in sforeach (\<lambda>n. if n \<in> done then ret () else seat_opponent res mental n) (map actor_name opps) w)"

section \<open>The defenses of player characters\<close>

record defend_request =
  dr_request :: string
  dr_defender :: string
  dr_attacker :: string
  dr_attack_skill :: string
  dr_attack_total :: int
  dr_mental :: bool

definition request_of :: "pending_defense \<Rightarrow> defend_request" where
  "request_of p = \<lparr>dr_request = pd_request p, dr_defender = pd_defender p, dr_attacker = pd_attacker p, dr_attack_skill = pd_attack_skill p,
     dr_attack_total = pd_attack_total p, dr_mental = pd_mental p\<rparr>"

definition parks :: "fate_world \<Rightarrow> sealed_commit \<Rightarrow> bool" where
  "parks w c \<longleftrightarrow> cm_action c = Attack \<and>
     (case cm_target c of None \<Rightarrow> False
      | Some t \<Rightarrow> t \<in> set (pc_names w) \<and> (case seated t w of None \<Rightarrow> False | Some a \<Rightarrow> \<not> withdrawn a))"

definition pending_for :: "int \<Rightarrow> bool \<Rightarrow> sealed_commit \<Rightarrow> pending_defense" where
  "pending_for rno mental c =
     (let t = (case cm_target c of None \<Rightarrow> [] | Some t \<Rightarrow> t) in
      \<lparr>pd_request = ''def:'' @ show_int rno @ '':'' @ cm_actor c @ ''->'' @ t, pd_attacker = cm_actor c, pd_defender = t,
       pd_attack_skill = cm_skill c, pd_attack_total = cm_total c, pd_mental = mental, pd_total = None, pd_conceded = False, pd_skill = []\<rparr>)"

definition build_pending_defenses :: "int \<Rightarrow> (fate_world, defend_request list) sm" where
  "build_pending_defenses rno w =
     (let ps = map (pending_for rno (is_mental w)) (filter (parks w) (fate_commits (scene w)))
      in (Inr (map request_of ps), w\<lparr>scene := (scene w)\<lparr>pending_defenses := pending_defenses (scene w) @ ps\<rparr>\<rparr>))"

section \<open>Resolving one action\<close>

definition attack_line :: "sealed_commit \<Rightarrow> string \<Rightarrow> int \<Rightarrow> int \<Rightarrow> string \<Rightarrow> string \<Rightarrow> exchange_line" where
  "attack_line c dskill d s out detail =
     \<lparr>line_actor = cm_actor c, line_action = Attack, line_skill = cm_skill c, line_target = (case cm_target c of None \<Rightarrow> [] | Some t \<Rightarrow> t),
      line_defense_skill = dskill, line_actor_total = cm_total c, line_opposition = d, line_shifts = s, line_outcome = out, line_detail = detail\<rparr>"

definition plural :: "int \<Rightarrow> string" where
  "plural n = (if n \<noteq> 1 then ''s'' else [])"

text \<open>An attack against a known defense: it misses, ties, is absorbed, or takes the target out.\<close>

definition strike :: "edge_resolver \<Rightarrow> sealed_commit \<Rightarrow> string \<Rightarrow> bool \<Rightarrow> int \<Rightarrow> string \<Rightarrow> (fate_world, string list) sm" where
  "strike res c t mental d dskill =
     (let s = cm_total c - d; line = attack_line c dskill d s in
      if s = 0 then
        sthen (on_scene (\<lambda>sc. log_line (line ''tie'' (''no harm -- '' @ t @ '' gains a boost'')) (add_situation (''Momentum vs '' @ cm_actor c) Boost 1 sc)))
          (ret [cm_actor c @ [CHR 0x27] @ ''s attack on '' @ t @ '' tied -- '' @ t @ '' gains a boost (Momentum vs '' @ cm_actor c @ '').''])
      else if s < 0 then
        sthen (on_scene (log_line (line ''miss'' ''no harm''))) (ret [cm_actor c @ [CHR 0x27] @ ''s attack on '' @ t @ '' missed (shifts='' @ show_int s @ '').''])
      else
        sbind (on_sheet res t (FateConflictError ''has no Fate sheet to defend with'') (absorb_shifts (track_of mental) s (cm_actor c))) (\<lambda>survived.
          if survived then
            sthen (on_scene (log_line (line ''absorbed'' (''absorbed ('' @ show_int s @ '' shift'' @ plural s @ '')''))))
              (ret [t @ '' absorbs '' @ cm_actor c @ [CHR 0x27] @ ''s '' @ show_int s @ ''-shift hit (stress/consequences).''])
          else (\<lambda>w.
            case seated t w of
              None \<Rightarrow> (Inl (FateConflictError ''attack target is not seated in this encounter''), w)
            | Some _ \<Rightarrow>
                sthen (on_scene (\<lambda>sc. maybe_resolve_side_cleared (log_line (line ''taken_out'' (t @ '' taken out'')) (withdraw t sc))))
                  (ret [t @ '' is TAKEN OUT by '' @ cm_actor c @ '' ('' @ show_int s @ '' unabsorbed shifts).'']) w)))"

definition resolve_attack :: "edge_resolver \<Rightarrow> bool \<Rightarrow> (string \<rightharpoonup> pending_defense) \<Rightarrow> sealed_commit \<Rightarrow> (fate_world, string list) sm" where
  "resolve_attack res mental recorded c w =
     (case cm_target c of
        None \<Rightarrow> (Inl (FateConflictError ''an attack must name a target''), w)
      | Some t \<Rightarrow>
          (case sheet_of res w t of
             None \<Rightarrow> (Inl (FateConflictError ''attack target has no Fate sheet to defend with''), w)
           | Some sh \<Rightarrow>
               (case recorded t of
                  Some p \<Rightarrow>
                    if pd_conceded p then
                      sthen (on_scene (\<lambda>sc. maybe_resolve_side_cleared (log_line (attack_line c [] 0 0 ''conceded'' (t @ '' concedes'')) (withdraw t sc))))
                        (ret [t @ '' concedes to '' @ cm_actor c @ '' (fold at defend).'']) w
                    else (case pd_total p of
                            Some d \<Rightarrow> strike res c t mental d (pd_skill p) w
                          | None \<Rightarrow> (Inl (FateConflictError ''resolve reached an unfilled PC defense''), w))
                | None \<Rightarrow> sbind (roll_defense res t mental) (\<lambda>d. strike res c t mental d (DEFENSE_SKILL mental)) w)))"

definition opposition_total :: "edge_resolver \<Rightarrow> bool \<Rightarrow> sealed_commit \<Rightarrow> (fate_world, int) sm" where
  "opposition_total res mental c =
     (case cm_target c of Some t \<Rightarrow> roll_defense res t mental | None \<Rightarrow> ret (cm_difficulty c))"

definition action_line :: "sealed_commit \<Rightarrow> bool \<Rightarrow> int \<Rightarrow> string \<Rightarrow> string \<Rightarrow> exchange_line" where
  "action_line c mental d out detail =
     \<lparr>line_actor = cm_actor c, line_action = cm_action c, line_skill = cm_skill c, line_target = (case cm_target c of None \<Rightarrow> [] | Some t \<Rightarrow> t),
      line_defense_skill = (if cm_target c \<noteq> None then DEFENSE_SKILL mental else []), line_actor_total = cm_total c, line_opposition = d,
      line_shifts = cm_total c - d, line_outcome = out, line_detail = detail\<rparr>"

definition or_else :: "string \<Rightarrow> string \<Rightarrow> string" where
  "or_else a b = (if a = [] then b else a)"

definition advantage_hint :: "sealed_commit \<Rightarrow> string \<Rightarrow> int \<Rightarrow> string" where
  "advantage_hint c t n = cm_actor c @ '' created an advantage: '' @ sanitize_player_text t @ '' ('' @ show_int n @ '' free invoke(s)).''"

definition resolve_create_advantage :: "edge_resolver \<Rightarrow> bool \<Rightarrow> sealed_commit \<Rightarrow> (fate_world, string list) sm" where
  "resolve_create_advantage res mental c =
     sbind (opposition_total res mental c) (\<lambda>d.
       let s = cm_total c - d in
       if s \<ge> 1 then
         let free = (if s \<ge> 3 then 2 else 1); t = or_else (cm_aspect c) (''Advantage by '' @ cm_actor c) in
         sthen (on_scene (\<lambda>sc. log_line (action_line c mental d ''advantage'' (''advantage created ('' @ show_int free @ '' free invoke(s))''))
                  (add_situation t SituationAspect free sc))) (ret [advantage_hint c t free])
       else if s = 0 then
         let t = or_else (cm_aspect c) (''Fleeting Opening by '' @ cm_actor c) in
         sthen (on_scene (\<lambda>sc. log_line (action_line c mental d ''boost'' ''fleeting boost (1 free invoke)'') (add_situation t Boost 1 sc)))
           (ret [advantage_hint c t 1])
       else sthen (on_scene (log_line (action_line c mental d ''fail'' ''no advantage''))) (ret [cm_actor c @ [CHR 0x27] @ ''s create-advantage failed (shifts='' @ show_int s @ '').'']))"

definition resolve_overcome :: "edge_resolver \<Rightarrow> bool \<Rightarrow> sealed_commit \<Rightarrow> (fate_world, string list) sm" where
  "resolve_overcome res mental c =
     sbind (opposition_total res mental c) (\<lambda>d.
       let s = cm_total c - d;
           (out, detail, hint) =
             (if s \<ge> 1 then (''overcome'', ''overcame the obstacle'', '' overcomes the obstacle (shifts='' @ show_int s @ '').'')
              else if s = 0 then (''cost'', ''overcame at a minor cost'', '' overcomes at a minor cost (tie).'')
              else (''fail'', ''failed to overcome'', '' fails to overcome (shifts='' @ show_int s @ '').''))
       in sthen (on_scene (log_line (action_line c mental d out detail))) (ret [cm_actor c @ hint]))"

section \<open>The exchange\<close>

text \<open>A dict keyed by a field: of two entries with one key the later counts.\<close>

definition last_by :: "('a \<Rightarrow> string) \<Rightarrow> 'a list \<Rightarrow> (string \<rightharpoonup> 'a)" where
  "last_by key xs = map_of (rev (map (\<lambda>x. (key x, x)) xs))"

definition resolve_slot ::
  "edge_resolver \<Rightarrow> bool \<Rightarrow> (string \<rightharpoonup> pending_defense) \<Rightarrow> (string \<rightharpoonup> sealed_commit) \<Rightarrow> string \<Rightarrow> (fate_world, string list) sm" where
  "resolve_slot res mental recorded commits n w =
     (case (seated n w, commits n) of
        (Some a, Some c) \<Rightarrow>
          if withdrawn a \<or> is_resolved w then (Inr [], w)
          else (case cm_action c of
                  Attack \<Rightarrow> resolve_attack res mental recorded c w
                | CreateAdvantage \<Rightarrow> resolve_create_advantage res mental c w
                | Overcome \<Rightarrow> resolve_overcome res mental c w)
      | _ \<Rightarrow> (Inr [], w))"

record exchange_result =
  resolution_order :: "string list"
  ex_resolved :: bool
  ex_hints :: "string list"

definition walk_exchange :: "edge_resolver \<Rightarrow> bool \<Rightarrow> (fate_world, exchange_result) sm" where
  "walk_exchange res mental w =
     (let order = fate_turn_order res mental w;
          commits = last_by cm_actor (fate_commits (scene w)); recorded = last_by pd_defender (pending_defenses (scene w))
      in sbind (smap (resolve_slot res mental recorded commits) order) (\<lambda>hs.
           sthen (on_scene (\<lambda>sc. sc\<lparr>fate_commits := [], narrator_hints := narrator_hints sc @ concat hs\<rparr>))
             (\<lambda>w. (Inr \<lparr>resolution_order = order, ex_resolved = is_resolved w, ex_hints = concat hs\<rparr>, w))) w)"

definition run_fate_exchange :: "edge_resolver \<Rightarrow> (fate_world, exchange_result) sm" where
  "run_fate_exchange res w =
     (let mental = is_mental w in
      sthen (on_scene (\<lambda>sc. sc\<lparr>resolution_log := []\<rparr>)) (sthen (seat_opponent_commits res mental) (walk_exchange res mental)) w)"

definition resume_fate_exchange :: "edge_resolver \<Rightarrow> (fate_world, exchange_result) sm" where
  "resume_fate_exchange res =
     sbind (run_fate_exchange res) (\<lambda>r. sthen (on_scene (\<lambda>sc. sc\<lparr>pending_defenses := []\<rparr>)) (ret r))"

definition answered :: "pending_defense \<Rightarrow> bool" where
  "answered p \<longleftrightarrow> pd_total p \<noteq> None \<or> pd_conceded p"

definition orphaned :: "fate_world \<Rightarrow> pending_defense \<Rightarrow> bool" where
  "orphaned w p \<longleftrightarrow> \<not> answered p \<and>
     \<not> (pd_defender p \<in> set (pc_names w) \<and> (case seated (pd_defender p) w of None \<Rightarrow> False | Some a \<Rightarrow> \<not> withdrawn a))"

definition clear_orphaned_pending_defenses :: "fate_world \<Rightarrow> pending_defense list \<times> fate_world" where
  "clear_orphaned_pending_defenses w =
     (let ps = pending_defenses (scene w); gone = (\<lambda>p. p\<lparr>pd_conceded := True\<rparr>) in
      (map gone (filter (orphaned w) ps),
       w\<lparr>scene := (scene w)\<lparr>pending_defenses := map (\<lambda>p. if orphaned w p then gone p else p) ps\<rparr>\<rparr>))"

end
