(* ===== verification/Fate_Dispatch.thy ===== *)
theory Fate_Dispatch
  imports Fate_Conflict
begin

text \<open>
  The entry points of the Fate engine (src/sidequest/server/dispatch/fate_conflict.py and fate_contest.py,
  handlers/fate_action.py and fate_throw.py, the zone methods of game/ruleset/fate.py,
  game/ruleset/fate_projection.py): conceding, compels, the dispatch of an action and of a defense, the
  contest engine, what the handlers do with the results, and what the players are shown.
\<close>

section \<open>Conceding and compels\<close>

definition on_enc :: "(encounter \<Rightarrow> encounter) \<Rightarrow> (fate_world, unit) sm" where
  "on_enc f = on_scene (\<lambda>sc. sc\<lparr>base_enc := f (base_enc sc)\<rparr>)"

definition filled_slots :: "fate_sheet \<Rightarrow> nat" where
  "filled_slots sh = length (filter (\<lambda>c. cons_aspect c \<noteq> None) (consequences sh))"

definition concede_in_conflict :: "edge_resolver \<Rightarrow> string \<Rightarrow> (fate_world, int) sm" where
  "concede_in_conflict res actor w =
     (case sheet_of res w actor of
        None \<Rightarrow> (Inl (FateConflictError ''has no Fate sheet to concede with''), w)
      | Some sh \<Rightarrow>
          (case seated actor w of
             None \<Rightarrow> (Inl (FateConflictError ''is not seated in this encounter -- cannot concede''), w)
           | Some _ \<Rightarrow>
               let earned = 1 + filled_slots sh in
               sthen (on_sheet res actor (FateConflictError ''has no Fate sheet to concede with'') (smap (\<lambda>_. earn_fate_point) [0 ..< earned]))
                 (sthen (on_scene (\<lambda>sc. maybe_resolve_side_cleared (withdraw actor sc))) (ret (int earned))) w))"

definition resolve_compel :: "edge_resolver \<Rightarrow> bool \<Rightarrow> string \<Rightarrow> string \<Rightarrow> (fate_world, int) sm" where
  "resolve_compel res accept asp actor w =
     (case find_pending_compel actor asp (base_enc (scene w)) of
        None \<Rightarrow> (Inl (FateConflictError ''a compel must be offered before it can be resolved''), w)
      | Some c \<Rightarrow>
          (case sheet_of res w actor of
             None \<Rightarrow> (Inl (FateConflictError ''has no Fate sheet to resolve a compel with''), w)
           | Some sh \<Rightarrow>
               sbind (on_sheet res actor (FateConflictError ''has no Fate sheet to resolve a compel with'') (if accept then accept_compel else refuse_compel)) (\<lambda>points.
                 sthen (\<lambda>w. case remove_pending_compel c (base_enc (scene w)) of (r, e) \<Rightarrow> (r, w\<lparr>scene := (scene w)\<lparr>base_enc := e\<rparr>\<rparr>))
                   (ret (points - fate_points sh))) w))"

section \<open>Contests\<close>

record contest_result =
  cr_order :: "string list"
  cr_resolved :: bool
  cr_player :: int
  cr_opponent :: int
  cr_hints :: "string list"

definition best_of :: "actor_side \<Rightarrow> fate_world \<Rightarrow> (string \<times> int) option" where
  "best_of s w =
     fold (\<lambda>c best. case seated (cm_actor c) w of
             None \<Rightarrow> best
           | Some a \<Rightarrow> if side a \<noteq> s then best
                      else (case best of None \<Rightarrow> Some (cm_actor c, cm_total c)
                            | Some (n, t) \<Rightarrow> if cm_total c > t then Some (cm_actor c, cm_total c) else Some (n, t)))
       (fate_commits (scene w)) None"

definition victory_delta :: "int \<Rightarrow> int" where
  "victory_delta margin = (if margin \<ge> 3 then 2 else 1)"

definition score_contest :: "(string \<times> int) option \<Rightarrow> (string \<times> int) option \<Rightarrow> contest_state \<Rightarrow> contest_state \<times> string list \<times> string list" where
  "score_contest p q ct =
     (case (p, q) of
        (Some (pn, pt), Some (qn, qt)) \<Rightarrow>
          if pt > qt then (ct\<lparr>player_victories := player_victories ct + victory_delta (pt - qt)\<rparr>, [],
            [pn @ '' wins the exchange ('' @ show_int pt @ '' vs '' @ show_int qt @ '') -- +'' @ show_int (victory_delta (pt - qt)) @ '' victory.''])
          else if qt > pt then (ct\<lparr>opponent_victories := opponent_victories ct + victory_delta (qt - pt)\<rparr>, [],
            [qn @ '' wins the exchange ('' @ show_int qt @ '' vs '' @ show_int pt @ '') -- +'' @ show_int (victory_delta (qt - pt)) @ '' victory.''])
          else (ct, [pn, qn], [''Tie ('' @ show_int pt @ ''='' @ show_int qt @ '') -- no victory; each side gains a boost.''])
      | _ \<Rightarrow> (ct, [], []))"

text \<open>A contest sets the outcome without touching the phase.\<close>

definition settle_contest :: "contest_state \<Rightarrow> encounter \<Rightarrow> encounter" where
  "settle_contest ct e =
     (if player_victories ct \<ge> contest_target ct then e\<lparr>resolved := True, enc_outcome := Some ''player_victory''\<rparr>
      else if opponent_victories ct \<ge> contest_target ct then e\<lparr>resolved := True, enc_outcome := Some ''opponent_victory''\<rparr>
      else e)"

definition run_fate_contest_exchange :: "edge_resolver \<Rightarrow> (fate_world, contest_result) sm" where
  "run_fate_contest_exchange res w =
     (case contest (scene w) of
        None \<Rightarrow> (Inl (FateContestError ''requires a contest-mode encounter''), w)
      | Some ct \<Rightarrow>
          sthen (seat_opponent_commits res (is_mental w)) (\<lambda>w.
            let walked = filter (\<lambda>n. seated n w \<noteq> None) (map cm_actor (fate_commits (scene w)));
                (ct', boosted, hints) = score_contest (best_of Player w) (best_of Opponent w) ct;
                sc = fold (\<lambda>n. add_situation (''Fleeting Opening by '' @ n) Boost 1) boosted (scene w);
                sc' = sc\<lparr>contest := Some ct', fate_commits := [], narrator_hints := narrator_hints sc @ hints, base_enc := settle_contest ct' (base_enc sc)\<rparr>
            in (Inr \<lparr>cr_order = walked, cr_resolved = resolved (base_enc sc'), cr_player = player_victories ct',
                     cr_opponent = opponent_victories ct', cr_hints = hints\<rparr>, w\<lparr>scene := sc'\<rparr>)) w)"

section \<open>Dispatching an action\<close>

datatype player_verb = Proactive fate_action | Concede | CompelAccept | CompelRefuse

record action_payload =
  pl_verb :: player_verb
  pl_skill :: string
  pl_target :: "string option"
  pl_difficulty :: int
  pl_invoke :: string
  pl_mode :: string
  pl_aspect :: string
  pl_flourish :: string

datatype exchange_summary = Conflict exchange_result | Contest contest_result

record dispatch_result =
  commitment_pending :: bool
  exchange :: "exchange_summary option"
  action_roll :: "fate_outcome option"
  fate_point_delta :: int
  defend_requests :: "defend_request list"
  awaiting_defense :: bool

definition quiet_result :: "int \<Rightarrow> dispatch_result" where
  "quiet_result d = \<lparr>commitment_pending = False, exchange = None, action_roll = None, fate_point_delta = d, defend_requests = [], awaiting_defense = False\<rparr>"

definition flourish :: "string \<Rightarrow> action_payload \<Rightarrow> fate_scene \<Rightarrow> fate_scene" where
  "flourish actor p sc =
     (if blank (pl_flourish p) \<or> sanitize_player_text (pl_flourish p) = [] then sc
      else sc\<lparr>narrator_hints := narrator_hints sc @ [actor @ '' (flourish): '' @ sanitize_player_text (pl_flourish p)]\<rparr>)"

text \<open>The roll of the acting player: the faces thrown, or the server's dice, rolled again for a reroll.\<close>

definition roll_action :: "int \<Rightarrow> int \<Rightarrow> int \<Rightarrow> bool \<Rightarrow> int list option \<Rightarrow> (fate_world, fate_outcome) sm" where
  "roll_action rating opp bonus reroll faces =
     (case faces of
        Some fs \<Rightarrow> lift_res (resolve_action_from_faces rating opp fs bonus)
      | None \<Rightarrow> sbind (on_tape (resolve_action rating opp bonus)) (\<lambda>o'. if reroll then on_tape (resolve_action rating opp bonus) else ret o'))"

definition pay_invoke :: "edge_resolver \<Rightarrow> string \<Rightarrow> action_payload \<Rightarrow> (fate_world, int) sm" where
  "pay_invoke res actor p =
     (if pl_invoke p = [] then ret 0
      else on_sheet res actor (FateConflictError ''has no Fate sheet to act with'') (invoke_aspect (pl_invoke p) (pl_mode p)))"

definition commit_of :: "string \<Rightarrow> fate_action \<Rightarrow> action_payload \<Rightarrow> fate_outcome \<Rightarrow> sealed_commit" where
  "commit_of actor act p o' =
     \<lparr>cm_actor = actor, cm_action = act, cm_skill = sanitize_player_text (pl_skill p), cm_target = map_option sanitize_player_text (pl_target p),
      cm_difficulty = pl_difficulty p, cm_total = ladder_total o', cm_dice = fo_dice o', cm_aspect = sanitize_player_text (pl_aspect p)\<rparr>"

text \<open>What happens when the last player has sealed an action.\<close>

definition close_barrier :: "edge_resolver \<Rightarrow> int \<Rightarrow> fate_outcome \<Rightarrow> (fate_world, dispatch_result) sm" where
  "close_barrier res rno o' w =
     (let fired = (\<lambda>x. (quiet_result 0)\<lparr>exchange := Some x, action_roll := Some o'\<rparr>) in
      if contest (scene w) \<noteq> None then sbind (run_fate_contest_exchange res) (\<lambda>r. ret (fired (Contest r))) w
      else
        sthen (seat_opponent_commits res (is_mental w)) (sbind (build_pending_defenses rno) (\<lambda>reqs.
          if reqs \<noteq> [] then ret ((quiet_result 0)\<lparr>action_roll := Some o', defend_requests := reqs, awaiting_defense := True\<rparr>)
          else sbind (run_fate_exchange res) (\<lambda>r. ret (fired (Conflict r))))) w)"

definition act_and_seal :: "edge_resolver \<Rightarrow> int \<Rightarrow> string \<Rightarrow> fate_action \<Rightarrow> action_payload \<Rightarrow> int list option \<Rightarrow> (fate_world, dispatch_result) sm" where
  "act_and_seal res rno actor act p faces =
     sthen (on_scene (flourish actor p))
       (sbind (pay_invoke res actor p) (\<lambda>bonus.
         sbind (\<lambda>w. roll_action (skill_rating res w actor (pl_skill p)) (pl_difficulty p) bonus (pl_invoke p \<noteq> [] \<and> pl_mode p = ''reroll'') faces w) (\<lambda>o'.
           sthen (seal_fate_commit (commit_of actor act p o'))
             (\<lambda>w. if fate_barrier_closed w then close_barrier res rno o' w
                  else (Inr ((quiet_result 0)\<lparr>commitment_pending := True, action_roll := Some o'\<rparr>), w)))))"

definition dispatch_fate_action ::
  "edge_resolver \<Rightarrow> string \<Rightarrow> int \<Rightarrow> string \<Rightarrow> action_payload \<Rightarrow> int list option \<Rightarrow> (fate_world, dispatch_result) sm" where
  "dispatch_fate_action res slug rno actor p faces w =
     (if slug \<noteq> ''fate'' then (Inl (FateConflictError ''FATE_ACTION dispatched under non-Fate ruleset''), w)
      else if \<not> in_encounter w \<or> is_resolved w then (Inl (FateConflictError ''FATE_ACTION requires an active, unresolved encounter''), w)
      else if seated actor w = None then (Inl (FateConflictError ''is not seated in this encounter''), w)
      else if contest (scene w) \<noteq> None \<and> pl_verb p = Proactive Attack then (Inl (FateConflictError ''attack is a Conflict action''), w)
      else case pl_verb p of
        Concede \<Rightarrow> sthen (concede_in_conflict res actor) (ret (quiet_result 0)) w
      | CompelAccept \<Rightarrow> sbind (resolve_compel res True (pl_aspect p) actor) (\<lambda>d. ret (quiet_result d)) w
      | CompelRefuse \<Rightarrow> sbind (resolve_compel res False (pl_aspect p) actor) (\<lambda>d. ret (quiet_result d)) w
      | Proactive act \<Rightarrow>
          if sheet_of res w actor = None then (Inl (FateConflictError ''has no Fate sheet to act with''), w)
          else act_and_seal res rno actor act p faces w)"

section \<open>Recording a defense\<close>

record defense_result =
  defense_roll :: "fate_outcome option"
  ledger_full :: bool
  df_conceded :: bool

definition set_entry :: "string \<Rightarrow> (pending_defense \<Rightarrow> pending_defense) \<Rightarrow> fate_scene \<Rightarrow> fate_scene" where
  "set_entry i f sc = sc\<lparr>pending_defenses := map_first (\<lambda>p. pd_request p = i) f (pending_defenses sc)\<rparr>"

definition all_answered :: "fate_world \<Rightarrow> bool" where
  "all_answered w = list_all answered (pending_defenses (scene w))"

definition dispatch_fate_defense :: "edge_resolver \<Rightarrow> string \<Rightarrow> string \<Rightarrow> string \<Rightarrow> int list option \<Rightarrow> bool \<Rightarrow> (fate_world, defense_result) sm" where
  "dispatch_fate_defense res actor i skill faces conceded w =
     (case find (\<lambda>p. pd_request p = i) (pending_defenses (scene w)) of
        None \<Rightarrow> (Inl (FateConflictError ''unknown request_id''), w)
      | Some p \<Rightarrow>
          if pd_defender p \<noteq> actor then (Inl (FateConflictError ''a player may only answer their own defend request''), w)
          else if answered p then (Inl (FateConflictError ''already recorded''), w)
          else if conceded then
            sthen (on_scene (set_entry i (\<lambda>p. p\<lparr>pd_conceded := True\<rparr>)))
              (\<lambda>w. (Inr \<lparr>defense_roll = None, ledger_full = all_answered w, df_conceded = True\<rparr>, w)) w
          else (case faces of
              None \<Rightarrow> (Inl (FateConflictError ''a non-concede defend throw must carry four dF faces''), w)
            | Some fs \<Rightarrow>
                sbind (lift_res (resolve_action_from_faces (skill_rating res w actor skill) 0 fs 0)) (\<lambda>o'.
                  sthen (on_scene (set_entry i (\<lambda>p. p\<lparr>pd_total := Some (ladder_total o'), pd_skill := sanitize_player_text skill\<rparr>)))
                    (\<lambda>w. (Inr \<lparr>defense_roll = Some o', ledger_full = all_answered w, df_conceded = False\<rparr>, w))) w))"

section \<open>The handlers\<close>

text \<open>
  Errors of the conflict and of the economy become a rejection; other exceptions escape. An exchange that
  was resolved is told to the table with its hints, which are then consumed; the defense path keeps them.
\<close>

datatype handler_reply = Rejected | Told "string list" | Silent

fun is_fate_error :: "py_error \<Rightarrow> bool" where
  "is_fate_error (FateConflictError m) = True"
| "is_fate_error (FateEconomyError m) = True"
| "is_fate_error e = False"

definition fate_action_handler :: "edge_resolver \<Rightarrow> string \<Rightarrow> int \<Rightarrow> string \<Rightarrow> action_payload \<Rightarrow> int list option \<Rightarrow> (fate_world, handler_reply) sm" where
  "fate_action_handler res slug rno actor p faces w =
     (case dispatch_fate_action res slug rno actor p faces w of
        (Inl e, w') \<Rightarrow> if is_fate_error e then (Inr Rejected, w') else (Inl e, w')
      | (Inr r, w') \<Rightarrow>
          if exchange r = None then (Inr Silent, w')
          else (Inr (Told (narrator_hints (scene w'))), w'\<lparr>scene := (scene w')\<lparr>narrator_hints := []\<rparr>\<rparr>))"

definition fate_defend_handler :: "edge_resolver \<Rightarrow> string \<Rightarrow> string \<Rightarrow> string \<Rightarrow> int list option \<Rightarrow> bool \<Rightarrow> (fate_world, handler_reply) sm" where
  "fate_defend_handler res actor i skill faces conceded w =
     (case dispatch_fate_defense res actor i skill faces conceded w of
        (Inl e, w') \<Rightarrow> (case e of FateConflictError m \<Rightarrow> (Inr Rejected, w') | _ \<Rightarrow> (Inl e, w'))
      | (Inr r, w') \<Rightarrow>
          if \<not> ledger_full r then (Inr Silent, w')
          else sbind (resume_fate_exchange res) (\<lambda>_ w. (Inr (Told (narrator_hints (scene w))), w)) w')"

text \<open>On reconnect: orphans of the ledger are conceded, and the player's open requests are sent again.\<close>

definition reemit_pending_defenses :: "string \<Rightarrow> string \<Rightarrow> fate_world \<Rightarrow> defend_request list" where
  "reemit_pending_defenses slug defender w =
     (if slug \<noteq> ''fate'' \<or> \<not> in_encounter w then []
      else map request_of (filter (\<lambda>p. pd_defender p = defender \<and> \<not> answered p) (pending_defenses (scene w))))"

definition reconnect :: "string \<Rightarrow> string \<Rightarrow> fate_world \<Rightarrow> defend_request list \<times> fate_world" where
  "reconnect slug defender w =
     (if in_encounter w \<and> pending_defenses (scene w) \<noteq> [] then
        let w' = (if slug = ''fate'' then snd (clear_orphaned_pending_defenses w) else w) in (reemit_pending_defenses slug defender w', w')
      else ([], w))"

section \<open>Zones\<close>

record zone_move =
  move_free :: bool
  requires_overcome :: bool
  from_zone :: string
  to_zone :: string

definition adjudicate_zone_move :: "string \<Rightarrow> string \<Rightarrow> zone_projection \<Rightarrow> zone_move" where
  "adjudicate_zone_move a b zp =
     (let known = dict_has (zones zp) a \<and> dict_has (zones zp) b;
          adj = known \<and> (b = a \<or> b \<in> dict_get (adjacency zp) a {})
      in \<lparr>move_free = adj, requires_overcome = \<not> adj, from_zone = a, to_zone = b\<rparr>)"

text \<open>Each seated actor with a cell on the floor gets the cell's zone; the others get none.\<close>

definition project_conflict_zones :: "(string \<rightharpoonup> cell) \<Rightarrow> string \<Rightarrow> fate_scene \<Rightarrow> (string \<times> string) list \<times> fate_scene" where
  "project_conflict_zones cells msk sc =
     (let zp = project_zones msk;
          zone_at = (\<lambda>n. case cells n of None \<Rightarrow> None | Some c \<Rightarrow> map_of (cell_to_zone zp) c)
      in (List.map_filter (\<lambda>a. map_option (Pair (actor_name a)) (zone_at (actor_name a))) (actors (base_enc sc)),
          sc\<lparr>scene_zones := sort (map fst (zones zp))\<rparr>))"

end
