(* ===== verification/Fate_Laws.thy ===== *)
theory Fate_Laws
  imports Fate_Dispatch
begin

text \<open>
  What a hit does to a sheet, and what every operation of the engine keeps: sheets stay well-formed and only
  wear, and the walk of an exchange reads the ledger of defenses only through the last entry of each defender.
\<close>

section \<open>Absorbing a hit\<close>

definition box_room :: "stress_box list \<Rightarrow> int" where
  "box_room boxes = fold max (map box_value (filter (\<lambda>b. \<not> checked b) boxes)) 0"

definition slot_room :: "fate_sheet \<Rightarrow> int" where
  "slot_room sh = sum_list (map cons_value (open_slots sh))"

definition fillable :: "fate_sheet \<Rightarrow> consequence \<Rightarrow> bool" where
  "fillable sh c \<longleftrightarrow> find (\<lambda>x. cons_level x = cons_level c) (consequences sh) = Some c \<and> cons_aspect c = None"

lemma take_fillable:
  fixes t :: string
  assumes "fillable sh c"
  defines "sh' \<equiv> snd (take_consequence (cons_level c) t sh)"
  shows "take_consequence (cons_level c) t sh = (Inr (cons_value c), sh')" and "stress sh' = stress sh"
    and "cons_level x \<noteq> cons_level c \<Longrightarrow> fillable sh' x = fillable sh x" and "\<not> fillable sh' c"
    and "fillable sh' x \<Longrightarrow> fillable sh x"
proof -
  let ?f = "\<lambda>c. c\<lparr>cons_aspect := Some ((new_aspect t ConsequenceAspect)\<lparr>free_invokes := 1\<rparr>)\<rparr>"
  let ?P = "\<lambda>x. cons_level x = cons_level c"
  have c: "find ?P (consequences sh) = Some c" "cons_aspect c = None" using assms by (auto simp: fillable_def)
  then have e: "take_consequence (cons_level c) t sh = (Inr (cons_value c), sh\<lparr>consequences := map_first ?P ?f (consequences sh)\<rparr>)"
    by (simp add: take_consequence_def)
  then show "take_consequence (cons_level c) t sh = (Inr (cons_value c), sh')" "stress sh' = stress sh" by (simp_all add: sh'_def)
  have f: "find ?P (map_first ?P ?f (consequences sh)) = Some (?f c)" using map_first_find[OF c(1), of ?f] by simp
  then show n: "\<not> fillable sh' c" using c(2) by (simp add: sh'_def e fillable_def) (metis c(2) consequence.select_convs(3) consequence.surjective consequence.update_convs(3) option.distinct(1))
  have o: "find (\<lambda>y. cons_level y = cons_level x) (map_first ?P ?f (consequences sh)) = find (\<lambda>y. cons_level y = cons_level x) (consequences sh)"
    if "cons_level x \<noteq> cons_level c" for x using that by (intro map_first_find_other) auto
  have oth: "fillable sh' x = fillable sh x" if "cons_level x \<noteq> cons_level c" for x
    using o[OF that] by (simp add: sh'_def e fillable_def)
  show "cons_level x \<noteq> cons_level c \<Longrightarrow> fillable sh' x = fillable sh x" by (rule oth)
  show "fillable sh x" if a: "fillable sh' x"
  proof (cases "cons_level x = cons_level c")
    case True
    then have "x = ?f c" using a f by (simp add: sh'_def e fillable_def)
    then show ?thesis using a by (simp add: fillable_def)
  qed (use a oth in simp)
qed

lemma absorb_slots_result:
  assumes "distinct (map cons_level cs)" and "\<forall>c \<in> set cs. fillable sh c \<and> 0 < cons_value c" and "0 \<le> left"
  shows "\<exists>sh'. absorb_slots src cs left sh = (Inr (max 0 (left - sum_list (map cons_value cs))), sh') \<and> stress sh' = stress sh \<and>
    (\<forall>x. fillable sh' x \<longrightarrow> fillable sh x) \<and> (sum_list (map cons_value cs) < left \<longrightarrow> (\<forall>c \<in> set cs. \<not> fillable sh' c))"
  using assms
proof (induction cs arbitrary: left sh)
  case (Cons c cs)
  have pos: "0 \<le> sum_list (map cons_value cs)" using Cons.prems(2) by (intro sum_list_nonneg) auto
  show ?case
  proof (cases "left \<le> 0")
    case True
    then show ?thesis using Cons.prems pos by (auto simp: ret_def)
  next
    case False
    let ?t = "title_word (cons_level c) @ '' consequence inflicted by '' @ src"
    let ?sh = "snd (take_consequence (cons_level c) ?t sh)" and ?left = "max 0 (left - cons_value c)"
    have c: "fillable sh c" "0 < cons_value c" using Cons.prems(2) by auto
    note t = take_fillable[OF c(1), where t = ?t]
    have f: "\<forall>x \<in> set cs. fillable ?sh x \<and> 0 < cons_value x"
    proof
      fix x
      assume "x \<in> set cs"
      moreover from this have "cons_level x \<noteq> cons_level c" using Cons.prems(1) by (metis distinct.simps(2) imageI list.simps(9) set_map)
      ultimately show "fillable ?sh x \<and> 0 < cons_value x" using t(3) Cons.prems(2) by (metis list.set_intros(2))
    qed
    obtain sh' where a: "absorb_slots src cs ?left ?sh = (Inr (max 0 (?left - sum_list (map cons_value cs))), sh')" "stress sh' = stress ?sh"
      "\<forall>x. fillable sh' x \<longrightarrow> fillable ?sh x" "sum_list (map cons_value cs) < ?left \<longrightarrow> (\<forall>c \<in> set cs. \<not> fillable sh' c)"
      using Cons.IH[OF _ f, of ?left] Cons.prems(1) by auto
    have "absorb_slots src (c # cs) left sh = absorb_slots src cs ?left ?sh" using False by (simp only: absorb_slots.simps if_False sthen_def sbind_def) (subst t(1), simp)
    then have "absorb_slots src (c # cs) left sh = (Inr (max 0 (left - sum_list (map cons_value (c # cs)))), sh')" using a(1) pos by simp
    moreover have "stress sh' = stress sh \<and> (\<forall>x. fillable sh' x \<longrightarrow> fillable sh x)" using a(2,3) t(2,5) by auto
    moreover have "sum_list (map cons_value (c # cs)) < left \<longrightarrow> (\<forall>c \<in> set (c # cs). \<not> fillable sh' c)"
      using a(3,4) t(4) by auto
    ultimately show ?thesis by blast
  qed
qed (auto simp: ret_def)

lemma absorb_slots_wears [wp]: "keeps (wear sh0) (absorb_slots src cs k)"
  by (induction cs arbitrary: k) (simp_all add: wp)

lemma absorb_shifts_wears [wp]: "keeps (wear sh0) (absorb_shifts track s src)"
proof -
  have "keeps (wear sh0) (sbind (case b of None \<Rightarrow> ret s | Some b \<Rightarrow> sthen (mark_stress track (box_value b)) (ret (max 0 (s - box_value b))))
      (\<lambda>left. sbind (absorb_slots src cs left) (\<lambda>rest. ret (rest \<le> 0))))" for b cs
    by (cases b) (simp_all add: wp)
  then have *: "wear sh0 sh \<Longrightarrow> wear sh0 (snd (sbind (case chosen_box boxes s of None \<Rightarrow> ret s | Some b \<Rightarrow> sthen (mark_stress track (box_value b)) (ret (max 0 (s - box_value b))))
      (\<lambda>left. sbind (absorb_slots src (open_slots sh) left) (\<lambda>rest. ret (rest \<le> 0))) sh))" for sh boxes unfolding keeps_def by blast
  show ?thesis unfolding keeps_def absorb_shifts_def using * by (simp split: option.split del: option.case)
qed

lemma fillable_open:
  assumes "distinct (map cons_level (consequences sh))"
  shows "c \<in> set (open_slots sh) \<longleftrightarrow> fillable sh c"
proof -
  have "find (\<lambda>x. cons_level x = cons_level c) cs = Some c" if "distinct (map cons_level cs)" "c \<in> set cs" for cs
    using that by (induction cs) (auto simp: image_iff)
  then show ?thesis using assms find_some[of "\<lambda>x. cons_level x = cons_level c" "consequences sh" c] by (auto simp: open_slots_def fillable_def)
qed

lemma open_distinct: "distinct (map cons_level (consequences sh)) \<Longrightarrow> distinct (map cons_level (open_slots sh))"
  by (auto simp: open_slots_def distinct_map intro: inj_on_subset)

lemma worn_levels: "worn sh sh' \<Longrightarrow> map cons_level (consequences sh') = map cons_level (consequences sh)"
  unfolding worn_def by (auto simp: list_all2_conv_all_nth worn_slot_def intro: nth_equalityI)

lemma fold_max_mem: "fold max xs (a::int) \<in> insert a (set xs)"
proof (induction xs arbitrary: a)
  case (Cons x xs)
  then show ?case using Cons[of "max x a"] by (auto simp: max_def split: if_splits)
qed simp

lemma chosen_box_spec:
  assumes "chosen_box boxes s = Some b"
  shows "b \<in> set boxes" and "\<not> checked b" and "s \<le> box_value b \<or> box_value b = fold max (map box_value (filter (\<lambda>b. \<not> checked b) boxes)) (box_value b)"
proof -
  let ?free = "filter (\<lambda>b. \<not> checked b) boxes"
  have "b \<in> set ?free \<and> (s \<le> box_value b \<or> (\<forall>x \<in> set ?free. box_value x \<le> box_value b))"
  proof (cases "filter (\<lambda>b. box_value b \<ge> s) ?free")
    case Nil
    then obtain x xs where x: "?free = x # xs" "b = max_key box_value x xs" using assms by (auto simp: chosen_box_def split: list.splits)
    then have "b \<in> set ?free" using max_key_in[of box_value x xs] by auto
    moreover have "\<forall>y \<in> set ?free. box_value y \<le> box_value b" using x max_key_ge[of _ x xs box_value] by (auto simp del: filter.simps)
    ultimately show ?thesis by blast
  next
    case (Cons x xs)
    then have b: "b = min_key box_value x xs" using assms by (simp add: chosen_box_def)
    have "b \<in> set (filter (\<lambda>b. box_value b \<ge> s) ?free)" unfolding Cons b using min_key_in[of box_value x xs] by auto
    then show ?thesis by simp
  qed
  then show "b \<in> set boxes" "\<not> checked b" "s \<le> box_value b \<or> box_value b = fold max (map box_value ?free) (box_value b)"
    using fold_max_mem[of "map box_value ?free" "box_value b"] fold_max_start[of "box_value b" "map box_value ?free"] by fastforce+
qed

lemma count_map_first: "length (filter checked (map_first P (\<lambda>b. b\<lparr>checked := True\<rparr>) bs)) \<le> Suc (length (filter checked bs))"
  by (induction bs) auto

lemma chosen_box_room:
  assumes b: "chosen_box boxes s = Some b" and pos: "0 < box_value b"
  shows "box_value b \<le> box_room boxes \<and> (s \<le> box_value b \<or> box_value b = box_room boxes)"
proof -
  let ?xs = "map box_value (filter (\<lambda>b. \<not> checked b) boxes)"
  have i: "box_value b \<in> set ?xs" using chosen_box_spec(1,2)[OF b] by auto
  have "box_room boxes \<le> box_value b" if "box_value b = fold max ?xs (box_value b)"
    using that fold_max_mem[of ?xs 0] fold_max_ge[of _ ?xs "box_value b"] pos by (auto simp: box_room_def)
  then show ?thesis using chosen_box_spec(3)[OF b] fold_max_ge[OF i, of 0] by (fastforce simp: box_room_def)
qed

lemma mark_chosen:
  assumes ok: "sheet_ok sh" and t: "map_of (stress sh) track = Some boxes" and s: "0 < s"
  shows "\<exists>sh1 boxes1 left. (case chosen_box boxes s of None \<Rightarrow> ret s
        | Some b \<Rightarrow> sthen (mark_stress track (box_value b)) (ret (max 0 (s - box_value b)))) sh = (Inr left, sh1) \<and>
    consequences sh1 = consequences sh \<and> map_of (stress sh1) track = Some boxes1 \<and>
    length (filter checked boxes1) \<le> Suc (length (filter checked boxes)) \<and> 0 \<le> left \<and>
    (left = max 0 (s - box_room boxes) \<or> left = 0 \<and> s \<le> box_room boxes)"
proof (cases "chosen_box boxes s")
  case None
  then have "filter (\<lambda>b. \<not> checked b) boxes = []" by (auto simp: chosen_box_def split: list.splits)
  then have "box_room boxes = 0" by (simp add: box_room_def)
  then show ?thesis using None t s by (simp add: ret_def)
next
  case (Some b)
  have i: "list_ex (\<lambda>x. box_value x = box_value b \<and> \<not> checked x) boxes" using chosen_box_spec(1,2)[OF Some] by (auto simp: list_ex_iff)
  have "0 < box_value b" using chosen_box_spec(1)[OF Some] ok t by (auto simp: sheet_ok_def)
  note r = chosen_box_room[OF Some this]
  let ?new = "map_first (\<lambda>x. box_value x = box_value b \<and> \<not> checked x) (\<lambda>b. b\<lparr>checked := True\<rparr>) boxes"
  have "mark_stress track (box_value b) sh = (Inr (box_value b), sh\<lparr>stress := AList.update track ?new (stress sh)\<rparr>)"
    using i t by (simp add: mark_stress_def)
  then have "sthen (mark_stress track (box_value b)) (ret (max 0 (s - box_value b))) sh =
      (Inr (max 0 (s - box_value b)), sh\<lparr>stress := AList.update track ?new (stress sh)\<rparr>)"
    by (simp add: sthen_def sbind_def ret_def)
  then show ?thesis using Some count_map_first[of _ boxes] r by (auto simp: update_conv' max_def)
qed

text \<open>
  C33. A hit of \<open>s\<close> shifts against a well-formed sheet: it is survived exactly when one free box and all open
  slots together can hold it; at most one box is checked by it; and who is taken out has no slot left.
\<close>

theorem hit_is_absorbed_up_to_capacity:
  assumes ok: "sheet_ok sh" and t: "map_of (stress sh) track = Some boxes" and s: "0 < s"
  shows "\<exists>sh' boxes'. absorb_shifts track s src sh = (Inr (s \<le> box_room boxes + slot_room sh), sh') \<and>
    map_of (stress sh') track = Some boxes' \<and> length (filter checked boxes') \<le> Suc (length (filter checked boxes)) \<and>
    (box_room boxes + slot_room sh < s \<longrightarrow> open_slots sh' = [])"
proof -
  let ?mark = "case chosen_box boxes s of None \<Rightarrow> ret s | Some b \<Rightarrow> sthen (mark_stress track (box_value b)) (ret (max 0 (s - box_value b)))"
  have d: "distinct (map cons_level (consequences sh))" using ok by (simp add: sheet_ok_def)
  obtain sh1 boxes1 left where m: "?mark sh = (Inr left, sh1)" "consequences sh1 = consequences sh" "map_of (stress sh1) track = Some boxes1"
    "length (filter checked boxes1) \<le> Suc (length (filter checked boxes))" "0 \<le> left" "left = max 0 (s - box_room boxes) \<or> (left = 0 \<and> s \<le> box_room boxes)"
    using mark_chosen[OF ok t s] by blast
  have o: "open_slots sh1 = open_slots sh" by (simp add: open_slots_def m(2))
  have f: "\<forall>c \<in> set (open_slots sh). fillable sh1 c \<and> 0 < cons_value c"
  proof
    fix c
    assume c: "c \<in> set (open_slots sh)"
    then have "c \<in> set (consequences sh)" by (simp add: open_slots_def)
    then show "fillable sh1 c \<and> 0 < cons_value c" using c fillable_open[OF d, of c] ok by (simp add: fillable_def m(2) sheet_ok_def)
  qed
  obtain sh' where a: "absorb_slots src (open_slots sh) left sh1 = (Inr (max 0 (left - slot_room sh)), sh')" "stress sh' = stress sh1"
    "\<forall>x. fillable sh' x \<longrightarrow> fillable sh1 x" "slot_room sh < left \<longrightarrow> (\<forall>c \<in> set (open_slots sh). \<not> fillable sh' c)"
    using absorb_slots_result[OF open_distinct[OF d] f m(5), of src] by (auto simp: slot_room_def)
  have room: "0 \<le> slot_room sh" unfolding slot_room_def using f by (intro sum_list_nonneg) auto
  have e: "absorb_shifts track s src sh = (Inr (max 0 (left - slot_room sh) \<le> 0), sh')"
    using s t m(1) a(1) by (simp add: absorb_shifts_def sbind_def ret_def)
  have r: "max 0 (left - slot_room sh) \<le> 0 \<longleftrightarrow> s \<le> box_room boxes + slot_room sh" using m(6) room by auto
  have "open_slots sh' = []" if "box_room boxes + slot_room sh < s"
  proof -
    have "wear sh (snd (absorb_shifts track s src sh))" using absorb_shifts_wears[of sh track s src] ok worn_refl[of sh] unfolding keeps_def by blast
    then have "wear sh sh'" by (simp add: e)
    then have d': "distinct (map cons_level (consequences sh'))" by (simp add: sheet_ok_def)
    have "\<not> fillable sh' c" for c
    proof
      assume c: "fillable sh' c"
      then have "fillable sh1 c" using a(3) by blast
      then have "c \<in> set (open_slots sh)" using fillable_open[OF d] by (simp add: fillable_def m(2))
      moreover have "slot_room sh < left" using that r by simp
      ultimately show False using a(4) c by blast
    qed
    then show ?thesis using fillable_open[OF d'] by (metis list.set_intros(1) neq_Nil_conv)
  qed
  then show ?thesis using e r m(3,4) a(2) by auto
qed

end
