(* ===== verification/Fate_Runs.thy ===== *)
theory Fate_Runs
  imports Fate_Laws
begin

text \<open>
  Runs of the Fate engine: every entry point keeps the sheets well-formed and only wears them, and the walk of
  an exchange does not look at the ledger of defenses except through the last entry of each defender.
\<close>

section \<open>Sheets only wear\<close>

definition sound :: "fate_world \<Rightarrow> bool" where
  "sound w \<longleftrightarrow> (\<forall>i sh. map_of (sheets w) i = Some (Some sh) \<longrightarrow> sheet_ok sh)"

definition wears_from :: "fate_world \<Rightarrow> fate_world \<Rightarrow> bool" where
  "wears_from w0 w \<longleftrightarrow> (\<forall>i sh. map_of (sheets w0) i = Some (Some sh) \<longrightarrow> (\<exists>sh'. map_of (sheets w) i = Some (Some sh') \<and> worn sh sh'))"

definition safe :: "fate_world \<Rightarrow> fate_world \<Rightarrow> bool" where
  "safe w0 w \<longleftrightarrow> sound w \<and> wears_from w0 w"

lemma sm_keepsD: "keeps P m \<Longrightarrow> P s \<Longrightarrow> P (snd (m s))"
  by (simp add: keeps_def)

lemma keepsI: "(\<And>s. P s \<Longrightarrow> P (snd (m s))) \<Longrightarrow> keeps P m"
  by (simp add: keeps_def)

lemma keeps_smap [wp]: "(\<And>x. x \<in> set xs \<Longrightarrow> keeps P (f x)) \<Longrightarrow> keeps P (smap f xs)"
  by (induction xs) (simp_all add: wp)

lemma safe_refl: "sound w \<Longrightarrow> safe w w"
  by (simp add: safe_def wears_from_def)

lemma safe_trans: "safe a b \<Longrightarrow> safe b c \<Longrightarrow> safe a c"
  unfolding safe_def wears_from_def using worn_trans by blast

lemma safe_scene [simp]: "safe w0 (w\<lparr>scene := sc\<rparr>) = safe w0 w" and safe_tape [simp]: "safe w0 (w\<lparr>tape := t\<rparr>) = safe w0 w"
  and safe_in [simp]: "safe w0 (w\<lparr>in_encounter := b\<rparr>) = safe w0 w"
  by (simp_all add: safe_def sound_def wears_from_def)

lemma on_scene_safe [wp]: "keeps (safe w0) (on_scene f)"
  by (simp add: keeps_def on_scene_def modify_def)

lemma on_tape_safe [wp]: "keeps (safe w0) (on_tape m)"
  by (simp add: keeps_def on_tape_def split_beta)

lemma on_sheet_safe [wp]:
  assumes "\<And>sh0. keeps (wear sh0) m"
  shows "keeps (safe w0) (on_sheet res n err m)"
proof (rule keepsI)
  fix w
  assume s: "safe w0 w"
  show "safe w0 (snd (on_sheet res n err m w))"
  proof (cases "sheet_of res w n")
    case (Some sh)
    then obtain i where i: "res n = Some i" "map_of (sheets w) i = Some (Some sh)" by (auto simp: sheet_of_def split: option.splits)
    have "wear sh (snd (m sh))" using sm_keepsD[OF assms[of sh], of sh] s i(2) by (auto simp: safe_def sound_def)
    moreover have "snd (on_sheet res n err m w) = w\<lparr>sheets := AList.update i (Some (snd (m sh))) (sheets w)\<rparr>"
      using Some i by (simp add: on_sheet_def split_beta)
    moreover have "\<exists>sh'. map_of (AList.update i (Some (snd (m sh))) (sheets w)) j = Some (Some sh') \<and> worn x sh'"
      if x: "map_of (sheets w0) j = Some (Some x)" for j x
    proof -
      obtain y where y: "map_of (sheets w) j = Some (Some y)" "worn x y" using s x by (auto simp: safe_def wears_from_def)
      show ?thesis
      proof (cases "j = i")
        case True
        then have "worn x (snd (m sh))" using y i(2) calculation(1) worn_trans by auto
        then show ?thesis using True by (simp add: update_conv')
      qed (use y in \<open>simp add: update_conv'\<close>)
    qed
    moreover have "\<forall>j sh'. map_of (AList.update i (Some (snd (m sh))) (sheets w)) j = Some (Some sh') \<longrightarrow> sheet_ok sh'"
      using calculation(1) s by (auto simp: update_conv' safe_def sound_def)
    ultimately show ?thesis by (simp add: safe_def sound_def wears_from_def)
  qed (use s in \<open>simp add: on_sheet_def\<close>)
qed

lemma resolve_safe [wp]: "keeps (safe w0) (strike res c t mental d k)" "keeps (safe w0) (roll_defense res t mental)"
  "keeps (safe w0) (seal_fate_commit c)" "keeps (safe w0) (build_pending_defenses rno)"
proof -
  show "keeps (safe w0) (strike res c t mental d k)" unfolding strike_def Let_def
    by (intro wp keepsI) (auto intro!: sm_keepsD[OF keeps_sthen[OF on_scene_safe keeps_ret]] split: option.splits)
  show "keeps (safe w0) (roll_defense res t mental)"
    by (rule keepsI) (auto simp: roll_defense_def intro!: sm_keepsD[OF keeps_sbind[OF on_tape_safe keeps_ret]])
  show "keeps (safe w0) (seal_fate_commit c)"
    by (rule keepsI) (auto simp: seal_fate_commit_def intro!: sm_keepsD[OF on_scene_safe])
  show "keeps (safe w0) (build_pending_defenses rno)" by (rule keepsI) (simp add: build_pending_defenses_def)
qed

lemma seat_opponent_safe [wp]: "keeps (safe w0) (seat_opponent res mental opp)"
proof (rule keepsI)
  fix w
  assume s: "safe w0 w"
  have k: "keeps (safe w0) (sbind (on_tape m) (\<lambda>o'. seal_fate_commit (f o')))" for m and f :: "fate_outcome \<Rightarrow> sealed_commit"
    by (intro wp)
  show "safe w0 (snd (seat_opponent res mental opp w))"
    using s by (auto simp: seat_opponent_def split: sum.split option.split intro!: sm_keepsD[OF k])
qed

lemma seat_opponents_safe [wp]: "keeps (safe w0) (seat_opponent_commits res mental)"
proof (rule keepsI)
  fix w
  assume s: "safe w0 w"
  have "keeps (safe w0) (sforeach (\<lambda>n. if n \<in> d then ret () else seat_opponent res mental n) ns)" for d ns by (intro wp)
  from sm_keepsD[OF this s] show "safe w0 (snd (seat_opponent_commits res mental w))" unfolding seat_opponent_commits_def Let_def .
qed

lemma opposition_safe [wp]: "keeps (safe w0) (opposition_total res mental c)"
  by (cases "cm_target c") (simp_all add: opposition_total_def wp)

lemma create_safe [wp]: "keeps (safe w0) (resolve_create_advantage res mental c)"
  unfolding resolve_create_advantage_def Let_def
  by (rule keeps_sbind[OF opposition_safe], intro keeps_if keeps_sthen on_scene_safe keeps_ret)

lemma overcome_safe [wp]: "keeps (safe w0) (resolve_overcome res mental c)"
proof -
  have "keeps (safe w0) (case x of (out, detail, hint) \<Rightarrow> sthen (on_scene (f out detail)) (ret [hint]))" for x f and hint :: "string \<Rightarrow> string"
    by (cases x) (simp add: wp)
  then show ?thesis unfolding resolve_overcome_def Let_def
    by (intro keeps_sbind[OF opposition_safe]) (simp add: wp split: prod.split)
qed

lemma attack_safe [wp]: "keeps (safe w0) (resolve_attack res mental rec c)"
proof (rule keepsI)
  fix w
  assume s: "safe w0 w"
  have k: "keeps (safe w0) (sthen (on_scene f) (ret x))" for f and x :: "string list" by (intro wp)
  have l: "keeps (safe w0) (sbind (roll_defense res t mental) (\<lambda>d. strike res c t mental d k))" for t k by (intro wp)
  show "safe w0 (snd (resolve_attack res mental rec c w))"
    using s by (auto simp: resolve_attack_def split: option.split intro!: sm_keepsD[OF k] sm_keepsD[OF l] sm_keepsD[OF resolve_safe(1)])
qed

lemma slot_safe [wp]: "keeps (safe w0) (resolve_slot res mental rec cs n)"
proof (rule keepsI)
  fix w
  assume s: "safe w0 w"
  then show "safe w0 (snd (resolve_slot res mental rec cs n w))"
    by (auto simp: resolve_slot_def split: option.split fate_action.split intro!: sm_keepsD[OF attack_safe] sm_keepsD[OF create_safe] sm_keepsD[OF overcome_safe])
qed

lemma keeps_look [wp]: "keeps P (\<lambda>w. (Inr (f w), w))"
  by (simp add: keeps_def)

lemma walk_safe [wp]: "keeps (safe w0) (walk_exchange res mental)"
proof (rule keepsI)
  fix w
  assume s: "safe w0 w"
  have "keeps (safe w0) (sbind (smap (resolve_slot res mental rec cs) order) (\<lambda>hs. sthen (on_scene (f hs)) (\<lambda>w. (Inr (g hs w), w))))"
    for rec cs order f and g :: "string list list \<Rightarrow> fate_world \<Rightarrow> exchange_result" by (intro wp)
  from sm_keepsD[OF this s] show "safe w0 (snd (walk_exchange res mental w))" unfolding walk_exchange_def Let_def .
qed

lemma exchange_safe [wp]: "keeps (safe w0) (run_fate_exchange res)" "keeps (safe w0) (resume_fate_exchange res)"
proof -
  have "keeps (safe w0) (sthen (on_scene f) (sthen (seat_opponent_commits res mental) (walk_exchange res mental)))" for f mental by (intro wp)
  then show 1: "keeps (safe w0) (run_fate_exchange res)" unfolding run_fate_exchange_def keeps_def Let_def by blast
  show "keeps (safe w0) (resume_fate_exchange res)" unfolding resume_fate_exchange_def by (intro wp 1)
qed

lemma contest_safe [wp]: "keeps (safe w0) (run_fate_contest_exchange res)"
proof (rule keepsI)
  fix w
  assume s: "safe w0 w"
  have k: "keeps (safe w0) (\<lambda>w. (Inr (f w), w\<lparr>scene := g w\<rparr>))" for f :: "fate_world \<Rightarrow> contest_result" and g by (simp add: keeps_def)
  have "keeps (safe w0) (sthen (seat_opponent_commits res mental) (\<lambda>w. (Inr (f w), w\<lparr>scene := g w\<rparr>)))" for mental and f :: "fate_world \<Rightarrow> contest_result" and g
    by (intro wp k)
  then show "safe w0 (snd (run_fate_contest_exchange res w))"
    using s unfolding run_fate_contest_exchange_def Let_def split_beta keeps_def by (simp split: option.split)
qed

lemma close_safe [wp]: "keeps (safe w0) (close_barrier res rno o')"
proof (rule keepsI)
  fix w
  assume s: "safe w0 w"
  have a: "keeps (safe w0) (sbind (run_fate_contest_exchange res) (\<lambda>r. ret (f r)))" for f :: "contest_result \<Rightarrow> dispatch_result" by (intro wp)
  have b: "keeps (safe w0) (sthen (seat_opponent_commits res mental) (sbind (build_pending_defenses rno) (\<lambda>reqs.
      if reqs \<noteq> [] then ret (f reqs) else sbind (run_fate_exchange res) (\<lambda>r. ret (g r)))))"
    for mental and f :: "defend_request list \<Rightarrow> dispatch_result" and g by (intro wp)
  show "safe w0 (snd (close_barrier res rno o' w))" using sm_keepsD[OF a s] sm_keepsD[OF b s] by (simp add: close_barrier_def Let_def)
qed

lemma pay_safe [wp]: "keeps (safe w0) (pay_invoke res actor p)"
  unfolding pay_invoke_def by (intro wp)

lemma roll_safe [wp]: "keeps (safe w0) (\<lambda>w. roll_action (f w) opp bonus reroll faces w)"
proof (rule keepsI)
  fix w
  assume s: "safe w0 w"
  have "keeps (safe w0) (roll_action r opp bonus reroll faces)" for r
    unfolding roll_action_def by (cases faces) (simp_all add: wp)
  from sm_keepsD[OF this s] show "safe w0 (snd (roll_action (f w) opp bonus reroll faces w))" .
qed

lemma act_safe [wp]: "keeps (safe w0) (act_and_seal res rno actor act p faces)"
proof -
  have "keeps (safe w0) (\<lambda>w. if fate_barrier_closed w then close_barrier res rno o' w else (Inr x, w))" for o' x
    using sm_keepsD[OF close_safe] by (intro keepsI) simp
  then show ?thesis unfolding act_and_seal_def by (intro wp)
qed

lemma compel_wears [wp]: "keeps (wear sh0) accept_compel" "keeps (wear sh0) refuse_compel"
  unfolding accept_compel_def refuse_compel_def by (intro wp)+

lemma concede_safe [wp]: "keeps (safe w0) (concede_in_conflict res actor)" and compel_safe [wp]: "keeps (safe w0) (resolve_compel res accept asp actor)"
proof -
  have e: "keeps (safe w0) (on_sheet res actor err (smap (\<lambda>_. earn_fate_point) ns))" for err and ns :: "nat list" by (intro wp)
  have k: "keeps (safe w0) (sthen (on_sheet res actor err (smap (\<lambda>_. earn_fate_point) ns)) (sthen (on_scene f) (ret x)))" for err f and x :: int and ns :: "nat list"
    by (intro wp e)
  show "keeps (safe w0) (concede_in_conflict res actor)"
    by (rule keepsI) (auto simp: concede_in_conflict_def Let_def split: option.split intro!: sm_keepsD[OF k])
  have r: "keeps (safe w0) (\<lambda>w. case remove_pending_compel c (base_enc (scene w)) of (r, e) \<Rightarrow> (r, w\<lparr>scene := (scene w)\<lparr>base_enc := e\<rparr>\<rparr>))" for c
    by (simp add: keeps_def split_beta)
  have l: "keeps (safe w0) (sbind (on_sheet res actor err m) (\<lambda>points.
      sthen (\<lambda>w. case remove_pending_compel c (base_enc (scene w)) of (r, e) \<Rightarrow> (r, w\<lparr>scene := (scene w)\<lparr>base_enc := e\<rparr>\<rparr>)) (ret (points - k))))"
    if "\<And>sh0. keeps (wear sh0) m" for err c k m using that by (intro wp r)
  show "keeps (safe w0) (resolve_compel res accept asp actor)"
    by (rule keepsI) (auto simp: resolve_compel_def split: option.split intro!: sm_keepsD[OF l] compel_wears)
qed

lemma dispatch_safe [wp]: "keeps (safe w0) (dispatch_fate_action res slug rno actor p faces)"
proof (rule keepsI)
  fix w
  assume s: "safe w0 w"
  have a: "keeps (safe w0) (sthen (concede_in_conflict res actor) (ret x))" for x :: dispatch_result by (intro wp)
  have b: "keeps (safe w0) (sbind (resolve_compel res acc asp actor) (\<lambda>d. ret (quiet_result d)))" for acc asp by (intro wp)
  show "safe w0 (snd (dispatch_fate_action res slug rno actor p faces w))"
    using s by (auto simp: dispatch_fate_action_def split: player_verb.split intro!: sm_keepsD[OF a] sm_keepsD[OF b] sm_keepsD[OF act_safe])
qed

lemma defense_safe [wp]: "keeps (safe w0) (dispatch_fate_defense res actor i skill faces conceded)"
proof (rule keepsI)
  fix w
  assume s: "safe w0 w"
  have a: "keeps (safe w0) (sthen (on_scene f) (\<lambda>w. (Inr (g w), w)))" for f and g :: "fate_world \<Rightarrow> defense_result" by (intro wp)
  have b: "keeps (safe w0) (sbind (lift_res r) (\<lambda>o'. sthen (on_scene (f o')) (\<lambda>w. (Inr (g o' w), w))))" for r f and g :: "fate_outcome \<Rightarrow> fate_world \<Rightarrow> defense_result"
    by (intro wp)
  show "safe w0 (snd (dispatch_fate_defense res actor i skill faces conceded w))"
    using s by (auto simp: dispatch_fate_defense_def split: option.split intro!: sm_keepsD[OF a] sm_keepsD[OF b])
qed

end
