(* ===== verification/Fate_Defenses.thy ===== *)
theory Fate_Defenses
  imports Fate_Runs
begin

text \<open>
  Which defense answers an attack: the walk of an exchange reads the ledger of defenses as a dict keyed by the
  defender, and nothing else it does looks at the ledger.
\<close>

section \<open>What does not look at the ledger\<close>

definition with_pending :: "pending_defense list \<Rightarrow> fate_world \<Rightarrow> fate_world" where
  "with_pending ps w = w\<lparr>scene := (scene w)\<lparr>pending_defenses := ps\<rparr>\<rparr>"

definition blind :: "(fate_world, 'a) sm \<Rightarrow> bool" where
  "blind m \<longleftrightarrow> (\<forall>ps w. m (with_pending ps w) = map_prod id (with_pending ps) (m w))"

named_theorems blind_rules \<open>computations that do not look at the ledger of defenses\<close>

lemma blindD: "blind m \<Longrightarrow> m (with_pending ps w) = map_prod id (with_pending ps) (m w)"
  by (simp add: blind_def)

lemma with_pending_simps [simp]:
  "seated n (with_pending ps w) = seated n w" "sheet_of res (with_pending ps w) n = sheet_of res w n"
  "is_resolved (with_pending ps w) = is_resolved w" "is_mental (with_pending ps w) = is_mental w"
  "skill_rating res (with_pending ps w) n s = skill_rating res w n s" "sheets (with_pending ps w) = sheets w"
  "fate_commits (scene (with_pending ps w)) = fate_commits (scene w)" "base_enc (scene (with_pending ps w)) = base_enc (scene w)"
  "pending_defenses (scene (with_pending ps w)) = ps" "tape (with_pending ps w) = tape w" "pc_names (with_pending ps w) = pc_names w"
  "with_pending ps (with_pending qs w) = with_pending ps w"
  by (simp_all add: with_pending_def seated_def sheet_of_def is_resolved_def is_mental_def skill_rating_def cong: option.case_cong)

lemma blind_ret [blind_rules]: "blind (ret x)" and blind_lift [blind_rules]: "blind (lift_res r)"
  by (simp_all add: blind_def ret_def lift_res_def)

lemma blind_sbind [blind_rules]:
  assumes "blind m" and "\<And>x. blind (f x)"
  shows "blind (sbind m f)"
  unfolding blind_def
proof (intro allI)
  fix ps w
  obtain r w' where m: "m w = (r, w')" by fastforce
  then show "sbind m f (with_pending ps w) = map_prod id (with_pending ps) (sbind m f w)"
    using blindD[OF assms(1), of ps w] blindD[OF assms(2), of _ ps w'] by (cases r) (simp_all add: sbind_def)
qed

lemma blind_sthen [blind_rules]: "blind m \<Longrightarrow> blind k \<Longrightarrow> blind (sthen m k)"
  unfolding sthen_def by (rule blind_sbind)

lemma blind_if [blind_rules]: "(b \<Longrightarrow> blind m) \<Longrightarrow> (\<not> b \<Longrightarrow> blind k) \<Longrightarrow> blind (if b then m else k)"
  by simp

lemma blind_smap [blind_rules]: "(\<And>x. blind (f x)) \<Longrightarrow> blind (smap f xs)"
  by (induction xs) (simp_all add: blind_rules)

lemma blind_sforeach [blind_rules]: "(\<And>x. blind (f x)) \<Longrightarrow> blind (sforeach f xs)"
  by (induction xs) (simp_all add: blind_rules)

lemma blind_scene [blind_rules]: "(\<And>ps sc. f (sc\<lparr>pending_defenses := ps\<rparr>) = (f sc)\<lparr>pending_defenses := ps\<rparr>) \<Longrightarrow> blind (on_scene f)"
  by (simp add: blind_def on_scene_def modify_def with_pending_def)

lemma blind_tape [blind_rules]: "blind (on_tape m)"
  by (simp add: blind_def on_tape_def split_beta with_pending_def)

lemma blind_sheet [blind_rules]: "blind (on_sheet res n err m)"
  by (auto simp: blind_def on_sheet_def split_beta with_pending_def sheet_of_def split: option.splits)

lemma scene_commutes [simp]:
  "log_line l (sc\<lparr>pending_defenses := ps\<rparr>) = (log_line l sc)\<lparr>pending_defenses := ps\<rparr>"
  "add_situation t k n (sc\<lparr>pending_defenses := ps\<rparr>) = (add_situation t k n sc)\<lparr>pending_defenses := ps\<rparr>"
  "withdraw t (sc\<lparr>pending_defenses := ps\<rparr>) = (withdraw t sc)\<lparr>pending_defenses := ps\<rparr>"
  "maybe_resolve_side_cleared (sc\<lparr>pending_defenses := ps\<rparr>) = (maybe_resolve_side_cleared sc)\<lparr>pending_defenses := ps\<rparr>"
  by (auto simp: log_line_def add_situation_def withdraw_def maybe_resolve_side_cleared_def Let_def)

lemma blind_hint [blind_rules]: "(\<And>ps sc. f (sc\<lparr>pending_defenses := ps\<rparr>) = (f sc)\<lparr>pending_defenses := ps\<rparr>) \<Longrightarrow> blind (sthen (on_scene f) (ret x))"
  by (intro blind_rules)

lemma blind_strike [blind_rules]: "blind (strike res c t mental d k)"
proof -
  have "blind (\<lambda>w. case seated t w of None \<Rightarrow> (Inl e, w)
      | Some _ \<Rightarrow> sthen (on_scene (\<lambda>sc. maybe_resolve_side_cleared (log_line l (withdraw t sc)))) (ret x) w)" for e l and x :: "string list"
  proof -
    have "blind (sthen (on_scene (\<lambda>sc. maybe_resolve_side_cleared (log_line l (withdraw t sc)))) (ret x))" by (rule blind_hint) simp
    from blindD[OF this] show ?thesis by (auto simp: blind_def split: option.split)
  qed
  then show ?thesis unfolding strike_def Let_def by (intro blind_if blind_hint blind_sbind blind_sheet) simp_all
qed

lemma blind_defense [blind_rules]: "blind (roll_defense res t mental)"
proof -
  have "blind (sbind (on_tape m) (\<lambda>o'. ret (ladder_total o')))" for m :: "(rng, fate_outcome) sm" by (intro blind_rules)
  from blindD[OF this] show ?thesis by (simp add: blind_def roll_defense_def)
qed

lemma blind_attack [blind_rules]: "blind (resolve_attack res mental rec c)"
proof -
  have a: "blind (sthen (on_scene (\<lambda>sc. maybe_resolve_side_cleared (log_line l (withdraw t sc)))) (ret x))" for l t and x :: "string list"
    by (rule blind_hint) simp
  have b: "blind (sbind (roll_defense res t mental) (\<lambda>d. strike res c t mental d k))" for t k by (intro blind_rules)
  show ?thesis unfolding blind_def resolve_attack_def using blindD[OF a] blindD[OF b] blindD[OF blind_strike]
    by (auto split: option.split)
qed

lemma blind_opposition [blind_rules]: "blind (opposition_total res mental c)"
  by (cases "cm_target c") (simp_all add: opposition_total_def blind_rules)

lemma blind_actions [blind_rules]: "blind (resolve_create_advantage res mental c)" "blind (resolve_overcome res mental c)"
proof -
  show "blind (resolve_create_advantage res mental c)" unfolding resolve_create_advantage_def Let_def
    by (intro blind_sbind[OF blind_opposition] blind_if blind_hint) simp_all
  show "blind (resolve_overcome res mental c)" unfolding resolve_overcome_def Let_def
    by (intro blind_sbind[OF blind_opposition]) (simp add: blind_hint)
qed

lemma blind_slot [blind_rules]: "blind (resolve_slot res mental rec cs n)"
  unfolding blind_def resolve_slot_def using blindD[OF blind_attack] blindD[OF blind_actions(1)] blindD[OF blind_actions(2)]
  by (auto split: option.split fate_action.split)

lemma blind_seal [blind_rules]: "blind (seal_fate_commit c)"
proof -
  have "blind (on_scene (\<lambda>sc. sc\<lparr>fate_commits := fate_commits sc @ [c]\<rparr>))" by (rule blind_scene) simp
  from blindD[OF this] show ?thesis by (simp add: blind_def seal_fate_commit_def)
qed

lemma blind_seat [blind_rules]: "blind (seat_opponent res mental opp)"
proof -
  have b: "blind (sbind (on_tape m) (\<lambda>o'. seal_fate_commit (f o')))" for m and f :: "fate_outcome \<Rightarrow> sealed_commit" by (intro blind_rules)
  have d: "decide_opponent_action res opp mental (with_pending ps w) = decide_opponent_action res opp mental w" for ps w
    by (simp add: decide_opponent_action_def select_target_def live_player_actors_def cong: option.case_cong list.case_cong)
  show ?thesis unfolding blind_def seat_opponent_def d using blindD[OF b] by (auto split: sum.split option.split)
qed

lemma blind_seats [blind_rules]: "blind (seat_opponent_commits res mental)"
proof -
  have "blind (sforeach (\<lambda>n. if n \<in> d then ret () else seat_opponent res mental n) ns)" for d ns by (intro blind_rules)
  from blindD[OF this] show ?thesis unfolding blind_def seat_opponent_commits_def Let_def by simp
qed

section \<open>The last defense answers for all attacks on a defender\<close>

lemma walk_pending:
  assumes "last_by pd_defender ps = last_by pd_defender qs"
  shows "walk_exchange res mental (with_pending ps w) = map_prod id (with_pending ps) (walk_exchange res mental (with_pending qs w))"
proof -
  let ?commits = "last_by cm_actor (fate_commits (scene w))" and ?rec = "last_by pd_defender qs"
  let ?order = "fate_turn_order res mental w"
  have o: "fate_turn_order res mental (with_pending rs w) = ?order" for rs by (simp add: fate_turn_order_def)
  have "blind (\<lambda>w. (Inr (f w), w))" if "\<And>ps w. f (with_pending ps w) = f w" for f :: "fate_world \<Rightarrow> exchange_result" using that by (simp add: blind_def)
  then have "blind (sbind (smap (resolve_slot res mental ?rec ?commits) ?order) (\<lambda>hs.
      sthen (on_scene (\<lambda>sc. sc\<lparr>fate_commits := [], narrator_hints := narrator_hints sc @ concat hs\<rparr>))
        (\<lambda>w. (Inr \<lparr>resolution_order = ?order, ex_resolved = is_resolved w, ex_hints = concat hs\<rparr>, w))))" (is "blind ?m")
    by (intro blind_rules) simp_all
  note m = blindD[OF this, of _ w]
  have e: "walk_exchange res mental (with_pending rs w) = ?m (with_pending rs w)" if "last_by pd_defender rs = ?rec" for rs
    unfolding walk_exchange_def Let_def o with_pending_simps that ..
  show ?thesis unfolding e[OF assms] e[OF refl] m by (cases "?m w") simp
qed

lemma run_pending:
  assumes "last_by pd_defender ps = last_by pd_defender qs"
  shows "run_fate_exchange res (with_pending ps w) = map_prod id (with_pending ps) (run_fate_exchange res (with_pending qs w))"
proof -
  let ?pre = "sthen (on_scene (\<lambda>sc. sc\<lparr>resolution_log := []\<rparr>)) (seat_opponent_commits res (is_mental w))"
  have b: "blind ?pre" by (intro blind_rules) simp
  have r: "run_fate_exchange res v = sthen ?pre (walk_exchange res (is_mental w)) v" if "is_mental v = is_mental w" for v
    using that by (auto simp: run_fate_exchange_def sthen_def sbind_def on_scene_def modify_def split: prod.split sum.split)
  obtain x w' where p: "?pre w = (x, w')" by fastforce
  then have "?pre (with_pending rs w) = (x, with_pending rs w')" for rs using blindD[OF b, of rs w] by simp
  then show ?thesis using walk_pending[OF assms, of res "is_mental w" w'] by (cases x) (simp_all add: r sthen_def sbind_def)
qed

lemma last_by_drop: "q \<in> set zs \<Longrightarrow> key q = key e \<Longrightarrow> last_by key (xs @ e # zs) = last_by key (xs @ zs)"
proof
  fix k
  assume q: "q \<in> set zs" "key q = key e"
  then have "k = key e \<Longrightarrow> map_of (rev (map (\<lambda>x. (key x, x)) zs)) k \<noteq> None" by (simp add: map_of_eq_None_iff image_image) (metis imageI)
  then show "last_by key (xs @ e # zs) k = last_by key (xs @ zs) k"
    by (auto simp: last_by_def map_add_def split: option.split)
qed


end
