(* ===== verification/Fate_Chargen.thy ===== *)
theory Fate_Chargen
  imports Fate
begin

text \<open>
  Building a Fate sheet (src/sidequest/game/ruleset/fate_chargen.py, the chargen methods of
  game/ruleset/fate.py, FateConfig of genre/models/rules.py): the skill pyramid, the one authority on
  legality, the interactive path, the default seed, the sheet of an opponent, and the world's seed table.
\<close>

section \<open>Configuration and choices\<close>

record 'seed fate_config =
  cfg_skills :: "(string \<times> int) list"
  cfg_refresh :: int
  default_high_concept :: string
  default_trouble :: string
  cfg_stunts :: "(string \<times> string) list"
  chargen_pyramid :: "int list"
  chargen_apex_rating :: int
  free_aspect_count :: int
  free_stunts :: int
  base_refresh :: int
  gear :: "string list"
  gear_catalog :: "gear_def list"
  chargen_seed_table :: "(string \<times> 'seed) list"

text \<open>The validator of the pyramid's shape: no rung is empty, and none is wider than the one below.\<close>

fun apex_narrowest :: "int list \<Rightarrow> bool" where
  "apex_narrowest (a # b # v) = (a \<le> b \<and> apex_narrowest (b # v))"
| "apex_narrowest v = True"

definition chargen_pyramid_apex_narrowest :: "int list \<Rightarrow> int list res" where
  "chargen_pyramid_apex_narrowest v =
     (if list_ex (\<lambda>c. c < 1) v then Inl (ValueError ''chargen_pyramid rung counts must be >= 1'')
      else if \<not> apex_narrowest v then Inl (ValueError ''chargen_pyramid must be apex-narrowest'')
      else Inr v)"

record fate_choices =
  archetype :: string
  high_concept :: string
  trouble :: string
  free_aspects :: "string list"
  pyramid :: "(string \<times> int) list"
  chosen_stunts :: "string list"

definition required_refresh :: "'seed fate_config \<Rightarrow> int \<Rightarrow> int" where
  "required_refresh cfg n = max 1 (cfg_refresh cfg - max 0 (n - free_stunts cfg))"

definition expected_rung_counts :: "'seed fate_config \<Rightarrow> (int \<times> int) list" where
  "expected_rung_counts cfg = map (\<lambda>(i, c). (chargen_apex_rating cfg - int i, c)) (enumerate 0 (chargen_pyramid cfg))"

definition build_fate_sheet :: "fate_choices \<Rightarrow> 'seed fate_config \<Rightarrow> fate_sheet" where
  "build_fate_sheet ch cfg =
     (let r = required_refresh cfg (int (length (chosen_stunts ch))) in
      empty_sheet\<lparr>
        aspects := [new_aspect (high_concept ch) HighConcept, new_aspect (trouble ch) Trouble] @
                   map (\<lambda>a. new_aspect a CharacterAspect) (free_aspects ch),
        skills := pyramid ch,
        stunts := map (\<lambda>n. \<lparr>stunt_name = n, stunt_description = dict_get (dict_of (cfg_stunts cfg)) n [], stunt_gear = None\<rparr>) (chosen_stunts ch),
        refresh := r, fate_points := r\<rparr>)"

section \<open>Legality\<close>

text \<open>A violation is reported as a message; the constructors name the messages and what they show.\<close>

datatype fate_violation =
    NotARung int
  | RungCount int int nat
  | UnknownSkill string
  | MissingHighConcept
  | MissingTrouble
  | TooManyFreeAspects nat
  | EmptyFreeAspect
  | UnknownStunt string
  | RefreshMismatch int int

definition placed_at :: "(string \<times> int) list \<Rightarrow> int \<Rightarrow> nat" where
  "placed_at alloc r = length (filter (\<lambda>p. snd p > 0 \<and> snd p = r) alloc)"

definition pyramid_violations :: "(string \<times> int) list \<Rightarrow> 'seed fate_config \<Rightarrow> fate_violation list" where
  "pyramid_violations alloc cfg =
     (let expected = expected_rung_counts cfg;
          ratings = remdups (filter (\<lambda>r. r > 0) (map snd alloc))
      in map NotARung (filter (\<lambda>r. r \<notin> fst ` set expected) (rev (sort ratings))) @
         map (\<lambda>(r, want). RungCount r want (placed_at alloc r)) (filter (\<lambda>(r, want). int (placed_at alloc r) \<noteq> want) expected) @
         map (\<lambda>p. UnknownSkill (fst p)) (filter (\<lambda>p. fst p \<notin> fst ` set (cfg_skills cfg)) alloc))"

definition stunt_catalog_violations :: "string list \<Rightarrow> 'seed fate_config \<Rightarrow> fate_violation list" where
  "stunt_catalog_violations ns cfg = map UnknownStunt (filter (\<lambda>n. n \<notin> fst ` set (cfg_stunts cfg)) ns)"

definition validate_fate_sheet :: "fate_sheet \<Rightarrow> 'seed fate_config \<Rightarrow> fate_violation list" where
  "validate_fate_sheet sh cfg =
     (let has = (\<lambda>k. list_ex (\<lambda>a. aspect_kind a = k \<and> \<not> blank (aspect_text a)) (aspects sh));
          free = filter (\<lambda>a. aspect_kind a = CharacterAspect) (aspects sh);
          want = required_refresh cfg (int (length (stunts sh)))
      in pyramid_violations (skills sh) cfg @
         (if has HighConcept then [] else [MissingHighConcept]) @
         (if has Trouble then [] else [MissingTrouble]) @
         (if int (length free) > free_aspect_count cfg then [TooManyFreeAspects (length free)] else []) @
         (if list_ex (\<lambda>a. blank (aspect_text a)) free then [EmptyFreeAspect] else []) @
         stunt_catalog_violations (map stunt_name (stunts sh)) cfg @
         (if refresh sh \<noteq> want then [RefreshMismatch (refresh sh) want] else []))"

section \<open>The chargen paths\<close>

text \<open>The configuration of the pack; a pack that is not bound to Fate has none.\<close>

definition with_gear :: "'seed fate_config \<Rightarrow> fate_sheet \<Rightarrow> fate_sheet res" where
  "with_gear cfg sh =
     (if gear cfg = [] then Inr sh
      else case compile_gear_onto_sheet (gear cfg) (gear_catalog cfg) (base_refresh cfg) (free_stunts cfg) sh of
        (Inl e, _) \<Rightarrow> Inl e | (Inr _, sh') \<Rightarrow> Inr sh')"

definition seed_chargen_resources :: "'seed fate_config option \<Rightarrow> fate_sheet res" where
  "seed_chargen_resources c =
     (case c of None \<Rightarrow> Inl (FateEconomyError ''requires a FateConfig'')
      | Some cfg \<Rightarrow> with_gear cfg (empty_sheet\<lparr>
          skills := cfg_skills cfg,
          aspects := (if default_high_concept cfg \<noteq> [] then [new_aspect (default_high_concept cfg) HighConcept] else []) @
                     (if default_trouble cfg \<noteq> [] then [new_aspect (default_trouble cfg) Trouble] else []),
          refresh := cfg_refresh cfg, fate_points := cfg_refresh cfg\<rparr>))"

definition apply_fate_chargen :: "'seed fate_config option \<Rightarrow> fate_choices \<Rightarrow> fate_sheet res" where
  "apply_fate_chargen c ch =
     (case c of None \<Rightarrow> Inl (FateEconomyError ''requires a FateConfig'')
      | Some cfg \<Rightarrow>
          let sh = build_fate_sheet ch cfg in
          if validate_fate_sheet sh cfg \<noteq> [] then Inl (FateChargenError ''produced an illegal sheet'') else with_gear cfg sh)"

definition seed_opponent_fate_sheet :: "'seed fate_config option \<Rightarrow> fate_sheet res" where
  "seed_opponent_fate_sheet c =
     (case c of None \<Rightarrow> Inl (FateEconomyError ''requires a FateConfig'')
      | Some cfg \<Rightarrow> Inr (empty_sheet\<lparr>skills := cfg_skills cfg, refresh := cfg_refresh cfg, fate_points := cfg_refresh cfg\<rparr>))"

text \<open>The first hint that names a seed wins; an empty hint counts as absent.\<close>

definition select_chargen_seed :: "(string \<times> 'seed) list \<Rightarrow> string option \<Rightarrow> string option \<Rightarrow> string option \<Rightarrow> (string \<times> 'seed) option" where
  "select_chargen_seed table class_hint role_hint background =
     (case find (\<lambda>h. case h of None \<Rightarrow> False | Some x \<Rightarrow> x \<noteq> [] \<and> dict_has table x) [class_hint, role_hint, background] of
        Some (Some x) \<Rightarrow> map_option (Pair x) (map_of table x)
      | _ \<Rightarrow> None)"

definition resolve_fate_chargen_seed_table :: "(string \<times> 'seed) list \<Rightarrow> (string \<times> 'seed) list option \<Rightarrow> (string \<times> 'seed) list" where
  "resolve_fate_chargen_seed_table genre_table world_table =
     (case world_table of None \<Rightarrow> genre_table | Some w \<Rightarrow> fold (\<lambda>(k, v). AList.update k v) w genre_table)"

section \<open>What chargen returns\<close>

lemma legal_pyramid:
  assumes "pyramid_violations alloc cfg = []"
  shows "\<forall>(r, want) \<in> set (expected_rung_counts cfg). int (placed_at alloc r) = want"
    and "\<forall>(s, r) \<in> set alloc. s \<in> fst ` set (cfg_skills cfg) \<and> (r > 0 \<longrightarrow> r \<in> fst ` set (expected_rung_counts cfg))"
proof -
  have n: "\<forall>r \<in> set (rev (sort (remdups (filter (\<lambda>r. r > 0) (map snd alloc))))). r \<in> fst ` set (expected_rung_counts cfg)"
    and c: "\<forall>p \<in> set (expected_rung_counts cfg). \<not> (case p of (r, want) \<Rightarrow> int (placed_at alloc r) \<noteq> want)"
    and k: "\<forall>p \<in> set alloc. fst p \<in> fst ` set (cfg_skills cfg)"
    using assms unfolding pyramid_violations_def Let_def append_is_Nil_conv map_is_Nil_conv filter_empty_conv not_not by blast+
  show "\<forall>(r, want) \<in> set (expected_rung_counts cfg). int (placed_at alloc r) = want" using c by (simp add: split_beta)
  have "s \<in> fst ` set (cfg_skills cfg) \<and> (r > 0 \<longrightarrow> r \<in> fst ` set (expected_rung_counts cfg))" if a: "(s, r) \<in> set alloc" for s r
  proof
    show "s \<in> fst ` set (cfg_skills cfg)" using bspec[OF k a] by simp
    have "r \<in> snd ` set alloc" using a image_iff by fastforce
    then show "r > 0 \<longrightarrow> r \<in> fst ` set (expected_rung_counts cfg)" using n by simp
  qed
  then show "\<forall>(s, r) \<in> set alloc. s \<in> fst ` set (cfg_skills cfg) \<and> (r > 0 \<longrightarrow> r \<in> fst ` set (expected_rung_counts cfg))" by blast
qed

lemma gear_sheet:
  assumes "with_gear cfg sh = Inr sh'"
  shows "skills sh' = skills sh \<and> stress sh' = stress sh \<and> consequences sh' = consequences sh \<and>
    (\<exists>new_asp. aspects sh' = aspects sh @ new_asp \<and> (\<forall>a \<in> set new_asp. source_gear a \<noteq> None)) \<and>
    (refresh sh', fate_points sh') = (if gear cfg = [] then (refresh sh, fate_points sh)
      else let r = max 1 (base_refresh cfg - max 0 (int (length (stunts sh')) - free_stunts cfg)) in (r, r))"
  using assms by (auto simp: with_gear_def compile_gear_onto_sheet_def Let_def granted_aspects_def REFRESH_FLOOR_def split: if_splits sum.splits)

text \<open>
  A sheet built from a player's choices is legal: every rung of the pyramid holds the number of skills the pack
  asks for, every skill is the pack's and sits on a rung, the two mandatory aspects have text, and play starts with
  as many fate points as refresh. With gear, the refresh is the one of \<open>base_refresh\<close>, whatever \<open>refresh\<close> says:
  the two settings are not tied to each other, so gear without a stunt can change a sheet's refresh.
\<close>

theorem chargen_yields_a_legal_sheet:
  assumes "apply_fate_chargen (Some cfg) ch = Inr sh"
  shows "(\<forall>(r, want) \<in> set (expected_rung_counts cfg). int (placed_at (skills sh) r) = want) \<and>
    (\<forall>(s, r) \<in> set (skills sh). s \<in> fst ` set (cfg_skills cfg) \<and> (r > 0 \<longrightarrow> r \<in> fst ` set (expected_rung_counts cfg))) \<and>
    (\<exists>a b. {a, b} \<subseteq> set (aspects sh) \<and> aspect_kind a = HighConcept \<and> aspect_kind b = Trouble \<and> \<not> blank (aspect_text a) \<and> \<not> blank (aspect_text b)) \<and>
    fate_points sh = refresh sh \<and> 1 \<le> refresh sh \<and>
    refresh sh = max 1 ((if gear cfg = [] then cfg_refresh cfg else base_refresh cfg) - max 0 (int (length (stunts sh)) - free_stunts cfg))"
proof -
  let ?sh = "build_fate_sheet ch cfg"
  have v: "validate_fate_sheet ?sh cfg = []" and g: "with_gear cfg ?sh = Inr sh"
    using assms by (auto simp: apply_fate_chargen_def Let_def split: if_splits)
  note gs = gear_sheet[OF g]
  have p: "pyramid_violations (skills sh) cfg = []" using v gs by (simp add: validate_fate_sheet_def Let_def)
  have h: "list_ex (\<lambda>a. aspect_kind a = HighConcept \<and> \<not> blank (aspect_text a)) (aspects ?sh)"
    and t: "list_ex (\<lambda>a. aspect_kind a = Trouble \<and> \<not> blank (aspect_text a)) (aspects ?sh)"
    using v by (auto simp: validate_fate_sheet_def Let_def split: if_splits)
  obtain a b where ab: "a \<in> set (aspects ?sh)" "b \<in> set (aspects ?sh)" "aspect_kind a = HighConcept" "aspect_kind b = Trouble"
      "\<not> blank (aspect_text a)" "\<not> blank (aspect_text b)" using h t by (auto simp: list_ex_iff)
  have sub: "set (aspects ?sh) \<subseteq> set (aspects sh)" using gs by auto
  have e: "\<exists>a b. {a, b} \<subseteq> set (aspects sh) \<and> aspect_kind a = HighConcept \<and> aspect_kind b = Trouble \<and> \<not> blank (aspect_text a) \<and> \<not> blank (aspect_text b)"
    using ab sub by blast
  have r: "fate_points sh = refresh sh \<and>
      refresh sh = max 1 ((if gear cfg = [] then cfg_refresh cfg else base_refresh cfg) - max 0 (int (length (stunts sh)) - free_stunts cfg))"
  proof (cases "gear cfg = []")
    case True
    then have "sh = ?sh" using g by (simp add: with_gear_def)
    then show ?thesis using True by (simp add: build_fate_sheet_def required_refresh_def Let_def)
  next
    case False
    then show ?thesis using gs by (simp add: Let_def)
  qed
  then show ?thesis using legal_pyramid[OF p] e by auto
qed

definition sample_config :: "unit fate_config" where
  "sample_config = \<lparr>cfg_skills = [(''Fight'', 1), (''Will'', 1), (''Notice'', 0)], cfg_refresh = 5, default_high_concept = [], default_trouble = [],
     cfg_stunts = [(''Backup Gun'', [])], chargen_pyramid = [1, 1], chargen_apex_rating = 2, free_aspect_count = 1, free_stunts = 1, base_refresh = 3,
     gear = [''coat''], gear_catalog = [\<lparr>gear_id = ''coat'', gear_name = ''The Coat'', grants_aspects = [(''Long Coat'', CharacterAspect)], grants_stunts = []\<rparr>],
     chargen_seed_table = []\<rparr>"

definition sample_choices :: fate_choices where
  "sample_choices = \<lparr>archetype = [], high_concept = ''Tired Detective'', trouble = ''Owes the Mob'', free_aspects = [],
     pyramid = [(''Fight'', 2), (''Will'', 1)], chosen_stunts = [''Backup Gun'']\<rparr>"

text \<open>A coat, which grants no stunt, takes two points of refresh from a pack that sets only \<open>refresh\<close>.\<close>

theorem chargen_yields_a_legal_sheet_witness:
  "\<exists>sh. apply_fate_chargen (Some sample_config) sample_choices = Inr sh \<and> refresh sh = 3 \<and> cfg_refresh sample_config = 5 \<and> length (stunts sh) = 1"
proof -
  have *: "map_sum (\<lambda>_. ()) (\<lambda>sh. length (stunts sh)) (apply_fate_chargen (Some sample_config) sample_choices) = Inr 1" by code_simp
  then obtain sh where sh: "apply_fate_chargen (Some sample_config) sample_choices = Inr sh" "length (stunts sh) = 1"
    by (cases "apply_fate_chargen (Some sample_config) sample_choices") auto
  from chargen_yields_a_legal_sheet[OF sh(1)] sh show ?thesis by (auto simp: sample_config_def)
qed

end
