(* ===== verification/Fate_Projection.thy ===== *)
theory Fate_Projection
  imports Fate_Dispatch
begin

text \<open>
  What of the Fate state is shown (src/sidequest/game/ruleset/fate_projection.py): the compact vocabulary of the
  narrator and the router, the players' full view with the opponents' tracks, the meter of an opponent, and a roll.
\<close>

section \<open>The compact projection\<close>

record fate_vocabulary =
  voc_skills :: "(string \<times> (string \<times> int) list) list"
  voc_points :: "(string \<times> int) list"
  voc_aspects :: "(string \<times> string list) list option"
  voc_scene :: "string list option"
  voc_active :: bool

definition pc_sheets :: "edge_resolver \<Rightarrow> fate_world \<Rightarrow> (string \<times> fate_sheet) list" where
  "pc_sheets res w = List.map_filter (\<lambda>n. map_option (Pair n) (sheet_of res w n)) (pc_names w)"

definition live_conflict :: "fate_world \<Rightarrow> bool" where
  "live_conflict w \<longleftrightarrow> in_encounter w \<and> \<not> is_resolved w"

definition build_fate_projection :: "edge_resolver \<Rightarrow> fate_world \<Rightarrow> fate_vocabulary" where
  "build_fate_projection res w =
     (let ps = pc_sheets res w in
      \<lparr>voc_skills = dict_of (map (\<lambda>(n, sh). (n, skills sh)) ps),
       voc_points = dict_of (map (\<lambda>(n, sh). (n, fate_points sh)) ps),
       voc_aspects = Some (dict_of (map (\<lambda>(n, sh). (n, map (\<lambda>a. sanitize_player_text (aspect_text a)) (all_aspects sh))) ps)),
       voc_scene = Some (if live_conflict w then map (\<lambda>a. sanitize_player_text (aspect_text a)) (situation_aspects (scene w)) else []),
       voc_active = live_conflict w\<rparr>)"

definition trim_fate_projection_for_router :: "fate_vocabulary \<Rightarrow> fate_vocabulary" where
  "trim_fate_projection_for_router v = v\<lparr>voc_aspects := None, voc_scene := None\<rparr>"

section \<open>The players' view\<close>

record consequence_entry =
  ce_level :: string
  ce_value :: int
  ce_filled :: bool
  ce_text :: string

definition project_consequences :: "fate_sheet \<Rightarrow> consequence_entry list" where
  "project_consequences sh =
     map (\<lambda>c. \<lparr>ce_level = cons_level c, ce_value = cons_value c, ce_filled = cons_aspect c \<noteq> None,
               ce_text = (case cons_aspect c of None \<Rightarrow> [] | Some a \<Rightarrow> aspect_text a)\<rparr>) (consequences sh)"

record participant =
  pt_name :: string
  pt_display :: "string option"
  pt_side :: actor_side
  pt_committed :: bool
  pt_stress :: "(string \<times> stress_box list) list"
  pt_consequences :: "consequence_entry list"

definition project_conflict_participant :: "edge_resolver \<Rightarrow> fate_world \<Rightarrow> encounter_actor \<Rightarrow> participant" where
  "project_conflict_participant res w a =
     (let track = (if side a = Player then None else sheet_of res w (actor_name a)) in
      \<lparr>pt_name = actor_name a, pt_display = display_name a, pt_side = side a,
       pt_committed = (in_encounter w \<and> actor_name a \<in> cm_actor ` set (fate_commits (scene w))),
       pt_stress = (case track of None \<Rightarrow> [] | Some sh \<Rightarrow> stress sh),
       pt_consequences = (case track of None \<Rightarrow> [] | Some sh \<Rightarrow> project_consequences sh)\<rparr>)"

record character_entry =
  ch_name :: string
  ch_points :: int
  ch_refresh :: int
  ch_skills :: "(string \<times> int \<times> string) list"
  ch_aspects :: "(string \<times> aspect_kind \<times> int) list"
  ch_stress :: "(string \<times> stress_box list) list"
  ch_consequences :: "consequence_entry list"
  ch_stunts :: "stunt list"

record conflict_entry =
  participants :: "participant list"
  view_compels :: "pending_compel list"
  is_contest :: bool
  last_exchange :: "exchange_line list"

record fate_state_payload =
  fs_characters :: "character_entry list"
  fs_scene_aspects :: "(string \<times> aspect_kind \<times> int) list"
  fs_conflict :: "conflict_entry option"

definition aspect_entry :: "aspect \<Rightarrow> string \<times> aspect_kind \<times> int" where
  "aspect_entry a = (aspect_text a, aspect_kind a, free_invokes a)"

definition character_entry_of :: "string \<times> fate_sheet \<Rightarrow> character_entry" where
  "character_entry_of = (\<lambda>(n, sh).
     \<lparr>ch_name = n, ch_points = fate_points sh, ch_refresh = refresh sh, ch_skills = map (\<lambda>(s, r). (s, r, ladder_name r)) (skills sh),
      ch_aspects = map aspect_entry (aspects sh), ch_stress = stress sh, ch_consequences = project_consequences sh, ch_stunts = stunts sh\<rparr>)"

definition build_fate_state_payload :: "edge_resolver \<Rightarrow> fate_world \<Rightarrow> fate_state_payload" where
  "build_fate_state_payload res w =
     \<lparr>fs_characters = map character_entry_of (pc_sheets res w),
      fs_scene_aspects = (if live_conflict w then map aspect_entry (situation_aspects (scene w)) else []),
      fs_conflict = (if live_conflict w then Some
        \<lparr>participants = map (project_conflict_participant res w) (actors (base_enc (scene w))),
         view_compels = pending_compels (base_enc (scene w)), is_contest = contest (scene w) \<noteq> None,
         last_exchange = resolution_log (scene w)\<rparr> else None)\<rparr>"

text \<open>The win meter: what is used of an opponent's boxes and slots over what there is.\<close>

definition track_capacity :: "participant \<Rightarrow> int" where
  "track_capacity p = sum_list (map box_value (concat (map snd (pt_stress p)))) + sum_list (map ce_value (pt_consequences p))"

definition track_used :: "participant \<Rightarrow> int" where
  "track_used p = sum_list (map box_value (filter checked (concat (map snd (pt_stress p))))) +
     sum_list (map ce_value (filter ce_filled (pt_consequences p)))"

definition conflict_opponent_progress :: "conflict_entry option \<Rightarrow> (string \<times> rat) list" where
  "conflict_opponent_progress c =
     (case c of None \<Rightarrow> []
      | Some c \<Rightarrow> map (\<lambda>p. (pt_name p, rnd (of_int (track_used p) / of_int (track_capacity p))))
                   (filter (\<lambda>p. pt_side p \<noteq> Player \<and> track_capacity p > 0) (participants c)))"

section \<open>A roll\<close>

definition fallback_seed :: "int list \<Rightarrow> int" where
  "fallback_seed dice = fold (\<lambda>f s. s * 7 + (f + 1)) dice 0 + 1"

record roll_payload =
  rp_outcome :: fate_outcome
  rp_ladder :: string
  rp_style :: bool
  rp_seed :: int

definition build_fate_roll_payload :: "fate_outcome \<Rightarrow> int option \<Rightarrow> roll_payload" where
  "build_fate_roll_payload o' seed =
     \<lparr>rp_outcome = o', rp_ladder = ladder_name (ladder_total o'), rp_style = (fo_tier o' = SucceedWithStyle),
      rp_seed = (case seed of None \<Rightarrow> fallback_seed (fo_dice o') | Some s \<Rightarrow> s)\<rparr>"

section \<open>The meter stays on its scale\<close>

lemma sum_filter_le: "(\<forall>x \<in> set xs. (0 :: int) \<le> f x) \<Longrightarrow> 0 \<le> sum_list (map f (filter P xs)) \<and> sum_list (map f (filter P xs)) \<le> sum_list (map f xs)"
  by (induction xs) auto

lemma rnd_unit: "0 \<le> x \<Longrightarrow> x \<le> 1 \<Longrightarrow> 0 \<le> rnd x \<and> rnd x \<le> (1 :: rat)"
  using rnd_mono[of 0 x] rnd_mono[of x 1] rnd_int[of 1] by simp

text \<open>
  The win meter of an opponent is on the scale from nothing to taken out, and only an actor with a sheet has one.
\<close>

theorem opponent_meter_on_scale:
  assumes ok: "\<And>sh. sheet_of res w n = Some sh \<Longrightarrow>
      (\<forall>b \<in> set (concat (map snd (stress sh))). 0 \<le> box_value b) \<and> (\<forall>c \<in> set (consequences sh). 0 \<le> cons_value c)"
    and m: "(n, x) \<in> set (conflict_opponent_progress (fs_conflict (build_fate_state_payload res w)))"
  shows "0 \<le> x \<and> x \<le> 1 \<and> (\<exists>sh. sheet_of res w n = Some sh)"
proof -
  obtain a where a: "actor_name a = n" "side a \<noteq> Player"
    and x: "x = rnd (of_int (track_used (project_conflict_participant res w a)) / of_int (track_capacity (project_conflict_participant res w a)))"
    and c: "0 < track_capacity (project_conflict_participant res w a)"
    using m by (auto simp: conflict_opponent_progress_def build_fate_state_payload_def project_conflict_participant_def Let_def split: if_splits)
  let ?p = "project_conflict_participant res w a"
  have "sheet_of res w n \<noteq> None" using c a by (auto simp: track_capacity_def project_conflict_participant_def Let_def split: option.splits)
  then obtain sh where sh: "sheet_of res w n = Some sh" by blast
  have p: "pt_stress ?p = stress sh" "pt_consequences ?p = project_consequences sh" using sh a by (simp_all add: project_conflict_participant_def Let_def)
  have "\<forall>b \<in> set (concat (map snd (pt_stress ?p))). 0 \<le> box_value b" "\<forall>c \<in> set (pt_consequences ?p). 0 \<le> ce_value c"
    using ok[OF sh] p by (auto simp: project_consequences_def)
  then have "0 \<le> track_used ?p \<and> track_used ?p \<le> track_capacity ?p"
    using sum_filter_le[of "concat (map snd (pt_stress ?p))" box_value checked] sum_filter_le[of "pt_consequences ?p" ce_value ce_filled]
    by (auto simp: track_used_def track_capacity_def)
  then have "0 \<le> x \<and> x \<le> 1" unfolding x using c by (intro rnd_unit) (simp_all add: field_simps)
  then show ?thesis using sh by blast
qed

end
