(* ===== verification/Fate_Properties.thy ===== *)
theory Fate_Properties
  imports Fate_Defenses Fate_Chargen Fate_Projection
begin

text \<open>
  The theorems on the Fate engine: sheets over a campaign, who can fire an exchange after a concession, the
  tally of a contest, what a free invocation on the scene is good for, and the concrete runs behind them.
\<close>

section \<open>A campaign\<close>

inductive fate_reach :: "edge_resolver \<Rightarrow> fate_world \<Rightarrow> fate_world \<Rightarrow> bool" for res w0 where
  begun: "fate_reach res w0 w0"
| acted: "fate_reach res w0 w \<Longrightarrow> fate_reach res w0 (snd (fate_action_handler res slug rno actor p faces w))"
| defended: "fate_reach res w0 w \<Longrightarrow> fate_reach res w0 (snd (fate_defend_handler res actor i skill faces conceded w))"
| reconnected: "fate_reach res w0 w \<Longrightarrow> fate_reach res w0 (snd (reconnect slug defender w))"
| offered: "fate_reach res w0 w \<Longrightarrow> offer_compel asp actor why (Some (base_enc (scene w))) = Some e \<Longrightarrow>
    fate_reach res w0 (w\<lparr>scene := (scene w)\<lparr>base_enc := e\<rparr>\<rparr>)"
| next_scene: "fate_reach res w0 w \<Longrightarrow> fate_reach res w0 (w\<lparr>scene := sc, in_encounter := b, tape := t\<rparr>)"

lemma action_handler_safe: "safe w0 w \<Longrightarrow> safe w0 (snd (fate_action_handler res slug rno actor p faces w))"
  using sm_keepsD[OF dispatch_safe[of w0 res slug rno actor p faces], of w]
  by (auto simp: fate_action_handler_def split: prod.split sum.split)

lemma defend_handler_safe:
  assumes "safe w0 w"
  shows "safe w0 (snd (fate_defend_handler res actor i skill faces conceded w))"
proof -
  have k: "keeps (safe w0) (sbind (resume_fate_exchange res) (\<lambda>_ w. (Inr (Told (narrator_hints (scene w))), w)))"
    by (intro wp)
  show ?thesis using sm_keepsD[OF defense_safe[of w0 res actor i skill faces conceded] assms] sm_keepsD[OF k]
    by (auto simp: fate_defend_handler_def split: prod.split sum.split py_error.split)
qed

lemma reach_safe: "fate_reach res w0 w \<Longrightarrow> sound w0 \<Longrightarrow> safe w0 w"
proof (induction rule: fate_reach.induct)
  case (reconnected w slug defender)
  then show ?case by (auto simp: reconnect_def clear_orphaned_pending_defenses_def Let_def)
qed (auto simp: safe_refl action_handler_safe defend_handler_safe)


section \<open>Conceding last\<close>

lemma withdraw_actors:
  "actors (base_enc (withdraw n sc)) = map_first (\<lambda>a. actor_name a = n) (\<lambda>a. a\<lparr>withdrawn := True\<rparr>) (actors (base_enc sc))"
  by (simp add: withdraw_def)

lemma side_cleared_frame [simp]:
  "actors (base_enc (maybe_resolve_side_cleared sc)) = actors (base_enc sc)" "fate_commits (maybe_resolve_side_cleared sc) = fate_commits sc"
  "contest (maybe_resolve_side_cleared sc) = contest sc"
  by (auto simp: maybe_resolve_side_cleared_def Let_def resolve_with_def)

lemma map_first_withdrawn:
  "distinct (map actor_name as) \<Longrightarrow> a \<in> set (map_first (\<lambda>a. actor_name a = n) (\<lambda>a. a\<lparr>withdrawn := True\<rparr>) as) \<Longrightarrow> \<not> withdrawn a \<Longrightarrow>
    a \<in> set as \<and> actor_name a \<noteq> n"
proof (induction as)
  case (Cons x as)
  then show ?case by (auto simp: image_iff split: if_splits)
qed simp

lemma earn_many: "\<exists>xs. smap (\<lambda>_. earn_fate_point) ns sh = (Inr xs, sh\<lparr>fate_points := fate_points sh + int (length ns)\<rparr>)"
proof (induction ns arbitrary: sh)
  case (Cons n ns)
  obtain xs where "smap (\<lambda>_. earn_fate_point) ns (sh\<lparr>fate_points := fate_points sh + 1\<rparr>) =
      (Inr xs, sh\<lparr>fate_points := fate_points sh + 1 + int (length ns)\<rparr>)" using Cons[of "sh\<lparr>fate_points := fate_points sh + 1\<rparr>"] by auto
  then show ?case by (simp add: ret_def sbind_def earn_fate_point_def[of sh] add.assoc)
qed (simp add: ret_def)

lemma concede_effect:
  assumes "sheet_of res w actor = Some sh" and "seated actor w = Some a"
  shows "\<exists>ss. concede_in_conflict res actor w =
    (Inr (int (1 + filled_slots sh)), w\<lparr>sheets := ss, scene := maybe_resolve_side_cleared (withdraw actor (scene w))\<rparr>)"
proof -
  obtain xs sh' where "smap (\<lambda>_. earn_fate_point) [0 ..< 1 + filled_slots sh] sh = (Inr xs, sh')"
    using earn_many[of "[0 ..< 1 + filled_slots sh]" sh] by blast
  then have "concede_in_conflict res actor w = (Inr (int (1 + filled_slots sh)),
      w\<lparr>sheets := AList.update (the (res actor)) (Some sh') (sheets w), scene := maybe_resolve_side_cleared (withdraw actor (scene w))\<rparr>)"
    using assms by (simp add: concede_in_conflict_def on_sheet_def sthen_def sbind_def on_scene_def modify_def ret_def Let_def del: upt_Suc)
  then show ?thesis by blast
qed

definition fails :: "('s \<Rightarrow> bool) \<Rightarrow> ('s, 'a) sm \<Rightarrow> bool" where
  "fails Q m \<longleftrightarrow> (\<forall>w. Q w \<longrightarrow> (\<exists>e w'. m w = (Inl e, w') \<and> Q w'))"

lemma fails_sbind:
  assumes "keeps Q m" and "\<And>x. fails Q (f x)"
  shows "fails Q (sbind m f)"
  unfolding fails_def
proof (intro allI impI)
  fix w
  assume q: "Q w"
  obtain r w' where m: "m w = (r, w')" by fastforce
  then have "Q w'" using sm_keepsD[OF assms(1) q] by simp
  then show "\<exists>e w'. sbind m f w = (Inl e, w') \<and> Q w'" using m assms(2) by (cases r) (simp_all add: sbind_def fails_def)
qed

lemma fails_here:
  assumes "fails Q m"
  shows "fails Q (sbind m f)"
  unfolding fails_def
proof (intro allI impI)
  fix w
  assume "Q w"
  then obtain e w' where "m w = (Inl e, w')" "Q w'" using assms by (auto simp: fails_def)
  then show "\<exists>e w'. sbind m f w = (Inl e, w') \<and> Q w'" by (simp add: sbind_def)
qed

abbreviation committed_as :: "sealed_commit list \<Rightarrow> fate_world \<Rightarrow> bool" where
  "committed_as cs w \<equiv> fate_commits (scene w) = cs"

lemma pay_commits: "keeps (committed_as cs) (pay_invoke res actor p)" and roll_commits: "keeps (committed_as cs) (\<lambda>w. roll_action (f w) opp bonus reroll faces w)"
  and flourish_commits: "keeps (committed_as cs) (on_scene (flourish actor p))"
proof -
  have sheet: "keeps (committed_as cs) (on_sheet res n err m)" for n err and m :: "(fate_sheet, 'z) sm"
    by (auto simp: keeps_def on_sheet_def split_beta split: option.split)
  have tape: "keeps (committed_as cs) (on_tape m)" for m :: "(rng, 'z) sm" by (simp add: keeps_def on_tape_def split_beta)
  show "keeps (committed_as cs) (pay_invoke res actor p)" unfolding pay_invoke_def by (auto simp: sheet wp)
  have "keeps (committed_as cs) (roll_action r opp bonus reroll faces)" for r
    unfolding roll_action_def by (cases faces) (auto simp: wp intro!: keeps_sbind tape)
  then show "keeps (committed_as cs) (\<lambda>w. roll_action (f w) opp bonus reroll faces w)" by (simp add: keeps_def)
  show "keeps (committed_as cs) (on_scene (flourish actor p))" by (simp add: keeps_def on_scene_def modify_def flourish_def)
qed

lemma committed_act_fails:
  assumes "actor \<in> cm_actor ` set cs"
  shows "fails (committed_as cs) (act_and_seal res rno actor act p faces)"
proof -
  have "fails (committed_as cs) (sthen (seal_fate_commit (commit_of actor act p o')) k)" for o' and k :: "(fate_world, dispatch_result) sm"
    using assms unfolding sthen_def by (intro fails_here) (auto simp: fails_def seal_fate_commit_def commit_of_def)
  then show ?thesis unfolding act_and_seal_def sthen_def[of "on_scene _"]
    by (intro fails_sbind flourish_commits pay_commits roll_commits)
qed

lemma committed_dispatch_fails:
  assumes "b \<in> cm_actor ` set (fate_commits (scene v))" and "pl_verb p = Proactive act"
  shows "\<exists>e w2. dispatch_fate_action res slug rno b p faces v = (Inl e, w2) \<and> fate_commits (scene w2) = fate_commits (scene v)"
  using committed_act_fails[OF assms(1), of res rno act p faces] assms(2) by (simp add: dispatch_fate_action_def fails_def)


section \<open>The tally of a contest\<close>

abbreviation in_contest :: "contest_state option \<Rightarrow> encounter \<Rightarrow> fate_world \<Rightarrow> bool" where
  "in_contest ct e w \<equiv> contest (scene w) = ct \<and> base_enc (scene w) = e"

lemma seat_opponents_frame: "keeps (in_contest ct e) (seat_opponent_commits res mental)"
proof -
  have tape: "keeps (in_contest ct e) (on_tape m)" for m :: "(rng, 'z) sm" by (simp add: keeps_def on_tape_def split_beta)
  have seal: "keeps (in_contest ct e) (seal_fate_commit c)" for c
    by (auto simp: keeps_def seal_fate_commit_def on_scene_def modify_def)
  have k: "keeps (in_contest ct e) (sbind (on_tape m) (\<lambda>o'. seal_fate_commit (f o')))" for m and f :: "fate_outcome \<Rightarrow> sealed_commit"
    by (intro keeps_sbind tape seal)
  have "keeps (in_contest ct e) (seat_opponent res mental n)" for n
  proof (rule keepsI)
    fix w
    assume s: "in_contest ct e w"
    show "in_contest ct e (snd (seat_opponent res mental n w))"
      unfolding seat_opponent_def using sm_keepsD[OF k s] s by (auto split: sum.split option.split)
  qed
  then have f: "keeps (in_contest ct e) (sforeach (\<lambda>n. if n \<in> d then ret () else seat_opponent res mental n) ns)" for d ns
    by (intro wp)
  show ?thesis
  proof (rule keepsI)
    fix w
    assume "in_contest ct e w"
    from sm_keepsD[OF f this] show "in_contest ct e (snd (seat_opponent_commits res mental w))" unfolding seat_opponent_commits_def Let_def .
  qed
qed

lemma score_contest_step:
  assumes "score_contest p q ct = (ct', boosted, hints)"
  shows "contest_target ct' = contest_target ct \<and>
    (player_victories ct' = player_victories ct \<and> opponent_victories ct' - opponent_victories ct \<in> {0, 1, 2} \<or>
     opponent_victories ct' = opponent_victories ct \<and> player_victories ct' - player_victories ct \<in> {1, 2})"
  using assms by (auto simp: score_contest_def victory_delta_def split: option.splits if_splits prod.splits)

lemma boosts_frame: "base_enc (fold (\<lambda>n. add_situation (f n) k 1) ns sc) = base_enc sc"
  by (induction ns arbitrary: sc) (simp_all add: add_situation_def)

text \<open>
  C36. One exchange of an undecided contest: at most one side gains, one victory or two; neither passes the target by more
  than one; the contest is over exactly when one side has reached its target, which is then the only one; the phase
  of the encounter is left as it was, and the barrier is empty for the next exchange.
\<close>

theorem contest_tally_bounded:
  assumes "contest (scene w) = Some ct" and "player_victories ct < contest_target ct" and "opponent_victories ct < contest_target ct"
    and "\<not> is_resolved w" and "run_fate_contest_exchange res w = (Inr r, w')"
  shows "\<exists>ct'. contest (scene w') = Some ct' \<and> contest_target ct' = contest_target ct \<and>
    (player_victories ct' = player_victories ct \<and> opponent_victories ct' - opponent_victories ct \<in> {0, 1, 2} \<or>
     opponent_victories ct' = opponent_victories ct \<and> player_victories ct' - player_victories ct \<in> {1, 2}) \<and>
    player_victories ct' \<le> contest_target ct + 1 \<and> opponent_victories ct' \<le> contest_target ct + 1 \<and>
    (is_resolved w' \<longleftrightarrow> contest_target ct \<le> player_victories ct' \<or> contest_target ct \<le> opponent_victories ct') \<and>
    \<not> (contest_target ct \<le> player_victories ct' \<and> contest_target ct \<le> opponent_victories ct') \<and>
    structured_phase (base_enc (scene w')) = structured_phase (base_enc (scene w)) \<and> fate_commits (scene w') = []"
proof -
  obtain x w1 where seat: "seat_opponent_commits res (is_mental w) w = (x, w1)" by fastforce
  then have f: "in_contest (Some ct) (base_enc (scene w)) w1"
    using sm_keepsD[OF seat_opponents_frame[of "Some ct" "base_enc (scene w)" res "is_mental w"], of w] assms(1) by simp
  obtain ct' boosted hints where sc: "score_contest (best_of Player w1) (best_of Opponent w1) ct = (ct', boosted, hints)"
    by (metis prod_cases3)
  have w': "contest (scene w') = Some ct'" "fate_commits (scene w') = []" "base_enc (scene w') = settle_contest ct' (base_enc (scene w))"
    using assms(1,5) seat sc f
    by (cases x; auto simp: run_fate_contest_exchange_def sthen_def sbind_def boosts_frame Let_def)+
  have st: "is_resolved w' \<longleftrightarrow> contest_target ct' \<le> player_victories ct' \<or> contest_target ct' \<le> opponent_victories ct'"
    "structured_phase (base_enc (scene w')) = structured_phase (base_enc (scene w))"
    using assms(4) by (auto simp: is_resolved_def w'(3) settle_contest_def)
  show ?thesis using w' st score_contest_step[OF sc] assms(2,3) by auto
qed

section \<open>Concrete runs\<close>

definition brawl_actor :: "actor_side \<Rightarrow> string \<Rightarrow> encounter_actor" where
  "brawl_actor s n = \<lparr>actor_name = n, role = ''combatant'', side = s, withdrawn = False, display_name = None, stats = None\<rparr>"

definition brawl_metric :: encounter_metric where
  "brawl_metric = \<lparr>metric_name = ''fate'', metric_current = 0, starting = 0, threshold = 1\<rparr>"

definition brawl :: encounter where
  "brawl = \<lparr>encounter_type = ''combat'', win_condition = FateConflict, player_metric = brawl_metric, opponent_metric = brawl_metric, beat = 0,
     structured_phase = None, actors = [brawl_actor Player ''Ava'', brawl_actor Player ''Ned'', brawl_actor Opponent ''Brute''],
     pending_compels = [], tags = [], enc_outcome = None, resolved = False, morale_events = [], flee_consequence_pending = None,
     opponents_disposition = None, taunt = no_taunt, last_beat_impacts = []\<rparr>"

definition sealed :: "string \<Rightarrow> string \<Rightarrow> int \<Rightarrow> sealed_commit" where
  "sealed n t x = \<lparr>cm_actor = n, cm_action = Attack, cm_skill = ''Fight'', cm_target = Some t, cm_difficulty = 0, cm_total = x, cm_dice = [0, 0, 0, 0],
     cm_aspect = []\<rparr>"

definition brawl_world :: "sealed_commit list \<Rightarrow> contest_state option \<Rightarrow> fate_world" where
  "brawl_world cs ct = \<lparr>in_encounter = True,
     scene = \<lparr>base_enc = brawl, scene_category = ''combat'', fate_commits = cs, pending_defenses = [], contest = ct, situation_aspects = [],
       scene_zones = [], resolution_log = [], narrator_hints = []\<rparr>,
     pc_names = [''Ava'', ''Ned''], sheets = map (\<lambda>n. (n, Some empty_sheet)) [''Ava'', ''Ned'', ''Brute''], tape = [1, 1, 1, 1]\<rparr>"

definition verb :: "player_verb \<Rightarrow> action_payload" where
  "verb v = \<lparr>pl_verb = v, pl_skill = ''Fight'', pl_target = Some ''Brute'', pl_difficulty = 0, pl_invoke = [], pl_mode = ''bonus'', pl_aspect = [],
     pl_flourish = []\<rparr>"

lemma fresh_ok: "sheet_ok empty_sheet"
  by (auto simp: sheet_ok_def empty_sheet_def default_stress_def default_consequences_def CONSEQUENCE_VALUES_def Let_def split: if_splits)



text \<open>Three shifts against a fresh sheet check the larger box and fill the mild slot.\<close>

theorem hit_is_absorbed_up_to_capacity_witness:
  "\<exists>sh' boxes'. absorb_shifts ''physical'' 3 ''Brute'' empty_sheet = (Inr True, sh') \<and> map_of (stress sh') ''physical'' = Some boxes' \<and>
    length (filter checked boxes') \<le> 1"
proof -
  let ?boxes = "[\<lparr>box_value = 1, checked = False\<rparr>, \<lparr>box_value = 2, checked = False\<rparr>]"
  have t: "map_of (stress empty_sheet) ''physical'' = Some ?boxes" and r: "3 \<le> box_room ?boxes + slot_room empty_sheet" by code_simp+
  show ?thesis using hit_is_absorbed_up_to_capacity[OF fresh_ok t, of 3 "''Brute''"] r by auto
qed

text \<open>Ned conceded to Brute and then beat a second attack with a roll: the concession is as if it had not been made.\<close>

definition answer :: "string \<Rightarrow> int option \<Rightarrow> bool \<Rightarrow> pending_defense" where
  "answer n x b = \<lparr>pd_request = n, pd_attacker = n, pd_defender = ''Ned'', pd_attack_skill = ''Fight'', pd_attack_total = 2, pd_mental = False,
     pd_total = x, pd_conceded = b, pd_skill = ''Athletics''\<rparr>"


theorem contest_tally_bounded_witness:
  "\<exists>w'. snd (run_fate_contest_exchange Some (brawl_world [sealed ''Ava'' ''Brute'' 3, sealed ''Brute'' ''Ava'' 0]
      (Some \<lparr>contest_target = 3, player_victories = 2, opponent_victories = 2\<rparr>))) = w' \<and> is_resolved w' \<and> fate_commits (scene w') = []"
proof -
  let ?ct = "\<lparr>contest_target = 3, player_victories = 2, opponent_victories = 2\<rparr>"
  let ?w = "brawl_world [sealed ''Ava'' ''Brute'' 3, sealed ''Brute'' ''Ava'' 0] (Some ?ct)"
  have h: "contest (scene ?w) = Some ?ct" "player_victories ?ct < contest_target ?ct" "opponent_victories ?ct < contest_target ?ct" "\<not> is_resolved ?w"
    by code_simp+
  have *: "map_prod (map_sum (\<lambda>_. ()) cr_resolved) (\<lambda>w. is_resolved w) (run_fate_contest_exchange Some ?w) = (Inr True, True)" by code_simp
  obtain r w' where r: "run_fate_contest_exchange Some ?w = (Inr r, w')"
    using * by (cases "run_fate_contest_exchange Some ?w"; cases "fst (run_fate_contest_exchange Some ?w)") auto
  from contest_tally_bounded[OF h r] * r show ?thesis by auto
qed

end
