(* ===== verification/Spec2Isabelle.thy ===== *)
theory Spec2Isabelle
  imports Region_Properties Rig_Properties Table_Properties Turn Dice Lore Entities Resources
    Encounter_Properties Tactical_Properties Wn_Properties Interior_Braids Projection_Cache
    Scenario_Properties Scenario_Verdicts Trope_Properties Relationships Pacing Mutation_Properties Magic_Encounters Fate_Properties
begin

text \<open>
  A verification library for the game core of the SideQuest server (src/sidequest). The server runs a
  narrated role-playing game: clients send inputs over a websocket, a turn manager collects them, the
  game core resolves dice, encounters, table games and vehicles against a state snapshot, generators
  extend the world, and a language model narrates. What decides the state of the game is modelled; what
  talks to the outside (websocket, database, language model, embedding daemon, telemetry) is not, or is
  a parameter.

  \<^bold>\<open>Conventions\<close> (Prelude). A Python exception is a value of \<open>py_error\<close>. Code that mutates an
  object or draws from a generator is a function \<open>('s, 'a) sm\<close> that returns its result or exception
  with the state it leaves, so that mutations made before a raise are visible. \<open>random.Random\<close> is a
  tape of raw draws turned into values as CPython does; theorems hold for every tape. A dict is an
  association list in insertion order. Floats (Float64) are rationals rounded to binary64 by a concrete
  rounding function. Strings are ASCII.

  \<^bold>\<open>Parts\<close>
  \<^item> \<^bold>\<open>Region graph\<close> (dungeon/region_graph): Region_Model has the map, Graph_Search the breadth-first
    loop with its termination and exactness, Region_Cycles the cycle space, Region_Generator the
    invariants, candidate builder, reroll loop and attach step, Region_Candidate and Region_Attach the
    lemmas, Region_Properties the theorems. The reroll loop runs the configured number of attempts, so
    no fuel is needed; the seed hash is a parameter.
  \<^item> \<^bold>\<open>Creatures and rigs\<close> (game/status, creature_core, rig_composure_pool, rig_crash,
    war_rig_combat, war_rig_command, vehicle_combat): Creature, Rigs, Rig_Properties. The locale
    \<open>bounded_pool\<close> is the contract of a clamped pool, interpreted on hit points, rig composure and hull.
  \<^item> \<^bold>\<open>Table games\<close> (game/table): Table_Engine has the decision-point engine over a registry of kinds
    and the locale \<open>lawful_game\<close> of what a kind promises; Table_Poker and Table_Kinds have the kinds,
    their interpretations and the NPC policy; Table_Properties the theorems.
  \<^item> \<^bold>\<open>Turn manager\<close> (game/turn): Turn.
  \<^item> \<^bold>\<open>Dice\<close> (game/dice, protocol/dice): Dice.
  \<^item> \<^bold>\<open>Lore and entity indexes\<close> (game/lore_store, lore_embedding, entity_card, entity_store,
    entity_embedding): Embedding_Worker has the worker loop with explicit interleavings and the locales
    \<open>embedding_index\<close> and \<open>stable_index\<close>; Embedding_Store the shared store operations; Lore and Entities
    instantiate and interpret them.
  \<^item> \<^bold>\<open>Resource pools\<close> (game/thresholds, resource_pool, the resource mutators of game/session,
    genre/models/rules): Resources has the clamped pool, patches, decay, threshold crossings and the
    minting of threshold lore, with its theorems.
  \<^item> \<^bold>\<open>Encounters\<close> (game/encounter, encounter_tag, taunt, hp_depletion, beat_kinds, opposed_check,
    morale, the morale helpers of server/narration_apply): Encounter has the scene and its queries, Beats
    the beat engine step by step, Beat_Laws what each step may change, Opposed the numerical advantage and
    the opposed check, Morale the triggers and what a broken side does, Encounter_Properties the theorems.
    A creature is reached through the edge resolver, a map from names to positions of a core store, so
    two names of one creature alias as in the code.
  \<^item> \<^bold>\<open>Tactical grid\<close> (game/tactical, dungeon/tactical): Tactical_Grid has the room mask, the movement
    flood, the verdict on a path, rays, reach and areas; Tactical_Zones the projection of the floor into
    zones; Tactical_Seating the derivation of a room and the seating of actors; Tactical_Properties the
    theorems. The flood and the rays end by a measure, so no fuel is needed; the hash that seeds a room
    is a parameter.
  \<^item> \<^bold>\<open>Without Number rules\<close> (game/ruleset/base, without_number, swn, cwn, awn, wwn, dial, combat_rules,
    resolution, game/lethality, system_strain, wwn_magic): Wn_Core has the configuration, attributes,
    ranges, attacks, checks, saves, initiative and damage; Wn_Lethality shock, trauma, strain, injuries,
    effort, disciplines and spells; Wn_Chargen ability scores, grants and starting resources;
    Wn_Properties the locale \<open>allowance\<close> of a resource that is spent or refused, interpreted on effort
    pools and spell casts, and the theorems. Awn adds nothing to Cwn and shares its configuration.
  \<^item> \<^bold>\<open>Event projection\<close> (game/projection, projection_filter, event_log, pg/events, server/views, the
    fan-out of server/emitters, agents/perception_rewriter): Projection has JSON payloads, field paths and
    masks, predicates, the structural stage and the rule stage with the sharing of payload and working
    copy written out; Projection_Pipeline the validator of rules, the session view, companions, the
    perception pass, the event log with its decision cache and the turn transaction. Projection_Firewall
    has an access policy that the filter refines and that packs can only tighten, Projection_Redaction that
    a masked field does not influence what a player receives, Projection_Delivery who a secret reaches and
    that validated rules do not raise, Projection_Cache the transaction, the lazy fill and pruning. The
    flattening of a schema ends by a measure; the registry of message classes is a parameter.
  \<^item> \<^bold>\<open>Dungeon interiors\<close> (dungeon/interiors): Interiors has the four carving algorithms, braiding and the
    dispatcher; Interior_Mazes shows that the depth-first maze is perfect, Interior_Rooms, Interior_Properties
    and Interior_Braids that what the others carve is walkable and what braiding removes. The loops end by a
    measure on the uncarved cells.
  \<^item> \<^bold>\<open>Beliefs and scenarios\<close> (game/belief_state, gossip_engine, scenario_state, accusation,
    genre/models/scenario, server/dispatch/scenario_bind, scenario_clue_intake, scenario_accusation): Beliefs has
    what NPCs believe and the two-phase gossip engine; Scenario the bound scenario, clues from footnotes,
    evidence and verdicts; Scenario_Properties the reachable states of a scenario in play, Scenario_Verdicts
    binding and verdicts. The power function behind the chain-of-custody decay is a parameter.
  \<^item> \<^bold>\<open>Tropes\<close> (game/trope_tick, trope_time_skip, trope_tuning, zone_eligibility): Tropes has the passes of a
    tick, the time skip and the zones; Trope_Properties what a tick keeps, the cooldown, the starvation of the
    activation gate and what a time skip fires.
  \<^item> \<^bold>\<open>Dispositions and relationships\<close> (game/disposition, projection/relationships,
    server/websocket_handlers/relationships_emit): Relationships has the bands, the beat log, the panel and the
    signature that decides when it is sent, with its theorems.
  \<^item> \<^bold>\<open>Pacing\<close> (game/tension_tracker): Pacing has the tension tracker and its bounds.
  \<^item> \<^bold>\<open>Mutations\<close> (mutation): Mutations has the catalog, the rolls, acquisition, saints, stocks and use;
    Mutation_Properties the reachable states of the economy and what a power costs. The digest behind a roll is
    a parameter.
  \<^item> \<^bold>\<open>Magic\<close> (magic, game/chassis, the magic parts of server/narration_apply): Magic has the ledger of bars, the
    serialized bar keys and the charging of a working; Magic_Casting the validator and its plugins, slots, casts
    and reliquaries; Magic_Confrontations triggers, chassis bonds, mandatory outputs, status promotions and a
    turn's working from the patch to the crossings; Magic_Properties the reachable ledgers and what a working charges,
    Magic_Sessions slots and reliquaries over a session, Magic_Examples the concrete runs, Magic_Encounters that the
    outcome an encounter records selects no branch. The save resolver and the classifier of an item are parameters.
  \<^item> \<^bold>\<open>Text sanitizer\<close> (protocol/sanitize): Sanitize has the expressions as matchers and the passes, and that no
    preamble it blocks is left in what it returns.
  \<^item> \<^bold>\<open>Fate\<close> (game/fate_sheet, fate_opponent, ruleset/fate, fate_resolution, fate_gear, fate_item_promotion,
    fate_chargen, fate_projection, server/dispatch/fate_conflict, fate_contest, handlers/fate_action, fate_throw): Fate
    has rolls, sheets, the economy and gear; Fate_Chargen building a sheet; Fate_Conflict sealed actions, opponents,
    defenses and the walk of an exchange; Fate_Dispatch the entry points, contests, handlers and zones;
    Fate_Projection what is shown. Fate_Laws shows what a hit costs, Fate_Runs that every entry point only wears
    sheets, Fate_Defenses which recorded defense counts, Fate_Properties campaigns, concessions and contests. Messages
    are ASCII (a dash is written --); broadcasts and the presence stamp of a contest are not modelled.

  \<^bold>\<open>Not modelled\<close>: the websocket server and handlers beyond the fan-out of events, agents and prompts,
  genre-pack loading, database persistence beyond the event log, telemetry, media, orbital charts, the
  character-creation wizard, the depth score of regions, the political engine.
\<close>

end
